(* ===== verification/Prelude.thy ===== *)
theory Prelude
  imports Complex_Main "HOL-Library.AList" "HOL-Library.Sublist" "HOL-Library.Multiset"
begin

text \<open>
  What the components share: Python's numbers, strings, dictionaries and sequences as the models
  use them, the collections that carry the proofs, and the generic lemmas about them.

  A Python \<^verbatim>\<open>float\<close> is an exact \<^typ>\<open>real\<close>: the rounding of the single IEEE operations is
  left out, while every call of \<^verbatim>\<open>round(x, 4)\<close> in the source is kept (round half to even).
  A \<^verbatim>\<open>str\<close> is a \<^typ>\<open>string\<close> whose characters are the code points 0 to 255.  A \<^verbatim>\<open>dict\<close> is an
  association list with Python's order: writing an existing key keeps its place, writing a new
  key appends it.
\<close>

named_theorems unit_bounds \<open>facts that a score lies in the unit interval\<close>
named_theorems dict_laws \<open>lookup after an operation on an ordered dictionary\<close>

section \<open>Numbers\<close>

definition round_half_even :: "real \<Rightarrow> int" where
  "round_half_even x =
     (let n = \<lfloor>x\<rfloor>; d = x - of_int n in
      if d < 1 / 2 then n else if d > 1 / 2 then n + 1 else if even n then n else n + 1)"

definition round4 :: "real \<Rightarrow> real" where
  "round4 x = of_int (round_half_even (x * 10000)) / 10000"

definition round1 :: "real \<Rightarrow> real" where
  "round1 x = of_int (round_half_even (x * 10)) / 10"

definition round2 :: "real \<Rightarrow> real" where
  "round2 x = of_int (round_half_even (x * 100)) / 100"

lemma round_half_even_error: "\<bar>of_int (round_half_even x) - x\<bar> \<le> 1 / 2"
  unfolding round_half_even_def Let_def by (simp add: abs_le_iff; linarith?)

lemma round_half_even_of_int [simp]: "round_half_even (of_int n) = n"
  unfolding round_half_even_def by simp

lemma round_half_even_numeral [simp]:
  "round_half_even 0 = 0" "round_half_even 1 = 1" "round_half_even (numeral k) = numeral k"
  using round_half_even_of_int [of 0] round_half_even_of_int [of 1]
    round_half_even_of_int [of "numeral k"] by simp_all

lemma round_half_even_mono: "x \<le> y \<Longrightarrow> round_half_even x \<le> round_half_even y"
proof -
  assume le: "x \<le> y"
  have fl: "\<lfloor>x\<rfloor> \<le> \<lfloor>y\<rfloor>" using le by (rule floor_mono)
  have lo: "\<lfloor>y\<rfloor> \<le> round_half_even y" and hi: "round_half_even x \<le> \<lfloor>x\<rfloor> + 1"
    unfolding round_half_even_def Let_def by auto
  show ?thesis
  proof (cases "\<lfloor>x\<rfloor> = \<lfloor>y\<rfloor>")
    case True
    then show ?thesis using le unfolding round_half_even_def Let_def by auto
  next
    case False
    then show ?thesis using fl lo hi by linarith
  qed
qed

lemma round4_error: "\<bar>round4 x - x\<bar> \<le> 1 / 20000"
  using round_half_even_error [of "x * 10000"] unfolding round4_def by (simp add: abs_le_iff field_simps)

lemma round4_mono: "x \<le> y \<Longrightarrow> round4 x \<le> round4 y"
  unfolding round4_def by (intro divide_right_mono) (simp_all add: round_half_even_mono)

lemma round4_of_nat [simp]: "round4 0 = 0" "round4 1 = 1"
  unfolding round4_def by simp_all

lemma round4_grid: "round4 (of_int n / 10000) = of_int n / 10000"
  unfolding round4_def by simp

lemma round4_idem [simp]: "round4 (round4 x) = round4 x"
  by (simp add: round4_def)

lemma round4_ge: "of_int n / 10000 \<le> x \<Longrightarrow> of_int n / 10000 \<le> round4 x"
  using round4_mono [of "of_int n / 10000" x] by (simp add: round4_grid)

lemma round4_le: "x \<le> of_int n / 10000 \<Longrightarrow> round4 x \<le> of_int n / 10000"
  using round4_mono [of x "of_int n / 10000"] by (simp add: round4_grid)

lemma round4_nonneg [unit_bounds]: "0 \<le> x \<Longrightarrow> 0 \<le> round4 x"
  using round4_mono [of 0 x] by simp

lemma round4_le_one [unit_bounds]: "x \<le> 1 \<Longrightarrow> round4 x \<le> 1"
  using round4_mono [of x 1] by simp

lemma round4_nonpos: "x \<le> 0 \<Longrightarrow> round4 x \<le> 0"
  using round4_mono [of x 0] by simp

definition clamp01 :: "real \<Rightarrow> real" where
  "clamp01 x = max 0 (min 1 x)"

lemma clamp01_range [unit_bounds, simp]: "0 \<le> clamp01 x" "clamp01 x \<le> 1"
  unfolding clamp01_def by auto

lemma clamp01_id: "0 \<le> x \<Longrightarrow> x \<le> 1 \<Longrightarrow> clamp01 x = x"
  unfolding clamp01_def by auto

text \<open>The source's \<^verbatim>\<open>sum(xs) / len(xs) if xs else 0.0\<close>.\<close>

definition mean_of :: "real list \<Rightarrow> real" where
  "mean_of xs = (if xs = [] then 0 else sum_list xs / of_nat (length xs))"

lemma sum_list_bounds:
  fixes xs :: "real list"
  assumes "\<And>x. x \<in> set xs \<Longrightarrow> lo \<le> x" "\<And>x. x \<in> set xs \<Longrightarrow> x \<le> hi"
  shows "lo * of_nat (length xs) \<le> sum_list xs \<and> sum_list xs \<le> hi * of_nat (length xs)"
  using assms by (induction xs) (auto simp: algebra_simps intro: add_mono)

lemma mean_of_bounds:
  assumes "xs \<noteq> []" "\<And>x. x \<in> set xs \<Longrightarrow> lo \<le> x" "\<And>x. x \<in> set xs \<Longrightarrow> x \<le> hi"
  shows "lo \<le> mean_of xs \<and> mean_of xs \<le> hi"
  using assms sum_list_bounds [of xs lo hi]
  unfolding mean_of_def by (auto simp: field_simps)

lemma mean_of_unit [unit_bounds]:
  assumes "\<And>x. x \<in> set xs \<Longrightarrow> 0 \<le> x \<and> x \<le> 1"
  shows "0 \<le> mean_of xs" "mean_of xs \<le> 1"
  using mean_of_bounds [of xs 0 1] assms by (cases "xs = []"; auto simp: mean_of_def)+

lemma sum_list_eq_0_iff_nonneg:
  fixes xs :: "real list"
  assumes "\<And>x. x \<in> set xs \<Longrightarrow> 0 \<le> x"
  shows "sum_list xs = 0 \<longleftrightarrow> (\<forall>x \<in> set xs. x = 0)"
  using assms
proof (induction xs)
  case (Cons a xs)
  have "0 \<le> sum_list xs" using Cons.prems by (intro sum_list_nonneg) auto
  then show ?case using Cons by (auto simp: add_nonneg_eq_0_iff)
qed simp

section \<open>Strings\<close>

text \<open>The white space of \<^verbatim>\<open>str.split()\<close> and the case mapping of \<^verbatim>\<open>str.lower()\<close> on the code points 0 to 255.\<close>

definition py_space :: "char \<Rightarrow> bool" where
  "py_space c = (let n = (of_char c :: nat) in
     (9 \<le> n \<and> n \<le> 13) \<or> (28 \<le> n \<and> n \<le> 32) \<or> n = 133 \<or> n = 160)"

definition py_lower_char :: "char \<Rightarrow> char" where
  "py_lower_char c = (let n = (of_char c :: nat) in
     if (65 \<le> n \<and> n \<le> 90) \<or> (192 \<le> n \<and> n \<le> 222 \<and> n \<noteq> 215) then char_of (n + 32) else c)"

definition py_lower :: "string \<Rightarrow> string" where
  "py_lower s = map py_lower_char s"

fun split_from :: "string \<Rightarrow> string \<Rightarrow> string list" where
  "split_from acc [] = (if acc = [] then [] else [rev acc])"
| "split_from acc (c # cs) =
     (if py_space c then (if acc = [] then split_from [] cs else rev acc # split_from [] cs)
      else split_from (c # acc) cs)"

definition py_split :: "string \<Rightarrow> string list" where
  "py_split s = split_from [] s"

fun join_with :: "string \<Rightarrow> string list \<Rightarrow> string" where
  "join_with sep [] = []"
| "join_with sep [x] = x"
| "join_with sep (x # y # ys) = x @ sep @ join_with sep (y # ys)"

definition nl :: string where
  "nl = [CHR 0x0A]"

definition em_dash :: string where
  "em_dash = [CHR 0xE2, CHR 0x80, CHR 0x94]"

text \<open>The decimal digits of \<^verbatim>\<open>str(n)\<close>.\<close>

fun nat_str :: "nat \<Rightarrow> string" where
  "nat_str n = (if n < 10 then [char_of (48 + n)] else nat_str (n div 10) @ [char_of (48 + n mod 10)])"

declare nat_str.simps [simp del]

definition int_str :: "int \<Rightarrow> string" where
  "int_str i = (if i < 0 then ''-'' @ nat_str (nat (- i)) else nat_str (nat i))"

text \<open>\<^verbatim>\<open>format(x, ".nf")\<close> and \<^verbatim>\<open>format(x, ".n%")\<close>.\<close>

definition fmt_fixed :: "nat \<Rightarrow> real \<Rightarrow> string" where
  "fmt_fixed n x =
     (let k = nat (round_half_even (\<bar>x\<bar> * 10 ^ n));
          whole = nat_str (k div 10 ^ n);
          frac = nat_str (k mod 10 ^ n)
      in (if x < 0 then ''-'' else []) @
         (if n = 0 then whole else whole @ ''.'' @ replicate (n - length frac) CHR ''0'' @ frac))"

definition fmt_percent :: "nat \<Rightarrow> real \<Rightarrow> string" where
  "fmt_percent n x = fmt_fixed n (x * 100) @ [CHR 0x25]"

definition starts_with :: "string \<Rightarrow> string \<Rightarrow> bool" where
  "starts_with p s = (take (length p) s = p)"

text \<open>\<^verbatim>\<open>pat in s\<close>.\<close>

fun occurs_in :: "string \<Rightarrow> string \<Rightarrow> bool" where
  "occurs_in pat [] = (pat = [])"
| "occurs_in pat (c # cs) = (starts_with pat (c # cs) \<or> occurs_in pat cs)"

text \<open>\<^verbatim>\<open>s.replace(old, new)\<close> for a non-empty \<^verbatim>\<open>old\<close>, and \<^verbatim>\<open>s.split(sep)\<close> for one character.\<close>

function py_replace :: "string \<Rightarrow> string \<Rightarrow> string \<Rightarrow> string" where
  "py_replace old new [] = []"
| "py_replace old new (c # cs) =
     (if old \<noteq> [] \<and> starts_with old (c # cs) then new @ py_replace old new (drop (length old) (c # cs))
      else c # py_replace old new cs)"
  by pat_completeness auto
termination
  by (relation "measure (\<lambda>(_, _, s). length s)") (auto simp: Suc_le_eq)

fun split_on :: "char \<Rightarrow> string \<Rightarrow> string list" where
  "split_on sep [] = [[]]"
| "split_on sep (c # cs) =
     (if c = sep then [] # split_on sep cs
      else case split_on sep cs of [] \<Rightarrow> [[c]] | w # ws \<Rightarrow> (c # w) # ws)"

text \<open>
  The text of a source-code value: \<open>VNum x\<close> is a text that \<^verbatim>\<open>float()\<close> parses to \<open>x\<close>, \<open>VText\<close> one it rejects.
\<close>

datatype code_value = VNum real | VText string

section \<open>Dictionaries\<close>

type_synonym ('k, 'v) dict = "('k \<times> 'v) list"

abbreviation dkeys :: "('k, 'v) dict \<Rightarrow> 'k list" where
  "dkeys d \<equiv> map fst d"

abbreviation dvalues :: "('k, 'v) dict \<Rightarrow> 'v list" where
  "dvalues d \<equiv> map snd d"

abbreviation dset :: "'k \<Rightarrow> 'v \<Rightarrow> ('k, 'v) dict \<Rightarrow> ('k, 'v) dict" where
  "dset \<equiv> AList.update"

abbreviation ddel :: "'k \<Rightarrow> ('k, 'v) dict \<Rightarrow> ('k, 'v) dict" where
  "ddel \<equiv> AList.delete"

definition dget :: "('k, 'v) dict \<Rightarrow> 'k \<Rightarrow> 'v \<Rightarrow> 'v" where
  "dget d k dflt = (case map_of d k of None \<Rightarrow> dflt | Some v \<Rightarrow> v)"

definition well_keyed :: "('k, 'v) dict \<Rightarrow> bool" where
  "well_keyed d = distinct (map fst d)"

lemma map_of_dset [dict_laws, simp]: "map_of (dset k v d) = (map_of d)(k \<mapsto> v)"
  by (simp add: update_conv')

lemma map_of_ddel [dict_laws, simp]: "map_of (ddel k d) = (map_of d)(k := None)"
  by (simp add: delete_conv')

lemma well_keyed_dset [dict_laws, simp]: "well_keyed d \<Longrightarrow> well_keyed (dset k v d)"
  by (simp add: well_keyed_def distinct_update)

lemma well_keyed_ddel [dict_laws, simp]: "well_keyed d \<Longrightarrow> well_keyed (ddel k d)"
  by (simp add: well_keyed_def distinct_delete)

lemma well_keyed_Nil [simp]: "well_keyed []"
  by (simp add: well_keyed_def)

lemma dkeys_dset: "dkeys (dset k v d) = (if k \<in> set (dkeys d) then dkeys d else dkeys d @ [k])"
  by (simp add: update_keys)

lemma map_of_eq_None_keys: "map_of d k = None \<longleftrightarrow> k \<notin> set (dkeys d)"
  by (simp add: map_of_eq_None_iff)

lemma set_dset: "set (dset k v d) \<subseteq> insert (k, v) (set d)"
  by (induction d) auto

lemma set_ddel: "set (ddel k d) \<subseteq> set d"
  by (induction d) auto

lemma ddel_absent: "k \<notin> set (dkeys d) \<Longrightarrow> ddel k d = d"
  by (induction d) (auto simp: AList.delete_eq)

lemma dset_append: "k \<notin> set (dkeys d) \<Longrightarrow> dset k v d = d @ [(k, v)]"
  by (induction d) auto

lemma length_dset: "length (dset k v d) = (if k \<in> fst ` set d then length d else Suc (length d))"
  by (induction d) auto

lemma length_ddel_le: "length (ddel k d) \<le> length d"
  by (induction d) auto

text \<open>\<^verbatim>\<open>d.update(u)\<close>, and looking up in a sorted or filtered dictionary.\<close>

lemma map_of_fold_dset: "map_of (fold (\<lambda>(k, v). dset k v) u d) = map_of d ++ map_of (rev u)"
proof (induction u arbitrary: d)
  case (Cons kv u)
  then show ?case by (cases kv) (simp add: map_add_upd_left map_add_def fun_eq_iff split: option.splits)
qed simp

lemma map_of_sorted:
  fixes d :: "('k :: linorder, 'v) dict"
  shows "distinct (map fst d) \<Longrightarrow> map_of (sort_key fst d) = map_of d"
proof -
  assume d: "distinct (map fst d)"
  have "mset (map fst (sort_key fst d)) = mset (map fst d)" by (simp only: mset_map mset_sort)
  then have "distinct (map fst (sort_key fst d))" using d by (metis distinct_count_atmost_1 set_mset_mset)
  then show ?thesis using d by (simp add: map_of_inject_set)
qed

lemma map_of_filter_keys: "map_of (filter (\<lambda>(k, _). P k) d) k = (if P k then map_of d k else None)"
  by (induction d) auto

lemma map_of_map_values: "map_of (map (\<lambda>(k, v). (k, f v)) d) k = map_option f (map_of d k)"
  by (induction d) auto

section \<open>Sequences\<close>

text \<open>\<^verbatim>\<open>itertools.combinations(xs, 2)\<close>.\<close>

fun pairs :: "'a list \<Rightarrow> ('a \<times> 'a) list" where
  "pairs [] = []"
| "pairs (x # xs) = map (Pair x) xs @ pairs xs"

lemma length_pairs: "2 * length (pairs xs) = length xs * (length xs - 1)"
proof (induction xs)
  case (Cons x xs)
  then show ?case by (cases xs) (auto simp: algebra_simps)
qed simp

lemma pairs_in: "(a, b) \<in> set (pairs xs) \<Longrightarrow> a \<in> set xs \<and> b \<in> set xs"
  by (induction xs) auto

lemma pairs_distinct: "distinct xs \<Longrightarrow> (a, b) \<in> set (pairs xs) \<Longrightarrow> a \<noteq> b"
  by (induction xs) (auto dest: pairs_in)

lemma pairs_complete:
  "a \<in> set xs \<Longrightarrow> b \<in> set xs \<Longrightarrow> a \<noteq> b \<Longrightarrow> (a, b) \<in> set (pairs xs) \<or> (b, a) \<in> set (pairs xs)"
  by (induction xs) auto

lemma pairs_one_way:
  "distinct xs \<Longrightarrow> (a, b) \<in> set (pairs xs) \<Longrightarrow> (b, a) \<notin> set (pairs xs)"
  by (induction xs) (auto dest: pairs_in)

text \<open>A stable sort in descending order of a key: \<^verbatim>\<open>xs.sort(key=f, reverse=True)\<close>.\<close>

definition sort_desc :: "('a \<Rightarrow> 'b::linordered_idom) \<Rightarrow> 'a list \<Rightarrow> 'a list" where
  "sort_desc f xs = sort_key (\<lambda>x. - f x) xs"

lemma mset_sort_desc [simp]: "mset (sort_desc f xs) = mset xs"
  by (simp add: sort_desc_def)

lemma set_sort_desc [simp]: "set (sort_desc f xs) = set xs"
  by (simp add: sort_desc_def)

lemma length_sort_desc [simp]: "length (sort_desc f xs) = length xs"
  by (simp add: sort_desc_def)

lemma sort_desc_head: "sort_desc f xs = y # ys \<Longrightarrow> z \<in> set xs \<Longrightarrow> f z \<le> f y"
proof -
  assume a: "sort_desc f xs = y # ys" and z: "z \<in> set xs"
  have "sorted (map (\<lambda>x. - f x) (y # ys))"
    using a unfolding sort_desc_def by (metis sorted_sort_key)
  moreover have "z \<in> set (y # ys)" using a z by (metis set_sort_desc)
  ultimately show ?thesis by auto
qed

text \<open>Appending to the list a dictionary keeps under a key, and counting under a key.\<close>

definition dappend :: "'k \<Rightarrow> 'v \<Rightarrow> ('k, 'v list) dict \<Rightarrow> ('k, 'v list) dict" where
  "dappend k v d = dset k (dget d k [] @ [v]) d"

definition dcount :: "'k \<Rightarrow> ('k, nat) dict \<Rightarrow> ('k, nat) dict" where
  "dcount k d = dset k (dget d k 0 + 1) d"

lemma dget_dset [dict_laws, simp]: "dget (dset k v d) k' dflt = (if k' = k then v else dget d k' dflt)"
  by (simp add: dget_def)

lemma dget_ddel [dict_laws, simp]: "dget (ddel k d) k' dflt = (if k' = k then dflt else dget d k' dflt)"
  by (simp add: dget_def)

lemma dget_Nil [simp]: "dget [] k dflt = dflt"
  by (simp add: dget_def)

lemma dget_dappend [dict_laws, simp]:
  "dget (dappend k v d) k' [] = (if k' = k then dget d k [] @ [v] else dget d k' [])"
  by (simp add: dappend_def)

lemma dget_dcount [dict_laws, simp]: "dget (dcount k d) k' 0 = (if k' = k then dget d k 0 + 1 else dget d k' 0)"
  by (simp add: dcount_def)

lemma well_keyed_dappend [simp]: "well_keyed d \<Longrightarrow> well_keyed (dappend k v d)"
  by (simp add: dappend_def)

lemma well_keyed_dcount [simp]: "well_keyed d \<Longrightarrow> well_keyed (dcount k d)"
  by (simp add: dcount_def)

lemma dget_fold_dcount: "dget (fold dcount ks d) k 0 = dget d k 0 + count_list ks k"
  by (induction ks arbitrary: d) auto

text \<open>\<^verbatim>\<open>max(xs) if xs else 0.0\<close>.\<close>

fun max_of :: "real list \<Rightarrow> real" where
  "max_of [] = 0"
| "max_of [x] = x"
| "max_of (x # y # ys) = max x (max_of (y # ys))"

lemma max_of_ge: "x \<in> set xs \<Longrightarrow> x \<le> max_of xs"
  by (induction xs rule: max_of.induct) auto

lemma max_of_in: "xs \<noteq> [] \<Longrightarrow> max_of xs \<in> set xs"
  by (induction xs rule: max_of.induct) (auto simp: max_def)

lemma mean_le_max: "(\<And>x. x \<in> set xs \<Longrightarrow> 0 \<le> x) \<Longrightarrow> mean_of xs \<le> max_of xs"
  using mean_of_bounds [of xs 0 "max_of xs"] max_of_ge by (cases "xs = []") (auto simp: mean_of_def)

text \<open>The first element that attains the greatest key: \<^verbatim>\<open>max(xs, key=f)\<close>.\<close>

fun first_max :: "('a \<Rightarrow> 'b::linorder) \<Rightarrow> 'a \<Rightarrow> 'a list \<Rightarrow> 'a" where
  "first_max f best [] = best"
| "first_max f best (x # xs) = first_max f (if f best < f x then x else best) xs"

lemma first_max_in: "first_max f b xs \<in> insert b (set xs)"
  by (induction xs arbitrary: b) (auto split: if_splits)

lemma first_max_ge: "x \<in> insert b (set xs) \<Longrightarrow> f x \<le> f (first_max f b xs)"
proof (induction xs arbitrary: b x)
  case (Cons y ys)
  let ?b = "if f b < f y then y else b"
  have "f b \<le> f ?b" "f y \<le> f ?b" by auto
  then show ?case using Cons.IH [of ?b ?b] Cons.IH [of x ?b] Cons.prems
    by (auto intro: order_trans)
qed simp

text \<open>The mean of the second half of a series less the mean of the first half.\<close>

definition half_shift :: "real list \<Rightarrow> real" where
  "half_shift xs = (let mid = length xs div 2 in mean_of (drop mid xs) - mean_of (take mid xs))"

text \<open>Keeping the first element of every key, as the \<^verbatim>\<open>seen\<close> loops do.\<close>

fun keep_first :: "('a \<Rightarrow> 'k) \<Rightarrow> 'k set \<Rightarrow> 'a list \<Rightarrow> 'a list" where
  "keep_first key seen [] = []"
| "keep_first key seen (x # xs) =
     (if key x \<in> seen then keep_first key seen xs else x # keep_first key (insert (key x) seen) xs)"

lemma keep_first_subset: "set (keep_first key seen xs) \<subseteq> set xs"
  by (induction key seen xs rule: keep_first.induct) auto

lemma keep_first_fresh: "x \<in> set (keep_first key seen xs) \<Longrightarrow> key x \<notin> seen"
  by (induction key seen xs rule: keep_first.induct) (auto split: if_splits)

lemma keep_first_distinct: "distinct (map key (keep_first key seen xs))"
  by (induction key seen xs rule: keep_first.induct) (auto dest: keep_first_fresh)

lemma keep_first_keys: "key ` set (keep_first key seen xs) = key ` set xs - seen"
  by (induction key seen xs rule: keep_first.induct) auto

section \<open>Errors as values\<close>

text \<open>A raise of the source is \<open>Inl\<close>, a normal return \<open>Inr\<close>.\<close>

fun ok :: "'e + 'a \<Rightarrow> bool" where
  "ok (Inl _) = False"
| "ok (Inr _) = True"

fun bind_res :: "'e + 'a \<Rightarrow> ('a \<Rightarrow> 'e + 'b) \<Rightarrow> 'e + 'b" where
  "bind_res (Inl e) f = Inl e"
| "bind_res (Inr x) f = f x"

lemma bind_res_Inr: "bind_res r f = Inr y \<longleftrightarrow> (\<exists>x. r = Inr x \<and> f x = Inr y)"
  by (cases r) auto

lemma bind_res_Inl: "bind_res r f = Inl e \<longleftrightarrow> r = Inl e \<or> (\<exists>x. r = Inr x \<and> f x = Inl e)"
  by (cases r) auto

text \<open>The default of an option, the first result of a search over a list, and the digits that \<^verbatim>\<open>isdigit\<close> and the
  digit class of a regular expression accept.\<close>

fun or_else :: "'a option \<Rightarrow> 'a \<Rightarrow> 'a" where
  "or_else None x = x"
| "or_else (Some y) x = y"

fun first_some :: "('a \<Rightarrow> 'b option) \<Rightarrow> 'a list \<Rightarrow> 'b option" where
  "first_some f [] = None"
| "first_some f (x # xs) = (case f x of None \<Rightarrow> first_some f xs | Some y \<Rightarrow> Some y)"

definition is_digit :: "char \<Rightarrow> bool" where
  "is_digit c = (let n = (of_char c :: nat) in 48 \<le> n \<and> n \<le> 57)"

end
