(* ===== verification/Dissent.thy ===== *)
theory Dissent
  imports Prelude
begin

text \<open>
  \<^verbatim>\<open>maestro/dissent.py\<close>: pairwise disagreement between the agents of one session, the outlier
  test, the agreement score and the trend across sessions.  The sentence-embedding model is a
  parameter (its cosine similarity, or \<^term>\<open>None\<close> when the package is missing).
\<close>

section \<open>Data\<close>

record PairwiseDissent =
  pd_agent_a :: string
  pd_agent_b :: string
  pd_distance :: real

record AgentDissentProfile =
  ap_agent_name :: string
  ap_mean_distance :: real
  ap_is_outlier :: bool

record DissentReport =
  dr_prompt :: string
  dr_internal_agreement :: real
  dr_pairwise :: "PairwiseDissent list"
  dr_agent_profiles :: "AgentDissentProfile list"
  dr_outlier_agents :: "string list"
  dr_dissent_level :: string
  dr_agent_count :: nat

section \<open>Semantic distance\<close>

definition words_of :: "string \<Rightarrow> string set" where
  "words_of t = set (py_split (py_lower t))"

definition semantic_distance :: "(string \<Rightarrow> string \<Rightarrow> real) option \<Rightarrow> string \<Rightarrow> string \<Rightarrow> real" where
  "semantic_distance model text_a text_b =
     (case model of
        Some similarity \<Rightarrow> round4 (1 - max 0 (min 1 (similarity text_a text_b)))
      | None \<Rightarrow>
          (let words_a = words_of text_a; words_b = words_of text_b in
           if words_a = {} \<and> words_b = {} then 0
           else round4 (1 - of_nat (card (words_a \<inter> words_b)) / of_nat (card (words_a \<union> words_b)))))"

text \<open>
  What the analyzers rely on: a distance is a score in the unit interval with four decimals; the
  word-overlap fallback is symmetric and zero on equal texts as well.
\<close>

locale text_distance =
  fixes sdist :: "string \<Rightarrow> string \<Rightarrow> real"
  assumes dist_nonneg: "0 \<le> sdist s t"
    and dist_le_one: "sdist s t \<le> 1"
    and dist_grid: "round4 (sdist s t) = sdist s t"

locale symmetric_distance = text_distance +
  assumes dist_sym: "sdist s t = sdist t s"
    and dist_self: "sdist s s = 0"

lemma finite_words_of [simp]: "finite (words_of t)"
  by (simp add: words_of_def)

lemma jaccard_unit:
  assumes "finite A" "finite B"
  shows "of_nat (card (A \<inter> B)) / of_nat (card (A \<union> B)) \<le> (1::real)"
proof -
  have "card (A \<inter> B) \<le> card (A \<union> B)" using assms by (intro card_mono) auto
  then show ?thesis by (simp add: divide_le_eq)
qed

lemma semantic_distance_unit: "0 \<le> semantic_distance m s t" "semantic_distance m s t \<le> 1"
  using jaccard_unit [OF finite_words_of finite_words_of, of s t]
  by (auto simp: semantic_distance_def Let_def split: option.split intro!: round4_nonneg round4_le_one)

lemma semantic_distance_grid: "round4 (semantic_distance m s t) = semantic_distance m s t"
  by (auto simp: semantic_distance_def Let_def split: option.split)

interpretation sd: text_distance "semantic_distance m" for m
  by unfold_locales (simp_all add: semantic_distance_unit semantic_distance_grid)

interpretation jd: symmetric_distance "semantic_distance None"
proof unfold_locales
  show "semantic_distance None s t = semantic_distance None t s" for s t
    by (auto simp: semantic_distance_def Let_def Int_commute Un_commute)
  show "semantic_distance None s s = 0" for s
    by (auto simp: semantic_distance_def Let_def card_gt_0_iff)
qed

section \<open>The analysis of one session\<close>

definition pairwise_dissent ::
    "(string \<Rightarrow> string \<Rightarrow> real) \<Rightarrow> (string, string) dict \<Rightarrow> PairwiseDissent list" where
  "pairwise_dissent sdist agent_responses =
     map (\<lambda>(a, b). \<lparr>pd_agent_a = a, pd_agent_b = b,
                     pd_distance = sdist (the (map_of agent_responses a)) (the (map_of agent_responses b))\<rparr>)
         (pairs (dkeys agent_responses))"

definition record_distance :: "PairwiseDissent \<Rightarrow> (string, real list) dict \<Rightarrow> (string, real list) dict" where
  "record_distance p ds = dappend (pd_agent_b p) (pd_distance p) (dappend (pd_agent_a p) (pd_distance p) ds)"

definition agent_distances :: "string list \<Rightarrow> PairwiseDissent list \<Rightarrow> (string, real list) dict" where
  "agent_distances agents pairw = fold record_distance pairw (map (\<lambda>name. (name, [])) agents)"

definition mean_distances :: "string list \<Rightarrow> PairwiseDissent list \<Rightarrow> (string, real) dict" where
  "mean_distances agents pairw =
     map (\<lambda>name. (name, mean_of (dget (agent_distances agents pairw) name []))) agents"

definition outlier_threshold :: "(string, real) dict \<Rightarrow> real" where
  "outlier_threshold means =
     (let group_mean = mean_of (dvalues means) in if group_mean > 0 then group_mean * (3 / 2) else 1 / 2)"

definition dissent_profiles :: "(string, real) dict \<Rightarrow> AgentDissentProfile list" where
  "dissent_profiles means =
     map (\<lambda>(name, m). \<lparr>ap_agent_name = name, ap_mean_distance = round4 m,
            ap_is_outlier = (length means \<ge> 3 \<and> round4 m > outlier_threshold means)\<rparr>) means"

definition dissent_level :: "real \<Rightarrow> string" where
  "dissent_level mean_pairwise =
     (if mean_pairwise < 1 / 10 then ''none''
      else if mean_pairwise < 3 / 10 then ''low''
      else if mean_pairwise < 6 / 10 then ''moderate''
      else ''high'')"

definition dissent_analyze ::
    "(string \<Rightarrow> string \<Rightarrow> real) \<Rightarrow> string \<Rightarrow> (string, string) dict \<Rightarrow> DissentReport" where
  "dissent_analyze sdist prompt agent_responses =
     (let agents = dkeys agent_responses;
          pairw = pairwise_dissent sdist agent_responses;
          profiles = dissent_profiles (mean_distances agents pairw);
          mean_pairwise = mean_of (map pd_distance pairw)
      in \<lparr>dr_prompt = prompt,
          dr_internal_agreement = round4 (1 - mean_pairwise),
          dr_pairwise = pairw,
          dr_agent_profiles = profiles,
          dr_outlier_agents = map ap_agent_name (filter ap_is_outlier profiles),
          dr_dissent_level = dissent_level mean_pairwise,
          dr_agent_count = length agents\<rparr>)"

section \<open>The analysis across sessions\<close>

record SessionAccumulator =
  sa_agent_dissents :: "(string, real list) dict"
  sa_agreements :: "real list"

definition across_step ::
    "(string \<Rightarrow> string \<Rightarrow> real) \<Rightarrow> string \<times> (string, string) dict \<Rightarrow> SessionAccumulator \<Rightarrow> SessionAccumulator" where
  "across_step sdist r acc =
     (if length (snd r) < 2 then acc
      else let report = dissent_analyze sdist (fst r) (snd r) in
        \<lparr>sa_agent_dissents =
           fold (\<lambda>p. dappend (ap_agent_name p) (ap_mean_distance p)) (dr_agent_profiles report) (sa_agent_dissents acc),
         sa_agreements = sa_agreements acc @ [dr_internal_agreement report]\<rparr>)"

record AcrossSessions =
  as_sessions_analyzed :: nat
  as_mean_agreement :: real
  as_trend :: string
  as_per_agent :: "(string, real \<times> nat) dict"

definition agreement_trend :: "real list \<Rightarrow> string" where
  "agreement_trend agreements =
     (if length agreements \<ge> 4 then
        let diff = half_shift agreements in
        if diff > 1 / 10 then ''converging'' else if diff < - 1 / 10 then ''diverging'' else ''stable''
      else ''stable'')"

definition analyze_across_sessions ::
    "(string \<Rightarrow> string \<Rightarrow> real) \<Rightarrow> (string \<times> (string, string) dict) list \<Rightarrow> AcrossSessions" where
  "analyze_across_sessions sdist session_records =
     (let acc = fold (across_step sdist) session_records \<lparr>sa_agent_dissents = [], sa_agreements = []\<rparr> in
      \<lparr>as_sessions_analyzed = length (sa_agreements acc),
       as_mean_agreement = round4 (mean_of (sa_agreements acc)),
       as_trend = agreement_trend (sa_agreements acc),
       as_per_agent = map (\<lambda>(name, dists). (name, (round4 (mean_of dists), length dists))) (sa_agent_dissents acc)\<rparr>)"

section \<open>Correctness\<close>

lemma length_pairwise_dissent:
  "2 * length (pairwise_dissent sdist rs) = length rs * (length rs - 1)"
  using length_pairs [of "dkeys rs"] by (simp add: pairwise_dissent_def)

lemma length_mean_distances [simp]: "length (mean_distances agents pw) = length agents"
  by (simp add: mean_distances_def)

lemma dget_record_distance:
  "dget (record_distance p ds) name [] =
     dget ds name [] @ (if pd_agent_a p = name then [pd_distance p] else [])
                     @ (if pd_agent_b p = name then [pd_distance p] else [])"
  by (simp add: record_distance_def)

lemma dget_agent_distances:
  "dget (agent_distances agents pw) name [] =
     concat (map (\<lambda>p. (if pd_agent_a p = name then [pd_distance p] else []) @
                       (if pd_agent_b p = name then [pd_distance p] else [])) pw)"
proof -
  have "dget (fold record_distance pw ds) name [] =
     dget ds name [] @ concat (map (\<lambda>p. (if pd_agent_a p = name then [pd_distance p] else []) @
                       (if pd_agent_b p = name then [pd_distance p] else [])) pw)" for ds
    by (induction pw arbitrary: ds) (simp_all add: dget_record_distance)
  moreover have "dget (map (\<lambda>n. (n, [])) agents) name [] = []"
    by (induction agents) (auto simp: dget_def)
  ultimately show ?thesis by (simp add: agent_distances_def)
qed

lemma agent_names_of_profiles [simp]:
  "map ap_agent_name (dissent_profiles means) = dkeys means"
  by (simp add: dissent_profiles_def case_prod_beta comp_def)

lemma profile_names [simp]:
  "map ap_agent_name (dr_agent_profiles (dissent_analyze sdist p rs)) = dkeys rs"
  by (simp add: dissent_analyze_def Let_def mean_distances_def comp_def)

context text_distance
begin

lemma pairwise_unit:
  "p \<in> set (pairwise_dissent sdist rs) \<Longrightarrow> 0 \<le> pd_distance p \<and> pd_distance p \<le> 1"
  by (auto simp: pairwise_dissent_def dist_nonneg dist_le_one)

lemma pairwise_grid:
  "p \<in> set (pairwise_dissent sdist rs) \<Longrightarrow> round4 (pd_distance p) = pd_distance p"
  by (auto simp: pairwise_dissent_def dist_grid)

lemma mean_pairwise_unit:
  "0 \<le> mean_of (map pd_distance (pairwise_dissent sdist rs))"
  "mean_of (map pd_distance (pairwise_dissent sdist rs)) \<le> 1"
  using pairwise_unit by (auto intro!: mean_of_unit)

lemma agreement_unit:
  "0 \<le> dr_internal_agreement (dissent_analyze sdist p rs)"
  "dr_internal_agreement (dissent_analyze sdist p rs) \<le> 1"
  using mean_pairwise_unit [of rs]
  by (auto simp: dissent_analyze_def Let_def intro!: unit_bounds)

lemma agent_distance_unit:
  "d \<in> set (dget (agent_distances agents (pairwise_dissent sdist rs)) name []) \<Longrightarrow> 0 \<le> d \<and> d \<le> 1"
  using pairwise_unit by (auto simp: dget_agent_distances split: if_splits)

lemma profile_unit:
  "p \<in> set (dr_agent_profiles (dissent_analyze sdist q rs)) \<Longrightarrow> 0 \<le> ap_mean_distance p \<and> ap_mean_distance p \<le> 1"
  using agent_distance_unit
  by (auto simp: dissent_analyze_def Let_def dissent_profiles_def mean_distances_def
      intro!: round4_nonneg round4_le_one mean_of_unit)

end

text \<open>
  The outlier test with three agents.  Each agent's mean is half the sum of two of the three
  distances, the threshold is half the sum of all three, so an exact mean never exceeds it.
\<close>

lemma three_agents_case:
  assumes "length rs = 3" "well_keyed rs"
  obtains a ta b tb c tc where "rs = [(a, ta), (b, tb), (c, tc)]" "a \<noteq> b" "a \<noteq> c" "b \<noteq> c"
proof -
  from assms obtain x y z where "rs = [x, y, z]"
    by (auto simp: numeral_3_eq_3 length_Suc_conv)
  then show ?thesis using assms that by (cases x; cases y; cases z) (auto simp: well_keyed_def)
qed

lemma three_agents_means:
  assumes "a \<noteq> b" "a \<noteq> c" "b \<noteq> c"
  shows "mean_distances [a, b, c] (pairwise_dissent d [(a, ta), (b, tb), (c, tc)]) =
           [(a, (d ta tb + d ta tc) / 2), (b, (d ta tb + d tb tc) / 2), (c, (d ta tc + d tb tc) / 2)]"
  using assms by (simp add: mean_distances_def dget_agent_distances pairwise_dissent_def mean_of_def)

lemma three_agents_threshold:
  assumes "0 \<le> x" "0 \<le> y" "0 \<le> z"
  shows "(x + y + z) / 2 \<le> outlier_threshold [(a, (x + y) / 2), (b, (x + z) / 2), (c, (y + z) / 2)]"
  using assms by (auto simp: outlier_threshold_def mean_of_def Let_def field_simps)

lemma round4_exceeds_grid:
  assumes "round4 z = z" "0 \<le> z" "round4 x > x + z / 2"
  shows "z = 0"
proof (rule ccontr)
  assume "z \<noteq> 0"
  from assms(1) obtain k where k: "z = of_int k / 10000" unfolding round4_def by metis
  with \<open>z \<noteq> 0\<close> assms(2) have "1 \<le> k" by (simp add: zero_le_divide_iff)
  then have "1 / 10000 \<le> z" unfolding k by (simp add: divide_right_mono)
  with round4_error [of x] assms(3) show False by (simp add: abs_le_iff)
qed

lemma three_agents_outlier_exact:
  assumes g: "round4 z = z" and nn: "0 \<le> x" "0 \<le> y" "0 \<le> z"
    and out: "round4 ((x + y) / 2) > th" and th: "(x + y + z) / 2 \<le> th"
  shows "z = 0"
  using round4_exceeds_grid [OF g nn(3), of "(x + y) / 2"] out th by (simp add: add_divide_distrib)

context text_distance
begin

lemma three_agents_outlier:
  assumes "length rs = 3" "well_keyed rs"
    and "x \<in> set (dr_outlier_agents (dissent_analyze sdist q rs))"
    and "p \<in> set (dr_pairwise (dissent_analyze sdist q rs))" "pd_agent_a p \<noteq> x" "pd_agent_b p \<noteq> x"
  shows "pd_distance p = 0"
proof -
  obtain a ta b tb c tc where rs: "rs = [(a, ta), (b, tb), (c, tc)]" and ne: "a \<noteq> b" "a \<noteq> c" "b \<noteq> c"
    using three_agents_case [OF assms(1, 2)] by blast
  let ?x = "sdist ta tb" and ?y = "sdist ta tc" and ?z = "sdist tb tc"
  have nn: "0 \<le> ?x" "0 \<le> ?y" "0 \<le> ?z" by (simp_all add: dist_nonneg)
  define th where "th = outlier_threshold [(a, (?x + ?y) / 2), (b, (?x + ?z) / 2), (c, (?y + ?z) / 2)]"
  have th: "(?x + ?y + ?z) / 2 \<le> th" unfolding th_def by (rule three_agents_threshold [OF nn])
  have outl: "dr_outlier_agents (dissent_analyze sdist q rs) =
      map ap_agent_name (filter ap_is_outlier (dissent_profiles
        [(a, (?x + ?y) / 2), (b, (?x + ?z) / 2), (c, (?y + ?z) / 2)]))"
    unfolding rs dissent_analyze_def Let_def using three_agents_means [OF ne, of sdist ta tb tc] by simp
  have out: "(x = a \<and> round4 ((?x + ?y) / 2) > th) \<or> (x = b \<and> round4 ((?x + ?z) / 2) > th)
           \<or> (x = c \<and> round4 ((?y + ?z) / 2) > th)"
    using assms(3) unfolding outl dissent_profiles_def th_def [symmetric] by (auto split: if_splits)
  have p: "(pd_agent_a p = a \<and> pd_agent_b p = b \<and> pd_distance p = ?x)
         \<or> (pd_agent_a p = a \<and> pd_agent_b p = c \<and> pd_distance p = ?y)
         \<or> (pd_agent_a p = b \<and> pd_agent_b p = c \<and> pd_distance p = ?z)"
    using assms(4) ne unfolding rs by (auto simp: dissent_analyze_def Let_def pairwise_dissent_def)
  have g: "round4 ?x = ?x" "round4 ?y = ?y" "round4 ?z = ?z" by (simp_all add: dist_grid)
  have "x = a \<Longrightarrow> ?z = 0"
    using out ne th by (intro three_agents_outlier_exact [OF g(3) nn(1,2,3), of th]) auto
  moreover have "x = b \<Longrightarrow> ?y = 0"
    using out ne th by (intro three_agents_outlier_exact [OF g(2) nn(1,3,2), of th]) (auto simp: add_ac)
  moreover have "x = c \<Longrightarrow> ?x = 0"
    using out ne th by (intro three_agents_outlier_exact [OF g(1) nn(2,3,1), of th]) (auto simp: add_ac)
  ultimately show ?thesis using out p assms(5, 6) by auto
qed

end

lemma distinct_pairs_sets: "distinct xs \<Longrightarrow> distinct (map (\<lambda>(a, b). {a, b}) (pairs xs))"
proof (induction xs)
  case (Cons x xs)
  then have "inj_on (\<lambda>y. {x, y}) (set xs)" by (auto simp: inj_on_def doubleton_eq_iff)
  with Cons show ?case by (auto simp: distinct_map comp_def doubleton_eq_iff dest: pairs_in)
qed simp

lemma pairs_sets: "distinct xs \<Longrightarrow> (\<lambda>(a, b). {a, b}) ` set (pairs xs) = {s. s \<subseteq> set xs \<and> card s = 2}"
proof (intro equalityI subsetI)
  fix s assume d: "distinct xs" and "s \<in> (\<lambda>(a, b). {a, b}) ` set (pairs xs)"
  then obtain a b where ab: "(a, b) \<in> set (pairs xs)" and s: "s = {a, b}" by auto
  show "s \<in> {s. s \<subseteq> set xs \<and> card s = 2}"
    using pairs_in [OF ab] pairs_distinct [OF d ab] s by simp
next
  fix s assume "s \<in> {s. s \<subseteq> set xs \<and> card s = 2}"
  then obtain a b where s: "s = {a, b}" and ab: "a \<in> set xs" "b \<in> set xs" "a \<noteq> b"
    by (auto simp: card_2_iff)
  show "s \<in> (\<lambda>(a, b). {a, b}) ` set (pairs xs)"
    using pairs_complete [OF ab] s by (auto simp: image_iff insert_commute)
qed

lemma dget_fold_profiles:
  "dget (fold (\<lambda>p. dappend (ap_agent_name p) (ap_mean_distance p)) ps d) name [] =
     dget d name [] @ map ap_mean_distance (filter (\<lambda>p. ap_agent_name p = name) ps)"
  by (induction ps arbitrary: d) auto

lemma well_keyed_fold_profiles:
  "well_keyed d \<Longrightarrow> well_keyed (fold (\<lambda>p. dappend (ap_agent_name p) (ap_mean_distance p)) ps d)"
  by (induction ps arbitrary: d) auto

lemma filter_key_length:
  "distinct (map f ps) \<Longrightarrow> length (filter (\<lambda>p. f p = k) ps) = (if k \<in> f ` set ps then 1 else 0)"
proof (induction ps)
  case (Cons p ps)
  then show ?case by (auto simp: filter_empty_conv)
qed simp

lemma dget_map_value:
  "dget (map (\<lambda>(k, v). (k, g v)) d) k (g dflt) = g (dget d k dflt)"
  by (induction d) (auto simp: dget_def split: option.split)

definition analyzed :: "(string \<times> (string, string) dict) list \<Rightarrow> (string \<times> (string, string) dict) list" where
  "analyzed records = filter (\<lambda>r. 2 \<le> length (snd r)) records"

lemma across_fold_agreements:
  "sa_agreements (fold (across_step sdist) rs acc) =
     sa_agreements acc @ map (\<lambda>r. dr_internal_agreement (dissent_analyze sdist (fst r) (snd r))) (analyzed rs)"
  by (induction rs arbitrary: acc) (auto simp: across_step_def analyzed_def Let_def)

lemma across_fold_counts:
  assumes "\<And>r. r \<in> set rs \<Longrightarrow> well_keyed (snd r)"
  shows "length (dget (sa_agent_dissents (fold (across_step sdist) rs acc)) name []) =
     length (dget (sa_agent_dissents acc) name []) +
     length (filter (\<lambda>r. name \<in> set (dkeys (snd r))) (analyzed rs))"
  using assms
proof (induction rs arbitrary: acc)
  case (Cons r rs)
  have "distinct (map ap_agent_name (dr_agent_profiles (dissent_analyze sdist (fst r) (snd r))))"
    using Cons.prems [of r] by (simp add: well_keyed_def)
  note one = filter_key_length [OF this, of name]
  have "ap_agent_name ` set (dr_agent_profiles (dissent_analyze sdist (fst r) (snd r))) = set (dkeys (snd r))"
    by (metis profile_names set_map)
  with one Cons.IH [of "across_step sdist r acc"] Cons.prems show ?case
    by (auto simp: across_step_def analyzed_def Let_def dget_fold_profiles)
qed (simp add: analyzed_def)

section \<open>Properties\<close>

text \<open>
  Library fact: the pairwise list of a session's report names every pair of distinct agents exactly once
  (so it has n(n-1)/2 entries), every distance and every agent's mean lies in [0,1], and the
  agreement score lies in [0,1], within the rounding of one minus the mean distance.
\<close>

theorem dissent_report_sound:
  fixes m :: "(string \<Rightarrow> string \<Rightarrow> real) option" and q :: string
  assumes "well_keyed rs"
  defines "R \<equiv> dissent_analyze (semantic_distance m) q rs"
  shows "distinct (map (\<lambda>p. {pd_agent_a p, pd_agent_b p}) (dr_pairwise R))
    \<and> (\<lambda>p. {pd_agent_a p, pd_agent_b p}) ` set (dr_pairwise R) = {s. s \<subseteq> set (dkeys rs) \<and> card s = 2}
    \<and> 2 * length (dr_pairwise R) = length rs * (length rs - 1)
    \<and> (\<forall>p \<in> set (dr_pairwise R). 0 \<le> pd_distance p \<and> pd_distance p \<le> 1)
    \<and> (\<forall>p \<in> set (dr_agent_profiles R). 0 \<le> ap_mean_distance p \<and> ap_mean_distance p \<le> 1)
    \<and> 0 \<le> dr_internal_agreement R \<and> dr_internal_agreement R \<le> 1
    \<and> \<bar>dr_internal_agreement R - (1 - mean_of (map pd_distance (dr_pairwise R)))\<bar> \<le> 1 / 20000"
proof -
  have pw: "dr_pairwise R = pairwise_dissent (semantic_distance m) rs"
    by (simp add: R_def dissent_analyze_def Let_def)
  have sets: "map (\<lambda>p. {pd_agent_a p, pd_agent_b p}) (dr_pairwise R) = map (\<lambda>(a, b). {a, b}) (pairs (dkeys rs))"
    by (simp add: pw pairwise_dissent_def case_prod_beta comp_def)
  have d: "distinct (dkeys rs)" using assms(1) by (simp add: well_keyed_def)
  have agr: "dr_internal_agreement R = round4 (1 - mean_of (map pd_distance (dr_pairwise R)))"
    by (simp add: R_def dissent_analyze_def Let_def)
  have img: "(\<lambda>p. {pd_agent_a p, pd_agent_b p}) ` set (dr_pairwise R) = (\<lambda>(a, b). {a, b}) ` set (pairs (dkeys rs))"
    using arg_cong [OF sets, of set] by simp
  show ?thesis
    unfolding sets img pairs_sets [OF d]
    using distinct_pairs_sets [OF d] length_pairwise_dissent [of "semantic_distance m" rs]
      sd.pairwise_unit [where rs = rs and m = m] sd.profile_unit [of _ m q rs, folded R_def]
      sd.agreement_unit [of m q rs, folded R_def]
      round4_error [of "1 - mean_of (map pd_distance (dr_pairwise R))", folded agr]
    by (auto simp: pw)
qed

lemma dissent_report_sound_witness:
  "dr_internal_agreement (dissent_analyze (semantic_distance None) ''q''
     [(''s'', ''red''), (''a'', ''red blue'')]) \<le> 1"
  using dissent_report_sound [of "[(''s'', ''red''), (''a'', ''red blue'')]" None "''q''"]
  by (simp add: well_keyed_def)

text \<open>
  Library fact: with exactly three agents the outlier test flags nobody for being far from the others: an
  agent can only be flagged when the other two are at distance zero, and then only because its
  mean was rounded up to four decimals (the exact means never exceed the threshold, whatever the
  distances are).
\<close>

theorem three_agents_never_outlier:
  assumes "length rs = 3" "well_keyed rs"
    and "x \<in> set (dr_outlier_agents (dissent_analyze (semantic_distance m) q rs))"
    and "p \<in> set (dr_pairwise (dissent_analyze (semantic_distance m) q rs))"
    and "pd_agent_a p \<noteq> x" "pd_agent_b p \<noteq> x"
  shows "pd_distance p = 0"
  using assms by (rule sd.three_agents_outlier)

definition three_sim :: "string \<Rightarrow> string \<Rightarrow> real" where
  "three_sim s t = (if s = ''x'' \<and> t = ''y'' then 6667 / 10000 else if s = ''x'' then 6666 / 10000 else 1)"

lemma three_sim_means:
  "mean_distances [''a'', ''b'', ''c'']
     (pairwise_dissent (semantic_distance (Some three_sim)) [(''a'', ''x''), (''b'', ''y''), (''c'', ''z'')]) =
   [(''a'', 6667 / 20000), (''b'', 3333 / 20000), (''c'', 3334 / 20000)]"
  by (subst three_agents_means) (simp_all add: semantic_distance_def three_sim_def round4_def)

lemma three_agents_never_outlier_witness:
  "pd_distance \<lparr>pd_agent_a = ''b'', pd_agent_b = ''c'', pd_distance = semantic_distance (Some three_sim) ''y'' ''z''\<rparr> = 0"
proof -
  let ?rs = "[(''a'', ''x''), (''b'', ''y''), (''c'', ''z'')]"
  have "''a'' \<in> set (dr_outlier_agents (dissent_analyze (semantic_distance (Some three_sim)) [] ?rs))"
    by (simp add: dissent_analyze_def Let_def three_sim_means [simplified] dissent_profiles_def outlier_threshold_def
        mean_of_def round4_def round_half_even_def)
  then show ?thesis
    by (intro three_agents_never_outlier [of ?rs "''a''" "Some three_sim" "[]"])
      (simp_all add: well_keyed_def dissent_analyze_def Let_def pairwise_dissent_def)
qed

text \<open>
  Library fact: the cross-session analysis counts exactly the sessions with at least two responses, its
  mean agreement lies in [0,1], and it credits each agent with as many sessions as the analysed
  ones it answered in.
\<close>

theorem across_sessions_counts:
  assumes "\<forall>r \<in> set records. well_keyed (snd r)"
  shows "as_sessions_analyzed (analyze_across_sessions (semantic_distance m) records) = length (analyzed records)
    \<and> 0 \<le> as_mean_agreement (analyze_across_sessions (semantic_distance m) records)
    \<and> as_mean_agreement (analyze_across_sessions (semantic_distance m) records) \<le> 1
    \<and> snd (dget (as_per_agent (analyze_across_sessions (semantic_distance m) records)) name (0, 0)) =
        length (filter (\<lambda>r. name \<in> set (dkeys (snd r))) (analyzed records))"
proof -
  define acc where "acc = fold (across_step (semantic_distance m)) records \<lparr>sa_agent_dissents = [], sa_agreements = []\<rparr>"
  have agr: "sa_agreements acc = map (\<lambda>r. dr_internal_agreement (dissent_analyze (semantic_distance m) (fst r) (snd r))) (analyzed records)"
    by (simp add: acc_def across_fold_agreements)
  have unit: "0 \<le> mean_of (sa_agreements acc) \<and> mean_of (sa_agreements acc) \<le> 1"
    unfolding agr by (intro conjI mean_of_unit) (auto simp: sd.agreement_unit)
  have per: "dget (map (\<lambda>(k, ds). (k, (round4 (mean_of ds), length ds))) (sa_agent_dissents acc)) name (0, 0)
      = (round4 (mean_of (dget (sa_agent_dissents acc) name [])), length (dget (sa_agent_dissents acc) name []))"
    using dget_map_value [of "\<lambda>ds. (round4 (mean_of ds), length ds)" "sa_agent_dissents acc" name "[]"]
    by (simp add: mean_of_def)
  show ?thesis
    using across_fold_counts [of records "semantic_distance m" "\<lparr>sa_agent_dissents = [], sa_agreements = []\<rparr>" name] assms unit
    by (simp add: analyze_across_sessions_def Let_def acc_def [symmetric] per round4_nonneg round4_le_one)
      (simp add: agr)
qed

lemma across_sessions_counts_witness:
  "as_sessions_analyzed (analyze_across_sessions (semantic_distance None)
     [(''q'', [(''s'', ''x''), (''a'', ''y'')]), (''q'', [(''s'', ''x'')])]) = 1"
  using across_sessions_counts [of "[(''q'', [(''s'', ''x''), (''a'', ''y'')]), (''q'', [(''s'', ''x'')])]" None]
  by (simp add: well_keyed_def analyzed_def)

end
