(* ===== verification/Drift.thy ===== *)
theory Drift
  imports Dissent
begin

text \<open>
  \<^verbatim>\<open>maestro/ncg/drift.py\<close>: the distance of every conversational answer from the headless baseline,
  the token-level signal of the baseline's log probabilities, and the silent-collapse flag.
\<close>

section \<open>Data\<close>

record TokenAlternative =
  ta_token :: string
  ta_logprob :: real

record TokenEntry =
  te_token :: string
  te_logprob :: real
  te_top_alternatives :: "TokenAlternative list"

record NcgMetadata =
  nm_logprobs_available :: bool
  nm_logprobs :: "TokenEntry list"

record NcgOutput =
  no_content :: string
  no_model :: string
  no_metadata :: NcgMetadata

record TokenDrift =
  td_mean_logprob :: real
  td_total_tokens :: nat
  td_uncertain_token_count :: nat
  td_contested_token_count :: nat
  td_contested_tokens :: "(string \<times> string \<times> real) list"

record DriftSignal =
  ds_agent_name :: string
  ds_semantic_distance :: real
  ds_compression_ratio :: real
  ds_ncg_model :: string
  ds_analysis_tier :: string
  ds_token_drift :: "TokenDrift option"

record DriftReport =
  df_prompt :: string
  df_ncg_content :: string
  df_ncg_model :: string
  df_agent_signals :: "DriftSignal list"
  df_mean_semantic_distance :: real
  df_max_semantic_distance :: real
  df_silent_collapse_detected :: bool
  df_compression_alert :: bool

section \<open>Operations\<close>

definition drift_semantic_distance :: "(string \<Rightarrow> string \<Rightarrow> real) option \<Rightarrow> string \<Rightarrow> string \<Rightarrow> real" where
  "drift_semantic_distance model text_a text_b =
     (case model of
        Some similarity \<Rightarrow> round4 (1 - max 0 (min 1 (similarity text_a text_b)))
      | None \<Rightarrow>
          (let words_a = words_of text_a; words_b = words_of text_b in
           if words_a = {} \<and> words_b = {} then 0
           else round4 (1 - of_nat (card (words_a \<inter> words_b)) / of_nat (card (words_a \<union> words_b)))))"

definition compression_ratio :: "string \<Rightarrow> string \<Rightarrow> real" where
  "compression_ratio conversational headless =
     (let headless_len = length (py_split headless) in
      if headless_len = 0 then 1
      else round4 (of_nat (length (py_split conversational)) / of_nat headless_len))"

definition contested_of :: "TokenEntry \<Rightarrow> (string \<times> string \<times> real) option" where
  "contested_of entry =
     (case te_top_alternatives entry of
        [] \<Rightarrow> None
      | alt # _ \<Rightarrow>
          (let gap = te_logprob entry - ta_logprob alt in
           if gap < 1 / 2 then Some (te_token entry, ta_token alt, round4 gap) else None))"

definition analyze_token_drift :: "NcgMetadata \<Rightarrow> TokenDrift option" where
  "analyze_token_drift md =
     (if \<not> nm_logprobs_available md then None
      else if nm_logprobs md = [] then None
      else let probs = map te_logprob (nm_logprobs md);
               uncertain = filter (\<lambda>entry. te_logprob entry < - 2) (nm_logprobs md);
               contested = List.map_filter contested_of (nm_logprobs md)
        in Some \<lparr>td_mean_logprob = round4 (mean_of probs),
                 td_total_tokens = length probs,
                 td_uncertain_token_count = length uncertain,
                 td_contested_token_count = length contested,
                 td_contested_tokens = take 10 contested\<rparr>)"

definition drift_signal ::
    "(string \<Rightarrow> string \<Rightarrow> real) \<Rightarrow> NcgOutput \<Rightarrow> string \<times> string \<Rightarrow> DriftSignal" where
  "drift_signal sdist ncg r =
     (let has_logprobs = nm_logprobs_available (no_metadata ncg) in
      \<lparr>ds_agent_name = fst r,
       ds_semantic_distance = sdist (no_content ncg) (snd r),
       ds_compression_ratio = compression_ratio (snd r) (no_content ncg),
       ds_ncg_model = no_model ncg,
       ds_analysis_tier = (if has_logprobs then ''token_level'' else ''semantic''),
       ds_token_drift = (if has_logprobs then analyze_token_drift (no_metadata ncg) else None)\<rparr>)"

definition drift_analyze ::
    "(string \<Rightarrow> string \<Rightarrow> real) \<Rightarrow> string \<Rightarrow> NcgOutput \<Rightarrow> (string, string) dict \<Rightarrow> real option \<Rightarrow> DriftReport" where
  "drift_analyze sdist prompt ncg conversational internal_agreement =
     (let signals = map (drift_signal sdist ncg) conversational;
          distances = map ds_semantic_distance signals;
          mean_dist = (if distances = [] then 0 else round4 (mean_of distances));
          compressions = map ds_compression_ratio signals;
          mean_compression = (if compressions = [] then 1 else mean_of compressions);
          high_agreement = (case internal_agreement of None \<Rightarrow> False | Some a \<Rightarrow> a > 8 / 10);
          high_drift = mean_dist > 3 / 10
      in \<lparr>df_prompt = prompt,
          df_ncg_content = no_content ncg,
          df_ncg_model = no_model ncg,
          df_agent_signals = signals,
          df_mean_semantic_distance = mean_dist,
          df_max_semantic_distance = max_of distances,
          df_silent_collapse_detected = (high_agreement \<and> high_drift),
          df_compression_alert = (mean_compression < 1 / 2)\<rparr>)"

section \<open>Correctness\<close>

lemma drift_distance_is_dissent_distance: "drift_semantic_distance = semantic_distance"
  by (intro ext) (simp add: drift_semantic_distance_def semantic_distance_def)

interpretation dd: text_distance "drift_semantic_distance m" for m
  unfolding drift_distance_is_dissent_distance by unfold_locales (simp_all add: semantic_distance_unit semantic_distance_grid)

lemma compression_ratio_nonneg: "0 \<le> compression_ratio c h"
  by (auto simp: compression_ratio_def Let_def intro: round4_nonneg)

lemma drift_distances:
  "map ds_semantic_distance (df_agent_signals (drift_analyze sdist p ncg rs agr)) = map (sdist (no_content ncg)) (dvalues rs)"
  by (simp add: drift_analyze_def drift_signal_def Let_def comp_def)

lemma drift_mean:
  "df_mean_semantic_distance (drift_analyze sdist p ncg rs agr) =
     round4 (mean_of (map ds_semantic_distance (df_agent_signals (drift_analyze sdist p ncg rs agr))))"
  by (simp add: drift_analyze_def Let_def mean_of_def)

lemma drift_max:
  "df_max_semantic_distance (drift_analyze sdist p ncg rs agr) =
     max_of (map ds_semantic_distance (df_agent_signals (drift_analyze sdist p ncg rs agr)))"
  by (simp add: drift_analyze_def Let_def)

lemma drift_collapse:
  "df_silent_collapse_detected (drift_analyze sdist p ncg rs agr) \<longleftrightarrow>
     (\<exists>a. agr = Some a \<and> a > 8 / 10) \<and> df_mean_semantic_distance (drift_analyze sdist p ncg rs agr) > 3 / 10"
  by (auto simp: drift_analyze_def Let_def split: option.split)

lemma contested_length: "length (List.map_filter f xs) \<le> length xs"
  by (simp add: List.map_filter_def)

lemma token_drift_counts:
  "analyze_token_drift md = Some td \<Longrightarrow>
     td_contested_token_count td \<le> td_total_tokens td \<and> td_uncertain_token_count td \<le> td_total_tokens td
     \<and> length (td_contested_tokens td) = min 10 (td_contested_token_count td)"
  using contested_length [of contested_of "nm_logprobs md"]
  by (auto simp: analyze_token_drift_def Let_def split: if_splits)

context text_distance
begin

lemma drift_distance_range:
  "d \<in> set (map ds_semantic_distance (df_agent_signals (drift_analyze sdist p ncg rs agr))) \<Longrightarrow>
     0 \<le> d \<and> d \<le> 1 \<and> round4 d = d"
  by (auto simp: drift_distances dist_nonneg dist_le_one dist_grid)

lemma drift_mean_le_max:
  "df_mean_semantic_distance (drift_analyze sdist p ncg rs agr) \<le> df_max_semantic_distance (drift_analyze sdist p ncg rs agr)"
proof -
  let ?ds = "map ds_semantic_distance (df_agent_signals (drift_analyze sdist p ncg rs agr))"
  have "round4 (mean_of ?ds) \<le> round4 (max_of ?ds)"
    by (intro round4_mono mean_le_max) (blast dest: drift_distance_range)
  also have "round4 (max_of ?ds) = max_of ?ds"
    using max_of_in [of ?ds] drift_distance_range by (cases "?ds = []") auto
  finally show ?thesis by (simp only: drift_mean drift_max)
qed

lemma drift_mean_unit:
  "0 \<le> df_mean_semantic_distance (drift_analyze sdist p ncg rs agr)"
  "df_mean_semantic_distance (drift_analyze sdist p ncg rs agr) \<le> 1"
  unfolding drift_mean by (intro round4_nonneg round4_le_one mean_of_unit; blast dest: drift_distance_range)+

lemma drift_max_unit: "df_max_semantic_distance (drift_analyze sdist p ncg rs agr) \<le> 1"
  using max_of_in [of "map ds_semantic_distance (df_agent_signals (drift_analyze sdist p ncg rs agr))"]
    drift_distance_range [of _ p ncg rs agr]
  unfolding drift_max
  by (cases "map ds_semantic_distance (df_agent_signals (drift_analyze sdist p ncg rs agr)) = []") force+

end

section \<open>Properties\<close>

text \<open>
  Library fact: the drift report is sound: one signal per agent in order, 0 \<le> mean drift \<le> max drift \<le> 1, and
  silent collapse is raised exactly when an agreement score above 0.8 was supplied and the mean
  drift exceeds 0.3 (never when no agreement score is available).
\<close>

theorem drift_report_sound:
  fixes m :: "(string \<Rightarrow> string \<Rightarrow> real) option"
  shows "map ds_agent_name (df_agent_signals (drift_analyze (drift_semantic_distance m) p ncg rs agr)) = dkeys rs
    \<and> 0 \<le> df_mean_semantic_distance (drift_analyze (drift_semantic_distance m) p ncg rs agr)
    \<and> df_mean_semantic_distance (drift_analyze (drift_semantic_distance m) p ncg rs agr)
        \<le> df_max_semantic_distance (drift_analyze (drift_semantic_distance m) p ncg rs agr)
    \<and> df_max_semantic_distance (drift_analyze (drift_semantic_distance m) p ncg rs agr) \<le> 1
    \<and> (df_silent_collapse_detected (drift_analyze (drift_semantic_distance m) p ncg rs agr) \<longleftrightarrow>
        (\<exists>a. agr = Some a \<and> a > 8 / 10)
        \<and> df_mean_semantic_distance (drift_analyze (drift_semantic_distance m) p ncg rs agr) > 3 / 10)"
  by (intro conjI dd.drift_mean_unit dd.drift_mean_le_max dd.drift_max_unit drift_collapse)
    (simp add: drift_analyze_def drift_signal_def Let_def comp_def)

end
