(* ===== verification/Aggregator.thy ===== *)
theory Aggregator
  imports Drift
begin

text \<open>
  \<^verbatim>\<open>maestro/aggregator.py\<close>: the semantic clustering of the agents, the quorum decision and the
  aggregated result.  The two loops of the clustering are recursive functions with termination
  proofs; the \<^verbatim>\<open>IndexError\<close> of \<^verbatim>\<open>most_common(1)[0]\<close> on no responses is an error value.
\<close>

section \<open>Clustering\<close>

definition QUORUM_THRESHOLD :: real where
  "QUORUM_THRESHOLD = 66 / 100"

definition SIMILARITY_THRESHOLD :: real where
  "SIMILARITY_THRESHOLD = 1 / 2"

definition dist_map_of :: "PairwiseDissent list \<Rightarrow> (string \<times> string, real) dict" where
  "dist_map_of pairwise_distances =
     fold (\<lambda>p d. dset (pd_agent_b p, pd_agent_a p) (pd_distance p)
                   (dset (pd_agent_a p, pd_agent_b p) (pd_distance p) d)) pairwise_distances []"

definition mean_to_cluster :: "(string \<times> string, real) dict \<Rightarrow> string \<Rightarrow> string list \<Rightarrow> real" where
  "mean_to_cluster dist_map agent cluster = mean_of (map (\<lambda>m. dget dist_map (agent, m) 1) cluster)"

text \<open>The module's two thresholds are variables that other components overwrite, so they are arguments.\<close>

record Thresholds =
  th_quorum :: real
  th_similarity :: real

definition default_thresholds :: Thresholds where
  "default_thresholds = \<lparr>th_quorum = QUORUM_THRESHOLD, th_similarity = SIMILARITY_THRESHOLD\<rparr>"

text \<open>One \<^verbatim>\<open>for agent in remaining[:]\<close> pass: the snapshot, the growing cluster, the shrinking rest.\<close>

fun absorb_pass ::
    "real \<Rightarrow> (string \<times> string, real) dict \<Rightarrow> string list \<Rightarrow> string list \<Rightarrow> string list \<Rightarrow> bool
     \<Rightarrow> string list \<times> string list \<times> bool" where
  "absorb_pass sim dist_map [] cluster remaining changed = (cluster, remaining, changed)"
| "absorb_pass sim dist_map (agent # snapshot) cluster remaining changed =
     (if mean_to_cluster dist_map agent cluster < sim
      then absorb_pass sim dist_map snapshot (cluster @ [agent]) (remove1 agent remaining) True
      else absorb_pass sim dist_map snapshot cluster remaining changed)"

lemma absorb_pass_mset:
  "absorb_pass sim dm snap c r ch = (c', r', ch') \<Longrightarrow> mset snap \<subseteq># mset r \<Longrightarrow> mset c' + mset r' = mset c + mset r"
proof (induction snap arbitrary: c r ch)
  case (Cons a snap)
  have a: "a \<in># mset r" using Cons.prems(2) by (simp add: insert_subset_eq_iff)
  have sub: "mset snap \<subseteq># mset (remove1 a r)" "mset snap \<subseteq># mset r"
    using Cons.prems(2) by (auto simp: insert_subset_eq_iff intro: subset_mset.order_trans)
  show ?case
    using Cons.IH [OF _ sub(1)] Cons.IH [OF _ sub(2)] Cons.prems(1) a
    by (auto split: if_splits)
qed simp

lemma absorb_pass_rest: "absorb_pass sim dm snap c r ch = (c', r', ch') \<Longrightarrow> set r' \<subseteq> set r"
proof (induction snap arbitrary: c r ch)
  case (Cons a snap)
  show ?case
    using Cons.IH [of "c @ [a]" "remove1 a r" True] Cons.IH [of c r ch] Cons.prems set_remove1_subset [of a r]
    by (auto split: if_splits)
qed simp

lemma absorb_pass_cluster: "absorb_pass sim dm snap c r ch = (c', r', ch') \<Longrightarrow> set c \<subseteq> set c'"
  by (induction snap arbitrary: c r ch) (fastforce split: if_splits)+

lemma absorb_pass_length:
  "absorb_pass sim dm snap c r ch = (c', r', ch') \<Longrightarrow> mset snap \<subseteq># mset r \<Longrightarrow>
     length r' \<le> length r \<and> (ch' \<and> \<not> ch \<longrightarrow> length r' < length r)"
proof (induction snap arbitrary: c r ch)
  case (Cons a snap)
  have a: "a \<in> set r" using Cons.prems(2) by (simp add: insert_subset_eq_iff)
  have sub: "mset snap \<subseteq># mset (remove1 a r)" "mset snap \<subseteq># mset r"
    using Cons.prems(2) by (auto simp: insert_subset_eq_iff intro: subset_mset.order_trans)
  have "length (remove1 a r) < length r" using a length_pos_if_in_set [OF a] by (simp add: length_remove1)
  then show ?case
    using Cons.IH [of "c @ [a]" "remove1 a r" True, OF _ sub(1)] Cons.IH [of c r ch, OF _ sub(2)] Cons.prems(1)
    by (auto split: if_splits)
qed simp

text \<open>The \<^verbatim>\<open>while changed\<close> loop.\<close>

function absorb ::
    "real \<Rightarrow> (string \<times> string, real) dict \<Rightarrow> string list \<Rightarrow> string list \<Rightarrow> string list \<times> string list" where
  "absorb sim dist_map cluster remaining =
     (case absorb_pass sim dist_map remaining cluster remaining False of
        (cluster', remaining', changed) \<Rightarrow>
          if changed then absorb sim dist_map cluster' remaining' else (cluster', remaining'))"
  by pat_completeness auto
termination
proof (relation "measure (\<lambda>(_, _, _, remaining). length remaining)", goal_cases)
  case 1 show ?case by simp
next
  case (2 sim dist_map cluster remaining c' p r')
  then have "absorb_pass sim dist_map remaining cluster remaining False = (c', r', True)" by (cases p) auto
  from absorb_pass_length [OF this] show ?case by simp
qed

declare absorb.simps [simp del]

lemma absorb_mset: "absorb sim dm c r = (c', r') \<Longrightarrow> mset c' + mset r' = mset c + mset r"
proof (induction sim dm c r rule: absorb.induct)
  case (1 sim dm c r)
  obtain c1 r1 ch where p: "absorb_pass sim dm r c r False = (c1, r1, ch)" by (metis prod_cases3)
  have m: "mset c1 + mset r1 = mset c + mset r" using absorb_pass_mset [OF p] by simp
  show ?case
  proof (cases ch)
    case True
    then have "absorb sim dm c1 r1 = (c', r')" using 1(2) p by (simp add: absorb.simps [of sim dm c r])
    with 1(1) p True m show ?thesis by simp
  next
    case False
    then show ?thesis using 1(2) p m by (simp add: absorb.simps [of sim dm c r])
  qed
qed

lemma absorb_length: "absorb sim dm c r = (c', r') \<Longrightarrow> length r' \<le> length r"
proof (induction sim dm c r rule: absorb.induct)
  case (1 sim dm c r)
  obtain c1 r1 ch where p: "absorb_pass sim dm r c r False = (c1, r1, ch)" by (metis prod_cases3)
  have m: "length r1 \<le> length r" using absorb_pass_length [OF p] by simp
  show ?case
  proof (cases ch)
    case True
    then have "absorb sim dm c1 r1 = (c', r')" using 1(2) p by (simp add: absorb.simps [of sim dm c r])
    with 1(1) p True have "length r' \<le> length r1" by simp
    with m show ?thesis by simp
  next
    case False
    then show ?thesis using 1(2) p m by (simp add: absorb.simps [of sim dm c r])
  qed
qed

lemma absorb_nonempty: "absorb sim dm c r = (c', r') \<Longrightarrow> set c \<subseteq> set c'"
proof (induction sim dm c r rule: absorb.induct)
  case (1 sim dm c r)
  obtain c1 r1 ch where p: "absorb_pass sim dm r c r False = (c1, r1, ch)" by (metis prod_cases3)
  show ?case
  proof (cases ch)
    case True
    then have "absorb sim dm c1 r1 = (c', r')" using 1(2) p by (simp add: absorb.simps [of sim dm c r])
    with 1(1) p True have "set c1 \<subseteq> set c'" by simp
    with absorb_pass_cluster [OF p] show ?thesis by blast
  next
    case False
    then show ?thesis using 1(2) p absorb_pass_cluster [OF p] by (simp add: absorb.simps [of sim dm c r])
  qed
qed

text \<open>The outer \<^verbatim>\<open>while remaining\<close> loop.\<close>

function clusters_of :: "real \<Rightarrow> (string \<times> string, real) dict \<Rightarrow> string list \<Rightarrow> string list list" where
  "clusters_of sim dist_map [] = []"
| "clusters_of sim dist_map (agent # rest) =
     (case absorb sim dist_map [agent] rest of
        (cluster, remaining) \<Rightarrow> cluster # clusters_of sim dist_map remaining)"
  by pat_completeness auto
termination
proof (relation "measure (\<lambda>(_, _, remaining). length remaining)", goal_cases)
  case 1 show ?case by simp
next
  case (2 sim dist_map agent rest c r)
  then have "absorb sim dist_map [agent] rest = (c, r)" by simp
  from absorb_length [OF this] show ?case by simp
qed

declare clusters_of.simps(2) [simp del]

definition cluster_by_similarity :: "real \<Rightarrow> string list \<Rightarrow> PairwiseDissent list \<Rightarrow> string list \<times> string list" where
  "cluster_by_similarity sim agent_names pairwise_distances =
     (if agent_names = [] then ([], [])
      else let clusters = sort_desc (\<lambda>c. int (length c)) (clusters_of sim (dist_map_of pairwise_distances) agent_names)
        in (hd clusters, concat (tl clusters)))"

section \<open>Agreement\<close>

datatype Responses = RespDict "(string, string) dict" | RespList "string list"

datatype agg_error = IndexError | TypeError

definition confidence_of :: "real \<Rightarrow> real \<Rightarrow> string" where
  "confidence_of quorum agreement_ratio =
     (if agreement_ratio \<ge> quorum then ''High''
      else if agreement_ratio \<ge> 1 / 2 then ''Medium''
      else ''Low'')"

definition resp_dict_of :: "string list \<Rightarrow> Responses \<Rightarrow> (string, string) dict" where
  "resp_dict_of agent_names responses =
     (case responses of RespDict d \<Rightarrow> d | RespList rs \<Rightarrow> fold (\<lambda>(k, v). dset k v) (zip agent_names rs) [])"

definition resp_list_of :: "Responses \<Rightarrow> string list" where
  "resp_list_of responses = (case responses of RespDict d \<Rightarrow> dvalues d | RespList rs \<Rightarrow> rs)"

type_synonym agreement = "string \<times> real \<times> string option \<times> string list"

definition semantic_agreement :: "Thresholds \<Rightarrow> Responses \<Rightarrow> DissentReport \<Rightarrow> agreement" where
  "semantic_agreement th responses report =
     (let agent_names = map ap_agent_name (dr_agent_profiles report);
          (majority_cluster, minority_agents) = cluster_by_similarity (th_similarity th) agent_names (dr_pairwise report);
          total = length agent_names;
          agreement_ratio = (if total > 0 then of_nat (length majority_cluster) / of_nat total else 0);
          resp_dict = resp_dict_of agent_names responses;
          majority_view = (case majority_cluster of [] \<Rightarrow> None | a # _ \<Rightarrow> Some (dget resp_dict a []));
          minority_views = map (\<lambda>a. dget resp_dict a []) minority_agents
      in (confidence_of (th_quorum th) agreement_ratio, agreement_ratio, majority_view, minority_views))"

definition most_common :: "string list \<Rightarrow> (string \<times> nat) option" where
  "most_common resp_list =
     (case fold dcount resp_list [] of [] \<Rightarrow> None | kv # kvs \<Rightarrow> Some (first_max snd kv kvs))"

definition exact_agreement :: "Thresholds \<Rightarrow> Responses \<Rightarrow> agg_error + agreement" where
  "exact_agreement th responses =
     (let resp_list = resp_list_of responses in
      case most_common resp_list of
        None \<Rightarrow> Inl IndexError
      | Some (majority, n) \<Rightarrow>
          (let total = length resp_list;
               agreement_ratio = (if total > 0 then of_nat n / of_nat total else 0)
           in Inr (confidence_of (th_quorum th) agreement_ratio, agreement_ratio, Some majority,
                   filter (\<lambda>resp. resp \<noteq> majority) resp_list)))"

definition analyze_agreement :: "Thresholds \<Rightarrow> Responses \<Rightarrow> DissentReport option \<Rightarrow> agg_error + agreement" where
  "analyze_agreement th responses dissent_report =
     (case dissent_report of
        Some report \<Rightarrow> if dr_pairwise report \<noteq> [] then Inr (semantic_agreement th responses report)
                        else exact_agreement th responses
      | None \<Rightarrow> exact_agreement th responses)"

definition ensemble_merge :: "Responses \<Rightarrow> string" where
  "ensemble_merge responses = ''Synthesized Answer: '' @ join_with '' | '' (resp_list_of responses)"

section \<open>The aggregated result\<close>

record DissentSection =
  dsec_internal_agreement :: real
  dsec_dissent_level :: string
  dsec_outlier_agents :: "string list"
  dsec_pairwise :: "((string \<times> string) \<times> real) list"
  dsec_agent_profiles :: "(string \<times> real \<times> bool) list"

record NcgSection =
  nsec_ncg_model :: string
  nsec_mean_drift :: real
  nsec_max_drift :: real
  nsec_silent_collapse :: bool
  nsec_compression_alert :: bool
  nsec_per_agent :: "(string \<times> real \<times> real \<times> string) list"

record AggregateResult =
  ag_consensus :: string
  ag_majority_view :: "string option"
  ag_minority_view :: "string list option"
  ag_confidence :: string
  ag_agreement_ratio :: real
  ag_quorum_met :: bool
  ag_quorum_threshold :: real
  ag_note :: string
  ag_dissent :: "DissentSection option"
  ag_ncg_benchmark :: "NcgSection option"

definition synthesis_note :: string where
  "synthesis_note = ''Maestro strives for synthesis, but preserves dissent when perfection cannot be reached.''"

definition collapse_note :: string where
  "collapse_note = ''WARNING: Silent collapse detected. All agents agree, but their '' @
     ''outputs have drifted significantly from the headless baseline. '' @
     ''Consensus may reflect RLHF conformity rather than genuine reasoning.''"

definition dissent_section :: "DissentReport \<Rightarrow> DissentSection" where
  "dissent_section r =
     \<lparr>dsec_internal_agreement = dr_internal_agreement r, dsec_dissent_level = dr_dissent_level r,
      dsec_outlier_agents = dr_outlier_agents r,
      dsec_pairwise = map (\<lambda>p. ((pd_agent_a p, pd_agent_b p), pd_distance p)) (dr_pairwise r),
      dsec_agent_profiles = map (\<lambda>p. (ap_agent_name p, ap_mean_distance p, ap_is_outlier p)) (dr_agent_profiles r)\<rparr>"

definition ncg_section :: "DriftReport \<Rightarrow> NcgSection" where
  "ncg_section r =
     \<lparr>nsec_ncg_model = df_ncg_model r, nsec_mean_drift = df_mean_semantic_distance r,
      nsec_max_drift = df_max_semantic_distance r, nsec_silent_collapse = df_silent_collapse_detected r,
      nsec_compression_alert = df_compression_alert r,
      nsec_per_agent = map (\<lambda>s. (ds_agent_name s, ds_semantic_distance s, ds_compression_ratio s, ds_analysis_tier s))
                         (df_agent_signals r)\<rparr>"

definition aggregate_responses ::
    "Thresholds \<Rightarrow> Responses \<Rightarrow> DriftReport option \<Rightarrow> DissentReport option \<Rightarrow> agg_error + AggregateResult" where
  "aggregate_responses th responses ncg_drift_report dissent_report =
     bind_res (analyze_agreement th responses dissent_report)
       (\<lambda>(confidence, agreement_ratio, majority, dissenting).
          Inr \<lparr>ag_consensus = ensemble_merge responses,
               ag_majority_view = majority,
               ag_minority_view = (if dissenting = [] then None else Some dissenting),
               ag_confidence = confidence,
               ag_agreement_ratio = round4 agreement_ratio,
               ag_quorum_met = (agreement_ratio \<ge> th_quorum th),
               ag_quorum_threshold = th_quorum th,
               ag_note = (case ncg_drift_report of
                            Some r \<Rightarrow> if df_silent_collapse_detected r then collapse_note else synthesis_note
                          | None \<Rightarrow> synthesis_note),
               ag_dissent = map_option dissent_section dissent_report,
               ag_ncg_benchmark = map_option ncg_section ncg_drift_report\<rparr>)"

section \<open>Correctness of the clustering\<close>

definition cohesive :: "real \<Rightarrow> (string \<times> string, real) dict \<Rightarrow> string list \<Rightarrow> bool" where
  "cohesive sim dm c \<longleftrightarrow>
     list_all (\<lambda>i. mean_to_cluster dm (c ! i) (take i c) < sim) [1..<length c]"

lemma cohesive_snoc:
  "cohesive sim dm c \<Longrightarrow> mean_to_cluster dm a c < sim \<Longrightarrow> cohesive sim dm (c @ [a])"
  by (auto simp: cohesive_def list_all_iff nth_append)

lemma absorb_pass_cohesive:
  "absorb_pass sim dm snap c r ch = (c', r', ch') \<Longrightarrow> cohesive sim dm c \<Longrightarrow> cohesive sim dm c'"
  by (induction snap arbitrary: c r ch) (auto split: if_splits dest: cohesive_snoc)

lemma absorb_pass_changed: "absorb_pass sim dm snap c r True = (c', r', ch') \<Longrightarrow> ch'"
  by (induction snap arbitrary: c r) (auto split: if_splits)

lemma absorb_pass_saturated:
  "absorb_pass sim dm snap c r False = (c', r', False) \<Longrightarrow>
     c' = c \<and> r' = r \<and> (\<forall>a \<in> set snap. sim \<le> mean_to_cluster dm a c)"
  by (induction snap) (auto split: if_splits dest: absorb_pass_changed)

lemma absorb_result:
  "absorb sim dm c r = (c', r') \<Longrightarrow> cohesive sim dm c \<Longrightarrow>
     cohesive sim dm c' \<and> (\<forall>a \<in> set r'. sim \<le> mean_to_cluster dm a c') \<and> set r' \<subseteq> set r"
proof (induction sim dm c r rule: absorb.induct)
  case (1 sim dm c r)
  obtain c1 r1 ch where p: "absorb_pass sim dm r c r False = (c1, r1, ch)" by (metis prod_cases3)
  have m: "mset c1 + mset r1 = mset c + mset r" using absorb_pass_mset [OF p] by simp
  have co: "cohesive sim dm c1" using absorb_pass_cohesive [OF p 1(3)] .
  show ?case
  proof (cases ch)
    case True
    then have a: "absorb sim dm c1 r1 = (c', r')" using 1(2) p by (simp add: absorb.simps [of sim dm c r])
    have "cohesive sim dm c' \<and> (\<forall>a \<in> set r'. sim \<le> mean_to_cluster dm a c') \<and> set r' \<subseteq> set r1"
      using 1(1) p True a co by simp
    moreover have "set r1 \<subseteq> set r" using p absorb_pass_rest by blast
    ultimately show ?thesis by blast
  next
    case False
    then have "c' = c1" "r' = r1" using 1(2) p by (auto simp: absorb.simps [of sim dm c r])
    then show ?thesis using absorb_pass_saturated [of sim dm r c r] p False co by auto
  qed
qed

lemma clusters_of_partition: "mset (concat (clusters_of sim dm xs)) = mset xs"
proof (induction sim dm xs rule: clusters_of.induct)
  case (2 sim dm a rest)
  obtain c r where ab: "absorb sim dm [a] rest = (c, r)" by fastforce
  with 2 have "mset (concat (clusters_of sim dm r)) = mset r" by simp
  with absorb_mset [OF ab] show ?case by (simp add: clusters_of.simps(2) ab)
qed simp

lemma clusters_of_cohesive: "c \<in> set (clusters_of sim dm xs) \<Longrightarrow> cohesive sim dm c \<and> c \<noteq> []"
proof (induction sim dm xs rule: clusters_of.induct)
  case (2 sim dm a rest)
  obtain c' r where ab: "absorb sim dm [a] rest = (c', r)" by fastforce
  have "cohesive sim dm c'" using absorb_result [OF ab] by (simp add: cohesive_def)
  moreover have "c' \<noteq> []" using absorb_nonempty [OF ab] by auto
  ultimately show ?case using 2 ab by (auto simp: clusters_of.simps(2))
qed simp

lemma clusters_of_separated:
  "sorted_wrt (\<lambda>c d. \<forall>a \<in> set d. sim \<le> mean_to_cluster dm a c) (clusters_of sim dm xs)"
proof (induction sim dm xs rule: clusters_of.induct)
  case (2 sim dm a rest)
  obtain c r where ab: "absorb sim dm [a] rest = (c, r)" by fastforce
  have "\<forall>a \<in> set r. sim \<le> mean_to_cluster dm a c"
    using absorb_result [OF ab] by (simp add: cohesive_def)
  moreover have "set (concat (clusters_of sim dm r)) = set r"
    using clusters_of_partition by (metis set_mset_mset)
  ultimately show ?case using 2 ab by (auto simp: clusters_of.simps(2))
qed simp

lemma clusters_of_nonempty: "xs \<noteq> [] \<Longrightarrow> clusters_of sim dm xs \<noteq> []"
  by (cases xs) (auto simp: clusters_of.simps(2) split: prod.split)

lemma cluster_choice:
  assumes "xs \<noteq> []" "cluster_by_similarity sim xs pw = (major, minor)"
  shows "mset (major @ minor) = mset xs" "major \<in> set (clusters_of sim (dist_map_of pw) xs)"
    "c \<in> set (clusters_of sim (dist_map_of pw) xs) \<Longrightarrow> length c \<le> length major"
proof -
  let ?cs = "clusters_of sim (dist_map_of pw) xs" and ?f = "\<lambda>c. int (length c)"
  obtain y ys where s: "sort_desc ?f ?cs = y # ys"
    using clusters_of_nonempty [OF assms(1), of sim "dist_map_of pw"]
    by (metis length_sort_desc length_0_conv neq_Nil_conv)
  have y: "major = y" "minor = concat ys"
    using assms s by (auto simp: cluster_by_similarity_def)
  have "mset (concat (y # ys)) = \<Sum>\<^sub># (image_mset mset (mset (sort_desc ?f ?cs)))"
    by (simp add: s mset_concat sum_mset_sum_list [symmetric])
  also have "\<dots> = mset (concat ?cs)"
    by (simp add: mset_concat sum_mset_sum_list [symmetric])
  finally show "mset (major @ minor) = mset xs"
    by (simp add: y clusters_of_partition)
  show "major \<in> set ?cs" using s y by (metis set_sort_desc list.set_intros(1))
  show "c \<in> set ?cs \<Longrightarrow> length c \<le> length major"
    using sort_desc_head [OF s, of c] y by simp
qed

lemma cluster_sizes:
  assumes "cluster_by_similarity sim xs pw = (major, minor)"
  shows "length major + length minor = length xs"
proof (cases "xs = []")
  case False
  from arg_cong [OF cluster_choice(1) [OF False assms], of size] show ?thesis by simp
qed (use assms in \<open>simp add: cluster_by_similarity_def\<close>)

lemma unit_ratio: "k \<le> n \<Longrightarrow> 0 \<le> (of_nat k / of_nat n :: real) \<and> (of_nat k / of_nat n :: real) \<le> 1"
  by (cases "n = 0") (simp_all add: divide_le_eq)

lemma semantic_agreement_ratio:
  assumes "semantic_agreement th rs rep = (conf, ratio, maj, mino)"
  shows "conf = confidence_of (th_quorum th) ratio \<and> 0 \<le> ratio \<and> ratio \<le> 1"
proof -
  obtain c m where cl: "cluster_by_similarity (th_similarity th) (map ap_agent_name (dr_agent_profiles rep)) (dr_pairwise rep) = (c, m)"
    by fastforce
  have "length c \<le> length (dr_agent_profiles rep)" using cluster_sizes [OF cl] by simp
  from unit_ratio [OF this] show ?thesis
    using assms cl by (auto simp: semantic_agreement_def Let_def)
qed

lemma counts_pos: "kv \<in> set (fold dcount xs []) \<Longrightarrow> snd kv = count_list xs (fst kv) \<and> fst kv \<in> set xs"
proof -
  assume kv: "kv \<in> set (fold dcount xs [])"
  have wk: "well_keyed (fold dcount ys d)" if "well_keyed d" for ys :: "'a list" and d
    using that by (induction ys arbitrary: d) auto
  have keys: "set (dkeys (fold dcount ys d)) = set (dkeys d) \<union> set ys" for ys :: "'a list" and d
    by (induction ys arbitrary: d) (auto simp: dcount_def dkeys_dset simp flip: set_map)
  have "map_of (fold dcount xs []) (fst kv) = Some (snd kv)"
    using kv wk [of "[]" xs] by (simp add: well_keyed_def)
  then have "dget (fold dcount xs []) (fst kv) 0 = snd kv" by (simp add: dget_def)
  moreover have "fst kv \<in> set xs" using kv keys [of xs "[]"] by force
  ultimately show ?thesis using dget_fold_dcount [of xs "[]" "fst kv"] by simp
qed

lemma counted: "x \<in> set xs \<Longrightarrow> (x, count_list xs x) \<in> set (fold dcount xs [])"
proof -
  assume x: "x \<in> set xs"
  then have pos: "dget (fold dcount xs []) x 0 \<noteq> 0"
    using dget_fold_dcount [of xs "[]" x] by (simp add: count_list_0_iff)
  then obtain v where v: "map_of (fold dcount xs []) x = Some v" by (auto simp: dget_def split: option.splits)
  then have "v = count_list xs x" using dget_fold_dcount [of xs "[]" x] by (simp add: dget_def)
  with v show ?thesis by (auto dest: map_of_SomeD)
qed

lemma most_common_correct:
  assumes "most_common xs = Some (x, n)"
  shows "x \<in> set xs \<and> n = count_list xs x \<and> (\<forall>y \<in> set xs. count_list xs y \<le> n)"
proof -
  from assms obtain kv kvs where f: "fold dcount xs [] = kv # kvs" and b: "first_max snd kv kvs = (x, n)"
    by (auto simp: most_common_def split: list.splits)
  have "(x, n) \<in> set (fold dcount xs [])" using first_max_in [of snd kv kvs] f b by simp
  from counts_pos [OF this] have "x \<in> set xs \<and> n = count_list xs x" by simp
  moreover have "count_list xs y \<le> n" if "y \<in> set xs" for y
    using first_max_ge [of "(y, count_list xs y)" kv kvs snd] counted [OF that] f b by simp
  ultimately show ?thesis by blast
qed

lemma most_common_None: "most_common xs = None \<longleftrightarrow> xs = []"
proof
  assume "most_common xs = None"
  then have "fold dcount xs [] = []" by (auto simp: most_common_def split: list.splits)
  then show "xs = []" using counted [of "hd xs" xs] by (cases xs) auto
qed (simp add: most_common_def)

lemma exact_agreement_ok:
  assumes ex: "exact_agreement th rs = Inr (c, r, mv, dv)"
  shows "0 \<le> r \<and> r \<le> 1 \<and> c = confidence_of (th_quorum th) r \<and>
      (\<exists>m. mv = Some m \<and> m \<in> set (resp_list_of rs)
         \<and> list_all (\<lambda>y. count_list (resp_list_of rs) y \<le> count_list (resp_list_of rs) m) (resp_list_of rs)
         \<and> dv = filter (\<lambda>y. y \<noteq> m) (resp_list_of rs))"
proof -
  from ex obtain m n where mc: "most_common (resp_list_of rs) = Some (m, n)"
    by (auto simp: exact_agreement_def Let_def split: option.splits)
  note mcc = most_common_correct [OF mc]
  have "n \<le> length (resp_list_of rs)" using mcc count_le_length [of "resp_list_of rs" m] by simp
  from unit_ratio [OF this] show ?thesis
    using ex mc mcc by (auto simp: exact_agreement_def Let_def list_all_iff)
qed

lemma exact_agreement_error: "exact_agreement th rs = Inl e \<Longrightarrow> resp_list_of rs = []"
  by (auto simp: exact_agreement_def Let_def most_common_None split: option.splits)

lemma confidence_high_iff: "confidence_of q r = ''High'' \<longleftrightarrow> q \<le> r"
  by (simp add: confidence_of_def)

lemma analyze_agreement_ratio:
  assumes "analyze_agreement th rs diss = Inr (c, r, mv, dv)"
  shows "0 \<le> r \<and> r \<le> 1 \<and> c = confidence_of (th_quorum th) r"
proof (cases "\<exists>d. diss = Some d \<and> dr_pairwise d \<noteq> []")
  case True
  then obtain d where "semantic_agreement th rs d = (c, r, mv, dv)"
    using assms by (auto simp: analyze_agreement_def)
  from semantic_agreement_ratio [OF this] show ?thesis by simp
next
  case False
  then have "exact_agreement th rs = Inr (c, r, mv, dv)"
    using assms by (auto simp: analyze_agreement_def split: option.splits)
  from exact_agreement_ok [OF this] show ?thesis by simp
qed

lemma aggregate_quorum_iff:
  assumes "aggregate_responses th rs drift diss = Inr R"
  shows "ag_quorum_met R \<longleftrightarrow> ag_confidence R = ''High''"
proof -
  from assms obtain q where an: "analyze_agreement th rs diss = Inr q"
    by (auto simp: aggregate_responses_def bind_res_Inr)
  obtain c r mv dv where q: "q = (c, r, mv, dv)" by (metis prod_cases4)
  from analyze_agreement_ratio [OF an [unfolded q]] assms an q show ?thesis
    by (auto simp: aggregate_responses_def confidence_high_iff)
qed

section \<open>Properties\<close>

text \<open>
  C6: the clustering of a non-empty council partitions the agents: majority and minority
  together are the agents, each once; the majority is a longest cluster; every member of it was,
  when it joined, closer on average than the threshold to the members before it; and no agent of
  a later cluster is that close to an earlier, finished cluster.
\<close>

theorem clustering_correct:
  assumes "names \<noteq> []" "cluster_by_similarity sim names pw = (major, minor)"
  shows "mset (major @ minor) = mset names
    \<and> major \<noteq> [] \<and> cohesive sim (dist_map_of pw) major
    \<and> (\<forall>c \<in> set (clusters_of sim (dist_map_of pw) names). length c \<le> length major)
    \<and> sorted_wrt (\<lambda>c d. \<forall>a \<in> set d. sim \<le> mean_to_cluster (dist_map_of pw) a c)
        (clusters_of sim (dist_map_of pw) names)"
  using cluster_choice [OF assms] clusters_of_cohesive [OF cluster_choice(2) [OF assms]]
    clusters_of_separated by blast

lemma clusters_of_three:
  assumes "x < sim" "y + z < 2 * sim"
  shows "cluster_by_similarity sim [''a'', ''b'', ''c'']
     [\<lparr>pd_agent_a = ''a'', pd_agent_b = ''b'', pd_distance = x\<rparr>,
      \<lparr>pd_agent_a = ''a'', pd_agent_b = ''c'', pd_distance = y\<rparr>,
      \<lparr>pd_agent_a = ''b'', pd_agent_b = ''c'', pd_distance = z\<rparr>] = ([''a'', ''b'', ''c''], [])"
  using assms
  by (simp add: cluster_by_similarity_def clusters_of.simps absorb.simps mean_to_cluster_def mean_of_def
      dget_def dist_map_of_def sort_desc_def)

lemma clustering_correct_witness:
  "mset ([''a'', ''b'', ''c''] @ []) = mset [''a'', ''b'', ''c'']"
  using clustering_correct [OF _ clusters_of_three [of "1 / 10" "1 / 2" "2 / 10" "3 / 10"]] by simp

text \<open>
  Library fact: the clusters are not made of agents that are pairwise within the threshold, as the
  docstring says: if the second agent is within the threshold of the first and the third is
  within it on average, all three form one cluster, however large (up to twice the threshold) the distance
  between the second and the third is.
\<close>

theorem cluster_exceeds_pairwise_threshold:
  assumes "x < sim" "y + z < 2 * sim" "sim \<le> z"
  shows "\<exists>major. cluster_by_similarity sim [''a'', ''b'', ''c'']
     [\<lparr>pd_agent_a = ''a'', pd_agent_b = ''b'', pd_distance = x\<rparr>,
      \<lparr>pd_agent_a = ''a'', pd_agent_b = ''c'', pd_distance = y\<rparr>,
      \<lparr>pd_agent_a = ''b'', pd_agent_b = ''c'', pd_distance = z\<rparr>] = (major, [])
    \<and> ''b'' \<in> set major \<and> ''c'' \<in> set major"
  using clusters_of_three [of x sim y z] assms by simp

lemma cluster_exceeds_pairwise_threshold_witness:
  "\<exists>major. cluster_by_similarity SIMILARITY_THRESHOLD [''a'', ''b'', ''c'']
     [\<lparr>pd_agent_a = ''a'', pd_agent_b = ''b'', pd_distance = 1 / 10\<rparr>,
      \<lparr>pd_agent_a = ''a'', pd_agent_b = ''c'', pd_distance = 1 / 20\<rparr>,
      \<lparr>pd_agent_a = ''b'', pd_agent_b = ''c'', pd_distance = 9 / 10\<rparr>] = (major, [])
    \<and> ''b'' \<in> set major \<and> ''c'' \<in> set major"
  by (rule cluster_exceeds_pairwise_threshold) (simp_all add: SIMILARITY_THRESHOLD_def)

text \<open>
  C5: aggregation fails only on an empty council without usable dissent data, and otherwise the
  reported ratio lies in [0,1], confidence is \<^verbatim>\<open>High\<close> exactly when the quorum is met, and without
  dissent data the majority view is a most frequent response and the minority view holds exactly
  the other responses.
\<close>

theorem aggregate_correct:
  "(case aggregate_responses th rs drift diss of
      Inl e \<Rightarrow> resp_list_of rs = [] \<and> (diss = None \<or> (\<exists>d. diss = Some d \<and> dr_pairwise d = []))
    | Inr R \<Rightarrow>
        0 \<le> ag_agreement_ratio R \<and> ag_agreement_ratio R \<le> 1
        \<and> (ag_quorum_met R \<longleftrightarrow> ag_confidence R = ''High'')
        \<and> (if diss = None then
             \<exists>m. ag_majority_view R = Some m \<and> m \<in> set (resp_list_of rs)
               \<and> list_all (\<lambda>y. count_list (resp_list_of rs) y \<le> count_list (resp_list_of rs) m) (resp_list_of rs)
               \<and> (case ag_minority_view R of None \<Rightarrow> [] | Some v \<Rightarrow> v) = filter (\<lambda>y. y \<noteq> m) (resp_list_of rs)
           else True))"
proof -
  show ?thesis
  proof (cases "analyze_agreement th rs diss")
    case (Inl e)
    then show ?thesis using exact_agreement_error
      by (auto simp: aggregate_responses_def analyze_agreement_def split: option.splits if_splits)
  next
    case (Inr q)
    obtain c r mv dv where q: "q = (c, r, mv, dv)" by (metis prod_cases4)
    have unit: "0 \<le> r \<and> r \<le> 1 \<and> c = confidence_of (th_quorum th) r"
      using analyze_agreement_ratio Inr q by simp
    show ?thesis
    proof (cases diss)
      case None
      then have "exact_agreement th rs = Inr (c, r, mv, dv)" using Inr q by (simp add: analyze_agreement_def)
      from exact_agreement_ok [OF this] show ?thesis using None Inr q
        by (auto simp: aggregate_responses_def confidence_high_iff round4_nonneg round4_le_one)
    next
      case (Some d)
      then show ?thesis using Inr q unit
        by (auto simp: aggregate_responses_def confidence_high_iff round4_nonneg round4_le_one)
    qed
  qed
qed

end
