(* ===== verification/R2.thy ===== *)
theory R2
  imports Aggregator
begin

text \<open>
  \<^verbatim>\<open>maestro/r2.py\<close>: the session score and its grade, the improvement signals, the ledger and its
  trends, and the storage-node signals.  The ledger directory is a dictionary from entry id to a
  modification time and the file's content (\<^term>\<open>None\<close> when it does not parse); the fresh
  \<^verbatim>\<open>uuid4\<close> and the clock are arguments.
\<close>

section \<open>Data\<close>

record R2Score =
  r2_grade :: string
  r2_confidence_score :: real
  r2_quorum_met :: bool
  r2_internal_agreement :: real
  r2_ncg_drift :: real
  r2_silent_collapse :: bool
  r2_compression_alert :: bool
  r2_has_outliers :: bool
  r2_flags :: "string list"

datatype sig_value = SReal real | SStr string | SBool bool | STokenDrift TokenDrift

record ImprovementSignal =
  sig_signal_type :: string
  sig_severity :: string
  sig_description :: string
  sig_affected_agents :: "string list"
  sig_data :: "(string, sig_value) dict"

record DissentSummary =
  sum_internal_agreement :: real
  sum_dissent_level :: string
  sum_outlier_agents :: "string list"
  sum_agent_count :: nat

record R2LedgerEntry =
  le_entry_id :: string
  le_timestamp :: string
  le_session_id :: string
  le_prompt :: string
  le_consensus :: string
  le_agents_agreed :: "string list"
  le_score :: R2Score
  le_improvement_signals :: "ImprovementSignal list"
  le_ncg_attached :: bool
  le_dissent_summary :: DissentSummary

section \<open>Scoring\<close>

definition r2_flags_of :: "DissentReport \<Rightarrow> real \<Rightarrow> bool \<Rightarrow> bool \<Rightarrow> bool \<Rightarrow> string list" where
  "r2_flags_of dissent_report ncg_drift silent_collapse compression_alert quorum_met =
     (let agreement = dr_internal_agreement dissent_report in
      (if silent_collapse then [''Silent collapse: agents agree but drift from headless baseline''] else []) @
      (if compression_alert then [''Compression alert: conversational outputs significantly shorter than baseline''] else []) @
      (if dr_outlier_agents dissent_report \<noteq> []
       then [''Outlier agents detected: '' @ join_with '', '' (dr_outlier_agents dissent_report)] else []) @
      (if agreement > 9 / 10 \<and> ncg_drift > 1 / 2
       then [''Suspicious consensus: very high agreement with high NCG drift''] else []) @
      (if dr_dissent_level dissent_report = ''high''
       then [''High internal dissent: agents strongly disagree''] else []) @
      (if \<not> quorum_met then [''Quorum not met: insufficient agreement for consensus''] else []))"

definition r2_grade_of :: "DissentReport \<Rightarrow> real \<Rightarrow> bool \<Rightarrow> bool \<Rightarrow> string list \<Rightarrow> string" where
  "r2_grade_of dissent_report ncg_drift silent_collapse quorum_met flags =
     (if silent_collapse \<or> (dr_internal_agreement dissent_report > 9 / 10 \<and> ncg_drift > 1 / 2) then ''suspicious''
      else if \<not> quorum_met \<or> dr_dissent_level dissent_report = ''high'' then ''weak''
      else if flags \<noteq> [] then ''acceptable''
      else ''strong'')"

definition r2_confidence_of :: "real \<Rightarrow> real option \<Rightarrow> bool \<Rightarrow> bool \<Rightarrow> real" where
  "r2_confidence_of agreement ncg_drift quorum_met silent_collapse =
     (let base = agreement * (4 / 10);
          base = (case ncg_drift of Some d \<Rightarrow> base + (1 - d) * (3 / 10) | None \<Rightarrow> base + 3 / 10);
          base = base + (if quorum_met then 3 / 10 else 0);
          base = (if silent_collapse then base * (1 / 2) else base)
      in round4 (max 0 (min 1 base)))"

definition score_session :: "DissentReport \<Rightarrow> DriftReport option \<Rightarrow> string \<Rightarrow> R2Score" where
  "score_session dissent_report drift_report quorum_confidence =
     (let ncg_drift = (case drift_report of None \<Rightarrow> 0 | Some d \<Rightarrow> df_mean_semantic_distance d);
          silent_collapse = (case drift_report of None \<Rightarrow> False | Some d \<Rightarrow> df_silent_collapse_detected d);
          compression_alert = (case drift_report of None \<Rightarrow> False | Some d \<Rightarrow> df_compression_alert d);
          agreement = dr_internal_agreement dissent_report;
          quorum_met = (quorum_confidence \<in> {''High'', ''Medium''});
          flags = r2_flags_of dissent_report ncg_drift silent_collapse compression_alert quorum_met
      in \<lparr>r2_grade = r2_grade_of dissent_report ncg_drift silent_collapse quorum_met flags,
          r2_confidence_score =
            r2_confidence_of agreement (map_option df_mean_semantic_distance drift_report) quorum_met silent_collapse,
          r2_quorum_met = quorum_met,
          r2_internal_agreement = agreement,
          r2_ncg_drift = ncg_drift,
          r2_silent_collapse = silent_collapse,
          r2_compression_alert = compression_alert,
          r2_has_outliers = (dr_outlier_agents dissent_report \<noteq> []),
          r2_flags = flags\<rparr>)"

section \<open>Improvement signals\<close>

definition signal_outlier :: "R2Score \<Rightarrow> DissentReport \<Rightarrow> ImprovementSignal" where
  "signal_outlier score dissent_report =
     \<lparr>sig_signal_type = ''persistent_outlier'', sig_severity = ''warning'',
      sig_description =
        ''One or more agents consistently diverge from the council. '' @
        ''MAGI should evaluate whether these agents need recalibration '' @
        ''or whether their dissent is providing valuable signal.'',
      sig_affected_agents = dr_outlier_agents dissent_report,
      sig_data = [(''agreement'', SReal (r2_internal_agreement score))]\<rparr>"

definition signal_collapse :: "R2Score \<Rightarrow> ImprovementSignal" where
  "signal_collapse score =
     \<lparr>sig_signal_type = ''suspicious_consensus'', sig_severity = ''critical'',
      sig_description =
        ''All agents agree but their outputs have drifted from the '' @
        ''headless baseline. This may indicate RLHF conformity is '' @
        ''compressing the answer space. MAGI should consider prompt '' @
        ''diversification or agent rotation adjustments.'',
      sig_affected_agents = [],
      sig_data = [(''ncg_drift'', SReal (r2_ncg_drift score)),
                  (''internal_agreement'', SReal (r2_internal_agreement score))]\<rparr>"

definition signal_compression :: "R2Score \<Rightarrow> ImprovementSignal" where
  "signal_compression score =
     \<lparr>sig_signal_type = ''compression'', sig_severity = ''warning'',
      sig_description =
        ''Conversational outputs are significantly shorter than the '' @
        ''headless baseline. Nuance is being lost. MAGI should consider '' @
        ''adjusting prompt length guidance or temperature settings.'',
      sig_affected_agents = [],
      sig_data = [(''ncg_drift'', SReal (r2_ncg_drift score))]\<rparr>"

definition signal_healthy :: "DissentReport \<Rightarrow> ImprovementSignal" where
  "signal_healthy dissent_report =
     \<lparr>sig_signal_type = ''healthy_dissent'', sig_severity = ''info'',
      sig_description =
        ''Agents show high disagreement without clear outliers. '' @
        ''This may indicate a genuinely contested topic. R2 records '' @
        ''this as a positive diversity signal.'',
      sig_affected_agents = [],
      sig_data = [(''dissent_level'', SStr (dr_dissent_level dissent_report))]\<rparr>"

definition signal_degradation :: "R2Score \<Rightarrow> ImprovementSignal" where
  "signal_degradation score =
     \<lparr>sig_signal_type = ''agent_degradation'', sig_severity = ''warning'',
      sig_description =
        ''Quorum was not met. The council could not reach sufficient '' @
        ''agreement. MAGI should review agent configurations and '' @
        ''consider whether the prompt type exceeds current capabilities.'',
      sig_affected_agents = [],
      sig_data = [(''quorum_met'', SBool False), (''confidence'', SReal (r2_confidence_score score))]\<rparr>"

definition detect_signals :: "R2Score \<Rightarrow> DissentReport \<Rightarrow> ImprovementSignal list" where
  "detect_signals score dissent_report =
     (if r2_has_outliers score then [signal_outlier score dissent_report] else []) @
     (if r2_silent_collapse score then [signal_collapse score] else []) @
     (if r2_compression_alert score then [signal_compression score] else []) @
     (if dr_dissent_level dissent_report = ''high'' \<and> \<not> r2_has_outliers score then [signal_healthy dissent_report] else []) @
     (if r2_grade score = ''weak'' \<and> \<not> r2_quorum_met score then [signal_degradation score] else [])"

section \<open>The ledger\<close>

type_synonym ledger = "(string, nat \<times> R2LedgerEntry option) dict"

datatype ledger_error = FileNotFoundError | JSONDecodeError

definition r2_index ::
    "string \<Rightarrow> nat \<Rightarrow> string \<Rightarrow> string option \<Rightarrow> string \<Rightarrow> string \<Rightarrow> string list \<Rightarrow> R2Score
     \<Rightarrow> ImprovementSignal list \<Rightarrow> DissentReport \<Rightarrow> DriftReport option \<Rightarrow> ledger \<Rightarrow> R2LedgerEntry \<times> ledger" where
  "r2_index uuid now timestamp session_id prompt consensus agents_agreed score signals dissent_report drift_report dir =
     (let entry = \<lparr>le_entry_id = uuid, le_timestamp = timestamp,
            le_session_id = (case session_id of None \<Rightarrow> ''unknown'' | Some s \<Rightarrow> if s = [] then ''unknown'' else s),
            le_prompt = prompt, le_consensus = consensus, le_agents_agreed = agents_agreed, le_score = score,
            le_improvement_signals = signals, le_ncg_attached = (drift_report \<noteq> None),
            le_dissent_summary = \<lparr>sum_internal_agreement = dr_internal_agreement dissent_report,
              sum_dissent_level = dr_dissent_level dissent_report,
              sum_outlier_agents = dr_outlier_agents dissent_report,
              sum_agent_count = dr_agent_count dissent_report\<rparr>\<rparr>
      in (entry, dset uuid (now, Some entry) dir))"

definition load_entry :: "ledger \<Rightarrow> string \<Rightarrow> ledger_error + R2LedgerEntry" where
  "load_entry dir entry_id =
     (case map_of dir entry_id of
        None \<Rightarrow> Inl FileNotFoundError
      | Some (_, None) \<Rightarrow> Inl JSONDecodeError
      | Some (_, Some e) \<Rightarrow> Inr e)"

definition recent_files :: "ledger \<Rightarrow> (string \<times> nat \<times> R2LedgerEntry option) list" where
  "recent_files dir = sort_desc (\<lambda>(_, mtime, _). int mtime) dir"

definition load_recent_entries :: "ledger \<Rightarrow> nat \<Rightarrow> R2LedgerEntry list" where
  "load_recent_entries dir limit = List.map_filter (\<lambda>(_, _, c). c) (take limit (recent_files dir))"

record EntrySummary =
  es_entry_id :: string
  es_timestamp :: string
  es_session_id :: string
  es_prompt :: string
  es_grade :: string
  es_confidence :: real
  es_signal_count :: nat

definition summary_of :: "R2LedgerEntry \<Rightarrow> EntrySummary" where
  "summary_of e = \<lparr>es_entry_id = le_entry_id e, es_timestamp = le_timestamp e, es_session_id = le_session_id e,
     es_prompt = take 120 (le_prompt e), es_grade = r2_grade (le_score e),
     es_confidence = r2_confidence_score (le_score e), es_signal_count = length (le_improvement_signals e)\<rparr>"

definition list_entries :: "ledger \<Rightarrow> nat \<Rightarrow> EntrySummary list" where
  "list_entries dir limit = map summary_of (List.map_filter (\<lambda>(_, _, c). c) (take limit (recent_files dir)))"

definition ledger_count :: "ledger \<Rightarrow> nat" where
  "ledger_count dir = length dir"

section \<open>Trends across the ledger\<close>

record LedgerTrends =
  lt_entries_analyzed :: nat
  lt_mean_confidence :: real
  lt_grade_distribution :: "(string, nat) dict option"
  lt_recurring_signals :: "(string, nat) dict option"
  lt_trends :: "string list"

definition confidence_trend :: "real list \<Rightarrow> string list" where
  "confidence_trend scores =
     (if length scores \<ge> 4 then
        let diff = half_shift scores in
        if diff > 1 / 10 then [''confidence_improving''] else if diff < - 1 / 10 then [''confidence_declining''] else []
      else [])"

definition analyze_ledger_trends :: "ledger \<Rightarrow> nat \<Rightarrow> LedgerTrends" where
  "analyze_ledger_trends dir limit =
     (let entries = load_recent_entries dir limit in
      if length entries < 2 then
        \<lparr>lt_entries_analyzed = length entries, lt_mean_confidence = 0, lt_grade_distribution = None,
         lt_recurring_signals = None, lt_trends = []\<rparr>
      else
        let scores = map (\<lambda>e. r2_confidence_score (le_score e)) entries;
            grade_counts = fold dcount (map (\<lambda>e. r2_grade (le_score e)) entries) [];
            signal_counts = fold dcount (concat (map (\<lambda>e. map sig_signal_type (le_improvement_signals e)) entries)) [];
            recurring = filter (\<lambda>(k, v). v \<ge> 2) signal_counts
        in \<lparr>lt_entries_analyzed = length entries,
            lt_mean_confidence = round4 (mean_of scores),
            lt_grade_distribution = Some grade_counts,
            lt_recurring_signals = Some recurring,
            lt_trends = confidence_trend scores @
              (if recurring \<noteq> [] then [''recurring_signals''] else []) @
              (if dget grade_counts ''suspicious'' 0 \<ge> 2 then [''repeated_suspicious_consensus''] else [])\<rparr>)"

section \<open>Storage nodes\<close>

record NodeContribution =
  nc_node_id :: string
  nc_session_grade :: string
  nc_contribution_score :: real
  nc_confidence_score :: real
  nc_timestamp :: string

definition score_node_contribution :: "string \<Rightarrow> string \<Rightarrow> R2Score \<Rightarrow> NodeContribution" where
  "score_node_contribution timestamp node_id session_score =
     (let contribution =
            dget [(''strong'', 1), (''acceptable'', 7 / 10), (''weak'', 4 / 10), (''suspicious'', 1 / 10)]
              (r2_grade session_score) (1 / 2);
          contribution = (if r2_silent_collapse session_score then contribution * (1 / 2) else contribution)
      in \<lparr>nc_node_id = node_id, nc_session_grade = r2_grade session_score,
          nc_contribution_score = round4 contribution,
          nc_confidence_score = r2_confidence_score session_score, nc_timestamp = timestamp\<rparr>)"

text \<open>A reputation is a bare number or an object with a score and a status.\<close>

datatype reputation = RepNumber real | RepObject real string

fun rep_score :: "reputation \<Rightarrow> real" where
  "rep_score (RepNumber x) = x"
| "rep_score (RepObject x _) = x"

fun rep_status :: "reputation \<Rightarrow> string" where
  "rep_status (RepNumber _) = ''trusted''"
| "rep_status (RepObject _ s) = s"

definition node_signals :: "string \<times> reputation \<Rightarrow> ImprovementSignal list" where
  "node_signals nr =
     (case nr of (node_id, rep) \<Rightarrow>
        (if rep_score rep < 1 / 2 then
           [\<lparr>sig_signal_type = ''node_degradation'', sig_severity = ''warning'',
             sig_description = ''Storage node '' @ node_id @ '' reputation has dropped to '' @ fmt_fixed 2 (rep_score rep) @
               ''. Consider investigating or replacing.'',
             sig_affected_agents = [],
             sig_data = [(''node_id'', SStr node_id), (''reputation'', SReal (rep_score rep))]\<rparr>]
         else []) @
        (if rep_status rep = ''evicted'' then
           [\<lparr>sig_signal_type = ''proof_failure'', sig_severity = ''critical'',
             sig_description = ''Storage node '' @ node_id @ '' has been evicted from the '' @
               ''network due to repeated proof failures.'',
             sig_affected_agents = [],
             sig_data = [(''node_id'', SStr node_id), (''status'', SStr (rep_status rep))]\<rparr>]
         else []))"

definition detect_node_signals :: "(string, reputation) dict \<Rightarrow> ImprovementSignal list" where
  "detect_node_signals node_reputations = concat (map node_signals node_reputations)"

section \<open>Correctness\<close>

lemma r2_confidence_unit [unit_bounds]:
  "0 \<le> r2_confidence_of a d q c" "r2_confidence_of a d q c \<le> 1"
  by (auto simp: r2_confidence_of_def Let_def intro!: round4_nonneg round4_le_one)

lemma load_entry_dset:
  "load_entry (dset u (n, Some e) dir) x = (if x = u then Inr e else load_entry dir x)"
  by (simp add: load_entry_def)

lemma r2_index_dir:
  assumes "r2_index uuid now ts sid p c ags sc sigs dr df dir = (e, dir')"
  shows "dir' = dset uuid (now, Some e) dir" "le_score e = sc" "le_improvement_signals e = sigs"
  using assms by (auto simp: r2_index_def Let_def)

lemma load_entry_absent: "uuid \<notin> set (dkeys dir) \<Longrightarrow> load_entry dir uuid = Inl FileNotFoundError"
  using map_of_eq_None_keys [of dir uuid] by (simp add: load_entry_def)

definition timed_entries :: "ledger \<Rightarrow> nat \<Rightarrow> (nat \<times> R2LedgerEntry) list" where
  "timed_entries dir limit = List.map_filter (\<lambda>(_, t, c). map_option (Pair t) c) (take limit (recent_files dir))"

lemma recent_files_sorted: "sorted_wrt (\<lambda>x y. fst (snd y) \<le> fst (snd x)) (recent_files dir)"
proof -
  have "sorted (map (\<lambda>x. - (case x of (_, t, _) \<Rightarrow> int t)) (recent_files dir))"
    unfolding recent_files_def sort_desc_def by (rule sorted_sort_key)
  then show ?thesis
    by (auto simp: sorted_wrt_map case_prod_beta elim!: sorted_wrt_mono_rel [rotated])
qed

lemma timed_entries_sorted: "sorted_wrt (\<lambda>x y. fst y \<le> fst x) (timed_entries dir limit)"
proof -
  let ?P = "\<lambda>(_ :: string, t :: nat, c). map_option (Pair t) (c :: R2LedgerEntry option)"
  have "sorted_wrt (\<lambda>x y. fst (snd y) \<le> fst (snd x)) (filter (\<lambda>x. ?P x \<noteq> None) (take limit (recent_files dir)))"
    by (intro sorted_wrt_filter sorted_wrt_take recent_files_sorted)
  then have "sorted_wrt (\<lambda>x y. fst (the (?P y)) \<le> fst (the (?P x))) (filter (\<lambda>x. ?P x \<noteq> None) (take limit (recent_files dir)))"
    by (rule sorted_wrt_mono_rel [rotated]) auto
  then show ?thesis
    by (simp add: timed_entries_def List.map_filter_def sorted_wrt_map)
qed

lemma load_recent_timed: "load_recent_entries dir limit = map snd (timed_entries dir limit)"
  by (auto simp: load_recent_entries_def timed_entries_def List.map_filter_def comp_def case_prod_beta intro!: map_cong filter_cong)

lemma confidence_trend_improving:
  "''confidence_improving'' \<in> set (confidence_trend xs) \<longleftrightarrow> 4 \<le> length xs \<and> half_shift xs > 1 / 10"
  by (auto simp: confidence_trend_def Let_def)

lemma ledger_trend_improving:
  "''confidence_improving'' \<in> set (lt_trends (analyze_ledger_trends dir limit)) \<longleftrightarrow>
     ''confidence_improving'' \<in> set (confidence_trend (map (\<lambda>e. r2_confidence_score (le_score e)) (load_recent_entries dir limit)))"
  by (auto simp: analyze_ledger_trends_def confidence_trend_def Let_def)

lemma improving_trend_halves:
  assumes "''confidence_improving'' \<in> set (lt_trends (analyze_ledger_trends dir limit))"
  shows "\<exists>newer older. timed_entries dir limit = newer @ older \<and> newer \<noteq> []
    \<and> length newer = length (timed_entries dir limit) div 2
    \<and> list_all (\<lambda>x. list_all (\<lambda>y. fst y \<le> fst x) older) newer
    \<and> mean_of (map (\<lambda>x. r2_confidence_score (le_score (snd x))) newer)
        < mean_of (map (\<lambda>x. r2_confidence_score (le_score (snd x))) older)"
proof -
  let ?t = "timed_entries dir limit" and ?f = "\<lambda>x. r2_confidence_score (le_score (snd x))"
  let ?k = "length ?t div 2"
  have imp: "4 \<le> length ?t" "half_shift (map ?f ?t) > 1 / 10"
    using assms unfolding ledger_trend_improving confidence_trend_improving load_recent_timed
    by (simp_all add: comp_def)
  have "sorted_wrt (\<lambda>x y. fst y \<le> fst x) (take ?k ?t @ drop ?k ?t)" using timed_entries_sorted by simp
  then have "list_all (\<lambda>x. list_all (\<lambda>y. fst y \<le> fst x) (drop ?k ?t)) (take ?k ?t)"
    unfolding sorted_wrt_append list_all_iff by blast
  moreover have "mean_of (map ?f (take ?k ?t)) < mean_of (map ?f (drop ?k ?t))"
    using imp(2) by (simp add: half_shift_def Let_def take_map drop_map)
  moreover have "take ?k ?t \<noteq> []" "length (take ?k ?t) = ?k" using imp(1) by auto
  ultimately show ?thesis by (intro exI [of _ "take ?k ?t"] exI [of _ "drop ?k ?t"]) simp
qed

section \<open>Properties\<close>

text \<open>
  Library fact: drift alone never costs a session its grade: with a met quorum, no outliers, dissent that is not high and an
  agreement of at most 0.9, a session whose drift report has neither a collapse nor a compression alert is graded
  \<^verbatim>\<open>strong\<close>, however large its drift is.
\<close>

theorem strong_with_any_drift:
  assumes "dr_internal_agreement d \<le> 9 / 10" "dr_dissent_level d \<noteq> ''high''" "dr_outlier_agents d = []"
    "conf \<in> {''High'', ''Medium''}" "\<not> df_silent_collapse_detected r" "\<not> df_compression_alert r"
  shows "r2_grade (score_session d (Some r) conf) = ''strong'' \<and> r2_ncg_drift (score_session d (Some r) conf) = df_mean_semantic_distance r"
  using assms by (auto simp: score_session_def r2_grade_of_def r2_flags_of_def Let_def)

text \<open>A report of the largest drift without a collapse or a compression alert.\<close>

definition drifted :: DriftReport where
  "drifted = \<lparr>df_prompt = ''q'', df_ncg_content = ''h'', df_ncg_model = ''m'', df_agent_signals = [],
     df_mean_semantic_distance = 1, df_max_semantic_distance = 1, df_silent_collapse_detected = False, df_compression_alert = False\<rparr>"

lemma strong_with_any_drift_witness:
  "r2_grade (score_session \<lparr>dr_prompt = ''q'', dr_internal_agreement = 4 / 5, dr_pairwise = [], dr_agent_profiles = [],
      dr_outlier_agents = [], dr_dissent_level = ''low'', dr_agent_count = 2\<rparr> (Some drifted) ''High'') = ''strong''"
proof -
  show ?thesis using strong_with_any_drift [of "\<lparr>dr_prompt = ''q'', dr_internal_agreement = 4 / 5, dr_pairwise = [], dr_agent_profiles = [],
      dr_outlier_agents = [], dr_dissent_level = ''low'', dr_agent_count = 2\<rparr>" "''High''" drifted] by (simp add: drifted_def)
qed

text \<open>
  Library fact: R2 and the aggregator disagree on the quorum: whenever aggregation reports \<^verbatim>\<open>Medium\<close>
  confidence its own quorum flag is false (the ratio is below 0.66), yet R2, fed with that
  confidence, records the quorum as met and never raises the quorum signal.
\<close>

theorem medium_confidence_quorum_divergence:
  assumes "aggregate_responses th rs drift diss = Inr A" "ag_confidence A = ''Medium''"
  shows "\<not> ag_quorum_met A \<and> r2_quorum_met (score_session d drift (ag_confidence A))
    \<and> (\<forall>s \<in> set (detect_signals (score_session d drift (ag_confidence A)) d). sig_signal_type s \<noteq> ''agent_degradation'')"
proof -
  have "\<not> ag_quorum_met A" using assms aggregate_quorum_iff by fastforce
  then show ?thesis using assms(2)
    by (auto simp: score_session_def detect_signals_def Let_def signal_outlier_def signal_collapse_def
        signal_compression_def signal_healthy_def)
qed

lemma medium_confidence_quorum_divergence_witness:
  "r2_quorum_met (score_session \<lparr>dr_prompt = ''q'', dr_internal_agreement = 1 / 2, dr_pairwise = [], dr_agent_profiles = [],
      dr_outlier_agents = [], dr_dissent_level = ''moderate'', dr_agent_count = 2\<rparr> None ''Medium'')"
proof -
  obtain A where A: "aggregate_responses default_thresholds (RespList [''x'', ''y'']) None None = Inr A" "ag_confidence A = ''Medium''"
    by (simp add: aggregate_responses_def analyze_agreement_def exact_agreement_def resp_list_of_def
        most_common_def dcount_def dget_def confidence_of_def default_thresholds_def QUORUM_THRESHOLD_def)
  from medium_confidence_quorum_divergence [OF A, of "\<lparr>dr_prompt = ''q'', dr_internal_agreement = 1 / 2, dr_pairwise = [],
      dr_agent_profiles = [], dr_outlier_agents = [], dr_dissent_level = ''moderate'', dr_agent_count = 2\<rparr>"] A(2)
  show ?thesis by simp
qed

text \<open>
  Library fact: indexing a session makes exactly its entry loadable under the fresh id, leaves every other
  entry as it was, and grows the ledger by one.
\<close>

theorem ledger_index_roundtrip:
  assumes "r2_index uuid now ts sid p c ags sc sigs dr df dir = (e, dir')" "uuid \<notin> set (dkeys dir)"
  shows "load_entry dir' uuid = Inr e \<and> le_score e = sc \<and> le_improvement_signals e = sigs
    \<and> (\<forall>x. x = uuid \<or> load_entry dir' x = load_entry dir x)
    \<and> load_entry dir uuid = Inl FileNotFoundError
    \<and> ledger_count dir' = ledger_count dir + 1"
  using r2_index_dir [OF assms(1)] load_entry_absent [OF assms(2)] assms(2)
  by (auto simp: load_entry_dset ledger_count_def length_dset)

text \<open>A ledger of four sessions whose confidence rises from the oldest to the newest.\<close>

definition sample_score :: "real \<Rightarrow> R2Score" where
  "sample_score x = \<lparr>r2_grade = ''acceptable'', r2_confidence_score = x, r2_quorum_met = True,
     r2_internal_agreement = 1 / 2, r2_ncg_drift = 0, r2_silent_collapse = False, r2_compression_alert = False,
     r2_has_outliers = False, r2_flags = []\<rparr>"

definition sample_entry :: "string \<Rightarrow> real \<Rightarrow> R2LedgerEntry" where
  "sample_entry i x = \<lparr>le_entry_id = i, le_timestamp = [], le_session_id = i, le_prompt = ''q'', le_consensus = ''c'',
     le_agents_agreed = [''s'', ''a''], le_score = sample_score x, le_improvement_signals = [], le_ncg_attached = False,
     le_dissent_summary = \<lparr>sum_internal_agreement = 1 / 2, sum_dissent_level = ''low'', sum_outlier_agents = [],
       sum_agent_count = 2\<rparr>\<rparr>"

definition sample_ledger :: "real \<Rightarrow> real \<Rightarrow> real \<Rightarrow> real \<Rightarrow> ledger" where
  "sample_ledger a b c d = [(''1'', (1, Some (sample_entry ''1'' a))), (''2'', (2, Some (sample_entry ''2'' b))),
     (''3'', (3, Some (sample_entry ''3'' c))), (''4'', (4, Some (sample_entry ''4'' d)))]"

lemma sample_ledger_entries:
  "timed_entries (sample_ledger a b c d) 20 =
     [(4, sample_entry ''4'' d), (3, sample_entry ''3'' c), (2, sample_entry ''2'' b), (1, sample_entry ''1'' a)]"
  by (simp add: timed_entries_def recent_files_def sample_ledger_def sort_desc_def List.map_filter_def)

lemma ledger_index_roundtrip_witness:
  "\<exists>e dir'. r2_index ''5'' 9 ''t'' None ''q'' ''c'' [] (sample_score 1) []
      \<lparr>dr_prompt = ''q'', dr_internal_agreement = 1, dr_pairwise = [], dr_agent_profiles = [],
       dr_outlier_agents = [], dr_dissent_level = ''none'', dr_agent_count = 1\<rparr> None (sample_ledger 0 0 0 0) = (e, dir')
    \<and> load_entry dir' ''5'' = Inr e \<and> ledger_count dir' = 5"
proof -
  obtain e dir' where i: "r2_index ''5'' 9 ''t'' None ''q'' ''c'' [] (sample_score 1) []
      \<lparr>dr_prompt = ''q'', dr_internal_agreement = 1, dr_pairwise = [], dr_agent_profiles = [],
       dr_outlier_agents = [], dr_dissent_level = ''none'', dr_agent_count = 1\<rparr> None (sample_ledger 0 0 0 0) = (e, dir')"
    by fastforce
  from ledger_index_roundtrip [OF i] i show ?thesis by (simp add: sample_ledger_def ledger_count_def)
qed

text \<open>
  Library fact: the trend is inverted: the ledger is read newest first, so \<^verbatim>\<open>confidence_improving\<close> is
  reported exactly when the newer half of the sessions scores lower, by more than 0.1, than the
  older half.
\<close>

theorem improving_trend_means_newer_is_worse:
  assumes "''confidence_improving'' \<in> set (lt_trends (analyze_ledger_trends dir limit))"
  shows "\<exists>newer older. timed_entries dir limit = newer @ older \<and> newer \<noteq> []
    \<and> length newer = length (timed_entries dir limit) div 2
    \<and> list_all (\<lambda>x. list_all (\<lambda>y. fst y \<le> fst x) older) newer
    \<and> mean_of (map (\<lambda>x. r2_confidence_score (le_score (snd x))) newer)
        < mean_of (map (\<lambda>x. r2_confidence_score (le_score (snd x))) older)"
  using assms by (rule improving_trend_halves)

lemma sample_ledger_improving:
  "''confidence_improving'' \<in> set (lt_trends (analyze_ledger_trends (sample_ledger 1 1 (1 / 2) (1 / 2)) 20))"
  by (simp add: ledger_trend_improving confidence_trend_improving load_recent_timed sample_ledger_entries
      half_shift_def mean_of_def sample_entry_def sample_score_def)

lemma improving_trend_means_newer_is_worse_witness:
  "\<exists>newer older. timed_entries (sample_ledger 1 1 (1 / 2) (1 / 2)) 20 = newer @ older \<and> newer \<noteq> []
    \<and> mean_of (map (\<lambda>x. r2_confidence_score (le_score (snd x))) newer)
        < mean_of (map (\<lambda>x. r2_confidence_score (le_score (snd x))) older)"
  using improving_trend_means_newer_is_worse [OF sample_ledger_improving] by blast

end
