(* ===== verification/Magi.thy ===== *)
theory Magi
  imports R2
begin

text \<open>
  \<^verbatim>\<open>maestro/magi.py\<close>: the cross-session analysis.  It reads the R2 ledger (and only the number of
  stored sessions) and turns agent health, trends, collapse frequency and recurring signals into
  recommendations.  The recommendations on code are in the theory of the optimizer.
\<close>

section \<open>Data\<close>

record AgentHealth =
  ah_sessions :: nat
  ah_outlier_count :: nat
  ah_outlier_rate :: real

datatype evidence = EvNum nat | EvReal real | EvStr string | EvNames "string list"
  | EvCounts "(string, nat) dict option"

record Recommendation =
  rec_category :: string
  rec_severity :: string
  rec_title :: string
  rec_description :: string
  rec_affected_agents :: "string list"
  rec_evidence :: "(string, evidence) dict"

record MagiReport =
  mr_sessions_analyzed :: nat
  mr_ledger_entries_analyzed :: nat
  mr_recommendations :: "Recommendation list"
  mr_confidence_trend :: string
  mr_mean_confidence :: real
  mr_grade_distribution :: "(string, nat) dict"
  mr_agent_health :: "(string, AgentHealth) dict"
  mr_collapse_frequency :: real
  mr_recurring_signals :: "(string, nat) dict"

section \<open>Agent health\<close>

text \<open>One agent of one entry: the statistics are a pair of sessions and outlier flags.\<close>

definition count_agent :: "string list \<Rightarrow> string \<Rightarrow> (string, nat \<times> nat) dict \<Rightarrow> (string, nat \<times> nat) dict" where
  "count_agent outliers name agent_stats =
     (case dget agent_stats name (0, 0) of
        (sessions, outlier_count) \<Rightarrow>
          dset name (sessions + 1, if name \<in> set outliers then outlier_count + 1 else outlier_count) agent_stats)"

definition agent_stats_of :: "R2LedgerEntry list \<Rightarrow> (string, nat \<times> nat) dict" where
  "agent_stats_of ledger_entries =
     fold (\<lambda>entry. fold (count_agent (sum_outlier_agents (le_dissent_summary entry))) (le_agents_agreed entry))
       ledger_entries []"

definition analyze_agent_health :: "R2LedgerEntry list \<Rightarrow> (string, AgentHealth) dict" where
  "analyze_agent_health ledger_entries =
     map (\<lambda>(name, (sessions, outlier_count)). (name,
            \<lparr>ah_sessions = sessions, ah_outlier_count = outlier_count,
             ah_outlier_rate = (if sessions > 0 then round4 (of_nat outlier_count / of_nat sessions) else 0)\<rparr>))
         (agent_stats_of ledger_entries)"

section \<open>Recommendations\<close>

definition agent_recommendations :: "(string, AgentHealth) dict \<Rightarrow> Recommendation list" where
  "agent_recommendations agent_health =
     map (\<lambda>(name, stats).
        \<lparr>rec_category = ''agent'', rec_severity = ''warning'',
         rec_title = name @ '' is a persistent outlier'',
         rec_description =
           name @ '' has been flagged as an outlier in '' @
           nat_str (ah_outlier_count stats) @ '' of '' @ nat_str (ah_sessions stats) @ '' sessions '' @
           ''('' @ fmt_percent 0 (ah_outlier_rate stats) @ '' outlier rate). '' @
           ''Consider reviewing this agent's model configuration, '' @
           ''temperature settings, or whether its divergence is '' @
           ''providing valuable signal versus noise.'',
         rec_affected_agents = [name],
         rec_evidence = [(''sessions'', EvNum (ah_sessions stats)), (''outlier_count'', EvNum (ah_outlier_count stats)),
                         (''outlier_rate'', EvReal (ah_outlier_rate stats))]\<rparr>)
       (filter (\<lambda>(name, stats). \<not> ah_sessions stats < 3 \<and> ah_outlier_rate stats > 1 / 2) agent_health)"

definition trend_recommendations :: "LedgerTrends \<Rightarrow> Recommendation list" where
  "trend_recommendations trends =
     (if ''confidence_declining'' \<in> set (lt_trends trends) then
        [\<lparr>rec_category = ''system'', rec_severity = ''warning'',
          rec_title = ''Confidence is declining across sessions'',
          rec_description =
            ''Mean confidence across recent sessions is '' @
            fmt_percent 2 (lt_mean_confidence trends) @ ''. The trend shows '' @
            ''declining quality. This may indicate model degradation, '' @
            ''increasingly difficult prompts, or growing conformity '' @
            ''pressure. Review recent session grades and R2 signals.'',
          rec_affected_agents = [],
          rec_evidence = [(''mean_confidence'', EvReal (lt_mean_confidence trends)),
                          (''grade_distribution'', EvCounts (lt_grade_distribution trends))]\<rparr>]
      else [])"

definition collapse_recommendations :: "real \<Rightarrow> nat \<Rightarrow> nat \<Rightarrow> Recommendation list" where
  "collapse_recommendations freq n n_total =
     (if n_total \<ge> 3 \<and> freq > 3 / 10 then
        [\<lparr>rec_category = ''system'', rec_severity = ''critical'',
          rec_title = ''Frequent silent collapse detected'',
          rec_description =
            ''Silent collapse was detected in '' @ nat_str n @ '' of '' @ nat_str n_total @ '' '' @
            ''recent sessions ('' @ fmt_percent 0 freq @ ''). This suggests systematic '' @
            ''RLHF conformity pressure is compressing the answer space. '' @
            ''Consider: (1) diversifying the agent council with models '' @
            ''from different providers, (2) adjusting temperature '' @
            ''settings upward, (3) implementing prompt diversification '' @
            ''to break consensus patterns.'',
          rec_affected_agents = [],
          rec_evidence = [(''collapse_count'', EvNum n), (''total_sessions'', EvNum n_total),
                          (''collapse_rate'', EvReal (round4 freq))]\<rparr>]
      else [])"

definition signal_recommendations :: "(string, nat) dict \<Rightarrow> Recommendation list" where
  "signal_recommendations recurring =
     map (\<lambda>(signal_type, n).
        \<lparr>rec_category = ''system'', rec_severity = ''warning'',
         rec_title = ''Recurring signal: '' @ signal_type,
         rec_description =
           ''The R2 signal '' @ [CHR 0x27] @ signal_type @ [CHR 0x27] @ '' has appeared '' @ nat_str n @ '' '' @
           ''times across recent sessions. This recurring pattern '' @
           ''suggests a systemic issue that single-session fixes '' @
           ''won't resolve. MAGI recommends reviewing the pattern '' @
           ''and considering structural changes.'',
         rec_affected_agents = [],
         rec_evidence = [(''signal_type'', EvStr signal_type), (''count'', EvNum n)]\<rparr>)
       (filter (\<lambda>(signal_type, n). signal_type \<noteq> ''healthy_dissent'' \<and> n \<ge> 3) recurring)"

definition positive_signals :: "LedgerTrends \<Rightarrow> real \<Rightarrow> Recommendation list" where
  "positive_signals trends collapse_freq =
     (let recurring = (case lt_recurring_signals trends of None \<Rightarrow> [] | Some r \<Rightarrow> r);
          healthy = dget recurring ''healthy_dissent'' 0
      in (if ''confidence_improving'' \<in> set (lt_trends trends) then
            [\<lparr>rec_category = ''positive'', rec_severity = ''info'',
              rec_title = ''Confidence is improving'',
              rec_description =
                ''Mean confidence is '' @ fmt_percent 2 (lt_mean_confidence trends) @ '' '' @
                ''and trending upward. The system is producing higher-quality '' @
                ''consensus across sessions.'',
              rec_affected_agents = [],
              rec_evidence = [(''mean_confidence'', EvReal (lt_mean_confidence trends))]\<rparr>]
          else []) @
         (if healthy \<ge> 2 then
            [\<lparr>rec_category = ''positive'', rec_severity = ''info'',
              rec_title = ''Healthy dissent is common'',
              rec_description =
                ''Healthy dissent has been observed in '' @ nat_str healthy @ '' recent sessions. '' @
                ''The council is maintaining diverse perspectives '' @
                ''without individual agents dominating.'',
              rec_affected_agents = [],
              rec_evidence = [(''healthy_dissent_count'', EvNum healthy)]\<rparr>]
          else []) @
         (if collapse_freq = 0 \<and> lt_entries_analyzed trends \<ge> 5 then
            [\<lparr>rec_category = ''positive'', rec_severity = ''info'',
              rec_title = ''No silent collapse detected'',
              rec_description =
                ''Across '' @ nat_str (lt_entries_analyzed trends) @ '' recent sessions, '' @
                ''no silent collapse was detected. The NCG baseline is '' @
                ''confirming that consensus reflects genuine reasoning '' @
                ''rather than RLHF conformity.'',
              rec_affected_agents = [],
              rec_evidence = []\<rparr>]
          else []))"

definition classify_trend :: "LedgerTrends \<Rightarrow> string" where
  "classify_trend trends =
     (if ''confidence_improving'' \<in> set (lt_trends trends) then ''improving''
      else if ''confidence_declining'' \<in> set (lt_trends trends) then ''declining''
      else ''stable'')"

definition collapse_count_of :: "R2LedgerEntry list \<Rightarrow> nat" where
  "collapse_count_of ledger_entries = length (filter (\<lambda>e. r2_silent_collapse (le_score e)) ledger_entries)"

definition collapse_frequency_of :: "R2LedgerEntry list \<Rightarrow> real" where
  "collapse_frequency_of ledger_entries =
     (if length ledger_entries > 0 then of_nat (collapse_count_of ledger_entries) / of_nat (length ledger_entries) else 0)"

definition magi_analyze :: "ledger \<Rightarrow> nat \<Rightarrow> nat \<Rightarrow> MagiReport" where
  "magi_analyze dir ledger_limit n_sessions =
     (let trends = analyze_ledger_trends dir ledger_limit;
          ledger_entries = load_recent_entries dir ledger_limit;
          agent_health = analyze_agent_health ledger_entries;
          collapse_count = collapse_count_of ledger_entries;
          total = length ledger_entries;
          collapse_frequency = collapse_frequency_of ledger_entries;
          recurring = (case lt_recurring_signals trends of None \<Rightarrow> [] | Some r \<Rightarrow> r)
      in \<lparr>mr_sessions_analyzed = n_sessions,
          mr_ledger_entries_analyzed = total,
          mr_recommendations =
            agent_recommendations agent_health @ trend_recommendations trends @
            collapse_recommendations collapse_frequency collapse_count total @
            signal_recommendations recurring @ positive_signals trends collapse_frequency,
          mr_confidence_trend = classify_trend trends,
          mr_mean_confidence = lt_mean_confidence trends,
          mr_grade_distribution = (case lt_grade_distribution trends of None \<Rightarrow> [] | Some g \<Rightarrow> g),
          mr_agent_health = agent_health,
          mr_collapse_frequency = round4 collapse_frequency,
          mr_recurring_signals = recurring\<rparr>)"

section \<open>Correctness\<close>

lemma dget_count_agent:
  "dget (count_agent out n d) name (0, 0) =
     (if n = name then (fst (dget d name (0, 0)) + 1, snd (dget d name (0, 0)) + (if name \<in> set out then 1 else 0))
      else dget d name (0, 0))"
  by (simp add: count_agent_def case_prod_beta)

lemma dget_count_entry:
  "dget (fold (count_agent out) ns d) name (0, 0) =
     (fst (dget d name (0, 0)) + count_list ns name,
      snd (dget d name (0, 0)) + (if name \<in> set out then count_list ns name else 0))"
  by (induction ns arbitrary: d) (auto simp: dget_count_agent)

lemma dget_agent_stats:
  "dget (agent_stats_of es) name (0, 0) =
     (\<Sum>e\<leftarrow>es. count_list (le_agents_agreed e) name,
      \<Sum>e\<leftarrow>es. if name \<in> set (sum_outlier_agents (le_dissent_summary e)) then count_list (le_agents_agreed e) name else 0)"
proof -
  have "dget (fold (\<lambda>entry. fold (count_agent (sum_outlier_agents (le_dissent_summary entry))) (le_agents_agreed entry)) es d) name (0, 0) =
     (fst (dget d name (0, 0)) + (\<Sum>e\<leftarrow>es. count_list (le_agents_agreed e) name),
      snd (dget d name (0, 0)) + (\<Sum>e\<leftarrow>es. if name \<in> set (sum_outlier_agents (le_dissent_summary e)) then count_list (le_agents_agreed e) name else 0))" for d
    by (induction es arbitrary: d) (simp_all add: dget_count_entry)
  then show ?thesis by (simp add: agent_stats_of_def)
qed

lemma well_keyed_agent_stats: "well_keyed (agent_stats_of es)"
proof -
  have one: "well_keyed (fold (count_agent out) ns d)" if "well_keyed d" for out ns d
    using that by (induction ns arbitrary: d) (auto simp: count_agent_def split: prod.split)
  have "well_keyed (fold (\<lambda>entry. fold (count_agent (sum_outlier_agents (le_dissent_summary entry))) (le_agents_agreed entry)) es d)"
    if "well_keyed d" for d
    using that by (induction es arbitrary: d) (simp_all add: one)
  then show ?thesis by (simp add: agent_stats_of_def)
qed

lemma agent_health_entry:
  assumes "(name, h) \<in> set (analyze_agent_health es)"
  shows "ah_sessions h = (\<Sum>e\<leftarrow>es. count_list (le_agents_agreed e) name)
    \<and> ah_outlier_count h = (\<Sum>e\<leftarrow>es. if name \<in> set (sum_outlier_agents (le_dissent_summary e)) then count_list (le_agents_agreed e) name else 0)
    \<and> ah_outlier_rate h = (if ah_sessions h > 0 then round4 (of_nat (ah_outlier_count h) / of_nat (ah_sessions h)) else 0)"
proof -
  from assms obtain s c where sc: "(name, (s, c)) \<in> set (agent_stats_of es)"
    and h: "h = \<lparr>ah_sessions = s, ah_outlier_count = c, ah_outlier_rate = (if s > 0 then round4 (of_nat c / of_nat s) else 0)\<rparr>"
    by (auto simp: analyze_agent_health_def)
  have "map_of (agent_stats_of es) name = Some (s, c)"
    using sc well_keyed_agent_stats by (simp add: well_keyed_def)
  then have "dget (agent_stats_of es) name (0, 0) = (s, c)" by (simp add: dget_def)
  then show ?thesis using h by (simp add: dget_agent_stats)
qed

lemma count_agent_keys: "set (dkeys (count_agent out n d)) = insert n (set (dkeys d))"
  by (cases "dget d n (0, 0)") (auto simp: count_agent_def dkeys_dset)

lemma agent_health_keys: "set (dkeys (analyze_agent_health es)) = (\<Union>e \<in> set es. set (le_agents_agreed e))"
proof -
  have one: "set (dkeys (fold (count_agent out) ns d)) = set ns \<union> set (dkeys d)" for out ns d
    by (induction ns arbitrary: d) (simp_all add: count_agent_keys [unfolded set_map])
  have "set (dkeys (fold (\<lambda>entry. fold (count_agent (sum_outlier_agents (le_dissent_summary entry))) (le_agents_agreed entry)) es d))
      = (\<Union>e \<in> set es. set (le_agents_agreed e)) \<union> set (dkeys d)" for d
    by (induction es arbitrary: d) (auto simp: one [unfolded set_map])
  then have "set (dkeys (agent_stats_of es)) = (\<Union>e \<in> set es. set (le_agents_agreed e))" by (simp add: agent_stats_of_def)
  moreover have "dkeys (analyze_agent_health es) = dkeys (agent_stats_of es)"
    by (simp add: analyze_agent_health_def comp_def case_prod_beta)
  ultimately show ?thesis by simp
qed

lemma outliers_le_sessions:
  "(\<Sum>e\<leftarrow>es. if P e then f e else 0) \<le> (\<Sum>e\<leftarrow>es. (f e :: nat))"
  by (induction es) auto

lemma collapse_frequency_unit: "0 \<le> collapse_frequency_of es \<and> collapse_frequency_of es \<le> 1"
  using unit_ratio [of "collapse_count_of es" "length es"]
  by (auto simp: collapse_frequency_of_def collapse_count_of_def)

lemma classify_improving: "classify_trend t = ''improving'' \<longleftrightarrow> ''confidence_improving'' \<in> set (lt_trends t)"
  by (simp add: classify_trend_def)

section \<open>Properties\<close>

text \<open>
  C8: The agent health of a MAGI report is exact.  It lists exactly the agents that took part in one of the ledger entries
  read; the sessions of an agent are its occurrences in those entries, its outlier count the occurrences in the entries
  whose dissent summary names it as an outlier, and its rate the quotient of the two, rounded to four places and in [0,1];
  and the recommendations of the report name it exactly when it has at least three sessions and a rate above one half.
\<close>

theorem magi_agent_health_exact:
  assumes "(name, h) \<in> set (mr_agent_health (magi_analyze dir limit n))"
  shows "set (dkeys (mr_agent_health (magi_analyze dir limit n))) = (\<Union>e \<in> set (load_recent_entries dir limit). set (le_agents_agreed e))
    \<and> ah_sessions h = (\<Sum>e\<leftarrow>load_recent_entries dir limit. count_list (le_agents_agreed e) name)
    \<and> ah_outlier_count h = (\<Sum>e\<leftarrow>load_recent_entries dir limit.
         if name \<in> set (sum_outlier_agents (le_dissent_summary e)) then count_list (le_agents_agreed e) name else 0)
    \<and> ah_outlier_rate h = round4 (real (ah_outlier_count h) / real (ah_sessions h))
    \<and> ah_outlier_count h \<le> ah_sessions h \<and> 0 \<le> ah_outlier_rate h \<and> ah_outlier_rate h \<le> 1
    \<and> ((3 \<le> ah_sessions h \<and> ah_outlier_rate h > 1 / 2) \<longleftrightarrow>
       name \<in> set (concat (map rec_affected_agents (mr_recommendations (magi_analyze dir limit n)))))"
proof -
  let ?es = "load_recent_entries dir limit"
  have h: "(name, h) \<in> set (analyze_agent_health ?es)"
    using assms by (simp add: magi_analyze_def Let_def)
  note e = agent_health_entry [OF h]
  have le: "ah_outlier_count h \<le> ah_sessions h" using e outliers_le_sessions by metis
  have uniq: "h' = h" if "(name, h') \<in> set (analyze_agent_health ?es)" for h'
  proof (rule AgentHealth.equality)
    note e' = agent_health_entry [OF that]
    show sc: "ah_sessions h' = ah_sessions h" "ah_outlier_count h' = ah_outlier_count h" using e e' by metis+
    show "ah_outlier_rate h' = ah_outlier_rate h" using e e' unfolding sc by metis
  qed simp
  have recs: "name \<in> set (concat (map rec_affected_agents (mr_recommendations (magi_analyze dir limit n)))) \<longleftrightarrow>
      (\<exists>h'. (name, h') \<in> set (analyze_agent_health ?es) \<and> 3 \<le> ah_sessions h' \<and> ah_outlier_rate h' > 1 / 2)"
    by (auto simp: magi_analyze_def Let_def agent_recommendations_def trend_recommendations_def
        collapse_recommendations_def signal_recommendations_def positive_signals_def not_less)
  have ex: "(\<exists>h'. (name, h') \<in> set (analyze_agent_health ?es) \<and> 3 \<le> ah_sessions h' \<and> ah_outlier_rate h' > 1 / 2)
      \<longleftrightarrow> 3 \<le> ah_sessions h \<and> ah_outlier_rate h > 1 / 2"
    using h uniq by blast
  have rate: "0 \<le> ah_outlier_rate h \<and> ah_outlier_rate h \<le> 1"
    unfolding conjunct2 [OF conjunct2 [OF e]] using unit_ratio [OF le]
    by (simp add: round4_nonneg round4_le_one)
  have keys: "dkeys (mr_agent_health (magi_analyze dir limit n)) = dkeys (analyze_agent_health ?es)"
    by (simp add: magi_analyze_def Let_def)
  have quotient: "ah_outlier_rate h = round4 (real (ah_outlier_count h) / real (ah_sessions h))"
    using e by (cases "ah_sessions h = 0") (simp_all add: round4_def)
  show ?thesis unfolding recs ex keys agent_health_keys using e le rate quotient by blast
qed

text \<open>Four sessions, in three of which the second agent was an outlier.\<close>

definition outlier_entry :: "string \<Rightarrow> string list \<Rightarrow> R2LedgerEntry" where
  "outlier_entry i out = (sample_entry i 1)\<lparr>le_dissent_summary := \<lparr>sum_internal_agreement = 1 / 2, sum_dissent_level = ''low'',
     sum_outlier_agents = out, sum_agent_count = 2\<rparr>\<rparr>"

definition outlier_ledger :: ledger where
  "outlier_ledger = [(''1'', (1, Some (outlier_entry ''1'' [''a'']))), (''2'', (2, Some (outlier_entry ''2'' []))),
     (''3'', (3, Some (outlier_entry ''3'' [''a'']))), (''4'', (4, Some (outlier_entry ''4'' [''a''])))]"

lemma outlier_entries: "load_recent_entries outlier_ledger 20 =
    [outlier_entry ''4'' [''a''], outlier_entry ''3'' [''a''], outlier_entry ''2'' [], outlier_entry ''1'' [''a'']]"
  by (simp add: load_recent_entries_def recent_files_def outlier_ledger_def sort_desc_def List.map_filter_def)

lemma magi_agent_health_exact_witness:
  "\<exists>h :: AgentHealth. (''a'', h) \<in> set (mr_agent_health (magi_analyze outlier_ledger 20 0)) \<and> ah_sessions h = 4 \<and> ah_outlier_count h = 3
     \<and> ''a'' \<in> set (concat (map rec_affected_agents (mr_recommendations (magi_analyze outlier_ledger 20 0))))"
proof -
  have r: "round4 (3 / 4) = 3 / 4" using round4_grid [of 7500] by simp
  have m: "(''a'', \<lparr>ah_sessions = 4, ah_outlier_count = 3, ah_outlier_rate = 3 / 4\<rparr>) \<in> set (mr_agent_health (magi_analyze outlier_ledger 20 0))"
    by (simp add: magi_analyze_def Let_def outlier_entries analyze_agent_health_def
        agent_stats_of_def outlier_entry_def sample_entry_def count_agent_def dget_def r)
  have a: "3 \<le> ah_sessions \<lparr>ah_sessions = 4, ah_outlier_count = 3, ah_outlier_rate = 3 / 4\<rparr>"
    "ah_outlier_rate \<lparr>ah_sessions = 4, ah_outlier_count = 3, ah_outlier_rate = 3 / 4\<rparr> > 1 / 2"
    "ah_sessions \<lparr>ah_sessions = 4, ah_outlier_count = 3, ah_outlier_rate = 3 / 4\<rparr> = 4"
    "ah_outlier_count \<lparr>ah_sessions = 4, ah_outlier_count = 3, ah_outlier_rate = 3 / 4\<rparr> = 3" by simp_all
  show ?thesis using magi_agent_health_exact [OF m] m a by blast
qed

text \<open>
  Library fact: MAGI inherits the inverted trend: whenever its report says \<^verbatim>\<open>improving\<close>, the newer half of
  the sessions it read has a lower mean confidence than the older half.
\<close>

theorem magi_improving_means_declining:
  assumes "mr_confidence_trend (magi_analyze dir limit n) = ''improving''"
  shows "\<exists>newer older. timed_entries dir limit = newer @ older \<and> newer \<noteq> []
    \<and> list_all (\<lambda>x. list_all (\<lambda>y. fst y \<le> fst x) older) newer
    \<and> mean_of (map (\<lambda>x. r2_confidence_score (le_score (snd x))) newer)
        < mean_of (map (\<lambda>x. r2_confidence_score (le_score (snd x))) older)"
  using improving_trend_halves [of dir limit] assms
  by (auto simp: magi_analyze_def Let_def classify_improving)

lemma magi_improving_means_declining_witness:
  "\<exists>newer older. timed_entries (sample_ledger 1 1 (1 / 2) (1 / 2)) 20 = newer @ older \<and> newer \<noteq> []
    \<and> mean_of (map (\<lambda>x. r2_confidence_score (le_score (snd x))) newer)
        < mean_of (map (\<lambda>x. r2_confidence_score (le_score (snd x))) older)"
proof -
  have "mr_confidence_trend (magi_analyze (sample_ledger 1 1 (1 / 2) (1 / 2)) 20 0) = ''improving''"
    using sample_ledger_improving by (simp add: magi_analyze_def Let_def classify_improving)
  from magi_improving_means_declining [OF this] show ?thesis by blast
qed

end
