(* ===== verification/Introspect.thy ===== *)
theory Introspect
  imports Magi
begin

text \<open>
  \<^verbatim>\<open>maestro/introspect.py\<close>: complexity scores over the syntax trees of the package's own files, the
  rules that map R2's signal types to code targets, and the token-level targets.  The package
  directory is a dictionary from relative path to the parsed file (\<^term>\<open>None\<close> when it does not
  parse); a tree keeps the node kinds the source distinguishes.
\<close>

section \<open>Syntax trees\<close>

datatype node_kind =
    KFunctionDef string nat | KAsyncFunctionDef string nat | KClassDef string nat
  | KIf | KIfExp | KFor | KWhile | KAsyncFor | KExceptHandler | KBoolOp nat
  | KListComp | KSetComp | KDictComp | KGeneratorExp
  | KAssign nat "string list" code_value
  | KOther

datatype syntax_tree = Tree (tree_kind: node_kind) (tree_children: "syntax_tree list")

type_synonym source_files = "(string, syntax_tree option) dict"

fun tree_weight :: "syntax_tree \<Rightarrow> nat" where
  "tree_weight (Tree k cs) = Suc (sum_list (map tree_weight cs))"

text \<open>\<^verbatim>\<open>ast.walk\<close>: the queue of trees still to visit, breadth first.\<close>

function ast_walk :: "syntax_tree list \<Rightarrow> syntax_tree list" where
  "ast_walk [] = []"
| "ast_walk (n # todo) = n # ast_walk (todo @ tree_children n)"
  by pat_completeness auto
termination
proof (relation "measure (\<lambda>todo. sum_list (map tree_weight todo))", goal_cases)
  case (2 n todo)
  then show ?case by (cases n) simp
qed simp

declare ast_walk.simps [simp del]

fun branch_weight :: "node_kind \<Rightarrow> nat" where
  "branch_weight KIf = 1" | "branch_weight KIfExp = 1"
| "branch_weight KFor = 1" | "branch_weight KWhile = 1" | "branch_weight KAsyncFor = 1"
| "branch_weight KExceptHandler = 1"
| "branch_weight (KBoolOp values) = values - 1"
| "branch_weight KListComp = 1" | "branch_weight KSetComp = 1" | "branch_weight KDictComp = 1"
| "branch_weight KGeneratorExp = 1"
| "branch_weight _ = 0"

definition compute_complexity :: "syntax_tree \<Rightarrow> real" where
  "compute_complexity node =
     min 1 (of_nat (sum_list (map (branch_weight \<circ> tree_kind) (ast_walk [node]))) / 10)"

section \<open>Static analysis\<close>

record Hotspot =
  hs_file :: string
  hs_function :: string
  hs_line :: nat
  hs_complexity :: real

record SourceAnalysis =
  sa_files :: "(string \<times> (string \<times> nat \<times> real) list \<times> (string \<times> nat) list) list"
  sa_total_functions :: nat
  sa_total_classes :: nat
  sa_complexity_hotspots :: "Hotspot list"

fun function_of :: "syntax_tree \<Rightarrow> (string \<times> nat) option" where
  "function_of (Tree (KFunctionDef name line) cs) = Some (name, line)"
| "function_of (Tree (KAsyncFunctionDef name line) cs) = Some (name, line)"
| "function_of _ = None"

fun class_of :: "syntax_tree \<Rightarrow> (string \<times> nat) option" where
  "class_of (Tree (KClassDef name line) cs) = Some (name, line)"
| "class_of _ = None"

definition hotspot_of :: "string \<Rightarrow> syntax_tree \<Rightarrow> Hotspot option" where
  "hotspot_of rel_path n =
     (case function_of n of
        None \<Rightarrow> None
      | Some fn \<Rightarrow>
          if compute_complexity n > 3 / 10
          then Some \<lparr>hs_file = rel_path, hs_function = fst fn, hs_line = snd fn,
                     hs_complexity = round4 (compute_complexity n)\<rparr>
          else None)"

definition analyze_tree :: "string \<times> syntax_tree \<Rightarrow> SourceAnalysis \<Rightarrow> SourceAnalysis" where
  "analyze_tree f results =
     (case f of (rel_path, tree) \<Rightarrow>
        let nodes = ast_walk [tree];
            functions = List.map_filter (\<lambda>n. map_option (\<lambda>(name, line). (name, line, round4 (compute_complexity n))) (function_of n)) nodes;
            classes = List.map_filter class_of nodes;
            hot = List.map_filter (hotspot_of rel_path) nodes
        in \<lparr>sa_files = sa_files results @ [(rel_path, functions, classes)],
            sa_total_functions = sa_total_functions results + length functions,
            sa_total_classes = sa_total_classes results + length classes,
            sa_complexity_hotspots = sa_complexity_hotspots results @ hot\<rparr>)"

definition parsed_files :: "source_files \<Rightarrow> (string \<times> syntax_tree) list" where
  "parsed_files files = List.map_filter (\<lambda>(path, t). map_option (Pair path) t) files"

definition analyze_source :: "source_files \<Rightarrow> SourceAnalysis" where
  "analyze_source files =
     (let results = fold analyze_tree (parsed_files files)
            \<lparr>sa_files = [], sa_total_functions = 0, sa_total_classes = 0, sa_complexity_hotspots = []\<rparr>
      in results\<lparr>sa_complexity_hotspots := sort_desc hs_complexity (sa_complexity_hotspots results)\<rparr>)"

section \<open>From signals to code\<close>

record SignalRule =
  ru_module :: string
  ru_targets :: "string list"
  ru_category :: string
  ru_rationale :: string

definition signal_code_map :: "(string, SignalRule list) dict" where
  "signal_code_map =
    [(''persistent_outlier'',
       [\<lparr>ru_module = ''maestro.agents'', ru_targets = [''temperature'', ''model'', ''timeout''], ru_category = ''agent_config'',
         ru_rationale = ''Persistent outlier agents may need temperature, model, or timeout adjustments''\<rparr>,
        \<lparr>ru_module = ''maestro.dissent'', ru_targets = [''_semantic_distance'', ''threshold''], ru_category = ''threshold'',
         ru_rationale = ''Outlier detection threshold may be too sensitive or too lenient''\<rparr>]),
     (''suspicious_consensus'',
       [\<lparr>ru_module = ''maestro.orchestrator'', ru_targets = [''run_orchestration_async''], ru_category = ''pipeline'',
         ru_rationale = ''Silent collapse in the pipeline may require prompt diversification''\<rparr>,
        \<lparr>ru_module = ''maestro.ncg.drift'', ru_targets = [''_semantic_distance'', ''silent_collapse''], ru_category = ''threshold'',
         ru_rationale = ''Silent collapse detection thresholds may need recalibration''\<rparr>,
        \<lparr>ru_module = ''maestro.aggregator'', ru_targets = [''QUORUM_THRESHOLD'', ''SIMILARITY_THRESHOLD''], ru_category = ''threshold'',
         ru_rationale = ''Quorum thresholds may be allowing false consensus through''\<rparr>]),
     (''compression'',
       [\<lparr>ru_module = ''maestro.ncg.generator'', ru_targets = [''generate'', ''temperature''], ru_category = ''prompt'',
         ru_rationale = ''Compression may be caused by prompt construction or temperature settings''\<rparr>,
        \<lparr>ru_module = ''maestro.agents'', ru_targets = [''max_tokens'', ''temperature''], ru_category = ''agent_config'',
         ru_rationale = ''Agent output length limits or temperature may be compressing nuance''\<rparr>]),
     (''agent_degradation'',
       [\<lparr>ru_module = ''maestro.agents'', ru_targets = [''model'', ''timeout'', ''fetch''], ru_category = ''agent_config'',
         ru_rationale = ''Agent degradation may indicate model version staleness or timeout issues''\<rparr>,
        \<lparr>ru_module = ''maestro.orchestrator'', ru_targets = [''run_orchestration_async''], ru_category = ''pipeline'',
         ru_rationale = ''Pipeline structure may need rebalancing after degradation''\<rparr>]),
     (''drift_trend'',
       [\<lparr>ru_module = ''maestro.ncg.drift'', ru_targets = [''DriftDetector'', ''analyze''], ru_category = ''architecture'',
         ru_rationale = ''Rising drift trend may indicate the drift detector needs recalibration''\<rparr>,
        \<lparr>ru_module = ''maestro.ncg.generator'', ru_targets = [''temperature''], ru_category = ''token_tuning'',
         ru_rationale = ''Headless generator temperature may need adjustment to track drift''\<rparr>])]"

record TokenPattern =
  tp_prompt :: string
  tp_uncertainty_ratio :: real
  tp_entry_id :: string

datatype target_metadata =
    MetaSignal "string list" "(string, sig_value) dict"
  | MetaPatterns "TokenPattern list"

record CodeTarget =
  ct_file_path :: string
  ct_module_name :: string
  ct_target_type :: string
  ct_target_name :: string
  ct_line_number :: nat
  ct_current_value :: code_value
  ct_optimization_category :: string
  ct_rationale :: string
  ct_linked_signals :: "string list"
  ct_complexity_score :: real
  ct_metadata :: target_metadata

definition resolve_module_path :: "source_files \<Rightarrow> string \<Rightarrow> string option" where
  "resolve_module_path files module_name =
     (let parts = split_on CHR ''.'' module_name;
          parts = (if hd parts = ''maestro'' then tl parts else parts);
          candidate = ''maestro/'' @ join_with ''/'' parts
      in if candidate @ ''.py'' \<in> set (dkeys files) then Some (candidate @ ''.py'')
         else if candidate @ ''/__init__.py'' \<in> set (dkeys files) then Some (candidate @ ''/__init__.py'')
         else None)"

record Location =
  lo_type :: string
  lo_line :: nat
  lo_value :: code_value
  lo_complexity :: real

fun locate :: "string \<Rightarrow> syntax_tree \<Rightarrow> Location option" where
  "locate name (Tree (KFunctionDef n line) cs) =
     (if n = name then Some \<lparr>lo_type = ''function'', lo_line = line, lo_value = VText [],
                            lo_complexity = compute_complexity (Tree (KFunctionDef n line) cs)\<rparr> else None)"
| "locate name (Tree (KAsyncFunctionDef n line) cs) =
     (if n = name then Some \<lparr>lo_type = ''function'', lo_line = line, lo_value = VText [],
                            lo_complexity = compute_complexity (Tree (KAsyncFunctionDef n line) cs)\<rparr> else None)"
| "locate name (Tree (KClassDef n line) cs) =
     (if n = name then Some \<lparr>lo_type = ''class'', lo_line = line, lo_value = VText [],
                            lo_complexity = compute_complexity (Tree (KClassDef n line) cs)\<rparr> else None)"
| "locate name (Tree (KAssign line targets value) cs) =
     (if name \<in> set targets then Some \<lparr>lo_type = ''parameter'', lo_line = line, lo_value = value, lo_complexity = 0\<rparr>
      else None)"
| "locate name _ = None"

definition find_in_ast :: "syntax_tree \<Rightarrow> string \<Rightarrow> Location option" where
  "find_in_ast tree name = first_some (locate name) (ast_walk [tree])"

definition targets_of_rule :: "source_files \<Rightarrow> ImprovementSignal \<Rightarrow> SignalRule \<Rightarrow> CodeTarget list" where
  "targets_of_rule files signal rule =
     (case resolve_module_path files (ru_module rule) of
        None \<Rightarrow> []
      | Some rel_path \<Rightarrow>
          (case the (map_of files rel_path) of
             None \<Rightarrow> []
           | Some tree \<Rightarrow>
               List.map_filter (\<lambda>target_name.
                 map_option (\<lambda>location.
                   \<lparr>ct_file_path = rel_path, ct_module_name = ru_module rule, ct_target_type = lo_type location,
                    ct_target_name = target_name, ct_line_number = lo_line location,
                    ct_current_value = lo_value location, ct_optimization_category = ru_category rule,
                    ct_rationale = ru_rationale rule, ct_linked_signals = [sig_signal_type signal],
                    ct_complexity_score = lo_complexity location,
                    ct_metadata = MetaSignal (sig_affected_agents signal) (sig_data signal)\<rparr>)
                   (find_in_ast tree target_name)) (ru_targets rule)))"

definition targets_of_signal :: "source_files \<Rightarrow> ImprovementSignal \<Rightarrow> CodeTarget list" where
  "targets_of_signal files signal =
     concat (map (targets_of_rule files signal) (dget signal_code_map (sig_signal_type signal) []))"

definition map_signals_to_code :: "source_files \<Rightarrow> ImprovementSignal list \<Rightarrow> (string, CodeTarget list) dict" where
  "map_signals_to_code files improvement_signals =
     fold (\<lambda>signal mappings.
             let targets = targets_of_signal files signal in
             if targets \<noteq> [] then dset (sig_signal_type signal) targets mappings else mappings)
       improvement_signals []"

section \<open>Token-level targets\<close>

definition token_drift_of :: "ImprovementSignal \<Rightarrow> TokenDrift option" where
  "token_drift_of signal =
     (case map_of (sig_data signal) ''token_drift'' of Some (STokenDrift td) \<Rightarrow> Some td | _ \<Rightarrow> None)"

definition uncertain_patterns :: "R2LedgerEntry \<Rightarrow> TokenPattern list" where
  "uncertain_patterns entry =
     List.map_filter (\<lambda>signal.
       case token_drift_of signal of
         None \<Rightarrow> None
       | Some td \<Rightarrow>
           (let ratio = of_nat (td_uncertain_token_count td) / of_nat (td_total_tokens td) in
            if td_total_tokens td > 0 \<and> ratio > 2 / 10
            then Some \<lparr>tp_prompt = take 200 (le_prompt entry), tp_uncertainty_ratio = ratio, tp_entry_id = le_entry_id entry\<rparr>
            else None)) (le_improvement_signals entry)"

definition compression_patterns :: "R2LedgerEntry list \<Rightarrow> TokenPattern list" where
  "compression_patterns entries =
     map (\<lambda>entry. \<lparr>tp_prompt = take 200 (le_prompt entry), tp_uncertainty_ratio = 0, tp_entry_id = le_entry_id entry\<rparr>)
       (filter (\<lambda>entry. r2_compression_alert (le_score entry)
          \<and> sum_internal_agreement (le_dissent_summary entry) > 8 / 10) entries)"

definition analyze_token_patterns :: "R2LedgerEntry list \<Rightarrow> CodeTarget list" where
  "analyze_token_patterns ledger_entries =
     (let high_uncertainty = concat (map uncertain_patterns ledger_entries);
          compression = compression_patterns ledger_entries
      in (if high_uncertainty \<noteq> [] then
            [\<lparr>ct_file_path = ''maestro/ncg/generator.py'', ct_module_name = ''maestro.ncg.generator'',
              ct_target_type = ''parameter'', ct_target_name = ''temperature'', ct_line_number = 0,
              ct_current_value = VNum 1, ct_optimization_category = ''token_tuning'',
              ct_rationale = ''High token uncertainty detected in '' @ nat_str (length high_uncertainty) @ '' sessions. '' @
                ''Temperature or prompt structure may need adjustment to reduce '' @
                ''uncertainty at decision-critical token positions.'',
              ct_linked_signals = [''token_uncertainty''], ct_complexity_score = 0,
              ct_metadata = MetaPatterns (take 5 high_uncertainty)\<rparr>]
          else []) @
         (if compression \<noteq> [] then
            [\<lparr>ct_file_path = ''maestro/orchestrator.py'', ct_module_name = ''maestro.orchestrator'',
              ct_target_type = ''function'', ct_target_name = ''run_orchestration_async'', ct_line_number = 0,
              ct_current_value = VText [], ct_optimization_category = ''token_tuning'',
              ct_rationale = ''Compression signatures detected in '' @ nat_str (length compression) @ '' sessions. '' @
                ''Agents are producing shorter outputs while agreeing, suggesting '' @
                ''RLHF pressure is compressing at the token level.'',
              ct_linked_signals = [''compression''], ct_complexity_score = 0,
              ct_metadata = MetaPatterns (take 5 compression)\<rparr>]
          else []))"

section \<open>The report\<close>

record IntrospectionReport =
  ir_files_analyzed :: nat
  ir_total_functions :: nat
  ir_total_classes :: nat
  ir_code_targets :: "CodeTarget list"
  ir_complexity_hotspots :: "Hotspot list"
  ir_signal_mappings :: "(string, CodeTarget list) dict"
  ir_token_level_targets :: "CodeTarget list"

definition target_key :: "CodeTarget \<Rightarrow> string \<times> string \<times> string" where
  "target_key t = (ct_file_path t, ct_target_name t, ct_optimization_category t)"

definition introspect :: "source_files \<Rightarrow> ImprovementSignal list \<Rightarrow> R2LedgerEntry list \<Rightarrow> IntrospectionReport" where
  "introspect files improvement_signals ledger_entries =
     (let source_analysis = analyze_source files;
          signal_mappings = map_signals_to_code files improvement_signals;
          token_targets = analyze_token_patterns ledger_entries;
          all_targets = concat (dvalues signal_mappings) @ token_targets
      in \<lparr>ir_files_analyzed = length (sa_files source_analysis),
          ir_total_functions = sa_total_functions source_analysis,
          ir_total_classes = sa_total_classes source_analysis,
          ir_code_targets = keep_first target_key {} all_targets,
          ir_complexity_hotspots = sa_complexity_hotspots source_analysis,
          ir_signal_mappings = signal_mappings,
          ir_token_level_targets = token_targets\<rparr>)"

text \<open>The summary of a report is a function of its other fields; \<open>str_of\<close> prints a float.\<close>

definition introspection_summary :: "(real \<Rightarrow> string) \<Rightarrow> IntrospectionReport \<Rightarrow> string" where
  "introspection_summary str_of report =
     join_with '' ''
       ([''Analyzed '' @ nat_str (ir_total_functions report) @ '' functions across '' @ nat_str (ir_files_analyzed report) @ '' files.''] @
        (if ir_code_targets report \<noteq> []
         then [''Identified '' @ nat_str (length (ir_code_targets report)) @ '' optimization target(s) from '' @
               nat_str (length (ir_signal_mappings report)) @ '' signal type(s).''] else []) @
        (if ir_token_level_targets report \<noteq> []
         then [nat_str (length (ir_token_level_targets report)) @ '' target(s) from token-level analysis.''] else []) @
        (case ir_complexity_hotspots report of
           [] \<Rightarrow> []
         | h # _ \<Rightarrow> [''Highest complexity: '' @ hs_function h @ '' in '' @ hs_file h @
                     '' (score: '' @ str_of (hs_complexity h) @ '').'']))"

section \<open>Correctness\<close>

lemma compute_complexity_unit: "0 \<le> compute_complexity t" "compute_complexity t \<le> 1"
  by (simp_all add: compute_complexity_def)

lemma map_filter_in: "y \<in> set (List.map_filter f xs) \<longleftrightarrow> (\<exists>x \<in> set xs. f x = Some y)"
  by (force simp: List.map_filter_def)

definition function_nodes :: "source_files \<Rightarrow> syntax_tree list" where
  "function_nodes files = filter (\<lambda>n. function_of n \<noteq> None) (concat (map (\<lambda>(p, t). ast_walk [t]) (parsed_files files)))"

lemma analyze_fold:
  "sa_total_functions (fold analyze_tree fs r) =
     sa_total_functions r + length (filter (\<lambda>n. function_of n \<noteq> None) (concat (map (\<lambda>(p, t). ast_walk [t]) fs)))"
  by (induction fs arbitrary: r) (auto simp: analyze_tree_def Let_def List.map_filter_def comp_def)

lemma hotspot_range:
  assumes "hotspot_of p n = Some h"
  shows "3 / 10 \<le> hs_complexity h \<and> hs_complexity h \<le> 1"
proof -
  have "3 / 10 < compute_complexity n" "hs_complexity h = round4 (compute_complexity n)"
    using assms by (auto simp: hotspot_of_def split: option.splits if_splits)
  then show ?thesis
    using round4_ge [of 3000 "compute_complexity n"] by (simp add: round4_le_one compute_complexity_unit)
qed

lemma analyze_fold_hotspots:
  "h \<in> set (sa_complexity_hotspots (fold analyze_tree fs r)) \<Longrightarrow>
     h \<in> set (sa_complexity_hotspots r) \<or> (3 / 10 \<le> hs_complexity h \<and> hs_complexity h \<le> 1)"
proof (induction fs arbitrary: r)
  case (Cons f fs)
  have "h \<in> set (sa_complexity_hotspots (analyze_tree f r)) \<Longrightarrow>
     h \<in> set (sa_complexity_hotspots r) \<or> (3 / 10 \<le> hs_complexity h \<and> hs_complexity h \<le> 1)"
    by (auto simp: analyze_tree_def Let_def map_filter_in dest: hotspot_range split: prod.splits)
  then show ?case using Cons.IH [of "analyze_tree f r"] Cons.prems by auto
qed simp

lemma sort_desc_sorted: "sorted_wrt (\<lambda>x y. f y \<le> f x) (sort_desc f xs)"
proof -
  have "sorted (map (\<lambda>x. - f x) (sort_desc f xs))" unfolding sort_desc_def by (rule sorted_sort_key)
  then show ?thesis by (auto simp: sorted_wrt_map elim!: sorted_wrt_mono_rel [rotated])
qed

lemma introspect_targets:
  "t \<in> set (ir_code_targets (introspect files sigs es)) \<Longrightarrow>
     t \<in> set (concat (dvalues (map_signals_to_code files sigs))) \<or> t \<in> set (analyze_token_patterns es)"
  using keep_first_subset by (fastforce simp: introspect_def Let_def)

lemma targets_of_signal_in:
  assumes "t \<in> set (targets_of_signal files s)"
  shows "\<exists>rule \<in> set (dget signal_code_map (sig_signal_type s) []).
    ct_target_name t \<in> set (ru_targets rule) \<and> ct_optimization_category t = ru_category rule
    \<and> ct_module_name t = ru_module rule \<and> ct_linked_signals t = [sig_signal_type s]"
  using assms
  by (auto simp: targets_of_signal_def targets_of_rule_def map_filter_in split: option.splits)

lemma map_signals_in:
  assumes "t \<in> set (concat (dvalues (map_signals_to_code files sigs)))"
  shows "\<exists>s \<in> set sigs. t \<in> set (targets_of_signal files s)"
proof -
  have "t \<in> set (concat (dvalues (fold (\<lambda>signal mappings.
             let targets = targets_of_signal files signal in
             if targets \<noteq> [] then dset (sig_signal_type signal) targets mappings else mappings) sigs m)))
    \<Longrightarrow> t \<in> set (concat (dvalues m)) \<or> (\<exists>s \<in> set sigs. t \<in> set (targets_of_signal files s))" for m
  proof (induction sigs arbitrary: m)
    case (Cons s sigs)
    have "t \<in> set (concat (dvalues (dset (sig_signal_type s) (targets_of_signal files s) m))) \<Longrightarrow>
        t \<in> set (concat (dvalues m)) \<or> t \<in> set (targets_of_signal files s)"
      using set_dset [of "sig_signal_type s" "targets_of_signal files s" m] by fastforce
    then show ?case using Cons.IH [of "if targets_of_signal files s \<noteq> [] then dset (sig_signal_type s) (targets_of_signal files s) m else m"]
      Cons.prems by (auto simp: Let_def split: if_splits)
  qed simp
  from this [of "[]"] show ?thesis using assms by (simp add: map_signals_to_code_def)
qed

lemma detected_signals_no_token_drift:
  "s \<in> set (detect_signals score d) \<Longrightarrow> token_drift_of s = None"
  by (auto simp: detect_signals_def signal_outlier_def signal_collapse_def signal_compression_def
      signal_healthy_def signal_degradation_def token_drift_of_def split: if_splits)

lemma rule_signals: "t \<in> set (targets_of_signal files s) \<Longrightarrow> ct_linked_signals t = [sig_signal_type s]"
  using targets_of_signal_in by blast

lemma detected_signal_types:
  "s \<in> set (detect_signals score d) \<Longrightarrow> sig_signal_type s \<in>
     {''persistent_outlier'', ''suspicious_consensus'', ''compression'', ''healthy_dissent'', ''agent_degradation''}"
  by (auto simp: detect_signals_def signal_outlier_def signal_collapse_def signal_compression_def
      signal_healthy_def signal_degradation_def split: if_splits)

text \<open>A ledger entry whose signals R2 itself detected.\<close>

definition r2_entry :: "R2LedgerEntry \<Rightarrow> bool" where
  "r2_entry e \<longleftrightarrow> (\<exists>score d. le_improvement_signals e = detect_signals score d)"

lemma uncertain_patterns_r2: "r2_entry e \<Longrightarrow> uncertain_patterns e = []"
  unfolding r2_entry_def uncertain_patterns_def List.map_filter_def
  by (auto simp: filter_empty_conv detected_signals_no_token_drift)

section \<open>Properties\<close>

text \<open>
  Library fact: introspection is sound: no two code targets share file, name and category; the function
  total is the number of function nodes of the parsed files; the hotspots come in descending
  order and each has a complexity between 0.3 and 1.
\<close>

theorem introspection_sound:
  "distinct (map target_key (ir_code_targets (introspect files sigs es)))
   \<and> ir_total_functions (introspect files sigs es) = length (function_nodes files)
   \<and> sorted_wrt (\<lambda>x y. hs_complexity y \<le> hs_complexity x) (ir_complexity_hotspots (introspect files sigs es))
   \<and> list_all (\<lambda>h. 3 / 10 \<le> hs_complexity h \<and> hs_complexity h \<le> 1) (ir_complexity_hotspots (introspect files sigs es))"
  using analyze_fold_hotspots [of _ "parsed_files files" "\<lparr>sa_files = [], sa_total_functions = 0, sa_total_classes = 0, sa_complexity_hotspots = []\<rparr>"]
  by (auto simp: introspect_def Let_def keep_first_distinct analyze_source_def analyze_fold function_nodes_def
      sort_desc_sorted list_all_iff)

text \<open>
  Library fact: the token tier is dead on the system's own ledger: the signals R2 raises never carry token
  drift, so no target ever links to \<^verbatim>\<open>token_uncertainty\<close>, whatever the log probabilities were.
\<close>

theorem token_tier_unreachable:
  assumes "\<forall>e \<in> set es. r2_entry e"
  shows "\<forall>t \<in> set (ir_code_targets (introspect files (concat (map le_improvement_signals es)) es))
            \<union> set (ir_token_level_targets (introspect files (concat (map le_improvement_signals es)) es)).
           ct_linked_signals t \<noteq> [''token_uncertainty'']"
proof -
  have tok: "ct_linked_signals t = [''compression'']" if "t \<in> set (analyze_token_patterns es)" for t
    using that assms uncertain_patterns_r2 by (auto simp: analyze_token_patterns_def Let_def split: if_splits)
  have sig: "ct_linked_signals t \<noteq> [''token_uncertainty'']"
    if t: "t \<in> set (concat (dvalues (map_signals_to_code files (concat (map le_improvement_signals es)))))" for t
  proof -
    from map_signals_in [OF t] obtain e s where e: "e \<in> set es" "s \<in> set (le_improvement_signals e)"
      and s: "t \<in> set (targets_of_signal files s)" by auto
    from e assms obtain score d where "s \<in> set (detect_signals score d)" by (auto simp: r2_entry_def)
    from detected_signal_types [OF this] rule_signals [OF s] show ?thesis by auto
  qed
  have "ct_linked_signals t \<noteq> [''token_uncertainty'']"
    if "t \<in> set (ir_token_level_targets (introspect files (concat (map le_improvement_signals es)) es))" for t
    using tok that by (fastforce simp: introspect_def Let_def)
  then show ?thesis using introspect_targets tok sig by fastforce
qed

lemma sample_entry_r2: "r2_entry (sample_entry i x)"
  unfolding r2_entry_def
  by (rule exI [of _ "sample_score x"], rule exI [of _ "\<lparr>dr_prompt = ''q'', dr_internal_agreement = 1, dr_pairwise = [],
        dr_agent_profiles = [], dr_outlier_agents = [], dr_dissent_level = ''none'', dr_agent_count = 1\<rparr>"])
    (simp add: sample_entry_def sample_score_def detect_signals_def)

lemma sample_entry_signals: "le_improvement_signals (sample_entry i x) = []"
  by (simp add: sample_entry_def)

lemma token_tier_unreachable_witness:
  "list_all (\<lambda>t. ct_linked_signals t \<noteq> [''token_uncertainty'']) (ir_token_level_targets (introspect [] [] [sample_entry ''1'' 1]))"
  using token_tier_unreachable [of "[sample_entry ''1'' 1]" "[]"] by (simp add: sample_entry_r2 sample_entry_signals list_all_iff)

end
