(* ===== verification/Optimization.thy ===== *)
theory Optimization
  imports Introspect
begin

text \<open>
  \<^verbatim>\<open>maestro/optimization.py\<close> and the code recommendations of \<^verbatim>\<open>maestro/magi.py\<close>: the strategies that
  turn code targets into proposals, the escalation, the de-duplication and the batch.  The text
  \<^verbatim>\<open>str(x)\<close> of a float is the parameter \<open>str_of\<close>; a character outside the model's code points is
  written as its UTF-8 bytes; fresh ids are the parameter \<open>fresh\<close>.
\<close>

section \<open>Data\<close>

record OptimizationProposal =
  op_proposal_id :: string
  op_timestamp :: string
  op_category :: string
  op_priority :: string
  op_title :: string
  op_description :: string
  op_file_path :: string
  op_module_name :: string
  op_target_name :: string
  op_line_number :: nat
  op_current_value :: code_value
  op_proposed_value :: code_value
  op_change_type :: string
  op_linked_signals :: "string list"
  op_evidence :: "target_metadata option"
  op_status :: string
  op_validation_result :: "(string \<times> real \<times> string) option"
  op_metadata :: "(string, string) dict"

record ProposalBatch =
  pb_batch_id :: string
  pb_timestamp :: string
  pb_proposals :: "OptimizationProposal list"
  pb_source_report :: string
  pb_summary :: string
  pb_total_proposals :: nat
  pb_priority_breakdown :: "(string, nat) dict"

record Strategy =
  st_direction :: string
  st_step :: real
  st_min_val :: real
  st_max_val :: real
  st_rationale :: string

section \<open>Strategies\<close>

definition quorum_raise :: Strategy where
  "quorum_raise =
    \<lparr>st_direction = ''raise'', st_step = 5 / 100, st_min_val = 5 / 10, st_max_val = 9 / 10,
     st_rationale = ''Raise quorum threshold to require stronger agreement, '' @
       ''reducing false consensus from RLHF conformity.''\<rparr>"

definition quorum_lower :: Strategy where
  "quorum_lower =
    \<lparr>st_direction = ''lower'', st_step = 5 / 100, st_min_val = 5 / 10, st_max_val = 9 / 10,
     st_rationale = ''Lower quorum threshold to allow more sessions to reach '' @
       ''consensus when agents are degraded or topics are contested.''\<rparr>"

definition similarity_raise :: Strategy where
  "similarity_raise =
    \<lparr>st_direction = ''raise'', st_step = 5 / 100, st_min_val = 3 / 10, st_max_val = 8 / 10,
     st_rationale = ''Raise similarity threshold to be less strict about what '' @
       ''counts as agreement, reducing false outlier detection.''\<rparr>"

definition similarity_lower :: Strategy where
  "similarity_lower =
    \<lparr>st_direction = ''lower'', st_step = 5 / 100, st_min_val = 3 / 10, st_max_val = 8 / 10,
     st_rationale = ''Lower similarity threshold to require closer agreement '' @
       ''before counting agents as 'in consensus'.''\<rparr>"

definition threshold_strategies :: "(string, (string, Strategy) dict) dict" where
  "threshold_strategies =
    [(''QUORUM_THRESHOLD'',
       [(''suspicious_consensus'', quorum_raise), (''agent_degradation'', quorum_lower)]),
     (''SIMILARITY_THRESHOLD'',
       [(''persistent_outlier'', similarity_raise), (''suspicious_consensus'', similarity_lower)])]"

definition temperature_strategies :: "(string, Strategy) dict" where
  "temperature_strategies =
    [(''suspicious_consensus'',
       \<lparr>st_direction = ''raise'', st_step = 1 / 10, st_min_val = 3 / 10, st_max_val = 15 / 10,
        st_rationale = ''Raise agent temperature to increase output diversity and '' @
          ''break silent consensus patterns.''\<rparr>),
     (''compression'',
       \<lparr>st_direction = ''raise'', st_step = 1 / 10, st_min_val = 3 / 10, st_max_val = 15 / 10,
        st_rationale = ''Raise temperature to produce more varied outputs and '' @
          ''counteract compression of nuance.''\<rparr>),
     (''agent_degradation'',
       \<lparr>st_direction = ''lower'', st_step = 5 / 100, st_min_val = 3 / 10, st_max_val = 15 / 10,
        st_rationale = ''Lower temperature to produce more focused outputs when '' @
          ''agent quality is degrading.''\<rparr>)]"

definition signal_priority :: "string \<Rightarrow> string" where
  "signal_priority signal_type =
     dget [(''suspicious_consensus'', ''critical''), (''compression'', ''high''), (''persistent_outlier'', ''medium''),
           (''agent_degradation'', ''medium''), (''drift_trend'', ''medium''), (''healthy_dissent'', ''low''),
           (''token_uncertainty'', ''medium'')] signal_type ''low''"

definition make_proposal ::
    "string \<Rightarrow> string \<Rightarrow> string \<Rightarrow> string \<Rightarrow> CodeTarget \<Rightarrow> code_value \<Rightarrow> code_value \<Rightarrow> string \<Rightarrow> string list
     \<Rightarrow> OptimizationProposal" where
  "make_proposal category priority title description target current_value proposed_value change_type linked_signals =
     \<lparr>op_proposal_id = [], op_timestamp = [], op_category = category, op_priority = priority, op_title = title,
      op_description = description, op_file_path = ct_file_path target, op_module_name = ct_module_name target,
      op_target_name = ct_target_name target, op_line_number = ct_line_number target,
      op_current_value = current_value, op_proposed_value = proposed_value, op_change_type = change_type,
      op_linked_signals = linked_signals, op_evidence = Some (ct_metadata target), op_status = ''proposed'',
      op_validation_result = None, op_metadata = []\<rparr>"

definition proposed_threshold :: "Strategy \<Rightarrow> real \<Rightarrow> real" where
  "proposed_threshold strategy current =
     (if st_direction strategy = ''raise'' then min (current + st_step strategy) (st_max_val strategy)
      else max (current - st_step strategy) (st_min_val strategy))"

definition arrow :: string where
  "arrow = [CHR 0xE2, CHR 0x86, CHR 0x92]"

definition threshold_proposal :: "(real \<Rightarrow> string) \<Rightarrow> CodeTarget \<Rightarrow> string \<Rightarrow> OptimizationProposal option" where
  "threshold_proposal str_of target signal_type =
     (case map_of (dget threshold_strategies (ct_target_name target) []) signal_type of
        None \<Rightarrow> None
      | Some strategy \<Rightarrow>
          (case ct_current_value target of
             VText _ \<Rightarrow> None
           | VNum current \<Rightarrow>
               (let proposed = proposed_threshold strategy current in
                if proposed = current then None
                else Some (make_proposal ''threshold'' (signal_priority signal_type)
                       (''Adjust '' @ ct_target_name target @ '': '' @ str_of current @ '' '' @ arrow @ '' '' @ str_of proposed)
                       (st_rationale strategy @ '' Triggered by recurring '' @ [CHR 0x27] @ signal_type @ [CHR 0x27] @
                        '' signals. Current value: '' @ str_of current @ '', proposed: '' @ str_of proposed @ ''.'')
                       target (VNum current) (VNum proposed) ''parameter_update'' [signal_type]))))"

definition threshold_proposals :: "(real \<Rightarrow> string) \<Rightarrow> CodeTarget list \<Rightarrow> OptimizationProposal list" where
  "threshold_proposals str_of code_targets =
     concat (map (\<lambda>target. List.map_filter (threshold_proposal str_of target) (ct_linked_signals target))
       (filter (\<lambda>target. ct_optimization_category target = ''threshold'') code_targets))"

definition affected_of :: "CodeTarget \<Rightarrow> string list option" where
  "affected_of target = (case ct_metadata target of MetaSignal agents _ \<Rightarrow> Some agents | MetaPatterns _ \<Rightarrow> None)"

definition temperature_proposal :: "(real \<Rightarrow> string) \<Rightarrow> CodeTarget \<Rightarrow> string \<Rightarrow> OptimizationProposal option" where
  "temperature_proposal str_of target signal_type =
     map_option (\<lambda>strategy.
       make_proposal ''agent_config'' (signal_priority signal_type)
         (''Adjust agent temperature ('' @ st_direction strategy @ '')'')
         (st_rationale strategy @ '' Affected agents: '' @
          join_with '', '' (case affected_of target of None \<Rightarrow> [''all''] | Some agents \<Rightarrow> agents) @ ''.'')
         target (VText ''current temperature'')
         (VText (''temperature '' @ st_direction strategy @ '' by '' @ str_of (st_step strategy)))
         ''config_change'' [signal_type]) (map_of temperature_strategies signal_type)"

definition review_proposal :: "CodeTarget \<Rightarrow> string \<Rightarrow> OptimizationProposal option" where
  "review_proposal target signal_type =
     (if signal_type = ''agent_degradation'' then
        let affected = (case affected_of target of None \<Rightarrow> [] | Some agents \<Rightarrow> agents) in
        Some (make_proposal ''agent_config'' ''medium''
          (''Review '' @ ct_target_name target @ '' for degraded agents'')
          (''Agent degradation detected. Consider updating '' @ ct_target_name target @ '' for agents: '' @
           (if affected \<noteq> [] then join_with '', '' affected else ''all council members'') @ ''. '' @
           ''Model versions may be stale or timeout too aggressive.'')
          target (ct_current_value target) (VText ''requires manual review'') ''config_change'' [signal_type])
      else None)"

definition agent_config_proposals :: "(real \<Rightarrow> string) \<Rightarrow> CodeTarget list \<Rightarrow> OptimizationProposal list" where
  "agent_config_proposals str_of code_targets =
     concat (map (\<lambda>target.
       if ct_target_name target = ''temperature''
       then List.map_filter (temperature_proposal str_of target) (ct_linked_signals target)
       else if ct_target_name target \<in> {''model'', ''timeout''}
       then List.map_filter (review_proposal target) (ct_linked_signals target)
       else [])
       (filter (\<lambda>target. ct_optimization_category target = ''agent_config'') code_targets))"

definition token_tuning_proposals :: "CodeTarget list \<Rightarrow> OptimizationProposal list" where
  "token_tuning_proposals token_targets =
     map (\<lambda>target. make_proposal ''token_tuning'' ''medium'' (''Token-level optimization: '' @ ct_target_name target)
            (ct_rationale target) target (ct_current_value target)
            (VText ''requires token-level analysis in MAGI_VIR'') ''prompt_rewrite'' (ct_linked_signals target))
       (filter (\<lambda>target. ct_optimization_category target = ''token_tuning'') token_targets)"

definition architecture_proposals :: "Hotspot list \<Rightarrow> Recommendation list \<Rightarrow> OptimizationProposal list" where
  "architecture_proposals complexity_hotspots magi_recommendations =
     (if filter (\<lambda>r. rec_severity r \<in> {''warning'', ''critical''}) magi_recommendations = [] then []
      else map (\<lambda>hotspot.
        \<lparr>op_proposal_id = [], op_timestamp = [], op_category = ''architecture'', op_priority = ''low'',
         op_title = ''Refactor complex function: '' @ hs_function hotspot,
         op_description = ''Function '' @ [CHR 0x27] @ hs_function hotspot @ [CHR 0x27] @ '' in '' @ hs_file hotspot @ '' '' @
           ''has complexity score '' @ fmt_fixed 2 (hs_complexity hotspot) @ ''. '' @
           ''High complexity increases the risk of bugs and makes '' @
           ''the rapid recursion loop harder to optimize. Consider '' @
           ''decomposing into smaller, testable units.'',
         op_file_path = hs_file hotspot,
         op_module_name = py_replace ''.py'' [] (py_replace ''/'' ''.'' (hs_file hotspot)),
         op_target_name = hs_function hotspot, op_line_number = hs_line hotspot,
         op_current_value = VText (''complexity: '' @ fmt_fixed 2 (hs_complexity hotspot)),
         op_proposed_value = VText ''decomposed functions'', op_change_type = ''architecture_refactor'',
         op_linked_signals = [''complexity_hotspot''], op_evidence = None, op_status = ''proposed'', op_validation_result = None, op_metadata = []\<rparr>)
        (filter (\<lambda>hotspot. hs_complexity hotspot > 6 / 10) (take 3 complexity_hotspots)))"

section \<open>The batch\<close>

definition escalate :: "OptimizationProposal \<Rightarrow> OptimizationProposal" where
  "escalate p =
     (if op_priority p = ''medium''
      then p\<lparr>op_priority := ''high'',
             op_metadata := dset ''escalated_by'' ''confidence_declining_trend'' (op_metadata p)\<rparr>
      else p)"

definition proposal_key :: "OptimizationProposal \<Rightarrow> string \<times> string \<times> string" where
  "proposal_key p = (op_file_path p, op_target_name p, op_change_type p)"

definition stamp :: "(nat \<Rightarrow> string) \<Rightarrow> string \<Rightarrow> OptimizationProposal list \<Rightarrow> OptimizationProposal list" where
  "stamp fresh now ps =
     map (\<lambda>(i, p). p\<lparr>op_proposal_id := fresh i, op_timestamp := now\<rparr>) (zip [0..<length ps] ps)"

definition raw_proposals ::
    "(real \<Rightarrow> string) \<Rightarrow> IntrospectionReport \<Rightarrow> Recommendation list \<Rightarrow> OptimizationProposal list" where
  "raw_proposals str_of report magi_recommendations =
     threshold_proposals str_of (ir_code_targets report) @
     agent_config_proposals str_of (ir_code_targets report) @
     token_tuning_proposals (ir_token_level_targets report) @
     architecture_proposals (ir_complexity_hotspots report) magi_recommendations"

definition generate_proposals ::
    "(real \<Rightarrow> string) \<Rightarrow> (nat \<Rightarrow> string) \<Rightarrow> string \<Rightarrow> IntrospectionReport \<Rightarrow> Recommendation list \<Rightarrow> string list
     \<Rightarrow> ProposalBatch" where
  "generate_proposals str_of fresh now report magi_recommendations trends =
     (let proposals = stamp fresh now (raw_proposals str_of report magi_recommendations);
          proposals = (if ''confidence_declining'' \<in> set trends then map escalate proposals else proposals);
          unique = keep_first proposal_key {} proposals;
          priority_counts = fold dcount (map op_priority unique) [];
          n_critical = dget priority_counts ''critical'' 0;
          n_high = dget priority_counts ''high'' 0
      in \<lparr>pb_batch_id = fresh (length proposals), pb_timestamp = now, pb_proposals = unique,
          pb_source_report = ''magi_analysis'',
          pb_summary = join_with '' ''
            ([''Generated '' @ nat_str (length unique) @ '' optimization proposal(s).''] @
             (if n_critical > 0 then [nat_str n_critical @ '' critical priority.''] else []) @
             (if n_high > 0 then [nat_str n_high @ '' high priority.''] else [])),
          pb_total_proposals = length unique, pb_priority_breakdown = priority_counts\<rparr>)"

section \<open>MAGI with introspection\<close>

definition run_introspection_pipeline ::
    "(real \<Rightarrow> string) \<Rightarrow> (nat \<Rightarrow> string) \<Rightarrow> string \<Rightarrow> source_files \<Rightarrow> ledger \<Rightarrow> R2LedgerEntry list
     \<Rightarrow> Recommendation list \<Rightarrow> nat \<Rightarrow> IntrospectionReport \<times> ProposalBatch" where
  "run_introspection_pipeline str_of fresh now files dir ledger_entries magi_recommendations ledger_limit =
     (let introspection = introspect files (concat (map le_improvement_signals ledger_entries)) ledger_entries;
          batch = generate_proposals str_of fresh now introspection magi_recommendations
            (lt_trends (analyze_ledger_trends dir ledger_limit))
      in (introspection, batch))"

definition group_by_category :: "OptimizationProposal list \<Rightarrow> (string, OptimizationProposal list) dict" where
  "group_by_category ps = fold (\<lambda>p. dappend (op_category p) p) ps []"

definition code_optimization_recommendations :: "ProposalBatch \<Rightarrow> Recommendation list" where
  "code_optimization_recommendations batch =
     (if pb_total_proposals batch = 0 then []
      else let categories = group_by_category (pb_proposals batch) in
        List.map_filter (\<lambda>(category, proposals).
          let high_priority = filter (\<lambda>p. op_priority p \<in> {''high'', ''critical''}) proposals in
          if high_priority = [] then None
          else Some
            \<lparr>rec_category = ''code_optimization'',
             rec_severity = (if list_ex (\<lambda>p. op_priority p = ''critical'') high_priority then ''warning'' else ''info''),
             rec_title = ''Code optimization available: '' @ category @ '' ('' @ nat_str (length proposals) @ '' proposals)'',
             rec_description =
               ''MAGI introspection identified '' @ nat_str (length proposals) @ '' '' @ category @
               '' optimization(s) in Maestro's source code. '' @ nat_str (length high_priority) @
               '' are high/critical priority. Top target: '' @ op_title (hd high_priority) @
               ''. Run the self-improvement pipeline to validate these '' @
               ''proposals in a MAGI_VIR sandbox before promotion.'',
             rec_affected_agents = [],
             rec_evidence = [(''proposal_count'', EvNum (length proposals)),
                             (''high_priority_count'', EvNum (length high_priority)),
                             (''categories'', EvNames (dkeys categories))]\<rparr>) categories)"

definition analyze_with_introspection ::
    "(real \<Rightarrow> string) \<Rightarrow> (nat \<Rightarrow> string) \<Rightarrow> string \<Rightarrow> source_files \<Rightarrow> ledger \<Rightarrow> nat \<Rightarrow> nat
     \<Rightarrow> MagiReport \<times> IntrospectionReport \<times> ProposalBatch" where
  "analyze_with_introspection str_of fresh now files dir ledger_limit n_sessions =
     (let report = magi_analyze dir ledger_limit n_sessions;
          (introspection, batch) = run_introspection_pipeline str_of fresh now files dir
            (load_recent_entries dir ledger_limit) (mr_recommendations report) ledger_limit
      in (report\<lparr>mr_recommendations := mr_recommendations report @ code_optimization_recommendations batch\<rparr>,
          introspection, batch))"

section \<open>Correctness\<close>

lemma strategy_cases:
  assumes "map_of (dget threshold_strategies name []) signal = Some st"
  shows "(name = ''QUORUM_THRESHOLD'' \<and> signal = ''suspicious_consensus'' \<and> st = quorum_raise)
       \<or> (name = ''QUORUM_THRESHOLD'' \<and> signal = ''agent_degradation'' \<and> st = quorum_lower)
       \<or> (name = ''SIMILARITY_THRESHOLD'' \<and> signal = ''persistent_outlier'' \<and> st = similarity_raise)
       \<or> (name = ''SIMILARITY_THRESHOLD'' \<and> signal = ''suspicious_consensus'' \<and> st = similarity_lower)"
proof (cases "name = ''QUORUM_THRESHOLD''")
  case True
  then show ?thesis using assms by (simp add: threshold_strategies_def dget_def split: if_splits)
next
  case False
  show ?thesis
  proof (cases "name = ''SIMILARITY_THRESHOLD''")
    case True
    then show ?thesis using assms by (simp add: threshold_strategies_def dget_def split: if_splits)
  next
    case no: False
    then show ?thesis using False assms by (simp add: threshold_strategies_def dget_def)
  qed
qed

lemma threshold_proposal_in:
  assumes "p \<in> set (threshold_proposals str_of ts)"
  shows "\<exists>t \<in> set ts. \<exists>sg \<in> set (ct_linked_signals t). ct_optimization_category t = ''threshold''
     \<and> threshold_proposal str_of t sg = Some p"
  using assms by (auto simp: threshold_proposals_def map_filter_in)

lemma threshold_proposal_values:
  assumes "threshold_proposal str_of t sg = Some p"
  shows "\<exists>st cur. map_of (dget threshold_strategies (ct_target_name t) []) sg = Some st
     \<and> ct_current_value t = VNum cur \<and> proposed_threshold st cur \<noteq> cur
     \<and> op_current_value p = VNum cur \<and> op_proposed_value p = VNum (proposed_threshold st cur)
     \<and> op_target_name p = ct_target_name t \<and> op_category p = ''threshold'' \<and> op_linked_signals p = [sg]"
  using assms by (auto simp: threshold_proposal_def make_proposal_def Let_def split: option.splits code_value.splits if_splits)

lemma make_proposal_category [simp]: "op_category (make_proposal c pr ti d t cv pv ct ls) = c"
  by (simp add: make_proposal_def)

lemma temperature_category: "temperature_proposal s t sg = Some p \<Longrightarrow> op_category p = ''agent_config''"
  unfolding temperature_proposal_def by (cases "map_of temperature_strategies sg") auto

lemma review_category: "review_proposal t sg = Some p \<Longrightarrow> op_category p = ''agent_config''"
  unfolding review_proposal_def Let_def by (metis make_proposal_category option.distinct(1) option.inject)

lemma agent_config_category: "p \<in> set (agent_config_proposals s ts) \<Longrightarrow> op_category p = ''agent_config''"
  unfolding agent_config_proposals_def
  by (auto simp only: set_concat set_map map_filter_in dest: temperature_category review_category split: if_splits)
    (auto dest: temperature_category review_category simp: map_filter_in split: if_splits)

lemma token_tuning_category: "p \<in> set (token_tuning_proposals ts) \<Longrightarrow> op_category p = ''token_tuning''"
  unfolding token_tuning_proposals_def by (auto simp only: set_map make_proposal_category)

lemma architecture_category: "p \<in> set (architecture_proposals hs rs) \<Longrightarrow> op_category p = ''architecture''"
  unfolding architecture_proposals_def by (cases "filter (\<lambda>r. rec_severity r \<in> {''warning'', ''critical''}) rs = []") auto

lemmas other_categories = agent_config_category token_tuning_category architecture_category

lemma stamp_in:
  assumes "p \<in> set (stamp fresh now ps)"
  shows "\<exists>q \<in> set ps. \<exists>i. p = q\<lparr>op_proposal_id := fresh i, op_timestamp := now\<rparr>"
  using assms by (auto simp: stamp_def dest: set_zip_rightD)

lemma escalate_fields [simp]:
  "op_category (escalate p) = op_category p" "op_target_name (escalate p) = op_target_name p"
  "op_current_value (escalate p) = op_current_value p" "op_proposed_value (escalate p) = op_proposed_value p"
  "op_linked_signals (escalate p) = op_linked_signals p" "proposal_key (escalate p) = proposal_key p"
  by (simp_all add: escalate_def proposal_key_def)

lemma batch_proposals:
  assumes "p \<in> set (pb_proposals (generate_proposals str_of fresh now report recs trends))"
  shows "\<exists>q \<in> set (raw_proposals str_of report recs). op_category p = op_category q \<and> op_target_name p = op_target_name q
     \<and> op_current_value p = op_current_value q \<and> op_proposed_value p = op_proposed_value q
     \<and> op_linked_signals p = op_linked_signals q \<and> proposal_key p = proposal_key q"
proof -
  let ?ps = "stamp fresh now (raw_proposals str_of report recs)"
  have "p \<in> set (if ''confidence_declining'' \<in> set trends then map escalate ?ps else ?ps)"
    using assms keep_first_subset by (fastforce simp: generate_proposals_def Let_def)
  then obtain r where r: "r \<in> set ?ps" "p = r \<or> p = escalate r" by (auto split: if_splits)
  from stamp_in [OF r(1)] obtain q i where q: "q \<in> set (raw_proposals str_of report recs)"
    "r = q\<lparr>op_proposal_id := fresh i, op_timestamp := now\<rparr>" by blast
  show ?thesis using q r(2) by (intro bexI [OF _ q(1)]) (auto simp: proposal_key_def escalate_def)
qed

lemma batch_threshold_proposal:
  assumes "p \<in> set (pb_proposals (generate_proposals str_of fresh now report recs trends))" "op_category p = ''threshold''"
  shows "\<exists>t \<in> set (ir_code_targets report). \<exists>sg \<in> set (ct_linked_signals t). \<exists>st cur.
     ct_optimization_category t = ''threshold'' \<and> op_target_name p = ct_target_name t
     \<and> map_of (dget threshold_strategies (ct_target_name t) []) sg = Some st
     \<and> op_current_value p = VNum cur \<and> op_proposed_value p = VNum (proposed_threshold st cur)
     \<and> proposed_threshold st cur \<noteq> cur"
proof -
  from batch_proposals [OF assms(1)] obtain q where q: "q \<in> set (raw_proposals str_of report recs)"
    "op_category p = op_category q" "op_target_name p = op_target_name q"
    "op_current_value p = op_current_value q" "op_proposed_value p = op_proposed_value q" by blast
  then have "q \<in> set (threshold_proposals str_of (ir_code_targets report))"
    using assms(2) other_categories [of q] unfolding raw_proposals_def by (auto simp only: set_append Un_iff)
  from threshold_proposal_in [OF this] obtain t sg where t: "t \<in> set (ir_code_targets report)"
    "sg \<in> set (ct_linked_signals t)" "ct_optimization_category t = ''threshold''"
    "threshold_proposal str_of t sg = Some q" by blast
  from threshold_proposal_values [OF t(4)] show ?thesis using t q by fastforce
qed

lemma proposed_in_range:
  assumes "st_min_val st \<le> c" "c \<le> st_max_val st" "0 \<le> st_step st"
  shows "st_min_val st \<le> proposed_threshold st c \<and> proposed_threshold st c \<le> st_max_val st"
  using assms by (auto simp: proposed_threshold_def)

lemma rules_by_signal:
  "dget signal_code_map sg [] =
     (if sg = ''persistent_outlier'' then the (map_of signal_code_map ''persistent_outlier'')
      else if sg = ''suspicious_consensus'' then the (map_of signal_code_map ''suspicious_consensus'')
      else if sg = ''compression'' then the (map_of signal_code_map ''compression'')
      else if sg = ''agent_degradation'' then the (map_of signal_code_map ''agent_degradation'')
      else if sg = ''drift_trend'' then the (map_of signal_code_map ''drift_trend'') else [])"
  by (simp add: signal_code_map_def dget_def)

lemma rule_target_names:
  "map ru_targets (the (map_of signal_code_map ''persistent_outlier'')) =
     [[''temperature'', ''model'', ''timeout''], [''_semantic_distance'', ''threshold'']]"
  "map ru_targets (the (map_of signal_code_map ''compression'')) =
     [[''generate'', ''temperature''], [''max_tokens'', ''temperature'']]"
  "map ru_targets (the (map_of signal_code_map ''agent_degradation'')) =
     [[''model'', ''timeout'', ''fetch''], [''run_orchestration_async'']]"
  "map ru_targets (the (map_of signal_code_map ''drift_trend'')) = [[''DriftDetector'', ''analyze''], [''temperature'']]"
  by (simp_all add: signal_code_map_def)

lemma threshold_rules_need_suspicious_consensus:
  assumes "rule \<in> set (dget signal_code_map sg [])" "n \<in> set (ru_targets rule)"
    "n = ''QUORUM_THRESHOLD'' \<or> n = ''SIMILARITY_THRESHOLD''"
  shows "sg = ''suspicious_consensus''"
proof (rule ccontr)
  assume ne: "sg \<noteq> ''suspicious_consensus''"
  have "ru_targets rule \<in> set (map ru_targets (dget signal_code_map sg []))" using assms(1) by simp
  then have "ru_targets rule \<in> {[''temperature'', ''model'', ''timeout''], [''_semantic_distance'', ''threshold''],
      [''generate'', ''temperature''], [''max_tokens'', ''temperature''], [''model'', ''timeout'', ''fetch''],
      [''run_orchestration_async''], [''DriftDetector'', ''analyze''], [''temperature'']}"
    using ne unfolding rules_by_signal by (simp only: if_False rule_target_names split: if_splits) auto
  then show False using assms(2, 3) by auto
qed

lemma proposed_step:
  assumes "st_min_val st \<le> c" "c \<le> st_max_val st" "0 \<le> st_step st"
  shows "\<bar>proposed_threshold st c - c\<bar> \<le> st_step st"
  using assms by (auto simp: proposed_threshold_def min_def max_def)

text \<open>A package with the aggregator's two thresholds, and a ledger entry that recorded a collapse.\<close>

definition sample_files :: source_files where
  "sample_files = [(''maestro/aggregator.py'', Some (Tree KOther
     [Tree (KAssign 3 [''QUORUM_THRESHOLD''] (VNum (66 / 100))) [], Tree (KAssign 4 [''SIMILARITY_THRESHOLD''] (VNum (1 / 2))) []]))]"

definition sample_signal :: ImprovementSignal where
  "sample_signal = \<lparr>sig_signal_type = ''suspicious_consensus'', sig_severity = ''critical'', sig_description = [],
     sig_affected_agents = [], sig_data = []\<rparr>"

definition sample_pipeline :: "IntrospectionReport \<times> ProposalBatch" where
  "sample_pipeline = run_introspection_pipeline (\<lambda>_. []) (\<lambda>i. []) [] sample_files []
     [(sample_entry ''1'' 1)\<lparr>le_improvement_signals := [sample_signal]\<rparr>] [] 20"

lemma sample_pipeline_proposals:
  "map (\<lambda>p. (op_target_name p, op_category p, op_current_value p, op_proposed_value p)) (pb_proposals (snd sample_pipeline)) =
     [(''QUORUM_THRESHOLD'', ''threshold'', VNum (66 / 100), VNum (71 / 100)),
      (''SIMILARITY_THRESHOLD'', ''threshold'', VNum (1 / 2), VNum (45 / 100))]"
  by code_simp

lemma sample_proposal:
  "\<exists>p \<in> set (pb_proposals (snd sample_pipeline)). op_target_name p = ''QUORUM_THRESHOLD'' \<and> op_category p = ''threshold''
     \<and> op_current_value p = VNum (66 / 100) \<and> op_proposed_value p = VNum (71 / 100)"
proof -
  have "(''QUORUM_THRESHOLD'', ''threshold'', VNum (66 / 100), VNum (71 / 100)) \<in>
      set (map (\<lambda>p. (op_target_name p, op_category p, op_current_value p, op_proposed_value p)) (pb_proposals (snd sample_pipeline)))"
    unfolding sample_pipeline_proposals by simp
  then show ?thesis by auto
qed

section \<open>Properties\<close>

text \<open>
  Library fact: a batch is well formed: no two proposals share file, target and kind of change; its total
  and its priority breakdown count exactly its proposals; and under a declining trend no proposal
  is left at medium priority.
\<close>

theorem batch_sound:
  "distinct (map proposal_key (pb_proposals (generate_proposals str_of fresh now report recs trends)))
   \<and> pb_total_proposals (generate_proposals str_of fresh now report recs trends)
       = length (pb_proposals (generate_proposals str_of fresh now report recs trends))
   \<and> dget (pb_priority_breakdown (generate_proposals str_of fresh now report recs trends)) pr 0
       = count_list (map op_priority (pb_proposals (generate_proposals str_of fresh now report recs trends))) pr
   \<and> \<not> (''confidence_declining'' \<in> set trends
         \<and> list_ex (\<lambda>p. op_priority p = ''medium'') (pb_proposals (generate_proposals str_of fresh now report recs trends)))"
proof -
  have "op_priority (escalate p) \<noteq> ''medium''" for p by (simp add: escalate_def)
  then have "p \<in> set (keep_first proposal_key {} (map escalate ps)) \<Longrightarrow> op_priority p \<noteq> ''medium''" for p ps
    using keep_first_subset by fastforce
  then show ?thesis
    by (auto simp: generate_proposals_def Let_def keep_first_distinct dget_fold_dcount list_ex_iff)
qed

text \<open>
  Library fact: a threshold proposal moves one of the two aggregation thresholds by at most 0.05 and, as
  long as the current value is inside the strategy's range, keeps it there (0.5 to 0.9 for the
  quorum, 0.3 to 0.8 for the similarity).
\<close>

theorem threshold_proposal_bounded:
  assumes "p \<in> set (pb_proposals (generate_proposals str_of fresh now report recs trends))"
    and "op_category p = ''threshold''" and "op_current_value p = VNum cur"
    and "lo = (if op_target_name p = ''QUORUM_THRESHOLD'' then 5 / 10 else 3 / 10)"
    and "hi = (if op_target_name p = ''QUORUM_THRESHOLD'' then 9 / 10 else 8 / 10)"
    and "lo \<le> cur" "cur \<le> hi"
  shows "\<exists>new. op_proposed_value p = VNum new \<and> lo \<le> new \<and> new \<le> hi \<and> \<bar>new - cur\<bar> \<le> 5 / 100 \<and> new \<noteq> cur
    \<and> op_target_name p \<in> {''QUORUM_THRESHOLD'', ''SIMILARITY_THRESHOLD''}"
proof -
  from batch_threshold_proposal [OF assms(1, 2)] obtain t :: CodeTarget and sg st c where
    st': "op_target_name p = ct_target_name t" "map_of (dget threshold_strategies (ct_target_name t) []) sg = Some st"
    "op_current_value p = VNum c" "op_proposed_value p = VNum (proposed_threshold st c)" "proposed_threshold st c \<noteq> c"
    by blast
  then have "c = cur" using assms(3) by simp
  with st' have st: "op_target_name p = ct_target_name t" "map_of (dget threshold_strategies (ct_target_name t) []) sg = Some st"
    "op_proposed_value p = VNum (proposed_threshold st cur)" "proposed_threshold st cur \<noteq> cur"
    by simp_all
  have rng: "st_min_val st = lo \<and> st_max_val st = hi \<and> st_step st = 5 / 100
      \<and> op_target_name p \<in> {''QUORUM_THRESHOLD'', ''SIMILARITY_THRESHOLD''}"
    using strategy_cases [OF st(2)] st(1) assms(4, 5)
    by (elim disjE) (simp_all add: quorum_raise_def quorum_lower_def similarity_raise_def similarity_lower_def)
  moreover have "\<bar>proposed_threshold st cur - cur\<bar> \<le> 5 / 100"
    using proposed_step [of st cur] rng assms(6, 7) by auto
  ultimately show ?thesis using proposed_in_range [of st cur] st assms(6, 7) by auto
qed

lemma threshold_proposal_bounded_witness:
  "\<exists>p \<in> set (pb_proposals (snd sample_pipeline)). \<exists>new. op_proposed_value p = VNum new \<and> 5 / 10 \<le> new \<and> new \<le> 9 / 10"
proof -
  from sample_proposal obtain p where p: "p \<in> set (pb_proposals (snd sample_pipeline))"
    "op_target_name p = ''QUORUM_THRESHOLD''" "op_category p = ''threshold''" "op_current_value p = VNum (66 / 100)" by blast
  from p(1) have "p \<in> set (pb_proposals (generate_proposals (\<lambda>_. []) (\<lambda>i. []) []
      (introspect sample_files (concat (map le_improvement_signals [(sample_entry ''1'' 1)\<lparr>le_improvement_signals := [sample_signal]\<rparr>]))
        [(sample_entry ''1'' 1)\<lparr>le_improvement_signals := [sample_signal]\<rparr>]) [] (lt_trends (analyze_ledger_trends [] 20))))"
    by (simp add: sample_pipeline_def run_introspection_pipeline_def Let_def)
  from threshold_proposal_bounded [OF this p(3, 4), of "5 / 10" "9 / 10"] p(1, 2) show ?thesis by auto
qed

text \<open>
  Library fact: the thresholds ratchet.  In the pipeline that MAGI and the self-improvement engine share,
  the only rule that targets them is the one for suspicious consensus, so every threshold
  proposal raises the quorum threshold or lowers the similarity threshold; the strategies that
  would relax them are never used.
\<close>

theorem thresholds_only_tighten:
  assumes "p \<in> set (pb_proposals (snd (run_introspection_pipeline str_of fresh now files dir es recs limit)))"
    and "op_category p = ''threshold''"
  shows "\<exists>cur. op_current_value p = VNum cur
    \<and> ((op_target_name p = ''QUORUM_THRESHOLD'' \<and> op_proposed_value p = VNum (min (cur + 5 / 100) (9 / 10)))
       \<or> (op_target_name p = ''SIMILARITY_THRESHOLD'' \<and> op_proposed_value p = VNum (max (cur - 5 / 100) (3 / 10))))"
proof -
  let ?sigs = "concat (map le_improvement_signals es)"
  have "p \<in> set (pb_proposals (generate_proposals str_of fresh now (introspect files ?sigs es) recs
      (lt_trends (analyze_ledger_trends dir limit))))"
    using assms(1) by (simp add: run_introspection_pipeline_def Let_def)
  from batch_threshold_proposal [OF this assms(2)] obtain t sg st cur where
    t: "t \<in> set (ir_code_targets (introspect files ?sigs es))" "sg \<in> set (ct_linked_signals t)"
      "ct_optimization_category t = ''threshold''" and
    st: "op_target_name p = ct_target_name t" "map_of (dget threshold_strategies (ct_target_name t) []) sg = Some st"
      "op_current_value p = VNum cur" "op_proposed_value p = VNum (proposed_threshold st cur)" by blast
  have "t \<notin> set (analyze_token_patterns es)"
    using t(3) by (auto simp: analyze_token_patterns_def Let_def split: if_splits)
  then obtain s where s: "t \<in> set (targets_of_signal files s)"
    using introspect_targets [OF t(1)] map_signals_in by blast
  have sg: "sg = sig_signal_type s" using rule_signals [OF s] t(2) by simp
  from targets_of_signal_in [OF s] obtain rule where rule: "rule \<in> set (dget signal_code_map sg [])"
    "ct_target_name t \<in> set (ru_targets rule)" using sg by blast
  have "sg = ''suspicious_consensus''"
    using strategy_cases [OF st(2)] by (intro threshold_rules_need_suspicious_consensus [OF rule]) blast
  then have "(ct_target_name t = ''QUORUM_THRESHOLD'' \<and> st = quorum_raise) \<or> (ct_target_name t = ''SIMILARITY_THRESHOLD'' \<and> st = similarity_lower)"
    using strategy_cases [OF st(2)] by auto
  then show ?thesis using st
    by (elim disjE) (simp_all add: proposed_threshold_def quorum_raise_def similarity_lower_def)
qed

lemma thresholds_only_tighten_witness:
  "\<exists>p \<in> set (pb_proposals (snd sample_pipeline)). \<exists>cur. op_current_value p = VNum cur
     \<and> op_proposed_value p = VNum (min (cur + 5 / 100) (9 / 10))"
proof -
  from sample_proposal obtain p where p: "p \<in> set (pb_proposals (snd sample_pipeline))"
    "op_target_name p = ''QUORUM_THRESHOLD''" "op_category p = ''threshold''" by blast
  from thresholds_only_tighten [OF p(1) [unfolded sample_pipeline_def] p(3)] p(1, 2) show ?thesis by auto
qed

end
