(* ===== verification/Stores.thy ===== *)
theory Stores
  imports Prelude
begin

text \<open>
  The interface of the directories that keep one file per record: sessions, improvement cycles,
  compute nodes, shard nodes, shards and manifests are stored under the id they carry, and a later
  save under the same id replaces the file.  Each component interprets the locale on its own save,
  load and delete, and gets what saving a series of records guarantees.
\<close>

section \<open>Saving and loading\<close>

lemma map_of_keys: "k \<notin> set (dkeys d) \<Longrightarrow> map_of d k = None"
  by (simp add: map_of_eq_None_iff)

locale record_store =
  fixes ident :: "'r \<Rightarrow> 'k"
    and store :: "'r \<Rightarrow> 's \<Rightarrow> 's"
    and load :: "'s \<Rightarrow> 'k \<Rightarrow> 'res"
    and found :: "'r \<Rightarrow> 'res"
  assumes load_store: "load (store r s) (ident r) = found r"
    and load_other: "k \<noteq> ident r \<Longrightarrow> load (store r s) k = load s k"
begin

definition store_all :: "'r list \<Rightarrow> 's \<Rightarrow> 's" where
  "store_all rs s = fold store rs s"

lemma store_all_Cons [simp]: "store_all (r # rs) s = store_all rs (store r s)"
  by (simp add: store_all_def)

lemma load_store_all_other: "k \<notin> ident ` set rs \<Longrightarrow> load (store_all rs s) k = load s k"
proof (induction rs arbitrary: s)
  case (Cons r rs)
  then show ?case using load_other [of k r s] by simp
qed (simp add: store_all_def)

lemma load_store_all: "distinct (map ident rs) \<Longrightarrow> r \<in> set rs \<Longrightarrow> load (store_all rs s) (ident r) = found r"
proof (induction rs arbitrary: s)
  case (Cons a rs)
  show ?case
  proof (cases "r = a")
    case True
    then have "ident r \<notin> ident ` set rs" using Cons.prems(1) by simp
    then show ?thesis using True load_store_all_other [of "ident r" rs "store a s"] load_store [of a s] by simp
  next
    case False
    then show ?thesis using Cons by simp
  qed
qed simp

lemma load_store_again: "ident r' = ident r \<Longrightarrow> load (store r' (store r s)) (ident r) = found r'"
  using load_store [of r' "store r s"] by simp

lemma store_commutes: "ident r \<noteq> ident r' \<Longrightarrow> load (store r (store r' s)) k = load (store r' (store r s)) k"
  by (cases "k = ident r"; cases "k = ident r'") (simp_all add: load_store load_other)

end

section \<open>Deleting\<close>

locale deletable_store = record_store ident store load found
    for ident :: "'r \<Rightarrow> 'k" and store :: "'r \<Rightarrow> 's \<Rightarrow> 's" and load :: "'s \<Rightarrow> 'k \<Rightarrow> 'res" and found :: "'r \<Rightarrow> 'res" +
  fixes remove :: "'k \<Rightarrow> 's \<Rightarrow> 's"
    and absent :: 'res
  assumes load_removed: "load (remove k s) k = absent"
    and load_remove_other: "k' \<noteq> k \<Longrightarrow> load (remove k s) k' = load s k'"
begin

lemma remove_stored: "load (remove (ident r) (store r s)) k = (if k = ident r then absent else load s k)"
  by (simp add: load_removed load_remove_other load_other)

lemma store_removed: "load (store r (remove (ident r) s)) k = load (store r s) k"
  by (cases "k = ident r") (simp_all add: load_store load_other load_remove_other)

end

end
