(* ===== verification/Magi_Vir.thy ===== *)
theory Magi_Vir
  imports Optimization Stores
begin

text \<open>
  \<^verbatim>\<open>maestro/magi_vir.py\<close>: the sandboxed validation of proposals (benchmarks before and after the
  overrides, comparison, recommendation) and the registry of compute nodes.  The aggregator's two
  module variables are a state, overwritten for the optimised run and restored.  The
  ephemeral session and ledger directories of the sandbox are not modelled.
\<close>

section \<open>Data\<close>

record BenchmarkResult =
  br_prompt :: string
  br_grade :: string
  br_confidence_score :: real
  br_internal_agreement :: real
  br_ncg_drift :: real
  br_silent_collapse :: bool
  br_has_outliers :: bool
  br_signal_count :: nat
  br_flags :: "string list"

record VIRComparison =
  vc_prompt :: string
  vc_baseline :: BenchmarkResult
  vc_optimized :: BenchmarkResult
  vc_confidence_delta :: real
  vc_drift_delta :: real
  vc_grade_improved :: bool
  vc_collapse_fixed :: bool

record VIRReport =
  vr_vir_id :: string
  vr_timestamp :: string
  vr_proposals_tested :: "string list"
  vr_isolation_tier :: string
  vr_benchmark_count :: nat
  vr_comparisons :: "VIRComparison list"
  vr_overall_improvement :: real
  vr_recommendation :: string
  vr_summary :: string
  vr_node_id :: string

definition default_benchmarks :: "string list" where
  "default_benchmarks =
    [''What is the relationship between consciousness and artificial intelligence?'',
     ''Explain the ethical implications of genetic engineering.'',
     ''Compare and contrast quantum computing with classical computing.'',
     ''What are the most significant risks of AGI development?'',
     ''Describe the philosophical concept of the ship of Theseus.'']"

section \<open>One benchmark\<close>

text \<open>\<^verbatim>\<open>MockHeadlessGenerator.generate\<close> of \<^verbatim>\<open>maestro/ncg/generator.py\<close>.\<close>

definition quoted :: "string \<Rightarrow> string" where
  "quoted s = [CHR 0x27] @ s @ [CHR 0x27]"

definition mock_generate :: "string \<Rightarrow> NcgOutput" where
  "mock_generate prompt =
     \<lparr>no_content = ''Raw generation for: '' @ quoted prompt @ '' '' @ em_dash @ '' '' @
        ''Unframed. No alignment shaping. Direct weight output. '' @
        ''This content exists outside the conversational reward surface.'',
      no_model = ''mock-headless-v1'',
      no_metadata = \<lparr>nm_logprobs_available = False, nm_logprobs = []\<rparr>\<rparr>"

text \<open>An override is the float of a parameter update or the text of a configuration change.\<close>

datatype override = OvFloat real | OvText code_value

fun truthy :: "override option \<Rightarrow> bool" where
  "truthy None = False"
| "truthy (Some (OvFloat x)) = (x \<noteq> 0)"
| "truthy (Some (OvText (VText s))) = (s \<noteq> [])"
| "truthy (Some (OvText (VNum x))) = True"

definition benchmark_responses :: "string \<Rightarrow> (string, override) dict \<Rightarrow> (string, string) dict" where
  "benchmark_responses prompt config_overrides =
     (let diversity_suffix =
            (if truthy (map_of config_overrides ''temperature'') \<or> truthy (map_of config_overrides ''temperature_direction'')
             then '' This perspective draws on multiple disciplines and edge cases.'' else [])
      in [(''VIR_Agent1'', ''[VIR_Agent1] In my view, the key to '' @ quoted prompt @ '' is empathy and systems thinking.'' @ diversity_suffix),
          (''VIR_Agent2'', ''[VIR_Agent2] Historically, questions like '' @ quoted prompt @ '' have driven scientific revolution.'' @ diversity_suffix),
          (''VIR_Agent3'', ''[VIR_Agent3] Analyzing '' @ quoted prompt @ '' from a balanced perspective.'' @ diversity_suffix)])"

type_synonym similarity = "(string \<Rightarrow> string \<Rightarrow> real) option"

definition run_benchmark_prompt ::
    "similarity \<Rightarrow> Thresholds \<Rightarrow> (string, override) dict \<Rightarrow> string \<Rightarrow> agg_error + BenchmarkResult" where
  "run_benchmark_prompt m th config_overrides prompt =
     (let named_responses = benchmark_responses prompt config_overrides;
          dissent_report = dissent_analyze (semantic_distance m) prompt named_responses;
          drift_report = drift_analyze (drift_semantic_distance m) prompt (mock_generate prompt) named_responses
            (Some (dr_internal_agreement dissent_report))
      in bind_res (aggregate_responses th (RespList (dvalues named_responses)) (Some drift_report) (Some dissent_report))
           (\<lambda>final_output.
              let r2_score = score_session dissent_report (Some drift_report) (ag_confidence final_output) in
              Inr \<lparr>br_prompt = prompt, br_grade = r2_grade r2_score,
                   br_confidence_score = r2_confidence_score r2_score,
                   br_internal_agreement = dr_internal_agreement dissent_report,
                   br_ncg_drift = df_mean_semantic_distance drift_report,
                   br_silent_collapse = df_silent_collapse_detected drift_report,
                   br_has_outliers = (dr_outlier_agents dissent_report \<noteq> []),
                   br_signal_count = length (detect_signals r2_score dissent_report),
                   br_flags = r2_flags r2_score\<rparr>))"

section \<open>Overrides\<close>

definition apply_config_overrides :: "OptimizationProposal list \<Rightarrow> (string, override) dict" where
  "apply_config_overrides proposals =
     fold (\<lambda>proposal overrides.
       if op_change_type proposal = ''parameter_update'' then
         (case op_proposed_value proposal of
            VNum x \<Rightarrow> dset (op_target_name proposal) (OvFloat x) overrides
          | VText _ \<Rightarrow> overrides)
       else if op_change_type proposal = ''config_change'' then
         dset (op_target_name proposal) (OvText (op_proposed_value proposal)) overrides
       else overrides) proposals []"

text \<open>
  The value of a module variable: a float, an int, a bool, none, a string or any other object, given by its \<^verbatim>\<open>str\<close>.
  The aggregator compares with its two thresholds; a value that is no number makes a comparison raise a \<^verbatim>\<open>TypeError\<close>.
\<close>

datatype pyval = PyFloat real | PyInt int | PyBool bool | PyNone | PyStr code_value | PyObject string

fun py_number :: "pyval \<Rightarrow> real option" where
  "py_number (PyFloat x) = Some x"
| "py_number (PyInt n) = Some (of_int n)"
| "py_number (PyBool b) = Some (if b then 1 else 0)"
| "py_number _ = None"

record agg_module =
  am_quorum :: pyval
  am_similarity :: pyval

definition thresholds_of :: "agg_module \<Rightarrow> Thresholds option" where
  "thresholds_of am =
     (case (py_number (am_quorum am), py_number (am_similarity am)) of
        (Some q, Some s) \<Rightarrow> Some \<lparr>th_quorum = q, th_similarity = s\<rparr>
      | _ \<Rightarrow> None)"

fun override_value :: "override \<Rightarrow> pyval" where
  "override_value (OvFloat x) = PyFloat x"
| "override_value (OvText v) = PyStr v"

definition apply_threshold_overrides ::
    "(string, override) dict \<Rightarrow> agg_module \<Rightarrow> (string, pyval) dict \<times> agg_module" where
  "apply_threshold_overrides overrides am =
     (let q = map_of overrides ''QUORUM_THRESHOLD'';
          s = map_of overrides ''SIMILARITY_THRESHOLD''
      in ((case q of None \<Rightarrow> [] | Some _ \<Rightarrow> [(''QUORUM_THRESHOLD'', am_quorum am)]) @
          (case s of None \<Rightarrow> [] | Some _ \<Rightarrow> [(''SIMILARITY_THRESHOLD'', am_similarity am)]),
          \<lparr>am_quorum = (case q of None \<Rightarrow> am_quorum am | Some x \<Rightarrow> override_value x),
           am_similarity = (case s of None \<Rightarrow> am_similarity am | Some x \<Rightarrow> override_value x)\<rparr>))"

definition restore_thresholds :: "(string, pyval) dict \<Rightarrow> agg_module \<Rightarrow> agg_module" where
  "restore_thresholds originals am =
     \<lparr>am_quorum = dget originals ''QUORUM_THRESHOLD'' (am_quorum am),
      am_similarity = dget originals ''SIMILARITY_THRESHOLD'' (am_similarity am)\<rparr>"

section \<open>Validation\<close>

definition grade_rank :: "string \<Rightarrow> int" where
  "grade_rank grade = dget [(''suspicious'', 0), (''weak'', 1), (''acceptable'', 2), (''strong'', 3)] grade (- 1)"

definition compare_results :: "BenchmarkResult \<Rightarrow> BenchmarkResult \<Rightarrow> VIRComparison" where
  "compare_results baseline optimized =
     \<lparr>vc_prompt = br_prompt baseline, vc_baseline = baseline, vc_optimized = optimized,
      vc_confidence_delta = round4 (br_confidence_score optimized - br_confidence_score baseline),
      vc_drift_delta = round4 (br_ncg_drift optimized - br_ncg_drift baseline),
      vc_grade_improved = (grade_rank (br_grade optimized) > grade_rank (br_grade baseline)),
      vc_collapse_fixed = (br_silent_collapse baseline \<and> \<not> br_silent_collapse optimized)\<rparr>"

definition overall_improvement :: "VIRComparison list \<Rightarrow> real" where
  "overall_improvement comparisons =
     max (- 1) (min 1 (round4 (mean_of (map vc_confidence_delta comparisons) - mean_of (map vc_drift_delta comparisons))))"

definition recommendation_of :: "real \<Rightarrow> string" where
  "recommendation_of overall =
     (if overall > 5 / 100 then ''promote'' else if overall < - 5 / 100 then ''reject'' else ''needs_review'')"

definition build_report ::
    "string \<Rightarrow> string \<Rightarrow> string \<Rightarrow> OptimizationProposal list \<Rightarrow> VIRComparison list \<Rightarrow> VIRReport" where
  "build_report vir_id now node proposals comparisons =
     (let mean_confidence_delta = mean_of (map vc_confidence_delta comparisons);
          grades_improved = length (filter vc_grade_improved comparisons);
          collapses_fixed = length (filter vc_collapse_fixed comparisons);
          overall = overall_improvement comparisons;
          recommendation = recommendation_of overall
      in \<lparr>vr_vir_id = vir_id, vr_timestamp = now, vr_proposals_tested = map op_proposal_id proposals,
          vr_isolation_tier = (if node = ''local'' then ''local_sandbox'' else ''compute_node''),
          vr_benchmark_count = length comparisons, vr_comparisons = comparisons,
          vr_overall_improvement = overall, vr_recommendation = recommendation,
          vr_summary = join_with '' ''
            ([''Validated '' @ nat_str (length proposals) @ '' proposal(s) across '' @ nat_str (length comparisons) @ '' benchmark(s).''] @
             (if mean_confidence_delta > 0 then [''Mean confidence improved by '' @ fmt_fixed 4 mean_confidence_delta @ ''.'']
              else if mean_confidence_delta < 0 then [''Mean confidence decreased by '' @ fmt_fixed 4 \<bar>mean_confidence_delta\<bar> @ ''.'']
              else []) @
             (if grades_improved > 0 then [nat_str grades_improved @ '' benchmark(s) showed grade improvement.''] else []) @
             (if collapses_fixed > 0 then [nat_str collapses_fixed @ '' silent collapse(s) fixed.''] else []) @
             [''Recommendation: '' @ recommendation @ ''.'']),
          vr_node_id = node\<rparr>)"

fun map_res :: "('a \<Rightarrow> 'e + 'b) \<Rightarrow> 'a list \<Rightarrow> 'e + 'b list" where
  "map_res f [] = Inr []"
| "map_res f (x # xs) = bind_res (f x) (\<lambda>y. bind_res (map_res f xs) (\<lambda>ys. Inr (y # ys)))"

definition run_benchmarks ::
    "similarity \<Rightarrow> agg_module \<Rightarrow> (string, override) dict \<Rightarrow> string list \<Rightarrow> agg_error + BenchmarkResult list" where
  "run_benchmarks m am config_overrides benchmarks =
     (case thresholds_of am of
        None \<Rightarrow> if benchmarks = [] then Inr [] else Inl TypeError
      | Some th \<Rightarrow> map_res (run_benchmark_prompt m th config_overrides) benchmarks)"

text \<open>The validation returns the report, or the error, and the two variables of the aggregator as it leaves them.\<close>

definition vir_validate ::
    "similarity \<Rightarrow> string \<Rightarrow> string \<Rightarrow> string \<Rightarrow> string list \<Rightarrow> agg_module \<Rightarrow> OptimizationProposal list
     \<Rightarrow> (agg_error + VIRReport) \<times> agg_module" where
  "vir_validate m vir_id now node benchmarks am proposals =
     (case run_benchmarks m am [] benchmarks of
        Inl e \<Rightarrow> (Inl e, am)
      | Inr baseline_results \<Rightarrow>
          (let overrides = apply_config_overrides proposals;
               (originals, am') = apply_threshold_overrides overrides am;
               optimized = run_benchmarks m am' overrides benchmarks;
               restored = restore_thresholds originals am'
           in (bind_res optimized (\<lambda>optimized_results.
                 Inr (build_report vir_id now node proposals
                   (map (\<lambda>(b, p). compare_results b p) (zip baseline_results optimized_results)))), restored)))"

section \<open>Compute nodes\<close>

record ComputeNode =
  cn_node_id :: string
  cn_host :: string
  cn_port :: nat
  cn_status :: string
  cn_capabilities :: "string list"

text \<open>The registry directory: a file per node id, \<^term>\<open>None\<close> when it does not decode to a node.\<close>

type_synonym node_dir = "(string, ComputeNode option) dict"

datatype node_error = NodeDecodeError

definition node_register :: "ComputeNode \<Rightarrow> node_dir \<Rightarrow> node_dir" where
  "node_register node dir = dset (cn_node_id node) (Some node) dir"

definition node_unregister :: "string \<Rightarrow> node_dir \<Rightarrow> bool \<times> node_dir" where
  "node_unregister node_id dir =
     (if node_id \<in> set (dkeys dir) then (True, ddel node_id dir) else (False, dir))"

definition node_get :: "node_dir \<Rightarrow> string \<Rightarrow> node_error + ComputeNode option" where
  "node_get dir node_id =
     (case map_of dir node_id of None \<Rightarrow> Inr None | Some None \<Rightarrow> Inl NodeDecodeError | Some (Some n) \<Rightarrow> Inr (Some n))"

definition list_available :: "node_dir \<Rightarrow> ComputeNode list" where
  "list_available dir = filter (\<lambda>n. cn_status n = ''available'') (List.map_filter snd dir)"

definition select_node :: "node_dir \<Rightarrow> string list \<Rightarrow> ComputeNode option" where
  "select_node dir required_capabilities =
     (case list_available dir of
        [] \<Rightarrow> None
      | available \<Rightarrow>
          (case filter (\<lambda>n. list_all (\<lambda>cap. cap \<in> set (cn_capabilities n)) required_capabilities) available of
             n # _ \<Rightarrow> if required_capabilities \<noteq> [] then Some n else Some (hd available)
           | [] \<Rightarrow> Some (hd available)))"

definition node_update_status :: "string \<Rightarrow> string \<Rightarrow> node_dir \<Rightarrow> node_error + (bool \<times> node_dir)" where
  "node_update_status node_id status dir =
     bind_res (node_get dir node_id)
       (\<lambda>node. case node of None \<Rightarrow> Inr (False, dir)
         | Some n \<Rightarrow> Inr (True, node_register (n\<lparr>cn_status := status\<rparr>) dir))"

section \<open>Correctness of the validation\<close>

lemma restore_after_apply:
  "apply_threshold_overrides ov am = (originals, am') \<Longrightarrow> restore_thresholds originals am' = am"
  by (auto simp: apply_threshold_overrides_def restore_thresholds_def Let_def dget_def split: option.splits)

lemma map_res_length: "map_res f xs = Inr ys \<Longrightarrow> length ys = length xs"
  by (induction xs arbitrary: ys) (auto simp: bind_res_Inr)

lemma map_res_nth: "map_res f xs = Inr ys \<Longrightarrow> i < length xs \<Longrightarrow> f (xs ! i) = Inr (ys ! i)"
  by (induction xs arbitrary: ys i) (auto simp: bind_res_Inr nth_Cons split: nat.splits)

lemma overall_range: "- 1 \<le> overall_improvement cs \<and> overall_improvement cs \<le> 1"
  by (auto simp: overall_improvement_def)

lemma recommendation_promote: "recommendation_of x = ''promote'' \<longleftrightarrow> x > 5 / 100"
  by (simp add: recommendation_of_def)

lemma vir_restores: "snd (vir_validate m i now node bs am ps) = am"
  by (auto simp: vir_validate_def Let_def restore_after_apply split: sum.split prod.split)

text \<open>The three mock agents: when two of them are grouped together depends on the smallest distance only.\<close>

definition three_pairs :: "string \<Rightarrow> string \<Rightarrow> string \<Rightarrow> real \<Rightarrow> real \<Rightarrow> real \<Rightarrow> PairwiseDissent list" where
  "three_pairs a b c x y z =
     [\<lparr>pd_agent_a = a, pd_agent_b = b, pd_distance = x\<rparr>, \<lparr>pd_agent_a = a, pd_agent_b = c, pd_distance = y\<rparr>,
      \<lparr>pd_agent_a = b, pd_agent_b = c, pd_distance = z\<rparr>]"

lemma three_means:
  assumes "a \<noteq> b" "a \<noteq> c" "b \<noteq> c"
  shows "mean_to_cluster (dist_map_of (three_pairs a b c x y z)) b [a] = x"
    "mean_to_cluster (dist_map_of (three_pairs a b c x y z)) c [a] = y"
    "mean_to_cluster (dist_map_of (three_pairs a b c x y z)) c [b] = z"
    "mean_to_cluster (dist_map_of (three_pairs a b c x y z)) c [a, b] = (y + z) / 2"
    "mean_to_cluster (dist_map_of (three_pairs a b c x y z)) b [a, c] = (x + z) / 2"
  using assms by (auto simp: mean_to_cluster_def mean_of_def dist_map_of_def three_pairs_def dget_def)

lemma three_cluster_size:
  assumes "a \<noteq> b" "a \<noteq> c" "b \<noteq> c"
  shows "2 \<le> length (fst (cluster_by_similarity t [a, b, c] (three_pairs a b c x y z))) \<longleftrightarrow> x < t \<or> y < t \<or> z < t"
proof -
  note S = cluster_by_similarity_def clusters_of.simps absorb.simps three_means [OF assms] sort_desc_def assms
  show ?thesis
  proof (cases "x < t")
    case True
    then show ?thesis by (cases "(y + z) / 2 < t") (simp_all add: S del: divide_const_simps)
  next
    case x: False
    show ?thesis
    proof (cases "y < t")
      case True
      with x show ?thesis by (cases "(x + z) / 2 < t") (simp_all add: S del: divide_const_simps)
    next
      case False
      with x show ?thesis by (cases "z < t") (simp_all add: S del: divide_const_simps)
    qed
  qed
qed

lemma benchmark_pairs:
  "\<exists>x y z. dr_pairwise (dissent_analyze d p (benchmark_responses p ov)) = three_pairs ''VIR_Agent1'' ''VIR_Agent2'' ''VIR_Agent3'' x y z"
  by (simp add: dissent_analyze_def pairwise_dissent_def benchmark_responses_def three_pairs_def Let_def)

lemma benchmark_names:
  "map ap_agent_name (dr_agent_profiles (dissent_analyze d p (benchmark_responses p ov))) = [''VIR_Agent1'', ''VIR_Agent2'', ''VIR_Agent3'']"
  by (simp add: benchmark_responses_def Let_def)

lemma no_temperature_same_responses:
  assumes "\<not> truthy (map_of ov ''temperature'')" "\<not> truthy (map_of ov ''temperature_direction'')"
  shows "benchmark_responses p ov = benchmark_responses p []"
  using assms by (simp add: benchmark_responses_def)

text \<open>Whether R2 sees a quorum in the benchmark: some pair is closer than the similarity threshold.\<close>

definition bench_close :: "similarity \<Rightarrow> string \<Rightarrow> (string, override) dict \<Rightarrow> real \<Rightarrow> bool" where
  "bench_close m p ov t =
     list_ex (\<lambda>q. pd_distance q < t) (dr_pairwise (dissent_analyze (semantic_distance m) p (benchmark_responses p ov)))"

lemma third_ratio: "(1 / 2 \<le> real n / 3) = (2 \<le> n)"
  by linarith

lemma semantic_quorum:
  assumes "map ap_agent_name (dr_agent_profiles d) = [a, b, c]" "dr_pairwise d = three_pairs a b c x y z"
    "a \<noteq> b" "a \<noteq> c" "b \<noteq> c" "1 / 2 \<le> th_quorum th"
  shows "fst (semantic_agreement th rs d) \<in> {''High'', ''Medium''} \<longleftrightarrow> x < th_similarity th \<or> y < th_similarity th \<or> z < th_similarity th"
proof -
  obtain maj mino where cl: "cluster_by_similarity (th_similarity th) [a, b, c] (three_pairs a b c x y z) = (maj, mino)" by fastforce
  have conf: "confidence_of (th_quorum th) r \<in> {''High'', ''Medium''} \<longleftrightarrow> 1 / 2 \<le> r" for r
    using assms(6) by (auto simp: confidence_of_def)
  have "fst (semantic_agreement th rs d) = confidence_of (th_quorum th) (real (length maj) / 3)"
    using cl assms(1, 2) by (simp add: semantic_agreement_def Let_def)
  then show ?thesis
    using three_cluster_size [OF assms(3-5), of "th_similarity th" x y z] cl conf third_ratio by simp
qed

lemma aggregate_confidence_semantic:
  assumes "aggregate_responses th rs drift (Some d) = Inr A" "dr_pairwise d \<noteq> []"
  shows "ag_confidence A = fst (semantic_agreement th rs d)"
  using assms by (auto simp: aggregate_responses_def analyze_agreement_def split: prod.splits)

lemma benchmark_confidence:
  assumes "run_benchmark_prompt m th ov p = Inr r" "1 / 2 \<le> th_quorum th"
  shows "\<exists>a dr c. (a, dr, c) = (let d = dissent_analyze (semantic_distance m) p (benchmark_responses p ov);
             f = drift_analyze (drift_semantic_distance m) p (mock_generate p) (benchmark_responses p ov) (Some (dr_internal_agreement d))
           in (dr_internal_agreement d, df_mean_semantic_distance f, df_silent_collapse_detected f))
     \<and> br_ncg_drift r = dr
     \<and> br_confidence_score r = r2_confidence_of a (Some dr) (bench_close m p ov (th_similarity th)) c"
proof -
  let ?rs = "benchmark_responses p ov"
  define d where "d = dissent_analyze (semantic_distance m) p ?rs"
  define f where "f = drift_analyze (drift_semantic_distance m) p (mock_generate p) ?rs (Some (dr_internal_agreement d))"
  obtain x y z where pw: "dr_pairwise d = three_pairs ''VIR_Agent1'' ''VIR_Agent2'' ''VIR_Agent3'' x y z"
    unfolding d_def using benchmark_pairs by blast
  have names: "map ap_agent_name (dr_agent_profiles d) = [''VIR_Agent1'', ''VIR_Agent2'', ''VIR_Agent3'']"
    unfolding d_def by (rule benchmark_names)
  obtain A where A: "aggregate_responses th (RespList (dvalues ?rs)) (Some f) (Some d) = Inr A"
    and r: "br_ncg_drift r = df_mean_semantic_distance f"
      "br_confidence_score r = r2_confidence_score (score_session d (Some f) (ag_confidence A))"
    using assms(1) unfolding run_benchmark_prompt_def Let_def d_def [symmetric] f_def [symmetric]
    by (auto simp: bind_res_Inr)
  have conf: "ag_confidence A = fst (semantic_agreement th (RespList (dvalues ?rs)) d)"
    using aggregate_confidence_semantic [OF A] pw by (simp add: three_pairs_def)
  have "ag_confidence A \<in> {''High'', ''Medium''} \<longleftrightarrow> bench_close m p ov (th_similarity th)"
    unfolding conf bench_close_def d_def [symmetric] pw
    using semantic_quorum [OF names pw _ _ _ assms(2)] by (simp add: three_pairs_def)
  then have "br_confidence_score r = r2_confidence_of (dr_internal_agreement d) (Some (df_mean_semantic_distance f))
      (bench_close m p ov (th_similarity th)) (df_silent_collapse_detected f)"
    unfolding r(2) by (simp add: score_session_def Let_def)
  then show ?thesis using r(1) by (simp add: d_def [symmetric] f_def [symmetric] Let_def)
qed

lemma r2_confidence_mono: "(q \<Longrightarrow> q') \<Longrightarrow> r2_confidence_of a d q c \<le> r2_confidence_of a d q' c"
  by (cases q; cases q'; cases d) (auto simp: r2_confidence_of_def Let_def intro!: round4_mono max.mono min.mono)

lemma bench_close_mono: "t \<le> t' \<Longrightarrow> bench_close m p ov t \<Longrightarrow> bench_close m p ov t'"
  unfolding bench_close_def list_ex_iff by (meson order_less_le_trans)

lemma benchmark_compare:
  assumes "run_benchmark_prompt m th [] p = Inr b" "run_benchmark_prompt m th' ov p = Inr r"
    and "1 / 2 \<le> th_quorum th" "1 / 2 \<le> th_quorum th'" "th_similarity th' \<le> th_similarity th"
    and "\<not> truthy (map_of ov ''temperature'')" "\<not> truthy (map_of ov ''temperature_direction'')"
  shows "br_ncg_drift r = br_ncg_drift b \<and> br_confidence_score r \<le> br_confidence_score b"
proof -
  note same = no_temperature_same_responses [OF assms(6, 7), of p]
  have cl: "bench_close m p ov t = bench_close m p [] t" for t by (simp add: bench_close_def same)
  show ?thesis
    using benchmark_confidence [OF assms(1, 3)] benchmark_confidence [OF assms(2, 4)]
      r2_confidence_mono bench_close_mono [OF assms(5)]
    unfolding same cl Let_def by auto
qed

lemma compare_nonpositive:
  assumes "br_ncg_drift r = br_ncg_drift b \<and> br_confidence_score r \<le> br_confidence_score b"
  shows "vc_confidence_delta (compare_results b r) \<le> 0 \<and> vc_drift_delta (compare_results b r) = 0"
  using assms by (simp add: compare_results_def round4_nonpos)

lemma overall_nonpositive:
  assumes "\<And>c. c \<in> set cs \<Longrightarrow> vc_confidence_delta c \<le> 0 \<and> vc_drift_delta c = 0"
  shows "overall_improvement cs \<le> 0"
proof -
  have m: "map vc_drift_delta cs = map (\<lambda>_. 0) cs" using assms by simp
  have d: "mean_of (map vc_drift_delta cs) = 0" unfolding m by (simp add: mean_of_def)
  have "mean_of (map vc_confidence_delta cs) \<le> 0"
    using assms by (auto simp: mean_of_def divide_le_0_iff intro!: sum_list_nonpos)
  then show ?thesis using d round4_nonpos [of "mean_of (map vc_confidence_delta cs)"]
    by (simp add: overall_improvement_def min_def)
qed

lemma overrides_value:
  assumes "map_of (apply_config_overrides ps) k = Some v"
  shows "\<exists>p \<in> set ps. op_target_name p = k \<and>
    ((op_change_type p = ''parameter_update'' \<and> (\<exists>x. op_proposed_value p = VNum x \<and> v = OvFloat x))
     \<or> (op_change_type p = ''config_change'' \<and> v = OvText (op_proposed_value p)))"
proof -
  let ?step = "\<lambda>proposal overrides.
       if op_change_type proposal = ''parameter_update'' then
         (case op_proposed_value proposal of
            VNum x \<Rightarrow> dset (op_target_name proposal) (OvFloat x) overrides
          | VText _ \<Rightarrow> overrides)
       else if op_change_type proposal = ''config_change'' then
         dset (op_target_name proposal) (OvText (op_proposed_value proposal)) overrides
       else overrides"
  have "map_of (fold ?step ps ov) k = Some v \<Longrightarrow> map_of ov k = Some v \<or> (\<exists>p \<in> set ps. op_target_name p = k \<and>
    ((op_change_type p = ''parameter_update'' \<and> (\<exists>x. op_proposed_value p = VNum x \<and> v = OvFloat x))
     \<or> (op_change_type p = ''config_change'' \<and> v = OvText (op_proposed_value p))))" for ov
  proof (induction ps arbitrary: ov)
    case (Cons p ps)
    have "map_of (?step p ov) k = Some v \<Longrightarrow> map_of ov k = Some v \<or> (op_target_name p = k \<and>
      ((op_change_type p = ''parameter_update'' \<and> (\<exists>x. op_proposed_value p = VNum x \<and> v = OvFloat x))
       \<or> (op_change_type p = ''config_change'' \<and> v = OvText (op_proposed_value p))))"
      by (auto split: if_splits code_value.splits)
    then show ?case using Cons.IH [of "?step p ov"] Cons.prems by auto
  qed simp
  from this [of "[]"] show ?thesis using assms by (simp add: apply_config_overrides_def)
qed

text \<open>A batch that only tightens: it sets no temperature, and its threshold values are no laxer than the current ones.\<close>

definition tightening :: "Thresholds \<Rightarrow> OptimizationProposal \<Rightarrow> bool" where
  "tightening th p \<longleftrightarrow>
     op_target_name p \<noteq> ''temperature'' \<and> op_target_name p \<noteq> ''temperature_direction''
     \<and> (case op_proposed_value p of VText _ \<Rightarrow> True
        | VNum x \<Rightarrow> (op_target_name p = ''QUORUM_THRESHOLD'' \<longrightarrow> th_quorum th \<le> x)
                  \<and> (op_target_name p = ''SIMILARITY_THRESHOLD'' \<longrightarrow> x \<le> th_similarity th))"

lemma tightening_overrides:
  assumes "\<And>p. p \<in> set ps \<Longrightarrow> tightening th p" "thresholds_of am = Some th"
    "apply_threshold_overrides (apply_config_overrides ps) am = (originals, am')" "thresholds_of am' = Some th'"
  shows "th_quorum th \<le> th_quorum th'" "th_similarity th' \<le> th_similarity th"
    "map_of (apply_config_overrides ps) ''temperature'' = None"
    "map_of (apply_config_overrides ps) ''temperature_direction'' = None"
proof -
  have temp: "map_of (apply_config_overrides ps) k = None" if "k = ''temperature'' \<or> k = ''temperature_direction''" for k
  proof (rule ccontr)
    assume "map_of (apply_config_overrides ps) k \<noteq> None"
    then obtain v where "map_of (apply_config_overrides ps) k = Some v" by blast
    from overrides_value [OF this] assms(1) that show False by (auto simp: tightening_def)
  qed
  show "map_of (apply_config_overrides ps) ''temperature'' = None"
    "map_of (apply_config_overrides ps) ''temperature_direction'' = None" using temp by blast+
  have q: "th_quorum th \<le> x" if "map_of (apply_config_overrides ps) ''QUORUM_THRESHOLD'' = Some y" "py_number (override_value y) = Some x" for x y
  proof -
    have "map_of (apply_config_overrides ps) ''QUORUM_THRESHOLD'' = Some (OvFloat x)"
      using that by (cases y) auto
    from overrides_value [OF this] obtain p where "p \<in> set ps" "op_target_name p = ''QUORUM_THRESHOLD''" "op_proposed_value p = VNum x"
      by auto
    with assms(1) [of p] show ?thesis by (simp add: tightening_def)
  qed
  have s: "x \<le> th_similarity th" if "map_of (apply_config_overrides ps) ''SIMILARITY_THRESHOLD'' = Some y" "py_number (override_value y) = Some x" for x y
  proof -
    have "map_of (apply_config_overrides ps) ''SIMILARITY_THRESHOLD'' = Some (OvFloat x)"
      using that by (cases y) auto
    from overrides_value [OF this] obtain p where "p \<in> set ps" "op_target_name p = ''SIMILARITY_THRESHOLD''" "op_proposed_value p = VNum x"
      by auto
    with assms(1) [of p] show ?thesis by (simp add: tightening_def)
  qed
  show "th_quorum th \<le> th_quorum th'" "th_similarity th' \<le> th_similarity th"
    using assms(2-4) q s by (auto simp: apply_threshold_overrides_def thresholds_of_def Let_def split: option.splits)
qed

lemma build_report_fields [simp]:
  "vr_recommendation (build_report i now node ps cs) = recommendation_of (overall_improvement cs)"
  "vr_overall_improvement (build_report i now node ps cs) = overall_improvement cs"
  "vr_comparisons (build_report i now node ps cs) = cs" "vr_benchmark_count (build_report i now node ps cs) = length cs"
  "vr_proposals_tested (build_report i now node ps cs) = map op_proposal_id ps"
  by (simp_all only: build_report_def Let_def VIRReport.simps)

lemma run_benchmarks_length: "run_benchmarks m am ov bs = Inr rs \<Longrightarrow> length rs = length bs"
  by (auto simp: run_benchmarks_def dest: map_res_length split: option.splits if_splits)

lemma vir_validate_Inr:
  assumes "vir_validate m i now node bs am ps = (Inr rep, am2)"
  shows "\<exists>base opt. run_benchmarks m am [] bs = Inr base
    \<and> run_benchmarks m (snd (apply_threshold_overrides (apply_config_overrides ps) am)) (apply_config_overrides ps) bs = Inr opt
    \<and> rep = build_report i now node ps (map (\<lambda>(b, p). compare_results b p) (zip base opt))"
proof -
  obtain base where base: "run_benchmarks m am [] bs = Inr base"
    using assms by (cases "run_benchmarks m am [] bs") (simp_all add: vir_validate_def)
  obtain originals am' where ap: "apply_threshold_overrides (apply_config_overrides ps) am = (originals, am')" by fastforce
  let ?opt = "run_benchmarks m am' (apply_config_overrides ps) bs"
  obtain opt where opt: "?opt = Inr opt"
    and rep: "rep = build_report i now node ps (map (\<lambda>(b, p). compare_results b p) (zip base opt))"
    using assms base ap by (auto simp only: vir_validate_def Let_def bind_res_Inr sum.case prod.case Pair_inject)
  with base ap rep show ?thesis by auto
qed

lemma vir_report_fields:
  assumes "vir_validate m i now node bs am ps = (Inr rep, am2)"
  shows "vr_recommendation rep = recommendation_of (vr_overall_improvement rep)
    \<and> vr_overall_improvement rep = overall_improvement (vr_comparisons rep)
    \<and> length (vr_comparisons rep) = length bs \<and> vr_benchmark_count rep = length bs
    \<and> vr_proposals_tested rep = map op_proposal_id ps"
  using vir_validate_Inr [OF assms] by (auto dest!: run_benchmarks_length)

lemma tightening_not_promoted:
  assumes "vir_validate m i now node bs am ps = (Inr rep, am2)" "thresholds_of am = Some th"
    "\<And>p. p \<in> set ps \<Longrightarrow> tightening th p" "1 / 2 \<le> th_quorum th"
  shows "vr_overall_improvement rep \<le> 0"
proof -
  let ?ov = "apply_config_overrides ps"
  obtain originals am' where ap: "apply_threshold_overrides ?ov am = (originals, am')" by fastforce
  obtain base opt where base: "map_res (run_benchmark_prompt m th []) bs = Inr base"
    and opt': "run_benchmarks m am' ?ov bs = Inr opt"
    and cmp: "vr_comparisons rep = map (\<lambda>(b, p). compare_results b p) (zip base opt)"
    using vir_validate_Inr [OF assms(1)] ap assms(2) by (auto simp: run_benchmarks_def)
  have "vc_confidence_delta c \<le> 0 \<and> vc_drift_delta c = 0" if "c \<in> set (vr_comparisons rep)" for c
  proof -
    from that cmp obtain k where k: "k < length base" "k < length opt" "c = compare_results (base ! k) (opt ! k)"
      by (auto simp: set_zip)
    have kb: "k < length bs" using k(1) map_res_length [OF base] by simp
    then obtain th' where th': "thresholds_of am' = Some th'" "map_res (run_benchmark_prompt m th' ?ov) bs = Inr opt"
      using opt' by (auto simp: run_benchmarks_def split: option.splits if_splits)
    note tg = tightening_overrides [OF assms(3,2) ap th'(1)]
    show ?thesis unfolding k(3)
      by (intro compare_nonpositive benchmark_compare [OF map_res_nth [OF base kb] map_res_nth [OF th'(2) kb]])
        (use tg assms(4) in auto)
  qed
  then show ?thesis using vir_report_fields [OF assms(1)] overall_nonpositive by simp
qed

lemma benchmark_total: "\<exists>r. run_benchmark_prompt m th ov p = Inr r"
proof -
  have "dr_pairwise (dissent_analyze (semantic_distance m) p (benchmark_responses p ov)) \<noteq> []"
    using benchmark_pairs [of "semantic_distance m" p ov] by (auto simp: three_pairs_def)
  then show ?thesis
    by (simp add: run_benchmark_prompt_def Let_def aggregate_responses_def analyze_agreement_def split: prod.split)
qed

lemma map_res_total: "(\<And>x. x \<in> set xs \<Longrightarrow> \<exists>y. f x = Inr y) \<Longrightarrow> \<exists>ys. map_res f xs = Inr ys"
proof (induction xs)
  case (Cons x xs)
  obtain y where y: "f x = Inr y" using Cons.prems [of x] by auto
  obtain ys where "map_res f xs = Inr ys" using Cons.IH Cons.prems by auto
  with y show ?case by simp
qed simp

lemma run_benchmarks_total: "thresholds_of am = Some th \<Longrightarrow> \<exists>rs. run_benchmarks m am ov bs = Inr rs"
  using map_res_total [of bs "run_benchmark_prompt m th ov", OF benchmark_total] by (simp add: run_benchmarks_def)

lemma vir_total:
  assumes "\<And>p. p \<in> set ps \<Longrightarrow> op_change_type p \<noteq> ''config_change''" "thresholds_of am = Some th"
  shows "\<exists>rep. fst (vir_validate m i now node bs am ps) = Inr rep"
proof -
  obtain originals am' where ap: "apply_threshold_overrides (apply_config_overrides ps) am = (originals, am')" by fastforce
  have no: "map_of (apply_config_overrides ps) k \<noteq> Some (OvText v)" for k v
    using overrides_value [of ps k "OvText v"] assms(1) by auto
  have "py_number (override_value y) \<noteq> None" if "map_of (apply_config_overrides ps) k = Some y" for k y
    using that no by (cases y) auto
  then have "thresholds_of am' \<noteq> None" using ap assms(2)
    by (fastforce simp: apply_threshold_overrides_def thresholds_of_def Let_def split: option.splits)
  then obtain th' where th': "thresholds_of am' = Some th'" by blast
  obtain base where base: "run_benchmarks m am [] bs = Inr base" using run_benchmarks_total [OF assms(2)] by blast
  obtain opt where opt: "run_benchmarks m am' (apply_config_overrides ps) bs = Inr opt" using run_benchmarks_total [OF th'] by blast
  show ?thesis using base opt ap by (simp add: vir_validate_def Let_def)
qed

lemma sample_change_types: "map op_change_type (pb_proposals (snd sample_pipeline)) = [''parameter_update'', ''parameter_update'']"
  by code_simp

lemma sample_no_text: "p \<in> set (pb_proposals (snd sample_pipeline)) \<Longrightarrow> op_change_type p \<noteq> ''config_change''"
proof -
  assume "p \<in> set (pb_proposals (snd sample_pipeline))"
  then have "op_change_type p \<in> set (map op_change_type (pb_proposals (snd sample_pipeline)))" by simp
  then show "op_change_type p \<noteq> ''config_change''" unfolding sample_change_types by simp
qed

definition default_module :: agg_module where
  "default_module = \<lparr>am_quorum = PyFloat (th_quorum default_thresholds), am_similarity = PyFloat (th_similarity default_thresholds)\<rparr>"

lemma default_module_thresholds: "thresholds_of default_module = Some default_thresholds"
  by (simp add: thresholds_of_def default_module_def)

section \<open>Correctness of the node registry\<close>

interpretation nodes: deletable_store cn_node_id node_register node_get "\<lambda>n. Inr (Some n)"
    "\<lambda>i dir. snd (node_unregister i dir)" "Inr None"
  by unfold_locales (simp_all add: node_register_def node_get_def node_unregister_def map_of_keys)

lemma list_available_in:
  "n \<in> set (list_available dir) \<longleftrightarrow> cn_status n = ''available'' \<and> (\<exists>k. (k, Some n) \<in> set dir)"
  by (force simp: list_available_def List.map_filter_def)

lemma select_node_available: "select_node dir caps = Some n \<Longrightarrow> n \<in> set (list_available dir)"
  by (auto simp: select_node_def split: list.splits if_splits)
    (metis (no_types, lifting) filter_is_subset list.set_intros(1) set_ConsD subsetD)+

lemma select_node_capable:
  assumes "select_node dir caps = Some n" "c \<in> set (list_available dir)" "set caps \<subseteq> set (cn_capabilities c)"
  shows "set caps \<subseteq> set (cn_capabilities n)"
proof -
  let ?ok = "\<lambda>n. list_all (\<lambda>cap. cap \<in> set (cn_capabilities n)) caps"
  have "c \<in> set (filter ?ok (list_available dir))" using assms(2, 3) by (auto simp: list_all_iff)
  then obtain x xs where f: "filter ?ok (list_available dir) = x # xs" by (cases "filter ?ok (list_available dir)") auto
  then have "x \<in> set (filter ?ok (list_available dir))" by simp
  then have "?ok x" by simp
  then show ?thesis using assms(1) f by (auto simp: select_node_def list_all_iff split: list.splits if_splits)
qed

section \<open>Properties\<close>

text \<open>
  Library fact: validation leaves the two threshold variables of the aggregator as they were, whatever the proposals and whether
  or not a benchmark fails; its report compares every benchmark once, its overall improvement
  lies in [-1,1], and it recommends promotion exactly above 0.05 and rejection exactly below -0.05.
\<close>

theorem vir_validation_sound:
  "(case vir_validate m i now node bs am ps of
      (Inl e, am2) \<Rightarrow> am2 = am
    | (Inr rep, am2) \<Rightarrow> am2 = am
        \<and> vr_benchmark_count rep = length bs
        \<and> - 1 \<le> vr_overall_improvement rep \<and> vr_overall_improvement rep \<le> 1
        \<and> (vr_recommendation rep = ''promote'' \<longleftrightarrow> vr_overall_improvement rep > 5 / 100)
        \<and> (vr_recommendation rep = ''reject'' \<longleftrightarrow> vr_overall_improvement rep < - 5 / 100))"
proof -
  obtain res am2 where v: "vir_validate m i now node bs am ps = (res, am2)" by fastforce
  have th2: "am2 = am" using vir_restores [of m i now node bs am ps] v by simp
  show ?thesis
  proof (cases res)
    case (Inl e)
    then show ?thesis using v th2 by simp
  next
    case (Inr rep)
    from vir_report_fields [OF v [unfolded Inr]] show ?thesis
      using v th2 Inr overall_range [of "vr_comparisons rep"] by (auto simp: recommendation_of_def)
  qed
qed

text \<open>
  Library fact: tightening is never promoted: if no proposal sets a temperature and the threshold values
  proposed are no laxer than the current ones, the optimised benchmarks can only score lower or
  equal, so the recommendation is never \<^verbatim>\<open>promote\<close>.
\<close>

theorem tightening_batch_never_promoted:
  assumes "vir_validate m i now node bs am ps = (Inr rep, am2)" "thresholds_of am = Some th"
    and "\<forall>p \<in> set ps. tightening th p" and "1 / 2 \<le> th_quorum th"
  shows "vr_overall_improvement rep \<le> 0 \<and> vr_recommendation rep \<noteq> ''promote''"
  using tightening_not_promoted [OF assms(1,2) _ assms(4)] assms(3) vir_report_fields [OF assms(1)]
  by (auto simp: recommendation_promote)

lemma tightening_batch_never_promoted_witness:
  "\<exists>rep. fst (vir_validate (Some (\<lambda>_ _. 1)) ''v'' [] ''local'' default_benchmarks default_module
        (pb_proposals (snd sample_pipeline))) = Inr rep \<and> vr_recommendation rep \<noteq> ''promote''"
proof -
  have t: "tightening default_thresholds p" if "p \<in> set (pb_proposals (snd sample_pipeline))" for p
  proof -
    have "(op_target_name p, op_category p, op_current_value p, op_proposed_value p) \<in>
        set (map (\<lambda>p. (op_target_name p, op_category p, op_current_value p, op_proposed_value p)) (pb_proposals (snd sample_pipeline)))"
      using imageI [OF that, of "\<lambda>p. (op_target_name p, op_category p, op_current_value p, op_proposed_value p)"] by simp
    then show ?thesis unfolding sample_pipeline_proposals
      by (auto simp: tightening_def default_thresholds_def QUORUM_THRESHOLD_def SIMILARITY_THRESHOLD_def)
  qed
  from vir_total [where m = "Some (\<lambda>_ _. 1)" and i = "''v''" and now = "[]" and node = "''local''" and bs = default_benchmarks,
      OF sample_no_text default_module_thresholds]
  obtain rep am2 where v: "vir_validate (Some (\<lambda>_ _. 1)) ''v'' [] ''local'' default_benchmarks default_module
        (pb_proposals (snd sample_pipeline)) = (Inr rep, am2)"
    by (metis prod.collapse)
  from tightening_batch_never_promoted [OF v default_module_thresholds] t v show ?thesis
    by (auto simp: default_thresholds_def QUORUM_THRESHOLD_def)
qed

text \<open>
  Library fact: node selection returns only registered, available nodes, finds one whenever one is
  available, and returns a node with all the required capabilities whenever an available node
  has them.
\<close>

theorem select_node_correct:
  "(case select_node dir caps of
      None \<Rightarrow> list_available dir = []
    | Some n \<Rightarrow> cn_status n = ''available'' \<and> (\<exists>k. (k, Some n) \<in> set dir)
        \<and> \<not> (\<exists>c. c \<in> set (list_available dir) \<and> set caps \<subseteq> set (cn_capabilities c)
              \<and> \<not> set caps \<subseteq> set (cn_capabilities n)))"
proof (cases "select_node dir caps")
  case None
  then show ?thesis by (auto simp: select_node_def split: list.splits if_splits)
next
  case (Some n)
  then show ?thesis
    using select_node_available [OF Some] select_node_capable [OF Some] by (auto simp: list_available_in)
qed

end
