(* ===== verification/Injection_Guard.thy ===== *)
theory Injection_Guard
  imports Magi_Vir
begin

text \<open>
  \<^verbatim>\<open>maestro/injection_guard.py\<close>: the checks a proposal passes before it is injected, the hourly
  rate limit, and the smoke test that runs after an injection.  The environment variable, the
  clock and the embedding model are arguments.
\<close>

section \<open>Configuration and state\<close>

record GuardConfig =
  gc_auto_inject_enabled :: bool
  gc_max_injections_per_hour :: nat
  gc_injectable_categories :: "string set"
  gc_blocked_categories :: "string set"
  gc_smoke_test_prompts :: "string list"
  gc_smoke_test_min_grade :: string

definition default_guard_config :: GuardConfig where
  "default_guard_config =
     \<lparr>gc_auto_inject_enabled = False, gc_max_injections_per_hour = 5,
      gc_injectable_categories = {''threshold'', ''agent_config'', ''token_tuning'', ''storage'', ''module''},
      gc_blocked_categories = {''architecture'', ''pipeline'', ''shard_eviction''},
      gc_smoke_test_prompts = [''What is consciousness?''], gc_smoke_test_min_grade = ''acceptable''\<rparr>"

record Guard =
  gd_config :: GuardConfig
  gd_injection_timestamps :: "real list"

definition new_guard :: Guard where
  "new_guard = \<lparr>gd_config = default_guard_config, gd_injection_timestamps = []\<rparr>"

definition guard_is_enabled :: "string \<Rightarrow> Guard \<Rightarrow> bool" where
  "guard_is_enabled env guard =
     (gc_auto_inject_enabled (gd_config guard) \<or> py_lower env \<in> {''true'', ''1'', ''yes''})"

section \<open>Checks on one proposal\<close>

definition out_of_strategy :: "real \<Rightarrow> Strategy \<Rightarrow> bool" where
  "out_of_strategy proposed strategy = (proposed < st_min_val strategy \<or> proposed > st_max_val strategy)"

definition check_bounds :: "OptimizationProposal \<Rightarrow> bool" where
  "check_bounds proposal =
     (if op_change_type proposal \<noteq> ''parameter_update'' then True
      else case op_proposed_value proposal of
        VText _ \<Rightarrow> True
      | VNum proposed \<Rightarrow>
          (if list_ex (out_of_strategy proposed) (dvalues (dget threshold_strategies (op_target_name proposal) [])) then False
           else if op_target_name proposal = ''temperature''
                   \<and> list_ex (out_of_strategy proposed) (dvalues temperature_strategies) then False
           else True))"

definition is_injectable :: "Guard \<Rightarrow> OptimizationProposal \<Rightarrow> bool \<times> string" where
  "is_injectable guard proposal =
     (if op_category proposal \<in> gc_blocked_categories (gd_config guard)
      then (False, ''Category '' @ quoted (op_category proposal) @ '' is blocked from auto-injection'')
      else if op_category proposal \<notin> gc_injectable_categories (gd_config guard)
      then (False, ''Category '' @ quoted (op_category proposal) @ '' is not in the injectable whitelist'')
      else if op_status proposal \<notin> {''validated'', ''proposed''}
      then (False, ''Proposal status '' @ quoted (op_status proposal) @ '' is not injectable'')
      else if \<not> check_bounds proposal then (False, ''Proposed value is outside allowed bounds'')
      else (True, ''ok''))"

section \<open>Rate limit\<close>

definition recent_injections :: "real \<Rightarrow> real list \<Rightarrow> real list" where
  "recent_injections now ts = filter (\<lambda>t. t > now - 3600) ts"

definition check_rate_limit :: "real \<Rightarrow> Guard \<Rightarrow> bool \<times> Guard" where
  "check_rate_limit now guard =
     (let ts = recent_injections now (gd_injection_timestamps guard)
      in (length ts < gc_max_injections_per_hour (gd_config guard), guard\<lparr>gd_injection_timestamps := ts\<rparr>))"

definition record_injection :: "real \<Rightarrow> Guard \<Rightarrow> Guard" where
  "record_injection now guard = guard\<lparr>gd_injection_timestamps := gd_injection_timestamps guard @ [now]\<rparr>"

section \<open>Smoke test\<close>

definition smoke_responses :: "string \<Rightarrow> (string, string) dict" where
  "smoke_responses prompt =
     [(''SmokeAgent1'', ''[SmokeAgent1] Considering '' @ quoted prompt @ '' from multiple angles.''),
      (''SmokeAgent2'', ''[SmokeAgent2] Analyzing '' @ quoted prompt @ '' with a systems perspective.''),
      (''SmokeAgent3'', ''[SmokeAgent3] Reflecting on '' @ quoted prompt @ '' philosophically.'')]"

definition smoke_test :: "similarity \<Rightarrow> Thresholds \<Rightarrow> Guard \<Rightarrow> agg_error + bool \<times> string" where
  "smoke_test m th guard =
     (case gc_smoke_test_prompts (gd_config guard) of
        [] \<Rightarrow> Inl IndexError
      | prompt # _ \<Rightarrow>
          (let named_responses = smoke_responses prompt;
               dissent_report = dissent_analyze (semantic_distance m) prompt named_responses;
               drift_report = drift_analyze (drift_semantic_distance m) prompt (mock_generate prompt) named_responses
                 (Some (dr_internal_agreement dissent_report))
           in bind_res (aggregate_responses th (RespList (dvalues named_responses)) (Some drift_report) (Some dissent_report))
                (\<lambda>final_output.
                   let r2_score = score_session dissent_report (Some drift_report) (ag_confidence final_output);
                       min_rank = dget [(''suspicious'', 0), (''weak'', 1), (''acceptable'', 2), (''strong'', 3)]
                         (gc_smoke_test_min_grade (gd_config guard)) (2::int);
                       actual_rank = grade_rank (r2_grade r2_score)
                   in Inr (actual_rank \<ge> min_rank, r2_grade r2_score))))"

section \<open>Correctness\<close>

lemma check_rate_limit_config [simp]: "gd_config (snd (check_rate_limit now g)) = gd_config g"
  by (simp add: check_rate_limit_def Let_def)

lemma record_injection_config [simp]: "gd_config (record_injection now g) = gd_config g"
  by (simp add: record_injection_def)

lemma injectable_category:
  "fst (is_injectable g p) \<Longrightarrow> op_category p \<in> gc_injectable_categories (gd_config g) - gc_blocked_categories (gd_config g)
     \<and> op_status p \<in> {''validated'', ''proposed''} \<and> check_bounds p"
  unfolding is_injectable_def by (simp split: if_splits)

lemma check_bounds_threshold:
  assumes "check_bounds p" "op_change_type p = ''parameter_update''" "op_proposed_value p = VNum x"
    "op_target_name p = ''QUORUM_THRESHOLD''"
  shows "5 / 10 \<le> x \<and> x \<le> 9 / 10"
  using assms by (simp add: check_bounds_def threshold_strategies_def dget_def out_of_strategy_def quorum_raise_def split: if_splits)

lemma check_bounds_similarity:
  assumes "check_bounds p" "op_change_type p = ''parameter_update''" "op_proposed_value p = VNum x"
    "op_target_name p = ''SIMILARITY_THRESHOLD''"
  shows "3 / 10 \<le> x \<and> x \<le> 8 / 10"
  using assms by (simp add: check_bounds_def threshold_strategies_def dget_def out_of_strategy_def similarity_raise_def split: if_splits)

text \<open>
  The rate-limit invariant: at any time the guard remembers at most the allowed number of
  injections of the hour before, provided the clock does not run backwards.
\<close>

definition rate_ok :: "real \<Rightarrow> Guard \<Rightarrow> bool" where
  "rate_ok now g \<longleftrightarrow> length (recent_injections now (gd_injection_timestamps g)) \<le> gc_max_injections_per_hour (gd_config g)"

lemma recent_mono: "now \<le> later \<Longrightarrow> length (recent_injections later ts) \<le> length (recent_injections now ts)"
  by (induction ts) (auto simp: recent_injections_def)

lemma recent_recent: "now \<le> later \<Longrightarrow> recent_injections later (recent_injections now ts) = recent_injections later ts"
  unfolding recent_injections_def filter_filter by (rule filter_cong [OF refl]) auto

lemma rate_ok_later: "rate_ok now g \<Longrightarrow> now \<le> later \<Longrightarrow> rate_ok later g"
  unfolding rate_ok_def by (rule order_trans [OF recent_mono])

lemma rate_ok_step:
  assumes "check_rate_limit now g = (True, g')"
  shows "rate_ok now (record_injection now g')"
  using assms by (auto simp: rate_ok_def record_injection_def check_rate_limit_def Let_def recent_injections_def)

lemma rate_ok_check: "rate_ok now g \<Longrightarrow> rate_ok now (snd (check_rate_limit now g))"
  by (simp add: rate_ok_def check_rate_limit_def Let_def recent_recent)

end
