(* ===== verification/Rollback.thy ===== *)
theory Rollback
  imports Injection_Guard
begin

text \<open>
  \<^verbatim>\<open>maestro/rollback.py\<close>: the append-only log of injected changes.  A fresh id is drawn from the
  supply \<open>fresh\<close> at the position the entry takes in the log; the backup of a source file is kept
  in a dictionary from backup path to the file.
\<close>

record RollbackEntry =
  re_rollback_id :: string
  re_proposal_id :: string
  re_cycle_id :: string
  re_injection_type :: string
  re_module_name :: string
  re_target_name :: string
  re_original_value :: code_value
  re_new_value :: code_value
  re_file_path :: "string option"
  re_backup_path :: "string option"
  re_status :: string
  re_timestamp :: string
  re_rolled_back_at :: "string option"

type_synonym rollback_log = "RollbackEntry list"

type_synonym id_supply = "nat \<Rightarrow> string"

definition log_entry ::
    "id_supply \<Rightarrow> string \<Rightarrow> string \<Rightarrow> string \<Rightarrow> string \<Rightarrow> string \<Rightarrow> string \<Rightarrow> code_value \<Rightarrow> code_value \<Rightarrow> rollback_log
     \<Rightarrow> RollbackEntry" where
  "log_entry fresh now kind proposal_id cycle_id module_name target_name original_value new_value entries =
     \<lparr>re_rollback_id = fresh (length entries), re_proposal_id = proposal_id, re_cycle_id = cycle_id,
      re_injection_type = kind, re_module_name = module_name, re_target_name = target_name,
      re_original_value = original_value, re_new_value = new_value, re_file_path = None, re_backup_path = None,
      re_status = ''applied'', re_timestamp = now, re_rolled_back_at = None\<rparr>"

definition snapshot_runtime ::
    "id_supply \<Rightarrow> string \<Rightarrow> string \<Rightarrow> string \<Rightarrow> string \<Rightarrow> string \<Rightarrow> code_value \<Rightarrow> code_value \<Rightarrow> rollback_log
     \<Rightarrow> RollbackEntry \<times> rollback_log" where
  "snapshot_runtime fresh now proposal_id cycle_id module_name target_name original_value new_value entries =
     (let entry = log_entry fresh now ''runtime'' proposal_id cycle_id module_name target_name original_value new_value entries
      in (entry, entries @ [entry]))"

definition snapshot_config ::
    "id_supply \<Rightarrow> string \<Rightarrow> string \<Rightarrow> string \<Rightarrow> string \<Rightarrow> string \<Rightarrow> code_value \<Rightarrow> code_value \<Rightarrow> rollback_log
     \<Rightarrow> RollbackEntry \<times> rollback_log" where
  "snapshot_config fresh now proposal_id cycle_id module_name target_name original_value new_value entries =
     (let entry = log_entry fresh now ''config'' proposal_id cycle_id module_name target_name original_value new_value entries
      in (entry, entries @ [entry]))"

definition snapshot_source ::
    "id_supply \<Rightarrow> string \<Rightarrow> string \<Rightarrow> string \<Rightarrow> string \<Rightarrow> string \<Rightarrow> string \<Rightarrow> code_value \<Rightarrow> code_value
     \<Rightarrow> source_files \<Rightarrow> source_files \<Rightarrow> rollback_log \<Rightarrow> RollbackEntry \<times> source_files \<times> rollback_log" where
  "snapshot_source fresh now proposal_id cycle_id module_name target_name file_path original_value new_value files backups entries =
     (let rollback_id = fresh (length entries);
          backup_path = rollback_id @ ''.bak'';
          backups' = (case map_of files file_path of None \<Rightarrow> backups | Some content \<Rightarrow> dset backup_path content backups);
          entry = (log_entry fresh now ''source_patch'' proposal_id cycle_id module_name target_name original_value new_value entries)
            \<lparr>re_file_path := Some file_path, re_backup_path := Some backup_path\<rparr>
      in (entry, backups', entries @ [entry]))"

fun mark_rolled_back :: "string \<Rightarrow> string \<Rightarrow> rollback_log \<Rightarrow> bool \<times> rollback_log" where
  "mark_rolled_back now rollback_id [] = (False, [])"
| "mark_rolled_back now rollback_id (entry # es) =
     (if re_rollback_id entry = rollback_id \<and> re_status entry = ''applied''
      then (True, entry\<lparr>re_status := ''rolled_back'', re_rolled_back_at := Some now\<rparr> # es)
      else case mark_rolled_back now rollback_id es of (found, es') \<Rightarrow> (found, entry # es'))"

definition rollback_get :: "rollback_log \<Rightarrow> string \<Rightarrow> RollbackEntry option" where
  "rollback_get entries rollback_id = find (\<lambda>entry. re_rollback_id entry = rollback_id) entries"

definition get_active :: "rollback_log \<Rightarrow> RollbackEntry list" where
  "get_active entries = filter (\<lambda>e. re_status e = ''applied'') entries"

definition get_by_cycle :: "rollback_log \<Rightarrow> string \<Rightarrow> RollbackEntry list" where
  "get_by_cycle entries cycle_id = filter (\<lambda>e. re_cycle_id e = cycle_id) entries"

definition get_active_by_cycle :: "rollback_log \<Rightarrow> string \<Rightarrow> RollbackEntry list" where
  "get_active_by_cycle entries cycle_id = filter (\<lambda>e. re_cycle_id e = cycle_id \<and> re_status e = ''applied'') entries"

definition list_all_entries :: "rollback_log \<Rightarrow> nat \<Rightarrow> RollbackEntry list" where
  "list_all_entries entries limit =
     rev (if limit = 0 then entries else drop (length entries - limit) entries)"

definition count_active :: "rollback_log \<Rightarrow> nat" where
  "count_active entries = length (filter (\<lambda>e. re_status e = ''applied'') entries)"

section \<open>Undo logs\<close>

text \<open>
  What a rollback relies on: a change writes one cell and remembers what it overwrote; undoing it
  writes that back.  Undoing newest first always restores the state; undoing oldest first does so
  when no cell is written twice.
\<close>

locale undo_log =
  fixes look :: "'s \<Rightarrow> 'k \<Rightarrow> 'v option"
    and store :: "'k \<Rightarrow> 'v \<Rightarrow> 's \<Rightarrow> 's"
  assumes look_store: "look (store k v s) k' = (if k' = k then Some v else look s k')"
begin

definition redo :: "('k \<times> 'v \<times> 'v) list \<Rightarrow> 's \<Rightarrow> 's" where
  "redo es s = fold (\<lambda>(k, old, new). store k new) es s"

definition undo :: "('k \<times> 'v \<times> 'v) list \<Rightarrow> 's \<Rightarrow> 's" where
  "undo es s = fold (\<lambda>(k, old, new). store k old) es s"

fun recorded :: "('k \<times> 'v \<times> 'v) list \<Rightarrow> 's \<Rightarrow> bool" where
  "recorded [] s = True"
| "recorded ((k, old, new) # es) s = (look s k = Some old \<and> recorded es (store k new s))"

lemma undo_Cons [simp]: "undo ((k, old, new) # es) s = undo es (store k old s)"
  by (simp add: undo_def)

lemma redo_Cons [simp]: "redo ((k, old, new) # es) s = redo es (store k new s)"
  by (simp add: redo_def)

lemma undo_append [simp]: "undo (es @ fs) s = undo fs (undo es s)"
  by (simp add: undo_def)

lemma look_redo_other: "k \<notin> fst ` set es \<Longrightarrow> look (redo es s) k = look s k"
  by (induction es arbitrary: s) (auto simp: redo_def look_store split: prod.split)

lemma look_undo:
  "look (undo es s) k = (case map_of (rev (map (\<lambda>(k, old, new). (k, old)) es)) k of None \<Rightarrow> look s k | Some v \<Rightarrow> Some v)"
proof (induction es arbitrary: s)
  case (Cons e es)
  obtain k' old new where e: "e = (k', old, new)" by (cases e)
  show ?case using Cons [of "store k' old s"]
    by (auto simp: e look_store map_add_def split: option.split)
qed (simp add: undo_def)

lemma undo_newest_first:
  "recorded es s \<Longrightarrow> look (undo (rev es) (redo es s)) k = look s k"
proof (induction es arbitrary: s k)
  case (Cons e es)
  obtain k' old new where e: "e = (k', old, new)" by (cases e)
  have "recorded es (store k' new s)" using Cons.prems by (simp add: e)
  from Cons.IH [OF this] show ?case using Cons.prems by (auto simp: e undo_def look_store)
qed (simp add: undo_def redo_def)

lemma recorded_old:
  "recorded es s \<Longrightarrow> distinct (map fst es) \<Longrightarrow> (k, old, new) \<in> set es \<Longrightarrow> look s k = Some old"
proof (induction es arbitrary: s)
  case (Cons e es)
  obtain k' old' new' where e: "e = (k', old', new')" by (cases e)
  show ?case
  proof (cases "k = k'")
    case True
    then have "(k, old, new) = e" using Cons.prems by (force simp: e)
    then show ?thesis using Cons.prems(1) by (simp add: e)
  next
    case False
    then have "look (store k' new' s) k = Some old"
      using Cons.prems by (intro Cons.IH) (auto simp: e)
    then show ?thesis using False by (simp add: look_store)
  qed
qed simp

lemma undo_oldest_first:
  assumes "recorded es s" "distinct (map fst es)"
  shows "look (undo es (redo es s)) k = look s k"
proof (cases "k \<in> fst ` set es")
  case True
  then obtain old new where e: "(k, old, new) \<in> set es" by auto
  have "distinct (map fst (rev (map (\<lambda>(k, old, new). (k, old)) es)))"
    using assms(2) by (simp add: rev_map [symmetric] comp_def case_prod_beta)
  then have "map_of (rev (map (\<lambda>(k, old, new). (k, old)) es)) k = Some old"
    using e by (force simp: image_iff)
  then show ?thesis using recorded_old [OF assms e] by (simp add: look_undo)
next
  case False
  then have "map_of (rev (map (\<lambda>(k, old, new). (k, old)) es)) k = None"
    by (auto simp: map_of_eq_None_iff image_iff)
  then show ?thesis using False by (simp add: look_undo look_redo_other)
qed

lemma undo_oldest_first_twice:
  assumes "recorded [(k, old, new), (k, new, newer)] s"
  shows "look (undo [(k, old, new), (k, new, newer)] (redo [(k, old, new), (k, new, newer)] s)) k = Some new"
  by (simp add: undo_def redo_def look_store)

end

section \<open>Correctness of the log\<close>

lemma mark_rolled_back_length: "length (snd (mark_rolled_back now i entries)) = length entries"
  by (induction entries) (auto split: prod.split)

lemma mark_rolled_back_ids: "map re_rollback_id (snd (mark_rolled_back now i entries)) = map re_rollback_id entries"
  by (induction entries) (auto split: prod.split)

lemma mark_rolled_back_found:
  "fst (mark_rolled_back now i entries) \<longleftrightarrow> (\<exists>e \<in> set entries. re_rollback_id e = i \<and> re_status e = ''applied'')"
  by (induction entries) (auto split: prod.split)

lemma rollback_get_Some: "rollback_get entries i = Some e \<Longrightarrow> e \<in> set entries \<and> re_rollback_id e = i"
  by (auto simp: rollback_get_def find_Some_iff)

end
