(* ===== verification/Applicator.thy ===== *)
theory Applicator
  imports Rollback
begin

text \<open>
  \<^verbatim>\<open>maestro/applicator.py\<close>: the code injector.  The running system is one state: the variables of
  the imported modules, the package's source files with their backups, the configuration overlay
  file, the rollback log and the guard.  Executing a module anew (\<^verbatim>\<open>importlib.reload\<close>) is the
  parameter \<open>reload\<close>; an exception inside an injection leaves the changes made before it.
\<close>

section \<open>State\<close>

text \<open>The variables of the imported modules, by module and name.\<close>

type_synonym variables = "(string \<times> string, pyval) dict"

datatype config_file = NoFile | Malformed | Config "(string, pyval) dict"

record World =
  wd_importable :: "string list"
  wd_vars :: variables
  wd_files :: source_files
  wd_backups :: source_files
  wd_config :: config_file
  wd_log :: rollback_log
  wd_guard :: Guard

type_synonym reload = "string \<Rightarrow> syntax_tree \<Rightarrow> variables \<Rightarrow> variables option"

datatype inject_exc = ModuleNotFound | AttributeMissing | FileMissing | SyntaxErr | ReloadFailed | ConfigUnreadable

datatype inject_error = GuardRefused string | RateLimitExceeded | DryRun | UnknownType string | Raised inject_exc

record InjectionResult =
  ires_proposal_id :: string
  ires_applied :: bool
  ires_injection_type :: string
  ires_rollback_id :: "string option"
  ires_error :: "inject_error option"

fun py_str :: "pyval \<Rightarrow> code_value" where
  "py_str (PyFloat x) = VNum x"
| "py_str (PyInt n) = VNum (of_int n)"
| "py_str (PyBool b) = VText (if b then ''True'' else ''False'')"
| "py_str PyNone = VText ''None''"
| "py_str (PyStr s) = s"
| "py_str (PyObject t) = VText t"

fun coerce_value :: "code_value \<Rightarrow> code_value \<Rightarrow> pyval" where
  "coerce_value (VNum x) (VNum _) = PyFloat x"
| "coerce_value new_str _ = PyStr new_str"

definition classify_injection :: "OptimizationProposal \<Rightarrow> string" where
  "classify_injection proposal =
     (if op_change_type proposal = ''parameter_update'' then ''runtime''
      else if op_change_type proposal \<in> {''code_patch'', ''architecture_refactor''} then ''source_patch''
      else if op_change_type proposal = ''config_change'' then ''config''
      else if op_change_type proposal = ''prompt_rewrite'' then ''config''
      else ''runtime'')"

section \<open>Runtime injection\<close>

definition inject_runtime ::
    "id_supply \<Rightarrow> string \<Rightarrow> OptimizationProposal \<Rightarrow> string \<Rightarrow> World \<Rightarrow> (inject_exc + RollbackEntry) \<times> World" where
  "inject_runtime fresh now proposal cycle_id w =
     (if op_module_name proposal \<notin> set (wd_importable w) then (Inl ModuleNotFound, w)
      else case map_of (wd_vars w) (op_module_name proposal, op_target_name proposal) of
        None \<Rightarrow> (Inl AttributeMissing, w)
      | Some v \<Rightarrow>
          (let original = py_str v;
               new_value = coerce_value (op_proposed_value proposal) original;
               w1 = w\<lparr>wd_vars := dset (op_module_name proposal, op_target_name proposal) new_value (wd_vars w)\<rparr>;
               (entry, entries) = snapshot_runtime fresh now (op_proposal_id proposal) cycle_id (op_module_name proposal)
                 (op_target_name proposal) original (py_str new_value) (wd_log w1)
           in (Inr entry, w1\<lparr>wd_log := entries\<rparr>)))"

definition rollback_runtime :: "RollbackEntry \<Rightarrow> World \<Rightarrow> (inject_exc + unit) \<times> World" where
  "rollback_runtime entry w =
     (if re_module_name entry \<notin> set (wd_importable w) then (Inl ModuleNotFound, w)
      else (Inr (), w\<lparr>wd_vars := dset (re_module_name entry, re_target_name entry)
              (coerce_value (re_original_value entry) (re_new_value entry)) (wd_vars w)\<rparr>))"

section \<open>Source injection\<close>

text \<open>
  The first assignment to the name in breadth-first order is the leftmost one at the least depth.
\<close>

fun assigns :: "string \<Rightarrow> code_value \<Rightarrow> syntax_tree \<Rightarrow> syntax_tree option" where
  "assigns name value (Tree (KAssign line targets v) cs) =
     (if name \<in> set targets then Some (Tree (KAssign line targets value) [Tree KOther []]) else None)"
| "assigns name value _ = None"

fun replace_here :: "(syntax_tree \<Rightarrow> syntax_tree option) \<Rightarrow> syntax_tree list \<Rightarrow> syntax_tree list option" where
  "replace_here f [] = None"
| "replace_here f (t # ts) = (case f t of Some t' \<Rightarrow> Some (t' # ts) | None \<Rightarrow> map_option (Cons t) (replace_here f ts))"

fun replace_at :: "nat \<Rightarrow> (syntax_tree \<Rightarrow> syntax_tree option) \<Rightarrow> syntax_tree list \<Rightarrow> syntax_tree list option" where
  "replace_at 0 f ts = replace_here f ts"
| "replace_at (Suc d) f ts =
     replace_here (\<lambda>t. map_option (Tree (tree_kind t)) (replace_at d f (tree_children t))) ts"

definition ast_replace_value :: "syntax_tree \<Rightarrow> string \<Rightarrow> code_value \<Rightarrow> syntax_tree" where
  "ast_replace_value tree name value =
     (case first_some (\<lambda>d. replace_at d (assigns name value) [tree]) [0..<tree_weight tree] of
        Some (tree' # _) \<Rightarrow> tree'
      | _ \<Rightarrow> tree)"

definition resolve_file :: "source_files \<Rightarrow> string \<Rightarrow> string" where
  "resolve_file files rel_path =
     (if rel_path \<in> set (dkeys files) then rel_path
      else if ''maestro/'' @ rel_path \<in> set (dkeys files) then ''maestro/'' @ rel_path
      else rel_path)"

definition reload_module :: "reload \<Rightarrow> string \<Rightarrow> syntax_tree option \<Rightarrow> World \<Rightarrow> (inject_exc + unit) \<times> World" where
  "reload_module reload name source w =
     (if name \<notin> set (wd_importable w) then (Inl ModuleNotFound, w)
      else case source of
        None \<Rightarrow> (Inl ReloadFailed, w)
      | Some tree \<Rightarrow>
          (case reload name tree (wd_vars w) of
             None \<Rightarrow> (Inl ReloadFailed, w)
           | Some vars \<Rightarrow> (Inr (), w\<lparr>wd_vars := vars\<rparr>)))"

definition inject_source ::
    "reload \<Rightarrow> id_supply \<Rightarrow> string \<Rightarrow> OptimizationProposal \<Rightarrow> string \<Rightarrow> World \<Rightarrow> (inject_exc + RollbackEntry) \<times> World" where
  "inject_source reload fresh now proposal cycle_id w =
     (let file_path = resolve_file (wd_files w) (op_file_path proposal) in
      case map_of (wd_files w) file_path of
        None \<Rightarrow> (Inl FileMissing, w)
      | Some None \<Rightarrow> (Inl SyntaxErr, w)
      | Some (Some tree) \<Rightarrow>
          (let new_source = ast_replace_value tree (op_target_name proposal) (op_proposed_value proposal);
               (entry, backups, entries) = snapshot_source fresh now (op_proposal_id proposal) cycle_id
                 (op_module_name proposal) (op_target_name proposal) file_path (op_current_value proposal)
                 (op_proposed_value proposal) (wd_files w) (wd_backups w) (wd_log w);
               w1 = w\<lparr>wd_backups := backups, wd_log := entries, wd_files := dset file_path (Some new_source) (wd_files w)\<rparr>
           in case reload_module reload (op_module_name proposal) (Some new_source) w1 of
                (Inl e, w2) \<Rightarrow> (Inl e, w2)
              | (Inr _, w2) \<Rightarrow> (Inr entry, w2)))"

definition rollback_source :: "reload \<Rightarrow> RollbackEntry \<Rightarrow> World \<Rightarrow> (inject_exc + unit) \<times> World" where
  "rollback_source reload entry w =
     (case map_of (wd_backups w) (the (re_backup_path entry)) of
        None \<Rightarrow> (Inr (), w)
      | Some content \<Rightarrow>
          reload_module reload (re_module_name entry) content
            (w\<lparr>wd_files := dset (the (re_file_path entry)) content (wd_files w)\<rparr>))"

section \<open>Configuration overlay\<close>

definition inject_config ::
    "id_supply \<Rightarrow> string \<Rightarrow> OptimizationProposal \<Rightarrow> string \<Rightarrow> World \<Rightarrow> (inject_exc + RollbackEntry) \<times> World" where
  "inject_config fresh now proposal cycle_id w =
     (let config = (case wd_config w of Config c \<Rightarrow> c | _ \<Rightarrow> []);
          original = (case map_of config (op_target_name proposal) of None \<Rightarrow> VText [] | Some v \<Rightarrow> py_str v);
          w1 = w\<lparr>wd_config := Config (dset (op_target_name proposal) (PyStr (op_proposed_value proposal)) config)\<rparr>;
          (entry, entries) = snapshot_config fresh now (op_proposal_id proposal) cycle_id (op_module_name proposal)
            (op_target_name proposal) original (op_proposed_value proposal) (wd_log w1)
      in (Inr entry, w1\<lparr>wd_log := entries\<rparr>))"

definition rollback_config :: "RollbackEntry \<Rightarrow> World \<Rightarrow> (inject_exc + unit) \<times> World" where
  "rollback_config entry w =
     (case wd_config w of
        NoFile \<Rightarrow> (Inr (), w)
      | Malformed \<Rightarrow> (Inl ConfigUnreadable, w)
      | Config config \<Rightarrow>
          (Inr (), w\<lparr>wd_config := Config
             (if re_original_value entry \<noteq> VText []
              then dset (re_target_name entry) (PyStr (re_original_value entry)) config
              else ddel (re_target_name entry) config)\<rparr>))"

section \<open>The injector\<close>

definition refused :: "OptimizationProposal \<Rightarrow> string \<Rightarrow> inject_error \<Rightarrow> InjectionResult" where
  "refused proposal kind err =
     \<lparr>ires_proposal_id = op_proposal_id proposal, ires_applied = False, ires_injection_type = kind,
      ires_rollback_id = None, ires_error = Some err\<rparr>"

definition dispatch ::
    "reload \<Rightarrow> id_supply \<Rightarrow> string \<Rightarrow> OptimizationProposal \<Rightarrow> string \<Rightarrow> World \<Rightarrow> (inject_exc + RollbackEntry) \<times> World" where
  "dispatch reload fresh ts proposal cycle_id w =
     (if classify_injection proposal = ''runtime'' then inject_runtime fresh ts proposal cycle_id w
      else if classify_injection proposal = ''source_patch'' then inject_source reload fresh ts proposal cycle_id w
      else inject_config fresh ts proposal cycle_id w)"

definition inject ::
    "reload \<Rightarrow> id_supply \<Rightarrow> real \<Rightarrow> string \<Rightarrow> OptimizationProposal \<Rightarrow> string \<Rightarrow> bool \<Rightarrow> World
     \<Rightarrow> InjectionResult \<times> OptimizationProposal \<times> World" where
  "inject reload fresh now ts proposal cycle_id dry_run w =
     (case is_injectable (wd_guard w) proposal of
        (False, reason) \<Rightarrow> (refused proposal ''skipped'' (GuardRefused reason), proposal, w)
      | (True, _) \<Rightarrow>
          (case check_rate_limit now (wd_guard w) of
             (False, g) \<Rightarrow> (refused proposal ''skipped'' RateLimitExceeded, proposal, w\<lparr>wd_guard := g\<rparr>)
           | (True, g) \<Rightarrow>
               (if dry_run
                then (refused proposal (classify_injection proposal) DryRun, proposal, w\<lparr>wd_guard := g\<rparr>)
                else case dispatch reload fresh ts proposal cycle_id (w\<lparr>wd_guard := g\<rparr>) of
                  (Inl exc, w1) \<Rightarrow> (refused proposal (classify_injection proposal) (Raised exc), proposal, w1)
                | (Inr entry, w1) \<Rightarrow>
                    (\<lparr>ires_proposal_id = op_proposal_id proposal, ires_applied = True,
                      ires_injection_type = classify_injection proposal,
                      ires_rollback_id = Some (re_rollback_id entry), ires_error = None\<rparr>,
                     proposal\<lparr>op_status := ''promoted''\<rparr>,
                     w1\<lparr>wd_guard := record_injection now (wd_guard w1)\<rparr>))))"

text \<open>A batch: each proposal comes with the time at which it is processed.\<close>

fun inject_batch ::
    "reload \<Rightarrow> id_supply \<Rightarrow> string \<Rightarrow> (real \<times> OptimizationProposal) list \<Rightarrow> string \<Rightarrow> bool \<Rightarrow> World
     \<Rightarrow> InjectionResult list \<times> World" where
  "inject_batch reload fresh ts [] cycle_id dry_run w = ([], w)"
| "inject_batch reload fresh ts ((now, p) # ps) cycle_id dry_run w =
     (case inject reload fresh now ts p cycle_id dry_run w of
        (r, _, w1) \<Rightarrow>
          (case inject_batch reload fresh ts ps cycle_id dry_run w1 of (rs, w2) \<Rightarrow> (r # rs, w2)))"

definition undo_entry :: "reload \<Rightarrow> RollbackEntry \<Rightarrow> World \<Rightarrow> (inject_exc + unit) \<times> World" where
  "undo_entry reload entry w =
     (if re_injection_type entry = ''runtime'' then rollback_runtime entry w
      else if re_injection_type entry = ''source_patch'' then rollback_source reload entry w
      else if re_injection_type entry = ''config'' then rollback_config entry w
      else (Inr (), w))"

definition rollback :: "reload \<Rightarrow> string \<Rightarrow> string \<Rightarrow> World \<Rightarrow> bool \<times> World" where
  "rollback reload now rollback_id w =
     (case rollback_get (wd_log w) rollback_id of
        None \<Rightarrow> (False, w)
      | Some entry \<Rightarrow>
          (if re_status entry \<noteq> ''applied'' then (False, w)
           else case undo_entry reload entry w of
             (Inl _, w1) \<Rightarrow> (False, w1)
           | (Inr _, w1) \<Rightarrow> (True, w1\<lparr>wd_log := snd (mark_rolled_back now rollback_id (wd_log w1))\<rparr>)))"

fun rollback_all :: "reload \<Rightarrow> string \<Rightarrow> string list \<Rightarrow> World \<Rightarrow> (string \<times> bool) list \<times> World" where
  "rollback_all reload now [] w = ([], w)"
| "rollback_all reload now (i # is) w =
     (case rollback reload now i w of
        (success, w1) \<Rightarrow> (case rollback_all reload now is w1 of (rs, w2) \<Rightarrow> ((i, success) # rs, w2)))"

definition rollback_cycle :: "reload \<Rightarrow> string \<Rightarrow> string \<Rightarrow> World \<Rightarrow> (string \<times> bool) list \<times> World" where
  "rollback_cycle reload now cycle_id w =
     rollback_all reload now (map re_rollback_id (get_active_by_cycle (wd_log w) cycle_id)) w"

section \<open>Correctness\<close>

interpretation rv: undo_log map_of AList.update
  by unfold_locales simp

lemma guard_refuses:
  "\<not> ires_applied (fst (inject reload fresh now ts p c True w))"
  by (auto simp: inject_def refused_def split: prod.splits bool.splits)

definition same_system :: "World \<Rightarrow> World \<Rightarrow> bool" where
  "same_system w w' \<longleftrightarrow> wd_importable w' = wd_importable w \<and> wd_vars w' = wd_vars w \<and> wd_files w' = wd_files w
     \<and> wd_backups w' = wd_backups w \<and> wd_config w' = wd_config w \<and> wd_log w' = wd_log w
     \<and> gd_config (wd_guard w') = gd_config (wd_guard w)"

lemma check_rate_limit_gd: "check_rate_limit now g = (b, g') \<Longrightarrow> gd_config g' = gd_config g"
  by (auto simp: check_rate_limit_def Let_def)

lemma inject_not_dispatched:
  assumes "inject reload fresh now ts p c dry w = (r, p', w')" "\<not> ires_applied r" "\<And>e. ires_error r \<noteq> Some (Raised e)"
  shows "same_system w w' \<and> p' = p"
proof -
  obtain okay reason where i: "is_injectable (wd_guard w) p = (okay, reason)" by fastforce
  obtain allowed g where g: "check_rate_limit now (wd_guard w) = (allowed, g)" by fastforce
  obtain res w1 where d: "dispatch reload fresh ts p c (w\<lparr>wd_guard := g\<rparr>) = (res, w1)" by fastforce
  note gd = check_rate_limit_gd [OF g]
  consider "\<not> okay" | "okay" "\<not> allowed" | "okay" "allowed" "dry" | "okay" "allowed" "\<not> dry" by blast
  then show ?thesis
  proof cases
    case 4
    show ?thesis
    proof (cases res)
      case (Inl x)
      then have "r = refused p (classify_injection p) (Raised x)" using assms(1) 4 i g d by (auto simp: inject_def)
      then show ?thesis using assms(3) [of x] by (simp add: refused_def)
    next
      case (Inr e)
      then have "ires_applied r" using assms(1) 4 i g d by (auto simp: inject_def)
      then show ?thesis using assms(2) by simp
    qed
  qed (use assms i g gd in \<open>auto simp: inject_def same_system_def\<close>)
qed

lemma inject_applied:
  assumes "inject reload fresh now ts p c dry w = (r, p', w')" "ires_applied r"
  shows "fst (is_injectable (wd_guard w) p) \<and> \<not> dry \<and> op_status p' = ''promoted''
    \<and> (\<exists>g e w1. check_rate_limit now (wd_guard w) = (True, g) \<and> dispatch reload fresh ts p c (w\<lparr>wd_guard := g\<rparr>) = (Inr e, w1)
         \<and> w' = w1\<lparr>wd_guard := record_injection now (wd_guard w1)\<rparr> \<and> ires_rollback_id r = Some (re_rollback_id e))"
  using assms by (auto simp: inject_def refused_def split: prod.splits bool.splits if_splits sum.splits)

lemma inject_runtime_guard: "wd_guard (snd (inject_runtime fresh ts p c w)) = wd_guard w"
  by (auto simp: inject_runtime_def snapshot_runtime_def Let_def split: option.split)

lemma reload_guard: "wd_guard (snd (reload_module reload n src w)) = wd_guard w"
  by (simp add: reload_module_def split: option.split)

lemma snd_case_result: "snd (case r of (Inl e, w) \<Rightarrow> (Inl e, w) | (Inr u, w) \<Rightarrow> (Inr x, w)) = snd r"
  by (cases r; cases "fst r") auto

lemma inject_source_guard: "wd_guard (snd (inject_source reload fresh ts p c w)) = wd_guard w"
  by (simp add: inject_source_def snapshot_source_def Let_def snd_case_result reload_guard split: option.split)

lemma inject_config_guard: "wd_guard (snd (inject_config fresh ts p c w)) = wd_guard w"
  by (simp add: inject_config_def snapshot_config_def Let_def)

lemma dispatch_guard: "wd_guard (snd (dispatch reload fresh ts p c w)) = wd_guard w"
  by (simp add: dispatch_def inject_runtime_guard inject_source_guard inject_config_guard)

lemma inject_rate_ok:
  assumes "rate_ok now (wd_guard w)"
  shows "rate_ok now (wd_guard (snd (snd (inject reload fresh now ts p c dry w))))"
proof -
  obtain ok reason where i: "is_injectable (wd_guard w) p = (ok, reason)" by fastforce
  obtain allowed g where g: "check_rate_limit now (wd_guard w) = (allowed, g)" by fastforce
  have gok: "rate_ok now g" using rate_ok_check [OF assms] g by simp
  obtain res w1 where d: "dispatch reload fresh ts p c (w\<lparr>wd_guard := g\<rparr>) = (res, w1)" by fastforce
  have w1: "wd_guard w1 = g" using dispatch_guard [of reload fresh ts p c "w\<lparr>wd_guard := g\<rparr>"] d by simp
  have step: "allowed \<Longrightarrow> rate_ok now (record_injection now g)" using rate_ok_step g by simp
  consider "\<not> ok" | "ok" "\<not> allowed" | "ok" "allowed" "dry" | "ok" "allowed" "\<not> dry" by blast
  then show ?thesis
  proof cases
    case 4
    then show ?thesis using i g d w1 gok step by (cases res) (simp_all add: inject_def)
  qed (use i g gok assms in \<open>simp_all add: inject_def\<close>)
qed

text \<open>The runtime part of a batch as a redo log.\<close>

definition change_of :: "RollbackEntry \<Rightarrow> (string \<times> string) \<times> pyval \<times> pyval" where
  "change_of e = ((re_module_name e, re_target_name e),
     coerce_value (re_original_value e) (re_new_value e), coerce_value (re_new_value e) (re_original_value e))"

definition runtime_entry :: "string list \<Rightarrow> string \<Rightarrow> RollbackEntry \<Rightarrow> bool" where
  "runtime_entry importable c e \<longleftrightarrow> re_injection_type e = ''runtime'' \<and> re_cycle_id e = c \<and> re_status e = ''applied''
     \<and> re_module_name e \<in> set importable"

definition float_vars :: "World \<Rightarrow> bool" where
  "float_vars w \<longleftrightarrow> (\<forall>k v. map_of (wd_vars w) k = Some v \<longrightarrow> (\<exists>x. v = PyFloat x))"

definition numeric_update :: "OptimizationProposal \<Rightarrow> bool" where
  "numeric_update p \<longleftrightarrow> op_change_type p = ''parameter_update'' \<and> (\<exists>y. op_proposed_value p = VNum y)"

definition batch_logged :: "string \<Rightarrow> World \<Rightarrow> World \<Rightarrow> RollbackEntry list \<Rightarrow> bool" where
  "batch_logged c w w' es \<longleftrightarrow> wd_log w' = wd_log w @ es \<and> wd_importable w' = wd_importable w
     \<and> (\<forall>e \<in> set es. runtime_entry (wd_importable w) c e) \<and> rv.recorded (map change_of es) (wd_vars w)
     \<and> wd_vars w' = rv.redo (map change_of es) (wd_vars w) \<and> float_vars w'"

lemma inject_runtime_logged:
  assumes "numeric_update p" "float_vars w" "inject_runtime fresh ts p c w = (Inr e, w')"
  shows "batch_logged c w w' [e] \<and> (re_module_name e, re_target_name e) = (op_module_name p, op_target_name p)
    \<and> re_rollback_id e = fresh (length (wd_log w)) \<and> wd_guard w' = wd_guard w
    \<and> snd (snd (change_of e)) = coerce_value (op_proposed_value p) (VNum 0)"
proof -
  obtain y where y: "op_proposed_value p = VNum y" using assms(1) by (auto simp: numeric_update_def)
  obtain v where v: "map_of (wd_vars w) (op_module_name p, op_target_name p) = Some v"
    and imp: "op_module_name p \<in> set (wd_importable w)"
    using assms(3) by (auto simp: inject_runtime_def split: if_splits option.splits)
  obtain x where x: "v = PyFloat x" using assms(2) v unfolding float_vars_def by blast
  have e: "e = log_entry fresh ts ''runtime'' (op_proposal_id p) c (op_module_name p) (op_target_name p) (VNum x) (VNum y) (wd_log w)"
    and w': "w' = w\<lparr>wd_vars := dset (op_module_name p, op_target_name p) (PyFloat y) (wd_vars w), wd_log := wd_log w @ [e]\<rparr>"
    using assms(3) v imp x y by (auto simp: inject_runtime_def snapshot_runtime_def Let_def)
  show ?thesis
    using assms(2) v imp x y unfolding w' e
    by (simp add: batch_logged_def runtime_entry_def change_of_def log_entry_def rv.redo_def float_vars_def)
qed

lemma recorded_append: "rv.recorded (xs @ ys) s \<longleftrightarrow> rv.recorded xs s \<and> rv.recorded ys (rv.redo xs s)"
proof (induction xs arbitrary: s)
  case (Cons x xs)
  then show ?case by (cases x) simp
qed (simp add: rv.redo_def)

lemma redo_append: "rv.redo (xs @ ys) s = rv.redo ys (rv.redo xs s)"
  by (simp add: rv.redo_def)

lemma batch_logged_trans:
  assumes "batch_logged c w w1 es" "batch_logged c w1 w2 fs"
  shows "batch_logged c w w2 (es @ fs)"
  using assms unfolding batch_logged_def map_append recorded_append redo_append by auto

lemma batch_logged_guard:
  "batch_logged c (w\<lparr>wd_guard := g\<rparr>) w' es \<Longrightarrow> batch_logged c w (w'\<lparr>wd_guard := h\<rparr>) es"
  by (auto simp: batch_logged_def float_vars_def)

lemma batch_logged_refl: "float_vars w \<Longrightarrow> batch_logged c w (w\<lparr>wd_guard := g\<rparr>) []"
  by (simp add: batch_logged_def float_vars_def rv.redo_def)

lemma dispatch_runtime: "numeric_update p \<Longrightarrow> dispatch reload fresh ts p c w = inject_runtime fresh ts p c w"
  by (simp add: dispatch_def classify_injection_def numeric_update_def)

lemma inject_runtime_error: "inject_runtime fresh ts p c w = (Inl x, w') \<Longrightarrow> w' = w"
  by (auto simp: inject_runtime_def Let_def snapshot_runtime_def split: if_splits option.splits)

lemma inject_logged:
  assumes "numeric_update p" "float_vars w" "inject reload fresh now ts p c dry w = (r, p', w')"
  shows "\<exists>es. batch_logged c w w' es
    \<and> set (map fst (map change_of es)) \<subseteq> {(op_module_name p, op_target_name p)}
    \<and> length es \<le> 1 \<and> map re_rollback_id es = map fresh [length (wd_log w)..<length (wd_log w')]"
proof (cases "ires_applied r")
  case True
  from inject_applied [OF assms(3) this] obtain g e w1 where g: "check_rate_limit now (wd_guard w) = (True, g)"
    and d: "inject_runtime fresh ts p c (w\<lparr>wd_guard := g\<rparr>) = (Inr e, w1)"
    and w': "w' = w1\<lparr>wd_guard := record_injection now (wd_guard w1)\<rparr>"
    by (auto simp: dispatch_runtime [OF assms(1)])
  have fv: "float_vars (w\<lparr>wd_guard := g\<rparr>)" using assms(2) by (simp add: float_vars_def)
  from inject_runtime_logged [OF assms(1) fv d]
  have bl: "batch_logged c (w\<lparr>wd_guard := g\<rparr>) w1 [e]"
    and k: "(re_module_name e, re_target_name e) = (op_module_name p, op_target_name p)"
    and i: "re_rollback_id e = fresh (length (wd_log w))" by auto
  have "wd_log w1 = wd_log w @ [e]" using bl by (simp add: batch_logged_def)
  then show ?thesis
    using batch_logged_guard [OF bl, of "record_injection now (wd_guard w1)"] k i w'
    by (intro exI [of _ "[e]"]) (simp add: change_of_def)
next
  case False
  have "\<exists>g. w' = w\<lparr>wd_guard := g\<rparr>"
    using assms(3) False inject_runtime_error [of fresh ts p c "w\<lparr>wd_guard := snd (check_rate_limit now (wd_guard w))\<rparr>"]
    by (auto simp: inject_def refused_def dispatch_runtime [OF assms(1)] intro: exI [of _ "wd_guard w"]
        split: prod.splits bool.splits if_splits sum.splits)
  then show ?thesis using batch_logged_refl [OF assms(2)] by (intro exI [of _ "[]"]) auto
qed

lemma inject_applied_logged:
  assumes "numeric_update p" "float_vars w" "inject reload fresh now ts p c dry w = (r, p', w')" "ires_applied r"
  shows "\<exists>e. batch_logged c w w' [e] \<and> re_rollback_id e = fresh (length (wd_log w))
    \<and> change_of e = ((op_module_name p, op_target_name p), fst (snd (change_of e)), coerce_value (op_proposed_value p) (VNum 0))"
proof -
  from inject_applied [OF assms(3,4)] obtain g e w1 where g: "check_rate_limit now (wd_guard w) = (True, g)"
    and d: "inject_runtime fresh ts p c (w\<lparr>wd_guard := g\<rparr>) = (Inr e, w1)"
    and w': "w' = w1\<lparr>wd_guard := record_injection now (wd_guard w1)\<rparr>"
    by (auto simp: dispatch_runtime [OF assms(1)])
  have fv: "float_vars (w\<lparr>wd_guard := g\<rparr>)" using assms(2) by (simp add: float_vars_def)
  from inject_runtime_logged [OF assms(1) fv d]
  have e: "batch_logged c (w\<lparr>wd_guard := g\<rparr>) w1 [e]" "re_rollback_id e = fresh (length (wd_log w))"
    "change_of e = ((op_module_name p, op_target_name p), fst (snd (change_of e)), coerce_value (op_proposed_value p) (VNum 0))"
    by (simp_all add: change_of_def)
  from batch_logged_guard [OF e(1)] e(2,3) show ?thesis unfolding w' by blast
qed

lemma upt_join: "i \<le> j \<Longrightarrow> j \<le> k \<Longrightarrow> [i..<j] @ [j..<k] = [i..<k]"
  by (metis le_add_diff_inverse upt_add_eq_append)

lemma inject_batch_logged:
  assumes "\<And>q. q \<in> set ps \<Longrightarrow> numeric_update (snd q)" "float_vars w"
    "inject_batch reload fresh ts ps c dry w = (rs, w')"
    "distinct (map (\<lambda>q. (op_module_name (snd q), op_target_name (snd q))) ps)"
  shows "\<exists>es. batch_logged c w w' es \<and> distinct (map fst (map change_of es))
    \<and> set (map fst (map change_of es)) \<subseteq> (\<lambda>q. (op_module_name (snd q), op_target_name (snd q))) ` set ps
    \<and> map re_rollback_id es = map fresh [length (wd_log w)..<length (wd_log w')]"
  using assms
proof (induction ps arbitrary: w rs)
  case Nil
  then show ?case using batch_logged_refl [of w c "wd_guard w"] by (intro exI [of _ "[]"]) simp
next
  case (Cons q ps)
  obtain now p where q: "q = (now, p)" by fastforce
  obtain r p' w1 where i: "inject reload fresh now ts p c dry w = (r, p', w1)" by (metis prod_cases3)
  obtain rs' where b: "inject_batch reload fresh ts ps c dry w1 = (rs', w')"
    using Cons.prems(3) q i by (auto split: prod.splits)
  from inject_logged [OF _ Cons.prems(2) i] Cons.prems(1) [of q] q obtain es where
    es: "batch_logged c w w1 es" "set (map fst (map change_of es)) \<subseteq> {(op_module_name p, op_target_name p)}"
      "length es \<le> 1" "map re_rollback_id es = map fresh [length (wd_log w)..<length (wd_log w1)]" by auto
  have "float_vars w1" using es(1) by (simp add: batch_logged_def)
  from Cons.IH [OF _ this b] Cons.prems(1, 4) obtain fs where
    fs: "batch_logged c w1 w' fs" "distinct (map fst (map change_of fs))"
      "set (map fst (map change_of fs)) \<subseteq> (\<lambda>q. (op_module_name (snd q), op_target_name (snd q))) ` set ps"
      "map re_rollback_id fs = map fresh [length (wd_log w1)..<length (wd_log w')]" by auto
  have new: "(op_module_name p, op_target_name p) \<notin> (\<lambda>q. (op_module_name (snd q), op_target_name (snd q))) ` set ps"
    using Cons.prems(4) q by auto
  have "distinct (map fst (map change_of es))" using es(3) by (cases es) auto
  moreover have "set (map fst (map change_of es)) \<inter> set (map fst (map change_of fs)) = {}"
    using es(2) fs(3) new by blast
  ultimately have dist: "distinct (map fst (map change_of (es @ fs)))"
    using fs(2) by (simp only: map_append distinct_append)
  have "length (wd_log w) \<le> length (wd_log w1)" "length (wd_log w1) \<le> length (wd_log w')"
    using es(1) fs(1) by (auto simp: batch_logged_def)
  from upt_join [OF this] have ids: "map re_rollback_id (es @ fs) = map fresh [length (wd_log w)..<length (wd_log w')]"
    using es(4) fs(4) by (metis map_append)
  show ?case
    using batch_logged_trans [OF es(1) fs(1)] es(2) fs(3) ids dist q
    by (intro exI [of _ "es @ fs"]) auto
qed

text \<open>Undoing runtime entries one after the other.\<close>

lemma mark_other:
  "e \<in> set entries \<Longrightarrow> re_rollback_id e \<noteq> i \<Longrightarrow> e \<in> set (snd (mark_rolled_back now i entries))"
  by (induction entries) (auto split: prod.split)

lemma rollback_get_unique:
  "distinct (map re_rollback_id entries) \<Longrightarrow> e \<in> set entries \<Longrightarrow> rollback_get entries (re_rollback_id e) = Some e"
proof (induction entries)
  case (Cons a entries)
  then show ?case by (cases "a = e") (auto simp: rollback_get_def image_iff)
qed simp

lemma rollback_runtime_step:
  assumes "distinct (map re_rollback_id (wd_log w))" "e \<in> set (wd_log w)" "runtime_entry (wd_importable w) c e"
  shows "rollback reload now (re_rollback_id e) w =
    (True, w\<lparr>wd_vars := dset (re_module_name e, re_target_name e) (fst (snd (change_of e))) (wd_vars w),
             wd_log := snd (mark_rolled_back now (re_rollback_id e) (wd_log w))\<rparr>)"
  using assms rollback_get_unique [OF assms(1, 2)]
  by (simp add: rollback_def undo_entry_def rollback_runtime_def runtime_entry_def change_of_def)

lemma rollback_all_runtime:
  assumes "distinct (map re_rollback_id (wd_log w))" "set es \<subseteq> set (wd_log w)" "distinct (map re_rollback_id es)"
    "\<And>e. e \<in> set es \<Longrightarrow> runtime_entry (wd_importable w) c e"
  shows "wd_vars (snd (rollback_all reload now (map re_rollback_id es) w)) = rv.undo (map change_of es) (wd_vars w)
    \<and> map snd (fst (rollback_all reload now (map re_rollback_id es) w)) = replicate (length es) True"
  using assms
proof (induction es arbitrary: w)
  case (Cons e es)
  define w1 where "w1 = w\<lparr>wd_vars := dset (re_module_name e, re_target_name e) (fst (snd (change_of e))) (wd_vars w),
             wd_log := snd (mark_rolled_back now (re_rollback_id e) (wd_log w))\<rparr>"
  have st: "rollback reload now (re_rollback_id e) w = (True, w1)"
    unfolding w1_def using Cons.prems by (intro rollback_runtime_step) auto
  have "set es \<subseteq> set (wd_log w1)"
  proof
    fix x assume x: "x \<in> set es"
    then have "re_rollback_id x \<noteq> re_rollback_id e" using Cons.prems(3) by (metis distinct.simps(2) imageI list.simps(9) set_map)
    then show "x \<in> set (wd_log w1)" using x Cons.prems(2) by (auto simp: w1_def intro: mark_other)
  qed
  moreover have "distinct (map re_rollback_id (wd_log w1))"
    using Cons.prems(1) by (simp add: w1_def mark_rolled_back_ids)
  moreover have "wd_importable w1 = wd_importable w" by (simp add: w1_def)
  ultimately have IH: "wd_vars (snd (rollback_all reload now (map re_rollback_id es) w1)) = rv.undo (map change_of es) (wd_vars w1)
    \<and> map snd (fst (rollback_all reload now (map re_rollback_id es) w1)) = replicate (length es) True"
    using Cons.prems by (intro Cons.IH) auto
  have v: "wd_vars w1 = dset (re_module_name e, re_target_name e) (fst (snd (change_of e))) (wd_vars w)" by (simp add: w1_def)
  obtain rs w2 where r: "rollback_all reload now (map re_rollback_id es) w1 = (rs, w2)" by fastforce
  have c: "map change_of (e # es) = ((re_module_name e, re_target_name e), snd (change_of e)) # map change_of es"
    by (simp add: change_of_def)
  show ?case
    unfolding c using IH v st r by (cases "snd (change_of e)") (simp add: rv.undo_def)
qed (simp add: rv.undo_def)

lemma rollback_cycle_new:
  assumes "wd_log w = old @ es" "map re_rollback_id (wd_log w) = map fresh [0..<length (wd_log w)]" "inj fresh"
    "\<And>e. e \<in> set old \<Longrightarrow> re_cycle_id e \<noteq> c \<or> re_status e \<noteq> ''applied''"
    "\<And>e. e \<in> set es \<Longrightarrow> runtime_entry (wd_importable w) c e"
  shows "wd_vars (snd (rollback_cycle reload now c w)) = rv.undo (map change_of es) (wd_vars w)
    \<and> map snd (fst (rollback_cycle reload now c w)) = replicate (length es) True"
proof -
  have d: "distinct (map re_rollback_id (wd_log w))"
    unfolding assms(2) by (simp add: distinct_map inj_on_subset [OF assms(3)])
  have "filter (\<lambda>e. re_cycle_id e = c \<and> re_status e = ''applied'') old = []"
    using assms(4) by (auto simp: filter_empty_conv)
  moreover have "filter (\<lambda>e. re_cycle_id e = c \<and> re_status e = ''applied'') es = es"
    using assms(5) by (auto simp: filter_id_conv runtime_entry_def)
  ultimately have act: "get_active_by_cycle (wd_log w) c = es"
    by (simp add: get_active_by_cycle_def assms(1))
  show ?thesis
    unfolding rollback_cycle_def act
    by (rule rollback_all_runtime [OF d]) (use assms(1,5) d in auto)
qed

lemma all_replicate: "map snd us = replicate n True \<Longrightarrow> list_all snd us"
  by (induction us arbitrary: n) (auto simp: Cons_replicate_eq)

lemma inject_recent:
  assumes "inject reload fresh now ts p c dry w = (r, p', w')" "until - 3600 < now" "now \<le> until"
  shows "length (recent_injections until (gd_injection_timestamps (wd_guard w')))
      = length (recent_injections until (gd_injection_timestamps (wd_guard w))) + (if ires_applied r then 1 else 0)
    \<and> gd_config (wd_guard w') = gd_config (wd_guard w)
    \<and> (ires_applied r \<longrightarrow> length (recent_injections until (gd_injection_timestamps (wd_guard w)))
          < gc_max_injections_per_hour (gd_config (wd_guard w)))"
proof -
  obtain ok reason where i: "is_injectable (wd_guard w) p = (ok, reason)" by fastforce
  obtain allowed g where g: "check_rate_limit now (wd_guard w) = (allowed, g)" by fastforce
  have gt: "gd_injection_timestamps g = recent_injections now (gd_injection_timestamps (wd_guard w))"
    and al: "allowed \<longleftrightarrow> length (gd_injection_timestamps g) < gc_max_injections_per_hour (gd_config (wd_guard w))"
    and gc: "gd_config g = gd_config (wd_guard w)"
    using g by (auto simp: check_rate_limit_def Let_def)
  have rr: "recent_injections until (gd_injection_timestamps g) = recent_injections until (gd_injection_timestamps (wd_guard w))"
    by (simp add: gt recent_recent assms(3))
  have step: "recent_injections until (gd_injection_timestamps (record_injection now g))
      = recent_injections until (gd_injection_timestamps g) @ [now]"
    using assms(2,3) by (simp add: record_injection_def recent_injections_def)
  have le: "length (recent_injections until (gd_injection_timestamps g)) \<le> length (gd_injection_timestamps g)"
    by (simp add: recent_injections_def)
  obtain res w1 where d: "dispatch reload fresh ts p c (w\<lparr>wd_guard := g\<rparr>) = (res, w1)" by fastforce
  have w1: "wd_guard w1 = g" using dispatch_guard [of reload fresh ts p c "w\<lparr>wd_guard := g\<rparr>"] d by simp
  consider "\<not> ok" | "ok" "\<not> allowed" | "ok" "allowed" "dry" | "ok" "allowed" "\<not> dry" by blast
  then show ?thesis
  proof cases
    case 4
    then show ?thesis using assms(1) i g d w1 gc rr step le al
      by (cases res) (auto simp: inject_def refused_def)
  qed (use assms(1) i g gc rr in \<open>auto simp: inject_def refused_def\<close>)
qed

lemma batch_recent:
  assumes "inject_batch reload fresh ts ps c dry w = (rs, w')" "rate_ok until (wd_guard w)"
    "\<And>t p. (t, p) \<in> set ps \<Longrightarrow> until - 3600 < t \<and> t \<le> until"
  shows "length (filter ires_applied rs) + length (recent_injections until (gd_injection_timestamps (wd_guard w)))
      = length (recent_injections until (gd_injection_timestamps (wd_guard w')))
    \<and> gd_config (wd_guard w') = gd_config (wd_guard w) \<and> rate_ok until (wd_guard w')"
  using assms
proof (induction ps arbitrary: w rs)
  case (Cons q ps)
  obtain t p where q: "q = (t, p)" by fastforce
  obtain r p' w1 where i: "inject reload fresh t ts p c dry w = (r, p', w1)" by (metis prod_cases3)
  obtain rs' where b: "inject_batch reload fresh ts ps c dry w1 = (rs', w')" and rs: "rs = r # rs'"
    using Cons.prems(1) q i by (auto split: prod.splits)
  from Cons.prems(3) [of t p] q have "until - 3600 < t" "t \<le> until" by auto
  note st = inject_recent [OF i this]
  have "rate_ok until (wd_guard w1)" using st Cons.prems(2) by (auto simp: rate_ok_def split: if_splits)
  from Cons.IH [OF b this] Cons.prems(3) have
    "length (filter ires_applied rs') + length (recent_injections until (gd_injection_timestamps (wd_guard w1)))
      = length (recent_injections until (gd_injection_timestamps (wd_guard w')))
    \<and> gd_config (wd_guard w') = gd_config (wd_guard w1) \<and> rate_ok until (wd_guard w')" by (meson list.set_intros(2))
  with st show ?case unfolding rs by (cases "ires_applied r") auto
qed simp

lemma restored_after_rollback:
  assumes "\<And>q. q \<in> set ps \<Longrightarrow> numeric_update (snd q)" "float_vars w"
    "distinct (map (\<lambda>q. (op_module_name (snd q), op_target_name (snd q))) ps)"
    "\<And>e. e \<in> set (wd_log w) \<Longrightarrow> re_cycle_id e \<noteq> c \<or> re_status e \<noteq> ''applied''"
    "map re_rollback_id (wd_log w) = map fresh [0..<length (wd_log w)]" "inj fresh"
    "inject_batch reload fresh ts ps c dry w = (rs, w')" "rollback_cycle reload later c w' = (us, w'')"
  shows "map_of (wd_vars w'') k = map_of (wd_vars w) k \<and> list_all snd us"
proof -
  from inject_batch_logged [OF assms(1,2,7,3)] obtain es where es: "batch_logged c w w' es"
    "distinct (map fst (map change_of es))"
    "map re_rollback_id es = map fresh [length (wd_log w)..<length (wd_log w')]" by blast
  have l: "wd_log w' = wd_log w @ es" "\<And>e. e \<in> set es \<Longrightarrow> runtime_entry (wd_importable w') c e"
    "rv.recorded (map change_of es) (wd_vars w)" "wd_vars w' = rv.redo (map change_of es) (wd_vars w)"
    using es(1) by (simp_all add: batch_logged_def)
  have "map re_rollback_id (wd_log w') = map fresh [0..<length (wd_log w')]"
    using assms(5) es(3) upt_join [of 0 "length (wd_log w)" "length (wd_log w')"] l(1)
    by (metis (no_types, lifting) le_add1 length_append map_append zero_le)
  from rollback_cycle_new [OF l(1) this assms(6,4) l(2), of reload later] assms(8)
  have "wd_vars w'' = rv.undo (map change_of es) (wd_vars w')" "map snd us = replicate (length es) True" by simp_all
  moreover from this(2) have "list_all snd us" by (rule all_replicate)
  ultimately show ?thesis using rv.undo_oldest_first [OF l(3) es(2)] l(4) by simp
qed

section \<open>Properties\<close>

text \<open>
  C39: An injection that the guard refuses, that exceeds the hourly rate limit, or that is a dry run
  reports that it was not applied and leaves the proposal, the module variables, the source files,
  their backups, the configuration overlay and the rollback log as they were.
\<close>

theorem refused_injection_changes_nothing:
  assumes "inject reload fresh now ts p c dry w = (r, p', w')"
    "\<not> fst (is_injectable (wd_guard w) p) \<or> \<not> fst (check_rate_limit now (wd_guard w)) \<or> dry"
  shows "\<not> ires_applied r \<and> p' = p \<and> same_system w w'"
proof -
  have na: "\<not> ires_applied r"
    using assms by (auto simp: inject_def refused_def split: prod.splits bool.splits)
  have "ires_error r \<noteq> Some (Raised e)" for e
    using assms by (auto simp: inject_def refused_def split: prod.splits bool.splits)
  then show ?thesis using inject_not_dispatched [OF assms(1) na] na by blast
qed

text \<open>
  Library fact: A proposal that was applied had an injectable category that is not blocked and an injectable
  status, becomes promoted, and is recorded with a rollback entry; a numeric threshold it set lies
  within the strategy bounds, 0.5 to 0.9 for the quorum and 0.3 to 0.8 for the similarity threshold.
\<close>

theorem applied_injection_is_allowed:
  assumes "inject reload fresh now ts p c dry w = (r, p', w')" "ires_applied r" "float_vars w"
  shows "op_category p \<in> gc_injectable_categories (gd_config (wd_guard w)) - gc_blocked_categories (gd_config (wd_guard w))
    \<and> op_status p \<in> {''validated'', ''proposed''} \<and> p' = p\<lparr>op_status := ''promoted''\<rparr>
    \<and> (numeric_update p \<longrightarrow> (\<exists>x. map_of (wd_vars w') (op_module_name p, op_target_name p) = Some (PyFloat x)
          \<and> op_proposed_value p = VNum x
          \<and> (op_target_name p = ''QUORUM_THRESHOLD'' \<longrightarrow> 5 / 10 \<le> x \<and> x \<le> 9 / 10)
          \<and> (op_target_name p = ''SIMILARITY_THRESHOLD'' \<longrightarrow> 3 / 10 \<le> x \<and> x \<le> 8 / 10)))"
proof (intro conjI impI)
  from inject_applied [OF assms(1,2)] obtain g e w1 where
    ok: "fst (is_injectable (wd_guard w) p)"
    and g: "check_rate_limit now (wd_guard w) = (True, g)"
    and d: "dispatch reload fresh ts p c (w\<lparr>wd_guard := g\<rparr>) = (Inr e, w1)"
    and w': "w' = w1\<lparr>wd_guard := record_injection now (wd_guard w1)\<rparr>" by blast
  note allowed = injectable_category [OF ok]
  show "op_category p \<in> gc_injectable_categories (gd_config (wd_guard w)) - gc_blocked_categories (gd_config (wd_guard w))"
    "op_status p \<in> {''validated'', ''proposed''}" using allowed by simp_all
  show "p' = p\<lparr>op_status := ''promoted''\<rparr>"
    using assms(1,2) by (auto simp: inject_def refused_def split: prod.splits bool.splits if_splits sum.splits)
  assume n: "numeric_update p"
  then obtain x where x: "op_proposed_value p = VNum x" and pu: "op_change_type p = ''parameter_update''"
    by (auto simp: numeric_update_def)
  have fv: "float_vars (w\<lparr>wd_guard := g\<rparr>)" using assms(3) by (simp add: float_vars_def)
  from inject_runtime_logged [OF n fv] d
  have k: "(re_module_name e, re_target_name e) = (op_module_name p, op_target_name p)"
    "snd (snd (change_of e)) = PyFloat x" "batch_logged c (w\<lparr>wd_guard := g\<rparr>) w1 [e]"
    by (simp_all add: dispatch_runtime [OF n] x)
  obtain m old new where ce: "change_of e = (m, old, new)" by (cases "change_of e") auto
  have "m = (op_module_name p, op_target_name p)" using k(1) ce by (simp add: change_of_def)
  then have "map_of (wd_vars w') (op_module_name p, op_target_name p) = Some (PyFloat x)"
    using k(2,3) ce by (simp add: w' batch_logged_def rv.redo_def)
  then show "\<exists>x. map_of (wd_vars w') (op_module_name p, op_target_name p) = Some (PyFloat x)
          \<and> op_proposed_value p = VNum x
          \<and> (op_target_name p = ''QUORUM_THRESHOLD'' \<longrightarrow> 5 / 10 \<le> x \<and> x \<le> 9 / 10)
          \<and> (op_target_name p = ''SIMILARITY_THRESHOLD'' \<longrightarrow> 3 / 10 \<le> x \<and> x \<le> 8 / 10)"
    using x allowed check_bounds_threshold [OF _ pu x] check_bounds_similarity [OF _ pu x] by blast
qed

text \<open>
  Library fact: When numeric parameter updates on distinct variables are injected in a cycle of which no entry
  is active yet, rolling the cycle back succeeds for every entry and gives every module variable
  the value it had before the batch.
\<close>

theorem batch_rollback_restores_variables:
  assumes "\<And>q. q \<in> set ps \<Longrightarrow> numeric_update (snd q)" "float_vars w"
    "distinct (map (\<lambda>q. (op_module_name (snd q), op_target_name (snd q))) ps)"
    "\<And>e. e \<in> set (wd_log w) \<Longrightarrow> re_cycle_id e \<noteq> c \<or> re_status e \<noteq> ''applied''"
    "map re_rollback_id (wd_log w) = map fresh [0..<length (wd_log w)]" "inj fresh"
    "inject_batch reload fresh ts ps c dry w = (rs, w')" "rollback_cycle reload later c w' = (us, w'')"
  shows "map_of (wd_vars w'') k = map_of (wd_vars w) k \<and> list_all snd us"
  by (rule restored_after_rollback [OF assms])

text \<open>
  Library fact: When the same variable is updated twice in one cycle, rolling the cycle back does not restore
  it: the entries are undone oldest first, so the variable ends with the value of the first
  update instead of the value it had before the cycle.
\<close>

theorem repeated_update_survives_rollback:
  assumes "numeric_update p" "numeric_update q" "float_vars w" "op_proposed_value p = VNum x"
    "(op_module_name q, op_target_name q) = (op_module_name p, op_target_name p)"
    "\<And>e. e \<in> set (wd_log w) \<Longrightarrow> re_cycle_id e \<noteq> c \<or> re_status e \<noteq> ''applied''"
    "map re_rollback_id (wd_log w) = map fresh [0..<length (wd_log w)]" "inj fresh"
    "inject reload fresh t1 ts1 p c dry w = (r1, p', w1)" "ires_applied r1"
    "inject reload fresh t2 ts2 q c dry w1 = (r2, q', w2)" "ires_applied r2"
    "rollback_cycle reload later c w2 = (us, w3)"
  shows "map_of (wd_vars w3) (op_module_name p, op_target_name p) = Some (PyFloat x)"
proof -
  let ?k = "(op_module_name p, op_target_name p)"
  from inject_applied_logged [OF assms(1,3,9,10)] obtain e1 where
    e1: "batch_logged c w w1 [e1]" "change_of e1 = (?k, fst (snd (change_of e1)), PyFloat x)"
      "re_rollback_id e1 = fresh (length (wd_log w))" using assms(4) by auto
  have fv: "float_vars w1" using e1(1) by (simp add: batch_logged_def)
  from inject_applied_logged [OF assms(2) fv assms(11,12)] obtain e2 new where
    e2: "batch_logged c w1 w2 [e2]" "change_of e2 = (?k, fst (snd (change_of e2)), new)"
      "re_rollback_id e2 = fresh (length (wd_log w1))" using assms(5) by auto
  have l: "wd_log w2 = wd_log w @ [e1, e2]" "wd_importable w2 = wd_importable w1" "wd_importable w1 = wd_importable w"
    "runtime_entry (wd_importable w) c e1" "runtime_entry (wd_importable w) c e2" "length (wd_log w1) = Suc (length (wd_log w))"
    using e1(1) e2(1) by (simp_all add: batch_logged_def)
  have ids: "map re_rollback_id (wd_log w2) = map fresh [0..<length (wd_log w2)]"
    using assms(7) e1(3) e2(3) l(1,6) by simp
  have run: "\<And>e. e \<in> set [e1, e2] \<Longrightarrow> runtime_entry (wd_importable w2) c e" using l by auto
  have old: "fst (snd (change_of e2)) = PyFloat x"
  proof -
    have "rv.recorded [change_of e2] (wd_vars w1)" "wd_vars w1 = rv.redo [change_of e1] (wd_vars w)"
      using e1(1) e2(1) by (simp_all add: batch_logged_def)
    then show ?thesis using e1(2) e2(2)
      by (cases "change_of e1"; cases "change_of e2") (auto simp: rv.redo_def)
  qed
  have "wd_vars w3 = rv.undo [change_of e1, change_of e2] (wd_vars w2)"
    using rollback_cycle_new [OF l(1) ids assms(8,6) run, of reload later] assms(13) by simp
  then show ?thesis using e1(2) e2(2) old
    by (cases "change_of e1"; cases "change_of e2") (auto simp: rv.undo_def)
qed

text \<open>
  Library fact: When the patched module does not reload, the injection reports that nothing was applied and
  returns no rollback id, although the source file on disk holds the patched value and the rollback
  log holds an entry that is still marked as applied.
\<close>

theorem failed_reload_leaves_patched_file:
  assumes "fst (is_injectable (wd_guard w) p)" "fst (check_rate_limit now (wd_guard w))"
    "op_change_type p = ''code_patch''" "path = resolve_file (wd_files w) (op_file_path p)"
    "map_of (wd_files w) path = Some (Some tree)" "op_module_name p \<in> set (wd_importable w)"
    "\<And>t. reload (op_module_name p) t (wd_vars w) = None"
    "inject reload fresh now ts p c False w = (r, p', w')"
  shows "\<not> ires_applied r \<and> ires_rollback_id r = None \<and> ires_error r = Some (Raised ReloadFailed)
    \<and> map_of (wd_files w') path = Some (Some (ast_replace_value tree (op_target_name p) (op_proposed_value p)))
    \<and> count_active (wd_log w') = Suc (count_active (wd_log w))"
proof -
  obtain reason where i: "is_injectable (wd_guard w) p = (True, reason)" using assms(1) by (metis prod.collapse)
  obtain g where g: "check_rate_limit now (wd_guard w) = (True, g)" using assms(2) by (metis prod.collapse)
  have k: "classify_injection p = ''source_patch''" by (simp add: classify_injection_def assms(3))
  show ?thesis
    using assms(8) assms(4,5,6,7)
    by (auto simp: inject_def i g dispatch_def k inject_source_def snapshot_source_def Let_def reload_module_def
        refused_def count_active_def log_entry_def)
qed

text \<open>
  Library fact: In a batch processed within an hour the number of applied proposals, together with the
  injections the guard still remembers from that hour, never exceeds the configured maximum per
  hour, and the limit holds again after the batch.
\<close>

theorem batch_respects_rate_limit:
  assumes "inject_batch reload fresh ts ps c dry w = (rs, w')" "rate_ok until (wd_guard w)"
    "\<And>t p. (t, p) \<in> set ps \<Longrightarrow> until - 3600 < t \<and> t \<le> until"
  shows "length (filter ires_applied rs) + length (recent_injections until (gd_injection_timestamps (wd_guard w)))
      \<le> gc_max_injections_per_hour (gd_config (wd_guard w)) \<and> rate_ok until (wd_guard w')"
proof -
  from batch_recent [OF assms(1,2)] assms(3) have
    "length (filter ires_applied rs) + length (recent_injections until (gd_injection_timestamps (wd_guard w)))
      = length (recent_injections until (gd_injection_timestamps (wd_guard w')))
    \<and> gd_config (wd_guard w') = gd_config (wd_guard w) \<and> rate_ok until (wd_guard w')" by blast
  then show ?thesis by (auto simp: rate_ok_def)
qed

section \<open>Witnesses\<close>

definition sample_world :: World where
  "sample_world =
     \<lparr>wd_importable = [''maestro.aggregator''],
      wd_vars = [((''maestro.aggregator'', ''QUORUM_THRESHOLD''), PyFloat (66/100)),
                 ((''maestro.aggregator'', ''SIMILARITY_THRESHOLD''), PyFloat (1/2))],
      wd_files = [(''maestro/aggregator.py'', Some (Tree KOther [Tree (KAssign 22 [''QUORUM_THRESHOLD''] (VNum (66/100))) []]))],
      wd_backups = [], wd_config = NoFile, wd_log = [], wd_guard = new_guard\<rparr>"

definition sample_update :: "string \<Rightarrow> real \<Rightarrow> OptimizationProposal" where
  "sample_update target x =
     \<lparr>op_proposal_id = target, op_timestamp = [], op_category = ''threshold'', op_priority = ''medium'', op_title = [],
      op_description = [], op_file_path = ''maestro/aggregator.py'', op_module_name = ''maestro.aggregator'',
      op_target_name = target, op_line_number = 22, op_current_value = VNum (66/100), op_proposed_value = VNum x,
      op_change_type = ''parameter_update'', op_linked_signals = [], op_evidence = None, op_status = ''validated'',
      op_validation_result = None, op_metadata = []\<rparr>"

definition no_reload :: reload where
  "no_reload name tree vars = None"

definition nth_id :: id_supply where
  "nth_id n = replicate n CHR ''r''"

lemma inj_nth_id: "inj nth_id"
  by (rule injI) (metis length_replicate nth_id_def)

lemmas sample_inject = inject_def is_injectable_def check_rate_limit_def recent_injections_def Let_def new_guard_def
  default_guard_config_def check_bounds_def threshold_strategies_def dget_def out_of_strategy_def quorum_raise_def
  similarity_raise_def dispatch_def classify_injection_def inject_runtime_def snapshot_runtime_def
  log_entry_def record_injection_def refused_def

lemma prod_cases_eq: "x = (fst x, fst (snd x), snd (snd x))"
  by simp

lemma sample_float_vars: "float_vars sample_world"
  unfolding float_vars_def
proof (intro allI impI)
  fix k v assume "map_of (wd_vars sample_world) k = Some v"
  then have "v = PyFloat (66/100) \<or> v = PyFloat (1/2)" by (auto simp: sample_world_def split: if_splits)
  then show "\<exists>x. v = PyFloat x" by blast
qed

lemma sample_numeric: "numeric_update (sample_update t x)"
  by (simp add: numeric_update_def sample_update_def)

lemma refused_injection_changes_nothing_witness:
  "same_system sample_world (snd (snd (inject no_reload nth_id 0 [] (sample_update ''QUORUM_THRESHOLD'' 1) ''c'' False sample_world)))"
proof -
  have "\<not> fst (is_injectable (wd_guard sample_world) (sample_update ''QUORUM_THRESHOLD'' 1))"
    by (simp add: sample_inject sample_update_def sample_world_def)
  then show ?thesis
    using refused_injection_changes_nothing [OF prod_cases_eq [of "inject no_reload nth_id 0 [] (sample_update ''QUORUM_THRESHOLD'' 1) ''c'' False sample_world"]]
    by blast
qed

lemma sample_injectable:
  "5 / 10 \<le> x \<Longrightarrow> x \<le> 9 / 10 \<Longrightarrow> gd_config g = default_guard_config
    \<Longrightarrow> is_injectable g (sample_update ''QUORUM_THRESHOLD'' x) = (True, ''ok'')"
  by (simp add: sample_inject quorum_lower_def sample_update_def)

lemma sample_inject_applied:
  assumes "5 / 10 \<le> x" "x \<le> 9 / 10" "gd_config (wd_guard w) = default_guard_config"
    "length (gd_injection_timestamps (wd_guard w)) < 5" "''maestro.aggregator'' \<in> set (wd_importable w)"
    "map_of (wd_vars w) (''maestro.aggregator'', ''QUORUM_THRESHOLD'') = Some (PyFloat y)"
  shows "\<exists>w'. inject no_reload nth_id now ts (sample_update ''QUORUM_THRESHOLD'' x) c False w =
      (\<lparr>ires_proposal_id = ''QUORUM_THRESHOLD'', ires_applied = True, ires_injection_type = ''runtime'',
        ires_rollback_id = Some (nth_id (length (wd_log w))), ires_error = None\<rparr>,
       (sample_update ''QUORUM_THRESHOLD'' x)\<lparr>op_status := ''promoted''\<rparr>, w')
    \<and> wd_guard w' = record_injection now (snd (check_rate_limit now (wd_guard w)))
    \<and> wd_importable w' = wd_importable w
    \<and> wd_vars w' = dset (''maestro.aggregator'', ''QUORUM_THRESHOLD'') (PyFloat x) (wd_vars w)"
proof -
  have "length (recent_injections now (gd_injection_timestamps (wd_guard w))) < 5"
    using assms(4) unfolding recent_injections_def by (rule le_less_trans [OF length_filter_le])
  then have r: "fst (check_rate_limit now (wd_guard w))"
    by (simp add: check_rate_limit_def Let_def assms(3)) (simp add: default_guard_config_def)
  then obtain g where g: "check_rate_limit now (wd_guard w) = (True, g)" by (metis prod.collapse)
  show ?thesis
    using assms(5,6) unfolding inject_def sample_injectable [OF assms(1,2,3)] g
    by (simp add: dispatch_def classify_injection_def inject_runtime_def snapshot_runtime_def log_entry_def Let_def sample_update_def)
qed

lemma sample_applied_twice:
  assumes "inject no_reload nth_id 0 [] (sample_update ''QUORUM_THRESHOLD'' (7/10)) ''c'' False sample_world = (r1, p', w1)"
    "inject no_reload nth_id 1 [] (sample_update ''QUORUM_THRESHOLD'' (8/10)) ''c'' False w1 = (r2, q', w2)"
  shows "ires_applied r1 \<and> ires_applied r2"
proof -
  have v: "map_of (wd_vars sample_world) (''maestro.aggregator'', ''QUORUM_THRESHOLD'') = Some (PyFloat (66/100))"
    "''maestro.aggregator'' \<in> set (wd_importable sample_world)" "wd_guard sample_world = new_guard"
    by (simp_all add: sample_world_def)
  have n: "gd_config new_guard = default_guard_config" "gd_injection_timestamps new_guard = []" by (simp_all add: new_guard_def)
  from sample_inject_applied [of "7/10" sample_world "66/100" 0 "[]" "''c''"] v n assms(1)
  have a1: "ires_applied r1" and w1: "wd_guard w1 = record_injection 0 (snd (check_rate_limit 0 new_guard))"
    "wd_importable w1 = wd_importable sample_world"
    "wd_vars w1 = dset (''maestro.aggregator'', ''QUORUM_THRESHOLD'') (PyFloat (7/10)) (wd_vars sample_world)"
    by auto
  have "length (gd_injection_timestamps (wd_guard w1)) = 1" "gd_config (wd_guard w1) = default_guard_config"
    by (simp_all add: w1 record_injection_def check_rate_limit_def Let_def recent_injections_def n)
  with sample_inject_applied [of "8/10" w1 "7/10" 1 "[]" "''c''"] w1 v assms(2) a1 show ?thesis by auto
qed

lemma sample_applied:
  "ires_applied (fst (inject no_reload nth_id 0 [] (sample_update ''QUORUM_THRESHOLD'' (7/10)) ''c'' False sample_world))"
  by (metis prod_cases_eq sample_applied_twice)

lemma applied_injection_is_allowed_witness:
  "\<exists>x. map_of (wd_vars (snd (snd (inject no_reload nth_id 0 [] (sample_update ''QUORUM_THRESHOLD'' (7/10)) ''c'' False sample_world))))
      (''maestro.aggregator'', ''QUORUM_THRESHOLD'') = Some (PyFloat x) \<and> 5 / 10 \<le> x \<and> x \<le> 9 / 10"
  using applied_injection_is_allowed [OF prod_cases_eq sample_applied sample_float_vars] sample_numeric [of "''QUORUM_THRESHOLD''" "7/10"]
  by (auto simp: sample_update_def)

lemma batch_rollback_restores_variables_witness:
  "map_of (wd_vars (snd (rollback_cycle no_reload [] ''c'' (snd (inject_batch no_reload nth_id []
      [(0, sample_update ''QUORUM_THRESHOLD'' (7/10)), (1, sample_update ''SIMILARITY_THRESHOLD'' (6/10))] ''c'' False sample_world)))))
    (''maestro.aggregator'', ''QUORUM_THRESHOLD'') = Some (PyFloat (66/100))"
proof -
  let ?ps = "[(0, sample_update ''QUORUM_THRESHOLD'' (7/10)), (1, sample_update ''SIMILARITY_THRESHOLD'' (6/10))]"
  obtain rs w' where b: "inject_batch no_reload nth_id [] ?ps ''c'' False sample_world = (rs, w')" by fastforce
  obtain us w'' where r: "rollback_cycle no_reload [] ''c'' w' = (us, w'')" by fastforce
  have "map_of (wd_vars w'') k = map_of (wd_vars sample_world) k \<and> list_all snd us" for k
    using b r by (rule batch_rollback_restores_variables [rotated 6])
      (auto simp: sample_numeric sample_float_vars inj_nth_id, auto simp: sample_update_def sample_world_def)
  then show ?thesis using b r by (simp add: sample_world_def)
qed

lemma repeated_update_survives_rollback_witness:
  "map_of (wd_vars (snd (rollback_cycle no_reload [] ''c'' (snd (inject_batch no_reload nth_id []
      [(0, sample_update ''QUORUM_THRESHOLD'' (7/10)), (1, sample_update ''QUORUM_THRESHOLD'' (8/10))] ''c'' False sample_world)))))
    (''maestro.aggregator'', ''QUORUM_THRESHOLD'') = Some (PyFloat (7/10))"
proof -
  let ?p = "sample_update ''QUORUM_THRESHOLD'' (7/10)" and ?q = "sample_update ''QUORUM_THRESHOLD'' (8/10)"
  obtain r1 p' w1 where i1: "inject no_reload nth_id 0 [] ?p ''c'' False sample_world = (r1, p', w1)" by (metis prod_cases3)
  obtain r2 q' w2 where i2: "inject no_reload nth_id 1 [] ?q ''c'' False w1 = (r2, q', w2)" by (metis prod_cases3)
  obtain us w3 where r: "rollback_cycle no_reload [] ''c'' w2 = (us, w3)" by fastforce
  have a1: "ires_applied r1" and a2: "ires_applied r2" using sample_applied_twice [OF i1 i2] by simp_all
  have "map_of (wd_vars w3) (op_module_name ?p, op_target_name ?p) = Some (PyFloat (7/10))"
    using i1 a1 i2 a2 r by (rule repeated_update_survives_rollback [rotated 8])
      (auto simp: sample_numeric sample_float_vars inj_nth_id, auto simp: sample_update_def sample_world_def)
  then show ?thesis using i1 i2 r by (simp add: sample_update_def)
qed

lemma failed_reload_leaves_patched_file_witness:
  "count_active (wd_log (snd (snd (inject no_reload nth_id 0 []
     ((sample_update ''QUORUM_THRESHOLD'' (7/10))\<lparr>op_change_type := ''code_patch''\<rparr>) ''c'' False sample_world)))) = 1"
proof -
  let ?p = "(sample_update ''QUORUM_THRESHOLD'' (7/10))\<lparr>op_change_type := ''code_patch''\<rparr>"
  obtain r p' w' where i: "inject no_reload nth_id 0 [] ?p ''c'' False sample_world = (r, p', w')" by (metis prod_cases3)
  have inj: "fst (is_injectable (wd_guard sample_world) ?p)" "fst (check_rate_limit 0 (wd_guard sample_world))"
    by (simp_all add: sample_inject sample_update_def sample_world_def)
  have env: "op_change_type ?p = ''code_patch''" "op_module_name ?p \<in> set (wd_importable sample_world)"
    "map_of (wd_files sample_world) (resolve_file (wd_files sample_world) (op_file_path ?p))
       = Some (Some (Tree KOther [Tree (KAssign 22 [''QUORUM_THRESHOLD''] (VNum (66/100))) []]))"
    by (simp_all add: sample_update_def sample_world_def resolve_file_def)
  have "count_active (wd_log w') = Suc (count_active (wd_log sample_world))"
    using failed_reload_leaves_patched_file [OF inj env(1) refl env(3,2) _ i] by (simp add: no_reload_def)
  then show ?thesis using i by (simp add: sample_world_def count_active_def)
qed

lemma batch_respects_rate_limit_witness:
  "length (filter ires_applied (fst (inject_batch no_reload nth_id []
     (map (\<lambda>i. (real i, sample_update ''QUORUM_THRESHOLD'' (7/10))) [0..<10]) ''c'' False sample_world))) \<le> 5"
proof -
  let ?ps = "map (\<lambda>i. (real i, sample_update ''QUORUM_THRESHOLD'' (7/10))) [0..<10]"
  obtain rs w' where b: "inject_batch no_reload nth_id [] ?ps ''c'' False sample_world = (rs, w')" by fastforce
  have "rate_ok 10 (wd_guard sample_world)"
    by (simp add: rate_ok_def sample_world_def new_guard_def recent_injections_def default_guard_config_def)
  moreover have "10 - 3600 < t \<and> t \<le> 10" if "(t, p) \<in> set ?ps" for t p using that by auto
  ultimately have "length (filter ires_applied rs) \<le> 5" using batch_respects_rate_limit [OF b, of 10]
    by (simp add: sample_world_def new_guard_def default_guard_config_def recent_injections_def)
  then show ?thesis by (simp add: b)
qed

end
