(* ===== verification/Self_Improve.thy ===== *)
theory Self_Improve
  imports Applicator
begin

text \<open>
  \<^verbatim>\<open>maestro/self_improve.py\<close>: the loop that runs MAGI, the introspection pipeline, the sandbox
  validation and, when enabled, the injection with its smoke test and rollback.  The improvement
  directory holds a file per cycle with its modification time, \<^term>\<open>None\<close> when it does not parse.
  Ids, the clock, the embedding model, the reload of a module and the environment variable are the
  fields of \<open>Surroundings\<close>, and so is what the analysis phases raise, when they do: a ledger directory that cannot be
  listed, a ledger file that is JSON but no object, a source file that cannot be read.  The duration of a cycle is not modelled.
\<close>

section \<open>Data\<close>

record Surroundings =
  env_str_of :: "real \<Rightarrow> string"
  env_proposal_ids :: id_supply
  env_rollback_ids :: id_supply
  env_vir_id :: string
  env_now :: string
  env_clock :: "nat \<Rightarrow> real"
  env_reload :: reload
  env_similarity :: similarity
  env_auto_inject :: string
  env_session_count :: nat
  env_analysis_fault :: "string option"
  env_introspection_fault :: "string option"

datatype cycle_error = AnalysisRaised string | PipelineError agg_error

record VIRSummary =
  vs_vir_id :: string
  vs_isolation_tier :: string
  vs_benchmark_count :: nat
  vs_overall_improvement :: real
  vs_recommendation :: string
  vs_summary :: string
  vs_node_id :: string
  vs_comparisons :: "(string \<times> real \<times> real \<times> bool \<times> bool \<times> string \<times> string) list"

record ImprovementCycle =
  cy_cycle_id :: string
  cy_timestamp :: string
  cy_phase :: string
  cy_magi_report :: "MagiReport option"
  cy_introspection_summary :: "string option"
  cy_proposal_count :: nat
  cy_proposals :: "OptimizationProposal list"
  cy_vir_report :: "VIRSummary option"
  cy_outcome :: string
  cy_promoted_proposals :: "string list"
  cy_rejected_proposals :: "string list"
  cy_auto_injected :: bool
  cy_injections :: "InjectionResult list"
  cy_rollback_triggered :: bool
  cy_smoke_test_grade :: "string option"
  cy_compute_node :: string
  cy_error :: "cycle_error option"
  cy_rollback_results :: "(string \<times> bool) list"

type_synonym cycle_dir = "(string, nat \<times> ImprovementCycle option) dict"

definition new_cycle :: "string \<Rightarrow> string \<Rightarrow> string \<Rightarrow> ImprovementCycle" where
  "new_cycle cycle_id now compute_node =
     \<lparr>cy_cycle_id = cycle_id, cy_timestamp = now, cy_phase = ''analysis'', cy_magi_report = None,
      cy_introspection_summary = None, cy_proposal_count = 0, cy_proposals = [], cy_vir_report = None,
      cy_outcome = ''pending'', cy_promoted_proposals = [], cy_rejected_proposals = [], cy_auto_injected = False,
      cy_injections = [], cy_rollback_triggered = False, cy_smoke_test_grade = None, cy_compute_node = compute_node,
      cy_error = None, cy_rollback_results = []\<rparr>"

definition serialize_vir_report :: "VIRReport \<Rightarrow> VIRSummary" where
  "serialize_vir_report report =
     \<lparr>vs_vir_id = vr_vir_id report, vs_isolation_tier = vr_isolation_tier report,
      vs_benchmark_count = vr_benchmark_count report, vs_overall_improvement = vr_overall_improvement report,
      vs_recommendation = vr_recommendation report, vs_summary = vr_summary report, vs_node_id = vr_node_id report,
      vs_comparisons = map (\<lambda>c. (take 100 (vc_prompt c), vc_confidence_delta c, vc_drift_delta c, vc_grade_improved c,
        vc_collapse_fixed c, br_grade (vc_baseline c), br_grade (vc_optimized c))) (vr_comparisons report)\<rparr>"

definition persist_cycle :: "nat \<Rightarrow> ImprovementCycle \<Rightarrow> cycle_dir \<Rightarrow> cycle_dir" where
  "persist_cycle mtime cycle dir = dset (cy_cycle_id cycle) (mtime, Some cycle) dir"

section \<open>The thresholds of the running aggregator\<close>

definition live_module :: "World \<Rightarrow> agg_module option" where
  "live_module w =
     (case (map_of (wd_vars w) (''maestro.aggregator'', ''QUORUM_THRESHOLD''),
            map_of (wd_vars w) (''maestro.aggregator'', ''SIMILARITY_THRESHOLD'')) of
        (Some q, Some s) \<Rightarrow> Some \<lparr>am_quorum = q, am_similarity = s\<rparr>
      | _ \<Rightarrow> None)"

definition write_module :: "agg_module \<Rightarrow> World \<Rightarrow> World" where
  "write_module am w =
     w\<lparr>wd_vars := dset (''maestro.aggregator'', ''SIMILARITY_THRESHOLD'') (am_similarity am)
        (dset (''maestro.aggregator'', ''QUORUM_THRESHOLD'') (am_quorum am) (wd_vars w))\<rparr>"

definition live_thresholds :: "World \<Rightarrow> Thresholds option" where
  "live_thresholds w = Option.bind (live_module w) thresholds_of"

text \<open>The sandbox works on the variables of the running aggregator, and leaves them as the validation does.\<close>

definition live_validate ::
    "Surroundings \<Rightarrow> string \<Rightarrow> string list \<Rightarrow> World \<Rightarrow> OptimizationProposal list \<Rightarrow> (agg_error + VIRReport) \<times> World" where
  "live_validate env node benchmarks w proposals =
     (case live_module w of
        None \<Rightarrow> (Inl TypeError, w)
      | Some am \<Rightarrow>
          (let (res, am') = vir_validate (env_similarity env) (env_vir_id env) (env_now env) node benchmarks am proposals
           in (res, write_module am' w)))"

definition live_smoke_test :: "Surroundings \<Rightarrow> World \<Rightarrow> agg_error + bool \<times> string" where
  "live_smoke_test env w =
     (case live_thresholds w of
        None \<Rightarrow> Inl TypeError
      | Some th \<Rightarrow> smoke_test (env_similarity env) th (wd_guard w))"

section \<open>Injection\<close>

definition timed :: "(nat \<Rightarrow> real) \<Rightarrow> OptimizationProposal list \<Rightarrow> (real \<times> OptimizationProposal) list" where
  "timed clock ps = map (\<lambda>(i, p). (clock i, p)) (zip [0..<length ps] ps)"

text \<open>An error of the smoke test leaves the cycle in phase injection; the caller records it.\<close>

definition try_auto_inject ::
    "Surroundings \<Rightarrow> ImprovementCycle \<Rightarrow> OptimizationProposal list \<Rightarrow> World
     \<Rightarrow> agg_error option \<times> ImprovementCycle \<times> World" where
  "try_auto_inject env cycle proposals w =
     (if \<not> guard_is_enabled (env_auto_inject env) new_guard then (None, cycle, w)
      else
        (let (results, w1) = inject_batch (env_reload env) (env_rollback_ids env) (env_now env)
               (timed (env_clock env) proposals) (cy_cycle_id cycle) False (w\<lparr>wd_guard := new_guard\<rparr>);
             cycle = cycle\<lparr>cy_phase := ''injection'', cy_auto_injected := True, cy_injections := results\<rparr>
         in if \<not> list_ex ires_applied results then (None, cycle\<lparr>cy_phase := ''complete''\<rparr>, w1)
            else case live_smoke_test env w1 of
              Inl e \<Rightarrow> (Some e, cycle, w1)
            | Inr (passed, grade) \<Rightarrow>
                (let cycle = cycle\<lparr>cy_smoke_test_grade := Some grade\<rparr> in
                 if passed then (None, cycle\<lparr>cy_phase := ''complete''\<rparr>, w1)
                 else case rollback_cycle (env_reload env) (env_now env) (cy_cycle_id cycle) w1 of
                   (rollback_results, w2) \<Rightarrow>
                     (None, cycle\<lparr>cy_rollback_triggered := True, cy_rollback_results := rollback_results,
                                 cy_phase := ''complete''\<rparr>, w2))))"

section \<open>One cycle\<close>

definition outcome_of :: "string \<Rightarrow> string" where
  "outcome_of recommendation =
     (if recommendation = ''promote'' then ''promoted''
      else if recommendation = ''reject'' then ''rejected''
      else ''needs_review'')"

definition decide :: "VIRReport \<Rightarrow> ImprovementCycle \<Rightarrow> ImprovementCycle" where
  "decide vir_report cycle =
     cycle\<lparr>cy_vir_report := Some (serialize_vir_report vir_report), cy_phase := ''complete'',
       cy_outcome := outcome_of (vr_recommendation vir_report),
       cy_promoted_proposals := (if vr_recommendation vir_report = ''promote'' then vr_proposals_tested vir_report else []),
       cy_rejected_proposals := (if vr_recommendation vir_report = ''reject'' then vr_proposals_tested vir_report else [])\<rparr>"

definition mark_validated :: "VIRReport \<Rightarrow> OptimizationProposal \<Rightarrow> OptimizationProposal" where
  "mark_validated vir_report proposal =
     proposal\<lparr>op_status := (if vr_recommendation vir_report = ''promote'' then ''validated''
                            else if vr_recommendation vir_report = ''reject'' then ''rejected''
                            else ''proposed''),
       op_validation_result := Some (vr_vir_id vir_report, vr_overall_improvement vir_report, vr_recommendation vir_report)\<rparr>"

definition mark_failed :: "cycle_error \<Rightarrow> ImprovementCycle \<Rightarrow> ImprovementCycle" where
  "mark_failed e cycle = cycle\<lparr>cy_phase := ''failed'', cy_outcome := ''failed'', cy_error := Some e\<rparr>"

text \<open>Phases 1 to 3: an exception comes with the MAGI report, when the analysis had made it.\<close>

definition analysis_phase ::
    "Surroundings \<Rightarrow> ledger \<Rightarrow> World \<Rightarrow>
     (string \<times> MagiReport option) + (MagiReport \<times> IntrospectionReport \<times> ProposalBatch)" where
  "analysis_phase env ledger w =
     (case env_analysis_fault env of
        Some e \<Rightarrow> Inl (e, None)
      | None \<Rightarrow>
          (let magi_report = magi_analyze ledger 50 (env_session_count env);
               ledger_entries = load_recent_entries ledger 50
           in case env_introspection_fault env of
                Some e \<Rightarrow> Inl (e, Some magi_report)
              | None \<Rightarrow>
                  Inr (magi_report, run_introspection_pipeline (env_str_of env) (env_proposal_ids env) (env_now env) (wd_files w)
                    ledger ledger_entries (mr_recommendations magi_report) 50)))"

definition validation_phase ::
    "Surroundings \<Rightarrow> string list \<Rightarrow> ProposalBatch \<Rightarrow> ImprovementCycle \<Rightarrow> World \<Rightarrow> ImprovementCycle \<times> World" where
  "validation_phase env benchmarks batch cycle w =
     (case live_validate env (cy_compute_node cycle) benchmarks w (pb_proposals batch) of
        (Inl e, w1) \<Rightarrow> (mark_failed (PipelineError e) (cycle\<lparr>cy_phase := ''validation''\<rparr>), w1)
      | (Inr vir_report, w1) \<Rightarrow>
          (let cycle = decide vir_report cycle;
               proposals = map (mark_validated vir_report) (pb_proposals batch)
           in if vr_recommendation vir_report = ''promote''
              then case try_auto_inject env cycle proposals w1 of
                (None, cycle, w2) \<Rightarrow> (cycle, w2)
              | (Some e, cycle, w2) \<Rightarrow> (mark_failed (PipelineError e) cycle, w2)
              else (cycle, w1)))"

definition run_cycle ::
    "Surroundings \<Rightarrow> string \<Rightarrow> nat \<Rightarrow> string \<Rightarrow> string list \<Rightarrow> ledger \<Rightarrow> World \<Rightarrow> cycle_dir
     \<Rightarrow> ImprovementCycle \<times> World \<times> cycle_dir" where
  "run_cycle env cycle_id mtime compute_node benchmark_prompts ledger w dir =
     (let benchmarks = (if benchmark_prompts = [] then default_benchmarks else benchmark_prompts);
          cycle = new_cycle cycle_id (env_now env) compute_node;
          (cycle, w1) =
            (case analysis_phase env ledger w of
               Inl (e, magi_report) \<Rightarrow> (mark_failed (AnalysisRaised e) (cycle\<lparr>cy_magi_report := magi_report\<rparr>), w)
             | Inr (magi_report, introspection, batch) \<Rightarrow>
                 (let cycle = cycle
                        \<lparr>cy_magi_report := Some magi_report,
                         cy_introspection_summary := Some (introspection_summary (env_str_of env) introspection),
                         cy_phase := ''proposal'', cy_proposal_count := pb_total_proposals batch, cy_proposals := pb_proposals batch\<rparr>
                  in if pb_total_proposals batch = 0
                     then (cycle\<lparr>cy_phase := ''complete'', cy_outcome := ''no_proposals''\<rparr>, w)
                     else validation_phase env benchmarks batch cycle w))
      in (cycle, w1, persist_cycle mtime cycle dir))"

section \<open>Manual injection and history\<close>

datatype load_error = CycleDecodeError

definition load_cycle :: "cycle_dir \<Rightarrow> string \<Rightarrow> load_error + ImprovementCycle option" where
  "load_cycle dir cycle_id =
     (case map_of dir cycle_id of
        None \<Rightarrow> Inr None
      | Some (_, None) \<Rightarrow> Inl CycleDecodeError
      | Some (_, Some c) \<Rightarrow> Inr (Some c))"

datatype inject_reply =
    CycleNotFound
  | NotInjectable string
  | Injected string "InjectionResult list" nat nat

definition inject_cycle ::
    "Surroundings \<Rightarrow> string \<Rightarrow> cycle_dir \<Rightarrow> World \<Rightarrow> load_error + inject_reply \<times> World" where
  "inject_cycle env cycle_id dir w =
     bind_res (load_cycle dir cycle_id)
       (\<lambda>cycle_data. case cycle_data of
          None \<Rightarrow> Inr (CycleNotFound, w)
        | Some cycle \<Rightarrow>
            (if cy_outcome cycle \<notin> {''promoted'', ''needs_review''} then Inr (NotInjectable (cy_outcome cycle), w)
             else
               (let (results, w1) = inject_batch (env_reload env) (env_rollback_ids env) (env_now env)
                      (timed (env_clock env) (cy_proposals cycle)) cycle_id False (w\<lparr>wd_guard := new_guard\<rparr>)
                in Inr (Injected cycle_id results (length (filter ires_applied results))
                          (length (filter (\<lambda>r. \<not> ires_applied r) results)), w1))))"

record AnalysisOnly =
  ao_magi_report :: MagiReport
  ao_introspection_summary :: string
  ao_code_targets :: nat
  ao_complexity_hotspots :: "Hotspot list"
  ao_proposals :: "OptimizationProposal list"
  ao_proposal_count :: nat
  ao_batch_summary :: string

definition run_analysis_only :: "Surroundings \<Rightarrow> ledger \<Rightarrow> World \<Rightarrow> string + AnalysisOnly" where
  "run_analysis_only env ledger w =
     (case analysis_phase env ledger w of
        Inl (e, _) \<Rightarrow> Inl e
      | Inr (magi_report, introspection, batch) \<Rightarrow>
          Inr \<lparr>ao_magi_report = magi_report, ao_introspection_summary = introspection_summary (env_str_of env) introspection,
            ao_code_targets = length (ir_code_targets introspection),
            ao_complexity_hotspots = take 5 (ir_complexity_hotspots introspection),
            ao_proposals = pb_proposals batch, ao_proposal_count = pb_total_proposals batch,
            ao_batch_summary = pb_summary batch\<rparr>)"

definition list_cycles :: "cycle_dir \<Rightarrow> nat \<Rightarrow> (string \<times> string \<times> string \<times> string \<times> nat \<times> string) list" where
  "list_cycles dir limit =
     map (\<lambda>c. (cy_cycle_id c, cy_timestamp c, cy_phase c, cy_outcome c, cy_proposal_count c, cy_compute_node c))
       (List.map_filter (\<lambda>(_, _, c). c) (take limit (sort_desc (\<lambda>(_, mtime, _). int mtime) dir)))"

definition count_cycles :: "cycle_dir \<Rightarrow> nat" where
  "count_cycles dir = length dir"

section \<open>Correctness of the phases\<close>

lemma new_guard_config [simp]: "gd_config new_guard = default_guard_config"
  by (simp add: new_guard_def)

text \<open>Putting a value back that is there already changes nothing: the sandbox leaves no trace.\<close>

lemma dset_same: "map_of d k = Some v \<Longrightarrow> dset k v d = d"
  by (induction d) (auto split: if_splits)

lemma write_live: "live_module w = Some am \<Longrightarrow> write_module am w = w"
  by (auto simp: live_module_def write_module_def dset_same split: option.splits)

lemma live_validate_restores: "snd (live_validate env node bs w ps) = w"
proof (cases "live_module w")
  case (Some am)
  have "snd (vir_validate (env_similarity env) (env_vir_id env) (env_now env) node bs am ps) = am" by (rule vir_restores)
  then show ?thesis using Some by (simp add: live_validate_def case_prod_beta write_live)
qed (simp add: live_validate_def)

lemma live_validate_Inr:
  assumes "fst (live_validate env node bs w ps) = Inr rep"
  obtains am am' where "live_module w = Some am"
    "vir_validate (env_similarity env) (env_vir_id env) (env_now env) node bs am ps = (Inr rep, am')"
  using assms by (auto simp: live_validate_def case_prod_beta split: option.splits) (metis prod.collapse)

lemma live_validate_fields:
  assumes "fst (live_validate env node bs w ps) = Inr rep"
  shows "vr_recommendation rep = recommendation_of (vr_overall_improvement rep)"
  using live_validate_Inr [OF assms] vir_report_fields by metis

lemma try_auto_inject_cycle:
  assumes "try_auto_inject env cycle ps w = (e, cycle', w')"
  shows "cy_cycle_id cycle' = cy_cycle_id cycle \<and> cy_outcome cycle' = cy_outcome cycle
    \<and> cy_vir_report cycle' = cy_vir_report cycle \<and> cy_proposals cycle' = cy_proposals cycle
    \<and> cy_proposal_count cycle' = cy_proposal_count cycle \<and> cy_error cycle' = cy_error cycle
    \<and> (cy_auto_injected cycle' \<longrightarrow> cy_auto_injected cycle \<or> guard_is_enabled (env_auto_inject env) new_guard)
    \<and> (\<not> cy_auto_injected cycle' \<longrightarrow> w' = w)
    \<and> (e = None \<longrightarrow> cy_phase cycle' \<in> {cy_phase cycle, ''complete''})"
  using assms by (auto simp: try_auto_inject_def Let_def split: prod.splits if_splits sum.splits)

lemma outcome_promoted: "outcome_of r = ''promoted'' \<longleftrightarrow> r = ''promote''"
  by (simp add: outcome_of_def)

lemma outcome_cases: "outcome_of r \<in> {''promoted'', ''rejected'', ''needs_review''}"
  by (simp add: outcome_of_def)

lemma decide_fields [simp]:
  "cy_cycle_id (decide rep c) = cy_cycle_id c" "cy_phase (decide rep c) = ''complete''"
  "cy_outcome (decide rep c) = outcome_of (vr_recommendation rep)"
  "cy_vir_report (decide rep c) = Some (serialize_vir_report rep)"
  "cy_proposals (decide rep c) = cy_proposals c" "cy_auto_injected (decide rep c) = cy_auto_injected c"
  "cy_proposal_count (decide rep c) = cy_proposal_count c" "cy_error (decide rep c) = cy_error c"
  by (simp_all add: decide_def)

lemma mark_failed_fields [simp]:
  "cy_cycle_id (mark_failed e c) = cy_cycle_id c" "cy_phase (mark_failed e c) = ''failed''"
  "cy_outcome (mark_failed e c) = ''failed''" "cy_vir_report (mark_failed e c) = cy_vir_report c"
  "cy_proposals (mark_failed e c) = cy_proposals c" "cy_auto_injected (mark_failed e c) = cy_auto_injected c"
  "cy_proposal_count (mark_failed e c) = cy_proposal_count c" "cy_error (mark_failed e c) = Some e"
  by (simp_all add: mark_failed_def)

lemma serialize_fields [simp]:
  "vs_overall_improvement (serialize_vir_report rep) = vr_overall_improvement rep"
  "vs_recommendation (serialize_vir_report rep) = vr_recommendation rep"
  by (simp_all add: serialize_vir_report_def)

definition improved :: "ImprovementCycle \<Rightarrow> bool" where
  "improved cycle \<longleftrightarrow> (\<exists>vr. cy_vir_report cycle = Some vr \<and> vs_overall_improvement vr > 5 / 100)"

lemma validation_phase_cycle:
  assumes "validation_phase env bs batch cycle w = (cycle', w')" "\<not> cy_auto_injected cycle" "cy_error cycle = None"
  shows "cy_cycle_id cycle' = cy_cycle_id cycle \<and> cy_proposals cycle' = cy_proposals cycle
    \<and> cy_proposal_count cycle' = cy_proposal_count cycle
    \<and> ((cy_phase cycle' = ''complete'' \<and> cy_error cycle' = None \<and> cy_outcome cycle' \<in> {''promoted'', ''rejected'', ''needs_review''})
       \<or> (cy_phase cycle' = ''failed'' \<and> (\<exists>e. cy_error cycle' = Some (PipelineError e)) \<and> cy_outcome cycle' = ''failed''))
    \<and> (cy_outcome cycle' = ''promoted'' \<or> cy_auto_injected cycle' \<longrightarrow> improved cycle')
    \<and> (cy_auto_injected cycle' \<longrightarrow> guard_is_enabled (env_auto_inject env) new_guard)
    \<and> (\<not> cy_auto_injected cycle' \<longrightarrow> w' = w)"
proof (cases "fst (live_validate env (cy_compute_node cycle) bs w (pb_proposals batch))")
  case (Inl e)
  then have "live_validate env (cy_compute_node cycle) bs w (pb_proposals batch) = (Inl e, w)"
    using live_validate_restores by (metis prod.collapse)
  then show ?thesis using assms by (auto simp: validation_phase_def)
next
  case (Inr rep)
  then have lv: "live_validate env (cy_compute_node cycle) bs w (pb_proposals batch) = (Inr rep, w)"
    using live_validate_restores by (metis prod.collapse)
  note rec = live_validate_fields [OF Inr]
  show ?thesis
  proof (cases "vr_recommendation rep = ''promote''")
    case False
    then have "cycle' = decide rep cycle" "w' = w" using assms(1) lv by (simp_all add: validation_phase_def Let_def)
    then show ?thesis using assms(2,3) False outcome_cases [of "vr_recommendation rep"] by (auto simp: outcome_promoted)
  next
    case True
    then have imp: "vr_overall_improvement rep > 5 / 100" using rec recommendation_promote by simp
    obtain e c1 w1 where t: "try_auto_inject env (decide rep cycle) (map (mark_validated rep) (pb_proposals batch)) w = (e, c1, w1)"
      by (metis prod_cases3)
    note ts = try_auto_inject_cycle [OF t]
    have "(cycle', w') = (case e of None \<Rightarrow> (c1, w1) | Some x \<Rightarrow> (mark_failed (PipelineError x) c1, w1))"
      using assms(1) lv True t by (simp add: validation_phase_def Let_def split: option.splits)
    then show ?thesis using ts assms(2,3) True imp
      by (cases e) (auto simp: improved_def outcome_of_def)
  qed
qed

text \<open>What an injection of a cycle starts from: the proposals that the sandbox validated, and the system as it was before.\<close>

lemma validation_phase_injected:
  assumes "validation_phase env bs batch cycle w = (cycle', w')" "\<not> cy_auto_injected cycle" "cy_auto_injected cycle'"
  shows "\<exists>rep e c. fst (live_validate env (cy_compute_node cycle) bs w (pb_proposals batch)) = Inr rep
    \<and> vr_overall_improvement rep > 5 / 100 \<and> cy_vir_report cycle' = Some (serialize_vir_report rep)
    \<and> try_auto_inject env (decide rep cycle) (map (mark_validated rep) (pb_proposals batch)) w = (e, c, w')
    \<and> cy_injections cycle' = cy_injections c"
proof (cases "fst (live_validate env (cy_compute_node cycle) bs w (pb_proposals batch))")
  case (Inl e)
  then have "live_validate env (cy_compute_node cycle) bs w (pb_proposals batch) = (Inl e, w)"
    using live_validate_restores by (metis prod.collapse)
  then show ?thesis using assms by (auto simp: validation_phase_def)
next
  case (Inr rep)
  then have lv: "live_validate env (cy_compute_node cycle) bs w (pb_proposals batch) = (Inr rep, w)"
    using live_validate_restores by (metis prod.collapse)
  obtain e c1 w1 where t: "try_auto_inject env (decide rep cycle) (map (mark_validated rep) (pb_proposals batch)) w = (e, c1, w1)"
    by (metis prod_cases3)
  have p: "vr_recommendation rep = ''promote''" using assms lv by (auto simp: validation_phase_def Let_def split: if_splits)
  then have "vr_overall_improvement rep > 5 / 100" using live_validate_fields [OF Inr] recommendation_promote by simp
  moreover have "w' = w1" "cy_vir_report cycle' = cy_vir_report c1" "cy_injections cycle' = cy_injections c1"
    using assms(1) lv p t by (auto simp: validation_phase_def Let_def mark_failed_def split: option.splits)
  ultimately show ?thesis using Inr t try_auto_inject_cycle [OF t] by auto
qed

definition proposals_of :: "(string \<times> MagiReport option) + (MagiReport \<times> IntrospectionReport \<times> ProposalBatch) \<Rightarrow> OptimizationProposal list" where
  "proposals_of a = (case a of Inl _ \<Rightarrow> [] | Inr (_, _, batch) \<Rightarrow> pb_proposals batch)"

definition analysed_cycle ::
    "Surroundings \<Rightarrow> string \<Rightarrow> string \<Rightarrow> MagiReport \<Rightarrow> IntrospectionReport \<Rightarrow> ProposalBatch \<Rightarrow> ImprovementCycle" where
  "analysed_cycle env i node mr ir batch = (new_cycle i (env_now env) node)
     \<lparr>cy_magi_report := Some mr, cy_introspection_summary := Some (introspection_summary (env_str_of env) ir),
      cy_phase := ''proposal'', cy_proposal_count := pb_total_proposals batch, cy_proposals := pb_proposals batch\<rparr>"

lemma analysed_fields [simp]:
  "\<not> cy_auto_injected (analysed_cycle env i node mr ir batch)" "cy_error (analysed_cycle env i node mr ir batch) = None"
  "cy_cycle_id (analysed_cycle env i node mr ir batch) = i" "cy_proposals (analysed_cycle env i node mr ir batch) = pb_proposals batch"
  "cy_proposal_count (analysed_cycle env i node mr ir batch) = pb_total_proposals batch"
  "cy_vir_report (analysed_cycle env i node mr ir batch) = None"
  "cy_compute_node (analysed_cycle env i node mr ir batch) = node"
  by (simp_all add: analysed_cycle_def new_cycle_def)

text \<open>The three ways of a cycle: the analysis raised, there was nothing to propose, or the proposals were validated.\<close>

lemma run_cycle_ways:
  assumes "run_cycle env i mtime node bs ledger w dir = (cycle, w', dir')"
  obtains (raised) e mr where "analysis_phase env ledger w = Inl (e, mr)" "w' = w"
      "cycle = mark_failed (AnalysisRaised e) ((new_cycle i (env_now env) node)\<lparr>cy_magi_report := mr\<rparr>)"
      "dir' = persist_cycle mtime cycle dir"
    | (nothing) mr ir batch where "analysis_phase env ledger w = Inr (mr, ir, batch)" "pb_total_proposals batch = 0" "w' = w"
      "cycle = (analysed_cycle env i node mr ir batch)\<lparr>cy_phase := ''complete'', cy_outcome := ''no_proposals''\<rparr>"
      "dir' = persist_cycle mtime cycle dir"
    | (validated) mr ir batch where "analysis_phase env ledger w = Inr (mr, ir, batch)" "pb_total_proposals batch \<noteq> 0"
      "validation_phase env (if bs = [] then default_benchmarks else bs) batch (analysed_cycle env i node mr ir batch) w = (cycle, w')"
      "dir' = persist_cycle mtime cycle dir"
proof (cases "analysis_phase env ledger w")
  case (Inl x)
  then show ?thesis using assms by (cases x) (auto simp: run_cycle_def Let_def intro: that(1))
next
  case (Inr x)
  obtain mr ir batch where x: "x = (mr, ir, batch)" by (metis prod_cases3)
  show ?thesis
  proof (cases "pb_total_proposals batch = 0")
    case True
    have w: "w' = w" "dir' = persist_cycle mtime cycle dir"
      "cycle = (analysed_cycle env i node mr ir batch)\<lparr>cy_phase := ''complete'', cy_outcome := ''no_proposals''\<rparr>"
      using assms Inr x True by (auto simp: run_cycle_def analysed_cycle_def Let_def)
    show ?thesis by (rule that(2) [OF _ True w(1,3,2)]) (simp add: Inr x)
  next
    case False
    obtain c1 w1 where v: "validation_phase env (if bs = [] then default_benchmarks else bs) batch (analysed_cycle env i node mr ir batch) w = (c1, w1)"
      by fastforce
    then have w: "cycle = c1" "w' = w1" "dir' = persist_cycle mtime cycle dir"
      using assms Inr x False by (auto simp: run_cycle_def analysed_cycle_def [symmetric] Let_def)
    show ?thesis by (rule that(3) [OF _ False v [folded w(1,2)] w(3)]) (simp add: Inr x)
  qed
qed

lemma run_cycle_cases:
  assumes "run_cycle env i mtime node bs ledger w dir = (cycle, w', dir')"
  shows "dir' = persist_cycle mtime cycle dir \<and> cy_cycle_id cycle = i
    \<and> cy_proposals cycle = proposals_of (analysis_phase env ledger w)
    \<and> (case analysis_phase env ledger w of
         Inl (e, mr) \<Rightarrow> cy_phase cycle = ''failed'' \<and> cy_outcome cycle = ''failed'' \<and> cy_error cycle = Some (AnalysisRaised e)
           \<and> cy_proposal_count cycle = 0
       | Inr (mr, ir, batch) \<Rightarrow> cy_proposal_count cycle = pb_total_proposals batch \<and>
           ((cy_proposal_count cycle = 0 \<and> cy_phase cycle = ''complete'' \<and> cy_outcome cycle = ''no_proposals'' \<and> cy_error cycle = None)
           \<or> (cy_proposal_count cycle \<noteq> 0 \<and> cy_phase cycle = ''complete'' \<and> cy_error cycle = None \<and> cy_outcome cycle \<in> {''promoted'', ''rejected'', ''needs_review''})
           \<or> (cy_proposal_count cycle \<noteq> 0 \<and> cy_phase cycle = ''failed'' \<and> (\<exists>e. cy_error cycle = Some (PipelineError e)) \<and> cy_outcome cycle = ''failed'')))
    \<and> (cy_outcome cycle = ''promoted'' \<or> cy_auto_injected cycle \<longrightarrow> improved cycle)
    \<and> (cy_auto_injected cycle \<longrightarrow> guard_is_enabled (env_auto_inject env) new_guard)
    \<and> (\<not> cy_auto_injected cycle \<longrightarrow> w' = w)"
  using assms
proof (cases rule: run_cycle_ways)
  case (raised e mr)
  then show ?thesis by (simp add: new_cycle_def proposals_of_def)
next
  case (nothing mr ir batch)
  then show ?thesis by (simp add: proposals_of_def)
next
  case (validated mr ir batch)
  from validation_phase_cycle [OF validated(3)] validated show ?thesis by (auto simp: proposals_of_def)
qed

interpretation cycles: record_store cy_cycle_id "persist_cycle t" load_cycle "\<lambda>c. Inr (Some c)" for t
  by unfold_locales (simp_all add: load_cycle_def persist_cycle_def)

text \<open>Every generator builds its proposals through \<^verbatim>\<open>_make_proposal\<close>, with status proposed.\<close>

definition unvalidated :: "OptimizationProposal \<Rightarrow> bool" where
  "unvalidated p \<longleftrightarrow> op_status p = ''proposed'' \<and> op_validation_result p = None"

lemma make_proposal_unvalidated [simp]: "unvalidated (make_proposal c pr ti d t cv pv ct ls)"
  by (simp add: make_proposal_def unvalidated_def)

lemma threshold_unvalidated: "threshold_proposal s t sg = Some p \<Longrightarrow> unvalidated p"
  unfolding threshold_proposal_def by (auto simp only: Let_def make_proposal_unvalidated split: option.splits code_value.splits if_splits)

lemma temperature_unvalidated: "temperature_proposal s t sg = Some p \<Longrightarrow> unvalidated p"
  unfolding temperature_proposal_def by (cases "map_of temperature_strategies sg") auto

lemma review_unvalidated: "review_proposal t sg = Some p \<Longrightarrow> unvalidated p"
  unfolding review_proposal_def Let_def by (metis make_proposal_unvalidated option.distinct(1) option.inject)

lemma architecture_unvalidated: "p \<in> set (architecture_proposals hs rs) \<Longrightarrow> unvalidated p"
  unfolding architecture_proposals_def
  by (cases "filter (\<lambda>r. rec_severity r \<in> {''warning'', ''critical''}) rs = []") (auto simp: unvalidated_def)

lemma raw_unvalidated: "p \<in> set (raw_proposals s report recs) \<Longrightarrow> unvalidated p"
  unfolding raw_proposals_def set_append Un_iff
proof (elim disjE)
  assume "p \<in> set (threshold_proposals s (ir_code_targets report))"
  then show ?thesis using threshold_proposal_in threshold_unvalidated by blast
next
  assume "p \<in> set (agent_config_proposals s (ir_code_targets report))"
  then show ?thesis unfolding agent_config_proposals_def
    by (auto dest: temperature_unvalidated review_unvalidated simp: map_filter_in split: if_splits)
next
  assume "p \<in> set (token_tuning_proposals (ir_token_level_targets report))"
  then show ?thesis unfolding token_tuning_proposals_def by (auto simp only: set_map make_proposal_unvalidated)
next
  assume "p \<in> set (architecture_proposals (ir_complexity_hotspots report) recs)"
  then show ?thesis by (rule architecture_unvalidated)
qed

lemma stamp_unvalidated:
  assumes "\<And>q. q \<in> set ps \<Longrightarrow> unvalidated q" "p \<in> set (stamp fresh now ps)"
  shows "unvalidated p"
proof -
  obtain q i where "q \<in> set ps" "p = q\<lparr>op_proposal_id := fresh i, op_timestamp := now\<rparr>" using stamp_in [OF assms(2)] by blast
  then show ?thesis using assms(1) [of q] by (simp add: unvalidated_def)
qed

lemma escalate_unvalidated [simp]: "unvalidated (escalate p) = unvalidated p"
  by (simp add: escalate_def unvalidated_def)

lemma generated_unvalidated:
  assumes "p \<in> set (pb_proposals (generate_proposals s fresh now report recs trends))"
  shows "unvalidated p"
proof -
  let ?ps = "stamp fresh now (raw_proposals s report recs)"
  have "p \<in> set (if ''confidence_declining'' \<in> set trends then map escalate ?ps else ?ps)"
    using assms keep_first_subset by (fastforce simp: generate_proposals_def Let_def)
  then obtain q where "q \<in> set ?ps" "p = q \<or> p = escalate q" by (auto split: if_splits)
  then show ?thesis using stamp_unvalidated [OF raw_unvalidated] by auto
qed

lemma improved_validated:
  assumes "run_cycle env i mtime node bs ledger w dir = (cycle, w', dir')" "improved cycle"
  shows "\<exists>n bs' rep. fst (live_validate env n bs' w (cy_proposals cycle)) = Inr rep \<and> vr_overall_improvement rep > 5 / 100"
  using assms(1)
proof (cases rule: run_cycle_ways)
  case (raised e mr)
  then show ?thesis using assms(2) by (simp add: improved_def new_cycle_def)
next
  case (nothing mr ir batch)
  then show ?thesis using assms(2) by (simp add: improved_def)
next
  case (validated mr ir batch)
  let ?bs = "if bs = [] then default_benchmarks else bs" and ?c = "analysed_cycle env i node mr ir batch"
  have ps: "cy_proposals cycle = pb_proposals batch" using run_cycle_cases [OF assms(1)] validated by (simp add: proposals_of_def)
  show ?thesis
  proof (cases "fst (live_validate env (cy_compute_node ?c) ?bs w (pb_proposals batch))")
    case (Inl e)
    then have "live_validate env (cy_compute_node ?c) ?bs w (pb_proposals batch) = (Inl e, w)"
      using live_validate_restores by (metis prod.collapse)
    then have "cycle = mark_failed (PipelineError e) (?c\<lparr>cy_phase := ''validation''\<rparr>)" using validated(3) by (simp add: validation_phase_def)
    then show ?thesis using assms(2) by (simp add: improved_def)
  next
    case (Inr rep)
    then have lv: "live_validate env (cy_compute_node ?c) ?bs w (pb_proposals batch) = (Inr rep, w)"
      using live_validate_restores by (metis prod.collapse)
    obtain e c1 w1 where t: "try_auto_inject env (decide rep ?c) (map (mark_validated rep) (pb_proposals batch)) w = (e, c1, w1)"
      by (metis prod_cases3)
    have "cy_vir_report cycle = Some (serialize_vir_report rep)"
      using validated(3) lv t try_auto_inject_cycle [OF t]
      by (auto simp: validation_phase_def Let_def split: if_splits option.splits)
    then show ?thesis using assms(2) Inr ps unfolding improved_def by auto
  qed
qed

lemma timed_map: "map (\<lambda>q. f (snd q)) (timed clock ps) = map f ps"
proof -
  have "map snd (timed clock ps) = map snd (zip [0..<length ps] ps)"
    by (simp add: timed_def comp_def case_prod_beta)
  then have "map snd (timed clock ps) = ps" by (simp add: map_snd_zip)
  then show ?thesis by (metis (no_types, lifting) comp_def map_eq_conv map_map)
qed

text \<open>Injecting a recorded cycle again and again.\<close>

definition injected_world :: "Surroundings \<Rightarrow> string \<Rightarrow> cycle_dir \<Rightarrow> World \<Rightarrow> World" where
  "injected_world env i dir w = (case inject_cycle env i dir w of Inl _ \<Rightarrow> w | Inr (_, w') \<Rightarrow> w')"

definition reachable_var :: "World \<Rightarrow> OptimizationProposal \<Rightarrow> bool" where
  "reachable_var w p \<longleftrightarrow> op_module_name p \<in> set (wd_importable w)
     \<and> (op_module_name p, op_target_name p) \<in> dom (map_of (wd_vars w))"

definition guard_room :: "nat \<Rightarrow> World \<Rightarrow> bool" where
  "guard_room n w \<longleftrightarrow> gd_config (wd_guard w) = default_guard_config \<and> length (gd_injection_timestamps (wd_guard w)) + n \<le> 5"

lemma is_injectable_config: "gd_config g = gd_config g' \<Longrightarrow> is_injectable g p = is_injectable g' p"
  by (simp add: is_injectable_def)

lemma inject_succeeds:
  assumes "numeric_update p" "fst (is_injectable new_guard p)" "reachable_var w p" "float_vars w" "guard_room (Suc n) w"
    "inject rl fresh now ts p c False w = (r, p', w')"
  shows "length (wd_log w') = Suc (length (wd_log w)) \<and> float_vars w' \<and> guard_room n w'
    \<and> (\<forall>q. reachable_var w q \<longrightarrow> reachable_var w' q)"
proof -
  have cfg: "gd_config (wd_guard w) = default_guard_config" and room: "length (gd_injection_timestamps (wd_guard w)) + Suc n \<le> 5"
    using assms(5) by (auto simp: guard_room_def)
  obtain reason where i: "is_injectable (wd_guard w) p = (True, reason)"
    using assms(2) is_injectable_config [of "wd_guard w" new_guard p] cfg by (metis new_guard_config prod.collapse)
  have len: "length (recent_injections now (gd_injection_timestamps (wd_guard w))) \<le> length (gd_injection_timestamps (wd_guard w))"
    by (simp add: recent_injections_def)
  then have "fst (check_rate_limit now (wd_guard w))"
    using room by (simp add: check_rate_limit_def Let_def cfg default_guard_config_def)
  then obtain g where g: "check_rate_limit now (wd_guard w) = (True, g)" by (metis prod.collapse)
  have g': "gd_config g = default_guard_config" "length (gd_injection_timestamps g) + Suc n \<le> 5"
    using g cfg room len by (auto simp: check_rate_limit_def Let_def)
  obtain v where v: "map_of (wd_vars w) (op_module_name p, op_target_name p) = Some v" and m: "op_module_name p \<in> set (wd_importable w)"
    using assms(3) by (auto simp: reachable_var_def)
  obtain e w1 where d: "inject_runtime fresh ts p c (w\<lparr>wd_guard := g\<rparr>) = (Inr e, w1)"
    using v m by (auto simp: inject_runtime_def snapshot_runtime_def Let_def)
  have fv: "float_vars (w\<lparr>wd_guard := g\<rparr>)" using assms(4) by (simp add: float_vars_def)
  note st = inject_runtime_logged [OF assms(1) fv d]
  have w': "w' = w1\<lparr>wd_guard := record_injection now (wd_guard w1)\<rparr>"
    using assms(6) i g d by (simp add: inject_def dispatch_runtime [OF assms(1)])
  have vars: "wd_vars w1 = dset (op_module_name p, op_target_name p) (coerce_value (op_proposed_value p) (py_str v)) (wd_vars w)"
    using d v m by (auto simp: inject_runtime_def snapshot_runtime_def Let_def)
  have f: "wd_guard w1 = g" "wd_log w1 = wd_log w @ [e]" "wd_importable w1 = wd_importable w" "float_vars w1"
    using st by (simp_all add: batch_logged_def)
  have "reachable_var w q \<Longrightarrow> reachable_var w' q" for q
    by (auto simp: reachable_var_def w' f(3) vars)
  moreover have "float_vars w'" using f(4) by (simp add: w' float_vars_def)
  ultimately show ?thesis
    using g' f(1,2) by (simp add: w' guard_room_def record_injection_def)
qed

lemma inject_batch_succeeds:
  assumes "\<And>q. q \<in> set ps \<Longrightarrow> numeric_update (snd q) \<and> fst (is_injectable new_guard (snd q)) \<and> reachable_var w (snd q)"
    "float_vars w" "guard_room (length ps) w" "inject_batch rl fresh ts ps c False w = (rs, w')"
  shows "length (wd_log w') = length (wd_log w) + length ps \<and> float_vars w' \<and> (\<forall>q. reachable_var w q \<longrightarrow> reachable_var w' q)"
  using assms
proof (induction ps arbitrary: w rs)
  case (Cons q ps)
  obtain t p where q: "q = (t, p)" by fastforce
  obtain r p' w1 where i: "inject rl fresh t ts p c False w = (r, p', w1)" by (metis prod_cases3)
  obtain rs' where b: "inject_batch rl fresh ts ps c False w1 = (rs', w')" using Cons.prems(4) q i by (auto split: prod.splits)
  have st: "length (wd_log w1) = Suc (length (wd_log w)) \<and> float_vars w1 \<and> guard_room (length ps) w1
    \<and> (\<forall>q. reachable_var w q \<longrightarrow> reachable_var w1 q)"
    using Cons.prems(1) [of q] Cons.prems(2,3) q by (intro inject_succeeds [OF _ _ _ _ _ i]) auto
  have "length (wd_log w') = length (wd_log w1) + length ps \<and> float_vars w' \<and> (\<forall>q. reachable_var w1 q \<longrightarrow> reachable_var w' q)"
    using Cons.prems(1) st by (intro Cons.IH [OF _ _ _ b]) auto
  with st show ?case by auto
qed simp

lemma injected_world_step:
  assumes "load_cycle dir i = Inr (Some cycle)" "cy_outcome cycle = ''needs_review'' \<or> cy_outcome cycle = ''promoted''"
    "\<forall>p \<in> set (cy_proposals cycle). numeric_update p \<and> fst (is_injectable new_guard p) \<and> reachable_var w p"
    "length (cy_proposals cycle) \<le> 5" "float_vars w"
  shows "length (wd_log (injected_world env i dir w)) = length (wd_log w) + length (cy_proposals cycle)
    \<and> float_vars (injected_world env i dir w) \<and> (\<forall>p. reachable_var w p \<longrightarrow> reachable_var (injected_world env i dir w) p)"
proof -
  let ?ps = "timed (env_clock env) (cy_proposals cycle)" and ?w = "w\<lparr>wd_guard := new_guard\<rparr>"
  obtain rs w' where b: "inject_batch (env_reload env) (env_rollback_ids env) (env_now env) ?ps i False ?w = (rs, w')" by fastforce
  have "injected_world env i dir w = w'"
    using assms(1,2) b by (auto simp: injected_world_def inject_cycle_def)
  moreover have "length (wd_log w') = length (wd_log ?w) + length ?ps \<and> float_vars w' \<and> (\<forall>q. reachable_var ?w q \<longrightarrow> reachable_var w' q)"
    using assms(3-5)
    by (intro inject_batch_succeeds [OF _ _ _ b])
      (auto simp: timed_def guard_room_def new_guard_def float_vars_def reachable_var_def dest!: set_zip_rightD)
  ultimately show ?thesis by (auto simp: timed_def reachable_var_def)
qed

section \<open>Properties\<close>

text \<open>
  C11: Every cycle runs to its end and is recorded under its id, without touching the record of another cycle.  When the
  analysis raises, in MAGI or in the introspection, the cycle is recorded as failed with that exception, without proposals and
  without a change to the running system.  Otherwise it has the number of proposals that the analysis made; with none it ends
  complete with the outcome \<^verbatim>\<open>no_proposals\<close>, and that outcome means none; with some it ends complete with one
  of the three verdicts, or failed with the error that the sandbox or the smoke test raised.
\<close>

theorem run_cycle_recorded:
  "(case run_cycle env i mtime node bs ledger w dir of (cycle, w', dir') \<Rightarrow>
      load_cycle dir' i = Inr (Some cycle)
      \<and> (\<forall>j. j = i \<or> load_cycle dir' j = load_cycle dir j)
      \<and> (case analysis_phase env ledger w of
           Inl (e, mr) \<Rightarrow> cy_phase cycle = ''failed'' \<and> cy_outcome cycle = ''failed'' \<and> cy_error cycle = Some (AnalysisRaised e)
             \<and> cy_proposals cycle = [] \<and> cy_proposal_count cycle = 0 \<and> w' = w
         | Inr (mr, ir, batch) \<Rightarrow> cy_proposals cycle = pb_proposals batch \<and> cy_proposal_count cycle = pb_total_proposals batch
             \<and> (cy_outcome cycle = ''no_proposals'' \<longleftrightarrow> cy_proposal_count cycle = 0)
             \<and> ((cy_phase cycle = ''complete'' \<and> cy_error cycle = None
                  \<and> cy_outcome cycle \<in> {''no_proposals'', ''promoted'', ''rejected'', ''needs_review''})
                \<or> (cy_phase cycle = ''failed'' \<and> (\<exists>e. cy_error cycle = Some (PipelineError e)) \<and> cy_outcome cycle = ''failed''))))"
proof -
  obtain cycle w' dir' where r: "run_cycle env i mtime node bs ledger w dir = (cycle, w', dir')" by (metis prod_cases3)
  note rc = run_cycle_cases [OF r]
  from rc have d: "dir' = persist_cycle mtime cycle dir" "cy_cycle_id cycle = i" by simp_all
  have "load_cycle dir' i = Inr (Some cycle)" using cycles.load_store d by metis
  moreover have "j = i \<or> load_cycle dir' j = load_cycle dir j" for j using cycles.load_other d by metis
  moreover have "w' = w" if "analysis_phase env ledger w = Inl x" for x
    using r that by (cases x) (auto simp: run_cycle_def Let_def)
  ultimately show ?thesis using rc r by (auto simp: proposals_of_def split: sum.splits)
qed

text \<open>
  C12: Only a cycle whose sandbox validation found an improvement above 0.05, with auto-injection switched on, injects
  anything: the report it records is that of the sandbox, run on the thresholds of the running aggregator, and the injection
  of the proposals it validated, under the id of the cycle, starts from the system exactly as it was before the sandbox ran.  Every other cycle leaves the
  running system exactly as it was, although the sandbox overwrote the thresholds of the running aggregator on the way.
\<close>

theorem run_cycle_injects_only_improvements:
  "(case run_cycle env i mtime node bs ledger w dir of (cycle, w', dir') \<Rightarrow>
      (if cy_auto_injected cycle
       then guard_is_enabled (env_auto_inject env) new_guard
         \<and> (\<exists>rep e c c'. fst (live_validate env node (if bs = [] then default_benchmarks else bs) w (cy_proposals cycle)) = Inr rep
              \<and> vr_overall_improvement rep > 5 / 100 \<and> cy_vir_report cycle = Some (serialize_vir_report rep)
              \<and> cy_cycle_id c = i
              \<and> try_auto_inject env c (map (mark_validated rep) (cy_proposals cycle)) w = (e, c', w') \<and> cy_injections cycle = cy_injections c')
       else w' = w))"
proof -
  obtain cycle w' dir' where r: "run_cycle env i mtime node bs ledger w dir = (cycle, w', dir')" by (metis prod_cases3)
  note rc = run_cycle_cases [OF r]
  have "\<exists>rep e c c'. fst (live_validate env node (if bs = [] then default_benchmarks else bs) w (cy_proposals cycle)) = Inr rep
      \<and> vr_overall_improvement rep > 5 / 100 \<and> cy_vir_report cycle = Some (serialize_vir_report rep)
      \<and> cy_cycle_id c = i
      \<and> try_auto_inject env c (map (mark_validated rep) (cy_proposals cycle)) w = (e, c', w') \<and> cy_injections cycle = cy_injections c'" if i: "cy_auto_injected cycle"
    using r
  proof (cases rule: run_cycle_ways)
    case (raised e mr)
    then show ?thesis using i by (simp add: new_cycle_def)
  next
    case (nothing mr ir batch)
    then show ?thesis using i by simp
  next
    case (validated mr ir batch)
    have "cy_proposals cycle = pb_proposals batch" using rc validated by (simp add: proposals_of_def)
    moreover obtain rep e c' where "fst (live_validate env node (if bs = [] then default_benchmarks else bs) w (pb_proposals batch)) = Inr rep"
      "vr_overall_improvement rep > 5 / 100" "cy_vir_report cycle = Some (serialize_vir_report rep)"
      "try_auto_inject env (decide rep (analysed_cycle env i node mr ir batch)) (map (mark_validated rep) (pb_proposals batch)) w = (e, c', w')"
      "cy_injections cycle = cy_injections c'"
      using validation_phase_injected [OF validated(3) _ i] by auto
    moreover have "cy_cycle_id (decide rep (analysed_cycle env i node mr ir batch)) = i" by simp
    ultimately show ?thesis by metis
  qed
  then show ?thesis using rc r by auto
qed

text \<open>
  Library fact: The statuses a validated cycle gives its proposals are lost: the record that is written holds
  the proposals as they were generated, so all of them are still marked as proposed, also those of
  a rejected cycle or those that were injected.
\<close>

theorem recorded_proposals_stay_proposed:
  assumes "run_cycle env i mtime node bs ledger w dir = (cycle, w', dir')"
    "load_cycle dir' i = Inr (Some stored)" "p \<in> set (cy_proposals stored)"
  shows "op_status p = ''proposed'' \<and> op_validation_result p = None"
proof -
  from run_cycle_cases [OF assms(1)] have d: "dir' = persist_cycle mtime cycle dir" "cy_cycle_id cycle = i"
    "cy_proposals cycle = proposals_of (analysis_phase env ledger w)" by simp_all
  have "stored = cycle" using assms(2) cycles.load_store [of mtime cycle dir] d by simp
  then have "p \<in> set (proposals_of (analysis_phase env ledger w))" using assms(3) d by simp
  then have "unvalidated p" unfolding analysis_phase_def proposals_of_def
    by (auto simp: Let_def run_introspection_pipeline_def intro: generated_unvalidated split: option.splits)
  then show ?thesis by (simp add: unvalidated_def)
qed


text \<open>
  Library fact: A cycle whose proposals only tighten the thresholds of the running aggregator is never
  promoted, so it changes nothing: with a quorum of at least one half the sandbox cannot see an
  improvement from a stricter threshold.
\<close>

theorem tightening_cycle_changes_nothing:
  assumes "run_cycle env i mtime node bs ledger w dir = (cycle, w', dir')" "live_thresholds w = Some th"
    "\<forall>p \<in> set (cy_proposals cycle). tightening th p" "1 / 2 \<le> th_quorum th"
  shows "cy_outcome cycle \<noteq> ''promoted'' \<and> \<not> cy_auto_injected cycle \<and> w' = w"
proof -
  note rc = run_cycle_cases [OF assms(1)]
  obtain am where am: "live_module w = Some am" "thresholds_of am = Some th"
    using assms(2) by (auto simp: live_thresholds_def bind_eq_Some_conv)
  have "\<not> improved cycle"
  proof
    assume "improved cycle"
    then obtain rep bs' n where v: "fst (live_validate env n bs' w (cy_proposals cycle)) = Inr rep"
      and rep: "vr_overall_improvement rep > 5 / 100"
      using improved_validated [OF assms(1)] by blast
    from live_validate_Inr [OF v] am(1) obtain am' where
      "vir_validate (env_similarity env) (env_vir_id env) (env_now env) n bs' am (cy_proposals cycle) = (Inr rep, am')" by auto
    from tightening_not_promoted [OF this am(2) _ assms(4)] assms(3) rep show False by auto
  qed
  then show ?thesis using rc by auto
qed

text \<open>
  Library fact: The hourly limit does not hold across injections of a recorded cycle: each call starts with a
  new guard that remembers no earlier injection, so injecting the same cycle n times within an
  hour applies and logs all of its proposals n times, whatever the maximum per hour is.
\<close>

theorem repeated_injection_is_unlimited:
  assumes "load_cycle dir i = Inr (Some cycle)" "cy_outcome cycle = ''needs_review'' \<or> cy_outcome cycle = ''promoted''"
    "\<forall>p \<in> set (cy_proposals cycle). numeric_update p \<and> fst (is_injectable new_guard p) \<and> reachable_var w p"
    "length (cy_proposals cycle) \<le> 5" "float_vars w"
  shows "length (wd_log ((injected_world env i dir ^^ n) w)) = length (wd_log w) + n * length (cy_proposals cycle)"
proof -
  have "length (wd_log ((injected_world env i dir ^^ n) w)) = length (wd_log w) + n * length (cy_proposals cycle)
     \<and> float_vars ((injected_world env i dir ^^ n) w)
     \<and> (\<forall>p \<in> set (cy_proposals cycle). reachable_var ((injected_world env i dir ^^ n) w) p)"
  proof (induction n)
    case (Suc n)
    let ?w = "(injected_world env i dir ^^ n) w"
    from injected_world_step [OF assms(1,2) _ assms(4), of ?w env] assms(3) Suc show ?case by auto
  qed (use assms(3,5) in auto)
  then show ?thesis by simp
qed

section \<open>Witnesses\<close>

definition sample_env :: "real \<Rightarrow> string \<Rightarrow> Surroundings" where
  "sample_env sim auto =
     \<lparr>env_str_of = (\<lambda>_. []), env_proposal_ids = nth_id, env_rollback_ids = nth_id, env_vir_id = ''v'', env_now = [],
      env_clock = (\<lambda>_. 0), env_reload = no_reload, env_similarity = Some (\<lambda>_ _. sim), env_auto_inject = auto,
      env_session_count = 1, env_analysis_fault = None, env_introspection_fault = None\<rparr>"

definition collapse_ledger :: ledger where
  "collapse_ledger = [(''1'', 1, Some ((sample_entry ''1'' 1)\<lparr>le_improvement_signals := [sample_signal]\<rparr>))]"

definition sample_cycle :: ImprovementCycle where
  "sample_cycle = (new_cycle ''c'' [] ''local'')
     \<lparr>cy_outcome := ''needs_review'', cy_proposals := [sample_update ''QUORUM_THRESHOLD'' (7/10)]\<rparr>"

lemma sample_smoke:
  "smoke_test (Some (\<lambda>_ _. 0)) \<lparr>th_quorum = 7/10, th_similarity = 1/2\<rparr>
     \<lparr>gd_config = default_guard_config, gd_injection_timestamps = [0]\<rparr> = Inr (False, ''weak'')"
  by code_simp

lemma sample_analysis:
  "map (\<lambda>p. (op_target_name p, op_proposed_value p))
     (proposals_of (analysis_phase (sample_env 1 []) collapse_ledger (sample_world\<lparr>wd_files := sample_files\<rparr>))) =
     [(''QUORUM_THRESHOLD'', VNum (71 / 100)), (''SIMILARITY_THRESHOLD'', VNum (45 / 100))]"
  by code_simp

definition sample_system :: World where
  "sample_system = sample_world\<lparr>wd_files := sample_files\<rparr>"

lemma sample_run:
  "\<exists>cycle w' dir'. run_cycle (sample_env 1 []) ''c'' 1 ''local'' [] collapse_ledger sample_system [] = (cycle, w', dir')
     \<and> load_cycle dir' ''c'' = Inr (Some cycle)
     \<and> map (\<lambda>p. (op_target_name p, op_proposed_value p)) (cy_proposals cycle) =
         [(''QUORUM_THRESHOLD'', VNum (71 / 100)), (''SIMILARITY_THRESHOLD'', VNum (45 / 100))]"
proof -
  obtain cycle w' dir' where r: "run_cycle (sample_env 1 []) ''c'' 1 ''local'' [] collapse_ledger sample_system [] = (cycle, w', dir')"
    by (metis prod_cases3)
  note rc = run_cycle_cases [OF r]
  have "load_cycle dir' ''c'' = Inr (Some cycle)" using cycles.load_store rc by metis
  then show ?thesis using r rc sample_analysis by (simp add: sample_system_def)
qed

lemma recorded_proposals_stay_proposed_witness:
  "\<exists>cycle w' dir' stored. run_cycle (sample_env 1 []) ''c'' 1 ''local'' [] collapse_ledger sample_system [] = (cycle, w', dir')
     \<and> load_cycle dir' ''c'' = Inr (Some stored) \<and> map op_status (cy_proposals stored) = [''proposed'', ''proposed'']"
proof -
  obtain cycle w' dir' where r: "run_cycle (sample_env 1 []) ''c'' 1 ''local'' [] collapse_ledger sample_system [] = (cycle, w', dir')"
    and l: "load_cycle dir' ''c'' = Inr (Some cycle)"
    and m: "map (\<lambda>p. (op_target_name p, op_proposed_value p)) (cy_proposals cycle) =
         [(''QUORUM_THRESHOLD'', VNum (71 / 100)), (''SIMILARITY_THRESHOLD'', VNum (45 / 100))]"
    using sample_run by (elim exE conjE) (rule that)
  from m obtain p q where pq: "cy_proposals cycle = [p, q]" by auto
  then have "op_status p = ''proposed''" "op_status q = ''proposed''"
    using recorded_proposals_stay_proposed [OF r l] by simp_all
  then show ?thesis using r l pq by simp
qed

lemma tightening_cycle_changes_nothing_witness:
  "\<exists>cycle dir'. run_cycle (sample_env 1 ''true'') ''c'' 1 ''local'' [] collapse_ledger sample_system [] = (cycle, sample_system, dir')
     \<and> cy_proposals cycle \<noteq> []"
proof -
  obtain cycle w' dir' where r: "run_cycle (sample_env 1 ''true'') ''c'' 1 ''local'' [] collapse_ledger sample_system [] = (cycle, w', dir')"
    by (metis prod_cases3)
  have "analysis_phase (sample_env 1 ''true'') collapse_ledger sample_system = analysis_phase (sample_env 1 []) collapse_ledger sample_system"
    by (simp add: analysis_phase_def sample_env_def)
  then have m: "map (\<lambda>p. (op_target_name p, op_proposed_value p)) (cy_proposals cycle) =
         [(''QUORUM_THRESHOLD'', VNum (71 / 100)), (''SIMILARITY_THRESHOLD'', VNum (45 / 100))]"
    using run_cycle_cases [OF r] sample_analysis by (simp add: sample_system_def)
  then obtain p q where pq: "cy_proposals cycle = [p, q]" by auto
  have th: "live_thresholds sample_system = Some \<lparr>th_quorum = 66/100, th_similarity = 1/2\<rparr>"
    by (simp add: live_thresholds_def live_module_def thresholds_of_def sample_system_def sample_world_def)
  have "\<forall>p \<in> set (cy_proposals cycle). tightening \<lparr>th_quorum = 66/100, th_similarity = 1/2\<rparr> p"
    using m by (simp add: pq tightening_def)
  from tightening_cycle_changes_nothing [OF r th this] r pq show ?thesis by auto
qed


lemma repeated_injection_is_unlimited_witness:
  "length (wd_log ((injected_world (sample_env 0 []) ''c'' [(''c'', 1, Some sample_cycle)] ^^ 10) sample_world)) = 10"
proof -
  have "fst (is_injectable new_guard (sample_update ''QUORUM_THRESHOLD'' (7/10)))"
    by (simp add: sample_injectable)
  moreover have "reachable_var sample_world (sample_update ''QUORUM_THRESHOLD'' (7/10))"
    by (simp add: reachable_var_def sample_world_def sample_update_def)
  ultimately show ?thesis
    using repeated_injection_is_unlimited [where dir = "[(''c'', 1, Some sample_cycle)]" and i = "''c''" and cycle = sample_cycle
        and w = sample_world and env = "sample_env 0 []" and n = 10]
    by (simp add: load_cycle_def sample_cycle_def new_cycle_def sample_numeric sample_float_vars) (simp add: sample_world_def)
qed

end
