(* ===== verification/Deliberation.thy ===== *)
theory Deliberation
  imports Prelude
begin

text \<open>
  \<^verbatim>\<open>maestro/deliberation.py\<close>: the error-sentinel test and the rounds in which every clean agent
  reads its peers' answers and replies again.  What an agent's \<^verbatim>\<open>fetch\<close> does is a parameter: by
  round, agent and prompt it replies with a text, returns \<^verbatim>\<open>None\<close> (as the agents do when the content of
  a message is null), raises an exception, or dies with a \<^verbatim>\<open>BaseException\<close> that \<^verbatim>\<open>gather\<close> hands back.
  An answer is therefore a text or \<^term>\<open>None\<close>, and the test for a sentinel raises a \<^verbatim>\<open>TypeError\<close> on \<^term>\<open>None\<close>.
\<close>

section \<open>Error sentinels\<close>

definition sentinel_tail :: "string \<Rightarrow> bool" where
  "sentinel_tail s =
     ((starts_with ''HTTP '' s \<and> length s \<ge> 8 \<and> list_all is_digit (take 3 (drop 5 s)))
      \<or> starts_with ''Timeout'' s \<or> starts_with ''Connection failed'' s \<or> starts_with ''Failed'' s
      \<or> starts_with ''API Key Missing'' s \<or> starts_with ''Malformed response'' s
      \<or> starts_with ''Content filtered'' s)"

fun closes_sentinel :: "string \<Rightarrow> bool" where
  "closes_sentinel [] = False"
| "closes_sentinel (c # cs) =
     ((starts_with ''] '' (c # cs) \<and> sentinel_tail (drop 2 (c # cs)))
      \<or> (c \<noteq> CHR 0x0A \<and> closes_sentinel cs))"

fun is_agent_error :: "string \<Rightarrow> bool" where
  "is_agent_error (b # c # cs) = (b = CHR ''['' \<and> c \<noteq> CHR 0x0A \<and> closes_sentinel cs)"
| "is_agent_error _ = False"

section \<open>Data\<close>

type_synonym answers = "(string, string option) dict"

record DeliberationRound =
  rd_round_number :: nat
  rd_responses :: answers

record DeliberationReport =
  dl_rounds_requested :: nat
  dl_rounds_completed :: nat
  dl_history :: "DeliberationRound list"
  dl_final_responses :: answers
  dl_agents_participated :: "string list"
  dl_skipped :: bool
  dl_skip_reason :: string

datatype fetch_result = Reply string | NoText | Raises | Dies

type_synonym fetch = "nat \<Rightarrow> string \<Rightarrow> string \<Rightarrow> fetch_result"

datatype deliberation_error = ValueError | TypeError

section \<open>Operations\<close>

definition build_deliberation_prompt ::
    "string \<Rightarrow> string \<Rightarrow> string \<Rightarrow> (string, string) dict \<Rightarrow> nat \<Rightarrow> string" where
  "build_deliberation_prompt original_prompt agent_name own_response peer_responses round_number =
     (let peer_block = join_with (nl @ nl)
            (map (\<lambda>(peer_name, peer_resp). ''['' @ peer_name @ '']'' @ nl @ peer_resp) peer_responses);
          round_label = (if round_number > 1 then ''Round '' @ nat_str round_number @ '' deliberation''
                         else ''deliberation'')
      in ''ORIGINAL QUESTION:'' @ nl @ original_prompt @ nl @ nl @
         ''YOUR PREVIOUS RESPONSE ('' @ agent_name @ ''):'' @ nl @ own_response @ nl @ nl @
         ''RESPONSES FROM OTHER MODELS IN THE COUNCIL:'' @ nl @ peer_block @ nl @ nl @
         ''---'' @ nl @
         ''You are now in '' @ round_label @ ''. Review what the other models said. '' @
         ''Consider whether they raise valid points you missed, whether you '' @
         ''disagree with their reasoning, or whether a synthesis is warranted. '' @
         ''Provide your refined answer to the original question. '' @
         ''Be direct: affirm your position, refine it, or challenge the peers. '' @
         ''Do not simply summarise what others said.'')"

text \<open>An answer that an f-string writes.\<close>

definition as_written :: "string option \<Rightarrow> string" where
  "as_written r = (case r of None \<Rightarrow> ''None'' | Some t \<Rightarrow> t)"

text \<open>The peers of an agent; \<^term>\<open>None\<close> is the \<^verbatim>\<open>TypeError\<close> of a peer whose answer is not a text.\<close>

definition peers_of :: "string list \<Rightarrow> answers \<Rightarrow> string \<Rightarrow> (string, string) dict option" where
  "peers_of clean_names current_responses name =
     (let others = filter (\<lambda>n. n \<noteq> name) clean_names
      in if list_ex (\<lambda>n. dget current_responses n (Some []) = None) others then None
         else Some (filter (\<lambda>(n, r). \<not> is_agent_error r)
           (map (\<lambda>n. (n, as_written (dget current_responses n (Some [])))) others)))"

text \<open>One agent's turn: \<open>None\<close> when the gathered item is an exception.\<close>

definition deliberate_one ::
    "fetch \<Rightarrow> string \<Rightarrow> string list \<Rightarrow> string list \<Rightarrow> nat \<Rightarrow> answers \<Rightarrow> string
     \<Rightarrow> (string \<times> string option) option" where
  "deliberate_one fetch prompt agents clean_names round_num current_responses name =
     (if name \<notin> set agents then Some (name, dget current_responses name (Some []))
      else let own_resp = dget current_responses name (Some [])
        in case peers_of clean_names current_responses name of
             None \<Rightarrow> None
           | Some peers \<Rightarrow>
               (case fetch round_num name (build_deliberation_prompt prompt name (as_written own_resp) peers round_num) of
                  Reply result \<Rightarrow> Some (name, Some result)
                | NoText \<Rightarrow> Some (name, None)
                | Raises \<Rightarrow> Some (name, own_resp)
                | Dies \<Rightarrow> None))"

definition apply_results :: "(string \<times> string option) option list \<Rightarrow> answers \<Rightarrow> answers" where
  "apply_results results round_responses =
     fold (\<lambda>item d. case item of None \<Rightarrow> d | Some (name, response) \<Rightarrow> dset name response d) results round_responses"

definition deliberation_round ::
    "fetch \<Rightarrow> string \<Rightarrow> string list \<Rightarrow> string list \<Rightarrow> nat
     \<Rightarrow> DeliberationReport \<times> answers \<Rightarrow> DeliberationReport \<times> answers" where
  "deliberation_round fetch prompt agents clean_names round_num s =
     (case s of (report, current_responses) \<Rightarrow>
        let results = map (deliberate_one fetch prompt agents clean_names round_num current_responses) clean_names;
            round_responses = apply_results results current_responses
        in (report\<lparr>dl_history := dl_history report @ [\<lparr>rd_round_number = round_num, rd_responses = round_responses\<rparr>],
                   dl_rounds_completed := dl_rounds_completed report + 1\<rparr>,
            round_responses))"

definition answered_cleanly :: "string option \<Rightarrow> bool" where
  "answered_cleanly r = (case r of None \<Rightarrow> False | Some t \<Rightarrow> \<not> is_agent_error t)"

definition clean_names_of :: "answers \<Rightarrow> string list" where
  "clean_names_of initial_responses = map fst (filter (\<lambda>(name, resp). answered_cleanly resp) initial_responses)"

definition debate_rounds :: "fetch \<Rightarrow> nat \<Rightarrow> string \<Rightarrow> string list \<Rightarrow> answers \<Rightarrow> DeliberationReport" where
  "debate_rounds fetch rounds prompt agents initial_responses =
     (let clean_names = clean_names_of initial_responses;
          report = \<lparr>dl_rounds_requested = rounds, dl_rounds_completed = 0,
                    dl_history = [\<lparr>rd_round_number = 0, rd_responses = initial_responses\<rparr>],
                    dl_final_responses = [], dl_agents_participated = [],
                    dl_skipped = False, dl_skip_reason = []\<rparr>
      in if length clean_names < 2 then
           report\<lparr>dl_final_responses := initial_responses, dl_skipped := True,
                  dl_skip_reason := ''Only '' @ nat_str (length clean_names) @ '' clean agent(s) available; '' @
                    ''deliberation requires at least 2.''\<rparr>
         else case fold (deliberation_round fetch prompt agents clean_names) [1..<rounds + 1] (report, initial_responses)
           of (report', current_responses) \<Rightarrow>
             report'\<lparr>dl_final_responses := current_responses, dl_agents_participated := clean_names\<rparr>)"

text \<open>The test of the initial answers raises on one that is not a text.\<close>

definition deliberation_run ::
    "fetch \<Rightarrow> nat \<Rightarrow> string \<Rightarrow> string list \<Rightarrow> answers \<Rightarrow> deliberation_error + DeliberationReport" where
  "deliberation_run fetch rounds prompt agents initial_responses =
     (if None \<in> set (dvalues initial_responses) then Inl TypeError
      else Inr (debate_rounds fetch rounds prompt agents initial_responses))"

text \<open>The constructor's check of \<^verbatim>\<open>rounds\<close> followed by a run, as the orchestrator calls them.\<close>

definition deliberation_engine ::
    "fetch \<Rightarrow> int \<Rightarrow> string \<Rightarrow> string list \<Rightarrow> answers \<Rightarrow> deliberation_error + DeliberationReport" where
  "deliberation_engine fetch rounds prompt agents initial_responses =
     (if rounds < 1 then Inl ValueError else deliberation_run fetch (nat rounds) prompt agents initial_responses)"

section \<open>Correctness\<close>

lemma dkeys_apply_results:
  "(\<And>n r. Some (n, r) \<in> set items \<Longrightarrow> n \<in> set (dkeys d)) \<Longrightarrow> dkeys (apply_results items d) = dkeys d"
proof (induction items arbitrary: d)
  case (Cons i items)
  show ?case
  proof (cases i)
    case None
    then show ?thesis using Cons by (simp add: apply_results_def)
  next
    case (Some nr)
    obtain n r where nr: "nr = (n, r)" by fastforce
    have k: "dkeys (dset n r d) = dkeys d" using Cons.prems [of n r] Some nr by (simp add: dkeys_dset)
    then have "dkeys (apply_results items (dset n r d)) = dkeys (dset n r d)"
      using Cons.prems by (intro Cons.IH) (metis list.set_intros(2))
    then show ?thesis using k Some nr by (simp add: apply_results_def)
  qed
qed (simp add: apply_results_def)

lemma apply_results_other:
  "(\<And>r. Some (n, r) \<notin> set items) \<Longrightarrow> map_of (apply_results items d) n = map_of d n"
proof (induction items arbitrary: d)
  case (Cons i items)
  have "map_of (apply_results items d') n = map_of d' n" for d'
    using Cons.prems by (intro Cons.IH) (meson list.set_intros(2))
  then show ?case using Cons.prems [of "snd (the i)"]
    by (cases i) (auto simp: apply_results_def split: prod.split)
qed (simp add: apply_results_def)

lemma apply_results_Cons:
  "apply_results (i # items) d = apply_results items (case i of None \<Rightarrow> d | Some (a, b) \<Rightarrow> dset a b d)"
  by (simp add: apply_results_def)

lemma apply_results_turns:
  assumes "distinct ns" "\<And>n r. f n = Some r \<Longrightarrow> fst r = n"
  shows "map_of (apply_results (map f ns) d) n =
     (if n \<in> set ns then case f n of None \<Rightarrow> map_of d n | Some r \<Rightarrow> Some (snd r) else map_of d n)"
  using assms(1)
proof (induction ns arbitrary: d)
  case (Cons m ns)
  show ?case
  proof (cases "f m")
    case None
    then show ?thesis using Cons by (auto simp: apply_results_Cons)
  next
    case (Some r)
    then have r: "r = (m, snd r)" using assms(2) [OF Some] by (cases r) simp
    with Some Cons show ?thesis by (cases r) (auto simp: apply_results_Cons split: option.split)
  qed
qed (simp add: apply_results_def)

lemma deliberate_one_name: "deliberate_one f p ags cl k cur n = Some r \<Longrightarrow> fst r = n"
  by (auto simp: deliberate_one_def Let_def split: if_splits fetch_result.splits option.splits)

lemma clean_names_keys: "set (clean_names_of rs) \<subseteq> set (dkeys rs)"
  by (auto simp: clean_names_of_def)

lemma distinct_clean_names: "well_keyed rs \<Longrightarrow> distinct (clean_names_of rs)"
  unfolding clean_names_of_def well_keyed_def by (rule distinct_map_filter)

lemma clean_name_iff:
  "well_keyed rs \<Longrightarrow> map_of rs n = Some r \<Longrightarrow> n \<in> set (clean_names_of rs) \<longleftrightarrow> answered_cleanly r"
  unfolding clean_names_of_def well_keyed_def
  by (auto dest: map_of_SomeD eq_key_imp_eq_value intro: rev_image_eqI)

lemma answered_cleanly_simps [simp]: "\<not> answered_cleanly None" "answered_cleanly (Some t) \<longleftrightarrow> \<not> is_agent_error t"
  by (simp_all add: answered_cleanly_def)

lemma dget_answer: "n \<in> set (dkeys cur) \<Longrightarrow> map_of cur n = Some (dget cur n d)"
  by (cases "map_of cur n") (auto simp: dget_def map_of_eq_None_iff)

text \<open>What the peers are: the clean agents but the one that asks, with their answers that are not errors.\<close>

lemma peers_of_None:
  assumes "set cl \<subseteq> set (dkeys cur)"
  shows "peers_of cl cur n = None \<longleftrightarrow> (\<exists>m \<in> set cl. m \<noteq> n \<and> map_of cur m = Some None)"
proof -
  have "dget cur m (Some []) = None \<longleftrightarrow> map_of cur m = Some None" if "m \<in> set cl" for m
  proof -
    have "m \<in> set (dkeys cur)" using assms that by blast
    from dget_answer [OF this, of "Some []"] show ?thesis by auto
  qed
  then show ?thesis by (auto simp: peers_of_def Let_def list_ex_iff)
qed

lemma peers_of_Some:
  assumes "set cl \<subseteq> set (dkeys cur)" "peers_of cl cur n = Some peers"
  shows "set peers = {(m, r). m \<in> set cl \<and> m \<noteq> n \<and> map_of cur m = Some (Some r) \<and> \<not> is_agent_error r}"
proof -
  have some: "\<exists>r. map_of cur m = Some (Some r) \<and> as_written (dget cur m (Some [])) = r" if "m \<in> set cl" "m \<noteq> n" for m
  proof -
    have "map_of cur m = Some (dget cur m (Some []))" using assms(1) that(1) by (intro dget_answer) blast
    moreover have "dget cur m (Some []) \<noteq> None" using assms(2) that by (auto simp: peers_of_def Let_def list_ex_iff split: if_splits)
    ultimately show ?thesis by (cases "dget cur m (Some [])") (simp_all add: as_written_def)
  qed
  have "peers = filter (\<lambda>(m, r). \<not> is_agent_error r) (map (\<lambda>m. (m, as_written (dget cur m (Some [])))) (filter (\<lambda>m. m \<noteq> n) cl))"
    using assms(2) by (auto simp: peers_of_def Let_def split: if_splits)
  then show ?thesis using some by fastforce
qed

text \<open>The state after \<open>k\<close> rounds.\<close>

definition rounds_state ::
    "fetch \<Rightarrow> string \<Rightarrow> string list \<Rightarrow> string list \<Rightarrow> DeliberationReport \<times> answers \<Rightarrow> nat
     \<Rightarrow> DeliberationReport \<times> answers" where
  "rounds_state f p ags cl s k = fold (deliberation_round f p ags cl) [1..<k + 1] s"

lemma rounds_state_0 [simp]: "rounds_state f p ags cl s 0 = s"
  by (simp add: rounds_state_def)

lemma rounds_state_Suc:
  "rounds_state f p ags cl s (Suc k) = deliberation_round f p ags cl (Suc k) (rounds_state f p ags cl s k)"
  by (simp add: rounds_state_def)

lemma rounds_state_history:
  "dl_rounds_completed (fst (rounds_state f p ags cl s k)) = dl_rounds_completed (fst s) + k
   \<and> dl_rounds_requested (fst (rounds_state f p ags cl s k)) = dl_rounds_requested (fst s)
   \<and> dl_skipped (fst (rounds_state f p ags cl s k)) = dl_skipped (fst s)
   \<and> dl_history (fst (rounds_state f p ags cl s k)) = dl_history (fst s)
       @ map (\<lambda>j. \<lparr>rd_round_number = j, rd_responses = snd (rounds_state f p ags cl s j)\<rparr>) [1..<k + 1]"
proof (induction k)
  case (Suc k)
  obtain rep cur where st: "rounds_state f p ags cl s k = (rep, cur)" by fastforce
  have "dl_history (fst (rounds_state f p ags cl s (Suc k))) =
      dl_history rep @ [\<lparr>rd_round_number = Suc k, rd_responses = snd (rounds_state f p ags cl s (Suc k))\<rparr>]"
    by (simp add: rounds_state_Suc st deliberation_round_def Let_def)
  then show ?case using Suc st by (simp add: rounds_state_Suc deliberation_round_def Let_def)
qed simp

lemma rounds_state_keys:
  assumes "set cl \<subseteq> set (dkeys (snd s))"
  shows "dkeys (snd (rounds_state f p ags cl s k)) = dkeys (snd s)"
proof (induction k)
  case (Suc k)
  obtain rep cur where st: "rounds_state f p ags cl s k = (rep, cur)" by fastforce
  have "dkeys (apply_results (map (deliberate_one f p ags cl (Suc k) cur) cl) cur) = dkeys cur"
    by (intro dkeys_apply_results) (use assms Suc st in \<open>auto dest!: deliberate_one_name [OF sym]\<close>)
  then show ?case using Suc st by (simp add: rounds_state_Suc deliberation_round_def Let_def)
qed simp

lemma rounds_state_step:
  assumes "distinct cl"
  shows "map_of (snd (rounds_state f p ags cl s (Suc k))) n =
     (let cur = snd (rounds_state f p ags cl s k) in
      if n \<in> set cl then (case deliberate_one f p ags cl (Suc k) cur n of None \<Rightarrow> map_of cur n | Some r \<Rightarrow> Some (snd r))
      else map_of cur n)"
  using apply_results_turns [OF assms deliberate_one_name]
  by (simp add: rounds_state_Suc deliberation_round_def Let_def case_prod_beta)

lemma rounds_state_keep:
  assumes "distinct cl" "\<And>j q. n \<in> set cl \<Longrightarrow> f j n q \<in> {Raises, Dies}" "n \<in> set (dkeys (snd s))"
    "set cl \<subseteq> set (dkeys (snd s))"
  shows "map_of (snd (rounds_state f p ags cl s k)) n = map_of (snd s) n"
proof (induction k)
  case (Suc k)
  let ?cur = "snd (rounds_state f p ags cl s k)"
  have no: "f j n q \<noteq> Reply r" "f j n q \<noteq> NoText" if "n \<in> set cl" for j q r using assms(2) [OF that, of j q] by auto
  from assms(3) obtain v where v: "map_of (snd s) n = Some v" by (metis map_of_eq_None_keys not_None_eq)
  then have own: "map_of ?cur n = Some v" "dget ?cur n (Some []) = v" using Suc by (auto simp: dget_def)
  show ?case
  proof (cases "n \<in> set cl")
    case True
    then show ?thesis
      using own v no [OF True] unfolding rounds_state_step [OF assms(1)] Let_def
      by (auto simp: deliberate_one_def Let_def split: fetch_result.splits option.splits)
  next
    case False
    then show ?thesis using Suc unfolding rounds_state_step [OF assms(1)] Let_def by simp
  qed
qed simp

lemma run_unfold:
  "debate_rounds f k p ags rs =
     (let cl = clean_names_of rs;
          report = \<lparr>dl_rounds_requested = k, dl_rounds_completed = 0,
                    dl_history = [\<lparr>rd_round_number = 0, rd_responses = rs\<rparr>], dl_final_responses = [],
                    dl_agents_participated = [], dl_skipped = False, dl_skip_reason = []\<rparr>
      in if length cl < 2 then
           report\<lparr>dl_final_responses := rs, dl_skipped := True,
                  dl_skip_reason := ''Only '' @ nat_str (length cl) @ '' clean agent(s) available; '' @
                    ''deliberation requires at least 2.''\<rparr>
         else (fst (rounds_state f p ags cl (report, rs) k))
                \<lparr>dl_final_responses := snd (rounds_state f p ags cl (report, rs) k), dl_agents_participated := cl\<rparr>)"
  by (simp add: debate_rounds_def rounds_state_def Let_def case_prod_beta)

text \<open>One round for a clean agent of the council: whom it reads, what it is asked, and what becomes of its answer.\<close>

definition answer_after :: "fetch_result \<Rightarrow> string option \<Rightarrow> string option" where
  "answer_after r own = (case r of Reply t \<Rightarrow> Some t | NoText \<Rightarrow> None | _ \<Rightarrow> own)"

definition fair_turn ::
    "fetch \<Rightarrow> string \<Rightarrow> string list \<Rightarrow> nat \<Rightarrow> answers \<Rightarrow> answers \<Rightarrow> string \<Rightarrow> bool" where
  "fair_turn f p cl j cur later n \<longleftrightarrow>
     (\<exists>own. map_of cur n = Some own \<and>
       (if \<exists>m \<in> set cl. m \<noteq> n \<and> map_of cur m = Some None then map_of later n = Some own
        else \<exists>peers. set peers = {(m, r). m \<in> set cl \<and> m \<noteq> n \<and> map_of cur m = Some (Some r) \<and> \<not> is_agent_error r}
          \<and> map_of later n = Some (answer_after (f j n (build_deliberation_prompt p n (as_written own) peers j)) own)))"

lemma rounds_state_fair:
  assumes "distinct cl" "set cl \<subseteq> set (dkeys (snd s))" "n \<in> set cl" "n \<in> set ags"
  shows "fair_turn f p cl (Suc k) (snd (rounds_state f p ags cl s k)) (snd (rounds_state f p ags cl s (Suc k))) n"
proof -
  let ?cur = "snd (rounds_state f p ags cl s k)"
  have sub: "set cl \<subseteq> set (dkeys ?cur)" using rounds_state_keys [OF assms(2), of f p ags k] assms(2) by simp
  then have own: "map_of ?cur n = Some (dget ?cur n (Some []))" using assms(3) by (intro dget_answer) blast
  note step = rounds_state_step [OF assms(1), of f p ags s k n]
  show ?thesis
  proof (cases "peers_of cl ?cur n")
    case None
    then show ?thesis using step own assms(3,4) peers_of_None [OF sub, of n]
      by (simp add: fair_turn_def Let_def deliberate_one_def)
  next
    case (Some peers)
    then have "\<not> (\<exists>m \<in> set cl. m \<noteq> n \<and> map_of ?cur m = Some None)" using peers_of_None [OF sub, of n] by simp
    then show ?thesis using step own assms(3,4) Some peers_of_Some [OF sub Some]
      by (auto simp: fair_turn_def Let_def deliberate_one_def answer_after_def split: fetch_result.splits intro!: exI [of _ peers])
  qed
qed

lemmas run_facts = rounds_state_history rounds_state_keys rounds_state_keep

section \<open>Properties\<close>

text \<open>
  C40: A run of the engine raises exactly when one of the answers it is given is not a text, and otherwise answers for exactly
  the agents it was given, in their order.  It is skipped exactly when fewer than two answers are clean and then returns the
  initial answers; otherwise it completes all its rounds, with the initial answers as round 0 of the history, every round
  under its number and the final answers as the last.  In every round a clean agent of the council is asked with exactly the answers of
  the other clean agents that are not errors, and what it replies becomes its answer; it keeps its answer when it raises, and when a
  peer's answer is not a text.  An agent that started with an error keeps it.
\<close>

theorem deliberation_sound:
  assumes "well_keyed rs"
  shows "case deliberation_run f k p ags rs of
      Inl e \<Rightarrow> e = TypeError \<and> None \<in> set (dvalues rs)
    | Inr report \<Rightarrow> None \<notin> set (dvalues rs)
        \<and> dkeys (dl_final_responses report) = dkeys rs
        \<and> dl_skipped report = (length (clean_names_of rs) < 2)
        \<and> hd (dl_history report) = \<lparr>rd_round_number = 0, rd_responses = rs\<rparr>
        \<and> (if dl_skipped report
           then dl_final_responses report = rs \<and> dl_rounds_completed report = 0 \<and> length (dl_history report) = 1
           else dl_rounds_completed report = k \<and> map rd_round_number (dl_history report) = [0..<k + 1]
             \<and> rd_responses (last (dl_history report)) = dl_final_responses report
             \<and> (\<forall>j < k. \<forall>n \<in> set (clean_names_of rs) \<inter> set ags.
                  fair_turn f p (clean_names_of rs) (Suc j) (rd_responses (dl_history report ! j)) (rd_responses (dl_history report ! Suc j)) n))
        \<and> (\<forall>n \<in> set (dkeys rs) - set (clean_names_of rs). map_of (dl_final_responses report) n = map_of rs n)"
proof (cases "None \<in> set (dvalues rs)")
  case True
  then show ?thesis by (simp add: deliberation_run_def)
next
  case False
  let ?cl = "clean_names_of rs"
  let ?s = "(\<lparr>dl_rounds_requested = k, dl_rounds_completed = 0,
      dl_history = [\<lparr>rd_round_number = 0, rd_responses = rs\<rparr>], dl_final_responses = [],
      dl_agents_participated = [], dl_skipped = False, dl_skip_reason = []\<rparr>, rs)"
  let ?r = "debate_rounds f k p ags rs"
  have sub: "set ?cl \<subseteq> set (dkeys (snd ?s))" using clean_names_keys by simp
  have run: "deliberation_run f k p ags rs = Inr ?r" using False by (simp add: deliberation_run_def)
  have keep: "map_of (snd (rounds_state f p ags ?cl ?s k)) n = map_of rs n" if "n \<in> set (dkeys rs) - set ?cl" for n
    using rounds_state_keep [OF distinct_clean_names [OF assms], of n f ?s p ags k] that sub by auto
  have keys: "dkeys (snd (rounds_state f p ags ?cl ?s k)) = dkeys rs"
    using rounds_state_keys [OF sub, of f p ags k] by simp
  show ?thesis
  proof (cases "length ?cl < 2")
    case True
    then show ?thesis using False run by (simp add: run_unfold Let_def)
  next
    case long: False
    have hist: "dl_history ?r = map (\<lambda>j. \<lparr>rd_round_number = j, rd_responses = snd (rounds_state f p ags ?cl ?s j)\<rparr>) [0..<k + 1]"
      using rounds_state_history [of f p ags ?cl ?s k] long by (simp add: run_unfold Let_def upt_rec [of 0])
    have final: "dl_final_responses ?r = snd (rounds_state f p ags ?cl ?s k)" "dl_rounds_completed ?r = k" "\<not> dl_skipped ?r"
      using rounds_state_history [of f p ags ?cl ?s k] long by (simp_all add: run_unfold Let_def)
    have "fair_turn f p ?cl (Suc j) (rd_responses (dl_history ?r ! j)) (rd_responses (dl_history ?r ! Suc j)) n"
      if "j < k" "n \<in> set ?cl \<inter> set ags" for j n
      using rounds_state_fair [OF distinct_clean_names [OF assms] sub, of n ags f p j] that by (simp add: hist del: upt_Suc)
    moreover have "hd (dl_history ?r) = \<lparr>rd_round_number = 0, rd_responses = rs\<rparr>"
      "rd_responses (last (dl_history ?r)) = dl_final_responses ?r" "map rd_round_number (dl_history ?r) = [0..<k + 1]"
      unfolding hist final(1) by (simp_all add: hd_map last_map comp_def upt_rec [of 0] del: upt_Suc)
    ultimately show ?thesis using False run final keys keep long by simp
  qed
qed

lemma two_clean_names: "clean_names_of [(''a'', Some ''x''), (''b'', Some ''y''), (''c'', Some ''[c] Timeout'')] = [''a'', ''b'']"
  by (simp add: clean_names_of_def sentinel_tail_def starts_with_def)

lemma deliberation_sound_witness:
  "\<exists>report. deliberation_run (\<lambda>_ n _. Reply n) 2 ''q'' [''a'', ''b''] [(''a'', Some ''x''), (''b'', Some ''y''), (''c'', Some ''[c] Timeout'')]
      = Inr report \<and> dl_rounds_completed report = 2
    \<and> map_of (dl_final_responses report) ''c'' = Some (Some ''[c] Timeout'')"
  using deliberation_sound [where rs = "[(''a'', Some ''x''), (''b'', Some ''y''), (''c'', Some ''[c] Timeout'')]"
      and f = "\<lambda>_ n _. Reply n" and k = 2 and p = "''q''" and ags = "[''a'', ''b'']"]
  by (simp add: well_keyed_def two_clean_names deliberation_run_def split: if_splits)

text \<open>
  Library fact: an agent whose calls never return (they raise, or are cancelled) in any round ends
  with the answer it started with.
\<close>

theorem failing_agent_keeps_answer:
  assumes "well_keyed rs" "n \<in> set (dkeys rs)" "\<And>j q. f j n q \<in> {Raises, Dies}"
  shows "map_of (dl_final_responses (debate_rounds f k p ags rs)) n = map_of rs n"
proof -
  have "map_of (snd (rounds_state f p ags (clean_names_of rs) (r, rs) k)) n = map_of rs n" for r
    using rounds_state_keep [OF distinct_clean_names [OF assms(1)], of n f "(r, rs)" p ags k]
      assms(2, 3) clean_names_keys [of rs] by simp
  then show ?thesis by (simp add: run_unfold Let_def)
qed

lemma failing_agent_keeps_answer_witness:
  "map_of (dl_final_responses (debate_rounds (\<lambda>_ n _. if n = ''a'' then Raises else Reply ''z'') 3 ''q'' [''a'', ''b'']
     [(''a'', Some ''x''), (''b'', Some ''y'')])) ''a'' = Some (Some ''x'')"
  using failing_agent_keeps_answer [of "[(''a'', Some ''x''), (''b'', Some ''y'')]" "''a''"
      "\<lambda>_ n _. if n = ''a'' then Raises else Reply ''z''" 3 "''q''" "[''a'', ''b'']"]
  by (simp add: well_keyed_def)

text \<open>
  Library fact: whatever an agent of the council replies in the first round replaces its answer, an error
  sentinel included: a clean answer is lost when the deliberation call of that agent times out,
  because the agents return their errors as text instead of raising them.
\<close>

theorem last_reply_replaces_answer:
  assumes "well_keyed rs" "None \<notin> set (dvalues rs)" "2 \<le> length (clean_names_of rs)" "n \<in> set (clean_names_of rs)" "n \<in> set ags"
    and "\<And>q. f 1 n q = Reply r"
  shows "map_of (dl_final_responses (debate_rounds f 1 p ags rs)) n = Some (Some r)"
proof -
  have "fair_turn f p (clean_names_of rs) (Suc 0) rs (snd (rounds_state f p ags (clean_names_of rs) (rep, rs) (Suc 0))) n" for rep
    using rounds_state_fair [OF distinct_clean_names [OF assms(1)], of "(rep, rs)" n ags f p 0] clean_names_keys [of rs] assms(4,5) by simp
  moreover have "map_of rs m \<noteq> Some None" for m using assms(2) by (force dest: map_of_SomeD)
  ultimately have "map_of (snd (rounds_state f p ags (clean_names_of rs) (rep, rs) (Suc 0))) n = Some (Some r)" for rep
    using assms(6) by (auto simp: fair_turn_def answer_after_def)
  then show ?thesis using assms(3) by (simp add: run_unfold Let_def)
qed

lemma last_reply_replaces_answer_witness:
  "map_of (dl_final_responses (debate_rounds (\<lambda>_ n _. if n = ''a'' then Reply ''[a] Timeout'' else Reply ''y'') 1 ''q''
     [''a'', ''b''] [(''a'', Some ''x''), (''b'', Some ''y''), (''c'', Some ''[c] Timeout'')])) ''a'' = Some (Some ''[a] Timeout'')"
  by (rule last_reply_replaces_answer) (simp_all add: well_keyed_def two_clean_names)

end
