(* ===== verification/Session.thy ===== *)
theory Session
  imports Aggregator Stores
begin

text \<open>
  \<^verbatim>\<open>maestro/session.py\<close>: the records of the orchestration sessions, one file per session id with its
  modification time, \<^term>\<open>None\<close> when the file does not hold a record.
\<close>

section \<open>Data\<close>

record SessionRecord =
  sn_session_id :: string
  sn_timestamp :: string
  sn_prompt :: string
  sn_agent_responses :: "(string, string) dict"
  sn_consensus :: AggregateResult
  sn_ncg_benchmark :: "NcgSection option"
  sn_agents_used :: "string list"
  sn_ncg_enabled :: bool

type_synonym session_dir = "(string, nat \<times> SessionRecord option) dict"

datatype session_error = SessionNotFound | SessionDecodeError

section \<open>Operations\<close>

definition session_save :: "nat \<Rightarrow> SessionRecord \<Rightarrow> session_dir \<Rightarrow> session_dir" where
  "session_save mtime r dir = dset (sn_session_id r) (mtime, Some r) dir"

definition session_load :: "session_dir \<Rightarrow> string \<Rightarrow> session_error + SessionRecord" where
  "session_load dir session_id =
     (case map_of dir session_id of
        None \<Rightarrow> Inl SessionNotFound
      | Some (_, None) \<Rightarrow> Inl SessionDecodeError
      | Some (_, Some r) \<Rightarrow> Inr r)"

definition session_files :: "session_dir \<Rightarrow> (string \<times> nat \<times> SessionRecord option) list" where
  "session_files dir = sort_desc (\<lambda>(_, mtime, _). int mtime) dir"

record SessionSummary =
  ss_session_id :: string
  ss_timestamp :: string
  ss_prompt :: string
  ss_agent_count :: nat
  ss_ncg_enabled :: bool
  ss_silent_collapse :: bool

definition session_summary :: "SessionRecord \<Rightarrow> SessionSummary" where
  "session_summary r =
     \<lparr>ss_session_id = sn_session_id r, ss_timestamp = sn_timestamp r, ss_prompt = take 120 (sn_prompt r),
      ss_agent_count = length (sn_agent_responses r), ss_ncg_enabled = sn_ncg_enabled r,
      ss_silent_collapse = (case sn_ncg_benchmark r of None \<Rightarrow> False | Some b \<Rightarrow> nsec_silent_collapse b)\<rparr>"

definition list_sessions :: "session_dir \<Rightarrow> nat \<Rightarrow> nat \<Rightarrow> SessionSummary list" where
  "list_sessions dir limit offset =
     map session_summary (List.map_filter (\<lambda>(_, _, c). c) (take limit (drop offset (session_files dir))))"

definition list_all_ids :: "session_dir \<Rightarrow> string list" where
  "list_all_ids dir = map fst (session_files dir)"

definition session_delete :: "string \<Rightarrow> session_dir \<Rightarrow> bool \<times> session_dir" where
  "session_delete session_id dir =
     (if session_id \<in> set (dkeys dir) then (True, ddel session_id dir) else (False, dir))"

definition session_count :: "session_dir \<Rightarrow> nat" where
  "session_count dir = length dir"

definition build_session_record ::
    "string \<Rightarrow> string \<Rightarrow> string \<Rightarrow> (string, string) dict \<Rightarrow> AggregateResult \<Rightarrow> bool \<Rightarrow> string list \<Rightarrow> SessionRecord" where
  "build_session_record session_id now prompt agent_responses final_output ncg_enabled agents_used =
     \<lparr>sn_session_id = session_id, sn_timestamp = now, sn_prompt = prompt, sn_agent_responses = agent_responses,
      sn_consensus = final_output, sn_ncg_benchmark = ag_ncg_benchmark final_output,
      sn_agents_used = (if agents_used = [] then dkeys agent_responses else agents_used), sn_ncg_enabled = ncg_enabled\<rparr>"

section \<open>Correctness\<close>

interpretation sessions: deletable_store sn_session_id "session_save mtime" session_load Inr
    "\<lambda>i dir. snd (session_delete i dir)" "Inl SessionNotFound" for mtime
  by unfold_locales (simp_all add: session_save_def session_load_def session_delete_def map_of_keys)

lemma session_files_length [simp]: "length (session_files dir) = length dir"
  by (simp add: session_files_def sort_desc_def)

lemma session_files_set [simp]: "set (session_files dir) = set dir"
  by (simp add: session_files_def sort_desc_def)

section \<open>Properties\<close>

text \<open>
  Library fact: The session directory is a faithful store: of a series of records with different ids each is
  loaded back as saved and no other session changes; deleting reports whether the session existed,
  makes it unloadable and leaves the others; and every session listed can be loaded.
\<close>

theorem session_store_correct:
  assumes "distinct (map sn_session_id rs)" "r \<in> set rs"
  shows "session_load (fold (session_save t) rs dir) (sn_session_id r) = Inr r
    \<and> (\<forall>i. i \<in> sn_session_id ` set rs \<or> session_load (fold (session_save t) rs dir) i = session_load dir i)
    \<and> (fst (session_delete i dir) \<longleftrightarrow> session_load dir i \<noteq> Inl SessionNotFound)
    \<and> session_load (snd (session_delete i dir)) i = Inl SessionNotFound
    \<and> (j = i \<or> session_load (snd (session_delete i dir)) j = session_load dir j)
    \<and> set (list_all_ids dir) = {i. session_load dir i \<noteq> Inl SessionNotFound}"
proof -
  have d: "session_load dir i \<noteq> Inl SessionNotFound \<longleftrightarrow> i \<in> set (dkeys dir)" for i
    by (cases "map_of dir i") (auto simp: session_load_def map_of_eq_None_iff split: option.splits dest!: map_of_SomeD intro: rev_image_eqI)
  have e: "set (list_all_ids dir) = {i. session_load dir i \<noteq> Inl SessionNotFound}"
    "fst (session_delete i dir) \<longleftrightarrow> session_load dir i \<noteq> Inl SessionNotFound"
    unfolding d by (auto simp: list_all_ids_def session_delete_def)
  show ?thesis
    using sessions.load_store_all [OF assms, of t dir] sessions.load_store_all_other [of _ rs t dir]
      sessions.load_removed [of i dir] sessions.load_remove_other [of j i dir]
    unfolding e sessions.store_all_def by blast
qed

lemma session_store_correct_witness:
  "\<forall>r. session_load (fold (session_save 3) [r, r\<lparr>sn_session_id := sn_session_id r @ ''x''\<rparr>] []) (sn_session_id r) = Inr r"
proof
  fix r :: SessionRecord
  show "session_load (fold (session_save 3) [r, r\<lparr>sn_session_id := sn_session_id r @ ''x''\<rparr>] []) (sn_session_id r) = Inr r"
    using session_store_correct [of "[r, r\<lparr>sn_session_id := sn_session_id r @ ''x''\<rparr>]" r 3 "[]"] by simp
qed

end
