(* ===== verification/Orchestrator.thy ===== *)
theory Orchestrator
  imports Deliberation Session Magi_Vir
begin

text \<open>
  \<^verbatim>\<open>maestro/orchestrator.py\<close>: one orchestration, plain and streaming.  An agent is its name; what its
  \<^verbatim>\<open>fetch\<close> does is the parameter of the deliberation theory, round 0 being the initial query.  The
  model is that of a run without plugin manager.  The headless generator, the ids, the clock and
  whether the two writes to disk succeed are fields of the environment.
\<close>

section \<open>Agent errors\<close>

record AgentError =
  ae_agent :: string
  ae_code :: "nat option"
  ae_kind :: string
  ae_raw :: string

definition digit_value :: "char \<Rightarrow> nat" where
  "digit_value c = of_char c - 48"

text \<open>The first match of \<^verbatim>\<open>HTTP (\d{3})\<close>.\<close>

fun http_code :: "string \<Rightarrow> nat option" where
  "http_code [] = None"
| "http_code (c # cs) =
     (let s = c # cs; code = take 3 (drop 5 s) in
      if starts_with ''HTTP '' s \<and> length s \<ge> 8 \<and> list_all is_digit code
      then Some (fold (\<lambda>d n. 10 * n + digit_value d) code 0)
      else http_code cs)"

definition http_error_kind :: "nat \<Rightarrow> string" where
  "http_error_kind code =
     (if code = 401 \<or> code = 403 then ''auth''
      else if code = 404 then ''not_found''
      else if code = 429 then ''rate_limit''
      else if 500 \<le> code \<and> code < 600 then ''server''
      else ''http'')"

definition classify_agent_error :: "string \<Rightarrow> string \<Rightarrow> AgentError" where
  "classify_agent_error agent_name response =
     (case http_code response of
        Some code \<Rightarrow> \<lparr>ae_agent = agent_name, ae_code = Some code, ae_kind = http_error_kind code, ae_raw = response\<rparr>
      | None \<Rightarrow> \<lparr>ae_agent = agent_name, ae_code = None,
          ae_kind = (if occurs_in ''Timeout'' response then ''timeout''
                     else if occurs_in ''Connection failed'' response then ''connection''
                     else if occurs_in ''API Key Missing'' response then ''auth''
                     else if occurs_in ''Content filtered'' response then ''filtered''
                     else ''unknown''),
          ae_raw = response\<rparr>)"

section \<open>Settings and results\<close>

record Settings =
  set_ncg_enabled :: bool
  set_session_logging :: bool
  set_deliberation_enabled :: bool
  set_deliberation_rounds :: int

record Council =
  co_fetch :: fetch
  co_similarity :: similarity
  co_generate :: "string \<Rightarrow> NcgOutput option"
  co_thresholds :: Thresholds
  co_session_id :: string
  co_entry_id :: string
  co_now :: string
  co_mtime :: nat
  co_session_written :: bool
  co_entry_written :: bool

text \<open>The summary of a deliberation: whether it was enabled when there is no report, else the report's figures.\<close>

datatype DeliberationSummary =
    NoDeliberation bool
  | Deliberated nat nat "string list" bool "string option"

record R2Attachment =
  ra_grade :: string
  ra_confidence_score :: real
  ra_flags :: "string list"
  ra_signal_count :: nat
  ra_entry_id :: string

text \<open>What ends a run: the error of the aggregation, or the \<^verbatim>\<open>TypeError\<close> of the sentinel test on an answer that is not a text.\<close>

datatype orchestration_error = AggregationFailed agg_error | AnswerNotText

record OrchestrationResult =
  or_responses :: "string list"
  or_named_responses :: "(string, string) dict"
  or_agent_errors :: "AgentError list"
  or_final_output :: AggregateResult
  or_r2 :: "R2Attachment option"
  or_session_id :: "string option"
  or_deliberation :: DeliberationSummary

section \<open>The stages\<close>

definition failed_reply :: "string \<Rightarrow> string" where
  "failed_reply name = ''['' @ name @ ''] Failed''"

text \<open>An exception of the gather becomes an error sentinel; \<^term>\<open>None\<close> is the answer of an agent that returned no text.\<close>

definition first_reply :: "fetch \<Rightarrow> string \<Rightarrow> string \<Rightarrow> string option" where
  "first_reply fetch prompt name =
     (case fetch 0 name prompt of Reply r \<Rightarrow> Some r | NoText \<Rightarrow> None | _ \<Rightarrow> Some (failed_reply name))"

definition raised :: "fetch \<Rightarrow> string \<Rightarrow> string \<Rightarrow> bool" where
  "raised fetch prompt name = (fetch 0 name prompt \<in> {Raises, Dies})"

fun gather_responses ::
    "fetch \<Rightarrow> string \<Rightarrow> string list \<Rightarrow> answers \<Rightarrow> AgentError list \<Rightarrow> orchestration_error + answers \<times> AgentError list" where
  "gather_responses fetch prompt [] named_responses agent_errors = Inr (named_responses, agent_errors)"
| "gather_responses fetch prompt (name # agents) named_responses agent_errors =
     (case first_reply fetch prompt name of
        None \<Rightarrow> Inl AnswerNotText
      | Some response \<Rightarrow>
          gather_responses fetch prompt agents (dset name (Some response) named_responses)
            (if raised fetch prompt name \<or> is_agent_error response
             then agent_errors @ [classify_agent_error name response] else agent_errors))"

definition deliberation_stage ::
    "Council \<Rightarrow> Settings \<Rightarrow> string \<Rightarrow> string list \<Rightarrow> answers \<Rightarrow> DeliberationReport option \<times> answers" where
  "deliberation_stage c s prompt agents named_responses =
     (if \<not> set_deliberation_enabled s then (None, named_responses)
      else case deliberation_engine (co_fetch c) (set_deliberation_rounds s) prompt agents named_responses of
        Inl _ \<Rightarrow> (None, named_responses)
      | Inr report \<Rightarrow>
          (Some report, if dl_skipped report then named_responses else dl_final_responses report))"

text \<open>The sentinel test on all answers, which raises on one that is not a text.\<close>

definition tested_answers :: "answers \<Rightarrow> orchestration_error + (string, string) dict" where
  "tested_answers named_responses =
     (if None \<in> set (dvalues named_responses) then Inl AnswerNotText
      else Inr (map (\<lambda>(name, r). (name, as_written r)) named_responses))"

definition clean_responses_of :: "(string, string) dict \<Rightarrow> (string, string) dict" where
  "clean_responses_of named_responses = filter (\<lambda>(name, resp). \<not> is_agent_error resp) named_responses"

definition analysis_input :: "(string, string) dict \<Rightarrow> (string, string) dict" where
  "analysis_input named_responses =
     (let clean_responses = clean_responses_of named_responses
      in if clean_responses \<noteq> [] then clean_responses else named_responses)"

definition ncg_stage ::
    "Council \<Rightarrow> Settings \<Rightarrow> string \<Rightarrow> (string, string) dict \<Rightarrow> DissentReport \<Rightarrow> DriftReport option" where
  "ncg_stage c s prompt conversational dissent_report =
     (if \<not> set_ncg_enabled s then None
      else map_option (\<lambda>ncg_output. drift_analyze (drift_semantic_distance (co_similarity c)) prompt ncg_output
             conversational (Some (dr_internal_agreement dissent_report))) (co_generate c prompt))"

definition session_stage ::
    "Council \<Rightarrow> Settings \<Rightarrow> string \<Rightarrow> string list \<Rightarrow> (string, string) dict \<Rightarrow> AggregateResult \<Rightarrow> session_dir
     \<Rightarrow> string option \<times> session_dir" where
  "session_stage c s prompt agents named_responses final_output sessions =
     (if set_session_logging s \<and> co_session_written c
      then let record' = build_session_record (co_session_id c) (co_now c) prompt named_responses final_output
                 (set_ncg_enabled s) agents
           in (Some (sn_session_id record'), session_save (co_mtime c) record' sessions)
      else (None, sessions))"

definition r2_stage ::
    "Council \<Rightarrow> string \<Rightarrow> string list \<Rightarrow> DissentReport \<Rightarrow> DriftReport option \<Rightarrow> AggregateResult \<Rightarrow> string option
     \<Rightarrow> ledger \<Rightarrow> R2Attachment option \<times> ledger" where
  "r2_stage c prompt agents dissent_report drift_report final_output session_id ledger =
     (let r2_score = score_session dissent_report drift_report (ag_confidence final_output);
          r2_signals = detect_signals r2_score dissent_report
      in if \<not> co_entry_written c then (None, ledger)
         else case r2_index (co_entry_id c) (co_mtime c) (co_now c) session_id prompt (ag_consensus final_output) agents
                r2_score r2_signals dissent_report drift_report ledger of
           (indexed, ledger') \<Rightarrow>
             (Some \<lparr>ra_grade = r2_grade r2_score, ra_confidence_score = r2_confidence_score r2_score,
                    ra_flags = r2_flags r2_score, ra_signal_count = length r2_signals,
                    ra_entry_id = le_entry_id indexed\<rparr>, ledger'))"

definition summarize_deliberation :: "Settings \<Rightarrow> DeliberationReport option \<Rightarrow> DeliberationSummary" where
  "summarize_deliberation s report =
     (case report of
        None \<Rightarrow> NoDeliberation (set_deliberation_enabled s)
      | Some r \<Rightarrow> Deliberated (dl_rounds_requested r) (dl_rounds_completed r) (dl_agents_participated r) (dl_skipped r)
                    (if dl_skipped r then Some (dl_skip_reason r) else None))"

section \<open>The orchestration\<close>

definition run_orchestration ::
    "Council \<Rightarrow> Settings \<Rightarrow> string \<Rightarrow> string list \<Rightarrow> session_dir \<Rightarrow> ledger
     \<Rightarrow> orchestration_error + OrchestrationResult \<times> session_dir \<times> ledger" where
  "run_orchestration c s prompt agents sessions ledger =
     bind_res (gather_responses (co_fetch c) prompt agents [] []) (\<lambda>(answers, agent_errors).
       let (report, answers) = deliberation_stage c s prompt agents answers
       in bind_res (tested_answers answers) (\<lambda>named_responses.
            let conversational = analysis_input named_responses;
                responses = dvalues conversational;
                dissent_report = dissent_analyze (semantic_distance (co_similarity c)) prompt conversational;
                drift_report = ncg_stage c s prompt conversational dissent_report
            in case aggregate_responses (co_thresholds c) (RespList responses) drift_report (Some dissent_report) of
                 Inl e \<Rightarrow> Inl (AggregationFailed e)
               | Inr final_output \<Rightarrow>
                   (let (session_id, sessions') = session_stage c s prompt agents named_responses final_output sessions;
                        (r2, ledger') = r2_stage c prompt agents dissent_report drift_report final_output session_id ledger
                    in Inr (\<lparr>or_responses = responses, or_named_responses = named_responses, or_agent_errors = agent_errors,
                             or_final_output = final_output, or_r2 = r2, or_session_id = session_id,
                             or_deliberation = summarize_deliberation s report\<rparr>, sessions', ledger'))))"

section \<open>The streaming orchestration\<close>

text \<open>
  The stream is the list of the events it yields.  The agents complete in the order of the list
  \<open>completed\<close>, a permutation of the council.
\<close>

record ConsensusData =
  cd_consensus :: string
  cd_confidence :: string
  cd_agreement_ratio :: real
  cd_quorum_met :: bool
  cd_quorum_threshold :: real
  cd_note :: string

record DoneData =
  dn_responses :: "(string, string) dict"
  dn_agent_errors :: "AgentError list"
  dn_session_id :: "string option"
  dn_consensus :: ConsensusData
  dn_deliberation :: DeliberationSummary
  dn_dissent :: DissentSection
  dn_ncg_benchmark :: "NcgSection option"
  dn_r2 :: "R2Attachment option"

datatype SseEvent =
    EvStage string string
  | EvAgentResponse string "string option" bool nat nat
  | EvAgentsDone answers "AgentError list"
  | EvDeliberationStart int "string list"
  | EvDeliberationRound nat answers
  | EvDeliberationDone DeliberationSummary
  | EvDeliberationFailed deliberation_error
  | EvDissent DissentSection
  | EvNcg NcgSection
  | EvConsensus ConsensusData
  | EvR2 R2Attachment
  | EvDone DoneData
  | EvError orchestration_error

definition consensus_data :: "AggregateResult \<Rightarrow> ConsensusData" where
  "consensus_data final_output =
     \<lparr>cd_consensus = ag_consensus final_output, cd_confidence = ag_confidence final_output,
      cd_agreement_ratio = ag_agreement_ratio final_output, cd_quorum_met = ag_quorum_met final_output,
      cd_quorum_threshold = ag_quorum_threshold final_output, cd_note = ag_note final_output\<rparr>"

fun stream_responses ::
    "fetch \<Rightarrow> string \<Rightarrow> nat \<Rightarrow> string list \<Rightarrow> answers \<Rightarrow> AgentError list
     \<Rightarrow> SseEvent list \<times> answers \<times> AgentError list" where
  "stream_responses fetch prompt n [] named_responses agent_errors = ([], named_responses, agent_errors)"
| "stream_responses fetch prompt n (name # completed) named_responses agent_errors =
     (let response = first_reply fetch prompt name;
          is_error = (case response of None \<Rightarrow> False | Some t \<Rightarrow> is_agent_error t);
          agent_errors = (if raised fetch prompt name then agent_errors @ [classify_agent_error name (as_written response)]
                          else agent_errors);
          named_responses = dset name response named_responses;
          agent_errors = (if is_error \<and> \<not> list_ex (\<lambda>e. ae_agent e = name) agent_errors
                          then agent_errors @ [classify_agent_error name (as_written response)] else agent_errors);
          event = EvAgentResponse name response is_error (length named_responses) n
      in case stream_responses fetch prompt n completed named_responses agent_errors of
           (events, result) \<Rightarrow> (event # events, result))"

definition stream_deliberation ::
    "Council \<Rightarrow> Settings \<Rightarrow> string \<Rightarrow> string list \<Rightarrow> answers
     \<Rightarrow> SseEvent list \<times> answers \<times> DeliberationSummary" where
  "stream_deliberation c s prompt agents named_responses =
     (if \<not> set_deliberation_enabled s then ([], named_responses, NoDeliberation False)
      else
        (let start = [EvStage ''deliberation'' (''Deliberation '' @ em_dash @ '' '' @ int_str (set_deliberation_rounds s) @
                        '' round(s) of cross-agent debate...''),
                      EvDeliberationStart (set_deliberation_rounds s) agents]
         in case deliberation_engine (co_fetch c) (set_deliberation_rounds s) prompt agents named_responses of
              Inl e \<Rightarrow> (start @ [EvDeliberationFailed e], named_responses, NoDeliberation True)
            | Inr report \<Rightarrow>
                (let summary = Deliberated (dl_rounds_requested report) (dl_rounds_completed report)
                       (dl_agents_participated report) (dl_skipped report)
                       (if dl_skipped report then Some (dl_skip_reason report) else None)
                 in (start @ map (\<lambda>rnd. EvDeliberationRound (rd_round_number rnd) (rd_responses rnd)) (tl (dl_history report))
                       @ [EvDeliberationDone summary],
                     if dl_skipped report then named_responses else dl_final_responses report,
                     summary))))"

definition run_orchestration_stream ::
    "Council \<Rightarrow> Settings \<Rightarrow> string \<Rightarrow> string list \<Rightarrow> string list \<Rightarrow> session_dir \<Rightarrow> ledger
     \<Rightarrow> SseEvent list \<times> session_dir \<times> ledger" where
  "run_orchestration_stream c s prompt agents completed sessions ledger =
     (let start = EvStage ''agents'' (''Querying '' @ nat_str (length agents) @ '' agents...'');
          (replies, answers, agent_errors) = stream_responses (co_fetch c) prompt (length agents) completed [] [];
          gathered = EvAgentsDone answers agent_errors;
          (debate, answers, deliberation_summary) = stream_deliberation c s prompt agents answers
      in case tested_answers answers of
           Inl e \<Rightarrow> ((start # replies @ gathered # debate) @ [EvError e], sessions, ledger)
         | Inr named_responses \<Rightarrow>
             (let conversational = analysis_input named_responses;
                  responses = dvalues conversational;
                  dissent_report = dissent_analyze (semantic_distance (co_similarity c)) prompt conversational;
                  dissent_data = dissent_section dissent_report;
                  drift_report = ncg_stage c s prompt conversational dissent_report;
                  ncg_data = map_option ncg_section drift_report;
                  before = start # replies @ gathered # debate @
                    EvStage ''dissent'' ''Analyzing dissent...'' # EvDissent dissent_data #
                    (if set_ncg_enabled s then [EvStage ''ncg'' ''Running NCG headless baseline...''] else []) @
                    (case ncg_data of None \<Rightarrow> [] | Some d \<Rightarrow> [EvNcg d]) @
                    [EvStage ''consensus'' ''Synthesizing consensus...'']
              in case aggregate_responses (co_thresholds c) (RespList responses) drift_report (Some dissent_report) of
                   Inl e \<Rightarrow> (before @ [EvError (AggregationFailed e)], sessions, ledger)
                 | Inr final_output \<Rightarrow>
                     (let (session_id, sessions') = session_stage c s prompt agents named_responses final_output sessions;
                          (r2, ledger') = r2_stage c prompt agents dissent_report drift_report final_output session_id ledger
                      in (before @ EvConsensus (consensus_data final_output) #
                            EvStage ''r2'' ''Scoring with R2 engine...'' #
                            (case r2 of None \<Rightarrow> [] | Some d \<Rightarrow> [EvR2 d]) @
                            [EvDone \<lparr>dn_responses = named_responses, dn_agent_errors = agent_errors, dn_session_id = session_id,
                                     dn_consensus = consensus_data final_output, dn_deliberation = deliberation_summary,
                                     dn_dissent = dissent_data, dn_ncg_benchmark = ncg_data, dn_r2 = r2\<rparr>],
                          sessions', ledger'))))"

section \<open>Correctness\<close>

definition initial_responses :: "fetch \<Rightarrow> string \<Rightarrow> string list \<Rightarrow> answers" where
  "initial_responses f p agents = map (\<lambda>n. (n, first_reply f p n)) agents"

definition reports_error :: "fetch \<Rightarrow> string \<Rightarrow> string \<Rightarrow> bool" where
  "reports_error f p n \<longleftrightarrow> raised f p n \<or> (\<exists>t. first_reply f p n = Some t \<and> is_agent_error t)"

definition initial_errors :: "fetch \<Rightarrow> string \<Rightarrow> string list \<Rightarrow> AgentError list" where
  "initial_errors f p agents = map (\<lambda>n. classify_agent_error n (as_written (first_reply f p n))) (filter (reports_error f p) agents)"

lemma as_written_Some [simp]: "as_written (Some t) = t"
  by (simp add: as_written_def)

lemma first_reply_None: "first_reply f p n = None \<longleftrightarrow> f 0 n p = NoText"
  by (simp add: first_reply_def split: fetch_result.split)

lemma gather_gen:
  "distinct agents \<Longrightarrow> set agents \<inter> set (dkeys named) = {} \<Longrightarrow>
   gather_responses f p agents named errs =
     (if \<exists>n \<in> set agents. f 0 n p = NoText then Inl AnswerNotText
      else Inr (named @ initial_responses f p agents, errs @ initial_errors f p agents))"
proof (induction agents arbitrary: named errs)
  case (Cons a agents)
  show ?case
  proof (cases "first_reply f p a")
    case None
    then show ?thesis using first_reply_None [of f p a] by auto
  next
    case (Some t)
    then have n: "f 0 a p \<noteq> NoText" using first_reply_None [of f p a] by auto
    have d: "dset a (Some t) named = named @ [(a, Some t)]" using Cons.prems by (intro dset_append) auto
    have "gather_responses f p agents (named @ [(a, Some t)]) errs' =
        (if \<exists>n \<in> set agents. f 0 n p = NoText then Inl AnswerNotText
         else Inr ((named @ [(a, Some t)]) @ initial_responses f p agents, errs' @ initial_errors f p agents))" for errs'
      using Cons.prems by (intro Cons.IH) auto
    then show ?thesis using n Some d
      by (simp add: initial_responses_def initial_errors_def reports_error_def)
  qed
qed (simp add: initial_responses_def initial_errors_def)

lemma gather_initial:
  "distinct agents \<Longrightarrow> gather_responses f p agents [] [] =
     (if \<exists>n \<in> set agents. f 0 n p = NoText then Inl AnswerNotText
      else Inr (initial_responses f p agents, initial_errors f p agents))"
  using gather_gen [of agents "[]" f p "[]"] by simp

lemma classify_agent [simp]: "ae_agent (classify_agent_error n r) = n"
  by (simp add: classify_agent_error_def split: option.split)

lemma stream_initial_gen:
  "distinct completed \<Longrightarrow> set completed \<inter> set (dkeys named) = {} \<Longrightarrow> set completed \<inter> ae_agent ` set errs = {} \<Longrightarrow>
   snd (stream_responses f p k completed named errs) = (named @ initial_responses f p completed, errs @ initial_errors f p completed)"
proof (induction completed arbitrary: named errs)
  case (Cons a completed)
  let ?r = "first_reply f p a"
  have d: "dset a ?r named = named @ [(a, ?r)]"
    using Cons.prems by (intro dset_append) auto
  have n: "\<not> list_ex (\<lambda>e. ae_agent e = a) errs" using Cons.prems(3) by (auto simp: list_ex_iff)
  have IH: "snd (stream_responses f p k completed (named @ [(a, ?r)]) errs')
      = ((named @ [(a, ?r)]) @ initial_responses f p completed, errs' @ initial_errors f p completed)"
    if "errs' = errs \<or> errs' = errs @ [classify_agent_error a (as_written ?r)]" for errs'
  proof (rule Cons.IH)
    show "set completed \<inter> ae_agent ` set errs' = {}" using Cons.prems(1,3) that by (auto simp: disjoint_iff) blast
  qed (use Cons.prems in auto)
  have e: "(case ?r of None \<Rightarrow> False | Some t \<Rightarrow> is_agent_error t) \<longleftrightarrow> (\<exists>t. ?r = Some t \<and> is_agent_error t)"
    by (cases ?r) auto
  show ?case
  proof (cases "reports_error f p a")
    case True
    then show ?thesis using IH [of "errs @ [classify_agent_error a (as_written ?r)]"] n d
      unfolding stream_responses.simps Let_def e
      by (auto simp: case_prod_beta initial_responses_def initial_errors_def reports_error_def)
  next
    case False
    then show ?thesis using IH [of errs] n d
      unfolding stream_responses.simps Let_def e
      by (auto simp: case_prod_beta initial_responses_def initial_errors_def reports_error_def)
  qed
qed (simp add: initial_responses_def initial_errors_def)

lemma stream_initial:
  "distinct agents \<Longrightarrow> \<exists>ev. stream_responses f p k agents [] [] = (ev, initial_responses f p agents, initial_errors f p agents)"
  using stream_initial_gen [of agents "[]" "[]" f p k] by (cases "stream_responses f p k agents [] []") auto

lemma stream_deliberation_agrees:
  "\<exists>ev. stream_deliberation c s p agents named =
     (ev, snd (deliberation_stage c s p agents named), summarize_deliberation s (fst (deliberation_stage c s p agents named)))"
  by (auto simp: stream_deliberation_def deliberation_stage_def summarize_deliberation_def Let_def split: sum.split)

lemma aggregate_total:
  assumes "resp_list_of rs \<noteq> []"
  shows "\<exists>a. aggregate_responses th rs drift diss = Inr a"
proof -
  obtain q where "analyze_agreement th rs diss = Inr q"
    using assms exact_agreement_error by (cases "analyze_agreement th rs diss") (auto simp: analyze_agreement_def split: option.splits if_splits)
  then show ?thesis by (cases q) (simp add: aggregate_responses_def)
qed

text \<open>The state of the council when its answers are analysed.\<close>

definition debated :: "Council \<Rightarrow> Settings \<Rightarrow> string \<Rightarrow> string list \<Rightarrow> answers" where
  "debated c s p agents = snd (deliberation_stage c s p agents (initial_responses (co_fetch c) p agents))"

lemma initial_keys [simp]: "dkeys (initial_responses f p agents) = agents"
  by (simp add: initial_responses_def comp_def)

lemma initial_None: "None \<in> set (dvalues (initial_responses f p agents)) \<longleftrightarrow> (\<exists>n \<in> set agents. f 0 n p = NoText)"
  by (auto simp: initial_responses_def first_reply_None [symmetric] image_iff) metis+

lemma debated_final:
  "debated c s p agents =
     (if set_deliberation_enabled s \<and> 1 \<le> set_deliberation_rounds s \<and> (\<forall>n \<in> set agents. co_fetch c 0 n p \<noteq> NoText)
      then dl_final_responses (debate_rounds (co_fetch c) (nat (set_deliberation_rounds s)) p agents (initial_responses (co_fetch c) p agents))
      else initial_responses (co_fetch c) p agents)"
proof -
  have "dl_skipped (debate_rounds f k p agents rs) \<Longrightarrow> dl_final_responses (debate_rounds f k p agents rs) = rs" for f k rs
    using rounds_state_history [of f p agents "clean_names_of rs"] by (auto simp: run_unfold Let_def split: if_splits)
  then show ?thesis
    unfolding debated_def deliberation_stage_def deliberation_engine_def deliberation_run_def initial_None by auto
qed

lemma debate_keys:
  assumes "well_keyed rs"
  shows "dkeys (dl_final_responses (debate_rounds f k p ags rs)) = dkeys rs"
proof -
  have "dkeys (snd (rounds_state f p ags (clean_names_of rs) (r, rs) k)) = dkeys rs" for r
    using rounds_state_keys [of "clean_names_of rs" "(r, rs)" f p ags k] clean_names_keys [of rs] by simp
  then show ?thesis by (simp add: run_unfold Let_def)
qed

lemma debated_keys:
  assumes "distinct agents"
  shows "dkeys (debated c s p agents) = agents"
  using debate_keys [of "initial_responses (co_fetch c) p agents" "co_fetch c" "nat (set_deliberation_rounds s)" p agents] assms
  by (simp add: debated_final well_keyed_def)

text \<open>An answer that is not a text comes from an agent that returned none.\<close>

lemma rounds_state_texts:
  assumes "distinct cl" "set cl \<subseteq> set (dkeys (snd s))" "distinct (dkeys (snd s))" "\<And>j n q. n \<in> set ags \<Longrightarrow> f j n q \<noteq> NoText" "None \<notin> set (dvalues (snd s))"
  shows "None \<notin> set (dvalues (snd (rounds_state f p ags cl s k)))"
proof (induction k)
  case (Suc k)
  let ?cur = "snd (rounds_state f p ags cl s k)" let ?later = "snd (rounds_state f p ags cl s (Suc k))"
  have keys: "dkeys ?cur = dkeys (snd s)" "dkeys ?later = dkeys (snd s)" using rounds_state_keys [OF assms(2)] by simp_all
  have cur: "map_of ?cur n \<noteq> Some None" for n using Suc by (force dest: map_of_SomeD)
  have "map_of ?later n \<noteq> Some None" for n
  proof (cases "n \<in> set cl")
    case True
    have "n \<in> set (dkeys ?cur)" using True assms(2) keys(1) by auto
    then have own: "map_of ?cur n = Some (dget ?cur n (Some []))" by (rule dget_answer)
    then have "dget ?cur n (Some []) \<noteq> None" using cur [of n] by auto
    then show ?thesis using True own assms(4) [of n] rounds_state_step [OF assms(1), of f p ags s k n]
      by (auto simp: deliberate_one_def Let_def split: option.splits fetch_result.splits if_splits)
  next
    case False
    then show ?thesis using cur [of n] rounds_state_step [OF assms(1), of f p ags s k n] by simp
  qed
  moreover have "distinct (dkeys ?later)" using keys(2) assms(3) by simp
  ultimately show ?case by (metis (no_types, lifting) imageE list.set_map map_of_is_SomeI prod.collapse)
qed (use assms in simp)

lemma debated_None:
  assumes "distinct agents" "None \<in> set (dvalues (debated c s p agents))"
  shows "\<exists>k n q. n \<in> set agents \<and> co_fetch c k n q = NoText"
proof (rule ccontr)
  assume "\<not> ?thesis"
  then have no: "n \<in> set agents \<Longrightarrow> co_fetch c k n q \<noteq> NoText" for k n q by blast
  let ?rs = "initial_responses (co_fetch c) p agents"
  have i: "None \<notin> set (dvalues ?rs)" using no initial_None by blast
  have w: "well_keyed ?rs" by (simp add: well_keyed_def assms(1))
  have "None \<notin> set (dvalues (snd (rounds_state (co_fetch c) p agents (clean_names_of ?rs) (r, ?rs) k)))" for r k
    using i clean_names_keys [of ?rs] assms(1) no by (intro rounds_state_texts distinct_clean_names [OF w]) simp_all
  then have "None \<notin> set (dvalues (dl_final_responses (debate_rounds (co_fetch c) k p agents ?rs)))" for k
    using i by (simp add: run_unfold Let_def)
  then show False using assms(2) i by (auto simp: debated_final split: if_splits)
qed

definition text_answers :: "answers \<Rightarrow> (string, string) dict" where
  "text_answers d = map (\<lambda>(n, r). (n, as_written r)) d"

lemma tested_cases: "tested_answers d = (if None \<in> set (dvalues d) then Inl AnswerNotText else Inr (text_answers d))"
  by (simp add: tested_answers_def text_answers_def)

lemma text_answers_keys [simp]: "dkeys (text_answers d) = dkeys d"
  by (simp add: text_answers_def comp_def case_prod_beta)

lemma map_of_text_answers: "map_of (text_answers d) n = map_option as_written (map_of d n)"
  by (induction d) (auto simp: text_answers_def)

text \<open>A run is decided by the answers after the debate.\<close>

lemma run_cases:
  assumes "distinct agents"
  shows "run_orchestration c s p agents sd ld =
     (if (\<exists>n \<in> set agents. co_fetch c 0 n p = NoText) \<or> None \<in> set (dvalues (debated c s p agents)) then Inl AnswerNotText
      else
        (let named = text_answers (debated c s p agents);
             d = dissent_analyze (semantic_distance (co_similarity c)) p (analysis_input named);
             f = ncg_stage c s p (analysis_input named) d
         in case aggregate_responses (co_thresholds c) (RespList (dvalues (analysis_input named))) f (Some d) of
              Inl e \<Rightarrow> Inl (AggregationFailed e)
            | Inr a \<Rightarrow>
                (let (sid, sd') = session_stage c s p agents named a sd; (r2, ld') = r2_stage c p agents d f a sid ld
                 in Inr (\<lparr>or_responses = dvalues (analysis_input named), or_named_responses = named,
                      or_agent_errors = initial_errors (co_fetch c) p agents, or_final_output = a, or_r2 = r2, or_session_id = sid,
                      or_deliberation = summarize_deliberation s
                        (fst (deliberation_stage c s p agents (initial_responses (co_fetch c) p agents)))\<rparr>, sd', ld'))))"
proof (cases "\<exists>n \<in> set agents. co_fetch c 0 n p = NoText")
  case True
  then have "gather_responses (co_fetch c) p agents [] [] = Inl AnswerNotText" by (simp add: gather_initial [OF assms])
  then show ?thesis using True by (simp add: run_orchestration_def)
next
  case False
  then have g: "gather_responses (co_fetch c) p agents [] [] = Inr (initial_responses (co_fetch c) p agents, initial_errors (co_fetch c) p agents)"
    by (simp add: gather_initial [OF assms])
  obtain rep named where st: "deliberation_stage c s p agents (initial_responses (co_fetch c) p agents) = (rep, named)" by fastforce
  then have deb: "debated c s p agents = named" by (simp add: debated_def)
  have rep: "fst (deliberation_stage c s p agents (initial_responses (co_fetch c) p agents)) = rep" by (simp add: st)
  show ?thesis unfolding deb run_orchestration_def g rep using False by (simp add: st tested_cases Let_def)
qed

lemma run_unfolded:
  assumes "distinct agents" "run_orchestration c s p agents sd ld = Inr (r, sd', ld')"
  shows "or_named_responses r = text_answers (debated c s p agents)
    \<and> None \<notin> set (dvalues (debated c s p agents)) \<and> (\<forall>n \<in> set agents. co_fetch c 0 n p \<noteq> NoText)
    \<and> or_agent_errors r = initial_errors (co_fetch c) p agents
    \<and> or_responses r = dvalues (analysis_input (or_named_responses r))
    \<and> (\<exists>drift. aggregate_responses (co_thresholds c) (RespList (or_responses r)) drift
         (Some (dissent_analyze (semantic_distance (co_similarity c)) p (analysis_input (or_named_responses r)))) = Inr (or_final_output r))
    \<and> (or_session_id r, sd') = session_stage c s p agents (or_named_responses r) (or_final_output r) sd
    \<and> (\<exists>diss drift. (or_r2 r, ld') = r2_stage c p agents diss drift (or_final_output r) (or_session_id r) ld)"
proof -
  let ?named = "text_answers (debated c s p agents)"
  let ?d = "dissent_analyze (semantic_distance (co_similarity c)) p (analysis_input ?named)"
  let ?f = "ncg_stage c s p (analysis_input ?named) ?d"
  note run = assms(2) [unfolded run_cases [OF assms(1)]]
  have texts: "None \<notin> set (dvalues (debated c s p agents))" "\<forall>n \<in> set agents. co_fetch c 0 n p \<noteq> NoText"
    using run by (auto split: if_splits)
  obtain a where a: "aggregate_responses (co_thresholds c) (RespList (dvalues (analysis_input ?named))) ?f (Some ?d) = Inr a"
    using run by (auto simp: Let_def split: if_splits sum.splits)
  obtain sid sd1 where ss: "session_stage c s p agents ?named a sd = (sid, sd1)" by fastforce
  obtain r2 ld1 where r2: "r2_stage c p agents ?d ?f a sid ld = (r2, ld1)" by fastforce
  have r: "or_responses r = dvalues (analysis_input ?named)" "or_named_responses r = ?named"
      "or_agent_errors r = initial_errors (co_fetch c) p agents" "or_final_output r = a" "or_r2 r = r2" "or_session_id r = sid"
      "sd' = sd1" "ld' = ld1"
    using run by (auto simp: Let_def a ss r2 split: if_splits)
  have "\<exists>diss drift. (r2, ld1) = r2_stage c p agents diss drift a sid ld" using r2 by metis
  then show ?thesis using a ss texts unfolding r by auto
qed

lemma run_total:
  assumes "distinct agents" "agents \<noteq> []"
  shows "(case run_orchestration c s p agents sd ld of
      Inl e \<Rightarrow> e = AnswerNotText \<and> ((\<exists>n \<in> set agents. co_fetch c 0 n p = NoText) \<or> None \<in> set (dvalues (debated c s p agents)))
    | Inr _ \<Rightarrow> True)"
proof -
  have "text_answers (debated c s p agents) \<noteq> []"
    using debated_keys [OF assms(1), of c s p] assms(2) by (auto simp: text_answers_def)
  then have "dvalues (analysis_input (text_answers (debated c s p agents))) \<noteq> []"
    by (auto simp: analysis_input_def Let_def)
  then have "\<exists>a. aggregate_responses (co_thresholds c) (RespList (dvalues (analysis_input (text_answers (debated c s p agents))))) f d = Inr a" for f d
    by (intro aggregate_total) (simp add: resp_list_of_def)
  then have "aggregate_responses (co_thresholds c) (RespList (dvalues (analysis_input (text_answers (debated c s p agents))))) f d \<noteq> Inl e" for f d e
    by (metis Inl_Inr_False)
  then show ?thesis unfolding run_cases [OF assms(1)] Let_def by (auto split: sum.split prod.split)
qed

lemma run_returns:
  assumes "distinct agents" "agents \<noteq> []" "\<And>k n q. n \<in> set agents \<Longrightarrow> co_fetch c k n q \<noteq> NoText"
  shows "\<exists>r sd' ld'. run_orchestration c s p agents sd ld = Inr (r, sd', ld')"
  using run_total [OF assms(1,2), where c = c and s = s and p = p and sd = sd and ld = ld] debated_None [OF assms(1), of c s p] assms(3)
  by (auto split: sum.splits)

section \<open>Properties\<close>

text \<open>
  C1: An orchestration of a council of differently named agents returns, unless an agent returns something that is not a
  text: that is the only error, and a first answer of that kind always ends in it.  In the result every agent has exactly one
  answer, in the order of the council; the errors reported are those of exactly the agents that raised or answered
  with an error sentinel at first; the answers analysed are the clean ones, or all of them when none is clean; and a session or
  ledger entry that was written can be loaded back.
\<close>

theorem orchestration_sound:
  assumes "distinct agents" "agents \<noteq> []"
  shows "case run_orchestration c s p agents sd ld of
      Inl e \<Rightarrow> e = AnswerNotText \<and> (\<exists>k n q. n \<in> set agents \<and> co_fetch c k n q = NoText)
    | Inr (r, sd', ld') \<Rightarrow>
        (\<forall>n \<in> set agents. co_fetch c 0 n p \<noteq> NoText)
        \<and> dkeys (or_named_responses r) = agents
        \<and> map ae_agent (or_agent_errors r)
            = filter (\<lambda>n. co_fetch c 0 n p \<in> {Raises, Dies} \<or> (\<exists>t. co_fetch c 0 n p = Reply t \<and> is_agent_error t)) agents
        \<and> or_responses r = (let clean = filter (\<lambda>x. \<not> is_agent_error x) (dvalues (or_named_responses r))
                           in if clean \<noteq> [] then clean else dvalues (or_named_responses r))
        \<and> (case or_session_id r of None \<Rightarrow> sd' = sd
            | Some i \<Rightarrow> \<exists>rec. session_load sd' i = Inr rec \<and> sn_agent_responses rec = or_named_responses r
                          \<and> sn_consensus rec = or_final_output r)
        \<and> (case or_r2 r of None \<Rightarrow> ld' = ld
            | Some a \<Rightarrow> \<exists>e. load_entry ld' (ra_entry_id a) = Inr e \<and> r2_grade (le_score e) = ra_grade a
                          \<and> le_consensus e = ag_consensus (or_final_output r))"
proof (cases "run_orchestration c s p agents sd ld")
  case (Inl e)
  then have "e = AnswerNotText \<and> ((\<exists>n \<in> set agents. co_fetch c 0 n p = NoText) \<or> None \<in> set (dvalues (debated c s p agents)))"
    using run_total [OF assms, where c = c and s = s and p = p and sd = sd and ld = ld] by simp
  then show ?thesis using Inl debated_None [OF assms(1), of c s p] by auto
next
  case (Inr result)
  obtain r sd' ld' where result: "result = (r, sd', ld')" by (cases result)
  note run = Inr [unfolded result]
  note u = run_unfolded [OF assms(1) run]
  let ?named = "or_named_responses r"
  have clean: "dvalues (clean_responses_of d) = filter (\<lambda>x. \<not> is_agent_error x) (dvalues d)" for d
    by (induction d) (auto simp: clean_responses_of_def)
  have resp: "or_responses r = (let clean = filter (\<lambda>x. \<not> is_agent_error x) (dvalues (or_named_responses r))
                       in if clean \<noteq> [] then clean else dvalues (or_named_responses r))"
    using u clean [of ?named] by (cases "clean_responses_of ?named = []") (auto simp: analysis_input_def Let_def)
  have sess: "case or_session_id r of None \<Rightarrow> sd' = sd
        | Some i \<Rightarrow> \<exists>rec. session_load sd' i = Inr rec \<and> sn_agent_responses rec = or_named_responses r
                      \<and> sn_consensus rec = or_final_output r"
  proof (cases "set_session_logging s \<and> co_session_written c")
    case True
    let ?rec = "build_session_record (co_session_id c) (co_now c) p (or_named_responses r) (or_final_output r) (set_ncg_enabled s) agents"
    have "or_session_id r = Some (sn_session_id ?rec)" "sd' = session_save (co_mtime c) ?rec sd"
      using u True by (simp_all add: session_stage_def Let_def)
    then show ?thesis using sessions.load_store [of "co_mtime c" ?rec sd] by (simp add: build_session_record_def)
  next
    case False
    then have "or_session_id r = None" "sd' = sd" using u unfolding session_stage_def if_not_P [OF False] by simp_all
    then show ?thesis by simp
  qed
  obtain diss drift where "(or_r2 r, ld') = r2_stage c p agents diss drift (or_final_output r) (or_session_id r) ld" using u by blast
  then have ledg: "case or_r2 r of None \<Rightarrow> ld' = ld
        | Some a \<Rightarrow> \<exists>e. load_entry ld' (ra_entry_id a) = Inr e \<and> r2_grade (le_score e) = ra_grade a
                      \<and> le_consensus e = ag_consensus (or_final_output r)"
    by (auto simp: r2_stage_def r2_index_def load_entry_def Let_def split: if_splits)
  have "reports_error (co_fetch c) p = (\<lambda>n. co_fetch c 0 n p \<in> {Raises, Dies} \<or> (\<exists>t. co_fetch c 0 n p = Reply t \<and> is_agent_error t))"
    by (intro ext) (auto simp: reports_error_def raised_def first_reply_def split: fetch_result.splits)
  then have errs: "map ae_agent (or_agent_errors r)
      = filter (\<lambda>n. co_fetch c 0 n p \<in> {Raises, Dies} \<or> (\<exists>t. co_fetch c 0 n p = Reply t \<and> is_agent_error t)) agents"
    using u by (simp add: initial_errors_def comp_def)
  have keys: "dkeys (or_named_responses r) = agents" using u debated_keys [OF assms(1)] by simp
  show ?thesis using run keys errs resp sess ledg u by simp
qed

lemma stream_agrees:
  assumes "distinct agents"
  shows "(case run_orchestration c s p agents sd ld of
       Inl e \<Rightarrow> \<exists>ev. run_orchestration_stream c s p agents agents sd ld = (ev @ [EvError e], sd, ld)
     | Inr (r, sd', ld') \<Rightarrow> \<exists>ev d. run_orchestration_stream c s p agents agents sd ld = (ev @ [EvDone d], sd', ld')
         \<and> dn_responses d = or_named_responses r \<and> dn_agent_errors d = or_agent_errors r
         \<and> dn_session_id d = or_session_id r \<and> dn_consensus d = consensus_data (or_final_output r)
         \<and> dn_deliberation d = or_deliberation r \<and> dn_r2 d = or_r2 r
         \<and> Some (dn_dissent d) = ag_dissent (or_final_output r) \<and> dn_ncg_benchmark d = ag_ncg_benchmark (or_final_output r))"
proof -
  obtain ev where ev: "stream_responses (co_fetch c) p (length agents) agents [] []
      = (ev, initial_responses (co_fetch c) p agents, initial_errors (co_fetch c) p agents)"
    using stream_initial [OF assms] by blast
  obtain rep ans where st: "deliberation_stage c s p agents (initial_responses (co_fetch c) p agents) = (rep, ans)" by fastforce
  then have deb: "debated c s p agents = ans" by (simp add: debated_def)
  obtain ev2 where ev2: "stream_deliberation c s p agents (initial_responses (co_fetch c) p agents) = (ev2, ans, summarize_deliberation s rep)"
    using stream_deliberation_agrees [of c s p agents "initial_responses (co_fetch c) p agents"] st by auto
  have no: "None \<in> set (dvalues ans)" if "\<exists>n \<in> set agents. co_fetch c 0 n p = NoText"
    using that initial_None [of "co_fetch c" p agents] unfolding deb [symmetric] debated_final by auto
  let ?named = "text_answers ans"
  let ?d = "dissent_analyze (semantic_distance (co_similarity c)) p (analysis_input ?named)"
  let ?f = "ncg_stage c s p (analysis_input ?named) ?d"
  show ?thesis
  proof (cases "None \<in> set (dvalues ans)")
    case True
    then show ?thesis by (simp add: run_cases [OF assms] deb run_orchestration_stream_def ev ev2 tested_cases)
  next
    case False
    then have run: "\<not> ((\<exists>n \<in> set agents. co_fetch c 0 n p = NoText) \<or> None \<in> set (dvalues ans))" using no by blast
    show ?thesis
    proof (cases "aggregate_responses (co_thresholds c) (RespList (dvalues (analysis_input ?named))) ?f (Some ?d)")
      case (Inl e)
      then show ?thesis using False
        unfolding run_cases [OF assms] deb if_not_P [OF run]
        by (simp add: run_orchestration_stream_def ev ev2 tested_cases Let_def)
    next
      case (Inr a)
      have a: "ag_dissent a = Some (dissent_section ?d)" "ag_ncg_benchmark a = map_option ncg_section ?f"
        using Inr by (auto simp: aggregate_responses_def bind_res_Inr)
      obtain sid sd' where ss: "session_stage c s p agents ?named a sd = (sid, sd')" by fastforce
      obtain r2 ld' where r2: "r2_stage c p agents ?d ?f a sid ld = (r2, ld')" by fastforce
      show ?thesis
        using Inr a False
        unfolding run_cases [OF assms] deb if_not_P [OF run]
        by (simp add: run_orchestration_stream_def ev ev2 tested_cases ss r2 st Let_def)
    qed
  qed
qed

text \<open>
  C2: The streaming orchestration does the same as the plain one: when the agents complete in the
  order of the council, it writes the same session and ledger, and its last event is the plain
  result (answers, errors, session, consensus, quorum, deliberation and R2 score), or the error
  that the plain version raises.
\<close>

theorem stream_equals_plain:
  assumes "distinct agents"
  shows "(case run_orchestration c s p agents sd ld of
       Inl e \<Rightarrow> \<exists>ev. run_orchestration_stream c s p agents agents sd ld = (ev @ [EvError e], sd, ld)
     | Inr (r, sd', ld') \<Rightarrow> \<exists>ev d. run_orchestration_stream c s p agents agents sd ld = (ev @ [EvDone d], sd', ld')
         \<and> dn_responses d = or_named_responses r \<and> dn_agent_errors d = or_agent_errors r
         \<and> dn_session_id d = or_session_id r \<and> dn_consensus d = consensus_data (or_final_output r)
         \<and> dn_deliberation d = or_deliberation r \<and> dn_r2 d = or_r2 r
         \<and> Some (dn_dissent d) = ag_dissent (or_final_output r) \<and> dn_ncg_benchmark d = ag_ncg_benchmark (or_final_output r))"
  by (rule stream_agrees [OF assms])

text \<open>
  Library fact: An agent whose deliberation call answers with an error sentinel loses its clean first answer:
  it is missing from the answers that are analysed, and it is not among the reported errors either,
  because only the first answers are checked.
\<close>

theorem deliberation_error_goes_unreported:
  assumes "distinct agents" "n \<in> set agents" "set_deliberation_enabled s" "set_deliberation_rounds s = 1"
    "2 \<le> length (clean_names_of (initial_responses (co_fetch c) p agents))"
    "co_fetch c 0 n p = Reply first" "\<not> is_agent_error first"
    "\<And>q. co_fetch c 1 n q = Reply sentinel" "is_agent_error sentinel"
    "run_orchestration c s p agents sd ld = Inr (r, sd', ld')"
  shows "map_of (or_named_responses r) n = Some sentinel \<and> n \<notin> set (map ae_agent (or_agent_errors r))
    \<and> (sentinel \<in> set (or_responses r) \<longleftrightarrow> list_all is_agent_error (dvalues (or_named_responses r)))"
proof -
  let ?rs = "initial_responses (co_fetch c) p agents"
  note u = run_unfolded [OF assms(1,10)]
  have w: "well_keyed ?rs" by (simp add: well_keyed_def assms(1))
  have i: "None \<notin> set (dvalues ?rs)" using u initial_None by blast
  have "map_of ?rs n = Some (Some first)"
    using assms(1,2,6) by (simp add: initial_responses_def first_reply_def map_of_map_restrict restrict_map_def)
  then have "n \<in> set (clean_names_of ?rs)" using clean_name_iff [OF w] assms(7) by simp
  from last_reply_replaces_answer [OF w i assms(5) this assms(2), of "co_fetch c" sentinel p] assms(3,4,8)
  have named: "map_of (or_named_responses r) n = Some sentinel"
    using u by (simp add: debated_final map_of_text_answers)
  then have "sentinel \<in> set (dvalues (or_named_responses r))" by (force dest: map_of_SomeD)
  then have "sentinel \<in> set (or_responses r) \<longleftrightarrow> list_all is_agent_error (dvalues (or_named_responses r))"
    using u assms(9) by (auto simp: analysis_input_def clean_responses_of_def Let_def filter_empty_conv list_all_iff)
  moreover have "n \<notin> set (map ae_agent (or_agent_errors r))"
    using u assms(6,7) by (auto simp: initial_errors_def reports_error_def raised_def first_reply_def)
  ultimately show ?thesis using named by blast
qed

text \<open>
  Library fact: An answer that is not a text ends the whole orchestration, although the failure of a single agent is
  meant not to: a null content of one agent leaves neither a result nor a session nor a ledger entry, plain or streamed.
\<close>

theorem null_answer_ends_run:
  assumes "distinct agents" "n \<in> set agents" "co_fetch c 0 n p = NoText"
  shows "run_orchestration c s p agents sd ld = Inl AnswerNotText
    \<and> (\<exists>ev. run_orchestration_stream c s p agents agents sd ld = (ev @ [EvError AnswerNotText], sd, ld))"
proof -
  have "run_orchestration c s p agents sd ld = Inl AnswerNotText" using assms(2,3) unfolding run_cases [OF assms(1)] by auto
  then show ?thesis using stream_agrees [OF assms(1), of c s p sd ld] by simp
qed

text \<open>
  Library fact: When a single clean answer is left, the orchestration reports a quorum: the agreement is
  computed over that answer alone, so its ratio is 1 and its confidence High, however many agents
  of the council failed.
\<close>

theorem lone_answer_meets_quorum:
  assumes "distinct agents" "run_orchestration c s p agents sd ld = Inr (r, sd', ld')"
    "length (filter (\<lambda>x. \<not> is_agent_error x) (dvalues (or_named_responses r))) = 1" "th_quorum (co_thresholds c) \<le> 1"
  shows "ag_quorum_met (or_final_output r) \<and> ag_confidence (or_final_output r) = ''High'' \<and> ag_agreement_ratio (or_final_output r) = 1
    \<and> length (or_responses r) = 1"
proof -
  note u = run_unfolded [OF assms(1,2)]
  have "dvalues (clean_responses_of d) = filter (\<lambda>x. \<not> is_agent_error x) (dvalues d)" for d
    by (induction d) (auto simp: clean_responses_of_def)
  then have "length (clean_responses_of (or_named_responses r)) = 1" using assms(3) by (metis length_map)
  then obtain m x where one: "analysis_input (or_named_responses r) = [(m, x)]"
    by (cases "clean_responses_of (or_named_responses r)") (auto simp: analysis_input_def)
  obtain drift where a: "aggregate_responses (co_thresholds c) (RespList [x]) drift
      (Some (dissent_analyze (semantic_distance (co_similarity c)) p [(m, x)])) = Inr (or_final_output r)"
    using u one by auto
  have "dr_pairwise (dissent_analyze (semantic_distance (co_similarity c)) p [(m, x)]) = []"
    by (simp add: dissent_analyze_def pairwise_dissent_def Let_def)
  moreover have "most_common [x] = Some (x, 1)" by (simp add: most_common_def dcount_def dget_def)
  ultimately have "ag_quorum_met (or_final_output r) \<and> ag_confidence (or_final_output r) = ''High'' \<and> ag_agreement_ratio (or_final_output r) = 1"
    using a assms(4)
    by (auto simp: aggregate_responses_def analyze_agreement_def exact_agreement_def resp_list_of_def confidence_of_def
        eq_commute [of _ "or_final_output r"])
  then show ?thesis using u one by simp
qed

section \<open>Witnesses\<close>

definition sample_council :: "fetch \<Rightarrow> Council" where
  "sample_council f =
     \<lparr>co_fetch = f, co_similarity = Some (\<lambda>_ _. 1), co_generate = (\<lambda>p. Some (mock_generate p)),
      co_thresholds = default_thresholds, co_session_id = ''s1'', co_entry_id = ''e1'', co_now = [], co_mtime = 1,
      co_session_written = True, co_entry_written = True\<rparr>"

definition sample_settings :: "bool \<Rightarrow> Settings" where
  "sample_settings deliberate =
     \<lparr>set_ncg_enabled = True, set_session_logging = True, set_deliberation_enabled = deliberate, set_deliberation_rounds = 1\<rparr>"

definition timeout_later :: fetch where
  "timeout_later k n q = (if n = ''a'' \<and> k = 1 then Reply ''[a] Timeout'' else Reply ''x'')"

definition b_raises :: fetch where
  "b_raises k n q = (if n = ''b'' then Raises else Reply ''x'')"

lemma sample_total:
  "\<exists>r sd' ld'. run_orchestration (sample_council b_raises) s p [''a'', ''b''] sd ld = Inr (r, sd', ld')"
  "\<exists>r sd' ld'. run_orchestration (sample_council timeout_later) s p [''a'', ''b''] sd ld = Inr (r, sd', ld')"
  by (rule run_returns; simp add: sample_council_def b_raises_def timeout_later_def)+

lemma orchestration_sound_witness:
  "\<exists>r sd' ld'. run_orchestration (sample_council b_raises) (sample_settings True) ''q'' [''a'', ''b''] [] [] = Inr (r, sd', ld')
     \<and> map ae_agent (or_agent_errors r) = [''b'']"
proof -
  obtain r sd' ld' where r: "run_orchestration (sample_council b_raises) (sample_settings True) ''q'' [''a'', ''b''] [] [] = Inr (r, sd', ld')"
    using sample_total(1) by blast
  have "co_fetch (sample_council b_raises) = b_raises" "\<not> is_agent_error ''x''" by (simp_all add: sample_council_def)
  then have "map ae_agent (or_agent_errors r) = [''b'']"
    using orchestration_sound [where agents = "[''a'', ''b'']" and c = "sample_council b_raises" and s = "sample_settings True" and p = "''q''"
        and sd = "[]" and ld = "[]"] r by (simp add: b_raises_def)
  then show ?thesis using r by (intro exI conjI)
qed

lemma stream_equals_plain_witness:
  "\<exists>ev d sd' ld'. run_orchestration_stream (sample_council b_raises) (sample_settings True) ''q'' [''a'', ''b''] [''a'', ''b''] [] []
     = (ev @ [EvDone d], sd', ld')"
proof -
  obtain r sd' ld' where "run_orchestration (sample_council b_raises) (sample_settings True) ''q'' [''a'', ''b''] [] [] = Inr (r, sd', ld')"
    using sample_total(1) by blast
  then show ?thesis
    using stream_equals_plain [of "[''a'', ''b'']" "sample_council b_raises" "sample_settings True" "''q''" "[]" "[]"] by auto
qed

lemma deliberation_error_goes_unreported_witness:
  "\<exists>r sd' ld'. run_orchestration (sample_council timeout_later) (sample_settings True) ''q'' [''a'', ''b''] [] [] = Inr (r, sd', ld')
     \<and> map_of (or_named_responses r) ''a'' = Some ''[a] Timeout'' \<and> ''a'' \<notin> set (map ae_agent (or_agent_errors r))"
proof -
  let ?c = "sample_council timeout_later"
  obtain r sd' ld' where run: "run_orchestration ?c (sample_settings True) ''q'' [''a'', ''b''] [] [] = Inr (r, sd', ld')"
    using sample_total(2) by blast
  have e: "is_agent_error ''[a] Timeout''" "\<not> is_agent_error ''x''" by (simp_all add: sentinel_tail_def starts_with_def)
  have "2 \<le> length (clean_names_of (initial_responses (co_fetch ?c) ''q'' [''a'', ''b'']))"
    by (simp add: clean_names_of_def initial_responses_def first_reply_def sample_council_def timeout_later_def)
  then have "map_of (or_named_responses r) ''a'' = Some ''[a] Timeout'' \<and> ''a'' \<notin> set (map ae_agent (or_agent_errors r))"
    using deliberation_error_goes_unreported [OF _ _ _ _ _ _ e(2) _ e(1) run, of "''a''"]
    by (simp add: sample_settings_def sample_council_def timeout_later_def)
  then show ?thesis using run by blast
qed

lemma lone_answer_meets_quorum_witness:
  "\<exists>r sd' ld'. run_orchestration (sample_council b_raises) (sample_settings False) ''q'' [''a'', ''b''] [] [] = Inr (r, sd', ld')
     \<and> ag_confidence (or_final_output r) = ''High''"
proof -
  let ?c = "sample_council b_raises"
  obtain r sd' ld' where run: "run_orchestration ?c (sample_settings False) ''q'' [''a'', ''b''] [] [] = Inr (r, sd', ld')"
    using sample_total(1) by blast
  have "or_named_responses r = [(''a'', ''x''), (''b'', ''[b] Failed'')]"
    using run_unfolded [OF _ run]
    by (simp add: debated_final sample_settings_def initial_responses_def first_reply_def sample_council_def b_raises_def failed_reply_def
        text_answers_def)
  then have "length (filter (\<lambda>x. \<not> is_agent_error x) (dvalues (or_named_responses r))) = 1"
    by (simp add: sentinel_tail_def starts_with_def)
  from lone_answer_meets_quorum [OF _ run this] run show ?thesis
    by (auto simp: sample_council_def default_thresholds_def QUORUM_THRESHOLD_def)
qed

definition null_first :: fetch where
  "null_first k n q = (if n = ''a'' then NoText else Reply ''x'')"

lemma null_answer_ends_run_witness:
  "run_orchestration (sample_council null_first) (sample_settings True) ''q'' [''a'', ''b''] [] [] = Inl AnswerNotText"
  using null_answer_ends_run [of "[''a'', ''b'']" "''a''" "sample_council null_first" "''q''"]
  by (simp add: sample_council_def null_first_def)

end
