(* ===== verification/Py_Codec.thy ===== *)
theory Py_Codec
  imports Prelude "HOL-Library.Word" "HOL-Library.List_Lexorder" "HOL-Library.Char_ord"
begin

text \<open>
  The encodings of Python's standard library that the signed files go through: \<^verbatim>\<open>str.encode\<close> in UTF-8,
  \<^verbatim>\<open>base64\<close>, and \<^verbatim>\<open>json.dumps(..., sort_keys=True, separators=(",", ":"), ensure_ascii=False)\<close> on
  values without floats.  A Python \<^verbatim>\<open>bytes\<close> is a list of 8-bit words.  The lemmas show that each
  encoding loses nothing: base64 decodes to what was encoded, UTF-8 is injective, and the compact
  JSON text determines the value it prints.
\<close>

type_synonym bytes = "8 word list"

named_theorems codec_inj \<open>an encoding determines what it encodes\<close>

definition byte :: "nat \<Rightarrow> 8 word" where
  "byte n = word_of_nat n"

lemma byte_inj [simp]: "n < 256 \<Longrightarrow> m < 256 \<Longrightarrow> byte n = byte m \<longleftrightarrow> n = m"
  by (simp add: byte_def word_of_nat_eq_iff take_bit_nat_eq_self)

lemma unat_byte [simp]: "n < 256 \<Longrightarrow> unat (byte n) = n"
  by (simp add: byte_def unat_of_nat take_bit_nat_eq_self)

lemma byte_unat [simp]: "byte (unat b) = b"
  by (simp add: byte_def)

lemma unat_byte_less [simp]: "unat (b :: 8 word) < 256"
  using unsigned_less [of b, where ?'a = nat] by simp

lemma char_code_less [simp]: "(of_char c :: nat) < 256"
  by (rule nat_of_char_less_256)

section \<open>UTF-8\<close>

definition utf8_char :: "char \<Rightarrow> bytes" where
  "utf8_char c =
     (let n = (of_char c :: nat) in
      if n < 128 then [byte n] else [byte (192 + n div 64), byte (128 + n mod 64)])"

definition utf8_encode :: "string \<Rightarrow> bytes" where
  "utf8_encode s = concat (map utf8_char s)"

lemma utf8_char_prefix: "utf8_char c @ x = utf8_char d @ y \<Longrightarrow> c = d \<and> x = y"
proof -
  assume eq: "utf8_char c @ x = utf8_char d @ y"
  let ?n = "of_char c :: nat" and ?m = "of_char d :: nat"
  have r: "?n < 256" "?m < 256" by simp_all
  have b: "192 + k div 64 < 256" "128 + k mod 64 < 256" if "k < 256" for k :: nat
    using that by linarith+
  have "?n = ?m \<and> x = y"
  proof (cases "?n < 128"; cases "?m < 128")
    assume "\<not> ?n < 128" "\<not> ?m < 128"
    then have "192 + ?n div 64 = 192 + ?m div 64" "128 + ?n mod 64 = 128 + ?m mod 64" "x = y"
      using eq b [OF r(1)] b [OF r(2)] by (simp_all add: utf8_char_def Let_def)
    then show ?thesis by (metis add_left_cancel div_mult_mod_eq)
  next
    assume "?n < 128" "?m < 128"
    then show ?thesis using eq r by (simp add: utf8_char_def Let_def)
  next
    assume "\<not> ?n < 128" "?m < 128"
    then have "192 + ?n div 64 = ?m" using eq b [OF r(1)] r by (simp add: utf8_char_def Let_def)
    then show ?thesis using \<open>?m < 128\<close> by linarith
  next
    assume "?n < 128" "\<not> ?m < 128"
    then have "?n = 192 + ?m div 64" using eq b [OF r(2)] r by (simp add: utf8_char_def Let_def)
    then show ?thesis using \<open>?n < 128\<close> by linarith
  qed
  then show ?thesis by simp
qed

lemma utf8_char_not_Nil [simp]: "utf8_char c \<noteq> []"
  by (simp add: utf8_char_def Let_def)

lemma utf8_encode_simps [simp]: "utf8_encode [] = []" "utf8_encode (c # s) = utf8_char c @ utf8_encode s"
  by (simp_all add: utf8_encode_def)

lemma utf8_encode_inj [codec_inj]: "utf8_encode s = utf8_encode t \<Longrightarrow> s = t"
proof (induction s arbitrary: t)
  case Nil
  then show ?case by (cases t) auto
next
  case (Cons c s)
  then obtain d u where "t = d # u" by (cases t) auto
  then show ?case using Cons utf8_char_prefix [of c "utf8_encode s" d "utf8_encode u"] by auto
qed

section \<open>Base64\<close>

definition b64_char :: "nat \<Rightarrow> char" where
  "b64_char n =
     (if n < 26 then char_of (65 + n) else if n < 52 then char_of (71 + n) else if n < 62 then char_of (n - 4)
      else if n = 62 then CHR ''+'' else CHR ''/'')"

definition b64_value :: "char \<Rightarrow> nat option" where
  "b64_value c =
     (let n = (of_char c :: nat) in
      if 65 \<le> n \<and> n \<le> 90 then Some (n - 65) else if 97 \<le> n \<and> n \<le> 122 then Some (n - 71)
      else if 48 \<le> n \<and> n \<le> 57 then Some (n + 4) else if n = 43 then Some 62
      else if n = 47 then Some 63 else None)"

fun b64encode :: "bytes \<Rightarrow> string" where
  "b64encode [] = []"
| "b64encode [a] = [b64_char (unat a div 4), b64_char (unat a mod 4 * 16), CHR ''='', CHR ''='']"
| "b64encode [a, b] =
     [b64_char (unat a div 4), b64_char (unat a mod 4 * 16 + unat b div 16), b64_char (unat b mod 16 * 4), CHR ''='']"
| "b64encode (a # b # c # bs) =
     [b64_char (unat a div 4), b64_char (unat a mod 4 * 16 + unat b div 16),
      b64_char (unat b mod 16 * 4 + unat c div 64), b64_char (unat c mod 64)] @ b64encode bs"

text \<open>
  \<^verbatim>\<open>base64.b64decode\<close> without validation: a character outside the alphabet is skipped, a padding
  that completes a quad ends the input, an incomplete quad raises (\<^term>\<open>None\<close>); so does a character that
  is not ASCII.  \<open>quad\<close> counts the characters of the current quad, \<open>left\<close> holds the bits not yet written.
\<close>

fun b64_scan :: "nat \<Rightarrow> nat \<Rightarrow> nat \<Rightarrow> string \<Rightarrow> bytes option" where
  "b64_scan quad left pads [] = (if quad = 0 then Some [] else None)"
| "b64_scan quad left pads (c # cs) =
     (if c = CHR ''='' then
        (if quad \<ge> 2 \<and> quad + pads + 1 \<ge> 4 then Some []
         else b64_scan quad left (if quad \<ge> 2 then pads + 1 else pads) cs)
      else case b64_value c of
        None \<Rightarrow> b64_scan quad left pads cs
      | Some v \<Rightarrow>
          (if quad = 0 then b64_scan 1 v 0 cs
           else if quad = 1 then map_option ((#) (byte (left * 4 + v div 16))) (b64_scan 2 (v mod 16) 0 cs)
           else if quad = 2 then map_option ((#) (byte (left * 16 + v div 4))) (b64_scan 3 (v mod 4) 0 cs)
           else map_option ((#) (byte (left * 64 + v))) (b64_scan 0 0 0 cs)))"

definition b64decode :: "string \<Rightarrow> bytes option" where
  "b64decode s = (if list_all (\<lambda>c. (of_char c :: nat) < 128) s then b64_scan 0 0 0 s else None)"

lemma of_char_b64: "n < 64 \<Longrightarrow> (of_char (b64_char n) :: nat) =
    (if n < 26 then 65 + n else if n < 52 then 71 + n else if n < 62 then n - 4 else if n = 62 then 43 else 47)"
  by (auto simp: b64_char_def)

lemma b64_char_value: "n < 64 \<Longrightarrow> b64_value (b64_char n) = Some n \<and> b64_char n \<noteq> CHR ''='' \<and> (of_char (b64_char n) :: nat) < 128"
proof -
  assume n: "n < 64"
  have "b64_char n \<noteq> CHR ''=''"
  proof
    assume "b64_char n = CHR ''=''"
    then have "(of_char (b64_char n) :: nat) = 61" by simp
    then show False using n of_char_b64 [OF n] by (auto split: if_splits)
  qed
  then show ?thesis using n unfolding b64_value_def of_char_b64 [OF n] Let_def by (auto split: if_splits)
qed

lemmas b64_char_simps [simp] = b64_char_value [THEN conjunct1] b64_char_value [THEN conjunct2, THEN conjunct1]
  b64_char_value [THEN conjunct2, THEN conjunct2]

lemma b64_bits [simp]:
  fixes a b c :: "8 word"
  shows "unat a div 4 < 64" "unat a mod 4 * 16 < 64" "unat a mod 4 * 16 + unat b div 16 < 64"
    "unat b mod 16 * 4 < 64" "unat b mod 16 * 4 + unat c div 64 < 64" "unat c mod 64 < 64"
  using unat_byte_less [of a] unat_byte_less [of b] unat_byte_less [of c] by linarith+

lemma join_bits [simp]:
  fixes h l k :: nat
  shows "l < k \<Longrightarrow> (h * k + l) div k = h" "l < k \<Longrightarrow> (h * k + l) mod k = l"
  by (simp_all add: div_mult_self3)

lemma b64_parts [simp]:
  fixes a :: "8 word"
  shows "unat a div 16 < 16" "unat a div 64 < 4"
  using unat_byte_less [of a] by linarith+

lemma b64_scan_encode: "b64_scan 0 0 0 (b64encode bs) = Some bs"
  by (induction bs rule: b64encode.induct) simp_all

lemma b64encode_ascii: "list_all (\<lambda>c. (of_char c :: nat) < 128) (b64encode bs)"
  by (induction bs rule: b64encode.induct) simp_all

lemma b64decode_encode [simp]: "b64decode (b64encode bs) = Some bs"
  by (simp add: b64decode_def b64encode_ascii b64_scan_encode)

section \<open>JSON\<close>

datatype json =
  JNull | JBool bool | JInt int | JStr string | JList "json list" | JObj "(string \<times> json) list"

text \<open>The truth value of a parsed JSON value.\<close>

fun json_truthy :: "json \<Rightarrow> bool" where
  "json_truthy JNull = False"
| "json_truthy (JBool b) = b"
| "json_truthy (JInt i) = (i \<noteq> 0)"
| "json_truthy (JStr s) = (s \<noteq> [])"
| "json_truthy (JList vs) = (vs \<noteq> [])"
| "json_truthy (JObj es) = (es \<noteq> [])"

text \<open>The escapes of \<^verbatim>\<open>json.encoder.ESCAPE_DCT\<close>: the quote, the backslash and the control characters.\<close>

definition hex_digit :: "nat \<Rightarrow> char" where
  "hex_digit n = (if n < 10 then char_of (48 + n) else char_of (87 + n))"

definition json_char :: "char \<Rightarrow> string" where
  "json_char c =
     (let n = (of_char c :: nat); bs = CHR 0x5C in
      if n = 34 \<or> n = 92 then [bs, c]
      else if n = 8 then bs # ''b'' else if n = 9 then bs # ''t'' else if n = 10 then bs # ''n''
      else if n = 12 then bs # ''f'' else if n = 13 then bs # ''r''
      else if n < 32 then bs # ''u00'' @ [hex_digit (n div 16), hex_digit (n mod 16)] else [c])"

definition json_quote :: char where
  "json_quote = CHR 0x22"

definition json_str :: "string \<Rightarrow> string" where
  "json_str s = json_quote # concat (map json_char s) @ [json_quote]"

fun json_print :: "json \<Rightarrow> string" and json_elems :: "json list \<Rightarrow> string"
  and json_entries :: "(string \<times> json) list \<Rightarrow> string" where
  "json_print JNull = ''null''"
| "json_print (JBool b) = (if b then ''true'' else ''false'')"
| "json_print (JInt i) = int_str i"
| "json_print (JStr s) = json_str s"
| "json_print (JList []) = ''[]''"
| "json_print (JList (v # vs)) = ''['' @ json_print v @ json_elems vs"
| "json_print (JObj []) = ''{}''"
| "json_print (JObj ((k, v) # es)) = ''{'' @ json_str k @ '':'' @ json_print v @ json_entries es"
| "json_elems [] = '']''"
| "json_elems (v # vs) = '','' @ json_print v @ json_elems vs"
| "json_entries [] = ''}''"
| "json_entries ((k, v) # es) = '','' @ json_str k @ '':'' @ json_print v @ json_entries es"

text \<open>\<^verbatim>\<open>sort_keys=True\<close> orders the entries of every object by key.\<close>

fun json_sorted :: "json \<Rightarrow> json" where
  "json_sorted (JList vs) = JList (map json_sorted vs)"
| "json_sorted (JObj es) = JObj (sort_key fst (map (\<lambda>(k, v). (k, json_sorted v)) es))"
| "json_sorted v = v"

definition json_dumps :: "json \<Rightarrow> string" where
  "json_dumps v = json_print (json_sorted v)"

subsection \<open>The printed text determines the value\<close>

lemma of_char_hex: "n < 16 \<Longrightarrow> (of_char (hex_digit n) :: nat) = (if n < 10 then 48 + n else 87 + n)"
  by (auto simp: hex_digit_def)

lemma hex_digit_inj [simp]:
  assumes "n < 16" "m < 16"
  shows "hex_digit n = hex_digit m \<longleftrightarrow> n = m"
proof
  assume "hex_digit n = hex_digit m"
  then have "(of_char (hex_digit n) :: nat) = of_char (hex_digit m)" by (rule arg_cong)
  then show "n = m" using assms unfolding of_char_hex [OF assms(1)] of_char_hex [OF assms(2)] by (simp split: if_splits)
qed simp

lemma json_char_plain: "json_char c = [c] \<or> hd (json_char c) = CHR 0x5C"
  by (auto simp: json_char_def Let_def)

lemma json_char_not_Nil [simp]: "json_char c \<noteq> []"
  by (simp add: json_char_def Let_def)

lemma json_char_escaped: "json_char c = [c] \<Longrightarrow> (of_char c :: nat) \<noteq> 92 \<and> (of_char c :: nat) \<noteq> 34"
  by (auto simp: json_char_def Let_def split: if_splits)

lemma hd_json_char: "hd (json_char c) \<noteq> json_quote"
proof
  assume q: "hd (json_char c) = json_quote"
  then have "json_char c = [c]" using json_char_plain [of c] by (auto simp: json_quote_def)
  then show False using q json_char_escaped [of c] by (simp add: json_quote_def)
qed

text \<open>The characters after the backslash tell which character was escaped.\<close>

definition escaped_code :: "char \<Rightarrow> nat" where
  "escaped_code z = (let k = (of_char z :: nat) in
     if k = 98 then 8 else if k = 116 then 9 else if k = 110 then 10 else if k = 102 then 12
     else if k = 114 then 13 else k)"

lemma json_char_escape_cases:
  assumes "json_char c \<noteq> [c]"
  obtains z where "json_char c = [CHR 0x5C, z]" "z \<noteq> CHR ''u''" "of_char c = escaped_code z"
  | "json_char c = CHR 0x5C # ''u00'' @ [hex_digit (of_char c div 16), hex_digit (of_char c mod 16)]"
    "(of_char c :: nat) < 32"
proof (cases "(of_char c :: nat) \<in> {34, 92, 8, 9, 10, 12, 13}")
  case True
  then consider "(of_char c :: nat) = 34" | "(of_char c :: nat) = 92" | "(of_char c :: nat) = 8"
    | "(of_char c :: nat) = 9" | "(of_char c :: nat) = 10" | "(of_char c :: nat) = 12" | "(of_char c :: nat) = 13"
    by auto
  then show ?thesis
    by cases (rule that(1), simp add: json_char_def Let_def, force, simp add: escaped_code_def Let_def)+
next
  case False
  then show ?thesis using assms that(2) by (simp add: json_char_def Let_def split: if_splits)
qed

lemma json_escapes_prefix:
  assumes eq: "json_char c @ x = json_char d @ y" and esc: "json_char c \<noteq> [c]" "json_char d \<noteq> [d]"
  shows "c = d \<and> x = y"
  using esc(1)
proof (cases rule: json_char_escape_cases)
  case (1 z)
  note c = this
  show ?thesis using esc(2)
  proof (cases rule: json_char_escape_cases)
    case (1 z')
    then have "(of_char c :: nat) = of_char d" "x = y" using c eq by simp_all
    then show ?thesis by simp
  next
    case 2
    then show ?thesis using c eq by simp
  qed
next
  case 2
  note c = this
  show ?thesis using esc(2)
  proof (cases rule: json_char_escape_cases)
    case (1 z')
    then show ?thesis using c eq by simp
  next
    case 2
    have "(of_char c :: nat) div 16 < 16" "(of_char d :: nat) div 16 < 16" using c(2) 2(2) by linarith+
    then have "(of_char c :: nat) div 16 = of_char d div 16" "(of_char c :: nat) mod 16 = of_char d mod 16" "x = y"
      using c 2 eq by simp_all
    then have "(of_char c :: nat) = of_char d" by (metis div_mult_mod_eq)
    then show ?thesis using \<open>x = y\<close> by simp
  qed
qed

lemma json_char_prefix: "json_char c @ x = json_char d @ y \<Longrightarrow> c = d \<and> x = y"
proof -
  assume eq: "json_char c @ x = json_char d @ y"
  have h: "hd (json_char c) = hd (json_char d)"
    using arg_cong [OF eq, of hd] by (simp add: hd_append)
  have bs: "json_char e \<noteq> [e] \<Longrightarrow> hd (json_char e) = CHR 0x5C" for e using json_char_plain [of e] by simp
  have pl: "json_char e = [e] \<Longrightarrow> hd (json_char e) \<noteq> CHR 0x5C" for e
    using json_char_escaped [of e] by auto
  show ?thesis
  proof (cases "json_char c = [c]")
    case True
    then have "json_char d = [d]" using h bs [of d] pl [of c] by metis
    then show ?thesis using True eq by simp
  next
    case False
    then have "json_char d \<noteq> [d]" using h bs [of c] pl [of d] by metis
    then show ?thesis using False eq json_escapes_prefix by blast
  qed
qed

lemma json_str_simps:
  "json_str [] @ x = json_quote # json_quote # x"
  "json_str (c # s) @ x = json_quote # json_char c @ tl (json_str s @ x)"
  by (simp_all add: json_str_def)

lemma tl_json_str: "json_str s @ x = json_quote # tl (json_str s @ x)"
  by (simp add: json_str_def)

lemma json_str_prefix: "json_str s @ x = json_str t @ y \<Longrightarrow> s = t \<and> x = y"
proof (induction s arbitrary: t)
  case Nil
  show ?case
  proof (cases t)
    case (Cons d u)
    then show ?thesis using Nil hd_json_char [of d] by (simp add: json_str_simps) (metis append_self_conv2 hd_append2 json_char_not_Nil list.sel(1))
  qed (use Nil in \<open>simp add: json_str_simps\<close>)
next
  case (Cons c s)
  show ?case
  proof (cases t)
    case Nil
    then show ?thesis using Cons.prems hd_json_char [of c] by (simp add: json_str_simps) (metis append_self_conv2 hd_append2 json_char_not_Nil list.sel(1))
  next
    case (Cons d u)
    then have "c = d \<and> tl (json_str s @ x) = tl (json_str u @ y)"
      using Cons.prems by (intro json_char_prefix) (simp add: json_str_simps)
    then show ?thesis using Cons.IH [of u] Cons tl_json_str [of s x] tl_json_str [of u y] by simp
  qed
qed

definition no_digit_first :: "string \<Rightarrow> bool" where
  "no_digit_first x = (case x of [] \<Rightarrow> True | c # _ \<Rightarrow> \<not> is_digit c)"

lemma is_digit_char: "k < 10 \<Longrightarrow> is_digit (char_of (48 + k :: nat))"
  by (simp add: is_digit_def Let_def)

lemma nat_str_digits: "nat_str n \<noteq> [] \<and> list_all is_digit (nat_str n)"
proof (induction n rule: nat_str.induct)
  case (1 n)
  show ?case using 1 is_digit_char [of n] is_digit_char [of "n mod 10"] by (subst (1 2) nat_str.simps) auto
qed

definition digits_value :: "string \<Rightarrow> nat" where
  "digits_value s = foldl (\<lambda>a c. a * 10 + (of_char c - 48)) 0 s"

lemma digits_value_nat_str: "digits_value (nat_str n) = n"
proof (induction n rule: nat_str.induct)
  case (1 n)
  then show ?case by (subst nat_str.simps) (auto simp: digits_value_def)
qed

lemma nat_str_prefix:
  assumes "nat_str n @ x = nat_str m @ y" "no_digit_first x" "no_digit_first y"
  shows "n = m \<and> x = y"
proof -
  have t: "takeWhile is_digit (nat_str k @ z) = nat_str k \<and> dropWhile is_digit (nat_str k @ z) = z"
    if "no_digit_first z" for k z
    using nat_str_digits [of k] that
    by (cases z) (auto simp: list_all_iff no_digit_first_def takeWhile_append2 dropWhile_append2)
  have "nat_str n = nat_str m \<and> x = y" using t [of x n] t [of y m] assms by metis
  then show ?thesis using digits_value_nat_str by metis
qed

definition int_start :: "char \<Rightarrow> bool" where
  "int_start c = (c = CHR ''-'' \<or> is_digit c)"

lemma int_str_start: "int_str i @ x = c # y \<Longrightarrow> int_start c"
  using nat_str_digits [of "nat i"] nat_str_digits [of "nat (- i)"]
  by (cases "nat_str (nat i)") (auto simp: int_str_def int_start_def split: if_splits)

lemma int_str_prefix:
  assumes eq: "int_str i @ x = int_str j @ y" and "no_digit_first x" "no_digit_first y"
  shows "i = j \<and> x = y"
proof -
  have d: "nat_str k @ z \<noteq> CHR ''-'' # w" for k z w
    using nat_str_digits [of k] by (cases "nat_str k") (auto simp: is_digit_def)
  show ?thesis
  proof (cases "i < 0"; cases "j < 0")
    assume "i < 0" "j < 0"
    then show ?thesis using eq nat_str_prefix [OF _ assms(2,3), of "nat (- i)" "nat (- j)"] by (auto simp: int_str_def)
  next
    assume "\<not> i < 0" "\<not> j < 0"
    then show ?thesis using eq nat_str_prefix [OF _ assms(2,3), of "nat i" "nat j"] by (auto simp: int_str_def)
  next
    assume "i < 0" "\<not> j < 0"
    then show ?thesis using eq d [of "nat j" y] by (simp add: int_str_def) metis
  next
    assume "\<not> i < 0" "j < 0"
    then show ?thesis using eq d [of "nat i" x] by (simp add: int_str_def)
  qed
qed

lemma int_start_simps [simp]:
  "\<not> int_start CHR ''n''" "\<not> int_start CHR ''t''" "\<not> int_start CHR ''f''" "\<not> int_start CHR ''[''"
  "\<not> int_start CHR ''{''" "\<not> int_start json_quote" "no_digit_first (CHR '','' # x)"
  "no_digit_first (CHR '']'' # x)" "no_digit_first (CHR ''}'' # x)"
  by (simp_all add: int_start_def is_digit_def no_digit_first_def json_quote_def)

lemma json_print_start:
  "json_print b @ y = CHR ''n'' # z \<Longrightarrow> b = JNull"
  "json_print b @ y = json_quote # z \<Longrightarrow> \<exists>s. b = JStr s"
  "json_print b @ y = CHR ''['' # z \<Longrightarrow> \<exists>vs. b = JList vs"
  "json_print b @ y = CHR ''{'' # z \<Longrightarrow> \<exists>es. b = JObj es"
  "json_print b @ y = c # z \<Longrightarrow> c = CHR ''t'' \<or> c = CHR ''f'' \<Longrightarrow> \<exists>t. b = JBool t"
  "json_print b @ y = c # z \<Longrightarrow> int_start c \<Longrightarrow> \<exists>i. b = JInt i"
  by (cases b rule: json_print.cases; auto simp: json_str_def json_quote_def [symmetric] dest!: int_str_start split: if_splits;
      auto simp: json_quote_def int_start_def is_digit_def)+

lemma no_digit_first_tails [simp]:
  "no_digit_first (json_elems vs @ x)" "no_digit_first (json_entries es @ x)"
  by (cases vs; simp) (cases es rule: json_entries.cases; simp)

lemma json_print_no_close: "json_print b @ y \<noteq> CHR '']'' # z"
  by (cases b rule: json_print.cases)
    (auto simp: json_str_def json_quote_def dest!: int_str_start [of _ _ "CHR '']''"] simp: int_start_def is_digit_def)

lemma json_prefix:
  "json_print a @ x = json_print b @ y \<Longrightarrow> no_digit_first x \<Longrightarrow> no_digit_first y \<Longrightarrow> a = b \<and> x = y"
  "json_elems vs @ x' = json_elems ws @ y' \<Longrightarrow> vs = ws \<and> x' = y'"
  "json_entries es @ x'' = json_entries ds @ y'' \<Longrightarrow> es = ds \<and> x'' = y''"
proof (induction a and vs and es arbitrary: b x y and ws x' y' and ds x'' y''
    rule: json_print_json_elems_json_entries.induct)
  case (1 b x y)
  then show ?case using json_print_start(1) [of b y "''ull'' @ x"] by auto
next
  case (2 t b x y)
  then obtain u where "b = JBool u"
    using json_print_start(5) [of b y "if t then CHR ''t'' else CHR ''f''" "(if t then ''rue'' else ''alse'') @ x"]
    by (auto split: if_splits)
  then show ?case using 2 by (auto split: if_splits)
next
  case (3 i b x y)
  obtain c z where c: "int_str i @ x = c # z"
    using nat_str_digits [of "nat i"] by (cases "int_str i @ x") (auto simp: int_str_def split: if_splits)
  then obtain j where "b = JInt j"
    using json_print_start(6) [of b y c z] int_str_start [OF c] 3(1) by auto
  then show ?case using 3 int_str_prefix [of i x j y] by simp
next
  case (4 s b x y)
  then obtain t where "b = JStr t"
    using json_print_start(2) [of b y "tl (json_str s @ x)"] tl_json_str [of s x] by auto
  then show ?case using 4 json_str_prefix [of s x t y] by simp
next
  case (5 b x y)
  then obtain ws where "b = JList ws" using json_print_start(3) [of b y "'']'' @ x"] by auto
  then show ?case using 5 by (cases ws) (auto dest!: sym [of "CHR '']'' # _"] simp: json_print_no_close)
next
  case (6 v vs b x y)
  obtain ws where b: "b = JList ws"
    using 6(3) json_print_start(3) [of b y "json_print v @ json_elems vs @ x"] by auto
  show ?case
  proof (cases ws)
    case Nil
    then show ?thesis using 6(3) b by (simp add: json_print_no_close)
  next
    case (Cons w us)
    then show ?thesis using 6(1) [of "json_elems vs @ x" w "json_elems us @ y"] 6(2) [of x us y] 6(3) b by simp
  qed
next
  case (7 b x y)
  then obtain ds where "b = JObj ds" using json_print_start(4) [of b y "''}'' @ x"] by auto
  then show ?case using 7 by (cases ds rule: json_entries.cases) (auto simp: json_str_def json_quote_def)
next
  case (8 k v es b x y)
  obtain ds where b: "b = JObj ds"
    using 8(3) json_print_start(4) [of b y "json_str k @ '':'' @ json_print v @ json_entries es @ x"] by auto
  show ?case
  proof (cases ds)
    case Nil
    then show ?thesis using 8(3) b by (simp add: json_str_def json_quote_def)
  next
    case (Cons e us)
    obtain l w where e: "e = (l, w)" by (cases e)
    have "k = l \<and> json_print v @ json_entries es @ x = json_print w @ json_entries us @ y"
      using 8(3) b Cons e json_str_prefix [of k "'':'' @ json_print v @ json_entries es @ x" l "'':'' @ json_print w @ json_entries us @ y"]
      by simp
    then show ?thesis using 8(1) [of "json_entries es @ x" w "json_entries us @ y"] 8(2) [of x us y] b Cons e by simp
  qed
next
  case (9 ws x' y')
  then show ?case by (cases ws) auto
next
  case (10 v vs ws x' y')
  show ?case
  proof (cases ws)
    case (Cons w us)
    then show ?thesis using 10(1) [of "json_elems vs @ x'" w "json_elems us @ y'"] 10(2) [of x' us y'] 10(3) by simp
  qed (use 10(3) in simp)
next
  case (11 ds x'' y'')
  then show ?case by (cases ds rule: json_entries.cases) auto
next
  case (12 k v es ds x'' y'')
  show ?case
  proof (cases ds)
    case Nil
    then show ?thesis using 12(3) by simp
  next
    case (Cons e us)
    obtain l w where e: "e = (l, w)" by (cases e)
    have "k = l \<and> json_print v @ json_entries es @ x'' = json_print w @ json_entries us @ y''"
      using 12(3) Cons e json_str_prefix [of k "'':'' @ json_print v @ json_entries es @ x''" l "'':'' @ json_print w @ json_entries us @ y''"]
      by simp
    then show ?thesis using 12(1) [of "json_entries es @ x''" w "json_entries us @ y''"] 12(2) [of x'' us y''] Cons e by simp
  qed
qed

lemma json_print_inj [codec_inj]: "json_print a = json_print b \<Longrightarrow> a = b"
  using json_prefix(1) [of a "[]" b "[]"] by (simp add: no_digit_first_def)

section \<open>Stripping and integers\<close>

text \<open>\<^verbatim>\<open>str.strip()\<close>.\<close>

definition py_strip :: "string \<Rightarrow> string" where
  "py_strip s = rev (dropWhile py_space (rev (dropWhile py_space s)))"

text \<open>\<^verbatim>\<open>int(s)\<close> in base ten: white space around, an optional sign, digits with single underscores between.\<close>

definition py_int :: "string \<Rightarrow> int option" where
  "py_int s =
     (let t = py_strip s;
          neg = (t \<noteq> [] \<and> hd t = CHR ''-'');
          body = (if t \<noteq> [] \<and> (hd t = CHR ''-'' \<or> hd t = CHR ''+'') then tl t else t);
          parts = split_on CHR ''_'' body
      in if list_all (\<lambda>p. p \<noteq> [] \<and> list_all is_digit p) parts
         then Some ((if neg then -1 else 1) * int (digits_value (concat parts))) else None)"

text \<open>Numbers written and read.\<close>

lemma digit_no_space: "is_digit c \<Longrightarrow> \<not> py_space c"
  by (auto simp: is_digit_def py_space_def Let_def)

lemma strip_unspaced: "list_all (\<lambda>c. \<not> py_space c) s \<Longrightarrow> py_strip s = s"
proof -
  assume s: "list_all (\<lambda>c. \<not> py_space c) s"
  then have "dropWhile py_space s = s" "dropWhile py_space (rev s) = rev s"
    unfolding dropWhile_eq_self_iff by (auto simp: list_all_iff hd_rev intro: bspec [OF _ hd_in_set] bspec [OF _ last_in_set])
  then show ?thesis by (simp add: py_strip_def)
qed

lemma split_on_absent: "c \<notin> set s \<Longrightarrow> split_on c s = [s]"
  by (induction s) auto

lemma py_int_nat_str: "py_int (nat_str n) = Some (int n)"
proof -
  have d: "nat_str n \<noteq> []" "list_all is_digit (nat_str n)" using nat_str_digits by auto
  then have "py_strip (nat_str n) = nat_str n"
    by (intro strip_unspaced) (auto simp: list_all_iff digit_no_space)
  moreover have "hd (nat_str n) \<noteq> CHR ''-'' \<and> hd (nat_str n) \<noteq> CHR ''+''"
    using d by (cases "nat_str n") (auto simp: is_digit_def)
  moreover have "CHR ''_'' \<notin> set (nat_str n)"
    using d by (auto simp: list_all_iff is_digit_def dest: bspec [of _ _ "CHR ''_''"])
  ultimately show ?thesis using d by (simp add: py_int_def Let_def split_on_absent digits_value_nat_str)
qed

lemma py_int_int_str: "0 \<le> i \<Longrightarrow> py_int (int_str i) = Some i"
  by (simp add: int_str_def py_int_nat_str)

section \<open>Lines\<close>

definition newline :: char where
  "newline = CHR 0x0A"

fun universal_newlines :: "string \<Rightarrow> string" where
  "universal_newlines [] = []"
| "universal_newlines [c] = [if c = CHR 0x0D then newline else c]"
| "universal_newlines (c # d # cs) =
     (if c = CHR 0x0D \<and> d = newline then newline # universal_newlines cs
      else (if c = CHR 0x0D then newline else c) # universal_newlines (d # cs))"

text \<open>The line ends of \<^verbatim>\<open>str.splitlines\<close>, less the carriage return, which a text file never yields.\<close>

definition line_break :: "char \<Rightarrow> bool" where
  "line_break c \<longleftrightarrow> (of_char c :: nat) \<in> {10, 11, 12, 28, 29, 30, 133}"

fun split_lines :: "string \<Rightarrow> string list" where
  "split_lines [] = []"
| "split_lines (c # cs) =
     (if line_break c then [c] # split_lines cs
      else case split_lines cs of [] \<Rightarrow> [[c]] | l # ls \<Rightarrow> (c # l) # ls)"

end
