(* ===== verification/Librarian.thy ===== *)
theory Librarian
  imports Py_Codec Stores
begin

text \<open>
  \<^verbatim>\<open>maestro/librarian/\<close>, reading and writing: the manifests (\<^verbatim>\<open>types.py\<close>), the hashes of a body and of a
  manifest (\<^verbatim>\<open>addressing.py\<close>), the wrapped Ed25519 primitives (\<^verbatim>\<open>crypto.py\<close>), the counting of valid
  signatures against a threshold (\<^verbatim>\<open>verification.py\<close>) and the store of committed cartridges
  (\<^verbatim>\<open>store.py\<close>).  SHA-256 and the \<^verbatim>\<open>cryptography\<close> package are parameters.
\<close>

section \<open>Types\<close>

datatype CartridgeKind =
  UNIT_DEFINITION | STATUTE_TEXT | PROTOCOL_SPEC | SCHEMA | DEFINITION | REFERENCE_DATASET | REVOCATION

datatype CanonicalForm = JSON_RFC8785 | TEXT_UTF8_NFC | BYTES_RAW

record Signature =
  sg_key_id :: string
  sg_algo :: string
  sg_sig :: string
  sg_signed_at :: string
  sg_role :: string

record Manifest =
  mf_cartridge_id :: string
  mf_version :: string
  mf_kind :: CartridgeKind
  mf_content_hash :: string
  mf_manifest_hash :: string
  mf_canonical_form :: CanonicalForm
  mf_supersedes :: "string list"
  mf_revokes :: "string list"
  mf_domain_tags :: "string list"
  mf_issued_at :: string
  mf_not_before :: "string option"
  mf_not_after :: "string option"
  mf_signatures :: "Signature list"
  mf_metadata :: "(string, json) dict"

record TrustedKey =
  tk_key_id :: string
  tk_public_key :: string
  tk_added_at :: string
  tk_added_by_operator_key :: string

record TrustList =
  tl_keys :: "(string, TrustedKey) dict"
  tl_operator_signature :: "string option"

record Policy =
  po_min_signatures_by_kind :: "(string, int) dict"
  po_review_external_imports :: bool
  po_import_caps_by_key :: "(string, int) dict"
  po_canonical_form_registry :: "string list"
  po_operator_key_fingerprint :: string

primrec kind_value :: "CartridgeKind \<Rightarrow> string" where
  "kind_value UNIT_DEFINITION = ''unit_definition''"
| "kind_value STATUTE_TEXT = ''statute_text''"
| "kind_value PROTOCOL_SPEC = ''protocol_spec''"
| "kind_value SCHEMA = ''schema''"
| "kind_value DEFINITION = ''definition''"
| "kind_value REFERENCE_DATASET = ''reference_dataset''"
| "kind_value REVOCATION = ''revocation''"

primrec form_value :: "CanonicalForm \<Rightarrow> string" where
  "form_value JSON_RFC8785 = ''json/rfc8785''"
| "form_value TEXT_UTF8_NFC = ''text/utf8-nfc''"
| "form_value BYTES_RAW = ''bytes/raw''"

section \<open>Cryptography\<close>

text \<open>What \<^verbatim>\<open>load_pem_public_key\<close> and \<^verbatim>\<open>load_pem_private_key\<close> make of a PEM: nothing, a key of another
  kind, or an Ed25519 key.\<close>

datatype 'k pem_key = PemInvalid | PemOther | PemEd25519 'k

record ('pub, 'priv) crypto =
  cr_sha256 :: "bytes \<Rightarrow> string"
  cr_load_public :: "bytes \<Rightarrow> 'pub pem_key"
  cr_load_private :: "bytes \<Rightarrow> 'priv pem_key"
  cr_raw_public :: "'pub \<Rightarrow> bytes"
  cr_verify :: "'pub \<Rightarrow> bytes \<Rightarrow> bytes \<Rightarrow> bool"
  cr_sign :: "'priv \<Rightarrow> bytes \<Rightarrow> bytes"

definition verify :: "('pub, 'priv) crypto \<Rightarrow> bytes \<Rightarrow> bytes \<Rightarrow> bytes \<Rightarrow> bool" where
  "verify cr public_pem message signature =
     (case cr_load_public cr public_pem of
        PemEd25519 public_key \<Rightarrow> cr_verify cr public_key message signature
      | _ \<Rightarrow> False)"

section \<open>Addressing\<close>

datatype body_error = BodyFormNotImplemented CanonicalForm

primrec canonicalize_body :: "bytes \<Rightarrow> CanonicalForm \<Rightarrow> body_error + bytes" where
  "canonicalize_body body BYTES_RAW = Inr body"
| "canonicalize_body body TEXT_UTF8_NFC = Inl (BodyFormNotImplemented TEXT_UTF8_NFC)"
| "canonicalize_body body JSON_RFC8785 = Inl (BodyFormNotImplemented JSON_RFC8785)"

definition compute_content_hash :: "('pub, 'priv) crypto \<Rightarrow> bytes \<Rightarrow> CanonicalForm \<Rightarrow> body_error + string" where
  "compute_content_hash cr body form =
     bind_res (canonicalize_body body form) (\<lambda>canonical. Inr (''sha256:'' @ cr_sha256 cr canonical))"

definition verify_content_hash :: "('pub, 'priv) crypto \<Rightarrow> bytes \<Rightarrow> CanonicalForm \<Rightarrow> string \<Rightarrow> bool" where
  "verify_content_hash cr body form expected =
     (case compute_content_hash cr body form of Inl _ \<Rightarrow> False | Inr h \<Rightarrow> h = expected)"

definition json_strings :: "string list \<Rightarrow> json" where
  "json_strings xs = JList (map JStr xs)"

primrec json_option :: "string option \<Rightarrow> json" where
  "json_option None = JNull"
| "json_option (Some s) = JStr s"

definition signature_to_dict :: "Signature \<Rightarrow> json" where
  "signature_to_dict s = JObj
     [(''key_id'', JStr (sg_key_id s)), (''algo'', JStr (sg_algo s)), (''sig'', JStr (sg_sig s)),
      (''signed_at'', JStr (sg_signed_at s)), (''role'', JStr (sg_role s))]"

definition manifest_to_dict :: "Manifest \<Rightarrow> (string, json) dict" where
  "manifest_to_dict m =
     [(''cartridge_id'', JStr (mf_cartridge_id m)), (''version'', JStr (mf_version m)),
      (''kind'', JStr (kind_value (mf_kind m))), (''content_hash'', JStr (mf_content_hash m)),
      (''manifest_hash'', JStr (mf_manifest_hash m)), (''canonical_form'', JStr (form_value (mf_canonical_form m))),
      (''supersedes'', json_strings (mf_supersedes m)), (''revokes'', json_strings (mf_revokes m)),
      (''domain_tags'', json_strings (mf_domain_tags m)), (''issued_at'', JStr (mf_issued_at m)),
      (''not_before'', json_option (mf_not_before m)), (''not_after'', json_option (mf_not_after m)),
      (''signatures'', JList (map signature_to_dict (mf_signatures m))), (''metadata'', JObj (mf_metadata m))]"

definition canonicalize_manifest_for_hashing :: "Manifest \<Rightarrow> bytes" where
  "canonicalize_manifest_for_hashing m =
     utf8_encode (json_dumps (JObj (ddel ''signatures'' (ddel ''manifest_hash'' (manifest_to_dict m)))))"

definition compute_manifest_hash :: "('pub, 'priv) crypto \<Rightarrow> Manifest \<Rightarrow> string" where
  "compute_manifest_hash cr m = ''sha256:'' @ cr_sha256 cr (canonicalize_manifest_for_hashing m)"

definition verify_manifest_hash :: "('pub, 'priv) crypto \<Rightarrow> Manifest \<Rightarrow> bool" where
  "verify_manifest_hash cr m = (compute_manifest_hash cr m = mf_manifest_hash m)"

section \<open>Verification\<close>

datatype sig_reason =
  SigOk | UnsupportedAlgo string | UnknownSigner | MalformedBase64 | DoesNotVerify | ContentMismatch | ManifestMismatch

record SignatureResult =
  sr_signature :: Signature
  sr_valid :: bool
  sr_reason :: sig_reason

record VerificationResult =
  vr_signatures :: "SignatureResult list"
  vr_threshold_required :: int
  vr_threshold_met :: bool
  vr_manifest_hash_ok :: bool
  vr_content_hash_ok :: bool

definition valid_count :: "VerificationResult \<Rightarrow> nat" where
  "valid_count r = length (filter sr_valid (vr_signatures r))"

definition valid_signatures :: "VerificationResult \<Rightarrow> Signature list" where
  "valid_signatures r = map sr_signature (filter sr_valid (vr_signatures r))"

definition invalid_signatures :: "VerificationResult \<Rightarrow> (Signature \<times> sig_reason) list" where
  "invalid_signatures r =
     map (\<lambda>s. (sr_signature s, sr_reason s)) (filter (\<lambda>s. \<not> sr_valid s) (vr_signatures r))"

definition bad_sig :: "Signature \<Rightarrow> sig_reason \<Rightarrow> SignatureResult" where
  "bad_sig s reason = \<lparr>sr_signature = s, sr_valid = False, sr_reason = reason\<rparr>"

definition verify_one_sig :: "('pub, 'priv) crypto \<Rightarrow> string \<Rightarrow> TrustList \<Rightarrow> Signature \<Rightarrow> SignatureResult" where
  "verify_one_sig cr manifest_hash trust_list s =
     (if sg_algo s \<noteq> ''ed25519'' then bad_sig s (UnsupportedAlgo (sg_algo s))
      else case map_of (tl_keys trust_list) (sg_key_id s) of
        None \<Rightarrow> bad_sig s UnknownSigner
      | Some trusted \<Rightarrow>
          (case b64decode (sg_sig s) of
             None \<Rightarrow> bad_sig s MalformedBase64
           | Some sig_bytes \<Rightarrow>
               if \<not> verify cr (utf8_encode (tk_public_key trusted)) (utf8_encode manifest_hash) sig_bytes
               then bad_sig s DoesNotVerify
               else \<lparr>sr_signature = s, sr_valid = True, sr_reason = SigOk\<rparr>))"

definition verify_manifest ::
    "('pub, 'priv) crypto \<Rightarrow> Manifest \<Rightarrow> bytes \<Rightarrow> TrustList \<Rightarrow> Policy \<Rightarrow> VerificationResult" where
  "verify_manifest cr m body trust_list policy =
     (let threshold = dget (po_min_signatures_by_kind policy) (kind_value (mf_kind m)) 1;
          content_hash_ok = verify_content_hash cr body (mf_canonical_form m) (mf_content_hash m);
          manifest_hash_ok = verify_manifest_hash cr m
      in if \<not> content_hash_ok \<or> \<not> manifest_hash_ok then
           (let reason = (if \<not> content_hash_ok then ContentMismatch else ManifestMismatch)
            in \<lparr>vr_signatures = map (\<lambda>s. bad_sig s reason) (mf_signatures m), vr_threshold_required = threshold,
                vr_threshold_met = False, vr_manifest_hash_ok = manifest_hash_ok, vr_content_hash_ok = content_hash_ok\<rparr>)
         else
           (let results = map (verify_one_sig cr (mf_manifest_hash m) trust_list) (mf_signatures m)
            in \<lparr>vr_signatures = results, vr_threshold_required = threshold,
                vr_threshold_met = (int (length (filter sr_valid results)) \<ge> threshold),
                vr_manifest_hash_ok = True, vr_content_hash_ok = True\<rparr>))"

section \<open>Store\<close>

text \<open>
  A manifest file holds the JSON text \<^verbatim>\<open>json.dumps(payload, indent=2, sort_keys=True)\<close>; reading it back
  gives the payload with the entries of every object sorted by key, so the file is the sorted value,
  \<^term>\<open>None\<close> when it is not JSON.  An entry of another JSON type than the one saved counts as a file
  that does not deserialize.
\<close>

definition serialize_manifest :: "Manifest \<Rightarrow> json" where
  "serialize_manifest m = json_sorted (JObj (manifest_to_dict m))"

fun get_string :: "(string, json) dict \<Rightarrow> string \<Rightarrow> string option" where
  "get_string d k = (case map_of d k of Some (JStr s) \<Rightarrow> Some s | _ \<Rightarrow> None)"

fun string_list :: "json list \<Rightarrow> string list option" where
  "string_list [] = Some []"
| "string_list (JStr s # vs) = map_option ((#) s) (string_list vs)"
| "string_list (_ # vs) = None"

fun get_strings :: "(string, json) dict \<Rightarrow> string \<Rightarrow> string list option" where
  "get_strings d k = (case map_of d k of None \<Rightarrow> Some [] | Some (JList vs) \<Rightarrow> string_list vs | _ \<Rightarrow> None)"

fun get_optional :: "(string, json) dict \<Rightarrow> string \<Rightarrow> string option option" where
  "get_optional d k =
     (case map_of d k of None \<Rightarrow> Some None | Some JNull \<Rightarrow> Some None | Some (JStr s) \<Rightarrow> Some (Some s) | _ \<Rightarrow> None)"

definition kind_of_value :: "string \<Rightarrow> CartridgeKind option" where
  "kind_of_value s =
     map_of (map (\<lambda>k. (kind_value k, k))
       [UNIT_DEFINITION, STATUTE_TEXT, PROTOCOL_SPEC, SCHEMA, DEFINITION, REFERENCE_DATASET, REVOCATION]) s"

definition form_of_value :: "string \<Rightarrow> CanonicalForm option" where
  "form_of_value s = map_of (map (\<lambda>f. (form_value f, f)) [JSON_RFC8785, TEXT_UTF8_NFC, BYTES_RAW]) s"

fun signature_of_dict :: "json \<Rightarrow> Signature option" where
  "signature_of_dict (JObj d) =
     Option.bind (get_string d ''key_id'') (\<lambda>key_id.
     Option.bind (get_string d ''algo'') (\<lambda>algo.
     Option.bind (get_string d ''sig'') (\<lambda>sig.
     Option.bind (get_string d ''signed_at'') (\<lambda>signed_at.
     Option.bind (if ''role'' \<in> set (dkeys d) then get_string d ''role'' else Some ''scribe'') (\<lambda>role.
       Some \<lparr>sg_key_id = key_id, sg_algo = algo, sg_sig = sig, sg_signed_at = signed_at, sg_role = role\<rparr>)))))"
| "signature_of_dict _ = None"

fun signature_list :: "json list \<Rightarrow> Signature list option" where
  "signature_list [] = Some []"
| "signature_list (v # vs) =
     Option.bind (signature_of_dict v) (\<lambda>s. map_option ((#) s) (signature_list vs))"

fun deserialize_manifest :: "json \<Rightarrow> Manifest option" where
  "deserialize_manifest (JObj d) =
     Option.bind (get_string d ''cartridge_id'') (\<lambda>cartridge_id.
     Option.bind (get_string d ''version'') (\<lambda>version.
     Option.bind (Option.bind (get_string d ''kind'') kind_of_value) (\<lambda>kind.
     Option.bind (get_string d ''content_hash'') (\<lambda>content_hash.
     Option.bind (get_string d ''manifest_hash'') (\<lambda>manifest_hash.
     Option.bind (Option.bind (get_string d ''canonical_form'') form_of_value) (\<lambda>canonical_form.
     Option.bind (get_strings d ''supersedes'') (\<lambda>supersedes.
     Option.bind (get_strings d ''revokes'') (\<lambda>revokes.
     Option.bind (get_strings d ''domain_tags'') (\<lambda>domain_tags.
     Option.bind (if ''issued_at'' \<in> set (dkeys d) then get_string d ''issued_at'' else Some []) (\<lambda>issued_at.
     Option.bind (get_optional d ''not_before'') (\<lambda>not_before.
     Option.bind (get_optional d ''not_after'') (\<lambda>not_after.
     Option.bind (case map_of d ''signatures'' of None \<Rightarrow> Some [] | Some (JList vs) \<Rightarrow> signature_list vs | _ \<Rightarrow> None) (\<lambda>signatures.
     Option.bind (case map_of d ''metadata'' of None \<Rightarrow> Some [] | Some (JObj md) \<Rightarrow> Some md | _ \<Rightarrow> None) (\<lambda>metadata.
       Some \<lparr>mf_cartridge_id = cartridge_id, mf_version = version, mf_kind = kind, mf_content_hash = content_hash,
          mf_manifest_hash = manifest_hash, mf_canonical_form = canonical_form, mf_supersedes = supersedes,
          mf_revokes = revokes, mf_domain_tags = domain_tags, mf_issued_at = issued_at, mf_not_before = not_before,
          mf_not_after = not_after, mf_signatures = signatures, mf_metadata = metadata\<rparr>))))))))))))))"
| "deserialize_manifest _ = None"

definition strip_hash_prefix :: "string \<Rightarrow> string" where
  "strip_hash_prefix h = (if CHR '':'' \<in> set h then tl (dropWhile (\<lambda>c. c \<noteq> CHR '':'') h) else h)"

definition hash_path :: "string \<Rightarrow> string \<times> string" where
  "hash_path h = (take 2 (strip_hash_prefix h), strip_hash_prefix h)"

text \<open>The files \<^verbatim>\<open>by-hash/{aa}/{h}.json\<close> and \<^verbatim>\<open>.body\<close>, and the links under \<^verbatim>\<open>by-id\<close> as the path they point at.\<close>

record store_dir =
  st_manifests :: "(string \<times> string, json option) dict"
  st_bodies :: "(string \<times> string, bytes) dict"
  st_heads :: "(string, string \<times> string) dict"
  st_versions :: "(string \<times> string, string \<times> string) dict"

definition empty_store :: store_dir where
  "empty_store = \<lparr>st_manifests = [], st_bodies = [], st_heads = [], st_versions = []\<rparr>"

text \<open>The store with its configuration; a missing root directory or trust list is \<^term>\<open>None\<close>.\<close>

record lib_config =
  lc_has_root :: bool
  lc_trust :: "TrustList option"
  lc_policy :: Policy

datatype load_reason =
  Loaded | RootNotSet | ManifestNotFound | DeserializationFailed | BodyMissing | TrustNotSet
| VerificationFailed VerificationResult

record LoadResult =
  lr_manifest :: "Manifest option"
  lr_reason :: load_reason
  lr_revoked :: bool
  lr_superseded_by :: "string option"

definition load_failed :: "load_reason \<Rightarrow> LoadResult" where
  "load_failed reason = \<lparr>lr_manifest = None, lr_reason = reason, lr_revoked = False, lr_superseded_by = None\<rparr>"

definition load_ok :: "Manifest \<Rightarrow> LoadResult" where
  "load_ok m = \<lparr>lr_manifest = Some m, lr_reason = Loaded, lr_revoked = False, lr_superseded_by = None\<rparr>"

definition read_manifest :: "store_dir \<Rightarrow> string \<times> string \<Rightarrow> Manifest option" where
  "read_manifest st p = Option.bind (Option.bind (map_of (st_manifests st) p) id) deserialize_manifest"

definition load_manifest :: "('pub, 'priv) crypto \<Rightarrow> lib_config \<Rightarrow> store_dir \<Rightarrow> string \<Rightarrow> LoadResult" where
  "load_manifest cr lc st manifest_hash =
     (if \<not> lc_has_root lc then load_failed RootNotSet
      else if hash_path manifest_hash \<notin> set (dkeys (st_manifests st)) then load_failed ManifestNotFound
      else case read_manifest st (hash_path manifest_hash) of
        None \<Rightarrow> load_failed DeserializationFailed
      | Some m \<Rightarrow>
          (case map_of (st_bodies st) (hash_path (mf_content_hash m)) of
             None \<Rightarrow> load_failed BodyMissing
           | Some body \<Rightarrow>
               (case lc_trust lc of
                  None \<Rightarrow> load_failed TrustNotSet
                | Some trust \<Rightarrow>
                    (let result = verify_manifest cr m body trust (lc_policy lc)
                     in if \<not> vr_threshold_met result then load_failed (VerificationFailed result) else load_ok m))))"

datatype store_error = BodyNotFound | RootRequired | TrustRequired | PolicyError VerificationResult

definition load_body :: "lib_config \<Rightarrow> store_dir \<Rightarrow> string \<Rightarrow> store_error + bytes" where
  "load_body lc st content_hash =
     (if \<not> lc_has_root lc then Inl BodyNotFound
      else case map_of (st_bodies st) (hash_path content_hash) of None \<Rightarrow> Inl BodyNotFound | Some b \<Rightarrow> Inr b)"

definition head_manifest :: "lib_config \<Rightarrow> store_dir \<Rightarrow> string \<Rightarrow> Manifest option" where
  "head_manifest lc st cartridge_id =
     (if \<not> lc_has_root lc then None
      else Option.bind (map_of (st_heads st) cartridge_id) (read_manifest st))"

definition commit_files :: "Manifest \<Rightarrow> bytes \<Rightarrow> store_dir \<Rightarrow> store_dir" where
  "commit_files m body st =
     (let p = hash_path (mf_manifest_hash m)
      in st\<lparr>st_manifests := dset p (Some (serialize_manifest m)) (st_manifests st),
            st_bodies := dset (hash_path (mf_content_hash m)) body (st_bodies st),
            st_heads := dset (mf_cartridge_id m) p (st_heads st),
            st_versions := dset (mf_cartridge_id m, mf_version m) p (st_versions st)\<rparr>)"

definition commit ::
    "('pub, 'priv) crypto \<Rightarrow> lib_config \<Rightarrow> Manifest \<Rightarrow> bytes \<Rightarrow> store_dir \<Rightarrow> (store_error + Manifest) \<times> store_dir" where
  "commit cr lc m body st =
     (if \<not> lc_has_root lc then (Inl RootRequired, st)
      else case lc_trust lc of
        None \<Rightarrow> (Inl TrustRequired, st)
      | Some trust \<Rightarrow>
          (let result = verify_manifest cr m body trust (lc_policy lc)
           in if \<not> vr_threshold_met result then (Inl (PolicyError result), st)
              else (Inr m, commit_files m body st)))"

section \<open>Lemmas\<close>

subsection \<open>Sorted values\<close>

lemma json_sorted_idem [simp]: "json_sorted (json_sorted v) = json_sorted v"
proof (induction v rule: json_sorted.induct)
  case (2 es)
  have "map (\<lambda>(k, v). (k, json_sorted v)) (sort_key fst (map (\<lambda>(k, v). (k, json_sorted v)) es))
      = sort_key fst (map (\<lambda>(k, v). (k, json_sorted v)) es)"
    by (rule map_idI) (use 2 in auto)
  then show ?case by (simp add: sort_key_id_if_sorted)
qed simp_all

text \<open>A manifest as it comes back from its file.\<close>

definition stored :: "Manifest \<Rightarrow> Manifest" where
  "stored m = m\<lparr>mf_metadata := sort_key fst (map (\<lambda>(k, v). (k, json_sorted v)) (mf_metadata m))\<rparr>"

lemma json_sorted_strings [simp]: "json_sorted (json_strings xs) = json_strings xs"
  by (simp add: json_strings_def)

lemma json_sorted_option [simp]: "json_sorted (json_option x) = json_option x"
  by (cases x) simp_all

subsection \<open>Files\<close>

lemma string_list_strings [simp]: "string_list (map JStr xs) = Some xs"
  by (induction xs) simp_all

lemma json_sorted_JStr [simp]: "json_sorted \<circ> JStr = JStr"
  by (rule ext) simp

lemma kind_of_kind_value [simp]: "kind_of_value (kind_value k) = Some k"
  by (cases k) (simp_all add: kind_of_value_def)

lemma form_of_form_value [simp]: "form_of_value (form_value f) = Some f"
  by (cases f) (simp_all add: form_of_value_def)

lemma signature_round [simp]: "signature_of_dict (json_sorted (signature_to_dict s)) = Some s"
  by (simp add: signature_to_dict_def map_of_sorted image_iff)

lemma signature_list_round [simp]: "signature_list (map (json_sorted \<circ> signature_to_dict) ss) = Some ss"
  by (induction ss) simp_all

lemma get_optional_round [simp]: "map_of d k = Some (json_option x) \<Longrightarrow> get_optional d k = Some x"
  by (cases x) simp_all

lemma manifest_round: "deserialize_manifest (serialize_manifest m) = Some (stored m)"
  unfolding serialize_manifest_def manifest_to_dict_def json_sorted.simps list.map prod.case
  by (simp add: map_of_sorted stored_def json_strings_def del: get_optional.simps)

lemma stored_fields [simp]:
  "mf_cartridge_id (stored m) = mf_cartridge_id m" "mf_version (stored m) = mf_version m"
  "mf_kind (stored m) = mf_kind m" "mf_content_hash (stored m) = mf_content_hash m"
  "mf_manifest_hash (stored m) = mf_manifest_hash m" "mf_canonical_form (stored m) = mf_canonical_form m"
  "mf_signatures (stored m) = mf_signatures m"
  by (simp_all add: stored_def)

definition signed_entries :: "Manifest \<Rightarrow> (string, json) dict" where
  "signed_entries m = ddel ''signatures'' (ddel ''manifest_hash'' (manifest_to_dict m))"

lemma signed_entries_unfold: "signed_entries m =
  [(''cartridge_id'', JStr (mf_cartridge_id m)), (''version'', JStr (mf_version m)),
   (''kind'', JStr (kind_value (mf_kind m))), (''content_hash'', JStr (mf_content_hash m)),
   (''canonical_form'', JStr (form_value (mf_canonical_form m))),
   (''supersedes'', json_strings (mf_supersedes m)), (''revokes'', json_strings (mf_revokes m)),
   (''domain_tags'', json_strings (mf_domain_tags m)), (''issued_at'', JStr (mf_issued_at m)),
   (''not_before'', json_option (mf_not_before m)), (''not_after'', json_option (mf_not_after m)),
   (''metadata'', JObj (mf_metadata m))]"
  by (simp add: signed_entries_def manifest_to_dict_def AList.delete_eq)

lemma canonical_bytes: "canonicalize_manifest_for_hashing m = utf8_encode (json_dumps (JObj (signed_entries m)))"
  by (simp add: canonicalize_manifest_for_hashing_def signed_entries_def)

lemma hash_ignores [simp]:
  "compute_manifest_hash cr (m\<lparr>mf_signatures := ss\<rparr>) = compute_manifest_hash cr m"
  "compute_manifest_hash cr (m\<lparr>mf_manifest_hash := h\<rparr>) = compute_manifest_hash cr m"
  by (simp_all add: compute_manifest_hash_def canonical_bytes signed_entries_unfold)

lemma sorted_metadata: "json_sorted (JObj (mf_metadata (stored m))) = json_sorted (JObj (mf_metadata m))"
  using json_sorted_idem [of "JObj (mf_metadata m)"] by (simp add: stored_def)

lemma stored_hash [simp]: "compute_manifest_hash cr (stored m) = compute_manifest_hash cr m"
proof -
  have "map (\<lambda>(k, v). (k, json_sorted v)) (signed_entries (stored m))
      = map (\<lambda>(k, v). (k, json_sorted v)) (signed_entries m)"
    using sorted_metadata [of m] unfolding signed_entries_unfold by (simp add: stored_def)
  then show ?thesis by (simp add: compute_manifest_hash_def canonical_bytes json_dumps_def)
qed

lemma stored_verify [simp]: "verify_manifest cr (stored m) body trust policy = verify_manifest cr m body trust policy"
  by (simp add: verify_manifest_def verify_manifest_hash_def Let_def)

lemma canonical_inj:
  assumes "canonicalize_manifest_for_hashing m = canonicalize_manifest_for_hashing m'"
  shows "map_of (map (\<lambda>(k, v). (k, json_sorted v)) (signed_entries m))
    = map_of (map (\<lambda>(k, v). (k, json_sorted v)) (signed_entries m'))"
proof -
  have "json_sorted (JObj (signed_entries m)) = json_sorted (JObj (signed_entries m'))"
    using assms unfolding canonical_bytes json_dumps_def by (metis utf8_encode_inj json_print_inj)
  then have s: "sort_key fst (map (\<lambda>(k, v). (k, json_sorted v)) (signed_entries m))
    = sort_key fst (map (\<lambda>(k, v). (k, json_sorted v)) (signed_entries m'))" by simp
  have d: "distinct (dkeys (map (\<lambda>(k, v). (k, json_sorted v)) (signed_entries n)))" for n
    by (simp add: signed_entries_unfold)
  show ?thesis using map_of_sorted [OF d [of m]] map_of_sorted [OF d [of m']] s by simp
qed

lemma json_strings_inj [simp]: "json_strings xs = json_strings ys \<longleftrightarrow> xs = ys"
  by (simp add: json_strings_def inj_map_eq_map inj_def)

lemma json_option_inj [simp]: "json_option x = json_option y \<longleftrightarrow> x = y"
  by (cases x; cases y) simp_all

lemma kind_value_inj [simp]: "kind_value k = kind_value k' \<longleftrightarrow> k = k'"
  using kind_of_kind_value by (metis option.inject)

lemma form_value_inj [simp]: "form_value k = form_value k' \<longleftrightarrow> k = k'"
  using form_of_form_value by (metis option.inject)

lemma canonical_fields:
  assumes "canonicalize_manifest_for_hashing m = canonicalize_manifest_for_hashing m'"
  shows "stored m\<lparr>mf_manifest_hash := h, mf_signatures := ss\<rparr> = stored m'\<lparr>mf_manifest_hash := h, mf_signatures := ss\<rparr>"
proof -
  note e = fun_cong [OF canonical_inj [OF assms], unfolded signed_entries_unfold]
  have md: "mf_metadata (stored m) = mf_metadata (stored m')"
    using e [of "''metadata''"] by (simp add: stored_def)
  show ?thesis
    using e [of "''cartridge_id''"] e [of "''version''"] e [of "''kind''"] e [of "''content_hash''"]
      e [of "''canonical_form''"] e [of "''supersedes''"] e [of "''revokes''"] e [of "''domain_tags''"]
      e [of "''issued_at''"] e [of "''not_before''"] e [of "''not_after''"] md
    by (cases m; cases m') (simp add: stored_def)
qed

subsection \<open>Committing and loading\<close>

lemma hash_path_prefixed: "hash_path (''sha256:'' @ h) = (take 2 h, h)"
  by (simp add: hash_path_def strip_hash_prefix_def)

lemmas hash_path_literal [simp] = hash_path_prefixed [simplified append.simps]

lemma threshold_met_hashes: "vr_threshold_met (verify_manifest cr m body trust policy) \<Longrightarrow>
    verify_content_hash cr body (mf_canonical_form m) (mf_content_hash m) \<and> verify_manifest_hash cr m"
  by (auto simp: verify_manifest_def Let_def split: if_splits)

lemma content_hash_cases:
  "verify_content_hash cr body form h \<longleftrightarrow> form = BYTES_RAW \<and> h = ''sha256:'' @ cr_sha256 cr body"
  by (cases form) (auto simp: verify_content_hash_def compute_content_hash_def)

text \<open>Only the hash of the body matters to the verification.\<close>

lemma verify_other_body:
  "cr_sha256 cr body = cr_sha256 cr body' \<Longrightarrow> verify_manifest cr m body trust policy = verify_manifest cr m body' trust policy"
  by (simp add: verify_manifest_def content_hash_cases)

lemma read_commit [simp]:
  "read_manifest (commit_files m body st) p
   = (if p = hash_path (mf_manifest_hash m) then Some (stored m) else read_manifest st p)"
  by (simp add: read_manifest_def commit_files_def Let_def manifest_round)

lemma bodies_commit [simp]:
  "map_of (st_bodies (commit_files m body st)) p
   = (if p = hash_path (mf_content_hash m) then Some body else map_of (st_bodies st) p)"
  by (simp add: commit_files_def Let_def)

lemma heads_commit [simp]:
  "map_of (st_heads (commit_files m body st)) c
   = (if c = mf_cartridge_id m then Some (hash_path (mf_manifest_hash m)) else map_of (st_heads st) c)"
  by (simp add: commit_files_def Let_def)

lemma keys_commit [simp]:
  "fst ` set (st_manifests (commit_files m body st)) = insert (hash_path (mf_manifest_hash m)) (fst ` set (st_manifests st))"
proof -
  have "set (dkeys (dset k v d)) = insert k (set (dkeys d))" for k v and d :: "(string \<times> string, json option) dict"
    by (auto simp: dkeys_dset)
  then show ?thesis by (simp add: commit_files_def Let_def)
qed

lemma commit_cases:
  "commit cr lc m body st = (r, st') \<longleftrightarrow>
     (\<not> lc_has_root lc \<and> r = Inl RootRequired \<and> st' = st)
   \<or> (lc_has_root lc \<and> lc_trust lc = None \<and> r = Inl TrustRequired \<and> st' = st)
   \<or> (\<exists>trust. lc_has_root lc \<and> lc_trust lc = Some trust
        \<and> (let v = verify_manifest cr m body trust (lc_policy lc)
           in if vr_threshold_met v then r = Inr m \<and> st' = commit_files m body st
              else r = Inl (PolicyError v) \<and> st' = st))"
  by (auto simp: commit_def Let_def split: option.splits)

text \<open>What \<^term>\<open>load_manifest\<close> accepts.\<close>

lemma load_ok_iff:
  "load_manifest cr lc st h = load_ok m \<longleftrightarrow>
     (\<exists>body trust. lc_has_root lc \<and> lc_trust lc = Some trust \<and> hash_path h \<in> fst ` set (st_manifests st)
        \<and> read_manifest st (hash_path h) = Some m \<and> map_of (st_bodies st) (hash_path (mf_content_hash m)) = Some body
        \<and> vr_threshold_met (verify_manifest cr m body trust (lc_policy lc)))"
  by (auto simp: load_manifest_def load_ok_def load_failed_def Let_def split: option.splits)

lemma load_after_commit:
  assumes "commit cr lc m body st = (Inr m', st')"
  shows "load_manifest cr lc st' (mf_manifest_hash m) = load_ok (stored m)"
  using assms unfolding load_ok_iff commit_cases by (auto simp: Let_def split: if_splits)

lemma load_kept:
  assumes c: "commit cr lc m body st = (Inr m', st')"
    and l: "load_manifest cr lc st h = load_ok n" and "hash_path h \<noteq> hash_path (mf_manifest_hash m)"
  shows "load_manifest cr lc st' h = load_ok n"
proof -
  obtain trust b where t: "lc_has_root lc" "lc_trust lc = Some trust" "hash_path h \<in> fst ` set (st_manifests st)"
      "read_manifest st (hash_path h) = Some n" "map_of (st_bodies st) (hash_path (mf_content_hash n)) = Some b"
      "vr_threshold_met (verify_manifest cr n b trust (lc_policy lc))"
    using l unfolding load_ok_iff by auto
  have m: "vr_threshold_met (verify_manifest cr m body trust (lc_policy lc))" and st': "st' = commit_files m body st"
    using c t unfolding commit_cases by (auto simp: Let_def split: if_splits)
  obtain b' where b': "map_of (st_bodies st') (hash_path (mf_content_hash n)) = Some b'" "cr_sha256 cr b' = cr_sha256 cr b"
    using t(5) threshold_met_hashes [OF m] threshold_met_hashes [OF t(6)]
    by (intro that [of "if cr_sha256 cr b = cr_sha256 cr body then body else b"]) (auto simp: st' content_hash_cases)
  show ?thesis
    using t assms(3) b' verify_other_body [OF b'(2)] unfolding load_ok_iff by (auto simp: st')
qed

interpretation manifest_files: record_store "\<lambda>m. hash_path (mf_manifest_hash m)" "\<lambda>m. commit_files m body"
    read_manifest "\<lambda>m. Some (stored m)" for body
  by unfold_locales simp_all

text \<open>The stores that a sequence of commits, refused ones included, makes of an empty one.\<close>

inductive store_reachable :: "('pub, 'priv) crypto \<Rightarrow> lib_config \<Rightarrow> store_dir \<Rightarrow> bool"
    for cr :: "('pub, 'priv) crypto" and lc :: lib_config where
  reach_empty: "store_reachable cr lc empty_store"
| reach_commit: "store_reachable cr lc st \<Longrightarrow> commit cr lc m body st = (r, st') \<Longrightarrow> store_reachable cr lc st'"

lemma reachable_loads:
  assumes "store_reachable cr lc st" "hash_path h \<in> fst ` set (st_manifests st)"
  shows "\<exists>m. load_manifest cr lc st h = load_ok m \<and> hash_path (mf_manifest_hash m) = hash_path h"
  using assms
proof (induction rule: store_reachable.induct)
  case reach_empty
  then show ?case by (simp add: empty_store_def)
next
  case (reach_commit st m body r st')
  show ?case
  proof (cases r)
    case (Inl e)
    then have "st' = st" using reach_commit.hyps(2) unfolding commit_cases by (auto simp: Let_def split: if_splits)
    then show ?thesis using reach_commit by simp
  next
    case (Inr m')
    note c = reach_commit.hyps(2) [unfolded Inr]
    have st': "st' = commit_files m body st" using c unfolding commit_cases by (auto simp: Let_def split: if_splits)
    show ?thesis
    proof (cases "hash_path h = hash_path (mf_manifest_hash m)")
      case True
      then have "load_manifest cr lc st' h = load_ok (stored m)"
        using load_after_commit [OF c] unfolding load_ok_iff by simp
      then show ?thesis using True by auto
    next
      case False
      then show ?thesis using reach_commit load_kept [OF c _ False] by (auto simp: st')
    qed
  qed
qed

lemma replicate_valid:
  "length (filter sr_valid (map f (replicate n s))) = (if sr_valid (f s) then n else 0)"
  by simp

section \<open>Properties\<close>

text \<open>
  Library fact: The canonical bytes of a manifest determine every field but the manifest hash and the signatures
  (the metadata up to the order of its entries), so a hash function without collisions binds them
  all; and the order in which the metadata was written does not matter.
\<close>

theorem manifest_hash_binds_fields:
  assumes "inj (cr_sha256 cr)" "compute_manifest_hash cr m = compute_manifest_hash cr m'"
  shows "stored m\<lparr>mf_manifest_hash := h, mf_signatures := ss\<rparr> = stored m'\<lparr>mf_manifest_hash := h, mf_signatures := ss\<rparr>
    \<and> compute_manifest_hash cr (stored m) = compute_manifest_hash cr m
    \<and> deserialize_manifest (serialize_manifest m) = Some (stored m)"
proof -
  have "canonicalize_manifest_for_hashing m = canonicalize_manifest_for_hashing m'"
    using assms by (simp add: compute_manifest_hash_def inj_eq)
  then show ?thesis using canonical_fields stored_hash manifest_round by blast
qed

text \<open>
  C19: A commit either refuses and leaves the store as it was, or the body and the manifest match their
  hashes and enough signatures are valid; then loading the manifest, its body and the head of its
  cartridge gives back what was committed, and every manifest that could be loaded still can.
\<close>

theorem commit_sound:
  assumes "commit cr lc m body st = (r, st')"
  shows "case r of
      Inl e \<Rightarrow> st' = st
    | Inr m' \<Rightarrow> m' = m
        \<and> (\<exists>trust. lc_trust lc = Some trust
             \<and> int (length (filter (\<lambda>s. sr_valid (verify_one_sig cr (mf_manifest_hash m) trust s)) (mf_signatures m)))
               \<ge> dget (po_min_signatures_by_kind (lc_policy lc)) (kind_value (mf_kind m)) 1)
        \<and> verify_content_hash cr body (mf_canonical_form m) (mf_content_hash m) \<and> verify_manifest_hash cr m
        \<and> load_manifest cr lc st' (mf_manifest_hash m) = load_ok (stored m)
        \<and> load_body lc st' (mf_content_hash m) = Inr body
        \<and> head_manifest lc st' (mf_cartridge_id m) = Some (stored m)
        \<and> (\<forall>h n. load_manifest cr lc st h \<noteq> load_ok n \<or> hash_path h = hash_path (mf_manifest_hash m)
             \<or> load_manifest cr lc st' h = load_ok n)"
proof (cases r)
  case (Inl e)
  then show ?thesis using assms unfolding commit_cases by (auto simp: Let_def split: if_splits)
next
  case (Inr m')
  note c = assms [unfolded Inr]
  obtain trust where t: "lc_has_root lc" "lc_trust lc = Some trust" "m' = m" "st' = commit_files m body st"
      "vr_threshold_met (verify_manifest cr m body trust (lc_policy lc))"
    using c unfolding commit_cases by (auto simp: Let_def split: if_splits)
  have n: "int (length (filter (\<lambda>s. sr_valid (verify_one_sig cr (mf_manifest_hash m) trust s)) (mf_signatures m)))
      \<ge> dget (po_min_signatures_by_kind (lc_policy lc)) (kind_value (mf_kind m)) 1"
    using t(5) threshold_met_hashes [OF t(5)] by (simp add: verify_manifest_def Let_def filter_map comp_def)
  have b: "load_body lc st' (mf_content_hash m) = Inr body" "head_manifest lc st' (mf_cartridge_id m) = Some (stored m)"
    using t by (simp_all add: load_body_def head_manifest_def)
  show ?thesis
    using n b t(2,3) threshold_met_hashes [OF t(5)] load_after_commit [OF c] load_kept [OF c] by (auto simp: Inr)
qed

text \<open>
  C18: In every store that commits have made of an empty one, loading a hash finds nothing or succeeds
  with a manifest filed under that hash; it never meets a broken file, a missing body or a manifest
  below the threshold.
\<close>

theorem reachable_store_loads:
  assumes "store_reachable cr lc st" "lc_has_root lc"
  shows "load_manifest cr lc st h = load_failed ManifestNotFound
    \<or> (\<exists>m. load_manifest cr lc st h = load_ok m \<and> hash_path (mf_manifest_hash m) = hash_path h)"
  using assms reachable_loads [OF assms(1), of h]
  by (cases "hash_path h \<in> fst ` set (st_manifests st)") (auto simp: load_manifest_def)

text \<open>
  Library fact: The threshold counts signatures, not signers: a manifest whose hashes match and that lists one
  valid signature \<open>n\<close> times meets every threshold up to \<open>n\<close>, so a single key satisfies an
  m-of-n policy.
\<close>

theorem one_key_meets_any_threshold:
  assumes "verify_content_hash cr body (mf_canonical_form m) (mf_content_hash m)" "verify_manifest_hash cr m"
    "sr_valid (verify_one_sig cr (mf_manifest_hash m) trust s)"
  shows "vr_threshold_met (verify_manifest cr (m\<lparr>mf_signatures := replicate n s\<rparr>) body trust policy)
    \<longleftrightarrow> dget (po_min_signatures_by_kind policy) (kind_value (mf_kind m)) 1 \<le> int n"
  using assms by (simp add: verify_manifest_def verify_manifest_hash_def Let_def)

section \<open>Sample instances\<close>

text \<open>A signature scheme and a hash to instantiate the parameters with.\<close>

definition sample_crypto :: "(bytes, bytes) crypto" where
  "sample_crypto = \<lparr>cr_sha256 = b64encode, cr_load_public = PemEd25519, cr_load_private = PemEd25519,
     cr_raw_public = id, cr_verify = (\<lambda>k m s. s = k @ m), cr_sign = (\<lambda>k m. k @ m)\<rparr>"

definition sample_manifest :: "Manifest" where
  "sample_manifest = \<lparr>mf_cartridge_id = ''units'', mf_version = ''1'', mf_kind = UNIT_DEFINITION,
     mf_content_hash = ''sha256:'' @ b64encode [1, 2], mf_manifest_hash = [], mf_canonical_form = BYTES_RAW,
     mf_supersedes = [], mf_revokes = [], mf_domain_tags = [''si''], mf_issued_at = ''2025'', mf_not_before = None,
     mf_not_after = None, mf_signatures = [], mf_metadata = [(''b'', JInt 1), (''a'', JNull)]\<rparr>"

definition sample_hash :: string where
  "sample_hash = compute_manifest_hash sample_crypto sample_manifest"

definition sample_signature :: Signature where
  "sample_signature = \<lparr>sg_key_id = ''k'', sg_algo = ''ed25519'', sg_sig = b64encode (utf8_encode ''p'' @ utf8_encode sample_hash),
     sg_signed_at = [], sg_role = ''scribe''\<rparr>"

definition sample_trust :: TrustList where
  "sample_trust = \<lparr>tl_keys = [(''k'', \<lparr>tk_key_id = ''k'', tk_public_key = ''p'', tk_added_at = [], tk_added_by_operator_key = []\<rparr>)],
     tl_operator_signature = None\<rparr>"

definition sample_policy :: Policy where
  "sample_policy = \<lparr>po_min_signatures_by_kind = [(''unit_definition'', 2)], po_review_external_imports = False,
     po_import_caps_by_key = [], po_canonical_form_registry = [], po_operator_key_fingerprint = []\<rparr>"

definition sample_config :: "Policy \<Rightarrow> lib_config" where
  "sample_config policy = \<lparr>lc_has_root = True, lc_trust = Some sample_trust, lc_policy = policy\<rparr>"

definition sample_sealed :: "nat \<Rightarrow> Manifest" where
  "sample_sealed n = sample_manifest\<lparr>mf_manifest_hash := sample_hash, mf_signatures := replicate n sample_signature\<rparr>"

lemma sample_hashes [simp]:
  "verify_content_hash sample_crypto [1, 2] (mf_canonical_form (sample_sealed n)) (mf_content_hash (sample_sealed n))"
  "verify_manifest_hash sample_crypto (sample_sealed n)"
proof -
  show "verify_content_hash sample_crypto [1, 2] (mf_canonical_form (sample_sealed n)) (mf_content_hash (sample_sealed n))"
    by (simp add: sample_sealed_def content_hash_cases sample_crypto_def sample_manifest_def)
  show "verify_manifest_hash sample_crypto (sample_sealed n)"
    by (simp add: sample_sealed_def verify_manifest_hash_def sample_hash_def)
qed

lemma sample_sealed_fields [simp]:
  "mf_kind (sample_sealed n) = UNIT_DEFINITION" "mf_manifest_hash (sample_sealed n) = sample_hash"
  "mf_signatures (sample_sealed n) = replicate n sample_signature"
  by (simp_all add: sample_sealed_def sample_manifest_def)

lemma sample_signature_valid [simp]: "sr_valid (verify_one_sig sample_crypto sample_hash sample_trust sample_signature)"
  by (simp add: verify_one_sig_def sample_signature_def sample_trust_def verify_def sample_crypto_def)

lemma sample_commit:
  "commit sample_crypto (sample_config sample_policy) (sample_sealed 2) [1, 2] empty_store
   = (Inr (sample_sealed 2), commit_files (sample_sealed 2) [1, 2] empty_store)"
  by (simp add: commit_def sample_config_def verify_manifest_def Let_def sample_policy_def dget_def)

lemma manifest_hash_binds_fields_witness:
  "stored sample_manifest\<lparr>mf_manifest_hash := [], mf_signatures := []\<rparr>
   = stored (stored sample_manifest)\<lparr>mf_manifest_hash := [], mf_signatures := []\<rparr>"
proof -
  have "inj (cr_sha256 sample_crypto)"
    by (rule inj_on_inverseI [of _ "the \<circ> b64decode"]) (simp add: sample_crypto_def)
  then show ?thesis
    using manifest_hash_binds_fields [of sample_crypto sample_manifest "stored sample_manifest"] by simp
qed

lemma commit_sound_witness:
  "load_manifest sample_crypto (sample_config sample_policy) (commit_files (sample_sealed 2) [1, 2] empty_store) sample_hash
   = load_ok (stored (sample_sealed 2))"
  using commit_sound [OF sample_commit] by simp

lemma reachable_store_loads_witness:
  "load_manifest sample_crypto (sample_config sample_policy) (commit_files (sample_sealed 2) [1, 2] empty_store) sample_hash
     = load_failed ManifestNotFound
   \<or> (\<exists>m. load_manifest sample_crypto (sample_config sample_policy) (commit_files (sample_sealed 2) [1, 2] empty_store) sample_hash = load_ok m
        \<and> hash_path (mf_manifest_hash m) = hash_path sample_hash)"
  by (rule reachable_store_loads [OF reach_commit [OF reach_empty sample_commit]]) (simp add: sample_config_def)

lemma one_key_meets_any_threshold_witness:
  "vr_threshold_met (verify_manifest sample_crypto (sample_sealed 1\<lparr>mf_signatures := replicate 2 sample_signature\<rparr>) [1, 2]
     sample_trust sample_policy)"
  by (subst one_key_meets_any_threshold) (simp_all add: sample_policy_def dget_def)

end
