(* ===== verification/Scribe.thy ===== *)
theory Scribe
  imports Librarian
begin

text \<open>
  \<^verbatim>\<open>maestro/librarian/scribe.py\<close> with the signing half of \<^verbatim>\<open>crypto.py\<close>: the key store with its file
  modes, the accumulation of signatures on a manifest, and revocations.  A generated key pair and the
  clock are parameters; a public PEM is text, a file mode its permission bits.
\<close>

section \<open>Signing primitives\<close>

datatype scribe_error =
  KeyDirMissing | WrongMode nat nat | PrivateKeyNotFound string | PublicKeyNotFound string | KeyExists string
| UnreadablePem | NotEd25519 | EmptyKeyList | ContentChanged string | ManifestChanged string | AlreadySigned string
| NothingToRevoke | FormNotImplemented CanonicalForm

definition sign_bytes :: "('pub, 'priv) crypto \<Rightarrow> bytes \<Rightarrow> bytes \<Rightarrow> scribe_error + bytes" where
  "sign_bytes cr private_pem message =
     (case cr_load_private cr private_pem of
        PemInvalid \<Rightarrow> Inl UnreadablePem
      | PemOther \<Rightarrow> Inl NotEd25519
      | PemEd25519 k \<Rightarrow> Inr (cr_sign cr k message))"

text \<open>A key of another kind has no raw form here; the program only derives ids of Ed25519 keys.\<close>

definition key_id_from_public_pem :: "('pub, 'priv) crypto \<Rightarrow> bytes \<Rightarrow> scribe_error + string" where
  "key_id_from_public_pem cr public_pem =
     (case cr_load_public cr public_pem of
        PemInvalid \<Rightarrow> Inl UnreadablePem
      | PemOther \<Rightarrow> Inl NotEd25519
      | PemEd25519 k \<Rightarrow> Inr (''sha256:'' @ take 32 (cr_sha256 cr (cr_raw_public cr k))))"

section \<open>Key store\<close>

record keystore =
  ks_exists :: bool
  ks_dir_mode :: nat
  ks_public_mode :: nat
  ks_private :: "(string, nat \<times> bytes) dict"
  ks_public :: "(string, string) dict"

definition DIR_MODE :: nat where
  "DIR_MODE = 448"

definition FILE_MODE :: nat where
  "FILE_MODE = 384"

definition check_mode :: "bool \<Rightarrow> bool \<Rightarrow> nat \<Rightarrow> nat \<Rightarrow> scribe_error + unit" where
  "check_mode posix present actual expected =
     (if \<not> posix then Inr ()
      else if \<not> present then Inl KeyDirMissing
      else if actual \<noteq> expected then Inl (WrongMode actual expected)
      else Inr ())"

definition ensure_dir_mode :: "bool \<Rightarrow> keystore \<Rightarrow> scribe_error + unit" where
  "ensure_dir_mode posix ks = check_mode posix (ks_exists ks) (ks_dir_mode ks) DIR_MODE"

definition add_keypair ::
    "bool \<Rightarrow> ('pub, 'priv) crypto \<Rightarrow> bytes \<times> string \<Rightarrow> keystore \<Rightarrow> (scribe_error + string) \<times> keystore" where
  "add_keypair posix cr pair ks =
     (let (priv_pem, pub_pem) = pair;
          ks1 = ks\<lparr>ks_exists := True, ks_dir_mode := (if posix then DIR_MODE else ks_dir_mode ks),
                   ks_public_mode := (if posix then DIR_MODE else ks_public_mode ks)\<rparr>
      in case key_id_from_public_pem cr (utf8_encode pub_pem) of
           Inl e \<Rightarrow> (Inl e, ks1)
         | Inr key_id \<Rightarrow>
             (if key_id \<in> set (dkeys (ks_private ks1)) then (Inl (KeyExists key_id), ks1)
              else (Inr key_id, ks1\<lparr>ks_private := dset key_id (FILE_MODE, priv_pem) (ks_private ks1),
                                    ks_public := dset key_id pub_pem (ks_public ks1)\<rparr>)))"

definition list_key_ids :: "bool \<Rightarrow> keystore \<Rightarrow> scribe_error + string list" where
  "list_key_ids posix ks =
     bind_res (ensure_dir_mode posix ks)
       (\<lambda>_. Inr (sort_key (\<lambda>key_id. key_id @ ''.ed25519.pem'') (dkeys (ks_private ks))))"

definition get_public_pem :: "keystore \<Rightarrow> string \<Rightarrow> scribe_error + string" where
  "get_public_pem ks key_id =
     (case map_of (ks_public ks) key_id of None \<Rightarrow> Inl (PublicKeyNotFound key_id) | Some pem \<Rightarrow> Inr pem)"

definition sign_hash ::
    "bool \<Rightarrow> ('pub, 'priv) crypto \<Rightarrow> string \<Rightarrow> keystore \<Rightarrow> string \<Rightarrow> string \<Rightarrow> scribe_error + Signature" where
  "sign_hash posix cr now ks key_id manifest_hash =
     bind_res (ensure_dir_mode posix ks) (\<lambda>_.
       case map_of (ks_private ks) key_id of
         None \<Rightarrow> Inl (PrivateKeyNotFound key_id)
       | Some (mode, priv_pem) \<Rightarrow>
           bind_res (check_mode posix True mode FILE_MODE) (\<lambda>_.
           bind_res (sign_bytes cr priv_pem (utf8_encode manifest_hash)) (\<lambda>sig_bytes.
             Inr \<lparr>sg_key_id = key_id, sg_algo = ''ed25519'', sg_sig = b64encode sig_bytes, sg_signed_at = now,
                  sg_role = ''scribe''\<rparr>)))"

section \<open>Scribe\<close>

text \<open>\<open>clock i\<close> is the time at which the signature with number \<open>i\<close> of a manifest is made.\<close>

fun sign_keys ::
    "(string \<Rightarrow> string \<Rightarrow> scribe_error + Signature) \<Rightarrow> (nat \<Rightarrow> string) \<Rightarrow> string set \<Rightarrow> Signature list \<Rightarrow> string list
     \<Rightarrow> scribe_error + Signature list" where
  "sign_keys sign clock seen sigs [] = Inr sigs"
| "sign_keys sign clock seen sigs (kid # kids) =
     (if kid \<in> seen then Inl (AlreadySigned kid)
      else bind_res (sign (clock (length sigs)) kid) (\<lambda>s. sign_keys sign clock (insert kid seen) (sigs @ [s]) kids))"

definition content_hash_of :: "('pub, 'priv) crypto \<Rightarrow> bytes \<Rightarrow> CanonicalForm \<Rightarrow> scribe_error + string" where
  "content_hash_of cr body form =
     (case compute_content_hash cr body form of Inl (BodyFormNotImplemented f) \<Rightarrow> Inl (FormNotImplemented f) | Inr h \<Rightarrow> Inr h)"

definition seal :: "('pub, 'priv) crypto \<Rightarrow> Manifest \<Rightarrow> bytes \<Rightarrow> scribe_error + Manifest" where
  "seal cr m body =
     bind_res (content_hash_of cr body (mf_canonical_form m)) (\<lambda>content_hash.
       if mf_signatures m = [] then
         (let sealed = m\<lparr>mf_content_hash := content_hash, mf_manifest_hash := []\<rparr>
          in Inr (sealed\<lparr>mf_manifest_hash := compute_manifest_hash cr sealed\<rparr>))
       else if mf_content_hash m \<noteq> content_hash then Inl (ContentChanged content_hash)
       else if mf_manifest_hash m \<noteq> compute_manifest_hash cr m then Inl (ManifestChanged (compute_manifest_hash cr m))
       else Inr m)"

definition anchor ::
    "bool \<Rightarrow> ('pub, 'priv) crypto \<Rightarrow> (nat \<Rightarrow> string) \<Rightarrow> keystore \<Rightarrow> Manifest \<Rightarrow> bytes \<Rightarrow> string list \<Rightarrow> scribe_error + Manifest" where
  "anchor posix cr clock ks m body kids =
     (if kids = [] then Inl EmptyKeyList
      else bind_res (seal cr m body) (\<lambda>sealed.
        bind_res (sign_keys (\<lambda>now kid. sign_hash posix cr now ks kid (mf_manifest_hash sealed)) clock
            (set (map sg_key_id (mf_signatures sealed))) (mf_signatures sealed) kids)
          (\<lambda>sigs. Inr (sealed\<lparr>mf_signatures := sigs\<rparr>))))"

definition anchor_revocation ::
    "bool \<Rightarrow> ('pub, 'priv) crypto \<Rightarrow> (nat \<Rightarrow> string) \<Rightarrow> string \<Rightarrow> string \<Rightarrow> keystore \<Rightarrow> string list \<Rightarrow> string list
     \<Rightarrow> string option \<Rightarrow> string option \<Rightarrow> string list \<Rightarrow> scribe_error + Manifest" where
  "anchor_revocation posix cr clock now_compact now_iso ks revokes kids cartridge_id version domain_tags =
     (if revokes = [] then Inl NothingToRevoke
      else anchor posix cr clock ks
        \<lparr>mf_cartridge_id = (case cartridge_id of Some (c # cs) \<Rightarrow> c # cs | _ \<Rightarrow> ''revocation-'' @ now_compact),
         mf_version = (case version of Some (c # cs) \<Rightarrow> c # cs | _ \<Rightarrow> ''1''), mf_kind = REVOCATION,
         mf_content_hash = [], mf_manifest_hash = [], mf_canonical_form = BYTES_RAW, mf_supersedes = [],
         mf_revokes = revokes, mf_domain_tags = domain_tags, mf_issued_at = now_iso, mf_not_before = None,
         mf_not_after = None, mf_signatures = [], mf_metadata = []\<rparr> [] kids)"

section \<open>Lemmas\<close>

lemma sign_keys_result:
  assumes "\<And>t k s. sign t k = Inr s \<Longrightarrow> sg_key_id s = k" "sign_keys sign clock seen sigs kids = Inr out"
  shows "\<exists>new. out = sigs @ new \<and> map sg_key_id new = kids \<and> distinct kids \<and> seen \<inter> set kids = {}
    \<and> list_all (\<lambda>s. \<exists>t. sign t (sg_key_id s) = Inr s) new"
  using assms(2)
proof (induction kids arbitrary: seen sigs)
  case (Cons kid kids)
  then obtain s where s: "kid \<notin> seen" "sign (clock (length sigs)) kid = Inr s"
      "sign_keys sign clock (insert kid seen) (sigs @ [s]) kids = Inr out"
    by (auto simp: bind_res_Inr split: if_splits)
  from Cons.IH [OF s(3)] obtain new where new: "out = (sigs @ [s]) @ new" "map sg_key_id new = kids" "distinct kids"
      "insert kid seen \<inter> set kids = {}" "list_all (\<lambda>s. \<exists>t. sign t (sg_key_id s) = Inr s) new" by blast
  have "sg_key_id s = kid" using assms(1) s(2) .
  then show ?case using new s by (intro exI [of _ "s # new"]) auto
qed simp

lemma sign_keys_append:
  "sign_keys sign clock seen sigs (xs @ ys)
   = bind_res (sign_keys sign clock seen sigs xs) (\<lambda>out. sign_keys sign clock (seen \<union> set xs) out ys)"
proof (induction xs arbitrary: seen sigs)
  case (Cons x xs)
  then show ?case by (cases "sign (clock (length sigs)) x") auto
qed simp

lemma sign_keys_total:
  assumes "distinct kids" "seen \<inter> set kids = {}" "\<And>t k. k \<in> set kids \<Longrightarrow> \<exists>s. sign t k = Inr s"
  shows "\<exists>out. sign_keys sign clock seen sigs kids = Inr out"
  using assms
proof (induction kids arbitrary: seen sigs)
  case (Cons kid kids)
  then obtain s where "sign (clock (length sigs)) kid = Inr s" by fastforce
  then show ?case using Cons by auto
qed simp

lemma sign_hash_Inr:
  "sign_hash posix cr now ks k h = Inr s \<longleftrightarrow>
     (\<exists>mode pem bytes. ensure_dir_mode posix ks = Inr () \<and> map_of (ks_private ks) k = Some (mode, pem)
        \<and> check_mode posix True mode FILE_MODE = Inr () \<and> sign_bytes cr pem (utf8_encode h) = Inr bytes
        \<and> s = \<lparr>sg_key_id = k, sg_algo = ''ed25519'', sg_sig = b64encode bytes, sg_signed_at = now, sg_role = ''scribe''\<rparr>)"
  by (auto simp: sign_hash_def bind_res_Inr split: option.splits)

lemma content_hash_of_Inr: "content_hash_of cr body form = Inr h \<longleftrightarrow> verify_content_hash cr body form h"
  by (auto simp: content_hash_of_def verify_content_hash_def split: sum.splits body_error.splits)

lemma seal_Inr:
  assumes "seal cr m body = Inr sealed"
  shows "verify_content_hash cr body (mf_canonical_form sealed) (mf_content_hash sealed)" "verify_manifest_hash cr sealed"
    "mf_signatures sealed = mf_signatures m"
    "sealed = m\<lparr>mf_content_hash := mf_content_hash sealed, mf_manifest_hash := mf_manifest_hash sealed\<rparr>"
    "mf_signatures m \<noteq> [] \<Longrightarrow> sealed = m"
  using assms
  by (auto simp: seal_def bind_res_Inr content_hash_of_Inr Let_def verify_manifest_hash_def split: if_splits)

lemma seal_again:
  assumes "verify_content_hash cr body (mf_canonical_form m) (mf_content_hash m)" "verify_manifest_hash cr m" "ss \<noteq> []"
  shows "seal cr (m\<lparr>mf_signatures := ss\<rparr>) body = Inr (m\<lparr>mf_signatures := ss\<rparr>)"
proof -
  have "content_hash_of cr body (mf_canonical_form m) = Inr (mf_content_hash m)"
    using assms(1) by (simp add: content_hash_of_Inr)
  then show ?thesis using assms by (simp add: seal_def verify_manifest_hash_def)
qed

text \<open>A stored private key belongs to the public key a trust list names for it.\<close>

definition key_pair :: "('pub, 'priv) crypto \<Rightarrow> bytes \<Rightarrow> string \<Rightarrow> bool" where
  "key_pair cr private_pem public_pem =
     (\<forall>message. \<exists>sig. sign_bytes cr private_pem message = Inr sig \<and> verify cr (utf8_encode public_pem) message sig)"

definition trusted_key :: "('pub, 'priv) crypto \<Rightarrow> keystore \<Rightarrow> TrustList \<Rightarrow> string \<Rightarrow> bool" where
  "trusted_key cr ks trust k =
     (case (map_of (ks_private ks) k, map_of (tl_keys trust) k) of
        (Some (mode, pem), Some t) \<Rightarrow> mode = FILE_MODE \<and> key_pair cr pem (tk_public_key t)
      | _ \<Rightarrow> False)"

lemma trusted_signature_valid:
  assumes "trusted_key cr ks trust k" "sign_hash posix cr now ks k h = Inr s"
  shows "sr_valid (verify_one_sig cr h trust s)"
proof -
  obtain pem t where k: "map_of (ks_private ks) k = Some (FILE_MODE, pem)" "map_of (tl_keys trust) k = Some t"
      "key_pair cr pem (tk_public_key t)"
    using assms(1) by (auto simp: trusted_key_def split: option.splits)
  obtain bytes where b: "sign_bytes cr pem (utf8_encode h) = Inr bytes"
      "s = \<lparr>sg_key_id = k, sg_algo = ''ed25519'', sg_sig = b64encode bytes, sg_signed_at = now, sg_role = ''scribe''\<rparr>"
    using assms(2) k(1) unfolding sign_hash_Inr by auto
  have "verify cr (utf8_encode (tk_public_key t)) (utf8_encode h) bytes"
    using k(3) b(1) unfolding key_pair_def by (metis Inr_inject)
  then show ?thesis using b(2) k(2) by (simp add: verify_one_sig_def)
qed

lemma trusted_signs:
  assumes "trusted_key cr ks trust k" "ensure_dir_mode posix ks = Inr ()"
  shows "\<exists>s. sign_hash posix cr now ks k h = Inr s"
proof -
  obtain pem and t :: TrustedKey where k: "map_of (ks_private ks) k = Some (FILE_MODE, pem)" "key_pair cr pem (tk_public_key t)"
    using assms(1) by (auto simp: trusted_key_def split: option.splits)
  obtain bytes where "sign_bytes cr pem (utf8_encode h) = Inr bytes" using k(2) unfolding key_pair_def by blast
  then show ?thesis using k(1) assms(2) unfolding sign_hash_Inr by (simp add: check_mode_def)
qed

lemma anchor_Inr:
  "anchor posix cr clock ks m body kids = Inr m' \<longleftrightarrow>
     kids \<noteq> [] \<and> (\<exists>sealed sigs. seal cr m body = Inr sealed
       \<and> sign_keys (\<lambda>now kid. sign_hash posix cr now ks kid (mf_manifest_hash sealed)) clock
           (set (map sg_key_id (mf_signatures sealed))) (mf_signatures sealed) kids = Inr sigs
       \<and> m' = sealed\<lparr>mf_signatures := sigs\<rparr>)"
  by (auto simp: anchor_def bind_res_Inr split: if_splits)

lemma sign_hash_key: "sign_hash posix cr now ks k h = Inr s \<Longrightarrow> sg_key_id s = k"
  by (auto simp: sign_hash_Inr)

section \<open>Properties\<close>

text \<open>
  Library fact: What \<^term>\<open>anchor\<close> returns matches the hashes of its body and its fields, keeps every other field and
  every earlier signature, and carries in addition exactly one signature per requested key, none of
  which had signed before; each of them verifies when the key is trusted.
\<close>

theorem anchor_sound:
  assumes "anchor posix cr clock ks m body kids = Inr m'"
  shows "verify_content_hash cr body (mf_canonical_form m') (mf_content_hash m') \<and> verify_manifest_hash cr m'
    \<and> m' = m\<lparr>mf_content_hash := mf_content_hash m', mf_manifest_hash := mf_manifest_hash m', mf_signatures := mf_signatures m'\<rparr>
    \<and> (\<exists>new. mf_signatures m' = mf_signatures m @ new \<and> map sg_key_id new = kids \<and> distinct kids
         \<and> set kids \<inter> set (map sg_key_id (mf_signatures m)) = {}
         \<and> list_all (\<lambda>s. \<not> trusted_key cr ks trust (sg_key_id s)
              \<or> sr_valid (verify_one_sig cr (mf_manifest_hash m') trust s)) new)"
proof -
  obtain sealed sigs where a: "seal cr m body = Inr sealed"
      "sign_keys (\<lambda>now kid. sign_hash posix cr now ks kid (mf_manifest_hash sealed)) clock
         (set (map sg_key_id (mf_signatures sealed))) (mf_signatures sealed) kids = Inr sigs"
      "m' = sealed\<lparr>mf_signatures := sigs\<rparr>"
    using assms unfolding anchor_Inr by blast
  note se = seal_Inr [OF a(1)]
  have k: "\<exists>new. sigs = mf_signatures sealed @ new \<and> map sg_key_id new = kids \<and> distinct kids
      \<and> set (map sg_key_id (mf_signatures sealed)) \<inter> set kids = {}
      \<and> list_all (\<lambda>s. \<exists>t. sign_hash posix cr t ks (sg_key_id s) (mf_manifest_hash sealed) = Inr s) new"
    by (rule sign_keys_result [OF _ a(2)]) (rule sign_hash_key)
  obtain new where new: "sigs = mf_signatures sealed @ new" "map sg_key_id new = kids" "distinct kids"
      "set (map sg_key_id (mf_signatures sealed)) \<inter> set kids = {}"
      "list_all (\<lambda>s. \<exists>t. sign_hash posix cr t ks (sg_key_id s) (mf_manifest_hash sealed) = Inr s) new"
    using k by blast
  have v: "list_all (\<lambda>s. \<not> trusted_key cr ks trust (sg_key_id s) \<or> sr_valid (verify_one_sig cr (mf_manifest_hash m') trust s)) new"
    using new(5) trusted_signature_valid [of cr ks trust] unfolding a(3) list_all_iff by fastforce
  have "verify_content_hash cr body (mf_canonical_form m') (mf_content_hash m')" "verify_manifest_hash cr m'"
    using se(1,2) by (simp_all add: a(3) verify_manifest_hash_def)
  moreover have "m' = m\<lparr>mf_content_hash := mf_content_hash m', mf_manifest_hash := mf_manifest_hash m', mf_signatures := mf_signatures m'\<rparr>"
    using se(4) unfolding a(3) by (cases m; cases sealed) simp
  moreover have "mf_signatures m' = mf_signatures m @ new \<and> map sg_key_id new = kids \<and> distinct kids
      \<and> set kids \<inter> set (map sg_key_id (mf_signatures m)) = {}"
    using new(1-4) se(3) a(3) by auto
  ultimately show ?thesis using v by blast
qed


text \<open>
  Library fact: Signing in turn is signing at once: when a first scribe has anchored a manifest, what a second one
  gets from it, a refusal included, is what a single call with both lists of keys would have given.
\<close>

theorem anchor_accumulates:
  assumes "anchor posix cr clock ks m body kids1 = Inr m1" "kids2 \<noteq> []"
  shows "anchor posix cr clock ks m1 body kids2 = anchor posix cr clock ks m body (kids1 @ kids2)"
proof -
  obtain sealed sigs where a: "seal cr m body = Inr sealed"
      "sign_keys (\<lambda>now kid. sign_hash posix cr now ks kid (mf_manifest_hash sealed)) clock
         (set (map sg_key_id (mf_signatures sealed))) (mf_signatures sealed) kids1 = Inr sigs"
      "m1 = sealed\<lparr>mf_signatures := sigs\<rparr>" "kids1 \<noteq> []"
    using assms unfolding anchor_Inr by blast
  have n: "\<exists>new. sigs = mf_signatures sealed @ new \<and> map sg_key_id new = kids1"
    using sign_keys_result [OF _ a(2)] sign_hash_key by blast
  then have ne: "sigs \<noteq> []" and seen: "set (map sg_key_id sigs) = set (map sg_key_id (mf_signatures sealed)) \<union> set kids1"
    using a(4) by auto
  have s: "seal cr m1 body = Inr m1"
    unfolding a(3) by (rule seal_again) (use seal_Inr(1,2) [OF a(1)] ne in simp_all)
  show ?thesis
    using assms(2) a(2,4) s seen
    by (simp add: anchor_def a(1,3) sign_keys_append del: sign_keys.simps)
qed

text \<open>
  C21: Tampering is refused: with a collision-free hash, a manifest that carries the hashes of an anchored
  one but another signed field, or comes with another body, can neither be anchored further nor
  committed under any trust list and policy.
\<close>

theorem tampering_is_refused:
  assumes "inj (cr_sha256 cr)" and a: "anchor posix cr clock ks m body kids = Inr m'"
    and h: "mf_content_hash t = mf_content_hash m'" "mf_manifest_hash t = mf_manifest_hash m'" "mf_signatures t \<noteq> []"
    and changed: "body' \<noteq> body \<or> stored t\<lparr>mf_signatures := []\<rparr> \<noteq> stored m'\<lparr>mf_signatures := []\<rparr>"
  shows "\<not> ok (anchor posix cr clock ks t body' kids') \<and> \<not> ok (fst (commit cr lc t body' st))"
proof -
  have v: "verify_content_hash cr body (mf_canonical_form m') (mf_content_hash m')" "verify_manifest_hash cr m'"
    using anchor_sound [OF a] by blast+
  have no: "\<not> (verify_content_hash cr body' (mf_canonical_form t) (mf_content_hash t) \<and> verify_manifest_hash cr t)"
  proof
    assume t: "verify_content_hash cr body' (mf_canonical_form t) (mf_content_hash t) \<and> verify_manifest_hash cr t"
    then have "body' = body"
      using v(1) h(1) assms(1) by (auto simp: content_hash_cases inj_eq)
    moreover have "canonicalize_manifest_for_hashing t = canonicalize_manifest_for_hashing m'"
      using t v(2) h(2) assms(1) unfolding verify_manifest_hash_def compute_manifest_hash_def
      by (metis inj_eq same_append_eq)
    from canonical_fields [OF this, where h = "mf_manifest_hash t" and ss = "[]"]
    have "stored t\<lparr>mf_signatures := []\<rparr> = stored m'\<lparr>mf_signatures := []\<rparr>"
      using h(2) by (cases t; cases m') (simp add: stored_def)
    ultimately show False using changed by blast
  qed
  have "\<not> ok (anchor posix cr clock ks t body' kids')"
  proof
    assume "ok (anchor posix cr clock ks t body' kids')"
    then obtain sealed where "seal cr t body' = Inr sealed" using anchor_Inr by (metis ok.elims(2))
    then show False using no seal_Inr(1,2,5) h(3) by metis
  qed
  moreover have "\<not> ok (fst (commit cr lc t body' st))"
    using no threshold_met_hashes [of cr t body'] by (auto simp: commit_def Let_def split: option.splits)
  ultimately show ?thesis by blast
qed

text \<open>
  Library fact: Adding a key pair never replaces one: it fails with the keys unchanged, or the new key is listed,
  its public half can be read and it signs; and when the mode of the key directory is wrong nothing
  is listed and nothing signed.
\<close>

theorem keystore_sound:
  assumes "add_keypair posix cr (priv, pub) ks = (r, ks')"
  shows "(case r of
      Inl e \<Rightarrow> ks_private ks' = ks_private ks \<and> ks_public ks' = ks_public ks
    | Inr k \<Rightarrow> map_of (ks_private ks) k = None \<and> get_public_pem ks' k = Inr pub
        \<and> (\<exists>ids. list_key_ids posix ks' = Inr ids \<and> set ids = insert k (fst ` set (ks_private ks)))
        \<and> (ok (sign_hash posix cr now ks' k h) \<longleftrightarrow> ok (sign_bytes cr priv (utf8_encode h)))
        \<and> (\<forall>j. j = k \<or> map_of (ks_private ks') j = map_of (ks_private ks) j))
    \<and> (\<not> posix \<or> ks_dir_mode bad = DIR_MODE \<or> (\<not> ok (list_key_ids posix bad) \<and> \<not> ok (sign_hash posix cr now bad j h)))"
proof -
  have b: "\<not> posix \<or> ks_dir_mode bad = DIR_MODE \<or> (\<not> ok (list_key_ids posix bad) \<and> \<not> ok (sign_hash posix cr now bad j h))"
    by (auto simp: list_key_ids_def sign_hash_def ensure_dir_mode_def check_mode_def)
  show ?thesis
  proof (cases r)
    case (Inl e)
    then show ?thesis using assms b by (auto simp: add_keypair_def Let_def split: sum.splits if_splits)
  next
    case (Inr k)
    have k: "k \<notin> set (dkeys (ks_private ks))" "ks_private ks' = dset k (FILE_MODE, priv) (ks_private ks)"
        "ks_public ks' = dset k pub (ks_public ks)" "ensure_dir_mode posix ks' = Inr ()"
      using assms Inr by (auto simp: add_keypair_def Let_def ensure_dir_mode_def check_mode_def split: sum.splits if_splits)
    have "ok (sign_hash posix cr now ks' k h) \<longleftrightarrow> ok (sign_bytes cr priv (utf8_encode h))"
      by (cases "sign_bytes cr priv (utf8_encode h)") (simp_all add: sign_hash_def k check_mode_def)
    moreover have "set (dkeys (ks_private ks')) = insert k (set (dkeys (ks_private ks)))"
      unfolding k(2) by (simp add: dkeys_dset insert_absorb)
    ultimately show ?thesis
      using k b Inr by (simp add: list_key_ids_def get_public_pem_def map_of_eq_None_iff)
  qed
qed

text \<open>A revocation is an anchored manifest with an empty body and the hashes it revokes.\<close>

lemma revocation_manifest:
  assumes "anchor_revocation posix cr clock stamp_text now ks revokes kids cid ver tags = Inr m"
  shows "mf_kind m = REVOCATION \<and> mf_revokes m = revokes \<and> revokes \<noteq> []
    \<and> mf_content_hash m = ''sha256:'' @ cr_sha256 cr [] \<and> map sg_key_id (mf_signatures m) = kids"
proof -
  obtain n where n: "anchor posix cr clock ks n [] kids = Inr m" "mf_kind n = REVOCATION" "mf_revokes n = revokes"
      "mf_signatures n = []" "mf_canonical_form n = BYTES_RAW" "revokes \<noteq> []"
    using assms by (auto simp: anchor_revocation_def split: if_splits)
  note s = anchor_sound [OF n(1)]
  have e: "m = n\<lparr>mf_content_hash := mf_content_hash m, mf_manifest_hash := mf_manifest_hash m, mf_signatures := mf_signatures m\<rparr>"
    using s by blast
  have k: "mf_kind m = mf_kind n" "mf_revokes m = mf_revokes n" "mf_canonical_form m = mf_canonical_form n"
    by (subst e, simp)+
  have "verify_content_hash cr [] (mf_canonical_form m) (mf_content_hash m)" using s by blast
  moreover have "map sg_key_id (mf_signatures m) = kids" using s n(4) by auto
  ultimately show ?thesis using n k by (simp add: content_hash_cases)
qed

section \<open>Sample instances\<close>

definition sample_keys :: keystore where
  "sample_keys = \<lparr>ks_exists = True, ks_dir_mode = 448, ks_public_mode = 448,
     ks_private = [(''k'', 384, utf8_encode ''p''), (''l'', 384, utf8_encode ''q'')], ks_public = []\<rparr>"

lemma sample_trusted: "trusted_key sample_crypto sample_keys sample_trust ''k''"
  by (simp add: trusted_key_def sample_keys_def sample_trust_def FILE_MODE_def key_pair_def sign_bytes_def verify_def sample_crypto_def)

lemma sample_dir_mode: "ensure_dir_mode True sample_keys = Inr ()"
  by (simp add: ensure_dir_mode_def check_mode_def sample_keys_def DIR_MODE_def)

lemma sample_signs:
  "k = ''k'' \<or> k = ''l'' \<Longrightarrow> \<exists>s. sign_hash True sample_crypto now sample_keys k h = Inr s"
  using sample_dir_mode
  by (auto simp: sign_hash_Inr sample_keys_def check_mode_def FILE_MODE_def sign_bytes_def sample_crypto_def)

lemma sample_anchor:
  "set kids \<subseteq> {''k'', ''l''} \<Longrightarrow> distinct kids \<Longrightarrow> kids \<noteq> [] \<Longrightarrow>
     \<exists>m. anchor True sample_crypto clock sample_keys sample_manifest [1, 2] kids = Inr m"
proof -
  assume kids: "set kids \<subseteq> {''k'', ''l''}" "distinct kids" "kids \<noteq> []"
  obtain sealed where s: "seal sample_crypto sample_manifest [1, 2] = Inr sealed" "mf_signatures sealed = []"
    by (auto simp: seal_def content_hash_of_def compute_content_hash_def Let_def sample_manifest_def)
  have "\<exists>out. sign_keys (\<lambda>now kid. sign_hash True sample_crypto now sample_keys kid (mf_manifest_hash sealed)) clock {} [] kids = Inr out"
    by (rule sign_keys_total) (use kids sample_signs in auto)
  then show ?thesis using s kids(3) unfolding anchor_Inr by auto
qed

lemma anchor_sound_witness:
  "\<exists>m. anchor True sample_crypto (\<lambda>_. ''t'') sample_keys sample_manifest [1, 2] [''k''] = Inr m
     \<and> verify_manifest_hash sample_crypto m \<and> map sg_key_id (mf_signatures m) = [''k'']"
proof -
  obtain m where m: "anchor True sample_crypto (\<lambda>_. ''t'') sample_keys sample_manifest [1, 2] [''k''] = Inr m"
    using sample_anchor [of "[''k'']"] by auto
  show ?thesis using anchor_sound [OF m] m by (auto simp: sample_manifest_def)
qed


lemma anchor_accumulates_witness:
  "\<exists>m. anchor True sample_crypto (\<lambda>_. ''t'') sample_keys sample_manifest [1, 2] [''k''] = Inr m
     \<and> anchor True sample_crypto (\<lambda>_. ''t'') sample_keys m [1, 2] [''l'']
       = anchor True sample_crypto (\<lambda>_. ''t'') sample_keys sample_manifest [1, 2] [''k'', ''l'']"
proof -
  obtain m where m: "anchor True sample_crypto (\<lambda>_. ''t'') sample_keys sample_manifest [1, 2] [''k''] = Inr m"
    using sample_anchor [of "[''k'']"] by auto
  show ?thesis using anchor_accumulates [OF m, of "[''l'']"] m by auto
qed

lemma tampering_is_refused_witness:
  "\<exists>m. anchor True sample_crypto (\<lambda>_. ''t'') sample_keys sample_manifest [1, 2] [''k''] = Inr m
     \<and> \<not> ok (fst (commit sample_crypto (sample_config sample_policy) m [1, 3] empty_store))"
proof -
  have i: "inj (cr_sha256 sample_crypto)"
    by (rule inj_on_inverseI [of _ "the \<circ> b64decode"]) (simp add: sample_crypto_def)
  obtain m where m: "anchor True sample_crypto (\<lambda>_. ''t'') sample_keys sample_manifest [1, 2] [''k''] = Inr m"
    using sample_anchor [of "[''k'']"] by auto
  have "mf_signatures m \<noteq> []" using anchor_sound [OF m] by auto
  then show ?thesis using tampering_is_refused [OF i m refl refl, of "[1, 3]"] m by auto
qed

lemma keystore_sound_witness:
  "case add_keypair True sample_crypto (utf8_encode ''z'', ''z'') sample_keys of
     (Inl e, ks') \<Rightarrow> ks_private ks' = ks_private sample_keys
   | (Inr k, ks') \<Rightarrow> get_public_pem ks' k = Inr ''z''"
proof -
  obtain r ks' where a: "add_keypair True sample_crypto (utf8_encode ''z'', ''z'') sample_keys = (r, ks')"
    by fastforce
  show ?thesis using keystore_sound [OF a, THEN conjunct1] unfolding a by (cases r) simp_all
qed

end
