(* ===== verification/Trust_Files.thy ===== *)
theory Trust_Files
  imports Scribe
begin

text \<open>
  \<^verbatim>\<open>maestro/librarian/loaders.py\<close>: the policy file and the trust list file, which carries an operator
  signature over its keys.  A file is missing, not JSON, or the fields it has; a field of another
  type than the one saved is not modelled.
\<close>

section \<open>Files\<close>

datatype 'a json_file = NoFile | NotJson | JsonFile 'a

record PolicyFile =
  pf_min_signatures_by_kind :: "(string, int) dict option"
  pf_review_external_imports :: "bool option"
  pf_import_caps_by_key :: "(string, int) dict option"
  pf_canonical_form_registry :: "string list option"
  pf_operator_key_fingerprint :: "string option"
  pf_operator_key_pem :: "string option"

record TrustEntry =
  te_key_id :: "string option"
  te_public_key :: "string option"
  te_added_at :: "string option"
  te_added_by_operator_key :: "string option"

record TrustFile =
  tf_keys :: "TrustEntry list option"
  tf_operator_signature :: "string option"

datatype trust_error =
  FileMissing | FileNotJson | NoOperatorPem | NoOperatorSignature | MissingField string | SignatureNotBase64
| SignatureInvalid

fun read_json :: "'a json_file \<Rightarrow> trust_error + 'a" where
  "read_json NoFile = Inl FileMissing"
| "read_json NotJson = Inl FileNotJson"
| "read_json (JsonFile x) = Inr x"

section \<open>Policy\<close>

definition load_policy :: "PolicyFile json_file \<Rightarrow> trust_error + Policy" where
  "load_policy file =
     bind_res (read_json file) (\<lambda>d. Inr
       \<lparr>po_min_signatures_by_kind = or_else (pf_min_signatures_by_kind d) [],
        po_review_external_imports = or_else (pf_review_external_imports d) False,
        po_import_caps_by_key = or_else (pf_import_caps_by_key d) [],
        po_canonical_form_registry = or_else (pf_canonical_form_registry d) [],
        po_operator_key_fingerprint = or_else (pf_operator_key_fingerprint d) []\<rparr>)"

text \<open>The dictionaries are written with their keys sorted.\<close>

definition save_policy :: "Policy \<Rightarrow> string \<Rightarrow> PolicyFile json_file" where
  "save_policy policy operator_key_pem = JsonFile
     \<lparr>pf_min_signatures_by_kind = Some (sort_key fst (po_min_signatures_by_kind policy)),
      pf_review_external_imports = Some (po_review_external_imports policy),
      pf_import_caps_by_key = Some (sort_key fst (po_import_caps_by_key policy)),
      pf_canonical_form_registry = Some (po_canonical_form_registry policy),
      pf_operator_key_fingerprint = Some (po_operator_key_fingerprint policy),
      pf_operator_key_pem = Some operator_key_pem\<rparr>"

definition read_operator_pem :: "PolicyFile json_file \<Rightarrow> trust_error + string" where
  "read_operator_pem file = bind_res (read_json file) (\<lambda>d. Inr (or_else (pf_operator_key_pem d) []))"

section \<open>Trust list\<close>

definition trusted_key_json :: "TrustedKey \<Rightarrow> json" where
  "trusted_key_json k = JObj
     [(''key_id'', JStr (tk_key_id k)), (''public_key'', JStr (tk_public_key k)), (''added_at'', JStr (tk_added_at k)),
      (''added_by_operator_key'', JStr (tk_added_by_operator_key k))]"

definition canonicalize_trust_keys :: "(string, TrustedKey) dict \<Rightarrow> bytes" where
  "canonicalize_trust_keys keys =
     utf8_encode (json_dumps (JList (map (\<lambda>(_, k). trusted_key_json k) (sort_key fst keys))))"

fun add_trust_entries :: "(string, TrustedKey) dict \<Rightarrow> TrustEntry list \<Rightarrow> trust_error + (string, TrustedKey) dict" where
  "add_trust_entries keys [] = Inr keys"
| "add_trust_entries keys (e # es) =
     (case te_key_id e of
        None \<Rightarrow> Inl (MissingField ''key_id'')
      | Some kid \<Rightarrow>
          (case te_public_key e of
             None \<Rightarrow> Inl (MissingField ''public_key'')
           | Some public_key \<Rightarrow>
               add_trust_entries
                 (dset kid \<lparr>tk_key_id = kid, tk_public_key = public_key, tk_added_at = or_else (te_added_at e) [],
                    tk_added_by_operator_key = or_else (te_added_by_operator_key e) []\<rparr> keys) es))"

definition load_trust_list ::
    "('pub, 'priv) crypto \<Rightarrow> TrustFile json_file \<Rightarrow> PolicyFile json_file \<Rightarrow> trust_error + TrustList" where
  "load_trust_list cr file policy_file =
     bind_res (read_operator_pem policy_file) (\<lambda>operator_pem.
       if operator_pem = [] then Inl NoOperatorPem
       else bind_res (read_json file) (\<lambda>d.
         let operator_sig = or_else (tf_operator_signature d) []
         in if operator_sig = [] then Inl NoOperatorSignature
            else bind_res (add_trust_entries [] (or_else (tf_keys d) [])) (\<lambda>keys.
              case b64decode operator_sig of
                None \<Rightarrow> Inl SignatureNotBase64
              | Some sig_bytes \<Rightarrow>
                  if \<not> verify cr (utf8_encode operator_pem) (canonicalize_trust_keys keys) sig_bytes
                  then Inl SignatureInvalid
                  else Inr \<lparr>tl_keys = keys, tl_operator_signature = Some operator_sig\<rparr>)))"

definition trust_entry :: "TrustedKey \<Rightarrow> TrustEntry" where
  "trust_entry k =
     \<lparr>te_key_id = Some (tk_key_id k), te_public_key = Some (tk_public_key k), te_added_at = Some (tk_added_at k),
      te_added_by_operator_key = Some (tk_added_by_operator_key k)\<rparr>"

definition save_trust_list ::
    "('pub, 'priv) crypto \<Rightarrow> TrustList \<Rightarrow> bytes \<Rightarrow> scribe_error + TrustFile json_file \<times> TrustList" where
  "save_trust_list cr trust operator_private_pem =
     bind_res (sign_bytes cr operator_private_pem (canonicalize_trust_keys (tl_keys trust))) (\<lambda>sig_bytes.
       Inr (JsonFile \<lparr>tf_keys = Some (map (\<lambda>(_, k). trust_entry k) (sort_key fst (tl_keys trust))),
                      tf_operator_signature = Some (b64encode sig_bytes)\<rparr>,
            trust\<lparr>tl_operator_signature := Some (b64encode sig_bytes)\<rparr>))"

section \<open>Lemmas\<close>

text \<open>Every key is filed under its own id, once.\<close>

definition trust_wf :: "(string, TrustedKey) dict \<Rightarrow> bool" where
  "trust_wf keys = (well_keyed keys \<and> list_all (\<lambda>(i, k). i = tk_key_id k) keys)"

lemma trust_wf_dset: "trust_wf keys \<Longrightarrow> trust_wf (dset (tk_key_id v) v keys)"
  using set_dset [of "tk_key_id v" v keys] by (auto simp: trust_wf_def list_all_iff)

lemma trusted_key_eta [simp]:
  "\<lparr>tk_key_id = tk_key_id k, tk_public_key = tk_public_key k, tk_added_at = tk_added_at k,
    tk_added_by_operator_key = tk_added_by_operator_key k\<rparr> = k"
  by (cases k) simp

lemma add_trust_entries_wf: "trust_wf keys \<Longrightarrow> add_trust_entries keys es = Inr keys' \<Longrightarrow> trust_wf keys'"
proof (induction es arbitrary: keys)
  case (Cons e es)
  obtain kid pk where e: "te_key_id e = Some kid" "te_public_key e = Some pk"
    using Cons.prems(2) by (auto split: option.splits)
  show ?case
    using Cons.IH [OF trust_wf_dset [OF Cons.prems(1), of "\<lparr>tk_key_id = kid, tk_public_key = pk,
        tk_added_at = or_else (te_added_at e) [], tk_added_by_operator_key = or_else (te_added_by_operator_key e) []\<rparr>"]]
      Cons.prems(2) e by simp
qed simp

lemma add_trust_entries_saved:
  "trust_wf (keys @ rest) \<Longrightarrow> add_trust_entries keys (map (\<lambda>(_, k). trust_entry k) rest) = Inr (keys @ rest)"
proof (induction rest arbitrary: keys)
  case (Cons e rest)
  obtain i k where e: "e = (i, k)" by (cases e)
  have "i = tk_key_id k" "i \<notin> set (dkeys keys)" using Cons.prems by (auto simp: e trust_wf_def well_keyed_def)
  then show ?case using Cons.IH [of "keys @ [e]"] Cons.prems by (simp add: e trust_entry_def dset_append)
qed simp

lemma trust_wf_sorted: "trust_wf keys \<Longrightarrow> trust_wf (sort_key fst keys)"
proof -
  assume "trust_wf keys"
  moreover have "mset (dkeys (sort_key fst keys)) = mset (dkeys keys)" by simp
  ultimately show ?thesis
    unfolding trust_wf_def well_keyed_def by (metis list_all_iff mset_eq_imp_distinct_iff set_sort)
qed

lemma canonical_sorted [simp]: "canonicalize_trust_keys (sort_key fst keys) = canonicalize_trust_keys keys"
  by (simp add: canonicalize_trust_keys_def sort_key_id_if_sorted)

lemma trusted_key_json_inj: "json_sorted (trusted_key_json k) = json_sorted (trusted_key_json k') \<Longrightarrow> k = k'"
proof -
  assume "json_sorted (trusted_key_json k) = json_sorted (trusted_key_json k')"
  then show ?thesis
    by (cases k; cases k') (simp add: trusted_key_json_def)
qed

lemma trust_wf_values: "trust_wf c \<Longrightarrow> map (\<lambda>k. (tk_key_id k, k)) (map snd c) = c"
  by (induction c) (auto simp: trust_wf_def well_keyed_def)

lemma canonical_trust_inj:
  assumes "trust_wf a" "trust_wf b" "canonicalize_trust_keys a = canonicalize_trust_keys b"
  shows "sort_key fst a = sort_key fst b"
proof -
  have m: "map json_sorted (map (\<lambda>(_, k). trusted_key_json k) (sort_key fst a))
      = map json_sorted (map (\<lambda>(_, k). trusted_key_json k) (sort_key fst b))"
    using json_print_inj [OF utf8_encode_inj [OF assms(3) [unfolded canonicalize_trust_keys_def json_dumps_def]]]
    by (simp only: json_sorted.simps json.inject)
  have "map snd (sort_key fst a) = map snd (sort_key fst b)"
  proof (rule map_injective)
    show "map (json_sorted \<circ> trusted_key_json) (map snd (sort_key fst a))
        = map (json_sorted \<circ> trusted_key_json) (map snd (sort_key fst b))"
      using m by (simp add: comp_def case_prod_unfold)
    show "inj (json_sorted \<circ> trusted_key_json)" by (rule injI) (simp add: trusted_key_json_inj)
  qed
  then have "map (\<lambda>k. (tk_key_id k, k)) (map snd (sort_key fst a)) = map (\<lambda>k. (tk_key_id k, k)) (map snd (sort_key fst b))"
    by (rule arg_cong)
  then show ?thesis
    unfolding trust_wf_values [OF trust_wf_sorted [OF assms(1)]] trust_wf_values [OF trust_wf_sorted [OF assms(2)]] .
qed

section \<open>Properties\<close>

text \<open>
  Library fact: A trust list is only loaded when the operator key of the policy signed exactly its keys: the
  signature verifies over them, each is filed once under its own id, and a trust list that another
  file loads under the same canonical bytes has the same keys.
\<close>

theorem trust_list_authentic:
  assumes "load_trust_list cr file policy_file = Inr trust"
  shows "\<exists>pem sig_bytes. read_operator_pem policy_file = Inr pem \<and> pem \<noteq> []
    \<and> Option.bind (tl_operator_signature trust) b64decode = Some sig_bytes
    \<and> verify cr (utf8_encode pem) (canonicalize_trust_keys (tl_keys trust)) sig_bytes
    \<and> trust_wf (tl_keys trust)
    \<and> (\<forall>keys. \<not> trust_wf keys \<or> canonicalize_trust_keys keys \<noteq> canonicalize_trust_keys (tl_keys trust)
         \<or> map_of keys = map_of (tl_keys trust))"
proof -
  obtain pem and d :: TrustFile and keys sig_bytes where l: "read_operator_pem policy_file = Inr pem" "pem \<noteq> []"
      "add_trust_entries [] (or_else (tf_keys d) []) = Inr keys" "b64decode (or_else (tf_operator_signature d) []) = Some sig_bytes"
      "verify cr (utf8_encode pem) (canonicalize_trust_keys keys) sig_bytes"
      "trust = \<lparr>tl_keys = keys, tl_operator_signature = Some (or_else (tf_operator_signature d) [])\<rparr>"
    using assms by (auto simp: load_trust_list_def bind_res_Inr Let_def split: if_splits option.splits)
  have wf: "trust_wf keys" using add_trust_entries_wf [OF _ l(3)] by (simp add: trust_wf_def)
  have "map_of keys' = map_of keys" if "trust_wf keys'" "canonicalize_trust_keys keys' = canonicalize_trust_keys keys" for keys'
  proof -
    have "map_of (sort_key fst keys') = map_of (sort_key fst keys)" using canonical_trust_inj [OF that(1) wf that(2)] by simp
    then show ?thesis using map_of_sorted that(1) wf by (metis trust_wf_def well_keyed_def)
  qed
  then have "\<forall>keys'. \<not> trust_wf keys' \<or> canonicalize_trust_keys keys' \<noteq> canonicalize_trust_keys keys \<or> map_of keys' = map_of keys"
    by blast
  moreover have "Option.bind (tl_operator_signature trust) b64decode = Some sig_bytes" "tl_keys trust = keys"
    using l(4,6) by simp_all
  ultimately show ?thesis using l(1,2,5) wf by metis
qed

text \<open>
  Library fact: A trust list saved with the operator's private key, next to a policy that names the matching public
  key, is loaded back with the same keys in sorted order, and a saved policy with the same settings.
\<close>

theorem trust_list_roundtrip:
  assumes "trust_wf (tl_keys trust)" "key_pair cr operator_private pem" "pem \<noteq> []"
    "save_trust_list cr trust operator_private = Inr (file, trust')" "tl_operator_signature trust' \<noteq> Some []"
  shows "load_trust_list cr file (save_policy policy pem) = Inr (trust'\<lparr>tl_keys := sort_key fst (tl_keys trust)\<rparr>)
    \<and> tl_keys trust' = tl_keys trust
    \<and> load_policy (save_policy policy pem)
      = Inr (policy\<lparr>po_min_signatures_by_kind := sort_key fst (po_min_signatures_by_kind policy),
                    po_import_caps_by_key := sort_key fst (po_import_caps_by_key policy)\<rparr>)"
proof -
  obtain sig_bytes where s: "sign_bytes cr operator_private (canonicalize_trust_keys (tl_keys trust)) = Inr sig_bytes"
      "file = JsonFile \<lparr>tf_keys = Some (map (\<lambda>(_, k). trust_entry k) (sort_key fst (tl_keys trust))),
         tf_operator_signature = Some (b64encode sig_bytes)\<rparr>"
      "trust' = trust\<lparr>tl_operator_signature := Some (b64encode sig_bytes)\<rparr>"
    using assms(4) by (auto simp: save_trust_list_def bind_res_Inr)
  have v: "verify cr (utf8_encode pem) (canonicalize_trust_keys (tl_keys trust)) sig_bytes"
    using assms(2) s(1) unfolding key_pair_def by (metis Inr_inject)
  have a: "add_trust_entries [] (map (\<lambda>(_, k). trust_entry k) (sort_key fst (tl_keys trust))) = Inr (sort_key fst (tl_keys trust))"
    using add_trust_entries_saved [of "[]"] trust_wf_sorted [OF assms(1)] by simp
  show ?thesis
    using assms(3,5) v a by (simp add: load_trust_list_def read_operator_pem_def save_policy_def load_policy_def s(2,3))
qed

lemma trust_list_roundtrip_witness:
  "load_trust_list sample_crypto
     (JsonFile \<lparr>tf_keys = Some (map (\<lambda>(_, k). trust_entry k) (tl_keys sample_trust)),
        tf_operator_signature = Some (b64encode (utf8_encode ''o'' @ canonicalize_trust_keys (tl_keys sample_trust)))\<rparr>)
     (save_policy sample_policy ''o'')
   = Inr (sample_trust\<lparr>tl_operator_signature := Some (b64encode (utf8_encode ''o'' @ canonicalize_trust_keys (tl_keys sample_trust)))\<rparr>)"
proof -
  have w: "trust_wf (tl_keys sample_trust)" by (simp add: trust_wf_def sample_trust_def well_keyed_def)
  have k: "key_pair sample_crypto (utf8_encode ''o'') ''o''" by (simp add: key_pair_def sign_bytes_def verify_def sample_crypto_def)
  have o: "sort_key fst (tl_keys sample_trust) = tl_keys sample_trust" by (simp add: sample_trust_def)
  have s: "save_trust_list sample_crypto sample_trust (utf8_encode ''o'')
    = Inr (JsonFile \<lparr>tf_keys = Some (map (\<lambda>(_, k). trust_entry k) (tl_keys sample_trust)),
             tf_operator_signature = Some (b64encode (utf8_encode ''o'' @ canonicalize_trust_keys (tl_keys sample_trust)))\<rparr>,
           sample_trust\<lparr>tl_operator_signature := Some (b64encode (utf8_encode ''o'' @ canonicalize_trust_keys (tl_keys sample_trust)))\<rparr>)"
    by (simp add: save_trust_list_def sign_bytes_def o) (simp add: sample_crypto_def)
  have "b64encode (utf8_encode ''o'' @ x) \<noteq> []" for x
    using b64decode_encode [of "utf8_encode ''o'' @ x"] by (auto simp: b64decode_def)
  then show ?thesis using trust_list_roundtrip [OF w k _ s, of sample_policy] by (simp add: o)
qed

lemma trust_list_authentic_witness:
  "trust_wf (tl_keys (sample_trust\<lparr>tl_operator_signature := Some (b64encode (utf8_encode ''o'' @ canonicalize_trust_keys (tl_keys sample_trust)))\<rparr>))"
proof -
  have "b64encode (utf8_encode ''o'' @ x) \<noteq> []" for x
    using b64decode_encode [of "utf8_encode ''o'' @ x"] by (auto simp: b64decode_def)
  then have l: "load_trust_list sample_crypto
     (JsonFile \<lparr>tf_keys = Some (map (\<lambda>(_, k). trust_entry k) (tl_keys sample_trust)),
        tf_operator_signature = Some (b64encode (utf8_encode ''o'' @ canonicalize_trust_keys (tl_keys sample_trust)))\<rparr>)
     (save_policy sample_policy ''o'')
   = Inr (sample_trust\<lparr>tl_operator_signature := Some (b64encode (utf8_encode ''o'' @ canonicalize_trust_keys (tl_keys sample_trust)))\<rparr>)"
    using add_trust_entries_saved [of "[]" "tl_keys sample_trust"]
    by (simp add: load_trust_list_def read_operator_pem_def save_policy_def Let_def verify_def sample_crypto_def trust_wf_def
        sample_trust_def well_keyed_def trust_entry_def)
  show ?thesis using trust_list_authentic [OF l] by blast
qed

end
