(* ===== verification/Cluster.thy ===== *)
theory Cluster
  imports Py_Codec
begin

text \<open>
  \<^verbatim>\<open>maestro/cluster.py\<close>, \<^verbatim>\<open>maestro/state_bus.py\<close>, \<^verbatim>\<open>maestro/api_cluster.py\<close> and the task routes of
  \<^verbatim>\<open>maestro/node_server.py\<close>: the role of a node, the shard a task belongs to, the shared state in Redis, the
  dispatch of a task to its shard and the attestation of every shard.  Redis is a parameter, a record of
  the commands used, any of which may fail; \<open>redis_laws\<close> states what is documented of them.  A payload is
  the JSON value stored; SHA-256 (as hex digits), the clock and the network are parameters too.
\<close>

section \<open>Environment\<close>

record ClusterConfig =
  cc_role :: string
  cc_node_id :: string
  cc_shard_index :: "int option"
  cc_shard_count :: int
  cc_orchestrator_url :: string
  cc_redis_url :: string

datatype config_error = NotAnInteger string

fun int_or_error :: "string \<Rightarrow> config_error + int" where
  "int_or_error s = (case py_int s of None \<Rightarrow> Inl (NotAnInteger s) | Some i \<Rightarrow> Inr i)"

fun env_or :: "(string \<Rightarrow> string option) \<Rightarrow> string \<Rightarrow> string \<Rightarrow> string" where
  "env_or env k dflt = (case env k of None \<Rightarrow> dflt | Some v \<Rightarrow> v)"

definition detect_cluster_config :: "(string \<Rightarrow> string option) \<Rightarrow> config_error + ClusterConfig" where
  "detect_cluster_config env =
     bind_res (int_or_error (env_or env ''SHARD_COUNT'' ''1'')) (\<lambda>shard_count.
       let role_raw = py_strip (py_lower (env_or env ''NODE_ROLE'' []))
       in bind_res
            (if role_raw = ''orchestrator'' then Inr (''orchestrator'', None)
             else if role_raw = ''shard'' then
               (case env ''SHARD_INDEX'' of
                  None \<Rightarrow> Inr (''shard'', Some 0)
                | Some s \<Rightarrow> bind_res (int_or_error s) (\<lambda>i. Inr (''shard'', Some i)))
             else Inr (''standalone'', None))
            (\<lambda>(role, shard_index). Inr
              \<lparr>cc_role = (if shard_count \<le> 1 \<and> role \<noteq> ''orchestrator'' then ''standalone'' else role),
               cc_node_id = env_or env ''NODE_ID'' ''standalone'', cc_shard_index = shard_index,
               cc_shard_count = max 1 shard_count, cc_orchestrator_url = env_or env ''ORCHESTRATOR_URL'' [],
               cc_redis_url = env_or env ''REDIS_URL'' []\<rparr>))"

section \<open>Consistent hashing\<close>

definition hex_value :: "string \<Rightarrow> nat" where
  "hex_value s =
     foldl (\<lambda>a c. 16 * a + (let n = of_char c in if n < 58 then n - 48 else n - 87)) 0 s"

definition assign_shard :: "(bytes \<Rightarrow> string) \<Rightarrow> string \<Rightarrow> int \<Rightarrow> int" where
  "assign_shard sha task_id shard_count = int (hex_value (sha (utf8_encode task_id))) mod shard_count"

definition is_task_owned :: "(bytes \<Rightarrow> string) \<Rightarrow> string \<Rightarrow> int \<Rightarrow> int \<Rightarrow> bool" where
  "is_task_owned sha task_id shard_index shard_count = (assign_shard sha task_id shard_count = shard_index)"

section \<open>State bus\<close>

record 'r redis =
  rd_hset :: "string \<Rightarrow> string \<Rightarrow> json \<Rightarrow> 'r \<Rightarrow> 'r option"
  rd_hdel :: "string \<Rightarrow> string \<Rightarrow> 'r \<Rightarrow> 'r option"
  rd_hget :: "string \<Rightarrow> string \<Rightarrow> 'r \<Rightarrow> json option option"
  rd_hgetall :: "string \<Rightarrow> 'r \<Rightarrow> (string, json) dict option"
  rd_rpush :: "string \<Rightarrow> json \<Rightarrow> 'r \<Rightarrow> 'r option"
  rd_lpop :: "string \<Rightarrow> 'r \<Rightarrow> (json option \<times> 'r) option"
  rd_expire :: "string \<Rightarrow> nat \<Rightarrow> 'r \<Rightarrow> 'r option"

text \<open>The bus: \<^term>\<open>None\<close> without a connection.  A command that fails leaves the bus as it was.\<close>

type_synonym 'r bus = "'r option"

definition try_cmd :: "('r \<Rightarrow> 'r option) \<Rightarrow> 'r bus \<Rightarrow> 'r bus" where
  "try_cmd f b = (case b of None \<Rightarrow> None | Some r \<Rightarrow> (case f r of None \<Rightarrow> Some r | Some r' \<Rightarrow> Some r'))"

definition bus_hget :: "'r redis \<Rightarrow> string \<Rightarrow> string \<Rightarrow> 'r bus \<Rightarrow> json option" where
  "bus_hget rd k f b =
     (case b of None \<Rightarrow> None | Some r \<Rightarrow> (case rd_hget rd k f r of None \<Rightarrow> None | Some v \<Rightarrow> v))"

definition bus_hgetall :: "'r redis \<Rightarrow> string \<Rightarrow> 'r bus \<Rightarrow> (string, json) dict" where
  "bus_hgetall rd k b =
     (case b of None \<Rightarrow> [] | Some r \<Rightarrow> (case rd_hgetall rd k r of None \<Rightarrow> [] | Some d \<Rightarrow> d))"

text \<open>\<^verbatim>\<open>{..., **more}\<close>.\<close>

definition merged :: "(string, json) dict \<Rightarrow> (string, json) dict \<Rightarrow> json" where
  "merged base extra = JObj (fold (\<lambda>(k, v). dset k v) extra base)"

definition assign_task :: "'r redis \<Rightarrow> string \<Rightarrow> string \<Rightarrow> int \<Rightarrow> (string, json) dict \<Rightarrow> 'r bus \<Rightarrow> 'r bus" where
  "assign_task rd now task_id shard_index meta =
     try_cmd (rd_hset rd ''maestro:tasks'' task_id
       (merged [(''shard_index'', JInt shard_index), (''assigned_at'', JStr now)] meta))"

definition get_task :: "'r redis \<Rightarrow> string \<Rightarrow> 'r bus \<Rightarrow> json option" where
  "get_task rd task_id = bus_hget rd ''maestro:tasks'' task_id"

definition complete_task :: "'r redis \<Rightarrow> string \<Rightarrow> string \<Rightarrow> json \<Rightarrow> 'r bus \<Rightarrow> 'r bus" where
  "complete_task rd now task_id result b =
     (case b of
        None \<Rightarrow> None
      | Some r \<Rightarrow>
          (case rd_hset rd ''maestro:results'' task_id
              (JObj [(''status'', JStr ''completed''), (''completed_at'', JStr now), (''result'', result)]) r of
             None \<Rightarrow> Some r
           | Some r' \<Rightarrow> (case rd_hdel rd ''maestro:tasks'' task_id r' of None \<Rightarrow> Some r' | Some r'' \<Rightarrow> Some r'')))"

definition get_result :: "'r redis \<Rightarrow> string \<Rightarrow> 'r bus \<Rightarrow> json option" where
  "get_result rd task_id = bus_hget rd ''maestro:results'' task_id"

definition register_shard :: "'r redis \<Rightarrow> string \<Rightarrow> string \<Rightarrow> (string, json) dict \<Rightarrow> 'r bus \<Rightarrow> 'r bus" where
  "register_shard rd now node_id info =
     try_cmd (rd_hset rd ''maestro:shards'' node_id
       (merged [(''node_id'', JStr node_id), (''registered_at'', JStr now)] info))"

definition list_shards :: "'r redis \<Rightarrow> 'r bus \<Rightarrow> (string, json) dict" where
  "list_shards rd = bus_hgetall rd ''maestro:shards''"

definition unregister_shard :: "'r redis \<Rightarrow> string \<Rightarrow> 'r bus \<Rightarrow> 'r bus" where
  "unregister_shard rd node_id = try_cmd (rd_hdel rd ''maestro:shards'' node_id)"

definition publish_proof :: "'r redis \<Rightarrow> string \<Rightarrow> string \<Rightarrow> (string, json) dict \<Rightarrow> 'r bus \<Rightarrow> 'r bus" where
  "publish_proof rd now node_id proof =
     try_cmd (rd_hset rd ''maestro:proofs'' node_id
       (merged [(''node_id'', JStr node_id), (''timestamp'', JStr now)] proof))"

definition get_proof :: "'r redis \<Rightarrow> string \<Rightarrow> 'r bus \<Rightarrow> json option" where
  "get_proof rd node_id = bus_hget rd ''maestro:proofs'' node_id"

definition enqueue_ledger_entry :: "'r redis \<Rightarrow> json \<Rightarrow> 'r bus \<Rightarrow> 'r bus" where
  "enqueue_ledger_entry rd entry = try_cmd (rd_rpush rd ''maestro:ledger_queue'' entry)"

definition dequeue_ledger_entry :: "'r redis \<Rightarrow> 'r bus \<Rightarrow> json option \<times> 'r bus" where
  "dequeue_ledger_entry rd b =
     (case b of None \<Rightarrow> (None, None)
      | Some r \<Rightarrow> (case rd_lpop rd ''maestro:ledger_queue'' r of None \<Rightarrow> (None, Some r) | Some (v, r') \<Rightarrow> (v, Some r')))"

definition set_node_health :: "'r redis \<Rightarrow> string \<Rightarrow> string \<Rightarrow> (string, json) dict \<Rightarrow> 'r bus \<Rightarrow> 'r bus" where
  "set_node_health rd now node_id health b =
     (case b of
        None \<Rightarrow> None
      | Some r \<Rightarrow>
          (case rd_hset rd ''maestro:health'' node_id
              (merged [(''node_id'', JStr node_id), (''updated_at'', JStr now)] health) r of
             None \<Rightarrow> Some r
           | Some r' \<Rightarrow> (case rd_expire rd ''maestro:health'' 120 r' of None \<Rightarrow> Some r' | Some r'' \<Rightarrow> Some r'')))"

definition get_cluster_health :: "'r redis \<Rightarrow> 'r bus \<Rightarrow> (string, json) dict" where
  "get_cluster_health rd = bus_hgetall rd ''maestro:health''"

section \<open>Dispatch\<close>

record TaskDispatch =
  td_task_id :: string
  td_prompt :: string

datatype http_error = HttpError nat string

text \<open>The shard node: \<^verbatim>\<open>POST /task/dispatch\<close>, first the processing of an accepted task.\<close>

definition accept_task ::
    "'r redis \<Rightarrow> string \<Rightarrow> string \<Rightarrow> ClusterConfig \<Rightarrow> TaskDispatch \<Rightarrow> 'r bus \<Rightarrow> json \<times> 'r bus" where
  "accept_task rd now node_id cfg task b =
     (let result = JObj [(''task_id'', JStr (td_task_id task)), (''node_id'', JStr node_id),
            (''shard_index'', case cc_shard_index cfg of None \<Rightarrow> JNull | Some i \<Rightarrow> JInt i),
            (''response'', JStr (''['' @ node_id @ ''] Processed task '' @ td_task_id task @ '': '' @ take 200 (td_prompt task))),
            (''timestamp'', JStr now)]
      in (result, complete_task rd now (td_task_id task) result b))"

definition task_dispatch ::
    "(bytes \<Rightarrow> string) \<Rightarrow> 'r redis \<Rightarrow> string \<Rightarrow> string \<Rightarrow> ClusterConfig \<Rightarrow> TaskDispatch \<Rightarrow> 'r bus
     \<Rightarrow> (http_error + json) \<times> 'r bus" where
  "task_dispatch sha rd now node_id cfg task b =
     (case (if cc_role cfg = ''shard'' then cc_shard_index cfg else None) of
        Some i \<Rightarrow>
          (if \<not> is_task_owned sha (td_task_id task) i (cc_shard_count cfg)
           then (Inl (HttpError 409
                  (''Task '' @ td_task_id task @ '' belongs to shard '' @ int_str (assign_shard sha (td_task_id task) (cc_shard_count cfg))
                   @ '', not this node (shard '' @ int_str i @ '')'')), b)
           else apfst Inr (accept_task rd now node_id cfg task b))
      | None \<Rightarrow> apfst Inr (accept_task rd now node_id cfg task b))"

text \<open>The orchestrator: the URLs of the shards, and \<^verbatim>\<open>POST /api/cluster/dispatch\<close>.\<close>

fun shard_index_of :: "json \<Rightarrow> json option" where
  "shard_index_of (JObj d) = (case map_of d ''shard_index'' of Some JNull \<Rightarrow> None | v \<Rightarrow> v)"
| "shard_index_of _ = None"

definition shard_urls :: "'r redis \<Rightarrow> ClusterConfig \<Rightarrow> 'r bus \<Rightarrow> (json, string) dict" where
  "shard_urls rd cfg b =
     (let urls = fold (\<lambda>(node_id, info) d. case shard_index_of info of None \<Rightarrow> d
            | Some i \<Rightarrow> dset i (''http://'' @ node_id @ '':8000'') d) (list_shards rd b) []
      in if urls \<noteq> [] then urls
         else map (\<lambda>i. (JInt i, ''http://shard-'' @ int_str (i + 1) @ '':8000'')) [0..cc_shard_count cfg - 1])"

datatype net_reply = NetOk json | NetStatus nat string | NetFailed string

record DispatchResult =
  dr_task_id :: string
  dr_routed_to_shard :: int
  dr_shard_url :: string
  dr_result :: json

definition dispatch_task ::
    "(bytes \<Rightarrow> string) \<Rightarrow> 'r redis \<Rightarrow> string \<Rightarrow> string \<Rightarrow> (string \<Rightarrow> TaskDispatch \<Rightarrow> 'r bus \<Rightarrow> net_reply \<times> 'r bus)
     \<Rightarrow> ClusterConfig \<Rightarrow> string \<Rightarrow> string \<Rightarrow> 'r bus \<Rightarrow> (http_error + DispatchResult) \<times> 'r bus" where
  "dispatch_task sha rd now uuid post cfg requested_id prompt b =
     (if cc_role cfg \<noteq> ''orchestrator'' \<and> cc_role cfg \<noteq> ''standalone''
      then (Inl (HttpError 400 ''Only the orchestrator can dispatch tasks''), b)
      else
        (let task_id = (if requested_id = [] then uuid else requested_id);
             target = assign_shard sha task_id (cc_shard_count cfg);
             b1 = assign_task rd now task_id target [(''prompt'', JStr (take 200 prompt))] b
         in case map_of (shard_urls rd cfg b1) (JInt target) of
              None \<Rightarrow> (Inl (HttpError 503 (''No URL known for shard '' @ int_str target)), b1)
            | Some url \<Rightarrow>
                (case post url \<lparr>td_task_id = task_id, td_prompt = prompt\<rparr> b1 of
                   (NetOk result, b2) \<Rightarrow>
                     (Inr \<lparr>dr_task_id = task_id, dr_routed_to_shard = target, dr_shard_url = url, dr_result = result\<rparr>, b2)
                 | (NetStatus code text, b2) \<Rightarrow>
                     (Inl (HttpError code (''Shard '' @ int_str target @ '' rejected task: '' @ text)), b2)
                 | (NetFailed text, b2) \<Rightarrow>
                     (Inl (HttpError 503 (''Failed to reach shard '' @ int_str target @ '' at '' @ url @ '': '' @ text)), b2))))"

text \<open>\<^verbatim>\<open>POST /proof/attest\<close> on a shard, and \<^verbatim>\<open>POST /api/cluster/proof/challenge\<close> on the orchestrator.\<close>

definition attestation_of :: "(bytes \<Rightarrow> string) \<Rightarrow> string \<Rightarrow> int option \<Rightarrow> string \<Rightarrow> string list \<Rightarrow> string" where
  "attestation_of sha node_id shard_index nonce checksums =
     sha (utf8_encode (node_id @ '':'' @ (case shard_index of None \<Rightarrow> ''None'' | Some i \<Rightarrow> int_str i) @ '':'' @ nonce @ '':''
       @ join_with ''|'' checksums))"

definition proof_attest ::
    "(bytes \<Rightarrow> string) \<Rightarrow> 'r redis \<Rightarrow> string \<Rightarrow> string \<Rightarrow> ClusterConfig \<Rightarrow> string list \<Rightarrow> string \<Rightarrow> string \<Rightarrow> 'r bus
     \<Rightarrow> (string, json) dict \<times> 'r bus" where
  "proof_attest sha rd now node_id cfg checksums challenge_id nonce b =
     (let result = [(''challenge_id'', JStr challenge_id), (''node_id'', JStr node_id),
            (''shard_index'', case cc_shard_index cfg of None \<Rightarrow> JNull | Some i \<Rightarrow> JInt i),
            (''shard_count'', JInt (int (length checksums))),
            (''attestation'', JStr (attestation_of sha node_id (cc_shard_index cfg) nonce checksums)),
            (''responded_at'', JStr now)]
      in (result, publish_proof rd now node_id result b))"

record ProofRound =
  pr_challenge_id :: string
  pr_nonce :: string
  pr_shards_challenged :: nat
  pr_shards_passed :: nat
  pr_results :: "(string, (string, json) dict) dict"

text \<open>A shard's reply: the dictionary it sent, \<^term>\<open>None\<close> with the error text.\<close>

definition challenge_all_shards ::
    "(string \<Rightarrow> string \<Rightarrow> string \<Rightarrow> string + (string, json) dict) \<Rightarrow> string \<Rightarrow> string \<Rightarrow> (int, string) dict \<Rightarrow> string \<Rightarrow> ProofRound" where
  "challenge_all_shards ask fresh_nonce challenge_id urls requested_nonce =
     (let nonce = (if requested_nonce = [] then fresh_nonce else requested_nonce);
          results = fold (\<lambda>(i, url) d. dset (''shard-'' @ int_str i)
             (case ask url challenge_id nonce of
                Inr reply \<Rightarrow> fold (\<lambda>(k, v). dset k v) reply [(''status'', JStr ''ok'')]
              | Inl e \<Rightarrow> [(''status'', JStr ''error''), (''error'', JStr e)]) d) (sort_key fst urls) []
      in \<lparr>pr_challenge_id = challenge_id, pr_nonce = nonce, pr_shards_challenged = length urls,
          pr_shards_passed = length (filter (\<lambda>r. map_of r ''status'' = Some (JStr ''ok'')) (dvalues results)),
          pr_results = results\<rparr>)"

section \<open>Lemmas\<close>

text \<open>What is documented of the Redis commands: a hash field reads as it was last written or deleted.\<close>

definition redis_laws :: "'r redis \<Rightarrow> bool" where
  "redis_laws rd \<longleftrightarrow>
     (\<forall>k f v r r' k' f'. rd_hset rd k f v r = Some r' \<longrightarrow>
        rd_hget rd k' f' r' = (if k' = k \<and> f' = f then Some (Some v) else rd_hget rd k' f' r))
   \<and> (\<forall>k f r r' k' f'. rd_hdel rd k f r = Some r' \<longrightarrow>
        rd_hget rd k' f' r' = (if k' = k \<and> f' = f then Some None else rd_hget rd k' f' r))"

text \<open>No command of this server fails.\<close>

definition redis_up :: "'r redis \<Rightarrow> bool" where
  "redis_up rd \<longleftrightarrow> (\<forall>k f v r. rd_hset rd k f v r \<noteq> None) \<and> (\<forall>k f r. rd_hdel rd k f r \<noteq> None)"

lemma hset_hget: "redis_laws rd \<Longrightarrow> rd_hset rd k f v r = Some r' \<Longrightarrow>
    rd_hget rd k' f' r' = (if k' = k \<and> f' = f then Some (Some v) else rd_hget rd k' f' r)"
  unfolding redis_laws_def by blast

lemma hdel_hget: "redis_laws rd \<Longrightarrow> rd_hdel rd k f r = Some r' \<Longrightarrow>
    rd_hget rd k' f' r' = (if k' = k \<and> f' = f then Some None else rd_hget rd k' f' r)"
  unfolding redis_laws_def by blast

lemma assign_shard_range: "0 < n \<Longrightarrow> 0 \<le> assign_shard sha t n \<and> assign_shard sha t n < n"
  by (simp add: assign_shard_def)

lemma get_task_assigned:
  assumes "redis_laws rd" "redis_up rd"
  shows "get_task rd t (assign_task rd now t i meta (Some r))
    = Some (merged [(''shard_index'', JInt i), (''assigned_at'', JStr now)] meta)"
proof -
  obtain r' where r': "rd_hset rd ''maestro:tasks'' t (merged [(''shard_index'', JInt i), (''assigned_at'', JStr now)] meta) r = Some r'"
    using assms(2) unfolding redis_up_def by blast
  then show ?thesis
    using hset_hget [OF assms(1) r', of "''maestro:tasks''" t] by (simp add: get_task_def bus_hget_def assign_task_def try_cmd_def)
qed

lemma complete_task_effect:
  assumes "redis_laws rd" "redis_up rd"
  shows "get_task rd t (complete_task rd now t result (Some r)) = None"
    "get_result rd t (complete_task rd now t result (Some r))
     = Some (JObj [(''status'', JStr ''completed''), (''completed_at'', JStr now), (''result'', result)])"
proof -
  obtain r1 where r1: "rd_hset rd ''maestro:results'' t
      (JObj [(''status'', JStr ''completed''), (''completed_at'', JStr now), (''result'', result)]) r = Some r1"
    using assms(2) unfolding redis_up_def by blast
  obtain r2 where r2: "rd_hdel rd ''maestro:tasks'' t r1 = Some r2"
    using assms(2) unfolding redis_up_def by blast
  show "get_task rd t (complete_task rd now t result (Some r)) = None"
    "get_result rd t (complete_task rd now t result (Some r))
     = Some (JObj [(''status'', JStr ''completed''), (''completed_at'', JStr now), (''result'', result)])"
    using hdel_hget [OF assms(1) r2] hset_hget [OF assms(1) r1] r1 r2
    by (simp_all add: get_task_def get_result_def bus_hget_def complete_task_def)
qed

lemma assign_task_connected: "\<exists>r'. assign_task rd now t i meta (Some r) = Some r'"
  by (simp add: assign_task_def try_cmd_def split: option.split)

lemma task_dispatch_owner:
  assumes "cc_role cfg = ''shard''" "cc_shard_index cfg = Some i"
  shows "task_dispatch sha rd now node_id cfg task b =
    (if assign_shard sha (td_task_id task) (cc_shard_count cfg) = i then apfst Inr (accept_task rd now node_id cfg task b)
     else (Inl (HttpError 409
            (''Task '' @ td_task_id task @ '' belongs to shard '' @ int_str (assign_shard sha (td_task_id task) (cc_shard_count cfg))
              @ '', not this node (shard '' @ int_str i @ '')'')), b))"
  using assms by (simp add: task_dispatch_def is_task_owned_def)

subsection \<open>Attestation rounds\<close>

lemma dset_map_values: "dset k (f v) (map (\<lambda>(k, v). (k, f v)) d) = map (\<lambda>(k, v). (k, f v)) (dset k v d)"
  by (induction d) auto

lemma fold_dset_map_values:
  "map (\<lambda>(k, v). (k, f v)) (fold (\<lambda>x d. dset (key x) (g x) d) xs d)
   = fold (\<lambda>x d. dset (key x) (f (g x)) d) xs (map (\<lambda>(k, v). (k, f v)) d)"
  by (induction xs arbitrary: d) (simp_all add: dset_map_values)

lemma map_of_fold_dset_other: "k \<notin> set (dkeys ds) \<Longrightarrow> map_of (fold (\<lambda>(k, v). dset k v) ds d) k = map_of d k"
  by (induction ds arbitrary: d) auto

section \<open>Properties\<close>

text \<open>
  Library fact: Every task belongs to exactly one shard of the cluster, and a shard node with another index refuses
  it with 409 and leaves the bus as it was.
\<close>

theorem task_has_one_owner:
  assumes "0 < n"
  shows "(\<exists>!i. 0 \<le> i \<and> i < n \<and> is_task_owned sha t i n)
    \<and> (cc_role cfg \<noteq> ''shard'' \<or> cc_shard_count cfg \<noteq> n \<or> cc_shard_index cfg = None
       \<or> cc_shard_index cfg = Some (assign_shard sha t n)
       \<or> (\<exists>text. task_dispatch sha rd now node_id cfg \<lparr>td_task_id = t, td_prompt = p\<rparr> b = (Inl (HttpError 409 text), b)))"
proof -
  have "\<exists>!i. 0 \<le> i \<and> i < n \<and> is_task_owned sha t i n"
    using assign_shard_range [OF assms, of sha t] by (auto simp: is_task_owned_def)
  moreover have "\<exists>text. task_dispatch sha rd now node_id cfg \<lparr>td_task_id = t, td_prompt = p\<rparr> b = (Inl (HttpError 409 text), b)"
    if "cc_role cfg = ''shard''" "cc_shard_count cfg = n" "cc_shard_index cfg = Some i" "i \<noteq> assign_shard sha t n" for i
    using that task_dispatch_owner [OF that(1,3), of sha rd now node_id "\<lparr>td_task_id = t, td_prompt = p\<rparr>" b] by simp
  ultimately show ?thesis by (cases "cc_shard_index cfg") auto
qed

text \<open>
  C31: A dispatched task reaches its owner: when the URL of the target shard leads to a shard node with that
  index and the same number of shards, and Redis answers, the dispatch succeeds, the task is routed to a
  shard in range, and afterwards the bus holds its result and no longer its assignment.
\<close>

theorem dispatch_reaches_owner:
  assumes rd: "redis_laws rd" "redis_up rd"
    and cfg: "cc_role cfg = ''orchestrator''" "0 < cc_shard_count cfg" "t \<noteq> []"
    and owner: "cc_role ocfg = ''shard''" "cc_shard_index ocfg = Some (assign_shard sha t (cc_shard_count cfg))"
      "cc_shard_count ocfg = cc_shard_count cfg"
    and url: "map_of (shard_urls rd cfg (assign_task rd now t (assign_shard sha t (cc_shard_count cfg))
        [(''prompt'', JStr (take 200 prompt))] (Some r))) (JInt (assign_shard sha t (cc_shard_count cfg))) = Some u"
    and post: "post u = (\<lambda>task b. case task_dispatch sha rd later node_id ocfg task b of
        (Inr j, b') \<Rightarrow> (NetOk j, b') | (Inl (HttpError c text), b') \<Rightarrow> (NetStatus c text, b'))"
  shows "\<exists>d b'. dispatch_task sha rd now uuid post cfg t prompt (Some r) = (Inr d, b')
    \<and> dr_task_id d = t \<and> 0 \<le> dr_routed_to_shard d \<and> dr_routed_to_shard d < cc_shard_count cfg
    \<and> get_task rd t b' = None
    \<and> get_result rd t b' = Some (JObj [(''status'', JStr ''completed''), (''completed_at'', JStr later), (''result'', dr_result d)])"
proof -
  let ?i = "assign_shard sha t (cc_shard_count cfg)"
  let ?task = "\<lparr>td_task_id = t, td_prompt = prompt\<rparr>"
  obtain r1 where r1: "assign_task rd now t ?i [(''prompt'', JStr (take 200 prompt))] (Some r) = Some r1"
    using assign_task_connected [of rd now t ?i _ r] by auto
  obtain result where a: "accept_task rd later node_id ocfg ?task (Some r1)
      = (result, complete_task rd later t result (Some r1))"
    by (simp add: accept_task_def Let_def)
  have "post u ?task (Some r1) = (NetOk result, complete_task rd later t result (Some r1))"
    using task_dispatch_owner [OF owner(1,2), of sha rd later node_id ?task "Some r1"] owner(3) a
    by (simp add: post)
  then show ?thesis
    using cfg url r1 complete_task_effect [OF rd, of t later result r1] assign_shard_range [OF cfg(2), of sha t]
    by (auto simp: dispatch_task_def Let_def)
qed

text \<open>
  Library fact: A dispatch that finds no URL for its shard fails with 503 after the assignment was recorded, and the
  bus keeps announcing a task that no shard was given.
\<close>

theorem failed_dispatch_stays_assigned:
  assumes "redis_laws rd" "redis_up rd" "cc_role cfg = ''orchestrator''" "t \<noteq> []"
    and "map_of (shard_urls rd cfg (assign_task rd now t (assign_shard sha t (cc_shard_count cfg))
        [(''prompt'', JStr (take 200 prompt))] (Some r))) (JInt (assign_shard sha t (cc_shard_count cfg))) = None"
  shows "\<exists>text. fst (dispatch_task sha rd now uuid post cfg t prompt (Some r)) = Inl (HttpError 503 text)
    \<and> get_task rd t (snd (dispatch_task sha rd now uuid post cfg t prompt (Some r)))
      = Some (merged [(''shard_index'', JInt (assign_shard sha t (cc_shard_count cfg))), (''assigned_at'', JStr now)]
          [(''prompt'', JStr (take 200 prompt))])"
  using assms(3-5) get_task_assigned [OF assms(1,2)] by (simp add: dispatch_task_def Let_def)

text \<open>
  Library fact: The attestations are never checked: two rounds in which the same shards can be reached report the
  same number of passed shards, whatever the shards reply.
\<close>

theorem attestation_content_ignored:
  assumes "\<And>url. isl (ask url c n) = isl (ask' url c n)"
    "\<And>url reply. ask url c n = Inr reply \<Longrightarrow> ''status'' \<notin> set (dkeys reply)"
    "\<And>url reply. ask' url c n = Inr reply \<Longrightarrow> ''status'' \<notin> set (dkeys reply)" "n \<noteq> []"
  shows "pr_shards_passed (challenge_all_shards ask fresh c urls n) = pr_shards_passed (challenge_all_shards ask' fresh c urls n)"
proof -
  define ans where "ans a url = (case a url c n of
       Inr reply \<Rightarrow> fold (\<lambda>(k, v). dset k v) reply [(''status'', JStr ''ok'')]
     | Inl e \<Rightarrow> [(''status'', JStr ''error''), (''error'', JStr e)])" for a :: "string \<Rightarrow> string \<Rightarrow> string \<Rightarrow> string + (string, json) dict" and url
  define st where "st r = map_of r ''status''" for r :: "(string, json) dict"
  have same: "st (ans ask url) = st (ans ask' url)" for url
    using assms(1) [of url] assms(2,3) [of url]
    by (cases "ask url c n"; cases "ask' url c n") (auto simp: ans_def st_def map_of_fold_dset_other)
  have p: "pr_shards_passed (challenge_all_shards a fresh c urls n)
      = length (filter (\<lambda>s. s = Some (JStr ''ok'')) (map snd (fold (\<lambda>x d. dset (''shard-'' @ int_str (fst x)) (st (ans a (snd x))) d) (sort_key fst urls) [])))" for a
  proof -
    let ?res = "fold (\<lambda>x d. dset (''shard-'' @ int_str (fst x)) (ans a (snd x)) d) (sort_key fst urls) []"
    have e: "pr_results (challenge_all_shards a fresh c urls n) = ?res"
      "pr_shards_passed (challenge_all_shards a fresh c urls n) = length (filter (\<lambda>r. st r = Some (JStr ''ok'')) (dvalues ?res))"
      using assms(4) by (simp_all add: challenge_all_shards_def Let_def ans_def st_def case_prod_unfold)
    have v: "map (\<lambda>(k, v). (k, st v)) ?res
        = fold (\<lambda>x d. dset (''shard-'' @ int_str (fst x)) (st (ans a (snd x))) d) (sort_key fst urls) []"
      unfolding fold_dset_map_values by (simp only: list.map)
    show ?thesis unfolding e(2) v [symmetric] by (simp add: filter_map comp_def case_prod_unfold)
  qed
  show ?thesis unfolding p same ..
qed

section \<open>Sample instances\<close>

definition sample_redis :: "(string \<times> string, json) dict redis" where
  "sample_redis = \<lparr>rd_hset = (\<lambda>k f v r. Some (dset (k, f) v r)), rd_hdel = (\<lambda>k f r. Some (ddel (k, f) r)),
     rd_hget = (\<lambda>k f r. Some (map_of r (k, f))),
     rd_hgetall = (\<lambda>k r. Some (map (\<lambda>((_, f), v). (f, v)) (filter (\<lambda>((k', _), _). k' = k) r))),
     rd_rpush = (\<lambda>_ _ r. Some r), rd_lpop = (\<lambda>_ r. Some (None, r)), rd_expire = (\<lambda>_ _ r. Some r)\<rparr>"

lemma sample_redis_ok: "redis_laws sample_redis" "redis_up sample_redis"
  by (auto simp: redis_laws_def redis_up_def sample_redis_def)

definition sample_cluster :: "string \<Rightarrow> int option \<Rightarrow> ClusterConfig" where
  "sample_cluster role idx = \<lparr>cc_role = role, cc_node_id = ''n'', cc_shard_index = idx, cc_shard_count = 3,
     cc_orchestrator_url = [], cc_redis_url = ''redis''\<rparr>"

lemma sample_shard: "assign_shard (\<lambda>_. ''5'') t 3 = 2"
  by (simp add: assign_shard_def hex_value_def)

lemma task_has_one_owner_witness:
  "\<exists>!i. 0 \<le> i \<and> i < 3 \<and> is_task_owned (\<lambda>_. ''5'') ''t'' i 3"
  by (rule task_has_one_owner [THEN conjunct1]) simp

lemma sample_urls:
  "shard_urls sample_redis (sample_cluster role idx)
     (assign_task sample_redis now t i meta (Some []))
   = [(JInt 0, ''http://shard-1:8000''), (JInt 1, ''http://shard-2:8000''), (JInt 2, ''http://shard-3:8000'')]"
proof -
  have u: "[0..2 :: int] = [0, 1, 2]" by (simp add: upto.simps)
  have "int_str 1 = ''1''" "int_str 2 = ''2''" "int_str 3 = ''3''" by code_simp+
  then show ?thesis
    by (simp add: shard_urls_def list_shards_def bus_hgetall_def assign_task_def try_cmd_def sample_redis_def sample_cluster_def u)
qed

lemma dispatch_reaches_owner_witness:
  "\<exists>d b'. dispatch_task (\<lambda>_. ''5'') sample_redis ''now'' ''u''
      (\<lambda>_ task b. case task_dispatch (\<lambda>_. ''5'') sample_redis ''later'' ''n'' (sample_cluster ''shard'' (Some 2)) task b of
         (Inr j, b') \<Rightarrow> (NetOk j, b') | (Inl (HttpError c text), b') \<Rightarrow> (NetStatus c text, b'))
      (sample_cluster ''orchestrator'' None) ''t'' ''p'' (Some []) = (Inr d, b') \<and> get_task sample_redis ''t'' b' = None"
proof -
  have c: "cc_role (sample_cluster ''orchestrator'' None) = ''orchestrator''" "0 < cc_shard_count (sample_cluster ''orchestrator'' None)"
    "''t'' \<noteq> []" "cc_role (sample_cluster ''shard'' (Some 2)) = ''shard''"
    "cc_shard_index (sample_cluster ''shard'' (Some 2)) = Some (assign_shard (\<lambda>_. ''5'') ''t'' (cc_shard_count (sample_cluster ''orchestrator'' None)))"
    "cc_shard_count (sample_cluster ''shard'' (Some 2)) = cc_shard_count (sample_cluster ''orchestrator'' None)"
    "map_of (shard_urls sample_redis (sample_cluster ''orchestrator'' None) (assign_task sample_redis ''now'' ''t''
        (assign_shard (\<lambda>_. ''5'') ''t'' (cc_shard_count (sample_cluster ''orchestrator'' None)))
        [(''prompt'', JStr (take 200 ''p''))] (Some []))) (JInt (assign_shard (\<lambda>_. ''5'') ''t'' (cc_shard_count (sample_cluster ''orchestrator'' None))))
     = Some ''http://shard-3:8000''"
    unfolding sample_urls by (simp_all add: sample_cluster_def sample_shard)
  define post where "post = (\<lambda>(u :: string) task b.
      case task_dispatch (\<lambda>_. ''5'') sample_redis ''later'' ''n'' (sample_cluster ''shard'' (Some 2)) task b of
         (Inr j, b') \<Rightarrow> (NetOk j, b') | (Inl (HttpError c text), b') \<Rightarrow> (NetStatus c text, b'))"
  have "post u = (\<lambda>task b.
      case task_dispatch (\<lambda>_. ''5'') sample_redis ''later'' ''n'' (sample_cluster ''shard'' (Some 2)) task b of
         (Inr j, b') \<Rightarrow> (NetOk j, b') | (Inl (HttpError c text), b') \<Rightarrow> (NetStatus c text, b'))" for u
    by (simp add: post_def)
  from dispatch_reaches_owner [OF sample_redis_ok c this, of "''u''"] show ?thesis unfolding post_def by blast
qed

lemma failed_dispatch_stays_assigned_witness:
  "get_task sample_redis ''t'' (snd (dispatch_task (\<lambda>_. ''5'') sample_redis ''now'' ''u'' (\<lambda>_ _ b. (NetFailed [], b))
      (sample_cluster ''orchestrator'' None) ''t'' ''p''
      (Some [((''maestro:shards'', ''n''), JObj [(''shard_index'', JInt 0)])]))) \<noteq> None"
proof -
  have u: "map_of (shard_urls sample_redis (sample_cluster ''orchestrator'' None) (assign_task sample_redis ''now'' ''t''
        (assign_shard (\<lambda>_. ''5'') ''t'' (cc_shard_count (sample_cluster ''orchestrator'' None)))
        [(''prompt'', JStr (take 200 ''p''))] (Some [((''maestro:shards'', ''n''), JObj [(''shard_index'', JInt 0)])])))
      (JInt (assign_shard (\<lambda>_. ''5'') ''t'' (cc_shard_count (sample_cluster ''orchestrator'' None)))) = None"
    by (simp add: sample_cluster_def sample_shard)
      (simp add: shard_urls_def list_shards_def bus_hgetall_def assign_task_def try_cmd_def sample_redis_def)
  have "cc_role (sample_cluster ''orchestrator'' None) = ''orchestrator''" by (simp add: sample_cluster_def)
  from failed_dispatch_stays_assigned [OF sample_redis_ok this _ u] show ?thesis by auto
qed

lemma attestation_content_ignored_witness:
  "pr_shards_passed (challenge_all_shards (\<lambda>_ _ _. Inr [(''attestation'', JStr ''right'')]) [] ''c'' [(0, ''a''), (1, ''b'')] ''n'')
   = pr_shards_passed (challenge_all_shards (\<lambda>_ _ _. Inr [(''attestation'', JStr ''wrong'')]) [] ''c'' [(0, ''a''), (1, ''b'')] ''n'')"
  by (rule attestation_content_ignored) auto

end
