(* ===== verification/Storage_Proof.thy ===== *)
theory Storage_Proof
  imports Py_Codec
begin

text \<open>
  \<^verbatim>\<open>maestro/storage_proof.py\<close>: the challenges issued to storage nodes, the validation of their
  responses and the reputation derived from them.  An instant is a number of seconds; a response whose
  time does not parse as a UTC time is \<^term>\<open>None\<close>.  Fresh ids, random offsets, the clock and SHA-256 are
  parameters.
\<close>

section \<open>Data\<close>

record ShardDescriptor =
  sd_shard_id :: string
  sd_model_id :: string
  sd_model_hash :: string
  sd_layer_range :: "int \<times> int"
  sd_shard_format :: string
  sd_precision :: string
  sd_size_bytes :: nat
  sd_tensor_names :: "string list"
  sd_checksum :: string

record StorageChallenge =
  ch_challenge_id :: string
  ch_node_id :: string
  ch_shard_id :: string
  ch_challenge_type :: string
  ch_issued_at :: real
  ch_expires_at :: real
  ch_byte_offset :: "nat option"
  ch_byte_length :: "nat option"
  ch_expected_hash :: "string option"
  ch_canary_input :: "string option"
  ch_expected_output_hash :: "string option"
  ch_max_latency_ms :: "real option"

datatype failure_reason =
  UnknownChallenge | RespondedLate | HashMismatch | LatencyExceeded | MissingLatency | CanaryMismatch | FileReadError

record ChallengeResponse =
  rs_challenge_id :: string
  rs_node_id :: string
  rs_responded_at :: "real option"
  rs_response_hash :: "string option"
  rs_inference_output_hash :: "string option"
  rs_latency_ms :: "real option"
  rs_passed :: bool
  rs_failure_reason :: "failure_reason option"

record NodeReputation =
  nr_node_id :: string
  nr_challenges_issued :: nat
  nr_challenges_passed :: nat
  nr_challenges_failed :: nat
  nr_challenge_pass_rate :: real
  nr_mean_latency_ms :: real
  nr_r2_contribution_scores :: "real list"
  nr_reputation_score :: real
  nr_last_challenge :: "real option"
  nr_last_failure :: "real option"
  nr_status :: string

definition new_reputation :: "string \<Rightarrow> NodeReputation" where
  "new_reputation node_id =
     \<lparr>nr_node_id = node_id, nr_challenges_issued = 0, nr_challenges_passed = 0, nr_challenges_failed = 0,
      nr_challenge_pass_rate = 1, nr_mean_latency_ms = 0, nr_r2_contribution_scores = [], nr_reputation_score = 1,
      nr_last_challenge = None, nr_last_failure = None, nr_status = ''trusted''\<rparr>"

text \<open>The engine with its \<^verbatim>\<open>reputations.json\<close>: absent, unreadable or the reputations saved.\<close>

datatype reputation_file = NoReputations | BadReputations | Reputations "(string, NodeReputation) dict"

record proof_engine =
  pe_reputations :: "(string, NodeReputation) dict"
  pe_pending :: "(string, StorageChallenge) dict"
  pe_file :: reputation_file

definition PROBATION_THRESHOLD :: real where
  "PROBATION_THRESHOLD = 7 / 10"

definition EVICTION_THRESHOLD :: real where
  "EVICTION_THRESHOLD = 3 / 10"

definition DEFAULT_CHALLENGE_WINDOW_SECONDS :: real where
  "DEFAULT_CHALLENGE_WINDOW_SECONDS = 60"

definition DEFAULT_MAX_LATENCY_MS :: real where
  "DEFAULT_MAX_LATENCY_MS = 5000"

definition load_reputations :: "reputation_file \<Rightarrow> (string, NodeReputation) dict" where
  "load_reputations file = (case file of Reputations d \<Rightarrow> d | _ \<Rightarrow> [])"

definition open_engine :: "reputation_file \<Rightarrow> proof_engine" where
  "open_engine file = \<lparr>pe_reputations = load_reputations file, pe_pending = [], pe_file = file\<rparr>"

definition save_reputations :: "proof_engine \<Rightarrow> proof_engine" where
  "save_reputations e = e\<lparr>pe_file := Reputations (pe_reputations e)\<rparr>"

section \<open>Reputation\<close>

definition get_reputation :: "proof_engine \<Rightarrow> string \<Rightarrow> NodeReputation" where
  "get_reputation e node_id = dget (pe_reputations e) node_id (new_reputation node_id)"

definition set_reputation :: "string \<Rightarrow> NodeReputation \<Rightarrow> proof_engine \<Rightarrow> proof_engine" where
  "set_reputation node_id rep e = e\<lparr>pe_reputations := dset node_id rep (pe_reputations e)\<rparr>"

definition update_pass_rate :: "NodeReputation \<Rightarrow> NodeReputation" where
  "update_pass_rate rep =
     (let total_count = nr_challenges_passed rep + nr_challenges_failed rep
      in rep\<lparr>nr_challenge_pass_rate :=
           (if total_count > 0 then real (nr_challenges_passed rep) / real total_count else 1)\<rparr>)"

definition keep_last :: "nat \<Rightarrow> 'a list \<Rightarrow> 'a list" where
  "keep_last n xs = drop (length xs - n) xs"

definition r2_mean_of :: "real list \<Rightarrow> real" where
  "r2_mean_of scores = (if scores = [] then 1 / 2 else mean_of (keep_last 20 scores))"

definition update_reputation_score :: "NodeReputation \<Rightarrow> NodeReputation" where
  "update_reputation_score rep =
     (let score = round4 (7 / 10 * nr_challenge_pass_rate rep + 3 / 10 * r2_mean_of (nr_r2_contribution_scores rep))
      in rep\<lparr>nr_reputation_score := score,
             nr_status := (if score < EVICTION_THRESHOLD then ''evicted''
                           else if score < PROBATION_THRESHOLD then ''probation''
                           else if nr_status rep = ''probation'' \<or> nr_status rep = ''untrusted'' then ''trusted''
                           else nr_status rep)\<rparr>)"

definition record_success :: "string \<Rightarrow> real option \<Rightarrow> proof_engine \<Rightarrow> proof_engine" where
  "record_success node_id latency_ms e =
     (let rep = get_reputation e node_id;
          rep1 = update_pass_rate (rep\<lparr>nr_challenges_passed := nr_challenges_passed rep + 1\<rparr>);
          rep2 = (case latency_ms of
                    None \<Rightarrow> rep1
                  | Some l \<Rightarrow>
                      (let n = real (nr_challenges_passed rep1)
                       in rep1\<lparr>nr_mean_latency_ms := (nr_mean_latency_ms rep1 * (n - 1) + l) / n\<rparr>))
      in save_reputations (set_reputation node_id (update_reputation_score rep2) e))"

definition record_failure :: "real \<Rightarrow> string \<Rightarrow> proof_engine \<Rightarrow> proof_engine" where
  "record_failure now node_id e =
     (let rep = get_reputation e node_id;
          rep1 = rep\<lparr>nr_challenges_failed := nr_challenges_failed rep + 1, nr_last_failure := Some now\<rparr>
      in save_reputations (set_reputation node_id (update_reputation_score (update_pass_rate rep1)) e))"

definition add_r2_contribution :: "string \<Rightarrow> real \<Rightarrow> proof_engine \<Rightarrow> proof_engine" where
  "add_r2_contribution node_id score e =
     (let rep = get_reputation e node_id;
          rep1 = rep\<lparr>nr_r2_contribution_scores := keep_last 100 (nr_r2_contribution_scores rep @ [score])\<rparr>
      in save_reputations (set_reputation node_id (update_reputation_score rep1) e))"

definition evict_if_necessary :: "string \<Rightarrow> proof_engine \<Rightarrow> bool \<times> proof_engine" where
  "evict_if_necessary node_id e =
     (let rep = get_reputation e node_id
      in if nr_reputation_score rep < EVICTION_THRESHOLD
         then (True, save_reputations (set_reputation node_id (rep\<lparr>nr_status := ''evicted''\<rparr>) e))
         else (False, e))"

definition list_reputations :: "proof_engine \<Rightarrow> NodeReputation list" where
  "list_reputations e = dvalues (pe_reputations e)"

section \<open>Challenges\<close>

definition issue_challenge ::
    "(bytes \<Rightarrow> string) \<Rightarrow> string \<Rightarrow> nat \<Rightarrow> real \<Rightarrow> string \<Rightarrow> string \<Rightarrow> string \<Rightarrow> proof_engine
     \<Rightarrow> StorageChallenge \<times> proof_engine" where
  "issue_challenge sha uuid random32 now node_id shard_id challenge_type e =
     (let base = \<lparr>ch_challenge_id = uuid, ch_node_id = node_id, ch_shard_id = shard_id, ch_challenge_type = challenge_type,
            ch_issued_at = now, ch_expires_at = now + DEFAULT_CHALLENGE_WINDOW_SECONDS, ch_byte_offset = None,
            ch_byte_length = None, ch_expected_hash = None, ch_canary_input = None, ch_expected_output_hash = None,
            ch_max_latency_ms = None\<rparr>;
          offset = random32 mod (1024 * 1024);
          challenge =
            (if challenge_type = ''byte_range_hash'' then
               base\<lparr>ch_byte_offset := Some offset, ch_byte_length := Some 4096,
                    ch_expected_hash := Some (sha (utf8_encode (shard_id @ '':'' @ nat_str offset @ '':'' @ nat_str 4096)))\<rparr>
             else if challenge_type = ''latency_probe'' then base\<lparr>ch_max_latency_ms := Some DEFAULT_MAX_LATENCY_MS\<rparr>
             else if challenge_type = ''canary_inference'' then
               base\<lparr>ch_canary_input := Some shard_id, ch_expected_output_hash := Some (sha (utf8_encode (''canary:'' @ shard_id)))\<rparr>
             else base);
          rep = get_reputation e node_id
      in (challenge,
          set_reputation node_id
            (rep\<lparr>nr_challenges_issued := nr_challenges_issued rep + 1, nr_last_challenge := Some now\<rparr>)
            (e\<lparr>pe_pending := dset uuid challenge (pe_pending e)\<rparr>)))"

text \<open>The verdict of the challenge's own type: whether it passed, and the reason set otherwise.\<close>

definition check_response :: "StorageChallenge \<Rightarrow> ChallengeResponse \<Rightarrow> bool \<times> failure_reason option" where
  "check_response c r =
     (if ch_challenge_type c = ''byte_range_hash'' then
        (let passed = (rs_response_hash r = ch_expected_hash c)
         in (passed, if passed then rs_failure_reason r else Some HashMismatch))
      else if ch_challenge_type c = ''latency_probe'' then
        (case (rs_latency_ms r, ch_max_latency_ms c) of
           (Some l, Some m) \<Rightarrow> (l \<le> m, if l \<le> m then rs_failure_reason r else Some LatencyExceeded)
         | _ \<Rightarrow> (False, Some MissingLatency))
      else if ch_challenge_type c = ''canary_inference'' then
        (let passed = (rs_inference_output_hash r = ch_expected_output_hash c)
         in (passed, if passed then rs_failure_reason r else Some CanaryMismatch))
      else (False, rs_failure_reason r))"

datatype response_error = BadTimestamp

definition validate_response ::
    "real \<Rightarrow> ChallengeResponse \<Rightarrow> proof_engine \<Rightarrow> (response_error + bool) \<times> ChallengeResponse \<times> proof_engine" where
  "validate_response now r e =
     (case map_of (pe_pending e) (rs_challenge_id r) of
        None \<Rightarrow> (Inr False, r\<lparr>rs_passed := False, rs_failure_reason := Some UnknownChallenge\<rparr>, e)
      | Some c \<Rightarrow>
          (let e1 = e\<lparr>pe_pending := ddel (rs_challenge_id r) (pe_pending e)\<rparr>
           in case rs_responded_at r of
                None \<Rightarrow> (Inl BadTimestamp, r, e1)
              | Some responded \<Rightarrow>
                  (if responded > ch_expires_at c then
                     (Inr False, r\<lparr>rs_passed := False, rs_failure_reason := Some RespondedLate\<rparr>,
                      record_failure now (rs_node_id r) e1)
                   else
                     (let (passed, reason) = check_response c r;
                          r1 = r\<lparr>rs_passed := passed, rs_failure_reason := reason\<rparr>
                      in if passed then (Inr True, r1, record_success (rs_node_id r) (rs_latency_ms r) e1)
                         else (Inr False, r1, record_failure now (rs_node_id r) e1)))))"

text \<open>
  One cycle over the registered nodes: each with the ids of its shards, where a shard without an id has
  \<^term>\<open>None\<close>.  \<open>entropy i\<close> is the fresh id and the random number of the \<open>i\<close>-th challenge.
\<close>

record CycleSummary =
  cs_challenges_issued :: nat
  cs_nodes_challenged :: "string list"

definition challenge_of_node :: "string option list \<Rightarrow> string \<times> string" where
  "challenge_of_node shards =
     (case shards of [] \<Rightarrow> (''none'', ''latency_probe'')
      | s # _ \<Rightarrow> ((case s of None \<Rightarrow> ''unknown'' | Some i \<Rightarrow> i), ''byte_range_hash''))"

fun challenge_nodes ::
    "(bytes \<Rightarrow> string) \<Rightarrow> (nat \<Rightarrow> string \<times> nat) \<Rightarrow> real \<Rightarrow> nat \<Rightarrow> (string \<times> string option list) list
     \<Rightarrow> CycleSummary \<times> proof_engine \<Rightarrow> CycleSummary \<times> proof_engine" where
  "challenge_nodes sha entropy now i [] (s, e) = (s, e)"
| "challenge_nodes sha entropy now i ((node_id, shards) # nodes) (s, e) =
     (let (shard_id, kind) = challenge_of_node shards;
          (c, e') = issue_challenge sha (fst (entropy i)) (snd (entropy i)) now node_id shard_id kind e
      in challenge_nodes sha entropy now (Suc i) nodes
           (s\<lparr>cs_challenges_issued := cs_challenges_issued s + 1, cs_nodes_challenged := cs_nodes_challenged s @ [node_id]\<rparr>, e'))"

definition run_challenge_cycle ::
    "(bytes \<Rightarrow> string) \<Rightarrow> (nat \<Rightarrow> string \<times> nat) \<Rightarrow> real \<Rightarrow> (string \<times> string option list) list \<Rightarrow> proof_engine
     \<Rightarrow> CycleSummary \<times> proof_engine" where
  "run_challenge_cycle sha entropy now nodes e =
     challenge_nodes sha entropy now 0 nodes (\<lparr>cs_challenges_issued = 0, cs_nodes_challenged = []\<rparr>, e)"

section \<open>Lemmas\<close>

lemma get_set_reputation [simp]:
  "get_reputation (set_reputation i rep e) j = (if j = i then rep else get_reputation e j)"
  by (simp add: get_reputation_def set_reputation_def)

lemma get_saved [simp]: "get_reputation (save_reputations e) j = get_reputation e j"
  by (simp add: get_reputation_def save_reputations_def)

lemma get_pending_change [simp]: "get_reputation (e\<lparr>pe_pending := p\<rparr>) j = get_reputation e j"
  by (simp add: get_reputation_def)

lemma pending_kept [simp]:
  "pe_pending (record_success n l e) = pe_pending e" "pe_pending (record_failure now n e) = pe_pending e"
  "pe_pending (add_r2_contribution n s e) = pe_pending e"
  by (simp_all add: record_success_def record_failure_def add_r2_contribution_def Let_def save_reputations_def set_reputation_def)

lemma set_keep_last: "set (keep_last n xs) \<subseteq> set xs"
  by (simp add: keep_last_def set_drop_subset)

lemma length_keep_last: "length (keep_last n xs) \<le> n"
  by (simp add: keep_last_def)

text \<open>What holds of every reputation the engine keeps.\<close>

definition reputation_ok :: "NodeReputation \<Rightarrow> bool" where
  "reputation_ok rep \<longleftrightarrow>
     0 \<le> nr_challenge_pass_rate rep \<and> nr_challenge_pass_rate rep \<le> 1
   \<and> 0 \<le> nr_reputation_score rep \<and> nr_reputation_score rep \<le> 1
   \<and> length (nr_r2_contribution_scores rep) \<le> 100 \<and> list_all (\<lambda>s. 0 \<le> s \<and> s \<le> 1) (nr_r2_contribution_scores rep)
   \<and> (nr_reputation_score rep < EVICTION_THRESHOLD \<longrightarrow> nr_status rep = ''evicted'')
   \<and> (EVICTION_THRESHOLD \<le> nr_reputation_score rep \<and> nr_reputation_score rep < PROBATION_THRESHOLD \<longrightarrow> nr_status rep = ''probation'')
   \<and> (PROBATION_THRESHOLD \<le> nr_reputation_score rep \<longrightarrow> nr_status rep = ''trusted'' \<or> nr_status rep = ''evicted'')"

lemma reputation_ok_new: "reputation_ok (new_reputation i)"
  by (simp add: reputation_ok_def new_reputation_def EVICTION_THRESHOLD_def PROBATION_THRESHOLD_def)

lemma pass_rate_unit: "0 \<le> nr_challenge_pass_rate (update_pass_rate rep) \<and> nr_challenge_pass_rate (update_pass_rate rep) \<le> 1"
  by (simp add: update_pass_rate_def Let_def)

lemma r2_mean_unit: "list_all (\<lambda>s. 0 \<le> s \<and> s \<le> 1) xs \<Longrightarrow> 0 \<le> r2_mean_of xs \<and> r2_mean_of xs \<le> 1"
  using mean_of_unit [of "keep_last 20 xs"] set_keep_last [of 20 xs]
  by (auto simp: r2_mean_of_def list_all_iff subset_iff)

text \<open>A status an engine can hold before a score is computed.\<close>

lemma update_score_ok:
  assumes "0 \<le> nr_challenge_pass_rate rep" "nr_challenge_pass_rate rep \<le> 1" "length (nr_r2_contribution_scores rep) \<le> 100"
    "list_all (\<lambda>s. 0 \<le> s \<and> s \<le> 1) (nr_r2_contribution_scores rep)"
    "nr_status rep = ''trusted'' \<or> nr_status rep = ''probation'' \<or> nr_status rep = ''evicted''"
  shows "reputation_ok (update_reputation_score rep)"
proof -
  let ?x = "7 / 10 * nr_challenge_pass_rate rep + 3 / 10 * r2_mean_of (nr_r2_contribution_scores rep)"
  have "0 \<le> ?x" "?x \<le> 1" using assms(1,2) r2_mean_unit [OF assms(4)] by linarith+
  then have "0 \<le> round4 ?x" "round4 ?x \<le> 1" by (simp_all add: round4_nonneg round4_le_one)
  then show ?thesis using assms by (auto simp: reputation_ok_def update_reputation_score_def Let_def)
qed

lemma reputation_ok_status:
  "reputation_ok rep \<Longrightarrow> nr_status rep = ''trusted'' \<or> nr_status rep = ''probation'' \<or> nr_status rep = ''evicted''"
  unfolding reputation_ok_def by linarith

lemma reputation_ok_parts:
  assumes "reputation_ok rep"
  shows "length (nr_r2_contribution_scores rep) \<le> 100" "list_all (\<lambda>s. 0 \<le> s \<and> s \<le> 1) (nr_r2_contribution_scores rep)"
    "0 \<le> nr_challenge_pass_rate rep" "nr_challenge_pass_rate rep \<le> 1"
  using assms unfolding reputation_ok_def by blast+

lemma update_pass_rate_fields [simp]:
  "nr_r2_contribution_scores (update_pass_rate rep) = nr_r2_contribution_scores rep"
  "nr_status (update_pass_rate rep) = nr_status rep"
  by (simp_all add: update_pass_rate_def Let_def)

lemma reputation_ok_counted:
  assumes "reputation_ok rep"
  shows "reputation_ok (update_reputation_score (update_pass_rate (rep\<lparr>nr_challenges_passed := p\<rparr>)))"
    "reputation_ok (update_reputation_score (update_pass_rate (rep\<lparr>nr_challenges_passed := p\<rparr>)\<lparr>nr_mean_latency_ms := l\<rparr>))"
    "reputation_ok (update_reputation_score (update_pass_rate (rep\<lparr>nr_challenges_failed := f, nr_last_failure := t\<rparr>)))"
  by (rule update_score_ok; use reputation_ok_status [OF assms] pass_rate_unit reputation_ok_parts [OF assms] in simp)+

definition engine_ok :: "proof_engine \<Rightarrow> bool" where
  "engine_ok e \<longleftrightarrow> (\<forall>i. reputation_ok (get_reputation e i))"

lemma engine_ok_set: "engine_ok e \<Longrightarrow> reputation_ok rep \<Longrightarrow> engine_ok (set_reputation i rep e)"
  by (simp add: engine_ok_def)

lemma engine_ok_save [simp]: "engine_ok (save_reputations e) = engine_ok e"
  by (simp add: engine_ok_def)

lemma engine_ok_pending [simp]: "engine_ok (e\<lparr>pe_pending := p\<rparr>) = engine_ok e"
  by (simp add: engine_ok_def)

lemma record_success_ok: "engine_ok e \<Longrightarrow> engine_ok (record_success n l e)"
  unfolding record_success_def Let_def
  by (auto intro!: engine_ok_set reputation_ok_counted simp: engine_ok_def split: option.split)

lemma record_failure_ok: "engine_ok e \<Longrightarrow> engine_ok (record_failure now n e)"
  unfolding record_failure_def Let_def
  by (auto intro!: engine_ok_set reputation_ok_counted simp: engine_ok_def)

lemma contribution_ok:
  assumes "engine_ok e" "0 \<le> s" "s \<le> 1"
  shows "engine_ok (add_r2_contribution n s e)"
proof -
  have ok: "reputation_ok (get_reputation e n)" using assms(1) by (simp add: engine_ok_def)
  note p = reputation_ok_parts [OF ok]
  let ?xs = "keep_last 100 (nr_r2_contribution_scores (get_reputation e n) @ [s])"
  have l: "list_all (\<lambda>s. 0 \<le> s \<and> s \<le> 1) ?xs"
    using p(2) assms(2,3) set_keep_last [of 100 "nr_r2_contribution_scores (get_reputation e n) @ [s]"]
    by (auto simp: list_all_iff)
  have "reputation_ok (update_reputation_score (get_reputation e n\<lparr>nr_r2_contribution_scores := ?xs\<rparr>))"
    by (rule update_score_ok; use reputation_ok_status [OF ok] p l length_keep_last in simp)
  then show ?thesis using assms(1) unfolding add_r2_contribution_def Let_def by (simp add: engine_ok_set)
qed

lemma issue_ok: "engine_ok e \<Longrightarrow> engine_ok (snd (issue_challenge sha u rnd now n sh k e))"
  by (auto simp: issue_challenge_def Let_def engine_ok_def reputation_ok_def)

lemma validate_ok: "engine_ok e \<Longrightarrow> engine_ok (snd (snd (validate_response now r e)))"
  unfolding validate_response_def Let_def
  by (auto intro!: record_success_ok record_failure_ok split: option.split prod.split)

lemma evict_ok: "engine_ok e \<Longrightarrow> engine_ok (snd (evict_if_necessary n e))"
  by (auto simp: evict_if_necessary_def Let_def engine_ok_def reputation_ok_def EVICTION_THRESHOLD_def PROBATION_THRESHOLD_def)

lemma record_success_counts [simp]:
  "nr_challenges_passed (get_reputation (record_success n l e) j)
   = nr_challenges_passed (get_reputation e j) + (if j = n then 1 else 0)"
  "nr_challenges_failed (get_reputation (record_success n l e) j) = nr_challenges_failed (get_reputation e j)"
  "j \<noteq> n \<Longrightarrow> get_reputation (record_success n l e) j = get_reputation e j"
  by (auto simp: record_success_def update_reputation_score_def update_pass_rate_def Let_def split: option.split)

lemma record_failure_counts [simp]:
  "nr_challenges_passed (get_reputation (record_failure now n e) j) = nr_challenges_passed (get_reputation e j)"
  "nr_challenges_failed (get_reputation (record_failure now n e) j)
   = nr_challenges_failed (get_reputation e j) + (if j = n then 1 else 0)"
  "j \<noteq> n \<Longrightarrow> get_reputation (record_failure now n e) j = get_reputation e j"
  by (auto simp: record_failure_def update_reputation_score_def update_pass_rate_def Let_def)

lemma issue_reputation:
  "get_reputation (snd (issue_challenge sha u rnd now n sh k e)) j
   = (if j = n then (get_reputation e n)\<lparr>nr_challenges_issued := nr_challenges_issued (get_reputation e n) + 1,
                                         nr_last_challenge := Some now\<rparr>
      else get_reputation e j)"
  by (simp add: issue_challenge_def Let_def)

lemma challenge_nodes_summary:
  "challenge_nodes sha entropy now i nodes (s, e) = (s', e') \<Longrightarrow>
     cs_nodes_challenged s' = cs_nodes_challenged s @ map fst nodes
   \<and> cs_challenges_issued s' = cs_challenges_issued s + length nodes
   \<and> nr_challenges_issued (get_reputation e' j) = nr_challenges_issued (get_reputation e j) + count_list (map fst nodes) j
   \<and> nr_reputation_score (get_reputation e' j) = nr_reputation_score (get_reputation e j)
   \<and> nr_status (get_reputation e' j) = nr_status (get_reputation e j)"
proof (induction nodes arbitrary: i s e)
  case (Cons node nodes)
  obtain node_id shards where n: "node = (node_id, shards)" by (cases node)
  obtain shard_id kind where k: "challenge_of_node shards = (shard_id, kind)" by fastforce
  define c where "c = issue_challenge sha (fst (entropy i)) (snd (entropy i)) now node_id shard_id kind e"
  have "challenge_nodes sha entropy now (Suc i) nodes
      (s\<lparr>cs_challenges_issued := cs_challenges_issued s + 1, cs_nodes_challenged := cs_nodes_challenged s @ [node_id]\<rparr>, snd c) = (s', e')"
    using Cons.prems by (simp add: n k c_def case_prod_unfold)
  from Cons.IH [OF this] show ?case by (simp add: n c_def issue_reputation)
qed simp

section \<open>Steps\<close>

text \<open>What can happen to an engine: a challenge, a response, an R2 contribution in the unit interval, an
  eviction check.\<close>

inductive engine_step :: "(bytes \<Rightarrow> string) \<Rightarrow> proof_engine \<Rightarrow> proof_engine \<Rightarrow> bool" for sha :: "bytes \<Rightarrow> string" where
  step_issue: "engine_step sha e (snd (issue_challenge sha uuid rnd now node_id shard_id kind e))"
| step_respond: "engine_step sha e (snd (snd (validate_response now r e)))"
| step_contribute: "0 \<le> s \<Longrightarrow> s \<le> 1 \<Longrightarrow> engine_step sha e (add_r2_contribution node_id s e)"
| step_evict: "engine_step sha e (snd (evict_if_necessary node_id e))"

inductive engine_reachable :: "(bytes \<Rightarrow> string) \<Rightarrow> proof_engine \<Rightarrow> bool" for sha :: "bytes \<Rightarrow> string" where
  engine_start: "engine_reachable sha (open_engine NoReputations)"
| engine_more: "engine_reachable sha e \<Longrightarrow> engine_step sha e e' \<Longrightarrow> engine_reachable sha e'"

lemma engine_step_ok: "engine_step sha e e' \<Longrightarrow> engine_ok e \<Longrightarrow> engine_ok e'"
  by (induction rule: engine_step.induct) (auto intro: issue_ok validate_ok contribution_ok evict_ok)

lemma engine_reachable_ok: "engine_reachable sha e \<Longrightarrow> engine_ok e"
proof (induction rule: engine_reachable.induct)
  case engine_start
  then show ?case
    by (simp add: engine_ok_def get_reputation_def open_engine_def load_reputations_def reputation_ok_new)
qed (rule engine_step_ok)

section \<open>Properties\<close>


text \<open>
  Library fact: A response consumes its challenge, so a second one is unknown and changes nothing; it succeeds
  exactly when the challenge was pending, the time not past the window and the check of its type
  passed; and it counts one success or failure for the node named in the response and nobody else.
\<close>

theorem response_counts_once:
  assumes "validate_response now r e = (v, r', e')"
  shows "validate_response now' r e' = (Inr False, r\<lparr>rs_passed := False, rs_failure_reason := Some UnknownChallenge\<rparr>, e')
    \<and> (v = Inr True \<longleftrightarrow> (\<exists>c t. map_of (pe_pending e) (rs_challenge_id r) = Some c \<and> rs_responded_at r = Some t
          \<and> t \<le> ch_expires_at c \<and> fst (check_response c r)))
    \<and> nr_challenges_passed (get_reputation e' (rs_node_id r))
        = nr_challenges_passed (get_reputation e (rs_node_id r)) + (if v = Inr True then 1 else 0)
    \<and> nr_challenges_failed (get_reputation e' (rs_node_id r))
        = nr_challenges_failed (get_reputation e (rs_node_id r))
          + (if v = Inr False \<and> rs_challenge_id r \<in> set (dkeys (pe_pending e)) then 1 else 0)
    \<and> (\<forall>j. j = rs_node_id r \<or> get_reputation e' j = get_reputation e j)
    \<and> (\<forall>i. i = rs_challenge_id r \<or> map_of (pe_pending e') i = map_of (pe_pending e) i)"
proof (cases "map_of (pe_pending e) (rs_challenge_id r)")
  case None
  then have "rs_challenge_id r \<notin> set (dkeys (pe_pending e))" by (simp add: map_of_eq_None_iff)
  then show ?thesis using None assms by (auto simp: validate_response_def)
next
  case (Some c)
  then have k: "rs_challenge_id r \<in> set (dkeys (pe_pending e))" by (force dest: map_of_SomeD)
  obtain passed reason where p: "check_response c r = (passed, reason)" by fastforce
  show ?thesis
  proof (cases "rs_responded_at r")
    case None
    then show ?thesis using Some k assms by (auto simp: validate_response_def Let_def split: if_splits)
  next
    case (Some t)
    note t = this
    show ?thesis
    proof (cases "t > ch_expires_at c")
      case True
      then show ?thesis using \<open>map_of _ _ = Some c\<close> t k assms by (auto simp: validate_response_def Let_def split: if_splits)
    next
      case False
      then show ?thesis using \<open>map_of _ _ = Some c\<close> t k assms p
        by (cases passed) (auto simp: validate_response_def Let_def split: if_splits)
    qed
  qed
qed

text \<open>
  Library fact: The engine trusts the node named in the response, not the one that was challenged: a node that
  sends a passing response to another node's challenge gains the success, and the node that was
  challenged keeps its record and can no longer answer.
\<close>

theorem responder_takes_the_credit:
  assumes "map_of (pe_pending e) (rs_challenge_id r) = Some c" "rs_node_id r \<noteq> ch_node_id c"
    "rs_responded_at r = Some t" "t \<le> ch_expires_at c" "fst (check_response c r)"
  shows "fst (validate_response now r e) = Inr True
    \<and> nr_challenges_passed (get_reputation (snd (snd (validate_response now r e))) (rs_node_id r))
        = nr_challenges_passed (get_reputation e (rs_node_id r)) + 1
    \<and> get_reputation (snd (snd (validate_response now r e))) (ch_node_id c) = get_reputation e (ch_node_id c)
    \<and> fst (validate_response now (r\<lparr>rs_node_id := ch_node_id c\<rparr>) (snd (snd (validate_response now r e)))) = Inr False"
proof -
  obtain v r' e' where v: "validate_response now r e = (v, r', e')" by (cases "validate_response now r e") auto
  note c = response_counts_once [OF v]
  have t: "v = Inr True" using c assms by blast
  have p: "map_of (pe_pending e') (rs_challenge_id r) = None"
    using v assms by (auto simp: validate_response_def Let_def split: prod.splits if_splits)
  then have "fst (validate_response now (r\<lparr>rs_node_id := ch_node_id c\<rparr>) e') = Inr False"
    by (simp add: validate_response_def)
  moreover have "get_reputation e' (ch_node_id c) = get_reputation e (ch_node_id c)"
    "nr_challenges_passed (get_reputation e' (rs_node_id r)) = nr_challenges_passed (get_reputation e (rs_node_id r)) + 1"
    using c assms(2) t by metis+
  ultimately show ?thesis unfolding v fst_conv snd_conv using t by blast
qed

text \<open>
  Library fact: A challenge cycle challenges every registered node once, and silence is free: neither the cycle nor
  a response whose time does not parse changes the score or the status of any node, and the latter still
  consumes the challenge.
\<close>

theorem silence_is_unpunished:
  assumes "run_challenge_cycle sha entropy now nodes e = (s, e')"
  shows "cs_nodes_challenged s = map fst nodes \<and> cs_challenges_issued s = length nodes
    \<and> nr_challenges_issued (get_reputation e' j) = nr_challenges_issued (get_reputation e j) + count_list (map fst nodes) j
    \<and> nr_reputation_score (get_reputation e' j) = nr_reputation_score (get_reputation e j)
    \<and> nr_status (get_reputation e' j) = nr_status (get_reputation e j)
    \<and> get_reputation (snd (snd (validate_response now (r\<lparr>rs_responded_at := None\<rparr>) e'))) j = get_reputation e' j
    \<and> map_of (pe_pending (snd (snd (validate_response now (r\<lparr>rs_responded_at := None\<rparr>) e')))) (rs_challenge_id r) = None"
  using challenge_nodes_summary [OF assms [unfolded run_challenge_cycle_def], of j]
  by (simp add: validate_response_def Let_def split: option.split)

section \<open>Sample instances\<close>

definition sample_challenge :: StorageChallenge where
  "sample_challenge = \<lparr>ch_challenge_id = ''c'', ch_node_id = ''a'', ch_shard_id = ''s'', ch_challenge_type = ''latency_probe'',
     ch_issued_at = 0, ch_expires_at = 60, ch_byte_offset = None, ch_byte_length = None, ch_expected_hash = None,
     ch_canary_input = None, ch_expected_output_hash = None, ch_max_latency_ms = Some 5000\<rparr>"

definition sample_response :: ChallengeResponse where
  "sample_response = \<lparr>rs_challenge_id = ''c'', rs_node_id = ''b'', rs_responded_at = Some 1, rs_response_hash = None,
     rs_inference_output_hash = None, rs_latency_ms = Some 3, rs_passed = False, rs_failure_reason = None\<rparr>"

definition sample_engine :: proof_engine where
  "sample_engine = (open_engine NoReputations)\<lparr>pe_pending := [(''c'', sample_challenge)]\<rparr>"


lemma response_counts_once_witness:
  "validate_response 2 sample_response (snd (snd (validate_response 2 sample_response sample_engine)))
   = (Inr False, sample_response\<lparr>rs_passed := False, rs_failure_reason := Some UnknownChallenge\<rparr>,
      snd (snd (validate_response 2 sample_response sample_engine)))"
proof -
  obtain v r' e' where v: "validate_response 2 sample_response sample_engine = (v, r', e')"
    by (cases "validate_response 2 sample_response sample_engine") auto
  show ?thesis using response_counts_once [OF v] v by simp
qed

lemma responder_takes_the_credit_witness:
  "nr_challenges_passed (get_reputation (snd (snd (validate_response 2 sample_response sample_engine))) ''b'') = 1"
  using responder_takes_the_credit [of sample_engine sample_response sample_challenge 1 2]
  by (simp add: sample_engine_def sample_response_def sample_challenge_def check_response_def get_reputation_def
      open_engine_def load_reputations_def new_reputation_def)

lemma silence_is_unpunished_witness:
  "cs_nodes_challenged (fst (run_challenge_cycle (\<lambda>_. []) (\<lambda>i. (nat_str i, i)) 0 [(''a'', []), (''b'', [None])] sample_engine))
   = [''a'', ''b'']"
proof -
  obtain s e' where c: "run_challenge_cycle (\<lambda>_. []) (\<lambda>i. (nat_str i, i)) 0 [(''a'', []), (''b'', [None])] sample_engine = (s, e')"
    by (cases "run_challenge_cycle (\<lambda>_. []) (\<lambda>i. (nat_str i, i)) 0 [(''a'', []), (''b'', [None])] sample_engine") auto
  show ?thesis using silence_is_unpunished [OF c] c by simp
qed

end
