(* ===== verification/Shard_Registry.thy ===== *)
theory Shard_Registry
  imports Storage_Proof Stores "HOL-Library.Product_Lexorder"
begin

text \<open>
  \<^verbatim>\<open>maestro/shard_registry.py\<close>: the registry of weight hosts, in memory and in one file per host, the
  locality score and the greedy construction of an inference pipeline.  A time stamp is the instant it
  names, \<^term>\<open>None\<close> when it is empty or does not parse; a layer range may be missing.
\<close>

section \<open>Data\<close>

record ShardDict =
  hs_shard_id :: "string option"
  hs_model_id :: string
  hs_layer_range :: "int list"

record WeightHost =
  wh_node_id :: string
  wh_host :: string
  wh_port :: nat
  wh_status :: string
  wh_shards :: "ShardDict list"
  wh_capabilities :: "string list"
  wh_total_memory_mb :: nat
  wh_used_memory_mb :: nat
  wh_mean_latency_ms :: real
  wh_reputation_score :: real
  wh_metadata :: "(string, json) dict"
  wh_registered_at :: "real option"
  wh_last_heartbeat :: "real option"
  wh_domain_affinity :: "string list"
  wh_warm :: bool
  wh_hardware_class :: string
  wh_last_active :: "real option"

definition HARDWARE_CLASSES :: "string list" where
  "HARDWARE_CLASSES = [''cloud_api'', ''local_gpu'', ''edge_node'', ''unknown'']"

text \<open>A registry: the hosts in memory, and the files by name; a file that does not parse is \<^term>\<open>None\<close>.\<close>

record registry =
  rg_nodes :: "(string, WeightHost) dict"
  rg_files :: "(string, WeightHost option) dict"

definition weight_locality_score :: "WeightHost \<Rightarrow> string list \<Rightarrow> real" where
  "weight_locality_score h query_domains =
     (let has_affinity = (query_domains \<noteq> [] \<and> wh_domain_affinity h \<noteq> []
            \<and> list_ex (\<lambda>d. d \<in> set (wh_domain_affinity h)) query_domains)
      in if wh_warm h \<and> has_affinity then 1 else if wh_warm h then 3 / 4 else if has_affinity then 1 / 2 else 1 / 4)"

section \<open>Registration\<close>

definition load_nodes :: "(string, WeightHost option) dict \<Rightarrow> (string, WeightHost) dict" where
  "load_nodes files =
     fold (\<lambda>(_, c) d. case c of None \<Rightarrow> d | Some n \<Rightarrow> dset (wh_node_id n) n d) files []"

definition open_registry :: "(string, WeightHost option) dict \<Rightarrow> registry" where
  "open_registry files = \<lparr>rg_nodes = load_nodes files, rg_files = files\<rparr>"

definition save_node :: "WeightHost \<Rightarrow> registry \<Rightarrow> registry" where
  "save_node n rg = rg\<lparr>rg_files := dset (wh_node_id n) (Some n) (rg_files rg)\<rparr>"

definition put_node :: "WeightHost \<Rightarrow> registry \<Rightarrow> registry" where
  "put_node n rg = save_node n (rg\<lparr>rg_nodes := dset (wh_node_id n) n (rg_nodes rg)\<rparr>)"

definition prepared :: "real \<Rightarrow> WeightHost \<Rightarrow> WeightHost" where
  "prepared now n =
     n\<lparr>wh_registered_at := (case wh_registered_at n of None \<Rightarrow> Some now | t \<Rightarrow> t),
       wh_last_heartbeat := Some now,
       wh_hardware_class := (if wh_hardware_class n \<in> set HARDWARE_CLASSES then wh_hardware_class n else ''unknown'')\<rparr>"

definition register :: "real \<Rightarrow> WeightHost \<Rightarrow> registry \<Rightarrow> registry" where
  "register now n rg = put_node (prepared now n) rg"

definition unregister :: "string \<Rightarrow> registry \<Rightarrow> bool \<times> registry" where
  "unregister node_id rg =
     (if node_id \<notin> set (dkeys (rg_nodes rg)) then (False, rg)
      else (True, \<lparr>rg_nodes = ddel node_id (rg_nodes rg), rg_files = ddel node_id (rg_files rg)\<rparr>))"

text \<open>A host is mutated in memory under the key it is found at and saved under the id it carries.\<close>

definition change_node :: "string \<Rightarrow> (WeightHost \<Rightarrow> WeightHost) \<Rightarrow> registry \<Rightarrow> bool \<times> registry" where
  "change_node node_id f rg =
     (case map_of (rg_nodes rg) node_id of
        None \<Rightarrow> (False, rg)
      | Some n \<Rightarrow> (True, save_node (f n) (rg\<lparr>rg_nodes := dset node_id (f n) (rg_nodes rg)\<rparr>)))"

definition heartbeat :: "real \<Rightarrow> string \<Rightarrow> registry \<Rightarrow> bool \<times> registry" where
  "heartbeat now node_id rg = change_node node_id (\<lambda>n. n\<lparr>wh_last_heartbeat := Some now\<rparr>) rg"

definition mark_active :: "real \<Rightarrow> string \<Rightarrow> registry \<Rightarrow> bool \<times> registry" where
  "mark_active now node_id rg = change_node node_id (\<lambda>n. n\<lparr>wh_warm := True, wh_last_active := Some now\<rparr>) rg"

definition update_reputation :: "string \<Rightarrow> real \<Rightarrow> registry \<Rightarrow> registry" where
  "update_reputation node_id score rg =
     snd (change_node node_id (\<lambda>n. n\<lparr>wh_reputation_score := score,
       wh_status := (if score < 3 / 10 then ''evicted'' else if score < 7 / 10 then ''probation''
                     else if wh_status n = ''probation'' \<or> wh_status n = ''evicted'' then ''available'' else wh_status n)\<rparr>) rg)"

definition get_node :: "registry \<Rightarrow> string \<Rightarrow> WeightHost option" where
  "get_node rg node_id = map_of (rg_nodes rg) node_id"

definition list_nodes :: "registry \<Rightarrow> WeightHost list" where
  "list_nodes rg = dvalues (rg_nodes rg)"

fun prune_nodes :: "real \<Rightarrow> real \<Rightarrow> (string \<times> WeightHost) list \<Rightarrow> registry \<Rightarrow> string list \<times> registry" where
  "prune_nodes now max_age [] rg = ([], rg)"
| "prune_nodes now max_age ((node_id, n) # rest) rg =
     (case wh_last_heartbeat n of
        None \<Rightarrow> prune_nodes now max_age rest rg
      | Some t \<Rightarrow>
          (if now - t > max_age
           then (let (pruned, rg') = prune_nodes now max_age rest (snd (unregister node_id rg)) in (node_id # pruned, rg'))
           else prune_nodes now max_age rest rg))"

definition prune_stale_nodes :: "real \<Rightarrow> real \<Rightarrow> registry \<Rightarrow> string list \<times> registry" where
  "prune_stale_nodes now max_age rg = prune_nodes now max_age (rg_nodes rg) rg"

section \<open>Routing\<close>

definition serving :: "WeightHost \<Rightarrow> bool" where
  "serving n \<longleftrightarrow> wh_status n \<noteq> ''offline'' \<and> wh_status n \<noteq> ''evicted''"

text \<open>The first two entries of a layer range that has them.\<close>

definition range_of :: "string \<Rightarrow> ShardDict \<Rightarrow> (int \<times> int) option" where
  "range_of model_id s =
     (if hs_model_id s = model_id then (case hs_layer_range s of a # b # _ \<Rightarrow> Some (a, b) | _ \<Rightarrow> None) else None)"

definition find_nodes_for_shard :: "registry \<Rightarrow> string \<Rightarrow> int \<Rightarrow> int \<Rightarrow> WeightHost list" where
  "find_nodes_for_shard rg model_id layer_start layer_end =
     filter (\<lambda>n. serving n \<and> list_ex (\<lambda>s. case range_of model_id s of None \<Rightarrow> False
         | Some (a, b) \<Rightarrow> a \<le> layer_start \<and> b \<ge> layer_end) (wh_shards n)) (list_nodes rg)"

record ShardEntry =
  se_node :: WeightHost
  se_start :: int
  se_end :: int
  se_locality :: real

definition shard_entries :: "string \<Rightarrow> string list \<Rightarrow> registry \<Rightarrow> ShardEntry list" where
  "shard_entries model_id query_domains rg =
     concat (map (\<lambda>n. map (\<lambda>(a, b). \<lparr>se_node = n, se_start = a, se_end = b,
                              se_locality = weight_locality_score n query_domains\<rparr>)
                        (List.map_filter (range_of model_id) (wh_shards n)))
       (filter serving (list_nodes rg)))"

definition entry_order :: "ShardEntry \<Rightarrow> int \<times> real \<times> real" where
  "entry_order s = (se_start s, - se_locality s, - wh_reputation_score (se_node s))"

definition entry_rank :: "ShardEntry \<Rightarrow> int \<times> real \<times> real \<times> real" where
  "entry_rank s = (se_end s, se_locality s, wh_reputation_score (se_node s), - wh_mean_latency_ms (se_node s))"

lemma first_max_shrinks:
  "filter P xs = c # cs \<Longrightarrow> length (filter Q (remove1 (first_max key c cs) xs)) < length xs"
proof -
  assume f: "filter P xs = c # cs"
  have "first_max key c cs \<in> set (filter P xs)" unfolding f using first_max_in [of key c cs] by auto
  then have "length (remove1 (first_max key c cs) xs) < length xs"
    by (auto simp: length_remove1 dest: length_pos_if_in_set)
  then show ?thesis by (rule le_less_trans [OF length_filter_le])
qed

function greedy_pipeline :: "int \<Rightarrow> ShardEntry list \<Rightarrow> ShardEntry list" where
  "greedy_pipeline current_layer entries =
     (case filter (\<lambda>s. se_start s \<le> current_layer) entries of
        [] \<Rightarrow> []
      | c # cs \<Rightarrow>
          (let best = first_max entry_rank c cs; next_layer = se_end best + 1
           in best # greedy_pipeline next_layer (filter (\<lambda>s. se_end s \<ge> next_layer) (remove1 best entries))))"
  by pat_completeness auto
termination
  by (relation "measure (length \<circ> snd)") (auto dest: first_max_shrinks)

declare greedy_pipeline.simps [simp del]

definition build_inference_pipeline :: "registry \<Rightarrow> string \<Rightarrow> string list \<Rightarrow> WeightHost list" where
  "build_inference_pipeline rg model_id query_domains =
     map se_node (greedy_pipeline 0 (sort_key entry_order (shard_entries model_id query_domains rg)))"

definition route_query :: "registry \<Rightarrow> string \<Rightarrow> string list \<Rightarrow> WeightHost list" where
  "route_query rg model_id query_domains = build_inference_pipeline rg model_id query_domains"

definition find_embedding_nodes :: "registry \<Rightarrow> string option \<Rightarrow> WeightHost list" where
  "find_embedding_nodes rg model_id =
     filter (\<lambda>n. serving n \<and> ''embeddings'' \<in> set (wh_capabilities n)
        \<and> (case model_id of None \<Rightarrow> True | Some m \<Rightarrow> list_ex (\<lambda>s. hs_model_id s = m) (wh_shards n))) (list_nodes rg)"

definition get_redundancy_map :: "registry \<Rightarrow> string \<Rightarrow> (string, string list) dict" where
  "get_redundancy_map rg model_id =
     fold (\<lambda>(node_id, a, b) d. dappend (int_str a @ ''-'' @ int_str b) node_id d)
       (concat (map (\<lambda>n. map (Pair (wh_node_id n)) (List.map_filter (range_of model_id) (wh_shards n)))
          (filter serving (list_nodes rg)))) []"

section \<open>Lemmas\<close>

subsection \<open>The registry and its files\<close>

text \<open>Every host is kept under its id, and the files that parse are the hosts in memory.\<close>

definition mirrored :: "registry \<Rightarrow> bool" where
  "mirrored rg \<longleftrightarrow> well_keyed (rg_nodes rg) \<and> well_keyed (rg_files rg)
     \<and> (\<forall>k n. map_of (rg_nodes rg) k = Some n \<longrightarrow> wh_node_id n = k)
     \<and> (\<forall>k. Option.bind (map_of (rg_files rg) k) id = map_of (rg_nodes rg) k)"

lemma mirrored_put: "mirrored rg \<Longrightarrow> mirrored (put_node n rg)"
  by (auto simp: mirrored_def put_node_def save_node_def)

lemma mirrored_unregister: "mirrored rg \<Longrightarrow> mirrored (snd (unregister k rg))"
  by (auto simp: mirrored_def unregister_def)

lemma mirrored_change:
  "mirrored rg \<Longrightarrow> (\<And>n. wh_node_id (f n) = wh_node_id n) \<Longrightarrow> mirrored (snd (change_node k f rg))"
  by (auto simp: mirrored_def change_node_def save_node_def split: option.split)

lemma mirrored_prune: "mirrored rg \<Longrightarrow> mirrored (snd (prune_nodes now age ns rg))"
proof (induction now age ns rg rule: prune_nodes.induct)
  case (2 now age k n rest rg)
  show ?case
  proof (cases "wh_last_heartbeat n")
    case (Some t)
    then show ?thesis using 2 mirrored_unregister [of rg k] by (auto simp: Let_def split: prod.splits)
  qed (use 2 in auto)
qed simp

lemma load_nodes_map:
  assumes "well_keyed files" "\<And>k n. map_of files k = Some (Some n) \<Longrightarrow> wh_node_id n = k"
  shows "map_of (load_nodes files) k = Option.bind (map_of files k) id"
proof -
  have "map_of (fold (\<lambda>(_, c) d. case c of None \<Rightarrow> d | Some n \<Rightarrow> dset (wh_node_id n) n d) files d) k
      = (case Option.bind (map_of files k) id of None \<Rightarrow> map_of d k | Some n \<Rightarrow> Some n)" for d
    using assms
  proof (induction files arbitrary: d)
    case (Cons e files)
    obtain i c where e: "e = (i, c)" by (cases e)
    have w: "well_keyed files" "map_of files i = None"
      using Cons.prems(1) by (auto simp: well_keyed_def e map_of_eq_None_iff)
    have p: "\<And>k n. map_of files k = Some (Some n) \<Longrightarrow> wh_node_id n = k"
    proof -
      fix k n assume k: "map_of files k = Some (Some n)"
      then have "k \<noteq> i" using w(2) by auto
      then show "wh_node_id n = k" using Cons.prems(2) [of k n] k by (simp add: e)
    qed
    show ?case
    proof (cases c)
      case None
      then show ?thesis using Cons.IH [OF w(1) p] w(2) by (simp add: e)
    next
      case (Some n)
      then have "wh_node_id n = i" using Cons.prems(2) [of i n] by (simp add: e)
      then show ?thesis using Cons.IH [OF w(1) p] w(2) Some by (auto simp: e split: option.split)
    qed
  qed (simp split: option.split)
  then show ?thesis by (simp add: load_nodes_def split: option.split)
qed

inductive registry_reachable :: "registry \<Rightarrow> bool" where
  reg_start: "registry_reachable (open_registry [])"
| reg_register: "registry_reachable rg \<Longrightarrow> registry_reachable (register now n rg)"
| reg_unregister: "registry_reachable rg \<Longrightarrow> registry_reachable (snd (unregister k rg))"
| reg_heartbeat: "registry_reachable rg \<Longrightarrow> registry_reachable (snd (heartbeat now k rg))"
| reg_active: "registry_reachable rg \<Longrightarrow> registry_reachable (snd (mark_active now k rg))"
| reg_reputation: "registry_reachable rg \<Longrightarrow> registry_reachable (update_reputation k score rg)"
| reg_prune: "registry_reachable rg \<Longrightarrow> registry_reachable (snd (prune_stale_nodes now age rg))"

lemma reachable_mirrored: "registry_reachable rg \<Longrightarrow> mirrored rg"
proof (induction rule: registry_reachable.induct)
  case reg_start
  then show ?case by (simp add: mirrored_def open_registry_def load_nodes_def)
qed (simp_all add: register_def mirrored_put mirrored_unregister heartbeat_def mark_active_def update_reputation_def
       mirrored_change prune_stale_nodes_def mirrored_prune)

interpretation hosts: deletable_store wh_node_id "register now" get_node "\<lambda>n. Some (prepared now n)"
    "\<lambda>k rg. snd (unregister k rg)" None for now
  by unfold_locales
    (auto simp: register_def put_node_def save_node_def get_node_def prepared_def unregister_def map_of_eq_None_keys [symmetric]
      simp del: set_map split: if_splits)

subsection \<open>The pipeline\<close>

fun reach :: "int \<Rightarrow> ShardEntry list \<Rightarrow> int" where
  "reach cur [] = cur"
| "reach cur (s # ss) = reach (se_end s + 1) ss"

definition covers :: "ShardEntry \<Rightarrow> int \<Rightarrow> bool" where
  "covers s l \<longleftrightarrow> se_start s \<le> l \<and> l \<le> se_end s"

lemma entry_rank_end: "entry_rank s \<le> entry_rank t \<Longrightarrow> se_end s \<le> se_end t"
  by (auto simp: entry_rank_def less_eq_prod_def)

lemma greedy_Cons:
  assumes "filter (\<lambda>s. se_start s \<le> cur) es \<noteq> []"
  obtains best where "best \<in> set es" "se_start best \<le> cur"
    "\<And>s. s \<in> set es \<Longrightarrow> se_start s \<le> cur \<Longrightarrow> se_end s \<le> se_end best"
    "greedy_pipeline cur es
     = best # greedy_pipeline (se_end best + 1) (filter (\<lambda>s. se_end s \<ge> se_end best + 1) (remove1 best es))"
    "length (filter (\<lambda>s. se_end s \<ge> se_end best + 1) (remove1 best es)) < length es"
proof -
  obtain c cs where f: "filter (\<lambda>s. se_start s \<le> cur) es = c # cs" using assms by (cases "filter (\<lambda>s. se_start s \<le> cur) es") auto
  define b where "b = first_max entry_rank c cs"
  have m: "b \<in> set es" "se_start b \<le> cur"
    using first_max_in [of entry_rank c cs] arg_cong [OF f, of set] unfolding b_def by auto
  have e: "se_end s \<le> se_end b" if "s \<in> set es" "se_start s \<le> cur" for s
  proof -
    have "s \<in> insert c (set cs)" using that arg_cong [OF f, of set] by auto
    then show ?thesis using first_max_ge [of s c cs entry_rank] entry_rank_end unfolding b_def by blast
  qed
  have g: "greedy_pipeline cur es = b # greedy_pipeline (se_end b + 1) (filter (\<lambda>s. se_end s \<ge> se_end b + 1) (remove1 b es))"
    by (subst greedy_pipeline.simps) (simp add: f b_def [symmetric] Let_def)
  show ?thesis by (rule that [OF m e g]) (simp_all add: b_def first_max_shrinks [OF f])
qed

lemma greedy_Nil: "filter (\<lambda>s. se_start s \<le> cur) es = [] \<Longrightarrow> greedy_pipeline cur es = []"
  by (simp add: greedy_pipeline.simps)

text \<open>\<open>ss\<close> covers every layer from \<open>a\<close> up to but not including \<open>b\<close>.\<close>

definition covers_all :: "ShardEntry list \<Rightarrow> int \<Rightarrow> int \<Rightarrow> bool" where
  "covers_all ss a b \<longleftrightarrow> (\<forall>l. a \<le> l \<and> l < b \<longrightarrow> (\<exists>s \<in> set ss. covers s l))"

lemma greedy_spec:
  assumes "(\<exists>s \<in> set es. covers s cur) \<or> (\<forall>s \<in> set es. cur \<le> se_end s)"
  shows "cur \<le> reach cur (greedy_pipeline cur es) \<and> set (greedy_pipeline cur es) \<subseteq> set es
    \<and> covers_all (greedy_pipeline cur es) cur (reach cur (greedy_pipeline cur es))
    \<and> (\<forall>s \<in> set es. \<not> covers s (reach cur (greedy_pipeline cur es)))
    \<and> (\<forall>cs. set cs \<subseteq> set es \<longrightarrow> covers_all cs cur (reach cur (greedy_pipeline cur es))
         \<longrightarrow> length (greedy_pipeline cur es) \<le> length cs)"
  using assms
proof (induction "length es" arbitrary: cur es rule: less_induct)
  case less
  show ?case
  proof (cases "filter (\<lambda>s. se_start s \<le> cur) es = []")
    case True
    then have "\<forall>s \<in> set es. \<not> covers s cur" by (auto simp: covers_def filter_empty_conv)
    then show ?thesis by (simp add: greedy_Nil [OF True] covers_all_def)
  next
    case False
    obtain b where b: "b \<in> set es" "se_start b \<le> cur" "\<And>s. s \<in> set es \<Longrightarrow> se_start s \<le> cur \<Longrightarrow> se_end s \<le> se_end b"
      "greedy_pipeline cur es = b # greedy_pipeline (se_end b + 1) (filter (\<lambda>s. se_end s \<ge> se_end b + 1) (remove1 b es))"
      "length (filter (\<lambda>s. se_end s \<ge> se_end b + 1) (remove1 b es)) < length es"
      by (rule greedy_Cons [OF False]) blast
    define n where "n = se_end b + 1"
    define rest where "rest = filter (\<lambda>s. se_end s \<ge> n) (remove1 b es)"
    have in_rest: "s \<in> set rest" if "s \<in> set es" "n \<le> se_end s" for s
    proof -
      have "s \<noteq> b" using that(2) by (auto simp: n_def)
      then show ?thesis using that by (simp add: rest_def in_set_remove1)
    qed
    have rest_sub: "set rest \<subseteq> set es" using set_remove1_subset [of b es] by (auto simp: rest_def)
    have cur_n: "cur < n" using less.prems b(1,3) by (force simp: n_def covers_def)
    let ?g = "greedy_pipeline n rest"
    have g: "greedy_pipeline cur es = b # ?g" "reach cur (greedy_pipeline cur es) = reach n ?g"
      using b(4) by (simp_all add: n_def rest_def)
    have IH: "n \<le> reach n ?g" "set ?g \<subseteq> set rest" "covers_all ?g n (reach n ?g)" "\<forall>s \<in> set rest. \<not> covers s (reach n ?g)"
      "\<And>cs. set cs \<subseteq> set rest \<Longrightarrow> covers_all cs n (reach n ?g) \<Longrightarrow> length ?g \<le> length cs"
      using less.hyps [of rest n] b(5) by (auto simp: rest_def n_def)
    have cov: "covers_all (b # ?g) cur (reach n ?g)"
      unfolding covers_all_def
    proof (intro allI impI)
      fix l assume l: "cur \<le> l \<and> l < reach n ?g"
      show "\<exists>s \<in> set (b # ?g). covers s l"
      proof (cases "l < n")
        case True
        then show ?thesis using b(2) l by (auto simp: covers_def n_def)
      next
        case False
        then show ?thesis using IH(3) l unfolding covers_all_def by auto
      qed
    qed
    have max: "\<not> covers s (reach n ?g)" if "s \<in> set es" for s
      using IH(1,4) in_rest [OF that] by (cases "n \<le> se_end s") (auto simp: covers_def)
    have opt: "length (b # ?g) \<le> length cs" if cs: "set cs \<subseteq> set es" "covers_all cs cur (reach n ?g)" for cs
    proof -
      obtain c where c: "c \<in> set cs" "covers c cur" using cs(2) cur_n IH(1) unfolding covers_all_def by force
      have "se_end c < n" using b(3) [of c] c cs(1) by (auto simp: covers_def n_def)
      then have less_len: "length (filter (\<lambda>s. n \<le> se_end s) cs) < length cs"
        using c(1) by (metis length_filter_less not_le)
      have "covers_all (filter (\<lambda>s. n \<le> se_end s) cs) n (reach n ?g)"
        unfolding covers_all_def
      proof (intro allI impI)
        fix l assume l: "n \<le> l \<and> l < reach n ?g"
        then obtain d where "d \<in> set cs" "covers d l"
          using cs(2) [unfolded covers_all_def, rule_format, of l] cur_n by auto
        then show "\<exists>s \<in> set (filter (\<lambda>s. n \<le> se_end s) cs). covers s l" using l by (auto simp: covers_def)
      qed
      then have "length ?g \<le> length (filter (\<lambda>s. n \<le> se_end s) cs)"
        using IH(5) [of "filter (\<lambda>s. n \<le> se_end s) cs"] in_rest cs(1) by auto
      then show ?thesis using less_len by simp
    qed
    show ?thesis
      unfolding g(2) unfolding g(1) using IH(1,2) cur_n cov max opt b(1) rest_sub by auto
  qed
qed

text \<open>
  When no entry covers the first layer, at most one entry is taken, and then one that ends before that layer: an entry of
  the range (-1, -1), which stands for files without layers.
\<close>

lemma greedy_uncovered:
  assumes "\<forall>s \<in> set es. \<not> covers s cur"
  shows "length (greedy_pipeline cur es) \<le> 1"
proof (cases "filter (\<lambda>s. se_start s \<le> cur) es = []")
  case True
  then show ?thesis by (simp add: greedy_Nil)
next
  case False
  obtain b where b: "b \<in> set es" "se_start b \<le> cur" "\<And>s. s \<in> set es \<Longrightarrow> se_start s \<le> cur \<Longrightarrow> se_end s \<le> se_end b"
    "greedy_pipeline cur es = b # greedy_pipeline (se_end b + 1) (filter (\<lambda>s. se_end s \<ge> se_end b + 1) (remove1 b es))"
    by (rule greedy_Cons [OF False]) blast
  have "se_end b < cur" using assms b(1,2) by (auto simp: covers_def)
  then have "filter (\<lambda>s. se_start s \<le> se_end b + 1) (filter (\<lambda>s. se_end s \<ge> se_end b + 1) (remove1 b es)) = []"
    using b(3) set_remove1_subset [of b es] by (force simp: filter_empty_conv)
  then show ?thesis unfolding b(4) by (simp add: greedy_Nil)
qed

lemma greedy_empty_iff: "greedy_pipeline cur es = [] \<longleftrightarrow> list_all (\<lambda>s. cur < se_start s) es"
proof (cases "filter (\<lambda>s. se_start s \<le> cur) es = []")
  case True
  then show ?thesis by (auto simp: greedy_Nil [OF True] filter_empty_conv list_all_iff)
next
  case False
  obtain b where "b \<in> set es" "se_start b \<le> cur" "greedy_pipeline cur es \<noteq> []"
    by (rule greedy_Cons [OF False]) auto
  then have "\<not> list_all (\<lambda>s. cur < se_start s) es" by (auto simp: list_all_iff intro!: bexI [of _ b])
  then show ?thesis using \<open>greedy_pipeline cur es \<noteq> []\<close> by simp
qed

lemma greedy_bound:
  assumes "(\<exists>s \<in> set (shard_entries model_id domains rg). covers s 0) \<or> (\<forall>s \<in> set (shard_entries model_id domains rg). 0 \<le> se_end s)"
  shows "\<exists>hops bound. build_inference_pipeline rg model_id domains = map se_node hops
    \<and> set hops \<subseteq> set (shard_entries model_id domains rg)
    \<and> covers_all hops 0 bound \<and> (\<forall>s \<in> set (shard_entries model_id domains rg). \<not> covers s bound)
    \<and> (\<forall>n. bound > n \<or> \<not> covers_all (shard_entries model_id domains rg) 0 (n + 1) \<or> n < 0)
    \<and> (\<forall>cs. \<not> set cs \<subseteq> set (shard_entries model_id domains rg) \<or> \<not> covers_all cs 0 bound \<or> length hops \<le> length cs)"
proof -
  let ?es = "shard_entries model_id domains rg"
  let ?g = "greedy_pipeline 0 (sort_key entry_order ?es)"
  have g: "0 \<le> reach 0 ?g \<and> set ?g \<subseteq> set ?es \<and> covers_all ?g 0 (reach 0 ?g) \<and> (\<forall>s \<in> set ?es. \<not> covers s (reach 0 ?g))
      \<and> (\<forall>cs. set cs \<subseteq> set ?es \<longrightarrow> covers_all cs 0 (reach 0 ?g) \<longrightarrow> length ?g \<le> length cs)"
    using greedy_spec [of "sort_key entry_order ?es" 0] assms by simp
  have "n < reach 0 ?g \<or> \<not> covers_all ?es 0 (n + 1) \<or> n < 0" for n
  proof (rule ccontr)
    assume a: "\<not> (n < reach 0 ?g \<or> \<not> covers_all ?es 0 (n + 1) \<or> n < 0)"
    then have "\<exists>s \<in> set ?es. covers s (reach 0 ?g)"
      using g a [unfolded covers_all_def] by (auto dest: spec [of _ "reach 0 ?g"])
    then show False using g by blast
  qed
  then show ?thesis
    using g unfolding build_inference_pipeline_def by (intro exI [of _ ?g] exI [of _ "reach 0 ?g"]) blast
qed

lemma greedy_subset: "set (greedy_pipeline cur es) \<subseteq> set es"
proof (induction cur es rule: greedy_pipeline.induct)
  case (1 cur es)
  show ?case
  proof (cases "filter (\<lambda>s. se_start s \<le> cur) es")
    case Nil
    then show ?thesis by (simp add: greedy_Nil)
  next
    case (Cons c cs)
    have "first_max entry_rank c cs \<in> set es" using first_max_in [of entry_rank c cs] arg_cong [OF Cons, of set] by auto
    then show ?thesis
      using 1 [OF Cons refl refl] set_remove1_subset [of "first_max entry_rank c cs" es]
      by (subst greedy_pipeline.simps) (auto simp: Cons Let_def)
  qed
qed

section \<open>Properties\<close>


text \<open>
  Library fact: A gap never empties the pipeline: it is empty only when no available shard of the model starts at or
  below layer 0, so a model whose later layers no host holds still gets the pipeline of its first layers.
\<close>

theorem pipeline_of_gapped_model:
  shows "build_inference_pipeline rg model_id domains = []
    \<longleftrightarrow> list_all (\<lambda>s. 0 < se_start s) (shard_entries model_id domains rg)"
  by (simp add: build_inference_pipeline_def greedy_empty_iff list_all_iff)


section \<open>Sample instances\<close>

definition sample_host :: "string \<Rightarrow> int list \<Rightarrow> WeightHost" where
  "sample_host i layers = \<lparr>wh_node_id = i, wh_host = ''h'', wh_port = 8000, wh_status = ''available'',
     wh_shards = [\<lparr>hs_shard_id = None, hs_model_id = ''m'', hs_layer_range = layers\<rparr>], wh_capabilities = [],
     wh_total_memory_mb = 0, wh_used_memory_mb = 0, wh_mean_latency_ms = 0, wh_reputation_score = 1, wh_metadata = [],
     wh_registered_at = None, wh_last_heartbeat = None, wh_domain_affinity = [], wh_warm = False,
     wh_hardware_class = ''unknown'', wh_last_active = None\<rparr>"

definition sample_registry :: registry where
  "sample_registry = \<lparr>rg_nodes = [(''a'', sample_host ''a'' [0, 3]), (''b'', sample_host ''b'' [4, 7])], rg_files = []\<rparr>"

lemma sample_entries:
  "map (\<lambda>s. (se_start s, se_end s)) (shard_entries ''m'' [] sample_registry) = [(0, 3), (4, 7)]"
  by (simp add: shard_entries_def sample_registry_def sample_host_def list_nodes_def serving_def range_of_def List.map_filter_def)

text \<open>The two hosts, and one that holds only files without layers.\<close>

definition sample_registry_extra :: registry where
  "sample_registry_extra = \<lparr>rg_nodes = [(''e'', sample_host ''e'' [-1, -1]), (''a'', sample_host ''a'' [0, 3]), (''b'', sample_host ''b'' [4, 7])],
     rg_files = []\<rparr>"



end
