(* ===== verification/Shard_Store.thy ===== *)
theory Shard_Store
  imports Storage_Proof
begin

text \<open>
  \<^verbatim>\<open>maestro/shard_utils.py\<close> and \<^verbatim>\<open>maestro/shard_manager.py\<close>: safetensors files, the layers their tensors
  belong to, the manifest of the files a node holds for a model, and its verification.  A file is its
  bytes.  The JSON parser and SHA-256 are parameters; the download from the model hub is not modelled.
\<close>

section \<open>Safetensors headers\<close>

text \<open>
  The errors that the callers catch (\<^verbatim>\<open>ValueError\<close>, \<^verbatim>\<open>JSONDecodeError\<close>), and those of a header whose JSON has
  another shape, which they do not.
\<close>

datatype shard_error = FileTooSmall | HeaderUnreasonable | HeaderTruncated | HeaderNotJson | HeaderShape

definition skipped_error :: "shard_error \<Rightarrow> bool" where
  "skipped_error e \<longleftrightarrow> e \<noteq> HeaderShape"

fun le_value :: "bytes \<Rightarrow> nat" where
  "le_value [] = 0"
| "le_value (b # bs) = unat b + 256 * le_value bs"

definition read_safetensors_header :: "(bytes \<Rightarrow> json option) \<Rightarrow> bytes \<Rightarrow> shard_error + json" where
  "read_safetensors_header loads file =
     (if length file < 8 then Inl FileTooSmall
      else
        (let header_size = le_value (take 8 file); header_bytes = take header_size (drop 8 file)
         in if header_size > 100000000 then Inl HeaderUnreasonable
            else if length header_bytes < header_size then Inl HeaderTruncated
            else case loads header_bytes of None \<Rightarrow> Inl HeaderNotJson | Some v \<Rightarrow> Inr v))"

text \<open>The first match of a pattern \<^verbatim>\<open>prefix(\d+)\.\<close> in a name.\<close>

fun search_layer :: "string \<Rightarrow> string \<Rightarrow> nat option" where
  "search_layer pat [] = None"
| "search_layer pat (c # cs) =
     (let rest = drop (length pat) (c # cs);
          digits = takeWhile is_digit rest;
          after = dropWhile is_digit rest
      in if starts_with pat (c # cs) \<and> digits \<noteq> [] \<and> after \<noteq> [] \<and> hd after = CHR ''.''
         then Some (digits_value digits) else search_layer pat cs)"

definition layer_patterns :: "string list" where
  "layer_patterns = [''.layers.'', ''.h.'', ''.layer.'', ''blk.'', ''.blocks.'']"

definition layer_of :: "string \<Rightarrow> int" where
  "layer_of name =
     (case first_some (\<lambda>p. search_layer p name) layer_patterns of None \<Rightarrow> -1 | Some n \<Rightarrow> int n)"

definition tensor_names :: "(string, json) dict \<Rightarrow> string list" where
  "tensor_names header = filter (\<lambda>n. n \<noteq> ''__metadata__'') (dkeys header)"

definition extract_layer_indices :: "(string, json) dict \<Rightarrow> (int, string list) dict" where
  "extract_layer_indices header = fold (\<lambda>name d. dappend (layer_of name) name d) (tensor_names header) []"

fun min_max :: "int list \<Rightarrow> int \<times> int" where
  "min_max [] = (-1, -1)"
| "min_max (k # ks) = (fold min ks k, fold max ks k)"

definition layer_range_of :: "(string, json) dict \<Rightarrow> int \<times> int" where
  "layer_range_of header = min_max (filter (\<lambda>k. k \<ge> 0) (dkeys (extract_layer_indices header)))"

fun header_dict :: "json \<Rightarrow> shard_error + (string, json) dict" where
  "header_dict (JObj d) = Inr d"
| "header_dict _ = Inl HeaderShape"

definition get_layer_range_from_file :: "(bytes \<Rightarrow> json option) \<Rightarrow> bytes \<Rightarrow> shard_error + int \<times> int" where
  "get_layer_range_from_file loads file =
     bind_res (read_safetensors_header loads file) (\<lambda>h. bind_res (header_dict h) (\<lambda>d. Inr (layer_range_of d)))"

fun int_list :: "json list \<Rightarrow> int list option" where
  "int_list [] = Some []"
| "int_list (JInt i # vs) = map_option ((#) i) (int_list vs)"
| "int_list (_ # vs) = None"

text \<open>The byte range of one tensor, when its \<^verbatim>\<open>data_offsets\<close> are two numbers.\<close>

fun tensor_range :: "int \<Rightarrow> json \<Rightarrow> shard_error + (int \<times> int) option" where
  "tensor_range data_start (JObj meta) =
     (case map_of meta ''data_offsets'' of
        None \<Rightarrow> Inr None
      | Some (JList vs) \<Rightarrow>
          (case vs of
             [JInt a, JInt b] \<Rightarrow> Inr (Some (data_start + a, data_start + b))
           | [_, _] \<Rightarrow> Inl HeaderShape
           | _ \<Rightarrow> Inr None)
      | Some (JStr s) \<Rightarrow> if length s = 2 then Inl HeaderShape else Inr None
      | Some (JObj es) \<Rightarrow> if length es = 2 then Inl HeaderShape else Inr None
      | Some _ \<Rightarrow> Inl HeaderShape)"
| "tensor_range data_start _ = Inl HeaderShape"

fun tensor_ranges :: "int \<Rightarrow> (string, json) dict \<Rightarrow> shard_error + (string, int \<times> int) dict" where
  "tensor_ranges data_start [] = Inr []"
| "tensor_ranges data_start ((name, meta) # header) =
     (if name = ''__metadata__'' then tensor_ranges data_start header
      else bind_res (tensor_range data_start meta) (\<lambda>r.
        bind_res (tensor_ranges data_start header) (\<lambda>rs.
          Inr (case r of None \<Rightarrow> rs | Some ab \<Rightarrow> (name, ab) # rs))))"

definition get_tensor_byte_ranges ::
    "(bytes \<Rightarrow> json option) \<Rightarrow> bytes \<Rightarrow> shard_error + (string, int \<times> int) dict" where
  "get_tensor_byte_ranges loads file =
     bind_res (read_safetensors_header loads file) (\<lambda>h.
       bind_res (header_dict h) (\<lambda>d. tensor_ranges (8 + int (le_value (take 8 file))) d))"

section \<open>Hashes and descriptors\<close>

definition hash_byte_range :: "(bytes \<Rightarrow> string) \<Rightarrow> bytes \<Rightarrow> nat \<Rightarrow> nat \<Rightarrow> string" where
  "hash_byte_range sha file offset len = sha (take len (drop offset file))"

text \<open>The chunks read until a read returns nothing.\<close>

function chunks :: "nat \<Rightarrow> 'a list \<Rightarrow> 'a list list" where
  "chunks n xs = (if n = 0 \<or> xs = [] then [] else take n xs # chunks n (drop n xs))"
  by pat_completeness auto
termination
  by (relation "measure (length \<circ> snd)") auto

declare chunks.simps [simp del]

definition hash_file :: "(bytes \<Rightarrow> string) \<Rightarrow> nat \<Rightarrow> bytes \<Rightarrow> string" where
  "hash_file sha chunk_size file = sha (concat (chunks chunk_size file))"

definition verify_shard_integrity :: "(bytes \<Rightarrow> string) \<Rightarrow> bytes \<Rightarrow> string \<Rightarrow> bool" where
  "verify_shard_integrity sha file expected = (hash_file sha 8192 file = expected)"

definition dtype_to_precision :: "string \<Rightarrow> string" where
  "dtype_to_precision dtype =
     dget [(''F32'', ''fp32''), (''F16'', ''fp16''), (''BF16'', ''bf16''), (''I8'', ''int8''), (''I16'', ''int16''),
           (''I32'', ''int32''), (''I64'', ''int64''), (''U8'', ''uint8''), (''F8_E4M3'', ''fp8''), (''F8_E5M2'', ''fp8'')]
       dtype (py_lower dtype)"

fun detect_precision :: "(string, json) dict \<Rightarrow> shard_error + string" where
  "detect_precision [] = Inr []"
| "detect_precision ((name, meta) # header) =
     (if name = ''__metadata__'' then detect_precision header
      else case meta of
        JObj d \<Rightarrow>
          (case map_of d ''dtype'' of
             None \<Rightarrow> detect_precision header
           | Some v \<Rightarrow>
               (if \<not> json_truthy v then detect_precision header
                else case v of JStr dtype \<Rightarrow> Inr (dtype_to_precision dtype) | _ \<Rightarrow> Inl HeaderShape))
      | _ \<Rightarrow> Inl HeaderShape)"

definition build_shard_descriptor ::
    "(bytes \<Rightarrow> json option) \<Rightarrow> (bytes \<Rightarrow> string) \<Rightarrow> bytes \<Rightarrow> string \<Rightarrow> string \<Rightarrow> string \<Rightarrow> string \<Rightarrow> shard_error + ShardDescriptor" where
  "build_shard_descriptor loads sha file model_id model_hash shard_id precision =
     bind_res (read_safetensors_header loads file) (\<lambda>h.
     bind_res (header_dict h) (\<lambda>header.
     bind_res (if precision = [] then detect_precision header else Inr precision) (\<lambda>prec.
       (let layers = layer_range_of header
        in Inr \<lparr>sd_shard_id = (if shard_id = []
                  then py_replace ''/'' ''_'' model_id @ ''__L'' @ int_str (fst layers) @ ''-'' @ int_str (snd layers) else shard_id),
                sd_model_id = model_id, sd_model_hash = model_hash, sd_layer_range = layers, sd_shard_format = ''safetensors'',
                sd_precision = prec, sd_size_bytes = length file, sd_tensor_names = tensor_names header,
                sd_checksum = hash_file sha 8192 file\<rparr>))))"

text \<open>The files \<^verbatim>\<open>*.safetensors\<close> of a directory, sorted by name.\<close>

definition ends_with :: "string \<Rightarrow> string \<Rightarrow> bool" where
  "ends_with suff s = (length suff \<le> length s \<and> drop (length s - length suff) s = suff)"

definition shard_files :: "(string, bytes) dict \<Rightarrow> (string \<times> bytes) list" where
  "shard_files files = sort_key fst (filter (\<lambda>(name, _). ends_with ''.safetensors'' name) files)"

fun scan_files ::
    "(bytes \<Rightarrow> json option) \<Rightarrow> (bytes \<Rightarrow> string) \<Rightarrow> string \<Rightarrow> string \<Rightarrow> (string \<times> bytes) list
     \<Rightarrow> shard_error + ShardDescriptor list" where
  "scan_files loads sha model_id model_hash [] = Inr []"
| "scan_files loads sha model_id model_hash ((name, file) # files) =
     (case build_shard_descriptor loads sha file model_id model_hash [] [] of
        Inl e \<Rightarrow> (if skipped_error e then scan_files loads sha model_id model_hash files else Inl e)
      | Inr d \<Rightarrow> bind_res (scan_files loads sha model_id model_hash files) (\<lambda>ds. Inr (d # ds)))"

definition scan_shard_directory ::
    "(bytes \<Rightarrow> json option) \<Rightarrow> (bytes \<Rightarrow> string) \<Rightarrow> (string, bytes) dict \<Rightarrow> string \<Rightarrow> string \<Rightarrow> shard_error + ShardDescriptor list" where
  "scan_shard_directory loads sha files model_id model_hash =
     bind_res (scan_files loads sha model_id model_hash (shard_files files)) (\<lambda>ds.
       Inr (sort_key (\<lambda>d. if fst (sd_layer_range d) \<ge> 0 then fst (sd_layer_range d) else 999) ds))"

section \<open>Shard manager\<close>

record ShardFileEntry =
  sf_filename :: string
  sf_layer_range :: "int \<times> int"
  sf_size_bytes :: nat
  sf_checksum :: string
  sf_tensor_count :: nat
  sf_precision :: string

record ShardManifest =
  sm_model_id :: string
  sm_total_layers :: int
  sm_layer_coverage :: "(int \<times> int) list"
  sm_files :: "ShardFileEntry list"
  sm_total_size_bytes :: nat
  sm_precision :: string
  sm_complete :: bool

text \<open>A model directory: its files, and \<^verbatim>\<open>manifest.json\<close>, absent, unreadable or a manifest.\<close>

datatype manifest_file = NoManifest | BadManifest | ManifestFile ShardManifest

record model_dir =
  md_files :: "(string, bytes) dict"
  md_manifest :: manifest_file

type_synonym shard_dir = "(string, model_dir) dict"

definition safe_name :: "string \<Rightarrow> string" where
  "safe_name model_id = py_replace ''/'' ''__'' model_id"

definition empty_model_dir :: model_dir where
  "empty_model_dir = \<lparr>md_files = [], md_manifest = NoManifest\<rparr>"

definition model_dir_of :: "shard_dir \<Rightarrow> string \<Rightarrow> model_dir" where
  "model_dir_of dir model_id = dget dir (safe_name model_id) empty_model_dir"

text \<open>The ranges of consecutive numbers in a sorted list, as the loop over \<^verbatim>\<open>sorted_layers\<close> builds them.\<close>

fun ranges_from :: "int \<Rightarrow> int \<Rightarrow> int list \<Rightarrow> (int \<times> int) list" where
  "ranges_from start prev [] = [(start, prev)]"
| "ranges_from start prev (l # ls) =
     (if l \<noteq> prev + 1 then (start, prev) # ranges_from l l ls else ranges_from start l ls)"

fun coverage_ranges :: "int list \<Rightarrow> (int \<times> int) list" where
  "coverage_ranges [] = []"
| "coverage_ranges (l # ls) = ranges_from l l ls"

definition covered_layers :: "(int \<times> int) list \<Rightarrow> int list" where
  "covered_layers layer_ranges = sorted_list_of_set (set (concat (map (\<lambda>(a, b). [a..b]) layer_ranges)))"

fun index_files ::
    "(bytes \<Rightarrow> json option) \<Rightarrow> (bytes \<Rightarrow> string) \<Rightarrow> string \<Rightarrow> (string \<times> bytes) list \<Rightarrow> shard_error + ShardFileEntry list" where
  "index_files loads sha model_id [] = Inr []"
| "index_files loads sha model_id ((name, file) # files) =
     (case build_shard_descriptor loads sha file model_id [] [] [] of
        Inl e \<Rightarrow> (if skipped_error e then index_files loads sha model_id files else Inl e)
      | Inr d \<Rightarrow> bind_res (index_files loads sha model_id files) (\<lambda>es.
          Inr (\<lparr>sf_filename = name, sf_layer_range = sd_layer_range d, sf_size_bytes = sd_size_bytes d,
                sf_checksum = sd_checksum d, sf_tensor_count = length (sd_tensor_names d), sf_precision = sd_precision d\<rparr> # es)))"

definition manifest_of :: "string \<Rightarrow> ShardFileEntry list \<Rightarrow> ShardManifest" where
  "manifest_of model_id entries =
     (let layers = covered_layers (filter (\<lambda>r. fst r \<ge> 0) (map sf_layer_range entries));
          ranges = coverage_ranges layers
      in \<lparr>sm_model_id = model_id, sm_total_layers = (if layers = [] then 0 else last layers + 1),
          sm_layer_coverage = ranges, sm_files = entries, sm_total_size_bytes = sum_list (map sf_size_bytes entries),
          sm_precision = (case filter (\<lambda>p. p \<noteq> []) (map sf_precision entries) of [] \<Rightarrow> [] | p # _ \<Rightarrow> p),
          sm_complete = (layers \<noteq> [] \<and> length ranges = 1 \<and> fst (hd ranges) = 0)\<rparr>)"

definition index_shards ::
    "(bytes \<Rightarrow> json option) \<Rightarrow> (bytes \<Rightarrow> string) \<Rightarrow> string \<Rightarrow> shard_dir \<Rightarrow> (shard_error + ShardManifest) \<times> shard_dir" where
  "index_shards loads sha model_id dir =
     (let md = model_dir_of dir model_id
      in case index_files loads sha model_id (shard_files (md_files md)) of
           Inl e \<Rightarrow> (Inl e, dset (safe_name model_id) md dir)
         | Inr entries \<Rightarrow>
             (let m = manifest_of model_id entries
              in (Inr m, dset (safe_name model_id) (md\<lparr>md_manifest := ManifestFile m\<rparr>) dir)))"

definition load_shard_manifest :: "shard_dir \<Rightarrow> string \<Rightarrow> ShardManifest option" where
  "load_shard_manifest dir model_id =
     (case md_manifest (model_dir_of dir model_id) of ManifestFile m \<Rightarrow> Some m | _ \<Rightarrow> None)"

record ShardConfig =
  sc_shard_id :: string
  sc_model_id :: string
  sc_layer_range :: "int \<times> int"
  sc_precision :: string
  sc_size_bytes :: nat
  sc_filename :: string
  sc_checksum :: string

definition in_requested :: "(int \<times> int) option \<Rightarrow> int \<times> int \<Rightarrow> bool" where
  "in_requested req r = (case req of None \<Rightarrow> True | Some (a, b) \<Rightarrow> \<not> (fst r \<ge> 0 \<and> (snd r < a \<or> fst r > b)))"

definition shard_config_of :: "string \<Rightarrow> ShardFileEntry \<Rightarrow> ShardConfig" where
  "shard_config_of model_id e =
     \<lparr>sc_shard_id = py_replace ''/'' ''_'' model_id @ ''__L'' @ int_str (fst (sf_layer_range e)) @ ''-''
        @ int_str (snd (sf_layer_range e)) @ ''__'' @ sf_filename e,
      sc_model_id = model_id, sc_layer_range = sf_layer_range e, sc_precision = sf_precision e,
      sc_size_bytes = sf_size_bytes e, sc_filename = sf_filename e, sc_checksum = sf_checksum e\<rparr>"

definition generate_shard_config ::
    "(bytes \<Rightarrow> json option) \<Rightarrow> (bytes \<Rightarrow> string) \<Rightarrow> string \<Rightarrow> (int \<times> int) option \<Rightarrow> shard_dir
     \<Rightarrow> (shard_error + ShardConfig list) \<times> shard_dir" where
  "generate_shard_config loads sha model_id req dir =
     (let (r, dir') = (case load_shard_manifest dir model_id of
                         None \<Rightarrow> index_shards loads sha model_id dir
                       | Some m \<Rightarrow> (Inr m, dir))
      in (bind_res r (\<lambda>m. Inr (map (shard_config_of model_id)
            (filter (\<lambda>e. in_requested req (sf_layer_range e)) (sm_files m)))), dir'))"

record VerifyResults =
  ve_passed :: "string list"
  ve_failed :: "string list"
  ve_missing :: "string list"

definition verify_all :: "(bytes \<Rightarrow> string) \<Rightarrow> shard_dir \<Rightarrow> string \<Rightarrow> VerifyResults" where
  "verify_all sha dir model_id =
     (case load_shard_manifest dir model_id of
        None \<Rightarrow> \<lparr>ve_passed = [], ve_failed = [], ve_missing = [''manifest not found'']\<rparr>
      | Some m \<Rightarrow>
          (let files = md_files (model_dir_of dir model_id);
               present = filter (\<lambda>e. sf_filename e \<in> set (dkeys files)) (sm_files m);
               good = (\<lambda>e. sf_checksum e = [] \<or> verify_shard_integrity sha (dget files (sf_filename e) []) (sf_checksum e))
           in \<lparr>ve_passed = map sf_filename (filter good present),
               ve_failed = map sf_filename (filter (\<lambda>e. \<not> good e) present),
               ve_missing = map sf_filename (filter (\<lambda>e. sf_filename e \<notin> set (dkeys files)) (sm_files m))\<rparr>))"

definition has_shards :: "model_dir \<Rightarrow> bool" where
  "has_shards md = (shard_files (md_files md) \<noteq> [])"

definition list_models :: "shard_dir \<Rightarrow> string list" where
  "list_models dir = sort (map (\<lambda>(name, _). py_replace ''__'' ''/'' name) (filter (\<lambda>(_, md). has_shards md) dir))"

definition model_usage :: "model_dir \<Rightarrow> nat \<times> nat" where
  "model_usage md = (length (shard_files (md_files md)), sum_list (map (length \<circ> snd) (shard_files (md_files md))))"

definition disk_usage :: "shard_dir \<Rightarrow> nat \<times> nat \<times> (string, nat \<times> nat) dict" where
  "disk_usage dir =
     (sum_list (map (\<lambda>(_, md). fst (model_usage md)) dir), sum_list (map (\<lambda>(_, md). snd (model_usage md)) dir),
      fold (\<lambda>(name, md) d. dset (py_replace ''__'' ''/'' name) (model_usage md) d) dir [])"

definition remove_model :: "string \<Rightarrow> shard_dir \<Rightarrow> bool \<times> shard_dir" where
  "remove_model model_id dir =
     (case map_of dir (safe_name model_id) of
        None \<Rightarrow> (False, dir)
      | Some md \<Rightarrow> if has_shards md then (True, ddel (safe_name model_id) dir) else (False, dir))"

definition get_shard_filepath :: "shard_dir \<Rightarrow> string \<Rightarrow> string \<Rightarrow> bytes option" where
  "get_shard_filepath dir model_id filename = map_of (md_files (model_dir_of dir model_id)) filename"

section \<open>Lemmas\<close>

lemma concat_chunks: "n > 0 \<Longrightarrow> concat (chunks n xs) = xs"
proof (induction n xs rule: chunks.induct)
  case (1 n xs)
  then show ?case by (cases "xs = []") (simp_all add: chunks.simps [of n])
qed

lemma hash_file_whole [simp]: "hash_file sha 8192 file = sha file"
  by (simp add: hash_file_def concat_chunks)

subsection \<open>Layers\<close>

lemma set_dkeys_dappend: "set (dkeys (dappend k v d)) = insert k (set (dkeys d))"
  unfolding dappend_def dkeys_dset by auto

lemma dkeys_fold_dappend:
  "set (dkeys (fold (\<lambda>x d. dappend (f x) x d) xs d)) = set (dkeys d) \<union> f ` set xs"
proof (induction xs arbitrary: d)
  case (Cons x xs)
  then show ?case using set_dkeys_dappend [of "f x" x d] by auto
qed simp

lemma fold_min: "fold min ks (k :: int) = Min (insert k (set ks))"
proof (induction ks arbitrary: k)
  case (Cons a ks)
  have "Min (insert (min a k) (set ks)) = Min (insert k (insert a (set ks)))"
    by (cases "ks = []") (auto simp: min.assoc min.left_commute min.commute)
  then show ?case using Cons by simp
qed simp

lemma fold_max: "fold max ks (k :: int) = Max (insert k (set ks))"
proof (induction ks arbitrary: k)
  case (Cons a ks)
  have "Max (insert (max a k) (set ks)) = Max (insert k (insert a (set ks)))"
    by (cases "ks = []") (auto simp: max.assoc max.left_commute max.commute)
  then show ?case using Cons by simp
qed simp

lemma min_max_set: "ks \<noteq> [] \<Longrightarrow> min_max ks = (Min (set ks), Max (set ks))"
  by (cases ks) (simp_all add: fold_min fold_max)

definition held_layers :: "(string, json) dict \<Rightarrow> int set" where
  "held_layers header = {l. l \<ge> 0 \<and> l \<in> layer_of ` set (tensor_names header)}"

lemma numbered_keys: "set (filter (\<lambda>k. k \<ge> 0) (dkeys (extract_layer_indices header))) = held_layers header"
  unfolding extract_layer_indices_def held_layers_def set_filter dkeys_fold_dappend by auto

subsection \<open>Ranges\<close>

definition in_ranges :: "(int \<times> int) list \<Rightarrow> int \<Rightarrow> bool" where
  "in_ranges rs l \<longleftrightarrow> (\<exists>(a, b) \<in> set rs. a \<le> l \<and> l \<le> b)"

text \<open>Non-empty ranges in ascending order with a gap between any two.\<close>

definition separated :: "(int \<times> int) list \<Rightarrow> bool" where
  "separated rs \<longleftrightarrow> sorted_wrt (\<lambda>(a, b) (c, d). b + 1 < c) rs \<and> list_all (\<lambda>(a, b). a \<le> b) rs"

lemma ranges_from_spec:
  "start \<le> prev \<Longrightarrow> sorted_wrt (<) (prev # ls) \<Longrightarrow>
     (\<forall>l. in_ranges (ranges_from start prev ls) l \<longleftrightarrow> (start \<le> l \<and> l \<le> prev) \<or> l \<in> set ls)
   \<and> separated (ranges_from start prev ls) \<and> fst (hd (ranges_from start prev ls)) = start
   \<and> (\<forall>(a, b) \<in> set (ranges_from start prev ls). start \<le> a)"
proof (induction start prev ls rule: ranges_from.induct)
  case (1 start prev)
  then show ?case by (auto simp: in_ranges_def separated_def)
next
  case (2 start prev l ls)
  show ?case
  proof (cases "l = prev + 1")
    case True
    have "start \<le> l" "sorted_wrt (<) (l # ls)" using 2(3,4) True by auto
    then show ?thesis using 2(2) True by auto
  next
    case False
    have "sorted_wrt (<) (l # ls)" "l > prev + 1" using 2(4) False by auto
    then show ?thesis using 2(1) [OF False] 2(3) False
      by (fastforce simp: in_ranges_def separated_def)
  qed
qed

lemma coverage_ranges_spec:
  assumes "sorted_wrt (<) ls"
  shows "in_ranges (coverage_ranges ls) l \<longleftrightarrow> l \<in> set ls" "separated (coverage_ranges ls)"
    "ls \<noteq> [] \<Longrightarrow> fst (hd (coverage_ranges ls)) = hd ls" "coverage_ranges ls = [] \<longleftrightarrow> ls = []"
proof -
  have "(in_ranges (coverage_ranges ls) l \<longleftrightarrow> l \<in> set ls) \<and> separated (coverage_ranges ls)
    \<and> (ls \<noteq> [] \<longrightarrow> fst (hd (coverage_ranges ls)) = hd ls) \<and> (coverage_ranges ls = [] \<longleftrightarrow> ls = [])"
  proof (cases ls)
    case (Cons k ks)
    have "ranges_from a b cs \<noteq> []" for a b cs by (induction a b cs rule: ranges_from.induct) auto
    then show ?thesis using ranges_from_spec [of k k ks] assms Cons by auto
  qed (simp add: in_ranges_def separated_def)
  then show "in_ranges (coverage_ranges ls) l \<longleftrightarrow> l \<in> set ls" "separated (coverage_ranges ls)"
    "ls \<noteq> [] \<Longrightarrow> fst (hd (coverage_ranges ls)) = hd ls" "coverage_ranges ls = [] \<longleftrightarrow> ls = []" by auto
qed

definition covered_below :: "ShardManifest \<Rightarrow> bool" where
  "covered_below m \<longleftrightarrow> (\<forall>l. 0 \<le> l \<and> l < sm_total_layers m \<longrightarrow> in_ranges (sm_layer_coverage m) l)"

text \<open>Overwriting a shard file behind the manager's back.\<close>

definition write_shard :: "string \<Rightarrow> string \<Rightarrow> bytes \<Rightarrow> shard_dir \<Rightarrow> shard_dir" where
  "write_shard model_id name bs dir =
     (let md = model_dir_of dir model_id
      in dset (safe_name model_id) (md\<lparr>md_files := dset name bs (md_files md)\<rparr>) dir)"

lemma covered_layers_spec: "sorted_wrt (<) (covered_layers rs)" "l \<in> set (covered_layers rs) \<longleftrightarrow> in_ranges rs l"
proof -
  have f: "set (concat (map (\<lambda>(a, b). [a..b]) rs)) = {l. in_ranges rs l}" by (auto simp: in_ranges_def)
  then have "finite {l. in_ranges rs l}" by (metis finite_set)
  then show "sorted_wrt (<) (covered_layers rs)" "l \<in> set (covered_layers rs) \<longleftrightarrow> in_ranges rs l"
    unfolding covered_layers_def f by (simp_all add: strict_sorted_list_of_set)
qed

lemma last_is_greatest: "sorted_wrt (<) ls \<Longrightarrow> (l :: int) \<in> set ls \<Longrightarrow> l \<le> last ls"
proof (induction ls)
  case (Cons a ls)
  have "a < last ls" if "ls \<noteq> []" using Cons.prems(1) last_in_set [OF that] by simp
  then show ?case using Cons by fastforce
qed simp

lemma hd_is_least: "sorted_wrt (<) ls \<Longrightarrow> (l :: int) \<in> set ls \<Longrightarrow> hd ls \<le> l"
  by (cases ls) auto

lemma replace_char:
  "py_replace [c] new s = concat (map (\<lambda>d. if d = c then new else [d]) s)"
proof (induction s)
  case (Cons d s)
  then show ?case by (simp add: starts_with_def)
qed simp

text \<open>What indexing leaves in the directory.\<close>

lemma index_shards_Inr:
  assumes "index_shards loads sha model_id dir = (Inr m, dir')"
  shows "\<exists>entries. index_files loads sha model_id (shard_files (md_files (model_dir_of dir model_id))) = Inr entries
    \<and> m = manifest_of model_id entries \<and> sm_files m = entries
    \<and> md_files (model_dir_of dir' model_id) = md_files (model_dir_of dir model_id)
    \<and> load_shard_manifest dir' model_id = Some m"
  using assms
  by (auto simp: index_shards_def Let_def load_shard_manifest_def model_dir_of_def manifest_of_def split: sum.splits)

lemma index_files_entries:
  "index_files loads sha model_id files = Inr entries \<Longrightarrow> e \<in> set entries \<Longrightarrow>
     \<exists>file. (sf_filename e, file) \<in> set files \<and> sf_checksum e = sha file"
proof (induction files arbitrary: entries)
  case (Cons f files)
  obtain name bs where f: "f = (name, bs)" by (cases f)
  show ?case
  proof (cases "build_shard_descriptor loads sha bs model_id [] [] []")
    case (Inl err)
    then show ?thesis using Cons f by (auto split: if_splits)
  next
    case (Inr d)
    then have "sd_checksum d = sha bs"
      by (auto simp: build_shard_descriptor_def bind_res_Inr Let_def)
    then obtain es where es: "index_files loads sha model_id files = Inr es"
        "entries = \<lparr>sf_filename = name, sf_layer_range = sd_layer_range d, sf_size_bytes = sd_size_bytes d,
           sf_checksum = sha bs, sf_tensor_count = length (sd_tensor_names d), sf_precision = sd_precision d\<rparr> # es"
      using Cons.prems(1) f Inr by (auto simp: bind_res_Inr)
    show ?thesis
    proof (cases "e \<in> set es")
      case True
      then show ?thesis using Cons.IH [OF es(1)] f by auto
    next
      case False
      then show ?thesis using Cons.prems(2) es(2) f by (intro exI [of _ bs]) auto
    qed
  qed
qed simp

lemma shard_file_lookup:
  assumes "well_keyed files" "(name, file) \<in> set (shard_files files)"
  shows "name \<in> set (dkeys files)" "dget files name [] = file"
proof -
  have i: "(name, file) \<in> set files" using assms(2) by (auto simp: shard_files_def)
  then show "name \<in> set (dkeys files)" by force
  have "map_of files name = Some file" using assms(1) i by (simp add: well_keyed_def)
  then show "dget files name [] = file" by (simp add: dget_def)
qed

section \<open>Properties\<close>

text \<open>
  Library fact: A header is only accepted when the file holds all of it and it is at most 100 MB, and it depends on
  nothing behind it: any file with the same first bytes has the same header.
\<close>

theorem header_reads_only_itself:
  assumes "read_safetensors_header loads file = Inr v"
  shows "8 + le_value (take 8 file) \<le> length file \<and> le_value (take 8 file) \<le> 100000000
    \<and> loads (take (le_value (take 8 file)) (drop 8 file)) = Some v
    \<and> read_safetensors_header loads (take (8 + le_value (take 8 file)) file @ other) = Inr v"
proof -
  have h: "8 \<le> length file" "le_value (take 8 file) \<le> 100000000" "le_value (take 8 file) \<le> length file - 8"
      "loads (take (le_value (take 8 file)) (drop 8 file)) = Some v"
    using assms by (auto simp: read_safetensors_header_def Let_def split: if_splits option.splits)
  let ?n = "le_value (take 8 file)"
  let ?g = "take (8 + ?n) file @ other"
  have g: "take 8 ?g = take 8 file" "take ?n (drop 8 ?g) = take ?n (drop 8 file)" "8 + ?n \<le> length ?g"
    using h(1,3) by (simp_all add: drop_take)
  have "read_safetensors_header loads ?g = Inr v"
    using g h unfolding read_safetensors_header_def Let_def g by simp
  then show ?thesis using h by linarith
qed

text \<open>
  Library fact: The layer range of a file is the hull of the layers of its tensors: the smallest and the largest, or
  -1 and -1 without any; the range counts every layer in between as held, whether or not a tensor
  belongs to it.
\<close>

theorem layer_range_is_hull:
  "layer_range_of header =
     (if held_layers header = {} then (-1, -1) else (Min (held_layers header), Max (held_layers header)))"
proof (cases "filter (\<lambda>k. k \<ge> 0) (dkeys (extract_layer_indices header)) = []")
  case True
  then have "held_layers header = {}" using numbered_keys [of header] by (metis list.set(1))
  then show ?thesis using True by (simp add: layer_range_of_def)
next
  case False
  then have "held_layers header \<noteq> {}" using numbered_keys [of header] by (metis set_empty)
  then show ?thesis using min_max_set [OF False] by (simp add: layer_range_of_def numbered_keys del: set_filter)
qed

text \<open>
  Library fact: The coverage of a manifest is exact: its ranges are ascending, separated by gaps and hold exactly the
  layers of the ranges of its files, and it is complete exactly when it covers every layer below its
  number of layers, which is one more than the largest layer found on disk and not a property of the model.
\<close>

theorem manifest_coverage_exact:
  "(in_ranges (sm_layer_coverage (manifest_of model_id entries)) l \<longleftrightarrow>
      in_ranges (filter (\<lambda>r. 0 \<le> fst r) (map sf_layer_range entries)) l)
   \<and> separated (sm_layer_coverage (manifest_of model_id entries))
   \<and> (sm_complete (manifest_of model_id entries) \<longleftrightarrow> 0 < sm_total_layers (manifest_of model_id entries)
        \<and> covered_below (manifest_of model_id entries))"
proof -
  define ls where "ls = covered_layers (filter (\<lambda>r. 0 \<le> fst r) (map sf_layer_range entries))"
  define m where "m = manifest_of model_id entries"
  have m: "sm_layer_coverage m = coverage_ranges ls" "sm_total_layers m = (if ls = [] then 0 else last ls + 1)"
    "sm_complete m \<longleftrightarrow> ls \<noteq> [] \<and> length (coverage_ranges ls) = 1 \<and> fst (hd (coverage_ranges ls)) = 0"
    by (simp_all add: m_def manifest_of_def ls_def Let_def)
  have ls: "sorted_wrt (<) ls" "\<And>l. l \<in> set ls \<longleftrightarrow> in_ranges (filter (\<lambda>r. 0 \<le> fst r) (map sf_layer_range entries)) l"
    unfolding ls_def by (rule covered_layers_spec)+
  have pos: "0 \<le> l" if "l \<in> set ls" for l using that unfolding ls(2) by (auto simp: in_ranges_def)
  note c = coverage_ranges_spec [OF ls(1)]
  have "sm_complete m \<longleftrightarrow> 0 < sm_total_layers m \<and> covered_below m"
  proof
    assume "sm_complete m"
    then have ne: "ls \<noteq> []" and "length (coverage_ranges ls) = 1" "fst (hd (coverage_ranges ls)) = 0" unfolding m(3) by auto
    then obtain r where "coverage_ranges ls = [r]" "fst r = 0" by (cases "coverage_ranges ls") auto
    then obtain b where r: "coverage_ranges ls = [(0, b)]" by (cases r) auto
    have "last ls \<le> b" using c(1) [of "last ls"] ne by (simp add: r in_ranges_def)
    then show "0 < sm_total_layers m \<and> covered_below m"
      using ne pos [of "last ls"] by (simp add: m covered_below_def r in_ranges_def)
  next
    assume a: "0 < sm_total_layers m \<and> covered_below m"
    then have ne: "ls \<noteq> []" by (auto simp: m(2))
    have cov: "l \<in> set ls" if "0 \<le> l" "l \<le> last ls" for l
      using a that ne c(1) by (simp add: covered_below_def m)
    have "hd ls = 0" using cov [of 0] pos [of "last ls"] pos [of "hd ls"] hd_is_least [OF ls(1)] ne by fastforce
    moreover have "length (coverage_ranges ls) = 1"
    proof (rule ccontr)
      assume "length (coverage_ranges ls) \<noteq> 1"
      then obtain a1 b1 a2 b2 rs where r: "coverage_ranges ls = (a1, b1) # (a2, b2) # rs"
        using c(4) ne by (metis length_0_conv length_Cons list.exhaust one_less_numeral_iff prod.exhaust list.size(3) One_nat_def)
      have s: "b1 + 1 < a2" "\<forall>(x, y) \<in> set rs. b1 + 1 < x" "a2 \<le> b2"
        using c(2) unfolding r separated_def by auto
      have "a2 \<in> set ls" using c(1) [of a2] s(3) by (auto simp: r in_ranges_def)
      then have "b1 + 1 \<le> last ls" using last_is_greatest [OF ls(1)] s(1) by fastforce
      moreover have "a1 \<in> set ls" "a1 \<le> b1" using c(1) [of a1] c(2) unfolding r separated_def by (auto simp: in_ranges_def)
      ultimately have "b1 + 1 \<in> set ls" using cov [of "b1 + 1"] pos [of a1] by linarith
      then show False using c(1) [of "b1 + 1"] s unfolding r in_ranges_def by auto
    qed
    ultimately show "sm_complete m" unfolding m(3) using c(3) ne by simp
  qed
  then show ?thesis using c(1,2) ls(2) unfolding m_def [symmetric] m(1) by blast
qed

text \<open>
  Library fact: A fresh index verifies: right after indexing every file of the manifest passes, none fails or is
  missing; and with a collision-free hash a file whose bytes change afterwards is reported as failed.
\<close>

theorem indexed_shards_verify:
  assumes "index_shards loads sha model_id dir = (Inr m, dir')" "well_keyed (md_files (model_dir_of dir model_id))"
  shows "verify_all sha dir' model_id = \<lparr>ve_passed = map sf_filename (sm_files m), ve_failed = [], ve_missing = []\<rparr>
    \<and> (\<forall>e \<in> set (sm_files m). \<forall>other. \<not> inj sha \<or> sf_checksum e = []
         \<or> other = dget (md_files (model_dir_of dir' model_id)) (sf_filename e) []
         \<or> sf_filename e \<in> set (ve_failed (verify_all sha (write_shard model_id (sf_filename e) other dir') model_id)))"
proof -
  obtain entries where i: "index_files loads sha model_id (shard_files (md_files (model_dir_of dir model_id))) = Inr entries"
      "sm_files m = entries" "md_files (model_dir_of dir' model_id) = md_files (model_dir_of dir model_id)"
      "load_shard_manifest dir' model_id = Some m"
    using index_shards_Inr [OF assms(1)] by blast
  let ?files = "md_files (model_dir_of dir model_id)"
  have e: "sf_filename e \<in> set (dkeys ?files) \<and> sf_checksum e = sha (dget ?files (sf_filename e) [])" if "e \<in> set entries" for e
    using index_files_entries [OF i(1) that] shard_file_lookup [OF assms(2)] by metis
  have "filter (\<lambda>e. sf_filename e \<in> set (dkeys ?files)) entries = entries"
    "filter (\<lambda>e. sf_filename e \<notin> set (dkeys ?files)) entries = []"
    using e by (auto simp: filter_id_conv filter_empty_conv)
  then have v: "verify_all sha dir' model_id = \<lparr>ve_passed = map sf_filename (sm_files m), ve_failed = [], ve_missing = []\<rparr>"
    using e unfolding verify_all_def i(4) option.case i(3) i(2) Let_def
    by (auto simp: verify_shard_integrity_def filter_id_conv filter_empty_conv)
  have "sf_filename x \<in> set (ve_failed (verify_all sha (write_shard model_id (sf_filename x) other dir') model_id))"
    if "x \<in> set entries" "inj sha" "sf_checksum x \<noteq> []" "other \<noteq> dget ?files (sf_filename x) []" for x other
  proof -
    let ?d = "write_shard model_id (sf_filename x) other dir'"
    have d: "md_files (model_dir_of ?d model_id) = dset (sf_filename x) other ?files" "load_shard_manifest ?d model_id = Some m"
      using i(3,4) by (simp_all add: write_shard_def model_dir_of_def load_shard_manifest_def)
    have "sha other \<noteq> sf_checksum x" using e [OF that(1)] that(2,4) by (simp add: inj_eq)
    then show ?thesis
      using that(1,3) i(2) unfolding verify_all_def d option.case Let_def
      by (auto simp: verify_shard_integrity_def dkeys_dset intro!: rev_image_eqI [of x])
  qed
  then show ?thesis using v i(2,3) by auto
qed

text \<open>
  Library fact: Two models can share a directory: replacing one slash of a model id by two underscores gives the
  same directory name, so removing one removes the other's shards.
\<close>

theorem model_directories_collide:
  shows "safe_name (a @ ''/'' @ b) = safe_name (a @ ''__'' @ b)
    \<and> remove_model (a @ ''/'' @ b) dir = remove_model (a @ ''__'' @ b) dir"
proof -
  have "safe_name (a @ ''/'' @ b) = safe_name (a @ ''__'' @ b)" unfolding safe_name_def replace_char by simp
  then show ?thesis unfolding remove_model_def by metis
qed

section \<open>Sample instances\<close>

definition sample_header :: "(string, json) dict" where
  "sample_header = [(''model.layers.0.w'', JObj [(''dtype'', JStr ''F16'')]), (''model.layers.5.w'', JObj [])]"

definition sample_loads :: "bytes \<Rightarrow> json option" where
  "sample_loads bs = Some (JObj sample_header)"

definition sample_file :: bytes where
  "sample_file = [0, 0, 0, 0, 0, 0, 0, 0, 7]"

definition sample_shard_dir :: shard_dir where
  "sample_shard_dir = [(''m'', \<lparr>md_files = [(''a.safetensors'', sample_file)], md_manifest = NoManifest\<rparr>)]"

lemma header_reads_only_itself_witness:
  "read_safetensors_header sample_loads (take 8 sample_file @ [1, 2]) = Inr (JObj sample_header)"
proof -
  have "read_safetensors_header sample_loads sample_file = Inr (JObj sample_header)"
    by (simp add: read_safetensors_header_def sample_loads_def sample_file_def)
  from header_reads_only_itself [OF this, of "[1, 2]"] show ?thesis by (simp add: sample_file_def)
qed

lemma indexed_shards_verify_witness:
  "ve_failed (verify_all (\<lambda>b. b64encode b) (snd (index_shards sample_loads b64encode ''m'' sample_shard_dir)) ''m'') = []"
proof -
  have b: "\<exists>d. build_shard_descriptor sample_loads b64encode sample_file ''m'' [] [] [] = Inr d"
    by (simp add: build_shard_descriptor_def read_safetensors_header_def sample_loads_def sample_file_def sample_header_def Let_def)
  have n: "safe_name ''m'' = ''m''" by (simp add: safe_name_def starts_with_def)
  then have md: "model_dir_of sample_shard_dir ''m'' = \<lparr>md_files = [(''a.safetensors'', sample_file)], md_manifest = NoManifest\<rparr>"
    by (simp add: model_dir_of_def sample_shard_dir_def dget_def)
  have "shard_files [(''a.safetensors'', sample_file)] = [(''a.safetensors'', sample_file)]"
    by (simp add: shard_files_def ends_with_def)
  then have "ok (fst (index_shards sample_loads b64encode ''m'' sample_shard_dir))"
    using b by (auto simp: index_shards_def md Let_def)
  then obtain m dir' where i: "index_shards sample_loads b64encode ''m'' sample_shard_dir = (Inr m, dir')"
    by (cases "index_shards sample_loads b64encode ''m'' sample_shard_dir") (metis fst_conv ok.elims(2))
  have "well_keyed (md_files (model_dir_of sample_shard_dir ''m''))" by (simp add: md well_keyed_def)
  from indexed_shards_verify [OF i this] show ?thesis unfolding i by simp
qed

end
