(* ===== verification/Storage_Network.thy ===== *)
theory Storage_Network
  imports Shard_Registry Shard_Store
begin

text \<open>
  The storage routes of \<^verbatim>\<open>maestro/node_server.py\<close> and \<^verbatim>\<open>maestro/api_storage.py\<close>: how a node answers a storage
  challenge from the files it declares, how it registers with the orchestrator, and the topology report
  over the registry.  The file system of a node maps paths to bytes; the clock and elapsed times are
  parameters.
\<close>

section \<open>Node\<close>

record NodeShard =
  ns_shard_id :: string
  ns_filepath :: string
  ns_size_bytes :: nat
  ns_model_id :: string
  ns_layer_range :: "int list"

record node_state =
  no_node_id :: string
  no_loaded_shards :: "NodeShard list"
  no_file_map :: "(string, string) dict"

text \<open>The configuration file: absent, unreadable, or the declared shards.\<close>

datatype shard_config_file = NoShardConfig | BadShardConfig | ShardConfigs "NodeShard list"

definition add_shard_file :: "(string, bytes) dict \<Rightarrow> NodeShard \<Rightarrow> (string, string) dict \<Rightarrow> (string, string) dict" where
  "add_shard_file fs s d =
     (if ns_shard_id s \<noteq> [] \<and> ns_filepath s \<noteq> [] \<and> ns_filepath s \<in> set (dkeys fs)
      then dset (ns_shard_id s) (ns_filepath s) d else d)"

definition load_shard_config :: "(string, bytes) dict \<Rightarrow> shard_config_file \<Rightarrow> node_state \<Rightarrow> node_state" where
  "load_shard_config fs cfg st =
     (case cfg of
        NoShardConfig \<Rightarrow> st
      | BadShardConfig \<Rightarrow> st\<lparr>no_loaded_shards := []\<rparr>
      | ShardConfigs shards \<Rightarrow> st\<lparr>no_loaded_shards := shards, no_file_map := fold (add_shard_file fs) shards (no_file_map st)\<rparr>)"

definition total_shard_size_mb :: "(string, bytes) dict \<Rightarrow> node_state \<Rightarrow> nat" where
  "total_shard_size_mb fs st =
     sum_list (map (\<lambda>s. case (if ns_filepath s = [] then None else map_of fs (ns_filepath s)) of
         Some content \<Rightarrow> length content | None \<Rightarrow> ns_size_bytes s) (no_loaded_shards st)) div (1024 * 1024)"

definition detect_capabilities :: "node_state \<Rightarrow> string list" where
  "detect_capabilities st =
     ''inference'' # (if list_ex (\<lambda>s. case ns_layer_range s of a # _ # _ \<Rightarrow> a = 0 | _ \<Rightarrow> False) (no_loaded_shards st)
                      then [''embeddings''] else [])"

fun nat_or :: "nat option \<Rightarrow> nat \<Rightarrow> nat" where
  "nat_or None d = d"
| "nat_or (Some n) d = (if n = 0 then d else n)"

fun opt_nat_str :: "nat option \<Rightarrow> string" where
  "opt_nat_str None = ''None''"
| "opt_nat_str (Some n) = nat_str n"

definition handle_challenge ::
    "(bytes \<Rightarrow> string) \<Rightarrow> (string, bytes) dict \<Rightarrow> real \<Rightarrow> real \<Rightarrow> node_state \<Rightarrow> StorageChallenge \<Rightarrow> ChallengeResponse" where
  "handle_challenge sha fs now elapsed_ms st c =
     (let base = \<lparr>rs_challenge_id = ch_challenge_id c, rs_node_id = no_node_id st, rs_responded_at = Some now,
            rs_response_hash = None, rs_inference_output_hash = None, rs_latency_ms = None, rs_passed = True,
            rs_failure_reason = None\<rparr>
      in if ch_challenge_type c = ''byte_range_hash'' then
           (case Option.bind (map_of (no_file_map st) (ch_shard_id c)) (\<lambda>p. if p = [] then None else map_of fs p) of
              Some content \<Rightarrow>
                (if content = [] then base\<lparr>rs_response_hash := Some [], rs_passed := False, rs_failure_reason := Some FileReadError\<rparr>
                 else
                   (let offset = nat_or (ch_byte_offset c) 0 mod length content;
                        len = min (nat_or (ch_byte_length c) 4096) (length content - offset)
                    in base\<lparr>rs_response_hash := Some (hash_byte_range sha content offset len)\<rparr>))
            | None \<Rightarrow>
                base\<lparr>rs_response_hash := Some (sha (utf8_encode
                  (ch_shard_id c @ '':'' @ opt_nat_str (ch_byte_offset c) @ '':'' @ opt_nat_str (ch_byte_length c))))\<rparr>)
         else if ch_challenge_type c = ''latency_probe'' then base\<lparr>rs_latency_ms := Some elapsed_ms\<rparr>
         else if ch_challenge_type c = ''canary_inference'' then
           base\<lparr>rs_inference_output_hash := Some (sha (utf8_encode (''canary:'' @ ch_shard_id c)))\<rparr>
         else base)"

section \<open>Orchestrator\<close>

definition shard_dict_of :: "NodeShard \<Rightarrow> ShardDict" where
  "shard_dict_of s = \<lparr>hs_shard_id = Some (ns_shard_id s), hs_model_id = ns_model_id s, hs_layer_range = ns_layer_range s\<rparr>"

text \<open>\<^verbatim>\<open>POST /api/storage/nodes/register\<close>, which a node calls at start and as its heartbeat.\<close>

definition new_host :: "string \<Rightarrow> string \<Rightarrow> nat \<Rightarrow> ShardDict list \<Rightarrow> string list \<Rightarrow> nat \<Rightarrow> WeightHost" where
  "new_host node_id host port shards capabilities total_memory_mb =
     \<lparr>wh_node_id = node_id, wh_host = host, wh_port = port, wh_status = ''available'', wh_shards = shards,
      wh_capabilities = capabilities, wh_total_memory_mb = total_memory_mb, wh_used_memory_mb = 0, wh_mean_latency_ms = 0,
      wh_reputation_score = 1, wh_metadata = [], wh_registered_at = None, wh_last_heartbeat = None,
      wh_domain_affinity = [], wh_warm = False, wh_hardware_class = ''unknown'', wh_last_active = None\<rparr>"

definition register_node ::
    "real \<Rightarrow> string \<Rightarrow> string \<Rightarrow> nat \<Rightarrow> ShardDict list \<Rightarrow> string list \<Rightarrow> nat \<Rightarrow> registry \<Rightarrow> registry" where
  "register_node now node_id host port shards capabilities memory rg =
     register now (new_host node_id host port shards capabilities memory) rg"

definition node_payload :: "(string, bytes) dict \<Rightarrow> string \<Rightarrow> nat \<Rightarrow> real \<Rightarrow> node_state \<Rightarrow> registry \<Rightarrow> registry" where
  "node_payload fs host port now st rg =
     register_node now (no_node_id st) (if host = ''0.0.0.0'' then ''127.0.0.1'' else host) port
       (map shard_dict_of (no_loaded_shards st)) (detect_capabilities st) (total_shard_size_mb fs st) rg"

text \<open>The topology of one model: the layers held by hosts in service, and what is derived from them.\<close>

record ModelTopology =
  mt_total_layers :: int
  mt_covered_layers :: nat
  mt_coverage_pct :: real
  mt_coverage_ranges :: "(int \<times> int) list"
  mt_gaps :: "(int \<times> int) list"
  mt_is_mirror :: bool
  mt_pipeline :: "WeightHost list"

definition model_ranges :: "string \<Rightarrow> registry \<Rightarrow> (int \<times> int) list" where
  "model_ranges model_id rg =
     concat (map (\<lambda>n. List.map_filter (range_of model_id) (wh_shards n)) (filter serving (list_nodes rg)))"

fun add_gap :: "int \<Rightarrow> (int \<times> int) list \<Rightarrow> (int \<times> int) list" where
  "add_gap i [] = [(i, i)]"
| "add_gap i [(a, b)] = (if b \<noteq> i - 1 then [(a, b), (i, i)] else [(a, i)])"
| "add_gap i (r # s # rs) = r # add_gap i (s # rs)"

definition gaps_of :: "int list \<Rightarrow> int \<Rightarrow> (int \<times> int) list" where
  "gaps_of layers total_layers = fold (\<lambda>i gs. if i \<notin> set layers then add_gap i gs else gs) [0..total_layers - 1] []"

definition model_topology :: "string \<Rightarrow> registry \<Rightarrow> ModelTopology" where
  "model_topology model_id rg =
     (let layers = covered_layers (model_ranges model_id rg);
          total_layers = (if layers = [] then 0 else last layers + 1)
      in \<lparr>mt_total_layers = total_layers, mt_covered_layers = length layers,
          mt_coverage_pct = (if total_layers > 0 then round1 (real (length layers) / of_int total_layers * 100) else 0),
          mt_coverage_ranges = coverage_ranges layers,
          mt_gaps = (if layers \<noteq> [] \<and> total_layers > 0 then gaps_of layers total_layers else []),
          mt_is_mirror = (total_layers > 0 \<and> int (length layers) = total_layers \<and> hd layers = 0),
          mt_pipeline = build_inference_pipeline rg model_id []\<rparr>)"

definition topology_models :: "registry \<Rightarrow> string list" where
  "topology_models rg =
     sort (remdups (filter (\<lambda>m. m \<noteq> []) (concat (map (\<lambda>n. map hs_model_id (wh_shards n)) (list_nodes rg)))))"

definition network_topology :: "registry \<Rightarrow> (string \<times> ModelTopology) list" where
  "network_topology rg = map (\<lambda>m. (m, model_topology m rg)) (topology_models rg)"

section \<open>Lemmas\<close>

lemma add_gap_not_Nil [simp]: "add_gap i gs \<noteq> []"
  by (induction i gs rule: add_gap.induct) auto

lemma separated_Cons: "separated (r # rs) \<longleftrightarrow> fst r \<le> snd r \<and> (\<forall>x \<in> set rs. snd r + 1 < fst x) \<and> separated rs"
  by (auto simp: separated_def case_prod_unfold)

lemma add_gap_spec:
  "separated gs \<Longrightarrow> \<forall>r \<in> set gs. snd r < i \<Longrightarrow>
     separated (add_gap i gs) \<and> (\<forall>l. in_ranges (add_gap i gs) l \<longleftrightarrow> in_ranges gs l \<or> l = i)
   \<and> (\<forall>r \<in> set (add_gap i gs). snd r \<le> i) \<and> (\<forall>x \<in> set (add_gap i gs). \<forall>y. gs = y # tl gs \<longrightarrow> fst y \<le> fst x)"
proof (induction i gs rule: add_gap.induct)
  case (3 i r s rs)
  have s: "separated (s # rs)" "\<forall>r \<in> set (s # rs). snd r < i" using 3(2,3) by (auto simp: separated_Cons)
  note IH = 3(1) [OF s]
  have c: "snd r + 1 < fst s" "fst r \<le> snd r" using 3(2) by (auto simp: separated_Cons)
  have lo: "snd r + 1 < fst x" if "x \<in> set (add_gap i (s # rs))" for x
    using IH that c(1) by fastforce
  have "separated (add_gap i (r # s # rs))" using IH lo c(2) by (simp add: separated_Cons)
  moreover have "\<forall>l. in_ranges (add_gap i (r # s # rs)) l \<longleftrightarrow> in_ranges (r # s # rs) l \<or> l = i"
    using IH by (auto simp: in_ranges_def)
  moreover have "\<forall>x \<in> set (add_gap i (r # s # rs)). snd x \<le> i" using IH 3(3) by auto
  moreover have "\<forall>x \<in> set (add_gap i (r # s # rs)). fst r \<le> fst x" using lo c by fastforce
  ultimately show ?case by simp
qed (auto simp: separated_def in_ranges_def)

lemma gaps_fold:
  assumes "sorted_wrt (<) is" "separated gs" "\<forall>r \<in> set gs. \<forall>i \<in> set is. snd r < i"
  shows "separated (fold (\<lambda>i gs. if i \<notin> S then add_gap i gs else gs) is gs)
    \<and> (\<forall>l. in_ranges (fold (\<lambda>i gs. if i \<notin> S then add_gap i gs else gs) is gs) l \<longleftrightarrow> in_ranges gs l \<or> (l \<in> set is \<and> l \<notin> S))"
  using assms
proof (induction "is" arbitrary: gs)
  case (Cons i "is")
  show ?case
  proof (cases "i \<in> S")
    case True
    then show ?thesis using Cons.IH [of gs] Cons.prems by auto
  next
    case False
    have g: "separated (add_gap i gs)" "\<forall>l. in_ranges (add_gap i gs) l \<longleftrightarrow> in_ranges gs l \<or> l = i"
      "\<forall>r \<in> set (add_gap i gs). snd r \<le> i"
      using add_gap_spec [of gs i] Cons.prems(2,3) by auto
    have "\<forall>r \<in> set (add_gap i gs). \<forall>j \<in> set is. snd r < j" using g(3) Cons.prems(1) by fastforce
    then show ?thesis using Cons.IH [of "add_gap i gs"] Cons.prems(1) g(1,2) False by auto
  qed
qed simp

lemma sorted_upto_wrt: "sorted_wrt (<) [a..b]"
  by (rule sorted_wrt_upto)

lemma gaps_of_spec:
  "separated (gaps_of layers n)" "in_ranges (gaps_of layers n) l \<longleftrightarrow> 0 \<le> l \<and> l < n \<and> l \<notin> set layers"
  using gaps_fold [of "[0..n - 1]" "[]" "set layers"] sorted_upto_wrt
  by (auto simp: gaps_of_def separated_def in_ranges_def)

lemma entries_ranges: "map (\<lambda>e. (se_start e, se_end e)) (shard_entries model_id domains rg) = model_ranges model_id rg"
  by (simp add: shard_entries_def model_ranges_def map_concat comp_def case_prod_unfold)

lemma ranges_of_entries: "in_ranges (model_ranges model_id rg) l \<longleftrightarrow> (\<exists>e \<in> set (shard_entries model_id domains rg). covers e l)"
  unfolding entries_ranges [of model_id domains rg, symmetric] by (auto simp: in_ranges_def covers_def)

lemma sorted_bounded_length:
  fixes ls :: "int list"
  assumes "sorted_wrt (<) ls" "\<And>l. l \<in> set ls \<Longrightarrow> 0 \<le> l \<and> l < n"
  shows "int (length ls) \<le> max 0 n" "0 < n \<Longrightarrow> int (length ls) = n \<longleftrightarrow> set ls = {0..<n}"
proof -
  have d: "card (set ls) = length ls" using assms(1) by (simp add: distinct_card strict_sorted_iff)
  have sub: "set ls \<subseteq> {0..<n}" using assms(2) by auto
  then have "card (set ls) \<le> card {0..<n}" by (intro card_mono) simp_all
  then show "int (length ls) \<le> max 0 n" using d by simp
  assume "0 < n"
  show "int (length ls) = n \<longleftrightarrow> set ls = {0..<n}"
  proof
    assume "int (length ls) = n"
    then have "card (set ls) = card {0..<n}" using d by simp
    then show "set ls = {0..<n}" using sub by (metis card_subset_eq finite_atLeastLessThan_int)
  next
    assume "set ls = {0..<n}"
    then show "int (length ls) = n" using d \<open>0 < n\<close> by simp
  qed
qed

text \<open>The layers of a model whose ranges are proper.\<close>

lemma topology_layers:
  assumes "list_all (\<lambda>r. 0 \<le> fst r) (model_ranges model_id rg)" "ls = covered_layers (model_ranges model_id rg)"
    "n = mt_total_layers (model_topology model_id rg)"
  shows "sorted_wrt (<) ls" "\<And>l. l \<in> set ls \<longleftrightarrow> in_ranges (model_ranges model_id rg) l"
    "\<And>l. l \<in> set ls \<Longrightarrow> 0 \<le> l \<and> l < n" "n = (if ls = [] then 0 else last ls + 1)" "ls = [] \<longleftrightarrow> n \<le> 0"
proof -
  show s: "sorted_wrt (<) ls" and i: "\<And>l. l \<in> set ls \<longleftrightarrow> in_ranges (model_ranges model_id rg) l"
    unfolding assms(2) by (rule covered_layers_spec)+
  show n: "n = (if ls = [] then 0 else last ls + 1)" unfolding assms(2,3) by (simp add: model_topology_def Let_def)
  show r: "0 \<le> l \<and> l < n" if "l \<in> set ls" for l
  proof -
    have "ls \<noteq> []" using that by auto
    moreover have "0 \<le> l" using that assms(1) unfolding i by (auto simp: in_ranges_def list_all_iff)
    ultimately show ?thesis using last_is_greatest [OF s that] n by simp
  qed
  show "ls = [] \<longleftrightarrow> n \<le> 0" using r [of "last ls"] n by auto
qed

section \<open>Properties\<close>

text \<open>
  C29: The storage proof is inverted: to a byte-range challenge a node that does not hold the shard's file
  gives the expected answer and passes, while a node that holds it hashes the bytes of the file, which
  with a collision-free hash only pass when they spell the text of the challenge.
\<close>

theorem holder_fails_challenge:
  assumes c: "issue_challenge sha uuid rnd t0 node_id shard_id ''byte_range_hash'' e = (c, e')"
    and sha: "inj sha" and time: "t \<le> t0 + 60"
    and absent: "map_of (no_file_map absent) shard_id = None"
    and holder: "map_of (no_file_map holder) shard_id = Some p" "p \<noteq> []" "map_of fs p = Some content" "content \<noteq> []"
      "take (min 4096 (length content - rnd mod 1048576 mod length content)) (drop (rnd mod 1048576 mod length content) content)
       \<noteq> utf8_encode (shard_id @ '':'' @ nat_str (rnd mod 1048576) @ '':'' @ nat_str 4096)"
  shows "fst (validate_response now (handle_challenge sha fs t ms absent c) e') = Inr True
    \<and> fst (validate_response now (handle_challenge sha fs t ms holder c) e') = Inr False"
proof -
  have ch: "ch_challenge_id c = uuid" "ch_shard_id c = shard_id" "ch_challenge_type c = ''byte_range_hash''"
      "ch_expires_at c = t0 + 60" "ch_byte_offset c = Some (rnd mod 1048576)" "ch_byte_length c = Some 4096"
      "ch_expected_hash c = Some (sha (utf8_encode (shard_id @ '':'' @ nat_str (rnd mod 1048576) @ '':'' @ nat_str 4096)))"
      "map_of (pe_pending e') uuid = Some c"
    using c by (auto simp: issue_challenge_def Let_def DEFAULT_CHALLENGE_WINDOW_SECONDS_def set_reputation_def)
  have a: "rs_response_hash (handle_challenge sha fs t ms absent c) = ch_expected_hash c"
    "rs_challenge_id (handle_challenge sha fs t ms absent c) = uuid"
    "rs_responded_at (handle_challenge sha fs t ms absent c) = Some t"
    using absent ch by (simp_all add: handle_challenge_def Let_def)
  have off: "nat_or (Some k) 0 = k" and l4: "nat_or (Some 4096) 4096 = 4096" for k by simp_all
  have h: "rs_response_hash (handle_challenge sha fs t ms holder c) \<noteq> ch_expected_hash c"
    "rs_challenge_id (handle_challenge sha fs t ms holder c) = uuid"
    "rs_responded_at (handle_challenge sha fs t ms holder c) = Some t"
    using holder ch sha by (simp_all add: handle_challenge_def Let_def off l4 hash_byte_range_def inj_eq del: nat_or.simps)
  show ?thesis
    using a h ch time
    by (simp add: validate_response_def Let_def check_response_def case_prod_unfold)
qed

text \<open>
  Library fact: A heartbeat reinstates an evicted host: it registers the node as new, so whatever status and
  reputation the registry held, the host is available with reputation 1 and back in service.
\<close>

theorem heartbeat_reinstates_evicted:
  assumes "get_node rg (no_node_id st) = Some h" "score < 3 / 10"
  shows "\<exists>evicted host'. get_node (update_reputation (no_node_id st) score rg) (no_node_id st) = Some evicted
    \<and> \<not> serving evicted
    \<and> get_node (node_payload fs host port now st (update_reputation (no_node_id st) score rg)) (no_node_id st) = Some host'
    \<and> serving host' \<and> wh_reputation_score host' = 1 \<and> wh_shards host' = map shard_dict_of (no_loaded_shards st)"
  using assms
  by (simp add: update_reputation_def change_node_def get_node_def save_node_def serving_def node_payload_def register_node_def
      register_def put_node_def new_host_def prepared_def)

lemma topology_coverage:
  assumes "list_all (\<lambda>r. 0 \<le> fst r) (model_ranges model_id rg)" "t = model_topology model_id rg"
  shows "(in_ranges (mt_coverage_ranges t) l \<longleftrightarrow> in_ranges (model_ranges model_id rg) l) \<and> separated (mt_coverage_ranges t)
    \<and> (in_ranges (mt_gaps t) l \<longleftrightarrow> 0 \<le> l \<and> l < mt_total_layers t \<and> \<not> in_ranges (model_ranges model_id rg) l)
    \<and> 0 \<le> mt_coverage_pct t \<and> mt_coverage_pct t \<le> 100
    \<and> (mt_is_mirror t \<longleftrightarrow> 0 < mt_total_layers t \<and> mt_gaps t = [])"
proof -
  define ls where "ls = covered_layers (model_ranges model_id rg)"
  define n where "n = mt_total_layers t"
  note ts = topology_layers [OF assms(1) ls_def n_def [unfolded assms(2)]]
  have t: "mt_coverage_ranges t = coverage_ranges ls" "mt_gaps t = (if ls \<noteq> [] \<and> n > 0 then gaps_of ls n else [])"
    "mt_coverage_pct t = (if n > 0 then round1 (real (length ls) / of_int n * 100) else 0)"
    "mt_is_mirror t \<longleftrightarrow> n > 0 \<and> int (length ls) = n \<and> hd ls = 0"
    using ts(4) unfolding assms(2) by (simp_all add: model_topology_def Let_def ls_def)
  have gaps: "in_ranges (mt_gaps t) k \<longleftrightarrow> 0 \<le> k \<and> k < n \<and> k \<notin> set ls" for k
    using gaps_of_spec(2) [of ls n k] ts(5) by (auto simp: t(2) in_ranges_def)
  have len: "int (length ls) \<le> max 0 n" using sorted_bounded_length(1) [OF ts(1) ts(3)] by blast
  have pct: "0 \<le> mt_coverage_pct t \<and> mt_coverage_pct t \<le> 100"
  proof (cases "n > 0")
    case True
    let ?x = "real (length ls) / of_int n * 100 * 10"
    have "0 \<le> ?x" "?x \<le> 1000" using True len by (simp_all add: field_simps)
    then have "round_half_even 0 \<le> round_half_even ?x" "round_half_even ?x \<le> round_half_even 1000"
      by (intro round_half_even_mono; simp)+
    then show ?thesis using True by (simp add: t(3) round1_def)
  qed (simp add: t(3))
  have sep: "separated (mt_gaps t)" using gaps_of_spec(1) by (simp add: t(2) separated_def)
  have none: "mt_gaps t = [] \<longleftrightarrow> (\<forall>k. \<not> in_ranges (mt_gaps t) k)"
    using sep by (cases "mt_gaps t") (auto simp: in_ranges_def separated_Cons)
  have mirror: "mt_is_mirror t \<longleftrightarrow> 0 < n \<and> mt_gaps t = []"
  proof (cases "0 < n")
    case True
    then have "ls \<noteq> []" using ts(5) by simp
    have "mt_is_mirror t \<longleftrightarrow> set ls = {0..<n}"
    proof
      assume "mt_is_mirror t"
      then show "set ls = {0..<n}" using sorted_bounded_length(2) [OF ts(1) ts(3) True] by (simp add: t(4))
    next
      assume eq: "set ls = {0..<n}"
      then have "hd ls = 0" using hd_is_least [OF ts(1), of 0] True \<open>ls \<noteq> []\<close> ts(3) [of "hd ls"] by fastforce
      then show "mt_is_mirror t" using sorted_bounded_length(2) [OF ts(1) ts(3) True] eq True by (simp add: t(4))
    qed
    also have "\<dots> \<longleftrightarrow> mt_gaps t = []" unfolding none gaps using ts(3) by auto
    finally show ?thesis using True by simp
  qed (simp add: t(4))
  show ?thesis
    using coverage_ranges_spec(1,2) [OF ts(1)] ts(2) gaps pct mirror by (simp add: t(1) n_def)
qed

text \<open>
  Library fact: The topology of a model is exact when its declared ranges start at 0 or above: the coverage ranges
  hold exactly the layers some host in service declares, the gaps exactly the layers below the total
  that none does, the percentage is at most 100, and the model is mirrored exactly when it has layers and no gap.
\<close>

theorem topology_exact:
  assumes "list_all (\<lambda>r. 0 \<le> fst r) (model_ranges model_id rg)" "t = model_topology model_id rg"
  shows "(in_ranges (mt_coverage_ranges t) l \<longleftrightarrow> in_ranges (model_ranges model_id rg) l) \<and> separated (mt_coverage_ranges t)
    \<and> (in_ranges (mt_gaps t) l \<longleftrightarrow> 0 \<le> l \<and> l < mt_total_layers t \<and> \<not> in_ranges (model_ranges model_id rg) l)
    \<and> 0 \<le> mt_coverage_pct t \<and> mt_coverage_pct t \<le> 100
    \<and> (mt_is_mirror t \<longleftrightarrow> 0 < mt_total_layers t \<and> mt_gaps t = [])"
  by (rule topology_coverage [OF assms])

text \<open>
  Library fact: A mirrored model can be run: when the topology reports a model with proper ranges as mirrored, its
  inference pipeline covers every layer below the total.
\<close>

theorem mirrored_model_has_pipeline:
  assumes "list_all (\<lambda>r. 0 \<le> fst r \<and> fst r \<le> snd r) (model_ranges model_id rg)" "mt_is_mirror (model_topology model_id rg)"
  shows "\<exists>hops. mt_pipeline (model_topology model_id rg) = map se_node hops
    \<and> set hops \<subseteq> set (shard_entries model_id [] rg)
    \<and> covers_all hops 0 (mt_total_layers (model_topology model_id rg))"
proof -
  let ?t = "model_topology model_id rg" and ?es = "shard_entries model_id [] rg"
  have r: "list_all (\<lambda>r. 0 \<le> fst r) (model_ranges model_id rg)" using assms(1) by (auto simp: list_all_iff)
  have "list_all (\<lambda>r. 0 \<le> snd r) (model_ranges model_id rg)" using assms(1) by (auto simp: list_all_iff)
  then have ends: "list_all (\<lambda>s. 0 \<le> se_end s) ?es"
    unfolding entries_ranges [of model_id "[]" rg, symmetric] by (auto simp: list_all_iff)
  have m: "0 < mt_total_layers ?t" "mt_gaps ?t = []" using topology_coverage [OF r refl] assms(2) by auto
  have all: "covers_all ?es 0 (mt_total_layers ?t)"
    unfolding covers_all_def
  proof (intro allI impI)
    fix l assume l: "0 \<le> l \<and> l < mt_total_layers ?t"
    have "\<not> in_ranges (mt_gaps ?t) l" using m(2) by (simp add: in_ranges_def)
    then have "in_ranges (model_ranges model_id rg) l" using topology_coverage [OF r refl, of l] l by blast
    then show "\<exists>s \<in> set ?es. covers s l" using ranges_of_entries by blast
  qed
  obtain hops bound where h: "build_inference_pipeline rg model_id [] = map se_node hops" "set hops \<subseteq> set ?es"
      "covers_all hops 0 bound" "bound > mt_total_layers ?t - 1 \<or> \<not> covers_all ?es 0 (mt_total_layers ?t - 1 + 1)
         \<or> mt_total_layers ?t - 1 < 0"
    using greedy_bound [OF disjI2 [OF ends [unfolded list_all_iff]]] by blast
  then have "covers_all hops 0 (mt_total_layers ?t)" using all m(1) unfolding covers_all_def by auto
  then show ?thesis using h(1,2) by (auto simp: model_topology_def Let_def)
qed

section \<open>Sample instances\<close>

definition sample_node :: "(string, string) dict \<Rightarrow> node_state" where
  "sample_node files = \<lparr>no_node_id = ''a'', no_loaded_shards = [], no_file_map = files\<rparr>"

lemma holder_fails_challenge_witness:
  "\<exists>c e. fst (validate_response 1 (handle_challenge b64encode [(''f'', [1])] 1 0 (sample_node []) c) e) = Inr True
     \<and> fst (validate_response 1 (handle_challenge b64encode [(''f'', [1])] 1 0 (sample_node [(''s'', ''f'')]) c) e) = Inr False"
proof -
  obtain c e where c: "issue_challenge b64encode ''c'' 0 0 ''a'' ''s'' ''byte_range_hash'' (open_engine NoReputations) = (c, e)"
    by (cases "issue_challenge b64encode ''c'' 0 0 ''a'' ''s'' ''byte_range_hash'' (open_engine NoReputations)") auto
  have i: "inj b64encode" by (rule inj_on_inverseI [of _ "the \<circ> b64decode"]) simp
  have ne: "[1] \<noteq> utf8_encode (''s'' @ '':'' @ x)" for x by (simp add: utf8_char_def)
  have n: "take (min 4096 (length [1] - 0 mod 1048576 mod length [1])) (drop (0 mod 1048576 mod length [1]) [1])
      \<noteq> utf8_encode (''s'' @ '':'' @ nat_str (0 mod 1048576) @ '':'' @ nat_str 4096)"
    using ne by (simp del: utf8_encode_simps append.simps)
  show ?thesis
    using holder_fails_challenge [OF c i, of 1 "sample_node []" "sample_node [(''s'', ''f'')]" "''f''" "[(''f'', [1])]" "[1]" 1 0] n
    by (auto simp: sample_node_def)
qed

lemma heartbeat_reinstates_evicted_witness:
  "\<exists>h. get_node (node_payload [] ''h'' 1 2 (sample_node []) (update_reputation ''a'' 0 sample_registry)) ''a'' = Some h \<and> serving h"
  using heartbeat_reinstates_evicted [of sample_registry "sample_node []" "sample_host ''a'' [0, 3]" 0 "[]" "''h''" 1 2]
  by (auto simp: sample_node_def sample_registry_def get_node_def)

lemma sample_ranges: "model_ranges ''m'' sample_registry = [(0, 3), (4, 7)]"
  unfolding entries_ranges [of "''m''" "[]", symmetric] by (rule sample_entries)

lemma topology_exact_witness:
  "in_ranges (mt_gaps (model_topology ''m'' sample_registry)) 2 \<longleftrightarrow> False"
  using topology_exact [of "''m''" sample_registry "model_topology ''m'' sample_registry" 2]
  by (simp add: sample_ranges in_ranges_def)

lemma mirrored_model_has_pipeline_witness:
  "\<exists>hops. mt_pipeline (model_topology ''m'' sample_registry) = map se_node hops
     \<and> covers_all hops 0 (mt_total_layers (model_topology ''m'' sample_registry))"
proof -
  have "covered_layers [(0, 3), (4, 7)] = [0, 1, 2, 3, 4, 5, 6, 7]" by code_simp
  then have "mt_is_mirror (model_topology ''m'' sample_registry)" by (simp add: model_topology_def Let_def sample_ranges)
  then show ?thesis using mirrored_model_has_pipeline [of "''m''" sample_registry] by (auto simp: sample_ranges)
qed

end
