(* ===== verification/Lan_Discovery.thy ===== *)
theory Lan_Discovery
  imports Prelude
begin

text \<open>
  \<^verbatim>\<open>maestro/lan_discovery.py\<close>: discovery of shards on the local network.  An engine broadcasts beacons, answers
  the beacons of others with a handshake of three messages, marks silent peers as stale and declares a
  Maestro Node when enough peers are adjacent.  A handler takes the engine to the engine after it and the
  datagrams it sends, with their host and port.  The clock is a parameter, read once per handler; a datagram
  that does not decode to an object is \<^term>\<open>None\<close>, and a field of a message that may be missing is an option.
  Opening and closing the socket and the logging are left out.
\<close>

section \<open>Data\<close>

datatype AdjacencyState = DISCOVERED | HANDSHAKE_SENT | HANDSHAKE_ACKED | CONFIRMED | STALE

datatype MsgType = BEACON | HANDSHAKE_INIT | HANDSHAKE_ACK | HANDSHAKE_CONFIRM

definition DISCOVERY_PORT :: nat where
  "DISCOVERY_PORT = 41820"

definition BEACON_INTERVAL :: real where
  "BEACON_INTERVAL = 3"

definition STALE_TIMEOUT :: real where
  "STALE_TIMEOUT = 15"

definition NODE_QUORUM :: nat where
  "NODE_QUORUM = 3"

record ShardIdentity =
  si_uid :: string
  si_human_name :: string
  si_host :: string
  si_port :: nat
  si_started_at :: string
  si_version :: string

record PeerShard =
  pe_uid :: string
  pe_human_name :: string
  pe_host :: string
  pe_port :: nat
  pe_adjacency :: AdjacencyState
  pe_last_seen :: real
  pe_first_seen :: real
  pe_handshake_initiated_at :: real
  pe_version :: string
  pe_latency_ms :: real

definition is_alive :: "real \<Rightarrow> PeerShard \<Rightarrow> bool" where
  "is_alive now p = (now - pe_last_seen p < STALE_TIMEOUT)"

definition is_adjacent :: "real \<Rightarrow> PeerShard \<Rightarrow> bool" where
  "is_adjacent now p = (pe_adjacency p = CONFIRMED \<and> is_alive now p)"

record MaestroNodeStatus =
  mn_formed :: bool
  mn_member_uids :: "string list"
  mn_member_names :: "string list"
  mn_formed_at :: string

definition no_node :: MaestroNodeStatus where
  "no_node = \<lparr>mn_formed = False, mn_member_uids = [], mn_member_names = [], mn_formed_at = ''''\<rparr>"

text \<open>A message; \<^term>\<open>lm_type\<close> is \<^term>\<open>None\<close> when the type is missing or none of the four.\<close>

record message =
  lm_type :: "MsgType option"
  lm_sender_uid :: "string option"
  lm_sender_name :: "string option"
  lm_sender_host :: "string option"
  lm_sender_port :: "nat option"
  lm_version :: "string option"
  lm_target_uid :: "string option"
  lm_init_ts :: "real option"
  lm_ts :: "real option"

type_synonym datagram = "message \<times> string \<times> nat"

record engine =
  de_identity :: ShardIdentity
  de_port :: nat
  de_quorum :: nat
  de_peers :: "(string, PeerShard) dict"
  de_node_status :: MaestroNodeStatus
  de_timestamps :: "(string, real) dict"
  de_running :: bool
  de_transport :: bool

abbreviation own_uid :: "engine \<Rightarrow> string" where
  "own_uid e \<equiv> si_uid (de_identity e)"

definition new_discovery :: "ShardIdentity \<Rightarrow> nat \<Rightarrow> nat \<Rightarrow> engine" where
  "new_discovery identity port quorum =
     \<lparr>de_identity = identity, de_port = port, de_quorum = quorum, de_peers = [], de_node_status = no_node,
      de_timestamps = [], de_running = False, de_transport = False\<rparr>"

definition start_discovery :: "string \<Rightarrow> engine \<Rightarrow> engine" where
  "start_discovery lan_ip e =
     (if de_running e then e
      else e\<lparr>de_running := True, de_transport := True,
             de_identity := (de_identity e)\<lparr>si_host := lan_ip, si_port := de_port e\<rparr>\<rparr>)"

section \<open>Queries\<close>

definition adjacent_peers :: "real \<Rightarrow> engine \<Rightarrow> PeerShard list" where
  "adjacent_peers now e = filter (is_adjacent now) (dvalues (de_peers e))"

definition alive_peers :: "real \<Rightarrow> engine \<Rightarrow> PeerShard list" where
  "alive_peers now e = filter (is_alive now) (dvalues (de_peers e))"

record peer_dict =
  pd_peer :: PeerShard
  pd_alive :: bool
  pd_adjacent :: bool
  pd_last_seen_ago :: "real option"
  pd_latency_ms :: real

definition peer_to_dict :: "real \<Rightarrow> PeerShard \<Rightarrow> peer_dict" where
  "peer_to_dict now p =
     \<lparr>pd_peer = p, pd_alive = is_alive now p, pd_adjacent = is_adjacent now p,
      pd_last_seen_ago = (if pe_last_seen p \<noteq> 0 then Some (round1 (now - pe_last_seen p)) else None),
      pd_latency_ms = round2 (pe_latency_ms p)\<rparr>"

record snapshot =
  sn_identity :: ShardIdentity
  sn_peers :: "(string, peer_dict) dict"
  sn_peer_count :: nat
  sn_alive_count :: nat
  sn_adjacent_count :: nat
  sn_node_status :: MaestroNodeStatus
  sn_is_maestro_node :: bool

definition snapshot_of :: "real \<Rightarrow> engine \<Rightarrow> snapshot" where
  "snapshot_of now e =
     \<lparr>sn_identity = de_identity e, sn_peers = map (\<lambda>(uid, p). (uid, peer_to_dict now p)) (de_peers e),
      sn_peer_count = length (de_peers e), sn_alive_count = length (alive_peers now e),
      sn_adjacent_count = length (adjacent_peers now e), sn_node_status = de_node_status e,
      sn_is_maestro_node = mn_formed (de_node_status e)\<rparr>"

record peer_row =
  pr_uid_short :: string
  pr_name :: string
  pr_host :: string
  pr_adjacency :: AdjacencyState
  pr_alive :: bool
  pr_adjacent :: bool
  pr_latency_ms :: real

definition peer_summary :: "real \<Rightarrow> engine \<Rightarrow> peer_row list" where
  "peer_summary now e =
     map (\<lambda>p. \<lparr>pr_uid_short = take 8 (pe_uid p), pr_name = pe_human_name p, pr_host = pe_host p,
               pr_adjacency = pe_adjacency p, pr_alive = is_alive now p, pr_adjacent = is_adjacent now p,
               pr_latency_ms = round1 (pe_latency_ms p)\<rparr>)
       (sort_key pe_first_seen (dvalues (de_peers e)))"

section \<open>Sending\<close>

definition send_to :: "engine \<Rightarrow> message \<Rightarrow> string \<Rightarrow> nat \<Rightarrow> datagram list" where
  "send_to e msg host port = (if de_transport e then [(msg, host, port)] else [])"

definition message_from :: "engine \<Rightarrow> real \<Rightarrow> MsgType \<Rightarrow> message" where
  "message_from e now kind =
     \<lparr>lm_type = Some kind, lm_sender_uid = Some (own_uid e), lm_sender_name = Some (si_human_name (de_identity e)),
      lm_sender_host = Some (si_host (de_identity e)), lm_sender_port = Some (si_port (de_identity e)),
      lm_version = None, lm_target_uid = None, lm_init_ts = None, lm_ts = Some now\<rparr>"

definition send_beacon :: "real \<Rightarrow> engine \<Rightarrow> datagram list" where
  "send_beacon now e =
     send_to e ((message_from e now BEACON)\<lparr>lm_version := Some (si_version (de_identity e))\<rparr>) ''255.255.255.255'' (de_port e)"

section \<open>The node status\<close>

definition evaluate_node_status :: "real \<Rightarrow> string \<Rightarrow> engine \<Rightarrow> engine" where
  "evaluate_node_status now utc e =
     (let adjacent = adjacent_peers now e; total_members = length adjacent + 1 in
      if de_quorum e \<le> total_members then
        if \<not> mn_formed (de_node_status e) then
          e\<lparr>de_node_status :=
              \<lparr>mn_formed = True,
               mn_member_uids = take (de_quorum e) (own_uid e # map pe_uid adjacent),
               mn_member_names = take (de_quorum e) (si_human_name (de_identity e) # map pe_human_name adjacent),
               mn_formed_at = utc\<rparr>\<rparr>
        else e
      else if mn_formed (de_node_status e) then e\<lparr>de_node_status := no_node\<rparr> else e)"

section \<open>Handlers\<close>

definition put_peer :: "PeerShard \<Rightarrow> engine \<Rightarrow> engine" where
  "put_peer p e = e\<lparr>de_peers := dset (pe_uid p) p (de_peers e)\<rparr>"

definition initiate_handshake :: "real \<Rightarrow> PeerShard \<Rightarrow> engine \<Rightarrow> engine \<times> datagram list" where
  "initiate_handshake now p e =
     (put_peer (p\<lparr>pe_adjacency := HANDSHAKE_SENT, pe_handshake_initiated_at := now\<rparr>)
        (e\<lparr>de_timestamps := dset (pe_uid p) now (de_timestamps e)\<rparr>),
      send_to e ((message_from e now HANDSHAKE_INIT)\<lparr>lm_target_uid := Some (pe_uid p)\<rparr>) (pe_host p) (pe_port p))"

definition discovered :: "real \<Rightarrow> string \<Rightarrow> message \<Rightarrow> string \<Rightarrow> PeerShard" where
  "discovered now addr_host msg uid =
     \<lparr>pe_uid = uid, pe_human_name = or_else (lm_sender_name msg) ''unknown'',
      pe_host = or_else (lm_sender_host msg) addr_host, pe_port = or_else (lm_sender_port msg) DISCOVERY_PORT,
      pe_adjacency = DISCOVERED, pe_last_seen = now, pe_first_seen = now, pe_handshake_initiated_at = 0,
      pe_version = '''', pe_latency_ms = 0\<rparr>"

definition on_beacon :: "real \<Rightarrow> string \<Rightarrow> message \<Rightarrow> string \<Rightarrow> engine \<Rightarrow> engine \<times> datagram list" where
  "on_beacon now addr_host msg uid e =
     (case map_of (de_peers e) uid of
        Some p \<Rightarrow>
          (let p' = p\<lparr>pe_last_seen := now, pe_host := or_else (lm_sender_host msg) addr_host,
                      pe_port := or_else (lm_sender_port msg) DISCOVERY_PORT,
                      pe_version := or_else (lm_version msg) ''''\<rparr>
           in if pe_adjacency p' = STALE then initiate_handshake now (p'\<lparr>pe_adjacency := DISCOVERED\<rparr>) e
              else (put_peer p' e, []))
      | None \<Rightarrow>
          (let p = (discovered now addr_host msg uid)\<lparr>pe_version := or_else (lm_version msg) ''''\<rparr>
           in initiate_handshake now p (put_peer p e)))"

definition on_handshake_init :: "real \<Rightarrow> string \<Rightarrow> message \<Rightarrow> string \<Rightarrow> engine \<Rightarrow> engine \<times> datagram list" where
  "on_handshake_init now addr_host msg uid e =
     (let p = (case map_of (de_peers e) uid of None \<Rightarrow> discovered now addr_host msg uid | Some p \<Rightarrow> p\<lparr>pe_last_seen := now\<rparr>)
      in (put_peer (p\<lparr>pe_adjacency := HANDSHAKE_ACKED\<rparr>) e,
          send_to e ((message_from e now HANDSHAKE_ACK)\<lparr>lm_target_uid := Some uid, lm_init_ts := Some (or_else (lm_ts msg) 0)\<rparr>)
            (pe_host p) (pe_port p)))"

definition on_handshake_ack :: "real \<Rightarrow> string \<Rightarrow> message \<Rightarrow> string \<Rightarrow> engine \<Rightarrow> engine \<times> datagram list" where
  "on_handshake_ack now utc msg uid e =
     (case map_of (de_peers e) uid of
        None \<Rightarrow> (e, [])
      | Some p \<Rightarrow>
          (let init_ts = or_else (map_of (de_timestamps e) uid) 0;
               p' = p\<lparr>pe_last_seen := now, pe_latency_ms := (if init_ts \<noteq> 0 then (now - init_ts) * 1000 else pe_latency_ms p),
                      pe_adjacency := CONFIRMED\<rparr>
           in (evaluate_node_status now utc (put_peer p' e),
               send_to e ((message_from e now HANDSHAKE_CONFIRM)\<lparr>lm_target_uid := Some uid\<rparr>) (pe_host p) (pe_port p))))"

definition on_handshake_confirm :: "real \<Rightarrow> string \<Rightarrow> message \<Rightarrow> string \<Rightarrow> engine \<Rightarrow> engine \<times> datagram list" where
  "on_handshake_confirm now utc msg uid e =
     (case map_of (de_peers e) uid of
        None \<Rightarrow> (e, [])
      | Some p \<Rightarrow> (evaluate_node_status now utc (put_peer (p\<lparr>pe_last_seen := now, pe_adjacency := CONFIRMED\<rparr>) e), []))"

text \<open>A message without a sender raises a \<^verbatim>\<open>KeyError\<close> in its handler, before anything changes.\<close>

definition handle_message :: "real \<Rightarrow> string \<Rightarrow> string \<Rightarrow> message \<Rightarrow> engine \<Rightarrow> engine \<times> datagram list" where
  "handle_message now utc addr_host msg e =
     (case (lm_type msg, lm_sender_uid msg) of
        (Some BEACON, Some uid) \<Rightarrow> on_beacon now addr_host msg uid e
      | (Some HANDSHAKE_INIT, Some uid) \<Rightarrow> on_handshake_init now addr_host msg uid e
      | (Some HANDSHAKE_ACK, Some uid) \<Rightarrow> on_handshake_ack now utc msg uid e
      | (Some HANDSHAKE_CONFIRM, Some uid) \<Rightarrow> on_handshake_confirm now utc msg uid e
      | _ \<Rightarrow> (e, []))"

definition datagram_received :: "real \<Rightarrow> string \<Rightarrow> string \<Rightarrow> message option \<Rightarrow> engine \<Rightarrow> engine \<times> datagram list" where
  "datagram_received now utc addr_host data e =
     (case data of
        None \<Rightarrow> (e, [])
      | Some msg \<Rightarrow>
          if or_else (lm_sender_uid msg) '''' = own_uid e then (e, []) else handle_message now utc addr_host msg e)"

definition mark_stale :: "real \<Rightarrow> PeerShard \<Rightarrow> PeerShard" where
  "mark_stale now p = (if pe_adjacency p \<noteq> STALE \<and> \<not> is_alive now p then p\<lparr>pe_adjacency := STALE\<rparr> else p)"

definition mark_all :: "real \<Rightarrow> (string, PeerShard) dict \<Rightarrow> (string, PeerShard) dict" where
  "mark_all now peers = map (\<lambda>(uid, p). (uid, mark_stale now p)) peers"

definition prune :: "real \<Rightarrow> string \<Rightarrow> engine \<Rightarrow> engine" where
  "prune now utc e =
     evaluate_node_status now utc (e\<lparr>de_peers := mark_all now (de_peers e)\<rparr>)"

section \<open>The state of an engine\<close>

definition peer_ok :: "real \<Rightarrow> string \<Rightarrow> PeerShard \<Rightarrow> bool" where
  "peer_ok now own p = (pe_uid p \<noteq> own \<and> pe_first_seen p \<le> pe_last_seen p \<and> pe_last_seen p \<le> now \<and> 0 \<le> pe_latency_ms p)"

definition node_ok :: "engine \<Rightarrow> bool" where
  "node_ok e = (let s = de_node_status e in
     if mn_formed s then
       length (mn_member_uids s) = de_quorum e \<and> length (mn_member_names s) = de_quorum e \<and> distinct (mn_member_uids s)
       \<and> hd (mn_member_uids s) = own_uid e \<and> set (tl (mn_member_uids s)) \<subseteq> set (dkeys (de_peers e))
     else s = no_node)"

definition discovery_ok :: "real \<Rightarrow> engine \<Rightarrow> bool" where
  "discovery_ok now e = (well_keyed (de_peers e) \<and> 0 < de_quorum e \<and> node_ok e
     \<and> (\<forall>uid p. map_of (de_peers e) uid = Some p \<longrightarrow> pe_uid p = uid \<and> peer_ok now (own_uid e) p)
     \<and> (\<forall>uid ts. map_of (de_timestamps e) uid = Some ts \<longrightarrow> ts \<le> now \<and> uid \<in> set (dkeys (de_peers e))))"

inductive discovery_reachable :: "real \<Rightarrow> engine \<Rightarrow> bool" where
  discovery_new: "0 < quorum \<Longrightarrow> discovery_reachable now (new_discovery identity port quorum)"
| discovery_started: "discovery_reachable now e \<Longrightarrow> discovery_reachable now (start_discovery ip e)"
| discovery_datagram:
    "discovery_reachable before e \<Longrightarrow> before \<le> now
     \<Longrightarrow> discovery_reachable now (fst (datagram_received now utc addr_host data e))"
| discovery_pruned: "discovery_reachable before e \<Longrightarrow> before \<le> now \<Longrightarrow> discovery_reachable now (prune now utc e)"

lemma no_node_formed [simp]: "\<not> mn_formed no_node"
  by (simp add: no_node_def)

lemma put_peer_fields [simp]:
  "de_identity (put_peer p e) = de_identity e" "de_quorum (put_peer p e) = de_quorum e"
  "de_node_status (put_peer p e) = de_node_status e" "de_timestamps (put_peer p e) = de_timestamps e"
  "de_transport (put_peer p e) = de_transport e" "de_peers (put_peer p e) = dset (pe_uid p) p (de_peers e)"
  by (simp_all add: put_peer_def)

lemma evaluate_fields [simp]:
  "de_identity (evaluate_node_status now utc e) = de_identity e" "de_quorum (evaluate_node_status now utc e) = de_quorum e"
  "de_peers (evaluate_node_status now utc e) = de_peers e" "de_timestamps (evaluate_node_status now utc e) = de_timestamps e"
  "de_transport (evaluate_node_status now utc e) = de_transport e"
  by (simp_all add: evaluate_node_status_def Let_def)

lemma discovery_ok_later: "discovery_ok before e \<Longrightarrow> before \<le> now \<Longrightarrow> discovery_ok now e"
  unfolding discovery_ok_def peer_ok_def by (meson order_trans)

lemma adjacent_uids:
  assumes "discovery_ok now e"
  shows "set (map pe_uid (adjacent_peers now e)) \<subseteq> set (dkeys (de_peers e))" "distinct (map pe_uid (adjacent_peers now e))"
    "own_uid e \<notin> set (map pe_uid (adjacent_peers now e))"
proof -
  have wk: "distinct (dkeys (de_peers e))" using assms by (simp add: discovery_ok_def well_keyed_def)
  have keyed: "pe_uid p = uid \<and> pe_uid p \<noteq> own_uid e" if "(uid, p) \<in> set (de_peers e)" for uid p
    using assms map_of_is_SomeI [OF wk that] by (auto simp: discovery_ok_def peer_ok_def)
  have eq: "map pe_uid (dvalues (de_peers e)) = dkeys (de_peers e)"
    using keyed by (auto simp: list_eq_iff_nth_eq)
  show "distinct (map pe_uid (adjacent_peers now e))"
    using wk unfolding adjacent_peers_def eq [symmetric] by (simp add: distinct_map_filter)
  show "set (map pe_uid (adjacent_peers now e)) \<subseteq> set (dkeys (de_peers e))"
    unfolding adjacent_peers_def eq [symmetric] by auto
  show "own_uid e \<notin> set (map pe_uid (adjacent_peers now e))"
    using keyed unfolding eq [symmetric] adjacent_peers_def by fastforce
qed

lemma set_tl_take: "set (tl (take n (x # xs))) \<subseteq> set xs"
  by (cases n) (auto dest: in_set_takeD)

lemma evaluate_ok:
  assumes ok: "discovery_ok now e"
  shows "discovery_ok now (evaluate_node_status now utc e)"
proof -
  let ?adj = "adjacent_peers now e"
  note adj = adjacent_uids [OF ok]
  have tl: "set (tl (take (de_quorum e) (own_uid e # map pe_uid ?adj))) \<subseteq> set (dkeys (de_peers e))"
    using set_tl_take [of "de_quorum e" "own_uid e" "map pe_uid ?adj"] adj(1) by blast
  have "distinct (take (de_quorum e) (own_uid e # map pe_uid ?adj))" using adj by (intro distinct_take) simp
  moreover have "hd (take (de_quorum e) (own_uid e # map pe_uid ?adj)) = own_uid e"
    using ok by (cases "de_quorum e") (simp_all add: discovery_ok_def)
  ultimately have "node_ok (evaluate_node_status now utc e)" if "node_ok e"
    using that tl by (auto simp: evaluate_node_status_def node_ok_def Let_def min_def)
  then show ?thesis using ok by (simp add: discovery_ok_def)
qed

lemma put_peer_ok:
  assumes "discovery_ok now e" "peer_ok now (own_uid e) p"
  shows "discovery_ok now (put_peer p e)"
  using assms by (auto simp: discovery_ok_def node_ok_def Let_def dkeys_dset split: if_splits)

lemma initiate_ok:
  assumes "discovery_ok now e" "peer_ok now (own_uid e) p"
  shows "discovery_ok now (fst (initiate_handshake now p e))"
  using assms by (auto simp: discovery_ok_def node_ok_def Let_def dkeys_dset initiate_handshake_def peer_ok_def split: if_splits)

lemma known_peer:
  assumes "discovery_ok now e" "map_of (de_peers e) uid = Some p"
  shows "pe_uid p = uid" "peer_ok now (own_uid e) p"
  using assms by (auto simp: discovery_ok_def)

lemma on_beacon_ok:
  assumes ok: "discovery_ok now e" and other: "uid \<noteq> own_uid e"
  shows "discovery_ok now (fst (on_beacon now addr_host msg uid e))"
proof (cases "map_of (de_peers e) uid")
  case None
  let ?p = "(discovered now addr_host msg uid)\<lparr>pe_version := or_else (lm_version msg) ''''\<rparr>"
  have p: "peer_ok now (own_uid e) ?p" using other by (simp add: peer_ok_def discovered_def)
  show ?thesis using initiate_ok [OF put_peer_ok [OF ok p], of ?p] p None by (simp add: on_beacon_def Let_def)
next
  case (Some p)
  note p = known_peer [OF ok Some]
  have p': "peer_ok now (own_uid e) (p\<lparr>pe_last_seen := now, pe_host := h, pe_port := n, pe_version := v, pe_adjacency := a\<rparr>)"
    "peer_ok now (own_uid e) (p\<lparr>pe_last_seen := now, pe_host := h, pe_port := n, pe_version := v\<rparr>)" for h n v a
    using p(2) by (simp_all add: peer_ok_def)
  show ?thesis using Some initiate_ok [OF ok p'(1)] put_peer_ok [OF ok p'(2)] by (simp add: on_beacon_def Let_def)
qed

lemma on_init_ok:
  assumes ok: "discovery_ok now e" and other: "uid \<noteq> own_uid e"
  shows "discovery_ok now (fst (on_handshake_init now addr_host msg uid e))"
proof (cases "map_of (de_peers e) uid")
  case None
  then show ?thesis using other
    by (auto simp: on_handshake_init_def Let_def intro!: put_peer_ok [OF ok]) (simp add: peer_ok_def discovered_def)
next
  case (Some p)
  then show ?thesis using known_peer [OF ok Some]
    by (auto simp: on_handshake_init_def Let_def intro!: put_peer_ok [OF ok]) (simp add: peer_ok_def)
qed

lemma on_ack_ok: "discovery_ok now e \<Longrightarrow> discovery_ok now (fst (on_handshake_ack now utc msg uid e))"
proof (cases "map_of (de_peers e) uid")
  case (Some p)
  assume ok: "discovery_ok now e"
  have ts: "0 \<le> (now - or_else (map_of (de_timestamps e) uid) 0) * 1000"
    if "or_else (map_of (de_timestamps e) uid) 0 \<noteq> 0"
    using that ok by (cases "map_of (de_timestamps e) uid") (auto simp: discovery_ok_def)
  show ?thesis unfolding on_handshake_ack_def Some
    using known_peer [OF ok Some] ts by (auto simp: Let_def peer_ok_def intro!: evaluate_ok put_peer_ok [OF ok])
qed (simp add: on_handshake_ack_def)

lemma on_confirm_ok: "discovery_ok now e \<Longrightarrow> discovery_ok now (fst (on_handshake_confirm now utc msg uid e))"
proof (cases "map_of (de_peers e) uid")
  case (Some p)
  assume ok: "discovery_ok now e"
  show ?thesis unfolding on_handshake_confirm_def Some
    using known_peer [OF ok Some] by (auto simp: peer_ok_def intro!: evaluate_ok put_peer_ok [OF ok])
qed (simp add: on_handshake_confirm_def)

lemma datagram_ok:
  assumes ok: "discovery_ok now e"
  shows "discovery_ok now (fst (datagram_received now utc addr_host data e))"
proof (cases data)
  case (Some msg)
  show ?thesis
  proof (cases "lm_sender_uid msg")
    case (Some uid)
    then show ?thesis using \<open>data = Some msg\<close> ok on_beacon_ok [OF ok, of uid] on_init_ok [OF ok, of uid] on_ack_ok [OF ok] on_confirm_ok [OF ok]
      by (auto simp: datagram_received_def handle_message_def split: option.split MsgType.split)
  qed (use \<open>data = Some msg\<close> ok in \<open>auto simp: datagram_received_def handle_message_def split: option.split MsgType.split\<close>)
qed (simp add: datagram_received_def ok)

lemma map_of_mark_all: "map_of (mark_all now d) k = map_option (mark_stale now) (map_of d k)"
  by (induction d) (auto simp: mark_all_def)

lemma mark_all_keys [simp]: "dkeys (mark_all now d) = dkeys d" "fst ` set (mark_all now d) = fst ` set d"
proof -
  show "dkeys (mark_all now d) = dkeys d" by (induction d) (auto simp: mark_all_def)
  then show "fst ` set (mark_all now d) = fst ` set d" by (metis list.set_map)
qed

lemma mark_stale_fields [simp]:
  "pe_uid (mark_stale now p) = pe_uid p" "pe_last_seen (mark_stale now p) = pe_last_seen p"
  "pe_first_seen (mark_stale now p) = pe_first_seen p" "pe_latency_ms (mark_stale now p) = pe_latency_ms p"
  "is_alive now (mark_stale now p) = is_alive now p"
  by (simp_all add: mark_stale_def is_alive_def)

lemma prune_ok: "discovery_ok now e \<Longrightarrow> discovery_ok now (prune now utc e)"
  unfolding prune_def
  by (rule evaluate_ok) (auto simp: discovery_ok_def node_ok_def Let_def map_of_mark_all well_keyed_def peer_ok_def; metis)

lemma start_ok: "discovery_ok now e \<Longrightarrow> discovery_ok now (start_discovery ip e)"
  by (auto simp: start_discovery_def discovery_ok_def node_ok_def Let_def)

lemma discovery_reachable_ok: "discovery_reachable now e \<Longrightarrow> discovery_ok now e"
proof (induction rule: discovery_reachable.induct)
  case (discovery_new quorum now identity port)
  then show ?case by (simp add: discovery_ok_def new_discovery_def node_ok_def no_node_def)
qed (blast intro: start_ok datagram_ok prune_ok discovery_ok_later)+

section \<open>Properties of one engine\<close>

text \<open>
  C32: Whatever datagrams arrive and whenever the engine prunes, it never lists itself as a peer, a peer was
  seen no later than now and its latency is not negative, and the node status is either empty or
  names exactly a quorum of distinct shards, itself first and known peers after it.
\<close>

theorem discovery_invariant:
  assumes "discovery_reachable now e"
  shows "map_of (de_peers e) (own_uid e) = None
    \<and> (case map_of (de_peers e) uid of None \<Rightarrow> True
       | Some p \<Rightarrow> pe_uid p = uid \<and> pe_first_seen p \<le> pe_last_seen p \<and> pe_last_seen p \<le> now \<and> 0 \<le> pe_latency_ms p)
    \<and> (if mn_formed (de_node_status e)
       then length (mn_member_uids (de_node_status e)) = de_quorum e \<and> distinct (mn_member_uids (de_node_status e))
         \<and> hd (mn_member_uids (de_node_status e)) = own_uid e
         \<and> set (tl (mn_member_uids (de_node_status e))) \<subseteq> set (dkeys (de_peers e))
       else de_node_status e = no_node)"
proof -
  note ok = discovery_reachable_ok [OF assms, unfolded discovery_ok_def peer_ok_def node_ok_def Let_def]
  have "map_of (de_peers e) (own_uid e) = None" using ok by (metis option.exhaust)
  moreover have "case map_of (de_peers e) uid of None \<Rightarrow> True
       | Some p \<Rightarrow> pe_uid p = uid \<and> pe_first_seen p \<le> pe_last_seen p \<and> pe_last_seen p \<le> now \<and> 0 \<le> pe_latency_ms p"
    using ok by (simp split: option.split)
  ultimately show ?thesis using ok by (auto split: if_splits)
qed

text \<open>The node status after an evaluation.\<close>

lemma evaluate_formed:
  "mn_formed (de_node_status (evaluate_node_status now utc e)) \<longleftrightarrow> de_quorum e \<le> length (adjacent_peers now e) + 1"
  by (simp add: evaluate_node_status_def Let_def)

lemma evaluate_adjacent [simp]: "adjacent_peers now (evaluate_node_status now' utc e) = adjacent_peers now e"
  by (simp add: adjacent_peers_def)

text \<open>
  Library fact: After every pruning the node is formed exactly when the engine and its adjacent peers reach the
  quorum; no peer is then both confirmed and silent for 15 seconds, and a peer that is still heard keeps its
  adjacency.  The same equivalence holds after an acknowledgement or a confirmation of a known peer,
  which is adjacent from then on.
\<close>

theorem node_status_tracks_quorum:
  assumes "map_of (de_peers e) uid = Some p" "lm_sender_uid msg = Some uid" "uid \<noteq> own_uid e"
    "lm_type msg = Some HANDSHAKE_ACK \<or> lm_type msg = Some HANDSHAKE_CONFIRM"
    "e' = prune now utc e" "e'' = fst (datagram_received now utc h (Some msg) e)" "pe_uid p = uid"
  shows "(mn_formed (de_node_status e') \<longleftrightarrow> de_quorum e \<le> length (adjacent_peers now e') + 1)
    \<and> (mn_formed (de_node_status e'') \<longleftrightarrow> de_quorum e \<le> length (adjacent_peers now e'') + 1)
    \<and> map_of (de_peers e') uid =
        Some (if is_alive now p then p else p\<lparr>pe_adjacency := STALE\<rparr>)
    \<and> (\<exists>q. map_of (de_peers e'') uid = Some q \<and> is_adjacent now q)"
proof -
  have e': "mn_formed (de_node_status e') \<longleftrightarrow> de_quorum e \<le> length (adjacent_peers now e') + 1"
    unfolding assms(5) prune_def evaluate_formed by (simp add: adjacent_peers_def)
  obtain e1 q where e1: "e'' = evaluate_node_status now utc (put_peer q e)" "pe_uid q = uid" "is_adjacent now q"
    using assms(1-4,6,7)
    by (auto simp: datagram_received_def handle_message_def on_handshake_ack_def on_handshake_confirm_def Let_def
        is_adjacent_def is_alive_def STALE_TIMEOUT_def)
  have "mn_formed (de_node_status e'') \<longleftrightarrow> de_quorum e \<le> length (adjacent_peers now e'') + 1"
    unfolding e1(1) evaluate_formed by simp
  moreover have "map_of (de_peers e') uid = Some (if is_alive now p then p else p\<lparr>pe_adjacency := STALE\<rparr>)"
    using assms(1) by (auto simp: assms(5) prune_def map_of_mark_all mark_stale_def)
  ultimately show ?thesis using e' e1 by auto
qed

text \<open>The beacons of one peer, each followed by a pruning.\<close>

fun hear_beacons :: "string \<Rightarrow> string \<Rightarrow> (real \<times> message \<times> real) list \<Rightarrow> engine \<Rightarrow> engine \<times> datagram list" where
  "hear_beacons utc h [] e = (e, [])"
| "hear_beacons utc h ((t, msg, t') # bs) e =
     (let (e1, out) = datagram_received t utc h (Some msg) e;
          (e2, out') = hear_beacons utc h bs (prune t' utc e1)
      in (e2, out @ out'))"

text \<open>
  Library fact: A handshake that loses a message is never repeated: a peer that waits for an acknowledgement or a
  confirmation stays in that state, and nothing is sent to it, for as long as its beacons arrive
  before it goes stale.
\<close>

theorem lost_message_stalls_handshake:
  assumes "map_of (de_peers e) uid = Some p" "pe_uid p = uid" "uid \<noteq> own_uid e"
    "pe_adjacency p = HANDSHAKE_SENT \<or> pe_adjacency p = HANDSHAKE_ACKED"
    "list_all (\<lambda>(t, msg, t'). lm_type msg = Some BEACON \<and> lm_sender_uid msg = Some uid \<and> t' - t < STALE_TIMEOUT) bs"
  shows "snd (hear_beacons utc h bs e) = []
    \<and> map_option pe_adjacency (map_of (de_peers (fst (hear_beacons utc h bs e))) uid) = Some (pe_adjacency p)"
  using assms
proof (induction bs arbitrary: e p)
  case (Cons b bs)
  obtain t msg t' where b: "b = (t, msg, t')" by (cases b) auto
  let ?q = "p\<lparr>pe_last_seen := t, pe_host := or_else (lm_sender_host msg) h,
              pe_port := or_else (lm_sender_port msg) DISCOVERY_PORT, pe_version := or_else (lm_version msg) ''''\<rparr>"
  have one: "datagram_received t utc h (Some msg) e = (put_peer ?q e, [])"
    using Cons.prems b by (auto simp: datagram_received_def handle_message_def on_beacon_def Let_def)
  have alive: "is_alive t' ?q" using Cons.prems(5) b by (simp add: is_alive_def)
  have "map_of (de_peers (prune t' utc (put_peer ?q e))) uid = Some ?q"
    using Cons.prems(2) alive by (simp add: prune_def map_of_mark_all mark_stale_def)
  from Cons.IH [OF this] Cons.prems show ?case
    by (simp add: b one split_def Let_def prune_def)
qed simp

section \<open>The handshake of two engines\<close>

definition deliver :: "real \<Rightarrow> string \<Rightarrow> datagram list \<Rightarrow> engine \<Rightarrow> engine \<times> datagram list" where
  "deliver now utc out e = (case out of [] \<Rightarrow> (e, []) | (msg, h, n) # _ \<Rightarrow> datagram_received now utc h (Some msg) e)"

text \<open>A beacon of \<open>a\<close> reaches \<open>b\<close>, and the three messages of the handshake follow it.\<close>

definition exchange :: "real \<Rightarrow> real \<Rightarrow> real \<Rightarrow> real \<Rightarrow> string \<Rightarrow> engine \<Rightarrow> engine \<Rightarrow> engine \<times> engine \<times> datagram list list" where
  "exchange t1 t2 t3 t4 utc a b =
     (let m0 = send_beacon t1 a;
          (b1, m1) = deliver t1 utc m0 b;
          (a1, m2) = deliver t2 utc m1 a;
          (b2, m3) = deliver t3 utc m2 b1;
          (a2, m4) = deliver t4 utc m3 a1
      in (a2, b2, [m0, m1, m2, m3, m4]))"

definition apart :: "engine \<Rightarrow> engine \<Rightarrow> bool" where
  "apart a b = (de_transport a \<and> de_transport b \<and> own_uid a \<noteq> own_uid b
     \<and> map_of (de_peers a) (own_uid b) = None \<and> map_of (de_peers b) (own_uid a) = None)"

lemma put_put [simp]: "pe_uid p = pe_uid p' \<Longrightarrow> put_peer p (put_peer p' e) = put_peer p e"
  by (simp add: put_peer_def update_last)

lemma put_stamps [simp]: "(put_peer p e)\<lparr>de_timestamps := ts\<rparr> = put_peer p (e\<lparr>de_timestamps := ts\<rparr>)"
  by (simp add: put_peer_def)

lemma exchange_outcome:
  assumes "apart a b" "exchange t1 t2 t3 t4 utc a b = (a', b', out)"
  obtains p q where
    "a' = evaluate_node_status t4 utc (put_peer p a)"
    "pe_uid p = own_uid b" "pe_human_name p = si_human_name (de_identity b)" "pe_adjacency p = CONFIRMED" "pe_last_seen p = t4"
    "b' = evaluate_node_status t3 utc (put_peer q (b\<lparr>de_timestamps := dset (own_uid a) t1 (de_timestamps b)\<rparr>))"
    "pe_uid q = own_uid a" "pe_human_name q = si_human_name (de_identity a)" "pe_adjacency q = CONFIRMED" "pe_last_seen q = t3"
    "t1 \<noteq> 0 \<longrightarrow> pe_latency_ms q = (t3 - t1) * 1000"
    "map (map (\<lambda>(msg, h, n). (lm_type msg, lm_sender_uid msg, h, n))) out =
       [[(Some BEACON, Some (own_uid a), ''255.255.255.255'', de_port a)],
        [(Some HANDSHAKE_INIT, Some (own_uid b), si_host (de_identity a), si_port (de_identity a))],
        [(Some HANDSHAKE_ACK, Some (own_uid a), si_host (de_identity b), si_port (de_identity b))],
        [(Some HANDSHAKE_CONFIRM, Some (own_uid b), si_host (de_identity a), si_port (de_identity a))], []]"
proof -
  note d = assms(1) [unfolded apart_def]
  have "own_uid a \<noteq> own_uid b" "own_uid b \<noteq> own_uid a" using d by auto
  then show ?thesis using assms(2) d
    by (intro that)
      (auto simp: exchange_def deliver_def send_beacon_def send_to_def message_from_def datagram_received_def handle_message_def
        on_beacon_def on_handshake_init_def on_handshake_ack_def on_handshake_confirm_def initiate_handshake_def discovered_def Let_def)
qed

text \<open>
  Library fact: When two engines that do not know each other are connected, one beacon is enough: the exchange sends
  exactly one beacon and the three handshake messages, each to the address the other announced, and
  afterwards each is an adjacent peer of the other for 15 seconds, with the measured round trip.
\<close>

theorem handshake_completes:
  assumes "apart a b" "exchange t1 t2 t3 t4 utc a b = (a', b', out)" "now - t4 < STALE_TIMEOUT" "now - t3 < STALE_TIMEOUT"
  shows "(\<exists>p. map_of (de_peers a') (own_uid b) = Some p \<and> is_adjacent now p)
    \<and> (\<exists>q. map_of (de_peers b') (own_uid a) = Some q \<and> is_adjacent now q \<and> (t1 \<noteq> 0 \<longrightarrow> pe_latency_ms q = (t3 - t1) * 1000))
    \<and> map (map (\<lambda>(msg, h, n). (lm_type msg, lm_sender_uid msg, h, n))) out =
       [[(Some BEACON, Some (own_uid a), ''255.255.255.255'', de_port a)],
        [(Some HANDSHAKE_INIT, Some (own_uid b), si_host (de_identity a), si_port (de_identity a))],
        [(Some HANDSHAKE_ACK, Some (own_uid a), si_host (de_identity b), si_port (de_identity b))],
        [(Some HANDSHAKE_CONFIRM, Some (own_uid b), si_host (de_identity a), si_port (de_identity a))], []]"
  using assms(3,4)
  by (rule_tac exchange_outcome [OF assms(1,2)]) (simp add: is_adjacent_def is_alive_def)

definition fresh_engine :: "engine \<Rightarrow> bool" where
  "fresh_engine e = (de_peers e = [] \<and> de_node_status e = no_node \<and> de_transport e \<and> de_quorum e = NODE_QUORUM)"

definition in_window :: "real \<Rightarrow> real list \<Rightarrow> bool" where
  "in_window s ts = list_all (\<lambda>t. s \<le> t \<and> t < s + STALE_TIMEOUT) ts"

text \<open>
  Library fact: Three engines that start without peers and exchange their beacons pairwise within 15 seconds form the
  same Maestro Node: each is formed, with itself first and the two others as members.
\<close>

theorem three_shards_form_node:
  assumes "fresh_engine a" "fresh_engine b" "fresh_engine c" "distinct [own_uid a, own_uid b, own_uid c]"
    "in_window s [t1, t2, t3, t4, u1, u2, u3, u4, v1, v2, v3, v4]"
    "exchange t1 t2 t3 t4 utc a b = (a1, b1, out1)" "exchange u1 u2 u3 u4 utc' a1 c = (a2, c1, out2)"
    "exchange v1 v2 v3 v4 utc'' b1 c1 = (b2, c2, out3)"
  shows "mn_formed (de_node_status a2) \<and> mn_member_uids (de_node_status a2) = [own_uid a, own_uid b, own_uid c]
    \<and> mn_formed (de_node_status b2) \<and> mn_member_uids (de_node_status b2) = [own_uid b, own_uid a, own_uid c]
    \<and> mn_formed (de_node_status c2) \<and> mn_member_uids (de_node_status c2) = [own_uid c, own_uid a, own_uid b]"
proof -
  note fr = assms(1-3) [unfolded fresh_engine_def NODE_QUORUM_def]
  note ev = evaluate_node_status_def Let_def adjacent_peers_def is_adjacent_def is_alive_def STALE_TIMEOUT_def
  have times: "x - y < 15" if "x \<in> {t1, t2, t3, t4, u1, u2, u3, u4, v1, v2, v3, v4}" "y \<in> {t1, t2, t3, t4, u1, u2, u3, u4, v1, v2, v3, v4}" for x y
    using that assms(5) unfolding in_window_def STALE_TIMEOUT_def by auto
  have "apart a b" using fr assms(4) by (auto simp: apart_def)
  from exchange_outcome [OF this assms(6)] obtain p q ts where ab:
    "a1 = evaluate_node_status t4 utc (put_peer p a)" "pe_uid p = own_uid b" "pe_adjacency p = CONFIRMED" "pe_last_seen p = t4"
    "b1 = evaluate_node_status t3 utc (put_peer q (b\<lparr>de_timestamps := ts\<rparr>))"
    "pe_uid q = own_uid a" "pe_adjacency q = CONFIRMED" "pe_last_seen q = t3" by metis
  have a1: "a1 = put_peer p a" and b1: "b1 = put_peer q (b\<lparr>de_timestamps := ts\<rparr>)"
    using fr by (simp_all add: ab(1,5) evaluate_node_status_def Let_def adjacent_peers_def)
  have "apart a1 c" using fr assms(4) by (auto simp: apart_def a1 ab(2))
  from exchange_outcome [OF this assms(7)] obtain p' q' ts' where ac:
    "a2 = evaluate_node_status u4 utc' (put_peer p' a1)" "pe_uid p' = own_uid c" "pe_adjacency p' = CONFIRMED" "pe_last_seen p' = u4"
    "c1 = evaluate_node_status u3 utc' (put_peer q' (c\<lparr>de_timestamps := ts'\<rparr>))"
    "pe_uid q' = own_uid a1" "pe_adjacency q' = CONFIRMED" "pe_last_seen q' = u3" by metis
  have c1: "c1 = put_peer q' (c\<lparr>de_timestamps := ts'\<rparr>)"
    using fr by (simp add: ac(5) evaluate_node_status_def Let_def adjacent_peers_def)
  have "apart b1 c1" using fr assms(4) by (auto simp: apart_def b1 c1 ab(6) ac(6) a1)
  from exchange_outcome [OF this assms(8)] obtain p'' q'' ts'' where bc:
    "b2 = evaluate_node_status v4 utc'' (put_peer p'' b1)" "pe_uid p'' = own_uid c1" "pe_adjacency p'' = CONFIRMED" "pe_last_seen p'' = v4"
    "c2 = evaluate_node_status v3 utc'' (put_peer q'' (c1\<lparr>de_timestamps := ts''\<rparr>))"
    "pe_uid q'' = own_uid b1" "pe_adjacency q'' = CONFIRMED" "pe_last_seen q'' = v3" by metis
  have a2: "mn_formed (de_node_status a2) \<and> mn_member_uids (de_node_status a2) = [own_uid a, own_uid b, own_uid c]"
    using fr assms(4) times [of u4 t4] by (simp add: ac a1 ab ev no_node_def)
  have b2: "mn_formed (de_node_status b2) \<and> mn_member_uids (de_node_status b2) = [own_uid b, own_uid a, own_uid c]"
    using fr assms(4) times [of v4 t3] by (simp add: bc b1 c1 ab ev no_node_def)
  have c2: "mn_formed (de_node_status c2) \<and> mn_member_uids (de_node_status c2) = [own_uid c, own_uid a, own_uid b]"
    using fr assms(4) times [of v3 u3] by (simp add: bc b1 c1 a1 ac ab ev no_node_def)
  from a2 b2 c2 show ?thesis by blast
qed

section \<open>Witnesses\<close>

definition sample_engine_at :: "string \<Rightarrow> engine" where
  "sample_engine_at uid =
     start_discovery (''10.0.0.'' @ uid)
       (new_discovery \<lparr>si_uid = uid, si_human_name = ''shard-'' @ uid, si_host = '''', si_port = 0, si_started_at = '''',
                       si_version = ''0.1.0''\<rparr> DISCOVERY_PORT NODE_QUORUM)"

definition sample_peer :: "AdjacencyState \<Rightarrow> PeerShard" where
  "sample_peer a =
     \<lparr>pe_uid = ''2'', pe_human_name = ''shard-2'', pe_host = ''10.0.0.2'', pe_port = DISCOVERY_PORT, pe_adjacency = a,
      pe_last_seen = 1, pe_first_seen = 1, pe_handshake_initiated_at = 1, pe_version = '''', pe_latency_ms = 0\<rparr>"

definition sample_message :: "MsgType \<Rightarrow> message" where
  "sample_message kind = message_from (sample_engine_at ''2'') 2 kind"

lemma sample_engine_fields [simp]:
  "own_uid (sample_engine_at u) = u" "de_peers (sample_engine_at u) = []" "de_node_status (sample_engine_at u) = no_node"
  "de_transport (sample_engine_at u)" "de_quorum (sample_engine_at u) = NODE_QUORUM"
  by (simp_all add: sample_engine_at_def start_discovery_def new_discovery_def)

lemma sample_message_fields [simp]:
  "lm_type (sample_message k) = Some k" "lm_sender_uid (sample_message k) = Some ''2''"
  by (simp_all add: sample_message_def message_from_def)

lemma discovery_invariant_witness:
  "map_of (de_peers (fst (datagram_received 2 ''t'' ''h'' (Some (sample_message BEACON)) (sample_engine_at ''1'')))) ''1'' = None"
proof -
  have "discovery_reachable 2 (fst (datagram_received 2 ''t'' ''h'' (Some (sample_message BEACON)) (sample_engine_at ''1'')))"
    unfolding sample_engine_at_def
    by (rule discovery_datagram [OF discovery_started [OF discovery_new], where before = 1]) (simp_all add: NODE_QUORUM_def)
  from discovery_invariant [OF this] show ?thesis
    by (simp add: datagram_received_def handle_message_def on_beacon_def Let_def initiate_handshake_def)
qed

lemma node_status_tracks_quorum_witness:
  "\<exists>q. map_of (de_peers (fst (datagram_received 2 ''t'' ''h'' (Some (sample_message HANDSHAKE_ACK))
      (put_peer (sample_peer HANDSHAKE_SENT) (sample_engine_at ''1''))))) ''2'' = Some q \<and> is_adjacent 2 q"
proof -
  have "map_of (de_peers (put_peer (sample_peer HANDSHAKE_SENT) (sample_engine_at ''1''))) ''2'' = Some (sample_peer HANDSHAKE_SENT)"
    by (simp add: sample_peer_def)
  from node_status_tracks_quorum [OF this, of "sample_message HANDSHAKE_ACK" _ 2 "''t''" _ "''h''"] show ?thesis
    by (simp add: sample_peer_def)
qed

lemma lost_message_stalls_handshake_witness:
  "snd (hear_beacons ''t'' ''h'' [(3, sample_message BEACON, 4), (6, sample_message BEACON, 12)]
      (put_peer (sample_peer HANDSHAKE_SENT) (sample_engine_at ''1''))) = []"
proof -
  have p: "map_of (de_peers (put_peer (sample_peer HANDSHAKE_SENT) (sample_engine_at ''1''))) ''2'' = Some (sample_peer HANDSHAKE_SENT)"
    by (simp add: sample_peer_def)
  show ?thesis
    using lost_message_stalls_handshake [OF p, of "[(3, sample_message BEACON, 4), (6, sample_message BEACON, 12)]" "''t''" "''h''"]
    by (simp add: sample_peer_def STALE_TIMEOUT_def)
qed

lemma sample_apart: "u \<noteq> v \<Longrightarrow> apart (sample_engine_at u) (sample_engine_at v)"
  by (simp add: apart_def)

lemma handshake_completes_witness:
  "\<exists>p. map_of (de_peers (fst (exchange 1 2 3 4 ''t'' (sample_engine_at ''1'') (sample_engine_at ''2'')))) ''2'' = Some p \<and> is_adjacent 5 p"
  using handshake_completes [OF sample_apart, of "''1''" "''2''" 1 2 3 4 "''t''" _ _ _ 5]
  by (cases "exchange 1 2 3 4 ''t'' (sample_engine_at ''1'') (sample_engine_at ''2'')") (simp add: STALE_TIMEOUT_def)

lemma three_shards_form_node_witness:
  "(let (a1, b1, _) = exchange 1 1 1 1 ''t'' (sample_engine_at ''1'') (sample_engine_at ''2'');
        (a2, c1, _) = exchange 2 2 2 2 ''t'' a1 (sample_engine_at ''3'');
        (b2, c2, _) = exchange 3 3 3 3 ''t'' b1 c1
    in map (\<lambda>e. mn_member_uids (de_node_status e)) [a2, b2, c2] =
         [[''1'', ''2'', ''3''], [''2'', ''1'', ''3''], [''3'', ''1'', ''2'']])"
proof -
  obtain a1 b1 o1 where 1: "exchange 1 1 1 1 ''t'' (sample_engine_at ''1'') (sample_engine_at ''2'') = (a1, b1, o1)"
    by (metis prod_cases3)
  obtain a2 c1 o2 where 2: "exchange 2 2 2 2 ''t'' a1 (sample_engine_at ''3'') = (a2, c1, o2)" by (metis prod_cases3)
  obtain b2 c2 o3 where 3: "exchange 3 3 3 3 ''t'' b1 c1 = (b2, c2, o3)" by (metis prod_cases3)
  have "fresh_engine (sample_engine_at u)" for u by (simp add: fresh_engine_def)
  then show ?thesis
    using three_shards_form_node [OF _ _ _ _ _ 1 2 3, of 1] by (simp add: 1 2 3 in_window_def STALE_TIMEOUT_def)
qed

end
