(* ===== verification/Context_Graph.thy ===== *)
theory Context_Graph
  imports Prelude
begin

text \<open>
  \<^verbatim>\<open>maestro/router/graph.py\<close> and the graph component of \<^verbatim>\<open>maestro/router/distance.py\<close>: the graph of cartridges,
  whirlpool items and tags that the router walks, the anchors of a query in it, and the breadth-first search
  for the number of hops from the anchors to a claim.  The queries of the Librarian and of the whirlpools that
  the graph is built from are not implemented in the sources; they are parameters, collected in two records.
  A set that the code only tests for membership is a list or a set.
\<close>

section \<open>Nodes and edges\<close>

datatype EdgeType = SUPERSEDES | REVOKES | SHARED_CLAIM | SHARED_CORROBORATOR | SHARED_TAG

record GraphEdge =
  ge_src :: string
  ge_dst :: string
  ge_type :: EdgeType

record vortex_item =
  vi_item_id :: string
  vi_domain_tags :: "string list"
  vi_sources :: "string list"

record whirlpool_view =
  wv_id :: string
  wv_known_tags :: "string list"
  wv_get_by_slug :: "string \<Rightarrow> vortex_item option"
  wv_items_with_source :: "string \<Rightarrow> vortex_item list"
  wv_items_with_tag :: "string \<Rightarrow> vortex_item list"

record librarian_view =
  lv_known_tags :: "string list"
  lv_get_by_slug :: "string \<Rightarrow> string list option"
  lv_supersedes_slugs :: "string \<Rightarrow> string list"
  lv_revokes_slugs :: "string \<Rightarrow> string list"
  lv_cartridges_with_tag :: "string \<Rightarrow> (string \<times> string) list"

record graph_view =
  gv_lib :: "librarian_view option"
  gv_whirlpools :: "whirlpool_view list"
  gv_known_tags :: "string list"
  gv_cache :: "(string, GraphEdge list) dict"

section \<open>Slugs\<close>

definition short_item_slug :: "string \<Rightarrow> string" where
  "short_item_slug item_id =
     take 8 (case dropWhile (\<lambda>c. c \<noteq> CHR '':'') item_id of [] \<Rightarrow> item_id | _ # rest \<Rightarrow> rest)"

definition wp_item_slug :: "string \<Rightarrow> vortex_item \<Rightarrow> string" where
  "wp_item_slug wp item = ''WP:'' @ wp @ '':'' @ short_item_slug (vi_item_id item)"

definition cartridge_slug :: "string \<times> string \<Rightarrow> string" where
  "cartridge_slug ref = ''CART:'' @ fst ref @ ''@'' @ snd ref"

definition tag_slug :: "string \<Rightarrow> string" where
  "tag_slug tag = ''TAG:'' @ tag"

text \<open>\<^verbatim>\<open>rpartition\<close> of what follows the prefix.\<close>

definition parse_wp_slug :: "string \<Rightarrow> string \<times> string" where
  "parse_wp_slug slug =
     (let rest = drop 3 slug; short = rev (takeWhile (\<lambda>c. c \<noteq> CHR '':'') (rev rest))
      in if CHR '':'' \<in> set rest then (take (length rest - length short - 1) rest, short) else ([], rest))"

section \<open>Anchors\<close>

definition all_known_tags :: "librarian_view option \<Rightarrow> whirlpool_view list \<Rightarrow> string list" where
  "all_known_tags lib wps = (case lib of None \<Rightarrow> [] | Some l \<Rightarrow> lv_known_tags l) @ concat (map wv_known_tags wps)"

definition rebuild_known_tags :: "graph_view \<Rightarrow> graph_view" where
  "rebuild_known_tags gv = gv\<lparr>gv_known_tags := all_known_tags (gv_lib gv) (gv_whirlpools gv)\<rparr>"

definition new_graph_view :: "librarian_view option \<Rightarrow> whirlpool_view list \<Rightarrow> graph_view" where
  "new_graph_view lib wps =
     rebuild_known_tags \<lparr>gv_lib = lib, gv_whirlpools = wps, gv_known_tags = [], gv_cache = []\<rparr>"

definition invalidate :: "graph_view \<Rightarrow> graph_view" where
  "invalidate gv = rebuild_known_tags (gv\<lparr>gv_cache := []\<rparr>)"

definition anchor_for_tag :: "string list \<Rightarrow> string \<Rightarrow> string option" where
  "anchor_for_tag known tag =
     (if tag \<in> set known then Some (tag_slug tag)
      else if CHR ''.'' \<notin> set tag then None
      else let parts = split_on CHR ''.'' tag in
        first_some (\<lambda>i. let parent = join_with ''.'' (take i parts) in if parent \<in> set known then Some (tag_slug parent) else None)
          (rev [1..<length parts]))"

fun anchors_from :: "string list \<Rightarrow> string list \<Rightarrow> string list \<Rightarrow> string list" where
  "anchors_from known seen [] = []"
| "anchors_from known seen (tag # tags) =
     (case anchor_for_tag known tag of
        None \<Rightarrow> anchors_from known seen tags
      | Some a \<Rightarrow> if a \<in> set seen then anchors_from known seen tags else a # anchors_from known (a # seen) tags)"

definition anchors_for_tags :: "graph_view \<Rightarrow> string list \<Rightarrow> string list" where
  "anchors_for_tags gv tags = anchors_from (gv_known_tags gv) [] tags"

section \<open>Neighbours\<close>

definition edge :: "string \<Rightarrow> EdgeType \<Rightarrow> string \<Rightarrow> GraphEdge" where
  "edge src t dst = \<lparr>ge_src = src, ge_dst = dst, ge_type = t\<rparr>"

definition cartridge_neighbors :: "librarian_view option \<Rightarrow> string \<Rightarrow> GraphEdge list" where
  "cartridge_neighbors lib slug =
     (case lib of
        None \<Rightarrow> []
      | Some l \<Rightarrow>
          (case lv_get_by_slug l slug of
             None \<Rightarrow> []
           | Some domain_tags \<Rightarrow>
               map (edge slug SUPERSEDES) (lv_supersedes_slugs l slug) @ map (edge slug REVOKES) (lv_revokes_slugs l slug)
               @ map (\<lambda>tag. edge slug SHARED_TAG (tag_slug tag)) domain_tags))"

fun partner_edges :: "string \<Rightarrow> string list \<Rightarrow> string list \<Rightarrow> GraphEdge list" where
  "partner_edges slug seen [] = []"
| "partner_edges slug seen (p # ps) =
     (if p \<in> set seen then partner_edges slug seen ps
      else edge slug SHARED_CORROBORATOR p # partner_edges slug (p # seen) ps)"

definition whirlpool_by_id :: "whirlpool_view list \<Rightarrow> string \<Rightarrow> whirlpool_view option" where
  "whirlpool_by_id wps i = map_of (fold (\<lambda>wp. dset (wv_id wp) wp) wps []) i"

definition whirlpool_item_neighbors :: "whirlpool_view list \<Rightarrow> string \<Rightarrow> GraphEdge list" where
  "whirlpool_item_neighbors wps slug =
     (let (i, short) = parse_wp_slug slug in
      case whirlpool_by_id wps i of
        None \<Rightarrow> []
      | Some wp \<Rightarrow>
          (case wv_get_by_slug wp short of
             None \<Rightarrow> []
           | Some item \<Rightarrow>
               map (\<lambda>tag. edge slug SHARED_TAG (tag_slug tag)) (vi_domain_tags item)
               @ partner_edges slug [slug]
                   (concat (map (\<lambda>src. map (wp_item_slug (wv_id wp)) (wv_items_with_source wp src)) (vi_sources item)))))"

definition tag_neighbors :: "librarian_view option \<Rightarrow> whirlpool_view list \<Rightarrow> string \<Rightarrow> GraphEdge list" where
  "tag_neighbors lib wps slug =
     (let tag = drop 4 slug in
      (case lib of None \<Rightarrow> [] | Some l \<Rightarrow> map (\<lambda>ref. edge slug SHARED_TAG (cartridge_slug ref)) (lv_cartridges_with_tag l tag))
      @ concat (map (\<lambda>wp. map (\<lambda>item. edge slug SHARED_TAG (wp_item_slug (wv_id wp) item)) (wv_items_with_tag wp tag)) wps))"

definition materialize_neighbors :: "librarian_view option \<Rightarrow> whirlpool_view list \<Rightarrow> string \<Rightarrow> GraphEdge list" where
  "materialize_neighbors lib wps node_id =
     (if starts_with ''CART:'' node_id then cartridge_neighbors lib node_id
      else if starts_with ''WP:'' node_id then whirlpool_item_neighbors wps node_id
      else if starts_with ''TAG:'' node_id then tag_neighbors lib wps node_id
      else [])"

definition neighbors :: "graph_view \<Rightarrow> string \<Rightarrow> GraphEdge list \<times> graph_view" where
  "neighbors gv node_id =
     (case map_of (gv_cache gv) node_id of
        Some edges \<Rightarrow> (edges, gv)
      | None \<Rightarrow>
          (let edges = materialize_neighbors (gv_lib gv) (gv_whirlpools gv) node_id
           in (edges, gv\<lparr>gv_cache := dset node_id edges (gv_cache gv)\<rparr>)))"

section \<open>The graph distance\<close>

definition other_end :: "string \<Rightarrow> GraphEdge \<Rightarrow> string" where
  "other_end node e = (if ge_src e = node then ge_dst e else ge_src e)"

definition next_nodes :: "(string \<Rightarrow> GraphEdge list) \<Rightarrow> string set \<Rightarrow> string set" where
  "next_nodes nbr frontier = (\<Union>node \<in> frontier. set (map (other_end node) (nbr node)))"

text \<open>The loop over the hops: \<open>n\<close> are left, \<open>hops\<close> is the current one.\<close>

fun bfs :: "(string \<Rightarrow> GraphEdge list) \<Rightarrow> string \<Rightarrow> nat \<Rightarrow> nat \<Rightarrow> string set \<Rightarrow> string set \<Rightarrow> nat option" where
  "bfs nbr claim 0 hops visited frontier = None"
| "bfs nbr claim (Suc n) hops visited frontier =
     (let next_frontier = next_nodes nbr frontier - visited in
      if next_frontier = {} then None
      else if claim \<in> next_frontier then Some hops
      else bfs nbr claim n (Suc hops) (visited \<union> next_frontier) next_frontier)"

definition hop_distance :: "(string \<Rightarrow> GraphEdge list) \<Rightarrow> nat \<Rightarrow> real \<Rightarrow> string list \<Rightarrow> string \<Rightarrow> real" where
  "hop_distance nbr max_hops k anchors claim =
     (if anchors = [] then 1
      else if claim \<in> set anchors then 0
      else case bfs nbr claim max_hops 1 (set anchors) (set anchors) of
             None \<Rightarrow> 1
           | Some hops \<Rightarrow> 1 - exp (- real hops / k))"

text \<open>
  The distance of a view; \<^term>\<open>None\<close> is the null view, which has the configured constant.  The search reads
  its neighbours from the view as it was at the call: \<open>cache_transparent\<close> below shows that filling the
  cache during the search changes no answer.
\<close>

definition d_graph :: "graph_view option \<Rightarrow> real \<Rightarrow> nat \<Rightarrow> real \<Rightarrow> string list \<Rightarrow> string \<Rightarrow> real" where
  "d_graph view graph_stub max_hops k query_tags claim =
     (case view of
        None \<Rightarrow> graph_stub
      | Some gv \<Rightarrow> hop_distance (\<lambda>node. fst (neighbors gv node)) max_hops k (anchors_for_tags gv query_tags) claim)"

section \<open>Dotted tags\<close>

definition dotted_parent :: "string \<Rightarrow> string \<Rightarrow> bool" where
  "dotted_parent p tag \<longleftrightarrow> p = tag \<or> (\<exists>rest. tag = p @ ''.'' @ rest)"

lemma split_on_ne [simp]: "split_on c s \<noteq> []"
  by (induction s) (auto split: list.split)

lemma join_Cons: "ws \<noteq> [] \<Longrightarrow> join_with sep (w # ws) = w @ sep @ join_with sep ws"
  by (cases ws) auto

lemma join_append: "us \<noteq> [] \<Longrightarrow> vs \<noteq> [] \<Longrightarrow> join_with sep (us @ vs) = join_with sep us @ sep @ join_with sep vs"
  by (induction us rule: list_nonempty_induct) (auto simp: join_Cons)

lemma join_split: "join_with [c] (split_on c s) = s"
proof (induction s)
  case (Cons x s)
  obtain w ws where "split_on c s = w # ws" by (metis neq_Nil_conv split_on_ne)
  with Cons show ?case by (cases ws) (auto simp: join_Cons)
qed simp

lemma split_append: "split_on c (p @ c # r) = split_on c p @ split_on c r"
  by (induction p) (auto split: list.split)

lemma parent_iff_prefix:
  "(\<exists>rest. tag = p @ ''.'' @ rest) \<longleftrightarrow> (\<exists>i. 1 \<le> i \<and> i < length (split_on CHR ''.'' tag) \<and> p = join_with ''.'' (take i (split_on CHR ''.'' tag)))"
proof
  assume "\<exists>rest. tag = p @ ''.'' @ rest"
  then obtain rest where t: "split_on CHR ''.'' tag = split_on CHR ''.'' p @ split_on CHR ''.'' rest"
    using split_append [of "CHR ''.''" p] by auto
  then have "p = join_with ''.'' (take (length (split_on CHR ''.'' p)) (split_on CHR ''.'' tag))" by (simp add: join_split)
  moreover have "1 \<le> length (split_on CHR ''.'' p)" "length (split_on CHR ''.'' p) < length (split_on CHR ''.'' tag)"
    using t by (simp_all add: Suc_le_eq)
  ultimately show "\<exists>i. 1 \<le> i \<and> i < length (split_on CHR ''.'' tag) \<and> p = join_with ''.'' (take i (split_on CHR ''.'' tag))" by blast
next
  assume "\<exists>i. 1 \<le> i \<and> i < length (split_on CHR ''.'' tag) \<and> p = join_with ''.'' (take i (split_on CHR ''.'' tag))"
  then obtain i where i: "1 \<le> i" "i < length (split_on CHR ''.'' tag)" "p = join_with ''.'' (take i (split_on CHR ''.'' tag))" by blast
  have "tag = join_with ''.'' (take i (split_on CHR ''.'' tag) @ drop i (split_on CHR ''.'' tag))" by (simp add: join_split)
  also have "\<dots> = p @ ''.'' @ join_with ''.'' (drop i (split_on CHR ''.'' tag))"
    using i by (subst join_append) auto
  finally show "\<exists>rest. tag = p @ ''.'' @ rest" by blast
qed

lemma prefix_longer:
  assumes "1 \<le> i" "i < j" "j \<le> length parts"
  shows "length (join_with ''.'' (take i parts)) < length (join_with ''.'' (take j parts))"
proof -
  have "take j parts = take i parts @ take (j - i) (drop i parts)" using assms by (simp add: take_add [symmetric])
  moreover have "take i parts \<noteq> []" "take (j - i) (drop i parts) \<noteq> []" using assms by auto
  ultimately show ?thesis by (simp add: join_append)
qed

lemma first_some_rev_upt:
  "first_some f (rev [a..<n]) = (if \<exists>i. a \<le> i \<and> i < n \<and> f i \<noteq> None then f (GREATEST i. a \<le> i \<and> i < n \<and> f i \<noteq> None) else None)"
proof (induction n)
  case (Suc n)
  show ?case
  proof (cases "a \<le> n \<and> f n \<noteq> None")
    case True
    then have "(GREATEST i. a \<le> i \<and> i < Suc n \<and> f i \<noteq> None) = n" by (intro Greatest_equality) auto
    then show ?thesis using True by auto
  next
    case False
    then have "(\<lambda>i. a \<le> i \<and> i < Suc n \<and> f i \<noteq> None) = (\<lambda>i. a \<le> i \<and> i < n \<and> f i \<noteq> None)" by (auto simp: less_Suc_eq)
    then show ?thesis using Suc False by (auto simp del: not_None_eq)
  qed
qed simp

lemma anchor_longest:
  "case anchor_for_tag known tag of
     None \<Rightarrow> \<not> (\<exists>p \<in> set known. dotted_parent p tag)
   | Some a \<Rightarrow> (\<exists>p \<in> set known. a = tag_slug p \<and> dotted_parent p tag \<and> (\<forall>q \<in> set known. dotted_parent q tag \<longrightarrow> length q \<le> length p))"
proof (cases "tag \<in> set known")
  case True
  then show ?thesis by (auto simp: anchor_for_tag_def dotted_parent_def)
next
  case False
  let ?parts = "split_on CHR ''.'' tag"
  let ?parent = "\<lambda>i. join_with ''.'' (take i ?parts)"
  let ?f = "\<lambda>i. if ?parent i \<in> set known then Some (tag_slug (?parent i)) else None"
  let ?P = "\<lambda>i. 1 \<le> i \<and> i < length ?parts \<and> ?f i \<noteq> None"
  have parents: "p \<in> set known \<and> dotted_parent p tag \<longleftrightarrow> (\<exists>i. ?P i \<and> p = ?parent i)" for p
  proof -
    have "p \<in> set known \<and> dotted_parent p tag \<longleftrightarrow> p \<in> set known \<and> (\<exists>rest. tag = p @ ''.'' @ rest)"
      using False unfolding dotted_parent_def by blast
    moreover have "?f i \<noteq> None \<longleftrightarrow> ?parent i \<in> set known" for i by simp
    ultimately show ?thesis unfolding parent_iff_prefix by blast
  qed
  have dot: "CHR ''.'' \<in> set tag" if "?P i" for i
  proof -
    have "\<exists>rest. tag = ?parent i @ ''.'' @ rest" unfolding parent_iff_prefix using that by blast
    then obtain rest where "tag = ?parent i @ ''.'' @ rest" ..
    then have "set tag = set (?parent i @ ''.'' @ rest)" by (rule arg_cong)
    then show ?thesis unfolding set_append by simp
  qed
  show ?thesis
  proof (cases "\<exists>i. ?P i")
    case none: False
    then have "first_some ?f (rev [1..<length ?parts]) = None" unfolding first_some_rev_upt by (rule if_not_P)
    then have "anchor_for_tag known tag = None" using False unfolding anchor_for_tag_def Let_def by simp
    moreover have "\<not> (\<exists>p \<in> set known. dotted_parent p tag)" using none parents by blast
    ultimately show ?thesis by simp
  next
    case True
    define m where "m = (GREATEST i. ?P i)"
    have m: "?P m" using True GreatestI_ex_nat [of ?P "length ?parts"] unfolding m_def by auto
    have greatest: "i \<le> m" if "?P i" for i
      using that Greatest_le_nat [of ?P i "length ?parts"] unfolding m_def by auto
    have "first_some ?f (rev [1..<length ?parts]) = ?f m"
      unfolding first_some_rev_upt m_def using True by (rule if_P)
    moreover have "?f m = Some (tag_slug (?parent m))" using m by (simp split: if_splits)
    ultimately have a: "anchor_for_tag known tag = Some (tag_slug (?parent m))"
      using False dot [OF m] unfolding anchor_for_tag_def Let_def by simp
    have "length q \<le> length (?parent m)" if "q \<in> set known" "dotted_parent q tag" for q
    proof -
      have "\<exists>i. ?P i \<and> q = ?parent i" using parents [of q] that by (rule_tac iffD1) simp_all
      then obtain i where "?P i \<and> q = ?parent i" by (rule exE)
      then have i: "?P i" "q = ?parent i" by (rule conjunct1, rule conjunct2)
      have "i \<le> m" "1 \<le> i" "m \<le> length ?parts" using greatest [OF i(1)] i(1) m by linarith+
      then show ?thesis unfolding i(2) using prefix_longer [of i m ?parts] by (metis le_neq_implies_less less_imp_le order_refl)
    qed
    moreover have "?parent m \<in> set known \<and> dotted_parent (?parent m) tag" using parents m by blast
    ultimately show ?thesis unfolding a option.case by blast
  qed
qed

text \<open>
  Library fact: The anchor of a tag is its longest known dotted parent: it exists exactly when the tag itself or some
  parent of it is known, and no known parent of the tag is longer.
\<close>

theorem anchor_is_longest_parent:
  "case anchor_for_tag known tag of
     None \<Rightarrow> \<not> (\<exists>p \<in> set known. dotted_parent p tag)
   | Some a \<Rightarrow> (\<exists>p \<in> set known. a = tag_slug p \<and> dotted_parent p tag \<and> (\<forall>q \<in> set known. dotted_parent q tag \<longrightarrow> length q \<le> length p))"
  by (rule anchor_longest)

section \<open>Slugs and the cache\<close>

lemma take_while_rev: "CHR '':'' \<notin> set short \<Longrightarrow> rev (takeWhile (\<lambda>c. c \<noteq> CHR '':'') (rev (w @ CHR '':'' # short))) = short"
proof -
  let ?P = "\<lambda>c. c \<noteq> CHR '':''"
  assume "CHR '':'' \<notin> set short"
  then have "takeWhile ?P (rev short) = rev short" by (auto simp: takeWhile_eq_all_conv)
  then have "takeWhile ?P (rev short @ CHR '':'' # rev w) = rev short" using takeWhile_tail [of ?P "CHR '':''"] by simp
  then have "rev (takeWhile ?P (rev (w @ CHR '':'' # short))) = rev (rev short)" by (simp only: rev_append rev.simps append_assoc append.simps)
  then show ?thesis by (simp only: rev_rev_ident)
qed

text \<open>
  Library fact: The slug of a whirlpool item is parsed back into the whirlpool and the short form of the item, whatever
  the id of the whirlpool contains, when the short form has no colon, as the digits of a hash have none.
\<close>

theorem wp_slug_roundtrip:
  assumes "CHR '':'' \<notin> set (short_item_slug (vi_item_id item))"
  shows "parse_wp_slug (wp_item_slug wp item) = (wp, short_item_slug (vi_item_id item)) \<and> starts_with ''WP:'' (wp_item_slug wp item)
    \<and> length (short_item_slug (vi_item_id item)) \<le> 8"
  using take_while_rev [OF assms, of wp]
  by (simp add: parse_wp_slug_def wp_item_slug_def Let_def starts_with_def short_item_slug_def)

definition cache_ok :: "graph_view \<Rightarrow> bool" where
  "cache_ok gv = (\<forall>node edges. map_of (gv_cache gv) node = Some edges
     \<longrightarrow> edges = materialize_neighbors (gv_lib gv) (gv_whirlpools gv) node)"

lemma neighbors_fields [simp]:
  "gv_lib (snd (neighbors gv node)) = gv_lib gv" "gv_whirlpools (snd (neighbors gv node)) = gv_whirlpools gv"
  "gv_known_tags (snd (neighbors gv node)) = gv_known_tags gv"
  by (simp_all add: neighbors_def Let_def split: option.split)

lemma neighbors_other: "fst (neighbors (snd (neighbors gv n)) m) = fst (neighbors gv m)"
  by (auto simp: neighbors_def Let_def split: option.split)

lemma neighbors_ok: "cache_ok gv \<Longrightarrow> cache_ok (snd (neighbors gv node))"
  unfolding cache_ok_def by (auto simp: neighbors_def Let_def split: option.split)

lemma ask_all_ok: "cache_ok gv \<Longrightarrow> cache_ok (fold (\<lambda>n gv. snd (neighbors gv n)) asked gv)"
  by (induction asked arbitrary: gv) (auto intro: neighbors_ok)

text \<open>
  Library fact: The cache is transparent: asking for the neighbours of any nodes before does not change what is answered
  for a node; a view just built or invalidated answers from its sources; and so does every view that
  follows from it by asking.
\<close>

theorem cache_transparent:
  "fst (neighbors (fold (\<lambda>n gv. snd (neighbors gv n)) asked gv) node) = fst (neighbors gv node)
   \<and> fst (neighbors (fold (\<lambda>n gv. snd (neighbors gv n)) asked (invalidate gv)) node)
       = materialize_neighbors (gv_lib gv) (gv_whirlpools gv) node
   \<and> fst (neighbors (fold (\<lambda>n gv. snd (neighbors gv n)) asked (new_graph_view lib wps)) node) = materialize_neighbors lib wps node"
proof -
  have 1: "fst (neighbors (fold (\<lambda>n gv. snd (neighbors gv n)) asked gv) node) = fst (neighbors gv node)" for gv
    by (induction asked arbitrary: gv) (auto simp: neighbors_other)
  show ?thesis unfolding 1 by (simp add: neighbors_def invalidate_def new_graph_view_def rebuild_known_tags_def Let_def)
qed

section \<open>Hops\<close>

definition link :: "(string \<Rightarrow> GraphEdge list) \<Rightarrow> (string \<times> string) set" where
  "link nbr = {(x, y). y \<in> set (map (other_end x) (nbr x))}"

definition reachable_in :: "(string \<Rightarrow> GraphEdge list) \<Rightarrow> string list \<Rightarrow> nat \<Rightarrow> string \<Rightarrow> bool" where
  "reachable_in nbr anchors n claim \<longleftrightarrow> (\<exists>a \<in> set anchors. (a, claim) \<in> link nbr ^^ n)"

lemma next_nodes_iff: "y \<in> next_nodes nbr S \<longleftrightarrow> (\<exists>x \<in> S. (x, y) \<in> link nbr)"
  by (simp add: next_nodes_def link_def)

lemma reachable_Suc: "reachable_in nbr as (Suc n) y \<longleftrightarrow> (\<exists>x. reachable_in nbr as n x \<and> (x, y) \<in> link nbr)"
  by (auto simp: reachable_in_def)

definition ball :: "(string \<Rightarrow> GraphEdge list) \<Rightarrow> string list \<Rightarrow> nat \<Rightarrow> string set" where
  "ball nbr as h = {x. \<exists>n \<le> h. reachable_in nbr as n x}"

lemma ball_0 [simp]: "ball nbr as 0 = set as"
  by (auto simp: ball_def reachable_in_def)

lemma ball_Suc: "ball nbr as (Suc h) = ball nbr as h \<union> next_nodes nbr (ball nbr as h)"
proof -
  have "x \<in> ball nbr as h \<union> next_nodes nbr (ball nbr as h)" if "n \<le> Suc h" "reachable_in nbr as n x" for n x
    using that by (cases n) (auto simp: ball_def next_nodes_iff reachable_Suc)
  moreover have "x \<in> ball nbr as (Suc h)" if "x \<in> next_nodes nbr (ball nbr as h)" for x
    using that by (auto simp: ball_def next_nodes_iff) (metis Suc_le_mono reachable_Suc)
  ultimately show ?thesis by (auto simp: ball_def) (use le_SucI in blast)
qed

lemma ball_mono: "h \<le> h' \<Longrightarrow> ball nbr as h \<subseteq> ball nbr as h'"
  unfolding ball_def by (blast intro: order_trans)

lemma ball_stable: "next_nodes nbr (ball nbr as h) \<subseteq> ball nbr as h \<Longrightarrow> ball nbr as (h + m) = ball nbr as h"
  by (induction m) (auto simp: ball_Suc)

lemma next_nodes_Un: "next_nodes nbr (A \<union> B) = next_nodes nbr A \<union> next_nodes nbr B"
  by (simp add: next_nodes_def)

lemma bfs_exact:
  assumes "next_nodes nbr (ball nbr as h) \<subseteq> ball nbr as h \<union> next_nodes nbr F" "F \<subseteq> ball nbr as h" "claim \<notin> ball nbr as h"
  shows "bfs nbr claim n (Suc h) (ball nbr as h) F =
    (if claim \<in> ball nbr as (h + n) then Some (LEAST k. reachable_in nbr as k claim) else None)"
  using assms
proof (induction n arbitrary: h F)
  case (Suc n)
  let ?N = "next_nodes nbr F - ball nbr as h"
  have "next_nodes nbr F \<subseteq> next_nodes nbr (ball nbr as h)" using Suc.prems(2) by (auto simp: next_nodes_def)
  then have ball: "ball nbr as (Suc h) = ball nbr as h \<union> ?N" using Suc.prems(1) by (auto simp: ball_Suc)
  consider "?N = {}" | "claim \<in> ?N" | "?N \<noteq> {}" "claim \<notin> ?N" by blast
  then show ?case
  proof cases
    case 1
    then have "next_nodes nbr (ball nbr as h) \<subseteq> ball nbr as h" using Suc.prems(1) by blast
    from ball_stable [OF this, of "Suc n"] show ?thesis using 1 Suc.prems(3) by simp
  next
    case 2
    then have "claim \<in> ball nbr as (Suc h)" using ball by blast
    then have least: "(LEAST k. reachable_in nbr as k claim) = Suc h"
      using Suc.prems(3) by (intro Least_equality) (auto simp: ball_def le_Suc_eq intro: ccontr)
    have "claim \<in> ball nbr as (h + Suc n)"
      using \<open>claim \<in> ball nbr as (Suc h)\<close> ball_mono [of "Suc h" "h + Suc n"] by auto
    then show ?thesis using 2 least by (auto simp: Let_def)
  next
    case 3
    have "next_nodes nbr (ball nbr as (Suc h)) \<subseteq> ball nbr as (Suc h) \<union> next_nodes nbr ?N"
      using Suc.prems(1) unfolding ball next_nodes_Un by blast
    moreover have "?N \<subseteq> ball nbr as (Suc h)" using ball by blast
    moreover have "claim \<notin> ball nbr as (Suc h)" using 3 Suc.prems(3) ball by blast
    ultimately have "bfs nbr claim n (Suc (Suc h)) (ball nbr as (Suc h)) ?N =
        (if claim \<in> ball nbr as (Suc h + n) then Some (LEAST k. reachable_in nbr as k claim) else None)"
      by (rule Suc.IH)
    then show ?thesis using 3 by (auto simp: ball Let_def)
  qed
qed simp

section \<open>Properties of the graph distance\<close>

lemma hop_distance_cases:
  "hop_distance nbr max_hops k anchors claim =
    (if \<exists>n \<le> max_hops. reachable_in nbr anchors n claim
     then 1 - exp (- real (LEAST n. reachable_in nbr anchors n claim) / k) else 1)"
proof (cases "claim \<in> set anchors")
  case True
  then have "reachable_in nbr anchors 0 claim" by (auto simp: reachable_in_def)
  moreover from this have "(LEAST n. reachable_in nbr anchors n claim) = 0" by (intro Least_eq_0)
  ultimately show ?thesis using True by (auto simp: hop_distance_def)
next
  case False
  have "claim \<in> ball nbr anchors max_hops \<longleftrightarrow> (\<exists>n \<le> max_hops. reachable_in nbr anchors n claim)" by (simp add: ball_def)
  then have "bfs nbr claim max_hops 1 (set anchors) (set anchors) =
      (if \<exists>n \<le> max_hops. reachable_in nbr anchors n claim then Some (LEAST n. reachable_in nbr anchors n claim) else None)"
    using bfs_exact [of nbr anchors 0 "set anchors" claim max_hops] False by simp
  moreover have "\<not> reachable_in nbr [] n claim" for n by (simp add: reachable_in_def)
  ultimately show ?thesis using False by (auto simp: hop_distance_def)
qed

text \<open>
  C30: The breadth-first search computes the shortest path: the graph distance of a claim is determined by the
  least number of edges from an anchor of the query, as long as that is within the hop limit, and is 1
  otherwise; it lies in [0, 1], is 0 exactly for an anchor, and never decreases with the hops.
\<close>

theorem graph_distance_shortest:
  assumes "0 < k"
  shows "hop_distance nbr max_hops k anchors claim =
      (if \<exists>n \<le> max_hops. reachable_in nbr anchors n claim
       then 1 - exp (- real (LEAST n. reachable_in nbr anchors n claim) / k) else 1)
    \<and> 0 \<le> hop_distance nbr max_hops k anchors claim \<and> hop_distance nbr max_hops k anchors claim \<le> 1
    \<and> (hop_distance nbr max_hops k anchors claim = 0 \<longleftrightarrow> claim \<in> set anchors)
    \<and> (reachable_in nbr anchors m claim \<longrightarrow> hop_distance nbr max_hops k anchors claim \<le> 1 - exp (- real m / k) \<or> max_hops < m)"
proof -
  let ?d = "LEAST n. reachable_in nbr anchors n claim"
  have exp: "exp (- real n / k) \<le> 1" for n using assms by simp
  have zero: "exp (- real n / k) = 1 \<longleftrightarrow> n = 0" for n using assms by simp
  have anchor: "claim \<in> set anchors \<longleftrightarrow> reachable_in nbr anchors 0 claim" by (auto simp: reachable_in_def)
  have least: "?d = 0 \<longleftrightarrow> reachable_in nbr anchors 0 claim" if "reachable_in nbr anchors n claim" for n
    using LeastI [of "\<lambda>n. reachable_in nbr anchors n claim", OF that] by (metis Least_eq_0)
  have "hop_distance nbr max_hops k anchors claim = 0 \<longleftrightarrow> claim \<in> set anchors"
    unfolding hop_distance_cases anchor using zero [of ?d] least by (auto simp del: of_nat_eq_0_iff)
  moreover have "hop_distance nbr max_hops k anchors claim \<le> 1 - exp (- real m / k) \<or> max_hops < m"
    if "reachable_in nbr anchors m claim"
  proof (cases "m \<le> max_hops")
    case True
    have "?d \<le> m" by (rule Least_le) (rule that)
    then have "exp (- real m / k) \<le> exp (- real ?d / k)" using assms by (simp add: divide_right_mono)
    then show ?thesis using True that by (auto simp: hop_distance_cases)
  qed simp
  ultimately show ?thesis using exp [of ?d] by (auto simp: hop_distance_cases)
qed

lemma tag_links: "(tag_slug t, y) \<in> link (\<lambda>node. fst (neighbors (new_graph_view (Some l) wps) node))"
  if "ref \<in> set (lv_cartridges_with_tag l t)" "y = cartridge_slug ref"
proof -
  have "edge (tag_slug t) SHARED_TAG y \<in> set (materialize_neighbors (Some l) wps (tag_slug t))"
    using that by (auto simp: materialize_neighbors_def starts_with_def tag_slug_def tag_neighbors_def Let_def)
  moreover have "other_end (tag_slug t) (edge (tag_slug t) SHARED_TAG y) = y" by (simp add: other_end_def edge_def)
  ultimately show ?thesis
    by (force simp: link_def neighbors_def new_graph_view_def rebuild_known_tags_def Let_def)
qed

text \<open>
  Library fact: A query with a tag whose longest known parent is carried by a cartridge finds that cartridge after one
  hop, so its graph distance is 1 - exp(-1/k), whatever else is in the graph.
\<close>

theorem tagged_cartridge_is_one_hop:
  assumes "p \<in> set (lv_known_tags l)" "dotted_parent p tag"
    "\<forall>q \<in> set (all_known_tags (Some l) wps). dotted_parent q tag \<longrightarrow> length q \<le> length p"
    "ref \<in> set (lv_cartridges_with_tag l p)" "0 < max_hops"
  shows "anchors_for_tags (new_graph_view (Some l) wps) [tag] = [tag_slug p]
    \<and> d_graph (Some (new_graph_view (Some l) wps)) stub max_hops k [tag] (cartridge_slug ref) = 1 - exp (- 1 / k)"
proof -
  let ?gv = "new_graph_view (Some l) wps"
  have known: "gv_known_tags ?gv = all_known_tags (Some l) wps" by (simp add: new_graph_view_def rebuild_known_tags_def)
  have p: "p \<in> set (gv_known_tags ?gv)" using assms(1) by (simp add: known all_known_tags_def)
  have same: "q = p" if "q \<in> set (gv_known_tags ?gv)" "dotted_parent q tag" "length p \<le> length q" for q
  proof -
    have "length q = length p" using that assms(3) unfolding known by force
    moreover have "take (length x) tag = x" if "dotted_parent x tag" for x
      using that unfolding dotted_parent_def by (elim disjE exE) simp_all
    then have "take (length q) tag = q" "take (length p) tag = p" using that(2) assms(2) by blast+
    ultimately show ?thesis by metis
  qed
  have "anchor_for_tag (gv_known_tags ?gv) tag = Some (tag_slug p)"
  proof (cases "anchor_for_tag (gv_known_tags ?gv) tag")
    case None
    then show ?thesis using anchor_longest [of "gv_known_tags ?gv" tag] p assms(2) by auto
  next
    case (Some a)
    then obtain q where "q \<in> set (gv_known_tags ?gv)" "a = tag_slug q" "dotted_parent q tag" "length p \<le> length q"
      using anchor_longest [of "gv_known_tags ?gv" tag] p assms(2) by auto
    moreover from this have "q = p" by (intro same)
    ultimately show ?thesis using Some by simp
  qed
  then have anchors: "anchors_for_tags ?gv [tag] = [tag_slug p]" by (simp add: anchors_for_tags_def)
  have one: "reachable_in (\<lambda>node. fst (neighbors ?gv node)) [tag_slug p] 1 (cartridge_slug ref)"
    using tag_links [OF assms(4) refl] by (simp add: reachable_in_def)
  have "\<not> reachable_in (\<lambda>node. fst (neighbors ?gv node)) [tag_slug p] 0 (cartridge_slug ref)"
    by (simp add: reachable_in_def tag_slug_def cartridge_slug_def)
  with one have "(LEAST n. reachable_in (\<lambda>node. fst (neighbors ?gv node)) [tag_slug p] n (cartridge_slug ref)) = 1"
    by (intro Least_equality) (auto simp: Suc_le_eq intro: ccontr)
  then show ?thesis using one assms(5) anchors
    by (auto simp: d_graph_def hop_distance_cases Suc_le_eq intro!: exI [of _ 1])
qed

text \<open>
  Library fact: The edges of a supersession are recorded at one end only: a cartridge that supersedes another has the
  edge among its neighbours, but the superseded one, which supersedes and revokes nothing itself, has no
  edge back, so the search cannot pass from it to its successor.
\<close>

theorem supersession_is_one_way:
  assumes "lv_get_by_slug l a = Some tags_a" "lv_get_by_slug l b = Some tags_b" "b \<in> set (lv_supersedes_slugs l a)"
    "lv_supersedes_slugs l b = []" "lv_revokes_slugs l b = []" "starts_with ''CART:'' a" "starts_with ''CART:'' b" "a \<noteq> b"
    "gv = new_graph_view (Some l) wps"
  shows "(a, b) \<in> link (\<lambda>node. fst (neighbors gv node)) \<and> (b, a) \<notin> link (\<lambda>node. fst (neighbors gv node))"
proof -
  have nbr: "fst (neighbors gv node) = materialize_neighbors (Some l) wps node" for node
    by (simp add: assms(9) neighbors_def new_graph_view_def rebuild_known_tags_def Let_def)
  have "edge a SUPERSEDES b \<in> set (materialize_neighbors (Some l) wps a)"
    using assms(1,3,6) by (simp add: materialize_neighbors_def cartridge_neighbors_def)
  moreover have "other_end a (edge a SUPERSEDES b) = b" by (simp add: other_end_def edge_def)
  ultimately have "(a, b) \<in> link (\<lambda>node. fst (neighbors gv node))" by (force simp: link_def nbr)
  moreover have "(b, a) \<notin> link (\<lambda>node. fst (neighbors gv node))"
  proof
    assume "(b, a) \<in> link (\<lambda>node. fst (neighbors gv node))"
    then obtain t where "a = tag_slug t"
      using assms(2,4,5,7,8) by (auto simp: link_def nbr materialize_neighbors_def cartridge_neighbors_def other_end_def edge_def)
    then show False using assms(6) by (simp add: starts_with_def tag_slug_def)
  qed
  ultimately show ?thesis by blast
qed

section \<open>Witnesses\<close>

definition sample_librarian :: librarian_view where
  "sample_librarian =
     \<lparr>lv_known_tags = [''law'', ''law.us''],
      lv_get_by_slug = (\<lambda>s. if s = ''CART:a@2'' then Some [''law''] else if s = ''CART:a@1'' then Some [''law.us''] else None),
      lv_supersedes_slugs = (\<lambda>s. if s = ''CART:a@2'' then [''CART:a@1''] else []), lv_revokes_slugs = (\<lambda>s. []),
      lv_cartridges_with_tag = (\<lambda>t. if t = ''law.us'' then [(''a'', ''1'')] else if t = ''law'' then [(''a'', ''2'')] else [])\<rparr>"

definition sample_item :: vortex_item where
  "sample_item = \<lparr>vi_item_id = ''sha256:a7f3c2019'', vi_domain_tags = [], vi_sources = []\<rparr>"

lemma wp_slug_roundtrip_witness: "parse_wp_slug (wp_item_slug ''law:feed'' sample_item) = (''law:feed'', ''a7f3c201'')"
  using wp_slug_roundtrip [of sample_item "''law:feed''"] by (simp add: sample_item_def short_item_slug_def)

lemma graph_distance_shortest_witness:
  "hop_distance (\<lambda>n. if n = ''a'' then [edge ''a'' SHARED_TAG ''b''] else []) 6 3 [''a''] ''b'' \<noteq> 0"
  using graph_distance_shortest [of 3 "\<lambda>n. if n = ''a'' then [edge ''a'' SHARED_TAG ''b''] else []" 6 "[''a'']" "''b''" 0] by simp

lemma tagged_cartridge_is_one_hop_witness:
  "d_graph (Some (new_graph_view (Some sample_librarian) [])) (1/2) 6 3 [''law.us.federal''] ''CART:a@1'' = 1 - exp (- 1 / 3)"
proof -
  have p: "dotted_parent ''law.us'' ''law.us.federal''" by (simp add: dotted_parent_def)
  have "\<forall>q \<in> set (all_known_tags (Some sample_librarian) []). dotted_parent q ''law.us.federal'' \<longrightarrow> length q \<le> length ''law.us''"
    by (simp add: all_known_tags_def sample_librarian_def)
  from tagged_cartridge_is_one_hop [OF _ p this, of "(''a'', ''1'')" 6 "1/2" 3] show ?thesis
    by (simp add: sample_librarian_def cartridge_slug_def)
qed

lemma supersession_is_one_way_witness:
  "(''CART:a@1'', ''CART:a@2'') \<notin> link (\<lambda>node. fst (neighbors (new_graph_view (Some sample_librarian) []) node))"
  using supersession_is_one_way [of sample_librarian "''CART:a@2''" _ "''CART:a@1''" _ "new_graph_view (Some sample_librarian) []" "[]"]
  by (simp add: sample_librarian_def starts_with_def)

lemma anchor_is_longest_parent_witness:
  "\<exists>p \<in> {''law'', ''law.contract''}. anchor_for_tag [''law'', ''law.contract''] ''law.contract.breach'' = Some (tag_slug p) \<and>
     length p = length ''law.contract''"
proof -
  have a: "anchor_for_tag [''law'', ''law.contract''] ''law.contract.breach'' = Some (tag_slug ''law.contract'')" by code_simp
  show ?thesis using anchor_is_longest_parent [of "[''law'', ''law.contract'']" "''law.contract.breach''"] unfolding a by auto
qed

end
