(* ===== verification/Router.thy ===== *)
theory Router
  imports Context_Graph "HOL-Library.Sublist" "HOL-Library.Product_Lexorder" "HOL-Library.List_Lexorder" "HOL-Library.Char_ord"
begin

text \<open>
  \<^verbatim>\<open>maestro/router/distance.py\<close> and \<^verbatim>\<open>maestro/router/conformity.py\<close>: the components of the distance between a query
  and a claim, their weighted sum, and the choice of the dissenter by a decayed conformity score.  The
  embedder and the pseudo-random sample of positions are parameters; an embedder that raises is
  \<^term>\<open>None\<close>.  The methods of \<^verbatim>\<open>ContextRouter\<close> are unimplemented in the source and are not modelled.
\<close>

section \<open>Cosine distance\<close>

datatype distance_error = DimensionMismatch nat nat

definition dot_product :: "real list \<Rightarrow> real list \<Rightarrow> real" where
  "dot_product q c = sum_list (map2 (*) q c)"

definition d_embed :: "real list \<Rightarrow> real list \<Rightarrow> distance_error + real" where
  "d_embed q c =
     (if q = [] \<or> c = [] then Inr 1
      else if length q \<noteq> length c then Inl (DimensionMismatch (length q) (length c))
      else let dot = dot_product q c; qsq = dot_product q q; csq = dot_product c c in
        if qsq = 0 \<or> csq = 0 then Inr 1
        else let cosine = max (-1) (min 1 (dot / sqrt (qsq * csq))) in Inr (clamp01 (1 - cosine)))"

section \<open>Counterfactual distance\<close>

record DistanceWeights =
  dw_embed :: real
  dw_graph :: real
  dw_causal :: real
  dw_counter :: real

definition default_weights :: DistanceWeights where
  "default_weights = \<lparr>dw_embed = 7/10, dw_graph = 15/100, dw_causal = 1/10, dw_counter = 5/100\<rparr>"

record DistanceComponents =
  dc_embed :: real
  dc_graph :: real
  dc_causal :: real
  dc_counter :: real

definition composite :: "DistanceWeights \<Rightarrow> DistanceComponents \<Rightarrow> real" where
  "composite w c =
     clamp01 (dw_embed w * dc_embed c + dw_graph w * dc_graph c + dw_causal w * dc_causal c + dw_counter w * dc_counter c)"

text \<open>\<^term>\<open>dm_sample m i n k\<close> is what the \<open>i\<close>-th call of \<^verbatim>\<open>rng.sample(range(n), k)\<close> returns.\<close>

record DistanceMetric =
  dm_graph :: "graph_view option"
  dm_graph_stub :: real
  dm_causal_stub :: real
  dm_counter_stub :: real
  dm_max_hops :: nat
  dm_k :: real
  dm_embedder :: "(string \<Rightarrow> real list option) option"
  dm_perturbation_count :: nat
  dm_drop_fraction :: real
  dm_sample :: "nat \<Rightarrow> nat \<Rightarrow> nat \<Rightarrow> nat list"

definition drop_count_of :: "nat \<Rightarrow> real \<Rightarrow> nat" where
  "drop_count_of n fraction = min (max 1 (nat \<lfloor>real n * fraction\<rfloor>)) (n - 1)"

definition perturb_query :: "DistanceMetric \<Rightarrow> string \<Rightarrow> string list" where
  "perturb_query m query_text =
     (let words = py_split query_text; n = length words in
      if n < 3 then []
      else map (\<lambda>i. join_with '' '' (map ((!) words) (sort (dm_sample m i n (n - drop_count_of n (dm_drop_fraction m))))))
        [0..<dm_perturbation_count m])"

fun shifts_of :: "(string \<Rightarrow> real list option) \<Rightarrow> real \<Rightarrow> real list \<Rightarrow> string list \<Rightarrow> distance_error + real list" where
  "shifts_of emb base claim [] = Inr []"
| "shifts_of emb base claim (p # ps) =
     (case emb p of
        None \<Rightarrow> shifts_of emb base claim ps
      | Some e \<Rightarrow> bind_res (d_embed e claim) (\<lambda>d. bind_res (shifts_of emb base claim ps) (\<lambda>ss. Inr (\<bar>base - d\<bar> # ss))))"

definition d_counter :: "DistanceMetric \<Rightarrow> string \<Rightarrow> string \<Rightarrow> distance_error + real" where
  "d_counter m query_text claim_text =
     (case dm_embedder m of
        None \<Rightarrow> Inr (dm_counter_stub m)
      | Some emb \<Rightarrow>
          (let perturbations = perturb_query m query_text in
           if perturbations = [] then Inr (dm_counter_stub m)
           else case (emb query_text, emb claim_text) of
             (Some q, Some c) \<Rightarrow>
               bind_res (d_embed q c) (\<lambda>base. bind_res (shifts_of emb base c perturbations)
                 (\<lambda>ss. Inr (if ss = [] then dm_counter_stub m else clamp01 (sum_list ss / real (length ss)))))
           | _ \<Rightarrow> Inr (dm_counter_stub m)))"

definition d_causal :: "DistanceMetric \<Rightarrow> string \<Rightarrow> string \<Rightarrow> real" where
  "d_causal m query_text claim_text = dm_causal_stub m"

definition components ::
  "DistanceMetric \<Rightarrow> real list \<Rightarrow> real list \<Rightarrow> string list \<Rightarrow> string \<Rightarrow> string \<Rightarrow> string \<Rightarrow> distance_error + DistanceComponents" where
  "components m query_embedding claim_embedding query_tags query_text claim_text claim_node_id =
     bind_res (d_embed query_embedding claim_embedding) (\<lambda>e.
     bind_res (d_counter m query_text claim_text) (\<lambda>c.
       Inr \<lparr>dc_embed = e, dc_graph = d_graph (dm_graph m) (dm_graph_stub m) (dm_max_hops m) (dm_k m) query_tags claim_node_id,
            dc_causal = d_causal m query_text claim_text, dc_counter = c\<rparr>))"

section \<open>Conformity\<close>

record ConformitySession =
  cf_session_id :: string
  cf_participated :: "string list"
  cf_outliers :: "string list"

record ConformityWindow =
  cw_n_max :: nat
  cw_n_min :: nat
  cw_lambda :: real
  cw_floor :: real

definition default_window :: ConformityWindow where
  "default_window = \<lparr>cw_n_max = 20, cw_n_min = 5, cw_lambda = 5, cw_floor = 6/10\<rparr>"

datatype conformity_error = LambdaIsZero

definition exponential_weights :: "nat \<Rightarrow> real \<Rightarrow> real list" where
  "exponential_weights n lambda = map (\<lambda>i. exp (- real i / lambda)) [0..<n]"

definition relevant_sessions :: "string \<Rightarrow> ConformityWindow \<Rightarrow> ConformitySession list \<Rightarrow> ConformitySession list" where
  "relevant_sessions agent w sessions = take (cw_n_max w) (filter (\<lambda>s. agent \<in> set (cf_participated s)) sessions)"

definition conformity_score ::
  "string \<Rightarrow> ConformitySession list \<Rightarrow> ConformityWindow \<Rightarrow> conformity_error + real option" where
  "conformity_score agent sessions w =
     (let relevant = relevant_sessions agent w sessions in
      if length relevant < cw_n_min w then Inr None
      else if relevant \<noteq> [] \<and> cw_lambda w = 0 then Inl LambdaIsZero
      else let weights = exponential_weights (length relevant) (cw_lambda w); total_weight = sum_list weights in
        if total_weight = 0 then Inr None
        else Inr (Some (sum_list (map2 (\<lambda>weight s. weight * (if agent \<notin> set (cf_outliers s) then 1 else 0)) weights relevant)
                        / total_weight)))"

fun dissent_candidates ::
  "ConformitySession list \<Rightarrow> ConformityWindow \<Rightarrow> string list \<Rightarrow> conformity_error + (real \<times> string) list" where
  "dissent_candidates sessions w [] = Inr []"
| "dissent_candidates sessions w (agent # agents) =
     bind_res (conformity_score agent sessions w) (\<lambda>score.
     bind_res (dissent_candidates sessions w agents) (\<lambda>rest.
       Inr (case score of None \<Rightarrow> rest | Some s \<Rightarrow> if s < cw_floor w then rest else (s, agent) # rest)))"

definition select_dissenter ::
  "string list \<Rightarrow> ConformitySession list \<Rightarrow> ConformityWindow \<Rightarrow> conformity_error + string option" where
  "select_dissenter agent_names sessions w =
     bind_res (dissent_candidates sessions w agent_names) (\<lambda>candidates.
       Inr (case sort_key (\<lambda>(s, agent). (- s, agent)) candidates of [] \<Rightarrow> None | (_, agent) # _ \<Rightarrow> Some agent))"

section \<open>The embedding distance\<close>

lemma dot_commute: "dot_product q c = dot_product c q"
  unfolding dot_product_def
  by (induction q c rule: list_induct2') (auto simp: mult.commute)

lemma dot_scale: "dot_product (map ((*) a) q) c = a * dot_product q c"
  unfolding dot_product_def
  by (induction q c rule: list_induct2') (auto simp: algebra_simps)

lemma dot_scale_right: "dot_product q (map ((*) a) c) = a * dot_product q c"
  using dot_scale dot_commute by metis

lemma dot_self_nonneg: "0 \<le> dot_product q q"
  unfolding dot_product_def by (induction q) auto

text \<open>
  Library fact: The embedding distance fails exactly on two non-empty vectors of different length; otherwise it lies in
  [0, 1], is symmetric, does not change when a vector is scaled by a positive factor, is 0 between a
  non-zero vector and itself and 1 between it and its opposite.
\<close>

theorem embed_distance_sound:
  "(\<exists>e. d_embed q c = Inl e) = (q \<noteq> [] \<and> c \<noteq> [] \<and> length q \<noteq> length c)
   \<and> (case d_embed q c of Inl _ \<Rightarrow> True | Inr d \<Rightarrow> 0 \<le> d \<and> d \<le> 1 \<and> d_embed c q = Inr d)
   \<and> (0 < a \<longrightarrow> d_embed (map ((*) a) q) c = d_embed q c)
   \<and> (dot_product q q \<noteq> 0 \<longrightarrow> d_embed q q = Inr 0 \<and> d_embed q (map ((*) (-1)) q) = Inr 1)"
proof -
  have 1: "(\<exists>e. d_embed q c = Inl e) = (q \<noteq> [] \<and> c \<noteq> [] \<and> length q \<noteq> length c)" by (simp add: d_embed_def Let_def)
  have 2: "case d_embed q c of Inl _ \<Rightarrow> True | Inr d \<Rightarrow> 0 \<le> d \<and> d \<le> 1 \<and> d_embed c q = Inr d"
    by (auto simp: d_embed_def Let_def dot_commute [of c q] mult.commute)
  have 3: "d_embed (map ((*) a) q) c = d_embed q c" if "0 < a"
  proof -
    have "sqrt (a * (a * dot_product q q) * dot_product c c) = a * sqrt (dot_product q q * dot_product c c)"
    proof -
      have "a * (a * dot_product q q) * dot_product c c = (a * a) * (dot_product q q * dot_product c c)" by simp
      also have "sqrt \<dots> = sqrt (a * a) * sqrt (dot_product q q * dot_product c c)" by (rule real_sqrt_mult)
      also have "sqrt (a * a) = a" using that by (simp add: real_sqrt_mult_self)
      finally show ?thesis .
    qed
    then show ?thesis using that by (simp add: d_embed_def Let_def dot_scale dot_scale_right)
  qed
  have 4: "d_embed q q = Inr 0 \<and> d_embed q (map ((*) (-1)) q) = Inr 1" if "dot_product q q \<noteq> 0"
  proof -
    have pos: "0 < dot_product q q" using that dot_self_nonneg [of q] by simp
    moreover have "q \<noteq> []" using that by (auto simp: dot_product_def)
    moreover define r where "r = map ((*) (-1)) q"
    have r: "dot_product q r = - dot_product q q" "dot_product r r = dot_product q q" "r = [] \<longleftrightarrow> q = []" "length r = length q"
      using dot_scale [of "-1" q r] dot_scale_right [of q "-1" q] by (simp_all add: r_def)
    ultimately show ?thesis unfolding r_def [symmetric] by (simp add: d_embed_def Let_def clamp01_def r)
  qed
  from 1 2 3 4 show ?thesis by blast
qed

lemma d_embed_unit: "d_embed q c = Inr d \<Longrightarrow> 0 \<le> d \<and> d \<le> 1"
  by (auto simp: d_embed_def Let_def split: if_splits)

section \<open>The counterfactual and the composite distance\<close>

lemma d_counter_unit: "d_counter m q c = Inr d \<Longrightarrow> 0 \<le> dm_counter_stub m \<Longrightarrow> dm_counter_stub m \<le> 1 \<Longrightarrow> 0 \<le> d \<and> d \<le> 1"
  by (auto simp: d_counter_def Let_def bind_res_Inr split: option.splits if_splits)

lemma hop_distance_unit: "0 < k \<Longrightarrow> 0 \<le> hop_distance nbr h k anchors claim \<and> hop_distance nbr h k anchors claim \<le> 1"
  by (auto simp: hop_distance_def split: option.split)

lemma weighted_unit:
  fixes w :: real
  assumes "0 \<le> w" "0 \<le> x" "x \<le> 1"
  shows "0 \<le> w * x" "w * x \<le> w"
  using assms by (simp_all add: mult_left_le)

text \<open>
  Library fact: With stub values in [0, 1] every component of the distance of a query and a claim lies in [0, 1], and with
  non-negative weights that sum to 1 the composite is exactly their weighted sum: the clamp never acts.
  The components fail only when an embedding has another length than the claim's.
\<close>

theorem composite_distance_exact:
  assumes "components m qe ce tags qt ct node = Inr c" "0 < dm_k m"
    "\<forall>s \<in> {dm_graph_stub m, dm_causal_stub m, dm_counter_stub m}. 0 \<le> s \<and> s \<le> 1"
    "0 \<le> dw_embed w" "0 \<le> dw_graph w" "0 \<le> dw_causal w" "0 \<le> dw_counter w"
    "dw_embed w + dw_graph w + dw_causal w + dw_counter w = 1"
  shows "0 \<le> dc_embed c \<and> dc_embed c \<le> 1 \<and> 0 \<le> dc_graph c \<and> dc_graph c \<le> 1 \<and> 0 \<le> dc_causal c \<and> dc_causal c \<le> 1
    \<and> 0 \<le> dc_counter c \<and> dc_counter c \<le> 1
    \<and> composite w c = dw_embed w * dc_embed c + dw_graph w * dc_graph c + dw_causal w * dc_causal c + dw_counter w * dc_counter c"
proof -
  obtain e d where c: "d_embed qe ce = Inr e" "d_counter m qt ct = Inr d" "dc_embed c = e" "dc_counter c = d"
    "dc_causal c = dm_causal_stub m" "dc_graph c = d_graph (dm_graph m) (dm_graph_stub m) (dm_max_hops m) (dm_k m) tags node"
    using assms(1) by (auto simp: components_def bind_res_Inr d_causal_def)
  have u: "0 \<le> dc_embed c" "dc_embed c \<le> 1" "0 \<le> dc_graph c" "dc_graph c \<le> 1" "0 \<le> dc_causal c" "dc_causal c \<le> 1"
    "0 \<le> dc_counter c" "dc_counter c \<le> 1"
    using assms(2,3) d_embed_unit [OF c(1)] d_counter_unit [OF c(2)] hop_distance_unit [OF assms(2)]
    by (auto simp: c(3-6) d_graph_def split: option.split)
  note bounds = weighted_unit [OF assms(4) u(1,2)] weighted_unit [OF assms(5) u(3,4)] weighted_unit [OF assms(6) u(5,6)]
    weighted_unit [OF assms(7) u(7,8)]
  have "composite w c = dw_embed w * dc_embed c + dw_graph w * dc_graph c + dw_causal w * dc_causal c + dw_counter w * dc_counter c"
    unfolding composite_def by (rule clamp01_id) (use bounds assms(8) in linarith)+
  with u show ?thesis by blast
qed

lemma chosen_subseq:
  assumes "distinct idx" "set idx \<subseteq> {..<length words}"
  shows "subseq (map ((!) words) (sort idx)) words"
proof -
  have "sort idx = filter (\<lambda>i. i \<in> set idx) [0..<length words]"
    by (rule sorted_distinct_set_unique) (use assms in \<open>auto simp: sorted_wrt_filter\<close>)
  then have "subseq (sort idx) [0..<length words]" by simp
  then have "subseq (map ((!) words) (sort idx)) (map ((!) words) [0..<length words])" by (rule subseq_map)
  then show ?thesis by (simp add: map_nth)
qed

text \<open>
  Library fact: A query of at least three words is perturbed the configured number of times, each time by dropping the
  same number of its words, at least one and not all, and keeping the others in order; a shorter query
  is not perturbed.  Of the sampler only its documented behaviour is used: distinct positions in range.
\<close>

theorem perturbations_drop_words:
  assumes "\<forall>i n k. k \<le> n \<longrightarrow> length (dm_sample m i n k) = k \<and> distinct (dm_sample m i n k) \<and> set (dm_sample m i n k) \<subseteq> {..<n}"
    "words = py_split query" "n = length words"
  shows "length (perturb_query m query) = (if n < 3 then 0 else dm_perturbation_count m)
    \<and> (\<forall>p \<in> set (perturb_query m query). \<exists>kept. p = join_with '' '' kept \<and> subseq kept words
        \<and> length kept = n - drop_count_of n (dm_drop_fraction m) \<and> 1 \<le> length kept \<and> length kept < n)"
proof -
  let ?k = "n - drop_count_of n (dm_drop_fraction m)"
  have k: "?k \<le> n" "n \<ge> 3 \<Longrightarrow> 1 \<le> ?k \<and> ?k < n" by (auto simp: drop_count_of_def)
  have kept: "subseq (map ((!) words) (sort (dm_sample m i n ?k))) words" "length (dm_sample m i n ?k) = ?k" for i
    using assms(1) k(1) chosen_subseq [of "dm_sample m i n ?k" words] assms(3) by auto
  have "\<exists>kept. p = join_with '' '' kept \<and> subseq kept words \<and> length kept = ?k \<and> 1 \<le> length kept \<and> length kept < n"
    if p: "p \<in> set (perturb_query m query)" for p
  proof -
    have n: "n \<ge> 3" using p by (auto simp: perturb_query_def Let_def assms(2,3) split: if_splits)
    then obtain i where "p = join_with '' '' (map ((!) words) (sort (dm_sample m i n ?k)))"
      using p by (auto simp: perturb_query_def Let_def assms(2,3))
    moreover have "length (map ((!) words) (sort (dm_sample m i n ?k))) = ?k" using kept(2) by simp
    ultimately show ?thesis using kept(1) k(2) [OF n] by metis
  qed
  moreover have "length (perturb_query m query) = (if n < 3 then 0 else dm_perturbation_count m)"
    by (simp add: perturb_query_def Let_def assms(2,3))
  ultimately show ?thesis by blast
qed

section \<open>Conformity and the dissenter\<close>

lemma weights_positive: "w \<in> set (exponential_weights n l) \<Longrightarrow> 0 < w"
  by (auto simp: exponential_weights_def)

lemma length_weights [simp]: "length (exponential_weights n l) = n"
  by (simp add: exponential_weights_def)

lemma sum_positive: "xs \<noteq> [] \<Longrightarrow> (\<And>x. x \<in> set xs \<Longrightarrow> 0 < x) \<Longrightarrow> 0 < sum_list (xs :: real list)"
  by (induction xs rule: list_nonempty_induct) (auto intro: add_pos_pos)

definition majority_weight :: "('a \<Rightarrow> bool) \<Rightarrow> real list \<Rightarrow> 'a list \<Rightarrow> real" where
  "majority_weight P ws xs = sum_list (map2 (\<lambda>w x. w * (if P x then 1 else 0)) ws xs)"

lemma majority_bounds:
  assumes "length ws = length xs" "\<And>w. w \<in> set ws \<Longrightarrow> 0 < w"
  shows "0 \<le> majority_weight P ws xs" "majority_weight P ws xs \<le> sum_list ws"
    "majority_weight P ws xs = sum_list ws \<longleftrightarrow> list_all P xs" "majority_weight P ws xs = 0 \<longleftrightarrow> list_all (\<lambda>x. \<not> P x) xs"
proof -
  have "0 \<le> majority_weight P ws xs \<and> majority_weight P ws xs \<le> sum_list ws
    \<and> (majority_weight P ws xs = sum_list ws \<longleftrightarrow> list_all P xs) \<and> (majority_weight P ws xs = 0 \<longleftrightarrow> list_all (\<lambda>x. \<not> P x) xs)"
    using assms
  proof (induction ws xs rule: list_induct2)
    case (Cons w ws x xs)
    then have IH: "0 \<le> majority_weight P ws xs" "majority_weight P ws xs \<le> sum_list ws"
      "majority_weight P ws xs = sum_list ws \<longleftrightarrow> list_all P xs" "majority_weight P ws xs = 0 \<longleftrightarrow> list_all (\<lambda>x. \<not> P x) xs" and "0 < w"
      by simp_all
    then show ?case by (auto simp: majority_weight_def)
  qed (simp add: majority_weight_def)
  then show "0 \<le> majority_weight P ws xs" "majority_weight P ws xs \<le> sum_list ws"
    "majority_weight P ws xs = sum_list ws \<longleftrightarrow> list_all P xs" "majority_weight P ws xs = 0 \<longleftrightarrow> list_all (\<lambda>x. \<not> P x) xs" by blast+
qed

lemma conformity_unfold:
  assumes "cw_lambda w \<noteq> 0" "relevant_sessions agent w sessions \<noteq> []" "cw_n_min w \<le> length (relevant_sessions agent w sessions)"
  defines "rs \<equiv> relevant_sessions agent w sessions"
  shows "conformity_score agent sessions w =
      Inr (Some (majority_weight (\<lambda>s. agent \<notin> set (cf_outliers s)) (exponential_weights (length rs) (cw_lambda w)) rs
        / sum_list (exponential_weights (length rs) (cw_lambda w))))"
    and "0 < sum_list (exponential_weights (length rs) (cw_lambda w))"
proof -
  have "exponential_weights (length rs) (cw_lambda w) \<noteq> []"
    using assms(2) length_weights [of "length rs" "cw_lambda w"] by (fold rs_def) (metis length_0_conv)
  then show pos: "0 < sum_list (exponential_weights (length rs) (cw_lambda w))" by (rule sum_positive) (rule weights_positive)
  then show "conformity_score agent sessions w =
      Inr (Some (majority_weight (\<lambda>s. agent \<notin> set (cf_outliers s)) (exponential_weights (length rs) (cw_lambda w)) rs
        / sum_list (exponential_weights (length rs) (cw_lambda w))))"
    using assms(1-3) by (simp add: conformity_score_def majority_weight_def Let_def rs_def [symmetric])
qed

lemma conformity_bounds:
  assumes "cw_lambda w \<noteq> 0" "rs = relevant_sessions agent w sessions" "rs \<noteq> []"
  shows "(conformity_score agent sessions w = Inr None \<and> length rs < cw_n_min w)
    \<or> (\<exists>s. conformity_score agent sessions w = Inr (Some s) \<and> cw_n_min w \<le> length rs \<and> 0 \<le> s \<and> s \<le> 1
        \<and> (s = 1 \<longleftrightarrow> (\<forall>x \<in> set rs. agent \<notin> set (cf_outliers x))) \<and> (s = 0 \<longleftrightarrow> (\<forall>x \<in> set rs. agent \<in> set (cf_outliers x))))"
proof (cases "cw_n_min w \<le> length rs")
  case True
  let ?ws = "exponential_weights (length rs) (cw_lambda w)"
  let ?m = "majority_weight (\<lambda>s. agent \<notin> set (cf_outliers s)) ?ws rs"
  note s = conformity_unfold [of w agent sessions, folded assms(2), OF assms(1,3) True]
  note b = majority_bounds [of ?ws rs "\<lambda>s. agent \<notin> set (cf_outliers s)", OF length_weights weights_positive]
  have "0 \<le> ?m / sum_list ?ws" "?m / sum_list ?ws \<le> 1" using b(1,2) s(2) by simp_all
  moreover have "?m / sum_list ?ws = 1 \<longleftrightarrow> (\<forall>x \<in> set rs. agent \<notin> set (cf_outliers x))"
    using b(3) s(2) by (auto simp: list_all_iff)
  moreover have "?m / sum_list ?ws = 0 \<longleftrightarrow> (\<forall>x \<in> set rs. agent \<in> set (cf_outliers x))"
    using b(4) s(2) by (auto simp: list_all_iff)
  ultimately show ?thesis using s(1) True by blast
next
  case False
  then show ?thesis using assms(2) by (simp add: conformity_score_def Let_def)
qed

text \<open>
  Library fact: The conformity score exists exactly when the agent took part in enough sessions; it lies in [0, 1],
  is 1 exactly when the agent was in the majority of every session considered and 0 exactly when it was an
  outlier in all of them.
\<close>

theorem conformity_score_exact:
  assumes "cw_lambda w \<noteq> 0" "rs = relevant_sessions agent w sessions" "rs \<noteq> []"
  shows "(conformity_score agent sessions w = Inr None \<and> length rs < cw_n_min w)
    \<or> (\<exists>s. conformity_score agent sessions w = Inr (Some s) \<and> cw_n_min w \<le> length rs \<and> 0 \<le> s \<and> s \<le> 1
        \<and> (s = 1 \<longleftrightarrow> (\<forall>x \<in> set rs. agent \<notin> set (cf_outliers x))) \<and> (s = 0 \<longleftrightarrow> (\<forall>x \<in> set rs. agent \<in> set (cf_outliers x))))"
  by (rule conformity_bounds [OF assms])

lemma conformity_total: "cw_lambda w \<noteq> 0 \<Longrightarrow> \<exists>r. conformity_score agent sessions w = Inr r"
  by (simp add: conformity_score_def Let_def)

lemma candidates_iff:
  assumes "cw_lambda w \<noteq> 0"
  obtains cs where "dissent_candidates sessions w agents = Inr cs"
    "set cs = {(s, a). a \<in> set agents \<and> conformity_score a sessions w = Inr (Some s) \<and> cw_floor w \<le> s}"
proof -
  have "\<exists>cs. dissent_candidates sessions w agents = Inr cs
      \<and> set cs = {(s, a). a \<in> set agents \<and> conformity_score a sessions w = Inr (Some s) \<and> cw_floor w \<le> s}"
  proof (induction agents)
    case (Cons a agents)
    then obtain cs where "dissent_candidates sessions w agents = Inr cs"
      "set cs = {(s, a). a \<in> set agents \<and> conformity_score a sessions w = Inr (Some s) \<and> cw_floor w \<le> s}" by blast
    then show ?case using conformity_total [OF assms, of a sessions] by (auto split: option.split)
  qed simp
  then show ?thesis using that by blast
qed

text \<open>
  Library fact: The dissenter is the most conformist agent: there is none exactly when no agent reaches the floor, and
  otherwise the one chosen reaches it, nobody scores higher, and among equals it is the first by name.
\<close>

theorem dissenter_is_most_conformist:
  assumes "cw_lambda w \<noteq> 0"
  shows "case select_dissenter agents sessions w of
      Inl _ \<Rightarrow> False
    | Inr None \<Rightarrow> \<not> (\<exists>a \<in> set agents. \<exists>s. conformity_score a sessions w = Inr (Some s) \<and> cw_floor w \<le> s)
    | Inr (Some a) \<Rightarrow> a \<in> set agents \<and> (\<exists>s. conformity_score a sessions w = Inr (Some s) \<and> cw_floor w \<le> s
        \<and> (\<forall>b \<in> set agents. \<forall>t. conformity_score b sessions w = Inr (Some t) \<longrightarrow> t < s \<or> t = s \<and> a \<le> b))"
proof -
  obtain cs where cs: "dissent_candidates sessions w agents = Inr cs"
    "set cs = {(s, a). a \<in> set agents \<and> conformity_score a sessions w = Inr (Some s) \<and> cw_floor w \<le> s}"
    using candidates_iff [OF assms] by blast
  let ?key = "\<lambda>(s, agent). (- s, agent) :: real \<times> string"
  have sorted: "sorted (map ?key (sort_key ?key cs))" by simp
  show ?thesis
  proof (cases "sort_key ?key cs")
    case Nil
    then have "cs = []" by (metis set_empty set_sort)
    then show ?thesis using cs by (force simp: select_dissenter_def)
  next
    case (Cons c rest)
    obtain s a where c: "c = (s, a)" by (cases c)
    have mem: "set cs = insert (s, a) (set rest)" using Cons c by (metis list.simps(15) set_sort)
    have first: "(- s, a) \<le> ?key d" if "d \<in> set cs" for d
      using that sorted unfolding Cons c mem by auto
    have "t < s \<or> t = s \<and> a \<le> b" if "b \<in> set agents" "conformity_score b sessions w = Inr (Some t)" for b t
    proof (cases "cw_floor w \<le> t")
      case True
      then have "(t, b) \<in> set cs" using that cs by simp
      from first [OF this] show ?thesis by (auto simp: less_eq_prod_def)
    next
      case False
      have "cw_floor w \<le> s" using cs(2) mem by auto
      then show ?thesis using False by simp
    qed
    moreover have "(s, a) \<in> set cs" using mem by simp
    ultimately show ?thesis using cs Cons c by (auto simp: select_dissenter_def)
  qed
qed

section \<open>Witnesses\<close>

definition sample_metric :: DistanceMetric where
  "sample_metric = \<lparr>dm_graph = None, dm_graph_stub = 1/2, dm_causal_stub = 1/2, dm_counter_stub = 1/2, dm_max_hops = 6, dm_k = 3,
     dm_embedder = None, dm_perturbation_count = 5, dm_drop_fraction = 1/4, dm_sample = (\<lambda>i n k. [0..<k])\<rparr>"

lemma composite_distance_exact_witness:
  "composite default_weights \<lparr>dc_embed = 0, dc_graph = 1/2, dc_causal = 1/2, dc_counter = 1/2\<rparr> = 15 / 100"
proof -
  have "d_embed [1] [1] = Inr 0" by (simp add: d_embed_def dot_product_def clamp01_def)
  then have "components sample_metric [1] [1] [] ''q'' ''c'' ''n'' = Inr \<lparr>dc_embed = 0, dc_graph = 1/2, dc_causal = 1/2, dc_counter = 1/2\<rparr>"
    by (simp add: components_def sample_metric_def d_counter_def d_graph_def d_causal_def)
  from composite_distance_exact [OF this, of default_weights] show ?thesis
    by (simp add: sample_metric_def default_weights_def)
qed

lemma perturbations_drop_words_witness: "length (perturb_query sample_metric ''one two three four'') = 5"
proof -
  have "length (py_split ''one two three four'') = 4" by (simp add: py_split_def py_space_def)
  moreover have "\<forall>i n k. k \<le> n \<longrightarrow> length (dm_sample sample_metric i n k) = k \<and> distinct (dm_sample sample_metric i n k)
      \<and> set (dm_sample sample_metric i n k) \<subseteq> {..<n}"
    by (auto simp: sample_metric_def)
  from perturbations_drop_words [OF this refl refl, of "''one two three four''"]
  have "length (perturb_query sample_metric ''one two three four'') =
      (if length (py_split ''one two three four'') < 3 then 0 else dm_perturbation_count sample_metric)" by blast
  ultimately show ?thesis by (simp add: sample_metric_def)
qed

definition sample_sessions :: "ConformitySession list" where
  "sample_sessions = [\<lparr>cf_session_id = ''s'', cf_participated = [''sol'', ''aria''], cf_outliers = [''aria'']\<rparr>]"

definition sample_window :: ConformityWindow where
  "sample_window = \<lparr>cw_n_max = 20, cw_n_min = 1, cw_lambda = 5, cw_floor = 6/10\<rparr>"

lemma sample_relevant: "relevant_sessions ''sol'' sample_window sample_sessions = sample_sessions"
  by (simp add: relevant_sessions_def sample_window_def sample_sessions_def)

lemma conformity_score_exact_witness: "conformity_score ''sol'' sample_sessions sample_window = Inr (Some 1)"
  using conformity_score_exact [OF _ sample_relevant [symmetric]]
  by (auto simp: sample_window_def sample_sessions_def)

lemma dissenter_is_most_conformist_witness:
  "case select_dissenter [''aria'', ''sol''] sample_sessions sample_window of
      Inl _ \<Rightarrow> False | Inr None \<Rightarrow> False | Inr (Some a) \<Rightarrow> a \<in> {''aria'', ''sol''}"
proof -
  have "conformity_score ''sol'' sample_sessions sample_window = Inr (Some 1)"
    using conformity_bounds [OF _ sample_relevant [symmetric]] by (auto simp: sample_window_def sample_sessions_def)
  then show ?thesis
    using dissenter_is_most_conformist [of sample_window "[''aria'', ''sol'']" sample_sessions]
    by (auto simp: sample_window_def split: sum.splits option.splits)
qed

end
