(* ===== verification/Benchmark.thy ===== *)
theory Benchmark
  imports Router "HOL-Library.Multiset"
begin

text \<open>
  \<^verbatim>\<open>maestro/router/benchmark.py\<close> and \<^verbatim>\<open>maestro/router/benchmark_runner.py\<close>: the evaluation of the admission
  criterion on labelled examples, with the counts per tier, precision and recall, and the ranking metrics MAP
  and NDCG.  The embedder is a total parameter.  Reading a dataset from a JSON file is not modelled.
\<close>

section \<open>Datasets and results\<close>

datatype Tier = CARTRIDGE | WHIRLPOOL | WEIGHT_PRIOR

record BenchmarkQuery =
  bq_text :: string
  bq_tags :: "string list"

record BenchmarkCandidate =
  bc_id :: string
  bc_text :: string
  bc_tier :: Tier
  bc_expected_admit :: bool
  bc_trust :: real
  bc_tags :: "string list"
  bc_notes :: string

record BenchmarkExample =
  be_example_id :: string
  be_query :: BenchmarkQuery
  be_candidates :: "BenchmarkCandidate list"
  be_ranked_admit :: "string list"
  be_ranked_reject :: "string list"
  be_notes :: string

record BenchmarkDataset =
  bd_name :: string
  bd_examples :: "BenchmarkExample list"
  bd_description :: string

record TierMetrics =
  tm_tier :: "Tier option"
  tm_true_positives :: nat
  tm_false_positives :: nat
  tm_true_negatives :: nat
  tm_false_negatives :: nat

definition support :: "TierMetrics \<Rightarrow> nat" where
  "support m = tm_true_positives m + tm_false_positives m + tm_true_negatives m + tm_false_negatives m"

definition precision :: "TierMetrics \<Rightarrow> real" where
  "precision m = (let denom = tm_true_positives m + tm_false_positives m in
     if denom > 0 then real (tm_true_positives m) / real denom else 0)"

definition recall :: "TierMetrics \<Rightarrow> real" where
  "recall m = (let denom = tm_true_positives m + tm_false_negatives m in
     if denom > 0 then real (tm_true_positives m) / real denom else 0)"

definition f1 :: "TierMetrics \<Rightarrow> real" where
  "f1 m = (let p = precision m; r = recall m in if p + r > 0 then 2 * p * r / (p + r) else 0)"

record CandidateOutcome =
  co_candidate_id :: string
  co_tier :: Tier
  co_expected_admit :: bool
  co_actual_admit :: bool
  co_score :: real
  co_composite_distance :: real
  co_relevance :: real
  co_trust :: real
  co_tau :: real

record ExampleOutcome =
  eo_example_id :: string
  eo_candidate_outcomes :: "CandidateOutcome list"

record RankingMetrics =
  rm_map_score :: real
  rm_ndcg_at_k :: "(nat, real) dict"
  rm_examples_with_ranking :: nat

record RouterBenchmarkResult =
  rs_dataset_name :: string
  rs_examples_evaluated :: nat
  rs_overall_metrics :: TierMetrics
  rs_tier_metrics :: "(Tier, TierMetrics) dict"
  rs_ranking_metrics :: "RankingMetrics option"
  rs_per_example_outcomes :: "ExampleOutcome list"

section \<open>Relevance by tags\<close>

definition has_dot :: "string \<Rightarrow> bool" where
  "has_dot s = (CHR ''.'' \<in> set s)"

definition tag_match :: "string list \<Rightarrow> string list \<Rightarrow> real" where
  "tag_match query_tags candidate_tags =
     (if query_tags = [] \<or> candidate_tags = [] then 0
      else if list_ex (\<lambda>q. q \<in> set candidate_tags) query_tags then 1
      else if list_ex (\<lambda>q. has_dot q \<and> list_ex (\<lambda>c. has_dot c \<and> (starts_with (c @ ''.'') q \<or> starts_with (q @ ''.'') c)) candidate_tags)
          query_tags then 1
      else 0)"

section \<open>Ranking metrics\<close>

fun hit_precisions :: "string list \<Rightarrow> nat \<Rightarrow> nat \<Rightarrow> string list \<Rightarrow> real list" where
  "hit_precisions relevant i hits [] = []"
| "hit_precisions relevant i hits (cid # cids) =
     (if cid \<in> set relevant then real (hits + 1) / real i # hit_precisions relevant (i + 1) (hits + 1) cids
      else hit_precisions relevant (i + 1) hits cids)"

text \<open>A gain at rank \<open>r\<close> counts \<open>1 / log2(r + 1)\<close> of its value; a gain of 0, which the code skips, adds nothing.\<close>

fun discounted :: "nat \<Rightarrow> nat list \<Rightarrow> real" where
  "discounted rank [] = 0"
| "discounted rank (g # gs) = real g / log 2 (real (rank + 1)) + discounted (rank + 1) gs"

definition grades :: "string list \<Rightarrow> (string, nat) dict" where
  "grades relevant = fold (\<lambda>(rank, cid). dset cid (length relevant - rank)) (enumerate 0 relevant) []"

definition ndcg_of :: "string list \<Rightarrow> string list \<Rightarrow> nat \<Rightarrow> real" where
  "ndcg_of relevant runner_order k =
     (let grade = grades relevant;
          dcg = discounted 1 (map (\<lambda>cid. dget grade cid 0) (take k runner_order));
          idcg = discounted 1 (take k (rev (sort (dvalues grade))))
      in if idcg > 0 then dcg / idcg else 0)"

definition runner_ranking :: "(string, real) dict \<Rightarrow> string list" where
  "runner_ranking candidate_scores = map fst (sort_key (\<lambda>(cid, score). (- score, cid)) candidate_scores)"

definition map_score :: "string list \<Rightarrow> string list \<Rightarrow> real" where
  "map_score relevant runner_order =
     (if relevant = [] then 0 else sum_list (hit_precisions relevant 1 0 runner_order) / real (card (set relevant)))"

definition ranked_metrics_for_example ::
  "BenchmarkExample \<Rightarrow> (string, real) dict \<Rightarrow> nat list \<Rightarrow> (real \<times> (nat, real) dict) option" where
  "ranked_metrics_for_example example candidate_scores ndcg_ks =
     (if be_ranked_admit example = [] then None
      else let relevant = be_ranked_admit example; order = runner_ranking candidate_scores in
        Some (map_score relevant order, fold (\<lambda>k. dset k (ndcg_of relevant order k)) ndcg_ks []))"

section \<open>The runner\<close>

record counts =
  rc_tp :: nat
  rc_fp :: nat
  rc_tn :: nat
  rc_fn :: nat

definition no_counts :: counts where
  "no_counts = \<lparr>rc_tp = 0, rc_fp = 0, rc_tn = 0, rc_fn = 0\<rparr>"

definition add_count :: "bool \<Rightarrow> bool \<Rightarrow> counts \<Rightarrow> counts" where
  "add_count expected predicted c =
     (if predicted \<and> expected then c\<lparr>rc_tp := rc_tp c + 1\<rparr>
      else if predicted \<and> \<not> expected then c\<lparr>rc_fp := rc_fp c + 1\<rparr>
      else if \<not> predicted \<and> expected then c\<lparr>rc_fn := rc_fn c + 1\<rparr>
      else c\<lparr>rc_tn := rc_tn c + 1\<rparr>)"

record runner =
  br_metric :: DistanceMetric
  br_embedder :: "string \<Rightarrow> real list"
  br_weights :: DistanceWeights
  br_tau :: "(Tier, real) dict"
  br_w_topic :: real
  br_w_type :: real
  br_epsilon :: real
  br_ndcg_ks :: "nat list"

definition new_runner :: "DistanceMetric \<Rightarrow> (string \<Rightarrow> real list) \<Rightarrow> runner" where
  "new_runner metric embedder =
     \<lparr>br_metric = metric, br_embedder = embedder, br_weights = default_weights,
      br_tau = [(CARTRIDGE, 8/10), (WHIRLPOOL, 4/10), (WEIGHT_PRIOR, 3/10)],
      br_w_topic = 7/10, br_w_type = 3/10, br_epsilon = 1/100, br_ndcg_ks = [5, 10]\<rparr>"

datatype benchmark_error = DistanceFailed distance_error | DivisionByZero

fun lift_distance :: "distance_error + 'a \<Rightarrow> benchmark_error + 'a" where
  "lift_distance (Inl e) = Inl (DistanceFailed e)"
| "lift_distance (Inr x) = Inr x"

definition evaluate_candidate ::
  "runner \<Rightarrow> BenchmarkQuery \<Rightarrow> real list \<Rightarrow> BenchmarkCandidate \<Rightarrow> benchmark_error + CandidateOutcome" where
  "evaluate_candidate r query q_emb cand =
     (let c_emb = br_embedder r (bc_text cand) in
      bind_res (lift_distance (components (br_metric r) q_emb c_emb (bq_tags query) (bq_text query) (bc_text cand) (bc_id cand))) (\<lambda>cs.
      bind_res (lift_distance (d_embed q_emb c_emb)) (\<lambda>d.
        let composite_distance = composite (br_weights r) cs;
            cos_similarity = clamp01 (1 - d);
            relevance = clamp01 (br_w_topic r * cos_similarity + br_w_type r * tag_match (bq_tags query) (bc_tags cand))
        in if composite_distance + br_epsilon r = 0 then Inl DivisionByZero
           else let score = (bc_trust cand * relevance) / (composite_distance + br_epsilon r);
                    tau = dget (br_tau r) (bc_tier cand) (1/2)
                in Inr \<lparr>co_candidate_id = bc_id cand, co_tier = bc_tier cand, co_expected_admit = bc_expected_admit cand,
                        co_actual_admit = (score \<ge> tau), co_score = score, co_composite_distance = composite_distance,
                        co_relevance = relevance, co_trust = bc_trust cand, co_tau = tau\<rparr>)))"

fun evaluate_candidates ::
  "runner \<Rightarrow> BenchmarkQuery \<Rightarrow> real list \<Rightarrow> BenchmarkCandidate list \<Rightarrow> benchmark_error + CandidateOutcome list" where
  "evaluate_candidates r query q_emb [] = Inr []"
| "evaluate_candidates r query q_emb (c # cs) =
     bind_res (evaluate_candidate r query q_emb c) (\<lambda>co.
     bind_res (evaluate_candidates r query q_emb cs) (\<lambda>outs. Inr (co # outs)))"

definition evaluate_example :: "runner \<Rightarrow> BenchmarkExample \<Rightarrow> benchmark_error + ExampleOutcome \<times> (string, real) dict" where
  "evaluate_example r example =
     bind_res (evaluate_candidates r (be_query example) (br_embedder r (bq_text (be_query example))) (be_candidates example))
       (\<lambda>outs. Inr (\<lparr>eo_example_id = be_example_id example, eo_candidate_outcomes = outs\<rparr>,
                   fold (\<lambda>co. dset (co_candidate_id co) (co_score co)) outs []))"

fun evaluate_examples :: "runner \<Rightarrow> BenchmarkExample list \<Rightarrow> benchmark_error + (ExampleOutcome \<times> (string, real) dict) list" where
  "evaluate_examples r [] = Inr []"
| "evaluate_examples r (e # es) =
     bind_res (evaluate_example r e) (\<lambda>x. bind_res (evaluate_examples r es) (\<lambda>xs. Inr (x # xs)))"

definition counts_to_metrics :: "Tier option \<Rightarrow> counts \<Rightarrow> TierMetrics" where
  "counts_to_metrics tier c =
     \<lparr>tm_tier = tier, tm_true_positives = rc_tp c, tm_false_positives = rc_fp c, tm_true_negatives = rc_tn c,
      tm_false_negatives = rc_fn c\<rparr>"

definition count_outcome :: "CandidateOutcome \<Rightarrow> counts \<times> (Tier, counts) dict \<Rightarrow> counts \<times> (Tier, counts) dict" where
  "count_outcome co acc =
     (let add = add_count (co_expected_admit co) (co_actual_admit co) in
      (add (fst acc), dset (co_tier co) (add (dget (snd acc) (co_tier co) no_counts)) (snd acc)))"

definition aggregate_ranking :: "nat list \<Rightarrow> (real \<times> (nat, real) dict) list \<Rightarrow> RankingMetrics option" where
  "aggregate_ranking ndcg_ks accumulator =
     (if accumulator = [] then None
      else let n = length accumulator in
        Some \<lparr>rm_map_score = sum_list (map fst accumulator) / real n,
              rm_ndcg_at_k = fold (\<lambda>k. dset k (sum_list (map (\<lambda>a. dget (snd a) k 0) accumulator) / real n)) ndcg_ks [],
              rm_examples_with_ranking = n\<rparr>)"

definition evaluate :: "runner \<Rightarrow> BenchmarkDataset \<Rightarrow> benchmark_error + RouterBenchmarkResult" where
  "evaluate r dataset =
     bind_res (evaluate_examples r (bd_examples dataset)) (\<lambda>evaluated.
       let outcomes = concat (map (eo_candidate_outcomes \<circ> fst) evaluated);
           (overall, per_tier) = fold count_outcome outcomes (no_counts, []);
           rankings = map the (filter (\<lambda>x. x \<noteq> None)
             (map2 (\<lambda>e x. ranked_metrics_for_example e (snd x) (br_ndcg_ks r)) (bd_examples dataset) evaluated))
       in Inr \<lparr>rs_dataset_name = bd_name dataset, rs_examples_evaluated = length (bd_examples dataset),
               rs_overall_metrics = counts_to_metrics None overall,
               rs_tier_metrics = map (\<lambda>(tier, c). (tier, counts_to_metrics (Some tier) c)) per_tier,
               rs_ranking_metrics = aggregate_ranking (br_ndcg_ks r) rankings,
               rs_per_example_outcomes = map fst evaluated\<rparr>)"

section \<open>Counts\<close>

text \<open>The reference: each cell of the confusion matrix counts the outcomes that belong to it.\<close>

definition tally :: "CandidateOutcome list \<Rightarrow> bool \<Rightarrow> bool \<Rightarrow> nat" where
  "tally outcomes expected actual = length (filter (\<lambda>o'. co_expected_admit o' = expected \<and> co_actual_admit o' = actual) outcomes)"

definition confusion :: "Tier option \<Rightarrow> CandidateOutcome list \<Rightarrow> TierMetrics" where
  "confusion tier outcomes =
     \<lparr>tm_tier = tier, tm_true_positives = tally outcomes True True, tm_false_positives = tally outcomes False True,
      tm_true_negatives = tally outcomes False False, tm_false_negatives = tally outcomes True False\<rparr>"

definition of_tier :: "Tier \<Rightarrow> CandidateOutcome list \<Rightarrow> CandidateOutcome list" where
  "of_tier t outcomes = filter (\<lambda>o'. co_tier o' = t) outcomes"

lemma of_tier_Nil [simp]: "of_tier t [] = []"
  by (simp add: of_tier_def)

lemma of_tier_snoc: "of_tier t (os @ [co]) = of_tier t os @ (if co_tier co = t then [co] else [])"
  by (simp add: of_tier_def)

definition tallied :: "CandidateOutcome list \<Rightarrow> counts" where
  "tallied os = \<lparr>rc_tp = tally os True True, rc_fp = tally os False True, rc_tn = tally os False False, rc_fn = tally os True False\<rparr>"

lemma tallied_snoc: "tallied (os @ [co]) = add_count (co_expected_admit co) (co_actual_admit co) (tallied os)"
  by (cases "co_expected_admit co"; cases "co_actual_admit co") (simp_all add: tallied_def tally_def add_count_def)

lemma tallied_Nil: "tallied [] = no_counts"
  by (simp add: tallied_def tally_def no_counts_def)

lemma count_outcomes:
  "fst (fold count_outcome os (no_counts, [])) = tallied os
   \<and> map_of (snd (fold count_outcome os (no_counts, []))) t = (if of_tier t os = [] then None else Some (tallied (of_tier t os)))"
proof (induction os arbitrary: t rule: rev_induct)
  case (snoc co os)
  then show ?case
    by (auto simp: count_outcome_def Let_def tallied_snoc of_tier_snoc dget_def tallied_Nil [symmetric] split: if_splits)
qed (simp add: tallied_Nil)

lemma evaluate_candidate_outcome:
  assumes "evaluate_candidate r query q_emb c = Inr co"
  shows "co_tier co = bc_tier c \<and> co_expected_admit co = bc_expected_admit c \<and> co_candidate_id co = bc_id c
    \<and> co_actual_admit co = (dget (br_tau r) (bc_tier c) (1/2) \<le> co_score co)
    \<and> co_score co = bc_trust c * co_relevance co / (co_composite_distance co + br_epsilon r)
    \<and> 0 \<le> co_relevance co \<and> co_relevance co \<le> 1 \<and> 0 \<le> co_composite_distance co \<and> co_composite_distance co \<le> 1"
  using assms by (auto simp: evaluate_candidate_def Let_def bind_res_Inr composite_def split: if_splits)

lemma evaluate_candidates_all:
  "evaluate_candidates r query q_emb cs = Inr outs \<Longrightarrow> list_all2 (\<lambda>c co. evaluate_candidate r query q_emb c = Inr co) cs outs"
  by (induction cs arbitrary: outs) (auto simp: bind_res_Inr)

lemma evaluate_examples_all:
  "evaluate_examples r es = Inr xs \<Longrightarrow> list_all2 (\<lambda>e x. evaluate_example r e = Inr x) es xs"
  by (induction es arbitrary: xs) (auto simp: bind_res_Inr)

text \<open>
  Library fact: The evaluation counts exactly what it lists: the overall metrics are the confusion matrix of all candidate
  outcomes, the metrics of a tier are the matrix of the outcomes of that tier, and a tier without
  candidates is absent; every example has its outcomes, one per candidate, with the admission decided by
  the trust, relevance and distance recorded.
\<close>

theorem benchmark_counts_exact:
  assumes "evaluate r dataset = Inr res" "outcomes = concat (map eo_candidate_outcomes (rs_per_example_outcomes res))"
  shows "rs_overall_metrics res = confusion None outcomes
    \<and> map_of (rs_tier_metrics res) t = (if of_tier t outcomes = [] then None else Some (confusion (Some t) (of_tier t outcomes)))
    \<and> list_all2 (\<lambda>e eo. eo_example_id eo = be_example_id e \<and> list_all2 (\<lambda>c co. co_candidate_id co = bc_id c \<and> co_tier co = bc_tier c
          \<and> co_expected_admit co = bc_expected_admit c \<and> co_actual_admit co = (dget (br_tau r) (bc_tier c) (1/2) \<le> co_score co)
          \<and> co_score co = bc_trust c * co_relevance co / (co_composite_distance co + br_epsilon r))
        (be_candidates e) (eo_candidate_outcomes eo)) (bd_examples dataset) (rs_per_example_outcomes res)"
proof -
  obtain xs where xs: "evaluate_examples r (bd_examples dataset) = Inr xs" "rs_per_example_outcomes res = map fst xs"
    and metrics: "rs_overall_metrics res = counts_to_metrics None (fst (fold count_outcome outcomes (no_counts, [])))"
      "rs_tier_metrics res = map (\<lambda>(tier, c). (tier, counts_to_metrics (Some tier) c)) (snd (fold count_outcome outcomes (no_counts, [])))"
    using assms by (auto simp: evaluate_def bind_res_Inr Let_def split_def comp_def)
  have conf: "counts_to_metrics u (tallied os) = confusion u os" for u os
    by (simp add: counts_to_metrics_def tallied_def confusion_def)
  have tiers: "map_of (map (\<lambda>(tier, c). (tier, counts_to_metrics (Some tier) c)) d) t = map_option (counts_to_metrics (Some t)) (map_of d t)" for d
    by (induction d) auto
  have per: "list_all2 (\<lambda>e eo. eo_example_id eo = be_example_id e \<and> list_all2 (\<lambda>c co. co_candidate_id co = bc_id c \<and> co_tier co = bc_tier c
          \<and> co_expected_admit co = bc_expected_admit c \<and> co_actual_admit co = (dget (br_tau r) (bc_tier c) (1/2) \<le> co_score co)
          \<and> co_score co = bc_trust c * co_relevance co / (co_composite_distance co + br_epsilon r))
        (be_candidates e) (eo_candidate_outcomes eo)) (bd_examples dataset) (rs_per_example_outcomes res)"
    unfolding xs(2) list.rel_map
  proof (rule list_all2_mono [OF evaluate_examples_all [OF xs(1)]])
    fix e x
    assume "evaluate_example r e = Inr x"
    then obtain outs where "evaluate_candidates r (be_query e) (br_embedder r (bq_text (be_query e))) (be_candidates e) = Inr outs"
      "fst x = \<lparr>eo_example_id = be_example_id e, eo_candidate_outcomes = outs\<rparr>"
      by (auto simp: evaluate_example_def bind_res_Inr)
    then show "eo_example_id (fst x) = be_example_id e \<and> list_all2 (\<lambda>c co. co_candidate_id co = bc_id c \<and> co_tier co = bc_tier c
          \<and> co_expected_admit co = bc_expected_admit c \<and> co_actual_admit co = (dget (br_tau r) (bc_tier c) (1/2) \<le> co_score co)
          \<and> co_score co = bc_trust c * co_relevance co / (co_composite_distance co + br_epsilon r))
        (be_candidates e) (eo_candidate_outcomes (fst x))"
      by (auto dest!: evaluate_candidates_all elim!: list_all2_mono dest: evaluate_candidate_outcome)
  qed
  show ?thesis using per count_outcomes [of outcomes t] by (auto simp: metrics tiers conf)
qed

section \<open>Precision, recall and the admission score\<close>

text \<open>
  Library fact: Precision, recall and F1 lie in [0, 1]; precision is 1 exactly when something was admitted and nothing
  wrongly, recall is 1 exactly when something was expected and nothing missed, F1 lies between the two,
  and the supports add up.
\<close>

theorem precision_recall_sound:
  "0 \<le> precision m \<and> precision m \<le> 1 \<and> 0 \<le> recall m \<and> recall m \<le> 1
   \<and> min (precision m) (recall m) \<le> f1 m \<and> f1 m \<le> max (precision m) (recall m)
   \<and> (precision m = 1 \<longleftrightarrow> 0 < tm_true_positives m \<and> tm_false_positives m = 0)
   \<and> (recall m = 1 \<longleftrightarrow> 0 < tm_true_positives m \<and> tm_false_negatives m = 0)
   \<and> support (confusion u outcomes) = length outcomes"
proof -
  let ?p = "precision m" and ?r = "recall m"
  have p: "0 \<le> ?p" "?p \<le> 1" by (auto simp: precision_def Let_def)
  have r: "0 \<le> ?r" "?r \<le> 1" by (auto simp: recall_def Let_def)
  have f: "min p r \<le> 2 * p * r / (p + r)" "2 * p * r / (p + r) \<le> max p r" if "0 \<le> p" "0 \<le> r" "p + r > 0" for p r :: real
  proof -
    have "p * (p + r) \<le> 2 * p * r" if "p \<le> r" using mult_left_mono [OF that \<open>0 \<le> p\<close>] by (simp add: algebra_simps)
    moreover have "r * (p + r) \<le> 2 * p * r" if "r \<le> p" using mult_left_mono [OF that \<open>0 \<le> r\<close>] by (simp add: algebra_simps)
    moreover have "2 * p * r \<le> r * (p + r)" if "p \<le> r" using mult_right_mono [OF that \<open>0 \<le> r\<close>] by (simp add: algebra_simps)
    moreover have "2 * p * r \<le> p * (p + r)" if "r \<le> p" using mult_left_mono [OF that \<open>0 \<le> p\<close>] by (simp add: algebra_simps)
    ultimately show "min p r \<le> 2 * p * r / (p + r)" "2 * p * r / (p + r) \<le> max p r"
      using \<open>p + r > 0\<close> by (auto simp: min_def max_def field_simps)
  qed
  have "min ?p ?r \<le> f1 m \<and> f1 m \<le> max ?p ?r"
    using f [OF p(1) r(1)] p(1) r(1) by (auto simp: f1_def Let_def)
  moreover have "?p = 1 \<longleftrightarrow> 0 < tm_true_positives m \<and> tm_false_positives m = 0"
    by (auto simp: precision_def Let_def field_simps)
  moreover have "?r = 1 \<longleftrightarrow> 0 < tm_true_positives m \<and> tm_false_negatives m = 0"
    by (auto simp: recall_def Let_def field_simps)
  moreover have "support (confusion u outcomes) = length outcomes"
    by (induction outcomes) (auto simp: support_def confusion_def tally_def)
  ultimately show ?thesis using p r by blast
qed

text \<open>
  Library fact: Trust only helps: with a positive epsilon a candidate of higher trust scores at least as high on the same
  text, and what was admitted stays admitted.
\<close>

theorem admission_monotone_in_trust:
  assumes "evaluate_candidate r query q_emb c = Inr co" "evaluate_candidate r query q_emb (c\<lparr>bc_trust := t\<rparr>) = Inr co'"
    "bc_trust c \<le> t" "0 < br_epsilon r"
  shows "co_score co \<le> co_score co' \<and> (co_actual_admit co \<longrightarrow> co_actual_admit co')
    \<and> co_relevance co' = co_relevance co \<and> co_composite_distance co' = co_composite_distance co"
proof -
  have same: "co_relevance co' = co_relevance co" "co_composite_distance co' = co_composite_distance co"
    using assms(1,2) by (auto simp: evaluate_candidate_def Let_def bind_res_Inr split: if_splits)
  note o1 = evaluate_candidate_outcome [OF assms(1)] and o2 = evaluate_candidate_outcome [OF assms(2)]
  have "bc_trust c * co_relevance co / (co_composite_distance co + br_epsilon r) \<le> t * co_relevance co / (co_composite_distance co + br_epsilon r)"
    using o1 assms(3,4) by (intro divide_right_mono mult_right_mono) simp_all
  then have "co_score co \<le> co_score co'" using o1 o2 same by simp
  then show ?thesis using o1 o2 same by auto
qed

section \<open>Ranking metrics\<close>

lemma hit_precisions_bounds:
  "hits < i \<Longrightarrow> distinct order \<Longrightarrow>
   (\<forall>p \<in> set (hit_precisions relevant i hits order). 0 \<le> p \<and> p \<le> 1)
   \<and> length (hit_precisions relevant i hits order) = card (set order \<inter> set relevant)"
proof (induction order arbitrary: i hits)
  case (Cons c cs)
  have "card (set (c # cs) \<inter> set relevant) = (if c \<in> set relevant then Suc (card (set cs \<inter> set relevant)) else card (set cs \<inter> set relevant))"
    using Cons.prems(2) by (simp add: card_insert_if)
  then show ?case using Cons.IH [of "hits + 1" "i + 1"] Cons.IH [of hits "i + 1"] Cons.prems by (auto simp: field_simps)
qed simp

lemma map_score_unit: "distinct order \<Longrightarrow> 0 \<le> map_score relevant order \<and> map_score relevant order \<le> 1"
proof (cases "relevant = []")
  case False
  assume d: "distinct order"
  let ?ps = "hit_precisions relevant 1 0 order"
  have ps: "\<forall>p \<in> set ?ps. 0 \<le> p \<and> p \<le> 1" "length ?ps = card (set order \<inter> set relevant)"
    using hit_precisions_bounds [of 0 1 order relevant] d by auto
  have "sum_list ?ps \<le> real (length ?ps) * 1" using ps(1) sum_list_mono [of ?ps "\<lambda>p. p" "\<lambda>_. 1"] by (simp add: sum_list_triv)
  also have "\<dots> \<le> real (card (set relevant))" unfolding ps(2) by (simp add: card_mono)
  finally have "sum_list ?ps \<le> real (card (set relevant))" .
  moreover have "0 < real (card (set relevant))" using False by (simp add: card_gt_0_iff)
  ultimately show ?thesis using False ps(1) sum_list_nonneg [of ?ps] by (simp add: map_score_def)
qed (simp add: map_score_def)

text \<open>A weighted sum with decreasing weights grows with its partial sums.\<close>

lemma partial_sums_mono:
  fixes w d :: "nat \<Rightarrow> real"
  assumes "\<And>i. w (Suc i) \<le> w i" "\<And>i. 0 \<le> w i" "\<And>t. t \<le> n \<Longrightarrow> 0 \<le> (\<Sum>i<t. d i)"
  shows "w n * (\<Sum>i<n. d i) \<le> (\<Sum>i<n. w i * d i)"
  using assms(3)
proof (induction n)
  case (Suc n)
  have "w (Suc n) * (\<Sum>i<Suc n. d i) \<le> w n * (\<Sum>i<Suc n. d i)"
    using Suc.prems [of "Suc n"] assms(1) by (intro mult_right_mono) auto
  also have "\<dots> = w n * (\<Sum>i<n. d i) + w n * d n" by (simp add: distrib_left)
  also have "\<dots> \<le> (\<Sum>i<n. w i * d i) + w n * d n" using Suc by simp
  finally show ?case by simp
qed simp

definition padded :: "nat list \<Rightarrow> nat \<Rightarrow> nat" where
  "padded xs i = (if i < length xs then xs ! i else 0)"

definition rank_weight :: "nat \<Rightarrow> real" where
  "rank_weight i = 1 / log 2 (real (i + 2))"

lemma rank_weight_pos: "0 < rank_weight i"
  by (simp add: rank_weight_def)

lemma rank_weight_decreasing: "rank_weight (Suc i) \<le> rank_weight i"
  by (simp add: rank_weight_def frac_le)

lemma padded_Cons: "padded (g # gs) (Suc i) = padded gs i" "padded (g # gs) 0 = g" "padded [] i = 0"
  by (simp_all add: padded_def)

lemma discounted_sum: "length gs \<le> n \<Longrightarrow> discounted (r + 1) gs = (\<Sum>i<n. rank_weight (r + i) * real (padded gs i))"
proof (induction gs arbitrary: r n)
  case (Cons g gs)
  then obtain m where n: "n = Suc m" "length gs \<le> m" by (cases n) auto
  show ?case using Cons.IH [of m "r + 1"] n
    by (simp add: sum.lessThan_Suc_shift padded_Cons rank_weight_def del: sum.lessThan_Suc)
qed (simp add: padded_Cons)

lemma padded_prefix: "(\<Sum>i<t. padded xs i) = sum_list (take t xs)"
proof (induction xs arbitrary: t)
  case (Cons x xs)
  then show ?case by (cases t) (simp_all add: sum.lessThan_Suc_shift padded_Cons del: sum.lessThan_Suc)
qed (simp add: padded_Cons)

lemma discounted_mono:
  assumes "\<And>t. sum_list (take t xs) \<le> sum_list (take t ys)"
  shows "discounted 1 xs \<le> discounted 1 ys"
proof -
  let ?n = "max (length xs) (length ys)"
  let ?d = "\<lambda>i. real (padded ys i) - real (padded xs i)"
  have "0 \<le> (\<Sum>i<t. ?d i)" for t
    using assms [of t] by (simp add: sum_subtractf padded_prefix flip: of_nat_sum)
  then have "0 \<le> rank_weight ?n * (\<Sum>i<?n. ?d i)" using rank_weight_pos by (simp add: less_imp_le)
  also have "\<dots> \<le> (\<Sum>i<?n. rank_weight i * ?d i)"
    by (rule partial_sums_mono) (use rank_weight_decreasing rank_weight_pos \<open>\<And>t. 0 \<le> (\<Sum>i<t. ?d i)\<close> in \<open>auto simp: less_imp_le\<close>)
  also have "\<dots> = discounted 1 ys - discounted 1 xs"
    using discounted_sum [of xs ?n 0] discounted_sum [of ys ?n 0] by (simp add: right_diff_distrib sum_subtractf)
  finally show ?thesis by simp
qed

text \<open>No selection of \<open>t\<close> values exceeds the \<open>t\<close> greatest.\<close>

lemma top_sum:
  fixes zs :: "nat list"
  assumes "sorted_wrt (\<ge>) zs" "A \<subseteq># mset zs" "size A \<le> t"
  shows "\<Sum>\<^sub># A \<le> sum_list (take t zs)"
  using assms
proof (induction zs arbitrary: A t)
  case (Cons z zs)
  show ?case
  proof (cases "A = {#}")
    case False
    then obtain t' where t: "t = Suc t'" using Cons.prems(3) by (cases t) auto
    show ?thesis
    proof (cases "z \<in># A")
      case True
      then obtain B where "A = add_mset z B" by (metis insert_DiffM)
      then show ?thesis using Cons.IH [of B t'] Cons.prems t by simp
    next
      case z: False
      obtain a B where A: "A = add_mset a B" using False by (metis multiset_cases)
      have sub: "A \<subseteq># mset zs"
        using Cons.prems(2) z subset_eq_diff_conv [of A "{#z#}" "mset zs"] by (simp add: diff_single_trivial)
      have "a \<le> z" using Cons.prems(1) sub A by (auto dest: mset_subset_eqD)
      moreover have "B \<subseteq># mset zs" using sub A by (metis mset_subset_eq_insertD subset_mset.less_imp_le)
      ultimately show ?thesis using Cons.IH [of B t'] Cons.prems A t by simp
    qed
  qed simp
qed simp

lemma well_keyed_grades: "well_keyed (grades relevant)"
proof -
  have "well_keyed (fold (\<lambda>(rank, cid). dset cid (n - rank)) xs d)" if "well_keyed d" for n xs and d :: "(string, nat) dict"
    using that by (induction xs arbitrary: d) (auto simp: split_def)
  then show ?thesis by (simp add: grades_def)
qed

lemma sum_distinct_keys:
  fixes d :: "(string, nat) dict"
  assumes "well_keyed d" "distinct xs" "length xs \<le> t"
  shows "sum_list (map (\<lambda>c. dget d c 0) xs) \<le> sum_list (take t (rev (sort (dvalues d))))"
proof -
  let ?v = "\<lambda>c. dget d c 0"
  let ?ys = "filter (\<lambda>c. c \<in> set (dkeys d)) xs"
  have zero: "?v c = 0" if "c \<notin> set (dkeys d)" for c 
  proof -
    have "map_of d c = None" using that by (simp add: map_of_eq_None_iff)
    then show ?thesis by (simp add: dget_def)
  qed
  have "sum_list (map ?v xs) = sum_list (map ?v ?ys)"
  proof (induction xs)
    case (Cons c xs)
    then show ?case using zero [of c] by (cases "c \<in> set (dkeys d)") simp_all
  qed simp
  also have "\<dots> = \<Sum>\<^sub># (image_mset ?v (mset ?ys))" by (simp flip: sum_mset_sum_list)
  also have "\<dots> \<le> sum_list (take t (rev (sort (dvalues d))))"
  proof (rule top_sum)
    show "sorted_wrt (\<ge>) (rev (sort (dvalues d)))" by (simp add: sorted_wrt_rev)
    have "?v (fst p) = snd p" if "p \<in> set d" for p
    proof -
      have "map_of d (fst p) = Some (snd p)"
        by (rule map_of_is_SomeI) (use that assms(1) in \<open>simp_all add: well_keyed_def\<close>)
      then show ?thesis by (simp add: dget_def)
    qed
    then have "map ?v (dkeys d) = dvalues d" by simp
    then have "mset (rev (sort (dvalues d))) = image_mset ?v (mset (dkeys d))" by (metis mset_map mset_rev mset_sort)
    moreover have "mset ?ys \<subseteq># mset (dkeys d)"
    proof -
      have "mset_set (set ?ys) \<subseteq># mset_set (set (dkeys d))" by (rule subset_imp_msubset_mset_set) auto
      moreover have "mset_set (set ?ys) = mset ?ys" by (rule mset_set_set) (use assms(2) in simp)
      moreover have "mset_set (set (dkeys d)) = mset (dkeys d)" by (rule mset_set_set) (use assms(1) in \<open>simp add: well_keyed_def\<close>)
      ultimately show ?thesis by (simp only:)
    qed
    ultimately show "image_mset ?v (mset ?ys) \<subseteq># mset (rev (sort (dvalues d)))" by (simp add: image_mset_subseteq_mono)
    show "size (image_mset ?v (mset ?ys)) \<le> t" unfolding size_image_mset size_mset using assms(3) length_filter_le by (rule order_trans [rotated])
  qed
  finally show ?thesis .
qed

lemma discounted_nonneg: "0 \<le> discounted r gs"
  by (induction gs arbitrary: r) simp_all

lemma ndcg_unit:
  assumes "distinct order"
  shows "0 \<le> ndcg_of relevant order k \<and> ndcg_of relevant order k \<le> 1"
proof -
  let ?d = "grades relevant"
  let ?xs = "map (\<lambda>c. dget ?d c 0) (take k order)" and ?ys = "take k (rev (sort (dvalues ?d)))"
  have "discounted 1 ?xs \<le> discounted 1 ?ys"
  proof (rule discounted_mono)
    fix t
    have "distinct (take (min t k) order)" using assms by simp
    moreover have "length (take (min t k) order) \<le> min t k" unfolding length_take by (rule min.cobounded2)
    ultimately have "sum_list (map (\<lambda>c. dget ?d c 0) (take (min t k) order)) \<le> sum_list (take (min t k) (rev (sort (dvalues ?d))))"
      by (rule sum_distinct_keys [OF well_keyed_grades])
    then     show "sum_list (take t ?xs) \<le> sum_list (take t ?ys)" by (simp add: take_map min.commute)
  qed
  then show ?thesis using discounted_nonneg by (simp add: ndcg_of_def Let_def divide_le_eq_1)
qed

lemma fold_dset_values:
  "map_of (fold (\<lambda>k. dset k (f k)) ks d) j = (if j \<in> set ks then Some (f j) else map_of d j)"
  by (induction ks arbitrary: d) auto

lemma distinct_ranking: "well_keyed scores \<Longrightarrow> distinct (runner_ranking scores)"
proof -
  assume wk: "well_keyed scores"
  have "mset (runner_ranking scores) = mset (dkeys scores)" by (simp add: runner_ranking_def)
  from mset_eq_imp_distinct_iff [OF this] wk show ?thesis by (simp add: well_keyed_def)
qed

lemma scores_well_keyed: "well_keyed d \<Longrightarrow> well_keyed (fold (\<lambda>co. dset (co_candidate_id co) (co_score co)) os d)"
  by (induction os arbitrary: d) auto

lemma ranked_metrics_unit:
  assumes "ranked_metrics_for_example e scores ks = Some (m, nd)" "well_keyed scores"
  shows "0 \<le> m \<and> m \<le> 1 \<and> 0 \<le> dget nd k 0 \<and> dget nd k 0 \<le> 1"
  using assms map_score_unit [OF distinct_ranking [OF assms(2)]] ndcg_unit [OF distinct_ranking [OF assms(2)]]
  by (auto simp: ranked_metrics_for_example_def Let_def dget_def fold_dset_values split: if_splits option.split)

lemma average_unit: "xs \<noteq> [] \<Longrightarrow> (\<And>x. x \<in> set xs \<Longrightarrow> 0 \<le> x \<and> x \<le> 1) \<Longrightarrow> 0 \<le> sum_list xs / real (length xs) \<and> sum_list xs / real (length xs) \<le> 1"
  using mean_of_unit [of xs] by (simp add: mean_of_def)

lemma present_value: "a \<in> set (map the (filter (\<lambda>x. x \<noteq> None) xs)) \<Longrightarrow> Some a \<in> set xs"
  by auto

text \<open>
  Library fact: The ranking metrics of an evaluation are there exactly when some example is annotated, count those
  examples, and lie in [0, 1]: in particular no ranking of the candidates has a discounted gain above the
  ideal one.
\<close>

theorem ranking_metrics_sound:
  assumes "evaluate r dataset = Inr res"
  shows "case rs_ranking_metrics res of
      None \<Rightarrow> list_all (\<lambda>e. be_ranked_admit e = []) (bd_examples dataset)
    | Some rm \<Rightarrow> rm_examples_with_ranking rm = length (filter (\<lambda>e. be_ranked_admit e \<noteq> []) (bd_examples dataset))
        \<and> 0 < rm_examples_with_ranking rm \<and> 0 \<le> rm_map_score rm \<and> rm_map_score rm \<le> 1
        \<and> (\<forall>k. map_of (rm_ndcg_at_k rm) k \<noteq> None \<longleftrightarrow> k \<in> set (br_ndcg_ks r))
        \<and> (\<forall>k. 0 \<le> dget (rm_ndcg_at_k rm) k 0 \<and> dget (rm_ndcg_at_k rm) k 0 \<le> 1)"
proof -
  obtain xs where xs: "evaluate_examples r (bd_examples dataset) = Inr xs"
    and rm: "rs_ranking_metrics res = aggregate_ranking (br_ndcg_ks r) (map the (filter (\<lambda>x. x \<noteq> None)
        (map2 (\<lambda>e x. ranked_metrics_for_example e (snd x) (br_ndcg_ks r)) (bd_examples dataset) xs)))"
    using assms by (auto simp: evaluate_def bind_res_Inr Let_def split_def)
  define acc where "acc = map the (filter (\<lambda>x. x \<noteq> None)
        (map2 (\<lambda>e x. ranked_metrics_for_example e (snd x) (br_ndcg_ks r)) (bd_examples dataset) xs))"
  have rm': "rs_ranking_metrics res = aggregate_ranking (br_ndcg_ks r) acc" using rm by (simp only: acc_def)
  have len: "length acc = length (filter (\<lambda>e. be_ranked_admit e \<noteq> []) (bd_examples dataset))"
    using evaluate_examples_all [OF xs] unfolding acc_def
    by (induction rule: list_all2_induct) (auto simp: ranked_metrics_for_example_def Let_def)
  have unit: "0 \<le> fst a \<and> fst a \<le> 1 \<and> 0 \<le> dget (snd a) k 0 \<and> dget (snd a) k 0 \<le> 1" if "a \<in> set acc" for a k
  proof -
    have "Some a \<in> set (map2 (\<lambda>e x. ranked_metrics_for_example e (snd x) (br_ndcg_ks r)) (bd_examples dataset) xs)"
      using that unfolding acc_def by (rule present_value)
    then obtain e y z where e: "(e, y, z) \<in> set (zip (bd_examples dataset) xs)" "ranked_metrics_for_example e z (br_ndcg_ks r) = Some a"
      by force
    then have "evaluate_example r e = Inr (y, z)" using evaluate_examples_all [OF xs] by (auto simp: list_all2_iff)
    then have "well_keyed z" by (auto simp: evaluate_example_def bind_res_Inr intro: scores_well_keyed)
    then show ?thesis using ranked_metrics_unit [of e z _ "fst a" "snd a"] e(2) by simp
  qed
  show ?thesis
  proof (cases "acc = []")
    case True
    then have "filter (\<lambda>e. be_ranked_admit e \<noteq> []) (bd_examples dataset) = []" using len by simp
    then show ?thesis using True by (simp add: rm' aggregate_ranking_def list_all_iff filter_empty_conv)
  next
    case False
    have "0 \<le> sum_list (map f acc) / real (length acc) \<and> sum_list (map f acc) / real (length acc) \<le> 1"
      if "\<And>a. a \<in> set acc \<Longrightarrow> 0 \<le> f a \<and> f a \<le> 1" for f :: "_ \<Rightarrow> real"
    proof -
      have u: "0 \<le> x \<and> x \<le> 1" if "x \<in> set (map f acc)" for x using that \<open>\<And>a. a \<in> set acc \<Longrightarrow> 0 \<le> f a \<and> f a \<le> 1\<close> by auto
      have ne: "map f acc \<noteq> []" using False by simp
      show ?thesis using average_unit [OF ne u] unfolding length_map .
    qed
    from this [of fst] this [of "\<lambda>a. dget (snd a) k 0" for k] show ?thesis
      using False len unit by (auto simp: rm' aggregate_ranking_def Let_def fold_dset_values dget_def)
  qed
qed

section \<open>A perfect ranking\<close>

lemma hit_precisions_perfect:
  "set xs \<subseteq> set relevant \<Longrightarrow> set ys \<inter> set relevant = {} \<Longrightarrow>
   hit_precisions relevant (Suc h) h (xs @ ys) = replicate (length xs) 1"
proof (induction xs arbitrary: h)
  case Nil
  have "hit_precisions relevant i h ys = []" for i using Nil(2) by (induction ys arbitrary: i) auto
  then show ?case by simp
qed simp

lemma discounted_zeros: "discounted r (xs @ replicate n 0) = discounted r xs"
proof (induction xs arbitrary: r)
  case Nil
  show ?case by (induction n arbitrary: r) simp_all
qed simp

lemma grades_distinct:
  "distinct relevant \<Longrightarrow> grades relevant = map (\<lambda>(rank, cid). (cid, length relevant - rank)) (enumerate 0 relevant)"
proof -
  have "fold (\<lambda>(rank, cid). dset cid (n - rank)) (enumerate i xs) d = d @ map (\<lambda>(rank, cid). (cid, n - rank)) (enumerate i xs)"
    if "distinct xs" "set xs \<inter> set (dkeys d) = {}" for n i xs and d :: "(string, nat) dict"
    using that by (induction xs arbitrary: i d) (auto simp: dset_append)
  from this [of relevant "[]"] show "distinct relevant \<Longrightarrow> ?thesis" by (simp add: grades_def)
qed

text \<open>
  Library fact: A perfect ranking is rated as perfect: when the runner orders the annotated candidates first and in the
  annotated order, MAP and NDCG at every positive cutoff are 1.
\<close>

theorem perfect_ranking_scores_one:
  assumes "distinct relevant" "relevant \<noteq> []" "order = relevant @ others" "distinct order" "0 < k"
  shows "map_score relevant order = 1 \<and> ndcg_of relevant order k = 1"
proof -
  let ?m = "length relevant"
  have rest: "set others \<inter> set relevant = {}" using assms(3,4) by auto
  have "map_score relevant order = 1"
    using hit_precisions_perfect [of relevant relevant others 0] rest assms(1-3)
    by (simp add: map_score_def distinct_card sum_list_replicate)
  moreover have "ndcg_of relevant order k = 1"
  proof -
    let ?vals = "map (\<lambda>i. ?m - i) [0..<?m]"
    have d: "grades relevant = zip relevant ?vals"
      unfolding grades_distinct [OF assms(1)] by (rule nth_equalityI) (auto simp: nth_enumerate_eq)
    have vals: "dvalues (grades relevant) = ?vals" unfolding d by simp
    have "sorted (rev ?vals)" by (auto simp: sorted_iff_nth_mono rev_nth)
    then have ideal: "rev (sort (dvalues (grades relevant))) = ?vals"
      unfolding vals by (metis mset_rev properties_for_sort rev_rev_ident)
    have gain: "map (\<lambda>c. dget (grades relevant) c 0) relevant = ?vals"
      using assms(1) by (intro nth_equalityI) (auto simp: d dget_def map_of_zip_nth)
    have none: "map (\<lambda>c. dget (grades relevant) c 0) ys = replicate (length ys) 0" if "set ys \<subseteq> set others" for ys
    proof -
      have "dget (grades relevant) c 0 = 0" if "c \<notin> set relevant" for c
      proof -
        have "map_of (grades relevant) c = None" using that by (simp add: d map_of_zip_is_None)
        then show ?thesis by (simp add: dget_def)
      qed
      then have "map (\<lambda>c. dget (grades relevant) c 0) ys = map (\<lambda>_. 0) ys" using that rest by (intro map_cong) auto
      then show ?thesis by (simp add: map_replicate_const)
    qed
    have "map (\<lambda>c. dget (grades relevant) c 0) (take k order) = take k ?vals @ replicate (length (take (k - ?m) others)) 0"
    proof -
      have "map (\<lambda>c. dget (grades relevant) c 0) (take k order) =
          map (\<lambda>c. dget (grades relevant) c 0) (take k relevant) @ map (\<lambda>c. dget (grades relevant) c 0) (take (k - ?m) others)"
        by (simp add: assms(3))
      also have "map (\<lambda>c. dget (grades relevant) c 0) (take k relevant) = take k ?vals" using gain by (metis take_map)
      also have "map (\<lambda>c. dget (grades relevant) c 0) (take (k - ?m) others) = replicate (length (take (k - ?m) others)) 0"
        by (rule none [OF set_take_subset])
      finally show ?thesis .
    qed
    then have eq: "discounted 1 (map (\<lambda>c. dget (grades relevant) c 0) (take k order)) = discounted 1 (take k ?vals)"
      by (simp only: discounted_zeros)
    obtain k' m' where "k = Suc k'" "?m = Suc m'" using assms(2,5) by (metis gr0_conv_Suc length_greater_0_conv)
    then have "0 < discounted 1 (take k ?vals)" using discounted_nonneg by (simp add: upt_conv_Cons add_pos_nonneg del: upt_Suc)
    then show ?thesis by (simp add: ndcg_of_def Let_def ideal eq [unfolded One_nat_def])
  qed
  ultimately show ?thesis by blast
qed

section \<open>Witnesses\<close>

definition sample_runner :: runner where
  "sample_runner = new_runner sample_metric (\<lambda>_. [1])"

definition sample_candidate :: BenchmarkCandidate where
  "sample_candidate = \<lparr>bc_id = ''c'', bc_text = ''t'', bc_tier = WHIRLPOOL, bc_expected_admit = True, bc_trust = 1/2, bc_tags = [],
     bc_notes = ''''\<rparr>"

definition sample_dataset :: BenchmarkDataset where
  "sample_dataset = \<lparr>bd_name = ''d'', bd_examples =
     [\<lparr>be_example_id = ''e'', be_query = \<lparr>bq_text = ''q'', bq_tags = []\<rparr>, be_candidates = [sample_candidate],
      be_ranked_admit = [''c''], be_ranked_reject = [], be_notes = ''''\<rparr>], bd_description = ''''\<rparr>"

lemma sample_components:
  "components sample_metric [1] [1] [] q t n = Inr \<lparr>dc_embed = 0, dc_graph = 1/2, dc_causal = 1/2, dc_counter = 1/2\<rparr>"
  "d_embed [1] [1] = Inr 0"
proof -
  show "d_embed [1] [1] = Inr 0" by (simp add: d_embed_def dot_product_def clamp01_def)
  then show "components sample_metric [1] [1] [] q t n = Inr \<lparr>dc_embed = 0, dc_graph = 1/2, dc_causal = 1/2, dc_counter = 1/2\<rparr>"
    by (simp add: components_def sample_metric_def d_counter_def d_graph_def d_causal_def)
qed

lemma sample_outcome:
  "\<exists>co. evaluate_candidate sample_runner \<lparr>bq_text = ''q'', bq_tags = []\<rparr> [1] (sample_candidate\<lparr>bc_trust := t\<rparr>) = Inr co"
  by (simp add: evaluate_candidate_def sample_runner_def new_runner_def sample_candidate_def sample_components Let_def
      composite_def clamp01_def default_weights_def)

lemma sample_evaluation: "\<exists>res. evaluate sample_runner sample_dataset = Inr res"
proof -
  obtain co where "evaluate_candidate sample_runner \<lparr>bq_text = ''q'', bq_tags = []\<rparr> [1] sample_candidate = Inr co"
    using sample_outcome [of "1/2"] by (auto simp: sample_candidate_def)
  then show ?thesis
    by (simp add: evaluate_def sample_dataset_def evaluate_example_def Let_def split_def) (simp add: sample_runner_def new_runner_def)
qed

lemma benchmark_counts_exact_witness:
  "\<exists>res. evaluate sample_runner sample_dataset = Inr res
    \<and> rs_overall_metrics res = confusion None (concat (map eo_candidate_outcomes (rs_per_example_outcomes res)))"
  using sample_evaluation benchmark_counts_exact [OF _ refl] by blast

lemma ranking_metrics_sound_witness:
  "\<exists>res. evaluate sample_runner sample_dataset = Inr res
    \<and> (case rs_ranking_metrics res of None \<Rightarrow> False | Some rm \<Rightarrow> rm_examples_with_ranking rm = 1 \<and> rm_map_score rm \<le> 1)"
proof -
  obtain res where res: "evaluate sample_runner sample_dataset = Inr res" using sample_evaluation by blast
  then show ?thesis
    using ranking_metrics_sound [OF res] by (auto simp: sample_dataset_def split: option.splits)
qed

lemma admission_monotone_in_trust_witness:
  "\<exists>co co'. evaluate_candidate sample_runner \<lparr>bq_text = ''q'', bq_tags = []\<rparr> [1] sample_candidate = Inr co
    \<and> evaluate_candidate sample_runner \<lparr>bq_text = ''q'', bq_tags = []\<rparr> [1] (sample_candidate\<lparr>bc_trust := 1\<rparr>) = Inr co'
    \<and> co_score co \<le> co_score co'"
proof -
  obtain co where 1: "evaluate_candidate sample_runner \<lparr>bq_text = ''q'', bq_tags = []\<rparr> [1] sample_candidate = Inr co"
    using sample_outcome [of "1/2"] by (auto simp: sample_candidate_def)
  obtain co' where 2: "evaluate_candidate sample_runner \<lparr>bq_text = ''q'', bq_tags = []\<rparr> [1] (sample_candidate\<lparr>bc_trust := 1\<rparr>) = Inr co'"
    using sample_outcome by blast
  show ?thesis using admission_monotone_in_trust [OF 1 2] 1 2 by (simp add: sample_candidate_def sample_runner_def new_runner_def)
qed

lemma perfect_ranking_scores_one_witness: "ndcg_of [''b'', ''a''] [''b'', ''a'', ''c''] 5 = 1"
  using perfect_ranking_scores_one [of "[''b'', ''a'']" "[''b'', ''a'', ''c'']" "[''c'']" 5] by simp

end
