(* ===== verification/Plugins.thy ===== *)
theory Plugins
  imports Py_Codec
begin

text \<open>
  \<^verbatim>\<open>maestro/plugins/base.py\<close> and \<^verbatim>\<open>maestro/plugins/manager.py\<close>: the mod manager.  It discovers the manifests
  in the installed directory, validates them, loads the modules, takes each plugin through its lifecycle, keeps
  the hooks of the pipeline, the event subscribers and the agents the plugins register, and saves and restores
  snapshots.  The directory tree is part of the manager's record.  The code of a plugin is a parameter: a
  module is what executing its file gives, and a method of an instance is a script of calls on the context the
  manager hands it, each of which tells it whether it raised, ended by a result or a raise.  A manifest and a
  configuration hold values of the types the sources annotate; plugin ids are plain file names.
\<close>

section \<open>Data of the plugin protocol\<close>

datatype PluginCategory =
  AGENT | ANALYZER | AGGREGATOR | STORAGE_PROVIDER | OUTPUT_FORMAT | PIPELINE_HOOK | PROOF_SYSTEM | EMBEDDING_PROVIDER

fun category_value :: "PluginCategory \<Rightarrow> string" where
  "category_value AGENT = ''agent''"
| "category_value ANALYZER = ''analyzer''"
| "category_value AGGREGATOR = ''aggregator''"
| "category_value STORAGE_PROVIDER = ''storage''"
| "category_value OUTPUT_FORMAT = ''output''"
| "category_value PIPELINE_HOOK = ''hook''"
| "category_value PROOF_SYSTEM = ''proof''"
| "category_value EMBEDDING_PROVIDER = ''embedding''"

type_synonym config = "(string, json) dict"

record PluginManifest =
  pm_plugin_id :: string
  pm_name :: string
  pm_version :: string
  pm_category :: string
  pm_description :: string
  pm_author :: string
  pm_entry_point :: string
  pm_class_name :: string
  pm_dependencies :: "string list"
  pm_maestro_version_min :: string
  pm_maestro_version_max :: "string option"
  pm_config_schema :: config
  pm_permissions :: "string list"
  pm_tags :: "string list"
  pm_metadata :: config

datatype PluginState = DISCOVERED | VALIDATED | LOADED | ENABLED | DISABLED | ERROR | UNLOADED

fun state_value :: "PluginState \<Rightarrow> string" where
  "state_value DISCOVERED = ''discovered''"
| "state_value VALIDATED = ''validated''"
| "state_value LOADED = ''loaded''"
| "state_value ENABLED = ''enabled''"
| "state_value DISABLED = ''disabled''"
| "state_value ERROR = ''error''"
| "state_value UNLOADED = ''unloaded''"

text \<open>
  The calls a plugin makes on its \<^verbatim>\<open>PluginContext\<close>, and the run of a method.  A subscribed callback is code of a
  plugin too: \<open>on_event\<close> gives the plugin through whose context it acts and the calls it makes for a piece of data.
  \<open>emission_limit\<close> is what the stack and the patience of the interpreter allow: the number of callbacks that run one after
  the other and inside each other during one broadcast.  Every property below holds for every value of it.
\<close>

datatype ('cb, 'ag) context_call =
  RegisterHook string 'cb | UnregisterHook string 'cb
| RegisterAgent string 'ag | UnregisterAgent string | SubscribeEvent string 'cb | EmitEvent string json
| GetRegistry | GetR2Engine | GetSessionLogger | Log string

datatype ('cb, 'ag, 'p) script =
  Return bool 'p | Raise string 'p | Call "('cb, 'ag) context_call" "bool \<Rightarrow> ('cb, 'ag, 'p) script"

record ('cb, 'ag, 'p) plugin_methods =
  activate :: "'p \<Rightarrow> ('cb, 'ag, 'p) script"
  deactivate :: "'p \<Rightarrow> ('cb, 'ag, 'p) script"
  on_config_change :: "'p \<Rightarrow> config \<Rightarrow> ('cb, 'ag, 'p) script"
  health_check :: "'p \<Rightarrow> string + json"
  on_event :: "'cb \<Rightarrow> json \<Rightarrow> string \<times> ('cb, 'ag, unit) script"
  emission_limit :: nat

section \<open>State of the manager\<close>

text \<open>A manifest file: the fields of its object that the manifest has, a text that is no JSON object, or no JSON.\<close>

record manifest_fields =
  mf_plugin_id :: "string option"
  mf_name :: "string option"
  mf_version :: "string option"
  mf_category :: "string option"
  mf_description :: "string option"
  mf_author :: "string option"
  mf_entry_point :: "string option"
  mf_class_name :: "string option"
  mf_dependencies :: "string list option"
  mf_maestro_version_min :: "string option"
  mf_maestro_version_max :: "string option option"
  mf_config_schema :: "config option"
  mf_permissions :: "string list option"
  mf_tags :: "string list option"
  mf_metadata :: "config option"

datatype manifest_text = Undecodable | NotAnObject | ManifestObject manifest_fields

text \<open>Executing a module raises or defines classes, whose constructors raise or give an instance.\<close>

datatype 'p plugin_module = ExecRaises string | Classes "(string \<times> (string + 'p)) list"

record 'p plugin_dir =
  pd_is_dir :: bool
  pd_manifest :: "manifest_text option"
  pd_files :: "(string \<times> 'p plugin_module) list"
  pd_config :: "config option option"

datatype plugin_error =
  EntryPointNotFound | ClassNotFound string | LoadFailed string | DependencyFailed string
| ActivateReturnedFalse | ActivationFailed string

record 'p PluginRecord =
  pr_manifest :: PluginManifest
  pr_state :: PluginState
  pr_instance :: "'p option"
  pr_module :: "string option"
  pr_error :: "plugin_error option"

record WeightStateSnapshot =
  ws_snapshot_id :: string
  ws_name :: string
  ws_created_at :: string
  ws_description :: string
  ws_enabled_plugins :: "string list"
  ws_disabled_plugins :: "string list"
  ws_plugin_configs :: "(string, config) dict"
  ws_storage_nodes :: "json list"
  ws_shard_assignments :: config
  ws_active_agents :: "string list"
  ws_thresholds :: config
  ws_runtime_config :: config
  ws_metadata :: config

record ('cb, 'ag, 'p) mod_manager =
  mm_installed :: "(string, 'p plugin_dir) dict"
  mm_snapshots :: "(string, WeightStateSnapshot option) dict"
  mm_runtime_config :: "config option option"
  mm_data_dirs :: "string list"
  mm_modules :: "string list"
  mm_plugins :: "(string, 'p PluginRecord) dict"
  mm_event_subscribers :: "(string, 'cb list) dict"
  mm_hooks :: "(string, 'cb list) dict"
  mm_registered_agents :: "(string, 'ag) dict"
  mm_hook_owners :: "(string, (string \<times> 'cb) list) dict"

datatype mod_error = UnknownHookPoint string | ManifestNotAnObject string | NoSuchDirectory string | RecursionTooDeep

definition MAESTRO_VERSION :: string where
  "MAESTRO_VERSION = ''7.4.0''"

definition HOOK_POINTS :: "string list" where
  "HOOK_POINTS = [''pre_orchestration'', ''post_agent_response'', ''pre_aggregation'', ''post_aggregation'',
     ''pre_r2_scoring'', ''post_r2_scoring'', ''pre_session_save'', ''post_session_save'']"

definition new_manager ::
  "(string, 'p plugin_dir) dict \<Rightarrow> (string, WeightStateSnapshot option) dict \<Rightarrow> config option option \<Rightarrow>
   ('cb, 'ag, 'p) mod_manager" where
  "new_manager installed snapshots rc =
     \<lparr>mm_installed = installed, mm_snapshots = snapshots, mm_runtime_config = rc, mm_data_dirs = [],
      mm_modules = [], mm_plugins = [], mm_event_subscribers = [],
      mm_hooks = map (\<lambda>hp. (hp, [])) HOOK_POINTS, mm_registered_agents = [],
      mm_hook_owners = map (\<lambda>hp. (hp, [])) HOOK_POINTS\<rparr>"

text \<open>A record is a shared object: an assignment to its fields is seen under its key.\<close>

definition update_record ::
  "string \<Rightarrow> ('p PluginRecord \<Rightarrow> 'p PluginRecord) \<Rightarrow> ('cb, 'ag, 'p) mod_manager \<Rightarrow> ('cb, 'ag, 'p) mod_manager" where
  "update_record pid f m =
     (case map_of (mm_plugins m) pid of None \<Rightarrow> m
      | Some r \<Rightarrow> m\<lparr>mm_plugins := dset pid (f r) (mm_plugins m)\<rparr>)"

definition set_error :: "plugin_error \<Rightarrow> 'p PluginRecord \<Rightarrow> 'p PluginRecord" where
  "set_error e r = r\<lparr>pr_state := ERROR, pr_error := Some e\<rparr>"

section \<open>Discovery\<close>

text \<open>\<^verbatim>\<open>PluginManifest(**fields)\<close>: a \<^verbatim>\<open>TypeError\<close> when a field without default is missing.\<close>

definition manifest_of_fields :: "manifest_fields \<Rightarrow> PluginManifest option" where
  "manifest_of_fields f =
     (if None \<in> set [mf_plugin_id f, mf_name f, mf_version f, mf_category f, mf_description f, mf_author f,
                     mf_entry_point f, mf_class_name f] then None
      else Some \<lparr>pm_plugin_id = or_else (mf_plugin_id f) [], pm_name = or_else (mf_name f) [],
        pm_version = or_else (mf_version f) [], pm_category = or_else (mf_category f) [],
        pm_description = or_else (mf_description f) [], pm_author = or_else (mf_author f) [],
        pm_entry_point = or_else (mf_entry_point f) [], pm_class_name = or_else (mf_class_name f) [],
        pm_dependencies = or_else (mf_dependencies f) [],
        pm_maestro_version_min = or_else (mf_maestro_version_min f) ''0.5.0'',
        pm_maestro_version_max = or_else (mf_maestro_version_max f) None,
        pm_config_schema = or_else (mf_config_schema f) [], pm_permissions = or_else (mf_permissions f) [],
        pm_tags = or_else (mf_tags f) [], pm_metadata = or_else (mf_metadata f) []\<rparr>)"

definition track_discovered :: "PluginManifest \<Rightarrow> ('cb, 'ag, 'p) mod_manager \<Rightarrow> ('cb, 'ag, 'p) mod_manager" where
  "track_discovered mf m =
     (if pm_plugin_id mf \<in> set (dkeys (mm_plugins m)) then m
      else m\<lparr>mm_plugins := dset (pm_plugin_id mf)
             \<lparr>pr_manifest = mf, pr_state = DISCOVERED, pr_instance = None, pr_module = None, pr_error = None\<rparr>
             (mm_plugins m)\<rparr>)"

fun discover_dirs :: "(string, 'p plugin_dir) dict \<Rightarrow> ('cb, 'ag, 'p) mod_manager \<Rightarrow>
    (mod_error + PluginManifest list) \<times> ('cb, 'ag, 'p) mod_manager" where
  "discover_dirs [] m = (Inr [], m)"
| "discover_dirs ((name, d) # ds) m =
     (if \<not> pd_is_dir d then discover_dirs ds m
      else case pd_manifest d of
        None \<Rightarrow> discover_dirs ds m
      | Some Undecodable \<Rightarrow> discover_dirs ds m
      | Some NotAnObject \<Rightarrow> (Inl (ManifestNotAnObject name), m)
      | Some (ManifestObject f) \<Rightarrow>
          (case manifest_of_fields f of
             None \<Rightarrow> discover_dirs ds m
           | Some mf \<Rightarrow>
               (let (res, m') = discover_dirs ds (track_discovered mf m)
                in (bind_res res (\<lambda>mfs. Inr (mf # mfs)), m'))))"

definition discover :: "('cb, 'ag, 'p) mod_manager \<Rightarrow>
    (mod_error + PluginManifest list) \<times> ('cb, 'ag, 'p) mod_manager" where
  "discover m = discover_dirs (mm_installed m) m"

section \<open>Validation\<close>

definition version_tuple :: "string \<Rightarrow> int list" where
  "version_tuple s =
     (let ps = map py_int (split_on CHR ''.'' s)
      in if None \<in> set ps then [0, 0, 0] else map (\<lambda>p. or_else p 0) ps)"

text \<open>\<^verbatim>\<open><\<close> on tuples.\<close>

fun tuple_less :: "int list \<Rightarrow> int list \<Rightarrow> bool" where
  "tuple_less _ [] = False"
| "tuple_less [] (y # ys) = True"
| "tuple_less (x # xs) (y # ys) = (x < y \<or> (x = y \<and> tuple_less xs ys))"

datatype validation_error =
  MissingField string | UnknownCategory string | RequiresAtLeast string | RequiresAtMost string
| UnresolvedDependency string | EntryPointMissing string | UnknownPermission string

definition valid_categories :: "string list" where
  "valid_categories = map category_value
     [AGENT, ANALYZER, AGGREGATOR, STORAGE_PROVIDER, OUTPUT_FORMAT, PIPELINE_HOOK, PROOF_SYSTEM, EMBEDDING_PROVIDER]"

definition known_permissions :: "string list" where
  "known_permissions = [''network'', ''filesystem'', ''injection'', ''compute'']"

definition required_fields :: "PluginManifest \<Rightarrow> (string \<times> string) list" where
  "required_fields mf =
     [(''plugin_id'', pm_plugin_id mf), (''name'', pm_name mf), (''version'', pm_version mf),
      (''category'', pm_category mf), (''entry_point'', pm_entry_point mf), (''class_name'', pm_class_name mf)]"

text \<open>The module behind an entry point, when the plugin's directory has the file.\<close>

definition entry_file :: "string \<Rightarrow> string \<Rightarrow> ('cb, 'ag, 'p) mod_manager \<Rightarrow> 'p plugin_module option" where
  "entry_file pid entry m =
     (case map_of (mm_installed m) pid of
        None \<Rightarrow> None
      | Some d \<Rightarrow> if pd_is_dir d then map_of (pd_files d) (entry @ ''.py'') else None)"

definition validation_errors :: "PluginManifest \<Rightarrow> ('cb, 'ag, 'p) mod_manager \<Rightarrow> validation_error list" where
  "validation_errors mf m =
     map (MissingField \<circ> fst) (filter (\<lambda>(_, v). v = []) (required_fields mf)) @
     (if pm_category mf \<in> set valid_categories then [] else [UnknownCategory (pm_category mf)]) @
     (if pm_maestro_version_min mf \<noteq> [] \<and>
         tuple_less (version_tuple MAESTRO_VERSION) (version_tuple (pm_maestro_version_min mf))
      then [RequiresAtLeast (pm_maestro_version_min mf)] else []) @
     (case pm_maestro_version_max mf of
        None \<Rightarrow> []
      | Some v \<Rightarrow> if v \<noteq> [] \<and> tuple_less (version_tuple v) (version_tuple MAESTRO_VERSION)
                  then [RequiresAtMost v] else []) @
     map UnresolvedDependency (filter (\<lambda>dep. dep \<notin> set (dkeys (mm_plugins m))) (pm_dependencies mf)) @
     (if pm_plugin_id mf \<in> set (dkeys (mm_installed m)) \<and> entry_file (pm_plugin_id mf) (pm_entry_point mf) m = None
      then [EntryPointMissing (pm_entry_point mf)] else []) @
     map UnknownPermission (filter (\<lambda>perm. perm \<notin> set known_permissions) (pm_permissions mf))"

definition validate :: "PluginManifest \<Rightarrow> ('cb, 'ag, 'p) mod_manager \<Rightarrow>
    (bool \<times> validation_error list) \<times> ('cb, 'ag, 'p) mod_manager" where
  "validate mf m =
     (let errors = validation_errors mf m; is_valid = (errors = [])
      in ((is_valid, errors),
          if is_valid then update_record (pm_plugin_id mf) (\<lambda>r. r\<lparr>pr_state := VALIDATED\<rparr>) m else m))"

section \<open>Hooks, agents and events\<close>

definition register_agent :: "string \<Rightarrow> 'ag \<Rightarrow> ('cb, 'ag, 'p) mod_manager \<Rightarrow> ('cb, 'ag, 'p) mod_manager" where
  "register_agent name agent m = m\<lparr>mm_registered_agents := dset name agent (mm_registered_agents m)\<rparr>"

definition unregister_agent :: "string \<Rightarrow> ('cb, 'ag, 'p) mod_manager \<Rightarrow> ('cb, 'ag, 'p) mod_manager" where
  "unregister_agent name m = m\<lparr>mm_registered_agents := ddel name (mm_registered_agents m)\<rparr>"

definition subscribe_event :: "string \<Rightarrow> 'cb \<Rightarrow> ('cb, 'ag, 'p) mod_manager \<Rightarrow> ('cb, 'ag, 'p) mod_manager" where
  "subscribe_event event cb m = m\<lparr>mm_event_subscribers := dappend event cb (mm_event_subscribers m)\<rparr>"

definition register_hook :: "string \<Rightarrow> 'cb \<Rightarrow> ('cb, 'ag, 'p) mod_manager \<Rightarrow>
    (mod_error + unit) \<times> ('cb, 'ag, 'p) mod_manager" where
  "register_hook hp cb m =
     (if hp \<notin> set (dkeys (mm_hooks m)) then (Inl (UnknownHookPoint hp), m)
      else (Inr (), m\<lparr>mm_hooks := dappend hp cb (mm_hooks m)\<rparr>))"

definition plugin_register_hook :: "string \<Rightarrow> string \<Rightarrow> 'cb \<Rightarrow> ('cb, 'ag, 'p) mod_manager \<Rightarrow>
    (mod_error + unit) \<times> ('cb, 'ag, 'p) mod_manager" where
  "plugin_register_hook pid hp cb m =
     (case register_hook hp cb m of
        (Inl e, m1) \<Rightarrow> (Inl e, m1)
      | (Inr u, m1) \<Rightarrow> (Inr (), m1\<lparr>mm_hook_owners := dappend hp (pid, cb) (mm_hook_owners m1)\<rparr>))"

definition unregister_hook :: "string \<Rightarrow> 'cb \<Rightarrow> ('cb, 'ag, 'p) mod_manager \<Rightarrow> ('cb, 'ag, 'p) mod_manager" where
  "unregister_hook hp cb m =
     (if hp \<in> set (dkeys (mm_hooks m)) then m\<lparr>mm_hooks := dset hp (remove1 cb (dget (mm_hooks m) hp [])) (mm_hooks m)\<rparr>
      else m)"

text \<open>A hook raises (\<open>Inl\<close>), skips modification (\<open>Inr None\<close>) or replaces the context.\<close>

fun run_hook_list :: "('cb \<Rightarrow> 'c \<Rightarrow> string + 'c option) \<Rightarrow> 'cb list \<Rightarrow> 'c \<Rightarrow> 'c" where
  "run_hook_list call [] ctx = ctx"
| "run_hook_list call (h # hs) ctx =
     run_hook_list call hs (case call h ctx of Inr (Some ctx') \<Rightarrow> ctx' | _ \<Rightarrow> ctx)"

definition run_hooks :: "('cb \<Rightarrow> 'c \<Rightarrow> string + 'c option) \<Rightarrow> string \<Rightarrow> ('cb, 'ag, 'p) mod_manager \<Rightarrow> 'c \<Rightarrow> 'c" where
  "run_hooks call hp m ctx = run_hook_list call (dget (mm_hooks m) hp []) ctx"

definition remove_hooks_at :: "string \<Rightarrow> string \<Rightarrow> ('cb, 'ag, 'p) mod_manager \<Rightarrow> ('cb, 'ag, 'p) mod_manager" where
  "remove_hooks_at pid hp m =
     (let owners = dget (mm_hook_owners m) hp [];
          owned = map snd (filter (\<lambda>(p, _). p = pid) owners)
      in m\<lparr>mm_hooks := dset hp (fold remove1 owned (dget (mm_hooks m) hp [])) (mm_hooks m),
           mm_hook_owners := dset hp (filter (\<lambda>(p, _). p \<noteq> pid) owners) (mm_hook_owners m)\<rparr>)"

definition remove_plugin_hooks :: "string \<Rightarrow> ('cb, 'ag, 'p) mod_manager \<Rightarrow> ('cb, 'ag, 'p) mod_manager" where
  "remove_plugin_hooks pid m = fold (remove_hooks_at pid) HOOK_POINTS m"

section \<open>Lifecycle\<close>

definition plugin_module_name :: "string \<Rightarrow> string" where
  "plugin_module_name pid = ''maestro_plugin_'' @ map (\<lambda>c. if c = CHR ''.'' \<or> c = CHR ''-'' then CHR ''_'' else c) pid"

definition load :: "string \<Rightarrow> ('cb, 'ag, 'p) mod_manager \<Rightarrow> bool \<times> ('cb, 'ag, 'p) mod_manager" where
  "load pid m =
     (case map_of (mm_plugins m) pid of
        None \<Rightarrow> (False, m)
      | Some r \<Rightarrow>
          if pr_state r = ENABLED then (True, m)
          else case entry_file pid (pm_entry_point (pr_manifest r)) m of
            None \<Rightarrow> (False, update_record pid (set_error EntryPointNotFound) m)
          | Some md \<Rightarrow>
              (let name = plugin_module_name pid; m1 = m\<lparr>mm_modules := List.insert name (mm_modules m)\<rparr>
               in case md of
                 ExecRaises e \<Rightarrow> (False, update_record pid (set_error (LoadFailed e)) m1)
               | Classes cs \<Rightarrow>
                   (case map_of cs (pm_class_name (pr_manifest r)) of
                      None \<Rightarrow> (False, update_record pid (set_error (ClassNotFound (pm_class_name (pr_manifest r)))) m1)
                    | Some (Inl e) \<Rightarrow> (False, update_record pid (set_error (LoadFailed e)) m1)
                    | Some (Inr p) \<Rightarrow>
                        (True, update_record pid (\<lambda>r. r\<lparr>pr_instance := Some p, pr_module := Some name,
                                 pr_state := LOADED, pr_error := None\<rparr>) m1))))"

text \<open>
  One call of a plugin on its context: whether it returned, and the manager after it.  The objects of other subsystems that
  the three getters construct are no part of the manager, and a log line is printed.
\<close>

type_synonym ('cb, 'ag, 'p) emitter = "string \<Rightarrow> json \<Rightarrow> ('cb, 'ag, 'p) mod_manager \<Rightarrow> ('cb, 'ag, 'p) mod_manager"

fun do_context_call :: "('cb, 'ag, 'p) emitter \<Rightarrow> string \<Rightarrow> ('cb, 'ag) context_call \<Rightarrow> ('cb, 'ag, 'p) mod_manager \<Rightarrow>
    bool \<times> ('cb, 'ag, 'p) mod_manager" where
  "do_context_call emit pid (RegisterHook hp cb) m = (let (res, m') = plugin_register_hook pid hp cb m in (ok res, m'))"
| "do_context_call emit pid (UnregisterHook hp cb) m = (True, unregister_hook hp cb m)"
| "do_context_call emit pid (RegisterAgent name agent) m = (True, register_agent name agent m)"
| "do_context_call emit pid (UnregisterAgent name) m = (True, unregister_agent name m)"
| "do_context_call emit pid (SubscribeEvent event cb) m = (True, subscribe_event event cb m)"
| "do_context_call emit pid (EmitEvent event data) m = (True, emit event data m)"
| "do_context_call emit pid GetRegistry m = (True, m)"
| "do_context_call emit pid GetR2Engine m = (True, m)"
| "do_context_call emit pid GetSessionLogger m = (True, m)"
| "do_context_call emit pid (Log msg) m = (True, m)"

primrec run_script :: "('cb, 'ag, 'p) emitter \<Rightarrow> string \<Rightarrow> ('cb, 'ag, 'q) script \<Rightarrow> ('cb, 'ag, 'p) mod_manager \<Rightarrow>
    (string + bool) \<times> 'q \<times> ('cb, 'ag, 'p) mod_manager" where
  "run_script emit pid (Return b p) m = (Inr b, p, m)"
| "run_script emit pid (Raise e p) m = (Inl e, p, m)"
| "run_script emit pid (Call c k) m =
     (let (returned, m') = do_context_call emit pid c m in run_script emit pid (k returned) m')"

text \<open>
  A broadcast runs the subscribers in order; an error of one is printed and the next one runs.  The list is read as it is at
  each step, so a callback that subscribes to the event that is being broadcast runs in the same broadcast, and a callback may
  broadcast in its turn.
\<close>

primrec emit_from :: "nat \<Rightarrow> ('cb \<Rightarrow> json \<Rightarrow> string \<times> ('cb, 'ag, unit) script) \<Rightarrow> nat \<Rightarrow> ('cb, 'ag, 'p) emitter" where
  "emit_from 0 handler i event data m = m"
| "emit_from (Suc n) handler i event data m =
     (let subscribers = dget (mm_event_subscribers m) event []
      in if i < length subscribers
         then (let (pid, script) = handler (subscribers ! i) data; (_, _, m') = run_script (emit_from n handler 0) pid script m
               in emit_from n handler (Suc i) event data m')
         else m)"

definition emit_event :: "('cb, 'ag, 'p) plugin_methods \<Rightarrow> ('cb, 'ag, 'p) emitter" where
  "emit_event P event data m = emit_from (emission_limit P) (on_event P) 0 event data m"

definition activate_plugin :: "('cb, 'ag, 'p) plugin_methods \<Rightarrow> string \<Rightarrow> ('cb, 'ag, 'p) mod_manager \<Rightarrow>
    bool \<times> ('cb, 'ag, 'p) mod_manager" where
  "activate_plugin P pid m =
     (let m1 = m\<lparr>mm_data_dirs := List.insert pid (mm_data_dirs m)\<rparr>
      in case Option.bind (map_of (mm_plugins m) pid) pr_instance of
        None \<Rightarrow> (False, update_record pid (set_error (ActivationFailed ''AttributeError'')) m1)
      | Some p \<Rightarrow>
          (let (res, p', m2) = run_script (emit_event P) pid (activate P p) m1
           in case res of
             Inl e \<Rightarrow> (False, update_record pid (\<lambda>r. set_error (ActivationFailed e) (r\<lparr>pr_instance := Some p'\<rparr>)) m2)
           | Inr False \<Rightarrow> (False, update_record pid (\<lambda>r. set_error ActivateReturnedFalse (r\<lparr>pr_instance := Some p'\<rparr>)) m2)
           | Inr True \<Rightarrow> (True, update_record pid (\<lambda>r. r\<lparr>pr_instance := Some p', pr_state := ENABLED, pr_error := None\<rparr>) m2)))"

text \<open>The dependency loop: \<open>Some dep\<close> is the dependency that failed.\<close>

primrec enable_dependencies ::
  "(string \<Rightarrow> ('cb, 'ag, 'p) mod_manager \<Rightarrow> (mod_error + bool) \<times> ('cb, 'ag, 'p) mod_manager) \<Rightarrow> string list \<Rightarrow>
   ('cb, 'ag, 'p) mod_manager \<Rightarrow> (mod_error + string option) \<times> ('cb, 'ag, 'p) mod_manager" where
  "enable_dependencies en [] m = (Inr None, m)"
| "enable_dependencies en (dep # deps) m =
     (case map_of (mm_plugins m) dep of
        None \<Rightarrow> enable_dependencies en deps m
      | Some d \<Rightarrow>
          if pr_state d = ENABLED then enable_dependencies en deps m
          else (let (res, m') = en dep m
                in case res of
                     Inl e \<Rightarrow> (Inl e, m')
                   | Inr b \<Rightarrow> if b then enable_dependencies en deps m' else (Inr (Some dep), m')))"

text \<open>\<^verbatim>\<open>enable\<close> calls itself on the dependencies; the first argument is the depth that Python's stack has left.\<close>

primrec enable :: "nat \<Rightarrow> ('cb, 'ag, 'p) plugin_methods \<Rightarrow> string \<Rightarrow> ('cb, 'ag, 'p) mod_manager \<Rightarrow>
    (mod_error + bool) \<times> ('cb, 'ag, 'p) mod_manager" where
  "enable 0 P pid m = (Inl RecursionTooDeep, m)"
| "enable (Suc depth) P pid m =
     (case map_of (mm_plugins m) pid of
        None \<Rightarrow> (Inr False, m)
      | Some r \<Rightarrow>
          if pr_state r = ENABLED then (Inr True, m)
          else (let (loaded, m1) = (if pr_state r \<in> {LOADED, DISABLED} then (True, m) else load pid m)
                in if \<not> loaded then (Inr False, m1)
                else (let (res, m2) = enable_dependencies (enable depth P) (pm_dependencies (pr_manifest r)) m1
                      in case res of
                           Inl e \<Rightarrow> (Inl e, m2)
                         | Inr (Some dep) \<Rightarrow> (Inr False, update_record pid (set_error (DependencyFailed dep)) m2)
                         | Inr None \<Rightarrow> (let (b, m3) = activate_plugin P pid m2 in (Inr b, m3)))))"

definition disable :: "('cb, 'ag, 'p) plugin_methods \<Rightarrow> string \<Rightarrow> ('cb, 'ag, 'p) mod_manager \<Rightarrow>
    bool \<times> ('cb, 'ag, 'p) mod_manager" where
  "disable P pid m =
     (case map_of (mm_plugins m) pid of
        None \<Rightarrow> (False, m)
      | Some r \<Rightarrow>
          if pr_state r \<noteq> ENABLED then (True, m)
          else (let m1 = (case pr_instance r of
                            None \<Rightarrow> m
                          | Some p \<Rightarrow> (let (res, p', m') = run_script (emit_event P) pid (deactivate P p) m
                                       in update_record pid (\<lambda>r. r\<lparr>pr_instance := Some p'\<rparr>) m'))
                in (True, update_record pid (\<lambda>r. r\<lparr>pr_state := DISABLED\<rparr>) (remove_plugin_hooks pid m1))))"

definition unload :: "('cb, 'ag, 'p) plugin_methods \<Rightarrow> string \<Rightarrow> ('cb, 'ag, 'p) mod_manager \<Rightarrow>
    bool \<times> ('cb, 'ag, 'p) mod_manager" where
  "unload P pid m =
     (case map_of (mm_plugins m) pid of
        None \<Rightarrow> (False, m)
      | Some r \<Rightarrow>
          (let m1 = (if pr_state r = ENABLED then snd (disable P pid m) else m);
               m2 = m1\<lparr>mm_modules := filter (\<lambda>n. n \<noteq> plugin_module_name pid) (mm_modules m1)\<rparr>
           in (True, update_record pid (\<lambda>r. r\<lparr>pr_instance := None, pr_module := None, pr_state := UNLOADED\<rparr>) m2)))"

definition state_of :: "('cb, 'ag, 'p) mod_manager \<Rightarrow> string \<Rightarrow> PluginState option" where
  "state_of m pid = map_option pr_state (map_of (mm_plugins m) pid)"

definition plugin_reload :: "nat \<Rightarrow> ('cb, 'ag, 'p) plugin_methods \<Rightarrow> string \<Rightarrow> ('cb, 'ag, 'p) mod_manager \<Rightarrow>
    (mod_error + bool) \<times> ('cb, 'ag, 'p) mod_manager" where
  "plugin_reload depth P pid m =
     (let was_enabled = (state_of m pid = Some ENABLED);
          (res, m2) = discover (snd (unload P pid m))
      in case res of
        Inl e \<Rightarrow> (Inl e, m2)
      | Inr _ \<Rightarrow>
          (let (loaded, m3) = load pid m2
           in if \<not> loaded then (Inr False, m3)
           else if was_enabled then enable depth P pid m3 else (Inr True, m3)))"

section \<open>Configuration\<close>

definition get_plugin_config :: "('cb, 'ag, 'p) mod_manager \<Rightarrow> string \<Rightarrow> config" where
  "get_plugin_config m pid =
     (case map_of (mm_installed m) pid of
        None \<Rightarrow> []
      | Some d \<Rightarrow> (case pd_config d of Some (Some c) \<Rightarrow> c | _ \<Rightarrow> []))"

definition update_plugin_config :: "('cb, 'ag, 'p) plugin_methods \<Rightarrow> string \<Rightarrow> config \<Rightarrow> ('cb, 'ag, 'p) mod_manager \<Rightarrow>
    (mod_error + bool) \<times> ('cb, 'ag, 'p) mod_manager" where
  "update_plugin_config P pid updates m =
     (let config = fold (\<lambda>(k, v). dset k v) updates (get_plugin_config m pid)
      in case map_of (mm_installed m) pid of
        None \<Rightarrow> (Inl (NoSuchDirectory pid), m)
      | Some d \<Rightarrow>
          if \<not> pd_is_dir d then (Inl (NoSuchDirectory pid), m)
          else (let m1 = m\<lparr>mm_installed := dset pid (d\<lparr>pd_config := Some (Some config)\<rparr>) (mm_installed m)\<rparr>
                in case map_of (mm_plugins m) pid of
                     None \<Rightarrow> (Inr True, m1)
                   | Some r \<Rightarrow>
                       (case pr_instance r of
                          Some p \<Rightarrow>
                            if pr_state r = ENABLED
                            then (let (res, p', m2) = run_script (emit_event P) pid (on_config_change P p config) m1
                                  in (Inr True, update_record pid (\<lambda>r. r\<lparr>pr_instance := Some p'\<rparr>) m2))
                            else (Inr True, m1)
                        | None \<Rightarrow> (Inr True, m1))))"

section \<open>Snapshots\<close>

definition plugins_in :: "PluginState set \<Rightarrow> ('cb, 'ag, 'p) mod_manager \<Rightarrow> string list" where
  "plugins_in S m = map fst (filter (\<lambda>(_, r). pr_state r \<in> S) (mm_plugins m))"

definition save_snapshot :: "string \<Rightarrow> string \<Rightarrow> string \<Rightarrow> string \<Rightarrow> ('cb, 'ag, 'p) mod_manager \<Rightarrow>
    WeightStateSnapshot \<times> ('cb, 'ag, 'p) mod_manager" where
  "save_snapshot uuid now name description m =
     (let snapshot = \<lparr>ws_snapshot_id = ''snap-'' @ take 12 uuid, ws_name = name, ws_created_at = now,
            ws_description = description, ws_enabled_plugins = plugins_in {ENABLED} m,
            ws_disabled_plugins = plugins_in {DISABLED, LOADED} m,
            ws_plugin_configs = map (\<lambda>(pid, _). (pid, get_plugin_config m pid)) (mm_plugins m),
            ws_storage_nodes = [], ws_shard_assignments = [], ws_active_agents = dkeys (mm_registered_agents m),
            ws_thresholds = [], ws_runtime_config = (case mm_runtime_config m of Some (Some c) \<Rightarrow> c | _ \<Rightarrow> []),
            ws_metadata = []\<rparr>
      in (snapshot, m\<lparr>mm_snapshots := dset (ws_snapshot_id snapshot) (Some snapshot) (mm_snapshots m)\<rparr>))"

definition disable_enabled :: "('cb, 'ag, 'p) plugin_methods \<Rightarrow> ('cb, 'ag, 'p) mod_manager \<Rightarrow> ('cb, 'ag, 'p) mod_manager" where
  "disable_enabled P m =
     fold (\<lambda>pid m. if state_of m pid = Some ENABLED then snd (disable P pid m) else m) (dkeys (mm_plugins m)) m"

primrec apply_configs :: "('cb, 'ag, 'p) plugin_methods \<Rightarrow> (string \<times> config) list \<Rightarrow> ('cb, 'ag, 'p) mod_manager \<Rightarrow>
    (mod_error + unit) \<times> ('cb, 'ag, 'p) mod_manager" where
  "apply_configs P [] m = (Inr (), m)"
| "apply_configs P (pc # pcs) m =
     (if snd pc = [] then apply_configs P pcs m
      else (let (res, m') = update_plugin_config P (fst pc) (snd pc) m
            in case res of Inl e \<Rightarrow> (Inl e, m') | Inr _ \<Rightarrow> apply_configs P pcs m'))"

primrec enable_snapshot :: "nat \<Rightarrow> ('cb, 'ag, 'p) plugin_methods \<Rightarrow> string list \<Rightarrow> ('cb, 'ag, 'p) mod_manager \<Rightarrow>
    (mod_error + unit) \<times> ('cb, 'ag, 'p) mod_manager" where
  "enable_snapshot depth P [] m = (Inr (), m)"
| "enable_snapshot depth P (pid # pids) m =
     (if pid \<notin> set (dkeys (mm_plugins m)) then enable_snapshot depth P pids m
      else (let (res, m') = enable depth P pid (snd (load pid m))
            in case res of Inl e \<Rightarrow> (Inl e, m') | Inr _ \<Rightarrow> enable_snapshot depth P pids m'))"

definition restore_snapshot :: "nat \<Rightarrow> ('cb, 'ag, 'p) plugin_methods \<Rightarrow> string \<Rightarrow> ('cb, 'ag, 'p) mod_manager \<Rightarrow>
    (mod_error + bool) \<times> ('cb, 'ag, 'p) mod_manager" where
  "restore_snapshot depth P sid m =
     (case map_of (mm_snapshots m) sid of
        None \<Rightarrow> (Inr False, m)
      | Some None \<Rightarrow> (Inr False, m)
      | Some (Some data) \<Rightarrow>
          (case discover (disable_enabled P m) of
             (Inl e, m1) \<Rightarrow> (Inl e, m1)
           | (Inr _, m1) \<Rightarrow>
               (case apply_configs P (ws_plugin_configs data) m1 of
                  (Inl e, m2) \<Rightarrow> (Inl e, m2)
                | (Inr _, m2) \<Rightarrow>
                    (case enable_snapshot depth P (ws_enabled_plugins data) m2 of
                       (Inl e, m3) \<Rightarrow> (Inl e, m3)
                     | (Inr _, m3) \<Rightarrow>
                         (Inr True, if ws_runtime_config data \<noteq> []
                                    then m3\<lparr>mm_runtime_config := Some (Some (ws_runtime_config data))\<rparr> else m3)))))"

record snapshot_summary =
  sn_snapshot_id :: string
  sn_name :: string
  sn_created_at :: string
  sn_description :: string
  sn_enabled_plugins :: nat
  sn_disabled_plugins :: nat

definition snapshot_summary_of :: "WeightStateSnapshot \<Rightarrow> snapshot_summary" where
  "snapshot_summary_of s =
     \<lparr>sn_snapshot_id = ws_snapshot_id s, sn_name = ws_name s, sn_created_at = ws_created_at s,
      sn_description = ws_description s, sn_enabled_plugins = length (ws_enabled_plugins s),
      sn_disabled_plugins = length (ws_disabled_plugins s)\<rparr>"

definition list_snapshots :: "('cb, 'ag, 'p) mod_manager \<Rightarrow> snapshot_summary list" where
  "list_snapshots m =
     List.map_filter (\<lambda>(_, f). map_option snapshot_summary_of f)
       (rev (sort_key (\<lambda>(sid, _). sid @ ''.json'') (mm_snapshots m)))"

definition load_snapshot :: "('cb, 'ag, 'p) mod_manager \<Rightarrow> string \<Rightarrow> WeightStateSnapshot option" where
  "load_snapshot m sid = (case map_of (mm_snapshots m) sid of None \<Rightarrow> None | Some f \<Rightarrow> f)"

record snapshot_diff =
  sd_snapshot_a :: "string \<times> string"
  sd_snapshot_b :: "string \<times> string"
  sd_plugins_added :: "string list"
  sd_plugins_removed :: "string list"
  sd_plugins_enabled :: "string list"
  sd_plugins_disabled :: "string list"
  sd_config_changes :: "(string \<times> config \<times> config) list"
  sd_agent_changes :: "string list \<times> string list"

text \<open>\<^verbatim>\<open>sorted(a - b)\<close> of two sets, and the equality of two dictionaries, which ignores the order of the keys.\<close>

definition sorted_diff :: "string list \<Rightarrow> string list \<Rightarrow> string list" where
  "sorted_diff xs ys = sort (remdups (filter (\<lambda>x. x \<notin> set ys) xs))"

definition config_eq :: "config \<Rightarrow> config \<Rightarrow> bool" where
  "config_eq a b = (json_sorted (JObj a) = json_sorted (JObj b))"

definition diff_snapshots :: "string \<Rightarrow> string \<Rightarrow> ('cb, 'ag, 'p) mod_manager \<Rightarrow> snapshot_diff option" where
  "diff_snapshots ida idb m =
     (case (load_snapshot m ida, load_snapshot m idb) of
        (Some a, Some b) \<Rightarrow> Some
          \<lparr>sd_snapshot_a = (ida, ws_name a), sd_snapshot_b = (idb, ws_name b),
           sd_plugins_added = sorted_diff (ws_enabled_plugins b) (ws_enabled_plugins a),
           sd_plugins_removed = sorted_diff (ws_enabled_plugins a) (ws_enabled_plugins b),
           sd_plugins_enabled = sorted_diff (ws_enabled_plugins b) (ws_enabled_plugins a @ ws_disabled_plugins a),
           sd_plugins_disabled = sorted_diff (ws_disabled_plugins b) (ws_disabled_plugins a @ ws_enabled_plugins a),
           sd_config_changes =
             map (\<lambda>pid. (pid, dget (ws_plugin_configs a) pid [], dget (ws_plugin_configs b) pid []))
               (filter (\<lambda>pid. \<not> config_eq (dget (ws_plugin_configs a) pid []) (dget (ws_plugin_configs b) pid []))
                  (remdups (dkeys (ws_plugin_configs a) @ dkeys (ws_plugin_configs b)))),
           sd_agent_changes = (ws_active_agents a, ws_active_agents b)\<rparr>
      | _ \<Rightarrow> None)"

definition delete_snapshot :: "string \<Rightarrow> ('cb, 'ag, 'p) mod_manager \<Rightarrow> bool \<times> ('cb, 'ag, 'p) mod_manager" where
  "delete_snapshot sid m =
     (if sid \<in> set (dkeys (mm_snapshots m)) then (True, m\<lparr>mm_snapshots := ddel sid (mm_snapshots m)\<rparr>)
      else (False, m))"

section \<open>Listing\<close>

record plugin_listing =
  pl_plugin_id :: string
  pl_name :: string
  pl_version :: string
  pl_category :: string
  pl_state :: string
  pl_error :: "plugin_error option"

definition list_plugins :: "('cb, 'ag, 'p) mod_manager \<Rightarrow> plugin_listing list" where
  "list_plugins m =
     map (\<lambda>(pid, r). \<lparr>pl_plugin_id = pid, pl_name = pm_name (pr_manifest r), pl_version = pm_version (pr_manifest r),
            pl_category = pm_category (pr_manifest r), pl_state = state_value (pr_state r), pl_error = pr_error r\<rparr>)
       (mm_plugins m)"

definition health_report :: "('cb, 'ag, 'p) plugin_methods \<Rightarrow> 'p \<Rightarrow> json" where
  "health_report P p =
     (case health_check P p of
        Inl e \<Rightarrow> JObj [(''healthy'', JBool False), (''message'', JStr e), (''metrics'', JObj [])]
      | Inr j \<Rightarrow> j)"

definition enabled_instance :: "'p PluginRecord \<Rightarrow> 'p option" where
  "enabled_instance r = (if pr_state r = ENABLED then pr_instance r else None)"

record plugin_info =
  pi_manifest :: PluginManifest
  pi_state :: string
  pi_error :: "plugin_error option"
  pi_config :: config
  pi_health :: "json option"

definition get_plugin_info :: "('cb, 'ag, 'p) plugin_methods \<Rightarrow> ('cb, 'ag, 'p) mod_manager \<Rightarrow> string \<Rightarrow> plugin_info option" where
  "get_plugin_info P m pid =
     map_option (\<lambda>r. \<lparr>pi_manifest = pr_manifest r, pi_state = state_value (pr_state r), pi_error = pr_error r,
         pi_config = get_plugin_config m pid, pi_health = map_option (health_report P) (enabled_instance r)\<rparr>)
       (map_of (mm_plugins m) pid)"

definition health_check_all :: "('cb, 'ag, 'p) plugin_methods \<Rightarrow> ('cb, 'ag, 'p) mod_manager \<Rightarrow> (string \<times> json) list" where
  "health_check_all P m =
     List.map_filter (\<lambda>(pid, r). map_option (\<lambda>p. (pid, health_report P p)) (enabled_instance r)) (mm_plugins m)"

section \<open>What the operations leave alone\<close>

named_theorems mm_frame \<open>the parts of the manager an operation does not change\<close>

definition manifests :: "('cb, 'ag, 'p) mod_manager \<Rightarrow> string \<Rightarrow> PluginManifest option" where
  "manifests m pid = map_option pr_manifest (map_of (mm_plugins m) pid)"

definition dependencies_of :: "('cb, 'ag, 'p) mod_manager \<Rightarrow> string \<Rightarrow> string list" where
  "dependencies_of m pid = (case manifests m pid of None \<Rightarrow> [] | Some mf \<Rightarrow> pm_dependencies mf)"

definition dep_rel :: "('cb, 'ag, 'p) mod_manager \<Rightarrow> (string \<times> string) set" where
  "dep_rel m = {(p, d). d \<in> set (dependencies_of m p)}"

abbreviation known :: "('cb, 'ag, 'p) mod_manager \<Rightarrow> string \<Rightarrow> bool" where
  "known m pid \<equiv> pid \<in> set (dkeys (mm_plugins m))"

abbreviation on :: "('cb, 'ag, 'p) mod_manager \<Rightarrow> string \<Rightarrow> bool" where
  "on m pid \<equiv> state_of m pid = Some ENABLED"

lemma known_iff: "known m pid \<longleftrightarrow> map_of (mm_plugins m) pid \<noteq> None"
  by (metis map_of_eq_None_iff set_map)

lemma known_manifests: "known m pid \<longleftrightarrow> manifests m pid \<noteq> None"
  unfolding known_iff by (simp add: manifests_def)

lemma manifests_cong:
  assumes "manifests m' = manifests m"
  shows "dependencies_of m' = dependencies_of m" "dep_rel m' = dep_rel m" "known m' pid = known m pid"
  using assms unfolding known_manifests by (simp_all add: fun_eq_iff dependencies_of_def dep_rel_def)

lemma update_record_plugins [simp]:
  "map_of (mm_plugins (update_record pid f m)) q =
     (if q = pid then map_option f (map_of (mm_plugins m) pid) else map_of (mm_plugins m) q)"
  by (auto simp: update_record_def split: option.splits)

lemma update_record_frame [mm_frame, simp]:
  "mm_installed (update_record pid f m) = mm_installed m"
  "mm_snapshots (update_record pid f m) = mm_snapshots m"
  "mm_runtime_config (update_record pid f m) = mm_runtime_config m"
  "mm_hooks (update_record pid f m) = mm_hooks m"
  "mm_hook_owners (update_record pid f m) = mm_hook_owners m"
  "mm_registered_agents (update_record pid f m) = mm_registered_agents m"
  "dkeys (mm_plugins (update_record pid f m)) = dkeys (mm_plugins m)"
  by (auto simp: update_record_def update_keys map_of_eq_None_iff split: option.splits dest!: map_of_SomeD)

lemma state_update_record [simp]:
  "state_of (update_record pid f m) q =
     (if q = pid then map_option (\<lambda>r. pr_state (f r)) (map_of (mm_plugins m) pid) else state_of m q)"
  by (auto simp: state_of_def option.map_comp comp_def)

lemma manifests_update_record [mm_frame]:
  "(\<And>r. pr_manifest (f r) = pr_manifest r) \<Longrightarrow> manifests (update_record pid f m) = manifests m"
  by (auto simp: fun_eq_iff manifests_def option.map_comp comp_def)

lemma set_error_simps [simp]:
  "pr_manifest (set_error e r) = pr_manifest r" "pr_state (set_error e r) = ERROR"
  "pr_instance (set_error e r) = pr_instance r" "pr_module (set_error e r) = pr_module r"
  by (simp_all add: set_error_def)

lemmas mm_ops = register_agent_def unregister_agent_def subscribe_event_def plugin_register_hook_def
  register_hook_def unregister_hook_def

text \<open>What every call on a context preserves, every run of a method and every broadcast preserves.\<close>

lemma do_context_call_cases:
  "snd (do_context_call emit pid c m) = snd (do_context_call (\<lambda>_ _ m. m) pid c m)
     \<or> (\<exists>event data. snd (do_context_call emit pid c m) = emit event data m)"
  by (cases c) auto

lemma run_script_invariant:
  assumes "\<And>e d m. I m \<Longrightarrow> I (emit e d m)" "\<And>pid c m. I m \<Longrightarrow> I (snd (do_context_call (\<lambda>_ _ m. m) pid c m))"
  shows "I m \<Longrightarrow> I (snd (snd (run_script emit pid s m)))"
proof (induction s arbitrary: m)
  case (Call c k)
  have "I (snd (do_context_call emit pid c m))"
    using do_context_call_cases [of emit pid c m] assms Call.prems by metis
  then show ?case using Call.IH by (simp add: case_prod_beta)
qed simp_all

lemma emit_from_invariant:
  assumes "\<And>pid c m. I m \<Longrightarrow> I (snd (do_context_call (\<lambda>_ _ m. m) pid c m))"
  shows "I m \<Longrightarrow> I (emit_from n handler i e d m)"
proof (induction n arbitrary: i e d m)
  case (Suc n)
  have "I (snd (snd (run_script (emit_from n handler 0) pid s m)))" for pid and s :: "(_, _, unit) script"
    by (rule run_script_invariant [OF _ assms Suc.prems]) (rule Suc.IH)
  then show ?case using Suc by (simp add: Let_def case_prod_beta)
qed simp

lemma script_invariant:
  assumes "\<And>pid c m. I m \<Longrightarrow> I (snd (do_context_call (\<lambda>_ _ m. m) pid c m))" "I m"
  shows "I (snd (snd (run_script (emit_event P) pid s m)))" "I (emit_event P e d m)"
    "I (snd (do_context_call (emit_event P) pid c m))"
proof -
  have e: "I (emit_event P e d m)" if "I m" for e d m
    unfolding emit_event_def using assms(1) that by (rule emit_from_invariant)
  show "I (snd (snd (run_script (emit_event P) pid s m)))" using e assms by (rule run_script_invariant)
  show "I (emit_event P e d m)" using e assms(2) by blast
  show "I (snd (do_context_call (emit_event P) pid c m))"
    using do_context_call_cases [of "emit_event P" pid c m] assms e [OF assms(2)] by metis
qed

lemma context_call_frame:
  "mm_plugins (snd (do_context_call (\<lambda>_ _ m. m) pid c m)) = mm_plugins m"
  "mm_installed (snd (do_context_call (\<lambda>_ _ m. m) pid c m)) = mm_installed m"
  "mm_snapshots (snd (do_context_call (\<lambda>_ _ m. m) pid c m)) = mm_snapshots m"
  "mm_runtime_config (snd (do_context_call (\<lambda>_ _ m. m) pid c m)) = mm_runtime_config m"
  by (cases c; simp add: mm_ops split: prod.splits sum.splits)+

lemma run_script_frame [mm_frame, simp]:
  "mm_plugins (snd (snd (run_script (emit_event P) pid s m))) = mm_plugins m"
  "mm_installed (snd (snd (run_script (emit_event P) pid s m))) = mm_installed m"
  "mm_snapshots (snd (snd (run_script (emit_event P) pid s m))) = mm_snapshots m"
  "mm_runtime_config (snd (snd (run_script (emit_event P) pid s m))) = mm_runtime_config m"
  by (rule script_invariant [where I = "\<lambda>m'. mm_plugins m' = mm_plugins m"]
      script_invariant [where I = "\<lambda>m'. mm_installed m' = mm_installed m"]
      script_invariant [where I = "\<lambda>m'. mm_snapshots m' = mm_snapshots m"]
      script_invariant [where I = "\<lambda>m'. mm_runtime_config m' = mm_runtime_config m"]; simp add: context_call_frame)+

lemma run_script_plugins: "run_script (emit_event P) pid s m = (res, p, m') \<Longrightarrow> mm_plugins m' = mm_plugins m"
  using run_script_frame(1) [of P pid s m] by simp

lemma remove_hooks_frame [mm_frame, simp]:
  "mm_plugins (remove_hooks_at pid hp m) = mm_plugins m"
  "mm_installed (remove_hooks_at pid hp m) = mm_installed m"
  "mm_snapshots (remove_hooks_at pid hp m) = mm_snapshots m"
  "mm_runtime_config (remove_hooks_at pid hp m) = mm_runtime_config m"
  by (simp_all add: remove_hooks_at_def Let_def)

lemma fold_remove_hooks_frame:
  "mm_plugins (fold (remove_hooks_at pid) hps m) = mm_plugins m"
  "mm_installed (fold (remove_hooks_at pid) hps m) = mm_installed m"
  "mm_snapshots (fold (remove_hooks_at pid) hps m) = mm_snapshots m"
  "mm_runtime_config (fold (remove_hooks_at pid) hps m) = mm_runtime_config m"
  by (induction hps arbitrary: m) simp_all

lemma remove_plugin_hooks_frame [mm_frame, simp]:
  "mm_plugins (remove_plugin_hooks pid m) = mm_plugins m"
  "mm_installed (remove_plugin_hooks pid m) = mm_installed m"
  "mm_snapshots (remove_plugin_hooks pid m) = mm_snapshots m"
  "mm_runtime_config (remove_plugin_hooks pid m) = mm_runtime_config m"
  by (simp_all add: remove_plugin_hooks_def fold_remove_hooks_frame)

lemma state_of_cong: "mm_plugins m' = mm_plugins m \<Longrightarrow> state_of m' = state_of m"
  by (simp add: fun_eq_iff state_of_def)

lemma manifests_plugins: "mm_plugins m' = mm_plugins m \<Longrightarrow> manifests m' = manifests m"
  by (simp add: fun_eq_iff manifests_def)

section \<open>Enabling a plugin and what it depends on\<close>

lemma load_cases:
  obtains (unknown) "load pid m = (False, m)" "map_of (mm_plugins m) pid = None"
    | (enabled) "load pid m = (True, m)" "on m pid"
    | (failed) r e m1 where "load pid m = (False, update_record pid (set_error e) m1)"
        "map_of (mm_plugins m) pid = Some r" "pr_state r \<noteq> ENABLED" "mm_plugins m1 = mm_plugins m"
    | (loaded) r p nm m1 where "load pid m = (True, update_record pid (\<lambda>r. r\<lparr>pr_instance := Some p,
          pr_module := Some nm, pr_state := LOADED, pr_error := None\<rparr>) m1)"
        "map_of (mm_plugins m) pid = Some r" "pr_state r \<noteq> ENABLED" "mm_plugins m1 = mm_plugins m"
proof (cases "map_of (mm_plugins m) pid")
  case None
  then show ?thesis by (intro that(1)) (simp_all add: load_def)
next
  case (Some r)
  let ?m1 = "m\<lparr>mm_modules := List.insert (plugin_module_name pid) (mm_modules m)\<rparr>"
  have pl: "mm_plugins ?m1 = mm_plugins m" by simp
  show ?thesis
  proof (cases "pr_state r = ENABLED")
    case True
    then show ?thesis using Some by (intro that(2)) (simp_all add: load_def state_of_def)
  next
    case off: False
    have "(\<exists>e m1. load pid m = (False, update_record pid (set_error e) m1) \<and> mm_plugins m1 = mm_plugins m) \<or>
        (\<exists>p nm m1. load pid m = (True, update_record pid (\<lambda>r. r\<lparr>pr_instance := Some p,
           pr_module := Some nm, pr_state := LOADED, pr_error := None\<rparr>) m1) \<and> mm_plugins m1 = mm_plugins m)"
    proof (cases "entry_file pid (pm_entry_point (pr_manifest r)) m")
      case None
      then show ?thesis using Some off by (auto simp: load_def)
    next
      case (Some md)
      have ld: "load pid m = (case md of
           ExecRaises e \<Rightarrow> (False, update_record pid (set_error (LoadFailed e)) ?m1)
         | Classes cs \<Rightarrow>
             (case map_of cs (pm_class_name (pr_manifest r)) of
                None \<Rightarrow> (False, update_record pid (set_error (ClassNotFound (pm_class_name (pr_manifest r)))) ?m1)
              | Some (Inl e) \<Rightarrow> (False, update_record pid (set_error (LoadFailed e)) ?m1)
              | Some (Inr p) \<Rightarrow> (True, update_record pid (\<lambda>r. r\<lparr>pr_instance := Some p,
                    pr_module := Some (plugin_module_name pid), pr_state := LOADED, pr_error := None\<rparr>) ?m1)))"
        using Some off \<open>map_of (mm_plugins m) pid = Some r\<close> by (simp add: load_def Let_def)
      show ?thesis
      proof (cases "\<exists>cs p. md = Classes cs \<and> map_of cs (pm_class_name (pr_manifest r)) = Some (Inr p)")
        case True
        then have "\<exists>p. load pid m = (True, update_record pid (\<lambda>r. r\<lparr>pr_instance := Some p,
           pr_module := Some (plugin_module_name pid), pr_state := LOADED, pr_error := None\<rparr>) ?m1)"
          unfolding ld by auto
        then show ?thesis using pl by blast
      next
        case False
        then have "\<exists>e. load pid m = (False, update_record pid (set_error e) ?m1)" unfolding ld
          by (cases md) (auto split: option.splits sum.splits)
        then show ?thesis using pl by blast
      qed
    qed
    then show ?thesis using Some off that(3,4) by blast
  qed
qed

lemma load_manifests [mm_frame, simp]: "manifests (snd (load pid m)) = manifests m"
  by (rule load_cases [of pid m]) (auto simp: fun_eq_iff manifests_def)

lemma load_state:
  "state_of (snd (load pid m)) q =
     (if q = pid \<and> known m pid \<and> \<not> on m pid then Some (if fst (load pid m) then LOADED else ERROR) else state_of m q)"
  unfolding known_iff by (rule load_cases [of pid m]) (simp_all add: state_of_def)

lemma load_on [simp]: "on (snd (load pid m)) q \<longleftrightarrow> on m q"
  by (auto simp: load_state)

lemma activate_cases:
  obtains (failed) f m2 where "activate_plugin P pid m = (False, update_record pid f m2)"
      "\<And>r. pr_manifest (f r) = pr_manifest r" "\<And>r. pr_state (f r) = ERROR" "mm_plugins m2 = mm_plugins m"
      "\<And>r. pr_instance r \<noteq> None \<Longrightarrow> pr_instance (f r) \<noteq> None"
    | (enabled) p m2 where "activate_plugin P pid m =
        (True, update_record pid (\<lambda>r. r\<lparr>pr_instance := Some p, pr_state := ENABLED, pr_error := None\<rparr>) m2)"
      "mm_plugins m2 = mm_plugins m"
proof (cases "Option.bind (map_of (mm_plugins m) pid) pr_instance")
  case None
  then have eq: "activate_plugin P pid m = (False, update_record pid (set_error (ActivationFailed ''AttributeError''))
      (m\<lparr>mm_data_dirs := List.insert pid (mm_data_dirs m)\<rparr>))" by (simp add: activate_plugin_def Let_def)
  show ?thesis by (rule that(1) [OF eq]) simp_all
next
  case (Some p)
  obtain res p' m2 where rs: "run_script (emit_event P) pid (activate P p) (m\<lparr>mm_data_dirs := List.insert pid (mm_data_dirs m)\<rparr>) = (res, p', m2)"
    by (rule prod_cases3)
  have pl: "mm_plugins m2 = mm_plugins m" using run_script_plugins [OF rs] by simp
  show ?thesis
  proof (cases "res = Inr True")
    case True
    then have eq: "activate_plugin P pid m =
        (True, update_record pid (\<lambda>r. r\<lparr>pr_instance := Some p', pr_state := ENABLED, pr_error := None\<rparr>) m2)"
      using Some rs by (simp add: activate_plugin_def)
    show ?thesis by (rule that(2) [OF eq]) (rule pl)
  next
    case False
    show ?thesis
    proof (cases res)
      case (Inl e)
      then have eq: "activate_plugin P pid m =
          (False, update_record pid (\<lambda>r. set_error (ActivationFailed e) (r\<lparr>pr_instance := Some p'\<rparr>)) m2)"
        using Some rs by (simp add: activate_plugin_def)
      show ?thesis by (rule that(1) [OF eq]) (simp_all add: pl)
    next
      case (Inr b)
      then have eq: "activate_plugin P pid m =
          (False, update_record pid (\<lambda>r. set_error ActivateReturnedFalse (r\<lparr>pr_instance := Some p'\<rparr>)) m2)"
        using Some rs False by (simp add: activate_plugin_def)
      show ?thesis by (rule that(1) [OF eq]) (simp_all add: pl)
    qed
  qed
qed

lemma activate_manifests [mm_frame, simp]: "manifests (snd (activate_plugin P pid m)) = manifests m"
  by (rule activate_cases [of P pid m]) (auto simp: fun_eq_iff manifests_def option.map_comp comp_def)

lemma activate_state:
  "state_of (snd (activate_plugin P pid m)) q =
     (if q = pid \<and> known m pid then Some (if fst (activate_plugin P pid m) then ENABLED else ERROR) else state_of m q)"
  unfolding known_iff by (rule activate_cases [of P pid m]) (simp_all add: state_of_def comp_def option.map_comp)

definition dependencies_on :: "('cb, 'ag, 'p) mod_manager \<Rightarrow> bool" where
  "dependencies_on m \<longleftrightarrow>
     (\<forall>p d. on m p \<longrightarrow> d \<in> set (dependencies_of m p) \<longrightarrow> known m d \<longrightarrow> on m d)"

text \<open>What the dependency loop relies on: an enabler touches nothing but what it is asked for and its dependencies.\<close>

locale plugin_enabler =
  fixes en :: "string \<Rightarrow> ('cb, 'ag, 'p) mod_manager \<Rightarrow> (mod_error + bool) \<times> ('cb, 'ag, 'p) mod_manager"
  assumes en_manifests [simp]: "manifests (snd (en p m)) = manifests m"
    and en_keeps: "on m q \<Longrightarrow> on (snd (en p m)) q"
    and en_only: "on (snd (en p m)) q \<Longrightarrow> on m q \<or> (p, q) \<in> (dep_rel m)\<^sup>*"
    and en_true: "fst (en p m) = Inr True \<Longrightarrow> on (snd (en p m)) p"
    and en_closed: "fst (en p m) = Inr True \<Longrightarrow> dependencies_on m \<Longrightarrow> dependencies_on (snd (en p m))"
begin

lemma deps_manifests [simp]: "manifests (snd (enable_dependencies en ds m)) = manifests m"
  by (induction ds arbitrary: m) (auto simp: case_prod_beta split: option.splits sum.splits)

lemma deps_keeps: "on m q \<Longrightarrow> on (snd (enable_dependencies en ds m)) q"
  by (induction ds arbitrary: m) (auto simp: case_prod_beta en_keeps split: option.splits sum.splits)

lemma deps_only:
  "on (snd (enable_dependencies en ds m)) q \<Longrightarrow> on m q \<or> (\<exists>d \<in> set ds. (d, q) \<in> (dep_rel m)\<^sup>*)"
proof (induction ds arbitrary: m)
  case (Cons d ds)
  have same: "dep_rel (snd (en d m)) = dep_rel m" by (rule manifests_cong) simp
  show ?case using Cons.prems Cons.IH [of m] Cons.IH [of "snd (en d m)"] en_only [of d m q]
    by (auto simp: case_prod_beta same split: option.splits sum.splits if_splits)
qed simp

lemma deps_all_on:
  "fst (enable_dependencies en ds m) = Inr None \<Longrightarrow> d \<in> set ds \<Longrightarrow> known m d \<Longrightarrow>
     on (snd (enable_dependencies en ds m)) d"
proof (induction ds arbitrary: m)
  case (Cons e ds)
  have kn: "known (snd (en e m)) d \<longleftrightarrow> known m d" by (rule manifests_cong) simp
  consider "map_of (mm_plugins m) e = None" | "on m e"
    | r where "map_of (mm_plugins m) e = Some r" "\<not> on m e" "fst (en e m) = Inr True"
    using Cons.prems(1)
    by (auto simp: state_of_def case_prod_beta split: option.splits sum.splits if_splits)
  then show ?case
  proof cases
    case 1
    then show ?thesis using Cons.prems Cons.IH [of m] unfolding known_iff by auto
  next
    case 2
    then show ?thesis using Cons.prems Cons.IH [of m] deps_keeps [of m e ds]
      by (auto simp: state_of_def split: option.splits)
  next
    case 3
    let ?m = "snd (en e m)"
    have step: "enable_dependencies en (e # ds) m = enable_dependencies en ds ?m"
      using 3 by (simp add: state_of_def case_prod_beta)
    have "on ?m e" using en_true [OF 3(3)] .
    then show ?thesis using Cons.prems Cons.IH [of ?m] kn deps_keeps [of ?m e ds] unfolding step by auto
  qed
qed simp

lemma deps_closed:
  "fst (enable_dependencies en ds m) = Inr None \<Longrightarrow> dependencies_on m \<Longrightarrow>
     dependencies_on (snd (enable_dependencies en ds m))"
  by (induction ds arbitrary: m)
     (auto simp: case_prod_beta intro: en_closed split: option.splits sum.splits if_splits)

end

lemma enable_unknown: "map_of (mm_plugins m) pid = None \<Longrightarrow> enable (Suc n) P pid m = (Inr False, m)"
  by simp

lemma enable_on: "on m pid \<Longrightarrow> enable (Suc n) P pid m = (Inr True, m)"
  by (auto simp: state_of_def)

text \<open>The three parts of enabling a plugin that is known and not enabled: load it if need be, its dependencies, itself.\<close>

definition prepare_plugin :: "string \<Rightarrow> ('cb, 'ag, 'p) mod_manager \<Rightarrow> bool \<times> ('cb, 'ag, 'p) mod_manager" where
  "prepare_plugin pid m = (if state_of m pid \<in> {Some LOADED, Some DISABLED} then (True, m) else load pid m)"

lemma enable_step:
  assumes "known m pid" "\<not> on m pid"
  shows "enable (Suc n) P pid m =
    (let (loaded, m1) = prepare_plugin pid m
     in if \<not> loaded then (Inr False, m1)
        else (let (res, m2) = enable_dependencies (enable n P) (dependencies_of m pid) m1
              in case res of
                   Inl e \<Rightarrow> (Inl e, m2)
                 | Inr (Some dep) \<Rightarrow> (Inr False, update_record pid (set_error (DependencyFailed dep)) m2)
                 | Inr None \<Rightarrow> (let (b, m3) = activate_plugin P pid m2 in (Inr b, m3))))"
proof -
  obtain r where r: "map_of (mm_plugins m) pid = Some r" using assms(1) unfolding known_iff by auto
  then have ne: "pr_state r \<noteq> ENABLED" using assms(2) by (simp add: state_of_def)
  have deps: "dependencies_of m pid = pm_dependencies (pr_manifest r)"
    using r by (simp add: dependencies_of_def manifests_def)
  have pp: "(if pr_state r \<in> {LOADED, DISABLED} then (True, m) else load pid m) = prepare_plugin pid m"
    using r by (simp add: prepare_plugin_def state_of_def)
  show ?thesis unfolding enable.simps deps pp [symmetric] using r ne by simp
qed

lemma prepare_manifests [simp]: "manifests (snd (prepare_plugin pid m)) = manifests m"
  by (simp add: prepare_plugin_def)

lemma prepare_on [simp]: "on (snd (prepare_plugin pid m)) q \<longleftrightarrow> on m q"
  by (simp add: prepare_plugin_def)

lemma enable_cases:
  obtains (unknown) "enable (Suc n) P pid m = (Inr False, m)" "\<not> known m pid"
    | (enabled) "enable (Suc n) P pid m = (Inr True, m)" "on m pid"
    | (unloadable) m1 where "enable (Suc n) P pid m = (Inr False, m1)" "prepare_plugin pid m = (False, m1)"
        "\<not> on m pid"
    | (deep) e m1 m2 where "enable (Suc n) P pid m = (Inl e, m2)" "prepare_plugin pid m = (True, m1)"
        "enable_dependencies (enable n P) (dependencies_of m pid) m1 = (Inl e, m2)" "known m pid" "\<not> on m pid"
    | (blocked) d m1 m2 where "enable (Suc n) P pid m = (Inr False, update_record pid (set_error (DependencyFailed d)) m2)"
        "prepare_plugin pid m = (True, m1)"
        "enable_dependencies (enable n P) (dependencies_of m pid) m1 = (Inr (Some d), m2)" "known m pid" "\<not> on m pid"
    | (activated) b m1 m2 m3 where "enable (Suc n) P pid m = (Inr b, m3)" "prepare_plugin pid m = (True, m1)"
        "enable_dependencies (enable n P) (dependencies_of m pid) m1 = (Inr None, m2)"
        "activate_plugin P pid m2 = (b, m3)" "known m pid" "\<not> on m pid"
proof -
  consider "\<not> known m pid" | "on m pid" | "known m pid" "\<not> on m pid" by blast
  then show ?thesis
  proof cases
    case 1
    then show ?thesis using that(1) unfolding known_iff by simp
  next
    case 2
    then show ?thesis using that(2) enable_on by blast
  next
    case 3
    obtain l m1 where pp: "prepare_plugin pid m = (l, m1)" by (cases "prepare_plugin pid m")
    obtain res m2 where dd: "enable_dependencies (enable n P) (dependencies_of m pid) m1 = (res, m2)"
      by (cases "enable_dependencies (enable n P) (dependencies_of m pid) m1")
    obtain b m3 where aa: "activate_plugin P pid m2 = (b, m3)" by (cases "activate_plugin P pid m2")
    note step = enable_step [OF 3, of n P, unfolded pp]
    consider "\<not> l" | e where "l" "res = Inl e" | d where "l" "res = Inr (Some d)" | "l" "res = Inr None"
      by (cases l; cases res) (auto intro: option.exhaust)
    then show ?thesis
    proof cases
      case 1
      then show ?thesis using step pp 3 by (intro that(3)) (auto simp del: enable.simps)
    next
      case (2 e)
      then show ?thesis using step dd pp 3 by (intro that(4)) (auto simp del: enable.simps)
    next
      case p: (3 d)
      then show ?thesis using step dd pp 3 by (intro that(5)) (auto simp del: enable.simps)
    next
      case 4
      then show ?thesis using step dd aa pp 3 by (intro that(6)) (auto simp del: enable.simps)
    qed
  qed
qed

lemma dependencies_on_cong:
  assumes "manifests m' = manifests m" "\<And>q. on m' q \<longleftrightarrow> on m q"
  shows "dependencies_on m' \<longleftrightarrow> dependencies_on m"
  by (simp add: dependencies_on_def manifests_cong(1) [OF assms(1)] assms(2) manifests_cong(3) [OF assms(1), simplified])

lemma dep_edge: "d \<in> set (dependencies_of m p) \<Longrightarrow> (d, q) \<in> (dep_rel m)\<^sup>* \<Longrightarrow> (p, q) \<in> (dep_rel m)\<^sup>*"
  by (rule converse_rtrancl_into_rtrancl) (simp_all add: dep_rel_def)

lemma state_after_activation:
  assumes "activate_plugin P pid m2 = (b, m3)" "known m2 pid"
  shows "on m3 q \<longleftrightarrow> (if q = pid then b else on m2 q)"
  using activate_state [of P pid m2 q] assms by simp

lemma enabler_Suc:
  assumes IH: "plugin_enabler (enable n P)"
  shows "plugin_enabler (enable (Suc n) P)"
proof
  note deps = plugin_enabler.deps_manifests [OF IH] plugin_enabler.deps_keeps [OF IH]
    plugin_enabler.deps_only [OF IH] plugin_enabler.deps_all_on [OF IH] plugin_enabler.deps_closed [OF IH]
  have pm: "manifests m1 = manifests m" if "prepare_plugin pid m = (b, m1)" for pid b and m m1 :: "('a, 'b, 'c) mod_manager"
    using prepare_manifests [of pid m] that by simp
  have po: "on m1 q \<longleftrightarrow> on m q" if "prepare_plugin pid m = (b, m1)" for pid b q and m m1 :: "('a, 'b, 'c) mod_manager"
    using prepare_on [of pid m q] that by simp
  have dm: "manifests m2 = manifests m1" if "enable_dependencies (enable n P) ds m1 = (r, m2)"
    for ds r and m1 m2 :: "('a, 'b, 'c) mod_manager"
    using deps(1) [of ds m1] that by simp
  fix p q and m :: "('a, 'b, 'c) mod_manager"
  show man: "manifests (snd (enable (Suc n) P p m)) = manifests m"
  proof (rule enable_cases [of n P p m])
    fix b m1 m2 m3
    assume "enable (Suc n) P p m = (Inr b, m3)" "activate_plugin P p m2 = (b, m3)"
      "enable_dependencies (enable n P) (dependencies_of m p) m1 = (Inr None, m2)" "prepare_plugin p m = (True, m1)"
    then show ?thesis using activate_manifests [of P p m2] by (simp del: enable.simps add: dm pm)
  qed (simp_all del: enable.simps add: dm pm manifests_update_record)
  show "on (snd (enable (Suc n) P p m)) q" if "on m q"
  proof (rule enable_cases [of n P p m])
    fix b m1 m2 m3
    assume *: "enable (Suc n) P p m = (Inr b, m3)" "activate_plugin P p m2 = (b, m3)"
      "enable_dependencies (enable n P) (dependencies_of m p) m1 = (Inr None, m2)" "prepare_plugin p m = (True, m1)" "\<not> on m p"
    have "on m2 q" using deps(2) [of m1 q "dependencies_of m p"] * po [of p m True m1 q] that by simp
    moreover have "q \<noteq> p" using that *(5) by blast
    ultimately show ?thesis using activate_state [of P p m2 q] * by (simp del: enable.simps)
  next
    fix d m1 m2
    assume *: "enable (Suc n) P p m = (Inr False, update_record p (set_error (DependencyFailed d)) m2)"
      "prepare_plugin p m = (True, m1)"
      "enable_dependencies (enable n P) (dependencies_of m p) m1 = (Inr (Some d), m2)" "\<not> on m p"
    have "on m2 q" using deps(2) [of m1 q "dependencies_of m p"] * po [of p m True m1 q] that by simp
    moreover have "q \<noteq> p" using that *(4) by blast
    ultimately show ?thesis using * by (simp del: enable.simps)
  next
    fix e m1 m2
    assume *: "enable (Suc n) P p m = (Inl e, m2)" "prepare_plugin p m = (True, m1)"
      "enable_dependencies (enable n P) (dependencies_of m p) m1 = (Inl e, m2)"
    show ?thesis using deps(2) [of m1 q "dependencies_of m p"] * po [of p m True m1 q] that by (simp del: enable.simps)
  qed (use that po in \<open>auto simp del: enable.simps\<close>)
  have reach: "on m q \<or> (p, q) \<in> (dep_rel m)\<^sup>*"
    if "prepare_plugin p m = (True, m1)" "enable_dependencies (enable n P) (dependencies_of m p) m1 = (r, m2)" "on m2 q" for r m1 m2
  proof -
    have "dep_rel m1 = dep_rel m" using pm [OF that(1)] by (rule manifests_cong)
    then show ?thesis using deps(3) [of "dependencies_of m p" m1 q] that po [OF that(1), of q] dep_edge [of _ m p q] by auto
  qed
  show "on m q \<or> (p, q) \<in> (dep_rel m)\<^sup>*" if on: "on (snd (enable (Suc n) P p m)) q"
  proof (rule enable_cases [of n P p m])
    fix b m1 m2 m3
    assume *: "enable (Suc n) P p m = (Inr b, m3)" "activate_plugin P p m2 = (b, m3)"
      "enable_dependencies (enable n P) (dependencies_of m p) m1 = (Inr None, m2)" "prepare_plugin p m = (True, m1)"
    show ?thesis
    proof (cases "q = p")
      case False
      then have "on m2 q" using activate_state [of P p m2 q] * on by (simp del: enable.simps)
      then show ?thesis using reach [OF *(4,3)] by simp
    qed simp
  next
    fix d m1 m2
    assume *: "enable (Suc n) P p m = (Inr False, update_record p (set_error (DependencyFailed d)) m2)"
      "prepare_plugin p m = (True, m1)"
      "enable_dependencies (enable n P) (dependencies_of m p) m1 = (Inr (Some d), m2)"
    show ?thesis using reach [OF *(2,3)] * on by (cases "q = p") (simp_all del: enable.simps)
  next
    fix e m1 m2
    assume *: "enable (Suc n) P p m = (Inl e, m2)" "prepare_plugin p m = (True, m1)"
      "enable_dependencies (enable n P) (dependencies_of m p) m1 = (Inl e, m2)"
    show ?thesis using reach [OF *(2,3)] * on by (simp del: enable.simps)
  qed (use on po in \<open>auto simp del: enable.simps\<close>)
  show on_p: "on (snd (enable (Suc n) P p m)) p" if t: "fst (enable (Suc n) P p m) = Inr True" for m :: "('a, 'b, 'c) mod_manager"
  proof (rule enable_cases [of n P p m])
    fix b m1 m2 m3
    assume *: "enable (Suc n) P p m = (Inr b, m3)" "activate_plugin P p m2 = (b, m3)" "known m p"
      "enable_dependencies (enable n P) (dependencies_of m p) m1 = (Inr None, m2)" "prepare_plugin p m = (True, m1)"
    have "known m2 p" using *(3) manifests_cong(3) [of m2 m] dm [OF *(4)] pm [OF *(5)] by simp
    then show ?thesis using state_after_activation [OF *(2)] * t by (simp del: enable.simps)
  qed (use t in \<open>auto simp del: enable.simps\<close>)
  show "dependencies_on (snd (enable (Suc n) P p m))" if t: "fst (enable (Suc n) P p m) = Inr True" and c: "dependencies_on m"
  proof (rule enable_cases [of n P p m])
    fix b m1 m2 m3
    assume *: "enable (Suc n) P p m = (Inr b, m3)" "activate_plugin P p m2 = (b, m3)" "known m p"
      "enable_dependencies (enable n P) (dependencies_of m p) m1 = (Inr None, m2)" "prepare_plugin p m = (True, m1)"
    have b: "b" using * t by (simp del: enable.simps)
    have m2: "manifests m2 = manifests m" using dm [OF *(4)] pm [OF *(5)] by simp
    have m3: "manifests m3 = manifests m" using m2 *(2) activate_manifests [of P p m2] by simp
    have kp: "known m2 p" using *(3) manifests_cong(3) [OF m2] by simp
    have c1: "dependencies_on m1" using dependencies_on_cong [OF pm [OF *(5)]] po [OF *(5)] c by simp
    have c2: "dependencies_on m2" using deps(5) [of "dependencies_of m p" m1] *(4) c1 by simp
    have pd: "on m2 d" if "d \<in> set (dependencies_of m p)" "known m d" for d
      using deps(4) [of "dependencies_of m p" m1 d] *(4) that manifests_cong(3) [OF pm [OF *(5)]] by simp
    have "dependencies_on m3" unfolding dependencies_on_def
    proof (intro allI impI)
      fix x d
      assume x: "on m3 x" "d \<in> set (dependencies_of m3 x)" "known m3 d"
      have x': "d \<in> set (dependencies_of m x)" "known m d" "d \<in> set (dependencies_of m2 x)" "known m2 d"
        using x(2,3) manifests_cong(1,3) [OF m3] manifests_cong(1,3) [OF m2] by simp_all
      have "on m2 d"
        using x' x(1) pd c2 state_after_activation [OF *(2) kp, of x] by (cases "x = p") (auto simp: dependencies_on_def)
      then show "on m3 d" using state_after_activation [OF *(2) kp, of d] b by simp
    qed
    then show ?thesis using *(1) by (simp del: enable.simps)
  qed (use t c in \<open>auto simp del: enable.simps\<close>)
qed

lemma enable_is_enabler: "plugin_enabler (enable n P)"
proof (induction n)
  case 0
  show ?case by unfold_locales auto
next
  case (Suc n)
  then show ?case by (rule enabler_Suc)
qed

interpretation en: plugin_enabler "enable n P" for n P
  by (rule enable_is_enabler)

subsection \<open>Enabling ends on acyclic dependencies\<close>

definition known_deps :: "('cb, 'ag, 'p) mod_manager \<Rightarrow> (string \<times> string) set" where
  "known_deps m = {(p, d). known m p \<and> d \<in> set (dependencies_of m p) \<and> known m d}"

lemma known_deps_cong: "manifests m' = manifests m \<Longrightarrow> known_deps m' = known_deps m"
  unfolding known_deps_def by (auto simp: manifests_cong(1) [of m' m] manifests_cong(3) [of m' m, simplified])

lemma enable_dependencies_returns:
  fixes m m1 :: "('cb, 'ag, 'p) mod_manager"
  assumes "\<And>d m'. d \<in> set ds \<Longrightarrow> manifests m' = manifests m \<Longrightarrow> known m d \<Longrightarrow> isl (fst (enable n P d m')) = False"
    and "manifests m1 = manifests m"
  shows "\<not> isl (fst (enable_dependencies (enable n P) ds m1))"
  using assms
proof (induction ds arbitrary: m1)
  case (Cons d ds)
  show ?case
  proof (cases "map_of (mm_plugins m1) d")
    case None
    then show ?thesis using Cons.IH [of m1] Cons.prems by simp
  next
    case (Some r)
    have "known m1 d" using Some unfolding known_iff by simp
    then have "known m d" using manifests_cong(3) [OF Cons.prems(2)] by blast
    then have "\<not> isl (fst (enable n P d m1))" using Cons.prems by simp
    then obtain b m' where en: "enable n P d m1 = (Inr b, m')"
      by (cases "enable n P d m1"; cases "fst (enable n P d m1)") auto
    have "manifests m' = manifests m" using en.en_manifests [of n P d m1] en Cons.prems(2) by simp
    then show ?thesis using Cons.IH [of m1] Cons.IH [of m'] Cons.prems Some en by simp
  qed
qed simp

lemma enable_returns_by_rank:
  fixes m m1 :: "('cb, 'ag, 'p) mod_manager"
  assumes "\<And>p d. (p, d) \<in> known_deps m \<Longrightarrow> r d < r p" "r pid < n" "manifests m1 = manifests m"
  shows "\<not> isl (fst (enable n P pid m1))"
  using assms(2,3)
proof (induction n arbitrary: pid m1)
  case (Suc n)
  show ?case
  proof (rule enable_cases [of n P pid m1])
    fix e m2 m3
    assume *: "prepare_plugin pid m1 = (True, m2)" "known m1 pid"
      "enable_dependencies (enable n P) (dependencies_of m1 pid) m2 = (Inl e, m3)"
    have m2: "manifests m2 = manifests m" using prepare_manifests [of pid m1] *(1) Suc.prems(2) by simp
    have "\<not> isl (fst (enable_dependencies (enable n P) (dependencies_of m1 pid) m2))"
    proof (rule enable_dependencies_returns [OF _ m2])
      fix d and m' :: "('cb, 'ag, 'p) mod_manager"
      assume d: "d \<in> set (dependencies_of m1 pid)" "manifests m' = manifests m" "known m d"
      have "(pid, d) \<in> known_deps m"
        using d *(2) manifests_cong(1,3) [OF Suc.prems(2)] by (simp add: known_deps_def)
      then have "r d < n" using assms(1) Suc.prems(1) by fastforce
      then show "isl (fst (enable n P d m')) = False" using Suc.IH d(2) by simp
    qed
    then show ?thesis using *(3) by simp
  qed (simp_all del: enable.simps)
qed simp

definition depth_below :: "('cb, 'ag, 'p) mod_manager \<Rightarrow> string \<Rightarrow> nat" where
  "depth_below m p = card {q. (p, q) \<in> (known_deps m)\<^sup>+}"

lemma below_known: "{q. (p, q) \<in> (known_deps m)\<^sup>+} \<subseteq> set (dkeys (mm_plugins m))"
proof
  fix q assume "q \<in> {q. (p, q) \<in> (known_deps m)\<^sup>+}"
  then have "(p, q) \<in> (known_deps m)\<^sup>+" by simp
  then show "q \<in> set (dkeys (mm_plugins m))" by (induction) (auto simp: known_deps_def)
qed

lemma below_finite: "finite {q. (p, q) \<in> (known_deps m)\<^sup>+}"
  by (rule finite_subset [OF below_known]) simp

lemma depth_below_less:
  assumes "acyclic (known_deps m)" "(p, d) \<in> known_deps m"
  shows "depth_below m d < depth_below m p"
proof -
  have "{q. (d, q) \<in> (known_deps m)\<^sup>+} \<subset> {q. (p, q) \<in> (known_deps m)\<^sup>+}"
    using assms by (auto simp: acyclic_def intro: trancl_into_trancl2)
  then show ?thesis unfolding depth_below_def by (rule psubset_card_mono [OF below_finite])
qed

lemma depth_below_bound: "depth_below m p \<le> length (mm_plugins m)"
proof -
  have "depth_below m p \<le> card (set (dkeys (mm_plugins m)))"
    unfolding depth_below_def by (rule card_mono [OF _ below_known]) simp
  also have "\<dots> \<le> length (mm_plugins m)" using card_length [of "dkeys (mm_plugins m)"] by simp
  finally show ?thesis .
qed


text \<open>
  C15: Every plugin \<^verbatim>\<open>enable\<close> reports enabled is enabled together with all its known dependencies: after a
  successful call the plugin is enabled, nothing enabled before has been lost, every plugin enabled anew is the
  plugin or one it transitively depends on, and if the dependencies of the enabled plugins were enabled before,
  they all are after.
\<close>

theorem enable_brings_dependencies:
  assumes "enable depth P pid m = (Inr True, m')" "dependencies_on m"
  shows "state_of m' pid = Some ENABLED \<and> dependencies_on m' \<and>
    (\<forall>q. state_of m q = Some ENABLED \<longrightarrow> state_of m' q = Some ENABLED) \<and>
    (\<forall>q. state_of m' q = Some ENABLED \<longrightarrow> state_of m q = Some ENABLED \<or> (pid, q) \<in> (dep_rel m)\<^sup>*)"
  using en.en_true [of depth P pid m] en.en_closed [of depth P pid m] en.en_keeps [of m _ depth P pid]
    en.en_only [of depth P pid m] assms by simp

text \<open>
  Library fact: A dependency cycle is never resolved: when every plugin of a set is loaded or disabled and its first
  dependency is in the set again, then enabling any of them exhausts every recursion depth and leaves the
  manager as it was.
\<close>

theorem dependency_cycle_never_enables:
  assumes "\<forall>p \<in> C. state_of m p \<in> {Some LOADED, Some DISABLED} \<and>
      (case dependencies_of m p of [] \<Rightarrow> False | d # ds \<Rightarrow> d \<in> C)"
    and "pid \<in> C"
  shows "enable depth P pid m = (Inl RecursionTooDeep, m)"
  using assms(2)
proof (induction depth arbitrary: pid)
  case (Suc depth)
  obtain d ds where d: "dependencies_of m pid = d # ds" "d \<in> C"
    using bspec [OF assms(1) Suc.prems] by (cases "dependencies_of m pid") simp_all
  have off: "known m p \<and> \<not> on m p" if "p \<in> C" for p
    using assms(1) that unfolding known_iff by (auto simp: state_of_def)
  have prep: "prepare_plugin pid m = (True, m)"
    using assms(1) Suc.prems unfolding prepare_plugin_def by auto
  have "enable_dependencies (enable depth P) (d # ds) m = (Inl RecursionTooDeep, m)"
    using Suc.IH [OF d(2)] off [OF d(2)] unfolding known_iff by (auto simp: state_of_def)
  then show ?case using off [OF Suc.prems] by (subst enable_step) (simp_all add: prep d)
qed simp

section \<open>The invariant of the manager\<close>

definition record_ok :: "'p PluginRecord \<Rightarrow> bool" where
  "record_ok r \<longleftrightarrow>
     (pr_instance r = None \<longleftrightarrow> pr_module r = None) \<and>
     (pr_state r \<in> {LOADED, ENABLED, DISABLED} \<longrightarrow> pr_instance r \<noteq> None \<and> pr_error r = None) \<and>
     (pr_state r \<in> {DISCOVERED, UNLOADED} \<longrightarrow> pr_instance r = None) \<and>
     (pr_state r = ERROR \<longrightarrow> pr_error r \<noteq> None)"

text \<open>
  \<open>D\<close> lists the hooks that were registered through the manager itself, which keeps no owner for them.
\<close>

definition registered_at :: "string \<Rightarrow> (string \<times> 'cb) list \<Rightarrow> 'cb list" where
  "registered_at hp D = map snd (filter (\<lambda>(h, _). h = hp) D)"

definition hooks_owned :: "(string \<times> 'cb) list \<Rightarrow> ('cb, 'ag, 'p) mod_manager \<Rightarrow> bool" where
  "hooks_owned D m \<longleftrightarrow>
     dkeys (mm_hooks m) = HOOK_POINTS \<and> dkeys (mm_hook_owners m) = HOOK_POINTS \<and>
     (\<forall>hp. mset (dget (mm_hooks m) hp []) \<subseteq># mset (map snd (dget (mm_hook_owners m) hp [])) + mset (registered_at hp D))"

definition manager_ok :: "(string \<times> 'cb) list \<Rightarrow> ('cb, 'ag, 'p) mod_manager \<Rightarrow> bool" where
  "manager_ok D m \<longleftrightarrow>
     well_keyed (mm_plugins m) \<and> (\<forall>pid r. map_of (mm_plugins m) pid = Some r \<longrightarrow> record_ok r) \<and> hooks_owned D m"

lemma manager_ok_cong:
  "mm_plugins m' = mm_plugins m \<Longrightarrow> mm_hooks m' = mm_hooks m \<Longrightarrow> mm_hook_owners m' = mm_hook_owners m \<Longrightarrow>
     manager_ok D m' \<longleftrightarrow> manager_ok D m"
  by (simp add: manager_ok_def hooks_owned_def)

lemma ok_update_record:
  assumes "manager_ok D m" "\<And>r. map_of (mm_plugins m) pid = Some r \<Longrightarrow> record_ok r \<Longrightarrow> record_ok (f r)"
  shows "manager_ok D (update_record pid f m)"
proof -
  have "well_keyed (mm_plugins (update_record pid f m))"
    using assms(1) by (simp add: well_keyed_def manager_ok_def)
  then show ?thesis using assms by (auto simp: manager_ok_def hooks_owned_def)
qed

lemma dkeys_dappend: "dkeys (dappend k v d) = (if k \<in> set (dkeys d) then dkeys d else dkeys d @ [k])"
  by (simp add: dappend_def dkeys_dset)

lemma hooks_owned_call: "hooks_owned D m \<Longrightarrow> hooks_owned D (snd (do_context_call (\<lambda>_ _ m. m) pid c m))"
proof (cases c)
  case (RegisterHook hp cb)
  assume *: "hooks_owned D m"
  show ?thesis
  proof (cases "hp \<in> set (dkeys (mm_hooks m))")
    case True
    then have "dkeys (dappend hp cb (mm_hooks m)) = HOOK_POINTS"
      "dkeys (dappend hp (pid, cb) (mm_hook_owners m)) = HOOK_POINTS"
      using * by (simp_all only: dkeys_dappend hooks_owned_def if_True)
    then show ?thesis using * RegisterHook True by (simp add: mm_ops hooks_owned_def)
  next
    case False
    then show ?thesis using * RegisterHook by (simp add: mm_ops)
  qed
next
  case (UnregisterHook hp cb)
  assume *: "hooks_owned D m"
  show ?thesis
  proof (cases "hp \<in> set (dkeys (mm_hooks m))")
    case True
    then have "dkeys (dset hp (remove1 cb (dget (mm_hooks m) hp [])) (mm_hooks m)) = HOOK_POINTS"
      using * by (simp only: dkeys_dset hooks_owned_def if_True)
    moreover have "mset (dget (mm_hooks m) hp []) - {#cb#} \<subseteq># mset (map snd (dget (mm_hook_owners m) hp [])) + mset (registered_at hp D)"
      using * unfolding hooks_owned_def by (meson diff_subset_eq_self subset_mset.order_trans)
    ultimately show ?thesis using * UnregisterHook True by (simp add: mm_ops hooks_owned_def)
  next
    case False
    then show ?thesis using * UnregisterHook by (simp add: mm_ops)
  qed
qed (simp_all add: mm_ops hooks_owned_def)

lemma ok_context_call: "manager_ok D m \<Longrightarrow> manager_ok D (snd (do_context_call (\<lambda>_ _ m. m) pid c m))"
  using hooks_owned_call [of D m pid c] by (simp add: manager_ok_def context_call_frame)

lemma ok_run_script:
  assumes "manager_ok D m"
  shows "manager_ok D (snd (snd (run_script (emit_event P) pid s m)))" "manager_ok D (emit_event P e d m)"
    "manager_ok D (snd (do_context_call (emit_event P) pid c m))"
  by (rule script_invariant [where I = "manager_ok D"]; use assms ok_context_call in blast)+

lemma mset_fold_remove1: "mset (fold remove1 xs ys) = mset ys - mset xs"
  by (induction xs arbitrary: ys) simp_all

lemma subset_mset_diff_mono: "A \<subseteq># B \<Longrightarrow> A - C \<subseteq># B - C"
  by (simp add: subseteq_mset_def diff_le_mono)

lemma mset_owners_split:
  "mset (map snd os) =
     mset (map snd (filter (\<lambda>(p, _). p = pid) os)) + mset (map snd (filter (\<lambda>(p, _). p \<noteq> pid) os))"
  by (induction os) auto

lemma hooks_owned_remove_at:
  assumes "hooks_owned D m" "hp \<in> set HOOK_POINTS"
  shows "hooks_owned D (remove_hooks_at pid hp m)"
proof -
  let ?o = "dget (mm_hook_owners m) hp []"
  have "mset (dget (mm_hooks m) hp []) - mset (map snd (filter (\<lambda>(p, _). p = pid) ?o)) \<subseteq>#
      mset (map snd ?o) + mset (registered_at hp D) - mset (map snd (filter (\<lambda>(p, _). p = pid) ?o))"
    using assms(1) unfolding hooks_owned_def by (intro subset_mset_diff_mono) blast
  also have "\<dots> = mset (map snd (filter (\<lambda>(p, _). p \<noteq> pid) ?o)) + mset (registered_at hp D)"
    by (subst mset_owners_split [of ?o pid]) simp
  finally have sub: "mset (dget (mm_hooks m) hp []) - mset (map snd (filter (\<lambda>(p, _). p = pid) ?o)) \<subseteq>#
      mset (map snd (filter (\<lambda>(p, _). p \<noteq> pid) ?o)) + mset (registered_at hp D)" .
  have "dkeys (dset hp x (mm_hooks m)) = HOOK_POINTS" "dkeys (dset hp y (mm_hook_owners m)) = HOOK_POINTS" for x y
    using assms by (simp_all only: dkeys_dset hooks_owned_def if_True)
  then show ?thesis using assms(1) sub
    by (simp add: remove_hooks_at_def Let_def hooks_owned_def mset_fold_remove1)
qed

lemma ok_remove_hooks: "manager_ok D m \<Longrightarrow> manager_ok D (remove_plugin_hooks pid m)"
proof -
  assume ok: "manager_ok D m"
  have "manager_ok D (fold (remove_hooks_at pid) hps m)" if "set hps \<subseteq> set HOOK_POINTS" for hps
    using ok that
  proof (induction hps arbitrary: m)
    case (Cons hp hps)
    have "manager_ok D (remove_hooks_at pid hp m)"
      using Cons.prems hooks_owned_remove_at [of D m hp pid] by (simp add: manager_ok_def)
    then show ?case using Cons by simp
  qed simp
  then show ?thesis by (simp add: remove_plugin_hooks_def)
qed

lemma ok_validate: "manager_ok D m \<Longrightarrow> snd (validate mf m) = m' \<Longrightarrow> manager_ok D m'"
  by (auto simp: validate_def Let_def record_ok_def intro!: ok_update_record)

lemma ok_track: "manager_ok D m \<Longrightarrow> manager_ok D (track_discovered mf m)"
  by (auto simp: track_discovered_def manager_ok_def hooks_owned_def record_ok_def)

lemma ok_discover_dirs: "manager_ok D m \<Longrightarrow> manager_ok D (snd (discover_dirs ds m))"
  by (induction ds m rule: discover_dirs.induct)
     (auto simp: case_prod_beta Let_def ok_track split: option.splits manifest_text.splits)

lemma ok_discover: "manager_ok D m \<Longrightarrow> manager_ok D (snd (discover m))"
  by (simp add: discover_def ok_discover_dirs)

lemma ok_modules: "manager_ok D (mm_modules_update f m) \<longleftrightarrow> manager_ok D m" "manager_ok D (mm_data_dirs_update g m) \<longleftrightarrow> manager_ok D m"
  "manager_ok D (mm_installed_update h m) \<longleftrightarrow> manager_ok D m" "manager_ok D (mm_runtime_config_update i m) \<longleftrightarrow> manager_ok D m"
  "manager_ok D (mm_snapshots_update j m) \<longleftrightarrow> manager_ok D m"
  "manager_ok D (mm_event_subscribers_update k m) \<longleftrightarrow> manager_ok D m"
  "manager_ok D (mm_registered_agents_update l m) \<longleftrightarrow> manager_ok D m"
  by (rule manager_ok_cong; simp)+

lemma record_ok_set_error: "record_ok r \<Longrightarrow> record_ok (set_error e r)"
  by (simp add: record_ok_def set_error_def)

lemma ok_load: "manager_ok D m \<Longrightarrow> manager_ok D (snd (load pid m))"
  by (auto simp: load_def Let_def ok_modules record_ok_def set_error_def intro!: ok_update_record
      split: option.splits plugin_module.splits sum.splits)

lemma known_instance_script:
  assumes "Option.bind (map_of (mm_plugins m) pid) pr_instance = Some p" "run_script (emit_event P) pid s m' = (res, p', m2)"
    "mm_plugins m' = mm_plugins m" "map_of (mm_plugins m2) pid = Some r"
  shows "pr_instance r = Some p"
  using assms run_script_plugins [OF assms(2)] by (simp add: bind_eq_Some_conv)

lemma ok_activate: "manager_ok D m \<Longrightarrow> manager_ok D (snd (activate_plugin P pid m))"
proof (cases "Option.bind (map_of (mm_plugins m) pid) pr_instance")
  case None
  assume "manager_ok D m"
  then show ?thesis using None
    by (simp add: activate_plugin_def Let_def ok_update_record ok_modules record_ok_set_error)
next
  case (Some p)
  assume ok: "manager_ok D m"
  let ?m = "m\<lparr>mm_data_dirs := List.insert pid (mm_data_dirs m)\<rparr>"
  obtain res p' m2 where rs: "run_script (emit_event P) pid (activate P p) ?m = (res, p', m2)" by (rule prod_cases3)
  have m2: "manager_ok D m2" using ok_run_script(1) [of D ?m P pid "activate P p"] ok rs by (simp add: ok_modules)
  have inst: "pr_instance r = Some p" if "map_of (mm_plugins m2) pid = Some r" for r
    using known_instance_script [OF Some rs _ that] by simp
  then have "record_ok (r\<lparr>pr_instance := Some p', pr_state := st, pr_error := e\<rparr>)"
    if "map_of (mm_plugins m2) pid = Some r" "record_ok r" "st = ENABLED \<and> e = None \<or> st = ERROR \<and> e \<noteq> None" for r st e
    using that by (auto simp: record_ok_def)
  then have upd: "manager_ok D (update_record pid (\<lambda>r. r\<lparr>pr_instance := Some p', pr_state := st, pr_error := e\<rparr>) m2)"
    if "st = ENABLED \<and> e = None \<or> st = ERROR \<and> e \<noteq> None" for st e
    using that by (intro ok_update_record [OF m2]) blast
  show ?thesis using Some rs upd [of ENABLED None] upd [of ERROR "Some x" for x]
    by (auto simp: activate_plugin_def set_error_def split: sum.splits bool.splits)
qed

lemma ok_enable: "manager_ok D m \<Longrightarrow> manager_ok D (snd (enable n P pid m))"
proof (induction n arbitrary: pid m)
  case (Suc n)
  have deps: "manager_ok D m \<Longrightarrow> manager_ok D (snd (enable_dependencies (enable n P) ds m))" for ds and m
    by (induction ds arbitrary: m) (auto simp: case_prod_beta Suc.IH split: option.splits sum.splits)
  have prep: "manager_ok D (snd (prepare_plugin pid m))" using Suc.prems by (simp add: prepare_plugin_def ok_load)
  show ?case
  proof (rule enable_cases [of n P pid m])
    fix d m1 m2
    assume *: "enable (Suc n) P pid m = (Inr False, update_record pid (set_error (DependencyFailed d)) m2)"
      "prepare_plugin pid m = (True, m1)"
      "enable_dependencies (enable n P) (dependencies_of m pid) m1 = (Inr (Some d), m2)"
    have "manager_ok D m2" using deps [of m1 "dependencies_of m pid"] prep * by simp
    then show ?thesis using *(1) by (simp del: enable.simps add: ok_update_record record_ok_set_error)
  next
    fix b m1 m2 m3
    assume *: "enable (Suc n) P pid m = (Inr b, m3)" "activate_plugin P pid m2 = (b, m3)" "prepare_plugin pid m = (True, m1)"
      "enable_dependencies (enable n P) (dependencies_of m pid) m1 = (Inr None, m2)"
    have "manager_ok D m2" using deps [of m1 "dependencies_of m pid"] prep * by simp
    then show ?thesis using ok_activate [of D m2 P pid] * by (simp del: enable.simps)
  next
    fix e m1 m2
    assume *: "enable (Suc n) P pid m = (Inl e, m2)" "prepare_plugin pid m = (True, m1)"
      "enable_dependencies (enable n P) (dependencies_of m pid) m1 = (Inl e, m2)"
    then show ?thesis using deps [of m1 "dependencies_of m pid"] prep by (simp del: enable.simps)
  qed (use Suc.prems prep in \<open>auto simp del: enable.simps\<close>)
qed simp

lemma ok_disable: "manager_ok D m \<Longrightarrow> manager_ok D (snd (disable P pid m))"
proof (cases "\<exists>r. map_of (mm_plugins m) pid = Some r \<and> pr_state r = ENABLED")
  case False
  assume "manager_ok D m"
  then show ?thesis using False by (auto simp: disable_def split: option.splits)
next
  case True
  assume ok: "manager_ok D m"
  obtain r where r: "map_of (mm_plugins m) pid = Some r" "pr_state r = ENABLED" using True by blast
  then have "record_ok r" using ok by (auto simp: manager_ok_def)
  then obtain p where p: "pr_instance r = Some p" "record_ok r" using r(2) by (auto simp: record_ok_def)
  obtain res p' m' where rs: "run_script (emit_event P) pid (deactivate P p) m = (res, p', m')" by (rule prod_cases3)
  have m': "manager_ok D m'" using ok_run_script(1) [OF ok, of P pid "deactivate P p"] rs by simp
  have r': "map_of (mm_plugins m') pid = Some r" using run_script_plugins [OF rs] r by simp
  let ?m1 = "update_record pid (\<lambda>r. r\<lparr>pr_instance := Some p'\<rparr>) m'"
  have "manager_ok D ?m1" by (rule ok_update_record [OF m']) (use r' p in \<open>auto simp: record_ok_def\<close>)
  then have "manager_ok D (remove_plugin_hooks pid ?m1)" by (rule ok_remove_hooks)
  then have "manager_ok D (update_record pid (\<lambda>r. r\<lparr>pr_state := DISABLED\<rparr>) (remove_plugin_hooks pid ?m1))"
    by (rule ok_update_record) (use r' r p in \<open>auto simp: record_ok_def\<close>)
  then show ?thesis using r p rs by (simp add: disable_def)
qed

lemma ok_unload: "manager_ok D m \<Longrightarrow> manager_ok D (snd (unload P pid m))"
  by (auto simp: unload_def Let_def ok_modules ok_disable record_ok_def intro!: ok_update_record split: option.splits)

lemma ok_reload: "manager_ok D m \<Longrightarrow> manager_ok D (snd (plugin_reload n P pid m))"
proof -
  assume "manager_ok D m"
  then have d: "manager_ok D (snd (discover (snd (unload P pid m))))" by (intro ok_discover ok_unload)
  then have l: "manager_ok D (snd (load pid (snd (discover (snd (unload P pid m))))))" by (rule ok_load)
  then have "manager_ok D (snd (enable n P pid (snd (load pid (snd (discover (snd (unload P pid m))))))))"
    by (rule ok_enable)
  then show ?thesis using d l by (simp add: plugin_reload_def Let_def case_prod_beta split: sum.splits)
qed

lemma update_config_cases:
  obtains (missing) "update_plugin_config P pid u m = (Inl (NoSuchDirectory pid), m)"
    | (written) d c where "update_plugin_config P pid u m =
          (Inr True, m\<lparr>mm_installed := dset pid (d\<lparr>pd_config := Some (Some c)\<rparr>) (mm_installed m)\<rparr>)"
        "map_of (mm_installed m) pid = Some d" "pd_is_dir d"
    | (notified) d c r p res p' m2 where
        "update_plugin_config P pid u m = (Inr True, update_record pid (\<lambda>r. r\<lparr>pr_instance := Some p'\<rparr>) m2)"
        "map_of (mm_installed m) pid = Some d" "pd_is_dir d" "map_of (mm_plugins m) pid = Some r" "pr_instance r = Some p"
        "run_script (emit_event P) pid (on_config_change P p c)
           (m\<lparr>mm_installed := dset pid (d\<lparr>pd_config := Some (Some c)\<rparr>) (mm_installed m)\<rparr>) = (res, p', m2)"
proof -
  define c where "c = fold (\<lambda>(k, v). dset k v) u (get_plugin_config m pid)"
  note unf = update_plugin_config_def c_def [symmetric] Let_def
  show ?thesis
  proof (cases "\<exists>d. map_of (mm_installed m) pid = Some d \<and> pd_is_dir d")
    case False
    then have "update_plugin_config P pid u m = (Inl (NoSuchDirectory pid), m)"
      unfolding unf by (auto split: option.splits)
    then show ?thesis by (rule that(1))
  next
    case True
    then obtain d where d: "map_of (mm_installed m) pid = Some d" "pd_is_dir d" by blast
    let ?m1 = "m\<lparr>mm_installed := dset pid (d\<lparr>pd_config := Some (Some c)\<rparr>) (mm_installed m)\<rparr>"
    show ?thesis
    proof (cases "\<exists>r p. map_of (mm_plugins m) pid = Some r \<and> pr_instance r = Some p \<and> pr_state r = ENABLED")
      case True
      then obtain r p where r: "map_of (mm_plugins m) pid = Some r" "pr_instance r = Some p" "pr_state r = ENABLED" by blast
      obtain res p' m2 where rs: "run_script (emit_event P) pid (on_config_change P p c) ?m1 = (res, p', m2)" by (rule prod_cases3)
      have "update_plugin_config P pid u m = (Inr True, update_record pid (\<lambda>r. r\<lparr>pr_instance := Some p'\<rparr>) m2)"
        unfolding unf using d r rs by simp
      then show ?thesis by (rule that(3) [OF _ d r(1,2) rs])
    next
      case False
      then have "update_plugin_config P pid u m = (Inr True, ?m1)" unfolding unf using d by (auto split: option.splits)
      then show ?thesis by (rule that(2) [OF _ d])
    qed
  qed
qed

lemma ok_update_config: "manager_ok D m \<Longrightarrow> manager_ok D (snd (update_plugin_config P pid u m))"
proof (rule update_config_cases [of P pid u m])
  fix d c r p res p' m2
  assume ok: "manager_ok D m" and *: "update_plugin_config P pid u m = (Inr True, update_record pid (\<lambda>r. r\<lparr>pr_instance := Some p'\<rparr>) m2)"
    "map_of (mm_plugins m) pid = Some r" "pr_instance r = Some p"
    "run_script (emit_event P) pid (on_config_change P p c)
       (m\<lparr>mm_installed := dset pid (d\<lparr>pd_config := Some (Some c)\<rparr>) (mm_installed m)\<rparr>) = (res, p', m2)"
  let ?m1 = "m\<lparr>mm_installed := dset pid (d\<lparr>pd_config := Some (Some c)\<rparr>) (mm_installed m)\<rparr>"
  have "manager_ok D m2" using ok_run_script(1) [of D ?m1 P pid "on_config_change P p c"] *(4) ok by (simp add: ok_modules)
  moreover have "mm_plugins m2 = mm_plugins m" using run_script_plugins [OF *(4)] by simp
  ultimately show ?thesis using * by (auto intro!: ok_update_record simp: record_ok_def)
qed (simp_all add: ok_modules)

lemma ok_disable_enabled: "manager_ok D m \<Longrightarrow> manager_ok D (disable_enabled P m)"
proof -
  have "manager_ok D m \<Longrightarrow> manager_ok D (fold (\<lambda>pid m. if on m pid then snd (disable P pid m) else m) pids m)" for pids
    by (induction pids arbitrary: m) (simp_all add: ok_disable)
  then show "manager_ok D m \<Longrightarrow> manager_ok D (disable_enabled P m)" by (simp add: disable_enabled_def)
qed

lemma ok_apply_configs: "manager_ok D m \<Longrightarrow> manager_ok D (snd (apply_configs P cs m))"
  by (induction cs arbitrary: m) (auto simp: case_prod_beta ok_update_config split: sum.splits)

lemma ok_enable_snapshot: "manager_ok D m \<Longrightarrow> manager_ok D (snd (enable_snapshot n P ps m))"
  by (induction ps arbitrary: m) (auto simp: case_prod_beta ok_enable ok_load split: sum.splits)

lemma ok_restore: "manager_ok D m \<Longrightarrow> manager_ok D (snd (restore_snapshot n P sid m))"
proof -
  assume "manager_ok D m"
  then have d: "manager_ok D (snd (discover (disable_enabled P m)))" by (intro ok_discover ok_disable_enabled)
  have a: "manager_ok D (snd (apply_configs P cs (snd (discover (disable_enabled P m)))))" for cs
    using d by (rule ok_apply_configs)
  have "manager_ok D (snd (enable_snapshot n P ps (snd (apply_configs P cs (snd (discover (disable_enabled P m)))))))" for ps cs
    using a by (rule ok_enable_snapshot)
  then show ?thesis using d a \<open>manager_ok D m\<close>
    by (auto simp: restore_snapshot_def case_prod_beta ok_modules split: option.splits sum.splits prod.splits)
qed

section \<open>Every reachable manager\<close>

text \<open>
  Between two operations the files of the installed directory may be changed by anybody (\<open>files\<close>), and code of a plugin, say
  in a hook, may use the context of its plugin (\<open>plugin_call\<close>), whatever the plugin's state.  A step is labelled with the hooks it
  registers through the manager itself.
\<close>

inductive mm_step :: "('cb, 'ag, 'p) plugin_methods \<Rightarrow> ('cb, 'ag, 'p) mod_manager \<Rightarrow> (string \<times> 'cb) list \<Rightarrow>
    ('cb, 'ag, 'p) mod_manager \<Rightarrow> bool"
  for P :: "('cb, 'ag, 'p) plugin_methods" where
  files: "mm_step P m [] (m\<lparr>mm_installed := d\<rparr>)"
| discover: "mm_step P m [] (snd (discover m))"
| validate: "mm_step P m [] (snd (validate mf m))"
| load: "mm_step P m [] (snd (load pid m))"
| enable: "mm_step P m [] (snd (enable depth P pid m))"
| disable: "mm_step P m [] (snd (disable P pid m))"
| unload: "mm_step P m [] (snd (unload P pid m))"
| reload: "mm_step P m [] (snd (plugin_reload depth P pid m))"
| update_config: "mm_step P m [] (snd (update_plugin_config P pid u m))"
| save: "mm_step P m [] (snd (save_snapshot uuid now name descr m))"
| restore: "mm_step P m [] (snd (restore_snapshot depth P sid m))"
| delete: "mm_step P m [] (snd (delete_snapshot sid m))"
| subscribe: "mm_step P m [] (subscribe_event e cb m)"
| emit: "mm_step P m [] (emit_event P e data m)"
| add_agent: "mm_step P m [] (register_agent n ag m)"
| remove_agent: "mm_step P m [] (unregister_agent n m)"
| add_hook: "mm_step P m [(hp, cb)] (snd (register_hook hp cb m))"
| remove_hook: "mm_step P m [] (unregister_hook hp cb m)"
| plugin_call: "mm_step P m [] (snd (do_context_call (emit_event P) pid c m))"

text \<open>\<open>mm_history P D m\<close>: some run leads to the manager \<open>m\<close>, and \<open>D\<close> are its direct registrations, the last one first.\<close>

inductive mm_history :: "('cb, 'ag, 'p) plugin_methods \<Rightarrow> (string \<times> 'cb) list \<Rightarrow> ('cb, 'ag, 'p) mod_manager \<Rightarrow> bool"
  for P :: "('cb, 'ag, 'p) plugin_methods" where
  mm_start: "mm_history P [] (new_manager installed snapshots rc)"
| mm_more: "mm_history P D m \<Longrightarrow> mm_step P m r m' \<Longrightarrow> mm_history P (r @ D) m'"

inductive mm_reachable :: "('cb, 'ag, 'p) plugin_methods \<Rightarrow> ('cb, 'ag, 'p) mod_manager \<Rightarrow> bool"
  for P :: "('cb, 'ag, 'p) plugin_methods" where
  mm_init: "mm_reachable P (new_manager installed snapshots rc)"
| mm_next: "mm_reachable P m \<Longrightarrow> mm_step P m r m' \<Longrightarrow> mm_reachable P m'"

lemma reachable_history: "mm_reachable P m \<Longrightarrow> \<exists>D. mm_history P D m"
  by (induction rule: mm_reachable.induct) (auto intro: mm_start mm_more)

lemma history_reachable: "mm_history P D m \<Longrightarrow> mm_reachable P m"
  by (induction rule: mm_history.induct) (auto intro: mm_init mm_next)

lemma dget_empty_points: "dget (map (\<lambda>hp. (hp, [])) ps) hp [] = []"
  by (induction ps) (simp_all add: dget_def)

lemma ok_new: "manager_ok D (new_manager installed snapshots rc)"
  by (simp add: new_manager_def manager_ok_def hooks_owned_def comp_def dget_empty_points)

lemma hooks_owned_more: "hooks_owned D m \<Longrightarrow> hooks_owned (r @ D) m"
proof -
  assume ok: "hooks_owned D m"
  have "mset (registered_at hp D) \<subseteq># mset (registered_at hp (r @ D))" for hp by (simp add: registered_at_def)
  then have "mset (dget (mm_hooks m) hp []) \<subseteq># mset (map snd (dget (mm_hook_owners m) hp [])) + mset (registered_at hp (r @ D))" for hp
    using ok unfolding hooks_owned_def by (meson subset_mset.add_left_mono subset_mset.order_trans)
  then show ?thesis using ok by (simp add: hooks_owned_def)
qed

lemma hooks_owned_register: "hooks_owned D m \<Longrightarrow> hooks_owned ((hp, cb) # D) (snd (register_hook hp cb m))"
proof (cases "hp \<in> set (dkeys (mm_hooks m))")
  case True
  assume ok: "hooks_owned D m"
  have "dkeys (dappend hp cb (mm_hooks m)) = HOOK_POINTS"
    using True ok by (simp_all only: dkeys_dappend hooks_owned_def if_True)
  moreover have "mset (dget (mm_hooks m) h []) \<subseteq># mset (map snd (dget (mm_hook_owners m) h [])) + mset (registered_at h ([(hp, cb)] @ D))" for h
    using hooks_owned_more [OF ok, of "[(hp, cb)]"] unfolding hooks_owned_def by blast
  ultimately show ?thesis using True ok by (auto simp: register_hook_def hooks_owned_def registered_at_def)
next
  case False
  then show "hooks_owned D m \<Longrightarrow> hooks_owned ((hp, cb) # D) (snd (register_hook hp cb m))"
    using hooks_owned_more [of D m "[(hp, cb)]"] by (simp add: register_hook_def)
qed

lemma ok_register: "manager_ok D m \<Longrightarrow> manager_ok ((hp, cb) # D) (snd (register_hook hp cb m))"
  using hooks_owned_register [of D m hp cb] by (auto simp: manager_ok_def register_hook_def split: if_splits)

lemma ok_unregister: "manager_ok D m \<Longrightarrow> manager_ok D (unregister_hook hp cb m)"
  using ok_context_call [of D m pid "UnregisterHook hp cb"] by simp

lemma ok_step: "mm_step P m r m' \<Longrightarrow> manager_ok D m \<Longrightarrow> manager_ok (r @ D) m'"
proof (induction rule: mm_step.induct)
  case (validate m mf)
  then show ?case using ok_validate by fastforce
qed (auto simp: ok_modules ok_discover ok_load ok_enable ok_disable ok_unload ok_reload ok_update_config ok_restore
      ok_run_script ok_register ok_unregister save_snapshot_def Let_def delete_snapshot_def register_agent_def unregister_agent_def
      subscribe_event_def)

lemma ok_history: "mm_history P D m \<Longrightarrow> manager_ok D m"
  by (induction rule: mm_history.induct) (auto simp: ok_new intro: ok_step)

lemma ok_reachable:
  assumes "mm_reachable P m"
  obtains D where "manager_ok D m"
  using reachable_history [OF assms] ok_history by blast

text \<open>
  C10: The lifecycle of the plugins stays consistent however the operations are interleaved, whatever the plugins'
  code does and however it fails: in every reachable manager there is one record per plugin, a plugin that is
  loaded, enabled or disabled has an instance and no error, one that is discovered or unloaded has none, one in
  the error state has an error, an instance exists exactly when its module does, and the hook points are the eight of
  the pipeline.  Every callback at a hook point is accounted for, as often as it occurs, by an entry of the owner table
  or by a registration that was made on the manager itself instead of a plugin's context.
\<close>

theorem plugin_lifecycle_consistent:
  assumes "mm_history P D m"
  shows "distinct (dkeys (mm_plugins m)) \<and> dkeys (mm_hooks m) = HOOK_POINTS \<and>
    (\<forall>hp. mset (dget (mm_hooks m) hp [])
            \<subseteq># mset (map snd (dget (mm_hook_owners m) hp [])) + mset (map snd (filter (\<lambda>(h, _). h = hp) D))) \<and>
    (\<forall>pid r. map_of (mm_plugins m) pid = Some r \<longrightarrow>
       (pr_state r \<in> {LOADED, ENABLED, DISABLED} \<longrightarrow> pr_instance r \<noteq> None \<and> pr_error r = None) \<and>
       (pr_state r \<in> {DISCOVERED, UNLOADED} \<longrightarrow> pr_instance r = None) \<and>
       (pr_state r = ERROR \<longrightarrow> pr_error r \<noteq> None) \<and> (pr_instance r = None \<longleftrightarrow> pr_module r = None))"
  using ok_history [OF assms] unfolding manager_ok_def well_keyed_def hooks_owned_def record_ok_def registered_at_def by blast

section \<open>Disabling a plugin\<close>

lemma remove_hooks_at_gets:
  "dget (mm_hook_owners (remove_hooks_at pid hp m)) hp' [] =
     (if hp' = hp then filter (\<lambda>(p, _). p \<noteq> pid) (dget (mm_hook_owners m) hp' []) else dget (mm_hook_owners m) hp' [])"
  by (simp add: remove_hooks_at_def Let_def)

lemma fold_remove_hooks_gets:
  "dget (mm_hook_owners (fold (remove_hooks_at pid) hps m)) hp [] =
     (if hp \<in> set hps then filter (\<lambda>(p, _). p \<noteq> pid) (dget (mm_hook_owners m) hp []) else dget (mm_hook_owners m) hp [])"
  by (induction hps arbitrary: m) (auto simp: remove_hooks_at_gets)

lemma remove_plugin_hooks_owners:
  assumes "hooks_owned D m"
  shows "dget (mm_hook_owners (remove_plugin_hooks pid m)) hp [] = filter (\<lambda>(p, _). p \<noteq> pid) (dget (mm_hook_owners m) hp [])"
proof (cases "hp \<in> set HOOK_POINTS")
  case True
  then show ?thesis unfolding remove_plugin_hooks_def fold_remove_hooks_gets by simp
next
  case False
  then have "hp \<notin> set (dkeys (mm_hook_owners m))" using assms unfolding hooks_owned_def by simp
  then have "dget (mm_hook_owners m) hp [] = []" unfolding dget_def by (metis map_of_eq_None_keys option.simps(4))
  then show ?thesis using False unfolding remove_plugin_hooks_def fold_remove_hooks_gets by simp
qed

lemma disable_state:
  "state_of (snd (disable P pid m)) q = (if q = pid \<and> on m pid then Some DISABLED else state_of m q)"
proof (cases "on m pid")
  case False
  then show ?thesis by (auto simp: disable_def state_of_def split: option.splits)
next
  case True
  then obtain r where r: "map_of (mm_plugins m) pid = Some r" "pr_state r = ENABLED" by (auto simp: state_of_def)
  show ?thesis
  proof (cases "pr_instance r")
    case None
    then show ?thesis using r by (simp add: disable_def state_of_def)
  next
    case (Some p)
    obtain res p' m' where rs: "run_script (emit_event P) pid (deactivate P p) m = (res, p', m')" by (rule prod_cases3)
    show ?thesis using Some r rs run_script_plugins [OF rs] by (simp add: disable_def state_of_def)
  qed
qed

lemma disable_manifests [mm_frame, simp]: "manifests (snd (disable P pid m)) = manifests m"
proof (cases "\<exists>r p. map_of (mm_plugins m) pid = Some r \<and> pr_instance r = Some p")
  case False
  then show ?thesis by (auto simp: disable_def fun_eq_iff manifests_def split: option.splits)
next
  case True
  then obtain r p where r: "map_of (mm_plugins m) pid = Some r" "pr_instance r = Some p" by blast
  obtain res p' m' where rs: "run_script (emit_event P) pid (deactivate P p) m = (res, p', m')" by (rule prod_cases3)
  show ?thesis using r rs run_script_plugins [OF rs] by (auto simp: disable_def fun_eq_iff manifests_def)
qed

lemma disable_owners:
  assumes "manager_ok D m" "on m pid"
  shows "(q, cb) \<in> set (dget (mm_hook_owners (snd (disable P pid m))) hp []) \<Longrightarrow> q \<noteq> pid"
proof -
  obtain r where r: "map_of (mm_plugins m) pid = Some r" "pr_state r = ENABLED" using assms(2) by (auto simp: state_of_def)
  then have "record_ok r" using assms(1) by (auto simp: manager_ok_def)
  then obtain p where p: "pr_instance r = Some p" using r(2) by (auto simp: record_ok_def)
  obtain res p' m' where rs: "run_script (emit_event P) pid (deactivate P p) m = (res, p', m')" by (rule prod_cases3)
  have "hooks_owned D (update_record pid (\<lambda>r. r\<lparr>pr_instance := Some p'\<rparr>) m')"
    using ok_run_script(1) [OF assms(1), of P pid "deactivate P p"] rs by (simp add: manager_ok_def hooks_owned_def)
  then show "(q, cb) \<in> set (dget (mm_hook_owners (snd (disable P pid m))) hp []) \<Longrightarrow> q \<noteq> pid"
    using r p rs by (auto simp: disable_def remove_plugin_hooks_owners)
qed

lemma filter_other_owner: "\<forall>cb. (pid, cb) \<notin> set os \<Longrightarrow> filter (\<lambda>(p, _). p \<noteq> pid) os = os"
  by (auto simp: filter_id_conv)

text \<open>
  C16: Disabling an enabled plugin detaches it from the pipeline even when its \<^verbatim>\<open>deactivate\<close> raises or registers
  more hooks: the call succeeds, the plugin is disabled and no other plugin changes its state, no owner entry of
  it is left, and every callback that still runs at a hook point is accounted for, as often as it runs, by an owner entry of
  another plugin or by a registration that was made on the manager itself.
\<close>

theorem disable_detaches:
  assumes "mm_history P D m" "state_of m pid = Some ENABLED" "disable P pid m = (b, m')"
  shows "b \<and> (\<forall>q. state_of m' q = (if q = pid then Some DISABLED else state_of m q)) \<and>
    (\<forall>hp cb. (pid, cb) \<notin> set (dget (mm_hook_owners m') hp [])) \<and>
    (\<forall>hp. mset (dget (mm_hooks m') hp [])
            \<subseteq># mset (map snd (filter (\<lambda>(q, _). q \<noteq> pid) (dget (mm_hook_owners m') hp [])))
               + mset (map snd (filter (\<lambda>(h, _). h = hp) D)))"
proof -
  have ok: "manager_ok D m" using assms(1) by (rule ok_history)
  have m': "m' = snd (disable P pid m)" using assms(3) by simp
  have b: b using assms(2,3) by (auto simp: disable_def state_of_def split: option.splits)
  have gone: "\<forall>hp cb. (pid, cb) \<notin> set (dget (mm_hook_owners m') hp [])"
    using disable_owners [OF ok assms(2), of pid _ P] unfolding m' by blast
  moreover have "hooks_owned D m'" using ok_disable [OF ok] unfolding m' manager_ok_def by blast
  ultimately have "mset (dget (mm_hooks m') hp [])
            \<subseteq># mset (map snd (filter (\<lambda>(q, _). q \<noteq> pid) (dget (mm_hook_owners m') hp []))) + mset (map snd (filter (\<lambda>(h, _). h = hp) D))" for hp
    using filter_other_owner [of pid "dget (mm_hook_owners m') hp []"] unfolding hooks_owned_def registered_at_def by simp
  then show ?thesis using b gone disable_state [of P pid m] assms(2) unfolding m' by simp
qed

section \<open>Restoring a snapshot\<close>

lemma disable_enabled_off: "\<not> on (disable_enabled P m) q"
proof -
  let ?f = "\<lambda>pid m. if on m pid then snd (disable P pid m) else m"
  have keep: "\<not> on (fold ?f pids m) q" if "\<not> on m q" for pids and m
    using that by (induction pids arbitrary: m) (auto simp: disable_state)
  have "\<not> on (fold ?f pids m) q" if "q \<in> set pids" for pids and m
    using that by (induction pids arbitrary: m) (auto simp: disable_state keep)
  moreover have "\<not> on m q" if "\<not> known m q" using that unfolding known_iff by (simp add: state_of_def)
  ultimately show ?thesis unfolding disable_enabled_def using keep by blast
qed

lemma track_state: "\<not> on m q \<Longrightarrow> \<not> on (track_discovered mf m) q"
  by (auto simp: track_discovered_def state_of_def split: if_splits)

lemma discover_dirs_state: "\<not> on m q \<Longrightarrow> \<not> on (snd (discover_dirs ds m)) q"
  by (induction ds m rule: discover_dirs.induct)
     (auto simp: case_prod_beta Let_def track_state split: option.splits manifest_text.splits)

lemma update_config_state: "state_of (snd (update_plugin_config P pid u m)) = state_of m"
  by (rule update_config_cases [of P pid u m]) (auto simp: state_of_def dest!: run_script_plugins)

lemma update_config_manifests: "manifests (snd (update_plugin_config P pid u m)) = manifests m"
  by (rule update_config_cases [of P pid u m]) (auto simp: fun_eq_iff manifests_def dest!: run_script_plugins)

lemma apply_configs_state: "state_of (snd (apply_configs P cs m)) = state_of m"
  by (induction cs arbitrary: m) (auto simp: case_prod_beta update_config_state split: sum.splits)

lemma apply_configs_manifests: "manifests (snd (apply_configs P cs m)) = manifests m"
  by (induction cs arbitrary: m) (auto simp: case_prod_beta update_config_manifests split: sum.splits)

lemma enable_snapshot_manifests: "manifests (snd (enable_snapshot n P ps m)) = manifests m"
  by (induction ps arbitrary: m) (auto simp: case_prod_beta split: sum.splits)

lemma enable_snapshot_only:
  "on (snd (enable_snapshot n P ps m)) q \<Longrightarrow> on m q \<or> (\<exists>p \<in> set ps. (p, q) \<in> (dep_rel m)\<^sup>*)"
proof (induction ps arbitrary: m)
  case (Cons p ps)
  let ?m = "snd (enable n P p (snd (load p m)))"
  have "dep_rel ?m = dep_rel m" "dep_rel (snd (load p m)) = dep_rel m" by (rule manifests_cong; simp)+
  then show ?case using Cons.prems Cons.IH [of m] Cons.IH [of ?m] en.en_only [of n P p "snd (load p m)" q]
    by (auto simp: case_prod_beta split: sum.splits if_splits)
qed simp

lemma restore_stages:
  assumes "map_of (mm_snapshots m) sid = Some (Some s)" "restore_snapshot n P sid m = (Inr b, m')"
  obtains m1 m2 m3 mfs where "discover (disable_enabled P m) = (Inr mfs, m1)"
    "apply_configs P (ws_plugin_configs s) m1 = (Inr (), m2)"
    "enable_snapshot n P (ws_enabled_plugins s) m2 = (Inr (), m3)" "b" "mm_plugins m' = mm_plugins m3"
  using assms by (auto simp: restore_snapshot_def split: prod.splits sum.splits if_splits)

text \<open>
  Library fact: Restoring a snapshot leaves nothing enabled that the snapshot does not ask for: after a restore that
  returns, whatever was enabled before, every enabled plugin is in the snapshot's list of enabled plugins or is
  a transitive dependency of one that is.
\<close>

theorem restore_enables_only_snapshot:
  assumes "map_of (mm_snapshots m) sid = Some (Some s)" "restore_snapshot depth P sid m = (Inr b, m')"
    and "state_of m' q = Some ENABLED"
  shows "b \<and> (\<exists>p \<in> set (ws_enabled_plugins s). (p, q) \<in> (dep_rel m')\<^sup>*)"
proof -
  obtain m1 m2 m3 mfs where st: "discover (disable_enabled P m) = (Inr mfs, m1)"
    "apply_configs P (ws_plugin_configs s) m1 = (Inr (), m2)"
    "enable_snapshot depth P (ws_enabled_plugins s) m2 = (Inr (), m3)" "b" "mm_plugins m' = mm_plugins m3"
    using restore_stages [OF assms(1,2)] .
  have "\<not> on m1 q" using discover_dirs_state [OF disable_enabled_off [of P m q], of "mm_installed (disable_enabled P m)"] st(1)
    by (simp add: discover_def)
  then have off: "\<not> on m2 q" using apply_configs_state [of P "ws_plugin_configs s" m1] st(2) by simp
  have "dep_rel m' = dep_rel m2" using enable_snapshot_manifests [of depth P "ws_enabled_plugins s" m2] st(3)
      manifests_plugins [OF st(5)] by (intro manifests_cong) simp
  then show ?thesis using off enable_snapshot_only [of depth P "ws_enabled_plugins s" m2 q] st(3,4) assms(3)
      state_of_cong [OF st(5)] by simp
qed

subsection \<open>A restore of well-behaved plugins\<close>

text \<open>The plugin's class can be instantiated, and a script ends by returning true whatever its calls answer.\<close>

definition loadable :: "('cb, 'ag, 'p) mod_manager \<Rightarrow> string \<Rightarrow> bool" where
  "loadable m pid =
     (case manifests m pid of
        None \<Rightarrow> False
      | Some mf \<Rightarrow> (case entry_file pid (pm_entry_point mf) m of
                      Some (Classes cs) \<Rightarrow> (case map_of cs (pm_class_name mf) of Some (Inr p) \<Rightarrow> True | _ \<Rightarrow> False)
                    | _ \<Rightarrow> False))"

primrec well_behaved :: "('cb, 'ag, 'p) script \<Rightarrow> bool" where
  "well_behaved (Return b p) = b"
| "well_behaved (Raise e p) = False"
| "well_behaved (Call c k) = (well_behaved (k True) \<and> well_behaved (k False))"

definition has_instance :: "('cb, 'ag, 'p) mod_manager \<Rightarrow> string \<Rightarrow> bool" where
  "has_instance m pid = (Option.bind (map_of (mm_plugins m) pid) pr_instance \<noteq> None)"

lemma well_behaved_returns: "well_behaved s \<Longrightarrow> fst (run_script (emit_event P) pid s m) = Inr True"
proof (induction s arbitrary: m)
  case (Call c k)
  then show ?case by (cases "fst (do_context_call (emit_event P) pid c m)") (auto simp: case_prod_beta)
qed simp_all

lemma loadable_cong:
  "manifests m' = manifests m \<Longrightarrow> (\<And>p e. entry_file p e m' = entry_file p e m) \<Longrightarrow> loadable m' pid = loadable m pid"
  by (simp add: loadable_def cong: option.case_cong)

lemma entry_file_installed: "mm_installed m' = mm_installed m \<Longrightarrow> entry_file p e m' = entry_file p e m"
  by (simp add: entry_file_def)

lemma load_installed [mm_frame, simp]: "mm_installed (snd (load pid m)) = mm_installed m"
  by (auto simp: load_def Let_def split: option.splits plugin_module.splits sum.splits)

lemma load_works:
  assumes "loadable m pid" "\<not> on m pid"
  shows "fst (load pid m) \<and> has_instance (snd (load pid m)) pid"
proof -
  obtain r where "map_of (mm_plugins m) pid = Some r" using assms(1) by (auto simp: loadable_def manifests_def split: option.splits)
  then show ?thesis using assms
    by (auto simp: loadable_def manifests_def load_def has_instance_def state_of_def Let_def
        split: option.splits plugin_module.splits sum.splits)
qed

lemma load_instance: "has_instance m q \<Longrightarrow> has_instance (snd (load pid m)) q"
  by (rule load_cases [of pid m]) (auto simp: has_instance_def bind_eq_Some_conv)

lemma activate_installed [mm_frame, simp]: "mm_installed (snd (activate_plugin P pid m)) = mm_installed m"
proof (cases "Option.bind (map_of (mm_plugins m) pid) pr_instance")
  case None
  then show ?thesis by (simp add: activate_plugin_def Let_def)
next
  case (Some p)
  obtain res p' m2 where rs: "run_script (emit_event P) pid (activate P p) (m\<lparr>mm_data_dirs := List.insert pid (mm_data_dirs m)\<rparr>) = (res, p', m2)"
    by (rule prod_cases3)
  have "mm_installed m2 = mm_installed m"
    using run_script_frame(2) [of P pid "activate P p" "m\<lparr>mm_data_dirs := List.insert pid (mm_data_dirs m)\<rparr>"] rs by simp
  then show ?thesis using Some rs by (simp add: activate_plugin_def split: sum.splits bool.splits)
qed

lemma activate_instance: "has_instance m q \<Longrightarrow> has_instance (snd (activate_plugin P pid m)) q"
  by (rule activate_cases [of P pid m]) (auto simp: has_instance_def bind_eq_Some_conv)

lemma activate_works:
  assumes "has_instance m pid" "\<And>p. well_behaved (activate P p)"
  shows "fst (activate_plugin P pid m)"
proof -
  obtain p where p: "Option.bind (map_of (mm_plugins m) pid) pr_instance = Some p" using assms(1) by (auto simp: has_instance_def)
  have "fst (run_script (emit_event P) pid (activate P p) (m\<lparr>mm_data_dirs := List.insert pid (mm_data_dirs m)\<rparr>)) = Inr True"
    using assms(2) by (rule well_behaved_returns)
  then show ?thesis using p by (simp add: activate_plugin_def Let_def case_prod_beta)
qed

lemma enable_frame:
  fixes m :: "('cb, 'ag, 'p) mod_manager"
  shows "mm_installed (snd (enable n P pid m)) = mm_installed m \<and> (has_instance m q \<longrightarrow> has_instance (snd (enable n P pid m)) q)"
proof (induction n arbitrary: pid m)
  case (Suc n)
  let ?ok = "\<lambda>m m'. mm_installed m' = mm_installed m \<and> (has_instance m q \<longrightarrow> has_instance m' q)"
  have deps: "?ok m (snd (enable_dependencies (enable n P) ds m))" for ds and m :: "('cb, 'ag, 'p) mod_manager"
  proof (induction ds arbitrary: m)
    case (Cons d ds)
    then show ?case using Suc.IH [of d m] by (auto simp: case_prod_beta split: option.splits sum.splits)
  qed simp
  have prep: "?ok m (snd (prepare_plugin pid m))"
    by (simp add: prepare_plugin_def load_instance)
  have act: "?ok m (snd (activate_plugin P pid m))" for m :: "('cb, 'ag, 'p) mod_manager"
    by (simp add: activate_instance)
  have err: "?ok m (update_record pid (set_error e) m)" for e and m :: "('cb, 'ag, 'p) mod_manager"
    by (auto simp: has_instance_def bind_eq_Some_conv)
  show ?case
  proof (rule enable_cases [of n P pid m])
    fix e m1 m2
    assume "enable (Suc n) P pid m = (Inl e, m2)" "prepare_plugin pid m = (True, m1)"
      "enable_dependencies (enable n P) (dependencies_of m pid) m1 = (Inl e, m2)"
    then show ?thesis using prep deps [of "dependencies_of m pid" m1] by (simp del: enable.simps)
  next
    fix d m1 m2
    assume "enable (Suc n) P pid m = (Inr False, update_record pid (set_error (DependencyFailed d)) m2)"
      "prepare_plugin pid m = (True, m1)"
      "enable_dependencies (enable n P) (dependencies_of m pid) m1 = (Inr (Some d), m2)"
    then show ?thesis using prep deps [of "dependencies_of m pid" m1] err [of "DependencyFailed d" m2] by (simp del: enable.simps)
  next
    fix b m1 m2 m3
    assume "enable (Suc n) P pid m = (Inr b, m3)" "prepare_plugin pid m = (True, m1)"
      "enable_dependencies (enable n P) (dependencies_of m pid) m1 = (Inr None, m2)" "activate_plugin P pid m2 = (b, m3)"
    then show ?thesis using prep deps [of "dependencies_of m pid" m1] act [of m2] by (simp del: enable.simps)
  qed (use prep in \<open>auto simp del: enable.simps\<close>)
qed simp

lemma deps_instance: "has_instance m q \<Longrightarrow> has_instance (snd (enable_dependencies (enable n P) ds m)) q"
proof (induction ds arbitrary: m)
  case (Cons d ds)
  then show ?case using enable_frame [of n P d m q] by (auto simp: case_prod_beta split: option.splits sum.splits)
qed simp

lemma prepare_works:
  assumes "manager_ok D m" "loadable m pid" "\<not> on m pid"
  shows "fst (prepare_plugin pid m) \<and> has_instance (snd (prepare_plugin pid m)) pid"
proof (cases "state_of m pid \<in> {Some LOADED, Some DISABLED}")
  case True
  then obtain r where r: "map_of (mm_plugins m) pid = Some r" "pr_state r \<in> {LOADED, DISABLED}" by (auto simp: state_of_def)
  then have "record_ok r" using assms(1) by (auto simp: manager_ok_def)
  then show ?thesis using True r by (auto simp: prepare_plugin_def has_instance_def record_ok_def)
next
  case False
  then show ?thesis using load_works [OF assms(2,3)] by (auto simp: prepare_plugin_def)
qed

lemma enable_dependencies_works:
  fixes m m1 :: "('cb, 'ag, 'p) mod_manager"
  assumes "\<And>d m'. d \<in> set ds \<Longrightarrow> manager_ok D m' \<Longrightarrow> manifests m' = manifests m \<Longrightarrow> mm_installed m' = mm_installed m \<Longrightarrow>
      known m d \<Longrightarrow> fst (enable n P d m') = Inr True"
    and "manager_ok D m1" "manifests m1 = manifests m" "mm_installed m1 = mm_installed m"
  shows "fst (enable_dependencies (enable n P) ds m1) = Inr None"
  using assms
proof (induction ds arbitrary: m1)
  case (Cons d ds)
  show ?case
  proof (cases "map_of (mm_plugins m1) d")
    case None
    then show ?thesis using Cons.IH [of m1] Cons.prems by simp
  next
    case (Some r)
    have "known m1 d" using Some unfolding known_iff by simp
    then have "known m d" using manifests_cong(3) [OF Cons.prems(3)] by blast
    then have "fst (enable n P d m1) = Inr True" using Cons.prems by simp
    then obtain m' where en: "enable n P d m1 = (Inr True, m')" by (cases "enable n P d m1") auto
    have "manifests m' = manifests m" "manager_ok D m'" "mm_installed m' = mm_installed m"
      using en.en_manifests [of n P d m1] ok_enable [of D m1 n P d] enable_frame [of n P d m1] en Cons.prems by simp_all
    then show ?thesis using Cons.IH [of m1] Cons.IH [of m'] Cons.prems Some en by simp
  qed
qed simp

lemma enable_works:
  fixes m m1 :: "('cb, 'ag, 'p) mod_manager"
  assumes rank: "\<And>p d. (p, d) \<in> known_deps m \<Longrightarrow> r d < r p" and load: "\<And>p. known m p \<Longrightarrow> loadable m p"
    and good: "\<And>p. well_behaved (activate P p)"
  shows "r pid < n \<Longrightarrow> known m pid \<Longrightarrow> manager_ok D m1 \<Longrightarrow> manifests m1 = manifests m \<Longrightarrow>
     mm_installed m1 = mm_installed m \<Longrightarrow> fst (enable n P pid m1) = Inr True"
proof (induction n arbitrary: pid m1)
  case (Suc n)
  have kn: "known m1 pid" using Suc.prems(2) manifests_cong(3) [OF Suc.prems(4)] by blast
  have ld: "loadable m1 pid" using load [OF Suc.prems(2)] loadable_cong [OF Suc.prems(4) entry_file_installed [OF Suc.prems(5)]] by simp
  have deps: "fst (enable_dependencies (enable n P) (dependencies_of m1 pid) m2) = Inr None"
    if m2: "prepare_plugin pid m1 = (True, m2)" for m2
  proof (rule enable_dependencies_works [where m = m and D = D])
    show "manifests m2 = manifests m" using prepare_manifests [of pid m1] m2 Suc.prems(4) by simp
    show "mm_installed m2 = mm_installed m" using m2 Suc.prems(5)
      by (auto simp: prepare_plugin_def split: if_splits dest!: arg_cong [where f = snd] sym [of "load _ _"])
    show "manager_ok D m2" using ok_load [OF Suc.prems(3), of pid] m2 Suc.prems(3) by (auto simp: prepare_plugin_def split: if_splits)
    fix d and m' :: "('cb, 'ag, 'p) mod_manager"
    assume d: "d \<in> set (dependencies_of m1 pid)" "manager_ok D m'" "manifests m' = manifests m"
      "mm_installed m' = mm_installed m" "known m d"
    have "(pid, d) \<in> known_deps m"
      using d(1,5) Suc.prems(2) manifests_cong(1) [OF Suc.prems(4)] by (simp add: known_deps_def)
    then have "r d < n" using rank Suc.prems(1) by fastforce
    then show "fst (enable n P d m') = Inr True" using Suc.IH d by simp
  qed
  show ?case
  proof (rule enable_cases [of n P pid m1])
    fix m2 assume "prepare_plugin pid m1 = (False, m2)" "\<not> on m1 pid"
    then show ?thesis using prepare_works [OF Suc.prems(3) ld] by simp
  next
    fix b m2 m3 m4
    assume *: "prepare_plugin pid m1 = (True, m2)" "\<not> on m1 pid" "activate_plugin P pid m3 = (b, m4)"
      "enable_dependencies (enable n P) (dependencies_of m1 pid) m2 = (Inr None, m3)" "enable (Suc n) P pid m1 = (Inr b, m4)"
    have "has_instance m2 pid" using prepare_works [OF Suc.prems(3) ld *(2)] *(1) by simp
    then have "has_instance m3 pid" using *(4) deps_instance [of m2 pid n P "dependencies_of m1 pid"] by simp
    then have b using activate_works [of m3 pid P] good *(3) by simp
    then show ?thesis using *(5) by (simp del: enable.simps)
  qed (use kn deps in \<open>auto simp del: enable.simps\<close>)
qed simp

lemma track_manifests:
  assumes "manifests m' = manifests m"
  shows "manifests (track_discovered mf m') = manifests (track_discovered mf m)"
proof (cases "known m (pm_plugin_id mf)")
  case True
  then show ?thesis using assms manifests_cong(3) [OF assms] by (simp add: track_discovered_def del: set_map)
next
  case False
  have "map_option pr_manifest (map_of (mm_plugins m') q) = map_option pr_manifest (map_of (mm_plugins m) q)" for q
    using assms by (simp add: fun_eq_iff manifests_def)
  then show ?thesis using False manifests_cong(3) [OF assms, of "pm_plugin_id mf"]
    by (simp add: track_discovered_def fun_eq_iff manifests_def del: set_map)
qed

lemma discover_dirs_manifests:
  "manifests m' = manifests m \<Longrightarrow>
     fst (discover_dirs ds m') = fst (discover_dirs ds m) \<and> manifests (snd (discover_dirs ds m')) = manifests (snd (discover_dirs ds m))"
proof (induction ds arbitrary: m m')
  case (Cons nd ds)
  obtain name d where nd: "nd = (name, d)" by (cases nd)
  show ?case
  proof (cases "\<exists>f mf. pd_is_dir d \<and> pd_manifest d = Some (ManifestObject f) \<and> manifest_of_fields f = Some mf")
    case True
    then obtain f mf where f: "pd_is_dir d" "pd_manifest d = Some (ManifestObject f)" "manifest_of_fields f = Some mf" by blast
    show ?thesis using Cons.IH [OF track_manifests [OF Cons.prems, of mf]] f nd by (simp add: case_prod_beta)
  next
    case False
    then show ?thesis using Cons.IH [OF Cons.prems] Cons.prems nd by (auto split: option.splits manifest_text.splits)
  qed
qed simp

lemma disable_installed [mm_frame, simp]: "mm_installed (snd (disable P pid m)) = mm_installed m"
proof (cases "\<exists>r p. map_of (mm_plugins m) pid = Some r \<and> pr_instance r = Some p")
  case False
  then show ?thesis by (auto simp: disable_def split: option.splits)
next
  case True
  then obtain r p where r: "map_of (mm_plugins m) pid = Some r" "pr_instance r = Some p" by blast
  show ?thesis using r run_script_frame(2) [of P pid "deactivate P p" m] by (simp add: disable_def Let_def case_prod_beta)
qed

lemma disable_enabled_frame:
  "mm_installed (disable_enabled P m) = mm_installed m \<and> manifests (disable_enabled P m) = manifests m"
proof -
  let ?f = "\<lambda>pid m. if on m pid then snd (disable P pid m) else m"
  have "mm_installed (fold ?f pids m) = mm_installed m \<and> manifests (fold ?f pids m) = manifests m" for pids
    by (induction pids arbitrary: m) simp_all
  then show ?thesis by (simp add: disable_enabled_def)
qed

lemma discover_dirs_installed: "mm_installed (snd (discover_dirs ds m)) = mm_installed m"
  by (induction ds m rule: discover_dirs.induct)
     (auto simp: case_prod_beta Let_def track_discovered_def split: option.splits manifest_text.splits)

definition has_dir :: "('cb, 'ag, 'p) mod_manager \<Rightarrow> string \<Rightarrow> bool" where
  "has_dir m pid = (case map_of (mm_installed m) pid of None \<Rightarrow> False | Some d \<Rightarrow> pd_is_dir d)"

lemma update_config_files:
  "entry_file p e (snd (update_plugin_config P pid u m)) = entry_file p e m \<and>
   has_dir (snd (update_plugin_config P pid u m)) q = has_dir m q"
proof (rule update_config_cases [of P pid u m])
  fix d c r p' p'' res m2
  assume *: "update_plugin_config P pid u m = (Inr True, update_record pid (\<lambda>r. r\<lparr>pr_instance := Some p'\<rparr>) m2)"
    "map_of (mm_installed m) pid = Some d" "pd_is_dir d"
    "run_script (emit_event P) pid (on_config_change P p'' c)
       (m\<lparr>mm_installed := dset pid (d\<lparr>pd_config := Some (Some c)\<rparr>) (mm_installed m)\<rparr>) = (res, p', m2)"
  have "mm_installed m2 = dset pid (d\<lparr>pd_config := Some (Some c)\<rparr>) (mm_installed m)"
    using run_script_frame(2) [of P pid "on_config_change P p'' c"
      "m\<lparr>mm_installed := dset pid (d\<lparr>pd_config := Some (Some c)\<rparr>) (mm_installed m)\<rparr>"] *(4) by simp
  then show ?thesis using * by (simp add: entry_file_def has_dir_def)
qed (simp_all add: entry_file_def has_dir_def)

lemma apply_configs_works:
  assumes "\<And>p c. (p, c) \<in> set cs \<Longrightarrow> c \<noteq> [] \<Longrightarrow> has_dir m p"
  shows "fst (apply_configs P cs m) = Inr () \<and> (\<forall>p e. entry_file p e (snd (apply_configs P cs m)) = entry_file p e m)"
  using assms
proof (induction cs arbitrary: m)
  case (Cons pc cs)
  obtain p c where pc: "pc = (p, c)" by (cases pc)
  show ?case
  proof (cases "c = []")
    case True
    then show ?thesis using Cons pc by simp
  next
    case False
    then have "has_dir m p" using Cons.prems [of p c] pc by simp
    then have "fst (update_plugin_config P p c m) = Inr True"
      by (auto simp: has_dir_def update_plugin_config_def Let_def case_prod_beta split: option.splits)
    then obtain m' where up: "update_plugin_config P p c m = (Inr True, m')" by (cases "update_plugin_config P p c m") auto
    have "has_dir m' q = has_dir m q" "entry_file q e m' = entry_file q e m" for q e
      using update_config_files [of q e P p c m q] up by simp_all
    moreover have "has_dir m' x" if "(x, y) \<in> set cs" "y \<noteq> []" for x y
      using Cons.prems [of x y] that calculation(1) by simp
    ultimately show ?thesis using Cons.IH [of m'] pc False up by simp
  qed
qed simp

lemma enable_snapshot_works:
  fixes m m1 :: "('cb, 'ag, 'p) mod_manager"
  assumes "\<And>p m'. known m p \<Longrightarrow> manager_ok D m' \<Longrightarrow> manifests m' = manifests m \<Longrightarrow> mm_installed m' = mm_installed m \<Longrightarrow>
      fst (enable n P p m') = Inr True"
    and "manager_ok D m1" "manifests m1 = manifests m" "mm_installed m1 = mm_installed m" "dependencies_on m1"
  shows "fst (enable_snapshot n P ps m1) = Inr () \<and> dependencies_on (snd (enable_snapshot n P ps m1)) \<and>
    (\<forall>q. on m1 q \<longrightarrow> on (snd (enable_snapshot n P ps m1)) q) \<and>
    (\<forall>p \<in> set ps. known m p \<longrightarrow> on (snd (enable_snapshot n P ps m1)) p)"
  using assms(2-5)
proof (induction ps arbitrary: m1)
  case (Cons p ps)
  have kn: "known m1 p \<longleftrightarrow> known m p" by (rule manifests_cong(3) [OF Cons.prems(2)])
  show ?case
  proof (cases "known m p")
    case False
    then show ?thesis using Cons.IH [OF Cons.prems] kn by (simp only: enable_snapshot.simps) auto
  next
    case True
    let ?l = "snd (load p m1)"
    have l: "manager_ok D ?l" "manifests ?l = manifests m" "mm_installed ?l = mm_installed m"
      using ok_load [OF Cons.prems(1)] Cons.prems by simp_all
    have ld: "dependencies_on ?l" using dependencies_on_cong [of ?l m1] Cons.prems(4) by simp
    obtain m' where en: "enable n P p ?l = (Inr True, m')"
      using assms(1) [OF True l] by (cases "enable n P p ?l") auto
    have m': "manager_ok D m'" "manifests m' = manifests m" "mm_installed m' = mm_installed m" "dependencies_on m'" "on m' p"
      using ok_enable [OF l(1), of n P p] en.en_manifests [of n P p ?l] enable_frame [of n P p ?l] en.en_closed [of n P p ?l]
        en.en_true [of n P p ?l] l ld en by simp_all
    have keep: "on m' q" if "on m1 q" for q using en.en_keeps [of ?l q n P p] en that by simp
    have step: "enable_snapshot n P (p # ps) m1 = enable_snapshot n P ps m'"
      using True kn en by (simp only: enable_snapshot.simps) simp
    show ?thesis unfolding step using Cons.IH [OF m'(1-4)] keep m'(5) by auto
  qed
qed simp

lemma dep_rel_known:
  assumes "(p, q) \<in> (dep_rel m)\<^sup>*" "known m q"
  shows "known m p \<and> (p, q) \<in> (known_deps m)\<^sup>*"
  using assms(1)
proof (induction rule: converse_rtrancl_induct)
  case (step p d)
  then have d: "d \<in> set (dependencies_of m p)" by (simp add: dep_rel_def)
  then have "manifests m p \<noteq> None" by (cases "manifests m p") (simp_all add: dependencies_of_def)
  then have "known m p" unfolding known_manifests .
  then have "(p, d) \<in> known_deps m" using d step.IH by (simp add: known_deps_def)
  then show ?case using \<open>known m p\<close> step.IH by (auto intro: converse_rtrancl_into_rtrancl)
qed (use assms(2) in auto)

lemma closure_on:
  assumes "(p, q) \<in> (known_deps m)\<^sup>*" "dependencies_on m" "on m p"
  shows "on m q"
  using assms(1,3) by (induction rule: rtrancl_induct) (use assms(2) in \<open>auto simp: dependencies_on_def known_deps_def\<close>)

text \<open>
  After the discovery: the dependencies are acyclic and the stack deep enough, every known plugin can be
  instantiated and activates, and the configurations to write have a directory.
\<close>

definition restorable :: "nat \<Rightarrow> ('cb, 'ag, 'p) plugin_methods \<Rightarrow> WeightStateSnapshot \<Rightarrow> ('cb, 'ag, 'p) mod_manager \<Rightarrow> bool" where
  "restorable depth P s md \<longleftrightarrow>
     acyclic (known_deps md) \<and> length (mm_plugins md) < depth \<and> (\<forall>p \<in> set (dkeys (mm_plugins md)). loadable md p) \<and>
     (\<forall>p. well_behaved (activate P p)) \<and> (\<forall>(p, c) \<in> set (ws_plugin_configs s). c \<noteq> [] \<longrightarrow> has_dir md p)"

lemma restore_exact:
  fixes m :: "('cb, 'ag, 'p) mod_manager"
  assumes ok: "manager_ok D m" and s: "map_of (mm_snapshots m) sid = Some (Some s)"
    and disc: "discover m = (Inr mfs, md)" and good: "restorable depth P s md"
  shows "\<exists>m'. restore_snapshot depth P sid m = (Inr True, m') \<and>
    (\<forall>q. on m' q \<longleftrightarrow> (\<exists>p \<in> set (ws_enabled_plugins s). known md p \<and> (p, q) \<in> (known_deps md)\<^sup>*))"
proof -
  let ?d = "disable_enabled P m" and ?m1 = "snd (discover (disable_enabled P m))"
  have fr: "mm_installed ?d = mm_installed m" "manifests ?d = manifests m" using disable_enabled_frame by blast+
  have d1: "fst (discover ?d) = Inr mfs" "manifests ?m1 = manifests md"
    using discover_dirs_manifests [OF fr(2), of "mm_installed m"] disc by (simp_all add: discover_def fr(1))
  have i1: "mm_installed ?m1 = mm_installed md"
    using disc discover_dirs_installed [of "mm_installed m" ?d] discover_dirs_installed [of "mm_installed m" m] fr(1)
    by (simp add: discover_def)
  have ok1: "manager_ok D ?m1" by (intro ok_discover ok_disable_enabled ok)
  have off1: "\<not> on ?m1 q" for q unfolding discover_def by (intro discover_dirs_state disable_enabled_off)
  let ?m2 = "snd (apply_configs P (ws_plugin_configs s) ?m1)"
  have "has_dir ?m1 p" if "(p, c) \<in> set (ws_plugin_configs s)" "c \<noteq> []" for p c
    using good that i1 by (auto simp: restorable_def has_dir_def)
  then have a: "fst (apply_configs P (ws_plugin_configs s) ?m1) = Inr ()" "\<And>p e. entry_file p e ?m2 = entry_file p e ?m1"
    using apply_configs_works [of "ws_plugin_configs s" ?m1 P] by auto
  have m2: "manifests ?m2 = manifests md" "manager_ok D ?m2" using d1 ok1 by (simp_all add: apply_configs_manifests ok_apply_configs)
  have off2: "\<not> on ?m2 q" for q using off1 [of q] by (simp add: apply_configs_state)
  have kd: "known_deps ?m2 = known_deps md" by (rule known_deps_cong) (rule m2(1))
  have kn: "known ?m2 p \<longleftrightarrow> known md p" for p by (rule manifests_cong(3) [OF m2(1)])
  have load: "loadable ?m2 p" if "known ?m2 p" for p
  proof -
    have "loadable md p" using good that kn [of p] unfolding restorable_def by blast
    moreover have "entry_file p e ?m2 = entry_file p e md" for p e using a(2) entry_file_installed [OF i1] by simp
    ultimately show ?thesis using loadable_cong [OF m2(1)] by simp
  qed
  have rank: "depth_below md d < depth_below md p" if "(p, d) \<in> known_deps ?m2" for p d
    using depth_below_less [of md p d] good that kd by (simp add: restorable_def)
  have works: "fst (enable depth P p m') = Inr True"
    if "known ?m2 p" "manager_ok D m'" "manifests m' = manifests ?m2" "mm_installed m' = mm_installed ?m2" for p m'
    using enable_works [of ?m2 "depth_below md" P p depth D m', OF rank load] good that depth_below_bound [of md p]
    by (auto simp: restorable_def)
  let ?e = "enable_snapshot depth P (ws_enabled_plugins s) ?m2"
  have dep2: "dependencies_on ?m2" unfolding dependencies_on_def using off2 by blast
  have e: "fst ?e = Inr ()" "dependencies_on (snd ?e)" "\<forall>p \<in> set (ws_enabled_plugins s). known ?m2 p \<longrightarrow> on (snd ?e) p"
    using enable_snapshot_works [of ?m2 D depth P ?m2 "ws_enabled_plugins s", OF works m2(2) refl refl dep2] by blast+
  have e3: "manifests (snd ?e) = manifests md" using m2(1) by (simp add: enable_snapshot_manifests)
  obtain m' where m': "restore_snapshot depth P sid m = (Inr True, m')" "mm_plugins m' = mm_plugins (snd ?e)"
    using s d1(1) a(1) e(1) by (simp add: restore_snapshot_def case_prod_beta)
  have "on (snd ?e) q \<longleftrightarrow> (\<exists>p \<in> set (ws_enabled_plugins s). known md p \<and> (p, q) \<in> (known_deps md)\<^sup>*)" for q
  proof
    assume q: "on (snd ?e) q"
    obtain p where p: "p \<in> set (ws_enabled_plugins s)" "(p, q) \<in> (dep_rel ?m2)\<^sup>*"
      using enable_snapshot_only [OF q] off2 by blast
    have "known (snd ?e) q" using q unfolding known_iff by (auto simp: state_of_def)
    then have "known ?m2 q" using manifests_cong(3) [OF e3] kn by simp
    from dep_rel_known [OF p(2) this] show "\<exists>p \<in> set (ws_enabled_plugins s). known md p \<and> (p, q) \<in> (known_deps md)\<^sup>*"
      using p(1) kn kd by auto
  next
    assume "\<exists>p \<in> set (ws_enabled_plugins s). known md p \<and> (p, q) \<in> (known_deps md)\<^sup>*"
    then obtain p where p: "p \<in> set (ws_enabled_plugins s)" "known md p" "(p, q) \<in> (known_deps md)\<^sup>*" by blast
    have "on (snd ?e) p" using e(3) p(1,2) kn by blast
    moreover have "(p, q) \<in> (known_deps (snd ?e))\<^sup>*" using p(3) known_deps_cong [OF e3] by simp
    ultimately show "on (snd ?e) q" using closure_on e(2) by blast
  qed
  then show ?thesis using m' state_of_cong [OF m'(2)] by auto
qed

lemma plugins_in_on: "well_keyed (mm_plugins m) \<Longrightarrow> set (plugins_in S m) = {q. \<exists>st \<in> S. state_of m q = Some st}"
  by (force simp: plugins_in_def well_keyed_def state_of_def dest: map_of_SomeD)


section \<open>Validation, configuration and reload\<close>

lemma filter_map_empty: "map f (filter P xs) = [] \<longleftrightarrow> (\<forall>x \<in> set xs. \<not> P x)"
  by (simp add: filter_empty_conv)

text \<open>
  Library fact: A manifest is accepted exactly when its six required fields are there, its category and its permissions are
  known, the running version is between its bounds, its dependencies are discovered and its directory, if it is
  there, has the entry point; accepting it sets the state of the plugin to validated, whatever it was, refusing
  it changes nothing.
\<close>

theorem validation_exact:
  assumes "validate mf m = ((accepted, errors), m')"
  shows "(accepted \<longleftrightarrow>
      pm_plugin_id mf \<noteq> [] \<and> pm_name mf \<noteq> [] \<and> pm_version mf \<noteq> [] \<and> pm_category mf \<noteq> [] \<and>
      pm_entry_point mf \<noteq> [] \<and> pm_class_name mf \<noteq> [] \<and> pm_category mf \<in> set valid_categories \<and>
      (pm_maestro_version_min mf = [] \<or> \<not> tuple_less (version_tuple MAESTRO_VERSION) (version_tuple (pm_maestro_version_min mf))) \<and>
      (case pm_maestro_version_max mf of None \<Rightarrow> True
         | Some v \<Rightarrow> v = [] \<or> \<not> tuple_less (version_tuple v) (version_tuple MAESTRO_VERSION)) \<and>
      (\<forall>d \<in> set (pm_dependencies mf). d \<in> set (dkeys (mm_plugins m))) \<and>
      (pm_plugin_id mf \<in> set (dkeys (mm_installed m)) \<longrightarrow> entry_file (pm_plugin_id mf) (pm_entry_point mf) m \<noteq> None) \<and>
      set (pm_permissions mf) \<subseteq> set known_permissions) \<and>
    (errors = [] \<longleftrightarrow> accepted) \<and>
    (\<forall>q. state_of m' q = (if accepted \<and> q = pm_plugin_id mf \<and> q \<in> set (dkeys (mm_plugins m)) then Some VALIDATED
                          else state_of m q))"
proof -
  have acc: "accepted \<longleftrightarrow> validation_errors mf m = []" "errors = validation_errors mf m"
    using assms by (auto simp: validate_def Let_def)
  have st: "state_of m' q = (if accepted \<and> q = pm_plugin_id mf \<and> known m q then Some VALIDATED else state_of m q)" for q
    using assms unfolding known_iff by (auto simp: validate_def Let_def state_of_def)
  show ?thesis unfolding acc(2) st
    by (intro conjI allI refl, unfold acc(1) validation_errors_def append_is_Nil_conv filter_map_empty)
       (auto simp: required_fields_def split: option.splits)
qed

text \<open>
  Library fact: Updating a plugin's configuration merges: the new entries override the old ones under their keys and every
  other entry stays, the configurations of the other plugins stay too, and a plugin without a directory raises
  without changing anything.
\<close>

theorem config_update_merges:
  assumes "update_plugin_config P pid u m = (res, m')"
  shows "(res = Inr True \<and> map_of (get_plugin_config m' pid) = map_of (get_plugin_config m pid) ++ map_of (rev u) \<and>
      (\<forall>q. q \<noteq> pid \<longrightarrow> get_plugin_config m' q = get_plugin_config m q)) \<or>
    (res = Inl (NoSuchDirectory pid) \<and> \<not> has_dir m pid \<and> m' = m)"
proof (cases "has_dir m pid")
  case False
  then show ?thesis using assms
    by (auto simp: update_plugin_config_def has_dir_def Let_def split: option.splits)
next
  case True
  define c where "c = fold (\<lambda>(k, v). dset k v) u (get_plugin_config m pid)"
  obtain d where d: "map_of (mm_installed m) pid = Some d" "pd_is_dir d" using True by (auto simp: has_dir_def split: option.splits)
  let ?i = "dset pid (d\<lparr>pd_config := Some (Some c)\<rparr>) (mm_installed m)"
  have "mm_installed m' = ?i \<and> res = Inr True" using assms d run_script_frame(2) [of P pid _ "m\<lparr>mm_installed := ?i\<rparr>"]
    unfolding update_plugin_config_def c_def [symmetric] Let_def
    by (auto simp: case_prod_beta split: option.splits if_splits)
  then show ?thesis using map_of_fold_dset [of u "get_plugin_config m pid"] by (simp add: get_plugin_config_def [of m'] get_plugin_config_def [of m, symmetric] c_def)
qed

lemma track_known: "known m q \<Longrightarrow> manifests (track_discovered mf m) q = manifests m q \<and> known (track_discovered mf m) q"
  unfolding track_discovered_def known_iff by (auto simp: manifests_def)

lemma discover_dirs_known: "known m q \<Longrightarrow> manifests (snd (discover_dirs ds m)) q = manifests m q"
proof (induction ds arbitrary: m)
  case (Cons nd ds)
  obtain name d where nd: "nd = (name, d)" by (cases nd)
  show ?case using Cons.IH [of m] Cons.IH [of "track_discovered mf m" for mf] Cons.prems track_known [OF Cons.prems]
    unfolding nd by (simp add: case_prod_beta del: set_map split: option.splits manifest_text.splits)
qed simp

lemma manifests_mono_update: "(\<And>r. pr_manifest (f r) = pr_manifest r) \<Longrightarrow> manifests m1 = manifests m \<Longrightarrow>
    manifests (update_record pid f (mm_modules_update g m1)) = manifests m"
  using manifests_update_record [of f pid "mm_modules_update g m1"] manifests_plugins [of "mm_modules_update g m1" m1] by simp

lemma unload_manifests [mm_frame, simp]: "manifests (snd (unload P pid m)) = manifests m"
  by (auto simp: unload_def Let_def intro!: manifests_mono_update split: option.splits)

text \<open>Reloading a known plugin keeps the manifest of its first discovery, whatever its file says now.\<close>

theorem reload_keeps_manifest: "known m pid \<Longrightarrow> manifests (snd (plugin_reload depth P pid m)) pid = manifests m pid"
proof -
  assume kn: "known m pid"
  have "known (snd (unload P pid m)) pid" using kn unfolding known_manifests by simp
  then have "manifests (snd (discover (snd (unload P pid m)))) pid = manifests m pid"
    using discover_dirs_known [of pid "snd (unload P pid m)"] by (simp add: discover_def)
  then show ?thesis by (auto simp: plugin_reload_def Let_def case_prod_beta split: sum.splits)
qed

text \<open>
  Library fact: The difference of two snapshots is exact: the added plugins are those enabled in the second and not in the
  first, the removed ones the other way round, both sorted and without repetitions, a plugin is listed with a
  changed configuration exactly when the two differ as dictionaries, and two equal snapshots show no difference.
\<close>

theorem diff_exact:
  assumes "load_snapshot m ida = Some a" "load_snapshot m idb = Some b" "diff_snapshots ida idb m = Some d"
  shows "set (sd_plugins_added d) = set (ws_enabled_plugins b) - set (ws_enabled_plugins a) \<and>
    set (sd_plugins_removed d) = set (ws_enabled_plugins a) - set (ws_enabled_plugins b) \<and>
    sorted (sd_plugins_added d) \<and> distinct (sd_plugins_added d) \<and>
    sorted (sd_plugins_removed d) \<and> distinct (sd_plugins_removed d) \<and>
    (\<forall>pid. pid \<in> fst ` set (sd_config_changes d) \<longleftrightarrow>
       \<not> config_eq (dget (ws_plugin_configs a) pid []) (dget (ws_plugin_configs b) pid [])) \<and>
    (a = b \<longrightarrow> sd_plugins_added d = [] \<and> sd_plugins_removed d = [] \<and> sd_config_changes d = [])"
proof -
  have d: "sd_plugins_added d = sorted_diff (ws_enabled_plugins b) (ws_enabled_plugins a)"
    "sd_plugins_removed d = sorted_diff (ws_enabled_plugins a) (ws_enabled_plugins b)"
    "sd_config_changes d = map (\<lambda>pid. (pid, dget (ws_plugin_configs a) pid [], dget (ws_plugin_configs b) pid []))
       (filter (\<lambda>pid. \<not> config_eq (dget (ws_plugin_configs a) pid []) (dget (ws_plugin_configs b) pid []))
          (remdups (dkeys (ws_plugin_configs a) @ dkeys (ws_plugin_configs b))))"
    using assms by (auto simp: diff_snapshots_def)
  have sd: "set (sorted_diff xs ys) = set xs - set ys" "sorted (sorted_diff xs ys)" "distinct (sorted_diff xs ys)"
    "sorted_diff xs xs = []" for xs ys
    by (auto simp: sorted_diff_def)
  have "dget c pid [] = []" if "pid \<notin> set (dkeys c)" for pid and c :: "(string, config) dict"
    using that unfolding dget_def by (metis map_of_eq_None_keys option.simps(4))
  then have "pid \<in> set (dkeys (ws_plugin_configs a) @ dkeys (ws_plugin_configs b))"
    if "\<not> config_eq (dget (ws_plugin_configs a) pid []) (dget (ws_plugin_configs b) pid [])" for pid
    using that by (cases "pid \<in> set (dkeys (ws_plugin_configs a))"; cases "pid \<in> set (dkeys (ws_plugin_configs b))")
      (auto simp: config_eq_def simp del: set_map)
  moreover have img: "fst ` set (map (\<lambda>x. (x, g x)) xs) = set xs" for g :: "string \<Rightarrow> config \<times> config" and xs
    by force
  ultimately have "pid \<in> fst ` set (sd_config_changes d) \<longleftrightarrow>
      \<not> config_eq (dget (ws_plugin_configs a) pid []) (dget (ws_plugin_configs b) pid [])" for pid
    unfolding d(3) img by (auto simp del: set_map)
  then show ?thesis unfolding d(1,2) using sd d(3) by (auto simp: config_eq_def)
qed

section \<open>Witnesses\<close>

definition demo_fields :: "string \<Rightarrow> string list \<Rightarrow> manifest_fields" where
  "demo_fields pid deps =
     \<lparr>mf_plugin_id = Some pid, mf_name = Some pid, mf_version = Some ''1.0'', mf_category = Some ''hook'',
      mf_description = Some [], mf_author = Some [], mf_entry_point = Some ''main'', mf_class_name = Some ''Plugin'',
      mf_dependencies = Some deps, mf_maestro_version_min = None, mf_maestro_version_max = None,
      mf_config_schema = None, mf_permissions = None, mf_tags = None, mf_metadata = None\<rparr>"

definition demo_dir :: "string \<Rightarrow> string list \<Rightarrow> unit plugin_dir" where
  "demo_dir pid deps =
     \<lparr>pd_is_dir = True, pd_manifest = Some (ManifestObject (demo_fields pid deps)),
      pd_files = [(''main.py'', Classes [(''Plugin'', Inr ())])], pd_config = Some (Some [(''k'', JInt 1)])\<rparr>"

definition demo_methods :: "bool \<Rightarrow> (nat, unit, unit) plugin_methods" where
  "demo_methods b =
     \<lparr>activate = (\<lambda>_. Call (RegisterHook ''pre_aggregation'' 7) (\<lambda>_. Return b ())),
      deactivate = (\<lambda>_. Raise ''busy'' ()), on_config_change = (\<lambda>_ _. Return True ()), health_check = (\<lambda>_. Inl ''down''),
      on_event = (\<lambda>_ _. (''app'', Return True ())), emission_limit = 9\<rparr>"

definition demo_new :: "(nat, unit, unit) mod_manager" where
  "demo_new = new_manager [(''app'', demo_dir ''app'' [''base'']), (''base'', demo_dir ''base'' [])] [] None"

definition demo_found :: "(nat, unit, unit) mod_manager" where
  "demo_found = snd (discover demo_new)"

definition demo_on :: "(nat, unit, unit) mod_manager" where
  "demo_on = snd (enable 3 (demo_methods True) ''app'' demo_found)"

lemma demo_found_dom: "map_of (mm_plugins demo_found) p =
    (if p \<in> {''app'', ''base''} then
       Some \<lparr>pr_manifest = the (manifest_of_fields (demo_fields p (if p = ''app'' then [''base''] else []))),
             pr_state = DISCOVERED, pr_instance = None, pr_module = None, pr_error = None\<rparr> else None)"
  by (simp add: demo_found_def demo_new_def discover_def new_manager_def demo_dir_def demo_fields_def manifest_of_fields_def
      track_discovered_def)

lemma demo_deps: "known_deps demo_found \<subseteq> {(''app'', ''base'')}"
  by (auto simp: known_deps_def dependencies_of_def manifests_def demo_found_dom manifest_of_fields_def demo_fields_def
      split: if_splits)

lemma demo_acyclic: "acyclic (known_deps demo_found)"
  by (rule acyclic_subset [OF _ demo_deps]) (auto simp: acyclic_insert intro: wf_acyclic)

lemma demo_length: "length (mm_plugins demo_found) = 2"
  by code_simp


lemma demo_reach: "mm_reachable (demo_methods True) demo_on" "mm_reachable (demo_methods True) demo_found"
  unfolding demo_on_def demo_found_def demo_new_def
  by (intro mm_next [OF _ mm_step.enable] mm_next [OF _ mm_step.discover] mm_init)+

lemma demo_states: "state_of demo_on ''app'' = Some ENABLED" "state_of demo_on ''base'' = Some ENABLED"
  "dget (mm_hooks demo_on) ''pre_aggregation'' [] = [7, 7]"
  by code_simp+

lemma demo_enabled: "fst (enable 3 (demo_methods True) ''app'' demo_found) = Inr True"
  by code_simp

lemma demo_dependencies_on: "dependencies_on demo_found"
  by (auto simp: dependencies_on_def state_of_def demo_found_dom split: if_splits)

lemma enable_brings_dependencies_witness:
  "state_of demo_on ''app'' = Some ENABLED \<and> dependencies_on demo_on \<and> state_of demo_found ''base'' \<noteq> Some ENABLED \<and>
   state_of demo_on ''base'' = Some ENABLED"
  using enable_brings_dependencies [of 3 "demo_methods True" "''app''" demo_found demo_on] demo_enabled
    demo_dependencies_on demo_states
  by (simp add: demo_on_def prod_eq_iff state_of_def [of demo_found] demo_found_dom del: enable.simps)

text \<open>The host program registers a hook of its own beside those of the plugins.\<close>

definition demo_hooked :: "(nat, unit, unit) mod_manager" where
  "demo_hooked = snd (register_hook ''pre_aggregation'' 5 demo_on)"

lemma demo_history: "mm_history (demo_methods True) [(''pre_aggregation'', 5)] demo_hooked"
proof -
  have "mm_history (demo_methods True) ([(''pre_aggregation'', 5)] @ [] @ [] @ []) demo_hooked"
    unfolding demo_hooked_def demo_on_def demo_found_def demo_new_def
    by (intro mm_more [OF _ mm_step.add_hook] mm_more [OF _ mm_step.enable] mm_more [OF _ mm_step.discover] mm_start)
  then show ?thesis by simp
qed

lemma demo_hooked_states: "state_of demo_hooked ''app'' = Some ENABLED" "dget (mm_hooks demo_hooked) ''pre_aggregation'' [] = [7, 7, 5]"
  by code_simp+

lemma plugin_lifecycle_consistent_witness:
  "dkeys (mm_hooks demo_hooked) = HOOK_POINTS
     \<and> {#7, 7, 5#} \<subseteq># mset (map snd (dget (mm_hook_owners demo_hooked) ''pre_aggregation'' [])) + {#5#}"
proof -
  have "dkeys (mm_hooks demo_hooked) = HOOK_POINTS"
    "mset (dget (mm_hooks demo_hooked) ''pre_aggregation'' [])
       \<subseteq># mset (map snd (dget (mm_hook_owners demo_hooked) ''pre_aggregation'' []))
          + mset (map snd (filter (\<lambda>(h, _). h = ''pre_aggregation'') [(''pre_aggregation'', 5)]))"
    using plugin_lifecycle_consistent [OF demo_history] by blast+
  then show ?thesis unfolding demo_hooked_states(2) by simp
qed

lemma disable_detaches_witness:
  "state_of (snd (disable (demo_methods True) ''app'' demo_hooked)) ''app'' = Some DISABLED \<and>
   (\<forall>cb. (''app'', cb) \<notin> set (dget (mm_hook_owners (snd (disable (demo_methods True) ''app'' demo_hooked))) ''pre_aggregation'' [])) \<and>
   dget (mm_hooks (snd (disable (demo_methods True) ''app'' demo_hooked))) ''pre_aggregation'' [] = [7, 5]"
proof -
  have "dget (mm_hooks (snd (disable (demo_methods True) ''app'' demo_hooked))) ''pre_aggregation'' [] = [7, 5]" by code_simp
  then show ?thesis
    using disable_detaches [OF demo_history demo_hooked_states(1), of "fst (disable (demo_methods True) ''app'' demo_hooked)"
      "snd (disable (demo_methods True) ''app'' demo_hooked)"] by simp
qed

definition demo_cycle :: "(nat, unit, unit) mod_manager" where
  "demo_cycle = snd (load ''b'' (snd (load ''a'' (snd (discover
     (new_manager [(''a'', demo_dir ''a'' [''b'']), (''b'', demo_dir ''b'' [''a''])] [] None))))))"

lemma dependency_cycle_never_enables_witness: "enable 900 (demo_methods True) ''a'' demo_cycle = (Inl RecursionTooDeep, demo_cycle)"
proof (rule dependency_cycle_never_enables [of "{''a'', ''b''}"])
  have "state_of demo_cycle ''a'' = Some LOADED" "state_of demo_cycle ''b'' = Some LOADED"
    "dependencies_of demo_cycle ''a'' = [''b'']" "dependencies_of demo_cycle ''b'' = [''a'']" by code_simp+
  then show "\<forall>p \<in> {''a'', ''b''}. state_of demo_cycle p \<in> {Some LOADED, Some DISABLED} \<and>
      (case dependencies_of demo_cycle p of [] \<Rightarrow> False | d # ds \<Rightarrow> d \<in> {''a'', ''b''})" by simp
qed simp

definition demo_saved :: "WeightStateSnapshot \<times> (nat, unit, unit) mod_manager" where
  "demo_saved = save_snapshot ''0123456789abcdef'' ''t0'' ''both'' [] demo_on"

definition demo_later :: "(nat, unit, unit) mod_manager" where
  "demo_later = snd (disable (demo_methods True) ''app'' (snd demo_saved))"

lemma demo_later_reach: "mm_reachable (demo_methods True) demo_later"
  unfolding demo_later_def demo_saved_def
  by (intro mm_next [OF _ mm_step.disable] mm_next [OF _ mm_step.save] demo_reach)

lemma demo_later_files:
  "map_of (mm_snapshots demo_later) ''snap-0123456789ab'' = Some (Some (fst demo_saved))"
  "isl (fst (discover demo_later)) = False" "mm_plugins (snd (discover demo_later)) = mm_plugins demo_later"
  "length (mm_plugins demo_later) = 2" "dkeys (mm_plugins demo_later) = [''app'', ''base'']"
  "ws_enabled_plugins (fst demo_saved) = [''app'', ''base'']"
  "ws_plugin_configs (fst demo_saved) = [(''app'', [(''k'', JInt 1)]), (''base'', [(''k'', JInt 1)])]"
  "has_dir (snd (discover demo_later)) ''app''" "has_dir (snd (discover demo_later)) ''base''"
  "loadable (snd (discover demo_later)) ''app''" "loadable (snd (discover demo_later)) ''base''"
  by code_simp+

lemma demo_manifests: "manifests demo_on = manifests demo_found" "manifests demo_later = manifests demo_found"
  by (simp_all add: demo_on_def demo_later_def demo_saved_def save_snapshot_def Let_def manifests_def [of "mm_snapshots_update _ _"]
      manifests_def [symmetric] fun_eq_iff del: enable.simps)

lemma demo_closed: "dependencies_on demo_on"
  using en.en_closed [of 3 "demo_methods True" "''app''" demo_found] demo_enabled demo_dependencies_on by (simp add: demo_on_def)


lemma restore_enables_only_snapshot_witness:
  "\<exists>p \<in> {''app'', ''base''}. (p, ''base'') \<in> (dep_rel (snd (restore_snapshot 3 (demo_methods True) ''snap-0123456789ab'' demo_later)))\<^sup>*"
proof -
  let ?r = "restore_snapshot 3 (demo_methods True) ''snap-0123456789ab'' demo_later"
  have "isl (fst ?r) = False" "state_of (snd ?r) ''base'' = Some ENABLED" by code_simp+
  then obtain b where "?r = (Inr b, snd ?r)" "state_of (snd ?r) ''base'' = Some ENABLED" by (cases ?r; cases "fst ?r") auto
  then show ?thesis using restore_enables_only_snapshot [OF demo_later_files(1), of 3 "demo_methods True" b "snd ?r" "''base''"]
    by (simp add: demo_later_files(6))
qed

definition demo_manifest :: PluginManifest where
  "demo_manifest = the (manifest_of_fields (demo_fields ''app'' [''base'', ''ghost'']))\<lparr>pm_maestro_version_max := Some ''7.4''\<rparr>"

lemma validation_exact_witness:
  "\<exists>errors m'. validate demo_manifest demo_on = ((False, errors), m') \<and> errors \<noteq> [] \<and> state_of m' ''app'' = Some ENABLED"
proof -
  obtain acc errors m' where v: "validate demo_manifest demo_on = ((acc, errors), m')" by (cases "validate demo_manifest demo_on") auto
  have "acc = False" using arg_cong [OF v, of "\<lambda>x. fst (fst x)"]
    by (subgoal_tac "fst (fst (validate demo_manifest demo_on)) = False") (simp, code_simp)
  then show ?thesis using validation_exact [OF v] v demo_states(1) by auto
qed

lemma config_update_merges_witness:
  "map_of (get_plugin_config (snd (update_plugin_config (demo_methods True) ''app'' [(''n'', JNull)] demo_on)) ''app'') ''k'' = Some (JInt 1)"
proof -
  have "has_dir demo_on ''app''" "map_of (get_plugin_config demo_on ''app'') ''k'' = Some (JInt 1)" by code_simp+
  moreover have "(res, m') = update_plugin_config (demo_methods True) ''app'' [(''n'', JNull)] demo_on \<Longrightarrow>
      has_dir demo_on ''app'' \<Longrightarrow> map_of (get_plugin_config m' ''app'') = map_of (get_plugin_config demo_on ''app'') ++ [''n'' \<mapsto> JNull]" for res m'
    using config_update_merges [of "demo_methods True" "''app''" "[(''n'', JNull)]" demo_on res m'] by (auto simp: fun_upd_def)
  ultimately show ?thesis by (cases "update_plugin_config (demo_methods True) ''app'' [(''n'', JNull)] demo_on") (simp add: map_add_def)
qed

lemma diff_exact_witness:
  "sd_plugins_added (the (diff_snapshots ''x'' ''x'' (demo_on\<lparr>mm_snapshots := [(''x'', Some (fst demo_saved))]\<rparr>))) = []"
  using diff_exact [of "demo_on\<lparr>mm_snapshots := [(''x'', Some (fst demo_saved))]\<rparr>" "''x''" "fst demo_saved" "''x''" "fst demo_saved"]
  by (simp add: load_snapshot_def diff_snapshots_def)

section \<open>Behaviours worth knowing\<close>

text \<open>A plugin whose \<^verbatim>\<open>activate\<close> fails after registering a hook is in the error state and its hook keeps running.\<close>

theorem failed_activation_keeps_hooks:
  "fst (enable 3 (demo_methods False) ''base'' demo_found) = Inr False \<and>
   state_of (snd (enable 3 (demo_methods False) ''base'' demo_found)) ''base'' = Some ERROR \<and>
   dget (mm_hooks (snd (enable 3 (demo_methods False) ''base'' demo_found))) ''pre_aggregation'' [] = [7]"
  by code_simp

text \<open>Validating an enabled plugin takes it out of the enabled state without deactivating it, and enabling it again
  registers its hooks a second time.\<close>

theorem validating_enabled_plugin_doubles_hooks:
  "let m = snd (validate (the (manifests demo_on ''app'')) demo_on) in
     state_of m ''app'' = Some VALIDATED \<and>
     dget (mm_hooks (snd (enable 3 (demo_methods True) ''app'' m))) ''pre_aggregation'' [] = [7, 7, 7]"
  by code_simp

text \<open>A maximal version of \<^verbatim>\<open>7.4\<close> refuses the running 7.4.0, and a malformed one refuses every version.\<close>

theorem short_version_bound_refuses_running:
  "tuple_less (version_tuple ''7.4'') (version_tuple MAESTRO_VERSION) \<and> version_tuple ''7.x'' = [0, 0, 0]"
  by code_simp

text \<open>Disabling a plugin leaves those that depend on it enabled.\<close>

theorem disable_ignores_dependents:
  "state_of (snd (disable (demo_methods True) ''base'' demo_on)) ''base'' = Some DISABLED \<and>
   state_of (snd (disable (demo_methods True) ''base'' demo_on)) ''app'' = Some ENABLED \<and>
   ''base'' \<in> set (dependencies_of demo_on ''app'')"
  by code_simp

text \<open>Restoring a snapshot after the directory of one of its plugins has gone raises with everything disabled.\<close>

theorem restore_raises_after_uninstall:
  "fst (restore_snapshot 3 (demo_methods True) ''snap-0123456789ab''
      (snd demo_saved\<lparr>mm_installed := [(''app'', demo_dir ''app'' [''base''])]\<rparr>)) = Inl (NoSuchDirectory ''base'') \<and>
   list_all (\<lambda>l. pl_state l = ''disabled'') (list_plugins (snd (restore_snapshot 3 (demo_methods True) ''snap-0123456789ab''
      (snd demo_saved\<lparr>mm_installed := [(''app'', demo_dir ''app'' [''base''])]\<rparr>))))"
  by code_simp

end
