(* ===== verification/Whirlpool.thy ===== *)
theory Whirlpool
  imports Py_Codec
begin

text \<open>
  \<^verbatim>\<open>maestro/whirlpool/types.py\<close>, \<^verbatim>\<open>adapter.py\<close>, \<^verbatim>\<open>ingest.py\<close>, \<^verbatim>\<open>factory.py\<close> and the ingest cycle of
  \<^verbatim>\<open>whirlpool.py\<close>: the adapters that turn feeds into items and keep the statistics of their cycle, and the
  whirlpool that drives them.  An adapter's generator is run to its end, as the whirlpool does, so it is the list
  of its items and the state after.  The HTTP client, the XML parser, SHA-256 (as hex digits) and the clock, whose
  readings are numbered, are parameters; an XML document is its element tree.  The vortex, the tag filter, the
  deduplication and the queries are not implemented in the source.
\<close>

section \<open>Data\<close>

datatype RingId = PERIPHERY | OUTER | MID | INNER | CORE

record feed_provenance =
  fp_source_id :: string
  fp_source_url :: string
  fp_fetched_at :: string
  fp_publisher_signature :: "string option"
  fp_publisher_age_days :: int

record VortexItem =
  wi_item_id :: string
  wi_whirlpool_id :: string
  wi_claim_summary :: string
  wi_body_excerpt :: string
  wi_domain_tags :: "string list"
  wi_provenance :: "feed_provenance list"
  wi_ring :: RingId
  wi_corroborators :: int
  wi_entered_at :: string
  wi_last_moved_at :: string
  wi_expires_at :: string
  wi_trust :: real
  wi_embedding :: "real list option"

datatype IngestFailureReason =
  NETWORK_ERROR | HTTP_ERROR | PARSE_ERROR | SIGNATURE_INVALID | TIMEOUT | RATE_LIMITED | REFUSED_BY_POLICY | OTHER

record IngestFailure =
  if_source_id :: string
  if_reason :: IngestFailureReason
  if_detail :: string

record CycleStats =
  cs_started_at :: string
  cs_completed_at :: "string option"
  cs_items_yielded :: nat
  cs_per_source_counts :: "(string, nat) dict"
  cs_failures :: "IngestFailure list"

definition empty_stats :: CycleStats where
  "empty_stats = \<lparr>cs_started_at = [], cs_completed_at = None, cs_items_yielded = 0, cs_per_source_counts = [], cs_failures = []\<rparr>"

record HttpRssAdapterConfig =
  hc_feed_urls :: "string list"
  hc_require_feed_signature :: bool
  hc_max_items_per_feed :: int

record IngestPolicy =
  ip_whirlpool_id :: string
  ip_domain_tags :: "string list"
  ip_poll_interval_seconds :: int
  ip_max_items_per_cycle :: int
  ip_per_source_partition_cap :: real
  ip_http_rss :: "HttpRssAdapterConfig list"

section \<open>URLs\<close>

text \<open>
  The scheme and the host of \<^verbatim>\<open>urlparse\<close>: leading spaces and control characters and all tabs and line ends are
  dropped, the scheme is a letter followed by letters, digits and three signs before the first colon, the host is
  the authority without user and port; both in lower case.  A host in brackets is kept with its brackets off.
\<close>

definition is_alpha :: "char \<Rightarrow> bool" where
  "is_alpha c = (let n = (of_char c :: nat) in (65 \<le> n \<and> n \<le> 90) \<or> (97 \<le> n \<and> n \<le> 122))"

definition clean_url :: "string \<Rightarrow> string" where
  "clean_url u = filter (\<lambda>c. (of_char c :: nat) \<notin> {9, 10, 13}) (dropWhile (\<lambda>c. (of_char c :: nat) \<le> 32) u)"

definition split_scheme :: "string \<Rightarrow> string \<times> string" where
  "split_scheme u =
     (let s = takeWhile (\<lambda>c. c \<noteq> CHR '':'') u; rest = drop (length s) u
      in if rest \<noteq> [] \<and> s \<noteq> [] \<and> is_alpha (hd s) \<and>
            list_all (\<lambda>c. is_alpha c \<or> is_digit c \<or> c \<in> set ''+-.'') s
         then (py_lower s, tl rest) else ([], u))"

definition url_scheme :: "string \<Rightarrow> string" where
  "url_scheme u = fst (split_scheme (clean_url u))"

definition url_hostname :: "string \<Rightarrow> string option" where
  "url_hostname u =
     (let rest = snd (split_scheme (clean_url u));
          netloc = (if starts_with ''//'' rest then takeWhile (\<lambda>c. c \<notin> set ''/?#'') (drop 2 rest) else []);
          hostport = rev (takeWhile (\<lambda>c. c \<noteq> CHR ''@'') (rev netloc));
          host = (if starts_with ''['' hostport then takeWhile (\<lambda>c. c \<noteq> CHR '']'') (tl hostport)
                  else takeWhile (\<lambda>c. c \<noteq> CHR '':'') hostport)
      in if host = [] then None else Some (py_lower host))"

definition source_id_from_url :: "string \<Rightarrow> string" where
  "source_id_from_url u = (case url_hostname u of None \<Rightarrow> u | Some h \<Rightarrow> h)"

section \<open>Parsing a feed\<close>

datatype xml = Element (xml_tag: string) (xml_attrs: "(string \<times> string) list") (xml_text: "string option") (xml_children: "xml list")

definition ATOM_NS :: string where
  "ATOM_NS = ''http://www.w3.org/2005/Atom''"

definition atom :: "string \<Rightarrow> string" where
  "atom name = ''{'' @ ATOM_NS @ ''}'' @ name"

definition xml_findall :: "string \<Rightarrow> xml \<Rightarrow> xml list" where
  "xml_findall name e = filter (\<lambda>x. xml_tag x = name) (xml_children e)"

definition xml_find :: "string \<Rightarrow> xml \<Rightarrow> xml option" where
  "xml_find name e = List.find (\<lambda>x. xml_tag x = name) (xml_children e)"

text \<open>\<^verbatim>\<open>entry.findtext(name) or ""\<close>: an absent element, and one without text, is the empty string.\<close>

definition find_text :: "string \<Rightarrow> xml \<Rightarrow> string" where
  "find_text name e = (case xml_find name e of None \<Rightarrow> [] | Some x \<Rightarrow> or_else (xml_text x) [])"

text \<open>The first of some strings that is not empty: Python's \<^verbatim>\<open>a or b\<close>.\<close>

fun first_nonempty :: "string list \<Rightarrow> string" where
  "first_nonempty [] = []"
| "first_nonempty (s # ss) = (if s \<noteq> [] then s else first_nonempty ss)"

type_synonym feed_entry = "string \<times> string \<times> string"

definition rss_entry :: "xml \<Rightarrow> feed_entry" where
  "rss_entry e = (py_strip (find_text ''title'' e), py_strip (find_text ''description'' e), py_strip (find_text ''link'' e))"

definition atom_entry :: "xml \<Rightarrow> feed_entry" where
  "atom_entry e =
     (py_strip (first_nonempty [find_text (atom ''title'') e, find_text ''title'' e]),
      py_strip (first_nonempty [find_text (atom ''summary'') e, find_text (atom ''content'') e,
                                find_text ''summary'' e, find_text ''content'' e]),
      case (case xml_find (atom ''link'') e of None \<Rightarrow> xml_find ''link'' e | Some x \<Rightarrow> Some x) of
        None \<Rightarrow> [] | Some x \<Rightarrow> dget (xml_attrs x) ''href'' [])"

datatype feed_error = FeedParseError string | FeedOtherError string

definition entries_of_root :: "xml \<Rightarrow> feed_error + feed_entry list" where
  "entries_of_root doc =
     (if xml_tag doc = ''rss'' then
        (case xml_find ''channel'' doc of
           None \<Rightarrow> Inr []
         | Some channel \<Rightarrow> Inr (map rss_entry (xml_findall ''item'' channel)))
      else if xml_tag doc = ''feed'' \<or> xml_tag doc = atom ''feed'' then
        (let entries = (if xml_findall (atom ''entry'') doc \<noteq> [] then xml_findall (atom ''entry'') doc
                        else xml_findall ''entry'' doc)
         in Inr (map atom_entry entries))
      else Inl (FeedParseError (''unrecognized feed root element: '' @ xml_tag doc)))"

definition parse_feed :: "('b \<Rightarrow> feed_error + xml) \<Rightarrow> 'b \<Rightarrow> feed_error + feed_entry list" where
  "parse_feed fromstring content = bind_res (fromstring content) entries_of_root"

section \<open>The HTTP adapter\<close>

datatype http_exception = TimeoutException string | HTTPStatusError string | NetworkError string | OtherException string

fun classify_http_exception :: "http_exception \<Rightarrow> IngestFailureReason" where
  "classify_http_exception (TimeoutException d) = TIMEOUT"
| "classify_http_exception (HTTPStatusError d) = HTTP_ERROR"
| "classify_http_exception (NetworkError d) = NETWORK_ERROR"
| "classify_http_exception (OtherException d) = OTHER"

fun exception_detail :: "http_exception \<Rightarrow> string" where
  "exception_detail (TimeoutException d) = d"
| "exception_detail (HTTPStatusError d) = d"
| "exception_detail (NetworkError d) = d"
| "exception_detail (OtherException d) = d"

record 'b ingest_world =
  iw_fetch :: "string \<Rightarrow> http_exception + 'b"
  iw_fromstring :: "'b \<Rightarrow> feed_error + xml"
  iw_sha256 :: "bytes \<Rightarrow> string"
  iw_now :: "nat \<Rightarrow> string"

record HttpRssAdapter =
  ha_config :: HttpRssAdapterConfig
  ha_whirlpool_id :: string
  ha_stats :: CycleStats
  ha_clock :: nat

definition new_http_adapter :: "HttpRssAdapterConfig \<Rightarrow> string \<Rightarrow> HttpRssAdapter" where
  "new_http_adapter cfg wid = \<lparr>ha_config = cfg, ha_whirlpool_id = wid, ha_stats = empty_stats, ha_clock = 0\<rparr>"

definition item_id_of :: "(bytes \<Rightarrow> string) \<Rightarrow> string \<Rightarrow> string \<Rightarrow> string" where
  "item_id_of sha title body = ''sha256:'' @ sha (utf8_encode (title @ nl @ nl @ body))"

definition build_vortex_item :: "'b ingest_world \<Rightarrow> string \<Rightarrow> feed_entry \<Rightarrow> string \<Rightarrow> string \<Rightarrow> nat \<Rightarrow> VortexItem" where
  "build_vortex_item W wid entry source_id feed_url t =
     (case entry of (title, body, link) \<Rightarrow>
       \<lparr>wi_item_id = item_id_of (iw_sha256 W) title body, wi_whirlpool_id = wid,
        wi_claim_summary = (if title \<noteq> [] then title else take 200 body), wi_body_excerpt = take 1024 body,
        wi_domain_tags = [],
        wi_provenance = [\<lparr>fp_source_id = source_id, fp_source_url = (if link \<noteq> [] then link else feed_url),
                          fp_fetched_at = iw_now W t, fp_publisher_signature = None, fp_publisher_age_days = 0\<rparr>],
        wi_ring = PERIPHERY, wi_corroborators = 1, wi_entered_at = iw_now W (t + 1),
        wi_last_moved_at = iw_now W (t + 2), wi_expires_at = [], wi_trust = 0, wi_embedding = None\<rparr>)"

definition add_failure :: "IngestFailure \<Rightarrow> HttpRssAdapter \<Rightarrow> HttpRssAdapter" where
  "add_failure f a = a\<lparr>ha_stats := (ha_stats a)\<lparr>cs_failures := cs_failures (ha_stats a) @ [f]\<rparr>\<rparr>"

definition count_item :: "string \<Rightarrow> HttpRssAdapter \<Rightarrow> HttpRssAdapter" where
  "count_item source_id a =
     a\<lparr>ha_stats := (ha_stats a)\<lparr>cs_items_yielded := cs_items_yielded (ha_stats a) + 1,
         cs_per_source_counts := dcount source_id (cs_per_source_counts (ha_stats a))\<rparr>, ha_clock := ha_clock a + 3\<rparr>"

text \<open>\<^verbatim>\<open>entries[:n]\<close>, where a negative \<open>n\<close> drops from the end.\<close>

definition py_take :: "int \<Rightarrow> 'a list \<Rightarrow> 'a list" where
  "py_take n xs = (if 0 \<le> n then take (nat n) xs else take (length xs - nat (- n)) xs)"

fun yield_entries :: "'b ingest_world \<Rightarrow> string \<Rightarrow> string \<Rightarrow> feed_entry list \<Rightarrow> HttpRssAdapter \<Rightarrow> VortexItem list \<times> HttpRssAdapter" where
  "yield_entries W source_id url [] a = ([], a)"
| "yield_entries W source_id url (e # es) a =
     (let item = build_vortex_item W (ha_whirlpool_id a) e source_id url (ha_clock a);
          (items, a') = yield_entries W source_id url es (count_item source_id a)
      in (item # items, a'))"

definition fetch_one :: "'b ingest_world \<Rightarrow> string \<Rightarrow> HttpRssAdapter \<Rightarrow> VortexItem list \<times> HttpRssAdapter" where
  "fetch_one W url a =
     (let source_id = source_id_from_url url;
          counts = cs_per_source_counts (ha_stats a);
          a1 = a\<lparr>ha_stats := (ha_stats a)\<lparr>cs_per_source_counts :=
                 (if source_id \<in> set (dkeys counts) then counts else dset source_id 0 counts)\<rparr>\<rparr>;
          fail = (\<lambda>reason detail. ([], add_failure \<lparr>if_source_id = source_id, if_reason = reason, if_detail = detail\<rparr> a1))
      in if url_scheme url \<noteq> ''https'' then fail REFUSED_BY_POLICY (''non-HTTPS scheme: '' @ url_scheme url)
         else if hc_require_feed_signature (ha_config a)
         then fail SIGNATURE_INVALID ''require_feed_signature=True but verification not implemented''
         else case iw_fetch W url of
                Inl exc \<Rightarrow> fail (classify_http_exception exc) (exception_detail exc)
              | Inr content \<Rightarrow>
                  (case parse_feed (iw_fromstring W) content of
                     Inl (FeedParseError d) \<Rightarrow> fail PARSE_ERROR d
                   | Inl (FeedOtherError d) \<Rightarrow> fail OTHER d
                   | Inr entries \<Rightarrow> yield_entries W source_id url (py_take (hc_max_items_per_feed (ha_config a)) entries) a1))"

fun fetch_all :: "'b ingest_world \<Rightarrow> string list \<Rightarrow> HttpRssAdapter \<Rightarrow> VortexItem list \<times> HttpRssAdapter" where
  "fetch_all W [] a = ([], a)"
| "fetch_all W (u # us) a =
     (let (items, a1) = fetch_one W u a; (rest, a2) = fetch_all W us a1 in (items @ rest, a2))"

definition http_items :: "'b ingest_world \<Rightarrow> HttpRssAdapter \<Rightarrow> VortexItem list \<times> HttpRssAdapter" where
  "http_items W a =
     (let a1 = a\<lparr>ha_stats := empty_stats\<lparr>cs_started_at := iw_now W (ha_clock a)\<rparr>, ha_clock := ha_clock a + 1\<rparr>;
          (items, a2) = fetch_all W (hc_feed_urls (ha_config a)) a1
      in (items, a2\<lparr>ha_stats := (ha_stats a2)\<lparr>cs_completed_at := Some (iw_now W (ha_clock a2))\<rparr>, ha_clock := ha_clock a2 + 1\<rparr>))"

section \<open>The other adapters and the cycle\<close>

record InMemoryIngestAdapter =
  im_source_id :: string
  im_pending_items :: "VortexItem list"
  im_pending_failures :: "IngestFailure list"
  im_stats :: CycleStats
  im_clock :: nat

definition new_memory_adapter :: "string \<Rightarrow> InMemoryIngestAdapter" where
  "new_memory_adapter source_id =
     \<lparr>im_source_id = source_id, im_pending_items = [], im_pending_failures = [],
      im_stats = empty_stats\<lparr>cs_per_source_counts := [(source_id, 0)]\<rparr>, im_clock = 0\<rparr>"

definition feed_items :: "VortexItem list \<Rightarrow> InMemoryIngestAdapter \<Rightarrow> InMemoryIngestAdapter" where
  "feed_items items a = a\<lparr>im_pending_items := im_pending_items a @ items\<rparr>"

definition record_ingest_failure :: "IngestFailure \<Rightarrow> InMemoryIngestAdapter \<Rightarrow> InMemoryIngestAdapter" where
  "record_ingest_failure f a = a\<lparr>im_pending_failures := im_pending_failures a @ [f]\<rparr>"

definition pending_item_count :: "InMemoryIngestAdapter \<Rightarrow> nat" where
  "pending_item_count a = length (im_pending_items a)"

fun count_queued :: "string \<Rightarrow> VortexItem list \<Rightarrow> CycleStats \<Rightarrow> CycleStats" where
  "count_queued source_id [] st = st"
| "count_queued source_id (i # items) st =
     count_queued source_id items (st\<lparr>cs_items_yielded := cs_items_yielded st + 1,
       cs_per_source_counts := dcount source_id (cs_per_source_counts st)\<rparr>)"

definition memory_items :: "'b ingest_world \<Rightarrow> InMemoryIngestAdapter \<Rightarrow> VortexItem list \<times> InMemoryIngestAdapter" where
  "memory_items W a =
     (let st0 = empty_stats\<lparr>cs_per_source_counts := [(im_source_id a, 0)], cs_started_at := iw_now W (im_clock a)\<rparr>;
          st1 = count_queued (im_source_id a) (im_pending_items a) st0;
          st2 = st1\<lparr>cs_failures := cs_failures st1 @ im_pending_failures a, cs_completed_at := Some (iw_now W (im_clock a + 1))\<rparr>
      in (im_pending_items a, a\<lparr>im_pending_items := [], im_pending_failures := [], im_stats := st2, im_clock := im_clock a + 2\<rparr>))"

datatype adapter = NullAdapter | MemoryAdapter InMemoryIngestAdapter | HttpAdapter HttpRssAdapter

fun adapter_items :: "'b ingest_world \<Rightarrow> adapter \<Rightarrow> VortexItem list \<times> adapter" where
  "adapter_items W NullAdapter = ([], NullAdapter)"
| "adapter_items W (MemoryAdapter a) = (let (items, a') = memory_items W a in (items, MemoryAdapter a'))"
| "adapter_items W (HttpAdapter a) = (let (items, a') = http_items W a in (items, HttpAdapter a'))"

fun cycle_stats :: "adapter \<Rightarrow> CycleStats" where
  "cycle_stats NullAdapter = empty_stats"
| "cycle_stats (MemoryAdapter a) = im_stats a"
| "cycle_stats (HttpAdapter a) = ha_stats a"

definition build_adapters :: "IngestPolicy \<Rightarrow> adapter list" where
  "build_adapters policy = map (\<lambda>cfg. HttpAdapter (new_http_adapter cfg (ip_whirlpool_id policy))) (ip_http_rss policy)"

record Whirlpool =
  wh_policy :: IngestPolicy
  wh_adapters :: "adapter list"

definition new_whirlpool :: "IngestPolicy \<Rightarrow> adapter list option \<Rightarrow> Whirlpool" where
  "new_whirlpool policy adapters =
     \<lparr>wh_policy = policy, wh_adapters = (case adapters of Some as \<Rightarrow> as | None \<Rightarrow> build_adapters policy)\<rparr>"

record IngestCycleSummary =
  ics_adapter_stats :: "CycleStats list"
  ics_total_items :: nat
  ics_total_failures :: nat
  ics_items :: "VortexItem list"

fun drive_adapters :: "'b ingest_world \<Rightarrow> adapter list \<Rightarrow> IngestCycleSummary \<Rightarrow> IngestCycleSummary \<times> adapter list" where
  "drive_adapters W [] s = (s, [])"
| "drive_adapters W (a # as) s =
     (let (items, a') = adapter_items W a;
          stats = cycle_stats a';
          (s', as') = drive_adapters W as
            (s\<lparr>ics_total_items := ics_total_items s + length items, ics_items := ics_items s @ items,
               ics_adapter_stats := ics_adapter_stats s @ [stats],
               ics_total_failures := ics_total_failures s + length (cs_failures stats)\<rparr>)
      in (s', a' # as'))"

definition run_ingest_cycle :: "'b ingest_world \<Rightarrow> Whirlpool \<Rightarrow> IngestCycleSummary \<times> Whirlpool" where
  "run_ingest_cycle W w =
     (let (s, as) = drive_adapters W (wh_adapters w)
        \<lparr>ics_adapter_stats = [], ics_total_items = 0, ics_total_failures = 0, ics_items = []\<rparr>
      in (s, w\<lparr>wh_adapters := as\<rparr>))"

section \<open>The accounts of an adapter\<close>

definition counted_items :: "CycleStats \<Rightarrow> nat" where
  "counted_items st = sum_list (dvalues (cs_per_source_counts st))"

text \<open>What the whirlpool relies on: the statistics of a finished cycle account for the items it gave.\<close>

locale ingest_adapter =
  fixes items :: "'a \<Rightarrow> VortexItem list \<times> 'a" and stats :: "'a \<Rightarrow> CycleStats"
  assumes yielded: "cs_items_yielded (stats (snd (items a))) = length (fst (items a))"
    and sources: "counted_items (stats (snd (items a))) = length (fst (items a))"
begin

lemma yielded_all:
  "sum_list (map (\<lambda>a. cs_items_yielded (stats (snd (items a)))) as) = length (concat (map (\<lambda>a. fst (items a)) as))"
  by (induction as) (simp_all add: yielded)

lemma sources_all: "\<forall>st \<in> set (map (\<lambda>a. stats (snd (items a))) as). counted_items st = cs_items_yielded st"
  by (simp add: yielded sources)

end

lemma sum_dcount: "sum_list (dvalues (dcount k d)) = sum_list (dvalues d) + 1"
proof -
  have "sum_list (dvalues (dset k (v + 1) d)) = sum_list (dvalues d) + 1" if "map_of d k = Some v" for v
    using that by (induction d) (auto split: if_splits)
  moreover have "sum_list (dvalues (dset k 1 d)) = sum_list (dvalues d) + 1" if "map_of d k = None"
    using that by (induction d) (auto split: if_splits)
  ultimately show ?thesis by (cases "map_of d k") (auto simp: dcount_def dget_def)
qed

lemma sum_dset_new: "k \<notin> set (dkeys d) \<Longrightarrow> sum_list (dvalues (dset k (0 :: nat) d)) = sum_list (dvalues d)"
  by (simp add: dset_append)

lemma add_failure_accounts [simp]:
  "cs_items_yielded (ha_stats (add_failure f a)) = cs_items_yielded (ha_stats a)"
  "counted_items (ha_stats (add_failure f a)) = counted_items (ha_stats a)"
  "cs_failures (ha_stats (add_failure f a)) = cs_failures (ha_stats a) @ [f]"
  "ha_config (add_failure f a) = ha_config a" "ha_whirlpool_id (add_failure f a) = ha_whirlpool_id a"
  by (simp_all add: add_failure_def counted_items_def)

lemma count_item_accounts [simp]:
  "cs_items_yielded (ha_stats (count_item s a)) = cs_items_yielded (ha_stats a) + 1"
  "counted_items (ha_stats (count_item s a)) = counted_items (ha_stats a) + 1"
  "cs_failures (ha_stats (count_item s a)) = cs_failures (ha_stats a)"
  "ha_config (count_item s a) = ha_config a" "ha_whirlpool_id (count_item s a) = ha_whirlpool_id a"
  by (simp_all add: count_item_def counted_items_def sum_dcount)

lemma yield_entries_accounts:
  assumes "yield_entries W s url es a = (is, a')"
  shows "length is = length es \<and> cs_items_yielded (ha_stats a') = cs_items_yielded (ha_stats a) + length is \<and>
    counted_items (ha_stats a') = counted_items (ha_stats a) + length is \<and> cs_failures (ha_stats a') = cs_failures (ha_stats a) \<and>
    ha_config a' = ha_config a \<and> ha_whirlpool_id a' = ha_whirlpool_id a \<and>
    (\<forall>i \<in> set is. \<exists>e t. i = build_vortex_item W (ha_whirlpool_id a) e s url t)"
  using assms
proof (induction es arbitrary: a "is" a')
  case (Cons e es)
  obtain js a2 where y: "yield_entries W s url es (count_item s a) = (js, a2)" by (cases "yield_entries W s url es (count_item s a)")
  then have i: "is = build_vortex_item W (ha_whirlpool_id a) e s url (ha_clock a) # js" "a' = a2"
    using Cons.prems by auto
  have "\<forall>x \<in> set is. \<exists>e t. x = build_vortex_item W (ha_whirlpool_id a) e s url t"
    using Cons.IH [OF y] unfolding i(1) count_item_accounts set_simps ball_simps by blast
  then show ?case using Cons.IH [OF y] unfolding i(2) by (simp add: i(1))
qed simp

definition feed_item :: "string \<Rightarrow> string \<Rightarrow> VortexItem \<Rightarrow> bool" where
  "feed_item wid url i \<longleftrightarrow>
     wi_whirlpool_id i = wid \<and> wi_ring i = PERIPHERY \<and> wi_corroborators i = 1 \<and> wi_domain_tags i = [] \<and>
     length (wi_body_excerpt i) \<le> 1024 \<and> map fp_source_id (wi_provenance i) = [source_id_from_url url]"

lemma build_item: "feed_item wid url (build_vortex_item W wid e (source_id_from_url url) url t)"
  by (cases e) (simp add: feed_item_def build_vortex_item_def)

lemma length_py_take: "0 \<le> n \<Longrightarrow> length (py_take n xs) \<le> nat n"
  by (simp add: py_take_def)

text \<open>One feed: either one failure and no item, or no failure and items within the cap from an https URL.\<close>

lemma fetch_one_outcome:
  assumes "fetch_one W url a = (is, a')"
  shows "cs_items_yielded (ha_stats a') = cs_items_yielded (ha_stats a) + length is \<and>
    counted_items (ha_stats a') = counted_items (ha_stats a) + length is \<and> ha_config a' = ha_config a \<and> ha_whirlpool_id a' = ha_whirlpool_id a \<and>
    ((is = [] \<and> (\<exists>f. cs_failures (ha_stats a') = cs_failures (ha_stats a) @ [f] \<and> if_source_id f = source_id_from_url url \<and>
        (url_scheme url \<noteq> ''https'' \<longrightarrow> if_reason f = REFUSED_BY_POLICY))) \<or>
     (url_scheme url = ''https'' \<and> \<not> hc_require_feed_signature (ha_config a) \<and>
      cs_failures (ha_stats a') = cs_failures (ha_stats a) \<and>
      (0 \<le> hc_max_items_per_feed (ha_config a) \<longrightarrow> length is \<le> nat (hc_max_items_per_feed (ha_config a))) \<and>
      (\<forall>i \<in> set is. feed_item (ha_whirlpool_id a) url i)))"
proof -
  let ?s = "source_id_from_url url" and ?c = "cs_per_source_counts (ha_stats a)"
  define a1 where "a1 = a\<lparr>ha_stats := (ha_stats a)\<lparr>cs_per_source_counts := (if ?s \<in> set (dkeys ?c) then ?c else dset ?s 0 ?c)\<rparr>\<rparr>"
  have a1: "cs_items_yielded (ha_stats a1) = cs_items_yielded (ha_stats a)" "counted_items (ha_stats a1) = counted_items (ha_stats a)"
    "cs_failures (ha_stats a1) = cs_failures (ha_stats a)" "ha_config a1 = ha_config a" "ha_whirlpool_id a1 = ha_whirlpool_id a"
    using sum_dset_new [of ?s ?c] by (simp_all add: a1_def counted_items_def)
  consider f where "is = []" "a' = add_failure f a1" "if_source_id f = ?s" "url_scheme url \<noteq> ''https'' \<longrightarrow> if_reason f = REFUSED_BY_POLICY"
    | es where "url_scheme url = ''https''" "\<not> hc_require_feed_signature (ha_config a)"
        "yield_entries W ?s url (py_take (hc_max_items_per_feed (ha_config a)) es) a1 = (is, a')"
    using assms unfolding fetch_one_def Let_def a1_def [symmetric]
    by (auto split: if_splits sum.splits feed_error.splits)
  then show ?thesis
  proof cases
    case (1 f)
    then show ?thesis using a1 by auto
  next
    case (2 es)
    note y = yield_entries_accounts [OF 2(3)]
    have "feed_item (ha_whirlpool_id a) url i" if "i \<in> set is" for i
      using y that build_item [of _ url] a1(5) by metis
    then show ?thesis using y 2(1,2) a1 length_py_take [of "hc_max_items_per_feed (ha_config a)" es] by auto
  qed
qed

lemma fetch_all_outcome:
  assumes "fetch_all W us a = (is, a')"
  shows "cs_items_yielded (ha_stats a') = cs_items_yielded (ha_stats a) + length is \<and>
    counted_items (ha_stats a') = counted_items (ha_stats a) + length is \<and> ha_config a' = ha_config a \<and> ha_whirlpool_id a' = ha_whirlpool_id a \<and>
    length (cs_failures (ha_stats a')) \<le> length (cs_failures (ha_stats a)) + length us \<and>
    (0 \<le> hc_max_items_per_feed (ha_config a) \<longrightarrow> length is + nat (hc_max_items_per_feed (ha_config a)) * length (cs_failures (ha_stats a'))
       \<le> nat (hc_max_items_per_feed (ha_config a)) * (length us + length (cs_failures (ha_stats a)))) \<and>
    (\<forall>i \<in> set is. \<exists>u \<in> set us. url_scheme u = ''https'' \<and> \<not> hc_require_feed_signature (ha_config a) \<and> feed_item (ha_whirlpool_id a) u i)"
  using assms
proof (induction us arbitrary: a "is" a')
  case (Cons u us)
  obtain js a1 where f: "fetch_one W u a = (js, a1)" by (cases "fetch_one W u a")
  obtain ks a2 where r: "fetch_all W us a1 = (ks, a2)" by (cases "fetch_all W us a1")
  have i: "is = js @ ks" "a' = a2" using Cons.prems f r by auto
  note o1 = fetch_one_outcome [OF f] and o2 = Cons.IH [OF r]
  let ?m = "nat (hc_max_items_per_feed (ha_config a))"
  have fl: "length (cs_failures (ha_stats a1)) \<le> length (cs_failures (ha_stats a)) + 1" using o1 by auto
  have cap: "length js + ?m * length (cs_failures (ha_stats a1)) \<le> ?m * (1 + length (cs_failures (ha_stats a)))"
    if "0 \<le> hc_max_items_per_feed (ha_config a)" using o1 that by auto
  have cfg: "ha_config a1 = ha_config a" "ha_whirlpool_id a1 = ha_whirlpool_id a" using o1 by simp_all
  have its: "\<exists>u' \<in> set (u # us). url_scheme u' = ''https'' \<and> \<not> hc_require_feed_signature (ha_config a) \<and> feed_item (ha_whirlpool_id a) u' i"
    if "i \<in> set is" for i
  proof (cases "i \<in> set js")
    case True
    then show ?thesis using o1 by auto
  next
    case False
    then show ?thesis using o2 that cfg unfolding i(1) by auto
  qed
  have "length is + ?m * length (cs_failures (ha_stats a2)) \<le> ?m * (length (u # us) + length (cs_failures (ha_stats a)))"
    if "0 \<le> hc_max_items_per_feed (ha_config a)"
    using cap [OF that] o2 cfg that unfolding i(1) by (simp add: algebra_simps)
  then show ?case using o1 o2 its fl cfg unfolding i(2) by (simp add: i(1))
qed simp

lemma empty_accounts [simp]:
  "cs_items_yielded empty_stats = 0" "counted_items empty_stats = 0" "cs_failures empty_stats = []"
  "counted_items (empty_stats\<lparr>cs_started_at := x\<rparr>) = 0" "counted_items (st\<lparr>cs_completed_at := y\<rparr>) = counted_items st"
  by (simp_all add: empty_stats_def counted_items_def)

lemma http_items_outcome:
  assumes "http_items W a = (is, a')"
  obtains a1 a2 where "fetch_all W (hc_feed_urls (ha_config a)) a1 = (is, a2)" "ha_config a1 = ha_config a"
    "ha_whirlpool_id a1 = ha_whirlpool_id a" "cs_failures (ha_stats a1) = []" "cs_items_yielded (ha_stats a1) = 0" "counted_items (ha_stats a1) = 0"
    "cs_failures (ha_stats a') = cs_failures (ha_stats a2)" "cs_items_yielded (ha_stats a') = cs_items_yielded (ha_stats a2)"
    "counted_items (ha_stats a') = counted_items (ha_stats a2)"
proof -
  let ?a1 = "a\<lparr>ha_stats := empty_stats\<lparr>cs_started_at := iw_now W (ha_clock a)\<rparr>, ha_clock := ha_clock a + 1\<rparr>"
  obtain js a2 where f: "fetch_all W (hc_feed_urls (ha_config a)) ?a1 = (js, a2)"
    by (cases "fetch_all W (hc_feed_urls (ha_config a)) ?a1")
  show ?thesis using assms f by (intro that [of ?a1 a2]) (auto simp: http_items_def Let_def)
qed

lemma http_items_accounts:
  assumes "http_items W a = (is, a')"
  shows "cs_items_yielded (ha_stats a') = length is \<and> counted_items (ha_stats a') = length is"
proof -
  obtain a1 a2 where h: "fetch_all W (hc_feed_urls (ha_config a)) a1 = (is, a2)"
    "cs_items_yielded (ha_stats a1) = 0" "counted_items (ha_stats a1) = 0"
    "cs_items_yielded (ha_stats a') = cs_items_yielded (ha_stats a2)" "counted_items (ha_stats a') = counted_items (ha_stats a2)"
    by (rule http_items_outcome [OF assms])
  show ?thesis using fetch_all_outcome [OF h(1)] h(2-5) by simp
qed

lemma count_queued_accounts:
  "cs_items_yielded (count_queued s is st) = cs_items_yielded st + length is \<and>
   counted_items (count_queued s is st) = counted_items st + length is \<and> cs_failures (count_queued s is st) = cs_failures st \<and>
   cs_started_at (count_queued s is st) = cs_started_at st"
  by (induction s "is" st rule: count_queued.induct) (simp_all add: counted_items_def sum_dcount)

interpretation ad: ingest_adapter "adapter_items W" cycle_stats for W
proof
  fix a :: adapter
  show "cs_items_yielded (cycle_stats (snd (adapter_items W a))) = length (fst (adapter_items W a))"
  proof (cases a)
    case (MemoryAdapter m)
    then show ?thesis by (simp add: memory_items_def Let_def count_queued_accounts)
  next
    case (HttpAdapter h)
    obtain js h' where r: "http_items W h = (js, h')" by (cases "http_items W h")
    show ?thesis using http_items_accounts [OF r] HttpAdapter r by simp
  qed simp
  show "counted_items (cycle_stats (snd (adapter_items W a))) = length (fst (adapter_items W a))"
  proof (cases a)
    case (MemoryAdapter m)
    then show ?thesis using count_queued_accounts by (simp add: memory_items_def Let_def) (simp add: counted_items_def empty_stats_def)
  next
    case (HttpAdapter h)
    obtain js h' where r: "http_items W h = (js, h')" by (cases "http_items W h")
    show ?thesis using http_items_accounts [OF r] HttpAdapter r by simp
  qed simp
qed

section \<open>What a cycle gives\<close>

lemma drive_adapters_parts:
  "drive_adapters W as s = (s', as') \<Longrightarrow>
     as' = map (\<lambda>a. snd (adapter_items W a)) as \<and>
     ics_items s' = ics_items s @ concat (map (\<lambda>a. fst (adapter_items W a)) as) \<and>
     ics_total_items s' = ics_total_items s + length (concat (map (\<lambda>a. fst (adapter_items W a)) as)) \<and>
     ics_adapter_stats s' = ics_adapter_stats s @ map cycle_stats as' \<and>
     ics_total_failures s' = ics_total_failures s + sum_list (map (\<lambda>a. length (cs_failures (cycle_stats a))) as')"
proof (induction as arbitrary: s s' as')
  case (Cons a as)
  obtain js a' where i: "adapter_items W a = (js, a')" by (cases "adapter_items W a")
  let ?s = "s\<lparr>ics_total_items := ics_total_items s + length js, ics_items := ics_items s @ js,
               ics_adapter_stats := ics_adapter_stats s @ [cycle_stats a'],
               ics_total_failures := ics_total_failures s + length (cs_failures (cycle_stats a'))\<rparr>"
  obtain s2 as2 where r: "drive_adapters W as ?s = (s2, as2)" by (cases "drive_adapters W as ?s")
  show ?case using Cons.prems Cons.IH [OF r] i r by (auto simp: Let_def)
qed simp

text \<open>
  Library fact: An ingest cycle accounts for everything it brings in: the summary counts exactly the items it carries, which
  are those of the adapters in their order, the numbers the adapters report add up to it, the counts per source
  of every adapter add up to what it reports, there is one snapshot per adapter, and the failures counted_items are those
  recorded.
\<close>

theorem ingest_cycle_accounts:
  assumes "run_ingest_cycle W w = (s, w')"
  shows "ics_total_items s = length (ics_items s) \<and>
    ics_items s = concat (map (\<lambda>a. fst (adapter_items W a)) (wh_adapters w)) \<and>
    ics_adapter_stats s = map cycle_stats (wh_adapters w') \<and> length (wh_adapters w') = length (wh_adapters w) \<and>
    sum_list (map cs_items_yielded (ics_adapter_stats s)) = ics_total_items s \<and>
    (\<forall>st \<in> set (ics_adapter_stats s). sum_list (dvalues (cs_per_source_counts st)) = cs_items_yielded st) \<and>
    ics_total_failures s = sum_list (map (\<lambda>st. length (cs_failures st)) (ics_adapter_stats s))"
proof -
  obtain as where d: "drive_adapters W (wh_adapters w)
        \<lparr>ics_adapter_stats = [], ics_total_items = 0, ics_total_failures = 0, ics_items = []\<rparr> = (s, as)" "wh_adapters w' = as"
    using assms by (auto simp: run_ingest_cycle_def split: prod.splits)
  note p = drive_adapters_parts [OF d(1), simplified]
  have "sum_list (map cs_items_yielded (map cycle_stats as)) = length (concat (map (\<lambda>a. fst (adapter_items W a)) (wh_adapters w)))"
    using ad.yielded_all [of W "wh_adapters w"] p by (simp add: comp_def)
  moreover have "\<forall>st \<in> set (map cycle_stats as). sum_list (dvalues (cs_per_source_counts st)) = cs_items_yielded st"
    using ad.sources_all [of W "wh_adapters w"] p by (simp add: counted_items_def)
  ultimately show ?thesis using p d(2) by (simp add: comp_def)
qed

text \<open>
  C38: What an HTTP adapter brings in comes over https only: every item of a cycle belongs to a configured feed with
  an https URL, names that URL's host as its only source, enters at the periphery with one corroborator and no
  tags and has an excerpt of at most 1024 characters; if signatures are required there is no item at all; and a
  feed costs at most one failure and gives, when it fails, nothing, otherwise at most the cap.
\<close>

theorem http_cycle_sound:
  assumes "http_items W a = (items, a')" "0 \<le> hc_max_items_per_feed (ha_config a)"
  shows "(\<forall>i \<in> set items. \<exists>u \<in> set (hc_feed_urls (ha_config a)). url_scheme u = ''https'' \<and> feed_item (ha_whirlpool_id a) u i) \<and>
    (hc_require_feed_signature (ha_config a) \<longrightarrow> items = []) \<and>
    length (cs_failures (ha_stats a')) \<le> length (hc_feed_urls (ha_config a)) \<and>
    length items + nat (hc_max_items_per_feed (ha_config a)) * length (cs_failures (ha_stats a'))
      \<le> nat (hc_max_items_per_feed (ha_config a)) * length (hc_feed_urls (ha_config a))"
proof -
  obtain a1 a2 where h: "fetch_all W (hc_feed_urls (ha_config a)) a1 = (items, a2)" "ha_config a1 = ha_config a"
    "ha_whirlpool_id a1 = ha_whirlpool_id a" "cs_failures (ha_stats a1) = []" "cs_failures (ha_stats a') = cs_failures (ha_stats a2)"
    by (rule http_items_outcome [OF assms(1)])
  note o = fetch_all_outcome [OF h(1), unfolded h(2-4)]
  have "items = []" if "hc_require_feed_signature (ha_config a)" using o that by (cases items) auto
  then show ?thesis using o assms(2) h(5) by auto
qed

text \<open>
  Library fact: The in-memory adapter loses and repeats nothing: a cycle gives exactly the items fed since the last one, in
  order, and reports exactly the failures recorded since; the next cycle gives exactly what is fed in between.
\<close>

theorem memory_adapter_drains:
  assumes "memory_items W a = (items, a')"
  shows "items = im_pending_items a \<and> cs_failures (im_stats a') = im_pending_failures a \<and> pending_item_count a' = 0 \<and>
    fst (memory_items W' (feed_items more_items a')) = more_items \<and>
    (\<forall>f. cs_failures (im_stats (snd (memory_items W' (record_ingest_failure f a')))) = [f])"
  using assms count_queued_accounts
  by (auto simp: memory_items_def Let_def feed_items_def record_ingest_failure_def pending_item_count_def)

section \<open>The two feed formats\<close>

definition text_element :: "string \<Rightarrow> string \<Rightarrow> xml" where
  "text_element name s = Element name [] (if s = [] then None else Some s) []"

definition rss_of :: "feed_entry list \<Rightarrow> xml" where
  "rss_of es = Element ''rss'' [] None [Element ''channel'' [] None
     (map (\<lambda>(title, body, link). Element ''item'' [] None
        [text_element ''title'' title, text_element ''link'' link, text_element ''description'' body]) es)]"

definition atom_of :: "feed_entry list \<Rightarrow> xml" where
  "atom_of es = Element (atom ''feed'') [] None
     (map (\<lambda>(title, body, link). Element (atom ''entry'') [] None
        [text_element (atom ''title'') title, Element (atom ''link'') [(''href'', link)] None [],
         text_element (atom ''summary'') body]) es)"

lemma atom_names [simp]:
  "atom x = atom y \<longleftrightarrow> x = y" "atom x \<noteq> ''title''" "atom x \<noteq> ''summary''" "atom x \<noteq> ''content''" "atom x \<noteq> ''link''"
  "atom x \<noteq> ''rss''" "atom x \<noteq> ''feed''" "atom x \<noteq> ''entry''" "''rss'' \<noteq> atom x"
  by (auto simp: atom_def)

lemma find_text_element [simp]: "or_else (xml_text (text_element n s)) [] = s" "xml_tag (text_element n s) = n"
  by (simp_all add: text_element_def)

lemma py_strip_Nil [simp]: "py_strip [] = []"
  by (simp add: py_strip_def)

text \<open>
  Library fact: The two feed formats carry the same entries: the RSS document and the Atom document of a list of entries parse
  to the same list, in order, with titles and bodies stripped; only the link is stripped in RSS and taken as it
  is in Atom.
\<close>

theorem feed_formats_agree:
  "entries_of_root (rss_of es) = Inr (map (\<lambda>(title, body, link). (py_strip title, py_strip body, py_strip link)) es) \<and>
   entries_of_root (atom_of es) = Inr (map (\<lambda>(title, body, link). (py_strip title, py_strip body, link)) es)"
proof
  have "rss_entry (Element ''item'' [] None [text_element ''title'' t, text_element ''link'' l, text_element ''description'' b]) =
      (py_strip t, py_strip b, py_strip l)" for t b l
    by (simp add: rss_entry_def find_text_def xml_find_def)
  then have "map rss_entry (xml_findall ''item'' (Element ''channel'' [] None (map (\<lambda>(title, body, link). Element ''item'' [] None
        [text_element ''title'' title, text_element ''link'' link, text_element ''description'' body]) es))) =
      map (\<lambda>(title, body, link). (py_strip title, py_strip body, py_strip link)) es"
    by (induction es) (auto simp: xml_findall_def)
  then show "entries_of_root (rss_of es) = Inr (map (\<lambda>(title, body, link). (py_strip title, py_strip body, py_strip link)) es)"
    by (simp add: entries_of_root_def rss_of_def xml_find_def)
next
  have "atom_entry (Element (atom ''entry'') [] None
        [text_element (atom ''title'') t, Element (atom ''link'') [(''href'', l)] None [], text_element (atom ''summary'') b]) =
      (py_strip t, py_strip b, l)" for t b l
    by (simp add: atom_entry_def find_text_def xml_find_def dget_def)
  then have "map atom_entry (xml_findall (atom ''entry'') (atom_of es)) = map (\<lambda>(title, body, link). (py_strip title, py_strip body, link)) es"
    by (induction es) (auto simp: xml_findall_def atom_of_def)
  moreover have "xml_findall ''entry'' (atom_of []) = []" by (simp add: xml_findall_def atom_of_def)
  moreover have "xml_findall (atom ''entry'') (atom_of es) = [] \<Longrightarrow> es = []"
    by (cases es) (auto simp: xml_findall_def atom_of_def)
  ultimately show "entries_of_root (atom_of es) = Inr (map (\<lambda>(title, body, link). (py_strip title, py_strip body, link)) es)"
    by (cases "es = []") (auto simp: entries_of_root_def atom_of_def [of es] atom_of_def xml_findall_def [of "''entry''"])
qed

section \<open>Witnesses\<close>

definition demo_world :: "xml ingest_world" where
  "demo_world =
     \<lparr>iw_fetch = (\<lambda>u. if u = ''https://a/f'' then Inr (rss_of [(''t'', ''b'', []), (''u'', ''c'', []), (''v'', ''d'', [])])
                      else Inl (TimeoutException ''slow'')),
      iw_fromstring = Inr, iw_sha256 = (\<lambda>bs. map (\<lambda>b. char_of (unat b)) bs), iw_now = nat_str\<rparr>"

definition demo_config :: HttpRssAdapterConfig where
  "demo_config = \<lparr>hc_feed_urls = [''https://a/f'', ''http://b/f'', ''https://c/f''], hc_require_feed_signature = False,
     hc_max_items_per_feed = 2\<rparr>"

definition demo_policy :: IngestPolicy where
  "demo_policy = \<lparr>ip_whirlpool_id = ''w'', ip_domain_tags = [], ip_poll_interval_seconds = 900, ip_max_items_per_cycle = 1,
     ip_per_source_partition_cap = 1 / 20, ip_http_rss = [demo_config]\<rparr>"

lemma ingest_cycle_accounts_witness:
  "ics_total_items (fst (run_ingest_cycle demo_world (new_whirlpool demo_policy None))) = 2"
proof -
  have n: "length (ics_items (fst (run_ingest_cycle demo_world (new_whirlpool demo_policy None)))) = 2" by code_simp
  show ?thesis
    using ingest_cycle_accounts [of demo_world "new_whirlpool demo_policy None"] n
    by (cases "run_ingest_cycle demo_world (new_whirlpool demo_policy None)") auto
qed

lemma http_cycle_sound_witness:
  "length (fst (http_items demo_world (new_http_adapter demo_config ''w''))) = 2 \<and>
   map if_reason (cs_failures (ha_stats (snd (http_items demo_world (new_http_adapter demo_config ''w''))))) = [REFUSED_BY_POLICY, TIMEOUT] \<and>
   list_all (\<lambda>i. wi_ring i = PERIPHERY) (fst (http_items demo_world (new_http_adapter demo_config ''w'')))"
proof -
  let ?r = "http_items demo_world (new_http_adapter demo_config ''w'')"
  have "length (fst ?r) = 2" "map if_reason (cs_failures (ha_stats (snd ?r))) = [REFUSED_BY_POLICY, TIMEOUT]" by code_simp+
  moreover have "list_all (\<lambda>i. wi_ring i = PERIPHERY) (fst ?r)"
    using http_cycle_sound [of demo_world "new_http_adapter demo_config ''w''" "fst ?r" "snd ?r"]
    by (auto simp: feed_item_def new_http_adapter_def demo_config_def list_all_iff)
  ultimately show ?thesis by blast
qed

lemma memory_adapter_drains_witness:
  "fst (memory_items demo_world (new_memory_adapter ''m'')) = []"
  using memory_adapter_drains [of demo_world "new_memory_adapter ''m''"]
  by (cases "memory_items demo_world (new_memory_adapter ''m'')") (auto simp: new_memory_adapter_def)

text \<open>The text that is hashed does not separate title and body, so two different claims can have one id.\<close>

theorem item_id_ambiguous:
  "item_id_of sha (title @ nl @ nl @ first_part) second_part = item_id_of sha title (first_part @ nl @ nl @ second_part)"
  by (simp add: item_id_of_def)

text \<open>The limit of items per cycle in the policy is not applied.\<close>

theorem items_per_cycle_unlimited:
  "ip_max_items_per_cycle demo_policy = 1 \<and>
   ics_total_items (fst (run_ingest_cycle demo_world (new_whirlpool demo_policy None))) = 2"
  by code_simp

end
