(* ===== verification/Cert_Pinning.thy ===== *)
theory Cert_Pinning
  imports Py_Codec
begin

text \<open>
  \<^verbatim>\<open>maestro/security/cert_pinning.py\<close> and \<^verbatim>\<open>maestro/security/pinned_transport.py\<close>: the store of pinned
  public-key hashes, its JSON file, the verification of a presented certificate and the transport that verifies
  the peer of every response.  The hash of a certificate's public key, which may raise, the inner transport and
  the extraction of the peer's certificate are parameters.
\<close>

section \<open>The store\<close>

record Pin =
  pin_hostname :: string
  pin_spki :: string
  pin_added_at :: string
  pin_notes :: string

record PinStore =
  ps_pins_by_host :: "(string, Pin list) dict"
  ps_metadata :: "(string, json) dict"

definition pins_for :: "PinStore \<Rightarrow> string \<Rightarrow> Pin list" where
  "pins_for st hostname = dget (ps_pins_by_host st) hostname []"

definition hostnames :: "PinStore \<Rightarrow> string list" where
  "hostnames st = sort (dkeys (ps_pins_by_host st))"

definition is_pinned :: "PinStore \<Rightarrow> string \<Rightarrow> bool" where
  "is_pinned st hostname = (case map_of (ps_pins_by_host st) hostname of None \<Rightarrow> False | Some b \<Rightarrow> b \<noteq> [])"

definition add_pin :: "Pin \<Rightarrow> PinStore \<Rightarrow> PinStore" where
  "add_pin p st =
     (let bucket = dget (ps_pins_by_host st) (pin_hostname p) []
      in st\<lparr>ps_pins_by_host := dset (pin_hostname p)
             (if list_ex (\<lambda>q. pin_spki q = pin_spki p) bucket then bucket else bucket @ [p]) (ps_pins_by_host st)\<rparr>)"

definition remove_pin :: "string \<Rightarrow> string \<Rightarrow> PinStore \<Rightarrow> bool \<times> PinStore" where
  "remove_pin hostname spki st =
     (case map_of (ps_pins_by_host st) hostname of
        None \<Rightarrow> (False, st)
      | Some bucket \<Rightarrow>
          (let filtered = filter (\<lambda>p. pin_spki p \<noteq> spki) bucket
           in if bucket = [] \<or> length filtered = length bucket then (False, st)
              else (True, st\<lparr>ps_pins_by_host :=
                     (if filtered \<noteq> [] then dset hostname filtered (ps_pins_by_host st)
                      else ddel hostname (ps_pins_by_host st))\<rparr>)))"

section \<open>Verification\<close>

text \<open>A mismatch carries the host, what was presented and what was expected; a certificate that does not parse raises.\<close>

datatype pin_error = PinVerificationError string string "string list" | BadCertificate string | ExtractorError string

definition verify_pin ::
  "('c \<Rightarrow> string + string) \<Rightarrow> 'c \<Rightarrow> string \<Rightarrow> PinStore \<Rightarrow> bool \<Rightarrow> pin_error + bool" where
  "verify_pin compute_spki_sha256 cert hostname st require_pin =
     (case compute_spki_sha256 cert of
        Inl e \<Rightarrow> Inl (BadCertificate e)
      | Inr presented \<Rightarrow>
          (let pins = pins_for st hostname; expected = map pin_spki pins
           in if pins = [] then
                (if require_pin then Inl (PinVerificationError hostname presented []) else Inr True)
              else if presented \<notin> set expected then Inl (PinVerificationError hostname presented expected)
              else Inr True))"

record ('c, 'q, 'r) pinned_transport =
  pt_store :: PinStore
  pt_inner :: "'q \<Rightarrow> string + 'r"
  pt_extractor :: "'r \<Rightarrow> string + 'c option"
  pt_require_pin :: bool

text \<open>\<open>Inl\<close> is a raise: \<open>Inl (Inl e)\<close> of the inner transport, \<open>Inl (Inr e)\<close> of the verification.\<close>

definition handle_request ::
  "('c \<Rightarrow> string + string) \<Rightarrow> ('q \<Rightarrow> string) \<Rightarrow> ('c, 'q, 'r) pinned_transport \<Rightarrow> 'q \<Rightarrow> (string + pin_error) + 'r" where
  "handle_request compute_spki_sha256 host t request =
     (case pt_inner t request of
        Inl e \<Rightarrow> Inl (Inl e)
      | Inr response \<Rightarrow>
          (let hostname = host request; expected = map pin_spki (pins_for (pt_store t) hostname)
           in case pt_extractor t response of
                Inl e \<Rightarrow> Inl (Inr (if is_pinned (pt_store t) hostname
                                  then PinVerificationError hostname ''<extractor-error>'' expected
                                  else ExtractorError e))
              | Inr None \<Rightarrow>
                  (if pt_require_pin t \<and> is_pinned (pt_store t) hostname
                   then Inl (Inr (PinVerificationError hostname ''<no-cert>'' expected))
                   else Inr response)
              | Inr (Some cert) \<Rightarrow>
                  (case verify_pin compute_spki_sha256 cert hostname (pt_store t) (pt_require_pin t) of
                     Inl e \<Rightarrow> Inl (Inr e)
                   | Inr _ \<Rightarrow> Inr response)))"

section \<open>The file\<close>

datatype pin_file_error = NotAnObjectFile | UnsupportedVersion | EntryWithoutHostname | IllTyped

fun json_string :: "json \<Rightarrow> pin_file_error + string" where
  "json_string (JStr s) = Inr s"
| "json_string _ = Inl IllTyped"

fun json_to_strings :: "json list \<Rightarrow> pin_file_error + string list" where
  "json_to_strings [] = Inr []"
| "json_to_strings (j # js) = bind_res (json_string j) (\<lambda>s. bind_res (json_to_strings js) (\<lambda>ss. Inr (s # ss)))"

fun json_string_list :: "json \<Rightarrow> pin_file_error + string list" where
  "json_string_list (JList js) = json_to_strings js"
| "json_string_list _ = Inl IllTyped"

fun add_entry :: "json \<Rightarrow> PinStore \<Rightarrow> pin_file_error + PinStore" where
  "add_entry (JObj e) st =
     (case map_of e ''hostname'' of
        None \<Rightarrow> Inl EntryWithoutHostname
      | Some h \<Rightarrow>
          bind_res (json_string h) (\<lambda>hostname.
          bind_res (json_string (or_else (map_of e ''added_at'') (JStr []))) (\<lambda>added_at.
          bind_res (json_string (or_else (map_of e ''notes'') (JStr []))) (\<lambda>notes.
          bind_res (json_string_list (or_else (map_of e ''spki_sha256'') (JList []))) (\<lambda>hashes.
            Inr (fold (\<lambda>s. add_pin \<lparr>pin_hostname = hostname, pin_spki = s, pin_added_at = added_at, pin_notes = notes\<rparr>)
                   hashes st))))))"
| "add_entry _ st = Inl IllTyped"

fun add_entries :: "json list \<Rightarrow> PinStore \<Rightarrow> pin_file_error + PinStore" where
  "add_entries [] st = Inr st"
| "add_entries (j # js) st = bind_res (add_entry j st) (add_entries js)"

text \<open>\<^verbatim>\<open>True == 1\<close> in Python.\<close>

fun load_pin_store :: "json \<Rightarrow> pin_file_error + PinStore" where
  "load_pin_store (JObj raw) =
     (if map_of raw ''version'' \<notin> {Some (JInt 1), Some (JBool True)} then Inl UnsupportedVersion
      else let st = \<lparr>ps_pins_by_host = [], ps_metadata = filter (\<lambda>(k, _). k \<notin> {''pins'', ''version''}) raw\<rparr>
           in case or_else (map_of raw ''pins'') (JList []) of
                JList es \<Rightarrow> add_entries es st
              | _ \<Rightarrow> Inl IllTyped)"
| "load_pin_store _ = Inl NotAnObjectFile"

definition entry_of :: "string \<Rightarrow> Pin list \<Rightarrow> json" where
  "entry_of hostname bucket =
     JObj [(''hostname'', JStr hostname), (''spki_sha256'', JList (map (JStr \<circ> pin_spki) bucket)),
           (''added_at'', JStr (pin_added_at (hd bucket))), (''notes'', JStr (pin_notes (hd bucket)))]"

definition pin_payload :: "PinStore \<Rightarrow> (string, json) dict" where
  "pin_payload st =
     (let entries = map (\<lambda>h. entry_of h (pins_for st h)) (filter (\<lambda>h. pins_for st h \<noteq> []) (hostnames st))
      in fold (\<lambda>(k, v). dset k v) (ps_metadata st) [(''version'', JInt 1), (''pins'', JList entries)])"

definition save_pin_store :: "PinStore \<Rightarrow> json" where
  "save_pin_store st = json_sorted (JObj (pin_payload st))"

section \<open>The invariant of the store\<close>

definition bucket_ok :: "string \<Rightarrow> Pin list \<Rightarrow> bool" where
  "bucket_ok h b \<longleftrightarrow> b \<noteq> [] \<and> distinct (map pin_spki b) \<and> (\<forall>p \<in> set b. pin_hostname p = h)"

definition store_ok :: "PinStore \<Rightarrow> bool" where
  "store_ok st \<longleftrightarrow> well_keyed (ps_pins_by_host st) \<and>
     (\<forall>h b. map_of (ps_pins_by_host st) h = Some b \<longrightarrow> bucket_ok h b)"

inductive pin_reachable :: "PinStore \<Rightarrow> bool" where
  pin_init: "pin_reachable \<lparr>ps_pins_by_host = [], ps_metadata = md\<rparr>"
| pin_add: "pin_reachable st \<Longrightarrow> pin_reachable (add_pin p st)"
| pin_remove: "pin_reachable st \<Longrightarrow> pin_reachable (snd (remove_pin h s st))"

lemma store_ok_bucket: "store_ok st \<Longrightarrow> pins_for st h \<noteq> [] \<Longrightarrow> bucket_ok h (pins_for st h)"
  by (auto simp: store_ok_def pins_for_def dget_def split: option.splits)

lemma store_ok_add: "store_ok st \<Longrightarrow> store_ok (add_pin p st)"
proof -
  assume ok: "store_ok st"
  define b where "b = pins_for st (pin_hostname p)"
  define b' where "b' = (if list_ex (\<lambda>q. pin_spki q = pin_spki p) b then b else b @ [p])"
  have "b = [] \<or> bucket_ok (pin_hostname p) b" using store_ok_bucket [OF ok] b_def by blast
  then have "bucket_ok (pin_hostname p) b'" unfolding b'_def bucket_ok_def list_ex_iff by auto
  moreover have "add_pin p st = st\<lparr>ps_pins_by_host := dset (pin_hostname p) b' (ps_pins_by_host st)\<rparr>"
    by (simp add: add_pin_def b'_def b_def pins_for_def)
  ultimately show ?thesis using ok by (simp add: store_ok_def)
qed

lemma store_ok_remove: "store_ok st \<Longrightarrow> store_ok (snd (remove_pin h s st))"
  by (auto simp: store_ok_def remove_pin_def Let_def bucket_ok_def distinct_map_filter split: option.splits if_splits)

lemma store_ok_reachable: "pin_reachable st \<Longrightarrow> store_ok st"
  by (induction rule: pin_reachable.induct) (simp_all add: store_ok_add store_ok_remove, simp add: store_ok_def)

lemma pins_for_add:
  "pins_for (add_pin p st) h = (if h = pin_hostname p \<and> \<not> list_ex (\<lambda>q. pin_spki q = pin_spki p) (pins_for st h)
                               then pins_for st h @ [p] else pins_for st h)"
  by (auto simp: add_pin_def pins_for_def Let_def)

lemma length_filter_eq: "length (filter P xs) = length xs \<longleftrightarrow> filter P xs = xs"
  by (metis filter_id_conv length_filter_less less_irrefl)

lemma pins_for_remove: "pins_for (snd (remove_pin h s st)) h' =
    (if h' = h then filter (\<lambda>p. pin_spki p \<noteq> s) (pins_for st h') else pins_for st h')"
proof (cases "map_of (ps_pins_by_host st) h")
  case (Some b)
  then show ?thesis by (auto simp: remove_pin_def pins_for_def Let_def length_filter_eq dget_def)
qed (auto simp: remove_pin_def pins_for_def dget_def)

section \<open>What reaches the caller\<close>

lemma verify_cong:
  assumes "map pin_spki (pins_for a h) = map pin_spki (pins_for b h)"
  shows "verify_pin spki c h a rp = verify_pin spki c h b rp"
proof -
  have "pins_for a h = [] \<longleftrightarrow> pins_for b h = []" using assms by (metis map_is_Nil_conv)
  then show ?thesis using assms by (cases "spki c") (simp_all add: verify_pin_def Let_def del: set_map)
qed

lemma is_pinned_iff: "is_pinned st h \<longleftrightarrow> pins_for st h \<noteq> []"
  by (simp add: is_pinned_def pins_for_def dget_def split: option.splits)

lemma verify_iff:
  "verify_pin spki cert h st rp = Inr b \<longleftrightarrow>
     b \<and> (\<exists>s. spki cert = Inr s \<and> (if pins_for st h = [] then \<not> rp else s \<in> pin_spki ` set (pins_for st h)))"
  by (auto simp: verify_pin_def Let_def split: sum.splits)

text \<open>
  C37: A response reaches the caller only past the pins of its host: for a pinned host, a certificate that was
  presented hashes to one of the pins, and with \<^verbatim>\<open>require_pin\<close> one was presented; for a host without pins, with
  \<^verbatim>\<open>require_pin\<close>, none was.  The response is the one of the inner transport, and the transport never answers
  anything else: every other case raises.
\<close>

theorem pinned_response_verified:
  assumes "handle_request spki host t request = Inr response"
  shows "pt_inner t request = Inr response \<and>
    (is_pinned (pt_store t) (host request) \<longrightarrow>
       (\<forall>cert. pt_extractor t response = Inr (Some cert) \<longrightarrow>
          (\<exists>s. spki cert = Inr s \<and> s \<in> pin_spki ` set (pins_for (pt_store t) (host request)))) \<and>
       (pt_require_pin t \<longrightarrow> pt_extractor t response \<noteq> Inr None)) \<and>
    (\<not> is_pinned (pt_store t) (host request) \<and> pt_require_pin t \<longrightarrow> pt_extractor t response = Inr None) \<and>
    (\<forall>e. pt_extractor t response \<noteq> Inl e)"
  using assms
  by (auto simp: handle_request_def Let_def is_pinned_iff verify_iff split: sum.splits option.splits if_splits)

lemma spkis_add: "pin_spki ` set (pins_for (add_pin p st) h) =
    (if h = pin_hostname p then insert (pin_spki p) (pin_spki ` set (pins_for st h)) else pin_spki ` set (pins_for st h))"
proof (cases "h = pin_hostname p \<and> \<not> list_ex (\<lambda>q. pin_spki q = pin_spki p) (pins_for st h)")
  case False
  then have "h = pin_hostname p \<Longrightarrow> pin_spki p \<in> pin_spki ` set (pins_for st h)" by (auto simp: list_ex_iff intro: image_eqI [OF sym])
  then show ?thesis using False by (auto simp: pins_for_add)
next
  case True
  then show ?thesis unfolding pins_for_add by auto
qed

text \<open>
  Library fact: A key can be rotated without a gap: in every store built by adding and removing pins, each host's pins are
  distinct and its own; adding a pin for the next certificate makes it verify and keeps every certificate that
  verified, for every host; removing the pin of the old one refuses it, and changes nothing for another host.
\<close>

theorem pin_rotation:
  assumes "pin_reachable st" "spki cert = Inr s" "pin_spki p = s" "pin_hostname p = h"
  shows "distinct (map pin_spki (pins_for st h)) \<and> (\<forall>q \<in> set (pins_for st h). pin_hostname q = h) \<and>
    verify_pin spki cert h (add_pin p st) True = Inr True \<and>
    (\<forall>c h'. verify_pin spki c h' st True = Inr True \<longrightarrow> verify_pin spki c h' (add_pin p st) True = Inr True) \<and>
    verify_pin spki cert h (snd (remove_pin h s st)) True \<noteq> Inr True \<and>
    (\<forall>c h' rp. h' \<noteq> h \<longrightarrow> verify_pin spki c h' (snd (remove_pin h s st)) rp = verify_pin spki c h' st rp)"
proof -
  have b: "distinct (map pin_spki (pins_for st h))" "\<forall>q \<in> set (pins_for st h). pin_hostname q = h"
    using store_ok_bucket [OF store_ok_reachable [OF assms(1)], of h]
    by (cases "pins_for st h = []"; simp add: bucket_ok_def)+
  have "s \<in> pin_spki ` set (pins_for (add_pin p st) h)"
    using assms(3,4) by (simp add: spkis_add)
  then have new: "verify_pin spki cert h (add_pin p st) True = Inr True" using assms(2) by (auto simp: verify_iff)
  have keep: "verify_pin spki c h' (add_pin p st) True = Inr True" if "verify_pin spki c h' st True = Inr True" for c h'
    using that by (auto simp: verify_iff pins_for_add split: if_splits)
  have gone: "verify_pin spki cert h (snd (remove_pin h s st)) True \<noteq> Inr True"
    using assms(2) by (auto simp: verify_iff pins_for_remove split: if_splits)
  have other: "verify_pin spki c h' (snd (remove_pin h s st)) rp = verify_pin spki c h' st rp" if "h' \<noteq> h" for c h' rp
    using that by (intro verify_cong) (simp add: pins_for_remove)
  show ?thesis using b new keep gone other by blast
qed

section \<open>Saving and loading\<close>

definition pin_with :: "string \<Rightarrow> string \<Rightarrow> string \<Rightarrow> string \<Rightarrow> Pin" where
  "pin_with h a n s = \<lparr>pin_hostname = h, pin_spki = s, pin_added_at = a, pin_notes = n\<rparr>"

lemma metadata_add [simp]: "ps_metadata (add_pin p st) = ps_metadata st"
  by (simp add: add_pin_def Let_def)

lemma fold_add_pin:
  "distinct ss \<Longrightarrow> \<forall>q \<in> set (pins_for st h). pin_spki q \<notin> set ss \<Longrightarrow>
     pins_for (fold (\<lambda>s. add_pin (pin_with h a n s)) ss st) h' =
       (if h' = h then pins_for st h @ map (pin_with h a n) ss else pins_for st h') \<and>
     ps_metadata (fold (\<lambda>s. add_pin (pin_with h a n s)) ss st) = ps_metadata st"
proof (induction ss arbitrary: st)
  case (Cons s ss)
  have new: "pins_for (add_pin (pin_with h a n s) st) h = pins_for st h @ [pin_with h a n s]"
    using Cons.prems by (auto simp: pins_for_add pin_with_def list_ex_iff)
  have old: "pins_for (add_pin (pin_with h a n s) st) h' = pins_for st h'" if "h' \<noteq> h" for h'
    using that by (simp add: pins_for_add pin_with_def)
  have "\<forall>q \<in> set (pins_for (add_pin (pin_with h a n s) st) h). pin_spki q \<notin> set ss"
    using Cons.prems unfolding new by (auto simp: pin_with_def)
  then show ?case using Cons.IH [of "add_pin (pin_with h a n s) st"] Cons.prems new old by auto
qed simp

lemma json_to_strings_map: "json_to_strings (map JStr ss) = Inr ss"
  by (induction ss) simp_all

lemma add_entry_entry:
  "add_entry (json_sorted (entry_of h b)) st =
     Inr (fold (\<lambda>s. add_pin (pin_with h (pin_added_at (hd b)) (pin_notes (hd b)) s)) (map pin_spki b) st)"
proof -
  let ?es = "[(''hostname'', JStr h), (''spki_sha256'', JList (map (JStr \<circ> pin_spki) b)),
           (''added_at'', JStr (pin_added_at (hd b))), (''notes'', JStr (pin_notes (hd b)))]"
  let ?s = "sort_key fst (map (\<lambda>(k, v). (k, json_sorted v)) ?es)"
  have "map_of ?s = map_of (map (\<lambda>(k, v). (k, json_sorted v)) ?es)" by (rule map_of_sorted) simp
  then have "map_of ?s k = map_option json_sorted (map_of ?es k)" for k by (simp only: map_of_map_values)
  moreover have "json_sorted (entry_of h b) = JObj ?s" by (simp only: entry_of_def json_sorted.simps)
  ultimately obtain S where S: "json_sorted (entry_of h b) = JObj S" "\<And>k. map_of S k = map_option json_sorted (map_of ?es k)"
    by blast
  have "json_to_strings (map (json_sorted \<circ> (JStr \<circ> pin_spki)) b) = Inr (map pin_spki b)"
    using json_to_strings_map [of "map pin_spki b"] by (simp add: comp_def)
  then show ?thesis unfolding S(1) by (simp add: S(2) pin_with_def)
qed

definition load_from :: "PinStore \<Rightarrow> string list \<Rightarrow> PinStore \<Rightarrow> PinStore" where
  "load_from st hs st0 =
     fold (\<lambda>h. fold (\<lambda>s. add_pin (pin_with h (pin_added_at (hd (pins_for st h))) (pin_notes (hd (pins_for st h))) s))
       (map pin_spki (pins_for st h))) hs st0"

lemma add_entries_entries:
  "add_entries (map json_sorted (map (\<lambda>h. entry_of h (pins_for st h)) hs)) st0 = Inr (load_from st hs st0)"
proof (induction hs arbitrary: st0)
  case (Cons h hs)
  then show ?case by (simp only: list.map add_entries.simps add_entry_entry bind_res.simps load_from_def fold.simps comp_apply)
qed (simp add: load_from_def)

definition loaded_pins :: "Pin list \<Rightarrow> Pin list" where
  "loaded_pins b = map (\<lambda>p. p\<lparr>pin_added_at := pin_added_at (hd b), pin_notes := pin_notes (hd b)\<rparr>) b"

lemma pin_with_bucket: "bucket_ok h b \<Longrightarrow> map (pin_with h (pin_added_at (hd b)) (pin_notes (hd b))) (map pin_spki b) = loaded_pins b"
  by (auto simp: loaded_pins_def bucket_ok_def pin_with_def)

lemma load_from_pins:
  assumes "store_ok st" "distinct hs" "\<forall>h \<in> set hs. pins_for st h \<noteq> [] \<and> pins_for st0 h = []"
  shows "pins_for (load_from st hs st0) h = (if h \<in> set hs then loaded_pins (pins_for st h) else pins_for st0 h) \<and>
    ps_metadata (load_from st hs st0) = ps_metadata st0"
  using assms(2,3)
proof (induction hs arbitrary: st0)
  case (Cons x hs)
  let ?a = "pin_added_at (hd (pins_for st x))" and ?n = "pin_notes (hd (pins_for st x))"
  let ?st1 = "fold (\<lambda>s. add_pin (pin_with x ?a ?n s)) (map pin_spki (pins_for st x)) st0"
  have bk: "bucket_ok x (pins_for st x)" using Cons.prems store_ok_bucket [OF assms(1)] by simp
  have f: "pins_for ?st1 h' = (if h' = x then loaded_pins (pins_for st x) else pins_for st0 h')"
    "ps_metadata ?st1 = ps_metadata st0" for h'
    using fold_add_pin [of "map pin_spki (pins_for st x)" st0 x ?a ?n h'] bk Cons.prems pin_with_bucket [OF bk]
    by (simp_all add: bucket_ok_def)
  have "load_from st (x # hs) st0 = load_from st hs ?st1" by (simp add: load_from_def)
  then show ?case using Cons.IH [of ?st1] Cons.prems f by auto
qed (simp add: load_from_def)

text \<open>
  Library fact: Saving the store and loading the file gives it back: for every store built by adding and removing pins,
  with a metadata that does not use the two field names of the format, loading succeeds, every host has the
  same pins in the same order, with the date and the notes of its first pin, the metadata is the same dictionary,
  and every certificate verifies exactly as before.
\<close>

theorem pin_store_roundtrip:
  assumes "pin_reachable st" "distinct (dkeys (ps_metadata st))"
    and "\<forall>k \<in> set (dkeys (ps_metadata st)). k \<notin> {''pins'', ''version''}"
  shows "\<exists>st'. load_pin_store (save_pin_store st) = Inr st' \<and> (\<forall>h. pins_for st' h = loaded_pins (pins_for st h)) \<and>
    (\<forall>k. map_of (ps_metadata st') k = map_option json_sorted (map_of (ps_metadata st) k)) \<and>
    (\<forall>spki c h rp. verify_pin spki c h st' rp = verify_pin spki c h st rp)"
proof -
  have ok: "store_ok st" using assms(1) by (rule store_ok_reachable)
  define hs where "hs = filter (\<lambda>h. pins_for st h \<noteq> []) (hostnames st)"
  define es where "es = map (\<lambda>h. entry_of h (pins_for st h)) hs"
  define raw where "raw = sort_key fst (map (\<lambda>(k, v). (k, json_sorted v)) (pin_payload st))"
  have pp: "pin_payload st = fold (\<lambda>(k, v). dset k v) (ps_metadata st) [(''version'', JInt 1), (''pins'', JList es)]"
    by (simp add: pin_payload_def es_def hs_def Let_def)
  have keys: "well_keyed (fold (\<lambda>(k, v). dset k v) u d)" if "well_keyed d" for u d :: "(string, json) dict"
    using that by (induction u arbitrary: d) auto
  have pk: "well_keyed (pin_payload st)" unfolding pp by (rule keys) (simp add: well_keyed_def)
  have sv: "save_pin_store st = JObj raw" by (simp add: save_pin_store_def raw_def)
  have md_rev: "map_of (rev (ps_metadata st)) = map_of (ps_metadata st)" using assms(2) map_of_inject_set [of "rev (ps_metadata st)" "ps_metadata st"] by (simp add: rev_map [symmetric] del: rev_map)
  have "map_of raw = map_of (map (\<lambda>(k, v). (k, json_sorted v)) (pin_payload st))"
    unfolding raw_def using pk by (intro map_of_sorted) (simp add: well_keyed_def case_prod_beta comp_def)
  then have look: "map_of raw k = map_option json_sorted (([''version'' \<mapsto> JInt 1, ''pins'' \<mapsto> JList es] ++ map_of (ps_metadata st)) k)" for k
    by (simp only: map_of_map_values pp map_of_fold_dset md_rev) (simp add: map_add_def fun_upd_def cong: if_cong)
  have none: "map_of (ps_metadata st) ''version'' = None" "map_of (ps_metadata st) ''pins'' = None"
    using assms(3) by (auto simp: map_of_eq_None_iff)
  define st0 where "st0 = \<lparr>ps_pins_by_host = [], ps_metadata = filter (\<lambda>(k, _). k \<notin> {''pins'', ''version''}) raw\<rparr>"
  have "add_entries (map json_sorted es) st0 = Inr (load_from st hs st0)" unfolding es_def by (rule add_entries_entries)
  then have load: "load_pin_store (save_pin_store st) = Inr (load_from st hs st0)"
    unfolding sv st0_def by (simp add: look none map_add_def)
  have hs_set: "h \<in> set hs \<longleftrightarrow> pins_for st h \<noteq> []" for h
    unfolding hs_def by (force simp: hostnames_def pins_for_def dget_def split: option.splits dest: map_of_SomeD)
  have "distinct hs" using ok by (simp add: hs_def hostnames_def store_ok_def well_keyed_def)
  moreover have empty0: "pins_for st0 h = []" for h by (simp add: st0_def pins_for_def)
  ultimately have pins: "pins_for (load_from st hs st0) h = loaded_pins (pins_for st h) \<and>
      ps_metadata (load_from st hs st0) = ps_metadata st0" for h
    using load_from_pins [OF ok, of hs st0 h] hs_set empty0 by (cases "h \<in> set hs") (simp_all add: loaded_pins_def)
  have "map pin_spki (loaded_pins b) = map pin_spki b" "loaded_pins b = [] \<longleftrightarrow> b = []" for b
    by (simp_all add: loaded_pins_def comp_def)
  then have v: "verify_pin spki c h (load_from st hs st0) rp = verify_pin spki c h st rp"
    for spki c h rp
    using pins by (intro verify_cong) simp
  have md: "map_of (ps_metadata st0) k = map_option json_sorted (map_of (ps_metadata st) k)" for k
  proof (cases "k \<in> {''pins'', ''version''}")
    case True
    then show ?thesis using none by (auto simp: st0_def map_of_filter_keys)
  next
    case False
    then show ?thesis using look [of k] by (simp add: st0_def map_of_filter_keys map_add_def split: option.splits)
  qed
  show ?thesis by (intro exI [of _ "load_from st hs st0"] conjI allI) (use load pins v md in simp_all)
qed

section \<open>Witnesses\<close>

definition demo_pin :: "string \<Rightarrow> Pin" where
  "demo_pin s = \<lparr>pin_hostname = ''api'', pin_spki = s, pin_added_at = ''t'', pin_notes = s\<rparr>"

definition demo_store :: PinStore where
  "demo_store = add_pin (demo_pin ''sha256:b'') (add_pin (demo_pin ''sha256:a'')
     \<lparr>ps_pins_by_host = [], ps_metadata = [(''owner'', JStr ''ops'')]\<rparr>)"

definition demo_transport :: "bool \<Rightarrow> string option \<Rightarrow> (string, unit, nat) pinned_transport" where
  "demo_transport require_pin cert =
     \<lparr>pt_store = demo_store, pt_inner = (\<lambda>_. Inr 200), pt_extractor = (\<lambda>_. Inr cert), pt_require_pin = require_pin\<rparr>"

lemma demo_store_reachable: "pin_reachable demo_store"
  unfolding demo_store_def by (intro pin_add pin_init)

lemma pinned_response_verified_witness:
  "is_pinned demo_store ''api'' \<and> ''sha256:a'' \<in> pin_spki ` set (pins_for demo_store ''api'')"
proof -
  have "handle_request Inr (\<lambda>_. ''api'') (demo_transport True (Some ''sha256:a'')) () = Inr 200" by code_simp
  moreover have "is_pinned demo_store ''api''" by code_simp
  ultimately show ?thesis using pinned_response_verified [of Inr "\<lambda>_. ''api''" "demo_transport True (Some ''sha256:a'')" "()" 200]
    by (simp add: demo_transport_def)
qed

lemma pin_rotation_witness:
  "verify_pin Inr ''sha256:c'' ''api'' (add_pin (demo_pin ''sha256:c'') demo_store) True = Inr True \<and>
   verify_pin Inr ''sha256:a'' ''api'' (add_pin (demo_pin ''sha256:c'') demo_store) True = Inr True"
proof -
  have "verify_pin Inr ''sha256:a'' ''api'' demo_store True = Inr True" by code_simp
  then show ?thesis
    using pin_rotation [OF demo_store_reachable, of Inr "''sha256:c''" "''sha256:c''" "demo_pin ''sha256:c''" "''api''"]
    by (simp add: demo_pin_def)
qed

lemma pin_store_roundtrip_witness:
  "\<exists>st'. load_pin_store (save_pin_store demo_store) = Inr st' \<and>
     map pin_spki (pins_for st' ''api'') = [''sha256:a'', ''sha256:b'']"
proof -
  have "map pin_spki (loaded_pins (pins_for demo_store ''api'')) = [''sha256:a'', ''sha256:b'']"
    "ps_metadata demo_store = [(''owner'', JStr ''ops'')]" by code_simp+
  then show ?thesis using pin_store_roundtrip [OF demo_store_reachable] by force
qed

text \<open>A response without a certificate passes for an unpinned host although pins are required, and for a pinned host
  when they are not.\<close>

theorem plain_response_slips_through:
  "handle_request Inr (\<lambda>_. ''other'') (demo_transport True None) () = Inr 200 \<and>
   handle_request Inr (\<lambda>_. ''api'') (demo_transport False None) () = Inr 200 \<and>
   handle_request Inr (\<lambda>_. ''other'') (demo_transport True (Some ''sha256:a'')) () =
     Inl (Inr (PinVerificationError ''other'' ''sha256:a'' []))"
  by code_simp

text \<open>A metadata entry named like a field of the format replaces the pins in the file.\<close>

theorem metadata_replaces_pins:
  "map_sum (\<lambda>e. e) (\<lambda>st. pins_for st ''api'') (load_pin_store (save_pin_store
     (demo_store\<lparr>ps_metadata := [(''pins'', JList [])]\<rparr>))) = Inr []"
  by code_simp

end
