(* ===== verification/Keyring.thy ===== *)
theory Keyring
  imports Py_Codec
begin

text \<open>
  \<^verbatim>\<open>maestro/keyring.py\<close>: the API keys of the providers, in the process environment and in the \<^verbatim>\<open>.env\<close> file.
  The state is the environment and the files; the file is text with universal newlines, so a carriage return is
  read as a newline.  The answer of a provider's endpoint is a parameter.
\<close>

section \<open>Providers and masks\<close>

record provider_info =
  pv_env_var :: string
  pv_label :: string
  pv_prefix :: string
  pv_test_url :: string
  pv_signup_url :: string

definition PROVIDERS :: "(string, provider_info) dict" where
  "PROVIDERS =
     [(''openai'', \<lparr>pv_env_var = ''OPENAI_API_KEY'', pv_label = ''OpenAI'', pv_prefix = ''sk-'',
        pv_test_url = ''https://api.openai.com/v1/models'', pv_signup_url = ''https://platform.openai.com/api-keys''\<rparr>),
      (''anthropic'', \<lparr>pv_env_var = ''ANTHROPIC_API_KEY'', pv_label = ''Anthropic'', pv_prefix = ''sk-ant-'',
        pv_test_url = ''https://api.anthropic.com/v1/models'', pv_signup_url = ''https://console.anthropic.com/settings/keys''\<rparr>),
      (''google'', \<lparr>pv_env_var = ''GOOGLE_API_KEY'', pv_label = ''Google'', pv_prefix = ''AI'',
        pv_test_url = ''https://generativelanguage.googleapis.com/v1beta/models'', pv_signup_url = ''https://aistudio.google.com/apikey''\<rparr>),
      (''openrouter'', \<lparr>pv_env_var = ''OPENROUTER_API_KEY'', pv_label = ''OpenRouter'', pv_prefix = ''sk-or-'',
        pv_test_url = ''https://openrouter.ai/api/v1/models'', pv_signup_url = ''https://openrouter.ai/keys''\<rparr>)]"

definition PLACEHOLDER_VALUES :: "string list" where
  "PLACEHOLDER_VALUES = [[], ''sk-...'', ''...'', ''your-openai-key-here'', ''your-anthropic-key-here'',
     ''your-google-api-key-here'', ''your-openrouter-key-here'']"

record KeyStatus =
  ks_provider :: string
  ks_label :: string
  ks_env_var :: string
  ks_configured :: bool
  ks_masked_value :: string
  ks_signup_url :: string
  ks_valid :: "bool option"
  ks_error :: "string option"

definition mask_key :: "string \<Rightarrow> string" where
  "mask_key key =
     (if key = [] then []
      else if length key \<le> 10 then take 2 key @ replicate (length key - 2) CHR ''*''
      else take 4 key @ replicate (length key - 8) CHR ''*'' @ drop (length key - 4) key)"

section \<open>The .env file\<close>

text \<open>\<^verbatim>\<open>re.match(rf"^{re.escape(key)}\s*=", line)\<close>.\<close>

definition assigns_key :: "string \<Rightarrow> string \<Rightarrow> bool" where
  "assigns_key key line =
     (starts_with key line \<and> starts_with ''='' (dropWhile py_space (drop (length key) line)))"

definition assignment :: "string \<Rightarrow> string \<Rightarrow> string" where
  "assignment key val = key @ ''='' @ val @ [newline]"

definition upsert_lines :: "string \<Rightarrow> string \<Rightarrow> string list \<Rightarrow> string list" where
  "upsert_lines key val lines =
     (if list_ex (assigns_key key) lines then map (\<lambda>l. if assigns_key key l then assignment key val else l) lines
      else (if lines \<noteq> [] \<and> last (last lines) \<noteq> newline then butlast lines @ [last lines @ [newline]] else lines)
           @ [assignment key val])"

definition upsert_env_file :: "string \<Rightarrow> string \<Rightarrow> string option \<Rightarrow> string" where
  "upsert_env_file key val content =
     concat (upsert_lines key val (case content of None \<Rightarrow> [] | Some text \<Rightarrow> split_lines (universal_newlines text)))"

definition remove_from_env_file :: "string \<Rightarrow> string option \<Rightarrow> string option" where
  "remove_from_env_file key content =
     map_option (\<lambda>text. concat (filter (\<lambda>l. \<not> assigns_key key l) (split_lines (universal_newlines text)))) content"

section \<open>Keys\<close>

record keyring =
  kr_env :: "(string, string) dict"
  kr_files :: "(string, string) dict"
  kr_cwd :: string
  kr_project_root :: string

datatype key_error = UnknownProvider string

definition is_configured :: "string \<Rightarrow> bool" where
  "is_configured raw = (raw \<noteq> [] \<and> raw \<notin> set PLACEHOLDER_VALUES)"

definition get_key :: "string \<Rightarrow> keyring \<Rightarrow> string option" where
  "get_key provider kr =
     (case map_of PROVIDERS provider of
        None \<Rightarrow> None
      | Some info \<Rightarrow> (case map_of (kr_env kr) (pv_env_var info) of
                        None \<Rightarrow> None | Some v \<Rightarrow> if v = [] then None else Some v))"

definition list_keys :: "keyring \<Rightarrow> KeyStatus list" where
  "list_keys kr =
     map (\<lambda>(provider, info).
       let raw = dget (kr_env kr) (pv_env_var info) []; configured = is_configured raw
       in \<lparr>ks_provider = provider, ks_label = pv_label info, ks_env_var = pv_env_var info, ks_configured = configured,
           ks_masked_value = (if configured then mask_key raw else []), ks_signup_url = pv_signup_url info,
           ks_valid = None, ks_error = None\<rparr>) PROVIDERS"

text \<open>The \<^verbatim>\<open>.env\<close> file to use: the first candidate that exists; otherwise the fallback is created.\<close>

definition default_env_path :: "keyring \<Rightarrow> string \<times> keyring" where
  "default_env_path kr =
     (let env_file_var = py_strip (dget (kr_env kr) ''MAESTRO_ENV_FILE'' []);
          candidates = (if env_file_var \<noteq> [] then [env_file_var] else []) @
            [kr_cwd kr @ ''/.env'', kr_project_root kr @ ''/backend/.env'', kr_project_root kr @ ''/.env'']
      in case filter (\<lambda>p. p \<in> set (dkeys (kr_files kr))) candidates of
           p # _ \<Rightarrow> (p, kr)
         | [] \<Rightarrow> (let fallback = (if env_file_var \<noteq> [] then env_file_var else kr_project_root kr @ ''/.env'')
                 in (fallback, kr\<lparr>kr_files := dset fallback [] (kr_files kr)\<rparr>)))"

definition env_path :: "string option \<Rightarrow> keyring \<Rightarrow> string \<times> keyring" where
  "env_path path kr = (case path of None \<Rightarrow> default_env_path kr | Some p \<Rightarrow> (p, kr))"

definition plain_status :: "string \<Rightarrow> provider_info \<Rightarrow> bool \<Rightarrow> string \<Rightarrow> KeyStatus" where
  "plain_status provider info configured masked =
     \<lparr>ks_provider = provider, ks_label = pv_label info, ks_env_var = pv_env_var info, ks_configured = configured,
      ks_masked_value = masked, ks_signup_url = [], ks_valid = None, ks_error = None\<rparr>"

definition set_key :: "string \<Rightarrow> string \<Rightarrow> string option \<Rightarrow> keyring \<Rightarrow> key_error + KeyStatus \<times> keyring" where
  "set_key provider val0 path kr =
     (case map_of PROVIDERS provider of
        None \<Rightarrow> Inl (UnknownProvider provider)
      | Some info \<Rightarrow>
          (let val = py_strip val0;
               kr1 = kr\<lparr>kr_env := dset (pv_env_var info) val (kr_env kr)\<rparr>;
               (p, kr2) = env_path path kr1;
               text = upsert_env_file (pv_env_var info) val (map_of (kr_files kr2) p)
           in Inr (plain_status provider info True (mask_key val), kr2\<lparr>kr_files := dset p text (kr_files kr2)\<rparr>)))"

definition remove_key :: "string \<Rightarrow> string option \<Rightarrow> keyring \<Rightarrow> key_error + KeyStatus \<times> keyring" where
  "remove_key provider path kr =
     (case map_of PROVIDERS provider of
        None \<Rightarrow> Inl (UnknownProvider provider)
      | Some info \<Rightarrow>
          (let kr1 = kr\<lparr>kr_env := ddel (pv_env_var info) (kr_env kr)\<rparr>; (p, kr2) = env_path path kr1
           in Inr (plain_status provider info False [],
                   case remove_from_env_file (pv_env_var info) (map_of (kr_files kr2) p) of
                     None \<Rightarrow> kr2
                   | Some text \<Rightarrow> kr2\<lparr>kr_files := dset p text (kr_files kr2)\<rparr>)))"

section \<open>Validation\<close>

datatype http_outcome = Status int | TimedOut | RequestFailed string

record http_request =
  hq_url :: string
  hq_headers :: "(string, string) dict"

definition validation_request :: "string \<Rightarrow> provider_info \<Rightarrow> string \<Rightarrow> http_request option" where
  "validation_request provider info raw =
     (if provider = ''openai'' \<or> provider = ''openrouter''
      then Some \<lparr>hq_url = pv_test_url info, hq_headers = [(''Authorization'', ''Bearer '' @ raw)]\<rparr>
      else if provider = ''anthropic''
      then Some \<lparr>hq_url = pv_test_url info, hq_headers = [(''x-api-key'', raw), (''anthropic-version'', ''2023-06-01'')]\<rparr>
      else if provider = ''google'' then Some \<lparr>hq_url = pv_test_url info @ ''?key='' @ raw, hq_headers = []\<rparr>
      else None)"

fun outcome_status :: "http_outcome \<Rightarrow> KeyStatus \<Rightarrow> KeyStatus" where
  "outcome_status (Status code) st =
     (if code = 200 \<or> code = 201 then st\<lparr>ks_valid := Some True\<rparr>
      else st\<lparr>ks_valid := Some False, ks_error := Some
        (if code = 401 then ''Invalid or expired key''
         else if code = 403 then ''Key lacks required permissions'' else ''HTTP '' @ int_str code)\<rparr>)"
| "outcome_status TimedOut st = st\<lparr>ks_valid := Some False, ks_error := Some ''Connection timed out''\<rparr>"
| "outcome_status (RequestFailed e) st = st\<lparr>ks_valid := Some False, ks_error := Some e\<rparr>"

definition validate_key :: "(http_request \<Rightarrow> http_outcome) \<Rightarrow> string \<Rightarrow> keyring \<Rightarrow> key_error + KeyStatus" where
  "validate_key http provider kr =
     (case map_of PROVIDERS provider of
        None \<Rightarrow> Inl (UnknownProvider provider)
      | Some info \<Rightarrow>
          (let raw = dget (kr_env kr) (pv_env_var info) []; configured = is_configured raw;
               st = plain_status provider info configured (if configured then mask_key raw else [])
           in if \<not> configured then Inr (st\<lparr>ks_valid := Some False, ks_error := Some ''Key not configured''\<rparr>)
              else case validation_request provider info raw of
                     None \<Rightarrow> Inr (st\<lparr>ks_error := Some ''No validation method for this provider''\<rparr>)
                   | Some req \<Rightarrow> Inr (outcome_status (http req) st)))"

definition validate_all_keys :: "(http_request \<Rightarrow> http_outcome) \<Rightarrow> keyring \<Rightarrow> (key_error + KeyStatus) list" where
  "validate_all_keys http kr = map (\<lambda>p. validate_key http p kr) (dkeys PROVIDERS)"

section \<open>Lines\<close>

text \<open>A text whose only line ends are newlines; its lines.\<close>

definition plain_text :: "string \<Rightarrow> bool" where
  "plain_text s \<longleftrightarrow> list_all (\<lambda>c. line_break c \<longrightarrow> c = newline) s"

definition unbroken :: "string \<Rightarrow> bool" where
  "unbroken s \<longleftrightarrow> list_all (\<lambda>c. \<not> line_break c) s"

fun wf_lines :: "string list \<Rightarrow> bool" where
  "wf_lines [] = True"
| "wf_lines [l] = (l \<noteq> [] \<and> unbroken (butlast l) \<and> (line_break (last l) \<longrightarrow> last l = newline))"
| "wf_lines (l # ls) = (l \<noteq> [] \<and> unbroken (butlast l) \<and> last l = newline \<and> wf_lines ls)"

lemma line_break_newline [simp]: "line_break newline"
  by (simp add: line_break_def newline_def)

lemma split_lines_cons: "c # cs = l @ rest \<Longrightarrow> l \<noteq> [] \<Longrightarrow> \<exists>l'. l = c # l' \<and> cs = l' @ rest"
  by (cases l) auto

lemma split_lines_complete: "unbroken l \<Longrightarrow> split_lines (l @ newline # s) = (l @ [newline]) # split_lines s"
  by (induction l) (auto simp: unbroken_def)

lemma split_lines_last: "unbroken l \<Longrightarrow> l \<noteq> [] \<Longrightarrow> split_lines l = [l]"
proof (induction l)
  case (Cons c l)
  then show ?case by (cases l) (auto simp: unbroken_def)
qed simp

lemma unbroken_last: "l \<noteq> [] \<Longrightarrow> unbroken l \<longleftrightarrow> unbroken (butlast l) \<and> \<not> line_break (last l)"
  by (cases l rule: rev_cases) (auto simp: unbroken_def)

lemma split_lines_concat: "wf_lines ls \<Longrightarrow> split_lines (concat ls) = ls"
proof (induction ls rule: wf_lines.induct)
  case (2 l)
  show ?case
  proof (cases "last l = newline")
    case True
    then show ?thesis using 2 split_lines_complete [of "butlast l" "[]"] append_butlast_last_id [of l] by auto
  next
    case False
    then have "unbroken l" using 2 unbroken_last [of l] by simp
    then show ?thesis using 2 split_lines_last by simp
  qed
next
  case (3 l k ls)
  then have l: "butlast l @ [newline] = l" "unbroken (butlast l)" using append_butlast_last_id [of l] by auto
  have "concat (l # k # ls) = (butlast l @ [newline]) @ concat (k # ls)" unfolding l(1) by simp
  then have "split_lines (concat (l # k # ls)) = (butlast l @ [newline]) # split_lines (concat (k # ls))"
    using split_lines_complete [OF l(2), of "concat (k # ls)"] by (simp only: append.assoc append_Cons append_Nil)
  then show ?case using 3 l(1) by simp
qed simp

lemma wf_split_lines: "plain_text s \<Longrightarrow> wf_lines (split_lines s) \<and> concat (split_lines s) = s"
proof (induction s)
  case (Cons c s)
  then have IH: "wf_lines (split_lines s)" "concat (split_lines s) = s" by (auto simp: plain_text_def)
  show ?case
  proof (cases "line_break c")
    case True
    then have "c = newline" using Cons.prems by (simp add: plain_text_def)
    then show ?thesis using IH by (cases "split_lines s") (auto simp: unbroken_def)
  next
    case False
    then show ?thesis using IH
      by (cases "split_lines s"; cases "tl (split_lines s)") (auto simp: unbroken_def)
  qed
qed (simp add: plain_text_def)

lemma universal_newlines_id: "CHR 0x0D \<notin> set s \<Longrightarrow> universal_newlines s = s"
  by (induction s rule: universal_newlines.induct) auto

section \<open>What an update does to the file\<close>

definition assignments :: "string \<Rightarrow> string \<Rightarrow> string list" where
  "assignments key text = filter (assigns_key key) (split_lines text)"

definition other_lines :: "string \<Rightarrow> string \<Rightarrow> string list" where
  "other_lines key text = map (filter (\<lambda>c. c \<noteq> newline)) (filter (\<lambda>l. \<not> assigns_key key l) (split_lines text))"

definition env_text :: "string option \<Rightarrow> string" where
  "env_text content = (case content of None \<Rightarrow> [] | Some text \<Rightarrow> universal_newlines text)"

lemma starts_with_append: "starts_with p (p @ s)"
  by (simp add: starts_with_def)

lemma not_space_equals: "\<not> py_space CHR ''=''"
  by code_simp

lemma assigns_assignment: "assigns_key key (assignment key val)"
  by (simp add: assigns_key_def assignment_def starts_with_append not_space_equals) (simp add: starts_with_def)

lemma py_space_newline: "py_space newline"
  by code_simp

lemma starts_with_snoc:
  "newline \<notin> set p \<Longrightarrow> starts_with p (l @ [newline]) \<longleftrightarrow> starts_with p l"
proof (induction p arbitrary: l)
  case (Cons a p)
  then show ?case by (cases l) (auto simp: starts_with_def)
qed (simp add: starts_with_def)

lemma dropWhile_snoc_newline:
  "starts_with ''='' (dropWhile py_space (l @ [newline])) \<longleftrightarrow> starts_with ''='' (dropWhile py_space l)"
  by (induction l) (auto simp: py_space_newline starts_with_def newline_def)

lemma assigns_snoc: "newline \<notin> set key \<Longrightarrow> assigns_key key (l @ [newline]) \<longleftrightarrow> assigns_key key l"
proof -
  assume n: "newline \<notin> set key"
  show ?thesis
  proof (cases "starts_with key l")
    case True
    then have "length key \<le> length l" by (metis starts_with_def length_take min.cobounded1 min.commute)
    then show ?thesis using n True by (simp add: assigns_key_def starts_with_snoc dropWhile_snoc_newline)
  qed (simp add: assigns_key_def starts_with_snoc [OF n])
qed

definition unbroken_pair :: "string \<Rightarrow> string \<Rightarrow> bool" where
  "unbroken_pair key val \<longleftrightarrow> unbroken key \<and> unbroken val"

lemma unbroken_newline: "unbroken s \<Longrightarrow> newline \<notin> set s"
  by (auto simp: unbroken_def list_all_iff)

lemma wf_assignment: "unbroken_pair key val \<Longrightarrow> assignment key val \<noteq> [] \<and> unbroken (butlast (assignment key val)) \<and>
    last (assignment key val) = newline"
  by (simp add: assignment_def unbroken_pair_def unbroken_def butlast_append line_break_def)

lemma wf_lines_Cons: "wf_lines (l # ls) \<longleftrightarrow> l \<noteq> [] \<and> unbroken (butlast l) \<and>
    (if ls = [] then line_break (last l) \<longrightarrow> last l = newline else last l = newline) \<and> wf_lines ls"
  by (cases ls) auto

lemma wf_replace:
  "unbroken_pair key val \<Longrightarrow> wf_lines ls \<Longrightarrow> wf_lines (map (\<lambda>l. if assigns_key key l then assignment key val else l) ls)"
  by (induction ls) (auto simp: wf_lines_Cons wf_assignment)

lemma wf_append:
  "wf_lines ls \<Longrightarrow> (ls \<noteq> [] \<Longrightarrow> last (last ls) = newline) \<Longrightarrow> wf_lines ms \<Longrightarrow> wf_lines (ls @ ms)"
  by (induction ls) (auto simp: wf_lines_Cons split: if_splits)

lemma wf_complete_last:
  assumes "wf_lines ls" "ls \<noteq> []" "last (last ls) \<noteq> newline"
  shows "wf_lines (butlast ls @ [last ls @ [newline]])"
  using assms
proof (induction ls)
  case (Cons l ls)
  show ?case
  proof (cases "ls = []")
    case True
    then have "\<not> line_break (last l)" "l \<noteq> []" "unbroken (butlast l)" using Cons.prems by (auto simp: wf_lines_Cons)
    then have "unbroken l" using unbroken_last by blast
    then show ?thesis using True \<open>l \<noteq> []\<close> by (simp add: butlast_append)
  next
    case False
    then show ?thesis using Cons by (auto simp: wf_lines_Cons)
  qed
qed simp

lemma wf_upsert: "unbroken_pair key val \<Longrightarrow> wf_lines ls \<Longrightarrow> wf_lines (upsert_lines key val ls)"
proof -
  assume u: "unbroken_pair key val" and w: "wf_lines ls"
  have one: "wf_lines [assignment key val]" using wf_assignment [OF u] by simp
  show ?thesis
  proof (cases "list_ex (assigns_key key) ls")
    case True
    then show ?thesis using wf_replace [OF u w] by (simp add: upsert_lines_def)
  next
    case False
    let ?b = "if ls \<noteq> [] \<and> last (last ls) \<noteq> newline then butlast ls @ [last ls @ [newline]] else ls"
    have "wf_lines ?b" "?b \<noteq> [] \<Longrightarrow> last (last ?b) = newline" using w wf_complete_last [OF w] by auto
    then show ?thesis using False wf_append [OF _ _ one, of ?b] by (simp add: upsert_lines_def)
  qed
qed

lemma upsert_filter:
  assumes "unbroken_pair key val"
  shows "filter (assigns_key key) (upsert_lines key val ls) = replicate (max 1 (length (filter (assigns_key key) ls))) (assignment key val)"
    and "map (filter (\<lambda>c. c \<noteq> newline)) (filter (\<lambda>l. \<not> assigns_key key l) (upsert_lines key val ls)) =
         map (filter (\<lambda>c. c \<noteq> newline)) (filter (\<lambda>l. \<not> assigns_key key l) ls)"
proof -
  have key: "newline \<notin> set key" using assms unbroken_newline by (simp add: unbroken_pair_def)
  let ?f = "\<lambda>l. if assigns_key key l then assignment key val else l"
  have found: "filter (assigns_key key) (map ?f ls) = replicate (length (filter (assigns_key key) ls)) (assignment key val)"
    "filter (\<lambda>l. \<not> assigns_key key l) (map ?f ls) = filter (\<lambda>l. \<not> assigns_key key l) ls" for ls
    by (induction ls) (auto simp: assigns_assignment)
  have pos: "list_ex (assigns_key key) ls \<longleftrightarrow> 1 \<le> length (filter (assigns_key key) ls)"
    by (induction ls) auto
  have no: "\<not> list_ex (assigns_key key) ls \<Longrightarrow> filter (assigns_key key) ls = [] \<and> filter (\<lambda>l. \<not> assigns_key key l) ls = ls"
    by (auto simp: list_ex_iff filter_empty_conv)
  let ?b = "if ls \<noteq> [] \<and> last (last ls) \<noteq> newline then butlast ls @ [last ls @ [newline]] else ls"
  have b: "\<not> list_ex (assigns_key key) ls \<Longrightarrow> \<not> list_ex (assigns_key key) ?b"
    using assigns_snoc [OF key] by (cases ls rule: rev_cases) (auto simp: list_ex_iff)
  have bm: "map (filter (\<lambda>c. c \<noteq> newline)) ?b = map (filter (\<lambda>c. c \<noteq> newline)) ls"
    by (cases ls rule: rev_cases) auto
  have b2: "\<not> list_ex (assigns_key key) ls \<Longrightarrow> filter (assigns_key key) ?b = [] \<and> filter (\<lambda>l. \<not> assigns_key key l) ?b = ?b"
    using b by (simp add: list_ex_iff filter_empty_conv)
  show "filter (assigns_key key) (upsert_lines key val ls) = replicate (max 1 (length (filter (assigns_key key) ls))) (assignment key val)"
  proof (cases "list_ex (assigns_key key) ls")
    case True
    then show ?thesis using found(1) [of ls] pos by (simp add: upsert_lines_def max_def)
  next
    case False
    then show ?thesis unfolding upsert_lines_def using b2 no by (simp add: assigns_assignment)
  qed
  show "map (filter (\<lambda>c. c \<noteq> newline)) (filter (\<lambda>l. \<not> assigns_key key l) (upsert_lines key val ls)) =
         map (filter (\<lambda>c. c \<noteq> newline)) (filter (\<lambda>l. \<not> assigns_key key l) ls)"
  proof (cases "list_ex (assigns_key key) ls")
    case True
    then show ?thesis using found(2) [of ls] by (simp add: upsert_lines_def)
  next
    case False
    then show ?thesis unfolding upsert_lines_def using b2 no bm by (simp add: assigns_assignment del: map_map)
  qed
qed

definition plain_content :: "string option \<Rightarrow> bool" where
  "plain_content content \<longleftrightarrow> plain_text (env_text content)"

lemma upsert_text_lines:
  assumes "unbroken_pair key val" "plain_content content"
  shows "split_lines (upsert_env_file key val content) = upsert_lines key val (split_lines (env_text content))"
proof -
  have "upsert_env_file key val content = concat (upsert_lines key val (split_lines (env_text content)))"
    by (cases content) (simp_all add: upsert_env_file_def env_text_def)
  moreover have "wf_lines (split_lines (env_text content))"
    using assms(2) wf_split_lines by (simp add: plain_content_def)
  ultimately show ?thesis using split_lines_concat [OF wf_upsert [OF assms(1)]] by simp
qed

lemma upsert_twice: "unbroken_pair key val \<Longrightarrow> upsert_lines key val (upsert_lines key val ls) = upsert_lines key val ls"
proof -
  assume u: "unbroken_pair key val"
  let ?ms = "upsert_lines key val ls"
  have f: "filter (assigns_key key) ?ms = replicate (max 1 (length (filter (assigns_key key) ls))) (assignment key val)"
    by (rule upsert_filter(1) [OF u])
  then have "filter (assigns_key key) ?ms \<noteq> []" by simp
  then have "list_ex (assigns_key key) ?ms" by (simp add: list_ex_iff filter_empty_conv)
  moreover have "l = assignment key val" if "l \<in> set ?ms" "assigns_key key l" for l
  proof -
    have "l \<in> set (filter (assigns_key key) ?ms)" using that by simp
    then show ?thesis unfolding f by simp
  qed
  ultimately show ?thesis by (subst upsert_lines_def) (auto intro: map_idI)
qed

lemma plain_concat: "wf_lines ls \<Longrightarrow> plain_text (concat ls)"
proof -
  have one: "plain_text l" if "l \<noteq> []" "unbroken (butlast l)" "line_break (last l) \<longrightarrow> last l = newline" for l
    using that by (cases l rule: rev_cases) (auto simp: plain_text_def unbroken_def list_all_iff)
  show "wf_lines ls \<Longrightarrow> plain_text (concat ls)"
  proof (induction ls)
    case (Cons l ls)
    then have "plain_text l" using one [of l] by (auto simp: wf_lines_Cons split: if_splits)
    then show ?case using Cons by (simp add: plain_text_def wf_lines_Cons)
  qed (simp add: plain_text_def)
qed

lemma no_return_upsert:
  assumes "CHR 0x0D \<notin> set key" "CHR 0x0D \<notin> set val" "CHR 0x0D \<notin> set (concat ls)"
  shows "CHR 0x0D \<notin> set (concat (upsert_lines key val ls))"
  using assms by (cases ls rule: rev_cases) (auto simp: upsert_lines_def assignment_def newline_def split: if_splits)

lemma no_return_universal: "CHR 0x0D \<notin> set (universal_newlines s)"
  by (induction s rule: universal_newlines.induct) (auto simp: newline_def)

text \<open>
  Library fact: Writing a key into the \<^verbatim>\<open>.env\<close> file puts exactly that assignment there: when the key and the value are
  single lines, every line of the new file that assigns_key the key is \<^verbatim>\<open>key=value\<close>, there is one if there was none
  and as many as before otherwise, all other lines keep their text and their order, and writing the same key
  again leaves the file as it is.
\<close>

theorem upsert_exact:
  assumes "unbroken_pair key val" "plain_content content" "CHR 0x0D \<notin> set key" "CHR 0x0D \<notin> set val"
  shows "assignments key (upsert_env_file key val content) =
      replicate (max 1 (length (assignments key (env_text content)))) (assignment key val) \<and>
    other_lines key (upsert_env_file key val content) = other_lines key (env_text content) \<and>
    upsert_env_file key val (Some (upsert_env_file key val content)) = upsert_env_file key val content"
proof (intro conjI)
  note ls = upsert_text_lines [OF assms(1,2)]
  show "assignments key (upsert_env_file key val content) =
      replicate (max 1 (length (assignments key (env_text content)))) (assignment key val)"
    unfolding assignments_def ls by (rule upsert_filter(1) [OF assms(1)])
  show "other_lines key (upsert_env_file key val content) = other_lines key (env_text content)"
    unfolding other_lines_def ls by (rule upsert_filter(2) [OF assms(1)])
  have wf: "wf_lines (split_lines (env_text content))" "concat (split_lines (env_text content)) = env_text content"
    using assms(2) wf_split_lines by (simp_all add: plain_content_def)
  have up: "upsert_env_file key val content = concat (upsert_lines key val (split_lines (env_text content)))"
    by (cases content) (simp_all add: upsert_env_file_def env_text_def)
  have "CHR 0x0D \<notin> set (env_text content)" by (cases content) (simp_all add: env_text_def no_return_universal)
  then have "CHR 0x0D \<notin> set (upsert_env_file key val content)" unfolding up using assms(3,4) wf(2) by (intro no_return_upsert) simp_all
  then have "upsert_env_file key val (Some (upsert_env_file key val content)) =
      concat (upsert_lines key val (upsert_lines key val (split_lines (env_text content))))"
    by (subst upsert_env_file_def) (simp add: universal_newlines_id ls)
  then show "upsert_env_file key val (Some (upsert_env_file key val content)) = upsert_env_file key val content"
    unfolding upsert_twice [OF assms(1)] up .
qed

text \<open>
  Library fact: Removing a key takes all its assignments out of the file and nothing else: no line of the new file assigns_key
  the key, and all other lines keep their text and their order.
\<close>

theorem remove_exact:
  assumes "plain_text (universal_newlines text)" "remove_from_env_file key (Some text) = Some text'"
  shows "assignments key text' = [] \<and> other_lines key text' = other_lines key (universal_newlines text)"
proof -
  let ?ls = "split_lines (universal_newlines text)"
  have wf: "wf_lines ?ls" using wf_split_lines [OF assms(1)] by blast
  have "wf_lines (filter P ls)" if "wf_lines ls" for P and ls :: "string list"
    using that by (induction ls) (auto simp: wf_lines_Cons split: if_splits)
  then have "split_lines text' = filter (\<lambda>l. \<not> assigns_key key l) ?ls"
    using assms(2) split_lines_concat wf by (auto simp: remove_from_env_file_def)
  then show ?thesis by (simp add: assignments_def other_lines_def filter_empty_conv)
qed

section \<open>What the keys show and do\<close>

text \<open>
  Library fact: A mask has the length of the key and hides it: of a key of more than ten characters only the first four and
  the last four are shown, of a shorter one only the first two; every other character is a star.
\<close>

theorem mask_key_hides:
  "length (mask_key key) = length key \<and>
   (\<forall>i < length key. (if length key \<le> 10 then 2 \<le> i else 4 \<le> i \<and> i < length key - 4) \<longrightarrow> mask_key key ! i = CHR ''*'')"
  by (auto simp: mask_key_def nth_append min_def)

lemma env_vars_distinct:
  assumes "map_of PROVIDERS p = Some i" "map_of PROVIDERS q = Some j" "p \<noteq> q"
  shows "pv_env_var i \<noteq> pv_env_var j"
  using assms by (auto simp: PROVIDERS_def split: if_splits)

lemma default_env_path_env: "kr_env (snd (default_env_path kr)) = kr_env kr"
  by (simp add: default_env_path_def Let_def split: list.splits)

lemma env_path_env: "kr_env (snd (env_path path kr)) = kr_env kr"
  by (simp add: env_path_def default_env_path_env split: option.splits)

text \<open>
  Library fact: Setting a key takes effect at once and only for its provider: the stripped value is what the provider's key
  reads, an empty one reads as no key, the keys of the other providers stay, and the file used holds the update
  of what it held; removing the key afterwards leaves the provider without a key.
\<close>

theorem set_key_effective:
  assumes "map_of PROVIDERS provider = Some info" "set_key provider val path kr = Inr (st, kr')"
  shows "get_key provider kr' = (if py_strip val = [] then None else Some (py_strip val)) \<and>
    (\<forall>q. q \<noteq> provider \<longrightarrow> get_key q kr' = get_key q kr) \<and>
    (\<exists>p content. map_of (kr_files kr') p = Some (upsert_env_file (pv_env_var info) (py_strip val) content) \<and>
       (path = Some p \<longrightarrow> content = map_of (kr_files kr) p)) \<and>
    (\<exists>st2 kr2. remove_key provider path kr' = Inr (st2, kr2) \<and> get_key provider kr2 = None \<and> \<not> ks_configured st2)"
proof -
  let ?kr1 = "kr\<lparr>kr_env := dset (pv_env_var info) (py_strip val) (kr_env kr)\<rparr>"
  obtain p kr2 where ep: "env_path path ?kr1 = (p, kr2)" by (cases "env_path path ?kr1")
  have kr': "kr' = kr2\<lparr>kr_files := dset p (upsert_env_file (pv_env_var info) (py_strip val) (map_of (kr_files kr2) p)) (kr_files kr2)\<rparr>"
    using assms ep by (simp add: set_key_def Let_def)
  have env: "kr_env kr' = dset (pv_env_var info) (py_strip val) (kr_env kr)"
    using env_path_env [of path ?kr1] ep unfolding kr' by simp
  have other: "get_key q kr' = get_key q kr" if "q \<noteq> provider" for q
    using env_vars_distinct [OF _ assms(1) that] by (auto simp: get_key_def env split: option.splits)
  have fileq: "map_of (kr_files kr') p = Some (upsert_env_file (pv_env_var info) (py_strip val) (map_of (kr_files kr2) p))"
    by (simp add: kr')
  have same: "path = Some p' \<Longrightarrow> p' = p \<and> map_of (kr_files kr2) p = map_of (kr_files kr) p" for p'
    using ep by (auto simp: env_path_def)
  let ?kr3 = "kr'\<lparr>kr_env := ddel (pv_env_var info) (kr_env kr')\<rparr>"
  have "kr_env (snd (env_path path ?kr3)) = ddel (pv_env_var info) (kr_env kr')" by (simp add: env_path_env)
  then have "\<exists>st2 kr2. remove_key provider path kr' = Inr (st2, kr2) \<and> get_key provider kr2 = None \<and> \<not> ks_configured st2"
    using assms(1) by (auto simp: remove_key_def Let_def case_prod_beta get_key_def plain_status_def split: option.splits)
  then show ?thesis using assms(1) env other fileq same by (auto simp: get_key_def)
qed

text \<open>
  Library fact: Validating a key always gives a verdict for a known provider: the key is valid exactly when it is configured
  and its provider's endpoint answers 200 or 201, an error is reported exactly when it is not valid, a key that
  is not configured is never sent, and an unknown provider raises.
\<close>

theorem validate_key_exact:
  "(\<forall>info. map_of PROVIDERS provider = Some info \<longrightarrow>
     (let raw = dget (kr_env kr) (pv_env_var info) [] in
      \<exists>st req. validation_request provider info raw = Some req \<and> validate_key http provider kr = Inr st \<and>
        (ks_valid st = Some True \<longleftrightarrow> is_configured raw \<and> (http req = Status 200 \<or> http req = Status 201)) \<and>
        ks_valid st \<noteq> None \<and> (ks_error st = None \<longleftrightarrow> ks_valid st = Some True) \<and>
        (\<not> is_configured raw \<longrightarrow> (\<forall>http'. validate_key http' provider kr = Inr st)))) \<and>
   (map_of PROVIDERS provider = None \<longrightarrow> validate_key http provider kr = Inl (UnknownProvider provider))"
proof (intro conjI allI impI)
  fix info
  assume i: "map_of PROVIDERS provider = Some info"
  define raw where "raw = dget (kr_env kr) (pv_env_var info) []"
  have "provider \<in> {''openai'', ''anthropic'', ''google'', ''openrouter''}" using i by (auto simp: PROVIDERS_def split: if_splits)
  then obtain req where req: "validation_request provider info raw = Some req" by (auto simp: validation_request_def)
  have "\<exists>st. validate_key http provider kr = Inr st \<and>
        (ks_valid st = Some True \<longleftrightarrow> is_configured raw \<and> (http req = Status 200 \<or> http req = Status 201)) \<and>
        ks_valid st \<noteq> None \<and> (ks_error st = None \<longleftrightarrow> ks_valid st = Some True) \<and>
        (\<not> is_configured raw \<longrightarrow> (\<forall>http'. validate_key http' provider kr = Inr st))"
  proof (cases "is_configured raw")
    case False
    then show ?thesis using i by (auto simp: validate_key_def raw_def Let_def)
  next
    case True
    then show ?thesis using i req
      by (cases "http req") (auto simp: validate_key_def raw_def [symmetric] Let_def plain_status_def)
  qed
  then show "let raw = dget (kr_env kr) (pv_env_var info) [] in
      \<exists>st req. validation_request provider info raw = Some req \<and> validate_key http provider kr = Inr st \<and>
        (ks_valid st = Some True \<longleftrightarrow> is_configured raw \<and> (http req = Status 200 \<or> http req = Status 201)) \<and>
        ks_valid st \<noteq> None \<and> (ks_error st = None \<longleftrightarrow> ks_valid st = Some True) \<and>
        (\<not> is_configured raw \<longrightarrow> (\<forall>http'. validate_key http' provider kr = Inr st))"
    unfolding raw_def [symmetric] Let_def by (elim exE conjE) (intro exI conjI; (rule req | assumption))
qed (simp add: validate_key_def)

section \<open>Witnesses\<close>

definition demo_keyring :: keyring where
  "demo_keyring = \<lparr>kr_env = [(''OPENAI_API_KEY'', ''sk-old-0123456789'')], kr_files = [(''/app/.env'', ''A=1'')],
     kr_cwd = ''/app'', kr_project_root = ''/src''\<rparr>"

lemma upsert_exact_witness:
  "assignments ''K'' (upsert_env_file ''K'' ''v'' (Some ''A=1'')) = [assignment ''K'' ''v''] \<and>
   other_lines ''K'' (upsert_env_file ''K'' ''v'' (Some ''A=1'')) = [''A=1'']"
proof -
  have "unbroken_pair ''K'' ''v''" "plain_content (Some ''A=1'')" "assignments ''K'' (env_text (Some ''A=1'')) = []"
    "other_lines ''K'' (env_text (Some ''A=1'')) = [''A=1'']" by code_simp+
  then show ?thesis using upsert_exact [of "''K''" "''v''" "Some ''A=1''"] by simp
qed

lemma remove_exact_witness: "assignments ''K'' (the (remove_from_env_file ''K'' (Some ''K =1''))) = []"
proof -
  have "plain_text (universal_newlines ''K =1'')" by code_simp
  moreover have "remove_from_env_file ''K'' (Some ''K =1'') = Some (the (remove_from_env_file ''K'' (Some ''K =1'')))"
    unfolding remove_from_env_file_def option.map option.sel by (rule refl)
  ultimately show ?thesis using remove_exact by blast
qed

lemma mask_key_hides_witness: "mask_key ''sk-0123456789'' ! 7 = CHR ''*''"
  using mask_key_hides [of "''sk-0123456789''"] by simp

lemma set_key_effective_witness:
  "\<exists>st kr'. set_key ''openai'' '' sk-new '' None demo_keyring = Inr (st, kr') \<and> get_key ''openai'' kr' = Some ''sk-new''"
proof -
  obtain st kr' where s: "set_key ''openai'' '' sk-new '' None demo_keyring = Inr (st, kr')"
  proof -
    have "isl (set_key ''openai'' '' sk-new '' None demo_keyring) = False" by code_simp
    then show ?thesis using that by (cases "set_key ''openai'' '' sk-new '' None demo_keyring") auto
  qed
  moreover have "py_strip '' sk-new '' = ''sk-new''" by code_simp
  moreover have "map_of PROVIDERS ''openai'' \<noteq> None" by (simp add: PROVIDERS_def)
  ultimately show ?thesis using set_key_effective [of "''openai''" _ "'' sk-new ''" None demo_keyring st kr'] by auto
qed

lemma validate_key_exact_witness:
  "\<exists>st. validate_key (\<lambda>_. Status 401) ''openai'' demo_keyring = Inr st \<and> ks_valid st \<noteq> Some True \<and> ks_error st \<noteq> None"
proof -
  have "map_of PROVIDERS ''openai'' \<noteq> None" by (simp add: PROVIDERS_def)
  then show ?thesis using validate_key_exact [of "''openai''" demo_keyring "\<lambda>_. Status 401"] by (auto simp: Let_def)
qed

text \<open>Setting a placeholder or an empty value reports the key as configured, while listing the keys does not.\<close>

theorem empty_key_reported_configured:
  "map_sum (\<lambda>e. e) (\<lambda>(st, kr). (ks_configured st, ks_configured (hd (list_keys kr)), get_key ''openai'' kr))
     (set_key ''openai'' '' '' None demo_keyring) = Inr (True, False, None)"
  by code_simp

text \<open>A value with a newline in it writes a second assignment into the file.\<close>

theorem newline_injects_assignment:
  "assignments ''ADMIN'' (upsert_env_file ''K'' (''v'' @ newline # ''ADMIN=1'') (Some [])) = [assignment ''ADMIN'' ''1'']"
  by code_simp

end
