(* ===== verification/Instances.thy ===== *)
theory Instances
  imports Py_Codec
begin

text \<open>
  \<^verbatim>\<open>maestro/instances.py\<close>: the instances on one host, their numbers, ports, roles and shard indices, the registry
  that survives a restart, and the spawning and stopping of an instance.  Docker is a parameter, a record of the
  commands used over a state of its own, which may refuse or fail; the name of a new instance is drawn by the
  caller.  The registry is keyed by the instance number, whose decimal text is the key in the file; a registry
  that is missing or does not parse is the empty one, and one that cannot be written stays as it was.
\<close>

section \<open>Numbers, ports and the registry\<close>

definition BASE_PORT :: int where
  "BASE_PORT = 8000"

definition PORT_STRIDE :: int where
  "PORT_STRIDE = 10"

definition SHARED_REDIS_NAME :: string where
  "SHARED_REDIS_NAME = ''maestro-shared-redis''"

definition SHARED_REDIS_PORT :: int where
  "SHARED_REDIS_PORT = 6399"

definition project_name :: "int \<Rightarrow> string" where
  "project_name n = ''maestro-'' @ int_str n"

definition instance_port :: "int \<Rightarrow> int" where
  "instance_port n = BASE_PORT + (n - 1) * PORT_STRIDE"

record registry_entry =
  re_role :: string
  re_shard_index :: "int option"
  re_human_name :: string
  re_port :: int
  re_container_ip :: string

record InstanceInfo =
  ii_number :: int
  ii_project :: string
  ii_port :: int
  ii_url :: string
  ii_healthy :: "bool option"
  ii_role :: string
  ii_shard_index :: "int option"
  ii_human_name :: string
  ii_container_ip :: string

text \<open>
  The commands: \<open>None\<close> of \<open>dk_ps\<close> is an exception, \<open>Some detail\<close> of a start is its failure.
\<close>

record 'd docker =
  dk_compose_found :: "'d \<Rightarrow> bool"
  dk_ps :: "'d \<Rightarrow> string list option"
  dk_port_available :: "int \<Rightarrow> 'd \<Rightarrow> bool"
  dk_ensure_network :: "'d \<Rightarrow> 'd"
  dk_redis_running :: "'d \<Rightarrow> bool"
  dk_start_redis :: "'d \<Rightarrow> string option \<times> 'd"
  dk_cleanup_project :: "string \<Rightarrow> 'd \<Rightarrow> 'd"
  dk_release_port :: "int \<Rightarrow> 'd \<Rightarrow> 'd"
  dk_compose_up :: "string \<Rightarrow> (string, string) dict \<Rightarrow> 'd \<Rightarrow> string option \<times> 'd"
  dk_connect :: "string \<Rightarrow> 'd \<Rightarrow> 'd"
  dk_disconnect :: "string \<Rightarrow> 'd \<Rightarrow> 'd"
  dk_compose_down :: "string option \<Rightarrow> 'd \<Rightarrow> 'd"
  dk_health :: "int \<Rightarrow> nat \<Rightarrow> 'd \<Rightarrow> bool"
  dk_container_ip :: "string \<Rightarrow> 'd \<Rightarrow> string"
  dk_redis_set :: "string \<Rightarrow> json \<Rightarrow> 'd \<Rightarrow> 'd"
  dk_stop_redis :: "'d \<Rightarrow> 'd"
  dk_remove_network :: "'d \<Rightarrow> 'd"

record 'd host =
  ho_docker :: 'd
  ho_registry :: "(int, registry_entry) dict"
  ho_writable :: bool
  ho_environ :: "(string, string) dict"

definition save_registry :: "(int, registry_entry) dict \<Rightarrow> 'd host \<Rightarrow> 'd host" where
  "save_registry reg h = (if ho_writable h then h\<lparr>ho_registry := reg\<rparr> else h)"

definition register_instance :: "int \<Rightarrow> registry_entry \<Rightarrow> 'd host \<Rightarrow> 'd host" where
  "register_instance n e h = save_registry (dset n e (ho_registry h)) h"

definition unregister_instance :: "int \<Rightarrow> 'd host \<Rightarrow> 'd host" where
  "unregister_instance n h = save_registry (ddel n (ho_registry h)) h"

section \<open>Detection\<close>

definition instance_of_name :: "string \<Rightarrow> int option" where
  "instance_of_name name = List.find (\<lambda>i. starts_with (project_name i @ ''-'') name) [1..99]"

definition detect_running :: "'d docker \<Rightarrow> 'd host \<Rightarrow> int list" where
  "detect_running D h =
     (case dk_ps D (ho_docker h) of
        None \<Rightarrow> []
      | Some names \<Rightarrow> sort (remdups (List.map_filter instance_of_name names)))"

definition next_instance_number :: "'d docker \<Rightarrow> 'd host \<Rightarrow> int" where
  "next_instance_number D h =
     (case detect_running D h @ dkeys (ho_registry h) of [] \<Rightarrow> 1 | k # ks \<Rightarrow> Max (set (k # ks)) + 1)"

definition check_health :: "'d docker \<Rightarrow> int \<Rightarrow> nat \<Rightarrow> 'd host \<Rightarrow> bool" where
  "check_health D n attempt h = dk_health D (instance_port n) attempt (ho_docker h)"

definition instance_url :: "int \<Rightarrow> string" where
  "instance_url n = ''http://localhost:'' @ int_str (instance_port n)"

definition get_all_status :: "'d docker \<Rightarrow> 'd host \<Rightarrow> InstanceInfo list" where
  "get_all_status D h =
     map (\<lambda>n. let reg = map_of (ho_registry h) n in
         \<lparr>ii_number = n, ii_project = project_name n, ii_port = instance_port n, ii_url = instance_url n,
          ii_healthy = Some (check_health D n 0 h),
          ii_role = (case reg of Some e \<Rightarrow> re_role e | None \<Rightarrow> if n = 1 then ''orchestrator'' else ''shard''),
          ii_shard_index = Option.bind reg re_shard_index,
          ii_human_name = (case reg of Some e \<Rightarrow> re_human_name e | None \<Rightarrow> []),
          ii_container_ip = (case reg of Some e \<Rightarrow> re_container_ip e | None \<Rightarrow> [])\<rparr>)
       (sort (remdups (detect_running D h @ dkeys (ho_registry h))))"

section \<open>The environment of an instance\<close>

definition instance_env ::
  "int \<Rightarrow> string \<Rightarrow> int option \<Rightarrow> string \<Rightarrow> int \<Rightarrow> (string, string) dict \<Rightarrow> (string, string) dict" where
  "instance_env n role shard_index human_name total_shards environ =
     (let port = instance_port n;
          orch = ''http://'' @ project_name 1 @ ''-orchestrator-1:8000''
      in fold (\<lambda>(k, v). dset k v)
        ([(''MAESTRO_PORT'', int_str port), (''COMPOSE_PROJECT_NAME'', project_name n), (''NODE_ROLE'', role),
          (''NODE_ID'', if human_name \<noteq> [] then human_name else project_name n), (''SHARD_COUNT'', int_str total_shards),
          (''MAESTRO_INSTANCE_NAME'', human_name), (''REDIS_URL'', ''redis://'' @ SHARED_REDIS_NAME @ '':6379'')] @
         (case shard_index of
            Some i \<Rightarrow> if role = ''shard'' then [(''SHARD_INDEX'', int_str i), (''ORCHESTRATOR_URL'', orch),
                                               (''MAESTRO_ORCHESTRATOR_URL'', orch)] else []
          | None \<Rightarrow> []) @
         [(''SHARD1_PORT'', int_str (port + 1)), (''SHARD2_PORT'', int_str (port + 2)), (''SHARD3_PORT'', int_str (port + 3)),
          (''POSTGRES_PORT'', int_str (5432 + (n - 1)))]) environ)"

section \<open>Spawning and stopping\<close>

datatype instance_error = NoCompose | RedisPortTaken | RedisFailed string | PortInUse int | StartFailed string

definition shard_entries_of :: "(int, registry_entry) dict \<Rightarrow> registry_entry list" where
  "shard_entries_of reg = filter (\<lambda>e. re_role e = ''shard'') (dvalues reg)"

text \<open>The loop \<^verbatim>\<open>while shard_index in used_indices\<close>, bounded by the number of used indices.\<close>

fun first_free :: "nat \<Rightarrow> int \<Rightarrow> int list \<Rightarrow> int" where
  "first_free 0 i used = i"
| "first_free (Suc k) i used = (if i \<in> set used then first_free k (i + 1) used else i)"

definition next_shard_index :: "(int, registry_entry) dict \<Rightarrow> int" where
  "next_shard_index reg =
     (let used = List.map_filter re_shard_index (shard_entries_of reg) in first_free (length used) 0 used)"

definition ensure_shared_redis :: "'d docker \<Rightarrow> 'd \<Rightarrow> instance_error option \<times> 'd" where
  "ensure_shared_redis D d =
     (if dk_redis_running D d then (None, d)
      else if \<not> dk_port_available D SHARED_REDIS_PORT d then (Some RedisPortTaken, d)
      else (let (failure, d') = dk_start_redis D d in (map_option RedisFailed failure, d')))"

definition broadcast_shard_count :: "'d docker \<Rightarrow> 'd host \<Rightarrow> 'd host" where
  "broadcast_shard_count D h =
     (let reg = ho_registry h;
          total = max 1 (int (length (shard_entries_of reg)));
          member = (\<lambda>(n, e). (int_str n, JObj [(''role'', JStr (re_role e)),
             (''shard_index'', case re_shard_index e of None \<Rightarrow> JNull | Some i \<Rightarrow> JInt i),
             (''human_name'', JStr (re_human_name e)), (''port'', JInt (re_port e)), (''container_ip'', JStr (re_container_ip e))]))
      in h\<lparr>ho_docker := dk_redis_set D ''maestro:cluster:members'' (JObj (map member reg))
             (dk_redis_set D ''maestro:cluster:shard_count'' (JInt total) (ho_docker h))\<rparr>)"

definition poll_health :: "'d docker \<Rightarrow> int \<Rightarrow> 'd host \<Rightarrow> bool" where
  "poll_health D n h = list_ex (\<lambda>attempt. check_health D n attempt h) [0..<5]"

text \<open>\<^verbatim>\<open>spawn\<close> once the number, the role, the index and the total are known.\<close>

definition launch ::
  "'d docker \<Rightarrow> int \<Rightarrow> string \<Rightarrow> int option \<Rightarrow> string \<Rightarrow> int \<Rightarrow> 'd host \<Rightarrow> (instance_error + InstanceInfo) \<times> 'd host" where
  "launch D n role shard_index human_name total_shards h =
     (case ensure_shared_redis D (dk_ensure_network D (ho_docker h)) of
        (Some e, d2) \<Rightarrow> (Inl e, h\<lparr>ho_docker := d2\<rparr>)
      | (None, d2) \<Rightarrow>
          (let proj = project_name n; port = instance_port n;
               d3 = dk_release_port D port (dk_cleanup_project D proj d2)
           in if \<not> dk_port_available D port d3 then (Inl (PortInUse port), h\<lparr>ho_docker := d3\<rparr>)
              else (case dk_compose_up D proj (instance_env n role shard_index human_name total_shards (ho_environ h)) d3 of
                      (Some detail, d4) \<Rightarrow> (Inl (StartFailed detail), h\<lparr>ho_docker := d4\<rparr>)
                    | (None, d4) \<Rightarrow>
                        (let d5 = dk_connect D (proj @ ''-orchestrator-1'') d4;
                             h5 = h\<lparr>ho_docker := d5\<rparr>;
                             healthy = poll_health D n h5;
                             ip = dk_container_ip D proj d5;
                             h6 = register_instance n \<lparr>re_role = role, re_shard_index = shard_index,
                                    re_human_name = human_name, re_port = port, re_container_ip = ip\<rparr> h5
                         in (Inr \<lparr>ii_number = n, ii_project = proj, ii_port = port, ii_url = instance_url n,
                                  ii_healthy = Some healthy, ii_role = role, ii_shard_index = shard_index,
                                  ii_human_name = human_name, ii_container_ip = ip\<rparr>,
                             broadcast_shard_count D h6)))))"

definition spawns_first :: "'d docker \<Rightarrow> int \<Rightarrow> 'd host \<Rightarrow> bool" where
  "spawns_first D n h \<longleftrightarrow> detect_running D h = [] \<and> ho_registry h = [] \<or> n = 1"

definition spawn_number :: "'d docker \<Rightarrow> int option \<Rightarrow> 'd host \<Rightarrow> int" where
  "spawn_number D n0 h = (case n0 of Some k \<Rightarrow> k | None \<Rightarrow> next_instance_number D h)"

definition spawn :: "'d docker \<Rightarrow> string \<Rightarrow> int option \<Rightarrow> 'd host \<Rightarrow> (instance_error + InstanceInfo) \<times> 'd host" where
  "spawn D human_name n0 h =
     (let n = spawn_number D n0 h
      in if \<not> dk_compose_found D (ho_docker h) then (Inl NoCompose, h)
         else
          let is_first = spawns_first D n h;
              role = (if is_first then ''orchestrator'' else ''shard'');
              shard_index = (if is_first then None else Some (next_shard_index (ho_registry h)));
              current_shards = int (length (shard_entries_of (ho_registry h)));
              total_shards = current_shards + (if role = ''shard'' then 1 else max 1 current_shards)
          in launch D n role shard_index human_name total_shards h)"

definition cleanup_infrastructure :: "'d docker \<Rightarrow> 'd host \<Rightarrow> 'd host" where
  "cleanup_infrastructure D h = h\<lparr>ho_docker := dk_remove_network D (dk_stop_redis D (ho_docker h))\<rparr>"

definition stop_instance :: "'d docker \<Rightarrow> int \<Rightarrow> 'd host \<Rightarrow> instance_error option \<times> 'd host" where
  "stop_instance D n h =
     (if \<not> dk_compose_found D (ho_docker h) then (Some NoCompose, h)
      else
       let proj = project_name n;
           d1 = dk_compose_down D (Some proj) (dk_disconnect D (proj @ ''-orchestrator-1'') (ho_docker h));
           h1 = broadcast_shard_count D (unregister_instance n (h\<lparr>ho_docker := d1\<rparr>))
       in (None, if detect_running D h1 = [] \<and> ho_registry h1 = [] then cleanup_infrastructure D h1 else h1))"

definition stop_all :: "'d docker \<Rightarrow> 'd host \<Rightarrow> int \<times> 'd host" where
  "stop_all D h =
     (let running = detect_running D h
      in if \<not> dk_compose_found D (ho_docker h) then (0, h)
         else
          let h1 = fold (\<lambda>n h. unregister_instance n (h\<lparr>ho_docker := dk_compose_down D (Some (project_name n)) (ho_docker h)\<rparr>)) running h;
              h2 = cleanup_infrastructure D (h1\<lparr>ho_docker := dk_compose_down D None (ho_docker h1)\<rparr>)
          in (int (length running), save_registry [] h2))"

section \<open>Numbers and names\<close>

definition host_ports :: "int \<Rightarrow> int set" where
  "host_ports n = {instance_port n, instance_port n + 1, instance_port n + 2, instance_port n + 3}"

text \<open>
  Library fact: two instances never share a host port, the ports of their sub-services included.
\<close>

theorem instance_ports_disjoint: "n \<noteq> m \<Longrightarrow> host_ports n \<inter> host_ports m = {}"
  by (auto simp: host_ports_def instance_port_def PORT_STRIDE_def; presburger)

lemma instance_ports_disjoint_witness: "host_ports 1 \<inter> host_ports 2 = {}"
  using instance_ports_disjoint [of 1 2] by simp

lemma starts_with_project:
  "starts_with (project_name i @ ''-'') (project_name n @ ''-'' @ s) \<longleftrightarrow> i = n"
proof
  assume "starts_with (project_name i @ ''-'') (project_name n @ ''-'' @ s)"
  then obtain t where t: "project_name n @ ''-'' @ s = (project_name i @ ''-'') @ t"
    by (metis starts_with_def append_take_drop_id)
  show "i = n"
    using int_str_prefix [of i "''-'' @ t" n "''-'' @ s"] t
    by (simp add: project_name_def no_digit_first_def is_digit_def)
qed (simp add: starts_with_def)

lemma find_unique: "x \<in> set xs \<Longrightarrow> P x \<Longrightarrow> (\<And>y. P y \<Longrightarrow> y = x) \<Longrightarrow> List.find P xs = Some x"
proof (induction xs)
  case (Cons a xs)
  show ?case
  proof (cases "P a")
    case True
    then show ?thesis using Cons.prems(3) [OF True] by simp
  next
    case False
    then have "a \<noteq> x" using Cons.prems(2) by blast
    then show ?thesis using False Cons.IH [OF _ Cons.prems(2,3)] Cons.prems(1) by (simp del: find_Some_iff)
  qed
next
  case Nil
  from Nil(1) show ?case by simp
qed

lemma container_read: "1 \<le> n \<Longrightarrow> n \<le> 99 \<Longrightarrow> instance_of_name (project_name n @ ''-'' @ service) = Some n"
  unfolding instance_of_name_def by (rule find_unique) (auto simp only: starts_with_project set_upto atLeastAtMost_iff)

text \<open>
  Library fact: a container of the instances 1 to 99 is read as its own instance, whatever service and replica it
  is: instance 12 is not taken for instance 1.
\<close>

theorem container_name_exact:
  "1 \<le> n \<Longrightarrow> n \<le> 99 \<Longrightarrow> instance_of_name (project_name n @ ''-'' @ service) = Some n"
  by (rule container_read)

lemma container_name_exact_witness: "instance_of_name ''maestro-12-orchestrator-1'' = Some 12"
proof -
  have "project_name 12 = ''maestro-12''" by code_simp
  then show ?thesis using container_name_exact [of 12 "''orchestrator-1''"] by simp
qed

lemma instance_hundred_unseen: "instance_of_name (project_name 100 @ ''-'' @ service) = None"
  unfolding instance_of_name_def find_None_iff
  by (auto simp only: starts_with_project set_upto atLeastAtMost_iff)

lemma instance_of_name_sound:
  assumes "instance_of_name name = Some n"
  shows "1 \<le> n \<and> n \<le> 99 \<and> starts_with (project_name n @ ''-'') name"
proof -
  obtain k where k: "k < length [1..99::int]" "starts_with (project_name ([1..99] ! k) @ ''-'') name" "n = [1..99] ! k"
    using assms unfolding instance_of_name_def find_Some_iff by blast
  have "n \<in> set [1..99]" using k(1,3) nth_mem by metis
  then show ?thesis using k by simp
qed

lemma detect_sorted: "sorted (detect_running D h) \<and> distinct (detect_running D h)"
  by (simp add: detect_running_def split: option.splits)

text \<open>
  Library fact: a new instance gets a number that no running and no registered instance has, and it is greater than all.
\<close>
theorem next_number_fresh:
  "n \<in> set (detect_running D h) \<union> set (dkeys (ho_registry h)) \<Longrightarrow> n < next_instance_number D h"
proof -
  assume n: "n \<in> set (detect_running D h) \<union> set (dkeys (ho_registry h))"
  let ?all = "detect_running D h @ dkeys (ho_registry h)"
  have "?all \<noteq> []" "n \<in> set ?all" using n by auto
  then have "next_instance_number D h = Max (set ?all) + 1"
    unfolding next_instance_number_def by (cases "?all") simp_all
  moreover have "n \<le> Max (set ?all)" using \<open>n \<in> set ?all\<close> by (intro Max_ge) auto
  ultimately show ?thesis by linarith
qed

section \<open>Shard indices\<close>

lemma first_free_below:
  "i \<le> j \<Longrightarrow> j < first_free k i used \<Longrightarrow> j \<in> set used"
  by (induction k i used rule: first_free.induct) (auto split: if_splits simp: order_less_le, metis add1_zle_eq order_less_le)

lemma first_free_ge: "i \<le> first_free k i used"
  by (induction k i used rule: first_free.induct) auto

lemma first_free_unused: "card {j \<in> set used. i \<le> j} \<le> k \<Longrightarrow> first_free k i used \<notin> set used"
proof (induction k i used rule: first_free.induct)
  case (1 i used)
  then show ?case by auto
next
  case (2 k i used)
  show ?case
  proof (cases "i \<in> set used")
    case True
    then have "{j \<in> set used. i \<le> j} = insert i {j \<in> set used. i + 1 \<le> j}" by auto
    then have "card {j \<in> set used. i + 1 \<le> j} \<le> k" using 2(2) by simp
    then show ?thesis using 2(1) True by simp
  qed simp
qed

lemma map_filter_set: "set (List.map_filter f xs) = {y. \<exists>x \<in> set xs. f x = Some y}"
  by (force simp: List.map_filter_def)

definition used_indices :: "(int, registry_entry) dict \<Rightarrow> int set" where
  "used_indices reg = {i. \<exists>n e. (n, e) \<in> set reg \<and> re_role e = ''shard'' \<and> re_shard_index e = Some i}"

lemma used_indices_list: "set (List.map_filter re_shard_index (shard_entries_of reg)) = used_indices reg"
  unfolding map_filter_set shard_entries_of_def used_indices_def by force

lemma next_shard_index_unused:
  "next_shard_index reg \<notin> used_indices reg \<and> 0 \<le> next_shard_index reg
   \<and> (\<forall>j. 0 \<le> j \<and> j < next_shard_index reg \<longrightarrow> j \<in> used_indices reg)"
proof -
  let ?used = "List.map_filter re_shard_index (shard_entries_of reg)"
  have "card {j \<in> set ?used. 0 \<le> j} \<le> length ?used"
    by (rule order_trans [OF card_mono [of "set ?used"] card_length]) auto
  then show ?thesis
    using first_free_unused [of ?used 0 "length ?used"] first_free_below [of 0 _ "length ?used" ?used]
      first_free_ge [of 0 "length ?used" ?used]
    by (auto simp: next_shard_index_def Let_def used_indices_list)
qed

text \<open>
  Library fact: a new shard gets the least index that no registered shard has; the search is done after as many steps as
  there are indices in use.
\<close>

theorem shard_index_least:
  "next_shard_index reg \<notin> used_indices reg \<and> 0 \<le> next_shard_index reg
   \<and> (\<forall>j. 0 \<le> j \<and> j < next_shard_index reg \<longrightarrow> j \<in> used_indices reg)"
  by (rule next_shard_index_unused)

lemma shard_index_least_witness:
  "next_shard_index [(2, \<lparr>re_role = ''shard'', re_shard_index = Some 0, re_human_name = [], re_port = 8010, re_container_ip = []\<rparr>)] = 1"
  (is "next_shard_index ?reg = 1")
proof -
  have "used_indices ?reg = {0}" by (auto simp: used_indices_def)
  then have r: "next_shard_index ?reg \<noteq> 0 \<and> 0 \<le> next_shard_index ?reg \<and> (\<forall>j. 0 \<le> j \<and> j < next_shard_index ?reg \<longrightarrow> j = 0)"
    using shard_index_least [of ?reg] by simp
  have "\<not> 1 < next_shard_index ?reg" using r zero_le_one zero_neq_one by metis
  then show ?thesis using r by linarith
qed

section \<open>The registry\<close>

definition entry_ok :: "int \<Rightarrow> registry_entry \<Rightarrow> bool" where
  "entry_ok n e \<longleftrightarrow> re_port e = instance_port n
     \<and> (case re_shard_index e of None \<Rightarrow> re_role e = ''orchestrator'' | Some i \<Rightarrow> re_role e = ''shard'' \<and> 0 \<le> i)"

definition registry_ok :: "(int, registry_entry) dict \<Rightarrow> bool" where
  "registry_ok reg \<longleftrightarrow> well_keyed reg \<and> (\<forall>(n, e) \<in> set reg. entry_ok n e)
     \<and> (\<forall>(n, e) \<in> set reg. \<forall>(m, f) \<in> set reg. re_shard_index e = re_shard_index f \<and> re_shard_index e \<noteq> None \<longrightarrow> n = m)"

definition info_entry :: "InstanceInfo \<Rightarrow> registry_entry" where
  "info_entry i = \<lparr>re_role = ii_role i, re_shard_index = ii_shard_index i, re_human_name = ii_human_name i,
                   re_port = ii_port i, re_container_ip = ii_container_ip i\<rparr>"

lemma host_registry_simps [simp]:
  "ho_registry (broadcast_shard_count D h) = ho_registry h"
  "ho_writable (broadcast_shard_count D h) = ho_writable h"
  "ho_registry (cleanup_infrastructure D h) = ho_registry h"
  "ho_writable (cleanup_infrastructure D h) = ho_writable h"
  "ho_registry (save_registry r h) = (if ho_writable h then r else ho_registry h)"
  "ho_writable (save_registry r h) = ho_writable h"
  "ho_registry (register_instance n e h) = (if ho_writable h then dset n e (ho_registry h) else ho_registry h)"
  "ho_registry (unregister_instance n h) = (if ho_writable h then ddel n (ho_registry h) else ho_registry h)"
  "ho_writable (register_instance n e h) = ho_writable h"
  "ho_writable (unregister_instance n h) = ho_writable h"
  by (simp_all add: broadcast_shard_count_def cleanup_infrastructure_def save_registry_def register_instance_def
      unregister_instance_def Let_def)

text \<open>The two ways a spawn ends.\<close>

lemma launch_cases:
  obtains (failed) e d where "launch D n role i nm t h = (Inl e, h\<lparr>ho_docker := d\<rparr>)"
  | (launched) info d where
      "launch D n role i nm t h = (Inr info, broadcast_shard_count D (register_instance n (info_entry info) (h\<lparr>ho_docker := d\<rparr>)))"
      "ii_number info = n" "ii_port info = instance_port n" "ii_human_name info = nm" "ii_role info = role" "ii_shard_index info = i"
proof -
  have "(\<exists>e d. launch D n role i nm t h = (Inl e, h\<lparr>ho_docker := d\<rparr>))
    \<or> (\<exists>info d. launch D n role i nm t h = (Inr info, broadcast_shard_count D (register_instance n (info_entry info) (h\<lparr>ho_docker := d\<rparr>)))
        \<and> ii_number info = n \<and> ii_port info = instance_port n \<and> ii_human_name info = nm \<and> ii_role info = role \<and> ii_shard_index info = i)"
    by (simp add: launch_def Let_def info_entry_def split: prod.splits option.splits) blast
  then show thesis using failed launched by blast
qed

lemma spawn_cases:
  obtains (failed) e d where "spawn D nm n0 h = (Inl e, h\<lparr>ho_docker := d\<rparr>)"
  | (spawned) i d where
      "spawn D nm n0 h = (Inr i, broadcast_shard_count D (register_instance (ii_number i) (info_entry i) (h\<lparr>ho_docker := d\<rparr>)))"
      "ii_number i = spawn_number D n0 h" "ii_port i = instance_port (ii_number i)" "ii_human_name i = nm"
      "ii_role i = (if spawns_first D (ii_number i) h then ''orchestrator'' else ''shard'')"
      "ii_shard_index i = (if spawns_first D (ii_number i) h then None else Some (next_shard_index (ho_registry h)))"
proof (cases "dk_compose_found D (ho_docker h)")
  case False
  then have "spawn D nm n0 h = (Inl NoCompose, h\<lparr>ho_docker := ho_docker h\<rparr>)" by (simp add: spawn_def Let_def)
  then show thesis by (rule failed)
next
  case True
  define n where "n = spawn_number D n0 h"
  define role where "role = (if spawns_first D n h then ''orchestrator'' else ''shard'')"
  define index where "index = (if spawns_first D n h then None else Some (next_shard_index (ho_registry h)))"
  obtain t where eq: "spawn D nm n0 h = launch D n role index nm t h"
    using True unfolding spawn_def Let_def n_def role_def index_def by simp
  show thesis
  proof (cases D n role index nm t h rule: launch_cases)
    case (failed e d)
    then show thesis using eq that(1) by simp
  next
    case (launched i d)
    then show thesis using eq by (intro that(2) [of i d]) (simp_all add: n_def role_def index_def)
  qed
qed

text \<open>
  Library fact: a spawn that fails, wherever it fails, leaves the registry as it was, and one that returns has recorded
  exactly the instance it returns.
\<close>

theorem spawn_registers:
  "ho_registry (snd (spawn D nm n0 h)) =
     (case fst (spawn D nm n0 h) of
        Inl _ \<Rightarrow> ho_registry h
      | Inr i \<Rightarrow> if ho_writable h then dset (ii_number i) (info_entry i) (ho_registry h) else ho_registry h)"
  by (cases D nm n0 h rule: spawn_cases) simp_all

lemma spawn_writable [simp]: "ho_writable (snd (spawn D nm n0 h)) = ho_writable h"
  by (cases D nm n0 h rule: spawn_cases) simp_all

lemma registry_ok_dset:
  assumes "registry_ok reg" "entry_ok n e" "\<And>i. re_shard_index e = Some i \<Longrightarrow> i \<notin> used_indices reg"
  shows "registry_ok (dset n e reg)"
proof -
  have old: "\<forall>(m, f) \<in> set reg. entry_ok m f" using assms(1) by (simp add: registry_ok_def)
  have no: "re_shard_index f \<noteq> re_shard_index e \<or> re_shard_index e = None" if "(m, f) \<in> set reg" for m f
  proof (cases "re_shard_index e")
    case (Some i)
    then have "\<not> (re_role f = ''shard'' \<and> re_shard_index f = Some i)"
      using assms(3) that by (auto simp: used_indices_def)
    then show ?thesis using old that Some by (auto simp: entry_ok_def split: option.splits)
  qed simp
  have sub: "set (dset n e reg) \<subseteq> insert (n, e) (set reg)" by (rule set_dset)
  have "\<forall>(m, f) \<in> insert (n, e) (set reg). \<forall>(k, g) \<in> insert (n, e) (set reg).
      re_shard_index f = re_shard_index g \<and> re_shard_index f \<noteq> None \<longrightarrow> m = k"
    using assms(1) no unfolding registry_ok_def by fastforce
  then have "\<forall>(m, f) \<in> set (dset n e reg). \<forall>(k, g) \<in> set (dset n e reg).
      re_shard_index f = re_shard_index g \<and> re_shard_index f \<noteq> None \<longrightarrow> m = k"
    using sub by blast
  moreover have "\<forall>(m, f) \<in> set (dset n e reg). entry_ok m f" using old assms(2) sub by blast
  ultimately show ?thesis using assms(1) unfolding registry_ok_def by simp
qed

lemma registry_ok_subset:
  "registry_ok reg \<Longrightarrow> well_keyed reg' \<Longrightarrow> set reg' \<subseteq> set reg \<Longrightarrow> registry_ok reg'"
  unfolding registry_ok_def by blast

lemma registry_ok_ddel: "registry_ok reg \<Longrightarrow> registry_ok (ddel n reg)"
  by (rule registry_ok_subset) (auto simp: registry_ok_def dest: subsetD [OF set_ddel])

lemma registry_ok_Nil [simp]: "registry_ok []"
  by (simp add: registry_ok_def)

lemma spawn_registry_ok:
  assumes "registry_ok (ho_registry h)"
  shows "registry_ok (ho_registry (snd (spawn D nm n0 h)))"
proof (cases D nm n0 h rule: spawn_cases)
  case (failed e d)
  then show ?thesis using assms by simp
next
  case (spawned i d)
  have "registry_ok (dset (ii_number i) (info_entry i) (ho_registry h))"
    by (rule registry_ok_dset [OF assms])
      (use spawned next_shard_index_unused [of "ho_registry h"] in \<open>auto simp: entry_ok_def info_entry_def split: if_splits\<close>)
  then show ?thesis using assms spawned(1) by simp
qed

lemma stop_registry:
  "ho_registry (snd (stop_instance D n h)) =
     (if dk_compose_found D (ho_docker h) \<and> ho_writable h then ddel n (ho_registry h) else ho_registry h)"
  by (simp add: stop_instance_def Let_def)

lemma fold_unregister_registry:
  "registry_ok (ho_registry h) \<Longrightarrow>
   registry_ok (ho_registry (fold (\<lambda>n h. unregister_instance n (h\<lparr>ho_docker := f n h\<rparr>)) ns h))"
  by (induction ns arbitrary: h) (simp_all add: registry_ok_ddel)

lemma stop_all_registry_ok:
  "registry_ok (ho_registry h) \<Longrightarrow> registry_ok (ho_registry (snd (stop_all D h)))"
  by (simp add: stop_all_def Let_def fold_unregister_registry)

datatype instance_op = SpawnOp string "int option" | StopOp int | StopAllOp

definition instance_step :: "'d docker \<Rightarrow> instance_op \<Rightarrow> 'd host \<Rightarrow> 'd host" where
  "instance_step D op h =
     (case op of SpawnOp nm n \<Rightarrow> snd (spawn D nm n h) | StopOp n \<Rightarrow> snd (stop_instance D n h) | StopAllOp \<Rightarrow> snd (stop_all D h))"

text \<open>
  C36: whatever instances are spawned and stopped, in whatever order, with docker failing where it likes and the
  registry writable or not, the registry holds one entry for an instance, with the port of its number, an index
  exactly for the shards, and no index twice.
\<close>

theorem instance_registry_consistent:
  "registry_ok (ho_registry h) \<Longrightarrow> registry_ok (ho_registry (fold (instance_step D) ops h))"
proof (induction ops arbitrary: h)
  case (Cons op ops)
  have "registry_ok (ho_registry (instance_step D op h))"
    using Cons.prems
    by (cases op) (simp_all add: instance_step_def spawn_registry_ok stop_registry registry_ok_ddel stop_all_registry_ok)
  then show ?case using Cons.IH by simp
qed simp

text \<open>
  Library fact: when the numbers are left to the program, the orchestrator is instance 1: there is at most one, at the
  address the shards are given.
\<close>

theorem automatic_orchestrator:
  assumes "registry_ok (ho_registry h)" "\<And>n e. (n, e) \<in> set (ho_registry h) \<Longrightarrow> re_role e = ''orchestrator'' \<Longrightarrow> n = 1"
  shows "(n, e) \<in> set (ho_registry (snd (spawn D nm None h))) \<Longrightarrow> re_role e = ''orchestrator'' \<Longrightarrow> n = 1"
proof (cases D nm "None :: int option" h rule: spawn_cases)
  case (spawned i d)
  assume e: "(n, e) \<in> set (ho_registry (snd (spawn D nm None h)))" "re_role e = ''orchestrator''"
  have "set (dset (ii_number i) (info_entry i) (ho_registry h)) \<subseteq> insert (ii_number i, info_entry i) (set (ho_registry h))"
    by (rule set_dset)
  then have "(n, e) \<in> set (ho_registry h) \<or> n = ii_number i \<and> e = info_entry i"
    using e(1) spawned(1) by (auto split: if_splits)
  then show ?thesis
  proof
    assume ne: "n = ii_number i \<and> e = info_entry i"
    then have "spawns_first D n h" using e(2) spawned(5) by (auto simp: info_entry_def split: if_splits)
    then show ?thesis
      using ne spawned(2) by (auto simp: spawns_first_def spawn_number_def next_instance_number_def)
  qed (use assms(2) e(2) in blast)
qed (use assms(2) in simp)

definition announced :: "(int, registry_entry) dict \<Rightarrow> int" where
  "announced reg = max 1 (int (length (shard_entries_of reg)))"

lemma broadcast_announces:
  "\<exists>members d. ho_docker (broadcast_shard_count D h)
     = dk_redis_set D ''maestro:cluster:members'' (JObj members) (dk_redis_set D ''maestro:cluster:shard_count'' (JInt (announced (ho_registry h))) d)
   \<and> map fst members = map int_str (dkeys (ho_registry h))"
  by (rule exI [of _ "map (\<lambda>(n, e). (int_str n, JObj [(''role'', JStr (re_role e)),
             (''shard_index'', case re_shard_index e of None \<Rightarrow> JNull | Some i \<Rightarrow> JInt i),
             (''human_name'', JStr (re_human_name e)), (''port'', JInt (re_port e)), (''container_ip'', JStr (re_container_ip e))])) (ho_registry h)"],
      rule exI [of _ "ho_docker h"])
    (auto simp: broadcast_shard_count_def announced_def Let_def)

text \<open>
  Library fact: a spawn that returns has written to the state bus the number of the shards it registered and the members
  under their numbers, with nothing done to docker after.
\<close>

theorem spawn_announces:
  assumes "fst (spawn D nm n0 h) = Inr i"
  shows "\<exists>members d. ho_docker (snd (spawn D nm n0 h))
     = dk_redis_set D ''maestro:cluster:members'' (JObj members)
         (dk_redis_set D ''maestro:cluster:shard_count'' (JInt (announced (ho_registry (snd (spawn D nm n0 h))))) d)
   \<and> map fst members = map int_str (dkeys (ho_registry (snd (spawn D nm n0 h))))"
proof (cases D nm n0 h rule: spawn_cases)
  case (spawned j d)
  let ?h = "register_instance (ii_number j) (info_entry j) (h\<lparr>ho_docker := d\<rparr>)"
  have "snd (spawn D nm n0 h) = broadcast_shard_count D ?h" using spawned(1) by simp
  then show ?thesis using broadcast_announces [of D ?h] by simp
qed (use assms in simp)

text \<open>
  Library fact: stopping an instance takes down the shared infrastructure exactly when nothing runs and nothing is
  registered any more; the registry loses that instance and no other.
\<close>

theorem stop_last_cleans_up:
  assumes "dk_compose_found D (ho_docker h)" "ho_writable h"
    and "stop_instance D n h = (r, h')"
  shows "r = None \<and> ho_registry h' = ddel n (ho_registry h)
    \<and> (\<exists>h1. ho_registry h1 = ddel n (ho_registry h)
         \<and> h' = (if detect_running D h1 = [] \<and> ddel n (ho_registry h) = [] then cleanup_infrastructure D h1 else h1))"
proof -
  let ?d = "dk_compose_down D (Some (project_name n)) (dk_disconnect D (project_name n @ ''-orchestrator-1'') (ho_docker h))"
  let ?h1 = "broadcast_shard_count D (unregister_instance n (h\<lparr>ho_docker := ?d\<rparr>))"
  have "ho_registry ?h1 = ddel n (ho_registry h)" using assms(2) by simp
  moreover have "r = None" "h' = (if detect_running D ?h1 = [] \<and> ho_registry ?h1 = [] then cleanup_infrastructure D ?h1 else ?h1)"
    using assms(1,3) by (simp_all add: stop_instance_def Let_def)
  ultimately show ?thesis by (simp add: exI [of _ ?h1])
qed

text \<open>
  Library fact: the status lists every running and every registered instance once, in the order of the numbers, on its
  own port.
\<close>

theorem status_complete:
  "map ii_number (get_all_status D h) = sorted_list_of_set (set (detect_running D h) \<union> set (dkeys (ho_registry h)))
   \<and> list_all (\<lambda>i. ii_port i = instance_port (ii_number i)) (get_all_status D h)"
  by (simp add: get_all_status_def Let_def comp_def sorted_list_of_set_sort_remdups [symmetric] list_all_iff del: set_append)
    (simp add: sorted_list_of_set_sort_remdups)

section \<open>A host to run on\<close>

text \<open>A docker on which every command succeeds; its state is the projects that are up with their environments.\<close>

definition willing_docker :: "(string \<times> (string, string) dict) list docker" where
  "willing_docker =
     \<lparr>dk_compose_found = (\<lambda>_. True), dk_ps = (\<lambda>d. Some (map (\<lambda>(p, _). p @ ''-orchestrator-1'') d)),
      dk_port_available = (\<lambda>_ _. True), dk_ensure_network = (\<lambda>d. d), dk_redis_running = (\<lambda>_. True),
      dk_start_redis = (\<lambda>d. (None, d)), dk_cleanup_project = (\<lambda>p d. filter (\<lambda>x. fst x \<noteq> p) d), dk_release_port = (\<lambda>_ d. d),
      dk_compose_up = (\<lambda>p e d. (None, d @ [(p, e)])), dk_connect = (\<lambda>_ d. d), dk_disconnect = (\<lambda>_ d. d),
      dk_compose_down = (\<lambda>p d. filter (\<lambda>x. Some (fst x) \<noteq> p) d), dk_health = (\<lambda>_ _ _. True), dk_container_ip = (\<lambda>_ _. []),
      dk_redis_set = (\<lambda>_ _ d. d), dk_stop_redis = (\<lambda>d. d), dk_remove_network = (\<lambda>d. d)\<rparr>"

definition empty_host :: "(string \<times> (string, string) dict) list host" where
  "empty_host = \<lparr>ho_docker = [], ho_registry = [], ho_writable = True, ho_environ = []\<rparr>"

definition env_given :: "string \<Rightarrow> string \<Rightarrow> (string \<times> (string, string) dict) list host \<Rightarrow> string option" where
  "env_given p key h = Option.bind (map_of (ho_docker h) p) (\<lambda>e. map_of e key)"

lemma instance_registry_consistent_witness:
  "registry_ok (ho_registry (fold (instance_step willing_docker) [SpawnOp ''a'' None, SpawnOp ''b'' (Some 3), StopOp 1] empty_host))"
  by (rule instance_registry_consistent) (simp add: empty_host_def)

lemma project_name_eq [simp]: "project_name n = project_name m \<longleftrightarrow> n = m"
  using int_str_prefix [of n "[]" m "[]"] by (auto simp: project_name_def no_digit_first_def)

lemma orchestrator_container:
  "1 \<le> n \<Longrightarrow> n \<le> 99 \<Longrightarrow> instance_of_name (project_name n @ ''-orchestrator-1'') = Some n"
  "instance_of_name (project_name 100 @ ''-orchestrator-1'') = None"
  using container_read [of n "''orchestrator-1''"] instance_hundred_unseen [of "''orchestrator-1''"] by simp_all

lemma willing_detect:
  "detect_running willing_docker h
     = sort (remdups (List.map_filter instance_of_name (map (\<lambda>(p, _). p @ ''-'' @ ''orchestrator-1'') (ho_docker h))))"
  by (simp add: detect_running_def willing_docker_def)

lemma willing_launch:
  "snd (launch willing_docker n role i nm t h) =
     h\<lparr>ho_docker := filter (\<lambda>x. fst x \<noteq> project_name n) (ho_docker h) @ [(project_name n, instance_env n role i nm t (ho_environ h))],
       ho_registry := (if ho_writable h then dset n \<lparr>re_role = role, re_shard_index = i, re_human_name = nm,
                          re_port = instance_port n, re_container_ip = []\<rparr> (ho_registry h) else ho_registry h)\<rparr>"
  by (simp add: launch_def willing_docker_def ensure_shared_redis_def register_instance_def save_registry_def
      broadcast_shard_count_def Let_def)

lemma willing_spawn:
  "snd (spawn willing_docker nm n0 h) =
     (let n = spawn_number willing_docker n0 h; first = spawns_first willing_docker n h;
          c = int (length (shard_entries_of (ho_registry h)))
      in snd (launch willing_docker n (if first then ''orchestrator'' else ''shard'')
           (if first then None else Some (next_shard_index (ho_registry h))) nm (c + (if first then max 1 c else 1)) h))"
  by (simp add: spawn_def Let_def) (simp add: willing_docker_def)

lemma instance_env_lookup:
  "map_of (instance_env n role i nm t e) ''SHARD_COUNT'' = Some (int_str t)"
  "map_of (instance_env n ''shard'' (Some k) nm t e) ''SHARD_INDEX'' = Some (int_str k)"
  "map_of (instance_env n ''shard'' (Some k) nm t e) ''ORCHESTRATOR_URL'' = Some (''http://'' @ project_name 1 @ ''-orchestrator-1:8000'')"
  by (auto simp: instance_env_def Let_def map_of_fold_dset split: option.splits)

lemmas willing_run = instance_step_def willing_spawn Let_def willing_launch spawn_number_def spawns_first_def
  next_instance_number_def willing_detect orchestrator_container empty_host_def next_shard_index_def shard_entries_of_def
  List.map_filter_simps env_given_def instance_env_lookup announced_def

lemma three_instances:
  "map (\<lambda>(n, e). (n, re_role e, re_shard_index e)) (ho_registry (fold (instance_step willing_docker)
      [SpawnOp ''a'' None, SpawnOp ''b'' None, SpawnOp ''c'' None] empty_host))
   = [(1, ''orchestrator'', None), (2, ''shard'', Some 0), (3, ''shard'', Some 1)]"
  by (simp add: willing_run)

text \<open>
  An orchestrator spawned under another number than 1: the shards are still given the address of instance 1,
  which does not exist.
\<close>

lemma orchestrator_address_fixed:
  "let h = fold (instance_step willing_docker) [SpawnOp ''a'' (Some 5), SpawnOp ''b'' (Some 6)] empty_host
   in map (\<lambda>(n, e). (n, re_role e)) (ho_registry h) = [(5, ''orchestrator''), (6, ''shard'')]
      \<and> env_given (project_name 6) ''ORCHESTRATOR_URL'' h = Some (''http://'' @ project_name 1 @ ''-orchestrator-1:8000'')"
  by (simp add: willing_run)

text \<open>Spawning 1 after that gives a second orchestrator.\<close>

lemma two_orchestrators:
  "map (\<lambda>(n, e). (n, re_role e)) (ho_registry (fold (instance_step willing_docker) [SpawnOp ''a'' (Some 5), SpawnOp ''b'' (Some 1)] empty_host))
   = [(5, ''orchestrator''), (1, ''orchestrator'')]"
  by (simp add: willing_run)

text \<open>
  A shard that is spawned again counts itself twice and moves to another index; an orchestrator that is spawned
  again is told twice the number of shards.
\<close>

lemma respawned_shard_counted_twice:
  "let h = fold (instance_step willing_docker) [SpawnOp ''a'' None, SpawnOp ''b'' None, SpawnOp ''b'' (Some 2)] empty_host
   in env_given (project_name 2) ''SHARD_COUNT'' h = Some (int_str 2) \<and> announced (ho_registry h) = 1
      \<and> env_given (project_name 2) ''SHARD_INDEX'' h = Some (int_str 1)"
  by (simp add: willing_run)

lemma respawned_orchestrator_doubles:
  "let h = fold (instance_step willing_docker) [SpawnOp ''a'' None, SpawnOp ''b'' None, SpawnOp ''c'' None, SpawnOp ''a'' (Some 1)] empty_host
   in env_given (project_name 1) ''SHARD_COUNT'' h = Some (int_str 4) \<and> announced (ho_registry h) = 2"
  by (simp add: willing_run)

lemma instance_hundred_invisible:
  "let h = fold (instance_step willing_docker) [SpawnOp ''a'' (Some 100)] empty_host
   in detect_running willing_docker h = [] \<and> dkeys (ho_registry h) = [100]"
  by (simp add: willing_run)

end
