(* ===== verification/Updater.thy ===== *)
theory Updater
  imports Py_Codec
begin

text \<open>
  \<^verbatim>\<open>maestro/updater.py\<close>: the check for new commits, the update of a git working tree or of a running container,
  and the background updater with its listeners.  The commands run (git, docker) are a parameter over a state of
  their own; a command may end with a return code and its output, or not start or time out, which is an exception.
  The directories of the installed program are kept as the files below them, so an empty directory is none; the
  deletion of the old directory is taken to succeed.  The output of a command is text with universal newlines.
\<close>

section \<open>Commands\<close>

record proc_result =
  pr_returncode :: int
  pr_stdout :: string
  pr_stderr :: string

datatype run_error = FileNotFound string | RunError string

fun error_text :: "run_error \<Rightarrow> string" where
  "error_text (FileNotFound s) = s"
| "error_text (RunError s) = s"

type_synonym tree = "(string, string) dict"

text \<open>
  \<open>ue_clone_dir G tmp d w\<close> is the directory \<open>d\<close> of the clone in \<open>tmp\<close>, \<open>ue_copytree\<close> what a copy has written,
  with the exception that ended it.
\<close>

record 'w updater =
  ue_exec :: "string list \<Rightarrow> 'w \<Rightarrow> (run_error + proc_result) \<times> 'w"
  ue_is_repo :: "'w \<Rightarrow> bool"
  ue_mkdtemp :: "'w \<Rightarrow> string"
  ue_clone_dir :: "string \<Rightarrow> string \<Rightarrow> 'w \<Rightarrow> tree option"
  ue_copytree :: "tree \<Rightarrow> run_error option \<times> tree"
  ue_version_locked :: "'w \<Rightarrow> run_error option"

record 'w upd_host =
  uh_world :: 'w
  uh_environ :: "(string, string) dict"
  uh_version :: "string option"
  uh_dirs :: "(string, tree) dict"

type_synonym ('w, 'a) act = "'w upd_host \<Rightarrow> (run_error + 'a) \<times> 'w upd_host"

definition give :: "'a \<Rightarrow> ('w, 'a) act" where
  "give x h = (Inr x, h)"

definition bind_act :: "('w, 'a) act \<Rightarrow> ('a \<Rightarrow> ('w, 'b) act) \<Rightarrow> ('w, 'b) act" where
  "bind_act m f h = (case m h of (Inl e, h') \<Rightarrow> (Inl e, h') | (Inr x, h') \<Rightarrow> f x h')"

text \<open>\<^verbatim>\<open>except Exception\<close> with the value returned for it.\<close>

definition catch_act :: "('w, 'a) act \<Rightarrow> (run_error \<Rightarrow> 'a) \<Rightarrow> ('w, 'a) act" where
  "catch_act m f h = (case m h of (Inl e, h') \<Rightarrow> (Inr (f e), h') | r \<Rightarrow> r)"

definition run_cmd :: "'w updater \<Rightarrow> string list \<Rightarrow> ('w, proc_result) act" where
  "run_cmd G cmd h = (let (r, w) = ue_exec G cmd (uh_world h) in (r, h\<lparr>uh_world := w\<rparr>))"

definition is_git_repo :: "'w updater \<Rightarrow> 'w upd_host \<Rightarrow> bool" where
  "is_git_repo G h = ue_is_repo G (uh_world h)"

definition stdout_lines :: "string \<Rightarrow> string list" where
  "stdout_lines s = filter (\<lambda>l. l \<noteq> [])
     (map (\<lambda>l. if l \<noteq> [] \<and> line_break (last l) then butlast l else l) (split_lines (py_strip s)))"

section \<open>Local and remote commits\<close>

definition get_remote_url :: "'w upd_host \<Rightarrow> string" where
  "get_remote_url h = py_strip (dget (uh_environ h) ''MAESTRO_UPDATE_REMOTE'' [])"

definition get_branch :: "'w updater \<Rightarrow> ('w, string) act" where
  "get_branch G h =
     (let explicit = py_strip (dget (uh_environ h) ''MAESTRO_UPDATE_BRANCH'' [])
      in if explicit \<noteq> [] then give explicit h
         else if is_git_repo G h
         then bind_act (run_cmd G [''git'', ''rev-parse'', ''--abbrev-ref'', ''HEAD''])
                (\<lambda>r. give (if pr_returncode r = 0 then py_strip (pr_stdout r) else ''main'')) h
         else give ''main'' h)"

definition branch_or :: "'w updater \<Rightarrow> string option \<Rightarrow> ('w, string) act" where
  "branch_or G b = (case b of Some (c # cs) \<Rightarrow> give (c # cs) | _ \<Rightarrow> get_branch G)"

definition version_commit :: "string option \<Rightarrow> string" where
  "version_commit v =
     (case v of None \<Rightarrow> []
      | Some text \<Rightarrow> (let c = py_strip text in if c \<noteq> [] \<and> py_lower c \<noteq> ''unknown'' then c else []))"

definition get_local_commit :: "'w updater \<Rightarrow> ('w, string) act" where
  "get_local_commit G h =
     (if is_git_repo G h
      then bind_act (run_cmd G [''git'', ''rev-parse'', ''HEAD''])
             (\<lambda>r h. if pr_returncode r = 0 then give (py_strip (pr_stdout r)) h else give (version_commit (uh_version h)) h) h
      else give (version_commit (uh_version h)) h)"

definition get_remote_commit :: "'w updater \<Rightarrow> string option \<Rightarrow> ('w, string \<times> string) act" where
  "get_remote_commit G b =
     bind_act (branch_or G b) (\<lambda>branch h.
       let url = get_remote_url h
       in if is_git_repo G h \<and> url = []
          then bind_act (run_cmd G [''git'', ''fetch'', ''origin'', branch]) (\<lambda>fetch.
                 if pr_returncode fetch \<noteq> 0
                 then give ([], let e = py_strip (pr_stderr fetch) in if e \<noteq> [] then e else ''git fetch failed'')
                 else bind_act (run_cmd G [''git'', ''rev-parse'', ''origin/'' @ branch])
                        (\<lambda>r. give (if pr_returncode r = 0 then py_strip (pr_stdout r) else [], []))) h
          else if url = [] then give ([], ''No remote URL configured.'') h
          else bind_act (run_cmd G [''git'', ''ls-remote'', url, ''refs/heads/'' @ branch]) (\<lambda>r.
                 if pr_returncode r \<noteq> 0
                 then give ([], let e = py_strip (pr_stderr r) in if e \<noteq> [] then e else ''git ls-remote failed'')
                 else let line = py_strip (pr_stdout r)
                      in if line = [] then give ([], ''Branch '' @ [CHR 0x27] @ branch @ [CHR 0x27] @ '' not found on remote.'')
                         else give (hd (py_split line), [])) h)"

definition log_range :: "string \<Rightarrow> string \<Rightarrow> string list" where
  "log_range a b = [''log'', ''--oneline'', a @ ''..'' @ b]"

definition get_commit_log :: "'w updater \<Rightarrow> string \<Rightarrow> string \<Rightarrow> string option \<Rightarrow> ('w, string list) act" where
  "get_commit_log G local remote b =
     (if local = [] \<or> remote = [] \<or> local = remote then give []
      else bind_act (\<lambda>h. if is_git_repo G h
                          then bind_act (run_cmd G (''git'' # log_range local remote))
                                 (\<lambda>r. give (if pr_returncode r = 0 then Some (stdout_lines (pr_stdout r)) else None)) h
                          else give None h)
             (\<lambda>direct h. case direct of
                Some ls \<Rightarrow> give ls h
              | None \<Rightarrow>
                  (let url = get_remote_url h
                   in if url = [] then give [] h
                      else bind_act (branch_or G b) (\<lambda>branch.
                        catch_act (\<lambda>h. let tmp = ue_mkdtemp G (uh_world h) in
                          bind_act (run_cmd G [''git'', ''clone'', ''--bare'', ''--filter=blob:none'', ''--single-branch'', ''--branch'', branch, url, tmp])
                            (\<lambda>clone. if pr_returncode clone \<noteq> 0 then give []
                               else bind_act (run_cmd G ([''git'', ''--git-dir'', tmp] @ log_range local remote))
                                      (\<lambda>r. give (if pr_returncode r = 0 then stdout_lines (pr_stdout r) else []))) h)
                          (\<lambda>_. [])) h)))"

section \<open>The check\<close>

record update_info =
  ui_available :: bool
  ui_local_commit :: string
  ui_local_unknown :: bool
  ui_remote_commit :: string
  ui_new_commits :: "string list"
  ui_branch :: string
  ui_error :: "string option"

definition check_for_updates :: "'w updater \<Rightarrow> string option \<Rightarrow> ('w, update_info) act" where
  "check_for_updates G b =
     bind_act (branch_or G b) (\<lambda>branch.
     bind_act (get_local_commit G) (\<lambda>local.
     bind_act (get_remote_commit G (Some branch)) (\<lambda>(remote, fetch_err) h.
       if remote = []
       then give \<lparr>ui_available = False, ui_local_commit = take 8 local, ui_local_unknown = False, ui_remote_commit = [],
                  ui_new_commits = [], ui_branch = branch,
                  ui_error = Some (if get_remote_url h = []
                    then ''No remote configured. Set your repository URL above, then check for updates.''
                    else if fetch_err \<noteq> [] then fetch_err else ''Could not determine remote commit.'')\<rparr> h
       else if local = []
       then give \<lparr>ui_available = True, ui_local_commit = [], ui_local_unknown = True, ui_remote_commit = take 8 remote,
                  ui_new_commits = [], ui_branch = branch, ui_error = None\<rparr> h
       else bind_act (if local \<noteq> remote then get_commit_log G local remote (Some branch) else give []) (\<lambda>new_commits.
              give \<lparr>ui_available = (local \<noteq> remote), ui_local_commit = take 8 local, ui_local_unknown = False,
                    ui_remote_commit = take 8 remote, ui_new_commits = new_commits, ui_branch = branch, ui_error = None\<rparr>) h)))"

section \<open>The update\<close>

record update_result =
  ur_success :: bool
  ur_message :: string
  ur_commits_pulled :: nat
  ur_rebuilt :: bool

definition update_failure :: "string \<Rightarrow> update_result" where
  "update_failure msg = \<lparr>ur_success = False, ur_message = msg, ur_commits_pulled = 0, ur_rebuilt = False\<rparr>"

definition updated_text :: "nat \<Rightarrow> string" where
  "updated_text n = ''Updated successfully '' @ em_dash @ '' '' @ nat_str n @ '' new commit'' @ (if n \<noteq> 1 then ''s'' else []) @ ''.''"

definition has_local_changes :: "'w updater \<Rightarrow> ('w, bool) act" where
  "has_local_changes G h =
     (if \<not> is_git_repo G h then give False h
      else bind_act (run_cmd G [''git'', ''status'', ''--porcelain''])
             (\<lambda>r. give (pr_returncode r = 0 \<and> py_strip (pr_stdout r) \<noteq> [])) h)"

fun find_compose_cmd :: "'w updater \<Rightarrow> string list list \<Rightarrow> ('w, string list) act" where
  "find_compose_cmd G [] h = give [] h"
| "find_compose_cmd G (cmd # cmds) h =
     (case run_cmd G (cmd @ [''version'']) h of
        (Inl (FileNotFound s), h') \<Rightarrow> find_compose_cmd G cmds h'
      | (Inl e, h') \<Rightarrow> (Inl e, h')
      | (Inr r, h') \<Rightarrow> if pr_returncode r = 0 then give cmd h' else find_compose_cmd G cmds h')"

definition maybe_rebuild :: "'w updater \<Rightarrow> bool \<Rightarrow> string list \<Rightarrow> ('w, bool) act" where
  "maybe_rebuild G rebuild new_commits =
     (if \<not> rebuild \<or> new_commits = [] then give False
      else bind_act (find_compose_cmd G [[''docker'', ''compose''], [''docker-compose'']]) (\<lambda>compose.
             if compose = [] then give False
             else bind_act (run_cmd G (compose @ [''up'', ''-d'', ''--build''])) (\<lambda>r. give (pr_returncode r = 0))))"

definition stash_pop :: "'w updater \<Rightarrow> bool \<Rightarrow> ('w, unit) act" where
  "stash_pop G stashed =
     (if stashed then bind_act (run_cmd G [''git'', ''stash'', ''pop'']) (\<lambda>_. give ()) else give ())"

definition set_remote :: "'w updater \<Rightarrow> ('w, unit) act" where
  "set_remote G h =
     (let url = get_remote_url h
      in if url \<noteq> [] then bind_act (run_cmd G [''git'', ''remote'', ''set-url'', ''origin'', url]) (\<lambda>_. give ()) h else give () h)"

definition stash_changes :: "'w updater \<Rightarrow> ('w, bool) act" where
  "stash_changes G =
     bind_act (has_local_changes G) (\<lambda>changed.
       if changed then bind_act (run_cmd G [''git'', ''stash'', ''push'', ''-m'', ''maestro-auto-update-stash'']) (\<lambda>_. give True)
       else give False)"

text \<open>The pull, up to the stash popped: a failure to return or the new commits.\<close>

definition pull_and_pop :: "'w updater \<Rightarrow> string \<Rightarrow> bool \<Rightarrow> ('w, update_result + string list) act" where
  "pull_and_pop G branch stashed =
     bind_act (get_local_commit G) (\<lambda>before.
     bind_act (run_cmd G [''git'', ''pull'', ''origin'', branch]) (\<lambda>pull.
       if pr_returncode pull \<noteq> 0
       then bind_act (stash_pop G stashed) (\<lambda>_. give (Inl (update_failure (''git pull failed: '' @ py_strip (pr_stderr pull)))))
       else bind_act (get_local_commit G) (\<lambda>after.
            bind_act (if before \<noteq> after then get_commit_log G before after (Some branch) else give []) (\<lambda>new_commits.
            bind_act (stash_pop G stashed) (\<lambda>_. give (Inr new_commits))))))"

definition apply_git_mode :: "'w updater \<Rightarrow> string \<Rightarrow> bool \<Rightarrow> ('w, update_result) act" where
  "apply_git_mode G branch rebuild =
     bind_act (set_remote G) (\<lambda>_.
     bind_act (stash_changes G) (\<lambda>stashed.
     bind_act (pull_and_pop G branch stashed) (\<lambda>r h.
       case r of
         Inl failure \<Rightarrow> give failure h
       | Inr new_commits \<Rightarrow>
           bind_act (maybe_rebuild G rebuild new_commits) (\<lambda>rebuilt.
             give \<lparr>ur_success = True,
                   ur_message = (if new_commits = [] then ''Already up to date.'' else updated_text (length new_commits)),
                   ur_commits_pulled = length new_commits, ur_rebuilt = rebuilt\<rparr>) h)))"

definition SYNC_DIRS :: "string list" where
  "SYNC_DIRS = [''maestro'', ''backend'']"

definition PRESERVE_PATTERNS :: "string list" where
  "PRESERVE_PATTERNS = [''.env'', ''.env.local'']"

definition PRESERVE_DIRS :: "string list" where
  "PRESERVE_DIRS = [''frontend/dist'']"

definition below :: "string \<Rightarrow> string \<Rightarrow> bool" where
  "below d p = starts_with (d @ ''/'') p"

definition dir_exists :: "string \<Rightarrow> tree \<Rightarrow> bool" where
  "dir_exists d t = list_ex (\<lambda>p. below d p) (dkeys t)"

definition restore_dir :: "tree \<Rightarrow> string \<Rightarrow> tree \<Rightarrow> tree" where
  "restore_dir old d t = (if dir_exists d t then t else fold (\<lambda>(p, c). dset p c) (filter (\<lambda>(p, _). below d p) old) t)"

definition sync_directory :: "'w updater \<Rightarrow> tree \<Rightarrow> tree option \<Rightarrow> run_error option \<times> tree" where
  "sync_directory G src dst =
     (let old = (case dst of None \<Rightarrow> [] | Some t \<Rightarrow> t);
          preserved_files = filter (\<lambda>(p, _). p \<in> set PRESERVE_PATTERNS) old
      in case ue_copytree G src of
           (Some e, t) \<Rightarrow> (Some e, t)
         | (None, t) \<Rightarrow> (None, fold (restore_dir old) PRESERVE_DIRS (fold (\<lambda>(p, c). dset p c) preserved_files t)))"

fun sync_dirs :: "'w updater \<Rightarrow> string \<Rightarrow> string list \<Rightarrow> ('w, unit) act" where
  "sync_dirs G tmp [] h = give () h"
| "sync_dirs G tmp (d # ds) h =
     (case ue_clone_dir G tmp d (uh_world h) of
        None \<Rightarrow> sync_dirs G tmp ds h
      | Some src \<Rightarrow>
          (case sync_directory G src (map_of (uh_dirs h) d) of
             (Some e, t) \<Rightarrow> (Inl e, h\<lparr>uh_dirs := dset d t (uh_dirs h)\<rparr>)
           | (None, t) \<Rightarrow> sync_dirs G tmp ds (h\<lparr>uh_dirs := dset d t (uh_dirs h)\<rparr>)))"

definition write_version :: "'w updater \<Rightarrow> string \<Rightarrow> ('w, unit) act" where
  "write_version G text h =
     (case ue_version_locked G (uh_world h) of
        Some e \<Rightarrow> (Inl e, h)
      | None \<Rightarrow> (Inr (), h\<lparr>uh_version := Some text\<rparr>))"

text \<open>
  The block under \<^verbatim>\<open>try\<close>: the clone, its head and the log first, then the copying.  A result to return at
  once, or the new commit and the log.
\<close>

definition docker_fetch ::
  "'w updater \<Rightarrow> string \<Rightarrow> string \<Rightarrow> string \<Rightarrow> string \<Rightarrow> ('w, update_result + string \<times> string list) act" where
  "docker_fetch G tmp branch url before =
     bind_act (run_cmd G [''git'', ''clone'', ''--depth=50'', ''--single-branch'', ''--branch'', branch, url, tmp]) (\<lambda>clone.
       if pr_returncode clone \<noteq> 0 then give (Inl (update_failure (''Clone failed: '' @ py_strip (pr_stderr clone))))
       else
         bind_act (run_cmd G [''git'', ''-C'', tmp, ''rev-parse'', ''HEAD'']) (\<lambda>head.
         let after = (if pr_returncode head = 0 then py_strip (pr_stdout head) else [])
         in if before \<noteq> [] \<and> before = after
            then give (Inl \<lparr>ur_success = True, ur_message = ''Already up to date.'', ur_commits_pulled = 0, ur_rebuilt = False\<rparr>)
            else
              bind_act (if before \<noteq> [] \<and> after \<noteq> []
                        then bind_act (run_cmd G ([''git'', ''-C'', tmp] @ log_range before after))
                               (\<lambda>r. give (if pr_returncode r = 0 then stdout_lines (pr_stdout r) else []))
                        else give []) (\<lambda>new_commits. give (Inr (after, new_commits)))))"

definition docker_sync ::
  "'w updater \<Rightarrow> string \<Rightarrow> string \<Rightarrow> string \<Rightarrow> ('w, update_result + string \<times> string list) act" where
  "docker_sync G branch url before h =
     (let tmp = ue_mkdtemp G (uh_world h)
      in bind_act (docker_fetch G tmp branch url before) (\<lambda>r.
           case r of
             Inl result \<Rightarrow> give (Inl result)
           | Inr (after, new_commits) \<Rightarrow>
               bind_act (sync_dirs G tmp SYNC_DIRS) (\<lambda>_.
               bind_act (write_version G (after @ nl)) (\<lambda>_. give (Inr (after, new_commits))))) h)"

definition apply_docker_mode :: "'w updater \<Rightarrow> string \<Rightarrow> bool \<Rightarrow> ('w, update_result) act" where
  "apply_docker_mode G branch rebuild h =
     (let url = get_remote_url h
      in if url = [] then give (update_failure ''No remote URL configured.'') h
         else bind_act (get_local_commit G) (\<lambda>before.
              bind_act (catch_act (docker_sync G branch url before) (\<lambda>e. Inl (update_failure (error_text e)))) (\<lambda>r.
                case r of
                  Inl result \<Rightarrow> give result
                | Inr (after, new_commits) \<Rightarrow>
                    bind_act (maybe_rebuild G rebuild new_commits) (\<lambda>rebuilt.
                      let n = (if new_commits \<noteq> [] then length new_commits else if before \<noteq> after then 1 else 0)
                      in give \<lparr>ur_success = True, ur_message = updated_text n @ '' Restart the container to load changes.'',
                               ur_commits_pulled = n, ur_rebuilt = rebuilt\<rparr>))) h)"

definition apply_update :: "'w updater \<Rightarrow> string option \<Rightarrow> bool \<Rightarrow> ('w, update_result) act" where
  "apply_update G b rebuild =
     bind_act (branch_or G b) (\<lambda>branch h.
       if is_git_repo G h then apply_git_mode G branch rebuild h else apply_docker_mode G branch rebuild h)"

text \<open>The notice of \<^verbatim>\<open>startup_check\<close>, \<open>None\<close> when nothing is printed.\<close>

definition truthy_setting :: "string \<Rightarrow> bool" where
  "truthy_setting s \<longleftrightarrow> py_strip s \<in> {''1'', ''true'', ''yes''}"

definition startup_check :: "'w updater \<Rightarrow> 'w upd_host \<Rightarrow> update_info option \<times> 'w upd_host" where
  "startup_check G h =
     (if \<not> truthy_setting (dget (uh_environ h) ''MAESTRO_AUTO_UPDATE'' []) then (None, h)
      else case check_for_updates G None h of
             (Inl _, h') \<Rightarrow> (None, h')
           | (Inr i, h') \<Rightarrow> (if ui_available i then Some i else None, h'))"

section \<open>The background updater\<close>

datatype event_data =
  NoData
| CheckData update_info
| ApplyData update_result
| ErrorData string string

record UpdateEvent =
  ev_kind :: string
  ev_data :: event_data

text \<open>
  A listener is called with every event, and what it raises is swallowed: the calls are kept in the order made.
\<close>

record 'l AutoUpdater =
  au_poll_interval :: int
  au_auto_apply :: bool
  au_enabled :: bool
  au_running :: bool
  au_listeners :: "'l list"
  au_last_check :: real
  au_last_check_info :: "update_info option"
  au_last_apply :: "update_result option"
  au_consecutive_errors :: nat
  au_updates_applied :: nat
  au_calls :: "('l \<times> UpdateEvent) list"

definition new_auto_updater :: "int \<Rightarrow> bool \<Rightarrow> bool \<Rightarrow> 'l AutoUpdater" where
  "new_auto_updater interval auto_apply enabled =
     \<lparr>au_poll_interval = max 10 interval, au_auto_apply = auto_apply, au_enabled = enabled, au_running = False,
      au_listeners = [], au_last_check = 0, au_last_check_info = None, au_last_apply = None,
      au_consecutive_errors = 0, au_updates_applied = 0, au_calls = []\<rparr>"

definition on_event :: "'l \<Rightarrow> 'l AutoUpdater \<Rightarrow> 'l AutoUpdater" where
  "on_event l a = (if l \<in> set (au_listeners a) then a else a\<lparr>au_listeners := au_listeners a @ [l]\<rparr>)"

definition remove_listener :: "'l \<Rightarrow> 'l AutoUpdater \<Rightarrow> 'l AutoUpdater" where
  "remove_listener l a = a\<lparr>au_listeners := filter (\<lambda>k. k \<noteq> l) (au_listeners a)\<rparr>"

definition emit_update :: "string \<Rightarrow> event_data \<Rightarrow> 'l AutoUpdater \<Rightarrow> 'l AutoUpdater" where
  "emit_update kind data a =
     a\<lparr>au_calls := au_calls a @ map (\<lambda>l. (l, \<lparr>ev_kind = kind, ev_data = data\<rparr>)) (au_listeners a)\<rparr>"

definition start_updater :: "'l AutoUpdater \<Rightarrow> 'l AutoUpdater" where
  "start_updater a = (if au_running a then a else a\<lparr>au_running := True\<rparr>)"

definition stop_updater :: "'l AutoUpdater \<Rightarrow> 'l AutoUpdater" where
  "stop_updater a = a\<lparr>au_running := False\<rparr>"

definition apply_cycle ::
  "'w updater \<Rightarrow> update_info \<Rightarrow> 'l AutoUpdater \<Rightarrow> 'w upd_host \<Rightarrow> 'l AutoUpdater \<times> 'w upd_host" where
  "apply_cycle G info a h =
     (let a1 = emit_update ''applying'' (CheckData info) a
      in case apply_update G None False h of
           (Inl e, h') \<Rightarrow> (emit_update ''error'' (ErrorData (error_text e) ''apply'') a1, h')
         | (Inr r, h') \<Rightarrow>
             (let a2 = a1\<lparr>au_last_apply := Some r\<rparr>
              in if ur_success r
                 then (emit_update ''applied'' (ApplyData r) (a2\<lparr>au_updates_applied := au_updates_applied a2 + 1\<rparr>), h')
                 else (emit_update ''error'' (ErrorData (ur_message r) ''apply'') a2, h')))"

definition do_cycle ::
  "'w updater \<Rightarrow> real \<Rightarrow> 'l AutoUpdater \<Rightarrow> 'w upd_host \<Rightarrow> 'l AutoUpdater \<times> 'w upd_host" where
  "do_cycle G now a h =
     (let a0 = emit_update ''check'' NoData a
      in case check_for_updates G None h of
           (Inl e, h') \<Rightarrow>
             (emit_update ''error'' (ErrorData (error_text e) ''check'')
                (a0\<lparr>au_consecutive_errors := au_consecutive_errors a0 + 1\<rparr>), h')
         | (Inr info, h') \<Rightarrow>
             (let a1 = a0\<lparr>au_last_check := now, au_last_check_info := Some info, au_consecutive_errors := 0\<rparr>
              in case ui_error info of
                   Some (c # cs) \<Rightarrow> (emit_update ''error'' (ErrorData (c # cs) ''check'') a1, h')
                 | _ \<Rightarrow>
                   (if \<not> ui_available info then (emit_update ''up_to_date'' (CheckData info) a1, h')
                    else let a2 = emit_update ''available'' (CheckData info) a1
                         in if \<not> au_auto_apply a2 then (a2, h') else apply_cycle G info a2 h')))"

text \<open>The wait after a round of the loop.\<close>

definition poll_delay :: "'l AutoUpdater \<Rightarrow> int" where
  "poll_delay a =
     (if 3 \<le> au_consecutive_errors a then min (au_poll_interval a * 2) 600 else au_poll_interval a)"

definition poll_round ::
  "'w updater \<Rightarrow> real \<Rightarrow> 'l AutoUpdater \<times> 'w upd_host \<Rightarrow> 'l AutoUpdater \<times> 'w upd_host" where
  "poll_round G now s = (if au_enabled (fst s) then do_cycle G now (fst s) (snd s) else s)"

text \<open>The loop over the times of its rounds; it ends when it is no longer running.\<close>

fun poll_loop ::
  "'w updater \<Rightarrow> real list \<Rightarrow> 'l AutoUpdater \<times> 'w upd_host \<Rightarrow> 'l AutoUpdater \<times> 'w upd_host" where
  "poll_loop G [] s = s"
| "poll_loop G (t # ts) s = (if au_running (fst s) then poll_loop G ts (poll_round G t s) else s)"

definition configure_updater :: "bool option \<Rightarrow> int option \<Rightarrow> bool option \<Rightarrow> 'l AutoUpdater \<Rightarrow> 'l AutoUpdater" where
  "configure_updater enabled interval auto_apply a =
     (let a1 = (case enabled of None \<Rightarrow> a | Some b \<Rightarrow> a\<lparr>au_enabled := b\<rparr>);
          a2 = (case interval of None \<Rightarrow> a1 | Some i \<Rightarrow> a1\<lparr>au_poll_interval := max 10 i\<rparr>)
      in case auto_apply of None \<Rightarrow> a2 | Some b \<Rightarrow> a2\<lparr>au_auto_apply := b\<rparr>)"

definition trigger_check ::
  "'w updater \<Rightarrow> real \<Rightarrow> 'l AutoUpdater \<Rightarrow> 'w upd_host \<Rightarrow> (run_error + update_info) \<times> 'l AutoUpdater \<times> 'w upd_host" where
  "trigger_check G now a h =
     (case check_for_updates G None h of
        (Inl e, h') \<Rightarrow> (Inl e, a, h')
      | (Inr info, h') \<Rightarrow> (Inr info, a\<lparr>au_last_check := now, au_last_check_info := Some info\<rparr>, h'))"

definition trigger_apply ::
  "'w updater \<Rightarrow> 'l AutoUpdater \<Rightarrow> 'w upd_host \<Rightarrow> (run_error + update_result) \<times> 'l AutoUpdater \<times> 'w upd_host" where
  "trigger_apply G a h =
     (case apply_update G None False h of
        (Inl e, h') \<Rightarrow> (Inl e, a, h')
      | (Inr r, h') \<Rightarrow>
          (let a1 = a\<lparr>au_last_apply := Some r\<rparr>
           in (Inr r, if ur_success r then emit_update ''applied'' (ApplyData r) (a1\<lparr>au_updates_applied := au_updates_applied a1 + 1\<rparr>)
                      else a1, h')))"

definition get_auto_updater :: "'l AutoUpdater option \<Rightarrow> (string, string) dict \<Rightarrow> 'l AutoUpdater" where
  "get_auto_updater current environ =
     (case current of
        Some a \<Rightarrow> a
      | None \<Rightarrow> new_auto_updater (case py_int (dget environ ''MAESTRO_UPDATE_INTERVAL'' ''60'') of Some i \<Rightarrow> i | None \<Rightarrow> 60)
                  (truthy_setting (dget environ ''MAESTRO_AUTO_APPLY_UPDATES'' [])) (truthy_setting (dget environ ''MAESTRO_AUTO_UPDATE'' [])))"

section \<open>Running actions\<close>

lemma give_simps [simp]: "give x h = (Inr x, h)"
  by (simp add: give_def)

lemma bind_give [simp]: "bind_act (give x) f = f x"
  by (simp add: bind_act_def fun_eq_iff)

lemma bind_act_Inr: "bind_act m f h = (Inr y, h'') \<longleftrightarrow> (\<exists>x h'. m h = (Inr x, h') \<and> f x h' = (Inr y, h''))"
  by (auto simp: bind_act_def split: prod.splits sum.splits)

text \<open>
  What an action leaves alone: the settings of the environment, and, for everything but the update of a
  container, the installed files and the version.
\<close>

definition leaves :: "'w upd_host \<Rightarrow> 'r \<times> 'w upd_host \<Rightarrow> bool" where
  "leaves h r \<longleftrightarrow> uh_environ (snd r) = uh_environ h \<and> uh_dirs (snd r) = uh_dirs h \<and> uh_version (snd r) = uh_version h"

named_theorems leaves_rules

lemma leaves_pair [leaves_rules]: "leaves h (r, h)"
  by (simp add: leaves_def)

lemma leaves_give [leaves_rules]: "leaves h (give x h)"
  by (simp add: leaves_def)

lemma leaves_run [leaves_rules]: "leaves h (run_cmd G cmd h)"
  by (simp add: leaves_def run_cmd_def split: prod.splits)

lemma leaves_bind [leaves_rules]:
  "leaves h (m h) \<Longrightarrow> (\<And>x h'. leaves h' (f x h')) \<Longrightarrow> leaves h (bind_act m f h)"
  by (auto simp: leaves_def bind_act_def split: prod.splits sum.splits)

lemma leaves_catch [leaves_rules]: "leaves h (m h) \<Longrightarrow> leaves h (catch_act m f h)"
  by (auto simp: leaves_def catch_act_def split: prod.splits sum.splits)

lemma leaves_if [leaves_rules]: "(b \<Longrightarrow> leaves h r) \<Longrightarrow> (\<not> b \<Longrightarrow> leaves h r') \<Longrightarrow> leaves h (if b then r else r')"
  by simp

lemma leaves_if_act [leaves_rules]:
  "(b \<Longrightarrow> leaves h (m h)) \<Longrightarrow> (\<not> b \<Longrightarrow> leaves h (n h)) \<Longrightarrow> leaves h ((if b then m else n) h)"
  by simp

lemma leaves_option [leaves_rules]:
  "(x = None \<Longrightarrow> leaves h r) \<Longrightarrow> (\<And>y. x = Some y \<Longrightarrow> leaves h (f y)) \<Longrightarrow> leaves h (case x of None \<Rightarrow> r | Some y \<Rightarrow> f y)"
  by (cases x) simp_all

lemma leaves_prod [leaves_rules]: "(\<And>a b. leaves h (f a b h)) \<Longrightarrow> leaves h ((case x of (a, b) \<Rightarrow> f a b) h)"
  by (cases x) simp

lemma leaves_get_branch [leaves_rules]: "leaves h (get_branch G h)"
  unfolding get_branch_def Let_def by (intro leaves_rules)

lemma leaves_branch_or [leaves_rules]: "leaves h (branch_or G b h)"
  unfolding branch_or_def by (auto split: option.splits list.splits intro: leaves_rules)

lemma leaves_local [leaves_rules]: "leaves h (get_local_commit G h)"
  unfolding get_local_commit_def by (intro leaves_rules)

lemma leaves_remote [leaves_rules]: "leaves h (get_remote_commit G b h)"
  unfolding get_remote_commit_def Let_def by (intro leaves_rules)

lemma leaves_log [leaves_rules]: "leaves h (get_commit_log G a c b h)"
  unfolding get_commit_log_def Let_def by (intro leaves_rules)

lemma leaves_check [leaves_rules]: "leaves h (check_for_updates G b h)"
  unfolding check_for_updates_def by (intro leaves_rules)

lemma leaves_compose [leaves_rules]: "leaves h (find_compose_cmd G cmds h)"
proof (induction cmds arbitrary: h)
  case (Cons cmd cmds)
  then show ?case
    using leaves_run [of h G "cmd @ [''version'']"]
    by (auto simp: leaves_def split: prod.splits sum.splits run_error.splits)
qed (simp add: leaves_def)

lemma leaves_rebuild [leaves_rules]: "leaves h (maybe_rebuild G b cs h)"
  unfolding maybe_rebuild_def by (intro leaves_rules)

lemma leaves_pop [leaves_rules]: "leaves h (stash_pop G b h)"
  unfolding stash_pop_def by (intro leaves_rules)

lemma leaves_changes [leaves_rules]: "leaves h (has_local_changes G h)"
  unfolding has_local_changes_def by (intro leaves_rules)

lemma leaves_sum [leaves_rules]:
  "(\<And>y. x = Inl y \<Longrightarrow> leaves h (f y)) \<Longrightarrow> (\<And>y. x = Inr y \<Longrightarrow> leaves h (g y)) \<Longrightarrow> leaves h (case x of Inl y \<Rightarrow> f y | Inr y \<Rightarrow> g y)"
  by (cases x) simp_all

lemma leaves_git_mode [leaves_rules]: "leaves h (apply_git_mode G branch b h)"
  unfolding apply_git_mode_def set_remote_def stash_changes_def pull_and_pop_def Let_def by (intro leaves_rules)

section \<open>The commands a check and an update run\<close>

definition reading :: "string list \<Rightarrow> bool" where
  "reading cmd \<longleftrightarrow> (case cmd of
       g # c # _ \<Rightarrow> g = ''git'' \<and> c \<in> {''rev-parse'', ''fetch'', ''ls-remote'', ''log'', ''clone'', ''--git-dir''}
     | _ \<Rightarrow> False)"

definition stashing :: "string list \<Rightarrow> bool" where
  "stashing cmd \<longleftrightarrow> take 2 cmd = [''git'', ''stash'']"

lemma reading_simps [simp]:
  "reading (''git'' # ''rev-parse'' # x)" "reading (''git'' # ''fetch'' # x)" "reading (''git'' # ''ls-remote'' # x)"
  "reading (''git'' # ''clone'' # x)" "reading (''git'' # ''--git-dir'' # x)" "reading (''git'' # log_range a b)"
  by (simp_all add: reading_def log_range_def)

definition keeps :: "('w \<Rightarrow> bool) \<Rightarrow> 'w upd_host \<Rightarrow> 'r \<times> 'w upd_host \<Rightarrow> bool" where
  "keeps I h r \<longleftrightarrow> (I (uh_world h) \<longrightarrow> I (uh_world (snd r)))"

named_theorems keeps_rules

lemma keeps_pair [keeps_rules]: "keeps I h (r, h)"
  by (simp add: keeps_def)

lemma keeps_give [keeps_rules]: "keeps I h (give x h)"
  by (simp add: keeps_def)

lemma keeps_bind [keeps_rules]:
  "keeps I h (m h) \<Longrightarrow> (\<And>x h'. keeps I h' (f x h')) \<Longrightarrow> keeps I h (bind_act m f h)"
  by (auto simp: keeps_def bind_act_def split: prod.splits sum.splits)

lemma keeps_catch [keeps_rules]: "keeps I h (m h) \<Longrightarrow> keeps I h (catch_act m f h)"
  by (auto simp: keeps_def catch_act_def split: prod.splits sum.splits)

lemma keeps_if [keeps_rules]: "(b \<Longrightarrow> keeps I h r) \<Longrightarrow> (\<not> b \<Longrightarrow> keeps I h r') \<Longrightarrow> keeps I h (if b then r else r')"
  by simp

lemma keeps_if_act [keeps_rules]:
  "(b \<Longrightarrow> keeps I h (m h)) \<Longrightarrow> (\<not> b \<Longrightarrow> keeps I h (n h)) \<Longrightarrow> keeps I h ((if b then m else n) h)"
  by simp

lemma keeps_option [keeps_rules]:
  "(x = None \<Longrightarrow> keeps I h r) \<Longrightarrow> (\<And>y. x = Some y \<Longrightarrow> keeps I h (f y)) \<Longrightarrow> keeps I h (case x of None \<Rightarrow> r | Some y \<Rightarrow> f y)"
  by (cases x) simp_all

lemma keeps_prod [keeps_rules]: "(\<And>a b. keeps I h (f a b h)) \<Longrightarrow> keeps I h ((case x of (a, b) \<Rightarrow> f a b) h)"
  by (cases x) simp

locale reading_commands =
  fixes G :: "'w updater" and allowed :: "string list \<Rightarrow> bool" and I :: "'w \<Rightarrow> bool"
  assumes step: "allowed cmd \<Longrightarrow> I w \<Longrightarrow> I (snd (ue_exec G cmd w))"
    and reads: "reading cmd \<Longrightarrow> allowed cmd"
begin

lemma run_keeps: "allowed cmd \<Longrightarrow> keeps I h (run_cmd G cmd h)"
  using step [of cmd "uh_world h"] by (auto simp: keeps_def run_cmd_def split: prod.splits)

lemma read_keeps: "reading cmd \<Longrightarrow> keeps I h (run_cmd G cmd h)"
  by (rule run_keeps [OF reads])

lemma branch_keeps: "keeps I h (get_branch G h)"
  unfolding get_branch_def Let_def by (intro keeps_rules read_keeps) simp_all

lemma branch_or_keeps: "keeps I h (branch_or G b h)"
  unfolding branch_or_def using branch_keeps [of h] by (auto split: option.splits list.splits intro: keeps_rules)

lemma local_keeps: "keeps I h (get_local_commit G h)"
  unfolding get_local_commit_def by (intro keeps_rules read_keeps) simp_all

lemma remote_keeps: "keeps I h (get_remote_commit G b h)"
  unfolding get_remote_commit_def Let_def by (intro keeps_rules read_keeps branch_or_keeps) simp_all

lemma log_keeps: "keeps I h (get_commit_log G a c b h)"
  unfolding get_commit_log_def Let_def by (intro keeps_rules read_keeps branch_or_keeps) simp_all

lemma check_keeps: "keeps I h (check_for_updates G b h)"
  unfolding check_for_updates_def by (intro keeps_rules branch_or_keeps local_keeps remote_keeps log_keeps)

lemma cycle_keeps:
  assumes "I (uh_world h)" "\<not> au_auto_apply a"
  shows "I (uh_world (snd (do_cycle G now a h)))"
  using check_keeps [of h None] assms
  by (auto simp: do_cycle_def Let_def keeps_def emit_update_def split: prod.splits sum.splits option.splits list.splits)

end

locale working_commands = reading_commands +
  assumes works: "\<not> stashing cmd \<Longrightarrow> allowed cmd"
begin

lemma work_keeps: "\<not> stashing cmd \<Longrightarrow> keeps I h (run_cmd G cmd h)"
  by (rule run_keeps [OF works])

lemma changes_keeps: "keeps I h (has_local_changes G h)"
  unfolding has_local_changes_def by (intro keeps_rules work_keeps) (simp_all add: stashing_def)

lemma compose_keeps: "list_all (\<lambda>c. take 1 c \<noteq> [''git''] \<and> c \<noteq> []) cmds \<Longrightarrow> keeps I h (find_compose_cmd G cmds h)"
proof (induction cmds arbitrary: h)
  case (Cons cmd cmds)
  then have "\<not> stashing (cmd @ [''version''])" by (cases cmd) (auto simp: stashing_def numeral_2_eq_2)
  then have k: "keeps I h (run_cmd G (cmd @ [''version'']) h)" by (rule work_keeps)
  have ih: "keeps I h' (find_compose_cmd G cmds h')" for h' using Cons by simp
  obtain r h1 where r: "run_cmd G (cmd @ [''version'']) h = (r, h1)" by fastforce
  show ?case
  proof (cases r)
    case (Inl e)
    then show ?thesis using k ih [of h1] r by (cases e) (simp_all add: keeps_def)
  next
    case (Inr p)
    then show ?thesis using k ih [of h1] r by (simp add: keeps_def)
  qed
qed (simp add: keeps_def)

lemma compose_result: "find_compose_cmd G cmds h = (Inr c, h') \<Longrightarrow> c = [] \<or> c \<in> set cmds"
  by (induction G cmds h rule: find_compose_cmd.induct)
    (auto split: prod.splits sum.splits run_error.splits if_splits)

lemma rebuild_keeps: "keeps I h (maybe_rebuild G b cs h)"
proof (cases "b \<and> cs \<noteq> []")
  case True
  let ?cmds = "[[''docker'', ''compose''], [''docker-compose'']]"
  obtain r h1 where f: "find_compose_cmd G ?cmds h = (r, h1)" by fastforce
  have k: "keeps I h (r, h1)" using compose_keeps [of ?cmds h] f by simp
  show ?thesis
  proof (cases r)
    case (Inr c)
    have "\<not> stashing (c @ [''up'', ''-d'', ''--build''])"
      using compose_result [OF f [unfolded Inr]] by (auto simp: stashing_def)
    from work_keeps [OF this, of h1] have "keeps I h1 ((if c = [] then give False
        else bind_act (run_cmd G (c @ [''up'', ''-d'', ''--build''])) (\<lambda>r. give (pr_returncode r = 0))) h1)"
      by (intro keeps_rules)
    then show ?thesis using k f Inr True by (simp add: maybe_rebuild_def bind_act_def keeps_def)
  qed (use k f True in \<open>simp add: maybe_rebuild_def bind_act_def keeps_def\<close>)
qed (auto simp: maybe_rebuild_def keeps_def)

end

text \<open>The same commands, with the log of all that were run kept beside the state.\<close>

definition log_commands :: "'w updater \<Rightarrow> ('w \<times> string list list) updater" where
  "log_commands G =
     \<lparr>ue_exec = (\<lambda>cmd w. let (r, w') = ue_exec G cmd (fst w) in (r, w', snd w @ [cmd])),
      ue_is_repo = (\<lambda>w. ue_is_repo G (fst w)), ue_mkdtemp = (\<lambda>w. ue_mkdtemp G (fst w)),
      ue_clone_dir = (\<lambda>t d w. ue_clone_dir G t d (fst w)), ue_copytree = ue_copytree G,
      ue_version_locked = (\<lambda>w. ue_version_locked G (fst w))\<rparr>"

lemma log_exec: "snd (snd (ue_exec (log_commands G) cmd w)) = snd w @ [cmd]"
  by (simp add: log_commands_def split: prod.splits)

interpretation rd: reading_commands "log_commands G" reading "\<lambda>w. list_all reading (snd w)" for G
  by unfold_locales (simp_all add: log_exec)

interpretation wk: working_commands "log_commands G" "\<lambda>cmd. \<not> stashing cmd" "\<lambda>w. filter stashing (snd w) = L" for G L
  by unfold_locales (auto simp: log_exec reading_def stashing_def numeral_2_eq_2 split: list.splits)

text \<open>
  Library fact: without automatic application the background updater only looks: whatever the remote answers, every
  command it runs is a reading one, and the installed files and their version stay as they are.
\<close>

theorem background_only_reads:
  assumes "\<not> au_auto_apply a" "list_all reading (snd (uh_world h))"
    and "poll_loop (log_commands G) rounds (a, h) = (a', h')"
  shows "list_all reading (snd (uh_world h')) \<and> uh_dirs h' = uh_dirs h \<and> uh_version h' = uh_version h"
  using assms
proof (induction rounds arbitrary: a h)
  case (Cons t ts)
  show ?case
  proof (cases "au_running a \<and> au_enabled a")
    case True
    obtain a1 h1 where c: "do_cycle (log_commands G) t a h = (a1, h1)" by fastforce
    have "list_all reading (snd (uh_world h1))" using rd.cycle_keeps [OF Cons.prems(2,1), of G t] c by simp
    moreover have "\<not> au_auto_apply a1 \<and> uh_dirs h1 = uh_dirs h \<and> uh_version h1 = uh_version h"
      using c leaves_check [of h "log_commands G" None] Cons.prems(1)
      by (auto simp: do_cycle_def Let_def leaves_def emit_update_def split: prod.splits sum.splits option.splits list.splits if_splits)
    moreover have "poll_loop (log_commands G) ts (a1, h1) = (a', h')"
      using Cons.prems(3) c True by (simp add: poll_round_def)
    ultimately show ?thesis using Cons.IH [of a1 h1] by simp
  next
    case False
    then show ?thesis using Cons by (auto simp: poll_round_def split: if_splits)
  qed
qed simp

definition stashes :: "('w \<times> string list list) upd_host \<Rightarrow> string list list" where
  "stashes h = filter stashing (snd (uh_world h))"

lemma stashes_same:
  "(\<And>L. keeps (\<lambda>w. filter stashing (snd w) = L) h r) \<Longrightarrow> stashes (snd r) = stashes h"
  by (simp add: keeps_def stashes_def)

lemma stashes_run: "stashes (snd (run_cmd (log_commands G) cmd h)) = stashes h @ (if stashing cmd then [cmd] else [])"
  using log_exec [of G cmd "uh_world h"] by (auto simp: run_cmd_def stashes_def split: prod.splits)

definition STASH_PUSH :: "string list" where
  "STASH_PUSH = [''git'', ''stash'', ''push'', ''-m'', ''maestro-auto-update-stash'']"

definition STASH_POP :: "string list" where
  "STASH_POP = [''git'', ''stash'', ''pop'']"

lemma stashes_pop: "stash_pop (log_commands G) b h = (Inr u, h') \<Longrightarrow> stashes h' = stashes h @ (if b then [STASH_POP] else [])"
  using stashes_run [of G STASH_POP h]
  by (auto simp: stash_pop_def bind_act_def STASH_POP_def stashing_def split: if_splits prod.splits sum.splits)

lemma stashes_of:
  assumes "p = (r, h')" "\<And>L. keeps (\<lambda>w. filter stashing (snd w) = L) h p"
  shows "stashes h' = stashes h"
  using stashes_same [OF assms(2)] assms(1) by simp

lemma stashes_set_remote: "set_remote (log_commands G) h = (r, h') \<Longrightarrow> stashes h' = stashes h"
  by (rule stashes_of, assumption)
    (unfold set_remote_def Let_def, intro keeps_rules wk.work_keeps, simp add: stashing_def)

lemma stashes_push:
  assumes "stash_changes (log_commands G) h = (Inr b, h')"
  shows "stashes h' = stashes h @ (if b then [STASH_PUSH] else [])"
proof -
  obtain c h1 where c: "has_local_changes (log_commands G) h = (Inr c, h1)"
    and r: "(if c then bind_act (run_cmd (log_commands G) STASH_PUSH) (\<lambda>_. give True) else give False) h1 = (Inr b, h')"
    using assms unfolding stash_changes_def STASH_PUSH_def bind_act_Inr by blast
  have "stashes h1 = stashes h" using stashes_of [OF c] wk.changes_keeps by blast
  then show ?thesis
    using r stashes_run [of G STASH_PUSH h1]
    by (auto simp: bind_act_Inr STASH_PUSH_def stashing_def split: if_splits)
qed

lemma stashes_pull:
  assumes "pull_and_pop (log_commands G) branch b h = (Inr r, h')"
  shows "stashes h' = stashes h @ (if b then [STASH_POP] else [])"
proof -
  let ?G = "log_commands G" let ?pull = "[''git'', ''pull'', ''origin'', branch]"
  obtain before h1 p h2 where c: "get_local_commit ?G h = (Inr before, h1)" "run_cmd ?G ?pull h1 = (Inr p, h2)"
    and rest: "(if pr_returncode p \<noteq> 0
       then bind_act (stash_pop ?G b) (\<lambda>_. give (Inl (update_failure (''git pull failed: '' @ py_strip (pr_stderr p)))))
       else bind_act (get_local_commit ?G) (\<lambda>after.
            bind_act (if before \<noteq> after then get_commit_log ?G before after (Some branch) else give []) (\<lambda>new_commits.
            bind_act (stash_pop ?G b) (\<lambda>_. give (Inr new_commits))))) h2 = (Inr r, h')"
    using assms unfolding pull_and_pop_def bind_act_Inr by blast
  have "stashes h1 = stashes h" using stashes_of [OF c(1)] wk.local_keeps by blast
  moreover have "stashes h2 = stashes h1" using stashes_run [of G ?pull h1] c(2) by (simp add: stashing_def)
  ultimately have s2: "stashes h2 = stashes h" by simp
  show ?thesis
  proof (cases "pr_returncode p = 0")
    case False
    then show ?thesis using rest s2 stashes_pop by (fastforce simp: bind_act_Inr)
  next
    case True
    then obtain after h3 nc h4 u where d: "get_local_commit ?G h2 = (Inr after, h3)"
      "(if before \<noteq> after then get_commit_log ?G before after (Some branch) else give []) h3 = (Inr nc, h4)"
      "stash_pop ?G b h4 = (Inr u, h')"
      using rest by (auto simp: bind_act_Inr)
    have "stashes h3 = stashes h2" using stashes_of [OF d(1)] wk.local_keeps by blast
    moreover have "stashes h4 = stashes h3"
      by (rule stashes_of [OF d(2)]) (intro keeps_rules wk.log_keeps)
    ultimately show ?thesis using s2 stashes_pop [OF d(3)] by simp
  qed
qed


section \<open>The result of a check\<close>

text \<open>
  Library fact: what a check reports is consistent: an error means that nothing is offered, and without an error the
  branch has a remote commit, nothing offered means that the short commits agree, and new commits are listed only
  with an offer.
\<close>
theorem update_check_sound:
  assumes "check_for_updates G b h = (Inr i, h')"
  shows "(case ui_error i of
            Some e \<Rightarrow> \<not> ui_available i \<and> ui_remote_commit i = [] \<and> e \<noteq> []
          | None \<Rightarrow> ui_remote_commit i \<noteq> [] \<and> (\<not> ui_available i \<longrightarrow> ui_local_commit i = ui_remote_commit i))
    \<and> (ui_new_commits i \<noteq> [] \<longrightarrow> ui_available i) \<and> (ui_local_unknown i \<longrightarrow> ui_available i)
    \<and> length (ui_local_commit i) \<le> 8 \<and> length (ui_remote_commit i) \<le> 8"
proof -
  obtain branch h1 local h2 remote err h3 where
    "branch_or G b h = (Inr branch, h1)" "get_local_commit G h1 = (Inr local, h2)"
    "get_remote_commit G (Some branch) h2 = (Inr (remote, err), h3)" and
    r: "(if remote = []
       then give \<lparr>ui_available = False, ui_local_commit = take 8 local, ui_local_unknown = False, ui_remote_commit = [],
                  ui_new_commits = [], ui_branch = branch,
                  ui_error = Some (if get_remote_url h3 = []
                    then ''No remote configured. Set your repository URL above, then check for updates.''
                    else if err \<noteq> [] then err else ''Could not determine remote commit.'')\<rparr> h3
       else if local = []
       then give \<lparr>ui_available = True, ui_local_commit = [], ui_local_unknown = True, ui_remote_commit = take 8 remote,
                  ui_new_commits = [], ui_branch = branch, ui_error = None\<rparr> h3
       else bind_act (if local \<noteq> remote then get_commit_log G local remote (Some branch) else give []) (\<lambda>new_commits.
              give \<lparr>ui_available = (local \<noteq> remote), ui_local_commit = take 8 local, ui_local_unknown = False,
                    ui_remote_commit = take 8 remote, ui_new_commits = new_commits, ui_branch = branch, ui_error = None\<rparr>) h3)
     = (Inr i, h')"
    using assms unfolding check_for_updates_def bind_act_Inr split_paired_Ex prod.case by blast
  show ?thesis
  proof (cases "remote = [] \<or> local = []")
    case True
    then show ?thesis using r by (auto split: if_splits)
  next
    case False
    then obtain nc where i: "i = \<lparr>ui_available = (local \<noteq> remote), ui_local_commit = take 8 local, ui_local_unknown = False,
        ui_remote_commit = take 8 remote, ui_new_commits = nc, ui_branch = branch, ui_error = None\<rparr>" "local = remote \<longrightarrow> nc = []"
      using r by (auto simp: bind_act_Inr split: if_splits)
    then show ?thesis using False by auto
  qed
qed

section \<open>What an update installs\<close>

lemma below_env: "p \<in> set PRESERVE_PATTERNS \<Longrightarrow> d \<in> set PRESERVE_DIRS \<Longrightarrow> \<not> below d p"
  by (auto simp: PRESERVE_PATTERNS_def PRESERVE_DIRS_def below_def starts_with_def)

lemma map_of_fold_filter:
  assumes "well_keyed old"
  shows "map_of (fold (\<lambda>(p, c). dset p c) (filter (\<lambda>(p, _). Q p) old) t) p
    = (if Q p \<and> map_of old p \<noteq> None then map_of old p else map_of t p)"
proof -
  have "distinct (map fst (filter (\<lambda>(p, _). Q p) old))"
    using assms by (simp add: well_keyed_def distinct_map_filter)
  then have "map_of (rev (filter (\<lambda>(p, _). Q p) old)) = map_of (filter (\<lambda>(p, _). Q p) old)"
    by (subst map_of_inject_set) (simp_all flip: rev_map)
  then show ?thesis
    by (simp add: map_of_fold_dset map_add_def map_of_filter_keys split: option.splits)
qed

lemma dir_exists_iff: "dir_exists d t \<longleftrightarrow> (\<exists>p. below d p \<and> map_of t p \<noteq> None)"
  by (auto simp: dir_exists_def list_ex_iff map_of_eq_None_iff)

text \<open>
  Library fact: a directory that is updated holds exactly the new files, but the \<^verbatim>\<open>.env\<close> files that were there keep
  their content, and the built frontend stays when the new version does not bring one.
\<close>

theorem sync_directory_exact:
  assumes "well_keyed old" "ue_copytree G src = (None, src)"
  shows "sync_directory G src (Some old) = (None, new) \<Longrightarrow> map_of new p =
    (if p \<in> set PRESERVE_PATTERNS \<and> map_of old p \<noteq> None then map_of old p
     else if below ''frontend/dist'' p \<and> \<not> dir_exists ''frontend/dist'' src then map_of old p
     else map_of src p)"
proof -
  assume n: "sync_directory G src (Some old) = (None, new)"
  define t where "t = fold (\<lambda>(p, c). dset p c) (filter (\<lambda>(p, _). p \<in> set PRESERVE_PATTERNS) old) src"
  have new: "new = restore_dir old ''frontend/dist'' t"
    using n assms(2) by (simp add: sync_directory_def Let_def PRESERVE_DIRS_def t_def)
  have t: "map_of t q = (if q \<in> set PRESERVE_PATTERNS \<and> map_of old q \<noteq> None then map_of old q else map_of src q)" for q
    unfolding t_def by (rule map_of_fold_filter [OF assms(1)])
  have below: "map_of t q = map_of src q" if "below ''frontend/dist'' q" for q
    using t [of q] below_env [of q "''frontend/dist''"] that by (auto simp: PRESERVE_DIRS_def)
  have dir: "dir_exists ''frontend/dist'' t = dir_exists ''frontend/dist'' src"
    unfolding dir_exists_iff using below by auto
  show ?thesis
  proof (cases "dir_exists ''frontend/dist'' src")
    case True
    then show ?thesis using new dir t [of p] by (auto simp: restore_dir_def)
  next
    case False
    then have r: "map_of new p = (if below ''frontend/dist'' p \<and> map_of old p \<noteq> None then map_of old p else map_of t p)"
      using new dir by (simp add: restore_dir_def map_of_fold_filter [OF assms(1)])
    have "map_of src p = None" if "below ''frontend/dist'' p" using False that by (auto simp: dir_exists_iff)
    then show ?thesis
      using r t [of p] below [of p] below_env [of p "''frontend/dist''"] False by (auto simp: PRESERVE_DIRS_def)
  qed
qed

text \<open>A copy that fails leaves the user's keys deleted: they are restored only after it.\<close>

lemma failed_copy_loses_env:
  "ue_copytree G src = (Some e, []) \<Longrightarrow> snd (sync_directory G src (Some [(''.env'', ''KEY=1'')])) = []"
  by (simp add: sync_directory_def Let_def)

definition installed :: "'w updater \<Rightarrow> string \<Rightarrow> 'w \<Rightarrow> (string, tree) dict \<Rightarrow> string \<Rightarrow> tree option" where
  "installed G tmp w dirs d =
     (case ue_clone_dir G tmp d w of
        None \<Rightarrow> map_of dirs d
      | Some src \<Rightarrow> Some (snd (sync_directory G src (map_of dirs d))))"

lemma sync_dirs_result:
  "sync_dirs G tmp ds h = (Inr u, h') \<Longrightarrow> distinct ds \<Longrightarrow>
   uh_world h' = uh_world h \<and> uh_environ h' = uh_environ h \<and> uh_version h' = uh_version h
   \<and> (\<forall>d. map_of (uh_dirs h') d = (if d \<in> set ds then installed G tmp (uh_world h) (uh_dirs h) d else map_of (uh_dirs h) d))"
proof (induction ds arbitrary: h)
  case (Cons d ds)
  show ?case
  proof (cases "ue_clone_dir G tmp d (uh_world h)")
    case None
    then show ?thesis using Cons by (auto simp: installed_def)
  next
    case (Some src)
    obtain f t where f: "sync_directory G src (map_of (uh_dirs h) d) = (f, t)" by fastforce
    then have "f = None" using Cons.prems(1) Some by (cases f) auto
    then have r: "sync_dirs G tmp ds (h\<lparr>uh_dirs := dset d t (uh_dirs h)\<rparr>) = (Inr u, h')"
      using Cons.prems(1) Some f by simp
    have "installed G tmp (uh_world h) (dset d t (uh_dirs h)) e = installed G tmp (uh_world h) (uh_dirs h) e" if "e \<in> set ds" for e
    proof -
      have "map_of (dset d t (uh_dirs h)) e = map_of (uh_dirs h) e" using that Cons.prems(2) by auto
      then show ?thesis by (simp only: installed_def)
    qed
    then show ?thesis
      using Cons.IH [OF r] Cons.prems(2) Some f by (auto simp: installed_def)
  qed
qed simp

lemma leaves_fetch: "leaves h (docker_fetch G tmp branch url before h)"
  unfolding docker_fetch_def Let_def by (intro leaves_rules)

lemma fetch_success: "docker_fetch G tmp branch url before h = (Inr (Inl r), h') \<Longrightarrow> ur_commits_pulled r = 0"
  unfolding docker_fetch_def Let_def
  by (auto simp: bind_act_Inr update_failure_def split: if_splits)


lemma strip_ends:
  assumes "py_strip t = s" "s \<noteq> []"
  shows "\<not> py_space (hd s) \<and> \<not> py_space (last s)"
proof -
  define u where "u = dropWhile py_space t"
  have s: "rev s = dropWhile py_space (rev u)" using assms(1) by (auto simp: py_strip_def u_def)
  have ne: "dropWhile py_space (rev u) \<noteq> []" using s assms(2) by (metis rev_is_Nil_conv)
  then have "u \<noteq> []" by auto
  then have hu: "\<not> py_space (hd u)" unfolding u_def by (metis hd_dropWhile)
  have "\<not> py_space (hd (rev s))" using s ne by (simp add: hd_dropWhile)
  moreover have "hd s = hd u"
  proof -
    have "rev u = takeWhile py_space (rev u) @ rev s" using s by simp
    then have "u = s @ rev (takeWhile py_space (rev u))" by (metis rev_append rev_rev_ident)
    then show ?thesis using assms(2) by (metis hd_append2)
  qed
  ultimately show ?thesis using hu assms(2) by (simp add: hd_rev)
qed

lemma strip_padded: "s \<noteq> [] \<Longrightarrow> \<not> py_space (hd s) \<Longrightarrow> \<not> py_space (last s) \<Longrightarrow> py_strip (s @ nl) = s"
proof -
  assume a: "s \<noteq> []" "\<not> py_space (hd s)" "\<not> py_space (last s)"
  have "dropWhile py_space (s @ nl) = s @ nl" using a(1,2) by (cases s) simp_all
  moreover have "py_space CHR 0x0A" by (simp add: py_space_def)
  moreover have "dropWhile py_space (rev s) = rev s" using a(1,3) by (cases s rule: rev_cases) simp_all
  ultimately show ?thesis by (simp add: py_strip_def nl_def)
qed

text \<open>
  Library fact: the version written by an update is the commit the next check compares with, unless the commit reads
  \<^verbatim>\<open>unknown\<close>.
\<close>

theorem version_read_back:
  "head = py_strip out \<Longrightarrow> version_commit (Some (head @ nl)) = (if py_lower head = ''unknown'' then [] else head)"
proof (cases "head = []")
  case True
  then show ?thesis by (simp add: version_commit_def nl_def py_strip_def py_space_def py_lower_def)
next
  case False
  assume "head = py_strip out"
  then have "py_strip (head @ nl) = head" using strip_ends [of out head] strip_padded [of head] False by simp
  then show ?thesis using False by (simp add: version_commit_def Let_def)
qed

section \<open>The events\<close>

definition heard :: "'l \<Rightarrow> 'l AutoUpdater \<Rightarrow> UpdateEvent list" where
  "heard l a = map snd (filter (\<lambda>c. fst c = l) (au_calls a))"

lemma heard_emit:
  "distinct (au_listeners a) \<Longrightarrow>
   heard l (emit_update k d a) = heard l a @ (if l \<in> set (au_listeners a) then [\<lparr>ev_kind = k, ev_data = d\<rparr>] else [])"
proof -
  assume d: "distinct (au_listeners a)"
  have "map snd (filter (\<lambda>c. fst c = l) (map (\<lambda>l. (l, e)) ls)) = (if l \<in> set ls then [e] else [])"
    if "distinct ls" for e :: UpdateEvent and ls
    using that by (induction ls) (auto simp: filter_empty_conv)
  note this [OF d]
  then show ?thesis by (simp add: heard_def emit_update_def)
qed

lemma heard_update [simp]:
  "heard l (a\<lparr>au_consecutive_errors := n\<rparr>) = heard l a" "heard l (a\<lparr>au_last_check := t\<rparr>) = heard l a"
  "heard l (a\<lparr>au_last_check_info := i\<rparr>) = heard l a" "heard l (a\<lparr>au_last_apply := r\<rparr>) = heard l a"
  "heard l (a\<lparr>au_updates_applied := m\<rparr>) = heard l a"
  by (simp_all add: heard_def)

lemma emit_fields [simp]:
  "au_listeners (emit_update k d a) = au_listeners a" "au_auto_apply (emit_update k d a) = au_auto_apply a"
  "au_updates_applied (emit_update k d a) = au_updates_applied a" "au_consecutive_errors (emit_update k d a) = au_consecutive_errors a"
  "au_poll_interval (emit_update k d a) = au_poll_interval a"
  by (simp_all add: emit_update_def)

definition cycle_patterns :: "string list list" where
  "cycle_patterns =
     [[''check'', ''error''], [''check'', ''up_to_date''], [''check'', ''available''],
      [''check'', ''available'', ''applying'', ''applied''], [''check'', ''available'', ''applying'', ''error'']]"

text \<open>
  Library fact: every cycle tells every listener one of five stories, in order and once: a check that failed, nothing new,
  an update that is available, and, when updates are applied automatically, its application with its outcome.
  The counter of applied updates goes up exactly with the fourth.
\<close>

theorem cycle_events:
  assumes "distinct (au_listeners a)" "l \<in> set (au_listeners a)" "do_cycle G now a h = (a', h')"
  shows "\<exists>evs. heard l a' = heard l a @ evs \<and> map ev_kind evs \<in> set cycle_patterns
    \<and> (length evs > 2 \<longrightarrow> au_auto_apply a)
    \<and> au_updates_applied a' = au_updates_applied a + (if last (map ev_kind evs) = ''applied'' then 1 else 0)"
proof -
  note h = heard_emit assms(1,2) cycle_patterns_def
  let ?E = "\<lambda>k d. \<lparr>ev_kind = k, ev_data = d\<rparr>"
  obtain c h1 where c: "check_for_updates G None h = (c, h1)" by fastforce
  obtain r h2 where r: "apply_update G None False h1 = (r, h2)" by fastforce
  show ?thesis
  proof (cases c)
    case (Inl e)
    then have "a' = emit_update ''error'' (ErrorData (error_text e) ''check'')
        (emit_update ''check'' NoData a\<lparr>au_consecutive_errors := au_consecutive_errors a + 1\<rparr>)"
      using assms(3) c by (simp add: do_cycle_def Let_def)
    then show ?thesis
      by (intro exI [of _ "[?E ''check'' NoData, ?E ''error'' (ErrorData (error_text e) ''check'')]"]) (simp add: h)
  next
    case (Inr i)
    define a1 where "a1 = emit_update ''check'' NoData a\<lparr>au_last_check := now, au_last_check_info := Some i, au_consecutive_errors := 0\<rparr>"
    have a1: "heard l a1 = heard l a @ [?E ''check'' NoData]" "au_listeners a1 = au_listeners a"
      "au_auto_apply a1 = au_auto_apply a" "au_updates_applied a1 = au_updates_applied a"
      by (simp_all add: a1_def h)
    note cyc = assms(3) [unfolded do_cycle_def c Inr, simplified, folded a1_def]
    show ?thesis
    proof (cases "\<exists>e es. ui_error i = Some (e # es)")
      case True
      then obtain e es where "ui_error i = Some (e # es)" by blast
      then have "a' = emit_update ''error'' (ErrorData (e # es) ''check'') a1" using cyc by (simp add: Let_def a1_def)
      then show ?thesis
        by (intro exI [of _ "[?E ''check'' NoData, ?E ''error'' (ErrorData (e # es) ''check'')]"]) (simp add: h a1)
    next
      case False
      then have body: "(if \<not> ui_available i then (emit_update ''up_to_date'' (CheckData i) a1, h1)
          else let a2 = emit_update ''available'' (CheckData i) a1
               in if \<not> au_auto_apply a2 then (a2, h1) else apply_cycle G i a2 h1) = (a', h')"
        using cyc by (auto simp: Let_def a1_def split: option.splits list.splits)
      show ?thesis
      proof (cases "ui_available i \<and> au_auto_apply a")
        case no: False
        show ?thesis
        proof (cases "ui_available i")
          case True
          then show ?thesis using body no
            by (intro exI [of _ "[?E ''check'' NoData, ?E ''available'' (CheckData i)]"]) (auto simp: h a1 Let_def)
        next
          case False
          then show ?thesis using body
            by (intro exI [of _ "[?E ''check'' NoData, ?E ''up_to_date'' (CheckData i)]"]) (auto simp: h a1 Let_def)
        qed
      next
        case True
        then have ap: "apply_cycle G i (emit_update ''available'' (CheckData i) a1) h1 = (a', h')"
          using body by (simp add: a1)
        let ?start = "[?E ''check'' NoData, ?E ''available'' (CheckData i), ?E ''applying'' (CheckData i)]"
        show ?thesis
        proof (cases r)
          case (Inl e)
          then show ?thesis using ap r True
            by (intro exI [of _ "?start @ [?E ''error'' (ErrorData (error_text e) ''apply'')]"])
              (auto simp: apply_cycle_def Let_def h a1)
        next
          case (Inr u)
          then show ?thesis using ap r True
            by (intro exI [of _ "?start @ [if ur_success u then ?E ''applied'' (ApplyData u) else ?E ''error'' (ErrorData (ur_message u) ''apply'')]"])
              (auto simp: apply_cycle_def Let_def h a1 split: if_splits)
        qed
      qed
    qed
  qed
qed

section \<open>The pace of the loop\<close>

text \<open>
  Library fact: however it is configured, the updater waits at least ten seconds between two rounds.
\<close>

theorem poll_pace:
  "10 \<le> poll_delay (fold (\<lambda>(e, i, b). configure_updater e i b) cs (new_auto_updater interval auto_apply enabled))"
proof -
  have "10 \<le> au_poll_interval (fold (\<lambda>(e, i, b). configure_updater e i b) cs a)" if "10 \<le> au_poll_interval a" for a :: "'a AutoUpdater"
    using that
    by (induction cs arbitrary: a) (auto simp: configure_updater_def Let_def split: option.splits)
  from this [of "new_auto_updater interval auto_apply enabled"]
  show ?thesis by (simp add: poll_delay_def new_auto_updater_def)
qed

text \<open>
  An error that the check reports, as it does for a remote that cannot be reached, resets the counter of errors:
  only an exception slows the loop down.
\<close>

lemma reported_error_resets_backoff:
  "check_for_updates G None h = (Inr i, h') \<Longrightarrow> au_consecutive_errors (fst (do_cycle G now a h)) = 0"
  by (auto simp: do_cycle_def apply_cycle_def Let_def split: option.splits list.splits prod.splits sum.splits)

text \<open>The slowing down makes a slow loop faster.\<close>

lemma backoff_speeds_up:
  "let a = new_auto_updater 3600 False True in poll_delay (a\<lparr>au_consecutive_errors := 3\<rparr>) < poll_delay a"
  by (simp add: new_auto_updater_def poll_delay_def)

text \<open>
  A working tree with its answers: \<open>answers\<close> maps a command to its output, a command without an answer fails
  with a message.
\<close>

definition scripted :: "bool \<Rightarrow> (string list \<times> string) list \<Rightarrow> (string \<Rightarrow> tree option) \<Rightarrow> unit updater" where
  "scripted repo answers clone =
     \<lparr>ue_exec = (\<lambda>cmd w. case map_of answers cmd of
          Some out \<Rightarrow> (Inr \<lparr>pr_returncode = 0, pr_stdout = out, pr_stderr = []\<rparr>, w)
        | None \<Rightarrow> (Inr \<lparr>pr_returncode = 1, pr_stdout = [], pr_stderr = ''refused''\<rparr>, w)),
      ue_is_repo = (\<lambda>_. repo), ue_mkdtemp = (\<lambda>_. ''/tmp/u''), ue_clone_dir = (\<lambda>_ d _. clone d),
      ue_copytree = (\<lambda>t. (None, t)), ue_version_locked = (\<lambda>_. None)\<rparr>"

definition host_at :: "(string, string) dict \<Rightarrow> 'w \<Rightarrow> 'w upd_host" where
  "host_at e w = \<lparr>uh_world = w, uh_environ = e, uh_version = None, uh_dirs = [(''maestro'', [(''.env'', ''K''), (''a.py'', ''1'')])]\<rparr>"

text \<open>A local commit the remote does not have is offered an update to the older one.\<close>

lemma ahead_of_remote_is_available:
  "case check_for_updates (scripted True
       [([''git'', ''rev-parse'', ''HEAD''], ''new''), ([''git'', ''fetch'', ''origin'', ''main''], []),
        ([''git'', ''rev-parse'', ''origin/main''], ''old''), ([''git'', ''log'', ''--oneline'', ''new..old''], [])] (\<lambda>_. None))
     (Some ''main'') (host_at [] ()) of
     (Inr i, _) \<Rightarrow> ui_available i \<and> ui_new_commits i = [] | _ \<Rightarrow> False"
  by code_simp

text \<open>The reason why a fetch failed is not told: the message asks for a remote.\<close>

lemma fetch_error_hidden:
  "case check_for_updates (scripted True [([''git'', ''rev-parse'', ''HEAD''], ''new'')] (\<lambda>_. None)) (Some ''main'') (host_at [] ()) of
     (Inr i, _) \<Rightarrow> ui_error i = Some ''No remote configured. Set your repository URL above, then check for updates.'' | _ \<Rightarrow> False"
  by code_simp

text \<open>A stash that does not apply any more stays behind in an update that reports success.\<close>

lemma failed_pop_reported_success:
  "let G = log_commands (scripted True
       [([''git'', ''rev-parse'', ''HEAD''], ''c''), ([''git'', ''status'', ''--porcelain''], '' M a.py''),
        (STASH_PUSH, []), ([''git'', ''pull'', ''origin'', ''main''], [])] (\<lambda>_. None))
   in case apply_git_mode G ''main'' False (host_at [] ((), [])) of
        (Inr r, h) \<Rightarrow> ur_success r \<and> stashes h = [STASH_PUSH, STASH_POP] | _ \<Rightarrow> False"
  by code_simp


definition docker_answers :: "(string list \<times> string) list" where
  "docker_answers =
     [([''git'', ''clone'', ''--depth=50'', ''--single-branch'', ''--branch'', ''main'', ''u'', ''/tmp/u''], []),
      ([''git'', ''-C'', ''/tmp/u'', ''rev-parse'', ''HEAD''], ''abc'')]"

definition docker_clone :: "string \<Rightarrow> tree option" where
  "docker_clone d = (if d = ''maestro'' then Some [(''a.py'', ''2''), (''b.py'', ''3'')] else None)"


end
