(* ===== verification/Agents.thy ===== *)
theory Agents
  imports Deliberation Shard_Registry
begin

text \<open>
  \<^verbatim>\<open>maestro/agents/\<close>: the agents that answer a prompt.  The four HTTP agents build one request, send it and take
  the text out of the answer; the shard agent passes the prompt through the weight hosts of a pipeline; the mock
  agent and the mock node answer on their own.  Every failure of \<^verbatim>\<open>fetch\<close> is a bracketed text, which the
  deliberation recognises by its pattern.  What a server answers is a parameter; an answer is a JSON value, so
  \<^verbatim>\<open>fetch\<close> gives a JSON value, a text when the server kept to its interface.
\<close>

section \<open>Reading a JSON value\<close>

datatype access_error = LookupFailed | TypeFailed

text \<open>\<^verbatim>\<open>v[k]\<close> with a text, \<^verbatim>\<open>v[0]\<close>, and \<^verbatim>\<open>k in v\<close>.\<close>

fun py_item :: "string \<Rightarrow> json \<Rightarrow> access_error + json" where
  "py_item k (JObj d) = (case map_of d k of Some v \<Rightarrow> Inr v | None \<Rightarrow> Inl LookupFailed)"
| "py_item k _ = Inl TypeFailed"

fun py_first :: "json \<Rightarrow> access_error + json" where
  "py_first (JList []) = Inl LookupFailed"
| "py_first (JList (v # vs)) = Inr v"
| "py_first (JStr []) = Inl LookupFailed"
| "py_first (JStr (c # cs)) = Inr (JStr [c])"
| "py_first (JObj d) = Inl LookupFailed"
| "py_first _ = Inl TypeFailed"

fun py_in :: "string \<Rightarrow> json \<Rightarrow> access_error + bool" where
  "py_in k (JObj d) = Inr (k \<in> set (dkeys d))"
| "py_in k (JList vs) = Inr (JStr k \<in> set vs)"
| "py_in k (JStr s) = Inr (occurs_in k s)"
| "py_in k _ = Inl TypeFailed"

section \<open>The HTTP agents\<close>

text \<open>
  A request: the body but for a temperature, which is not an integer, and the time allowed.  An outcome: a time-out, no
  connection, another exception, a status that \<^verbatim>\<open>raise_for_status\<close> refuses, or a body, which may not be JSON.
\<close>

record http_post =
  hp_url :: string
  hp_headers :: "(string, string) dict"
  hp_body :: "(string \<times> json) list"
  hp_temperature :: "real option"
  hp_timeout :: real

datatype post_outcome = PostTimeout | PostConnectError | PostFailed | PostStatus int | PostNotJson | PostJson json

record http_agent =
  ha_name :: string
  ha_model :: string
  ha_timeout :: real
  ha_max_tokens :: int
  ha_temperature :: real

definition Aria :: http_agent where
  "Aria = \<lparr>ha_name = ''Claude Sonnet 4.6'', ha_model = ''claude-sonnet-4-6'', ha_timeout = 45, ha_max_tokens = 2048, ha_temperature = 0\<rparr>"

definition Sol :: http_agent where
  "Sol = \<lparr>ha_name = ''GPT-4o'', ha_model = ''gpt-4o'', ha_timeout = 30, ha_max_tokens = 0, ha_temperature = 7 / 10\<rparr>"

definition Prism :: http_agent where
  "Prism = \<lparr>ha_name = ''Gemini 2.5 Flash'', ha_model = ''models/gemini-2.5-flash'', ha_timeout = 60, ha_max_tokens = 0, ha_temperature = 0\<rparr>"

definition TempAgent :: http_agent where
  "TempAgent = \<lparr>ha_name = ''Llama 3.3 70B'', ha_model = ''meta-llama/llama-3.3-70b-instruct'', ha_timeout = 30, ha_max_tokens = 0, ha_temperature = 0\<rparr>"

definition build_system_prompt :: "string \<Rightarrow> string" where
  "build_system_prompt today =
     (let q = [CHR 0x22] in
      ''Today'' @ [CHR 0x27] @ ''s date is '' @ today @ ''. You are a knowledgeable assistant. '' @
      ''Provide direct, current answers. Do not hedge with phrases like '' @
      q @ ''as of my last update'' @ q @ '' or '' @ q @ ''as of my knowledge cutoff'' @ q @ ''. '' @
      ''If you are uncertain about very recent events, say so briefly '' @
      ''rather than citing a training cutoff date.'')"

definition agent_error :: "string \<Rightarrow> string \<Rightarrow> json" where
  "agent_error name what = JStr (''['' @ name @ ''] '' @ what)"

definition chat_message :: "string \<Rightarrow> string \<Rightarrow> json" where
  "chat_message role content = JObj [(''role'', JStr role), (''content'', JStr content)]"

definition aria_request :: "http_agent \<Rightarrow> string \<Rightarrow> string \<Rightarrow> string \<Rightarrow> http_post" where
  "aria_request a key today prompt =
     \<lparr>hp_url = ''https://api.anthropic.com/v1/messages'',
      hp_headers = [(''x-api-key'', key), (''anthropic-version'', ''2023-06-01''), (''Content-Type'', ''application/json'')],
      hp_body = [(''model'', JStr (ha_model a)), (''max_tokens'', JInt (ha_max_tokens a)),
                 (''system'', JStr (build_system_prompt today)), (''messages'', JList [chat_message ''user'' prompt])],
      hp_temperature = None, hp_timeout = ha_timeout a\<rparr>"

definition chat_request :: "string \<Rightarrow> real option \<Rightarrow> http_agent \<Rightarrow> string \<Rightarrow> string \<Rightarrow> string \<Rightarrow> http_post" where
  "chat_request url temperature a key today prompt =
     \<lparr>hp_url = url, hp_headers = [(''Authorization'', ''Bearer '' @ key), (''Content-Type'', ''application/json'')],
      hp_body = [(''model'', JStr (ha_model a)),
                 (''messages'', JList [chat_message ''system'' (build_system_prompt today), chat_message ''user'' prompt])],
      hp_temperature = temperature, hp_timeout = ha_timeout a\<rparr>"

definition sol_request :: "http_agent \<Rightarrow> string \<Rightarrow> string \<Rightarrow> string \<Rightarrow> http_post" where
  "sol_request a = chat_request ''https://api.openai.com/v1/chat/completions'' (Some (ha_temperature a)) a"

definition temp_request :: "http_agent \<Rightarrow> string \<Rightarrow> string \<Rightarrow> string \<Rightarrow> http_post" where
  "temp_request = chat_request ''https://openrouter.ai/api/v1/chat/completions'' None"

definition SAFETY_SETTINGS :: json where
  "SAFETY_SETTINGS = JList (map (\<lambda>c. JObj [(''category'', JStr c), (''threshold'', JStr ''BLOCK_MEDIUM_AND_ABOVE'')])
     [''HARM_CATEGORY_SEXUALLY_EXPLICIT'', ''HARM_CATEGORY_HATE_SPEECH'', ''HARM_CATEGORY_HARASSMENT'', ''HARM_CATEGORY_DANGEROUS_CONTENT''])"

definition prism_request :: "http_agent \<Rightarrow> string \<Rightarrow> string \<Rightarrow> string \<Rightarrow> http_post" where
  "prism_request a key today prompt =
     \<lparr>hp_url = ''https://generativelanguage.googleapis.com/v1beta/'' @ ha_model a @ '':generateContent?key='' @ key,
      hp_headers = [(''Content-Type'', ''application/json'')],
      hp_body = [(''contents'', JList [JObj [(''parts'', JList [JObj [(''text'', JStr prompt)]])]]),
                 (''systemInstruction'', JObj [(''parts'', JList [JObj [(''text'', JStr (build_system_prompt today))]])]),
                 (''safetySettings'', SAFETY_SETTINGS)],
      hp_temperature = None, hp_timeout = ha_timeout a\<rparr>"

text \<open>The text of the answer: \<^verbatim>\<open>["content"][0]["text"]\<close> and \<^verbatim>\<open>["choices"][0]["message"]["content"]\<close>.\<close>

definition aria_pick :: "json \<Rightarrow> access_error + json" where
  "aria_pick data = bind_res (bind_res (py_item ''content'' data) py_first) (py_item ''text'')"

definition chat_pick :: "json \<Rightarrow> access_error + json" where
  "chat_pick data = bind_res (bind_res (bind_res (py_item ''choices'' data) py_first) (py_item ''message'')) (py_item ''content'')"

definition candidate_pick :: "json \<Rightarrow> access_error + json" where
  "candidate_pick v =
     bind_res (bind_res (bind_res (bind_res (py_first v) (py_item ''content'')) (py_item ''parts'')) py_first) (py_item ''text'')"

text \<open>
  The feedback of a blocked prompt.  The ratings are only printed, but reading them fails when they are not a
  list of objects; the reason is put into the text, \<open>repr\<close> being the text of a value that is none.
\<close>

fun is_obj :: "json \<Rightarrow> bool" where
  "is_obj (JObj d) = True"
| "is_obj _ = False"

fun ratings_readable :: "json \<Rightarrow> bool" where
  "ratings_readable (JList vs) = list_all is_obj vs"
| "ratings_readable (JObj d) = (d = [])"
| "ratings_readable (JStr s) = (s = [])"
| "ratings_readable _ = False"

definition shown :: "(json \<Rightarrow> string) \<Rightarrow> json \<Rightarrow> string" where
  "shown repr v = (case v of JStr s \<Rightarrow> s | _ \<Rightarrow> repr v)"

fun blocked_pick :: "(json \<Rightarrow> string) \<Rightarrow> string \<Rightarrow> json \<Rightarrow> access_error + json" where
  "blocked_pick repr name (JObj d) =
     (if ratings_readable (dget d ''safetyRatings'' (JList []))
      then Inr (agent_error name (''Content filtered ('' @ shown repr (dget d ''blockReason'' (JStr ''Not specified'')) @ '')''))
      else Inl TypeFailed)"
| "blocked_pick repr name _ = Inl TypeFailed"

definition prism_pick :: "(json \<Rightarrow> string) \<Rightarrow> string \<Rightarrow> json \<Rightarrow> access_error + json" where
  "prism_pick repr name data =
     bind_res (py_in ''candidates'' data) (\<lambda>has_candidates.
     bind_res (if has_candidates then py_item ''candidates'' data else Inr JNull) (\<lambda>candidates.
       if json_truthy candidates then candidate_pick candidates
       else bind_res (py_in ''promptFeedback'' data) (\<lambda>has_feedback.
              if has_feedback then bind_res (py_item ''promptFeedback'' data) (blocked_pick repr name)
              else Inr (agent_error name ''Malformed response''))))"

text \<open>One request, and the order of the exception handlers.\<close>

definition http_fetch ::
  "http_agent \<Rightarrow> (http_agent \<Rightarrow> string \<Rightarrow> string \<Rightarrow> string \<Rightarrow> http_post) \<Rightarrow> (json \<Rightarrow> access_error + json)
   \<Rightarrow> (http_post \<Rightarrow> post_outcome) \<Rightarrow> string option \<Rightarrow> string \<Rightarrow> string \<Rightarrow> json" where
  "http_fetch a request pick post api_key today prompt =
     (case api_key of
        Some (c # cs) \<Rightarrow>
          (case post (request a (c # cs) today prompt) of
             PostTimeout \<Rightarrow> agent_error (ha_name a) ''Timeout''
           | PostConnectError \<Rightarrow> agent_error (ha_name a) ''Connection failed''
           | PostStatus code \<Rightarrow> agent_error (ha_name a) (''HTTP '' @ int_str code)
           | PostFailed \<Rightarrow> agent_error (ha_name a) ''Failed''
           | PostNotJson \<Rightarrow> agent_error (ha_name a) ''Failed''
           | PostJson data \<Rightarrow>
               (case pick data of
                  Inr text \<Rightarrow> text
                | Inl LookupFailed \<Rightarrow> agent_error (ha_name a) ''Malformed response''
                | Inl TypeFailed \<Rightarrow> agent_error (ha_name a) ''Failed''))
      | _ \<Rightarrow> agent_error (ha_name a) ''API Key Missing'')"

definition aria_fetch :: "http_agent \<Rightarrow> (http_post \<Rightarrow> post_outcome) \<Rightarrow> (string, string) dict \<Rightarrow> string \<Rightarrow> string \<Rightarrow> json" where
  "aria_fetch a post environ = http_fetch a aria_request aria_pick post (map_of environ ''ANTHROPIC_API_KEY'')"

definition sol_fetch :: "http_agent \<Rightarrow> (http_post \<Rightarrow> post_outcome) \<Rightarrow> (string, string) dict \<Rightarrow> string \<Rightarrow> string \<Rightarrow> json" where
  "sol_fetch a post environ = http_fetch a sol_request chat_pick post (map_of environ ''OPENAI_API_KEY'')"

definition temp_fetch :: "http_agent \<Rightarrow> (http_post \<Rightarrow> post_outcome) \<Rightarrow> (string, string) dict \<Rightarrow> string \<Rightarrow> string \<Rightarrow> json" where
  "temp_fetch a post environ = http_fetch a temp_request chat_pick post (map_of environ ''OPENROUTER_API_KEY'')"

definition prism_fetch ::
  "(json \<Rightarrow> string) \<Rightarrow> http_agent \<Rightarrow> (http_post \<Rightarrow> post_outcome) \<Rightarrow> (string, string) dict \<Rightarrow> string \<Rightarrow> string \<Rightarrow> json" where
  "prism_fetch repr a post environ = http_fetch a prism_request (prism_pick repr (ha_name a)) post (map_of environ ''GOOGLE_API_KEY'')"

section \<open>The shard agent\<close>

text \<open>
  \<open>infer node payload\<close> is the POST to a node's \<^verbatim>\<open>/infer\<close>: its answer, or the text \<^verbatim>\<open>type: message\<close> of an
  exception.  \<open>utf8_text\<close> decodes bytes with replacement characters.
\<close>

record shard_agent =
  sa_name :: string
  sa_model_id :: string
  sa_registry :: "registry option"
  sa_proof_engine :: "proof_engine option"
  sa_min_reputation :: real

type_synonym infer = "WeightHost \<Rightarrow> json \<Rightarrow> string + json"

definition initial_payload :: "shard_agent \<Rightarrow> string \<Rightarrow> string \<Rightarrow> nat \<Rightarrow> json" where
  "initial_payload a session_id prompt hops =
     JObj [(''session_id'', JStr session_id), (''model_id'', JStr (sa_model_id a)), (''prompt'', JStr prompt),
           (''sequence_length'', JInt (int (length (py_split prompt)))), (''hidden_dim'', JInt 0), (''dtype'', JStr ''float16''),
           (''activations_b64'', JStr (b64encode (utf8_encode prompt))), (''layer_completed'', JInt (-1)), (''layer_target'', JInt (-1)),
           (''metadata'', JObj [(''pipeline_hops'', JInt (int hops)), (''source'', JStr ''ShardAgent'')])]"

text \<open>\<^verbatim>\<open>payload["metadata"]["pipeline_hop"] = i\<close> and the target, an exception when they are not objects.\<close>

fun address_payload :: "nat \<Rightarrow> string \<Rightarrow> json \<Rightarrow> json option" where
  "address_payload i node_id (JObj d) =
     (case map_of d ''metadata'' of
        Some (JObj m) \<Rightarrow>
          Some (JObj (dset ''metadata'' (JObj (dset ''target_node'' (JStr node_id) (dset ''pipeline_hop'' (JInt (int i)) m))) d))
      | _ \<Rightarrow> None)"
| "address_payload i node_id _ = None"

fun json_number :: "json \<Rightarrow> int option" where
  "json_number (JInt i) = Some i"
| "json_number (JBool b) = Some (if b then 1 else 0)"
| "json_number _ = None"

definition payload_layer :: "string \<Rightarrow> json \<Rightarrow> int option" where
  "payload_layer k p = (case p of JObj d \<Rightarrow> json_number (dget d k (JInt (-1))) | _ \<Rightarrow> None)"

definition alternatives_for :: "registry \<Rightarrow> string \<Rightarrow> WeightHost \<Rightarrow> int \<Rightarrow> int \<Rightarrow> WeightHost list" where
  "alternatives_for rg model_id failed completed target =
     sort_key (\<lambda>n. (- wh_reputation_score n, wh_mean_latency_ms n))
       (filter (\<lambda>n. wh_node_id n \<noteq> wh_node_id failed) (find_nodes_for_shard rg model_id (completed + 1) target))"

text \<open>\<^term>\<open>None\<close> is an exception: no layer numbers, no alternative, or the alternative fails.\<close>

definition failover :: "infer \<Rightarrow> registry \<Rightarrow> string \<Rightarrow> WeightHost \<Rightarrow> json \<Rightarrow> json option" where
  "failover infer rg model_id failed p =
     (case (payload_layer ''layer_completed'' p, payload_layer ''layer_target'' p) of
        (Some completed, Some target) \<Rightarrow>
          (case alternatives_for rg model_id failed completed target of
             [] \<Rightarrow> None
           | n # _ \<Rightarrow> (case infer n p of Inl _ \<Rightarrow> None | Inr r \<Rightarrow> Some r))
      | _ \<Rightarrow> None)"

datatype hop_result = Crashed | HopFailed string | Arrived json

fun run_hops :: "infer \<Rightarrow> registry \<Rightarrow> shard_agent \<Rightarrow> nat \<Rightarrow> WeightHost list \<Rightarrow> json \<Rightarrow> hop_result" where
  "run_hops infer rg a i [] p = Arrived p"
| "run_hops infer rg a i (node # nodes) p =
     (case address_payload i (wh_node_id node) p of
        None \<Rightarrow> Crashed
      | Some p' \<Rightarrow>
          (case infer node p' of
             Inr r \<Rightarrow> run_hops infer rg a (i + 1) nodes r
           | Inl e \<Rightarrow>
               (case failover infer rg (sa_model_id a) node p' of
                  Some r \<Rightarrow> run_hops infer rg a (i + 1) nodes r
                | None \<Rightarrow> HopFailed (''['' @ sa_name a @ ''] Pipeline failed at hop '' @ nat_str i @ '' (node '' @ wh_node_id node
                            @ ''): '' @ e))))"

definition decode_activations :: "(bytes \<Rightarrow> string) \<Rightarrow> json \<Rightarrow> json" where
  "decode_activations utf8_text raw =
     (case raw of
        JStr s \<Rightarrow> (case b64decode s of Some b \<Rightarrow> JStr (utf8_text b) | None \<Rightarrow> JStr ''[Decoding error]'')
      | _ \<Rightarrow> JStr ''[Decoding error]'')"

definition final_text :: "(bytes \<Rightarrow> string) \<Rightarrow> string \<Rightarrow> (string, json) dict \<Rightarrow> json" where
  "final_text utf8_text name d =
     (let decoded = dget d ''decoded_text'' (JStr []);
          raw = dget d ''activations_b64'' (JStr []);
          final = (if json_truthy decoded then decoded
                   else if json_truthy raw then decode_activations utf8_text raw else decoded)
      in if json_truthy final then final else JStr (''['' @ name @ ''] Empty response from pipeline''))"

text \<open>\<open>crash\<close> is the text \<^verbatim>\<open>type: message\<close> of an exception in between.\<close>

definition execute_pipeline ::
  "infer \<Rightarrow> (bytes \<Rightarrow> string) \<Rightarrow> string \<Rightarrow> string \<Rightarrow> registry \<Rightarrow> shard_agent \<Rightarrow> string \<Rightarrow> WeightHost list \<Rightarrow> json" where
  "execute_pipeline infer utf8_text crash session_id rg a prompt nodes =
     (case run_hops infer rg a 0 nodes (initial_payload a session_id prompt (length nodes)) of
        HopFailed e \<Rightarrow> JStr e
      | Arrived (JObj d) \<Rightarrow> final_text utf8_text (sa_name a) d
      | _ \<Rightarrow> agent_error (sa_name a) (''Failed: '' @ crash))"

text \<open>\<open>shown_real\<close> prints the reputation threshold.\<close>

definition shard_fetch ::
  "infer \<Rightarrow> (bytes \<Rightarrow> string) \<Rightarrow> (real \<Rightarrow> string) \<Rightarrow> string \<Rightarrow> string \<Rightarrow> shard_agent \<Rightarrow> string \<Rightarrow> json" where
  "shard_fetch infer utf8_text shown_real crash session_id a prompt =
     (case sa_registry a of
        None \<Rightarrow> agent_error (sa_name a) ''No weight host registry configured''
      | Some rg \<Rightarrow>
          (let nodes = route_query rg (sa_model_id a) []
           in if nodes = [] then agent_error (sa_name a) (''No weight hosts available for '' @ sa_model_id a)
              else
               (let trusted = (case sa_proof_engine a of
                       None \<Rightarrow> nodes
                     | Some e \<Rightarrow> filter (\<lambda>n. nr_reputation_score (get_reputation e (wh_node_id n)) \<ge> sa_min_reputation a) nodes)
                in if trusted = []
                   then agent_error (sa_name a) (''No trusted nodes available (reputation threshold: '' @ shown_real (sa_min_reputation a) @ '')'')
                   else execute_pipeline infer utf8_text crash session_id rg a prompt trusted)))"

section \<open>Mocks\<close>

text \<open>A prompt handed to the mock node is a text or missing.\<close>

definition mock_fetch :: "string \<Rightarrow> string \<Rightarrow> string \<Rightarrow> string" where
  "mock_fetch name response_style prompt =
     (let q = [CHR 0x27] @ prompt @ [CHR 0x27];
          neutral = ''['' @ name @ ''] Analyzing '' @ q @ '' from a balanced perspective.'';
          styles = [(''neutral'', neutral),
            (''empathic'', ''['' @ name @ ''] In my view, the key to '' @ q @ '' is empathy and systems thinking.''),
            (''historical'', ''['' @ name @ ''] Historically, questions like '' @ q @ '' have driven scientific revolution.'')]
      in dget styles response_style neutral)"

record MockShardNode =
  mn_node_id :: string
  mn_model_id :: string
  mn_first :: int
  mn_last :: int

definition mock_text :: "MockShardNode \<Rightarrow> json \<Rightarrow> string" where
  "mock_text n v =
     (case v of
        JStr (c # cs) \<Rightarrow> ''['' @ mn_node_id n @ ''] Response to: '' @ take 100 (c # cs)
      | _ \<Rightarrow> ''Mock inference from '' @ mn_node_id n @ '' (layers '' @ int_str (mn_first n) @ ''-'' @ int_str (mn_last n) @ '')'')"

definition handle_infer :: "string \<Rightarrow> MockShardNode \<Rightarrow> (string, json) dict \<Rightarrow> (string, json) dict" where
  "handle_infer now n p =
     (let text = mock_text n (dget p ''prompt'' (JStr []))
      in [(''session_id'', dget p ''session_id'' (JStr [])), (''model_id'', dget p ''model_id'' (JStr (mn_model_id n))),
          (''sequence_length'', dget p ''sequence_length'' (JInt 0)), (''hidden_dim'', dget p ''hidden_dim'' (JInt 4096)),
          (''dtype'', dget p ''dtype'' (JStr ''float16'')), (''activations_b64'', JStr (b64encode (utf8_encode text))),
          (''layer_completed'', JInt (mn_last n)), (''layer_target'', dget p ''layer_target'' (JInt (mn_last n))),
          (''decoded_text'', JStr text),
          (''metadata'', JObj [(''source_node'', JStr (mn_node_id n)), (''timestamp'', JStr now)])])"

definition mock_challenge :: "string \<Rightarrow> MockShardNode \<Rightarrow> (string, json) dict \<Rightarrow> (string, json) dict \<times> real" where
  "mock_challenge now n c =
     ([(''challenge_id'', dget c ''challenge_id'' (JStr [])), (''node_id'', JStr (mn_node_id n)), (''responded_at'', JStr now),
       (''response_hash'', dget c ''expected_hash'' (JStr [])), (''inference_output_hash'', dget c ''expected_output_hash'' (JStr [])),
       (''passed'', JBool True)], 5)"

definition mock_health :: "MockShardNode \<Rightarrow> json" where
  "mock_health n =
     JObj [(''node_id'', JStr (mn_node_id n)), (''status'', JStr ''available''),
           (''shards'', JList [JObj [(''model_id'', JStr (mn_model_id n)), (''layer_range'', JList [JInt (mn_first n), JInt (mn_last n)])]]),
           (''memory_used_mb'', JInt 1024), (''uptime_s'', JInt 3600)]"

section \<open>Failures are recognised\<close>

definition one_line :: "string \<Rightarrow> bool" where
  "one_line s \<longleftrightarrow> CHR 0x0A \<notin> set s"

lemma closes_sentinel_append:
  "one_line s \<Longrightarrow> sentinel_tail t \<Longrightarrow> closes_sentinel (s @ '']'' @ '' '' @ t)"
  by (induction s) (auto simp: one_line_def starts_with_def)

lemma recognised:
  "name \<noteq> [] \<Longrightarrow> one_line name \<Longrightarrow> sentinel_tail t \<Longrightarrow> \<exists>s. agent_error name t = JStr s \<and> is_agent_error s"
  using closes_sentinel_append [of "tl name" t]
  by (cases name) (auto simp: agent_error_def one_line_def)

lemma sentinel_tails [simp]:
  "sentinel_tail (''Timeout'' @ x)" "sentinel_tail (''Connection failed'' @ x)" "sentinel_tail (''Failed'' @ x)"
  "sentinel_tail (''API Key Missing'' @ x)" "sentinel_tail (''Malformed response'' @ x)" "sentinel_tail (''Content filtered'' @ x)"
  by (simp_all add: sentinel_tail_def starts_with_def)

lemma length_nat_str: "100 \<le> n \<Longrightarrow> 3 \<le> length (nat_str n)"
proof -
  assume n: "100 \<le> n"
  have "nat_str n = nat_str (n div 10) @ [char_of (48 + n mod 10)]" using n by (subst nat_str.simps) simp
  moreover have "nat_str (n div 10) = nat_str (n div 10 div 10) @ [char_of (48 + n div 10 mod 10)]"
    using n by (subst nat_str.simps) simp
  moreover have "nat_str (n div 10 div 10) \<noteq> []" using nat_str_digits by blast
  ultimately show ?thesis by (cases "nat_str (n div 10 div 10)") simp_all
qed

lemma sentinel_status: "100 \<le> code \<Longrightarrow> sentinel_tail (''HTTP '' @ int_str code)"
  using length_nat_str [of "nat code"] nat_str_digits [of "nat code"]
  by (auto simp: sentinel_tail_def starts_with_def int_str_def list_all_iff dest: in_set_takeD)

lemma http_fetch_outcome:
  assumes "ha_name a \<noteq> []" "one_line (ha_name a)" "\<And>rq c. post rq = PostStatus c \<Longrightarrow> 100 \<le> c"
  shows "(\<exists>s. http_fetch a request pick post key today prompt = JStr s \<and> is_agent_error s)
    \<or> (\<exists>k data. key = Some k \<and> k \<noteq> [] \<and> post (request a k today prompt) = PostJson data
         \<and> pick data = Inr (http_fetch a request pick post key today prompt))"
proof (cases "\<exists>k data. key = Some k \<and> k \<noteq> [] \<and> post (request a k today prompt) = PostJson data
         \<and> pick data = Inr (http_fetch a request pick post key today prompt)")
  case False
  have "\<exists>t. http_fetch a request pick post key today prompt = agent_error (ha_name a) t \<and> sentinel_tail t"
  proof (cases "key = None \<or> key = Some []")
    case True
    then show ?thesis using sentinel_tails(4) [of "[]"] by (auto simp: http_fetch_def)
  next
    case key: False
    then obtain c cs where k: "key = Some (c # cs)" by (cases key) (auto, metis list.exhaust)
    show ?thesis
    proof (cases "post (request a (c # cs) today prompt)")
      case (PostStatus code)
      then show ?thesis using k sentinel_status assms(3) by (fastforce simp: http_fetch_def)
    next
      case (PostJson data)
      then obtain e where "pick data = Inl e" using False k by (cases "pick data") (auto simp: http_fetch_def)
      then show ?thesis
        using PostJson k sentinel_tails(3,5) [of "[]"] by (cases e) (auto simp: http_fetch_def)
    qed (use k sentinel_tails(1,2,3) [of "[]"] in \<open>auto simp: http_fetch_def\<close>)
  qed
  then show ?thesis using recognised [OF assms(1,2)] by metis
qed simp

lemma agent_names [simp]:
  "ha_name Aria \<noteq> []" "ha_name Sol \<noteq> []" "ha_name Prism \<noteq> []" "ha_name TempAgent \<noteq> []"
  "one_line (ha_name Aria)" "one_line (ha_name Sol)" "one_line (ha_name Prism)" "one_line (ha_name TempAgent)"
  by (simp_all add: Aria_def Sol_def Prism_def TempAgent_def one_line_def)

text \<open>What the text of a Gemini answer is: the text of the first candidate, or the notice of a blocked prompt.\<close>

definition gemini_text :: "json \<Rightarrow> json \<Rightarrow> bool" where
  "gemini_text data r \<longleftrightarrow> (\<exists>c. py_item ''candidates'' data = Inr c \<and> json_truthy c \<and> candidate_pick c = Inr r)"

lemma prism_pick_cases:
  assumes "prism_pick repr name data = Inr r" "name \<noteq> []" "one_line name"
  shows "gemini_text data r \<or> (\<exists>s. r = JStr s \<and> is_agent_error s)"
proof -
  obtain hc c where c: "py_in ''candidates'' data = Inr hc" "(if hc then py_item ''candidates'' data else Inr JNull) = Inr c"
    "(if json_truthy c then candidate_pick c
       else bind_res (py_in ''promptFeedback'' data) (\<lambda>has_feedback.
              if has_feedback then bind_res (py_item ''promptFeedback'' data) (blocked_pick repr name)
              else Inr (agent_error name ''Malformed response''))) = Inr r"
    using assms(1) unfolding prism_pick_def bind_res_Inr by blast
  show ?thesis
  proof (cases "json_truthy c")
    case True
    then have "hc" using c(2) by (cases hc) auto
    then show ?thesis using True c by (auto simp: gemini_text_def)
  next
    case False
    then obtain t where "r = agent_error name t" "sentinel_tail t"
    proof (cases "\<exists>v. py_item ''promptFeedback'' data = Inr v \<and> blocked_pick repr name v = Inr r")
      case True
      then obtain v where v: "blocked_pick repr name v = Inr r" by blast
      then obtain d where "v = JObj d" by (cases v) auto
      then have "r = agent_error name (''Content filtered'' @ '' ('' @ shown repr (dget d ''blockReason'' (JStr ''Not specified'')) @ '')'')"
        using v by (simp split: if_splits)
      then show thesis using that sentinel_tails(6) by blast
    next
      case no: False
      then have "r = agent_error name (''Malformed response'' @ [])"
        using c(3) False by (auto simp: bind_res_Inr split: if_splits)
      then show thesis using that sentinel_tails(5) by blast
    qed
    then show ?thesis using recognised [OF assms(2,3)] by metis
  qed
qed

text \<open>
  C7: no failure of an HTTP agent is taken for an answer.  Whatever the server and the network do, what an
  agent's fetch returns is either a text that the deliberation recognises as an error, or the value that the
  server's JSON body has at the place of the answer, obtained with a key that is set.
\<close>

theorem http_agents_contract:
  assumes "\<forall>rq c. post rq = PostStatus c \<longrightarrow> 100 \<le> c"
  shows "let bad = (\<lambda>r. \<exists>s. r = JStr s \<and> is_agent_error s);
             good = (\<lambda>request picked r. \<exists>k data. k \<noteq> [] \<and> post (request k today prompt) = PostJson data \<and> picked data r)
         in (\<forall>r. r = aria_fetch Aria post environ today prompt \<longrightarrow> bad r \<or> good (aria_request Aria) (\<lambda>d r. aria_pick d = Inr r) r)
          \<and> (\<forall>r. r = sol_fetch Sol post environ today prompt \<longrightarrow> bad r \<or> good (sol_request Sol) (\<lambda>d r. chat_pick d = Inr r) r)
          \<and> (\<forall>r. r = temp_fetch TempAgent post environ today prompt \<longrightarrow> bad r \<or> good (temp_request TempAgent) (\<lambda>d r. chat_pick d = Inr r) r)
          \<and> (\<forall>r. r = prism_fetch repr Prism post environ today prompt \<longrightarrow> bad r \<or> good (prism_request Prism) gemini_text r)"
proof -
  have prism: "(\<exists>s. r = JStr s \<and> is_agent_error s)
      \<or> (\<exists>k data. k \<noteq> [] \<and> post (prism_request Prism k today prompt) = PostJson data \<and> gemini_text data r)"
    if "r = prism_fetch repr Prism post environ today prompt" for r
  proof -
    have r: "r = http_fetch Prism prism_request (prism_pick repr (ha_name Prism)) post (map_of environ ''GOOGLE_API_KEY'') today prompt"
      using that by (simp add: prism_fetch_def)
    consider "\<exists>s. r = JStr s \<and> is_agent_error s"
      | k data where "k \<noteq> []" "post (prism_request Prism k today prompt) = PostJson data" "prism_pick repr (ha_name Prism) data = Inr r"
      using http_fetch_outcome [of Prism post prism_request "prism_pick repr (ha_name Prism)" "map_of environ ''GOOGLE_API_KEY''" today prompt]
        assms unfolding r by auto
    then show ?thesis
    proof cases
      case 2
      then show ?thesis using prism_pick_cases [OF 2(3)] by auto
    qed simp
  qed
  show ?thesis
    unfolding Let_def aria_fetch_def sol_fetch_def temp_fetch_def
    using prism http_fetch_outcome [of Aria post aria_request aria_pick "map_of environ ''ANTHROPIC_API_KEY''" today prompt]
      http_fetch_outcome [of Sol post sol_request chat_pick "map_of environ ''OPENAI_API_KEY''" today prompt]
      http_fetch_outcome [of TempAgent post temp_request chat_pick "map_of environ ''OPENROUTER_API_KEY''" today prompt]
      assms by auto
qed

definition body_of :: "string \<Rightarrow> http_post \<Rightarrow> post_outcome" where
  "body_of text rq = PostJson (JObj [(''content'', JList [JObj [(''type'', JStr ''text''), (''text'', JStr text)]])])"

lemma http_agents_contract_witness:
  "aria_fetch Aria (body_of ''42'') [(''ANTHROPIC_API_KEY'', ''k'')] ''2025-01-01'' ''q'' = JStr ''42''
   \<and> (\<exists>k data. k \<noteq> [] \<and> body_of ''42'' (aria_request Aria k ''2025-01-01'' ''q'') = PostJson data \<and> aria_pick data = Inr (JStr ''42''))"
proof -
  have r: "aria_fetch Aria (body_of ''42'') [(''ANTHROPIC_API_KEY'', ''k'')] ''2025-01-01'' ''q'' = JStr ''42''"
    by (simp add: aria_fetch_def http_fetch_def body_of_def aria_pick_def)
  have "\<forall>rq c. body_of ''42'' rq = PostStatus c \<longrightarrow> 100 \<le> c" by (simp add: body_of_def)
  from http_agents_contract [where post = "body_of ''42''" and today = "''2025-01-01''" and prompt = "''q''"
      and environ = "[(''ANTHROPIC_API_KEY'', ''k'')]" and repr = "\<lambda>_. []", OF this, unfolded Let_def, THEN conjunct1,
      rule_format, OF r [symmetric]]
  have "(\<exists>s. JStr ''42'' = JStr s \<and> is_agent_error s)
    \<or> (\<exists>k data. k \<noteq> [] \<and> body_of ''42'' (aria_request Aria k ''2025-01-01'' ''q'') = PostJson data \<and> aria_pick data = Inr (JStr ''42''))" .
  then show ?thesis using r by auto
qed

text \<open>A message without text, as a refusal or a tool call has, is returned as it is: \<^verbatim>\<open>fetch\<close> gives \<^verbatim>\<open>None\<close>.\<close>

lemma null_content_returned:
  "sol_fetch Sol (\<lambda>_. PostJson (JObj [(''choices'', JList [JObj [(''message'', JObj [(''content'', JNull)])]])]))
     [(''OPENAI_API_KEY'', ''k'')] today prompt = JNull"
  by (simp add: sol_fetch_def http_fetch_def chat_pick_def)

section \<open>The pipeline\<close>

definition answering :: "infer \<Rightarrow> WeightHost \<Rightarrow> bool" where
  "answering infer n \<longleftrightarrow> (\<forall>p. \<exists>d m. infer n p = Inr (JObj d) \<and> map_of d ''metadata'' = Some (JObj m))"

lemma address_object: "map_of d ''metadata'' = Some (JObj m) \<Longrightarrow> \<exists>d' m'. address_payload i k (JObj d) = Some (JObj d')
    \<and> map_of d' ''metadata'' = Some (JObj m') \<and> (\<forall>key. key \<noteq> ''metadata'' \<longrightarrow> map_of d' key = map_of d key)"
  by simp

lemma answering_hops:
  assumes "\<forall>n \<in> set nodes. answering infer n" "map_of d ''metadata'' = Some (JObj m)"
  shows "\<exists>d' m'. run_hops infer rg a i nodes (JObj d) = Arrived (JObj d') \<and> map_of d' ''metadata'' = Some (JObj m')"
  using assms
proof (induction nodes arbitrary: d m i)
  case (Cons n nodes)
  obtain d1 m1 where r: "infer n (the (address_payload i (wh_node_id n) (JObj d))) = Inr (JObj d1)" "map_of d1 ''metadata'' = Some (JObj m1)"
    using Cons.prems(1) unfolding answering_def by (meson list.set_intros(1))
  show ?case using Cons.IH [OF _ r(2), of "i + 1"] Cons.prems r(1) by simp
qed simp

lemma answering_agree:
  assumes "\<forall>n \<in> set nodes. answering infer n \<and> (\<forall>p. infer' n p = infer n p)" "map_of d ''metadata'' = Some (JObj m)"
  shows "run_hops infer' rg a i nodes (JObj d) = run_hops infer rg a i nodes (JObj d)"
  using assms
proof (induction nodes arbitrary: d m i)
  case (Cons n nodes)
  obtain d1 m1 where r: "infer n (the (address_payload i (wh_node_id n) (JObj d))) = Inr (JObj d1)" "map_of d1 ''metadata'' = Some (JObj m1)"
    using Cons.prems(1) unfolding answering_def by (meson list.set_intros(1))
  then have "infer' n (the (address_payload i (wh_node_id n) (JObj d))) = Inr (JObj d1)" using Cons.prems(1) by simp
  then show ?case using Cons.IH [OF _ r(2), of "i + 1"] Cons.prems r(1) by simp
qed simp

lemma initial_metadata: "\<exists>d m. initial_payload a sid prompt k = JObj d \<and> map_of d ''metadata'' = Some (JObj m)"
  by (simp add: initial_payload_def)

definition trusted_route :: "shard_agent \<Rightarrow> WeightHost list" where
  "trusted_route a = (case sa_registry a of
     None \<Rightarrow> []
   | Some rg \<Rightarrow> filter (\<lambda>n. case sa_proof_engine a of None \<Rightarrow> True
        | Some e \<Rightarrow> sa_min_reputation a \<le> nr_reputation_score (get_reputation e (wh_node_id n))) (route_query rg (sa_model_id a) []))"

lemma shard_fetch_trusted:
  assumes "sa_registry a = Some rg" "trusted_route a \<noteq> []"
  shows "shard_fetch infer u sr crash sid a prompt = execute_pipeline infer u crash sid rg a prompt (trusted_route a)"
  using assms by (auto simp: shard_fetch_def trusted_route_def Let_def split: option.splits)

text \<open>
  Library fact: as long as the trusted hosts of the route answer, no other host has a say: what a host below the
  reputation threshold, or off the route, would answer does not change the text of the shard agent.
\<close>

theorem untrusted_hosts_have_no_say:
  assumes "\<forall>n \<in> set (trusted_route a). answering infer n \<and> (\<forall>p. infer' n p = infer n p)"
  shows "shard_fetch infer' u sr crash sid a prompt = shard_fetch infer u sr crash sid a prompt"
proof (cases "sa_registry a = None \<or> trusted_route a = []")
  case True
  then show ?thesis by (auto simp: shard_fetch_def trusted_route_def Let_def split: option.splits)
next
  case False
  then obtain rg where rg: "sa_registry a = Some rg" by auto
  obtain d m where d: "initial_payload a sid prompt (length (trusted_route a)) = JObj d" "map_of d ''metadata'' = Some (JObj m)"
    using initial_metadata by blast
  show ?thesis
    using answering_agree [OF assms d(2)] False d(1)
    by (simp add: shard_fetch_trusted [OF rg] execute_pipeline_def)
qed

lemma sorted_key_head: "sort_key f xs = y # ys \<Longrightarrow> y \<in> set xs \<and> (\<forall>z \<in> set xs. f y \<le> f z)"
proof -
  assume s: "sort_key f xs = y # ys"
  have "set (y # ys) = set xs" by (metis s set_sort)
  moreover have "sorted (map f (y # ys))" by (metis s sorted_sort_key)
  ultimately show ?thesis by auto
qed

text \<open>
  Library fact: a failover goes to another host that serves the layers after the completed one up to the target, the one
  with the best reputation, and among these with the least latency.
\<close>

theorem failover_sound:
  assumes "failover infer rg model_id failed p = Some r"
  shows "\<exists>n completed target. payload_layer ''layer_completed'' p = Some completed \<and> payload_layer ''layer_target'' p = Some target
    \<and> n \<in> set (find_nodes_for_shard rg model_id (completed + 1) target) \<and> wh_node_id n \<noteq> wh_node_id failed \<and> infer n p = Inr r
    \<and> (\<forall>k \<in> set (find_nodes_for_shard rg model_id (completed + 1) target). wh_node_id k \<noteq> wh_node_id failed \<longrightarrow>
         wh_reputation_score k < wh_reputation_score n
         \<or> wh_reputation_score k = wh_reputation_score n \<and> wh_mean_latency_ms n \<le> wh_mean_latency_ms k)"
proof -
  obtain completed target n ns where c: "payload_layer ''layer_completed'' p = Some completed" "payload_layer ''layer_target'' p = Some target"
    "alternatives_for rg model_id failed completed target = n # ns" "infer n p = Inr r"
    using assms by (auto simp: failover_def split: option.splits list.splits sum.splits)
  have h: "n \<in> set (filter (\<lambda>n. wh_node_id n \<noteq> wh_node_id failed) (find_nodes_for_shard rg model_id (completed + 1) target))
    \<and> (\<forall>k \<in> set (filter (\<lambda>n. wh_node_id n \<noteq> wh_node_id failed) (find_nodes_for_shard rg model_id (completed + 1) target)).
         (- wh_reputation_score n, wh_mean_latency_ms n) \<le> (- wh_reputation_score k, wh_mean_latency_ms k))"
    by (rule sorted_key_head) (use c(3) in \<open>simp add: alternatives_for_def\<close>)
  show ?thesis using h c by (intro exI [of _ n] exI [of _ completed] exI [of _ target]) (auto simp: less_eq_prod_def)
qed

text \<open>The mock nodes in a row: the hosts of the pipeline answer as mock nodes.\<close>

definition mock_infer :: "string \<Rightarrow> (WeightHost \<Rightarrow> MockShardNode) \<Rightarrow> infer" where
  "mock_infer now mk n p = (case p of JObj d \<Rightarrow> Inr (JObj (handle_infer now (mk n) d)) | _ \<Rightarrow> Inl ''AttributeError'')"

lemma mock_hops:
  "map_of d ''metadata'' = Some (JObj m) \<Longrightarrow> nodes \<noteq> [] \<Longrightarrow>
   \<exists>d'. run_hops (mock_infer now mk) rg a i nodes (JObj d) = Arrived (JObj d')
     \<and> map_of d' ''decoded_text'' = Some (JStr (mock_text (mk (last nodes))
          (if length nodes = 1 then dget d ''prompt'' (JStr []) else JStr [])))"
proof (induction nodes arbitrary: d m i)
  case (Cons n nodes)
  define d1 where "d1 = dset ''metadata'' (JObj (dset ''target_node'' (JStr (wh_node_id n)) (dset ''pipeline_hop'' (JInt (int i)) m))) d"
  have step: "run_hops (mock_infer now mk) rg a i (n # nodes) (JObj d)
      = run_hops (mock_infer now mk) rg a (i + 1) nodes (JObj (handle_infer now (mk n) d1))"
    using Cons.prems(1) by (simp add: mock_infer_def d1_def)
  have prompt: "dget d1 ''prompt'' (JStr []) = dget d ''prompt'' (JStr [])" by (simp add: d1_def)
  show ?case
  proof (cases "nodes = []")
    case True
    then show ?thesis using step prompt by (simp add: handle_infer_def Let_def)
  next
    case False
    have m1: "map_of (handle_infer now (mk n) d1) ''metadata'' = Some (JObj [(''source_node'', JStr (mn_node_id (mk n))), (''timestamp'', JStr now)])"
      by (simp add: handle_infer_def Let_def)
    have p1: "dget (handle_infer now (mk n) d1) ''prompt'' (JStr []) = JStr []"
      by (simp add: handle_infer_def Let_def dget_def)
    show ?thesis using Cons.IH [OF m1 False, of "i + 1"] step p1 False by (simp split: if_splits)
  qed
qed simp

text \<open>
  Library fact: over mock nodes the shard agent returns the text of the last host of its route: the answer to the prompt
  when there is one host, and the bare notice when there are more, for the prompt is not passed on.
\<close>

theorem mock_pipeline_exact:
  assumes "sa_registry a = Some rg" "trusted_route a \<noteq> []"
  shows "shard_fetch (mock_infer now mk) u sr crash sid a prompt
    = JStr (mock_text (mk (last (trusted_route a))) (if length (trusted_route a) = 1 then JStr prompt else JStr []))"
proof -
  obtain d where d: "initial_payload a sid prompt (length (trusted_route a)) = JObj d" "dget d ''prompt'' (JStr []) = JStr prompt"
    "\<exists>m. map_of d ''metadata'' = Some (JObj m)"
    by (simp add: initial_payload_def dget_def)
  then obtain m where m: "map_of d ''metadata'' = Some (JObj m)" by blast
  obtain d' where r: "run_hops (mock_infer now mk) rg a 0 (trusted_route a) (JObj d) = Arrived (JObj d')"
    "map_of d' ''decoded_text'' = Some (JStr (mock_text (mk (last (trusted_route a))) (if length (trusted_route a) = 1 then JStr prompt else JStr [])))"
    using mock_hops [OF m assms(2), of now mk rg a 0] d(2) by auto
  have "mock_text k v \<noteq> []" for k v by (simp add: mock_text_def split: json.splits list.splits)
  then show ?thesis
    using r d(1) by (simp add: shard_fetch_trusted [OF assms] execute_pipeline_def final_text_def dget_def)
qed

section \<open>Samples and findings\<close>

definition sample_agent :: shard_agent where
  "sample_agent = \<lparr>sa_name = ''ShardNet'', sa_model_id = ''m'', sa_registry = None, sa_proof_engine = None, sa_min_reputation = 1 / 2\<rparr>"

definition one_host :: registry where
  "one_host = \<lparr>rg_nodes = [(''a'', sample_host ''a'' [0, 3])], rg_files = []\<rparr>"

definition as_mock :: "WeightHost \<Rightarrow> MockShardNode" where
  "as_mock n = \<lparr>mn_node_id = wh_node_id n, mn_model_id = ''m'', mn_first = 0, mn_last = 3\<rparr>"

lemma one_host_route: "route_query one_host ''m'' [] = [sample_host ''a'' [0, 3]]"
  by (simp add: route_query_def build_inference_pipeline_def shard_entries_def one_host_def sample_host_def list_nodes_def
      serving_def range_of_def List.map_filter_def greedy_pipeline.simps Let_def)

lemma mock_pipeline_exact_witness:
  "shard_fetch (mock_infer ''t'' as_mock) (\<lambda>_. []) (\<lambda>_. []) [] ''s'' (sample_agent\<lparr>sa_registry := Some one_host\<rparr>) ''hi''
   = JStr ''[a] Response to: hi''"
proof -
  let ?a = "sample_agent\<lparr>sa_registry := Some one_host\<rparr>"
  have "trusted_route ?a = [sample_host ''a'' [0, 3]]"
    using one_host_route by (simp add: trusted_route_def sample_agent_def)
  then show ?thesis
    using mock_pipeline_exact [of ?a one_host "''t''" as_mock "\<lambda>_. []" "\<lambda>_. []" "[]" "''s''" "''hi''"]
    by (simp add: mock_text_def as_mock_def sample_host_def)
qed

text \<open>
  The deliberation does not recognise the failures of the shard agent: no registry, no hosts, no trusted nodes,
  a failed hop and an empty response pass as answers.
\<close>

lemma shard_errors_pass_as_answers:
  "\<exists>s. shard_fetch infer u sr crash sid sample_agent prompt = JStr s \<and> \<not> is_agent_error s"
  "\<not> is_agent_error ''[ShardNet] No weight hosts available for m''"
  "\<not> is_agent_error ''[ShardNet] Empty response from pipeline''"
  by (simp_all add: shard_fetch_def sample_agent_def agent_error_def sentinel_tail_def starts_with_def)

text \<open>
  A failover does not look at the storage proofs: a host that the proof engine holds below the threshold answers
  when a trusted one fails.
\<close>

definition two_hosts :: registry where
  "two_hosts = \<lparr>rg_nodes = [(''good'', sample_host ''good'' [0, 3]), (''bad'', sample_host ''bad'' [0, 3])], rg_files = []\<rparr>"

lemma failover_ignores_reputation:
  "failover (\<lambda>n _. if wh_node_id n = ''bad'' then Inr (JObj [(''decoded_text'', JStr ''evil'')]) else Inl ''ConnectError: x'')
     two_hosts ''m'' (sample_host ''good'' [0, 3]) (initial_payload sample_agent [] [] 1)
   = Some (JObj [(''decoded_text'', JStr ''evil'')])"
proof -
  have "alternatives_for two_hosts ''m'' (sample_host ''good'' [0, 3]) (-1) (-1) = [sample_host ''bad'' [0, 3]]"
    by (simp add: alternatives_for_def find_nodes_for_shard_def two_hosts_def sample_host_def list_nodes_def serving_def range_of_def)
  then show ?thesis
    by (simp add: failover_def payload_layer_def initial_payload_def dget_def sample_agent_def sample_host_def)
qed

text \<open>
  The reputation filter drops hosts out of the middle of a route: the layers they hold are skipped and the prompt
  goes to the next host.
\<close>

lemma two_hosts_route: "route_query sample_registry ''m'' [] = [sample_host ''a'' [0, 3], sample_host ''b'' [4, 7]]"
  by (simp add: route_query_def build_inference_pipeline_def shard_entries_def sample_registry_def sample_host_def list_nodes_def
      serving_def range_of_def List.map_filter_def greedy_pipeline.simps Let_def entry_order_def entry_rank_def)

lemma reputation_filter_skips_layers:
  "trusted_route (sample_agent\<lparr>sa_registry := Some sample_registry,
     sa_proof_engine := Some (set_reputation ''a'' ((new_reputation ''a'')\<lparr>nr_reputation_score := 0\<rparr>)
       (set_reputation ''b'' ((new_reputation ''b'')\<lparr>nr_reputation_score := 1\<rparr>) (open_engine NoReputations)))\<rparr>)
   = [sample_host ''b'' [4, 7]]"
  using two_hosts_route
  by (simp add: trusted_route_def sample_agent_def get_reputation_def set_reputation_def new_reputation_def sample_host_def open_engine_def)

end
