(* ===== verification/Generators.thy ===== *)
theory Generators
  imports Magi_Vir Agents
begin

text \<open>
  \<^verbatim>\<open>maestro/ncg/generator.py\<close>: the headless generators behind an API, which ask the model without any framing and
  fall back on the mock generator.  What the API answers is a parameter: for OpenAI the response object of the
  client, for Anthropic the outcome of a POST; an exception of any kind is a failed call.
\<close>

record generated =
  gn_output :: NcgOutput
  gn_token_count :: json
  gn_prompt_tokens :: json
  gn_temperature :: "real option"

definition mock_generated :: "string \<Rightarrow> generated" where
  "mock_generated prompt =
     \<lparr>gn_output = mock_generate prompt, gn_token_count = JInt (int (length (py_split (no_content (mock_generate prompt))))),
      gn_prompt_tokens = JNull, gn_temperature = None\<rparr>"

record headless =
  hd_model :: string
  hd_temperature :: real

definition new_openai :: headless where
  "new_openai = \<lparr>hd_model = ''gpt-4o-mini'', hd_temperature = 1\<rparr>"

definition new_anthropic :: headless where
  "new_anthropic = \<lparr>hd_model = ''claude-haiku-4-5-20251001'', hd_temperature = 1\<rparr>"

section \<open>OpenAI\<close>

record token_info =
  ti_token :: string
  ti_logprob :: real
  ti_top_logprobs :: "(string \<times> real) list option"

record completion_choice =
  cc_content :: "string option"
  cc_logprobs :: "token_info list option"

record completion =
  cp_choices :: "completion_choice list"
  cp_usage :: "(int \<times> int) option"

record completion_request =
  cr_model :: string
  cr_messages :: "(string \<times> string) list"
  cr_temperature :: real
  cr_top_logprobs :: nat

definition openai_request :: "headless \<Rightarrow> string \<Rightarrow> completion_request" where
  "openai_request g prompt =
     \<lparr>cr_model = hd_model g, cr_messages = [(''user'', prompt)], cr_temperature = hd_temperature g, cr_top_logprobs = 5\<rparr>"

definition token_entry :: "token_info \<Rightarrow> TokenEntry" where
  "token_entry t =
     \<lparr>te_token = ti_token t, te_logprob = ti_logprob t,
      te_top_alternatives = map (\<lambda>(a, l). \<lparr>ta_token = a, ta_logprob = l\<rparr>) (case ti_top_logprobs t of None \<Rightarrow> [] | Some as \<Rightarrow> as)\<rparr>"

text \<open>\<^term>\<open>None\<close> is an exception: no choice, or a choice without content.\<close>

definition openai_result :: "headless \<Rightarrow> completion \<Rightarrow> generated option" where
  "openai_result g r =
     (case cp_choices r of
        [] \<Rightarrow> None
      | choice # _ \<Rightarrow>
          (case cc_content choice of
             None \<Rightarrow> None
           | Some text \<Rightarrow>
               (let content = py_strip text;
                    token_data = (case cc_logprobs choice of None \<Rightarrow> [] | Some ts \<Rightarrow> map token_entry ts)
                in Some \<lparr>gn_output = \<lparr>no_content = content, no_model = hd_model g,
                           no_metadata = \<lparr>nm_logprobs_available = (token_data \<noteq> []), nm_logprobs = token_data\<rparr>\<rparr>,
                         gn_token_count = (case cp_usage r of Some (c, _) \<Rightarrow> JInt c | None \<Rightarrow> JInt (int (length (py_split content)))),
                         gn_prompt_tokens = (case cp_usage r of Some (_, p) \<Rightarrow> JInt p | None \<Rightarrow> JNull),
                         gn_temperature = Some (hd_temperature g)\<rparr>)))"

definition openai_generate ::
  "headless \<Rightarrow> (completion_request \<Rightarrow> completion option) \<Rightarrow> (string, string) dict \<Rightarrow> string \<Rightarrow> generated" where
  "openai_generate g create environ prompt =
     (if dget environ ''OPENAI_API_KEY'' [] = [] then mock_generated prompt
      else case Option.bind (create (openai_request g prompt)) (openai_result g) of
             Some out \<Rightarrow> out
           | None \<Rightarrow> mock_generated prompt)"

section \<open>Anthropic\<close>

definition anthropic_request :: "headless \<Rightarrow> string \<Rightarrow> string \<Rightarrow> http_post" where
  "anthropic_request g key prompt =
     \<lparr>hp_url = ''https://api.anthropic.com/v1/messages'',
      hp_headers = [(''x-api-key'', key), (''anthropic-version'', ''2023-06-01''), (''content-type'', ''application/json'')],
      hp_body = [(''model'', JStr (hd_model g)), (''max_tokens'', JInt 1024), (''messages'', JList [chat_message ''user'' prompt])],
      hp_temperature = Some (hd_temperature g), hp_timeout = 30\<rparr>"

text \<open>\<^verbatim>\<open>"".join(part.get("text", "") for part in content_parts)\<close>.\<close>

fun join_parts :: "json list \<Rightarrow> string option" where
  "join_parts [] = Some []"
| "join_parts (JObj d # ps) =
     (case dget d ''text'' (JStr []) of JStr s \<Rightarrow> map_option (\<lambda>t. s @ t) (join_parts ps) | _ \<Rightarrow> None)"
| "join_parts (_ # ps) = None"

fun content_parts :: "json \<Rightarrow> json list option" where
  "content_parts (JList ps) = Some ps"
| "content_parts (JStr s) = Some (map (\<lambda>c. JStr [c]) s)"
| "content_parts (JObj d) = Some (map (\<lambda>k. JStr k) (dkeys d))"
| "content_parts _ = None"

definition anthropic_result :: "headless \<Rightarrow> json \<Rightarrow> generated option" where
  "anthropic_result g data =
     (case data of
        JObj d \<Rightarrow>
          (case Option.bind (content_parts (dget d ''content'' (JList []))) join_parts of
             Some (c # cs) \<Rightarrow>
               (case dget d ''usage'' (JObj []) of
                  JObj u \<Rightarrow> Some \<lparr>gn_output = \<lparr>no_content = c # cs, no_model = hd_model g,
                                     no_metadata = \<lparr>nm_logprobs_available = False, nm_logprobs = []\<rparr>\<rparr>,
                                  gn_token_count = dget u ''output_tokens'' JNull, gn_prompt_tokens = dget u ''input_tokens'' JNull,
                                  gn_temperature = Some (hd_temperature g)\<rparr>
                | _ \<Rightarrow> None)
           | _ \<Rightarrow> None)
      | _ \<Rightarrow> None)"

definition anthropic_generate :: "headless \<Rightarrow> (http_post \<Rightarrow> post_outcome) \<Rightarrow> (string, string) dict \<Rightarrow> string \<Rightarrow> generated" where
  "anthropic_generate g post environ prompt =
     (let key = dget environ ''ANTHROPIC_API_KEY'' []
      in if key = [] then mock_generated prompt
         else case post (anthropic_request g key prompt) of
                PostJson data \<Rightarrow> (case anthropic_result g data of Some out \<Rightarrow> out | None \<Rightarrow> mock_generated prompt)
              | _ \<Rightarrow> mock_generated prompt)"

section \<open>Correctness\<close>

definition signal_consistent :: "generated \<Rightarrow> bool" where
  "signal_consistent out \<longleftrightarrow> (nm_logprobs_available (no_metadata (gn_output out)) \<longleftrightarrow> nm_logprobs (no_metadata (gn_output out)) \<noteq> [])"

lemma mock_consistent: "signal_consistent (mock_generated prompt)"
  by (simp add: signal_consistent_def mock_generated_def mock_generate_def)

lemma openai_consistent: "signal_consistent (openai_generate g create environ prompt)"
  using mock_consistent
  by (auto simp: openai_generate_def openai_result_def signal_consistent_def Let_def
      split: option.splits list.splits bind_splits)

lemma anthropic_consistent: "signal_consistent (anthropic_generate g post environ prompt)"
proof -
  have "signal_consistent out" if "anthropic_result g data = Some out" for data out
    using that by (auto simp: anthropic_result_def signal_consistent_def split: json.splits option.splits list.splits)
  then show ?thesis
    using mock_consistent by (auto simp: anthropic_generate_def Let_def split: post_outcome.splits option.splits)
qed

text \<open>
  Library fact: the headless baseline always exists, and the tier of the drift analysis is what the baseline supports: with
  either generator, whatever its API does, every answer is analysed on the token level exactly when there is a
  token signal to report.
\<close>

theorem baseline_tier_has_signal:
  "out = openai_generate g create environ prompt \<or> out = anthropic_generate g post environ prompt \<Longrightarrow>
   (ds_analysis_tier (drift_signal sdist (gn_output out) r) = ''token_level'')
     = (ds_token_drift (drift_signal sdist (gn_output out) r) \<noteq> None)"
  using openai_consistent [of g create environ prompt] anthropic_consistent [of g post environ prompt]
  by (auto simp: drift_signal_def Let_def analyze_token_drift_def signal_consistent_def)

lemma baseline_tier_has_signal_witness:
  "(ds_analysis_tier (drift_signal sdist (gn_output (openai_generate new_openai (\<lambda>_. None) [] ''q'')) (''a'', ''x'')) = ''token_level'')
     = (ds_token_drift (drift_signal sdist (gn_output (openai_generate new_openai (\<lambda>_. None) [] ''q'')) (''a'', ''x'')) \<noteq> None)"
  by (rule baseline_tier_has_signal) (rule disjI1, rule refl)

text \<open>
  Library fact: the generators put no framing around the prompt: the one message either sends is the user's, word for word,
  and nothing is sent without a key.
\<close>

theorem headless_requests_unframed:
  "cr_messages (openai_request g prompt) = [(''user'', prompt)]
   \<and> (map_of (hp_body (anthropic_request g key prompt)) ''messages'' = Some (JList [JObj [(''role'', JStr ''user''), (''content'', JStr prompt)]]))
   \<and> map_of (hp_body (anthropic_request g key prompt)) ''system'' = None
   \<and> anthropic_generate g post [] prompt = mock_generated prompt \<and> openai_generate g create [] prompt = mock_generated prompt"
  by (simp add: openai_request_def anthropic_request_def chat_message_def anthropic_generate_def openai_generate_def dget_def)

text \<open>
  Library fact: an Anthropic baseline is never empty, and it is the model's own text exactly when the answer has one.
\<close>

theorem anthropic_never_empty:
  "no_content (gn_output (anthropic_generate g post environ prompt)) \<noteq> []
   \<and> (gn_temperature (anthropic_generate g post environ prompt) \<noteq> None \<longleftrightarrow>
        dget environ ''ANTHROPIC_API_KEY'' [] \<noteq> [] \<and>
        (\<exists>data out. post (anthropic_request g (dget environ ''ANTHROPIC_API_KEY'' []) prompt) = PostJson data \<and> anthropic_result g data = Some out))"
proof -
  have r: "no_content (gn_output out) \<noteq> [] \<and> gn_temperature out = Some (hd_temperature g)" if "anthropic_result g data = Some out" for data out
    using that by (auto simp: anthropic_result_def split: json.splits option.splits list.splits)
  have "no_content (gn_output (mock_generated prompt)) \<noteq> [] \<and> gn_temperature (mock_generated prompt) = None"
    by (simp add: mock_generated_def mock_generate_def)
  then show ?thesis
    using r by (auto simp: anthropic_generate_def Let_def split: post_outcome.splits option.splits)
qed

text \<open>An empty completion of OpenAI is kept as the baseline.\<close>

lemma openai_may_be_empty:
  "no_content (gn_output (openai_generate new_openai (\<lambda>_. Some \<lparr>cp_choices = [\<lparr>cc_content = Some [], cc_logprobs = None\<rparr>], cp_usage = None\<rparr>)
     [(''OPENAI_API_KEY'', ''k'')] prompt)) = []"
  by (simp add: openai_generate_def openai_result_def dget_def py_strip_def)

end
