(* ===== verification/Dependencies.thy ===== *)
theory Dependencies
  imports Keyring Agents
begin

text \<open>
  \<^verbatim>\<open>maestro/dependency_resolver.py\<close>: the checks of the packages, the tools, the API keys and the runtime, the
  report over them, and the installation of missing packages.  The machine is a parameter, a record of what can be
  imported, what is on the path and which files exist; pip acts on a state of its own.
\<close>

section \<open>Data\<close>

datatype Severity = SEV_OK | SEV_WARN | SEV_ERROR

fun severity_value :: "Severity \<Rightarrow> string" where
  "severity_value SEV_OK = ''ok''"
| "severity_value SEV_WARN = ''warn''"
| "severity_value SEV_ERROR = ''error''"

record CheckResult =
  ck_name :: string
  ck_category :: string
  ck_severity :: Severity
  ck_message :: string
  ck_hint :: string

definition REQUIRED_PACKAGES :: "(string \<times> string \<times> string) list" where
  "REQUIRED_PACKAGES =
     [(''openai'', ''openai'', ''GPT-4o agent (OpenAI provider)''),
      (''anthropic'', ''anthropic'', ''Claude Sonnet 4.6 agent (Anthropic provider)''),
      (''httpx'', ''httpx'', ''HTTP client for TUI / agent calls''),
      (''pydantic'', ''pydantic'', ''Request validation (FastAPI)''),
      (''dotenv'', ''python-dotenv'', ''Environment file loading''),
      (''fastapi'', ''fastapi'', ''Backend API server''),
      (''uvicorn'', ''uvicorn'', ''ASGI server''),
      (''rich'', ''rich'', ''TUI rich text rendering''),
      (''textual'', ''textual'', ''TUI framework''),
      (''safetensors'', ''safetensors'', ''Shard storage (SafeTensors format)''),
      (''huggingface_hub'', ''huggingface_hub'', ''Model downloading from HuggingFace'')]"

definition OPTIONAL_PACKAGES :: "(string \<times> string \<times> string) list" where
  "OPTIONAL_PACKAGES = [(''numpy'', ''numpy'', ''NCG drift calculation (optional)'')]"

definition SYSTEM_TOOLS :: "(string \<times> string) list" where
  "SYSTEM_TOOLS = [(''git'', ''System updates and version checking''), (''docker'', ''Docker deployment'')]"

definition API_KEYS :: "(string \<times> string \<times> string) list" where
  "API_KEYS =
     [(''OPENAI_API_KEY'', ''OpenAI'', ''Required for GPT-4o agent and headless NCG generation''),
      (''ANTHROPIC_API_KEY'', ''Anthropic'', ''Required for Claude Sonnet 4.6 agent''),
      (''GOOGLE_API_KEY'', ''Google'', ''Required for Gemini 2.5 Flash agent'')]"

definition OPTIONAL_API_KEYS :: "(string \<times> string \<times> string) list" where
  "OPTIONAL_API_KEYS = [(''HUGGINGFACE_TOKEN'', ''HuggingFace'', ''Optional; needed for gated model downloads'')]"

text \<open>\<open>mc_version m\<close> is the version of an importable module, or the word \<^verbatim>\<open>installed\<close>; \<^term>\<open>None\<close> is an \<^verbatim>\<open>ImportError\<close>.\<close>

record machine =
  mc_version :: "string \<Rightarrow> string option"
  mc_which :: "string \<Rightarrow> string option"
  mc_environ :: "(string, string) dict"
  mc_python :: "nat \<times> nat \<times> nat"
  mc_isfile :: "string \<Rightarrow> bool"
  mc_isdir :: "string \<Rightarrow> bool"
  mc_root :: string

section \<open>Checks\<close>

definition package_ok :: "string \<Rightarrow> string \<Rightarrow> CheckResult" where
  "package_ok pip_name version =
     \<lparr>ck_name = pip_name, ck_category = ''python'', ck_severity = SEV_OK, ck_message = pip_name @ '' '' @ version, ck_hint = []\<rparr>"

definition check_required :: "machine \<Rightarrow> string \<times> string \<times> string \<Rightarrow> CheckResult" where
  "check_required mc p = (case p of (import_name, pip_name, used_by) \<Rightarrow>
     (case mc_version mc import_name of
        Some version \<Rightarrow> package_ok pip_name version
      | None \<Rightarrow> \<lparr>ck_name = pip_name, ck_category = ''python'', ck_severity = SEV_ERROR,
                 ck_message = pip_name @ '' is not installed'',
                 ck_hint = ''pip install '' @ pip_name @ ''  (used by: '' @ used_by @ '')''\<rparr>))"

definition check_optional :: "machine \<Rightarrow> string \<times> string \<times> string \<Rightarrow> CheckResult" where
  "check_optional mc p = (case p of (import_name, pip_name, used_by) \<Rightarrow>
     (case mc_version mc import_name of
        Some version \<Rightarrow> package_ok pip_name version
      | None \<Rightarrow> \<lparr>ck_name = pip_name, ck_category = ''python'', ck_severity = SEV_WARN,
                 ck_message = pip_name @ '' is not installed (optional)'',
                 ck_hint = ''pip install '' @ pip_name @ ''  ('' @ used_by @ '')''\<rparr>))"

definition check_python_packages :: "machine \<Rightarrow> CheckResult list" where
  "check_python_packages mc = map (check_required mc) REQUIRED_PACKAGES @ map (check_optional mc) OPTIONAL_PACKAGES"

definition check_tool :: "machine \<Rightarrow> string \<times> string \<Rightarrow> CheckResult" where
  "check_tool mc t = (case t of (tool, purpose) \<Rightarrow>
     (case mc_which mc tool of
        Some (c # cs) \<Rightarrow> \<lparr>ck_name = tool, ck_category = ''system'', ck_severity = SEV_OK,
                         ck_message = tool @ '' found at '' @ c # cs, ck_hint = []\<rparr>
      | _ \<Rightarrow> \<lparr>ck_name = tool, ck_category = ''system'', ck_severity = SEV_WARN,
              ck_message = tool @ '' not found on PATH'', ck_hint = ''Install '' @ tool @ '' for: '' @ purpose\<rparr>))"

definition check_system_tools :: "machine \<Rightarrow> CheckResult list" where
  "check_system_tools mc = map (check_tool mc) SYSTEM_TOOLS"

definition check_masked :: "string \<Rightarrow> string" where
  "check_masked v = (if length v > 10 then take 4 v @ ''...'' @ drop (length v - 4) v else ''***'')"

definition key_configured :: "string \<Rightarrow> bool" where
  "key_configured v \<longleftrightarrow> v \<noteq> [] \<and> v \<notin> set PLACEHOLDER_VALUES"

definition check_key :: "Severity \<Rightarrow> string \<Rightarrow> (string \<Rightarrow> string \<Rightarrow> string) \<Rightarrow> machine \<Rightarrow> string \<times> string \<times> string \<Rightarrow> CheckResult" where
  "check_key missing nt hint mc k = (case k of (env_var, provider, purpose) \<Rightarrow>
     (let v = py_strip (dget (mc_environ mc) env_var [])
      in if key_configured v
         then \<lparr>ck_name = env_var, ck_category = ''api_key'', ck_severity = SEV_OK,
               ck_message = provider @ '' key configured ('' @ check_masked v @ '')'', ck_hint = []\<rparr>
         else \<lparr>ck_name = env_var, ck_category = ''api_key'', ck_severity = missing,
               ck_message = provider @ '' key not set'' @ nt, ck_hint = hint env_var purpose\<rparr>))"

definition check_api_keys :: "machine \<Rightarrow> CheckResult list" where
  "check_api_keys mc =
     map (check_key SEV_ERROR [] (\<lambda>v p. ''Set '' @ v @ '' in your .env file or environment. '' @ p @ ''.'') mc) API_KEYS @
     map (check_key SEV_WARN '' (optional)'' (\<lambda>_ p. p @ ''.'') mc) OPTIONAL_API_KEYS"

definition check_python_version :: "machine \<Rightarrow> CheckResult" where
  "check_python_version mc = (case mc_python mc of (major, minor, micro) \<Rightarrow>
     (if major > 3 \<or> major = 3 \<and> minor \<ge> 10
      then \<lparr>ck_name = ''python_version'', ck_category = ''runtime'', ck_severity = SEV_OK,
            ck_message = ''Python '' @ nat_str major @ ''.'' @ nat_str minor @ ''.'' @ nat_str micro, ck_hint = []\<rparr>
      else \<lparr>ck_name = ''python_version'', ck_category = ''runtime'', ck_severity = SEV_ERROR,
            ck_message = ''Python '' @ nat_str major @ ''.'' @ nat_str minor @ '' '' @ em_dash @ '' requires 3.10+'',
            ck_hint = ''Upgrade Python to 3.10 or later.''\<rparr>))"

definition dotenv_ok :: "string \<Rightarrow> CheckResult" where
  "dotenv_ok message = \<lparr>ck_name = ''dotenv'', ck_category = ''runtime'', ck_severity = SEV_OK, ck_message = message, ck_hint = []\<rparr>"

definition check_dotenv :: "machine \<Rightarrow> CheckResult" where
  "check_dotenv mc =
     (let backend_env = mc_root mc @ ''/backend/.env'';
          root_env = mc_root mc @ ''/.env'';
          path = dget (mc_environ mc) ''MAESTRO_ENV_FILE'' []
      in if path \<noteq> [] \<and> mc_isfile mc path then dotenv_ok (''.env loaded from MAESTRO_ENV_FILE ('' @ path @ '')'')
         else if mc_isfile mc backend_env then dotenv_ok (''.env found at '' @ backend_env)
         else if mc_isfile mc root_env then dotenv_ok (''.env found at '' @ root_env)
         else \<lparr>ck_name = ''dotenv'', ck_category = ''runtime'', ck_severity = SEV_WARN, ck_message = ''No .env file found'',
               ck_hint = ''Create backend/.env with your API keys.''\<rparr>)"

definition check_data_dir :: "machine \<Rightarrow> CheckResult" where
  "check_data_dir mc =
     (let data_dir = mc_root mc @ ''/data''
      in if mc_isdir mc data_dir
         then \<lparr>ck_name = ''data_dir'', ck_category = ''runtime'', ck_severity = SEV_OK,
               ck_message = ''Data directory exists ('' @ data_dir @ '')'', ck_hint = []\<rparr>
         else \<lparr>ck_name = ''data_dir'', ck_category = ''runtime'', ck_severity = SEV_WARN,
               ck_message = ''Data directory not found'', ck_hint = ''Create '' @ data_dir @ '' for session logs and shard storage.''\<rparr>)"

definition check_runtime :: "machine \<Rightarrow> CheckResult list" where
  "check_runtime mc = [check_python_version mc, check_dotenv mc, check_data_dir mc]"

section \<open>The report\<close>

definition report_errors :: "CheckResult list \<Rightarrow> CheckResult list" where
  "report_errors cs = filter (\<lambda>c. ck_severity c = SEV_ERROR) cs"

definition report_warnings :: "CheckResult list \<Rightarrow> CheckResult list" where
  "report_warnings cs = filter (\<lambda>c. ck_severity c = SEV_WARN) cs"

definition ok_count :: "CheckResult list \<Rightarrow> nat" where
  "ok_count cs = length (filter (\<lambda>c. ck_severity c = SEV_OK) cs)"

definition report_healthy :: "CheckResult list \<Rightarrow> bool" where
  "report_healthy cs = (length (report_errors cs) = 0)"

definition report_to_dict :: "CheckResult list \<Rightarrow> (string, json) dict" where
  "report_to_dict cs =
     [(''healthy'', JBool (report_healthy cs)), (''total'', JInt (int (length cs))), (''ok'', JInt (int (ok_count cs))),
      (''warnings'', JInt (int (length (report_warnings cs)))), (''errors'', JInt (int (length (report_errors cs)))),
      (''checks'', JList (map (\<lambda>c. JObj [(''name'', JStr (ck_name c)), (''category'', JStr (ck_category c)),
         (''severity'', JStr (severity_value (ck_severity c))), (''message'', JStr (ck_message c)), (''hint'', JStr (ck_hint c))]) cs))]"

definition resolve_all :: "machine \<Rightarrow> CheckResult list" where
  "resolve_all mc = check_runtime mc @ check_python_packages mc @ check_system_tools mc @ check_api_keys mc"

section \<open>Installing packages\<close>

text \<open>
  \<open>pip args s\<close> runs pip install with these arguments: the return code, what it wrote to standard error, and the
  state after; \<open>importable s m\<close> says whether a module can be imported in a state.
\<close>

type_synonym 's pip = "string list \<Rightarrow> 's \<Rightarrow> (int \<times> string) \<times> 's"

definition externally_managed :: "string \<Rightarrow> bool" where
  "externally_managed stderr \<longleftrightarrow>
     occurs_in ''externally-managed-environment'' stderr \<or> occurs_in ''externally managed'' (py_lower stderr)"

definition missing_packages :: "('s \<Rightarrow> string \<Rightarrow> bool) \<Rightarrow> 's \<Rightarrow> (string \<times> string) list" where
  "missing_packages importable s =
     map (\<lambda>(m, p, _). (m, p)) (filter (\<lambda>(m, _). \<not> importable s m) REQUIRED_PACKAGES)"

text \<open>Only with \<open>quiet\<close> is standard error read: without it the text is empty.\<close>

definition ensure_packages :: "'s pip \<Rightarrow> ('s \<Rightarrow> string \<Rightarrow> bool) \<Rightarrow> bool \<Rightarrow> 's \<Rightarrow> string list \<times> 's" where
  "ensure_packages pip importable quiet s =
     (let missing = missing_packages importable s; pip_names = map snd missing
      in if missing = [] then ([], s)
         else
          let ((code, err), s1) = pip pip_names s;
              stderr = (if quiet then err else []);
              (code2, s2) = (if code \<noteq> 0 \<and> externally_managed stderr
                             then (let ((c, _), s') = pip (''--break-system-packages'' # pip_names) s1 in (c, s'))
                             else (code, s1))
          in if code2 \<noteq> 0 then ([], s2)
             else (map snd (filter (\<lambda>(m, _). importable s2 m) missing), s2))"

section \<open>What a healthy report means\<close>

lemma no_errors:
  "report_healthy cs \<longleftrightarrow> list_all (\<lambda>c. ck_severity c \<noteq> SEV_ERROR) cs"
  by (simp add: report_healthy_def report_errors_def filter_empty_conv list_all_iff)

lemma severities [simp]:
  "ck_severity (check_required mc (m, p, u)) = SEV_ERROR \<longleftrightarrow> mc_version mc m = None"
  "ck_severity (check_optional mc (m, p, u)) \<noteq> SEV_ERROR"
  "ck_severity (check_tool mc t) \<noteq> SEV_ERROR" "ck_severity (check_dotenv mc) \<noteq> SEV_ERROR" "ck_severity (check_data_dir mc) \<noteq> SEV_ERROR"
  "ck_severity (check_key SEV_ERROR nt hint mc (v, pr, pu)) = SEV_ERROR \<longleftrightarrow> \<not> key_configured (py_strip (dget (mc_environ mc) v []))"
  "ck_severity (check_key SEV_WARN nt hint mc (v, pr, pu)) \<noteq> SEV_ERROR"
  by (auto simp: check_required_def check_optional_def check_tool_def check_dotenv_def check_data_dir_def check_key_def package_ok_def
      dotenv_ok_def Let_def split: option.splits prod.splits list.splits)

lemma healthy_iff:
  "report_healthy (resolve_all mc) \<longleftrightarrow>
     ck_severity (check_python_version mc) \<noteq> SEV_ERROR
     \<and> (\<forall>m \<in> set (map fst REQUIRED_PACKAGES). mc_version mc m \<noteq> None)
     \<and> (\<forall>v \<in> set (map fst API_KEYS). key_configured (py_strip (dget (mc_environ mc) v [])))"
proof -
  have "list_all (\<lambda>c. ck_severity c \<noteq> SEV_ERROR) (map (check_required mc) ps) \<longleftrightarrow> (\<forall>m \<in> set (map fst ps). mc_version mc m \<noteq> None)" for ps
    by (induction ps) auto
  moreover have "list_all (\<lambda>c. ck_severity c \<noteq> SEV_ERROR) (map (check_optional mc) ps)" for ps
    by (induction ps) auto
  moreover have "list_all (\<lambda>c. ck_severity c \<noteq> SEV_ERROR) (map (check_tool mc) ts)" for ts
    by (induction ts) auto
  moreover have "list_all (\<lambda>c. ck_severity c \<noteq> SEV_ERROR) (map (check_key SEV_ERROR nt hint mc) ks)
      \<longleftrightarrow> (\<forall>v \<in> set (map fst ks). key_configured (py_strip (dget (mc_environ mc) v [])))" for nt hint ks
    by (induction ks) auto
  moreover have "list_all (\<lambda>c. ck_severity c \<noteq> SEV_ERROR) (map (check_key SEV_WARN nt hint mc) ks)" for nt hint ks
    by (induction ks) auto
  ultimately show ?thesis
    by (simp add: no_errors resolve_all_def check_runtime_def check_python_packages_def check_system_tools_def check_api_keys_def)
qed

text \<open>
  Library fact: a healthy report means that the council can be asked: Python is recent enough, every required package can
  be imported, and the agents of Anthropic, OpenAI and Google each send their request, whatever the server then
  answers.
\<close>

theorem healthy_means_agents_ask:
  assumes "report_healthy (resolve_all mc)"
  shows "(3, 10) \<le> (fst (mc_python mc), fst (snd (mc_python mc))) \<and> missing_packages (\<lambda>s m. mc_version mc m \<noteq> None) s = []
    \<and> (\<exists>k. k \<noteq> [] \<and> aria_fetch Aria post (mc_environ mc) today prompt = http_fetch Aria aria_request aria_pick post (Some k) today prompt)
    \<and> (\<exists>k. k \<noteq> [] \<and> sol_fetch Sol post (mc_environ mc) today prompt = http_fetch Sol sol_request chat_pick post (Some k) today prompt)
    \<and> (\<exists>k. k \<noteq> [] \<and> prism_fetch repr Prism post (mc_environ mc) today prompt
            = http_fetch Prism prism_request (prism_pick repr (ha_name Prism)) post (Some k) today prompt)"
proof -
  note h = assms [unfolded healthy_iff]
  have key: "\<exists>k. k \<noteq> [] \<and> map_of (mc_environ mc) v = Some k" if "v \<in> set (map fst API_KEYS)" for v
  proof -
    have "py_strip (dget (mc_environ mc) v []) \<noteq> []" using h that by (auto simp: key_configured_def)
    then have "dget (mc_environ mc) v [] \<noteq> []" by (auto simp: py_strip_def)
    then show ?thesis by (auto simp: dget_def split: option.splits)
  qed
  have "(3, 10) \<le> (fst (mc_python mc), fst (snd (mc_python mc)))"
    using h by (auto simp: check_python_version_def less_eq_prod_def split: prod.splits if_splits)
  moreover have "missing_packages (\<lambda>s m. mc_version mc m \<noteq> None) s = []"
    using h by (auto simp: missing_packages_def filter_empty_conv)
  ultimately show ?thesis
    using key [of "''ANTHROPIC_API_KEY''"] key [of "''OPENAI_API_KEY''"] key [of "''GOOGLE_API_KEY''"]
    by (auto simp: aria_fetch_def sol_fetch_def prism_fetch_def API_KEYS_def)
qed

definition good_machine :: machine where
  "good_machine = \<lparr>mc_version = (\<lambda>_. Some ''1.0''), mc_which = (\<lambda>_. None),
     mc_environ = [(''OPENAI_API_KEY'', ''a''), (''ANTHROPIC_API_KEY'', ''b''), (''GOOGLE_API_KEY'', ''c'')],
     mc_python = (3, 12, 1), mc_isfile = (\<lambda>_. False), mc_isdir = (\<lambda>_. False), mc_root = ''/m''\<rparr>"

lemma good_machine_healthy: "report_healthy (resolve_all good_machine)"
  by (simp add: healthy_iff good_machine_def check_python_version_def API_KEYS_def key_configured_def PLACEHOLDER_VALUES_def
      dget_def py_strip_def py_space_def Let_def)

lemma healthy_means_agents_ask_witness:
  "missing_packages (\<lambda>s m. mc_version good_machine m \<noteq> None) () = []"
  using healthy_means_agents_ask [OF good_machine_healthy, of "()"] by blast

text \<open>
  The key of the fourth agent is not checked: a healthy report and an agent that cannot ask.
\<close>

lemma healthy_without_openrouter:
  "report_healthy (resolve_all good_machine)
   \<and> temp_fetch TempAgent post (mc_environ good_machine) today prompt = agent_error (ha_name TempAgent) ''API Key Missing''"
  using good_machine_healthy by (simp add: temp_fetch_def http_fetch_def good_machine_def)

text \<open>
  Library fact: the check of a key and the listing of the keyring agree on a value without white space around it.
\<close>

theorem key_check_agrees_with_keyring:
  assumes "py_strip (dget (mc_environ mc) v []) = dget (mc_environ mc) v []" "missing \<noteq> SEV_OK"
  shows "(ck_severity (check_key missing nt hint mc (v, p, u)) = SEV_OK) = is_configured (dget (mc_environ mc) v [])"
  using assms by (auto simp: check_key_def key_configured_def is_configured_def Let_def)

text \<open>
  Library fact: the report counts every check once, under its severity.
\<close>

theorem report_counts:
  "ok_count cs + length (report_warnings cs) + length (report_errors cs) = length cs"
proof (induction cs)
  case (Cons c cs)
  then show ?case by (cases "ck_severity c") (simp_all add: ok_count_def report_warnings_def report_errors_def)
qed (simp add: ok_count_def report_warnings_def report_errors_def)

text \<open>
  Library fact: the packages reported as installed were missing and can be imported now; pip is run only when something is
  missing, once or twice, and nothing is reported after a failure.
\<close>

theorem ensure_packages_sound:
  assumes "ensure_packages pip importable quiet s = (installed, s')"
  shows "set installed \<subseteq> {p. \<exists>m u. (m, p, u) \<in> set REQUIRED_PACKAGES \<and> \<not> importable s m \<and> importable s' m}
    \<and> (missing_packages importable s = [] \<longrightarrow> s' = s)
    \<and> (s' = s \<or> (\<exists>args. s' = snd (pip args s)) \<or> (\<exists>args args'. s' = snd (pip args' (snd (pip args s)))))"
proof (cases "missing_packages importable s = []")
  case True
  then show ?thesis using assms by (simp add: ensure_packages_def)
next
  case False
  let ?names = "map snd (missing_packages importable s)"
  obtain code err s1 where 1: "pip ?names s = ((code, err), s1)" by (metis prod.exhaust)
  obtain c2 e2 s2 where 2: "pip (''--break-system-packages'' # ?names) s1 = ((c2, e2), s2)" by (metis prod.exhaust)
  have s': "s' = s1 \<or> s' = s2" and inst: "installed = [] \<or> installed = map snd (filter (\<lambda>(m, _). importable s' m) (missing_packages importable s))"
    using assms False 1 2 by (auto simp: ensure_packages_def Let_def split: if_splits)
  have "set installed \<subseteq> {p. \<exists>m u. (m, p, u) \<in> set REQUIRED_PACKAGES \<and> \<not> importable s m \<and> importable s' m}"
    using inst unfolding missing_packages_def by (elim disjE) (simp, force)
  moreover have "s' = snd (pip ?names s) \<or> s' = snd (pip (''--break-system-packages'' # ?names) (snd (pip ?names s)))"
    using s' 1 2 by auto
  ultimately show ?thesis using False by blast
qed

text \<open>
  Without \<open>quiet\<close> standard error is not captured, so an externally managed environment is never recognised and
  the second try is not made.
\<close>

lemma no_retry_unless_quiet:
  "\<not> importable s ''openai'' \<Longrightarrow>
   pip (map snd (missing_packages importable s)) s = ((1, ''error: externally-managed-environment''), s) \<Longrightarrow>
   ensure_packages pip importable False s = ([], s)"
  by (auto simp: ensure_packages_def Let_def externally_managed_def py_lower_def missing_packages_def REQUIRED_PACKAGES_def)

end
