(* ===== verification/Shard_Download.thy ===== *)
theory Shard_Download
  imports Shard_Store
begin

text \<open>
  The download half of \<^verbatim>\<open>maestro/shard_manager.py\<close> and the shard routes of \<^verbatim>\<open>maestro/api_storage.py\<close> that drive it:
  which files of a model are needed for a range of layers, fetching them from the hub, and the background downloads
  with their status table.  The hub is a parameter: it lists the files of a model and gives the content of
  one of them, or raises.  Access tokens and revisions belong to it.
\<close>

section \<open>Choosing the files\<close>

text \<open>
  \<^verbatim>\<open>HfApi.list_repo_files\<close> and \<^verbatim>\<open>hf_hub_download\<close>, each \<^term>\<open>None\<close> where it raises, and whether the package can be
  imported.  An index maps tensors to files; one whose file names are not strings counts as unreadable.
\<close>

record hub =
  hb_installed :: bool
  hb_list :: "string \<Rightarrow> string list option"
  hb_content :: "string \<Rightarrow> string \<Rightarrow> bytes option"

datatype download_error = HubNotInstalled | ListingFailed | NoSafetensorsFiles | IndexingFailed shard_error

definition INDEX_NAME :: string where
  "INDEX_NAME = ''model.safetensors.index.json''"

fun string_map :: "(string \<times> json) list \<Rightarrow> (string, string) dict option" where
  "string_map [] = Some []"
| "string_map ((k, JStr v) # es) = map_option (\<lambda>d. (k, v) # d) (string_map es)"
| "string_map (_ # es) = None"

fun weight_map_of :: "json \<Rightarrow> (string, string) dict option" where
  "weight_map_of (JObj d) = (case map_of d ''weight_map'' of Some (JObj es) \<Rightarrow> string_map es | _ \<Rightarrow> None)"
| "weight_map_of _ = None"

definition tensor_layer :: "string \<Rightarrow> nat option" where
  "tensor_layer name = first_some (\<lambda>p. search_layer p name) layer_patterns"

text \<open>The two loops over the map: tensors of a requested layer, then tensors without a layer number.\<close>

definition numbered_files :: "int \<Rightarrow> int \<Rightarrow> (string, string) dict \<Rightarrow> string list" where
  "numbered_files layer_start layer_end weight_map =
     map snd (filter (\<lambda>(t, _). case tensor_layer t of Some n \<Rightarrow> layer_start \<le> int n \<and> int n \<le> layer_end | None \<Rightarrow> False) weight_map)"

definition unnumbered_files :: "int \<Rightarrow> (string, string) dict \<Rightarrow> string list" where
  "unnumbered_files layer_start weight_map =
     (if layer_start = 0 then map snd (filter (\<lambda>(t, _). tensor_layer t = None) weight_map) else [])"

definition needed_files :: "int \<Rightarrow> int \<Rightarrow> (string, string) dict \<Rightarrow> string list" where
  "needed_files layer_start layer_end weight_map =
     sort (remdups (numbered_files layer_start layer_end weight_map @ unnumbered_files layer_start weight_map))"

definition read_weight_map :: "(bytes \<Rightarrow> json option) \<Rightarrow> hub \<Rightarrow> string \<Rightarrow> (string, string) dict option" where
  "read_weight_map loads hb model_id = Option.bind (Option.bind (hb_content hb model_id INDEX_NAME) loads) weight_map_of"

definition resolve_files_for_layers ::
    "(bytes \<Rightarrow> json option) \<Rightarrow> hub \<Rightarrow> string \<Rightarrow> string list \<Rightarrow> int \<Rightarrow> int \<Rightarrow> string list" where
  "resolve_files_for_layers loads hb model_id safetensor_files layer_start layer_end =
     (case read_weight_map loads hb model_id of
        None \<Rightarrow> safetensor_files
      | Some weight_map \<Rightarrow>
          (let needed = needed_files layer_start layer_end weight_map
           in if needed = [] then safetensor_files else needed))"

section \<open>Fetching\<close>

text \<open>
  \<^verbatim>\<open>local_dir\<close> receives a file under its name in the repository, so a name with a slash ends in a subdirectory,
  where no operation of the manager looks.
\<close>

definition put_file :: "string \<Rightarrow> bytes \<Rightarrow> model_dir \<Rightarrow> model_dir" where
  "put_file filename content md =
     (if CHR ''/'' \<in> set filename then md else md\<lparr>md_files := dset filename content (md_files md)\<rparr>)"

definition base_name :: "string \<Rightarrow> string" where
  "base_name filename = rev (takeWhile (\<lambda>c. c \<noteq> CHR ''/'') (rev filename))"

definition fetch_index :: "hub \<Rightarrow> string \<Rightarrow> model_dir \<Rightarrow> model_dir" where
  "fetch_index hb model_id md =
     (case hb_content hb model_id INDEX_NAME of None \<Rightarrow> md | Some content \<Rightarrow> put_file INDEX_NAME content md)"

definition fetch_file :: "hub \<Rightarrow> string \<Rightarrow> string \<Rightarrow> string list \<times> model_dir \<Rightarrow> string list \<times> model_dir" where
  "fetch_file hb model_id filename = (\<lambda>(downloaded, md).
     if base_name filename \<in> set (dkeys (md_files md)) then (downloaded @ [base_name filename], md)
     else case hb_content hb model_id filename of
       None \<Rightarrow> (downloaded, md)
     | Some content \<Rightarrow> (downloaded @ [filename], put_file filename content md))"

definition fetch_files :: "hub \<Rightarrow> string \<Rightarrow> string list \<Rightarrow> model_dir \<Rightarrow> string list \<times> model_dir" where
  "fetch_files hb model_id filenames md = fold (fetch_file hb model_id) filenames ([], md)"

definition target_files ::
    "(bytes \<Rightarrow> json option) \<Rightarrow> hub \<Rightarrow> string \<Rightarrow> string list \<Rightarrow> int \<Rightarrow> int \<Rightarrow> model_dir \<Rightarrow> string list \<times> model_dir" where
  "target_files loads hb model_id safetensor_files layer_start layer_end md =
     (if layer_end = -1 then (safetensor_files, md)
      else (resolve_files_for_layers loads hb model_id safetensor_files layer_start layer_end, fetch_index hb model_id md))"

definition download_model_shards ::
    "(bytes \<Rightarrow> json option) \<Rightarrow> (bytes \<Rightarrow> string) \<Rightarrow> hub \<Rightarrow> string \<Rightarrow> int \<Rightarrow> int \<Rightarrow> shard_dir
     \<Rightarrow> (download_error + string list) \<times> shard_dir" where
  "download_model_shards loads sha hb model_id layer_start layer_end dir =
     (if \<not> hb_installed hb then (Inl HubNotInstalled, dir)
      else
        (let md = model_dir_of dir model_id; dir = dset (safe_name model_id) md dir
         in case hb_list hb model_id of
              None \<Rightarrow> (Inl ListingFailed, dir)
            | Some files \<Rightarrow>
                (let safetensor_files = sort (filter (ends_with ''.safetensors'') files)
                 in if safetensor_files = [] then (Inl NoSafetensorsFiles, dir)
                    else
                      (let (target, md) = target_files loads hb model_id safetensor_files layer_start layer_end md;
                           (downloaded, md) = fetch_files hb model_id target md;
                           (r, dir) = index_shards loads sha model_id (dset (safe_name model_id) md dir)
                       in (case r of Inl e \<Rightarrow> Inl (IndexingFailed e) | Inr _ \<Rightarrow> Inr downloaded, dir)))))"

section \<open>The routes\<close>

text \<open>
  The status table \<^verbatim>\<open>_active_downloads\<close> and the downloads themselves.  A request schedules a background task; the
  task first reports that it is downloading and, when the manager returns or raises, reports the end.  Both are
  single writes to the table, and other requests run between them.
\<close>

record ShardDownloadRequest =
  dr_model_id :: string
  dr_layer_start :: int
  dr_layer_end :: int

datatype DownloadStatus = Starting | Downloading int int | Complete nat | DownloadError download_error

record shard_api =
  sa_dir :: shard_dir
  sa_active :: "(string, DownloadStatus) dict"
  sa_scheduled :: "ShardDownloadRequest list"
  sa_running :: "ShardDownloadRequest list"

definition download_shards :: "ShardDownloadRequest \<Rightarrow> shard_api \<Rightarrow> string \<times> shard_api" where
  "download_shards req s =
     (if dr_model_id req \<in> set (dkeys (sa_active s)) then (''already_downloading'', s)
      else (''started'', s\<lparr>sa_active := dset (dr_model_id req) Starting (sa_active s), sa_scheduled := sa_scheduled s @ [req]\<rparr>))"

definition begin_download :: "ShardDownloadRequest \<Rightarrow> shard_api \<Rightarrow> shard_api" where
  "begin_download req s =
     s\<lparr>sa_active := dset (dr_model_id req) (Downloading (dr_layer_start req) (dr_layer_end req)) (sa_active s),
       sa_scheduled := remove1 req (sa_scheduled s), sa_running := sa_running s @ [req]\<rparr>"

definition end_status :: "download_error + string list \<Rightarrow> DownloadStatus" where
  "end_status r = (case r of Inl e \<Rightarrow> DownloadError e | Inr downloaded \<Rightarrow> Complete (length downloaded))"

definition finish_download ::
    "(bytes \<Rightarrow> json option) \<Rightarrow> (bytes \<Rightarrow> string) \<Rightarrow> hub \<Rightarrow> ShardDownloadRequest \<Rightarrow> shard_api \<Rightarrow> shard_api" where
  "finish_download loads sha hb req s =
     (let (r, dir) = download_model_shards loads sha hb (dr_model_id req) (dr_layer_start req) (dr_layer_end req) (sa_dir s)
      in s\<lparr>sa_dir := dir, sa_active := dset (dr_model_id req) (end_status r) (sa_active s),
           sa_running := remove1 req (sa_running s)\<rparr>)"

text \<open>\<^term>\<open>None\<close> is the answer \<^verbatim>\<open>idle\<close>.\<close>

definition download_status :: "string \<Rightarrow> shard_api \<Rightarrow> DownloadStatus option" where
  "download_status model_id s = map_of (sa_active s) model_id"

definition clear_download_status :: "string \<Rightarrow> shard_api \<Rightarrow> shard_api" where
  "clear_download_status model_id s = s\<lparr>sa_active := ddel model_id (sa_active s)\<rparr>"

text \<open>\<^verbatim>\<open>GET /shards/status\<close>: the manifest, indexed when there is none, with usage and download.  An index that raises is a 500.\<close>

record ShardStatus =
  st_manifest :: ShardManifest
  st_usage :: "nat \<times> nat"
  st_downloading :: bool
  st_download_status :: "DownloadStatus option"

definition shard_status ::
    "(bytes \<Rightarrow> json option) \<Rightarrow> (bytes \<Rightarrow> string) \<Rightarrow> string \<Rightarrow> shard_api \<Rightarrow> (shard_error + ShardStatus) \<times> shard_api" where
  "shard_status loads sha model_id s =
     (let (r, dir) = (case load_shard_manifest (sa_dir s) model_id of
                        Some m \<Rightarrow> (Inr m, sa_dir s)
                      | None \<Rightarrow> index_shards loads sha model_id (sa_dir s));
          downloading = map_of (sa_active s) model_id
      in (bind_res r (\<lambda>m. Inr \<lparr>st_manifest = m, st_usage = model_usage (model_dir_of dir model_id),
            st_downloading = (downloading \<noteq> None), st_download_status = downloading\<rparr>), s\<lparr>sa_dir := dir\<rparr>))"

definition list_shard_models :: "shard_api \<Rightarrow> (string \<times> ShardManifest option \<times> nat \<times> nat) list" where
  "list_shard_models s =
     map (\<lambda>m. (m, load_shard_manifest (sa_dir s) m, model_usage (model_dir_of (sa_dir s) m))) (list_models (sa_dir s))"

definition verify_shards :: "(bytes \<Rightarrow> string) \<Rightarrow> string \<Rightarrow> shard_api \<Rightarrow> VerifyResults" where
  "verify_shards sha model_id s = verify_all sha (sa_dir s) model_id"

text \<open>\<^term>\<open>False\<close> is a 404.\<close>

definition remove_model_shards :: "string \<Rightarrow> shard_api \<Rightarrow> bool \<times> shard_api" where
  "remove_model_shards model_id s = (let (removed, dir) = remove_model model_id (sa_dir s) in (removed, s\<lparr>sa_dir := dir\<rparr>))"

definition generate_config ::
    "(bytes \<Rightarrow> json option) \<Rightarrow> (bytes \<Rightarrow> string) \<Rightarrow> string \<Rightarrow> (int \<times> int) option \<Rightarrow> shard_api
     \<Rightarrow> (shard_error + ShardConfig list) \<times> shard_api" where
  "generate_config loads sha model_id req s =
     (let (r, dir) = generate_shard_config loads sha model_id req (sa_dir s) in (r, s\<lparr>sa_dir := dir\<rparr>))"

text \<open>
  The states that requests and tasks can reach, the status of a model being cleared at any time or, in orderly
  use, only once its download has ended.
\<close>

definition ended :: "DownloadStatus \<Rightarrow> bool" where
  "ended d = (case d of Complete _ \<Rightarrow> True | DownloadError _ \<Rightarrow> True | _ \<Rightarrow> False)"

definition initial_api :: "shard_dir \<Rightarrow> shard_api" where
  "initial_api dir = \<lparr>sa_dir = dir, sa_active = [], sa_scheduled = [], sa_running = []\<rparr>"

inductive api_reach :: "(bytes \<Rightarrow> json option) \<Rightarrow> (bytes \<Rightarrow> string) \<Rightarrow> hub \<Rightarrow> bool \<Rightarrow> shard_api \<Rightarrow> bool"
  for loads sha hb orderly where
  at_start: "api_reach loads sha hb orderly (initial_api dir)"
| requested: "api_reach loads sha hb orderly s \<Longrightarrow> api_reach loads sha hb orderly (snd (download_shards req s))"
| begun: "api_reach loads sha hb orderly s \<Longrightarrow> req \<in> set (sa_scheduled s) \<Longrightarrow> api_reach loads sha hb orderly (begin_download req s)"
| finished: "api_reach loads sha hb orderly s \<Longrightarrow> req \<in> set (sa_running s) \<Longrightarrow>
    api_reach loads sha hb orderly (finish_download loads sha hb req s)"
| cleared: "api_reach loads sha hb orderly s \<Longrightarrow> (orderly \<Longrightarrow> \<forall>d. download_status m s = Some d \<longrightarrow> ended d) \<Longrightarrow>
    api_reach loads sha hb orderly (clear_download_status m s)"
| looked: "api_reach loads sha hb orderly s \<Longrightarrow> api_reach loads sha hb orderly (snd (shard_status loads sha m s))"
| removed: "api_reach loads sha hb orderly s \<Longrightarrow> api_reach loads sha hb orderly (snd (remove_model_shards m s))"
| configured: "api_reach loads sha hb orderly s \<Longrightarrow> api_reach loads sha hb orderly (snd (generate_config loads sha m r s))"


section \<open>Lemmas\<close>

subsection \<open>Files and layers\<close>

lemma tensor_layer_of: "tensor_layer t = Some n \<Longrightarrow> layer_of t = int n" "tensor_layer t = None \<Longrightarrow> layer_of t = -1"
  by (simp_all add: tensor_layer_def layer_of_def)

lemma set_needed_files:
  "f \<in> set (needed_files a b weight_map) \<longleftrightarrow>
     (\<exists>t. (t, f) \<in> set weight_map \<and> (case tensor_layer t of Some n \<Rightarrow> a \<le> int n \<and> int n \<le> b | None \<Rightarrow> a = 0))"
  by (auto simp: needed_files_def numbered_files_def unnumbered_files_def image_iff split: option.splits) force+

lemma flat_base_name: "CHR ''/'' \<notin> set f \<Longrightarrow> base_name f = f"
proof -
  assume "CHR ''/'' \<notin> set f"
  then have "takeWhile (\<lambda>c. c \<noteq> CHR ''/'') (rev f) = rev f" by (auto simp: takeWhile_eq_all_conv)
  then show ?thesis unfolding base_name_def by (metis rev_rev_ident)
qed

definition flat_files :: "string list \<Rightarrow> bool" where
  "flat_files fs = list_all (\<lambda>f. CHR ''/'' \<notin> set f) fs"

text \<open>What fetching a list of files leaves: nothing present is touched, every other file is the hub's.\<close>

lemma fetch_fold:
  assumes "flat_files fs"
  shows "map_of (md_files (snd (fold (fetch_file hb m) fs (ds, md)))) f =
      (case map_of (md_files md) f of Some c \<Rightarrow> Some c | None \<Rightarrow> if f \<in> set fs then hb_content hb m f else None)
    \<and> fst (fold (fetch_file hb m) fs (ds, md)) = ds @ filter (\<lambda>f. map_of (md_files md) f \<noteq> None \<or> hb_content hb m f \<noteq> None) fs
    \<and> md_manifest (snd (fold (fetch_file hb m) fs (ds, md))) = md_manifest md
    \<and> (well_keyed (md_files md) \<longrightarrow> well_keyed (md_files (snd (fold (fetch_file hb m) fs (ds, md)))))"
  using assms
proof (induction fs arbitrary: ds md)
  case (Cons g gs)
  have g: "base_name g = g" "CHR ''/'' \<notin> set g" "flat_files gs"
    using Cons.prems flat_base_name by (auto simp: flat_files_def)
  have has: "f \<in> set (dkeys (md_files md)) \<longleftrightarrow> map_of (md_files md) f \<noteq> None" for f by (simp add: map_of_eq_None_iff)
  have step: "fetch_file hb m g (ds, md) =
      (if map_of (md_files md) g \<noteq> None \<or> hb_content hb m g \<noteq> None then ds @ [g] else ds,
       md\<lparr>md_files := (case (map_of (md_files md) g, hb_content hb m g) of
            (None, Some c) \<Rightarrow> dset g c (md_files md) | _ \<Rightarrow> md_files md)\<rparr>)"
    using has [of g] g(1,2) by (cases "map_of (md_files md) g"; cases "hb_content hb m g") (simp_all add: fetch_file_def put_file_def)
  show ?case
  proof (cases "map_of (md_files md) g = None \<and> hb_content hb m g \<noteq> None")
    case True
    then obtain c where c: "hb_content hb m g = Some c" "map_of (md_files md) g = None" by auto
    have f: "filter (\<lambda>f. ((map_of (md_files md)) (g \<mapsto> c)) f \<noteq> None \<or> hb_content hb m f \<noteq> None) gs =
        filter (\<lambda>f. map_of (md_files md) f \<noteq> None \<or> hb_content hb m f \<noteq> None) gs"
      by (rule filter_cong) (auto simp: c)
    have step': "fetch_file hb m g (ds, md) = (ds @ [g], md\<lparr>md_files := dset g c (md_files md)\<rparr>)" using step c by simp
    show ?thesis using Cons.IH [OF g(3), of "ds @ [g]" "md\<lparr>md_files := dset g c (md_files md)\<rparr>"] c f
      unfolding fold_simps step' by (simp split: option.splits)
  next
    case False
    then have step': "fetch_file hb m g (ds, md) = (if map_of (md_files md) g \<noteq> None then ds @ [g] else ds, md)"
      using step by (auto split: option.splits)
    show ?thesis unfolding fold_simps step' using Cons.IH [OF g(3), of _ md] False by (auto split: option.splits)
  qed
qed (auto split: option.splits)

lemma fetch_files_spec:
  assumes "flat_files fs" "fetch_files hb m fs md = (downloaded, md')"
  shows "map_of (md_files md') f =
      (case map_of (md_files md) f of Some c \<Rightarrow> Some c | None \<Rightarrow> if f \<in> set fs then hb_content hb m f else None)"
    "downloaded = filter (\<lambda>f. map_of (md_files md) f \<noteq> None \<or> hb_content hb m f \<noteq> None) fs"
    "well_keyed (md_files md) \<Longrightarrow> well_keyed (md_files md')"
  using fetch_fold [OF assms(1), of hb m "[]" md f] assms(2) by (simp_all add: fetch_files_def)


subsection \<open>Indexing what was fetched\<close>

lemma tensor_in_range:
  assumes "t \<in> set (tensor_names header)" "tensor_layer t = Some n"
  shows "0 \<le> fst (layer_range_of header) \<and> fst (layer_range_of header) \<le> int n \<and> int n \<le> snd (layer_range_of header)"
proof -
  have h: "int n \<in> held_layers header"
    using assms tensor_layer_of(1) [OF assms(2)] by (auto simp: held_layers_def intro!: rev_image_eqI [of t])
  have fin: "finite (held_layers header)" unfolding numbered_keys [symmetric] by simp
  have ne: "held_layers header \<noteq> {}" using h by auto
  have "Min (held_layers header) \<in> held_layers header" using Min_in [OF fin ne] .
  then show ?thesis using h ne fin by (simp add: layer_range_is_hull held_layers_def)
qed

definition good_shard :: "(bytes \<Rightarrow> json option) \<Rightarrow> bytes \<Rightarrow> bool" where
  "good_shard loads content \<longleftrightarrow>
     (case read_safetensors_header loads content of Inr (JObj header) \<Rightarrow> ok (detect_precision header) | _ \<Rightarrow> False)"

lemma good_shard_descriptor:
  assumes "good_shard loads content"
  shows "\<exists>d. build_shard_descriptor loads sha content m [] [] [] = Inr d \<and>
    (\<forall>header. read_safetensors_header loads content = Inr (JObj header) \<longrightarrow> sd_layer_range d = layer_range_of header)"
proof -
  obtain header p where "read_safetensors_header loads content = Inr (JObj header)" "detect_precision header = Inr p"
    using assms by (auto simp: good_shard_def split: sum.splits json.splits elim: ok.elims)
  then show ?thesis by (simp add: build_shard_descriptor_def Let_def)
qed

lemma index_good_files:
  assumes "list_all (\<lambda>(_, c). good_shard loads c) files"
  shows "\<exists>entries. index_files loads sha m files = Inr entries \<and> map sf_filename entries = map fst files \<and>
    (\<forall>f c header. (f, c) \<in> set files \<longrightarrow> read_safetensors_header loads c = Inr (JObj header) \<longrightarrow>
       (\<exists>e \<in> set entries. sf_filename e = f \<and> sf_layer_range e = layer_range_of header))"
  using assms
proof (induction files)
  case (Cons fc files)
  obtain f c where fc: "fc = (f, c)" by (cases fc)
  obtain entries where e: "index_files loads sha m files = Inr entries" "map sf_filename entries = map fst files"
    "\<forall>f c header. (f, c) \<in> set files \<longrightarrow> read_safetensors_header loads c = Inr (JObj header) \<longrightarrow>
       (\<exists>e \<in> set entries. sf_filename e = f \<and> sf_layer_range e = layer_range_of header)"
    using Cons by auto
  obtain d where d: "build_shard_descriptor loads sha c m [] [] [] = Inr d"
    "\<forall>header. read_safetensors_header loads c = Inr (JObj header) \<longrightarrow> sd_layer_range d = layer_range_of header"
    using good_shard_descriptor Cons.prems fc by fastforce
  show ?case using d e fc by auto
qed simp

lemma shard_files_members: "(f, c) \<in> set (shard_files files) \<longleftrightarrow> (f, c) \<in> set files \<and> ends_with ''.safetensors'' f"
  by (auto simp: shard_files_def)

lemma index_shards_good:
  assumes "well_keyed (md_files md)" "model_dir_of dir m = md"
    and "\<forall>f c. map_of (md_files md) f = Some c \<longrightarrow> ends_with ''.safetensors'' f \<longrightarrow> good_shard loads c"
  shows "\<exists>man dir'. index_shards loads sha m dir = (Inr man, dir') \<and> load_shard_manifest dir' m = Some man \<and>
    md_files (model_dir_of dir' m) = md_files md \<and>
    sf_filename ` set (sm_files man) = {f \<in> set (dkeys (md_files md)). ends_with ''.safetensors'' f} \<and>
    (\<forall>f c header t n. map_of (md_files md) f = Some c \<longrightarrow> ends_with ''.safetensors'' f \<longrightarrow>
       read_safetensors_header loads c = Inr (JObj header) \<longrightarrow> t \<in> set (tensor_names header) \<longrightarrow> tensor_layer t = Some n \<longrightarrow>
       in_ranges (sm_layer_coverage man) (int n))"
proof -
  have mem: "(f, c) \<in> set (md_files md) \<longleftrightarrow> map_of (md_files md) f = Some c" for f c
    using assms(1) by (simp add: well_keyed_def map_of_eq_Some_iff)
  have "list_all (\<lambda>(_, c). good_shard loads c) (shard_files (md_files md))"
    using assms(3) mem by (auto simp: list_all_iff shard_files_members)
  then obtain entries where e: "index_files loads sha m (shard_files (md_files md)) = Inr entries"
    "map sf_filename entries = map fst (shard_files (md_files md))"
    "\<forall>f c header. (f, c) \<in> set (shard_files (md_files md)) \<longrightarrow> read_safetensors_header loads c = Inr (JObj header) \<longrightarrow>
       (\<exists>e \<in> set entries. sf_filename e = f \<and> sf_layer_range e = layer_range_of header)"
    using index_good_files [of loads "shard_files (md_files md)" sha m] by blast
  let ?man = "manifest_of m entries"
  let ?dir = "dset (safe_name m) (md\<lparr>md_manifest := ManifestFile ?man\<rparr>) dir"
  have i: "index_shards loads sha m dir = (Inr ?man, ?dir)" using e(1) assms(2) by (simp add: index_shards_def Let_def)
  have man: "sm_files ?man = entries" by (simp add: manifest_of_def Let_def)
  have names: "sf_filename ` set entries = {f \<in> set (dkeys (md_files md)). ends_with ''.safetensors'' f}"
  proof -
    have "sf_filename ` set entries = fst ` set (shard_files (md_files md))" using e(2) by (metis set_map)
    then show ?thesis by (auto simp: shard_files_members image_iff)
  qed
  have cov: "in_ranges (sm_layer_coverage ?man) (int n)"
    if t: "map_of (md_files md) f = Some c" "ends_with ''.safetensors'' f"
      "read_safetensors_header loads c = Inr (JObj header)" "t \<in> set (tensor_names header)" "tensor_layer t = Some n"
    for f c header t n
  proof -
    have "(f, c) \<in> set (shard_files (md_files md))" using t(1,2) mem by (simp add: shard_files_members)
    then obtain x where x: "x \<in> set entries" "sf_layer_range x = layer_range_of header" using e(3) t(3) by blast
    have "in_ranges (filter (\<lambda>r. 0 \<le> fst r) (map sf_layer_range entries)) (int n)"
      using tensor_in_range [OF t(4,5)] x unfolding in_ranges_def
      by (cases "layer_range_of header") (auto intro!: bexI [of _ x])
    then show ?thesis using manifest_coverage_exact by blast
  qed
  show ?thesis using i man names cov
    by (intro exI [of _ ?man] exI [of _ ?dir]) (auto simp: load_shard_manifest_def model_dir_of_def)
qed


subsection \<open>Downloads in progress\<close>

definition tasks :: "shard_api \<Rightarrow> string list" where
  "tasks s = map dr_model_id (sa_scheduled s @ sa_running s)"

definition tracked :: "shard_api \<Rightarrow> bool" where
  "tracked s \<longleftrightarrow> distinct (tasks s)
     \<and> (\<forall>r \<in> set (sa_scheduled s). download_status (dr_model_id r) s = Some Starting)
     \<and> (\<forall>r \<in> set (sa_running s). download_status (dr_model_id r) s = Some (Downloading (dr_layer_start r) (dr_layer_end r)))
     \<and> (\<forall>m d. download_status m s = Some d \<longrightarrow> \<not> ended d \<longrightarrow> m \<in> set (tasks s))"

lemma distinct_remove1_image:
  assumes "distinct (map f xs)" "x \<in> set xs"
  shows "set (map f (remove1 x xs)) = set (map f xs) - {f x}" "set (remove1 x xs) = set xs - {x}"
    "distinct (map f (remove1 x xs))"
proof -
  have d: "distinct xs" "inj_on f (set xs)" using assms(1) by (auto simp: distinct_map)
  show r: "set (remove1 x xs) = set xs - {x}" using d(1) by simp
  show "set (map f (remove1 x xs)) = set (map f xs) - {f x}" using d(2) assms(2) r by (auto simp: inj_on_def)
  show "distinct (map f (remove1 x xs))"
    using d r by (auto simp: distinct_map distinct_remove1 intro: inj_on_subset)
qed

lemma tracked_request:
  assumes "tracked s"
  shows "tracked (snd (download_shards req s))"
proof (cases "dr_model_id req \<in> set (dkeys (sa_active s))")
  case False
  then have "map_of (sa_active s) (dr_model_id req) = None" by (simp add: map_of_eq_None_iff)
  then have "dr_model_id req \<notin> set (tasks s)"
    using assms unfolding tracked_def tasks_def download_status_def by fastforce
  then show ?thesis
    using False assms
    by (auto simp: tracked_def download_shards_def download_status_def tasks_def split: if_splits) (metis imageI)
qed (use assms in \<open>simp add: download_shards_def\<close>)

lemma tracked_begin:
  assumes "tracked s" "req \<in> set (sa_scheduled s)"
  shows "tracked (begin_download req s)"
proof -
  have d: "distinct (map dr_model_id (sa_scheduled s))" "distinct (map dr_model_id (sa_running s))"
    "set (map dr_model_id (sa_scheduled s)) \<inter> set (map dr_model_id (sa_running s)) = {}"
    using assms(1) by (auto simp: tracked_def tasks_def)
  note r = distinct_remove1_image [OF d(1) assms(2)]
  have "\<forall>x \<in> set (sa_running s). dr_model_id x \<noteq> dr_model_id req" using assms(2) d(3) by auto
  moreover have "dr_model_id x \<noteq> dr_model_id req" if "x \<in> set (remove1 req (sa_scheduled s))" for x
    using that r(1) by force
  ultimately show ?thesis
    using assms(1) r(1,3) d unfolding tracked_def
    by (auto simp: begin_download_def tasks_def download_status_def ended_def split: if_splits dest: notin_set_remove1)
qed

lemma tracked_finish:
  assumes "tracked s" "req \<in> set (sa_running s)"
  shows "tracked (finish_download loads sha hb req s)"
proof -
  obtain r0 dir where f: "finish_download loads sha hb req s = s\<lparr>sa_dir := dir,
      sa_active := dset (dr_model_id req) (end_status r0) (sa_active s), sa_running := remove1 req (sa_running s)\<rparr>"
    by (auto simp: finish_download_def case_prod_unfold Let_def)
  have e: "ended (end_status r0)" by (auto simp: ended_def end_status_def split: sum.splits)
  have d: "distinct (map dr_model_id (sa_scheduled s))" "distinct (map dr_model_id (sa_running s))"
    "set (map dr_model_id (sa_scheduled s)) \<inter> set (map dr_model_id (sa_running s)) = {}"
    using assms(1) by (auto simp: tracked_def tasks_def)
  note r = distinct_remove1_image [OF d(2) assms(2)]
  have "\<forall>x \<in> set (sa_scheduled s). dr_model_id x \<noteq> dr_model_id req" using assms(2) d(3) by auto
  moreover have "dr_model_id x \<noteq> dr_model_id req" if "x \<in> set (remove1 req (sa_running s))" for x
    using that r(1) by force
  ultimately show ?thesis
    using assms(1) r(1,3) d e unfolding tracked_def f
    by (auto simp: tasks_def download_status_def split: if_splits dest: notin_set_remove1)
qed

lemma tracked_clear: "tracked s \<Longrightarrow> \<forall>d. download_status m s = Some d \<longrightarrow> ended d \<Longrightarrow> tracked (clear_download_status m s)"
  by (auto simp: tracked_def clear_download_status_def download_status_def tasks_def ended_def split: if_splits)

lemma tracked_dir: "tracked (s\<lparr>sa_dir := dir\<rparr>) = tracked s"
  by (simp add: tracked_def tasks_def download_status_def)

lemma orderly_tracked: "api_reach loads sha hb orderly s \<Longrightarrow> orderly \<Longrightarrow> tracked s"
proof (induction rule: api_reach.induct)
  case (at_start dir)
  then show ?case by (simp add: tracked_def initial_api_def tasks_def download_status_def)
next
  case (cleared s m)
  then show ?case by (simp add: tracked_clear)
qed (simp_all add: tracked_request tracked_begin tracked_finish tracked_dir shard_status_def remove_model_shards_def
      generate_config_def case_prod_unfold Let_def)

section \<open>Properties\<close>

text \<open>
  What the range download relies on: the index names flat safetensors files, each file holds the tensors the index gives it,
  every safetensors file of the hub has a header that can be described, and the files already present are the hub's.
\<close>

definition faithful_hub :: "(bytes \<Rightarrow> json option) \<Rightarrow> hub \<Rightarrow> string \<Rightarrow> (string, string) dict \<Rightarrow> bool" where
  "faithful_hub loads hb model_id weight_map \<longleftrightarrow>
     flat_files (map snd weight_map) \<and> list_all (ends_with ''.safetensors'') (map snd weight_map)
     \<and> (\<forall>(t, f) \<in> set weight_map. \<exists>content header. hb_content hb model_id f = Some content
          \<and> read_safetensors_header loads content = Inr (JObj header) \<and> t \<in> set (tensor_names header))
     \<and> (\<forall>f content. hb_content hb model_id f = Some content \<longrightarrow> ends_with ''.safetensors'' f \<longrightarrow> good_shard loads content)"

definition agrees_with_hub :: "hub \<Rightarrow> string \<Rightarrow> model_dir \<Rightarrow> bool" where
  "agrees_with_hub hb model_id md \<longleftrightarrow>
     well_keyed (md_files md) \<and> list_all (\<lambda>(f, c). hb_content hb model_id f = Some c) (md_files md)"




text \<open>
  Library fact: An ended download blocks the next one: its status stays in the table, so a new request for the model is
  refused as already downloading, and the status page says that it is downloading, until the status is cleared.
\<close>

theorem ended_download_blocks:
  assumes "s' = finish_download loads sha hb req s" "dr_model_id again = dr_model_id req"
    "shard_status loads sha (dr_model_id req) s' = (Inr page, s2)"
  shows "download_shards again s' = (''already_downloading'', s') \<and> st_downloading page
    \<and> (\<exists>d. st_download_status page = Some d \<and> ended d)
    \<and> fst (download_shards again (clear_download_status (dr_model_id req) s')) = ''started''"
proof -
  have st: "map_of (sa_active s') (dr_model_id req) = Some (end_status (fst (download_model_shards loads sha hb
      (dr_model_id req) (dr_layer_start req) (dr_layer_end req) (sa_dir s))))"
    unfolding assms(1) by (simp add: finish_download_def case_prod_unfold Let_def)
  then have k: "dr_model_id again \<in> set (dkeys (sa_active s'))"
    using assms(2) by (auto dest: map_of_SomeD intro: rev_image_eqI)
  have e: "ended (end_status r)" for r by (auto simp: ended_def end_status_def split: sum.splits)
  show ?thesis using st k e assms(2,3)
    by (auto simp: download_shards_def clear_download_status_def shard_status_def case_prod_unfold Let_def bind_res_Inr delete_keys)
qed

text \<open>
  Library fact: A download of which nothing arrived is complete: a file that the hub does not deliver is skipped, so when it
  delivers none the task still ends as complete, with no files.
\<close>

theorem failed_fetches_are_complete:
  assumes "hb_installed hb" "hb_list hb m = Some files" "list_ex (ends_with ''.safetensors'') files"
    and "\<forall>f. hb_content hb m f = None" "md_files (model_dir_of (sa_dir s) m) = []" "flat_files files"
    and "req = \<lparr>dr_model_id = m, dr_layer_start = a, dr_layer_end = b\<rparr>"
  shows "download_status m (finish_download loads sha hb req s) = Some (Complete 0)"
proof -
  let ?st = "sort (filter (ends_with ''.safetensors'') files)"
  let ?md = "model_dir_of (sa_dir s) m"
  have st: "?st \<noteq> []"
    using assms(3) by (auto simp: list_ex_iff filter_empty_conv dest: arg_cong [of "sort _" "[]" set])
  have flat: "flat_files ?st" using assms(6) by (auto simp: flat_files_def list_all_iff)
  have t: "target_files loads hb m ?st a b ?md = (?st, ?md)"
    using assms(4) by (simp add: target_files_def resolve_files_for_layers_def read_weight_map_def fetch_index_def)
  obtain md' where f: "fetch_files hb m ?st ?md = ([], md')"
    using fetch_files_spec(2) [OF flat, of hb m ?md] assms(4,5) by (cases "fetch_files hb m ?st ?md") simp
  have "map_of (md_files md') = Map.empty"
    by (rule ext) (use fetch_files_spec(1) [OF flat f] assms(4,5) in simp)
  then have "md_files md' = []" by simp
  then have "shard_files (md_files md') = []" by (simp add: shard_files_def)
  then have i: "\<exists>man dir'. index_shards loads sha m (dset (safe_name m) md' d) = (Inr man, dir')" for d
    by (simp add: index_shards_def model_dir_of_def Let_def)
  show ?thesis
    using assms(1,2) st t f i [of "dset (safe_name m) ?md (sa_dir s)"]
    by (auto simp: finish_download_def download_status_def download_model_shards_def assms(7) end_status_def case_prod_unfold Let_def)
qed

section \<open>Sample instances\<close>

definition demo_map :: "(string, string) dict" where
  "demo_map = [(''model.embed.w'', ''a.safetensors''), (''model.layers.0.w'', ''a.safetensors''),
     (''model.layers.1.w'', ''b.safetensors''), (''lm_head.w'', ''c.safetensors'')]"

definition demo_loads :: "bytes \<Rightarrow> json option" where
  "demo_loads bs =
     map_of [([9], JObj [(''weight_map'', JObj (map (\<lambda>(t, f). (t, JStr f)) demo_map))]),
       ([1], JObj [(''model.embed.w'', JObj []), (''model.layers.0.w'', JObj [])]),
       ([2], JObj [(''model.layers.1.w'', JObj [])]), ([3], JObj [(''lm_head.w'', JObj [])])] bs"

definition demo_files :: "(string, bytes) dict" where
  "demo_files = [(INDEX_NAME, [9]), (''a.safetensors'', [1, 0, 0, 0, 0, 0, 0, 0, 1]),
     (''b.safetensors'', [1, 0, 0, 0, 0, 0, 0, 0, 2]), (''c.safetensors'', [1, 0, 0, 0, 0, 0, 0, 0, 3])]"

definition demo_hub :: hub where
  "demo_hub = \<lparr>hb_installed = True, hb_list = (\<lambda>_. Some (dkeys demo_files)), hb_content = (\<lambda>_. map_of demo_files)\<rparr>"

text \<open>The head of the model has no layer number, so a node asked for the last layer alone does not receive it.\<close>

lemma final_layer_without_head: "needed_files 1 1 demo_map = [''b.safetensors'']"
  by code_simp


lemma demo_weight_map: "read_weight_map demo_loads demo_hub ''m'' = Some demo_map"
  by code_simp

lemma demo_headers:
  "read_safetensors_header demo_loads [1, 0, 0, 0, 0, 0, 0, 0, 1] = Inr (JObj [(''model.embed.w'', JObj []), (''model.layers.0.w'', JObj [])])"
  "read_safetensors_header demo_loads [1, 0, 0, 0, 0, 0, 0, 0, 2] = Inr (JObj [(''model.layers.1.w'', JObj [])])"
  "read_safetensors_header demo_loads [1, 0, 0, 0, 0, 0, 0, 0, 3] = Inr (JObj [(''lm_head.w'', JObj [])])"
  by (simp_all add: read_safetensors_header_def demo_loads_def)

lemma demo_faithful: "faithful_hub demo_loads demo_hub ''m'' demo_map"
  unfolding faithful_hub_def
proof (intro conjI allI impI)
  show "flat_files (map snd demo_map)" "list_all (ends_with ''.safetensors'') (map snd demo_map)" by code_simp+
  show "good_shard demo_loads c" if "hb_content demo_hub ''m'' f = Some c" "ends_with ''.safetensors'' f" for f c
    using that by (auto simp: demo_hub_def demo_files_def good_shard_def demo_headers INDEX_NAME_def ends_with_def split: if_splits)
  show "\<forall>(t, f) \<in> set demo_map. \<exists>content header. hb_content demo_hub ''m'' f = Some content
      \<and> read_safetensors_header demo_loads content = Inr (JObj header) \<and> t \<in> set (tensor_names header)"
    by (simp add: demo_map_def demo_hub_def demo_files_def INDEX_NAME_def demo_headers tensor_names_def)
qed


definition demo_request :: ShardDownloadRequest where
  "demo_request = \<lparr>dr_model_id = ''m'', dr_layer_start = 1, dr_layer_end = 1\<rparr>"

definition demo_started :: shard_api where
  "demo_started = begin_download demo_request (snd (download_shards demo_request (initial_api [])))"

lemma demo_reached: "api_reach demo_loads b64encode demo_hub orderly demo_started"
  unfolding demo_started_def
  by (intro begun requested at_start) (simp add: download_shards_def initial_api_def)


text \<open>Clearing the status of a running download lets a second one for the same model start beside it.\<close>

lemma clearing_starts_second_download:
  "\<exists>s. api_reach demo_loads b64encode demo_hub False s \<and> tasks s = [''m'', ''m'']"
proof (intro exI conjI)
  show "api_reach demo_loads b64encode demo_hub False
      (snd (download_shards demo_request (clear_download_status ''m'' demo_started)))"
    by (intro requested cleared demo_reached) simp
  show "tasks (snd (download_shards demo_request (clear_download_status ''m'' demo_started))) = [''m'', ''m'']" by code_simp
qed


end
