(* ===== verification/Control_Api.thy ===== *)
theory Control_Api
  imports Updater Keyring Instances
begin

text \<open>
  The control routes of the web server over the components they drive: \<^verbatim>\<open>maestro/api_update.py\<close>,
  \<^verbatim>\<open>maestro/api_keys.py\<close>, \<^verbatim>\<open>maestro/api_instances.py\<close>, and the life cycle of the server in \<^verbatim>\<open>backend/main.py\<close>
  with the loading of the \<^verbatim>\<open>.env\<close> file in \<^verbatim>\<open>backend/orchestrator_foundry.py\<close>.  A route that raises an
  \<^verbatim>\<open>HTTPException\<close> gives its status and detail.  All components share one environment, the one of the keyring.
\<close>

section \<open>The server\<close>

record ('l, 'w, 'd) server =
  se_updater :: "'l AutoUpdater option"
  se_keyring :: keyring
  se_upd :: "'w upd_host"
  se_instances :: "'d host"

type_synonym 'a answer = "(nat \<times> string) + 'a"

definition current_updater :: "('l, 'w, 'd) server \<Rightarrow> 'l AutoUpdater" where
  "current_updater s = get_auto_updater (se_updater s) (kr_env (se_keyring s))"

definition updater_host :: "('l, 'w, 'd) server \<Rightarrow> 'w upd_host" where
  "updater_host s = (se_upd s)\<lparr>uh_environ := kr_env (se_keyring s)\<rparr>"

definition instance_host :: "('l, 'w, 'd) server \<Rightarrow> 'd host" where
  "instance_host s = (se_instances s)\<lparr>ho_environ := kr_env (se_keyring s)\<rparr>"

section \<open>Updates\<close>

text \<open>\<^term>\<open>None\<close> is the answer without git.  What the manual check or update raises is part of its answer.\<close>

definition update_check ::
  "'w updater \<Rightarrow> bool \<Rightarrow> real \<Rightarrow> ('l, 'w, 'd) server \<Rightarrow> (run_error + update_info) option \<times> ('l, 'w, 'd) server" where
  "update_check G has_git now s =
     (if \<not> has_git then (None, s)
      else (let (r, a, h) = trigger_check G now (current_updater s) (updater_host s)
            in (Some r, s\<lparr>se_updater := Some a, se_upd := h\<rparr>)))"

definition update_apply ::
  "'w updater \<Rightarrow> bool \<Rightarrow> ('l, 'w, 'd) server \<Rightarrow> (run_error + update_result) option \<times> ('l, 'w, 'd) server" where
  "update_apply G has_git s =
     (if \<not> has_git then (None, s)
      else (let (r, a, h) = trigger_apply G (current_updater s) (updater_host s)
            in (Some r, s\<lparr>se_updater := Some a, se_upd := h\<rparr>)))"

definition REMOTE_ENV_VAR :: string where
  "REMOTE_ENV_VAR = ''MAESTRO_UPDATE_REMOTE''"

definition get_remote :: "('l, 'w, 'd) server \<Rightarrow> string \<times> bool" where
  "get_remote s = (let url = py_strip (dget (kr_env (se_keyring s)) REMOTE_ENV_VAR []) in (url, url \<noteq> []))"

text \<open>Writing a setting: into the \<^verbatim>\<open>.env\<close> file, then into the environment.\<close>

definition write_setting :: "string \<Rightarrow> string \<Rightarrow> string \<Rightarrow> keyring \<Rightarrow> keyring" where
  "write_setting path var val kr =
     kr\<lparr>kr_files := dset path (upsert_env_file var val (map_of (kr_files kr) path)) (kr_files kr),
        kr_env := dset var val (kr_env kr)\<rparr>"

definition valid_text :: "string \<Rightarrow> bool" where
  "valid_text v = (1 \<le> length v \<and> length v \<le> 500)"

definition set_remote_url :: "string \<Rightarrow> ('l, 'w, 'd) server \<Rightarrow> (string \<times> bool) answer \<times> ('l, 'w, 'd) server" where
  "set_remote_url body s =
     (if \<not> valid_text body then (Inl (422, ''url''), s)
      else (let url = py_strip body; (path, kr) = default_env_path (se_keyring s)
            in (Inr (url, True), s\<lparr>se_keyring := write_setting path REMOTE_ENV_VAR url kr\<rparr>)))"

text \<open>\<^verbatim>\<open>AutoUpdater.status()\<close>.\<close>

record updater_status =
  us_enabled :: bool
  us_running :: bool
  us_poll_interval :: int
  us_auto_apply :: bool
  us_last_check :: real
  us_last_check_info :: "update_info option"
  us_last_apply :: "update_result option"
  us_consecutive_errors :: nat
  us_updates_applied :: nat

definition status_of_updater :: "'l AutoUpdater \<Rightarrow> updater_status" where
  "status_of_updater a =
     \<lparr>us_enabled = au_enabled a, us_running = au_running a, us_poll_interval = au_poll_interval a, us_auto_apply = au_auto_apply a,
      us_last_check = au_last_check a, us_last_check_info = au_last_check_info a, us_last_apply = au_last_apply a,
      us_consecutive_errors = au_consecutive_errors a, us_updates_applied = au_updates_applied a\<rparr>"

definition get_auto_status :: "('l, 'w, 'd) server \<Rightarrow> updater_status \<times> ('l, 'w, 'd) server" where
  "get_auto_status s = (status_of_updater (current_updater s), s\<lparr>se_updater := Some (current_updater s)\<rparr>)"

record AutoUpdateConfig =
  uc_enabled :: "bool option"
  uc_poll_interval :: "int option"
  uc_auto_apply :: "bool option"

definition valid_config :: "AutoUpdateConfig \<Rightarrow> bool" where
  "valid_config body = (case uc_poll_interval body of None \<Rightarrow> True | Some i \<Rightarrow> 10 \<le> i \<and> i \<le> 3600)"

definition flag_text :: "bool \<Rightarrow> string" where
  "flag_text b = (if b then ''1'' else ''0'')"

definition write_option :: "string \<Rightarrow> string \<Rightarrow> string option \<Rightarrow> keyring \<Rightarrow> keyring" where
  "write_option path var val kr = (case val of None \<Rightarrow> kr | Some v \<Rightarrow> write_setting path var v kr)"

definition persist_config :: "AutoUpdateConfig \<Rightarrow> keyring \<Rightarrow> keyring" where
  "persist_config body kr0 =
     (let (path, kr) = default_env_path kr0
      in write_option path ''MAESTRO_AUTO_APPLY_UPDATES'' (map_option flag_text (uc_auto_apply body))
          (write_option path ''MAESTRO_UPDATE_INTERVAL'' (map_option int_str (uc_poll_interval body))
             (write_option path ''MAESTRO_AUTO_UPDATE'' (map_option flag_text (uc_enabled body)) kr)))"

text \<open>The answer is taken before the background task is started.\<close>

definition configure_auto :: "AutoUpdateConfig \<Rightarrow> ('l, 'w, 'd) server \<Rightarrow> updater_status answer \<times> ('l, 'w, 'd) server" where
  "configure_auto body s =
     (if \<not> valid_config body then (Inl (422, ''poll_interval''), s)
      else
        (let a = configure_updater (uc_enabled body) (uc_poll_interval body) (uc_auto_apply body) (current_updater s);
             result = status_of_updater a
         in (Inr result,
             s\<lparr>se_updater := Some (if us_enabled result \<and> \<not> us_running result then start_updater a else a),
               se_keyring := persist_config body (se_keyring s)\<rparr>)))"

text \<open>\<^verbatim>\<open>lifespan\<close>: the updater is started with the server and stopped with it; in between it polls.\<close>

definition start_server :: "('l, 'w, 'd) server \<Rightarrow> ('l, 'w, 'd) server" where
  "start_server s = s\<lparr>se_updater := Some (start_updater (current_updater s))\<rparr>"

definition stop_server :: "('l, 'w, 'd) server \<Rightarrow> ('l, 'w, 'd) server" where
  "stop_server s = s\<lparr>se_updater := Some (stop_updater (current_updater s))\<rparr>"

definition server_polls :: "'w updater \<Rightarrow> real \<Rightarrow> ('l, 'w, 'd) server \<Rightarrow> ('l, 'w, 'd) server" where
  "server_polls G now s =
     (let (a, h) = poll_round G now (current_updater s, updater_host s) in s\<lparr>se_updater := Some a, se_upd := h\<rparr>)"

section \<open>Keys\<close>

definition unknown_provider :: "string \<Rightarrow> nat \<times> string" where
  "unknown_provider provider = (404, ''Unknown provider: '' @ provider)"

definition get_keys :: "('l, 'w, 'd) server \<Rightarrow> KeyStatus list \<times> bool" where
  "get_keys s = (let statuses = list_keys (se_keyring s) in (statuses, list_ex ks_configured statuses))"

definition update_key :: "string \<Rightarrow> string \<Rightarrow> ('l, 'w, 'd) server \<Rightarrow> KeyStatus answer \<times> ('l, 'w, 'd) server" where
  "update_key provider body s =
     (if \<not> valid_text body then (Inl (422, ''value''), s)
      else if provider \<notin> set (dkeys PROVIDERS) then (Inl (unknown_provider provider), s)
      else (case set_key provider body None (se_keyring s) of
              Inl _ \<Rightarrow> (Inl (500, []), s)
            | Inr (st, kr) \<Rightarrow> (Inr st, s\<lparr>se_keyring := kr\<rparr>)))"

definition delete_key :: "string \<Rightarrow> ('l, 'w, 'd) server \<Rightarrow> KeyStatus answer \<times> ('l, 'w, 'd) server" where
  "delete_key provider s =
     (if provider \<notin> set (dkeys PROVIDERS) then (Inl (unknown_provider provider), s)
      else (case remove_key provider None (se_keyring s) of
              Inl _ \<Rightarrow> (Inl (500, []), s)
            | Inr (st, kr) \<Rightarrow> (Inr st, s\<lparr>se_keyring := kr\<rparr>)))"

definition validate_single_key :: "(http_request \<Rightarrow> http_outcome) \<Rightarrow> string \<Rightarrow> ('l, 'w, 'd) server \<Rightarrow> KeyStatus answer" where
  "validate_single_key http provider s =
     (if provider \<notin> set (dkeys PROVIDERS) then Inl (unknown_provider provider)
      else (case validate_key http provider (se_keyring s) of Inl _ \<Rightarrow> Inl (500, []) | Inr st \<Rightarrow> Inr st))"

section \<open>Instances\<close>

record instance_list =
  il_instances :: "InstanceInfo list"
  il_healthy :: nat
  il_shards :: nat

definition list_instances :: "'d docker \<Rightarrow> ('l, 'w, 'd) server \<Rightarrow> instance_list" where
  "list_instances D s =
     (let instances = get_all_status D (instance_host s)
      in \<lparr>il_instances = instances, il_healthy = length (filter (\<lambda>i. ii_healthy i = Some True) instances),
          il_shards = length (filter (\<lambda>i. ii_role i = ''shard'') instances)\<rparr>)"

text \<open>The texts of the errors are left out: a failed command is a 500.\<close>

definition spawn_instance :: "'d docker \<Rightarrow> string \<Rightarrow> ('l, 'w, 'd) server \<Rightarrow> InstanceInfo answer \<times> ('l, 'w, 'd) server" where
  "spawn_instance D human_name s =
     (let (r, h) = spawn D human_name None (instance_host s)
      in (case r of Inl _ \<Rightarrow> Inl (500, []) | Inr info \<Rightarrow> Inr info, s\<lparr>se_instances := h\<rparr>))"

definition stop_instance_route :: "'d docker \<Rightarrow> int \<Rightarrow> ('l, 'w, 'd) server \<Rightarrow> int answer \<times> ('l, 'w, 'd) server" where
  "stop_instance_route D n s =
     (if n \<notin> set (detect_running D (instance_host s)) then (Inl (404, ''Instance '' @ int_str n @ '' is not running''), s)
      else (let (e, h) = stop_instance D n (instance_host s)
            in (case e of None \<Rightarrow> Inr n | Some _ \<Rightarrow> Inl (500, []), s\<lparr>se_instances := h\<rparr>)))"

definition stop_all_instances :: "'d docker \<Rightarrow> ('l, 'w, 'd) server \<Rightarrow> int \<times> ('l, 'w, 'd) server" where
  "stop_all_instances D s = (let (n, h) = stop_all D (instance_host s) in (n, s\<lparr>se_instances := h\<rparr>))"

section \<open>Restarting\<close>

text \<open>
  What a new server process reads: its own environment, overridden by the \<^verbatim>\<open>.env\<close> file that
  \<^verbatim>\<open>orchestrator_foundry.py\<close> names.  Parsing that file is python-dotenv's, a parameter.
\<close>

definition foundry_env_path :: "(string, string) dict \<Rightarrow> string \<Rightarrow> string" where
  "foundry_env_path environ project_root =
     (let v = dget environ ''MAESTRO_ENV_FILE'' [] in if v \<noteq> [] then v else project_root @ ''/backend/.env'')"

definition load_dotenv :: "(string \<Rightarrow> (string, string) dict) \<Rightarrow> string option \<Rightarrow> (string, string) dict \<Rightarrow> (string, string) dict" where
  "load_dotenv parse content environ =
     (case content of None \<Rightarrow> environ | Some text \<Rightarrow> fold (\<lambda>(k, v). dset k v) (parse text) environ)"

definition restart_process ::
  "(string \<Rightarrow> (string, string) dict) \<Rightarrow> (string, string) dict \<Rightarrow> ('l, 'w, 'd) server \<Rightarrow> ('l, 'w, 'd) server" where
  "restart_process parse environ s =
     (let kr = se_keyring s; path = foundry_env_path environ (kr_project_root kr)
      in start_server (s\<lparr>se_updater := None,
           se_keyring := kr\<lparr>kr_env := load_dotenv parse (map_of (kr_files kr) path) environ\<rparr>\<rparr>))"

section \<open>Runs of the server\<close>

datatype server_op =
    Checked bool real | Applied bool | RemoteSet string | Configured AutoUpdateConfig | StatusRead
  | KeySet string string | KeyDeleted string | Spawned string | Stopped int | AllStopped | Polled real | Started | ShutDown

definition server_step ::
  "'w updater \<Rightarrow> 'd docker \<Rightarrow> server_op \<Rightarrow> ('l, 'w, 'd) server \<Rightarrow> ('l, 'w, 'd) server" where
  "server_step G D e s =
     (case e of
        Checked has_git now \<Rightarrow> snd (update_check G has_git now s)
      | Applied has_git \<Rightarrow> snd (update_apply G has_git s)
      | RemoteSet url \<Rightarrow> snd (set_remote_url url s)
      | Configured body \<Rightarrow> snd (configure_auto body s)
      | StatusRead \<Rightarrow> snd (get_auto_status s)
      | KeySet provider val \<Rightarrow> snd (update_key provider val s)
      | KeyDeleted provider \<Rightarrow> snd (delete_key provider s)
      | Spawned name \<Rightarrow> snd (spawn_instance D name s)
      | Stopped n \<Rightarrow> snd (stop_instance_route D n s)
      | AllStopped \<Rightarrow> snd (stop_all_instances D s)
      | Polled now \<Rightarrow> server_polls G now s
      | Started \<Rightarrow> start_server s
      | ShutDown \<Rightarrow> stop_server s)"

section \<open>Lemmas\<close>

named_theorems settings_simps

text \<open>The settings of an updater, and those that an environment gives to a new one.\<close>

definition updater_settings :: "'l AutoUpdater \<Rightarrow> bool \<times> int \<times> bool" where
  "updater_settings a = (au_enabled a, au_poll_interval a, au_auto_apply a)"

definition environ_settings :: "(string, string) dict \<Rightarrow> bool \<times> int \<times> bool" where
  "environ_settings environ =
     (truthy_setting (dget environ ''MAESTRO_AUTO_UPDATE'' []),
      max 10 (case py_int (dget environ ''MAESTRO_UPDATE_INTERVAL'' ''60'') of Some i \<Rightarrow> i | None \<Rightarrow> 60),
      truthy_setting (dget environ ''MAESTRO_AUTO_APPLY_UPDATES'' []))"

lemma new_updater_settings: "updater_settings (get_auto_updater None environ) = environ_settings environ"
  by (simp add: updater_settings_def environ_settings_def get_auto_updater_def new_auto_updater_def)

lemma settings_update [settings_simps]:
  "updater_settings (a\<lparr>au_running := b\<rparr>) = updater_settings a"
  "updater_settings (a\<lparr>au_last_check := t\<rparr>) = updater_settings a"
  "updater_settings (a\<lparr>au_last_check_info := i\<rparr>) = updater_settings a"
  "updater_settings (a\<lparr>au_last_apply := r\<rparr>) = updater_settings a"
  "updater_settings (a\<lparr>au_consecutive_errors := n\<rparr>) = updater_settings a"
  "updater_settings (a\<lparr>au_updates_applied := m\<rparr>) = updater_settings a"
  "updater_settings (emit_update k d a) = updater_settings a"
  "updater_settings (start_updater a) = updater_settings a"
  "updater_settings (stop_updater a) = updater_settings a"
  by (simp_all add: updater_settings_def emit_update_def start_updater_def stop_updater_def)

lemma apply_cycle_settings [settings_simps]: "updater_settings (fst (apply_cycle G info a h)) = updater_settings a"
  by (auto simp: apply_cycle_def Let_def settings_simps split: prod.splits sum.splits)

lemma do_cycle_settings [settings_simps]: "updater_settings (fst (do_cycle G now a h)) = updater_settings a"
  by (auto simp: do_cycle_def Let_def settings_simps split: prod.splits sum.splits option.splits list.splits)

lemma poll_settings [settings_simps]: "updater_settings (fst (poll_round G now (a, h))) = updater_settings a"
  by (simp add: poll_round_def settings_simps)

lemma trigger_settings [settings_simps]:
  "updater_settings (fst (snd (trigger_check G now a h))) = updater_settings a"
  "updater_settings (fst (snd (trigger_apply G a h))) = updater_settings a"
  by (auto simp: trigger_check_def trigger_apply_def Let_def settings_simps split: prod.splits sum.splits)

lemma truthy_flag [simp]: "truthy_setting (flag_text b) = b"
proof -
  have "py_strip ''1'' = ''1''" "py_strip ''0'' = ''0''" by code_simp+
  then show ?thesis by (simp add: truthy_setting_def flag_text_def)
qed

lemma write_setting_env: "kr_env (write_setting path var val kr) = dset var val (kr_env kr)"
  by (simp add: write_setting_def)

lemma write_option_env: "kr_env (write_option path var val kr) = (case val of None \<Rightarrow> kr_env kr | Some v \<Rightarrow> dset var v (kr_env kr))"
  by (simp add: write_option_def write_setting_env split: option.splits)

lemma provider_vars:
  "map_of PROVIDERS p = Some info \<Longrightarrow>
     pv_env_var info \<notin> {''MAESTRO_AUTO_UPDATE'', ''MAESTRO_UPDATE_INTERVAL'', ''MAESTRO_AUTO_APPLY_UPDATES''}"
  by (auto simp: PROVIDERS_def split: if_splits)

lemma set_key_env:
  assumes "set_key provider val path kr = Inr (st, kr')"
  shows "\<exists>info. map_of PROVIDERS provider = Some info \<and> kr_env kr' = dset (pv_env_var info) (py_strip val) (kr_env kr)"
proof -
  obtain info where i: "map_of PROVIDERS provider = Some info" using assms by (auto simp: set_key_def split: option.splits)
  let ?kr1 = "kr\<lparr>kr_env := dset (pv_env_var info) (py_strip val) (kr_env kr)\<rparr>"
  have "kr_env kr' = kr_env (snd (env_path path ?kr1))"
    using assms i by (auto simp: set_key_def Let_def case_prod_unfold)
  then show ?thesis using i by (simp add: env_path_env)
qed

lemma remove_key_env:
  assumes "remove_key provider path kr = Inr (st, kr')"
  shows "\<exists>info. map_of PROVIDERS provider = Some info \<and> kr_env kr' = ddel (pv_env_var info) (kr_env kr)"
proof -
  obtain info where i: "map_of PROVIDERS provider = Some info" using assms by (auto simp: remove_key_def split: option.splits)
  let ?kr1 = "kr\<lparr>kr_env := ddel (pv_env_var info) (kr_env kr)\<rparr>"
  have "kr_env kr' = kr_env (snd (env_path path ?kr1))"
    using assms i by (auto simp: remove_key_def Let_def case_prod_unfold split: option.splits)
  then show ?thesis using i by (simp add: env_path_env)
qed

lemma keyring_settings:
  "set_key provider val path kr = Inr (st, kr') \<Longrightarrow> environ_settings (kr_env kr') = environ_settings (kr_env kr)"
  "remove_key provider path kr = Inr (st, kr') \<Longrightarrow> environ_settings (kr_env kr') = environ_settings (kr_env kr)"
  using provider_vars [of provider]
  by (auto dest!: set_key_env remove_key_env simp: environ_settings_def dget_dset)

text \<open>The settings in use are those that the environment holds.\<close>

definition settings_written :: "('l, 'w, 'd) server \<Rightarrow> bool" where
  "settings_written s \<longleftrightarrow> updater_settings (current_updater s) = environ_settings (kr_env (se_keyring s))"

lemma current_stored: "current_updater (s\<lparr>se_updater := Some a\<rparr>) = a"
  by (simp add: current_updater_def get_auto_updater_def)

lemma unwritten_server: "se_updater s = None \<Longrightarrow> settings_written s"
  by (simp add: settings_written_def current_updater_def new_updater_settings)

lemma default_path_env: "default_env_path kr = (p, kr') \<Longrightarrow> kr_env kr' = kr_env kr"
  using default_env_path_env [of kr] by simp

lemma default_path_root: "kr_project_root (snd (default_env_path kr)) = kr_project_root kr"
  by (simp add: default_env_path_def Let_def split: list.splits)

lemma write_option_root: "kr_project_root (write_option path var val kr) = kr_project_root kr"
  by (simp add: write_option_def write_setting_def split: option.splits)

lemma configured_settings:
  assumes "valid_config body" "settings_written s"
  shows "settings_written (snd (configure_auto body s))"
proof -
  obtain p kr where d: "default_env_path (se_keyring s) = (p, kr)" by fastforce
  let ?a = "current_updater s"
  let ?b = "configure_updater (uc_enabled body) (uc_poll_interval body) (uc_auto_apply body) ?a"
  have i: "py_int (int_str i) = Some i" if "uc_poll_interval body = Some i" for i
    using assms(1) that by (intro py_int_int_str) (simp add: valid_config_def)
  have "updater_settings ?b = environ_settings (kr_env (persist_config body (se_keyring s)))"
    using assms(2) i d default_path_env [OF d] unfolding settings_written_def
    by (auto simp: persist_config_def write_option_env updater_settings_def environ_settings_def configure_updater_def Let_def
        dget_dset split: option.splits)
  then show ?thesis using assms(1)
    by (simp add: configure_auto_def settings_written_def current_stored Let_def settings_simps)
      (simp add: current_updater_def get_auto_updater_def settings_simps)
qed

lemma keyring_written:
  "settings_written s \<Longrightarrow> environ_settings (kr_env kr) = environ_settings (kr_env (se_keyring s)) \<Longrightarrow>
     settings_written (s\<lparr>se_keyring := kr\<rparr>)"
  by (cases "se_updater s") (simp_all add: settings_written_def current_updater_def new_updater_settings get_auto_updater_def [of "Some _"])

lemma updater_written:
  "settings_written s \<Longrightarrow> updater_settings a = updater_settings (current_updater s) \<Longrightarrow> settings_written (s\<lparr>se_updater := Some a, se_upd := h\<rparr>)"
  "settings_written s \<Longrightarrow> updater_settings a = updater_settings (current_updater s) \<Longrightarrow> settings_written (s\<lparr>se_updater := Some a\<rparr>)"
  by (simp_all add: settings_written_def current_updater_def get_auto_updater_def [of "Some _"])

lemma instances_written: "settings_written (s\<lparr>se_instances := h\<rparr>) = settings_written s"
  by (simp add: settings_written_def current_updater_def)

lemma remote_written: "settings_written s \<Longrightarrow> settings_written (snd (set_remote_url u s))"
  by (auto simp: set_remote_url_def Let_def case_prod_unfold write_setting_env REMOTE_ENV_VAR_def environ_settings_def dget_dset
      default_env_path_env intro!: keyring_written)

lemma keys_written:
  "settings_written s \<Longrightarrow> settings_written (snd (update_key p v s))"
  "settings_written s \<Longrightarrow> settings_written (snd (delete_key p s))"
  by (auto simp: update_key_def delete_key_def keyring_settings intro!: keyring_written split: sum.splits)

lemma updates_written:
  "settings_written s \<Longrightarrow> settings_written (snd (update_check G g t s))"
  "settings_written s \<Longrightarrow> settings_written (snd (update_apply G g s))"
  "settings_written s \<Longrightarrow> settings_written (server_polls G t s)"
  "settings_written s \<Longrightarrow> settings_written (snd (get_auto_status s))"
  "settings_written s \<Longrightarrow> settings_written (start_server s)"
  "settings_written s \<Longrightarrow> settings_written (stop_server s)"
  by (auto simp: update_check_def update_apply_def server_polls_def get_auto_status_def start_server_def stop_server_def Let_def
      case_prod_unfold settings_simps intro!: updater_written)

lemma configure_written: "settings_written s \<Longrightarrow> settings_written (snd (configure_auto body s))"
  by (cases "valid_config body") (simp add: configured_settings, simp add: configure_auto_def)

lemma step_written: "settings_written s \<Longrightarrow> settings_written (server_step G D e s)"
  by (cases e) (simp_all add: server_step_def updates_written remote_written configure_written keys_written
      spawn_instance_def stop_instance_route_def stop_all_instances_def case_prod_unfold Let_def instances_written)

lemma run_written: "settings_written s \<Longrightarrow> settings_written (fold (server_step G D) es s)"
  by (induction es arbitrary: s) (simp_all add: step_written)

subsection \<open>The file\<close>

definition plain_var :: "string \<Rightarrow> bool" where
  "plain_var key \<longleftrightarrow> key \<noteq> [] \<and> list_all (\<lambda>c. \<not> py_space c \<and> c \<noteq> CHR ''='' \<and> \<not> line_break c \<and> c \<noteq> CHR 0x0D) key"

definition clean_text :: "string \<Rightarrow> bool" where
  "clean_text text \<longleftrightarrow> plain_text text \<and> CHR 0x0D \<notin> set text"

lemma assigned_var:
  assumes "plain_var key" "assigns_key key line"
  shows "key = takeWhile (\<lambda>c. \<not> py_space c \<and> c \<noteq> CHR ''='') line"
proof -
  have l: "line = key @ drop (length key) line" using assms(2) by (metis assigns_key_def starts_with_def append_take_drop_id)
  have "starts_with ''='' (dropWhile py_space (drop (length key) line))" using assms(2) by (simp add: assigns_key_def)
  then have r: "takeWhile (\<lambda>c. \<not> py_space c \<and> c \<noteq> CHR ''='') (drop (length key) line) = []"
    by (cases "drop (length key) line") (auto simp: starts_with_def split: if_splits)
  have "takeWhile (\<lambda>c. \<not> py_space c \<and> c \<noteq> CHR ''='') (key @ drop (length key) line) = key"
    using assms(1) r by (subst takeWhile_append2) (auto simp: plain_var_def list_all_iff)
  then show ?thesis using l by simp
qed

lemma one_var: "plain_var k \<Longrightarrow> plain_var j \<Longrightarrow> assigns_key k l \<Longrightarrow> assigns_key j l \<Longrightarrow> k = j"
  using assigned_var by metis

lemma wf_plain: "wf_lines ls \<Longrightarrow> plain_text (concat ls)"
proof (induction ls)
  case (Cons l ls)
  then have l: "l \<noteq> []" "unbroken (butlast l)" "line_break (last l) \<longrightarrow> last l = newline" "wf_lines ls"
    by (auto simp: wf_lines_Cons split: if_splits)
  have "plain_text (butlast l @ [last l])" using l(2,3) by (auto simp: plain_text_def unbroken_def list_all_iff)
  then have "plain_text l" using l(1) by simp
  then show ?case using Cons.IH [OF l(4)] by (simp add: plain_text_def)
qed (simp add: plain_text_def)

lemma upsert_concat: "upsert_env_file key val content = concat (upsert_lines key val (split_lines (env_text content)))"
  by (cases content) (simp_all add: upsert_env_file_def env_text_def)

lemma clean_upsert:
  assumes "unbroken_pair key val" "CHR 0x0D \<notin> set key" "CHR 0x0D \<notin> set val" "plain_content content"
  shows "clean_text (upsert_env_file key val content)"
proof -
  have wf: "wf_lines (split_lines (env_text content))" "concat (split_lines (env_text content)) = env_text content"
    using assms(4) wf_split_lines by (simp_all add: plain_content_def)
  have "CHR 0x0D \<notin> set (env_text content)" by (cases content) (simp_all add: env_text_def no_return_universal)
  then show ?thesis unfolding clean_text_def upsert_concat
    using assms(2,3) wf by (intro conjI wf_plain wf_upsert assms(1) no_return_upsert) simp_all
qed

lemma clean_content: "clean_text text \<Longrightarrow> plain_content (Some text) \<and> env_text (Some text) = text"
  by (simp add: clean_text_def plain_content_def env_text_def universal_newlines_id)


lemma filter_replace:
  "(\<And>l. l \<in> set ls \<Longrightarrow> Q l \<Longrightarrow> \<not> P l) \<Longrightarrow> \<not> P r \<Longrightarrow> filter P (map (\<lambda>l. if Q l then r else l) ls) = filter P ls"
  by (induction ls) auto

lemma upsert_keeps_other:
  assumes "plain_var k" "plain_var j" "k \<noteq> j" "unbroken_pair j w" "clean_text text"
    and "assignments k text = replicate n (assignment k v)"
  shows "assignments k (upsert_env_file j w (Some text)) = replicate n (assignment k v)"
proof -
  let ?ls = "split_lines text"
  have a: "filter (assigns_key k) ?ls = replicate n (assignment k v)" using assms(6) by (simp add: assignments_def)
  have no: "\<not> assigns_key k (assignment j w)" using one_var [OF assms(1,2) _ assigns_assignment] assms(3) by blast
  have up: "split_lines (upsert_env_file j w (Some text)) = upsert_lines j w ?ls"
    using upsert_text_lines [OF assms(4)] clean_content [OF assms(5)] by simp
  have "filter (assigns_key k) (upsert_lines j w ?ls) = filter (assigns_key k) ?ls"
  proof (cases "list_ex (assigns_key j) ?ls")
    case True
    then show ?thesis
      unfolding upsert_lines_def if_P [OF True] using no one_var [OF assms(1,2)] assms(3) by (intro filter_replace) blast+
  next
    case False
    show ?thesis
    proof (cases "?ls \<noteq> [] \<and> last (last ?ls) \<noteq> newline")
      case open_end: True
      have "\<not> assigns_key k (last ?ls)"
      proof
        assume "assigns_key k (last ?ls)"
        then have "last ?ls \<in> set (filter (assigns_key k) ?ls)" using open_end by simp
        then show False using open_end unfolding a by (simp add: assignment_def split: if_splits)
      qed
      moreover have "newline \<notin> set k" using assms(1) line_break_newline unfolding plain_var_def list_all_iff by blast
      ultimately have "\<not> assigns_key k (last ?ls @ [newline])" "\<not> assigns_key k (last ?ls)" by (simp_all add: assigns_snoc)
      then have "filter (assigns_key k) (butlast ?ls @ [last ?ls @ [newline]]) = filter (assigns_key k) (butlast ?ls @ [last ?ls])"
        by simp
      also have "\<dots> = filter (assigns_key k) ?ls" by (rule arg_cong [OF append_butlast_last_id]) (use open_end in simp)
      finally have "filter (assigns_key k) (butlast ?ls @ [last ?ls @ [newline]]) = filter (assigns_key k) ?ls" .
      moreover have "upsert_lines j w ?ls = (butlast ?ls @ [last ?ls @ [newline]]) @ [assignment j w]"
        using False open_end by (simp add: upsert_lines_def)
      ultimately show ?thesis using no by (simp only: filter_append) simp
    next
      case closed: False
      then show ?thesis using False no by (auto simp: upsert_lines_def)
    qed
  qed
  then show ?thesis unfolding assignments_def up a .
qed

lemma upsert_assigns:
  assumes "unbroken_pair key val" "plain_content content"
  shows "\<exists>n. assignments key (upsert_env_file key val content) = replicate (Suc n) (assignment key val)"
  unfolding assignments_def upsert_text_lines [OF assms] upsert_filter(1) [OF assms(1)]
  by (intro exI [of _ "max 1 (length (filter (assigns_key key) (split_lines (env_text content)))) - 1"]) simp

text \<open>A file holds a setting when it assigns the variable, and always that value.\<close>

definition file_holds :: "string \<Rightarrow> string \<Rightarrow> string \<Rightarrow> bool" where
  "file_holds text key val \<longleftrightarrow> clean_text text \<and> (\<exists>n. assignments key text = replicate (Suc n) (assignment key val))"

definition plain_value :: "string \<Rightarrow> bool" where
  "plain_value val \<longleftrightarrow> val \<noteq> [] \<and> list_all is_digit val"

lemma digit_unbroken: "is_digit c \<Longrightarrow> \<not> line_break c \<and> c \<noteq> CHR 0x0D"
  by (auto simp: is_digit_def line_break_def Let_def)

lemma plain_value_unbroken: "plain_var key \<Longrightarrow> plain_value val \<Longrightarrow> unbroken_pair key val \<and> CHR 0x0D \<notin> set key \<and> CHR 0x0D \<notin> set val"
  unfolding plain_var_def plain_value_def unbroken_pair_def unbroken_def list_all_iff using digit_unbroken by blast

lemma write_setting_holds:
  assumes "plain_var key" "plain_value val" "plain_content (map_of (kr_files kr) path)"
  shows "\<exists>text. map_of (kr_files (write_setting path key val kr)) path = Some text \<and> file_holds text key val \<and>
    (\<forall>k v old. map_of (kr_files kr) path = Some old \<longrightarrow> file_holds old k v \<longrightarrow> plain_var k \<longrightarrow> k \<noteq> key \<longrightarrow> file_holds text k v)"
proof -
  let ?text = "upsert_env_file key val (map_of (kr_files kr) path)"
  note u = plain_value_unbroken [OF assms(1,2)]
  have c: "clean_text ?text" using clean_upsert u assms(3) by blast
  then have "file_holds ?text key val" using upsert_assigns u assms(3) by (simp add: file_holds_def)
  moreover have "file_holds ?text k v" if "map_of (kr_files kr) path = Some old" "file_holds old k v" "plain_var k" "k \<noteq> key" for k v old
    using that c upsert_keeps_other [OF that(3) assms(1) that(4)] u unfolding file_holds_def by fastforce
  ultimately show ?thesis by (simp add: write_setting_def)
qed

lemma setting_vars:
  "plain_var ''MAESTRO_AUTO_UPDATE''" "plain_var ''MAESTRO_UPDATE_INTERVAL''" "plain_var ''MAESTRO_AUTO_APPLY_UPDATES''"
  by code_simp+

lemma plain_values: "plain_value (flag_text b)" "0 \<le> i \<Longrightarrow> plain_value (int_str i)"
  using nat_str_digits [of "nat i"] by (simp_all add: plain_value_def flag_text_def int_str_def is_digit_def)

lemma file_holds_plain: "file_holds text k v \<Longrightarrow> map_of fs p = Some text \<Longrightarrow> plain_content (map_of fs p)"
  by (simp add: file_holds_def clean_content)

lemma persisted_file:
  assumes "default_env_path kr0 = (path, kr)" "plain_content (map_of (kr_files kr) path)" "10 \<le> i"
    and "body = \<lparr>uc_enabled = Some b, uc_poll_interval = Some i, uc_auto_apply = Some c\<rparr>"
  shows "\<exists>text. map_of (kr_files (persist_config body kr0)) path = Some text
    \<and> file_holds text ''MAESTRO_AUTO_UPDATE'' (flag_text b) \<and> file_holds text ''MAESTRO_UPDATE_INTERVAL'' (int_str i)
    \<and> file_holds text ''MAESTRO_AUTO_APPLY_UPDATES'' (flag_text c)"
proof -
  define k1 where "k1 = write_setting path ''MAESTRO_AUTO_UPDATE'' (flag_text b) kr"
  define k2 where "k2 = write_setting path ''MAESTRO_UPDATE_INTERVAL'' (int_str i) k1"
  define k3 where "k3 = write_setting path ''MAESTRO_AUTO_APPLY_UPDATES'' (flag_text c) k2"
  have k3: "persist_config body kr0 = k3"
    using assms(1,4) by (simp add: persist_config_def write_option_def k1_def k2_def k3_def)
  obtain t1 where t1: "map_of (kr_files k1) path = Some t1" "file_holds t1 ''MAESTRO_AUTO_UPDATE'' (flag_text b)"
    using write_setting_holds [OF setting_vars(1) plain_values(1) [of b] assms(2)] unfolding k1_def by blast
  have i: "plain_value (int_str i)" using assms(3) by (intro plain_values) simp
  obtain t2 where t2: "map_of (kr_files k2) path = Some t2" "file_holds t2 ''MAESTRO_UPDATE_INTERVAL'' (int_str i)"
    and old2: "\<forall>k v old. map_of (kr_files k1) path = Some old \<longrightarrow> file_holds old k v \<longrightarrow> plain_var k \<longrightarrow>
      k \<noteq> ''MAESTRO_UPDATE_INTERVAL'' \<longrightarrow> file_holds t2 k v"
    using write_setting_holds [OF setting_vars(2) i file_holds_plain [OF t1(2,1)]] unfolding k2_def by (elim exE conjE)
  have t2': "file_holds t2 ''MAESTRO_AUTO_UPDATE'' (flag_text b)" by (rule old2 [rule_format, OF t1 setting_vars(1)]) simp
  obtain t3 where t3: "map_of (kr_files k3) path = Some t3" "file_holds t3 ''MAESTRO_AUTO_APPLY_UPDATES'' (flag_text c)"
    and old3: "\<forall>k v old. map_of (kr_files k2) path = Some old \<longrightarrow> file_holds old k v \<longrightarrow> plain_var k \<longrightarrow>
      k \<noteq> ''MAESTRO_AUTO_APPLY_UPDATES'' \<longrightarrow> file_holds t3 k v"
    using write_setting_holds [OF setting_vars(3) plain_values(1) [of c] file_holds_plain [OF t2(2,1)]] unfolding k3_def
    by (elim exE conjE)
  have "file_holds t3 ''MAESTRO_AUTO_UPDATE'' (flag_text b)" by (rule old3 [rule_format, OF t2(1) t2' setting_vars(1)]) simp
  moreover have "file_holds t3 ''MAESTRO_UPDATE_INTERVAL'' (int_str i)" by (rule old3 [rule_format, OF t2 setting_vars(2)]) simp
  moreover note t3
  ultimately show ?thesis unfolding k3 by blast
qed

section \<open>Properties\<close>

text \<open>
  Library fact: The settings of the updater are never lost: whatever requests and background rounds the server goes through, the
  settings in use are those that the environment of the process holds, so that an updater created anew in it has them.
\<close>

theorem updater_settings_written:
  assumes "se_updater s = None" "s' = fold (server_step G D) es s"
  shows "updater_settings (current_updater s') = updater_settings (current_updater (s'\<lparr>se_updater := None\<rparr>))"
  using run_written [OF unwritten_server [OF assms(1)], of G D es] unfolding assms(2) [symmetric]
  by (simp add: settings_written_def current_updater_def new_updater_settings)

text \<open>
  The parser of the \<^verbatim>\<open>.env\<close> file as documented: a dictionary in which a variable that is only ever assigned one plain
  value has that value.
\<close>

definition parses_assignments :: "(string \<Rightarrow> (string, string) dict) \<Rightarrow> bool" where
  "parses_assignments parse \<longleftrightarrow> (\<forall>text. well_keyed (parse text) \<and>
     (\<forall>key val. plain_var key \<longrightarrow> plain_value val \<longrightarrow> file_holds text key val \<longrightarrow> map_of (parse text) key = Some val))"

lemma fold_dset_lookup:
  "well_keyed new \<Longrightarrow> map_of (fold (\<lambda>(k, v). dset k v) new d) k = (case map_of new k of None \<Rightarrow> map_of d k | Some v \<Rightarrow> Some v)"
proof (induction new arbitrary: d)
  case (Cons e new)
  obtain a v where e: "e = (a, v)" by (cases e)
  have a: "map_of new a = None" "well_keyed new" using Cons.prems e by (auto simp: well_keyed_def map_of_eq_None_iff)
  then show ?case using Cons.IH [OF a(2)] e by (auto split: option.splits)
qed simp


text \<open>
  Library fact: A key route never half applies: for an unknown provider every one of them answers 404 and nothing changes, and
  after a key was stored the list of keys shows its provider as configured exactly when the stripped value is not a placeholder.
\<close>

theorem key_routes_sound:
  "(provider \<notin> set (dkeys PROVIDERS) \<and> valid_text body \<longrightarrow>
      update_key provider body s = (Inl (unknown_provider provider), s) \<and> delete_key provider s = (Inl (unknown_provider provider), s)
      \<and> validate_single_key http provider s = Inl (unknown_provider provider))
   \<and> (update_key provider body s = (Inr st, s') \<longrightarrow>
      (\<exists>k \<in> set (fst (get_keys s')). ks_provider k = provider \<and> ks_configured k = is_configured (py_strip body)))"
proof (intro conjI impI)
  assume u: "update_key provider body s = (Inr st, s')"
  then have sk: "set_key provider body None (se_keyring s) = Inr (st, se_keyring s')"
    by (auto simp: update_key_def split: if_splits sum.splits)
  obtain info where i: "map_of PROVIDERS provider = Some info" "kr_env (se_keyring s') = dset (pv_env_var info) (py_strip body) (kr_env (se_keyring s))"
    using set_key_env [OF sk] by blast
  then have "(provider, info) \<in> set PROVIDERS" by (simp add: map_of_SomeD)
  then show "\<exists>k \<in> set (fst (get_keys s')). ks_provider k = provider \<and> ks_configured k = is_configured (py_strip body)"
    unfolding get_keys_def Let_def fst_conv list_keys_def set_map
    by (rule rev_bexI [OF imageI]) (simp add: i(2) dget_dset Let_def)
qed (simp_all add: update_key_def delete_key_def validate_single_key_def)

text \<open>
  Library fact: The stop route acts on running instances only: otherwise it answers 404 and nothing changes, so an instance that is
  registered but does not run cannot be taken out of the registry through the routes that name it.
\<close>

theorem stop_route_guarded:
  "n \<notin> set (detect_running D (instance_host s)) \<Longrightarrow>
     stop_instance_route D n s = (Inl (404, ''Instance '' @ int_str n @ '' is not running''), s)"
  "stop_instance_route D n s = (Inr m, s') \<Longrightarrow> ho_writable (se_instances s) \<Longrightarrow>
     m = n \<and> n \<in> set (detect_running D (instance_host s)) \<and> n \<notin> set (dkeys (ho_registry (se_instances s')))"
proof -
  show "n \<notin> set (detect_running D (instance_host s)) \<Longrightarrow>
     stop_instance_route D n s = (Inl (404, ''Instance '' @ int_str n @ '' is not running''), s)"
    by (simp add: stop_instance_route_def)
  assume a: "stop_instance_route D n s = (Inr m, s')" "ho_writable (se_instances s)"
  then have "stop_instance D n (instance_host s) = (None, se_instances s')" "m = n" "n \<in> set (detect_running D (instance_host s))"
    by (auto simp: stop_instance_route_def case_prod_unfold Let_def split: if_splits option.splits intro: prod_eqI)
  moreover from this have "dk_compose_found D (ho_docker (instance_host s))" by (auto simp: stop_instance_def split: if_splits)
  ultimately have "map_of (ho_registry (se_instances s')) n = None" "m = n" "n \<in> set (detect_running D (instance_host s))"
    using stop_registry [of D n "instance_host s"] a(2) by (auto simp: instance_host_def)
  then show "m = n \<and> n \<in> set (detect_running D (instance_host s)) \<and> n \<notin> set (dkeys (ho_registry (se_instances s')))"
    by (simp add: map_of_eq_None_iff)
qed

section \<open>Sample instances\<close>

text \<open>A parser of the kind assumed: the last assignment of a variable counts.\<close>

definition simple_parse_line :: "string \<Rightarrow> (string, string) dict \<Rightarrow> (string, string) dict" where
  "simple_parse_line l d =
     (let k = takeWhile (\<lambda>c. \<not> py_space c \<and> c \<noteq> CHR ''='') l
      in if assigns_key k l then dset k (py_strip (drop 1 (dropWhile (\<lambda>c. c \<noteq> CHR ''='') l))) d else d)"

definition simple_parse :: "string \<Rightarrow> (string, string) dict" where
  "simple_parse content = fold simple_parse_line (split_lines content) []"

lemma simple_parse_assignment:
  assumes "plain_var key" "plain_value val"
  shows "simple_parse_line (assignment key val) d = dset key val d"
proof -
  have k: "takeWhile (\<lambda>c. \<not> py_space c \<and> c \<noteq> CHR ''='') (assignment key val) = key"
    using assigned_var [OF assms(1) assigns_assignment] by simp
  have "\<forall>c \<in> set key. c \<noteq> CHR ''=''" using assms(1) unfolding plain_var_def list_all_iff by blast
  then have "dropWhile (\<lambda>c. c \<noteq> CHR ''='') (assignment key val) = ''='' @ val @ [newline]"
    by (simp add: assignment_def dropWhile_append2)
  moreover have "py_strip (val @ [newline]) = val"
  proof -
    have v: "val \<noteq> []" "\<forall>c \<in> set val. \<not> py_space c" using assms(2) digit_no_space unfolding plain_value_def list_all_iff by blast+
    then have "dropWhile py_space (val @ [newline]) = val @ [newline]" by (cases val) auto
    moreover have "dropWhile py_space (rev val) = rev val" unfolding dropWhile_eq_self_iff using v by (auto simp: hd_rev)
    ultimately show ?thesis by (simp add: py_strip_def py_space_newline)
  qed
  ultimately show ?thesis using k by (simp add: simple_parse_line_def assigns_assignment)
qed

lemma simple_parse_lines:
  assumes "plain_var key" "plain_value val" "\<forall>l \<in> set ls. assigns_key key l \<longrightarrow> l = assignment key val"
  shows "map_of (fold simple_parse_line ls d) key = (if list_ex (assigns_key key) ls then Some val else map_of d key)"
  using assms(3)
proof (induction ls arbitrary: d)
  case (Cons l ls)
  show ?case
  proof (cases "assigns_key key l")
    case True
    then have "simple_parse_line l d = dset key val d" using simple_parse_assignment [OF assms(1,2)] Cons.prems by simp
    then show ?thesis using Cons True by simp
  next
    case False
    then have "map_of (simple_parse_line l d) key = map_of d key" by (auto simp: simple_parse_line_def Let_def)
    then show ?thesis using Cons False by simp
  qed
qed simp

lemma simple_parse_documented: "parses_assignments simple_parse"
  unfolding parses_assignments_def
proof (intro allI conjI impI)
  fix content
  have "well_keyed d \<Longrightarrow> well_keyed (fold simple_parse_line ls d)" for ls d
    by (induction ls arbitrary: d) (simp_all add: simple_parse_line_def Let_def)
  then show "well_keyed (simple_parse content)" by (simp add: simple_parse_def)
  fix key val
  assume a: "plain_var key" "plain_value val" "file_holds content key val"
  then obtain n where n: "filter (assigns_key key) (split_lines content) = replicate (Suc n) (assignment key val)"
    by (auto simp: file_holds_def assignments_def)
  have "l = assignment key val" if "l \<in> set (split_lines content)" "assigns_key key l" for l
  proof -
    have "l \<in> set (replicate (Suc n) (assignment key val))" unfolding n [symmetric] using that by simp
    then show ?thesis by (auto simp: in_set_replicate)
  qed
  moreover have "list_ex (assigns_key key) (split_lines content)"
  proof -
    have "assignment key val \<in> set (filter (assigns_key key) (split_lines content))" unfolding n by simp
    then show ?thesis by (auto simp: list_ex_iff)
  qed
  ultimately show "map_of (simple_parse content) key = Some val"
    using simple_parse_lines [OF a(1,2), of "split_lines content" "[]"] by (simp add: simple_parse_def)
qed

definition demo_body :: AutoUpdateConfig where
  "demo_body = \<lparr>uc_enabled = Some True, uc_poll_interval = Some 30, uc_auto_apply = Some False\<rparr>"

definition demo_server :: "(string, string) dict \<Rightarrow> (string, string) dict \<Rightarrow> (nat, unit, (string \<times> (string, string) dict) list) server" where
  "demo_server environ files =
     \<lparr>se_updater = None, se_keyring = \<lparr>kr_env = environ, kr_files = files, kr_cwd = ''/r'', kr_project_root = ''/r''\<rparr>,
      se_upd = host_at environ (), se_instances = empty_host\<rparr>"

lemma configured_demo:
  "current_updater (snd (configure_auto demo_body s)) = (let a = configure_updater (Some True) (Some 30) (Some False) (current_updater s)
     in if au_running a then a else start_updater a)"
  by (simp add: configure_auto_def demo_body_def valid_config_def Let_def current_stored status_of_updater_def configure_updater_def)
    (simp add: current_updater_def get_auto_updater_def [of "Some _"])

lemma updater_settings_written_witness:
  "updater_settings (current_updater ((fold (server_step (scripted True [] (\<lambda>_. None)) willing_docker)
     [Started, Configured demo_body] (demo_server [] []))\<lparr>se_updater := None\<rparr>)) = (True, 30, False)"
proof -
  let ?G = "scripted True [] (\<lambda>_. None)" let ?s = "demo_server [] []"
  have "updater_settings (current_updater (fold (server_step ?G willing_docker) [Started, Configured demo_body] ?s)) = (True, 30, False)"
    by (simp add: server_step_def configured_demo Let_def settings_simps) (simp add: updater_settings_def configure_updater_def)
  then show ?thesis
    using updater_settings_written [of ?s "fold (server_step ?G willing_docker) [Started, Configured demo_body] ?s" ?G willing_docker
        "[Started, Configured demo_body]"] by (simp add: demo_server_def)
qed



text \<open>
  Without \<^verbatim>\<open>MAESTRO_ENV_FILE\<close> the settings can be written to a file that no server loads: the \<^verbatim>\<open>.env\<close> file of the project,
  which the set-up creates, is preferred over the one of the backend that does not exist yet.
\<close>

lemma settings_lost_in_project_file:
  "updater_settings (current_updater (restart_process parse [] (snd (configure_auto demo_body (demo_server [] [(''/r/.env'', [])])))))
     = (False, 60, False)"
proof -
  let ?s = "demo_server [] [(''/r/.env'', [])]"
  let ?kr = "se_keyring (snd (configure_auto demo_body ?s))"
  have st: "py_strip [] = []" by (simp add: py_strip_def)
  have d: "default_env_path (se_keyring ?s) = (''/r/.env'', se_keyring ?s)"
    by (simp add: default_env_path_def demo_server_def dget_def st Let_def)
  have kr: "?kr = persist_config demo_body (se_keyring ?s)"
    by (simp add: configure_auto_def demo_body_def valid_config_def Let_def)
  have "map_of (kr_files ?kr) ''/r/backend/.env'' = None"
    unfolding kr persist_config_def d by (simp add: write_option_def write_setting_def demo_body_def demo_server_def)
  moreover have "kr_project_root ?kr = ''/r''"
    unfolding kr persist_config_def d by (simp add: write_option_root) (simp add: demo_server_def)
  moreover have "py_int ''60'' = Some 60" "\<not> truthy_setting []" by code_simp+
  ultimately show ?thesis
    by (simp add: restart_process_def Let_def foundry_env_path_def load_dotenv_def dget_def start_server_def current_stored settings_simps)
      (simp add: current_updater_def new_updater_settings environ_settings_def dget_def)
qed

end
