(* ===== verification/Web_Clients.thy ===== *)
theory Web_Clients
  imports Orchestrator Py_Codec
begin

text \<open>
  How an orchestration reaches its clients: the two \<^verbatim>\<open>/api/ask\<close> routes of \<^verbatim>\<open>backend/main.py\<close>, the text of a server-sent
  event (\<^verbatim>\<open>_sse_event\<close> in \<^verbatim>\<open>orchestrator.py\<close>) and the two readers of it in \<^verbatim>\<open>maestro/tui/backend.py\<close>: the one that runs the
  stream in the same process and parses each event, and the one that reads the lines of an HTTP response.
  What \<^verbatim>\<open>json.dumps\<close> prints for the data of an event, what \<^verbatim>\<open>json.loads\<close> reads back, and the lines that httpx makes of a
  body are parameters.
\<close>

section \<open>Events as text\<close>

definition sse_event :: "string \<Rightarrow> string \<Rightarrow> string" where
  "sse_event event payload = ''event: '' @ event @ [newline] @ ''data: '' @ payload @ [newline, newline]"

fun event_name :: "SseEvent \<Rightarrow> string" where
  "event_name (EvStage _ _) = ''stage''"
| "event_name (EvAgentResponse _ _ _ _ _) = ''agent_response''"
| "event_name (EvAgentsDone _ _) = ''agents_done''"
| "event_name (EvDeliberationStart _ _) = ''deliberation_start''"
| "event_name (EvDeliberationRound _ _) = ''deliberation_round''"
| "event_name (EvDeliberationDone _) = ''deliberation_done''"
| "event_name (EvDeliberationFailed _) = ''deliberation_done''"
| "event_name (EvDissent _) = ''dissent''"
| "event_name (EvNcg _) = ''ncg''"
| "event_name (EvConsensus _) = ''consensus''"
| "event_name (EvR2 _) = ''r2''"
| "event_name (EvDone _) = ''done''"
| "event_name (EvError _) = ''error''"

definition wire_event :: "(SseEvent \<Rightarrow> string) \<Rightarrow> SseEvent \<Rightarrow> string" where
  "wire_event dumps e = sse_event (event_name e) (dumps e)"

section \<open>The terminal clients\<close>

text \<open>The data of an event: what the JSON parser gives, or the text under the key \<^verbatim>\<open>raw\<close>.\<close>

datatype 'j event_payload = Parsed 'j | RawText string

record 'j TUIEvent =
  te_kind :: string
  te_data :: "'j event_payload"

definition payload_of :: "(string \<Rightarrow> 'j option) \<Rightarrow> string \<Rightarrow> 'j event_payload" where
  "payload_of loads s = (case loads s of Some v \<Rightarrow> Parsed v | None \<Rightarrow> RawText s)"

text \<open>\<^verbatim>\<open>_parse_sse\<close>: the last event line and the last data line of a text.\<close>

fun sse_fields :: "string list \<Rightarrow> string option \<times> string option \<Rightarrow> string option \<times> string option" where
  "sse_fields [] found = found"
| "sse_fields (l # ls) (event_type, data_str) =
     (if starts_with ''event:'' l then sse_fields ls (Some (py_strip (drop 6 l)), data_str)
      else if starts_with ''data:'' l then sse_fields ls (event_type, Some (py_strip (drop 5 l)))
      else sse_fields ls (event_type, data_str))"

definition parse_sse :: "(string \<Rightarrow> 'j option) \<Rightarrow> string \<Rightarrow> 'j TUIEvent option" where
  "parse_sse loads raw =
     (case sse_fields (split_on newline (py_strip raw)) (None, None) of
        (Some (e # es), Some (d # ds)) \<Rightarrow> Some \<lparr>te_kind = e # es, te_data = payload_of loads (d # ds)\<rparr>
      | _ \<Rightarrow> None)"

definition direct_events :: "(string \<Rightarrow> 'j option) \<Rightarrow> string list \<Rightarrow> 'j TUIEvent list" where
  "direct_events loads raws = List.map_filter (parse_sse loads) raws"

text \<open>\<^verbatim>\<open>HTTPBackend.orchestrate\<close>: the lines of the response, with the event type in force; a blank line ends it.\<close>

fun http_events :: "(string \<Rightarrow> 'j option) \<Rightarrow> string option \<Rightarrow> string list \<Rightarrow> 'j TUIEvent list" where
  "http_events loads event_type [] = []"
| "http_events loads event_type (line # lines) =
     (let l = py_strip line
      in if l = [] then http_events loads None lines
         else if starts_with ''event:'' l then http_events loads (Some (py_strip (drop 6 l))) lines
         else if starts_with ''data:'' l then
           (case event_type of
              Some (e # es) \<Rightarrow> \<lparr>te_kind = e # es, te_data = payload_of loads (py_strip (drop 5 l))\<rparr> # http_events loads event_type lines
            | _ \<Rightarrow> http_events loads event_type lines)
         else http_events loads event_type lines)"

section \<open>The routes\<close>

record Prompt =
  pr_prompt :: string
  pr_deliberation_enabled :: bool
  pr_deliberation_rounds :: int

definition valid_prompt :: "Prompt \<Rightarrow> bool" where
  "valid_prompt b \<longleftrightarrow> 1 \<le> length (pr_prompt b) \<and> length (pr_prompt b) \<le> 10000
     \<and> 1 \<le> pr_deliberation_rounds b \<and> pr_deliberation_rounds b \<le> 5"

definition COUNCIL_NAMES :: "string list" where
  "COUNCIL_NAMES = [''GPT-4o'', ''Claude Sonnet 4.6'', ''Gemini 2.5 Flash'', ''Llama 3.3 70B'']"

definition live_settings :: "bool \<Rightarrow> int \<Rightarrow> Settings" where
  "live_settings deliberation_enabled deliberation_rounds =
     \<lparr>set_ncg_enabled = True, set_session_logging = True, set_deliberation_enabled = deliberation_enabled,
      set_deliberation_rounds = deliberation_rounds\<rparr>"

record AskAnswer =
  aa_responses :: "(string, string) dict"
  aa_agent_errors :: "AgentError list"
  aa_session_id :: "string option"
  aa_deliberation :: DeliberationSummary
  aa_consensus :: ConsensusData
  aa_dissent :: "DissentSection option"
  aa_ncg_benchmark :: "NcgSection option"
  aa_r2 :: "R2Attachment option"

text \<open>The answers that are not a result: invalid input, a blank prompt, and the error of an orchestration.\<close>

datatype ask_error = InvalidPrompt | BlankPrompt | AskFailed orchestration_error

definition answer_of :: "OrchestrationResult \<Rightarrow> AskAnswer" where
  "answer_of r =
     \<lparr>aa_responses = or_named_responses r, aa_agent_errors = or_agent_errors r, aa_session_id = or_session_id r,
      aa_deliberation = or_deliberation r, aa_consensus = consensus_data (or_final_output r),
      aa_dissent = ag_dissent (or_final_output r), aa_ncg_benchmark = ag_ncg_benchmark (or_final_output r), aa_r2 = or_r2 r\<rparr>"

definition ask :: "Council \<Rightarrow> Prompt \<Rightarrow> session_dir \<Rightarrow> ledger \<Rightarrow> (ask_error + AskAnswer) \<times> session_dir \<times> ledger" where
  "ask c b sessions ledger =
     (if \<not> valid_prompt b then (Inl InvalidPrompt, sessions, ledger)
      else
        (let user_prompt = py_strip (pr_prompt b)
         in if user_prompt = [] then (Inl BlankPrompt, sessions, ledger)
            else (case run_orchestration c (live_settings (pr_deliberation_enabled b) (pr_deliberation_rounds b)) user_prompt
                     COUNCIL_NAMES sessions ledger of
                    Inl e \<Rightarrow> (Inl (AskFailed e), sessions, ledger)
                  | Inr (r, sessions', ledger') \<Rightarrow> (Inr (answer_of r), sessions', ledger'))))"

text \<open>The agents of the stream answer in the order \<^term>\<open>completed\<close>.\<close>

definition ask_stream ::
  "Council \<Rightarrow> Prompt \<Rightarrow> string list \<Rightarrow> session_dir \<Rightarrow> ledger \<Rightarrow> (ask_error + SseEvent list) \<times> session_dir \<times> ledger" where
  "ask_stream c b completed sessions ledger =
     (if \<not> valid_prompt b then (Inl InvalidPrompt, sessions, ledger)
      else
        (let user_prompt = py_strip (pr_prompt b)
         in if user_prompt = [] then (Inl BlankPrompt, sessions, ledger)
            else (let (events, sessions', ledger') = run_orchestration_stream c
                        (live_settings (pr_deliberation_enabled b) (pr_deliberation_rounds b)) user_prompt COUNCIL_NAMES completed
                        sessions ledger
                  in (Inr events, sessions', ledger'))))"

section \<open>Lemmas\<close>

text \<open>Printable text on one line that does not start or end with a blank.\<close>

definition printable :: "char \<Rightarrow> bool" where
  "printable c \<longleftrightarrow> 32 \<le> (of_char c :: nat) \<and> (of_char c :: nat) < 127"

definition wire_text :: "string \<Rightarrow> bool" where
  "wire_text s \<longleftrightarrow> s \<noteq> [] \<and> list_all printable s \<and> \<not> py_space (hd s) \<and> \<not> py_space (last s)"

lemma newline_unprintable [simp]: "\<not> printable newline"
  by code_simp

lemma wire_no_newline: "wire_text s \<Longrightarrow> newline \<notin> set s"
  by (auto simp: wire_text_def list_all_iff)

lemma dropWhile_spaces: "list_all py_space a \<Longrightarrow> s \<noteq> [] \<Longrightarrow> \<not> py_space (hd s) \<Longrightarrow> dropWhile py_space (a @ s) = s"
  by (cases s) (auto simp: list_all_iff dropWhile_append2)

lemma strip_ends_fixed:
  assumes "s \<noteq> []" "\<not> py_space (hd s)" "\<not> py_space (last s)" "list_all py_space a" "list_all py_space b"
  shows "py_strip (a @ s @ b) = s"
proof -
  have l: "dropWhile py_space (a @ s @ b) = s @ b"
    using assms by (intro dropWhile_spaces) auto
  have "dropWhile py_space (rev b @ rev s) = rev s"
    using assms by (intro dropWhile_spaces) (auto simp: hd_rev)
  then show ?thesis by (simp add: py_strip_def l)
qed

lemma strip_wire: "wire_text s \<Longrightarrow> py_strip s = s" "wire_text s \<Longrightarrow> py_strip (CHR '' '' # s) = s"
  using strip_ends_fixed [of s "[]" "[]"] strip_ends_fixed [of s "'' ''" "[]"] by (simp_all add: wire_text_def py_space_def)

lemma event_name_wire: "wire_text (event_name e)"
proof -
  have "list_all wire_text [''stage'', ''agent_response'', ''agents_done'', ''deliberation_start'', ''deliberation_round'',
      ''deliberation_done'', ''dissent'', ''ncg'', ''consensus'', ''r2'', ''done'', ''error'']" by code_simp
  then show ?thesis by (cases e) simp_all
qed

lemma starts_with_label [simp]: "starts_with p (p @ s)"
  by (simp add: starts_with_def)

definition event_lines :: "string \<Rightarrow> string \<Rightarrow> string list" where
  "event_lines event payload = [''event: '' @ event, ''data: '' @ payload, []]"

lemma sse_event_lines: "sse_event event payload = concat (map (\<lambda>l. l @ [newline]) (event_lines event payload))"
  by (simp add: sse_event_def event_lines_def)

lemma label_simps:
  "starts_with ''event:'' (''event: '' @ s)" "starts_with ''data:'' (''data: '' @ s)" "\<not> starts_with ''event:'' (''data: '' @ s)"
  "drop 6 (''event: '' @ s) = CHR '' '' # s" "drop 5 (''data: '' @ s) = CHR '' '' # s"
  by (simp_all add: starts_with_def)

lemma split_on_line: "newline \<notin> set l \<Longrightarrow> split_on newline (l @ newline # s) = l # split_on newline s"
  by (induction l) auto

lemma split_on_last: "newline \<notin> set l \<Longrightarrow> split_on newline l = [l]"
  by (induction l) auto

lemma label_wire: "wire_text s \<Longrightarrow> wire_text (''event: '' @ s)" "wire_text s \<Longrightarrow> wire_text (''data: '' @ s)"
  by (auto simp: wire_text_def printable_def py_space_def)

lemma parse_sse_event:
  assumes "wire_text event" "wire_text payload"
  shows "parse_sse loads (sse_event event payload) = Some \<lparr>te_kind = event, te_data = payload_of loads payload\<rparr>"
proof -
  let ?e = "''event: '' @ event" let ?d = "''data: '' @ payload"
  have w: "wire_text ?e" "wire_text ?d" using label_wire assms by blast+
  have n: "newline \<notin> set ?e" "newline \<notin> set ?d" using w wire_no_newline by blast+
  have "py_strip (?e @ newline # ?d @ [newline, newline]) = ?e @ newline # ?d"
    using strip_ends_fixed [of "?e @ newline # ?d" "[]" "[newline, newline]"] w by (simp add: wire_text_def py_space_def newline_def)
  then have "split_on newline (py_strip (sse_event event payload)) = [?e, ?d]"
    using split_on_line [OF n(1)] split_on_last [OF n(2)] by (simp add: sse_event_def)
  then show ?thesis
    using assms strip_wire by (cases event; cases payload) (simp_all add: parse_sse_def label_simps [simplified] wire_text_def starts_with_def)
qed

lemma http_one_event:
  assumes "wire_text event" "wire_text payload"
  shows "http_events loads current (event_lines event payload @ rest) =
     \<lparr>te_kind = event, te_data = payload_of loads payload\<rparr> # http_events loads None rest"
proof -
  have w: "wire_text (''event: '' @ event)" "wire_text (''data: '' @ payload)" using label_wire assms by blast+
  have s: "py_strip [] = []" by (simp add: py_strip_def)
  obtain c cs where c: "event = c # cs" using assms(1) by (cases event) (auto simp: wire_text_def)
  show ?thesis
    using strip_wire(1) [OF w(1)] strip_wire(1) [OF w(2)] strip_wire(2) [OF assms(1)] strip_wire(2) [OF assms(2)] s c
    by (simp add: event_lines_def Let_def starts_with_def)
qed

section \<open>Properties\<close>

text \<open>What is documented of the parameters: the JSON of an object is printable, and a body of printable lines is read line by line.\<close>

definition prints_wire_text :: "(SseEvent \<Rightarrow> string) \<Rightarrow> bool" where
  "prints_wire_text dumps \<longleftrightarrow> (\<forall>e. wire_text (dumps e))"

definition reads_lines :: "(string \<Rightarrow> string list) \<Rightarrow> bool" where
  "reads_lines lines_of \<longleftrightarrow> (\<forall>ls. list_all (list_all printable) ls \<longrightarrow> lines_of (concat (map (\<lambda>l. l @ [newline]) ls)) = ls)"

definition event_shown :: "(SseEvent \<Rightarrow> string) \<Rightarrow> (string \<Rightarrow> 'j option) \<Rightarrow> SseEvent \<Rightarrow> 'j TUIEvent" where
  "event_shown dumps loads e = \<lparr>te_kind = event_name e, te_data = payload_of loads (dumps e)\<rparr>"

lemma direct_shown: "prints_wire_text dumps \<Longrightarrow> direct_events loads (map (wire_event dumps) es) = map (event_shown dumps loads) es"
  by (induction es) (simp_all add: direct_events_def List.map_filter_def wire_event_def parse_sse_event event_name_wire
      prints_wire_text_def event_shown_def)

lemma http_shown:
  assumes "prints_wire_text dumps" "reads_lines lines_of"
  shows "http_events loads None (lines_of (concat (map (wire_event dumps) es))) = map (event_shown dumps loads) es"
proof -
  let ?ls = "concat (map (\<lambda>e. event_lines (event_name e) (dumps e)) es)"
  have w: "wire_text (dumps e)" for e using assms(1) by (simp add: prints_wire_text_def)
  have "list_all (list_all printable) (event_lines (event_name e) (dumps e))" for e
    using w [of e] event_name_wire [of e] by (simp add: event_lines_def wire_text_def printable_def)
  then have "list_all (list_all printable) ?ls" by (auto simp: list_all_iff)
  moreover have "concat (map (wire_event dumps) es) = concat (map (\<lambda>l. l @ [newline]) ?ls)"
    by (induction es) (simp_all add: wire_event_def sse_event_lines)
  ultimately have l: "lines_of (concat (map (wire_event dumps) es)) = ?ls" using assms(2) by (simp add: reads_lines_def)
  have "http_events loads current (concat (map (\<lambda>e. event_lines (event_name e) (dumps e)) es)) = map (event_shown dumps loads) es" for current
    using w event_name_wire by (induction es arbitrary: current) (simp_all add: http_one_event event_shown_def)
  then show ?thesis unfolding l .
qed

text \<open>
  C3: A question gets the same answer on every way: for a valid prompt that is not blank the plain route returns a result,
  and the streaming route, when the agents answer in the order of the council, leaves the same session directory and
  ledger and sends a last event with that very result.  The only other answer is the error of an answer that is not a text:
  then an agent has returned none, the streaming route ends with that error, and neither route writes anything.  The client in
  the same process and the one behind HTTP both read from the text of the stream exactly its events, in order, each with its
  name and its data, and so both end with that result or error.
\<close>

theorem question_answered_alike:
  assumes "valid_prompt b" "py_strip (pr_prompt b) \<noteq> []" "prints_wire_text dumps" "reads_lines lines_of"
  shows "\<exists>ev final. ask_stream c b COUNCIL_NAMES sd ld = (Inr (ev @ [final]), snd (ask c b sd ld))
    \<and> (case fst (ask c b sd ld) of
         Inl e \<Rightarrow> e = AskFailed AnswerNotText \<and> final = EvError AnswerNotText \<and> snd (ask c b sd ld) = (sd, ld)
           \<and> (\<exists>k n q. n \<in> set COUNCIL_NAMES \<and> co_fetch c k n q = NoText)
       | Inr a \<Rightarrow> \<exists>d. final = EvDone d
           \<and> dn_responses d = aa_responses a \<and> dn_agent_errors d = aa_agent_errors a \<and> dn_session_id d = aa_session_id a
           \<and> dn_deliberation d = aa_deliberation a \<and> dn_consensus d = aa_consensus a \<and> Some (dn_dissent d) = aa_dissent a
           \<and> dn_ncg_benchmark d = aa_ncg_benchmark a \<and> dn_r2 d = aa_r2 a)
    \<and> direct_events loads (map (wire_event dumps) (ev @ [final])) = map (event_shown dumps loads) ev @ [event_shown dumps loads final]
    \<and> http_events loads None (lines_of (concat (map (wire_event dumps) (ev @ [final]))))
        = map (event_shown dumps loads) ev @ [event_shown dumps loads final]"
proof -
  let ?s = "live_settings (pr_deliberation_enabled b) (pr_deliberation_rounds b)" let ?p = "py_strip (pr_prompt b)"
  have d: "distinct COUNCIL_NAMES" "COUNCIL_NAMES \<noteq> []" by code_simp+
  have a: "ask c b sd ld = (case run_orchestration c ?s ?p COUNCIL_NAMES sd ld of
      Inl e \<Rightarrow> (Inl (AskFailed e), sd, ld) | Inr (r, sd', ld') \<Rightarrow> (Inr (answer_of r), sd', ld'))"
    using assms(1,2) by (simp add: ask_def Let_def)
  have st: "ask_stream c b COUNCIL_NAMES sd ld = (case run_orchestration_stream c ?s ?p COUNCIL_NAMES COUNCIL_NAMES sd ld of
      (events, sd', ld') \<Rightarrow> (Inr events, sd', ld'))"
    using assms(1,2) by (simp add: ask_stream_def Let_def)
  note shown_alike = direct_shown [OF assms(3), of loads] http_shown [OF assms(3,4), of loads]
  show ?thesis
  proof (cases "run_orchestration c ?s ?p COUNCIL_NAMES sd ld")
    case (Inl e)
    have "e = AnswerNotText \<and> ((\<exists>n \<in> set COUNCIL_NAMES. co_fetch c 0 n ?p = NoText) \<or> None \<in> set (dvalues (debated c ?s ?p COUNCIL_NAMES)))"
      using run_total [OF d, where c = c and s = ?s and p = ?p and sd = sd and ld = ld] Inl by simp
    then have e: "e = AnswerNotText" "\<exists>k n q. n \<in> set COUNCIL_NAMES \<and> co_fetch c k n q = NoText"
      using debated_None [OF d(1), of c ?s ?p] by auto
    obtain ev where ev: "run_orchestration_stream c ?s ?p COUNCIL_NAMES COUNCIL_NAMES sd ld = (ev @ [EvError e], sd, ld)"
      using stream_agrees [OF d(1), of c ?s ?p sd ld] Inl by auto
    show ?thesis using a st Inl e ev shown_alike [of "ev @ [EvError e]"]
      by (intro exI [of _ ev] exI [of _ "EvError e"]) simp
  next
    case (Inr result)
    obtain r sd' ld' where r: "result = (r, sd', ld')" by (cases result)
    obtain ev e where e: "run_orchestration_stream c ?s ?p COUNCIL_NAMES COUNCIL_NAMES sd ld = (ev @ [EvDone e], sd', ld')"
      "dn_responses e = or_named_responses r" "dn_agent_errors e = or_agent_errors r" "dn_session_id e = or_session_id r"
      "dn_consensus e = consensus_data (or_final_output r)" "dn_deliberation e = or_deliberation r" "dn_r2 e = or_r2 r"
      "Some (dn_dissent e) = ag_dissent (or_final_output r)" "dn_ncg_benchmark e = ag_ncg_benchmark (or_final_output r)"
      using stream_agrees [OF d(1), of c ?s ?p sd ld] Inr r by auto
    show ?thesis using a st Inr r e shown_alike [of "ev @ [EvDone e]"]
      by (intro exI [of _ ev] exI [of _ "EvDone e"]) (simp add: answer_of_def)
  qed
qed

section \<open>Sample instances\<close>

text \<open>Printing an event as an empty object, and reading the printable lines of a text.\<close>

lemma demo_dumps: "prints_wire_text (\<lambda>_. ''{}'')"
proof -
  have "wire_text ''{}''" by code_simp
  then show ?thesis by (simp add: prints_wire_text_def)
qed

lemma demo_lines: "reads_lines (\<lambda>s. butlast (split_on newline s))"
proof -
  have ne: "split_on newline s \<noteq> []" for s by (cases s) (auto split: list.splits)
  have "butlast (split_on newline (concat (map (\<lambda>l. l @ [newline]) ls))) = ls" if "list_all (list_all printable) ls" for ls
    using that
  proof (induction ls)
    case (Cons l ls)
    then have "newline \<notin> set l" by (auto simp: list_all_iff)
    then show ?case using Cons ne by (simp add: split_on_line)
  qed simp
  then show ?thesis by (simp add: reads_lines_def)
qed

definition demo_prompt :: Prompt where
  "demo_prompt = \<lparr>pr_prompt = '' why '', pr_deliberation_enabled = False, pr_deliberation_rounds = 1\<rparr>"

lemma question_answered_alike_witness:
  "\<exists>ev d. fst (ask_stream (sample_council b_raises) demo_prompt COUNCIL_NAMES [] []) = Inr (ev @ [EvDone d]) \<and>
     te_kind (last (http_events (\<lambda>_. Some ()) None (butlast (split_on newline (concat (map (wire_event (\<lambda>_. ''{}'')) (ev @ [EvDone d]))))))) = ''done''"
proof -
  have v: "valid_prompt demo_prompt" "py_strip (pr_prompt demo_prompt) \<noteq> []" by code_simp+
  have "co_fetch (sample_council b_raises) k n q \<noteq> NoText" for k n q by (simp add: sample_council_def b_raises_def)
  then have nt: "\<not> (\<exists>k n q. n \<in> set COUNCIL_NAMES \<and> co_fetch (sample_council b_raises) k n q = NoText)" by blast
  note served = question_answered_alike [OF v demo_dumps demo_lines, of "sample_council b_raises" "[]" "[]" "\<lambda>_. Some ()"]
  show ?thesis
  proof (cases "fst (ask (sample_council b_raises) demo_prompt [] [])")
    case (Inl e)
    then show ?thesis using served nt by auto
  next
    case (Inr a)
    then show ?thesis using served by (fastforce simp: event_shown_def)
  qed
qed

end
