(* ===== verification/Engine_Api.thy ===== *)
theory Engine_Api
  imports Self_Improve Web_Clients
begin

text \<open>
  The routes over the sessions, the ledger and the improvement engine: \<^verbatim>\<open>maestro/api_sessions.py\<close>,
  \<^verbatim>\<open>maestro/api_magi.py\<close> and \<^verbatim>\<open>maestro/api_self_improve.py\<close>, on the stores that the ask route of
  Web_Clients writes.  A route that raises an \<^verbatim>\<open>HTTPException\<close> gives its status and detail; the text of an internal
  error is left out.  The limits of a request are taken as not negative.
\<close>

section \<open>The system behind the routes\<close>

record system =
  sy_sessions :: session_dir
  sy_ledger :: ledger
  sy_cycles :: cycle_dir
  sy_nodes :: node_dir
  sy_world :: World

type_synonym 'a reply = "(nat \<times> string) + 'a"

definition ask_question :: "Council \<Rightarrow> Prompt \<Rightarrow> system \<Rightarrow> (ask_error + AskAnswer) \<times> system" where
  "ask_question c b s =
     (let (r, sessions, ledger) = ask c b (sy_sessions s) (sy_ledger s)
      in (r, s\<lparr>sy_sessions := sessions, sy_ledger := ledger\<rparr>))"

section \<open>Sessions and MAGI\<close>

definition sessions_page :: "nat \<Rightarrow> nat \<Rightarrow> system \<Rightarrow> SessionSummary list \<times> nat" where
  "sessions_page limit offset s = (list_sessions (sy_sessions s) limit offset, session_count (sy_sessions s))"

definition get_session :: "string \<Rightarrow> system \<Rightarrow> SessionRecord reply" where
  "get_session session_id s =
     (case session_load (sy_sessions s) session_id of
        Inl SessionNotFound \<Rightarrow> Inl (404, ''Session not found'')
      | Inl SessionDecodeError \<Rightarrow> Inl (422, ''Session record is corrupted'')
      | Inr r \<Rightarrow> Inr r)"

definition magi_analysis :: "nat \<Rightarrow> nat \<Rightarrow> system \<Rightarrow> MagiReport" where
  "magi_analysis ledger_limit session_limit s =
     magi_analyze (sy_ledger s) ledger_limit (length (list_sessions (sy_sessions s) session_limit 0))"

section \<open>The improvement engine\<close>

text \<open>An engine is made for each request; it counts the sessions that MAGI sees.\<close>

definition engine_of :: "Surroundings \<Rightarrow> system \<Rightarrow> Surroundings" where
  "engine_of env s = env\<lparr>env_session_count := length (list_sessions (sy_sessions s) 50 0)\<rparr>"

definition self_improve_status :: "system \<Rightarrow> nat \<times> (string \<times> string \<times> string \<times> string \<times> nat \<times> string) list" where
  "self_improve_status s = (count_cycles (sy_cycles s), list_cycles (sy_cycles s) 10)"

definition run_improvement_cycle ::
    "Surroundings \<Rightarrow> string \<Rightarrow> nat \<Rightarrow> string \<Rightarrow> system \<Rightarrow> ImprovementCycle \<times> system" where
  "run_improvement_cycle env cycle_id mtime compute_node s =
     (let (cycle, w, cycles) = run_cycle (engine_of env s) cycle_id mtime compute_node [] (sy_ledger s) (sy_world s) (sy_cycles s)
      in (cycle, s\<lparr>sy_world := w, sy_cycles := cycles\<rparr>))"

definition analysis_only :: "Surroundings \<Rightarrow> system \<Rightarrow> AnalysisOnly reply" where
  "analysis_only env s =
     (case run_analysis_only (engine_of env s) (sy_ledger s) (sy_world s) of Inl _ \<Rightarrow> Inl (500, []) | Inr a \<Rightarrow> Inr a)"

definition get_cycle :: "string \<Rightarrow> system \<Rightarrow> ImprovementCycle reply" where
  "get_cycle cycle_id s =
     (case load_cycle (sy_cycles s) cycle_id of
        Inl _ \<Rightarrow> Inl (500, [])
      | Inr None \<Rightarrow> Inl (404, ''Cycle not found'')
      | Inr (Some cycle) \<Rightarrow> Inr cycle)"

definition introspect_with_magi :: "Surroundings \<Rightarrow> system \<Rightarrow> MagiReport \<times> IntrospectionReport \<times> ProposalBatch" where
  "introspect_with_magi env s =
     analyze_with_introspection (env_str_of env) (env_proposal_ids env) (env_now env) (wd_files (sy_world s)) (sy_ledger s) 50
       (length (list_sessions (sy_sessions s) 50 0))"

definition list_compute_nodes :: "system \<Rightarrow> ComputeNode list" where
  "list_compute_nodes s = list_available (sy_nodes s)"

definition register_compute_node :: "string \<Rightarrow> string \<Rightarrow> nat \<Rightarrow> system \<Rightarrow> ComputeNode \<times> system" where
  "register_compute_node node_id host port s =
     (let node = \<lparr>cn_node_id = node_id, cn_host = host, cn_port = port, cn_status = ''available'',
            cn_capabilities = [''local_sandbox'']\<rparr>
      in (node, s\<lparr>sy_nodes := node_register node (sy_nodes s)\<rparr>))"

text \<open>Injection and rollback: cycle, results, applied, failed.\<close>

definition inject_route ::
    "Surroundings \<Rightarrow> string \<Rightarrow> system \<Rightarrow> (string \<times> InjectionResult list \<times> nat \<times> nat) reply \<times> system" where
  "inject_route env cycle_id s =
     (case inject_cycle (engine_of env s) cycle_id (sy_cycles s) (sy_world s) of
        Inl _ \<Rightarrow> (Inl (500, []), s)
      | Inr (CycleNotFound, _) \<Rightarrow> (Inl (400, ''Cycle not found''), s)
      | Inr (NotInjectable outcome, _) \<Rightarrow> (Inl (400, ''Cycle outcome is '' @ outcome @ '', not injectable''), s)
      | Inr (Injected i results applied failed, w) \<Rightarrow> (Inr (i, results, applied, failed), s\<lparr>sy_world := w\<rparr>))"

definition rollback_injection :: "Surroundings \<Rightarrow> string \<Rightarrow> system \<Rightarrow> string reply \<times> system" where
  "rollback_injection env rollback_id s =
     (let (success, w) = rollback (env_reload env) (env_now env) rollback_id (sy_world s)
      in (if success then Inr rollback_id else Inl (404, ''Rollback entry not found or already rolled back''),
          s\<lparr>sy_world := w\<rparr>))"

definition rollback_cycle_route :: "Surroundings \<Rightarrow> string \<Rightarrow> system \<Rightarrow> (string \<times> bool) list reply \<times> system" where
  "rollback_cycle_route env cycle_id s =
     (let (results, w) = rollback_cycle (env_reload env) (env_now env) cycle_id (sy_world s)
      in (if results = [] then Inl (404, ''No active injections found for this cycle'') else Inr results,
          s\<lparr>sy_world := w\<rparr>))"

definition list_active_injections :: "system \<Rightarrow> nat \<times> RollbackEntry list" where
  "list_active_injections s = (let active = get_active (wd_log (sy_world s)) in (length active, active))"

definition list_rollback_history :: "nat \<Rightarrow> system \<Rightarrow> nat \<times> RollbackEntry list" where
  "list_rollback_history limit s = (count_active (wd_log (sy_world s)), list_all_entries (wd_log (sy_world s)) limit)"

section \<open>Lemmas\<close>

lemma engine_of_fields [simp]:
  "env_rollback_ids (engine_of env s) = env_rollback_ids env" "env_now (engine_of env s) = env_now env"
  "env_clock (engine_of env s) = env_clock env" "env_reload (engine_of env s) = env_reload env"
  by (simp_all add: engine_of_def)

lemma get_cycle_world [simp]: "get_cycle i (s\<lparr>sy_world := w\<rparr>) = get_cycle i s"
  by (simp add: get_cycle_def)

text \<open>A rollback that undid nothing found no active entry, and then it changed nothing.\<close>

lemma no_rollbacks: "rollback_cycle reload now c w = ([], w') \<Longrightarrow> w' = w"
  by (cases "map re_rollback_id (get_active_by_cycle (wd_log w) c)")
    (auto simp: rollback_cycle_def split: prod.splits)

lemma decodable_sessions:
  assumes "length d \<le> limit"
  shows "length (list_sessions d limit 0) = length (filter (\<lambda>(_, _, c). c \<noteq> None) d)"
proof -
  have f: "length (List.map_filter (\<lambda>(_, _, c). c) xs) = size (filter_mset (\<lambda>(_, _, c). c \<noteq> None) (mset xs))"
    for xs :: "(string \<times> nat \<times> SessionRecord option) list"
    by (induction xs) (auto simp: List.map_filter_def)
  show ?thesis using assms
    by (simp add: list_sessions_def session_files_def f flip: mset_filter)
qed

text \<open>One question through the route, with what it stores.\<close>

lemma ask_stored:
  assumes "valid_prompt b" "py_strip (pr_prompt b) \<noteq> []"
  shows "case ask c b sd ld of
      (Inl e, st) \<Rightarrow> e = AskFailed AnswerNotText \<and> st = (sd, ld) \<and> (\<exists>k n q. n \<in> set COUNCIL_NAMES \<and> co_fetch c k n q = NoText)
    | (Inr a, st) \<Rightarrow> \<exists>f. fst st = (if co_session_written c
              then session_save (co_mtime c) (build_session_record (co_session_id c) (co_now c) (py_strip (pr_prompt b))
                     (aa_responses a) f True COUNCIL_NAMES) sd else sd)
        \<and> aa_session_id a = (if co_session_written c then Some (co_session_id c) else None)
        \<and> consensus_data f = aa_consensus a \<and> ag_dissent f = aa_dissent a"
proof -
  let ?s = "live_settings (pr_deliberation_enabled b) (pr_deliberation_rounds b)" let ?p = "py_strip (pr_prompt b)"
  have d: "distinct COUNCIL_NAMES" "COUNCIL_NAMES \<noteq> []" by code_simp+
  show ?thesis
  proof (cases "run_orchestration c ?s ?p COUNCIL_NAMES sd ld")
    case (Inl e)
    then have "e = AnswerNotText \<and> ((\<exists>n \<in> set COUNCIL_NAMES. co_fetch c 0 n ?p = NoText) \<or> None \<in> set (dvalues (debated c ?s ?p COUNCIL_NAMES)))"
      using run_total [OF d, where c = c and s = ?s and p = ?p and sd = sd and ld = ld] by simp
    then have "e = AnswerNotText \<and> (\<exists>k n q. n \<in> set COUNCIL_NAMES \<and> co_fetch c k n q = NoText)"
      using debated_None [OF d(1), of c ?s ?p] by auto
    then show ?thesis using assms Inl by (simp add: ask_def Let_def)
  next
    case (Inr result)
    obtain r sd' ld' where r: "result = (r, sd', ld')" by (cases result)
    have "(or_session_id r, sd') = session_stage c ?s ?p COUNCIL_NAMES (or_named_responses r) (or_final_output r) sd"
      using run_unfolded [OF d(1)] Inr r by blast
    then show ?thesis using assms Inr r
      by (auto simp: ask_def Let_def answer_of_def session_stage_def live_settings_def build_session_record_def split: if_splits
          intro!: exI [of _ "or_final_output r"])
  qed
qed

lemma get_session_saved:
  assumes "sy_sessions s' = session_save t r (sy_sessions s)"
  shows "get_session j s' = (if j = sn_session_id r then Inr r else get_session j s)"
  using assms by (simp add: get_session_def session_save_def session_load_def)

text \<open>Rolling back the runtime entries of a cycle takes exactly these out of the active ones.\<close>

lemma mark_get_active:
  "distinct (map re_rollback_id entries) \<Longrightarrow>
     get_active (snd (mark_rolled_back now i entries)) = filter (\<lambda>e. re_rollback_id e \<noteq> i) (get_active entries)"
proof (induction entries)
  case (Cons e es)
  show ?case
  proof (cases "re_rollback_id e = i")
    case True
    then have "x \<in> set es \<Longrightarrow> re_rollback_id x \<noteq> i" for x using Cons.prems by (auto simp: image_iff)
    then have "filter (\<lambda>e. re_rollback_id e \<noteq> i) (get_active es) = get_active es"
      by (intro filter_True) (auto simp: get_active_def)
    moreover have "get_active (snd (mark_rolled_back now i es)) = filter (\<lambda>e. re_rollback_id e \<noteq> i) (get_active es)"
      using Cons by simp
    ultimately show ?thesis using True by (cases "re_status e = ''applied''") (auto simp: get_active_def split: prod.split)
  next
    case False
    then show ?thesis using Cons by (auto simp: get_active_def split: prod.split)
  qed
qed (simp add: get_active_def)

lemma rollback_all_active:
  assumes "distinct (map re_rollback_id (wd_log w))" "set es \<subseteq> set (wd_log w)" "distinct (map re_rollback_id es)"
    "\<And>e. e \<in> set es \<Longrightarrow> runtime_entry (wd_importable w) c e"
  shows "get_active (wd_log (snd (rollback_all reload now (map re_rollback_id es) w)))
    = filter (\<lambda>e. re_rollback_id e \<notin> re_rollback_id ` set es) (get_active (wd_log w))"
  using assms
proof (induction es arbitrary: w)
  case (Cons e es)
  define w1 where "w1 = w\<lparr>wd_vars := dset (re_module_name e, re_target_name e) (fst (snd (change_of e))) (wd_vars w),
             wd_log := snd (mark_rolled_back now (re_rollback_id e) (wd_log w))\<rparr>"
  have st: "rollback reload now (re_rollback_id e) w = (True, w1)"
    unfolding w1_def using Cons.prems by (intro rollback_runtime_step) auto
  have "re_rollback_id x \<noteq> re_rollback_id e" if "x \<in> set es" for x using that Cons.prems(3) by (auto simp: image_iff)
  then have "set es \<subseteq> set (wd_log w1)" using Cons.prems(2) by (auto simp: w1_def intro: mark_other)
  moreover have "distinct (map re_rollback_id (wd_log w1))" using Cons.prems(1) by (simp add: w1_def mark_rolled_back_ids)
  moreover have "wd_importable w1 = wd_importable w" by (simp add: w1_def)
  ultimately have "get_active (wd_log (snd (rollback_all reload now (map re_rollback_id es) w1)))
    = filter (\<lambda>e. re_rollback_id e \<notin> re_rollback_id ` set es) (get_active (wd_log w1))"
    using Cons.prems by (intro Cons.IH) auto
  moreover have "get_active (wd_log w1) = filter (\<lambda>x. re_rollback_id x \<noteq> re_rollback_id e) (get_active (wd_log w))"
    using mark_get_active [OF Cons.prems(1)] by (simp add: w1_def)
  ultimately show ?case using st by (auto simp: conj_commute split: prod.split intro!: filter_cong)
qed simp

lemma inject_batch_length: "inject_batch reload fresh ts ps c dry w = (rs, w') \<Longrightarrow> length rs = length ps"
  by (induction ps arbitrary: w rs) (auto split: prod.splits)

lemma injection_undone:
  assumes "\<And>q. q \<in> set ps \<Longrightarrow> numeric_update (snd q)" "float_vars w"
    "distinct (map (\<lambda>q. (op_module_name (snd q), op_target_name (snd q))) ps)"
    "\<And>e. e \<in> set (wd_log w) \<Longrightarrow> re_cycle_id e \<noteq> c \<or> re_status e \<noteq> ''applied''"
    "map re_rollback_id (wd_log w) = map fresh [0..<length (wd_log w)]" "inj fresh"
    "inject_batch reload fresh ts ps c dry w = (rs, w')" "rollback_cycle reload later c w' = (us, w'')"
  shows "get_active (wd_log w'') = get_active (wd_log w)"
proof -
  from inject_batch_logged [OF assms(1,2,7,3)] obtain es where es: "batch_logged c w w' es"
    "map re_rollback_id es = map fresh [length (wd_log w)..<length (wd_log w')]" by blast
  have l: "wd_log w' = wd_log w @ es" "\<And>e. e \<in> set es \<Longrightarrow> runtime_entry (wd_importable w') c e"
    using es(1) by (simp_all add: batch_logged_def)
  have "map re_rollback_id (wd_log w') = map fresh [0..<length (wd_log w')]"
    using assms(5) es(2) upt_join [of 0 "length (wd_log w)" "length (wd_log w')"] l(1)
    by (metis (no_types, lifting) le_add1 length_append map_append zero_le)
  then have d: "distinct (map re_rollback_id (wd_log w'))"
    by (simp add: distinct_map inj_on_subset [OF assms(6)])
  have act: "get_active_by_cycle (wd_log w') c = es"
    using assms(4) l by (auto simp: get_active_by_cycle_def runtime_entry_def filter_empty_conv filter_id_conv)
  have "get_active (wd_log w'') = filter (\<lambda>e. re_rollback_id e \<notin> re_rollback_id ` set es) (get_active (wd_log w'))"
    using rollback_all_active [OF d _ _ l(2), of es reload later]
      assms(8) d l(1) unfolding rollback_cycle_def act by simp
  also have "\<dots> = filter (\<lambda>e. re_rollback_id e \<notin> re_rollback_id ` set es) (get_active (wd_log w))"
    by (auto simp: l(1) get_active_def filter_empty_conv)
  also have "\<dots> = get_active (wd_log w)"
    using d by (auto simp: l(1) get_active_def disjoint_iff intro!: filter_cong)
  finally show ?thesis .
qed

section \<open>Properties\<close>

text \<open>
  C4: A question that is answered can be looked up.  For a valid prompt that is not blank, a session id that is not yet
  taken, and fewer stored sessions than the limit of the report and of the page: the session route gives, for the session
  id of the answer, a record with the stripped prompt, the answers and the consensus that were sent; every other session
  is served as before; and the next MAGI report and the next page of sessions count one session more.  When no session was
  written, the sessions are unchanged.  A question that is not answered failed because an agent returned something that is
  not a text, and changed nothing at all.  The improvement engine, its cycles and its nodes are not touched by a question.
\<close>

theorem asked_session_served:
  assumes "valid_prompt b" "py_strip (pr_prompt b) \<noteq> []" "co_session_id c \<notin> set (dkeys (sy_sessions s))"
    "length (sy_sessions s) < limit"
  shows "case ask_question c b s of
      (Inl e, s') \<Rightarrow> s' = s \<and> e = AskFailed AnswerNotText \<and> (\<exists>k n q. n \<in> set COUNCIL_NAMES \<and> co_fetch c k n q = NoText)
    | (Inr a, s') \<Rightarrow>
        (case aa_session_id a of
           None \<Rightarrow> sy_sessions s' = sy_sessions s
         | Some i \<Rightarrow>
             (\<exists>r. get_session i s' = Inr r \<and> sn_prompt r = py_strip (pr_prompt b) \<and> sn_agent_responses r = aa_responses a
                \<and> consensus_data (sn_consensus r) = aa_consensus a \<and> sn_agents_used r = COUNCIL_NAMES)
             \<and> (\<forall>j. j = i \<or> get_session j s' = get_session j s)
             \<and> mr_sessions_analyzed (magi_analysis n limit s') = Suc (mr_sessions_analyzed (magi_analysis n limit s))
             \<and> snd (sessions_page n limit s') = Suc (snd (sessions_page n limit s)))
        \<and> sy_world s' = sy_world s \<and> sy_cycles s' = sy_cycles s \<and> sy_nodes s' = sy_nodes s"
proof -
  obtain out sd ld where Pair: "ask c b (sy_sessions s) (sy_ledger s) = (out, sd, ld)" by (metis prod.exhaust)
  note stored = ask_stored [OF assms(1,2), where c = c and sd = "sy_sessions s" and ld = "sy_ledger s"]
  show ?thesis
  proof (cases out)
    case (Inl e)
    then show ?thesis using stored Pair by (simp add: ask_question_def)
  next
    case (Inr a)
    obtain f where q: "sd = (if co_session_written c
              then session_save (co_mtime c) (build_session_record (co_session_id c) (co_now c) (py_strip (pr_prompt b))
                     (aa_responses a) f True COUNCIL_NAMES) (sy_sessions s) else sy_sessions s)"
      "aa_session_id a = (if co_session_written c then Some (co_session_id c) else None)" "consensus_data f = aa_consensus a"
      using stored Pair Inr by auto
    define s' where "s' = snd (ask_question c b s)"
    have s': "ask_question c b s = (Inr a, s')" "sy_world s' = sy_world s" "sy_cycles s' = sy_cycles s" "sy_nodes s' = sy_nodes s"
        "sy_sessions s' = sd"
      unfolding s'_def using Pair Inr by (simp_all add: ask_question_def)
    show ?thesis
    proof (cases "co_session_written c")
      case True
      let ?r = "build_session_record (co_session_id c) (co_now c) (py_strip (pr_prompt b)) (aa_responses a) f True COUNCIL_NAMES"
      have i: "sn_session_id ?r = co_session_id c" by (simp add: build_session_record_def)
      have sv: "sy_sessions s' = session_save (co_mtime c) ?r (sy_sessions s)" using s'(5) q(1) True by simp
      then have "sy_sessions s' = sy_sessions s @ [(co_session_id c, co_mtime c, Some ?r)]"
        using assms(3) i by (simp add: session_save_def dset_append)
      moreover note decodable_sessions [of "sy_sessions s" limit] decodable_sessions [of "sy_sessions s'" limit]
      ultimately have "mr_sessions_analyzed (magi_analysis n limit s') = Suc (mr_sessions_analyzed (magi_analysis n limit s))"
        "snd (sessions_page n limit s') = Suc (snd (sessions_page n limit s))"
        using assms(4) by (simp_all add: magi_analysis_def magi_analyze_def Let_def sessions_page_def session_count_def)
      then show ?thesis using s' q(2,3) True get_session_saved [OF sv] i
        by (simp add: build_session_record_def COUNCIL_NAMES_def)
    next
      case False
      then show ?thesis using s' q(1,2) by auto
    qed
  qed
qed


text \<open>
  Library fact: A cycle run through the API is served afterwards as it was answered, and no other cycle changes.  A reviewer
  who asks to inject it is refused with a 400, and nothing changes, exactly when it was neither promoted nor in need of review; in particular a
  cycle that needs review, though not promoted, is injected.
\<close>

theorem cycle_review_gate:
  "\<exists>cycle s'. run_improvement_cycle env i mtime node s = (cycle, s') \<and> get_cycle i s' = Inr cycle
    \<and> (\<forall>j. j = i \<or> get_cycle j s' = get_cycle j s)
    \<and> (if cy_outcome cycle \<in> {''promoted'', ''needs_review''} then \<not> isl (fst (inject_route env' i s'))
       else fst (projl (fst (inject_route env' i s'))) = 400 \<and> snd (inject_route env' i s') = s')"
proof -
  obtain cycle w d where r: "run_cycle (engine_of env s) i mtime node [] (sy_ledger s) (sy_world s) (sy_cycles s) = (cycle, w, d)"
    by (metis prod_cases3)
  have d: "d = persist_cycle mtime cycle (sy_cycles s)" "cy_cycle_id cycle = i" using run_cycle_cases [OF r] by simp_all
  have c: "load_cycle d i = Inr (Some cycle)" "\<And>j. j \<noteq> i \<Longrightarrow> load_cycle d j = load_cycle (sy_cycles s) j"
    using cycles.load_store cycles.load_other d by metis+
  let ?s = "s\<lparr>sy_world := w, sy_cycles := d\<rparr>"
  have "run_improvement_cycle env i mtime node s = (cycle, ?s)" by (simp add: run_improvement_cycle_def r)
  moreover have "get_cycle i ?s = Inr cycle" using c(1) by (simp add: get_cycle_def)
  moreover have "j = i \<or> get_cycle j ?s = get_cycle j s" for j using c(2) [of j] by (cases "j = i") (simp_all add: get_cycle_def)
  ultimately show ?thesis using c(1)
    by (intro exI [of _ cycle] exI [of _ ?s]) (auto simp: inject_route_def inject_cycle_def split: prod.split)
qed

section \<open>Sample instances\<close>

definition demo_system :: system where
  "demo_system = \<lparr>sy_sessions = [], sy_ledger = [], sy_cycles = [(''c'', 1, Some sample_cycle)], sy_nodes = [], sy_world = sample_world\<rparr>"

lemma asked_session_served_witness:
  "\<exists>a s' r. ask_question (sample_council b_raises) demo_prompt demo_system = (Inr a, s')
     \<and> get_session (co_session_id (sample_council b_raises)) s' = Inr r \<and> sn_prompt r = ''why''
     \<and> mr_sessions_analyzed (magi_analysis 50 50 s') = 1"
proof -
  have v: "valid_prompt demo_prompt" "py_strip (pr_prompt demo_prompt) \<noteq> []" "py_strip (pr_prompt demo_prompt) = ''why''" by code_simp+
  have z: "mr_sessions_analyzed (magi_analysis 50 50 demo_system) = 0"
    by (simp add: magi_analysis_def magi_analyze_def Let_def demo_system_def list_sessions_def session_files_def sort_desc_def List.map_filter_def)
  have n: "co_session_id (sample_council b_raises) \<notin> set (dkeys (sy_sessions demo_system))" "length (sy_sessions demo_system) < 50"
    by (simp_all add: demo_system_def)
  have w: "co_session_written (sample_council b_raises)" by (simp add: sample_council_def)
  have nt: "co_fetch (sample_council b_raises) k m q \<noteq> NoText" for k m q by (simp add: sample_council_def b_raises_def)
  obtain a s' where a: "ask_question (sample_council b_raises) demo_prompt demo_system = (Inr a, s')"
      "aa_session_id a = Some (co_session_id (sample_council b_raises))"
    using ask_stored [OF v(1,2), where c = "sample_council b_raises" and sd = "sy_sessions demo_system" and ld = "sy_ledger demo_system"] w nt
    by (auto simp: ask_question_def split: prod.splits sum.splits)
  show ?thesis using asked_session_served [OF v(1,2) n, where n = 50] a v(3) z by auto
qed


end
