(* ===== verification/Plugin_Api.thy ===== *)
theory Plugin_Api
  imports Plugins
begin

text \<open>
  The routes of \<^verbatim>\<open>maestro/api_plugins.py\<close> over the mod manager, which the first request creates.  A route that raises an
  \<^verbatim>\<open>HTTPException\<close> gives its status and detail; an exception of the manager is a 500 without text.
\<close>

section \<open>The shared manager\<close>

type_synonym 'a response = "(nat \<times> string) + 'a"

text \<open>
  \<^verbatim>\<open>_get_manager\<close>: the manager is assigned before it discovers the plugins, so a discovery that raises fails the
  request and still leaves a manager for the next one.  \<^term>\<open>fresh\<close> is the manager that the directories give.
\<close>

definition with_manager ::
    "('cb, 'ag, 'p) mod_manager \<Rightarrow> (('cb, 'ag, 'p) mod_manager \<Rightarrow> 'a response \<times> ('cb, 'ag, 'p) mod_manager)
     \<Rightarrow> ('cb, 'ag, 'p) mod_manager option \<Rightarrow> 'a response \<times> ('cb, 'ag, 'p) mod_manager option" where
  "with_manager fresh route manager =
     (case manager of
        Some m \<Rightarrow> map_prod id Some (route m)
      | None \<Rightarrow> (case discover fresh of
            (Inl _, m) \<Rightarrow> (Inl (500, []), Some m)
          | (Inr _, m) \<Rightarrow> map_prod id Some (route m)))"

section \<open>Plugins\<close>

definition discover_plugins ::
    "('cb, 'ag, 'p) mod_manager \<Rightarrow> (string \<times> string \<times> string) list response \<times> ('cb, 'ag, 'p) mod_manager" where
  "discover_plugins m =
     (case discover m of
        (Inl _, m1) \<Rightarrow> (Inl (500, []), m1)
      | (Inr found, m1) \<Rightarrow> (Inr (map (\<lambda>f. (pm_plugin_id f, pm_name f, pm_version f)) found), m1))"

text \<open>The end of the routes that call a function which answers yes or no.\<close>

definition accepted :: "nat \<Rightarrow> string \<Rightarrow> 'a \<Rightarrow> (mod_error + bool) \<times> ('cb, 'ag, 'p) mod_manager
     \<Rightarrow> 'a response \<times> ('cb, 'ag, 'p) mod_manager" where
  "accepted status detail x result =
     (case result of
        (Inl _, m) \<Rightarrow> (Inl (500, []), m)
      | (Inr success, m) \<Rightarrow> (if success then Inr x else Inl (status, detail), m))"

definition enable_plugin ::
    "nat \<Rightarrow> ('cb, 'ag, 'p) plugin_methods \<Rightarrow> string \<Rightarrow> ('cb, 'ag, 'p) mod_manager
     \<Rightarrow> string response \<times> ('cb, 'ag, 'p) mod_manager" where
  "enable_plugin depth P pid m =
     (let (loaded, m1) = load pid m
      in if \<not> loaded then (Inl (400, ''Failed to load plugin: '' @ pid), m1)
         else accepted 400 (''Failed to enable plugin: '' @ pid) pid (enable depth P pid m1))"

definition disable_plugin ::
    "('cb, 'ag, 'p) plugin_methods \<Rightarrow> string \<Rightarrow> ('cb, 'ag, 'p) mod_manager \<Rightarrow> string response \<times> ('cb, 'ag, 'p) mod_manager" where
  "disable_plugin P pid m =
     (let (success, m1) = disable P pid m in (if success then Inr pid else Inl (400, ''Failed to disable plugin: '' @ pid), m1))"

definition reload_plugin ::
    "nat \<Rightarrow> ('cb, 'ag, 'p) plugin_methods \<Rightarrow> string \<Rightarrow> ('cb, 'ag, 'p) mod_manager
     \<Rightarrow> string response \<times> ('cb, 'ag, 'p) mod_manager" where
  "reload_plugin depth P pid m = accepted 400 (''Failed to reload plugin: '' @ pid) pid (plugin_reload depth P pid m)"

definition plugin_details ::
    "('cb, 'ag, 'p) plugin_methods \<Rightarrow> string \<Rightarrow> ('cb, 'ag, 'p) mod_manager \<Rightarrow> plugin_info response" where
  "plugin_details P pid m =
     (case get_plugin_info P m pid of None \<Rightarrow> Inl (404, ''Plugin not found: '' @ pid) | Some info \<Rightarrow> Inr info)"

definition configure_plugin ::
    "('cb, 'ag, 'p) plugin_methods \<Rightarrow> string \<Rightarrow> config \<Rightarrow> ('cb, 'ag, 'p) mod_manager
     \<Rightarrow> string response \<times> ('cb, 'ag, 'p) mod_manager" where
  "configure_plugin P pid config m = accepted 400 ''Config update failed'' pid (update_plugin_config P pid config m)"

section \<open>Snapshots\<close>

definition create_snapshot ::
    "string \<Rightarrow> string \<Rightarrow> string \<Rightarrow> string \<Rightarrow> ('cb, 'ag, 'p) mod_manager
     \<Rightarrow> (string \<times> string \<times> string) response \<times> ('cb, 'ag, 'p) mod_manager" where
  "create_snapshot uuid now name description m =
     (let (snap, m1) = save_snapshot uuid now name description m
      in (Inr (ws_snapshot_id snap, ws_name snap, ws_created_at snap), m1))"

definition restore_snapshot_route ::
    "nat \<Rightarrow> ('cb, 'ag, 'p) plugin_methods \<Rightarrow> string \<Rightarrow> ('cb, 'ag, 'p) mod_manager
     \<Rightarrow> string response \<times> ('cb, 'ag, 'p) mod_manager" where
  "restore_snapshot_route depth P sid m = accepted 400 ''Snapshot restore failed'' sid (restore_snapshot depth P sid m)"

definition get_snapshot :: "string \<Rightarrow> ('cb, 'ag, 'p) mod_manager \<Rightarrow> WeightStateSnapshot response" where
  "get_snapshot sid m = (case load_snapshot m sid of None \<Rightarrow> Inl (404, ''Snapshot not found: '' @ sid) | Some data \<Rightarrow> Inr data)"

definition delete_snapshot_route ::
    "string \<Rightarrow> ('cb, 'ag, 'p) mod_manager \<Rightarrow> string response \<times> ('cb, 'ag, 'p) mod_manager" where
  "delete_snapshot_route sid m =
     (let (deleted, m1) = delete_snapshot sid m in (if deleted then Inr sid else Inl (404, ''Snapshot not found: '' @ sid), m1))"

section \<open>Lemmas\<close>

text \<open>The requests that can change the manager.\<close>

datatype plugin_request =
    DiscoverAll | EnablePlugin string | DisablePlugin string | ReloadPlugin string | Configure string config
  | CreateSnapshot string string string string | RestoreSnapshot string | DeleteSnapshot string

definition after_route ::
    "nat \<Rightarrow> ('cb, 'ag, 'p) plugin_methods \<Rightarrow> plugin_request \<Rightarrow> ('cb, 'ag, 'p) mod_manager \<Rightarrow> ('cb, 'ag, 'p) mod_manager" where
  "after_route depth P request m =
     (case request of
        DiscoverAll \<Rightarrow> snd (discover_plugins m)
      | EnablePlugin pid \<Rightarrow> snd (enable_plugin depth P pid m)
      | DisablePlugin pid \<Rightarrow> snd (disable_plugin P pid m)
      | ReloadPlugin pid \<Rightarrow> snd (reload_plugin depth P pid m)
      | Configure pid config \<Rightarrow> snd (configure_plugin P pid config m)
      | CreateSnapshot uuid now name description \<Rightarrow> snd (create_snapshot uuid now name description m)
      | RestoreSnapshot sid \<Rightarrow> snd (restore_snapshot_route depth P sid m)
      | DeleteSnapshot sid \<Rightarrow> snd (delete_snapshot_route sid m))"

lemma snd_accepted [simp]: "snd (accepted status detail x result) = snd result"
  by (cases result) (simp add: accepted_def split: sum.splits)

lemma accepted_Inr: "accepted status detail x result = (Inr y, m) \<longleftrightarrow> result = (Inr True, m) \<and> y = x"
  by (cases result) (auto simp: accepted_def split: sum.splits if_splits)

lemma reachable_load: "mm_reachable P m \<Longrightarrow> mm_reachable P (snd (load pid m))"
  by (rule mm_next [OF _ mm_step.load])

lemma after_route_reachable: "mm_reachable P m \<Longrightarrow> mm_reachable P (after_route depth P request m)"
proof (cases request)
  case (EnablePlugin pid)
  assume m: "mm_reachable P m"
  have "mm_reachable P (snd (enable depth P pid (snd (load pid m))))"
    using m by (intro mm_next [OF _ mm_step.enable] reachable_load)
  then show ?thesis using EnablePlugin reachable_load [OF m, of pid]
    by (simp add: after_route_def enable_plugin_def case_prod_unfold Let_def)
next
  case DiscoverAll
  assume "mm_reachable P m"
  moreover have "snd (discover_plugins m) = snd (discover m)" by (simp add: discover_plugins_def split: prod.split sum.split)
  ultimately show ?thesis using DiscoverAll mm_next [OF _ mm_step.discover] by (metis after_route_def plugin_request.case(1))
qed (auto simp: after_route_def disable_plugin_def reload_plugin_def configure_plugin_def create_snapshot_def
    restore_snapshot_route_def delete_snapshot_route_def case_prod_unfold Let_def
    intro: mm_next mm_step.disable mm_step.reload mm_step.update_config mm_step.save mm_step.restore mm_step.delete)

lemma first_request:
  assumes "mm_reachable P (snd (discover fresh))"
  shows "\<exists>m. snd (with_manager fresh (\<lambda>m. (Inr (), after_route depth P request m)) None) = Some m \<and> mm_reachable P m"
  using assms after_route_reachable [OF assms]
  by (cases "discover fresh"; cases "fst (discover fresh)") (auto simp: with_manager_def)

lemma load_enabled: "on m pid \<Longrightarrow> load pid m = (True, m)"
  by (auto simp: load_def state_of_def split: option.splits)

section \<open>Properties\<close>

text \<open>
  Library fact: Whatever requests arrive in whatever order, after the first one there is a manager, also when its discovery raised, and it is one
  that the operations of the manager can reach, so that all its invariants hold behind the API.
\<close>

theorem plugin_api_reachable:
  "\<exists>m. fold (\<lambda>request st. snd (with_manager (new_manager installed snapshots rc)
        (\<lambda>m. (Inr (), after_route depth P request m)) st)) (request # requests) None = Some m
     \<and> mm_reachable P m"
proof -
  let ?fresh = "new_manager installed snapshots rc"
  let ?step = "\<lambda>request st. snd (with_manager ?fresh (\<lambda>m. (Inr (), after_route depth P request m)) st)"
  have d: "mm_reachable P (snd (discover ?fresh))" by (rule mm_next [OF mm_init mm_step.discover])
  have first: "\<exists>m. ?step request None = Some m \<and> mm_reachable P m" using first_request [OF d] .
  have "\<exists>m'. fold ?step rs (Some m) = Some m' \<and> mm_reachable P m'" if "mm_reachable P m" for rs m
    using that by (induction rs arbitrary: m) (simp_all add: with_manager_def after_route_reachable)
  then show ?thesis using first by auto
qed

text \<open>
  Library fact: The enable route answers with success only when the plugin is then enabled; asking again gives the same answer and changes nothing, no plugin enabled
  before is lost, and when the known dependencies of the enabled plugins were enabled before, they all are after.
\<close>

theorem enable_route_idempotent:
  assumes "enable_plugin (Suc depth) P pid m = (Inr x, m')" "dependencies_on m"
  shows "x = pid \<and> state_of m' pid = Some ENABLED \<and> dependencies_on m'
    \<and> enable_plugin (Suc depth) P pid m' = (Inr x, m')
    \<and> (\<forall>q. state_of m q = Some ENABLED \<longrightarrow> state_of m' q = Some ENABLED)"
proof -
  obtain loaded m1 where l: "load pid m = (loaded, m1)" by fastforce
  have e: "enable (Suc depth) P pid m1 = (Inr True, m')" "x = pid"
    using assms(1) l by (auto simp: enable_plugin_def accepted_Inr split: if_splits)
  have m1: "m1 = snd (load pid m)" using l by simp
  have d: "dependencies_on m1" using dependencies_on_cong [of m1 m] assms(2) by (simp add: m1)
  have on: "on m' pid" "dependencies_on m'" "\<And>q. on m1 q \<Longrightarrow> on m' q"
    using en.en_true [of "Suc depth" P pid m1] en.en_closed [of "Suc depth" P pid m1] en.en_keeps [of m1 _ "Suc depth" P pid] e(1) d
    by (simp_all del: enable.simps)
  have "enable_plugin (Suc depth) P pid m' = (Inr x, m')"
    using load_enabled [OF on(1)] enable_on [OF on(1)] e(2) by (simp add: enable_plugin_def accepted_def del: enable.simps)
  then show ?thesis using on e(2) by (simp add: m1 del: enable.simps)
qed

section \<open>Sample instances\<close>

lemma enable_route_idempotent_witness:
  "let m = snd (enable_plugin 3 (demo_methods True) ''app'' demo_found) in
     state_of m ''base'' = Some ENABLED \<and> enable_plugin 3 (demo_methods True) ''app'' m = (Inr ''app'', m)"
proof -
  let ?m = "snd (enable_plugin 3 (demo_methods True) ''app'' demo_found)"
  have "fst (enable_plugin 3 (demo_methods True) ''app'' demo_found) = Inr ''app''" by code_simp
  then have m: "enable_plugin (Suc 2) (demo_methods True) ''app'' demo_found = (Inr ''app'', ?m)"
    by (simp add: prod_eq_iff numeral_3_eq_3 numeral_2_eq_2)
  have "state_of ?m ''base'' = Some ENABLED" by code_simp
  then show ?thesis using enable_route_idempotent [OF m demo_dependencies_on] by (simp add: numeral_3_eq_3 numeral_2_eq_2 Let_def)
qed

end
