(* ===== verification/Node_Server.thy ===== *)
theory Node_Server
  imports Agents Storage_Network Cluster
begin

text \<open>
  The rest of \<^verbatim>\<open>maestro/node_server.py\<close>: the inference route of a node, what it lists of itself, and its life from the
  start, when it registers with the state bus and the orchestrator, to its end.  Together with the shard agent of
  Agents this gives the distributed inference as it runs over real nodes.
\<close>

section \<open>Inference\<close>

record ActivationPayload =
  ap_session_id :: string
  ap_model_id :: string
  ap_prompt :: "string option"
  ap_sequence_length :: int
  ap_hidden_dim :: int
  ap_dtype :: string
  ap_activations_b64 :: string
  ap_layer_completed :: int
  ap_layer_target :: int
  ap_kv_cache_b64 :: "string option"
  ap_metadata :: "(string, json) dict"

text \<open>
  The validation of a body: a required field must be there, a missing one has its default, and a value of another type is
  refused, also one that pydantic would convert, such as a number written as a text.
\<close>

definition body_field :: "(json \<Rightarrow> 'a option) \<Rightarrow> 'a option \<Rightarrow> string \<Rightarrow> (string, json) dict \<Rightarrow> 'a option" where
  "body_field convert dflt k d = (case map_of d k of None \<Rightarrow> dflt | Some v \<Rightarrow> convert v)"

definition as_text :: "json \<Rightarrow> string option" where
  "as_text v = (case v of JStr s \<Rightarrow> Some s | _ \<Rightarrow> None)"

definition as_number :: "json \<Rightarrow> int option" where
  "as_number v = (case v of JInt i \<Rightarrow> Some i | _ \<Rightarrow> None)"

definition as_optional :: "json \<Rightarrow> string option option" where
  "as_optional v = (case v of JNull \<Rightarrow> Some None | JStr s \<Rightarrow> Some (Some s) | _ \<Rightarrow> None)"

definition as_object :: "json \<Rightarrow> (string, json) dict option" where
  "as_object v = (case v of JObj d \<Rightarrow> Some d | _ \<Rightarrow> None)"

definition activation_of :: "json \<Rightarrow> ActivationPayload option" where
  "activation_of p = Option.bind (as_object p) (\<lambda>d.
     case (body_field as_text None ''session_id'' d, body_field as_text None ''model_id'' d,
           body_field as_optional (Some None) ''prompt'' d, body_field as_number (Some 0) ''sequence_length'' d,
           body_field as_number (Some 0) ''hidden_dim'' d, body_field as_text (Some ''float16'') ''dtype'' d,
           body_field as_text (Some []) ''activations_b64'' d, body_field as_number (Some (-1)) ''layer_completed'' d,
           body_field as_number (Some (-1)) ''layer_target'' d, body_field as_optional (Some None) ''kv_cache_b64'' d,
           body_field as_object (Some []) ''metadata'' d) of
       (Some s, Some m, Some pr, Some l, Some h, Some t, Some a, Some c, Some g, Some k, Some e) \<Rightarrow>
         Some \<lparr>ap_session_id = s, ap_model_id = m, ap_prompt = pr, ap_sequence_length = l, ap_hidden_dim = h, ap_dtype = t,
               ap_activations_b64 = a, ap_layer_completed = c, ap_layer_target = g, ap_kv_cache_b64 = k, ap_metadata = e\<rparr>
     | _ \<Rightarrow> None)"

definition response_text :: "string \<Rightarrow> ActivationPayload \<Rightarrow> string" where
  "response_text node_id p =
     (case ap_prompt p of
        Some (c # cs) \<Rightarrow> ''['' @ node_id @ ''] Inference result for: '' @ take 200 (c # cs)
      | _ \<Rightarrow> ''['' @ node_id @ ''] Processed through layers '' @ int_str (ap_layer_completed p + 1) @ ''-'' @ int_str (ap_layer_target p)
               @ '' for model '' @ ap_model_id p)"

text \<open>\<^term>\<open>None\<close> is an exception: a hop number that is not a number.\<close>

definition infer_on :: "string \<Rightarrow> node_state \<Rightarrow> ActivationPayload \<Rightarrow> json option" where
  "infer_on now st p =
     (let text = response_text (no_node_id st) p
      in map_option (\<lambda>hop.
           JObj [(''session_id'', JStr (ap_session_id p)), (''model_id'', JStr (ap_model_id p)),
             (''sequence_length'', JInt (ap_sequence_length p)),
             (''hidden_dim'', JInt (if ap_hidden_dim p = 0 then 4096 else ap_hidden_dim p)), (''dtype'', JStr (ap_dtype p)),
             (''activations_b64'', JStr (b64encode (utf8_encode text))), (''layer_completed'', JInt (ap_layer_target p)),
             (''layer_target'', JInt (ap_layer_target p)), (''decoded_text'', JStr text),
             (''metadata'', JObj [(''source_node'', JStr (no_node_id st)), (''pipeline_hop'', JInt (hop + 1)),
                (''timestamp'', JStr now), (''shards_on_disk'', JInt (int (length (no_file_map st))))])])
         (json_number (dget (ap_metadata p) ''pipeline_hop'' (JInt 0))))"

text \<open>
  The POST of the shard agent to a node that runs this server; \<^term>\<open>refusal\<close> is the text of the exception that a status of
  422 or 500 makes on the side of the agent.
\<close>

definition node_infer :: "string \<Rightarrow> (WeightHost \<Rightarrow> node_state) \<Rightarrow> string \<Rightarrow> infer" where
  "node_infer now node_of refusal host p =
     (case Option.bind (activation_of p) (infer_on now (node_of host)) of None \<Rightarrow> Inl refusal | Some r \<Rightarrow> Inr r)"

section \<open>What a node says of itself\<close>

record node_health =
  nh_node_id :: string
  nh_shards_declared :: nat
  nh_shards_on_disk :: nat
  nh_shards :: "NodeShard list"
  nh_total_size_mb :: nat
  nh_uptime :: real

definition node_health_of :: "(string, bytes) dict \<Rightarrow> real \<Rightarrow> real \<Rightarrow> node_state \<Rightarrow> node_health" where
  "node_health_of fs started now st =
     \<lparr>nh_node_id = no_node_id st, nh_shards_declared = length (no_loaded_shards st), nh_shards_on_disk = length (no_file_map st),
      nh_shards = no_loaded_shards st, nh_total_size_mb = total_shard_size_mb fs st, nh_uptime = round1 (now - started)\<rparr>"

text \<open>\<^verbatim>\<open>GET /shards\<close>: each shard with \<^verbatim>\<open>file_on_disk\<close> and \<^verbatim>\<open>file_verified\<close>.\<close>

definition resident_shards :: "(string, bytes) dict \<Rightarrow> node_state \<Rightarrow> (NodeShard \<times> bool \<times> bool) list" where
  "resident_shards fs st =
     map (\<lambda>s. let filepath = map_of (no_file_map st) (ns_shard_id s)
              in (s, filepath \<noteq> None, (case filepath of None \<Rightarrow> False | Some p \<Rightarrow> p \<in> set (dkeys fs)))) (no_loaded_shards st)"

definition heartbeat_ack :: "node_state \<Rightarrow> bool \<times> string" where
  "heartbeat_ack st = (True, no_node_id st)"

definition task_result :: "'r redis \<Rightarrow> string \<Rightarrow> string \<Rightarrow> (string, json) dict \<Rightarrow> 'r bus \<Rightarrow> string \<times> 'r bus" where
  "task_result rd now task_id result b = (task_id, complete_task rd now task_id (JObj result) b)"

section \<open>The life of a node\<close>

definition shard_json :: "NodeShard \<Rightarrow> json" where
  "shard_json s = JObj [(''shard_id'', JStr (ns_shard_id s)), (''filepath'', JStr (ns_filepath s)), (''size_bytes'', JInt (int (ns_size_bytes s))),
     (''model_id'', JStr (ns_model_id s)), (''layer_range'', JList (map JInt (ns_layer_range s)))]"

definition bus_info :: "ClusterConfig \<Rightarrow> node_state \<Rightarrow> (string, json) dict" where
  "bus_info cfg st =
     [(''role'', JStr (cc_role cfg)), (''shard_index'', (case cc_shard_index cfg of None \<Rightarrow> JNull | Some i \<Rightarrow> JInt i)),
      (''shard_count'', JInt (cc_shard_count cfg)), (''shards'', JList (map shard_json (no_loaded_shards st)))]"

text \<open>
  \<^verbatim>\<open>register_with_orchestrator\<close>, which the heartbeat repeats: nothing without an orchestrator, and nothing when it cannot be
  reached.
\<close>

definition report_to_orchestrator ::
    "(string, bytes) dict \<Rightarrow> string \<Rightarrow> string \<Rightarrow> string \<Rightarrow> nat \<Rightarrow> bool \<Rightarrow> real \<Rightarrow> node_state \<Rightarrow> registry \<Rightarrow> registry" where
  "report_to_orchestrator fs url advertised host port reachable now st rg =
     (if url = [] \<or> \<not> reachable then rg
      else node_payload fs (if advertised \<noteq> [] then advertised else host) port now st rg)"

definition start_node ::
    "'r redis \<Rightarrow> (string, bytes) dict \<Rightarrow> shard_config_file \<Rightarrow> ClusterConfig \<Rightarrow> string \<Rightarrow> string \<Rightarrow> string \<Rightarrow> nat \<Rightarrow> bool
     \<Rightarrow> real \<Rightarrow> string \<Rightarrow> node_state \<Rightarrow> 'r bus \<Rightarrow> registry \<Rightarrow> node_state \<times> 'r bus \<times> registry" where
  "start_node rd fs config cfg url advertised host port reachable now now_text st0 b rg =
     (let st = load_shard_config fs config st0
      in (st, register_shard rd now_text (no_node_id st) (bus_info cfg st) b,
          report_to_orchestrator fs url advertised host port reachable now st rg))"

definition stop_node :: "'r redis \<Rightarrow> node_state \<Rightarrow> 'r bus \<Rightarrow> 'r bus" where
  "stop_node rd st b = unregister_shard rd (no_node_id st) b"

section \<open>Lemmas\<close>

text \<open>
  What is true of every payload on its way through nodes: it is accepted, it is of the model, and its layer numbers are still
  those of the start.
\<close>

definition in_transit :: "string \<Rightarrow> string option \<Rightarrow> (string, json) dict \<Rightarrow> bool" where
  "in_transit model_id prompt d \<longleftrightarrow> (\<exists>m p. map_of d ''metadata'' = Some (JObj m) \<and> activation_of (JObj d) = Some p
     \<and> ap_model_id p = model_id \<and> ap_prompt p = prompt \<and> ap_layer_completed p = -1 \<and> ap_layer_target p = -1)"

lemma body_field_other: "k \<noteq> k' \<Longrightarrow> body_field f x k (dset k' v d) = body_field f x k d"
  by (simp add: body_field_def)

lemma activation_metadata:
  "activation_of (JObj d) = Some p \<Longrightarrow> activation_of (JObj (dset ''metadata'' (JObj m) d)) = Some (p\<lparr>ap_metadata := m\<rparr>)"
  by (auto simp: activation_of_def as_object_def body_field_other split: option.splits)
    (auto simp: body_field_def as_object_def)

lemma activation_layers:
  assumes "activation_of (JObj d) = Some p"
  shows "body_field as_number (Some (-1)) ''layer_completed'' d = Some (ap_layer_completed p)"
    "body_field as_number (Some (-1)) ''layer_target'' d = Some (ap_layer_target p)"
  using assms by (auto simp: activation_of_def as_object_def split: option.splits)

lemma payload_layer_field: "body_field as_number (Some (-1)) k d = Some i \<Longrightarrow> payload_layer k (JObj d) = Some i"
  by (auto simp: body_field_def as_number_def payload_layer_def dget_def split: option.splits json.splits)

lemma initial_in_transit:
  "\<exists>d. initial_payload a sid prompt k = JObj d \<and> in_transit (sa_model_id a) (Some prompt) d"
  by (simp add: initial_payload_def in_transit_def activation_of_def body_field_def as_object_def as_text_def as_number_def as_optional_def)

lemma infer_on_in_transit:
  assumes "ap_layer_target p = -1" "json_number (dget (ap_metadata p) ''pipeline_hop'' (JInt 0)) = Some h"
  shows "\<exists>d. infer_on now st p = Some (JObj d) \<and> in_transit (ap_model_id p) None d
    \<and> map_of d ''decoded_text'' = Some (JStr (response_text (no_node_id st) p))"
  using assms by (simp add: infer_on_def Let_def in_transit_def activation_of_def body_field_def as_object_def as_text_def as_number_def
      as_optional_def)

lemma node_step:
  assumes "in_transit model_id prompt d"
  shows "\<exists>d' p'. address_payload i k (JObj d) = Some (JObj d') \<and> activation_of (JObj d') = Some p'
    \<and> in_transit model_id prompt d' \<and> ap_model_id p' = model_id \<and> ap_prompt p' = prompt \<and> ap_layer_completed p' = -1
    \<and> ap_layer_target p' = -1 \<and> json_number (dget (ap_metadata p') ''pipeline_hop'' (JInt 0)) = Some (int i)"
proof -
  obtain m p where m: "map_of d ''metadata'' = Some (JObj m)" "activation_of (JObj d) = Some p" "ap_model_id p = model_id" "ap_prompt p = prompt"
    "ap_layer_completed p = -1" "ap_layer_target p = -1" using assms by (auto simp: in_transit_def)
  let ?m = "dset ''target_node'' (JStr k) (dset ''pipeline_hop'' (JInt (int i)) m)"
  have "activation_of (JObj (dset ''metadata'' (JObj ?m) d)) = Some (p\<lparr>ap_metadata := ?m\<rparr>)" using activation_metadata [OF m(2)] .
  then show ?thesis using m by (intro exI [of _ "dset ''metadata'' (JObj ?m) d"] exI [of _ "p\<lparr>ap_metadata := ?m\<rparr>"])
      (simp add: in_transit_def)
qed

definition node_answer :: "string \<Rightarrow> string \<Rightarrow> string option \<Rightarrow> string" where
  "node_answer node_id model_id prompt =
     (case prompt of
        Some (c # cs) \<Rightarrow> ''['' @ node_id @ ''] Inference result for: '' @ take 200 (c # cs)
      | _ \<Rightarrow> ''['' @ node_id @ ''] Processed through layers 0--1 for model '' @ model_id)"

lemma response_is_answer:
  assumes "ap_layer_completed p = -1" "ap_layer_target p = -1"
  shows "response_text node_id p = node_answer node_id (ap_model_id p) (ap_prompt p)"
proof -
  have "int_str (- 1 + 1) @ ''-'' @ int_str (- 1) = ''0--1''" by code_simp
  then have "int_str (- 1 + 1) @ ''-'' @ int_str (- 1) @ t = ''0--1'' @ t" for t by (metis append.assoc)
  then show ?thesis using assms by (simp add: response_text_def node_answer_def split: option.splits list.splits)
qed

lemma node_answer_not_empty [simp]: "node_answer node_id model_id prompt \<noteq> []"
  by (simp add: node_answer_def split: option.splits list.splits)

lemma node_infer_step:
  assumes "in_transit model_id prompt d"
  shows "\<exists>d1 d'. address_payload i k (JObj d) = Some (JObj d1) \<and> in_transit model_id prompt d1
    \<and> node_infer now node_of refusal host (JObj d1) = Inr (JObj d') \<and> in_transit model_id None d'
    \<and> map_of d' ''decoded_text'' = Some (JStr (node_answer (no_node_id (node_of host)) model_id prompt))"
proof -
  obtain d1 p where d1: "address_payload i k (JObj d) = Some (JObj d1)" "activation_of (JObj d1) = Some p" "in_transit model_id prompt d1"
    "ap_model_id p = model_id" "ap_prompt p = prompt" "ap_layer_completed p = -1" "ap_layer_target p = -1"
    "json_number (dget (ap_metadata p) ''pipeline_hop'' (JInt 0)) = Some (int i)" using node_step [OF assms] by blast
  obtain d' where "infer_on now (node_of host) p = Some (JObj d')" "in_transit (ap_model_id p) None d'"
    "map_of d' ''decoded_text'' = Some (JStr (response_text (no_node_id (node_of host)) p))"
    using infer_on_in_transit [OF d1(7,8)] by blast
  then show ?thesis using d1 response_is_answer [OF d1(6,7)] by (intro exI [of _ d1] exI [of _ d']) (simp add: node_infer_def)
qed

lemma node_hops:
  assumes "in_transit model_id prompt d" "nodes \<noteq> []"
  shows "\<exists>d'. run_hops (node_infer now node_of refusal) rg a i nodes (JObj d) = Arrived (JObj d')
     \<and> map_of d' ''decoded_text'' = Some (JStr (node_answer (no_node_id (node_of (last nodes))) model_id
          (if length nodes = 1 then prompt else None)))"
  using assms
proof (induction nodes arbitrary: d prompt i)
  case (Cons n nodes)
  obtain d1 d' where s: "address_payload i (wh_node_id n) (JObj d) = Some (JObj d1)"
    "node_infer now node_of refusal n (JObj d1) = Inr (JObj d')" "in_transit model_id None d'"
    "map_of d' ''decoded_text'' = Some (JStr (node_answer (no_node_id (node_of n)) model_id prompt))"
    using node_infer_step [OF Cons.prems(1), of i "wh_node_id n" now node_of refusal n] by blast
  have step: "run_hops (node_infer now node_of refusal) rg a i (n # nodes) (JObj d)
      = run_hops (node_infer now node_of refusal) rg a (i + 1) nodes (JObj d')"
    using s(1,2) by (simp del: address_payload.simps)
  show ?case
  proof (cases "nodes = []")
    case True
    then show ?thesis using step s(4) by simp
  next
    case False
    then show ?thesis using Cons.IH [OF s(3) False, of "i + 1"] step by (simp split: if_splits)
  qed
qed simp

section \<open>Properties\<close>

text \<open>
  C23: The distributed inference over real nodes answers, and with what: as long as the trusted hosts of the route run the node
  server and answer, the text is the one of the last host; with a single host it is the inference on the first 200
  characters of the prompt, with more it only names the layers 0 to -1, for neither the prompt nor the layers of a host are
  passed on.
\<close>

theorem distributed_answer_exact:
  assumes "sa_registry a = Some rg" "trusted_route a \<noteq> []"
  shows "shard_fetch (node_infer now node_of refusal) u sr crash sid a prompt
    = JStr (node_answer (no_node_id (node_of (last (trusted_route a)))) (sa_model_id a)
        (if length (trusted_route a) = 1 then Some prompt else None))"
proof -
  obtain d where d: "initial_payload a sid prompt (length (trusted_route a)) = JObj d" "in_transit (sa_model_id a) (Some prompt) d"
    using initial_in_transit by blast
  obtain d' where r: "run_hops (node_infer now node_of refusal) rg a 0 (trusted_route a) (JObj d) = Arrived (JObj d')"
    "map_of d' ''decoded_text'' = Some (JStr (node_answer (no_node_id (node_of (last (trusted_route a)))) (sa_model_id a)
        (if length (trusted_route a) = 1 then Some prompt else None)))"
    using node_hops [OF d(2) assms(2), of now node_of refusal rg a 0] by blast
  then show ?thesis
    using d(1) by (simp add: shard_fetch_trusted [OF assms] execute_pipeline_def final_text_def dget_def)
qed

text \<open>
  Library fact: A host that fails in the middle of a pipeline of real nodes is replaced by one that serves the first layers, whichever layers
  it had: the payload still says that no layer is completed.
\<close>

theorem failover_takes_first_layers:
  assumes "in_transit model_id prompt d" "failover infer rg model_id failed (JObj d) = Some r"
  shows "\<exists>n. n \<in> set (find_nodes_for_shard rg model_id 0 (-1)) \<and> wh_node_id n \<noteq> wh_node_id failed \<and> infer n (JObj d) = Inr r"
proof -
  obtain p where p: "activation_of (JObj d) = Some p" "ap_layer_completed p = -1" "ap_layer_target p = -1"
    using assms(1) by (auto simp: in_transit_def)
  then have "payload_layer ''layer_completed'' (JObj d) = Some (-1)" "payload_layer ''layer_target'' (JObj d) = Some (-1)"
    using activation_layers [OF p(1)] payload_layer_field by metis+
  then show ?thesis using failover_sound [OF assms(2)] by auto
qed

text \<open>
  Library fact: A node that starts with a reachable orchestrator is in service there with the shards of its file and is listed on the
  bus; when it stops it leaves the bus, but nothing takes it out of the registry.
\<close>

theorem started_node_is_served:
  assumes "start_node rd fs config cfg url advertised host port True now now_text st0 (Some r) rg = (st, b, rg')" "url \<noteq> []"
    "redis_laws rd" "redis_up rd"
  shows "(\<exists>h. get_node rg' (no_node_id st) = Some h \<and> serving h \<and> wh_shards h = map shard_dict_of (no_loaded_shards st))
    \<and> bus_hget rd ''maestro:shards'' (no_node_id st) b \<noteq> None
    \<and> bus_hget rd ''maestro:shards'' (no_node_id st) (stop_node rd st b) = None"
proof -
  have st: "st = load_shard_config fs config st0" "b = register_shard rd now_text (no_node_id st) (bus_info cfg st) (Some r)"
    "rg' = node_payload fs (if advertised \<noteq> [] then advertised else host) port now st rg"
    using assms(1,2) by (auto simp: start_node_def Let_def report_to_orchestrator_def)
  obtain r1 where r1: "rd_hset rd ''maestro:shards'' (no_node_id st)
      (merged [(''node_id'', JStr (no_node_id st)), (''registered_at'', JStr now_text)] (bus_info cfg st)) r = Some r1"
    using assms(4) unfolding redis_up_def by blast
  obtain r2 where r2: "rd_hdel rd ''maestro:shards'' (no_node_id st) r1 = Some r2" using assms(4) unfolding redis_up_def by blast
  have b: "b = Some r1" using st(2) r1 by (simp add: register_shard_def try_cmd_def)
  have "bus_hget rd ''maestro:shards'' (no_node_id st) b \<noteq> None"
    using hset_hget [OF assms(3) r1] by (simp add: b bus_hget_def)
  moreover have "bus_hget rd ''maestro:shards'' (no_node_id st) (stop_node rd st b) = None"
    using hdel_hget [OF assms(3) r2] r2 by (simp add: b stop_node_def unregister_shard_def try_cmd_def bus_hget_def)
  moreover have "\<exists>h. get_node rg' (no_node_id st) = Some h \<and> serving h \<and> wh_shards h = map shard_dict_of (no_loaded_shards st)"
    by (simp add: st(3) node_payload_def register_node_def register_def put_node_def new_host_def prepared_def get_node_def
        serving_def save_node_def)
  ultimately show ?thesis by blast
qed

section \<open>Samples and findings\<close>

definition sample_node_state :: "WeightHost \<Rightarrow> node_state" where
  "sample_node_state host = \<lparr>no_node_id = wh_node_id host, no_loaded_shards = [], no_file_map = []\<rparr>"

definition sample_shard_agent :: "registry \<Rightarrow> shard_agent" where
  "sample_shard_agent rg = sample_agent\<lparr>sa_registry := Some rg, sa_proof_engine := None, sa_model_id := ''m''\<rparr>"

lemma sample_shard_route:
  "trusted_route (sample_shard_agent one_host) = [sample_host ''a'' [0, 3]]"
  "trusted_route (sample_shard_agent sample_registry) = [sample_host ''a'' [0, 3], sample_host ''b'' [4, 7]]"
  by (simp_all add: trusted_route_def sample_shard_agent_def one_host_route two_hosts_route)

lemma distributed_answer_exact_witness:
  "shard_fetch (node_infer [] sample_node_state []) (\<lambda>_. []) (\<lambda>_. []) [] ''s'' (sample_shard_agent one_host) ''why''
     = JStr ''[a] Inference result for: why''
   \<and> shard_fetch (node_infer [] sample_node_state []) (\<lambda>_. []) (\<lambda>_. []) [] ''s'' (sample_shard_agent sample_registry) ''why''
     = JStr ''[b] Processed through layers 0--1 for model m''"
proof -
  have "sa_registry (sample_shard_agent rg) = Some rg" "sa_model_id (sample_shard_agent rg) = ''m''" for rg
    by (simp_all add: sample_shard_agent_def)
  then show ?thesis
    using distributed_answer_exact [of "sample_shard_agent one_host" one_host "[]" sample_node_state "[]" "\<lambda>_. []" "\<lambda>_. []" "[]" "''s''" "''why''"]
      distributed_answer_exact [of "sample_shard_agent sample_registry" sample_registry "[]" sample_node_state "[]" "\<lambda>_. []" "\<lambda>_. []" "[]" "''s''" "''why''"]
    by (simp add: sample_shard_route node_answer_def sample_node_state_def sample_host_def)
qed

text \<open>The host of the layers 4 to 7 is down: the host of the layers 0 to 3 answers for it.\<close>

definition b_down :: infer where
  "b_down n p = (if wh_node_id n = ''b'' then Inl ''ConnectError: '' else node_infer [] sample_node_state [] n p)"

lemma sample_alternatives:
  "alternatives_for sample_registry ''m'' (sample_host ''b'' [4, 7]) (-1) (-1) = [sample_host ''a'' [0, 3]]"
  by (simp add: alternatives_for_def find_nodes_for_shard_def list_nodes_def sample_registry_def sample_host_def serving_def range_of_def)

lemma failover_answers_with_wrong_layers:
  "execute_pipeline b_down u crash sid sample_registry (sample_shard_agent sample_registry) ''why''
     (trusted_route (sample_shard_agent sample_registry)) = JStr ''[a] Processed through layers 0--1 for model m''"
proof -
  let ?a = "sample_host ''a'' [0, 3]" let ?b = "sample_host ''b'' [4, 7]" let ?g = "sample_shard_agent sample_registry"
  have ids: "wh_node_id ?a = ''a''" "wh_node_id ?b = ''b''" "sa_model_id ?g = ''m''" "no_node_id (sample_node_state ?a) = ''a''"
    by (simp_all add: sample_host_def sample_shard_agent_def sample_node_state_def)
  obtain d where d: "initial_payload ?g sid ''why'' 2 = JObj d" "in_transit ''m'' (Some ''why'') d"
    using initial_in_transit [of ?g sid "''why''" 2] ids by auto
  obtain d1 d2 where s: "address_payload 0 ''a'' (JObj d) = Some (JObj d1)" "node_infer [] sample_node_state [] ?a (JObj d1) = Inr (JObj d2)"
    "in_transit ''m'' None d2" using node_infer_step [OF d(2), of 0 "''a''" "[]" sample_node_state "[]" ?a] by blast
  obtain d3 d4 where t: "address_payload 1 ''b'' (JObj d2) = Some (JObj d3)" "in_transit ''m'' None d3"
    "node_infer [] sample_node_state [] ?a (JObj d3) = Inr (JObj d4)"
    "map_of d4 ''decoded_text'' = Some (JStr (node_answer ''a'' ''m'' None))"
    using node_infer_step [OF s(3), of 1 "''b''" "[]" sample_node_state "[]" ?a] ids by auto
  obtain p where p: "activation_of (JObj d3) = Some p" "ap_layer_completed p = -1" "ap_layer_target p = -1"
    using t(2) by (auto simp: in_transit_def)
  have "failover b_down sample_registry ''m'' ?b (JObj d3) = Some (JObj d4)"
    using payload_layer_field [OF activation_layers(1) [OF p(1)]] payload_layer_field [OF activation_layers(2) [OF p(1)]] p(2,3) t(3)
    by (simp add: failover_def sample_alternatives b_down_def ids)
  moreover have "b_down ?a (JObj d1) = Inr (JObj d2)" "b_down ?b (JObj d3) = Inl ''ConnectError: ''"
    using s(2) by (simp_all add: b_down_def ids)
  ultimately have "run_hops b_down sample_registry ?g 0 [?a, ?b] (JObj d) = Arrived (JObj d4)"
    using s(1) t(1) by (simp add: ids del: address_payload.simps)
  then show ?thesis
    using d(1) t(4) by (simp add: sample_shard_route execute_pipeline_def final_text_def dget_def node_answer_def numeral_2_eq_2)
qed

end
