(* ===== verification/Storage_Api.thy ===== *)
theory Storage_Api
  imports Node_Server
begin

text \<open>
  The network routes of \<^verbatim>\<open>maestro/api_storage.py\<close> over the registry of the hosts and the proof engine, which the
  orchestrator shares between its requests.  A route that raises an \<^verbatim>\<open>HTTPException\<close> gives its status and detail.
\<close>

section \<open>The routes\<close>

record network =
  nw_registry :: registry
  nw_engine :: proof_engine

record NodeRegistration =
  rn_node_id :: string
  rn_host :: string
  rn_port :: nat
  rn_shards :: "ShardDict list"
  rn_capabilities :: "string list"
  rn_total_memory_mb :: nat

definition register_route :: "real \<Rightarrow> NodeRegistration \<Rightarrow> network \<Rightarrow> string \<times> network" where
  "register_route now reg s =
     (rn_node_id reg, s\<lparr>nw_registry := register_node now (rn_node_id reg) (rn_host reg) (rn_port reg) (rn_shards reg)
        (rn_capabilities reg) (rn_total_memory_mb reg) (nw_registry s)\<rparr>)"

definition node_not_found :: "string \<Rightarrow> nat \<times> string" where
  "node_not_found node_id = (404, ''Node not found: '' @ node_id)"

definition unregister_route :: "string \<Rightarrow> network \<Rightarrow> ((nat \<times> string) + string) \<times> network" where
  "unregister_route node_id s =
     (let (found, rg) = unregister node_id (nw_registry s)
      in (if found then Inr node_id else Inl (node_not_found node_id), s\<lparr>nw_registry := rg\<rparr>))"

definition nodes_route :: "network \<Rightarrow> nat \<times> WeightHost list" where
  "nodes_route s = (let nodes = list_nodes (nw_registry s) in (length nodes, nodes))"

definition node_route :: "string \<Rightarrow> network \<Rightarrow> (nat \<times> string) + WeightHost \<times> NodeReputation" where
  "node_route node_id s =
     (case get_node (nw_registry s) node_id of
        None \<Rightarrow> Inl (node_not_found node_id)
      | Some n \<Rightarrow> Inr (n, get_reputation (nw_engine s) node_id))"

definition trigger_challenge ::
    "(bytes \<Rightarrow> string) \<Rightarrow> string \<Rightarrow> nat \<Rightarrow> real \<Rightarrow> string \<Rightarrow> string \<Rightarrow> string \<Rightarrow> network \<Rightarrow> StorageChallenge \<times> network" where
  "trigger_challenge sha uuid random32 now node_id challenge_type shard_id s =
     (let (c, e) = issue_challenge sha uuid random32 now node_id (if shard_id \<noteq> [] then shard_id else ''default'') challenge_type (nw_engine s)
      in (c, s\<lparr>nw_engine := e\<rparr>))"

definition pipeline_route :: "string \<Rightarrow> network \<Rightarrow> nat \<times> (string \<times> string \<times> nat) list" where
  "pipeline_route model_id s =
     (let pipeline = build_inference_pipeline (nw_registry s) model_id []
      in (length pipeline, map (\<lambda>n. (wh_node_id n, wh_host n, wh_port n)) pipeline))"

definition redundancy_route :: "string \<Rightarrow> network \<Rightarrow> (string, string list) dict" where
  "redundancy_route model_id s = get_redundancy_map (nw_registry s) model_id"

definition reputations_route :: "network \<Rightarrow> NodeReputation list" where
  "reputations_route s = list_reputations (nw_engine s)"

section \<open>Lemmas\<close>

text \<open>The requests that change the network; the clock, the ids and the random numbers come with them.\<close>

datatype network_request =
    RegisterNode real NodeRegistration | UnregisterNode string | TriggerChallenge string nat real string string string

definition after_request :: "(bytes \<Rightarrow> string) \<Rightarrow> network_request \<Rightarrow> network \<Rightarrow> network" where
  "after_request sha request s =
     (case request of
        RegisterNode now reg \<Rightarrow> snd (register_route now reg s)
      | UnregisterNode node_id \<Rightarrow> snd (unregister_route node_id s)
      | TriggerChallenge uuid rnd now node_id kind shard_id \<Rightarrow> snd (trigger_challenge sha uuid rnd now node_id kind shard_id s))"

definition after_requests :: "(bytes \<Rightarrow> string) \<Rightarrow> network_request list \<Rightarrow> network \<Rightarrow> network" where
  "after_requests sha = fold (after_request sha)"

text \<open>What counts of a reputation: the verdicts and the score.\<close>

definition verdicts :: "NodeReputation \<Rightarrow> nat \<times> nat \<times> real \<times> string" where
  "verdicts r = (nr_challenges_passed r, nr_challenges_failed r, nr_reputation_score r, nr_status r)"

lemma issue_keeps_verdicts:
  "verdicts (get_reputation (snd (issue_challenge sha uuid rnd now node_id shard_id kind e)) k) = verdicts (get_reputation e k)"
  by (simp add: issue_challenge_def Let_def set_reputation_def get_reputation_def verdicts_def)

lemma issue_pending:
  "set (dkeys (pe_pending (snd (issue_challenge sha uuid rnd now node_id shard_id kind e)))) = insert uuid (set (dkeys (pe_pending e)))"
  by (auto simp: issue_challenge_def Let_def set_reputation_def dkeys_dset)

lemma engine_after_request:
  "nw_engine (after_request sha request s) = (case request of
     TriggerChallenge uuid rnd now node_id kind shard_id \<Rightarrow>
       snd (issue_challenge sha uuid rnd now node_id (if shard_id \<noteq> [] then shard_id else ''default'') kind (nw_engine s))
   | _ \<Rightarrow> nw_engine s)"
  by (cases request) (simp_all add: after_request_def register_route_def unregister_route_def trigger_challenge_def case_prod_unfold Let_def)

lemma requests_keep_verdicts:
  "verdicts (get_reputation (nw_engine (after_requests sha requests s)) k) = verdicts (get_reputation (nw_engine s) k)"
proof (induction requests arbitrary: s)
  case (Cons r rs)
  have "verdicts (get_reputation (nw_engine (after_request sha r s)) k) = verdicts (get_reputation (nw_engine s) k)"
    unfolding engine_after_request by (cases r) (simp_all add: issue_keeps_verdicts)
  then show ?case using Cons [of "after_request sha r s"] by (simp add: after_requests_def)
qed (simp add: after_requests_def)

lemma requests_keep_pending:
  "set (dkeys (pe_pending (nw_engine s))) \<subseteq> set (dkeys (pe_pending (nw_engine (after_requests sha requests s))))"
proof (induction requests arbitrary: s)
  case (Cons r rs)
  have "set (dkeys (pe_pending (nw_engine s))) \<subseteq> set (dkeys (pe_pending (nw_engine (after_request sha r s))))"
    unfolding engine_after_request by (cases r) (simp_all add: issue_pending del: set_map, auto)
  then show ?case using Cons [of "after_request sha r s"] by (simp add: after_requests_def)
qed (simp add: after_requests_def)

lemma registered_nodes:
  "\<exists>h. rg_nodes (nw_registry (snd (register_route now reg s))) = dset (rn_node_id reg) h (rg_nodes (nw_registry s))
     \<and> wh_shards h = rn_shards reg \<and> serving h \<and> wh_reputation_score h = 1"
  by (intro exI [of _ "prepared now (new_host (rn_node_id reg) (rn_host reg) (rn_port reg) (rn_shards reg) (rn_capabilities reg)
        (rn_total_memory_mb reg))"])
    (simp add: register_route_def register_node_def register_def put_node_def new_host_def prepared_def serving_def save_node_def Let_def)

lemma register_engine [simp]: "nw_engine (snd (register_route now reg s)) = nw_engine s"
  by (simp add: register_route_def)

section \<open>Properties\<close>

text \<open>
  Library fact: The challenges of the API have no effect: whatever hosts are registered and unregistered and whatever challenges are
  issued, no reputation changes its verdicts or its score, and every challenge stays pending; an agent that filters the same
  hosts by the reputations of the engine gets the same hosts before and after.
\<close>

theorem api_challenges_have_no_effect:
  assumes "s' = after_requests sha requests s"
  shows "(\<forall>k. verdicts (get_reputation (nw_engine s') k) = verdicts (get_reputation (nw_engine s) k))
    \<and> set (dkeys (pe_pending (nw_engine s))) \<subseteq> set (dkeys (pe_pending (nw_engine s')))
    \<and> trusted_route (a\<lparr>sa_registry := Some rg, sa_proof_engine := Some (nw_engine s')\<rparr>)
        = trusted_route (a\<lparr>sa_registry := Some rg, sa_proof_engine := Some (nw_engine s)\<rparr>)"
proof -
  have v: "verdicts (get_reputation (nw_engine s') k) = verdicts (get_reputation (nw_engine s) k)" for k
    unfolding assms by (rule requests_keep_verdicts)
  then have "nr_reputation_score (get_reputation (nw_engine s') k) = nr_reputation_score (get_reputation (nw_engine s) k)" for k
    by (simp add: verdicts_def)
  then show ?thesis using v requests_keep_pending [of s sha requests] unfolding assms by (simp add: trusted_route_def)
qed

text \<open>
  Library fact: A host is served exactly from its registration to its removal: after the register route the node route gives the
  host with reputation 1 in the registry, after the unregister route it answers 404, and other hosts are not touched.
\<close>

theorem registration_routes_sound:
  assumes "snd (register_route now reg s) = s1"
  shows "(\<exists>n rep. node_route (rn_node_id reg) s1 = Inr (n, rep) \<and> wh_shards n = rn_shards reg \<and> serving n \<and> wh_reputation_score n = 1)
   \<and> (\<forall>k. k = rn_node_id reg \<or> node_route k s1 = node_route k s)
   \<and> fst (unregister_route (rn_node_id reg) s1) = Inr (rn_node_id reg)
   \<and> node_route (rn_node_id reg) (snd (unregister_route (rn_node_id reg) s1)) = Inl (404, ''Node not found: '' @ rn_node_id reg)"
proof -
  obtain h where h: "rg_nodes (nw_registry s1) = dset (rn_node_id reg) h (rg_nodes (nw_registry s))"
    "wh_shards h = rn_shards reg" "serving h" "wh_reputation_score h = 1"
    using registered_nodes [of now reg s] assms by auto
  have e: "nw_engine s1 = nw_engine s" using assms by auto
  show ?thesis using h e
    by (simp add: node_route_def get_node_def unregister_route_def unregister_def node_not_found_def dkeys_dset split: option.split)
qed

section \<open>Sample instances\<close>

definition demo_network :: network where
  "demo_network = \<lparr>nw_registry = \<lparr>rg_nodes = [], rg_files = []\<rparr>, nw_engine = open_engine NoReputations\<rparr>"

definition demo_registration :: NodeRegistration where
  "demo_registration = \<lparr>rn_node_id = ''n'', rn_host = ''h'', rn_port = 8001, rn_shards = [], rn_capabilities = [], rn_total_memory_mb = 0\<rparr>"

lemma api_challenges_have_no_effect_witness:
  "let s = after_requests (\<lambda>_. []) [RegisterNode 0 demo_registration, TriggerChallenge ''u'' 7 1 ''n'' ''latency_probe'' []] demo_network in
     nr_challenges_issued (get_reputation (nw_engine s) ''n'') = 1 \<and> dkeys (pe_pending (nw_engine s)) = [''u'']
     \<and> nr_reputation_score (get_reputation (nw_engine s) ''n'') = 1"
proof -
  let ?s = "after_requests (\<lambda>_. []) [RegisterNode 0 demo_registration, TriggerChallenge ''u'' 7 1 ''n'' ''latency_probe'' []] demo_network"
  have "verdicts (get_reputation (nw_engine ?s) ''n'') = verdicts (get_reputation (nw_engine demo_network) ''n'')"
    using api_challenges_have_no_effect [OF refl] by blast
  then have "nr_reputation_score (get_reputation (nw_engine ?s) ''n'') = 1"
    by (simp add: verdicts_def demo_network_def open_engine_def load_reputations_def get_reputation_def dget_def new_reputation_def)
  moreover have "nr_challenges_issued (get_reputation (nw_engine ?s) ''n'') = 1 \<and> dkeys (pe_pending (nw_engine ?s)) = [''u'']"
    by (simp add: after_requests_def after_request_def register_route_def trigger_challenge_def issue_challenge_def Let_def
        set_reputation_def get_reputation_def demo_network_def open_engine_def load_reputations_def new_reputation_def dget_def)
  ultimately show ?thesis by (simp add: Let_def)
qed

lemma registration_routes_sound_witness:
  "fst (unregister_route ''n'' (snd (register_route 0 demo_registration demo_network))) = Inr ''n''"
  using registration_routes_sound [of 0 demo_registration demo_network, OF refl] by (simp add: demo_registration_def)

end
