(* ===== verification/Startup.thy ===== *)
theory Startup
  imports Node_Server Shard_Download
begin

text \<open>
  How the program is started: \<^verbatim>\<open>entrypoint.py\<close> with its choice of a mode, the selector of \<^verbatim>\<open>maestro/selector.py\<close>, and the
  commands of a node operator in \<^verbatim>\<open>maestro/node_cli.py\<close>, up to the node server that they start.
\<close>

section \<open>The selector\<close>

text \<open>Characters outside Latin-1 are written as the bytes of their UTF-8 form.\<close>

type_synonym env = "string \<Rightarrow> string option"

record ModeOption =
  mo_key :: string
  mo_label :: string
  mo_description :: string
  mo_icon :: string

definition MODE_OPTIONS :: "ModeOption list" where
  "MODE_OPTIONS =
     [\<lparr>mo_key = ''tui'', mo_label = ''TUI Dashboard'', mo_description = ''Terminal dashboard optimized for SoC / Raspi'', mo_icon = ''[T]''\<rparr>,
      \<lparr>mo_key = ''cli'', mo_label = ''Interactive CLI'', mo_description = ''Command-line REPL with full pipeline access'', mo_icon = ''[C]''\<rparr>,
      \<lparr>mo_key = ''web'', mo_label = ''Web UI'', mo_description = ''Full dashboard (API + React UI on port 8000)'', mo_icon = ''[W]''\<rparr>]"

text \<open>
  One key of what is typed, with what follows it; \<^term>\<open>None\<close> is a read that still waits.  After an escape character two more
  are read, so a lone Escape waits for the next two keys.
\<close>

definition read_key_unix :: "string \<Rightarrow> (string \<times> string) option" where
  "read_key_unix typed =
     (case typed of
        [] \<Rightarrow> None
      | ch # r \<Rightarrow>
          (if ch = CHR 0x1B then
             (case r of
                a # b # r' \<Rightarrow> Some (if [a, b] = ''[A'' then ''up'' else if [a, b] = ''[B'' then ''down'' else ''escape'', r')
              | _ \<Rightarrow> None)
           else if ch = CHR 0x0D \<or> ch = newline then Some (''enter'', r)
           else if ch = CHR 0x03 then Some (''quit'', r)
           else if ch = CHR 0x04 then Some (''quit'', r)
           else Some ([ch], r)))"

lemma read_key_shorter: "read_key_unix typed = Some (key, r) \<Longrightarrow> length r < length typed"
  by (auto simp: read_key_unix_def split: list.splits if_splits)

text \<open>
  The selector waits, ends with an option, is cancelled (\<^verbatim>\<open>SystemExit\<close>), or raises: an empty list of options has no index.
\<close>

datatype selection = Waiting int | Picked int | CancelledSelection | NothingToSelect

function select_loop :: "nat \<Rightarrow> int \<Rightarrow> string \<Rightarrow> selection" where
  "select_loop n selected typed =
     (case read_key_unix typed of
        None \<Rightarrow> Waiting selected
      | Some (key, r) \<Rightarrow>
          (if key = ''up'' then (if n = 0 then NothingToSelect else select_loop n ((selected - 1) mod int n) r)
           else if key = ''down'' then (if n = 0 then NothingToSelect else select_loop n ((selected + 1) mod int n) r)
           else if key = ''enter'' then (if n = 0 then NothingToSelect else Picked selected)
           else if key = ''quit'' \<or> key = ''escape'' then CancelledSelection
           else (case py_int key of
                   None \<Rightarrow> select_loop n selected r
                 | Some i \<Rightarrow> (let num = i - 1 in if 0 \<le> num \<and> num < int n then Picked num else select_loop n selected r))))"
  by pat_completeness auto
termination
  by (relation "measure (\<lambda>(_, _, typed). length typed)") (auto dest: read_key_shorter)

declare select_loop.simps [simp del]

definition plain_select :: "ModeOption list \<Rightarrow> string option \<Rightarrow> selection" where
  "plain_select options typed =
     (let answer = (case typed of None \<Rightarrow> [] | Some t \<Rightarrow> py_strip t)
      in case List.find (\<lambda>i. answer = nat_str (i + 1)) [0..<length options] of
           Some i \<Rightarrow> Picked (int i)
         | None \<Rightarrow> if options = [] then NothingToSelect else Picked 0)"

record terminal =
  te_isatty :: bool
  te_raw :: bool
  te_dialog :: "(string list \<Rightarrow> string) option"
  te_typed :: string
  te_line :: "string option"

text \<open>
  \<^verbatim>\<open>te_raw\<close>: the modules for raw input can be imported.  \<^verbatim>\<open>te_dialog\<close>: what the installed program writes to its standard error.
\<close>

definition interactive_select :: "ModeOption list \<Rightarrow> terminal \<Rightarrow> selection" where
  "interactive_select options te =
     (if te_isatty te \<and> te_raw te then select_loop (length options) 0 (te_typed te) else plain_select options (te_line te))"

text \<open>The lines of a frame; the selector moves the cursor up by \<^verbatim>\<open>_total_lines\<close> to draw the next one over it.\<close>

definition total_lines :: "nat \<Rightarrow> nat" where
  "total_lines n = 8 + n"

definition ansi :: "string \<Rightarrow> string" where
  "ansi code = CHR 0x1B # code"

definition option_line :: "int \<Rightarrow> nat \<times> ModeOption \<Rightarrow> string" where
  "option_line selected = (\<lambda>(i, opt).
     if int i = selected
     then ''  '' @ ansi ''[1m'' @ ansi ''[32m'' @ [CHR 0xE2, CHR 0x96, CHR 0xB8] @ ansi ''[0m'' @ '' '' @ ansi ''[1m'' @ ansi ''[97m''
        @ ansi ''[46m'' @ '' '' @ mo_label opt @ '' '' @ ansi ''[49m'' @ ansi ''[0m''
     else ''    '' @ ansi ''[2m'' @ mo_label opt @ ansi ''[0m'')"

definition render_lines :: "ModeOption list \<Rightarrow> int \<Rightarrow> string \<Rightarrow> int \<Rightarrow> string list" where
  "render_lines options selected title width =
     (let bar = concat (replicate (nat (min 48 (width - 6))) [CHR 0xE2, CHR 0x94, CHR 0x80]);
          border = ''  '' @ ansi ''[1m'' @ ansi ''[36m'' @ bar @ ansi ''[0m'';
          dot = [CHR 0xE2, CHR 0x80, CHR 0xA2]
      in [[], border, ''  '' @ ansi ''[1m'' @ ansi ''[97m'' @ ''  '' @ title @ ansi ''[0m'', border, []]
         @ map (option_line selected) (enumerate 0 options)
         @ [[], ''  '' @ ansi ''[2m'' @ [CHR 0xE2, CHR 0x86, CHR 0x91, CHR ''/'', CHR 0xE2, CHR 0x86, CHR 0x93] @ '' Navigate  '' @ dot
                @ ''  Enter Select  '' @ dot @ ''  Ctrl+C Quit'' @ ansi ''[0m'', []])"

section \<open>The entry point\<close>

datatype mode_launch =
    LaunchServer "string list" env
  | LaunchCli
  | LaunchTui

definition setdefault :: "string \<Rightarrow> string \<Rightarrow> env \<Rightarrow> env" where
  "setdefault k v env = (if env k = None then env(k \<mapsto> v) else env)"

definition launch_web :: "env \<Rightarrow> mode_launch" where
  "launch_web env = LaunchServer [''uvicorn'', ''main:app'', ''--host'', ''0.0.0.0'', ''--port'', ''8000''] env"

definition launch_shard_worker :: "env \<Rightarrow> mode_launch" where
  "launch_shard_worker env =
     (let node_id = env_or env ''NODE_ID'' ''shard-unknown'';
          orchestrator_url = env_or env ''ORCHESTRATOR_URL'' [];
          env' = setdefault ''MAESTRO_NODE_ID'' node_id env
      in LaunchServer [''uvicorn'', ''maestro.node_server:app'', ''--host'', ''0.0.0.0'', ''--port'', ''8000'']
           (if orchestrator_url \<noteq> [] then setdefault ''MAESTRO_ORCHESTRATOR_URL'' orchestrator_url env' else env'))"

text \<open>
  The arguments of \<^verbatim>\<open>subprocess.run\<close>, texts and numbers as the code has them: an argument that is not a text is a \<^verbatim>\<open>TypeError\<close>.
\<close>

datatype argument = Text string | Number int

fun process_arguments :: "argument list \<Rightarrow> string list option" where
  "process_arguments [] = Some []"
| "process_arguments (Text s # args) = map_option ((#) s) (process_arguments args)"
| "process_arguments (Number _ # args) = None"

definition dash :: string where
  "dash = ''  '' @ em_dash @ ''  ''"

definition dialog_command :: "argument list" where
  "dialog_command =
     [Text ''dialog'', Text ''--clear'', Text ''--title'', Text ''Maestro-Orchestrator'', Text ''--menu'',
      Text (''Welcome to Maestro-Orchestrator.'' @ [newline, newline] @ ''Select how you would like to run the system:''),
      Number 18, Number 65, Number 3,
      Text ''web'', Text (''Web-UI'' @ dash @ ''Launch the full dashboard (API + React UI on port 8000)''),
      Text ''cli'', Text (''CLI'' @ dash @ ''Launch the interactive command-line interface''),
      Text ''tui'', Text (''TUI'' @ dash @ ''Launch the terminal dashboard (optimized for SoC / Raspi5)'')]"

text \<open>What \<^verbatim>\<open>main\<close> ends in: a launch, an exit after a cancelled selector, an exception, or it still waits for a key.\<close>

datatype startup = Launched mode_launch | Exited | StartupRaises | AwaitsKey

datatype mode_choice = Mode string | NoMode startup

definition dialog_gui :: "(string list \<Rightarrow> string) \<Rightarrow> mode_choice" where
  "dialog_gui program =
     (case process_arguments dialog_command of
        None \<Rightarrow> NoMode StartupRaises
      | Some argv \<Rightarrow>
          (let choice = py_lower (py_strip (program argv))
           in Mode (if choice \<in> {''web'', ''cli'', ''tui''} then choice else ''web'')))"

definition plain_prompt :: "terminal \<Rightarrow> mode_choice" where
  "plain_prompt te =
     (case interactive_select MODE_OPTIONS te of
        Picked i \<Rightarrow> Mode (mo_key (MODE_OPTIONS ! nat i))
      | Waiting _ \<Rightarrow> NoMode AwaitsKey
      | CancelledSelection \<Rightarrow> NoMode Exited
      | NothingToSelect \<Rightarrow> NoMode StartupRaises)"

definition show_dialog :: "terminal \<Rightarrow> mode_choice" where
  "show_dialog te = (case te_dialog te of Some program \<Rightarrow> dialog_gui program | None \<Rightarrow> plain_prompt te)"

definition launch_of :: "env \<Rightarrow> string \<Rightarrow> mode_launch" where
  "launch_of env mode = (if mode = ''cli'' then LaunchCli else if mode = ''tui'' then LaunchTui else launch_web env)"

text \<open>
  The dependency resolution and the update check come before the choice and every exception of theirs is dropped; neither
  changes what the choice reads.
\<close>

definition startup_main :: "env \<Rightarrow> terminal \<Rightarrow> startup" where
  "startup_main env te =
     (if py_strip (py_lower (env_or env ''NODE_ROLE'' [])) = ''shard'' then Launched (launch_shard_worker env)
      else
        (let env_mode = py_lower (env_or env ''MAESTRO_MODE'' [])
         in case (if env_mode \<in> {''web'', ''cli'', ''tui''} then Mode env_mode
                  else if te_isatty te then show_dialog te else Mode ''web'') of
              NoMode s \<Rightarrow> s
            | Mode mode \<Rightarrow> Launched (launch_of env mode)))"

section \<open>The settings of a node server\<close>

record node_settings =
  se_node_id :: string
  se_port :: int
  se_host :: string
  se_config_path :: string
  se_orchestrator_url :: string
  se_heartbeat_interval :: int
  se_advertised_host :: string

definition node_settings_of :: "env \<Rightarrow> config_error + node_settings" where
  "node_settings_of env =
     bind_res (int_or_error (env_or env ''MAESTRO_NODE_PORT'' ''8001'')) (\<lambda>port.
     bind_res (int_or_error (env_or env ''MAESTRO_HEARTBEAT_INTERVAL'' ''60'')) (\<lambda>interval.
       Inr \<lparr>se_node_id = (if env_or env ''MAESTRO_NODE_ID'' [] \<noteq> [] then env_or env ''MAESTRO_NODE_ID'' []
                         else env_or env ''NODE_ID'' ''node-default''),
            se_port = port, se_host = env_or env ''MAESTRO_NODE_HOST'' ''0.0.0.0'',
            se_config_path = env_or env ''MAESTRO_SHARD_CONFIG'' ''data/node_shards.json'',
            se_orchestrator_url = env_or env ''MAESTRO_ORCHESTRATOR_URL'' [], se_heartbeat_interval = interval,
            se_advertised_host = env_or env ''MAESTRO_ADVERTISED_HOST'' []\<rparr>))"

text \<open>
  The disk of a node: the shard files below the shard directory, whose path is normal, and the shard configs that were
  written.
\<close>

record node_machine =
  nm_root :: string
  nm_dir :: shard_dir
  nm_configs :: "(string, ShardConfig list) dict"

definition shard_path :: "string \<Rightarrow> string \<Rightarrow> string \<Rightarrow> string" where
  "shard_path base name filename = base @ ''/'' @ name @ ''/'' @ filename"

definition disk_files :: "node_machine \<Rightarrow> (string, bytes) dict" where
  "disk_files mc =
     concat (map (\<lambda>(name, md). map (\<lambda>(f, content). (shard_path (nm_root mc) name f, content)) (md_files md)) (nm_dir mc))"

definition node_shard_of :: "string \<Rightarrow> ShardConfig \<Rightarrow> NodeShard" where
  "node_shard_of base c =
     \<lparr>ns_shard_id = sc_shard_id c, ns_filepath = shard_path base (safe_name (sc_model_id c)) (sc_filename c),
      ns_size_bytes = sc_size_bytes c, ns_model_id = sc_model_id c,
      ns_layer_range = [fst (sc_layer_range c), snd (sc_layer_range c)]\<rparr>"

definition config_file_at :: "node_machine \<Rightarrow> string \<Rightarrow> shard_config_file" where
  "config_file_at mc path =
     (case map_of (nm_configs mc) path of
        None \<Rightarrow> NoShardConfig | Some config \<Rightarrow> ShardConfigs (map (node_shard_of (nm_root mc)) config))"

text \<open>The import of \<^verbatim>\<open>maestro.node_server\<close> and the start of its application.\<close>

definition boot_node ::
    "'r redis \<Rightarrow> node_machine \<Rightarrow> env \<Rightarrow> bool \<Rightarrow> real \<Rightarrow> string \<Rightarrow> 'r bus \<Rightarrow> registry
     \<Rightarrow> config_error + node_settings \<times> node_state \<times> 'r bus \<times> registry" where
  "boot_node rd mc env reachable now now_text b rg =
     bind_res (node_settings_of env) (\<lambda>s. bind_res (detect_cluster_config env) (\<lambda>cfg.
       Inr (s, start_node rd (disk_files mc) (config_file_at mc (se_config_path s)) cfg (se_orchestrator_url s)
            (se_advertised_host s) (se_host s) (nat (se_port s)) reachable now now_text
            \<lparr>no_node_id = se_node_id s, no_loaded_shards = [], no_file_map = []\<rparr> b rg)))"

section \<open>The commands of a node operator\<close>

datatype command_end = Done | ExitCode nat | CommandRaises

definition first_of :: "string option list \<Rightarrow> string option" where
  "first_of xs = (case filter (\<lambda>x. x \<noteq> None \<and> x \<noteq> Some []) xs of [] \<Rightarrow> None | x # _ \<Rightarrow> x)"

text \<open>An absent argument and an empty one are the same to the code, which tests \<^verbatim>\<open>args.layers\<close> for truth.\<close>

definition parse_layers :: "string option \<Rightarrow> (int \<times> int) option" where
  "parse_layers layers =
     (case first_of [layers] of
        None \<Rightarrow> Some (0, -1)
      | Some l \<Rightarrow>
          (case split_on CHR ''-'' l of
             [a] \<Rightarrow> map_option (\<lambda>i. (i, i)) (py_int a)
           | a # b # _ \<Rightarrow> Option.bind (py_int a) (\<lambda>i. map_option (Pair i) (py_int b))
           | [] \<Rightarrow> None))"

record setup_args =
  su_model :: string
  su_layers :: "string option"
  su_token :: "string option"
  su_node_id :: "string option"
  su_config :: "string option"

definition setup_config_path :: "setup_args \<Rightarrow> string" where
  "setup_config_path args = (case first_of [su_config args] of None \<Rightarrow> ''data/node_shards.json'' | Some p \<Rightarrow> p)"

text \<open>The exceptions that are not caught are those of the indexing.  The result names the node and the config to start it with.\<close>

definition cmd_setup ::
    "(bytes \<Rightarrow> json option) \<Rightarrow> (bytes \<Rightarrow> string) \<Rightarrow> (string option \<Rightarrow> hub) \<Rightarrow> string \<Rightarrow> env \<Rightarrow> setup_args \<Rightarrow> node_machine
     \<Rightarrow> (command_end + string \<times> string) \<times> node_machine" where
  "cmd_setup loads sha hub_for uuid8 env args mc =
     (case parse_layers (su_layers args) of
        None \<Rightarrow> (Inl CommandRaises, mc)
      | Some (layer_start, layer_end) \<Rightarrow>
          (let token = first_of [su_token args, env ''HF_TOKEN'', env ''HUGGING_FACE_HUB_TOKEN''];
               (downloaded, dir) =
                 download_model_shards loads sha (hub_for token) (su_model args) layer_start layer_end (nm_dir mc);
               mc = mc\<lparr>nm_dir := dir\<rparr>
           in case downloaded of
                Inl (IndexingFailed _) \<Rightarrow> (Inl CommandRaises, mc)
              | Inl _ \<Rightarrow> (Inl (ExitCode 1), mc)
              | Inr _ \<Rightarrow>
                  (let node_id = (case first_of [su_node_id args] of None \<Rightarrow> ''node-'' @ uuid8 | Some i \<Rightarrow> i);
                       config_path = setup_config_path args;
                       (config, dir) = generate_shard_config loads sha (su_model args)
                         (if first_of [su_layers args] = None then None else Some (layer_start, layer_end)) (nm_dir mc);
                       mc = mc\<lparr>nm_dir := dir\<rparr>
                   in case config of
                        Inl _ \<Rightarrow> (Inl CommandRaises, mc)
                      | Inr c \<Rightarrow> (Inr (node_id, config_path), mc\<lparr>nm_configs := dset config_path c (nm_configs mc)\<rparr>))))"

record start_args =
  sr_port :: int
  sr_host :: string
  sr_node_id :: "string option"
  sr_config :: "string option"
  sr_orchestrator :: "string option"
  sr_advertised_host :: "string option"

definition set_given :: "string \<Rightarrow> string option \<Rightarrow> env \<Rightarrow> env" where
  "set_given k v env = (case first_of [v] of None \<Rightarrow> env | Some x \<Rightarrow> env(k \<mapsto> x))"

text \<open>The environment that the node server reads, and the host and port that it listens on.\<close>

definition cmd_start :: "string \<Rightarrow> start_args \<Rightarrow> env \<Rightarrow> env \<times> string \<times> int" where
  "cmd_start uuid8 args env =
     (let node_id = (case first_of [sr_node_id args] of None \<Rightarrow> env_or env ''MAESTRO_NODE_ID'' (''node-'' @ uuid8) | Some i \<Rightarrow> i);
          config_path = (case first_of [sr_config args] of
                           None \<Rightarrow> env_or env ''MAESTRO_SHARD_CONFIG'' ''data/node_shards.json'' | Some p \<Rightarrow> p);
          env = env(''MAESTRO_NODE_ID'' \<mapsto> node_id, ''MAESTRO_SHARD_CONFIG'' \<mapsto> config_path,
                    ''MAESTRO_NODE_PORT'' \<mapsto> int_str (sr_port args), ''MAESTRO_NODE_HOST'' \<mapsto> sr_host args)
      in (set_given ''MAESTRO_ADVERTISED_HOST'' (sr_advertised_host args)
            (set_given ''MAESTRO_ORCHESTRATOR_URL'' (sr_orchestrator args) env), sr_host args, sr_port args))"

text \<open>\<^verbatim>\<open>status\<close> prints one block per model, with the files and bytes it has on disk, and the sums.\<close>

definition cmd_status :: "node_machine \<Rightarrow> (string \<times> ShardManifest option \<times> nat \<times> nat) list \<times> nat \<times> nat" where
  "cmd_status mc =
     (map (\<lambda>m. (m, load_shard_manifest (nm_dir mc) m, model_usage (model_dir_of (nm_dir mc) m))) (list_models (nm_dir mc)),
      fst (disk_usage (nm_dir mc)), fst (snd (disk_usage (nm_dir mc))))"

definition intact :: "VerifyResults \<Rightarrow> bool" where
  "intact r \<longleftrightarrow> ve_failed r = [] \<and> ve_missing r = []"

definition cmd_verify :: "(bytes \<Rightarrow> string) \<Rightarrow> string option \<Rightarrow> node_machine \<Rightarrow> command_end" where
  "cmd_verify sha model mc =
     (let models = (case first_of [model] of Some m \<Rightarrow> [m] | None \<Rightarrow> list_models (nm_dir mc))
      in if models = [] then Done
         else if list_all (\<lambda>m. intact (verify_all sha (nm_dir mc) m)) models then Done else ExitCode 1)"

text \<open>\<^verbatim>\<open>shards\<close>: each declared shard with its \<^verbatim>\<open>On disk\<close>; \<^term>\<open>None\<close> when there is no config.\<close>

definition cmd_shards :: "string option \<Rightarrow> node_machine \<Rightarrow> (NodeShard \<times> bool) list option" where
  "cmd_shards config mc =
     map_option (map (\<lambda>c. let s = node_shard_of (nm_root mc) c
                          in (s, ns_filepath s \<noteq> [] \<and> ns_filepath s \<in> set (dkeys (disk_files mc)))))
       (map_of (nm_configs mc) (case first_of [config] of None \<Rightarrow> ''data/node_shards.json'' | Some p \<Rightarrow> p))"

section \<open>Lemmas\<close>

lemma read_key_arrow:
  "read_key_unix (CHR 0x1B # CHR ''['' # CHR ''B'' # r) = Some (''down'', r)"
  "read_key_unix (CHR 0x1B # CHR ''['' # CHR ''A'' # r) = Some (''up'', r)"
  "read_key_unix (CHR 0x0D # r) = Some (''enter'', r)"
  by (simp_all add: read_key_unix_def)

lemma select_loop_range:
  "0 \<le> selected \<Longrightarrow> selected < int n \<Longrightarrow>
     (case select_loop n selected typed of Waiting i \<Rightarrow> 0 \<le> i \<and> i < int n | Picked i \<Rightarrow> 0 \<le> i \<and> i < int n
        | CancelledSelection \<Rightarrow> True | NothingToSelect \<Rightarrow> False)"
proof (induction n selected typed rule: select_loop.induct)
  case (1 n selected typed)
  show ?case
  proof (cases "read_key_unix typed")
    case None
    then show ?thesis using 1(5,6) by (simp add: select_loop.simps [of n selected typed])
  next
    case (Some kr)
    obtain key r where kr: "kr = (key, r)" by (cases kr)
    note k = Some [unfolded kr]
    have n: "0 < n" using 1(5,6) by simp
    have m: "0 \<le> j mod int n \<and> j mod int n < int n" for j using n by simp
    show ?thesis
      using 1(1) [OF k refl] 1(2) [OF k refl] 1(3) [OF k refl] 1(4) [OF k refl] 1(5,6) n m
      by (subst select_loop.simps) (auto simp: k Let_def split: option.splits)
  qed
qed

definition arrow_key :: "bool \<Rightarrow> string" where
  "arrow_key down = [CHR 0x1B, CHR ''['', if down then CHR ''B'' else CHR ''A'']"

definition move :: "bool \<Rightarrow> int" where
  "move down = (if down then 1 else -1)"

lemma select_loop_arrows:
  assumes "0 \<le> selected" "selected < int n"
  shows "select_loop n selected (concat (map arrow_key moves) @ CHR 0x0D # r) = Picked ((selected + sum_list (map move moves)) mod int n)"
  using assms
proof (induction moves arbitrary: selected)
  case Nil
  then show ?case by (simp add: select_loop.simps read_key_arrow)
next
  case (Cons d moves)
  have n: "0 < n" using Cons.prems by simp
  have "select_loop n selected (concat (map arrow_key (d # moves)) @ CHR 0x0D # r)
      = select_loop n ((selected + move d) mod int n) (concat (map arrow_key moves) @ CHR 0x0D # r)"
    using n by (subst select_loop.simps) (simp add: arrow_key_def move_def read_key_arrow)
  also have "\<dots> = Picked (((selected + move d) mod int n + sum_list (map move moves)) mod int n)"
    using n by (intro Cons.IH) simp_all
  finally show ?case by (simp add: mod_add_left_eq add.assoc)
qed

lemma option_digit:
  assumes "i < 9"
  shows "read_key_unix (nat_str (i + 1) @ r) = Some (nat_str (i + 1), r)" "py_int (nat_str (i + 1)) = Some (int i + 1)"
    "nat_str (i + 1) \<notin> {''up'', ''down'', ''enter'', ''quit'', ''escape''}"
proof -
  have "nat_str (i + 1) = [char_of (48 + (i + 1))]" using assms by (subst nat_str.simps) simp
  then obtain c where c: "nat_str (i + 1) = [c]" "is_digit c" using nat_str_digits [of "i + 1"] by simp
  then have "c \<notin> {CHR 0x1B, CHR 0x0D, newline, CHR 0x03, CHR 0x04}" by (auto simp: is_digit_def newline_def)
  then show "read_key_unix (nat_str (i + 1) @ r) = Some (nat_str (i + 1), r)" "nat_str (i + 1) \<notin> {''up'', ''down'', ''enter'', ''quit'', ''escape''}"
    unfolding c(1) by (simp_all add: read_key_unix_def)
  show "py_int (nat_str (i + 1)) = Some (int i + 1)" by (simp add: py_int_nat_str add.commute)
qed

lemma find_line:
  assumes "i < n"
  shows "List.find (\<lambda>j. nat_str (i + 1) = nat_str (j + 1)) [0..<n] = Some i"
proof -
  have "i = j" if "nat_str (i + 1) = nat_str (j + 1)" for j
    using arg_cong [OF that, of digits_value] unfolding digits_value_nat_str by simp
  then have e: "(\<lambda>j. nat_str (i + 1) = nat_str (j + 1)) = (=) i" by (intro ext iffI) simp_all
  show ?thesis unfolding e find_Some_iff using assms by (intro exI [of _ i]) simp
qed

text \<open>A download that returns has indexed the directory it leaves, whose files still have one content each.\<close>

lemma fetched_well_keyed:
  "well_keyed (md_files md) \<Longrightarrow> well_keyed (md_files (snd (fold (fetch_file hb m) fs (ds, md))))"
proof (induction fs arbitrary: ds md)
  case (Cons f fs)
  obtain ds' md' where s: "fetch_file hb m f (ds, md) = (ds', md')" by fastforce
  then have "well_keyed (md_files md')" using Cons.prems
    by (auto simp: fetch_file_def put_file_def split: if_splits option.splits)
  then show ?case using Cons.IH by (simp add: s)
qed simp

lemma downloaded_index:
  assumes "download_model_shards loads sha hb m a b dir = (Inr downloaded, dir')" "well_keyed (md_files (model_dir_of dir m))"
  shows "\<exists>dir1 man. index_shards loads sha m dir1 = (Inr man, dir') \<and> well_keyed (md_files (model_dir_of dir1 m))"
proof -
  obtain files target md fetched md' where t: "target_files loads hb m files a b (model_dir_of dir m) = (target, md)"
    "fetch_files hb m target md = (fetched, md')"
    "ok (fst (index_shards loads sha m (dset (safe_name m) md' (dset (safe_name m) (model_dir_of dir m) dir))))"
    "snd (index_shards loads sha m (dset (safe_name m) md' (dset (safe_name m) (model_dir_of dir m) dir))) = dir'"
    using assms(1) by (auto simp: download_model_shards_def Let_def split: if_splits option.splits prod.splits sum.splits)
  have "well_keyed (md_files md)"
    using t(1) assms(2) by (auto simp: target_files_def fetch_index_def put_file_def split: if_splits option.splits)
  then have "well_keyed (md_files md')" using fetched_well_keyed [of md hb m target "[]"] t(2) by (simp add: fetch_files_def)
  moreover obtain man where "index_shards loads sha m (dset (safe_name m) md' (dset (safe_name m) (model_dir_of dir m) dir)) = (Inr man, dir')"
    using t(3,4) by (cases "index_shards loads sha m (dset (safe_name m) md' (dset (safe_name m) (model_dir_of dir m) dir))")
      (auto elim: ok.elims)
  ultimately show ?thesis by (intro exI [of _ "dset (safe_name m) md' (dset (safe_name m) (model_dir_of dir m) dir)"] exI [of _ man])
      (simp add: model_dir_of_def)
qed

text \<open>The configuration that is generated names the files of the manifest, and each of them is on the disk of the node.\<close>

lemma indexed_files_present:
  assumes "index_shards loads sha m dir1 = (Inr man, dir')" "well_keyed (md_files (model_dir_of dir1 m))" "e \<in> set (sm_files man)"
  shows "sf_filename e \<in> set (dkeys (md_files (model_dir_of dir' m)))"
proof -
  obtain entries where i: "index_files loads sha m (shard_files (md_files (model_dir_of dir1 m))) = Inr entries"
    "sm_files man = entries" "md_files (model_dir_of dir' m) = md_files (model_dir_of dir1 m)"
    using index_shards_Inr [OF assms(1)] by blast
  then show ?thesis using index_files_entries [OF i(1)] assms(3) shard_file_lookup(1) [OF assms(2)] by (metis i(2,3))
qed

lemma file_on_disk:
  assumes "f \<in> set (dkeys (md_files (model_dir_of (nm_dir mc) m)))"
  shows "shard_path (nm_root mc) (safe_name m) f \<in> set (dkeys (disk_files mc))"
proof -
  obtain md where md: "map_of (nm_dir mc) (safe_name m) = Some md" "f \<in> set (dkeys (md_files md))"
    using assms by (auto simp: model_dir_of_def dget_def empty_model_dir_def split: option.splits)
  obtain c where c: "(f, c) \<in> set (md_files md)" using md(2) by auto
  have "(shard_path (nm_root mc) (safe_name m) f, c) \<in> set (disk_files mc)"
    unfolding disk_files_def set_concat set_map using map_of_SomeD [OF md(1)] c by (intro UN_I [of "map _ _"]) force+
  then show ?thesis by force
qed

lemma added_shard_stays: "map_of d k \<noteq> None \<Longrightarrow> map_of (fold (add_shard_file fs) shards d) k \<noteq> None"
proof (induction shards arbitrary: d)
  case (Cons x xs)
  have "map_of (add_shard_file fs x d) k \<noteq> None" using Cons.prems by (simp add: add_shard_file_def)
  then show ?case using Cons.IH by simp
qed simp

lemma loaded_files:
  assumes "\<forall>s \<in> set shards. ns_shard_id s \<noteq> [] \<and> ns_filepath s \<noteq> [] \<and> ns_filepath s \<in> set (dkeys fs)" "s \<in> set shards"
  shows "map_of (fold (add_shard_file fs) shards d) (ns_shard_id s) \<noteq> None"
  using assms
proof (induction shards arbitrary: d)
  case (Cons x xs)
  show ?case
  proof (cases "s \<in> set xs")
    case True
    then show ?thesis using Cons by simp
  next
    case False
    have "map_of (add_shard_file fs x d) (ns_shard_id x) \<noteq> None" using Cons.prems by (simp add: add_shard_file_def)
    then show ?thesis using added_shard_stays False Cons.prems(2) by fastforce
  qed
qed simp

lemma configured_on_disk:
  assumes "e \<in> set (sm_files man)" "sf_filename e \<in> set (dkeys (md_files (model_dir_of (nm_dir mc) m)))"
  defines "x \<equiv> node_shard_of (nm_root mc) (shard_config_of m e)"
  shows "ns_shard_id x \<noteq> [] \<and> ns_filepath x \<noteq> [] \<and> ns_filepath x \<in> set (dkeys (disk_files mc))"
  using file_on_disk [OF assms(2)] by (auto simp: x_def node_shard_of_def shard_config_of_def shard_path_def)

lemma setup_spec:
  assumes "cmd_setup loads sha hub_for uuid8 env args mc = (Inr (node_id, path), mc')"
    "well_keyed (md_files (model_dir_of (nm_dir mc) (su_model args)))"
  shows "\<exists>man req dir1. index_shards loads sha (su_model args) dir1 = (Inr man, nm_dir mc')
      \<and> well_keyed (md_files (model_dir_of dir1 (su_model args)))
      \<and> map_of (nm_configs mc') path
          = Some (map (shard_config_of (su_model args)) (filter (\<lambda>e. in_requested req (sf_layer_range e)) (sm_files man)))
      \<and> nm_root mc' = nm_root mc \<and> node_id \<noteq> [] \<and> path \<noteq> []"
proof -
  let ?m = "su_model args"
  let ?hub = "hub_for (first_of [su_token args, env ''HF_TOKEN'', env ''HUGGING_FACE_HUB_TOKEN''])"
  obtain a b where l: "parse_layers (su_layers args) = Some (a, b)" using assms(1) by (auto simp: cmd_setup_def split: option.splits)
  obtain d dir' where d: "download_model_shards loads sha ?hub ?m a b (nm_dir mc) = (Inr d, dir')"
    using assms(1) l by (auto simp: cmd_setup_def Let_def split: prod.splits sum.splits download_error.splits)
  obtain dir1 man where i: "index_shards loads sha ?m dir1 = (Inr man, dir')" "well_keyed (md_files (model_dir_of dir1 ?m))"
    using downloaded_index [OF d assms(2)] by blast
  have man: "load_shard_manifest dir' ?m = Some man" using index_shards_Inr [OF i(1)] by blast
  let ?req = "if first_of [su_layers args] = None then None else Some (a, b)"
  have r: "node_id = (case first_of [su_node_id args] of None \<Rightarrow> ''node-'' @ uuid8 | Some i \<Rightarrow> i)" "path = setup_config_path args"
    "mc' = mc\<lparr>nm_dir := dir', nm_configs := dset path (map (shard_config_of ?m) (filter (\<lambda>e. in_requested ?req (sf_layer_range e)) (sm_files man)))
       (nm_configs mc)\<rparr>"
    using assms(1) l d man by (auto simp: cmd_setup_def generate_shard_config_def Let_def)
  have "node_id \<noteq> []" "path \<noteq> []" unfolding r by (auto simp: first_of_def setup_config_path_def split: option.splits list.splits)
  then show ?thesis using i r(3) by (intro exI [of _ man] exI [of _ ?req] exI [of _ dir1]) simp
qed

lemma set_given_other: "k \<noteq> k' \<Longrightarrow> set_given k v env k' = env k'"
  by (simp add: set_given_def split: option.splits)

lemma set_given_same: "x \<noteq> [] \<Longrightarrow> set_given k (Some x) env k = Some x"
  by (simp add: set_given_def first_of_def)

lemma start_environment:
  assumes "cmd_start uuid8 args env = (env', host, port)"
  shows "env' ''MAESTRO_NODE_PORT'' = Some (int_str (sr_port args))" "env' ''MAESTRO_NODE_HOST'' = Some (sr_host args)"
    "host = sr_host args" "port = sr_port args"
    "sr_config args = Some path \<Longrightarrow> path \<noteq> [] \<Longrightarrow> env' ''MAESTRO_SHARD_CONFIG'' = Some path"
    "sr_node_id args = Some node_id \<Longrightarrow> node_id \<noteq> [] \<Longrightarrow> env' ''MAESTRO_NODE_ID'' = Some node_id"
    "sr_orchestrator args = Some url \<Longrightarrow> url \<noteq> [] \<Longrightarrow> env' ''MAESTRO_ORCHESTRATOR_URL'' = Some url"
    "sr_advertised_host args = Some address \<Longrightarrow> address \<noteq> [] \<Longrightarrow> env' ''MAESTRO_ADVERTISED_HOST'' = Some address"
  using assms by (auto simp: cmd_start_def Let_def set_given_other set_given_same first_of_def)

lemma settings_fields:
  assumes "node_settings_of env = Inr s"
  shows "env ''MAESTRO_NODE_HOST'' = Some h \<Longrightarrow> se_host s = h"
    "env ''MAESTRO_NODE_HOST'' = None \<Longrightarrow> se_host s = ''0.0.0.0''"
    "env ''MAESTRO_SHARD_CONFIG'' = Some p \<Longrightarrow> se_config_path s = p"
    "env ''MAESTRO_NODE_ID'' = Some n \<Longrightarrow> n \<noteq> [] \<Longrightarrow> se_node_id s = n"
    "env ''MAESTRO_ORCHESTRATOR_URL'' = Some u \<Longrightarrow> se_orchestrator_url s = u"
    "env ''MAESTRO_ADVERTISED_HOST'' = Some a \<Longrightarrow> se_advertised_host s = a"
    "env ''MAESTRO_ADVERTISED_HOST'' = None \<Longrightarrow> se_advertised_host s = []"
  using assms unfolding node_settings_of_def bind_res_Inr by auto

lemma settings_port:
  assumes "node_settings_of env = Inr s"
  shows "env ''MAESTRO_NODE_PORT'' = Some (int_str i) \<Longrightarrow> 0 \<le> i \<Longrightarrow> se_port s = i"
    "env ''MAESTRO_NODE_PORT'' = None \<Longrightarrow> se_port s = 8001"
proof -
  have p: "int_or_error (env_or env ''MAESTRO_NODE_PORT'' ''8001'') = Inr (se_port s)"
    using assms unfolding node_settings_of_def bind_res_Inr by (auto simp del: int_or_error.simps)
  have d: "int_or_error ''8001'' = Inr 8001" by code_simp
  show "env ''MAESTRO_NODE_PORT'' = Some (int_str i) \<Longrightarrow> 0 \<le> i \<Longrightarrow> se_port s = i" using p by (simp add: py_int_int_str)
  show "env ''MAESTRO_NODE_PORT'' = None \<Longrightarrow> se_port s = 8001" using p d by (simp del: int_or_error.simps)
qed

text \<open>What a started node is, and how the orchestrator knows it.\<close>

lemma booted_host:
  assumes "boot_node rd mc env True now now_text b rg = Inr (s, st, b', rg')" "se_orchestrator_url s \<noteq> []"
  shows "node_settings_of env = Inr s" "no_node_id st = se_node_id s"
    "st = load_shard_config (disk_files mc) (config_file_at mc (se_config_path s)) \<lparr>no_node_id = se_node_id s, no_loaded_shards = [], no_file_map = []\<rparr>"
    "\<exists>h. get_node rg' (se_node_id s) = Some h \<and> serving h \<and> wh_port h = nat (se_port s)
       \<and> wh_host h = (let a = (if se_advertised_host s \<noteq> [] then se_advertised_host s else se_host s)
                      in if a = ''0.0.0.0'' then ''127.0.0.1'' else a)
       \<and> wh_shards h = map shard_dict_of (no_loaded_shards st)"
proof -
  obtain cfg where r: "node_settings_of env = Inr s"
    "start_node rd (disk_files mc) (config_file_at mc (se_config_path s)) cfg (se_orchestrator_url s) (se_advertised_host s)
       (se_host s) (nat (se_port s)) True now now_text \<lparr>no_node_id = se_node_id s, no_loaded_shards = [], no_file_map = []\<rparr> b rg
     = (st, b', rg')"
    using assms(1) unfolding boot_node_def bind_res_Inr by blast
  show "node_settings_of env = Inr s" by (rule r(1))
  show st: "st = load_shard_config (disk_files mc) (config_file_at mc (se_config_path s))
      \<lparr>no_node_id = se_node_id s, no_loaded_shards = [], no_file_map = []\<rparr>" using r(2) by (auto simp: start_node_def Let_def)
  show i: "no_node_id st = se_node_id s" unfolding st by (simp add: load_shard_config_def split: shard_config_file.splits)
  have "rg' = node_payload (disk_files mc) (if se_advertised_host s \<noteq> [] then se_advertised_host s else se_host s) (nat (se_port s)) now st rg"
    using r(2) assms(2) by (auto simp: start_node_def Let_def report_to_orchestrator_def)
  then show "\<exists>h. get_node rg' (se_node_id s) = Some h \<and> serving h \<and> wh_port h = nat (se_port s)
       \<and> wh_host h = (let a = (if se_advertised_host s \<noteq> [] then se_advertised_host s else se_host s)
                      in if a = ''0.0.0.0'' then ''127.0.0.1'' else a)
       \<and> wh_shards h = map shard_dict_of (no_loaded_shards st)"
    using i by (simp add: node_payload_def register_node_def register_def put_node_def new_host_def prepared_def get_node_def
        serving_def save_node_def Let_def)
qed

section \<open>Properties\<close>

text \<open>
  C26: A node that is set up works: after a setup that ends well the shards verify, every shard of the config is on disk, and
  the node started with that config and an orchestrator in reach loads each of them with its file and is in service there, under
  its id, on the port it listens on, with exactly these shards.
\<close>

theorem setup_makes_working_node:
  assumes "cmd_setup loads sha hub_for uuid8 env args mc = (Inr (node_id, path), mc')"
    "well_keyed (md_files (model_dir_of (nm_dir mc) (su_model args)))" "su_model args \<noteq> []"
    and "cmd_start uuid8' sargs env0 = (env', host, port)" "sr_config sargs = Some path" "sr_node_id sargs = Some node_id" "0 \<le> port"
    and "boot_node rd mc' env' True now now_text b rg = Inr (s, st, b', rg')" "se_orchestrator_url s \<noteq> []"
  shows "cmd_verify sha (Some (su_model args)) mc' = Done
    \<and> cmd_shards (Some path) mc' = Some (map (\<lambda>x. (x, True)) (no_loaded_shards st))
    \<and> list_all (\<lambda>x. map_of (no_file_map st) (ns_shard_id x) \<noteq> None) (no_loaded_shards st)
    \<and> (\<exists>h. get_node rg' node_id = Some h \<and> serving h \<and> wh_port h = nat port
         \<and> wh_shards h = map shard_dict_of (no_loaded_shards st))"
proof -
  let ?m = "su_model args"
  obtain man req dir1 where i: "index_shards loads sha ?m dir1 = (Inr man, nm_dir mc')" "well_keyed (md_files (model_dir_of dir1 ?m))"
    "map_of (nm_configs mc') path = Some (map (shard_config_of ?m) (filter (\<lambda>e. in_requested req (sf_layer_range e)) (sm_files man)))"
    "node_id \<noteq> []" "path \<noteq> []" using setup_spec [OF assms(1,2)] by blast
  note e = start_environment [OF assms(4)] and bh = booted_host [OF assms(8,9)]
  have s: "se_config_path s = path" "se_node_id s = node_id" "se_port s = port"
    using settings_fields(3,4) [OF bh(1)] settings_port(1) [OF bh(1) e(1)] e(4) e(5) [OF assms(5) i(5)] e(6) [OF assms(6) i(4)] i(4) assms(7)
    by simp_all
  let ?shards = "map (node_shard_of (nm_root mc')) (map (shard_config_of ?m) (filter (\<lambda>e. in_requested req (sf_layer_range e)) (sm_files man)))"
  have disk: "\<forall>x \<in> set ?shards. ns_shard_id x \<noteq> [] \<and> ns_filepath x \<noteq> [] \<and> ns_filepath x \<in> set (dkeys (disk_files mc'))"
    using configured_on_disk indexed_files_present [OF i(1,2)] by fastforce
  have st: "no_loaded_shards st = ?shards" "no_file_map st = fold (add_shard_file (disk_files mc')) ?shards []"
    unfolding bh(3) by (simp_all add: config_file_at_def s(1) i(3) load_shard_config_def)
  have "intact (verify_all sha (nm_dir mc') ?m)" using indexed_shards_verify [OF i(1,2)] by (simp add: intact_def)
  then have "cmd_verify sha (Some ?m) mc' = Done" using assms(3) by (simp add: cmd_verify_def first_of_def)
  moreover have "cmd_shards (Some path) mc' = Some (map (\<lambda>x. (x, True)) ?shards)"
    using i(3,5) disk by (auto simp: cmd_shards_def first_of_def Let_def)
  moreover have "list_all (\<lambda>x. map_of (no_file_map st) (ns_shard_id x) \<noteq> None) ?shards"
    unfolding st(2) list_all_iff using loaded_files [OF disk] by blast
  ultimately show ?thesis using bh(4) unfolding s st(1) by blast
qed

text \<open>
  Library fact: The selector picks what it shows: whatever is typed, the highlighted line stays one of the options and only a line that exists
  is picked; arrows move round the list by one line each, and Enter takes the line they end on.
\<close>

theorem selector_follows_keys:
  assumes "options \<noteq> []"
  shows "(case select_loop (length options) 0 typed of
        Waiting i \<Rightarrow> 0 \<le> i \<and> i < int (length options) | Picked i \<Rightarrow> 0 \<le> i \<and> i < int (length options)
      | CancelledSelection \<Rightarrow> True | NothingToSelect \<Rightarrow> False)
    \<and> select_loop (length options) 0 (concat (map arrow_key moves) @ CHR 0x0D # r)
        = Picked (sum_list (map move moves) mod int (length options))
    \<and> length (render_lines options selected title width) = total_lines (length options)"
  using assms select_loop_range [of 0 "length options" typed] select_loop_arrows [of 0 "length options" moves r]
  by (simp add: render_lines_def total_lines_def Let_def)

text \<open>
  Library fact: The three ways to choose a mode agree: without the dialog program and without a mode in the environment, the arrow keys with
  Enter, the digit of the line, and the numbered prompt all launch the mode of the chosen line.
\<close>

theorem mode_choices_agree:
  assumes "i < 3" "te_isatty te" "te_dialog te = None"
    and "py_strip (py_lower (env_or env ''NODE_ROLE'' [])) \<noteq> ''shard''"
    and "py_lower (env_or env ''MAESTRO_MODE'' []) \<notin> {''web'', ''cli'', ''tui''}"
    and "if te_raw te then te_typed te = concat (replicate i (arrow_key True)) @ CHR 0x0D # r \<or> te_typed te = nat_str (i + 1) @ r
         else te_line te = Some (nat_str (i + 1))"
  shows "startup_main env te = Launched (launch_of env (mo_key (MODE_OPTIONS ! i)))"
proof -
  have n: "length MODE_OPTIONS = 3" by (simp add: MODE_OPTIONS_def)
  have i: "i < 9" using assms(1) by simp
  have "interactive_select MODE_OPTIONS te = Picked (int i)"
  proof (cases "te_raw te")
    case True
    have "select_loop 3 0 (concat (map arrow_key (replicate i True)) @ CHR 0x0D # r) = Picked ((0 + sum_list (map move (replicate i True))) mod int 3)"
      by (rule select_loop_arrows) simp_all
    then have a: "select_loop 3 0 (concat (replicate i (arrow_key True)) @ CHR 0x0D # r) = Picked (int i)"
      using assms(1) by (simp add: move_def sum_list_replicate)
    have "select_loop 3 0 (nat_str (i + 1) @ r) = Picked (int i)"
      using option_digit [OF i] assms(1) by (subst select_loop.simps) simp
    then show ?thesis using a True assms(2,6) n by (auto simp: interactive_select_def)
  next
    case False
    have "py_strip (nat_str (i + 1)) = nat_str (i + 1)"
      using nat_str_digits [of "i + 1"] by (intro strip_unspaced) (auto simp: list_all_iff digit_no_space)
    then show ?thesis using False assms(6) n find_line [of i 3] assms(1) by (simp add: interactive_select_def plain_select_def Let_def)
  qed
  then have "show_dialog te = Mode (mo_key (MODE_OPTIONS ! i))" using assms(3) by (simp add: show_dialog_def plain_prompt_def)
  then show ?thesis using assms(2,4,5) by (auto simp: startup_main_def Let_def launch_of_def)
qed

text \<open>
  Library fact: Where the dialog program is installed, a start at a terminal that leaves the choice to it ends in an exception: three of the
  arguments are numbers.
\<close>

theorem installed_dialog_stops_startup:
  assumes "te_isatty te" "te_dialog te \<noteq> None"
    and "py_strip (py_lower (env_or env ''NODE_ROLE'' [])) \<noteq> ''shard''"
    and "py_lower (env_or env ''MAESTRO_MODE'' []) \<notin> {''web'', ''cli'', ''tui''}"
  shows "startup_main env te = StartupRaises"
proof -
  have "process_arguments dialog_command = None" by (simp add: dialog_command_def)
  then have "show_dialog te = NoMode StartupRaises" using assms(2) by (auto simp: show_dialog_def dialog_gui_def)
  then show ?thesis using assms(1,3,4) by (auto simp: startup_main_def Let_def)
qed

text \<open>
  Library fact: A shard worker of the entry point listens on port 8000 and, without a node port in the environment, registers port 8001, and
  without an advertised host the loopback address: the orchestrator's address of it is not the one it listens on.
\<close>

theorem worker_registers_unused_port:
  assumes "startup_main env te = Launched (LaunchServer argv env')" "py_strip (py_lower (env_or env ''NODE_ROLE'' [])) = ''shard''"
    and "env ''MAESTRO_NODE_PORT'' = None" "env ''MAESTRO_NODE_HOST'' = None" "env ''MAESTRO_ADVERTISED_HOST'' = None"
    and "boot_node rd mc env' True now now_text b rg = Inr (s, st, b', rg')" "se_orchestrator_url s \<noteq> []"
  shows "last argv = ''8000'' \<and> (\<exists>h. get_node rg' (no_node_id st) = Some h \<and> wh_host h = ''127.0.0.1'' \<and> wh_port h = 8001)"
proof -
  have l: "launch_shard_worker env = LaunchServer argv env'" using assms(1,2) by (simp add: startup_main_def)
  then have "env' k = env k" if "k \<notin> {''MAESTRO_NODE_ID'', ''MAESTRO_ORCHESTRATOR_URL''}" for k
    using that by (auto simp: launch_shard_worker_def Let_def setdefault_def)
  then have e: "env' ''MAESTRO_NODE_PORT'' = None" "env' ''MAESTRO_NODE_HOST'' = None" "env' ''MAESTRO_ADVERTISED_HOST'' = None"
    using assms(3-5) by simp_all
  note bh = booted_host [OF assms(6,7)]
  have "se_port s = 8001" "se_host s = ''0.0.0.0''" "se_advertised_host s = []"
    using settings_port(2) [OF bh(1) e(1)] settings_fields(2) [OF bh(1) e(2)] settings_fields(7) [OF bh(1) e(3)] by simp_all
  then show ?thesis using bh(2,4) l by (auto simp: launch_shard_worker_def Let_def)
qed

section \<open>Sample instances\<close>

definition demo_setup :: setup_args where
  "demo_setup = \<lparr>su_model = ''m'', su_layers = Some ''1-1'', su_token = None, su_node_id = Some ''n'', su_config = None\<rparr>"

definition demo_start :: start_args where
  "demo_start = \<lparr>sr_port = 9001, sr_host = ''0.0.0.0'', sr_node_id = Some ''n'', sr_config = Some ''data/node_shards.json'',
     sr_orchestrator = Some ''o'', sr_advertised_host = None\<rparr>"

definition bare_machine :: node_machine where
  "bare_machine = \<lparr>nm_root = ''shards'', nm_dir = [], nm_configs = []\<rparr>"

lemma demo_download:
  "\<exists>dir. download_model_shards demo_loads b64encode demo_hub ''m'' 1 1 [] = (Inr [''b.safetensors''], dir) \<and> ok (fst (generate_shard_config demo_loads b64encode ''m'' (Some (1, 1)) dir))"
proof -
  let ?files = "[(INDEX_NAME, [9]), (''b.safetensors'', [1, 0, 0, 0, 0, 0, 0, 0, 2])]"
  let ?md = "\<lparr>md_files = ?files, md_manifest = NoManifest\<rparr>"
  have st: "sort (filter (ends_with ''.safetensors'') (dkeys demo_files)) \<noteq> []" by code_simp
  have t: "target_files demo_loads demo_hub ''m'' fs 1 1 (model_dir_of [] ''m'') = ([''b.safetensors''], \<lparr>md_files = [(INDEX_NAME, [9])], md_manifest = NoManifest\<rparr>)" for fs
    by (simp add: target_files_def resolve_files_for_layers_def demo_weight_map final_layer_without_head)
      (simp add: fetch_index_def demo_hub_def demo_files_def put_file_def INDEX_NAME_def model_dir_of_def dget_def empty_model_dir_def)
  have f: "fetch_files demo_hub ''m'' [''b.safetensors''] \<lparr>md_files = [(INDEX_NAME, [9])], md_manifest = NoManifest\<rparr> = ([''b.safetensors''], ?md)"
    by (simp add: fetch_files_def fetch_file_def base_name_def demo_hub_def demo_files_def put_file_def INDEX_NAME_def)
  have m: "model_dir_of (dset (safe_name ''m'') ?md d) ''m'' = ?md" for d by (simp add: model_dir_of_def)
  have g: "\<forall>g c. map_of (md_files ?md) g = Some c \<longrightarrow> ends_with ''.safetensors'' g \<longrightarrow> good_shard demo_loads c"
    by (auto simp: INDEX_NAME_def ends_with_def good_shard_def demo_headers split: if_splits)
  have w: "well_keyed (md_files ?md)" by (simp add: well_keyed_def INDEX_NAME_def)
  let ?dir = "dset (safe_name ''m'') ?md (dset (safe_name ''m'') (model_dir_of [] ''m'') [])"
  have "\<exists>man dir'. index_shards demo_loads b64encode ''m'' ?dir = (Inr man, dir') \<and> load_shard_manifest dir' ''m'' = Some man"
    using index_shards_good [OF w m [of "dset (safe_name ''m'') (model_dir_of [] ''m'') []"] g, where sha = b64encode]
    by (elim exE conjE) (intro exI conjI)
  then obtain man dir' where i: "index_shards demo_loads b64encode ''m'' ?dir = (Inr man, dir')" "load_shard_manifest dir' ''m'' = Some man"
    by (elim exE conjE)
  have "hb_installed demo_hub" "hb_list demo_hub ''m'' = Some (dkeys demo_files)" by (simp_all add: demo_hub_def)
  then have "download_model_shards demo_loads b64encode demo_hub ''m'' 1 1 [] = (Inr [''b.safetensors''], dir')"
    using st t f i(1) by (simp add: download_model_shards_def Let_def)
  then show ?thesis using i(2) by (simp add: generate_shard_config_def)
qed

lemma demo_setup_ends_well:
  "\<exists>mc. cmd_setup demo_loads b64encode (\<lambda>_. demo_hub) [] (\<lambda>_. None) demo_setup bare_machine = (Inr (''n'', ''data/node_shards.json''), mc)"
proof -
  have l: "parse_layers (Some ''1-1'') = Some (1, 1)" by code_simp
  obtain dir where d: "download_model_shards demo_loads b64encode demo_hub ''m'' 1 1 [] = (Inr [''b.safetensors''], dir)"
    "ok (fst (generate_shard_config demo_loads b64encode ''m'' (Some (1, 1)) dir))" using demo_download by blast
  obtain c dir' where "generate_shard_config demo_loads b64encode ''m'' (Some (1, 1)) dir = (Inr c, dir')"
    using d(2) by (cases "generate_shard_config demo_loads b64encode ''m'' (Some (1, 1)) dir") (auto elim: ok.elims)
  then show ?thesis using d(1) l
    by (simp add: cmd_setup_def demo_setup_def bare_machine_def Let_def first_of_def setup_config_path_def)
qed

lemma demo_boot_ends_well:
  assumes "cmd_start [] demo_start (\<lambda>_. None) = (env', host, port)"
  shows "\<exists>s node. boot_node rd mc env' True now now_text b rg = Inr (s, node) \<and> se_orchestrator_url s = ''o''"
proof -
  have e: "env' ''MAESTRO_NODE_PORT'' = Some (int_str 9001)" "env' ''MAESTRO_HEARTBEAT_INTERVAL'' = None" "env' ''SHARD_COUNT'' = None"
    "env' ''NODE_ROLE'' = None" "env' ''MAESTRO_ORCHESTRATOR_URL'' = Some ''o''"
    using assms by (auto simp: cmd_start_def Let_def set_given_other set_given_same demo_start_def)
  have i: "int_or_error ''1'' = Inr 1" "int_or_error ''60'' = Inr 60" by code_simp+
  have p: "int_or_error (int_str 9001) = Inr 9001" by (simp add: py_int_int_str)
  have r: "py_strip (py_lower []) = []" by code_simp
  show ?thesis using e i p r by (simp add: boot_node_def node_settings_of_def detect_cluster_config_def del: int_or_error.simps split_paired_Ex)
qed

lemma setup_makes_working_node_witness:
  "\<exists>mc (st :: node_state) (h :: WeightHost). cmd_verify b64encode (Some ''m'') mc = Done \<and> cmd_shards (Some ''data/node_shards.json'') mc = Some (map (\<lambda>x. (x, True)) (no_loaded_shards st))
     \<and> wh_port h = nat 9001 \<and> wh_shards h = map shard_dict_of (no_loaded_shards st)"
proof -
  obtain mc where mc: "cmd_setup demo_loads b64encode (\<lambda>_. demo_hub) [] (\<lambda>_. None) demo_setup bare_machine
      = (Inr (''n'', ''data/node_shards.json''), mc)" using demo_setup_ends_well by blast
  obtain env' host port where st: "cmd_start [] demo_start (\<lambda>_. None) = (env', host, port)" by (cases "cmd_start [] demo_start (\<lambda>_. None)")
  then have port: "port = 9001" using start_environment(4) [OF st] by (simp add: demo_start_def)
  obtain s nd b' rg' where b: "boot_node sample_redis mc env' True 0 [] None sample_registry = Inr (s, nd, b', rg')" "se_orchestrator_url s = ''o''"
    using demo_boot_ends_well [OF st] by (metis prod_cases3)
  have "well_keyed (md_files (model_dir_of (nm_dir bare_machine) (su_model demo_setup)))" "su_model demo_setup = ''m''"
    by (simp_all add: bare_machine_def demo_setup_def model_dir_of_def dget_def empty_model_dir_def)
  then have "cmd_verify b64encode (Some ''m'') mc = Done
      \<and> cmd_shards (Some ''data/node_shards.json'') mc = Some (map (\<lambda>x. (x, True)) (no_loaded_shards nd))
      \<and> list_all (\<lambda>x. map_of (no_file_map nd) (ns_shard_id x) \<noteq> None) (no_loaded_shards nd)
      \<and> (\<exists>h. get_node rg' ''n'' = Some h \<and> serving h \<and> wh_port h = nat 9001 \<and> wh_shards h = map shard_dict_of (no_loaded_shards nd))"
    using setup_makes_working_node [OF mc _ _ st _ _ _ b(1)] b(2) port by (simp add: demo_start_def)
  then show ?thesis by (elim exE conjE) (intro exI conjI)
qed

definition plain_terminal :: terminal where
  "plain_terminal = \<lparr>te_isatty = True, te_raw = True, te_dialog = None, te_typed = ''2'', te_line = None\<rparr>"

lemma mode_choices_agree_witness:
  "startup_main (\<lambda>_. None) plain_terminal = Launched LaunchCli"
proof -
  have "py_strip (py_lower []) = []" by code_simp
  moreover have "nat_str 2 = ''2''" by code_simp
  ultimately show ?thesis
    using mode_choices_agree [of 1 plain_terminal "\<lambda>_. None" "[]"]
    by (simp add: plain_terminal_def launch_of_def MODE_OPTIONS_def py_lower_def numeral_2_eq_2)
qed

lemma selector_follows_keys_witness:
  "select_loop 3 0 (concat (map arrow_key [True, True, False]) @ [CHR 0x0D]) = Picked 1"
proof -
  have "length MODE_OPTIONS = 3" "MODE_OPTIONS \<noteq> []" by (simp_all add: MODE_OPTIONS_def)
  then show ?thesis using selector_follows_keys [of MODE_OPTIONS "[]" "[True, True, False]" "[]"] by (simp add: move_def)
qed

lemma installed_dialog_stops_startup_witness:
  "startup_main (\<lambda>_. None) (plain_terminal\<lparr>te_dialog := Some (\<lambda>_. ''web'')\<rparr>) = StartupRaises"
proof -
  have "py_strip (py_lower []) = []" by code_simp
  then show ?thesis
    using installed_dialog_stops_startup [of "plain_terminal\<lparr>te_dialog := Some (\<lambda>_. ''web'')\<rparr>" "\<lambda>_. None"]
    by (simp add: plain_terminal_def py_lower_def)
qed

text \<open>A lone Escape does not cancel: the next two keys go with it.\<close>

lemma escape_takes_two_keys:
  "select_loop 3 0 [CHR 0x1B] = Waiting 0"
  "select_loop 3 0 [CHR 0x1B, CHR 0x0D, CHR 0x0D] = CancelledSelection"
  by (simp_all add: select_loop.simps read_key_unix_def)

definition worker_env :: env where
  "worker_env = [''NODE_ROLE'' \<mapsto> ''shard'', ''NODE_ID'' \<mapsto> ''shard-1'', ''ORCHESTRATOR_URL'' \<mapsto> ''o'']"

lemma worker_registers_unused_port_witness:
  "\<exists>h. wh_host h = ''127.0.0.1'' \<and> wh_port h = 8001 \<and> (\<exists>rg. get_node rg ''shard-1'' = Some h)"
proof -
  have r: "py_strip (py_lower ''shard'') = ''shard''" by code_simp
  obtain argv env' where l: "launch_shard_worker worker_env = LaunchServer argv env'"
    "env' = worker_env(''MAESTRO_NODE_ID'' \<mapsto> ''shard-1'', ''MAESTRO_ORCHESTRATOR_URL'' \<mapsto> ''o'')"
    by (simp add: launch_shard_worker_def Let_def worker_env_def setdefault_def)
  have i: "int_or_error ''1'' = Inr 1" "int_or_error ''60'' = Inr 60" "int_or_error ''8001'' = Inr 8001" by code_simp+
  have "\<exists>s node. boot_node sample_redis bare_machine env' True 0 [] None sample_registry = Inr (s, node)
      \<and> se_orchestrator_url s = ''o'' \<and> se_node_id s = ''shard-1''"
    using i r by (simp add: boot_node_def node_settings_of_def detect_cluster_config_def l(2) worker_env_def del: int_or_error.simps split_paired_Ex)
  then obtain s nd b' rg' where b: "boot_node sample_redis bare_machine env' True 0 [] None sample_registry = Inr (s, nd, b', rg')"
    "se_orchestrator_url s = ''o''" "se_node_id s = ''shard-1''" by (metis prod_cases3)
  have "no_node_id nd = ''shard-1''" using booted_host(2) [OF b(1)] b(2,3) by simp
  then show ?thesis
    using worker_registers_unused_port [of worker_env plain_terminal argv env', OF _ _ _ _ _ b(1)] b(2) l(1) r
    by (auto simp: startup_main_def worker_env_def)
qed

end
