(* ===== verification/Spec2Isabelle.thy ===== *)
theory Spec2Isabelle
  imports Self_Improve Orchestrator Trust_Files Cluster Storage_Network Lan_Discovery Benchmark Plugins Whirlpool Cert_Pinning Keyring Instances Updater Generators Dependencies Shard_Download Control_Api Web_Clients Engine_Api Plugin_Api Storage_Api Startup
begin

text \<open>
  Maestro sends one prompt to a council of language models, lets the answers deliberate, measures
  how far they agree (dissent) and how far they drift from an unframed baseline (NCG), aggregates
  them into a consensus with a quorum, scores the session (R2) and writes it to a ledger.  MAGI
  reads the ledger across sessions; a self-improvement cycle turns its signals into proposals for
  the program's own parameters, tests them in a sandbox (MAGI VIR) and, when enabled, injects them
  into the running system with a rollback log.  Around it a network of nodes stores model shards, proves
  that it does, discovers its neighbours and shares signed knowledge.  This development models that core.

  Theories and the files they model (all under \<^verbatim>\<open>src/maestro/\<close>):

  \<^item> Prelude: rounding to four decimals, strings, dictionaries as association lists in insertion
    order, stable descending sort, counting, errors as sums.
  \<^item> Stores: the locales of the directories that keep one file per record, interpreted by the
    sessions, the improvement cycles and the registries.
  \<^item> Dissent (\<^verbatim>\<open>dissent.py\<close>), Drift (\<^verbatim>\<open>ncg/drift.py\<close>), Aggregator (\<^verbatim>\<open>aggregator.py\<close>): the
    analyses of one session; the clustering loop terminates by the number of unassigned agents.
  \<^item> Deliberation (\<^verbatim>\<open>deliberation.py\<close>), Session (\<^verbatim>\<open>session.py\<close>), Orchestrator (\<^verbatim>\<open>orchestrator.py\<close>):
    one orchestration, plain and streaming, with its session and ledger writes.
  \<^item> R2 (\<^verbatim>\<open>r2.py\<close>), Magi (\<^verbatim>\<open>magi.py\<close>), Introspect (\<^verbatim>\<open>introspect.py\<close>), Optimization
    (\<^verbatim>\<open>optimization.py\<close>): scores, signals and the ledger, the cross-session analysis, the mapping of
    signals to code, the proposals.
  \<^item> Magi_Vir (\<^verbatim>\<open>magi_vir.py\<close>), Injection_Guard (\<^verbatim>\<open>injection_guard.py\<close>), Rollback (\<^verbatim>\<open>rollback.py\<close>),
    Applicator (\<^verbatim>\<open>applicator.py\<close>), Self_Improve (\<^verbatim>\<open>self_improve.py\<close>): sandbox validation, guard,
    log, injection and the improvement cycle.
  \<^item> Py_Codec: UTF-8, base64, JSON values and the sorted JSON text that is hashed and signed.
  \<^item> Librarian, Scribe, Trust_Files (\<^verbatim>\<open>librarian/\<close>): content-addressed manifests, verification
    against a trust list and a policy, the store, the signing of manifests and the files they rest on.
  \<^item> Storage_Proof (\<^verbatim>\<open>storage_proof.py\<close>), Shard_Registry (\<^verbatim>\<open>shard_registry.py\<close>), Shard_Store
    (\<^verbatim>\<open>shard_utils.py\<close>, \<^verbatim>\<open>shard_manager.py\<close>), Storage_Network (\<^verbatim>\<open>node_server.py\<close>, \<^verbatim>\<open>api_storage.py\<close>):
    challenges and reputations, the hosts and the pipelines over their layers, the shard files of a
    node, and the routes that connect them.
  \<^item> Cluster (\<^verbatim>\<open>cluster.py\<close>, \<^verbatim>\<open>state_bus.py\<close>, \<^verbatim>\<open>api_cluster.py\<close>): routing of tasks to shards.
  \<^item> Lan_Discovery (\<^verbatim>\<open>lan_discovery.py\<close>): peers, handshake and the formation of a node.
  \<^item> Context_Graph, Router, Benchmark (\<^verbatim>\<open>router/\<close>): the graph the router walks, the distances of a
    claim from a query, the conformity score that picks the dissenter, and the benchmark that measures them.
  \<^item> Plugins (\<^verbatim>\<open>plugins/\<close>): the mod manager, from discovery to snapshots.
  \<^item> Whirlpool (\<^verbatim>\<open>whirlpool/\<close>): the feed adapters and the ingest cycle.
  \<^item> Cert_Pinning (\<^verbatim>\<open>security/\<close>), Keyring (\<^verbatim>\<open>keyring.py\<close>): pinned keys of servers, API keys.
  \<^item> Instances (\<^verbatim>\<open>instances.py\<close>): the instances on a host, their registry, spawning and stopping.
  \<^item> Updater (\<^verbatim>\<open>updater.py\<close>): the check for new commits, the update, the background updater.
  \<^item> Agents (\<^verbatim>\<open>agents/\<close>): the agents behind the \<^verbatim>\<open>fetch\<close> of the council: HTTP, distributed, mock.
  \<^item> Generators (\<^verbatim>\<open>ncg/generator.py\<close>): the headless baselines behind an API.
  \<^item> Dependencies (\<^verbatim>\<open>dependency_resolver.py\<close>): the health report and the installation of packages.
  \<^item> Shard_Download (\<^verbatim>\<open>shard_manager.py\<close>, \<^verbatim>\<open>api_storage.py\<close>): the files of a range of layers, the background
    downloads.
  \<^item> Control_Api (\<^verbatim>\<open>api_update.py\<close>, \<^verbatim>\<open>api_keys.py\<close>, \<^verbatim>\<open>api_instances.py\<close>, \<^verbatim>\<open>backend/main.py\<close>): the control
    routes, the settings they write and the restart that reads them.
  \<^item> Web_Clients (\<^verbatim>\<open>backend/main.py\<close>, \<^verbatim>\<open>tui/backend.py\<close>): the ask routes, the text of the events, its readers.
  \<^item> Engine_Api (\<^verbatim>\<open>api_sessions.py\<close>, \<^verbatim>\<open>api_magi.py\<close>, \<^verbatim>\<open>api_self_improve.py\<close>), Plugin_Api
    (\<^verbatim>\<open>api_plugins.py\<close>): the routes over the stores, the improvement engine and the mod manager.
  \<^item> Node_Server (\<^verbatim>\<open>node_server.py\<close>), Storage_Api (\<^verbatim>\<open>api_storage.py\<close>): the inference of a node and
    its life, the pipeline over real nodes, the network routes.
  \<^item> Startup (\<^verbatim>\<open>entrypoint.py\<close>, \<^verbatim>\<open>selector.py\<close>, \<^verbatim>\<open>node_cli.py\<close>): the choice of a mode and the
    commands of a node operator, up to the running node.

  Conventions.  A Python float is an exact real, and only the explicit \<^verbatim>\<open>round(x, 4)\<close> is modelled
  (half to even); a string is a list of characters, characters beyond 255 standing as their UTF-8
  bytes; a dictionary is an association list updated in place, so iteration order is that of the
  program; a directory of JSON files maps each id to its content, \<^term>\<open>None\<close> when it does not
  parse.  The clock, fresh ids, the embedding model, what an agent answers, the reload of a module,
  SHA-256, the signature scheme, Redis, the network and the printing of a float are parameters.  A raise is a value of a sum type.  There is no fuel:
  every loop is structural or has a termination proof, and the one recursion of the program that may not end,
  the enabling of a plugin, takes the depth of Python's stack, with a proof that one more than the number of plugins
  is enough when their dependencies have no cycle.

  What the theorems show.  Per component: the report of each analysis is well formed and each of
  its alerts is raised exactly under its condition; stores give back what was saved; a refused
  injection changes nothing, an applied one respects the guard, a rollback restores the variables.
  Across components: an orchestration always returns and what it wrote can be read back, the two
  orchestrations agree, a cycle changes the system only after a measured improvement, and a cycle
  that only tightens thresholds never does.  A store reachable by commits loads every manifest verified,
  tampering is refused, a pipeline covers the longest prefix of layers, a dispatched task reaches its
  owner, and three shards that hear each other form one node.  Several theorems state where the program does not do
  what it says; the manifest lists them as findings.

  Not modelled: the rendering of the terminal and web interfaces, the command line and the interactive set-up
  (printing and prompts), the event stream of the updater, the
  plugin hooks inside an orchestration, the federation of the librarian and the context router (their bodies raise
  NotImplementedError), and the durations and log output.  Subprocesses, git, docker, the model hub and sockets are
  parameters of the parts that call them.
\<close>

section \<open>From the ledger to the proposals\<close>

lemma declining_trend:
  assumes "4 \<le> length (timed_entries dir limit)" "timed_entries dir limit = newer @ older"
    "length newer = length (timed_entries dir limit) div 2"
    "mean_of (map (\<lambda>x. r2_confidence_score (le_score (snd x))) older) + 1 / 10
       < mean_of (map (\<lambda>x. r2_confidence_score (le_score (snd x))) newer)"
  shows "''confidence_declining'' \<in> set (lt_trends (analyze_ledger_trends dir limit))"
proof -
  let ?s = "map (\<lambda>e. r2_confidence_score (le_score e)) (load_recent_entries dir limit)"
  have "half_shift ?s < - 1 / 10"
    using assms(2-4) by (simp add: half_shift_def Let_def load_recent_timed comp_def take_map [symmetric] drop_map [symmetric])
  then have "''confidence_declining'' \<in> set (confidence_trend ?s)"
    using assms(1) by (simp add: confidence_trend_def Let_def load_recent_timed)
  then show ?thesis using assms(1) by (simp add: analyze_ledger_trends_def Let_def load_recent_timed)
qed

lemma declining_no_medium:
  assumes "''confidence_declining'' \<in> set trends" "p \<in> set (pb_proposals (generate_proposals s fresh now report recs trends))"
  shows "op_priority p \<noteq> ''medium''"
proof -
  have "p \<in> escalate ` set (stamp fresh now (raw_proposals s report recs))"
    using assms keep_first_subset by (fastforce simp: generate_proposals_def Let_def)
  then show ?thesis by (auto simp: escalate_def)
qed

text \<open>
  Library fact: A system whose confidence rises is treated as one in decline: when the newer half of the
  sessions scores better than the older half by more than 0.1, the improvement cycle reports a
  declining trend and escalates every proposal of medium priority, because the ledger is read
  newest first and its halves are compared the wrong way round.
\<close>

theorem rising_confidence_escalates:
  assumes "4 \<le> length (timed_entries ledger 50)" "timed_entries ledger 50 = newer @ older"
    "length newer = length (timed_entries ledger 50) div 2"
    "mean_of (map (\<lambda>x. r2_confidence_score (le_score (snd x))) older) + 1 / 10
       < mean_of (map (\<lambda>x. r2_confidence_score (le_score (snd x))) newer)"
    "run_cycle env i mtime node bs ledger w dir = (cycle, w', dir')"
  shows "mr_confidence_trend (magi_analyze ledger 50 n) = ''declining''
    \<and> list_all (\<lambda>p. op_priority p \<noteq> ''medium'') (cy_proposals cycle)"
proof -
  note d = declining_trend [OF assms(1-4)]
  have "''confidence_improving'' \<notin> set (lt_trends (analyze_ledger_trends ledger 50))"
    using d by (auto simp: analyze_ledger_trends_def confidence_trend_def Let_def split: if_splits)
  then have "mr_confidence_trend (magi_analyze ledger 50 n) = ''declining''"
    using d by (simp add: magi_analyze_def classify_trend_def Let_def)
  moreover have "cy_proposals cycle = proposals_of (analysis_phase env ledger w)"
    using run_cycle_cases [OF assms(5)] by simp
  ultimately show ?thesis
    using declining_no_medium [OF d] by (auto simp: analysis_phase_def proposals_of_def run_introspection_pipeline_def Let_def list_all_iff split: option.splits)
qed

lemma rising_confidence_escalates_witness:
  "mr_confidence_trend (magi_analyze (sample_ledger (1 / 2) (1 / 2) 1 1) 50 4) = ''declining''"
proof -
  have t: "timed_entries (sample_ledger (1 / 2) (1 / 2) 1 1) 50 =
      [(4, sample_entry ''4'' 1), (3, sample_entry ''3'' 1)] @ [(2, sample_entry ''2'' (1 / 2)), (1, sample_entry ''1'' (1 / 2))]"
    by (simp add: timed_entries_def recent_files_def sample_ledger_def sort_desc_def List.map_filter_def)
  obtain cycle w' dir' where
    r: "run_cycle (sample_env 1 []) ''c'' 1 ''local'' [] (sample_ledger (1 / 2) (1 / 2) 1 1) sample_system [] = (cycle, w', dir')"
    by (metis prod_cases3)
  show ?thesis
    using rising_confidence_escalates [OF _ t _ _ r, of 4] by (simp add: t mean_of_def sample_entry_def sample_score_def)
qed

end
